(* ===== verification/Py_Float.thy ===== *)
theory Py_Float
  imports Complex_Main "HOL-Library.Log_Nat"
begin

text \<open>
  Python's \<^verbatim>\<open>float\<close>: IEEE 754 binary64 with rounding to nearest, ties to even. A finite float is
  the rational it denotes, and every arithmetic operation of the code is the exact operation
  followed by \<open>rnd64\<close>. Subnormals are there (the exponent stops at -1074); overflow to infinity
  is not: \<open>rnd64\<close> has no largest exponent, so the model agrees with the machine as long as
  results stay below \<open>2 ^ 1024\<close>. Non-finite inputs are values of \<open>pyfloat\<close> (theory Prelude), which
  the code's checks meet before any arithmetic.
\<close>

subsection \<open>Rounding\<close>

text \<open>The exponent of the leading bit of a positive rational, from the bit lengths of its
  numerator and denominator.\<close>

definition ilog2 :: "rat \<Rightarrow> int" where
  "ilog2 x = (let (p, q) = quotient_of x; e = bitlen p - bitlen q
              in if 2 powi e \<le> x then e else e - 1)"

definition round_half_even :: "rat \<Rightarrow> int" where
  "round_half_even x = (let f = \<lfloor>x\<rfloor>; d = x - of_int f
     in if d < 1 / 2 then f else if 1 / 2 < d then f + 1 else if even f then f else f + 1)"

definition fexp :: "rat \<Rightarrow> int" where
  "fexp x = max (- 1074) (ilog2 \<bar>x\<bar> - 52)"

definition rnd64 :: "rat \<Rightarrow> rat" where
  "rnd64 x = (if x = 0 then 0 else of_int (round_half_even (x / 2 powi fexp x)) * 2 powi fexp x)"


lemma two_pow_le_of_int: "2 ^ n \<le> k \<Longrightarrow> (2::rat) ^ n \<le> of_int k"
  by (metis of_int_le_iff of_int_numeral of_int_power)

lemma of_int_less_two_pow: "k < 2 ^ n \<Longrightarrow> of_int k < (2::rat) ^ n"
  by (metis of_int_less_iff of_int_numeral of_int_power)

lemma ilog2_bounds:
  assumes "0 < x"
  shows "2 powi ilog2 x \<le> x" and "x < 2 powi (ilog2 x + 1)"
proof -
  obtain p q where pq: "quotient_of x = (p, q)" by (cases "quotient_of x")
  have q: "0 < q" using pq by (rule quotient_of_denom_pos)
  have x: "x = of_int p / of_int q" using pq by (rule quotient_of_div)
  have p: "0 < p" using assms q unfolding x by (simp add: zero_less_divide_iff)
  define e where "e = bitlen p - bitlen q"
  have bp: "2 ^ nat (bitlen p - 1) \<le> p" "p < 2 ^ nat (bitlen p)"
    using bitlen_bounds [OF p] by auto
  have bq: "2 ^ nat (bitlen q - 1) \<le> q" "q < 2 ^ nat (bitlen q)"
    using bitlen_bounds [OF q] by auto
  have lp: "1 \<le> bitlen p" and lq: "1 \<le> bitlen q"
    using p q bitlen_eq_zero_iff bitlen_nonneg by (metis int_one_le_iff_zero_less not_le order.strict_iff_order)+
  have P1: "(2::rat) powi (bitlen p - 1) \<le> of_int p"
    using two_pow_le_of_int [OF bp(1)] lp by (simp add: power_int_def)
  have P2: "of_int p < (2::rat) powi bitlen p"
    using of_int_less_two_pow [OF bp(2)] lp by (simp add: power_int_def)
  have Q1: "(2::rat) powi (bitlen q - 1) \<le> of_int q"
    using two_pow_le_of_int [OF bq(1)] lq by (simp add: power_int_def)
  have Q2: "of_int q < (2::rat) powi bitlen q"
    using of_int_less_two_pow [OF bq(2)] lq by (simp add: power_int_def)
  have lo: "2 powi (e - 1) \<le> x"
  proof -
    have "2 powi (e - 1) = (2::rat) powi (bitlen p - 1) / 2 powi bitlen q"
      unfolding e_def by (simp add: power_int_diff)
    also have "\<dots> \<le> of_int p / of_int q"
      using P1 Q2 p q by (intro frac_le) auto
    finally show ?thesis using x by simp
  qed
  have hi: "x < 2 powi (e + 1)"
  proof -
    have "of_int p / of_int q < (2::rat) powi bitlen p / 2 powi (bitlen q - 1)"
      using P2 Q1 p q by (intro frac_less) auto
    also have "\<dots> = 2 powi (e + 1)"
      unfolding e_def by (simp add: power_int_diff power_int_add)
    finally show ?thesis using x by simp
  qed
  have il: "ilog2 x = (if 2 powi e \<le> x then e else e - 1)"
    by (simp add: ilog2_def pq e_def Let_def)
  show "2 powi ilog2 x \<le> x" "x < 2 powi (ilog2 x + 1)"
    using lo hi il by auto
qed


lemma powi2_less_iff: "(2::rat) powi a < 2 powi b \<longleftrightarrow> a < b"
  using power_int_strict_increasing [of a b "2::rat"] power_int_increasing [of b a "2::rat"]
  by (cases "a < b") auto

lemma powi2_le_iff: "(2::rat) powi a \<le> 2 powi b \<longleftrightarrow> a \<le> b"
  using powi2_less_iff [of b a] by (auto simp: not_less [symmetric])

lemma ilog2_less_iff:
  assumes "0 < x"
  shows "ilog2 x < k \<longleftrightarrow> x < 2 powi k"
proof
  assume "ilog2 x < k"
  then have "(2::rat) powi (ilog2 x + 1) \<le> 2 powi k" by (simp add: powi2_le_iff)
  with ilog2_bounds(2) [OF assms] show "x < 2 powi k" by linarith
next
  assume "x < 2 powi k"
  with ilog2_bounds(1) [OF assms] have "(2::rat) powi ilog2 x < 2 powi k" by linarith
  then show "ilog2 x < k" by (simp add: powi2_less_iff)
qed

lemma ilog2_mono: "0 < x \<Longrightarrow> x \<le> y \<Longrightarrow> ilog2 x \<le> ilog2 y"
  using ilog2_less_iff [of x "ilog2 y + 1"] ilog2_bounds(2) [of y] by force

lemma round_half_even_mono:
  assumes "x \<le> y"
  shows "round_half_even x \<le> round_half_even y"
proof (cases "\<lfloor>x\<rfloor> = \<lfloor>y\<rfloor>")
  case True
  with assms show ?thesis by (auto simp: round_half_even_def Let_def)
next
  case False
  with floor_mono [OF assms] have "\<lfloor>x\<rfloor> + 1 \<le> \<lfloor>y\<rfloor>" by linarith
  then show ?thesis by (auto simp: round_half_even_def Let_def)
qed

lemma round_half_even_of_int [simp]: "round_half_even (of_int n) = n"
  by (simp add: round_half_even_def)

lemma round_half_even_0 [simp]: "round_half_even 0 = 0"
  by (simp add: round_half_even_def)

lemma round_half_even_nonneg: "0 \<le> x \<Longrightarrow> 0 \<le> round_half_even x"
  using round_half_even_mono [of 0 x] by simp

lemma round_half_even_minus: "round_half_even (- x) = - round_half_even x"
proof (cases "x = of_int \<lfloor>x\<rfloor>")
  case True
  then obtain n where "x = of_int n" by blast
  then show ?thesis using round_half_even_of_int [of n] round_half_even_of_int [of "- n"] by simp
next
  case False
  have "of_int \<lfloor>x\<rfloor> \<le> x" "x < of_int \<lfloor>x\<rfloor> + 1" by linarith+
  with False have "\<lfloor>- x\<rfloor> = - \<lfloor>x\<rfloor> - 1"
    by (intro floor_unique) (auto simp: order.strict_iff_order)
  then show ?thesis by (auto simp: round_half_even_def Let_def)
qed

lemma fexp_mono: "0 < x \<Longrightarrow> x \<le> y \<Longrightarrow> fexp x \<le> fexp y"
  using ilog2_mono [of x y] by (auto simp: fexp_def)

lemma fexp_minus [simp]: "fexp (- x) = fexp x"
  by (simp add: fexp_def)

lemma rnd64_0 [simp]: "rnd64 0 = 0"
  by (simp add: rnd64_def)

lemma rnd64_minus: "rnd64 (- x) = - rnd64 x"
  by (simp add: rnd64_def round_half_even_minus)

lemma rnd64_nonneg: "0 \<le> x \<Longrightarrow> 0 \<le> rnd64 x"
  by (simp add: rnd64_def round_half_even_nonneg)

lemma rnd64_mono_pos:
  assumes "0 < x" "x \<le> y"
  shows "rnd64 x \<le> rnd64 y"
proof (cases "fexp x = fexp y")
  case True
  have "round_half_even (x / 2 powi fexp y) \<le> round_half_even (y / 2 powi fexp y)"
    using assms by (intro round_half_even_mono divide_right_mono) auto
  with True assms show ?thesis by (simp add: rnd64_def mult_right_mono)
next
  case False
  with fexp_mono [OF assms] have lt: "fexp x < fexp y" by linarith
  then have ey: "fexp y = ilog2 y - 52"
    using assms by (auto simp: fexp_def split: if_splits)
  have y0: "0 < y" using assms by linarith
  have "x < 2 powi (fexp x + 53)"
    using ilog2_less_iff [OF assms(1), of "fexp x + 53"] assms by (auto simp: fexp_def)
  then have "x / 2 powi fexp x \<le> 2 ^ 53"
    by (simp add: power_int_add pos_divide_le_eq mult.commute)
  then have "x / 2 powi fexp x \<le> of_int (2 ^ 53)" by simp
  then have "round_half_even (x / 2 powi fexp x) \<le> 2 ^ 53"
    using round_half_even_mono [of _ "of_int (2 ^ 53)"] round_half_even_of_int [of "2 ^ 53"] by metis
  then have up: "rnd64 x \<le> 2 ^ 53 * 2 powi fexp x"
    using assms by (simp add: rnd64_def)
  have "2 powi (fexp y + 52) \<le> y"
    using ilog2_bounds(1) [OF y0] ey by simp
  then have "2 ^ 52 \<le> y / 2 powi fexp y"
    by (simp add: power_int_add pos_le_divide_eq mult.commute)
  then have "of_int (2 ^ 52) \<le> y / 2 powi fexp y" by simp
  then have "2 ^ 52 \<le> round_half_even (y / 2 powi fexp y)"
    using round_half_even_mono [of "of_int (2 ^ 52)"] round_half_even_of_int [of "2 ^ 52"] by metis
  then have dn: "2 ^ 52 * 2 powi fexp y \<le> rnd64 y"
    using y0 by (simp add: rnd64_def)
  have "(2::rat) powi (53 + fexp x) \<le> 2 powi (52 + fexp y)"
    using lt by (simp add: powi2_le_iff)
  then have "(2::rat) ^ 53 * 2 powi fexp x \<le> 2 ^ 52 * 2 powi fexp y"
    by (simp add: power_int_add)
  with up dn show ?thesis by linarith
qed

lemma rnd64_mono: 
  assumes "x \<le> y"
  shows "rnd64 x \<le> rnd64 y"
proof -
  consider "0 < x" | "x \<le> 0" "0 \<le> y" | "y < 0" using assms by linarith
  then show ?thesis
  proof cases
    case 1
    then show ?thesis using assms by (rule rnd64_mono_pos)
  next
    case 2
    then have "0 \<le> rnd64 y" "0 \<le> rnd64 (- x)" by (simp_all add: rnd64_nonneg)
    then show ?thesis by (simp add: rnd64_minus)
  next
    case 3
    then have "rnd64 (- y) \<le> rnd64 (- x)" using assms by (intro rnd64_mono_pos) auto
    then show ?thesis by (simp add: rnd64_minus)
  qed
qed

text \<open>Exactness.\<close>

lemma rnd64_exact_lt:
  assumes "\<bar>n\<bar> < 2 ^ 53" and "- 1074 \<le> k"
  shows "rnd64 (of_int n * 2 powi k) = of_int n * 2 powi k"
proof (cases "n = 0")
  case False
  define x :: rat where "x = of_int n * 2 powi k"
  have x0: "0 < \<bar>x\<bar>" using False by (simp add: x_def)
  have "\<bar>x\<bar> = of_int \<bar>n\<bar> * 2 powi k" by (simp add: x_def abs_mult)
  also have "\<dots> < 2 ^ 53 * 2 powi k"
    using of_int_less_two_pow [OF assms(1)] by (intro mult_strict_right_mono) auto
  finally have "\<bar>x\<bar> < 2 powi (53 + k)" by (simp add: power_int_add)
  then have "ilog2 \<bar>x\<bar> < 53 + k" by (simp add: ilog2_less_iff [OF x0])
  then have le: "fexp x \<le> k" using assms(2) by (simp add: fexp_def)
  have "x / 2 powi fexp x = of_int n * 2 powi (k - fexp x)"
    by (simp add: x_def power_int_diff)
  also have "\<dots> = of_int (n * 2 ^ nat (k - fexp x))"
    using le by (simp add: power_int_def)
  finally have "round_half_even (x / 2 powi fexp x) = n * 2 ^ nat (k - fexp x)"
    by (simp only: round_half_even_of_int)
  then have "rnd64 x = of_int n * 2 powi (k - fexp x) * 2 powi fexp x"
    using le x0 by (simp add: rnd64_def power_int_def)
  then show ?thesis by (simp add: x_def power_int_diff)
qed simp

lemma rnd64_exact:
  assumes "\<bar>n\<bar> \<le> 2 ^ 53" and "- 1074 \<le> k"
  shows "rnd64 (of_int n * 2 powi k) = of_int n * 2 powi k"
proof (cases "\<bar>n\<bar> = 2 ^ 53")
  case True
  define m where "m = (if 0 \<le> n then 2 ^ 52 else - (2 ^ 52 :: int))"
  have "n = m * 2" using True by (auto simp: m_def abs_if split: if_splits)
  then have "of_int n * 2 powi k = of_int m * (2::rat) powi (k + 1)"
    by (simp add: power_int_add)
  moreover have "\<bar>m\<bar> < 2 ^ 53" by (simp add: m_def)
  ultimately show ?thesis using rnd64_exact_lt [of m "k + 1"] assms(2) by simp
next
  case False
  with assms show ?thesis by (intro rnd64_exact_lt) auto
qed

lemma rnd64_of_int: "\<bar>n\<bar> \<le> 2 ^ 53 \<Longrightarrow> rnd64 (of_int n) = of_int n"
  using rnd64_exact [of n 0] by simp

lemma rnd64_idem [simp]: "rnd64 (rnd64 x) = rnd64 x"
proof (cases "x = 0")
  case False
  then have x0: "0 < \<bar>x\<bar>" by simp
  have "\<bar>x\<bar> < 2 powi (fexp x + 53)"
    by (subst ilog2_less_iff [OF x0, symmetric]) (simp add: fexp_def)
  then have b: "\<bar>x\<bar> / 2 powi fexp x \<le> of_int (2 ^ 53)"
    by (simp add: power_int_add pos_divide_le_eq mult.commute)
  have "\<bar>round_half_even (x / 2 powi fexp x)\<bar> = round_half_even (\<bar>x\<bar> / 2 powi fexp x)"
  proof (cases "0 \<le> x")
    case True
    then have "0 \<le> round_half_even (x / 2 powi fexp x)"
      by (simp add: round_half_even_nonneg)
    with True show ?thesis by simp
  next
    case False
    then have "0 \<le> round_half_even ((- x) / 2 powi fexp x)"
      by (intro round_half_even_nonneg divide_nonneg_pos) auto
    with False show ?thesis by (simp add: round_half_even_minus)
  qed
  also have "\<dots> \<le> 2 ^ 53"
    using round_half_even_mono [OF b] by (simp only: round_half_even_of_int)
  finally have "\<bar>round_half_even (x / 2 powi fexp x)\<bar> \<le> 2 ^ 53" .
  moreover have "- 1074 \<le> fexp x" by (simp add: fexp_def)
  ultimately show ?thesis using False rnd64_exact by (simp add: rnd64_def)
qed simp


subsection \<open>Rounding error\<close>

lemma round_half_even_error: "\<bar>of_int (round_half_even x) - x\<bar> \<le> 1 / 2"
proof -
  have "of_int \<lfloor>x\<rfloor> \<le> x" "x < of_int \<lfloor>x\<rfloor> + 1" by linarith+
  then show ?thesis by (auto simp: round_half_even_def Let_def abs_le_iff)
qed

lemma rnd64_error: "\<bar>rnd64 x - x\<bar> \<le> 2 powi fexp x / 2"
proof (cases "x = 0")
  case False
  let ?e = "(2::rat) powi fexp x"
  have "rnd64 x - x = (of_int (round_half_even (x / ?e)) - x / ?e) * ?e"
    using False by (simp add: rnd64_def left_diff_distrib)
  also have "\<bar>\<dots>\<bar> = \<bar>of_int (round_half_even (x / ?e)) - x / ?e\<bar> * ?e"
    by (simp add: abs_mult)
  also have "\<dots> \<le> 1 / 2 * ?e"
    using round_half_even_error by (intro mult_right_mono) auto
  finally show ?thesis by simp
qed (simp add: power_int_def)

lemma rnd64_error_below:
  assumes "\<bar>x\<bar> < 2 powi k" and "- 1021 \<le> k"
  shows "\<bar>rnd64 x - x\<bar> \<le> 2 powi (k - 54)"
proof (cases "x = 0")
  case False
  then have "ilog2 \<bar>x\<bar> < k" using assms by (simp add: ilog2_less_iff)
  then have "fexp x \<le> k - 53" using assms by (simp add: fexp_def)
  then have "(2::rat) powi fexp x \<le> 2 powi (k - 53)" by (simp add: powi2_le_iff)
  moreover have "(2::rat) powi (k - 53) / 2 = 2 powi (k - 54)"
    by (simp add: power_int_diff)
  ultimately show ?thesis using rnd64_error [of x] by linarith
qed simp

subsection \<open>The operations of the code\<close>

definition fadd :: "rat \<Rightarrow> rat \<Rightarrow> rat" where
  "fadd x y = rnd64 (x + y)"

definition fsub :: "rat \<Rightarrow> rat \<Rightarrow> rat" where
  "fsub x y = rnd64 (x - y)"

definition fmul :: "rat \<Rightarrow> rat \<Rightarrow> rat" where
  "fmul x y = rnd64 (x * y)"

definition fdiv :: "rat \<Rightarrow> rat \<Rightarrow> rat" where
  "fdiv x y = rnd64 (x / y)"

text \<open>\<^verbatim>\<open>sum(xs)\<close> of floats: left to right from 0, each addition rounded (CPython before 3.12;
  later versions compensate the rounding errors of the partial sums).\<close>

definition fsum :: "rat list \<Rightarrow> rat" where
  "fsum xs = foldl fadd 0 xs"

definition is_f64 :: "rat \<Rightarrow> bool" where
  "is_f64 x \<longleftrightarrow> rnd64 x = x"

lemma is_f64_ops [simp]:
  "is_f64 (fadd x y)" "is_f64 (fsub x y)" "is_f64 (fmul x y)" "is_f64 (fdiv x y)" "is_f64 (rnd64 x)" "is_f64 0"
  by (simp_all add: is_f64_def fadd_def fsub_def fmul_def fdiv_def)

lemma is_f64_fsum [simp]: "is_f64 (fsum xs)"
  by (cases xs rule: rev_cases) (simp_all add: fsum_def)

text \<open>
  What the ledger relies on, as an interface: a rounding that is monotone and exact on 0 keeps
  the sign of every operation, so a guarded subtraction never goes negative.
\<close>

locale monotone_rounding =
  fixes rnd :: "rat \<Rightarrow> rat"
  assumes rnd_mono: "x \<le> y \<Longrightarrow> rnd x \<le> rnd y"
    and rnd_zero: "rnd 0 = 0"
begin

lemma rnd_nonneg: "0 \<le> x \<Longrightarrow> 0 \<le> rnd x"
  using rnd_mono [of 0 x] by (simp add: rnd_zero)

lemma rnd_nonpos: "x \<le> 0 \<Longrightarrow> rnd x \<le> 0"
  using rnd_mono [of x 0] by (simp add: rnd_zero)

lemma rnd_sub_nonneg: "y \<le> x \<Longrightarrow> 0 \<le> rnd (x - y)"
  by (simp add: rnd_nonneg)

lemma rnd_add_nonneg: "0 \<le> x \<Longrightarrow> 0 \<le> y \<Longrightarrow> 0 \<le> rnd (x + y)"
  by (simp add: rnd_nonneg)

lemma rnd_add_le: "x + y \<le> z \<Longrightarrow> rnd z = z \<Longrightarrow> rnd (x + y) \<le> z"
  using rnd_mono by force

end

interpretation f64: monotone_rounding rnd64
  by unfold_locales (auto intro: rnd64_mono)

lemma fadd_nonneg: "0 \<le> x \<Longrightarrow> 0 \<le> y \<Longrightarrow> 0 \<le> fadd x y"
  unfolding fadd_def by (rule f64.rnd_add_nonneg)

lemma fsub_nonneg: "y \<le> x \<Longrightarrow> 0 \<le> fsub x y"
  unfolding fsub_def by (rule f64.rnd_sub_nonneg)

lemma fmul_nonneg: "0 \<le> x \<Longrightarrow> 0 \<le> y \<Longrightarrow> 0 \<le> fmul x y"
  unfolding fmul_def by (rule f64.rnd_nonneg) simp

lemma fdiv_nonneg: "0 \<le> x \<Longrightarrow> 0 \<le> y \<Longrightarrow> 0 \<le> fdiv x y"
  unfolding fdiv_def by (rule f64.rnd_nonneg) simp

lemma fsub_self [simp]: "fsub x x = 0"
  by (simp add: fsub_def)

lemma fadd_0_left: "is_f64 x \<Longrightarrow> fadd 0 x = x"
  by (simp add: fadd_def is_f64_def)

lemma fadd_0_right: "is_f64 x \<Longrightarrow> fadd x 0 = x"
  by (simp add: fadd_def is_f64_def)

lemma fadd_mono: "x \<le> x' \<Longrightarrow> y \<le> y' \<Longrightarrow> fadd x y \<le> fadd x' y'"
  unfolding fadd_def by (rule rnd64_mono) linarith

lemma fsub_le: "is_f64 x \<Longrightarrow> 0 \<le> y \<Longrightarrow> fsub x y \<le> x"
  unfolding fsub_def is_f64_def by (metis diff_left_mono diff_zero rnd64_mono)

lemma foldl_fadd_nonneg: "0 \<le> a \<Longrightarrow> list_all ((\<le>) 0) xs \<Longrightarrow> 0 \<le> foldl fadd a xs"
  by (induction xs arbitrary: a) (auto simp: fadd_nonneg)

lemma fsum_nonneg: "list_all ((\<le>) 0) xs \<Longrightarrow> 0 \<le> fsum xs"
  by (simp add: fsum_def foldl_fadd_nonneg)

subsection \<open>The exact grid\<close>

text \<open>
  Multiples of \<open>2 ^ -22\<close> up to \<open>2 ^ 31\<close> in size are floats, and sums and differences of them
  that stay in this range are exact. The supply cap of the ledger (2.1 * 10^9) is below
  \<open>2 ^ 31\<close>, so an account state whose amounts are on this grid is computed without any rounding.
\<close>

definition on_grid :: "rat \<Rightarrow> bool" where
  "on_grid x \<longleftrightarrow> of_int \<lfloor>x * 2 ^ 22\<rfloor> = x * 2 ^ 22"

lemma on_gridI: "x * 2 ^ 22 = of_int n \<Longrightarrow> on_grid x"
  by (simp add: on_grid_def)

lemma on_gridE:
  assumes "on_grid x"
  obtains n where "x * 2 ^ 22 = of_int n"
  using assms unfolding on_grid_def by metis

lemma on_grid_0 [simp]: "on_grid 0"
  by (simp add: on_grid_def)

lemma on_grid_add [intro]: "on_grid x \<Longrightarrow> on_grid y \<Longrightarrow> on_grid (x + y)"
  by (elim on_gridE) (rule on_gridI, simp add: distrib_right flip: of_int_add)

lemma on_grid_diff [intro]: "on_grid x \<Longrightarrow> on_grid y \<Longrightarrow> on_grid (x - y)"
  by (elim on_gridE) (rule on_gridI, simp add: left_diff_distrib flip: of_int_diff)

lemma on_grid_sum_list: "list_all on_grid xs \<Longrightarrow> on_grid (sum_list xs)"
  by (induction xs) auto

lemma on_grid_exact:
  assumes "on_grid x" and "\<bar>x\<bar> \<le> 2 ^ 31"
  shows "rnd64 x = x"
proof -
  obtain n where n: "x * 2 ^ 22 = of_int n" using assms(1) by (rule on_gridE)
  have "\<bar>of_int n :: rat\<bar> = \<bar>x\<bar> * 2 ^ 22" by (simp add: abs_mult flip: n)
  also have "\<dots> \<le> 2 ^ 31 * 2 ^ 22" using assms(2) by (intro mult_right_mono) auto
  also have "\<dots> = of_int (2 ^ 53)" by simp
  finally have "\<bar>n\<bar> \<le> 2 ^ 53" by (simp only: of_int_abs [symmetric] of_int_le_iff)
  then have "rnd64 (of_int n * 2 powi (- 22)) = of_int n * 2 powi (- 22)"
    by (rule rnd64_exact) simp
  moreover have "of_int n * 2 powi (- 22) = x"
    using n by (simp add: power_int_def field_simps)
  ultimately show ?thesis by simp
qed

lemma fadd_exact: "on_grid x \<Longrightarrow> on_grid y \<Longrightarrow> \<bar>x + y\<bar> \<le> 2 ^ 31 \<Longrightarrow> fadd x y = x + y"
  unfolding fadd_def by (rule on_grid_exact) auto

lemma fsub_exact: "on_grid x \<Longrightarrow> on_grid y \<Longrightarrow> \<bar>x - y\<bar> \<le> 2 ^ 31 \<Longrightarrow> fsub x y = x - y"
  unfolding fsub_def by (rule on_grid_exact) auto

lemma foldl_fadd_exact:
  assumes "on_grid a" "0 \<le> a" "list_all on_grid xs" "list_all ((\<le>) 0) xs" "a + sum_list xs \<le> 2 ^ 31"
  shows "foldl fadd a xs = a + sum_list xs"
  using assms
proof (induction xs arbitrary: a)
  case (Cons x xs)
  have nn: "0 \<le> sum_list xs" using Cons.prems(4) by (intro sum_list_nonneg) (auto simp: list_all_iff)
  have ax: "fadd a x = a + x"
    using Cons.prems nn by (intro fadd_exact) auto
  have "foldl fadd (a + x) xs = (a + x) + sum_list xs"
    using Cons.prems nn by (intro Cons.IH) auto
  then show ?case by (simp add: ax add.assoc)
qed simp

lemma fsum_exact:
  "list_all on_grid xs \<Longrightarrow> list_all ((\<le>) 0) xs \<Longrightarrow> sum_list xs \<le> 2 ^ 31 \<Longrightarrow> fsum xs = sum_list xs"
  unfolding fsum_def using foldl_fadd_exact [of 0 xs] by simp

end
