(* ===== verification/Prelude.thy ===== *)
theory Prelude
  imports Py_Float "HOL-Library.AList" "HOL-Library.List_Lexorder" "HOL-Library.Char_ord"
    "HOL-Library.Product_Lexorder"
begin

text \<open>
  Shared vocabulary of the development: Python dictionaries as insertion-ordered association
  lists, Python strings, JSON values as the code decodes them, and the contract that every
  state machine of the program meets (a step function that keeps an invariant).
  The collections \<open>dict_simps\<close> and \<open>num_simps\<close> gather the facts that the component
  proofs rewrite with.
\<close>

named_theorems dict_simps
named_theorems num_simps

subsection \<open>Dictionaries\<close>

text \<open>
  A Python \<^verbatim>\<open>dict\<close> keeps its insertion order, which matters wherever the code folds a sum of
  floats over \<^verbatim>\<open>d.values()\<close>. \<open>AList.update\<close> is \<^verbatim>\<open>d[k] = v\<close>: an existing key keeps its place, a
  new key goes to the end. \<open>AList.delete\<close> is \<^verbatim>\<open>d.pop(k, None)\<close>.
\<close>

type_synonym ('k, 'v) pydict = "('k \<times> 'v) list"

definition dget :: "('k, 'v) pydict \<Rightarrow> 'k \<Rightarrow> 'v \<Rightarrow> 'v" where
  "dget d k v = (case map_of d k of None \<Rightarrow> v | Some x \<Rightarrow> x)"

abbreviation dset :: "'k \<Rightarrow> 'v \<Rightarrow> ('k, 'v) pydict \<Rightarrow> ('k, 'v) pydict" where
  "dset \<equiv> AList.update"

abbreviation dpop :: "'k \<Rightarrow> ('k, 'v) pydict \<Rightarrow> ('k, 'v) pydict" where
  "dpop \<equiv> AList.delete"

abbreviation dkeys :: "('k, 'v) pydict \<Rightarrow> 'k list" where
  "dkeys d \<equiv> map fst d"

abbreviation dvalues :: "('k, 'v) pydict \<Rightarrow> 'v list" where
  "dvalues d \<equiv> map snd d"

lemma map_of_dset [simp, dict_simps]: "map_of (dset k v d) = (map_of d)(k \<mapsto> v)"
  by (rule update_conv')

lemma map_of_dpop [simp, dict_simps]: "map_of (dpop k d) = (map_of d)(k := None)"
  by (rule delete_conv')

lemma dget_dset_same [simp, dict_simps]: "dget (dset k v d) k w = v"
  by (simp add: dget_def)

lemma dget_dset_other [simp, dict_simps]: "j \<noteq> k \<Longrightarrow> dget (dset k v d) j w = dget d j w"
  by (simp add: dget_def)

lemma dget_dset: "dget (dset k v d) j w = (if j = k then v else dget d j w)"
  by simp

lemma dget_dpop: "dget (dpop k d) j w = (if j = k then w else dget d j w)"
  by (simp add: dget_def)

lemma dget_Nil [simp]: "dget [] k v = v"
  by (simp add: dget_def)

lemma dvalues_dset: "set (dvalues (dset k v d)) \<subseteq> insert v (set (dvalues d))"
  by (induction d) auto

lemma list_all_dset: "P v \<Longrightarrow> list_all P (dvalues d) \<Longrightarrow> list_all P (dvalues (dset k v d))"
  by (induction d) auto

lemma list_all_dpop: "list_all P (dvalues d) \<Longrightarrow> list_all P (dvalues (dpop k d))"
  by (induction d) auto

lemma list_all_dget: "list_all P (dvalues d) \<Longrightarrow> P v \<Longrightarrow> P (dget d k v)"
  by (induction d) (auto simp: dget_def)

lemma map_of_list_all: "list_all P (dvalues d) \<Longrightarrow> map_of d k = Some v \<Longrightarrow> P v"
  by (induction d) (auto split: if_splits)

text \<open>The sum of the values changes by exactly what an assignment changes.\<close>

lemma sum_dvalues_dset:
  fixes d :: "('k, 'v::ab_group_add) pydict"
  shows "sum_list (dvalues (dset k v d)) = sum_list (dvalues d) - dget d k 0 + v"
  by (induction d) (auto simp: dget_def)

lemma dget_le_sum:
  fixes d :: "('k, 'v::linordered_idom) pydict"
  shows "list_all ((\<le>) 0) (dvalues d) \<Longrightarrow> dget d k 0 \<le> sum_list (dvalues d)"
proof (induction d)
  case Nil
  then show ?case by (simp add: dget_def)
next
  case (Cons p d)
  have "0 \<le> sum_list (dvalues d)"
    using Cons.prems by (intro sum_list_nonneg) (auto simp: list_all_iff)
  with Cons show ?case by (cases p) (auto simp: dget_def)
qed

text \<open>A weighted total over the values of a dictionary.\<close>

definition dsum :: "('v \<Rightarrow> rat) \<Rightarrow> ('k, 'v) pydict \<Rightarrow> rat" where
  "dsum f d = sum_list (map (\<lambda>(k, v). f v) d)"

lemma dsum_Nil [simp]: "dsum f [] = 0"
  by (simp add: dsum_def)

lemma dsum_Cons [simp]: "dsum f ((k, v) # d) = f v + dsum f d"
  by (simp add: dsum_def)

lemma dsum_dset:
  "dsum f (dset k v d) = dsum f d - (case map_of d k of None \<Rightarrow> 0 | Some u \<Rightarrow> f u) + f v"
  by (induction d) auto

lemma dsum_dpop:
  assumes "distinct (dkeys d)"
  shows "dsum f (dpop k d) = dsum f d - (case map_of d k of None \<Rightarrow> 0 | Some u \<Rightarrow> f u)"
  using assms
proof (induction d)
  case (Cons p d)
  have "dpop k d = d \<and> map_of d k = None" if "k \<notin> set (dkeys d)"
    using that by (induction d) auto
  with Cons show ?case
    by (cases p) (auto split: option.splits)
qed simp

lemma dsum_nonneg: "list_all (\<lambda>v. 0 \<le> f v) (dvalues d) \<Longrightarrow> 0 \<le> dsum f d"
  by (induction d) auto

lemma dsum_member: "list_all (\<lambda>v. 0 \<le> f v) (dvalues d) \<Longrightarrow> map_of d k = Some v \<Longrightarrow> f v \<le> dsum f d"
proof (induction d)
  case (Cons p d)
  then have "0 \<le> dsum f d" by (simp add: dsum_nonneg)
  with Cons show ?case by (cases p) (fastforce split: if_splits)
qed simp

lemma distinct_dset: "distinct (dkeys d) \<Longrightarrow> distinct (dkeys (dset k v d))"
  by (rule distinct_update)

lemma distinct_dpop: "distinct (dkeys d) \<Longrightarrow> distinct (dkeys (dpop k d))"
  by (rule distinct_delete)

lemma dkeys_dset: "set (dkeys (dset k v d)) = insert k (set (dkeys d))"
  by (simp add: dom_update)

subsection \<open>Strings\<close>

definition char_lower :: "char \<Rightarrow> char" where
  "char_lower c = (let n = of_char c :: nat in if 65 \<le> n \<and> n \<le> 90 then char_of (n + 32) else c)"

definition str_lower :: "string \<Rightarrow> string" where
  "str_lower s = map char_lower s"

lemma char_lower_idem [simp]: "char_lower (char_lower c) = char_lower c"
proof -
  have "(of_char c :: nat) < 256"
    by (metis nat_of_char_less_256)
  then show ?thesis by (simp add: char_lower_def Let_def)
qed

lemma str_lower_idem [simp]: "str_lower (str_lower s) = str_lower s"
  by (simp add: str_lower_def)

definition is_space :: "char \<Rightarrow> bool" where
  "is_space c = (let n = of_char c :: nat in n = 32 \<or> (9 \<le> n \<and> n \<le> 13) \<or> (28 \<le> n \<and> n \<le> 31))"

definition str_strip :: "string \<Rightarrow> string" where
  "str_strip s = rev (dropWhile is_space (rev (dropWhile is_space s)))"

definition starts_with :: "string \<Rightarrow> string \<Rightarrow> bool" where
  "starts_with p s = (take (length p) s = p)"

text \<open>Decimal text of an integer, \<^verbatim>\<open>str(n)\<close>.\<close>

fun nat_str :: "nat \<Rightarrow> string" where
  "nat_str n = (if n < 10 then [char_of (48 + n)] else nat_str (n div 10) @ [char_of (48 + n mod 10)])"

declare nat_str.simps [simp del]

definition int_str :: "int \<Rightarrow> string" where
  "int_str n = (if n < 0 then ''-'' @ nat_str (nat (- n)) else nat_str (nat n))"

subsection \<open>Numbers and JSON values\<close>

text \<open>
  A Python float as the code can receive it: a finite binary64 value, or one of NaN and the
  infinities, which every numeric boundary of the code rejects or lets through as one.
\<close>

datatype pyfloat = Fin rat | NonFin

datatype json =
    JNull
  | JBool bool
  | JInt int
  | JNum pyfloat
  | JStr string
  | JList "json list"
  | JObj "(string \<times> json) list"

fun truthy :: "json \<Rightarrow> bool" where
  "truthy JNull = False"
| "truthy (JBool b) = b"
| "truthy (JInt n) = (n \<noteq> 0)"
| "truthy (JNum (Fin q)) = (q \<noteq> 0)"
| "truthy (JNum NonFin) = True"
| "truthy (JStr s) = (s \<noteq> [])"
| "truthy (JList xs) = (xs \<noteq> [])"
| "truthy (JObj kvs) = (kvs \<noteq> [])"

text \<open>\<^verbatim>\<open>d[k]\<close>: \<open>None\<close> where Python raises (no such key, or \<^verbatim>\<open>d\<close> is no dictionary).\<close>

fun jindex :: "json \<Rightarrow> string \<Rightarrow> json option" where
  "jindex (JObj kvs) k = map_of kvs k"
| "jindex _ k = None"

text \<open>Decimal integers, as \<^verbatim>\<open>int(s)\<close> reads them from an ASCII string.\<close>

definition is_digit :: "char \<Rightarrow> bool" where
  "is_digit c = (let n = of_char c :: nat in 48 \<le> n \<and> n \<le> 57)"

definition digit_val :: "char \<Rightarrow> int" where
  "digit_val c = int (of_char c) - 48"

text \<open>\<^verbatim>\<open>int\<close> allows single underscores between digits; \<open>prev\<close> says that the last character
  was a digit.\<close>

fun int_digits :: "bool \<Rightarrow> int \<Rightarrow> string \<Rightarrow> int option" where
  "int_digits prev acc [] = (if prev then Some acc else None)"
| "int_digits prev acc (c # cs) =
     (if is_digit c then int_digits True (10 * acc + digit_val c) cs
      else if c = CHR ''_'' \<and> prev then int_digits False acc cs
      else None)"

definition int_of_str :: "string \<Rightarrow> int option" where
  "int_of_str s =
     (case str_strip s of
        [] \<Rightarrow> None
      | c # cs \<Rightarrow>
          if c = CHR ''-'' then map_option uminus (int_digits False 0 cs)
          else if c = CHR ''+'' then int_digits False 0 cs
          else int_digits False 0 (c # cs))"

text \<open>\<^verbatim>\<open>int(x)\<close> of a decoded value: truncation for a float, \<open>None\<close> where Python raises.\<close>

fun jint :: "json \<Rightarrow> int option" where
  "jint (JInt n) = Some n"
| "jint (JBool b) = Some (if b then 1 else 0)"
| "jint (JNum (Fin q)) = Some (if 0 \<le> q then \<lfloor>q\<rfloor> else \<lceil>q\<rceil>)"
| "jint (JStr s) = int_of_str s"
| "jint _ = None"

text \<open>
  \<^verbatim>\<open>float(x)\<close> of a decoded value. A float that the code writes as its 17-digit decimal string is
  represented by \<open>JNum\<close> (the string determines the value and the other way round), so a
  \<open>JStr\<close> here is a string that is no decimal numeral, and \<^verbatim>\<open>float\<close> raises.
\<close>

fun jfloat :: "json \<Rightarrow> pyfloat option" where
  "jfloat (JInt n) = Some (Fin (rnd64 (of_int n)))"
| "jfloat (JBool b) = Some (Fin (if b then 1 else 0))"
| "jfloat (JNum x) = Some x"
| "jfloat _ = None"

fun jstr :: "json \<Rightarrow> string option" where
  "jstr (JStr s) = Some s"
| "jstr _ = None"

fun those_map :: "('a \<Rightarrow> 'b option) \<Rightarrow> 'a list \<Rightarrow> 'b list option" where
  "those_map f [] = Some []"
| "those_map f (x # xs) =
     (case f x of None \<Rightarrow> None
      | Some y \<Rightarrow> (case those_map f xs of None \<Rightarrow> None | Some ys \<Rightarrow> Some (y # ys)))"

lemma those_map_inverse: "(\<And>x. x \<in> set xs \<Longrightarrow> f (g x) = Some x) \<Longrightarrow> those_map f (map g xs) = Some xs"
  by (induction xs) auto

text \<open>\<^verbatim>\<open>allow_nan=False\<close>: serialising a value that holds a NaN or an infinity raises.\<close>

fun json_finite :: "json \<Rightarrow> bool" where
  "json_finite (JNum NonFin) = False"
| "json_finite (JList xs) = list_all json_finite xs"
| "json_finite (JObj kvs) = list_all (\<lambda>(k, v). json_finite v) kvs"
| "json_finite _ = True"

subsection \<open>Errors\<close>

text \<open>The exceptions that the modelled code raises or lets through.\<close>

datatype exn =
    ValueError string
  | KeyError
  | TypeError
  | AttributeError
  | RuntimeError string
  | UnsupportedSchemeError string
  | SignatureError
  | NotImplementedError
  | IndexError
  | ZeroDivisionError
  | OverflowError
  | SystemExit string

text \<open>Sequencing of computations that may raise.\<close>

definition bindE :: "'e + 'a \<Rightarrow> ('a \<Rightarrow> 'e + 'b) \<Rightarrow> 'e + 'b" where
  "bindE m f = (case m of Inl e \<Rightarrow> Inl e | Inr x \<Rightarrow> f x)"

definition orE :: "'e \<Rightarrow> 'a option \<Rightarrow> 'e + 'a" where
  "orE e x = (case x of None \<Rightarrow> Inl e | Some y \<Rightarrow> Inr y)"

fun mapE :: "('a \<Rightarrow> 'e + 'b) \<Rightarrow> 'a list \<Rightarrow> 'e + 'b list" where
  "mapE f [] = Inr []"
| "mapE f (x # xs) = bindE (f x) (\<lambda>y. bindE (mapE f xs) (\<lambda>ys. Inr (y # ys)))"

lemma bindE_simps [simp]: "bindE (Inl e) f = Inl e" "bindE (Inr x) f = f x"
  by (simp_all add: bindE_def)

text \<open>The continuation is simplified only once its argument is known.\<close>

lemma bindE_weak_cong [cong]: "m = m' \<Longrightarrow> bindE m f = bindE m' f"
  by simp

lemma orE_simps [simp]: "orE e None = Inl e" "orE e (Some x) = Inr x"
  by (simp_all add: orE_def)

lemma bindE_Inr_iff: "bindE m f = Inr y \<longleftrightarrow> (\<exists>x. m = Inr x \<and> f x = Inr y)"
  by (cases m) auto

lemma orE_Inr_iff: "orE e x = Inr y \<longleftrightarrow> x = Some y"
  by (cases x) auto

lemma mapE_inverse: "(\<And>x. x \<in> set xs \<Longrightarrow> f (g x) = Inr x) \<Longrightarrow> mapE f (map g xs) = Inr xs"
  by (induction xs) auto

text \<open>\<^verbatim>\<open>_finite(x)\<close>: \<^verbatim>\<open>float(x)\<close> that raises on NaN and the infinities.\<close>

definition finite_float :: "json \<Rightarrow> exn + rat" where
  "finite_float j = (case jfloat j of
       None \<Rightarrow> Inl (ValueError ''not a number'')
     | Some NonFin \<Rightarrow> Inl (ValueError ''non-finite number'')
     | Some (Fin q) \<Rightarrow> Inr q)"

text \<open>\<^verbatim>\<open>d[k]\<close>, \<^verbatim>\<open>d.get(k, v)\<close>, \<^verbatim>\<open>int(d[k])\<close> and a string-valued \<^verbatim>\<open>d[k]\<close>.\<close>

definition getE :: "json \<Rightarrow> string \<Rightarrow> exn + json" where
  "getE d k = orE KeyError (jindex d k)"

definition get_or :: "json \<Rightarrow> string \<Rightarrow> json \<Rightarrow> json" where
  "get_or d k v = (case jindex d k of None \<Rightarrow> v | Some x \<Rightarrow> x)"

definition intE :: "json \<Rightarrow> exn + int" where
  "intE j = orE (ValueError ''invalid literal for int'') (jint j)"

definition strE :: "json \<Rightarrow> exn + string" where
  "strE j = orE TypeError (jstr j)"

definition str_listE :: "json \<Rightarrow> exn + string list" where
  "str_listE j = (case j of JList xs \<Rightarrow> mapE strE xs | _ \<Rightarrow> Inl TypeError)"

definition boolE :: "json \<Rightarrow> exn + bool" where
  "boolE j = Inr (truthy j)"

lemma getE_JObj [simp]: "getE (JObj kvs) k = orE KeyError (map_of kvs k)"
  by (simp add: getE_def)

lemma get_or_JObj [simp]:
  "get_or (JObj kvs) k v = (case map_of kvs k of None \<Rightarrow> v | Some x \<Rightarrow> x)"
  by (simp add: get_or_def)

lemma intE_JInt [simp]: "intE (JInt n) = Inr n"
  by (simp add: intE_def)

lemma strE_JStr [simp]: "strE (JStr s) = Inr s"
  by (simp add: strE_def)

lemma finite_float_Fin [simp]: "finite_float (JNum (Fin q)) = Inr q"
  by (simp add: finite_float_def)

subsection \<open>Code outside the repository\<close>

text \<open>
  The primitives the code calls and does not define, as one parameter of every definition that
  uses them: \<^verbatim>\<open>json.dumps(..., sort_keys=True)\<close> on decoded values, \<^verbatim>\<open>hashlib.sha256(...).hexdigest()\<close>,
  \<^verbatim>\<open>eth_account\<close>'s message recovery (\<open>None\<close> where it raises) and signing, the ML-DSA backend of
  \<^verbatim>\<open>neura_l1.pqc\<close>, and \<^verbatim>\<open>neura_l1.finality\<close>, which this client does not ship (votes are opaque
  decoded values), and the text Python gives a float. Byte strings are \<open>string\<close>.
\<close>

record world =
  dumps :: "json \<Rightarrow> string"
  sha256 :: "string \<Rightarrow> string"
  recover_message :: "string \<Rightarrow> string \<Rightarrow> string option"
  sign_message :: "string \<Rightarrow> string \<Rightarrow> string"
  address_of_key :: "string \<Rightarrow> string"
  pqc_verify :: "string \<Rightarrow> string \<Rightarrow> string \<Rightarrow> bool"
  pqc_address :: "string \<Rightarrow> string"
  vote_from_dict :: "json \<Rightarrow> json option"
  vote_id :: "json \<Rightarrow> string"
  verify_vote_fault :: "string \<Rightarrow> json \<Rightarrow> json \<Rightarrow> string \<Rightarrow> bool"
  py_str :: "json \<Rightarrow> string"
  text_8g :: "rat \<Rightarrow> string"

text \<open>\<^verbatim>\<open>str(x)\<close> of a decoded value; the text of a float or a container is left to the world.\<close>

definition str_of :: "world \<Rightarrow> json \<Rightarrow> string" where
  "str_of W j = (case j of JStr s \<Rightarrow> s | JNull \<Rightarrow> ''None'' | JBool b \<Rightarrow> (if b then ''True'' else ''False'')
     | JInt n \<Rightarrow> int_str n | _ \<Rightarrow> py_str W j)"

lemma str_of_JStr [simp]: "str_of W (JStr s) = s"
  by (simp add: str_of_def)

text \<open>What signing needs of the key library: recovering a fresh signature gives the signer.\<close>

definition signs_correctly :: "world \<Rightarrow> bool" where
  "signs_correctly W \<longleftrightarrow>
     (\<forall>k m. recover_message W m (sign_message W k m) = Some (address_of_key W k)
          \<and> starts_with ''0x'' (sign_message W k m))"

text \<open>A concrete world for examples: a signature spells out its key, a digest its input.\<close>

fun toy_dumps :: "json \<Rightarrow> string" where
  "toy_dumps (JStr s) = s"
| "toy_dumps _ = ''{}''"

definition toy_world :: world where
  "toy_world = \<lparr>dumps = toy_dumps, sha256 = (\<lambda>s. s),
     recover_message = (\<lambda>m s. if starts_with ''0x'' s then Some (drop 2 s) else None),
     sign_message = (\<lambda>k m. ''0x'' @ k), address_of_key = (\<lambda>k. k),
     pqc_verify = (\<lambda>p d s. False), pqc_address = (\<lambda>p. p),
     vote_from_dict = Some, vote_id = toy_dumps, verify_vote_fault = (\<lambda>v a b k. a \<noteq> b),
     py_str = toy_dumps, text_8g = (\<lambda>q. int_str \<lfloor>q\<rfloor>)\<rparr>"

lemma toy_world_signs: "signs_correctly toy_world"
  by (simp add: signs_correctly_def toy_world_def starts_with_def)

subsection \<open>State machines\<close>

text \<open>
  The contract of a component that is driven by a sequence of events: its step keeps the
  invariant. What it gives is proved once: every run keeps it, and so does every prefix.
\<close>

locale keeps_invariant =
  fixes step :: "'s \<Rightarrow> 'e \<Rightarrow> 's"
    and inv :: "'s \<Rightarrow> bool"
  assumes step_inv: "inv s \<Longrightarrow> inv (step s e)"
begin

lemma run_inv: "inv s \<Longrightarrow> inv (foldl step s es)"
  by (induction es arbitrary: s) (auto intro: step_inv)

lemma prefix_inv: "inv s \<Longrightarrow> inv (foldl step s (take n es))"
  by (rule run_inv)

end

text \<open>
  A component with a quantity that no step lowers (an epoch, a nonce, a cursor).
\<close>

locale monotone_steps =
  fixes step :: "'s \<Rightarrow> 'e \<Rightarrow> 's"
    and level :: "'s \<Rightarrow> 'm::preorder"
  assumes step_level: "level s \<le> level (step s e)"
begin

lemma run_level: "level s \<le> level (foldl step s es)"
  by (induction es arbitrary: s) (auto intro: order_trans step_level)

end

subsection \<open>Majorities\<close>

text \<open>
  The contract of an M-of-N vote: the members have non-negative weights. Two strict majorities
  share a member, and a strict majority is never made of a minority only.
\<close>

locale majority =
  fixes members :: "'a set"
    and weight :: "'a \<Rightarrow> rat"
  assumes finite_members: "finite members"
    and weight_nonneg: "a \<in> members \<Longrightarrow> 0 \<le> weight a"
begin

definition decides :: "'a set \<Rightarrow> bool" where
  "decides A \<longleftrightarrow> A \<subseteq> members \<and> sum weight members < 2 * sum weight A"

lemma decisions_meet:
  assumes "decides A" "decides B"
  shows "A \<inter> B \<noteq> {}"
proof
  assume "A \<inter> B = {}"
  have sub: "A \<subseteq> members" "B \<subseteq> members" using assms by (simp_all add: decides_def)
  then have "finite A" "finite B" using finite_members by (auto intro: finite_subset)
  then have "sum weight A + sum weight B = sum weight (A \<union> B)"
    using \<open>A \<inter> B = {}\<close> by (simp add: sum.union_disjoint)
  also have "\<dots> \<le> sum weight members"
    using sub finite_members weight_nonneg by (intro sum_mono2) auto
  finally show False using assms by (simp add: decides_def)
qed

lemma decides_positive:
  assumes "decides A"
  shows "decides {a \<in> A. 0 < weight a}"
proof -
  have A: "A \<subseteq> members" "finite A" using assms finite_members by (auto simp: decides_def intro: finite_subset)
  then have "sum weight {a \<in> A. 0 < weight a} = sum weight A"
    using weight_nonneg by (intro sum.mono_neutral_left) (auto simp: less_le)
  then show ?thesis using assms by (auto simp: decides_def)
qed

lemma decision_needs_outsider:
  assumes "decides A" "C \<subseteq> members" "2 * sum weight C \<le> sum weight members"
  shows "\<exists>a. a \<in> A \<and> a \<notin> C"
proof (rule ccontr)
  assume "\<not> (\<exists>a. a \<in> A \<and> a \<notin> C)"
  then have "sum weight A \<le> sum weight C"
    using assms(2) finite_members weight_nonneg by (intro sum_mono2) (auto intro: finite_subset)
  with assms show False by (simp add: decides_def)
qed

end

end
