(* ===== verification/Sig_Scheme.thy ===== *)
theory Sig_Scheme
  imports Prelude
begin

text \<open>
  The signature-scheme registry of \<^verbatim>\<open>neura_l1/sig_scheme.py\<close>: a record names its scheme by an
  optional tag, an absent tag means the legacy scheme, and a tag that this node cannot verify is
  an error.
\<close>

definition scheme_secp256k1 :: string where
  "scheme_secp256k1 = ''secp256k1''"

definition scheme_ml_dsa_44 :: string where
  "scheme_ml_dsa_44 = ''ml-dsa-44''"

definition scheme_hybrid :: string where
  "scheme_hybrid = ''secp256k1+ml-dsa-44''"

definition default_scheme :: string where
  "default_scheme = scheme_secp256k1"

definition supported_schemes :: "string list" where
  "supported_schemes = [scheme_secp256k1, scheme_ml_dsa_44]"

definition recoverable_schemes :: "string list" where
  "recoverable_schemes = [scheme_secp256k1]"

definition known_schemes :: "string list" where
  "known_schemes = [scheme_secp256k1, scheme_ml_dsa_44, scheme_hybrid]"

definition normalize_scheme :: "string option \<Rightarrow> string" where
  "normalize_scheme scheme =
     (case scheme of None \<Rightarrow> default_scheme | Some s \<Rightarrow> if s = [] then default_scheme else s)"

definition is_recoverable :: "string option \<Rightarrow> bool" where
  "is_recoverable scheme \<longleftrightarrow> normalize_scheme scheme \<in> set recoverable_schemes"

definition is_known :: "string option \<Rightarrow> bool" where
  "is_known scheme \<longleftrightarrow> normalize_scheme scheme \<in> set known_schemes"

definition is_supported :: "string option \<Rightarrow> bool" where
  "is_supported scheme \<longleftrightarrow> normalize_scheme scheme \<in> set supported_schemes"

definition require_supported :: "string option \<Rightarrow> exn + string" where
  "require_supported scheme =
     (let s = normalize_scheme scheme
      in if s \<notin> set supported_schemes then Inl (UnsupportedSchemeError s) else Inr s)"

text \<open>The tag of a decoded envelope: \<^verbatim>\<open>None\<close> when absent, \<^verbatim>\<open>str(tag)\<close> otherwise. The text of a tag
  that is no string (a number, a list) is never the name of a scheme.\<close>

definition scheme_tag :: "json option \<Rightarrow> string option" where
  "scheme_tag j = (case j of None \<Rightarrow> None
     | Some JNull \<Rightarrow> None | Some (JStr s) \<Rightarrow> Some s | Some _ \<Rightarrow> Some ''?'')"

lemmas scheme_defs = scheme_secp256k1_def scheme_ml_dsa_44_def scheme_hybrid_def default_scheme_def
  supported_schemes_def recoverable_schemes_def known_schemes_def

lemma require_supported_Inr:
  "require_supported sc = Inr s \<longleftrightarrow> is_supported sc \<and> s = normalize_scheme sc"
  by (auto simp: require_supported_def is_supported_def Let_def)

lemma require_supported_Inl:
  "require_supported sc = Inl e \<longleftrightarrow> \<not> is_supported sc \<and> e = UnsupportedSchemeError (normalize_scheme sc)"
  by (auto simp: require_supported_def is_supported_def Let_def)

lemma require_supported_cases:
  "require_supported sc = Inr s \<Longrightarrow> s = scheme_secp256k1 \<or> s = scheme_ml_dsa_44"
  by (auto simp: require_supported_Inr is_supported_def supported_schemes_def)

lemma recoverable_supported: "is_recoverable sc \<Longrightarrow> is_supported sc"
  by (simp add: is_recoverable_def is_supported_def recoverable_schemes_def supported_schemes_def)

lemma supported_known: "is_supported sc \<Longrightarrow> is_known sc"
  by (auto simp: is_supported_def is_known_def supported_schemes_def known_schemes_def)

lemma legacy_supported: "sc = None \<or> sc = Some [] \<Longrightarrow> require_supported sc = Inr scheme_secp256k1"
  by (auto simp: require_supported_def normalize_scheme_def scheme_defs)

end
