(* ===== verification/Chain_Data.thy ===== *)
theory Chain_Data
  imports Sig_Scheme
begin

text \<open>
  The data of the chain, \<^verbatim>\<open>neura_l1/block_state.py\<close>: transactions, block headers and blocks with
  their canonical serialisation, their hashes, and the dictionaries they travel in. Identifiers
  (senders, checkpoints, hashes) are strings; \<^verbatim>\<open>from_dict\<close> of an identifier that is no string is
  an error in the model.
\<close>

subsection \<open>Constants\<close>

definition MAX_SUPPLY :: rat where "MAX_SUPPLY = 2100000000"
definition INITIAL_REWARD :: rat where "INITIAL_REWARD = 5000"
definition HALVING_EVERY :: int where "HALVING_EVERY = 210000"
definition MIN_STAKE :: rat where "MIN_STAKE = 10"
definition EQUIVOCATION_BOUNTY_FRAC :: rat where
  "EQUIVOCATION_BOUNTY_FRAC = 3602879701896397 / 36028797018963968"
definition UNBONDING_PERIOD :: int where "UNBONDING_PERIOD = 5"
definition TARGET_BLOCK_TIME :: int where "TARGET_BLOCK_TIME = 60"
definition RETARGET_WINDOW :: int where "RETARGET_WINDOW = 2016"
definition TARGET_TIMESPAN :: int where "TARGET_TIMESPAN = RETARGET_WINDOW * TARGET_BLOCK_TIME"
definition RETARGET_CLAMP_NUM :: int where "RETARGET_CLAMP_NUM = 4"
definition WORK_FLOOR_SCALE :: int where "WORK_FLOOR_SCALE = 1000000000"
definition GENESIS_WORK_FLOOR_UNITS :: int where "GENESIS_WORK_FLOOR_UNITS = 1000000"
definition WORK_FLOOR_MIN_UNITS :: int where "WORK_FLOOR_MIN_UNITS = 1"
definition WORK_FLOOR_MAX_UNITS :: int where "WORK_FLOOR_MAX_UNITS = 1000000000000"
definition OBSERVED_WORK_CEIL_NUM :: int where "OBSERVED_WORK_CEIL_NUM = 3"
definition OBSERVED_WORK_CEIL_DEN :: int where "OBSERVED_WORK_CEIL_DEN = 4"
definition WORK_EWMA_NUM :: int where "WORK_EWMA_NUM = 1"
definition WORK_EWMA_DEN :: int where "WORK_EWMA_DEN = 16"
definition MTP_WINDOW :: nat where "MTP_WINDOW = 11"
definition RETARGET_ACTIVATION_HEIGHT :: int where "RETARGET_ACTIVATION_HEIGHT = 0"
definition GENESIS_PREV_HASH :: string where "GENESIS_PREV_HASH = replicate 64 CHR ''0''"
definition GENESIS_BEACON :: string where "GENESIS_BEACON = replicate 64 CHR ''0''"
definition GENESIS_VERSION :: int where "GENESIS_VERSION = 1"
definition UPGRADE_THRESHOLD_NUM :: rat where "UPGRADE_THRESHOLD_NUM = 2"
definition UPGRADE_THRESHOLD_DEN :: rat where "UPGRADE_THRESHOLD_DEN = 3"
definition UPGRADE_WINDOW :: int where "UPGRADE_WINDOW = 3"
definition UPGRADE_ACTIVATION_DELAY :: int where "UPGRADE_ACTIVATION_DELAY = 3"

lemma bounty_frac_is_float: "EQUIVOCATION_BOUNTY_FRAC = rnd64 (1 / 10)"
  unfolding EQUIVOCATION_BOUNTY_FRAC_def by code_simp

subsection \<open>Transactions\<close>

datatype tx_kind = Transfer | Stake | Unstake | Slash | UpgradeSignal

definition kind_name :: "tx_kind \<Rightarrow> string" where
  "kind_name k = (case k of Transfer \<Rightarrow> ''transfer'' | Stake \<Rightarrow> ''stake'' | Unstake \<Rightarrow> ''unstake''
     | Slash \<Rightarrow> ''slash'' | UpgradeSignal \<Rightarrow> ''upgrade_signal'')"

definition parse_kind :: "string \<Rightarrow> exn + tx_kind" where
  "parse_kind s = (if s = ''transfer'' then Inr Transfer else if s = ''stake'' then Inr Stake
     else if s = ''unstake'' then Inr Unstake else if s = ''slash'' then Inr Slash
     else if s = ''upgrade_signal'' then Inr UpgradeSignal else Inl (ValueError ''unknown tx kind''))"

lemma parse_kind_name [simp]: "parse_kind (kind_name k) = Inr k"
  by (cases k) (simp_all add: parse_kind_def kind_name_def)

record tx =
  tx_sender :: string
  tx_kind :: tx_kind
  tx_to :: "string option"
  tx_amount :: pyfloat
  tx_nonce :: int
  tx_sig :: string
  tx_data :: json
  tx_sig_scheme :: "string option"

definition json_of_opt :: "string option \<Rightarrow> json" where
  "json_of_opt x = (case x of None \<Rightarrow> JNull | Some s \<Rightarrow> JStr s)"

definition opt_of_json :: "json \<Rightarrow> exn + string option" where
  "opt_of_json j = (case j of JNull \<Rightarrow> Inr None | JStr s \<Rightarrow> Inr (Some s) | _ \<Rightarrow> Inl TypeError)"

lemma opt_of_json_inverse [simp]: "opt_of_json (json_of_opt x) = Inr x"
  by (cases x) (simp_all add: opt_of_json_def json_of_opt_def)

definition tx_to_dict :: "tx \<Rightarrow> json" where
  "tx_to_dict t = JObj
     ([(''sender'', JStr (tx_sender t)), (''kind'', JStr (kind_name (tx_kind t))),
       (''to'', json_of_opt (tx_to t)), (''amount'', JNum (tx_amount t)),
       (''nonce'', JInt (tx_nonce t)), (''sig'', JStr (tx_sig t)), (''data'', tx_data t)]
      @ (case tx_sig_scheme t of None \<Rightarrow> [] | Some sc \<Rightarrow> [(''sig_scheme'', JStr sc)]))"

definition tx_from_dict :: "json \<Rightarrow> exn + tx" where
  "tx_from_dict d =
     bindE (bindE (getE d ''sender'') strE) (\<lambda>sender.
     bindE (bindE (getE d ''kind'') strE) (\<lambda>kname.
     bindE (opt_of_json (get_or d ''to'' JNull)) (\<lambda>to.
     bindE (finite_float (get_or d ''amount'' (JNum (Fin 0)))) (\<lambda>amount.
     bindE (intE (get_or d ''nonce'' (JInt 0))) (\<lambda>nonce.
     bindE (strE (get_or d ''sig'' (JStr ''dev''))) (\<lambda>sig.
     bindE (parse_kind kname) (\<lambda>kind.
     bindE (opt_of_json (get_or d ''sig_scheme'' JNull)) (\<lambda>sc.
       Inr \<lparr>tx_sender = sender, tx_kind = kind, tx_to = to, tx_amount = Fin amount,
            tx_nonce = nonce, tx_sig = sig, tx_data = get_or d ''data'' JNull,
            tx_sig_scheme = sc\<rparr>))))))))"

lemma opt_of_json_simps [simp]:
  "opt_of_json JNull = Inr None" "opt_of_json (JStr s) = Inr (Some s)"
  by (simp_all add: opt_of_json_def)

text \<open>\<^verbatim>\<open>_canon(x)\<close> raises on a non-finite value; a finite one is represented by itself.\<close>

definition canon :: "pyfloat \<Rightarrow> exn + json" where
  "canon x = (case x of Fin q \<Rightarrow> Inr (JNum (Fin q)) | NonFin \<Rightarrow> Inl (ValueError ''non-finite value''))"

definition tx_canonical_obj :: "world \<Rightarrow> bool \<Rightarrow> tx \<Rightarrow> exn + json" where
  "tx_canonical_obj W include_sig t =
     bindE (canon (tx_amount t)) (\<lambda>amount.
     bindE (if tx_data t = JNull then Inr JNull
            else if json_finite (tx_data t) then Inr (JStr (dumps W (tx_data t)))
            else Inl (ValueError ''Out of range float values are not JSON compliant'')) (\<lambda>data.
       Inr (JObj
         ([(''sender'', JStr (tx_sender t)), (''kind'', JStr (kind_name (tx_kind t))),
           (''to'', json_of_opt (tx_to t)), (''amount'', amount), (''nonce'', JInt (tx_nonce t)),
           (''data'', data)]
          @ (if include_sig then [(''sig'', JStr (tx_sig t))] else [])))))"

definition tx_canonical_bytes :: "world \<Rightarrow> tx \<Rightarrow> exn + string" where
  "tx_canonical_bytes W t = bindE (tx_canonical_obj W True t) (\<lambda>obj. Inr (dumps W obj))"

definition tx_signing_bytes :: "world \<Rightarrow> tx \<Rightarrow> exn + string" where
  "tx_signing_bytes W t = bindE (tx_canonical_obj W False t) (\<lambda>obj. Inr (dumps W obj))"

definition txid :: "world \<Rightarrow> tx \<Rightarrow> exn + string" where
  "txid W t = bindE (tx_canonical_bytes W t) (\<lambda>b. Inr (sha256 W b))"

text \<open>\<^verbatim>\<open>bytes.fromhex\<close> on a digest (lower-case hexadecimal digits).\<close>

definition hex_val :: "char \<Rightarrow> nat" where
  "hex_val c = (if is_digit c then of_char c - 48 else (of_char c - 87) mod 16)"

fun from_hex :: "string \<Rightarrow> string" where
  "from_hex (a # b # cs) = char_of (16 * hex_val a + hex_val b) # from_hex cs"
| "from_hex _ = []"

definition tx_root :: "world \<Rightarrow> tx list \<Rightarrow> exn + string" where
  "tx_root W txs =
     (if txs = [] then Inr (replicate 64 CHR ''0'')
      else bindE (mapE (txid W) txs) (\<lambda>ids. Inr (sha256 W (concat (map from_hex ids)))))"

subsection \<open>Block headers\<close>

record header =
  hd_height :: int
  hd_prev_hash :: string
  hd_beacon :: string
  hd_parent_checkpoint :: string
  hd_new_checkpoint :: string
  hd_work_score :: rat
  hd_proposer :: string
  hd_reward :: rat
  hd_tx_root :: string
  hd_timestamp :: int
  hd_protocol_version :: int
  hd_quorum_hash :: string

definition header_canonical :: "header \<Rightarrow> json" where
  "header_canonical h = JObj
     ([(''height'', JInt (hd_height h)), (''prev_hash'', JStr (hd_prev_hash h)),
       (''beacon'', JStr (hd_beacon h)), (''parent_checkpoint'', JStr (hd_parent_checkpoint h)),
       (''new_checkpoint'', JStr (hd_new_checkpoint h)), (''work_score'', JNum (Fin (hd_work_score h))),
       (''proposer'', JStr (hd_proposer h)), (''reward'', JNum (Fin (hd_reward h))),
       (''tx_root'', JStr (hd_tx_root h)), (''timestamp'', JInt (hd_timestamp h)),
       (''protocol_version'', JInt (hd_protocol_version h))]
      @ (if hd_quorum_hash h \<noteq> [] then [(''quorum_hash'', JStr (hd_quorum_hash h))] else []))"

definition header_hash :: "world \<Rightarrow> header \<Rightarrow> string" where
  "header_hash W h = sha256 W (dumps W (header_canonical h))"

definition header_to_dict :: "header \<Rightarrow> json" where
  "header_to_dict h = header_canonical h"

definition header_from_dict :: "json \<Rightarrow> exn + header" where
  "header_from_dict d =
     bindE (bindE (getE d ''height'') intE) (\<lambda>height.
     bindE (bindE (getE d ''prev_hash'') strE) (\<lambda>prev.
     bindE (bindE (getE d ''beacon'') strE) (\<lambda>beacon.
     bindE (bindE (getE d ''parent_checkpoint'') strE) (\<lambda>parent.
     bindE (bindE (getE d ''new_checkpoint'') strE) (\<lambda>new.
     bindE (bindE (getE d ''work_score'') finite_float) (\<lambda>work.
     bindE (bindE (getE d ''proposer'') strE) (\<lambda>proposer.
     bindE (bindE (getE d ''reward'') finite_float) (\<lambda>reward.
     bindE (bindE (getE d ''tx_root'') strE) (\<lambda>root.
     bindE (bindE (getE d ''timestamp'') intE) (\<lambda>ts.
     bindE (intE (get_or d ''protocol_version'' (JInt GENESIS_VERSION))) (\<lambda>pv.
     bindE (strE (get_or d ''quorum_hash'' (JStr []))) (\<lambda>qh.
       Inr \<lparr>hd_height = height, hd_prev_hash = prev, hd_beacon = beacon,
            hd_parent_checkpoint = parent, hd_new_checkpoint = new, hd_work_score = work,
            hd_proposer = proposer, hd_reward = reward, hd_tx_root = root, hd_timestamp = ts,
            hd_protocol_version = pv, hd_quorum_hash = qh\<rparr>))))))))))))"

subsection \<open>Blocks\<close>

record block =
  bk_header :: header
  bk_txs :: "tx list"
  bk_pouw :: json
  bk_commitment :: json

definition block_hash :: "world \<Rightarrow> block \<Rightarrow> string" where
  "block_hash W b = header_hash W (bk_header b)"

definition block_height :: "block \<Rightarrow> int" where
  "block_height b = hd_height (bk_header b)"

definition block_prev_hash :: "block \<Rightarrow> string" where
  "block_prev_hash b = hd_prev_hash (bk_header b)"

definition block_work :: "block \<Rightarrow> rat" where
  "block_work b = hd_work_score (bk_header b)"

definition block_to_dict :: "block \<Rightarrow> json" where
  "block_to_dict b = JObj
     [(''header'', header_to_dict (bk_header b)), (''txs'', JList (map tx_to_dict (bk_txs b))),
      (''pouw'', bk_pouw b), (''commitment'', bk_commitment b)]"

definition block_from_dict :: "json \<Rightarrow> exn + block" where
  "block_from_dict d =
     bindE (bindE (getE d ''header'') header_from_dict) (\<lambda>hdr.
     bindE (case get_or d ''txs'' (JList []) of JList ts \<Rightarrow> mapE tx_from_dict ts | _ \<Rightarrow> Inl TypeError) (\<lambda>txs.
       Inr \<lparr>bk_header = hdr, bk_txs = txs, bk_pouw = get_or d ''pouw'' (JObj []),
            bk_commitment = get_or d ''commitment'' JNull\<rparr>))"

definition genesis_block :: "string \<Rightarrow> block" where
  "genesis_block ckpt =
     \<lparr>bk_header = \<lparr>hd_height = 0, hd_prev_hash = GENESIS_PREV_HASH, hd_beacon = GENESIS_BEACON,
        hd_parent_checkpoint = ckpt, hd_new_checkpoint = ckpt, hd_work_score = 0,
        hd_proposer = ''genesis'', hd_reward = 0, hd_tx_root = replicate 64 CHR ''0'', hd_timestamp = 0,
        hd_protocol_version = GENESIS_VERSION, hd_quorum_hash = []\<rparr>,
      bk_txs = [], bk_pouw = JObj [], bk_commitment = JNull\<rparr>"

subsection \<open>Round trips\<close>

text \<open>A header and a finite transaction survive their dictionaries.\<close>

lemma header_roundtrip [simp]: "header_from_dict (header_to_dict h) = Inr h"
  by (simp add: header_from_dict_def header_to_dict_def header_canonical_def)

lemma tx_dict_getters:
  "getE (tx_to_dict t) ''sender'' = Inr (JStr (tx_sender t))"
  "getE (tx_to_dict t) ''kind'' = Inr (JStr (kind_name (tx_kind t)))"
  "get_or (tx_to_dict t) ''to'' v = json_of_opt (tx_to t)"
  "get_or (tx_to_dict t) ''amount'' v = JNum (tx_amount t)"
  "get_or (tx_to_dict t) ''nonce'' v = JInt (tx_nonce t)"
  "get_or (tx_to_dict t) ''sig'' v = JStr (tx_sig t)"
  "get_or (tx_to_dict t) ''data'' v = tx_data t"
  "get_or (tx_to_dict t) ''sig_scheme'' JNull = json_of_opt (tx_sig_scheme t)"
  by (simp_all add: tx_to_dict_def json_of_opt_def split: option.split)

lemma tx_roundtrip:
  assumes "tx_amount t = Fin q"
  shows "tx_from_dict (tx_to_dict t) = Inr t"
  using assms by (simp add: tx_from_dict_def tx_dict_getters)

lemma tx_nonfinite_refused:
  assumes "tx_amount t = NonFin"
  shows "tx_from_dict (tx_to_dict t) = Inl (ValueError ''non-finite number'')"
  using assms by (simp add: tx_from_dict_def tx_dict_getters finite_float_def)

lemma txs_roundtrip:
  assumes "list_all (\<lambda>t. tx_amount t \<noteq> NonFin) ts"
  shows "mapE tx_from_dict (map tx_to_dict ts) = Inr ts"
proof (rule mapE_inverse)
  fix t assume "t \<in> set ts"
  with assms have "tx_amount t \<noteq> NonFin" by (simp add: list_all_iff)
  then obtain q where "tx_amount t = Fin q" by (cases "tx_amount t") auto
  then show "tx_from_dict (tx_to_dict t) = Inr t" by (rule tx_roundtrip)
qed

lemma block_from_to_dict:
  assumes "list_all (\<lambda>t. tx_amount t \<noteq> NonFin) (bk_txs b)"
  shows "block_from_dict (block_to_dict b) = Inr b"
  using assms by (simp add: block_from_dict_def block_to_dict_def txs_roundtrip)

end
