(* ===== verification/Signing.thy ===== *)
theory Signing
  imports Chain_Data
begin

text \<open>
  Signatures, \<^verbatim>\<open>neura_l1/signing.py\<close>: domain-separated messages, scheme-dispatched recovery and
  verification, signed block commitments and equivocation proofs.
\<close>

subsection \<open>Accounts and domain separation\<close>

record account =
  acct_address :: string
  acct_key :: "string option"

text \<open>\<^verbatim>\<open>account.key\<close> of a \<^verbatim>\<open>VerifyOnlyAccount\<close> raises; an \<^verbatim>\<open>eth_account\<close> account has one.\<close>

definition account_from_key :: "world \<Rightarrow> string \<Rightarrow> account" where
  "account_from_key W k = \<lparr>acct_address = address_of_key W k, acct_key = Some k\<rparr>"

definition verify_only_account :: "string \<Rightarrow> account" where
  "verify_only_account addr = \<lparr>acct_address = addr, acct_key = None\<rparr>"

definition account_key :: "account \<Rightarrow> exn + string" where
  "account_key a = orE (RuntimeError ''coordinator loaded in VERIFY-ONLY mode'') (acct_key a)"

definition CHAIN_ID :: string where "CHAIN_ID = ''neurahash-l1-testnet-0''"
definition DOMAIN :: string where "DOMAIN = ''NRH/v1''"

definition domain_bytes :: "string \<Rightarrow> string \<Rightarrow> string" where
  "domain_bytes kind data = DOMAIN @ ''|'' @ CHAIN_ID @ ''|'' @ kind @ ''|'' @ data"

lemma split_at_bar:
  assumes "CHR ''|'' \<notin> set a" "CHR ''|'' \<notin> set b" "a @ ''|'' @ x = b @ ''|'' @ y"
  shows "a = b \<and> x = y"
  using assms by (induction a arbitrary: b) (auto simp: Cons_eq_append_conv append_eq_Cons_conv)

lemma domain_bytes_inj:
  assumes "CHR ''|'' \<notin> set k1" "CHR ''|'' \<notin> set k2" "domain_bytes k1 d1 = domain_bytes k2 d2"
  shows "k1 = k2 \<and> d1 = d2"
  using split_at_bar [OF assms(1,2)] assms(3) by (simp add: domain_bytes_def)

subsection \<open>Signing and recovering bytes\<close>

definition hex_sig :: "string \<Rightarrow> string" where
  "hex_sig sig = (if starts_with ''0x'' sig then sig else ''0x'' @ sig)"

definition sign_bytes :: "world \<Rightarrow> account \<Rightarrow> string \<Rightarrow> exn + string" where
  "sign_bytes W a data =
     bindE (account_key a) (\<lambda>k. Inr (sign_message W k (domain_bytes ''bytes'' data)))"

definition recover_bytes :: "world \<Rightarrow> string \<Rightarrow> string \<Rightarrow> exn + string" where
  "recover_bytes W data sig =
     orE SignatureError (recover_message W (domain_bytes ''bytes'' data) (hex_sig sig))"

definition recover_bytes_scheme :: "world \<Rightarrow> string \<Rightarrow> string \<Rightarrow> string option \<Rightarrow> exn + string" where
  "recover_bytes_scheme W data sig scheme =
     bindE (require_supported scheme) (\<lambda>s.
       if s = scheme_secp256k1 then recover_bytes W data sig else Inl (UnsupportedSchemeError s))"

definition verify_bytes_scheme ::
  "world \<Rightarrow> string \<Rightarrow> string \<Rightarrow> string option \<Rightarrow> string option \<Rightarrow> string option \<Rightarrow> exn + bool" where
  "verify_bytes_scheme W data sig scheme pubkey address =
     bindE (require_supported scheme) (\<lambda>s.
       if s = scheme_secp256k1 then
         (case recover_bytes W data sig of
            Inl _ \<Rightarrow> Inr False
          | Inr r \<Rightarrow> Inr (case address of None \<Rightarrow> True | Some a \<Rightarrow> str_lower r = str_lower a))
       else if s = scheme_ml_dsa_44 then
         (case pubkey of
            None \<Rightarrow> Inr False
          | Some p \<Rightarrow>
              if \<not> pqc_verify W p data sig then Inr False
              else Inr (case address of None \<Rightarrow> True
                        | Some a \<Rightarrow> str_lower (pqc_address W p) = str_lower a))
       else Inr False)"

definition sign_tx :: "world \<Rightarrow> tx \<Rightarrow> account \<Rightarrow> exn + tx" where
  "sign_tx W t a =
     bindE (tx_signing_bytes W t) (\<lambda>b.
     bindE (account_key a) (\<lambda>k. Inr (t\<lparr>tx_sig := sign_message W k (domain_bytes ''tx'' b)\<rparr>)))"

definition recover_tx_signer :: "world \<Rightarrow> tx \<Rightarrow> exn + string" where
  "recover_tx_signer W t =
     (if tx_sig t = [] \<or> tx_sig t = ''dev'' then Inl (ValueError ''tx is not signed'')
      else bindE (require_supported (tx_sig_scheme t)) (\<lambda>s.
        if s = scheme_secp256k1 then
          bindE (tx_signing_bytes W t) (\<lambda>b.
            orE SignatureError (recover_message W (domain_bytes ''tx'' b) (hex_sig (tx_sig t))))
        else Inl (UnsupportedSchemeError s)))"

subsection \<open>Commitments\<close>

record commitment =
  cm_height :: int
  cm_prev_hash :: string
  cm_proposer :: string
  cm_beacon :: string
  cm_parent_checkpoint :: string
  cm_new_checkpoint :: string
  cm_work_score :: pyfloat
  cm_merkle_root :: string
  cm_tx_root :: string

definition commitment_canonical :: "commitment \<Rightarrow> exn + json" where
  "commitment_canonical c =
     bindE (canon (cm_work_score c)) (\<lambda>ws. Inr (JObj
       [(''height'', JInt (cm_height c)), (''prev_hash'', JStr (cm_prev_hash c)),
        (''proposer'', JStr (cm_proposer c)), (''beacon'', JStr (cm_beacon c)),
        (''parent_checkpoint'', JStr (cm_parent_checkpoint c)),
        (''new_checkpoint'', JStr (cm_new_checkpoint c)), (''work_score'', ws),
        (''merkle_root'', JStr (cm_merkle_root c)), (''tx_root'', JStr (cm_tx_root c))]))"

definition commitment_canonical_bytes :: "world \<Rightarrow> commitment \<Rightarrow> exn + string" where
  "commitment_canonical_bytes W c = bindE (commitment_canonical c) (\<lambda>j. Inr (dumps W j))"

definition commit_id :: "world \<Rightarrow> commitment \<Rightarrow> exn + string" where
  "commit_id W c = bindE (commitment_canonical_bytes W c) (\<lambda>b. Inr (sha256 W b))"

text \<open>The root in \<^verbatim>\<open>block.pouw["submission"]["root"]\<close>, or the empty string.\<close>

definition pouw_root :: "json \<Rightarrow> string" where
  "pouw_root p = (case jindex p ''submission'' of
       None \<Rightarrow> [] | Some sub \<Rightarrow> (case jindex sub ''root'' of Some (JStr r) \<Rightarrow> r | _ \<Rightarrow> []))"

definition commitment_from_block :: "block \<Rightarrow> commitment" where
  "commitment_from_block b = (let h = bk_header b in
     \<lparr>cm_height = hd_height h, cm_prev_hash = hd_prev_hash h, cm_proposer = hd_proposer h,
      cm_beacon = hd_beacon h, cm_parent_checkpoint = hd_parent_checkpoint h,
      cm_new_checkpoint = hd_new_checkpoint h, cm_work_score = Fin (hd_work_score h),
      cm_merkle_root = pouw_root (bk_pouw b), cm_tx_root = hd_tx_root h\<rparr>)"

definition commitment_from_dict :: "json \<Rightarrow> exn + commitment" where
  "commitment_from_dict d =
     bindE (bindE (getE d ''height'') intE) (\<lambda>height.
     bindE (bindE (getE d ''prev_hash'') strE) (\<lambda>prev.
     bindE (bindE (getE d ''proposer'') strE) (\<lambda>proposer.
     bindE (bindE (getE d ''beacon'') strE) (\<lambda>beacon.
     bindE (bindE (getE d ''parent_checkpoint'') strE) (\<lambda>parent.
     bindE (bindE (getE d ''new_checkpoint'') strE) (\<lambda>new.
     bindE (bindE (getE d ''work_score'') (\<lambda>j. orE (ValueError ''float'') (jfloat j))) (\<lambda>ws.
     bindE (bindE (getE d ''merkle_root'') strE) (\<lambda>mroot.
     bindE (bindE (getE d ''tx_root'') strE) (\<lambda>txroot.
       Inr \<lparr>cm_height = height, cm_prev_hash = prev, cm_proposer = proposer, cm_beacon = beacon,
            cm_parent_checkpoint = parent, cm_new_checkpoint = new, cm_work_score = ws,
            cm_merkle_root = mroot, cm_tx_root = txroot\<rparr>)))))))))"

definition matches_header :: "commitment \<Rightarrow> header \<Rightarrow> bool" where
  "matches_header c h \<longleftrightarrow>
     cm_height c = hd_height h \<and> cm_prev_hash c = hd_prev_hash h \<and> cm_proposer c = hd_proposer h
     \<and> cm_beacon c = hd_beacon h \<and> cm_parent_checkpoint c = hd_parent_checkpoint h
     \<and> cm_new_checkpoint c = hd_new_checkpoint h \<and> cm_work_score c = Fin (hd_work_score h)
     \<and> cm_tx_root c = hd_tx_root h"

subsection \<open>Signing and verifying commitments\<close>

definition sign_commitment :: "world \<Rightarrow> commitment \<Rightarrow> account \<Rightarrow> exn + json" where
  "sign_commitment W c a =
     bindE (commitment_canonical c) (\<lambda>j.
     bindE (account_key a) (\<lambda>k. Inr (JObj
       [(''commitment'', j), (''signer'', JStr (acct_address a)),
        (''signature'', JStr (sign_message W k (domain_bytes ''commit'' (dumps W j)))),
        (''scheme'', JStr default_scheme)])))"

definition recover_signer :: "world \<Rightarrow> json \<Rightarrow> exn + string" where
  "recover_signer W signed =
     bindE (bindE (getE signed ''commitment'') commitment_from_dict) (\<lambda>c.
     bindE (commitment_canonical_bytes W c) (\<lambda>b.
     bindE (require_supported (scheme_tag (jindex signed ''scheme''))) (\<lambda>s.
     bindE (bindE (getE signed ''signature'') strE) (\<lambda>sig.
       if s = scheme_secp256k1
       then orE SignatureError (recover_message W (domain_bytes ''commit'' b) (hex_sig sig))
       else Inl (UnsupportedSchemeError s)))))"

datatype verify_failure =
    RecoveryFailed exn
  | SignerNotRegistered string string

definition verify_commitment :: "world \<Rightarrow> json \<Rightarrow> string option \<Rightarrow> verify_failure + string" where
  "verify_commitment W signed expected =
     (case recover_signer W signed of
        Inl e \<Rightarrow> Inl (RecoveryFailed e)
      | Inr r \<Rightarrow>
          (case expected of
             None \<Rightarrow> Inr r
           | Some a \<Rightarrow> if str_lower r \<noteq> str_lower a then Inl (SignerNotRegistered r a) else Inr r))"

subsection \<open>Equivocation\<close>

datatype equivocation_failure =
    EnvelopeAInvalid verify_failure
  | EnvelopeBInvalid verify_failure
  | DifferentSigners string string
  | DifferentHeights int int
  | DifferentParents string string
  | IdenticalCommitment
  | CommitmentRaised exn

record equivocation_proof =
  eq_a :: json
  eq_b :: json

definition equivocation_to_dict :: "equivocation_proof \<Rightarrow> json" where
  "equivocation_to_dict p = JObj [(''a'', eq_a p), (''b'', eq_b p)]"

definition equivocation_from_dict :: "json \<Rightarrow> exn + equivocation_proof" where
  "equivocation_from_dict d =
     bindE (getE d ''a'') (\<lambda>a. bindE (getE d ''b'') (\<lambda>b. Inr \<lparr>eq_a = a, eq_b = b\<rparr>))"

definition envelope_commitment :: "json \<Rightarrow> exn + commitment" where
  "envelope_commitment signed = bindE (getE signed ''commitment'') commitment_from_dict"

definition verify_equivocation ::
  "world \<Rightarrow> equivocation_proof \<Rightarrow> string option \<Rightarrow> equivocation_failure + string" where
  "verify_equivocation W p expected =
     (case verify_commitment W (eq_a p) expected of
        Inl e \<Rightarrow> Inl (EnvelopeAInvalid e)
      | Inr recA \<Rightarrow>
     (case verify_commitment W (eq_b p) expected of
        Inl e \<Rightarrow> Inl (EnvelopeBInvalid e)
      | Inr recB \<Rightarrow>
        if str_lower recA \<noteq> str_lower recB then Inl (DifferentSigners recA recB)
        else (case (envelope_commitment (eq_a p), envelope_commitment (eq_b p)) of
            (Inr ca, Inr cb) \<Rightarrow>
              if cm_height ca \<noteq> cm_height cb then Inl (DifferentHeights (cm_height ca) (cm_height cb))
              else if cm_prev_hash ca \<noteq> cm_prev_hash cb
                then Inl (DifferentParents (cm_prev_hash ca) (cm_prev_hash cb))
              else (case (commit_id W ca, commit_id W cb) of
                  (Inr ia, Inr ib) \<Rightarrow> if ia = ib then Inl IdenticalCommitment else Inr recA
                | (Inl e, _) \<Rightarrow> Inl (CommitmentRaised e)
                | (Inr _, Inl e) \<Rightarrow> Inl (CommitmentRaised e))
          | (Inl e, _) \<Rightarrow> Inl (CommitmentRaised e)
          | (Inr _, Inl e) \<Rightarrow> Inl (CommitmentRaised e))))"

subsection \<open>Facts\<close>

lemma commitment_roundtrip:
  assumes "commitment_canonical c = Inr j"
  shows "commitment_from_dict j = Inr c"
  using assms
  by (cases c; cases "cm_work_score c")
    (auto simp: commitment_canonical_def canon_def commitment_from_dict_def)

lemma recover_signer_Inr:
  assumes "recover_signer W signed = Inr r"
  obtains c b sig where "envelope_commitment signed = Inr c" "commitment_canonical_bytes W c = Inr b"
    "recover_message W (domain_bytes ''commit'' b) sig = Some r"
  using assms
  by (auto simp: recover_signer_def envelope_commitment_def bindE_Inr_iff orE_Inr_iff split: if_splits)

lemma verify_commitment_Inr:
  "verify_commitment W signed expected = Inr r \<longleftrightarrow>
     recover_signer W signed = Inr r
     \<and> (case expected of None \<Rightarrow> True | Some a \<Rightarrow> str_lower r = str_lower a)"
  by (auto simp: verify_commitment_def split: sum.splits option.splits)

lemma hex_sig_0x [simp]: "starts_with ''0x'' s \<Longrightarrow> hex_sig s = s"
  by (simp add: hex_sig_def)

lemma verify_sign_commitment:
  assumes "signs_correctly W" "sign_commitment W c a = Inr signed" "acct_key a = Some k"
  shows "verify_commitment W signed (Some (address_of_key W k)) = Inr (address_of_key W k)"
proof -
  from assms(2,3) obtain j where j: "commitment_canonical c = Inr j"
    and signed: "signed = JObj [(''commitment'', j), (''signer'', JStr (acct_address a)),
        (''signature'', JStr (sign_message W k (domain_bytes ''commit'' (dumps W j)))),
        (''scheme'', JStr default_scheme)]"
    by (auto simp: sign_commitment_def bindE_Inr_iff account_key_def)
  have "recover_signer W signed = Inr (address_of_key W k)"
    using assms(1) commitment_roundtrip [OF j]
    by (simp add: recover_signer_def signed commitment_canonical_bytes_def j scheme_tag_def
        require_supported_def normalize_scheme_def scheme_defs signs_correctly_def)
  then show ?thesis by (simp add: verify_commitment_Inr)
qed

lemma verify_equivocation_Inr:
  assumes "verify_equivocation W p expected = Inr r"
  obtains ca cb ia ib recB where
    "recover_signer W (eq_a p) = Inr r" "recover_signer W (eq_b p) = Inr recB"
    "str_lower recB = str_lower r"
    "envelope_commitment (eq_a p) = Inr ca" "envelope_commitment (eq_b p) = Inr cb"
    "cm_height ca = cm_height cb" "cm_prev_hash ca = cm_prev_hash cb"
    "commit_id W ca = Inr ia" "commit_id W cb = Inr ib" "ia \<noteq> ib"
  using assms
  by (auto simp: verify_equivocation_def verify_commitment_Inr split: sum.splits if_splits)

end
