(* ===== verification/Ledger.thy ===== *)
theory Ledger
  imports Signing
begin

text \<open>
  The account state of the chain and its transactions, class \<^verbatim>\<open>State\<close> of
  \<^verbatim>\<open>neura_l1/block_state.py\<close>: balances, bonds, the unbonding queue, validator keys, nonces, the
  slashing of equivocators and vote faults. Amounts are binary64 floats (theory Py_Float), each
  operation rounded as the code computes it.

  \<^verbatim>\<open>upgrade_signals\<close> is a Python set; it is kept as the list of its elements in iteration order,
  because \<open>upgrade_signaled_stake\<close> folds a float sum over it. \<open>slashed_faults\<close> is only tested for
  membership and is a set.
\<close>

subsection \<open>State\<close>

type_synonym addr = string

record nstate =
  require_tx_signatures :: bool
  retarget_enabled :: bool
  bal :: "(addr, rat) pydict"
  staked :: "(addr, rat) pydict"
  treasury :: rat
  minted :: rat
  nonces :: "(addr, int) pydict"
  keys :: "(addr, addr) pydict"
  slashed_faults :: "string set"
  unbonding :: "(addr, (rat \<times> int) list) pydict"
  model_checkpoint :: string
  protocol_version :: int
  upgrade_signals :: "addr list"
  upgrade_streak :: int
  pending_activation :: "int option"
  work_floor_q :: int
  retarget_anchor_ts :: int
  retarget_anchor_h :: int
  last_block_ts :: int
  work_ewma_q :: int
  ts_ring :: "int list"

definition new_state :: "string \<Rightarrow> bool \<Rightarrow> bool \<Rightarrow> nstate" where
  "new_state ckpt req retarget =
     \<lparr>require_tx_signatures = req, retarget_enabled = retarget, bal = [], staked = [],
      treasury = 0, minted = 0, nonces = [], keys = [], slashed_faults = {}, unbonding = [],
      model_checkpoint = ckpt, protocol_version = GENESIS_VERSION, upgrade_signals = [],
      upgrade_streak = 0, pending_activation = None, work_floor_q = GENESIS_WORK_FLOOR_UNITS,
      retarget_anchor_ts = 0, retarget_anchor_h = 0, last_block_ts = 0,
      work_ewma_q = GENESIS_WORK_FLOOR_UNITS, ts_ring = []\<rparr>"

definition for_value_chain :: "string \<Rightarrow> bool \<Rightarrow> nstate" where
  "for_value_chain ckpt retarget = new_state ckpt True retarget"

definition copy_state :: "nstate \<Rightarrow> nstate" where
  "copy_state s = (new_state (model_checkpoint s) (require_tx_signatures s) (retarget_enabled s))
     \<lparr>bal := bal s, staked := staked s, treasury := treasury s, minted := minted s,
      nonces := nonces s, keys := keys s, slashed_faults := slashed_faults s,
      unbonding := unbonding s, protocol_version := protocol_version s,
      upgrade_signals := upgrade_signals s, upgrade_streak := upgrade_streak s,
      pending_activation := pending_activation s, work_floor_q := work_floor_q s,
      retarget_anchor_ts := retarget_anchor_ts s, retarget_anchor_h := retarget_anchor_h s,
      last_block_ts := last_block_ts s, work_ewma_q := work_ewma_q s, ts_ring := ts_ring s\<rparr>"

subsection \<open>Reads\<close>

definition balance :: "nstate \<Rightarrow> addr \<Rightarrow> rat" where
  "balance s a = dget (bal s) a 0"

definition stake_of :: "nstate \<Rightarrow> addr \<Rightarrow> rat" where
  "stake_of s a = dget (staked s) a 0"

definition unbonding_of :: "nstate \<Rightarrow> addr \<Rightarrow> rat" where
  "unbonding_of s a = fsum (map fst (dget (unbonding s) a []))"

definition at_risk_of :: "nstate \<Rightarrow> addr \<Rightarrow> rat" where
  "at_risk_of s a = fadd (stake_of s a) (unbonding_of s a)"

definition key_of :: "nstate \<Rightarrow> addr \<Rightarrow> addr option" where
  "key_of s a = map_of (keys s) a"

definition register_key :: "nstate \<Rightarrow> addr \<Rightarrow> addr \<Rightarrow> nstate" where
  "register_key s p a = s\<lparr>keys := dset p a (keys s)\<rparr>"

definition child_version :: "nstate \<Rightarrow> int \<Rightarrow> int" where
  "child_version s height = (case pending_activation s of
       Some pa \<Rightarrow> if pa \<le> height then protocol_version s + 1 else protocol_version s
     | None \<Rightarrow> protocol_version s)"

definition upgrade_signaled_stake :: "nstate \<Rightarrow> rat" where
  "upgrade_signaled_stake s = fsum (map (\<lambda>a. dget (staked s) a 0) (upgrade_signals s))"

definition nominal_reward :: "nstate \<Rightarrow> int \<Rightarrow> rat" where
  "nominal_reward s height =
     (if height \<le> 0 then 0
      else (let r = fmul INITIAL_REWARD (rnd64 ((1 / 2) powi (height div HALVING_EVERY)))
            in max 0 (min r (fsub MAX_SUPPLY (minted s)))))"

subsection \<open>Mutating primitives\<close>

definition credit :: "nstate \<Rightarrow> addr \<Rightarrow> rat \<Rightarrow> nstate" where
  "credit s a amt = s\<lparr>bal := dset a (fadd (dget (bal s) a 0) amt) (bal s)\<rparr>"

definition debit :: "nstate \<Rightarrow> addr \<Rightarrow> rat \<Rightarrow> nstate" where
  "debit s a amt = s\<lparr>bal := dset a (fsub (dget (bal s) a 0) amt) (bal s)\<rparr>"

definition bump_nonce :: "nstate \<Rightarrow> tx \<Rightarrow> nstate" where
  "bump_nonce s t = s\<lparr>nonces := dset (tx_sender t) (tx_nonce t + 1) (nonces s)\<rparr>"

definition credit_reward :: "nstate \<Rightarrow> addr \<Rightarrow> rat \<Rightarrow> nstate" where
  "credit_reward s a amt =
     (if amt \<le> 0 then s
      else (credit s a amt)\<lparr>minted := fadd (minted s) amt\<rparr>)"

text \<open>
  \<^verbatim>\<open>_seize\<close>: the active bond first, then the unbonding entries, oldest release first.
  \<open>remaining\<close> is \<open>None\<close> for "everything". The loop over the entries returns what was seized, what
  remains to be seized, and the entries kept.
\<close>

fun seize_entries :: "rat option \<Rightarrow> rat \<Rightarrow> (rat \<times> int) list \<Rightarrow> rat \<times> rat option \<times> (rat \<times> int) list" where
  "seize_entries remaining seized [] = (seized, remaining, [])"
| "seize_entries remaining seized ((amt, rel) # es) =
     (if (case remaining of None \<Rightarrow> False | Some r \<Rightarrow> r \<le> 0)
      then (let (sz, r', kept) = seize_entries remaining seized es in (sz, r', (amt, rel) # kept))
      else (let t = (case remaining of None \<Rightarrow> amt | Some r \<Rightarrow> min amt r);
                remaining' = (case remaining of None \<Rightarrow> None | Some r \<Rightarrow> Some (fsub r t));
                (sz, r', kept) = seize_entries remaining' (fadd seized t) es
            in (sz, r', if 0 < fsub amt t then (fsub amt t, rel) # kept else kept)))"

definition release_order :: "(rat \<times> int) list \<Rightarrow> (rat \<times> int) list" where
  "release_order es = sort_key (\<lambda>(amt, rel). (rel, amt)) es"

definition set_unbonding :: "nstate \<Rightarrow> addr \<Rightarrow> (rat \<times> int) list \<Rightarrow> nstate" where
  "set_unbonding s a kept =
     (if kept \<noteq> [] then s\<lparr>unbonding := dset a kept (unbonding s)\<rparr>
      else s\<lparr>unbonding := dpop a (unbonding s)\<rparr>)"

definition seize_bond :: "nstate \<Rightarrow> addr \<Rightarrow> rat option \<Rightarrow> rat \<times> rat option \<times> nstate" where
  "seize_bond s a remaining =
     (let cur = dget (staked s) a 0; take = (case remaining of None \<Rightarrow> cur | Some r \<Rightarrow> min cur r)
      in if 0 < take
         then (fadd 0 take, (case remaining of None \<Rightarrow> None | Some r \<Rightarrow> Some (fsub r take)),
               s\<lparr>staked := dset a (fsub cur take) (staked s)\<rparr>)
         else (0, remaining, s))"

definition seize :: "nstate \<Rightarrow> addr \<Rightarrow> rat option \<Rightarrow> rat \<times> nstate" where
  "seize s a amount =
     (let (seized, remaining, s1) = seize_bond s a (map_option (max 0) amount);
          entries = dget (unbonding s1) a []
      in if entries \<noteq> [] \<and> (case remaining of None \<Rightarrow> True | Some r \<Rightarrow> 0 < r)
         then (let (sz, _, kept) = seize_entries remaining seized (release_order entries)
               in (sz, set_unbonding s1 a kept))
         else (seized, s1))"

definition slash :: "nstate \<Rightarrow> addr \<Rightarrow> rat option \<Rightarrow> rat \<times> nstate" where
  "slash s a amount =
     (let (seized, s1) = seize s a amount in (seized, s1\<lparr>treasury := fadd (treasury s1) seized\<rparr>))"

text \<open>\<^verbatim>\<open>_mature_unbonding\<close>: one address at a time, over the keys as they were at the start.\<close>

definition release_due :: "int \<Rightarrow> nstate \<Rightarrow> addr \<Rightarrow> (rat \<times> int) list \<Rightarrow> nstate" where
  "release_due height s a entries =
     foldl (\<lambda>st (amt, rel). if rel \<le> height then credit st a amt else st) s entries"

definition mature_addr :: "int \<Rightarrow> nstate \<Rightarrow> addr \<Rightarrow> nstate" where
  "mature_addr height s a =
     (let entries = dget (unbonding s) a [];
          s1 = release_due height s a entries
      in set_unbonding s1 a (filter (\<lambda>(amt, rel). \<not> rel \<le> height) entries))"

definition mature_unbonding :: "int \<Rightarrow> nstate \<Rightarrow> nstate" where
  "mature_unbonding height s = foldl (mature_addr height) s (dkeys (unbonding s))"

subsection \<open>Outcomes\<close>

datatype tx_ok =
    TransferApplied
  | StakeApplied
  | UpgradeSignalRecorded int
  | UnstakeQueued int
  | AlreadySlashed string
  | Slashed addr rat rat

datatype tx_reject =
    NonFiniteAmount
  | NegativeAmount
  | BadNonce int int
  | SenderNotRegistered
  | UnsupportedTxScheme string
  | InvalidTxSignature
  | SignatureMismatch
  | TransferMissingRecipient
  | InsufficientBalance
  | InsufficientBalanceToStake
  | MalformedUpgradeVersion
  | WrongUpgradeVersion int int
  | UpgradeNeedsStake
  | InsufficientStake
  | MissingValidator
  | MalformedVoteFault
  | ValidatorNotRegistered
  | NotAVoteFault
  | MissingEquivocation
  | MalformedEquivocation
  | InvalidEquivocation equivocation_failure
  | SignerNotProposer

text \<open>\<^verbatim>\<open>(True, reason)\<close>, \<^verbatim>\<open>(False, reason)\<close>, or an exception that leaves \<^verbatim>\<open>apply_tx\<close>.\<close>

datatype tx_outcome = Applied tx_ok | Rejected tx_reject | Raised exn

subsection \<open>Slashing transactions\<close>

definition reporter_bounty_ok :: "world \<Rightarrow> nstate \<Rightarrow> tx \<Rightarrow> bool" where
  "reporter_bounty_ok W s t = (case map_of (keys s) (tx_sender t) of
       None \<Rightarrow> False
     | Some reg \<Rightarrow> (case recover_tx_signer W t of
           Inl _ \<Rightarrow> False | Inr signer \<Rightarrow> str_lower signer = str_lower reg))"

text \<open>The common end of both slashes: seize everything at risk, pay an authenticated reporter,
  send the rest to the treasury, remember the fault.\<close>

definition punish :: "world \<Rightarrow> nstate \<Rightarrow> tx \<Rightarrow> addr \<Rightarrow> string \<Rightarrow> tx_outcome \<times> nstate" where
  "punish W s t offender fault =
     (let (bond, s1) = seize s offender None;
          bounty = (if reporter_bounty_ok W s1 t then fmul bond EQUIVOCATION_BOUNTY_FRAC else 0);
          s2 = (if 0 < bounty then credit s1 (tx_sender t) bounty else s1);
          s3 = s2\<lparr>treasury := fadd (treasury s2) (fsub bond bounty),
                  slashed_faults := insert fault (slashed_faults s2)\<rparr>
      in (Applied (Slashed offender bond bounty), s3))"

text \<open>\<^verbatim>\<open>self.keys.get(x)\<close> for a decoded \<open>x\<close>: a list or a dictionary is unhashable.\<close>

definition lookup_key :: "nstate \<Rightarrow> json \<Rightarrow> exn + addr option" where
  "lookup_key s j = (case j of JStr a \<Rightarrow> Inr (map_of (keys s) a)
     | JList _ \<Rightarrow> Inl TypeError | JObj _ \<Rightarrow> Inl TypeError | _ \<Rightarrow> Inr None)"

definition vote_fault_id :: "world \<Rightarrow> json \<Rightarrow> json \<Rightarrow> string" where
  "vote_fault_id W a b = (let x = vote_id W a; y = vote_id W b
     in ''ffg:'' @ (if x \<le> y then x @ '':'' @ y else y @ '':'' @ x))"

definition apply_vote_fault_slash :: "world \<Rightarrow> nstate \<Rightarrow> tx \<Rightarrow> json \<Rightarrow> tx_outcome \<times> nstate" where
  "apply_vote_fault_slash W s t data =
     (let vf0 = get_or data ''vote_fault'' JNull; vf = (if truthy vf0 then vf0 else JObj [])
      in case vf of
        JObj kvs \<Rightarrow>
          (let validator = get_or vf ''validator'' JNull in
           if validator = JNull then (Rejected MissingValidator, s)
           else case (Option.bind (jindex vf ''vote_a'') (vote_from_dict W),
                      Option.bind (jindex vf ''vote_b'') (vote_from_dict W)) of
             (Some va, Some vb) \<Rightarrow>
               (case lookup_key s validator of
                  Inl e \<Rightarrow> (Raised e, s)
                | Inr None \<Rightarrow> (Rejected ValidatorNotRegistered, s)
                | Inr (Some registered) \<Rightarrow>
                    (let v = (case validator of JStr a \<Rightarrow> a | _ \<Rightarrow> []) in
                     if \<not> verify_vote_fault W v va vb registered then (Rejected NotAVoteFault, s)
                     else (let fault = vote_fault_id W va vb in
                       if fault \<in> slashed_faults s then (Applied (AlreadySlashed fault), s)
                       else punish W s t v fault)))
           | _ \<Rightarrow> (Rejected MalformedVoteFault, s))
      | _ \<Rightarrow> (Raised AttributeError, s))"

definition equivocation_fault_id :: "addr \<Rightarrow> int \<Rightarrow> string" where
  "equivocation_fault_id signer height = str_lower signer @ '':'' @ int_str height"

definition apply_equivocation_slash :: "world \<Rightarrow> nstate \<Rightarrow> tx \<Rightarrow> json \<Rightarrow> tx_outcome \<times> nstate" where
  "apply_equivocation_slash W s t data =
     (let proof_d = get_or data ''equivocation'' JNull; proposer = get_or data ''proposer'' JNull in
      if \<not> truthy proof_d \<or> proposer = JNull then (Rejected MissingEquivocation, s)
      else case equivocation_from_dict proof_d of
        Inl _ \<Rightarrow> (Rejected MalformedEquivocation, s)
      | Inr p \<Rightarrow>
         (case verify_equivocation W p None of
            Inl (CommitmentRaised e) \<Rightarrow> (Raised e, s)
          | Inl f \<Rightarrow> (Rejected (InvalidEquivocation f), s)
          | Inr signer \<Rightarrow>
             (case lookup_key s proposer of
                Inl e \<Rightarrow> (Raised e, s)
              | Inr reg \<Rightarrow>
                 if (case reg of None \<Rightarrow> True | Some r \<Rightarrow> str_lower r \<noteq> str_lower signer)
                 then (Rejected SignerNotProposer, s)
                 else (case envelope_commitment (eq_a p) of
                     Inl e \<Rightarrow> (Raised e, s)
                   | Inr c \<Rightarrow>
                      (let fault = equivocation_fault_id signer (cm_height c);
                           offender = (case proposer of JStr a \<Rightarrow> a | _ \<Rightarrow> [])
                       in if fault \<in> slashed_faults s then (Applied (AlreadySlashed fault), s)
                          else punish W s t offender fault)))))"

text \<open>\<^verbatim>\<open>"vote_fault" in data\<close> and \<^verbatim>\<open>data.get\<close> on data that is no dictionary: a number or a boolean is
  not iterable, a list or a string has no \<^verbatim>\<open>get\<close>.\<close>

definition apply_slash :: "world \<Rightarrow> nstate \<Rightarrow> tx \<Rightarrow> tx_outcome \<times> nstate" where
  "apply_slash W s t =
     (let data = (if truthy (tx_data t) then tx_data t else JObj []) in
      case data of
        JObj kvs \<Rightarrow>
          if map_of kvs ''vote_fault'' \<noteq> None then apply_vote_fault_slash W s t data
          else apply_equivocation_slash W s t data
      | JList _ \<Rightarrow> (Raised AttributeError, s)
      | JStr _ \<Rightarrow> (Raised AttributeError, s)
      | _ \<Rightarrow> (Raised TypeError, s))"

subsection \<open>Ordinary transactions\<close>

definition authenticate :: "world \<Rightarrow> nstate \<Rightarrow> tx \<Rightarrow> tx_reject option" where
  "authenticate W s t = (case map_of (keys s) (tx_sender t) of
       None \<Rightarrow> Some SenderNotRegistered
     | Some reg \<Rightarrow> (case recover_tx_signer W t of
           Inl (UnsupportedSchemeError e) \<Rightarrow> Some (UnsupportedTxScheme e)
         | Inl _ \<Rightarrow> Some InvalidTxSignature
         | Inr signer \<Rightarrow> if str_lower reg \<noteq> str_lower signer then Some SignatureMismatch else None))"

definition apply_transfer :: "nstate \<Rightarrow> tx \<Rightarrow> rat \<Rightarrow> tx_outcome \<times> nstate" where
  "apply_transfer s t amount = (case tx_to t of
       None \<Rightarrow> (Rejected TransferMissingRecipient, s)
     | Some to \<Rightarrow>
         if balance s (tx_sender t) < amount then (Rejected InsufficientBalance, s)
         else (Applied TransferApplied,
               bump_nonce (credit (debit s (tx_sender t) amount) to amount) t))"

definition apply_stake :: "nstate \<Rightarrow> tx \<Rightarrow> rat \<Rightarrow> tx_outcome \<times> nstate" where
  "apply_stake s t amount =
     (if balance s (tx_sender t) < amount then (Rejected InsufficientBalanceToStake, s)
      else (let s1 = debit s (tx_sender t) amount;
                s2 = s1\<lparr>staked := dset (tx_sender t) (fadd (dget (staked s1) (tx_sender t) 0) amount)
                          (staked s1)\<rparr>
            in (Applied StakeApplied, bump_nonce s2 t)))"

definition apply_upgrade_signal :: "nstate \<Rightarrow> tx \<Rightarrow> tx_outcome \<times> nstate" where
  "apply_upgrade_signal s t =
     (case Option.bind (jindex (if truthy (tx_data t) then tx_data t else JObj []) ''version'') jint of
        None \<Rightarrow> (Rejected MalformedUpgradeVersion, s)
      | Some version \<Rightarrow>
          if version \<noteq> protocol_version s + 1
          then (Rejected (WrongUpgradeVersion (protocol_version s + 1) version), s)
          else if stake_of s (tx_sender t) \<le> 0 then (Rejected UpgradeNeedsStake, s)
          else (Applied (UpgradeSignalRecorded version),
                bump_nonce (s\<lparr>upgrade_signals :=
                   (if tx_sender t \<in> set (upgrade_signals s) then upgrade_signals s
                    else upgrade_signals s @ [tx_sender t])\<rparr>) t))"

definition apply_unstake :: "nstate \<Rightarrow> tx \<Rightarrow> rat \<Rightarrow> int option \<Rightarrow> tx_outcome \<times> nstate" where
  "apply_unstake s t amount height =
     (let cur = stake_of s (tx_sender t) in
      if cur < amount then (Rejected InsufficientStake, s)
      else (let release = (case height of None \<Rightarrow> 0 | Some h \<Rightarrow> h) + UNBONDING_PERIOD;
                s1 = s\<lparr>staked := dset (tx_sender t) (fsub cur amount) (staked s),
                       unbonding := dset (tx_sender t)
                         (dget (unbonding s) (tx_sender t) [] @ [(amount, release)]) (unbonding s)\<rparr>
            in (Applied (UnstakeQueued release), bump_nonce s1 t)))"

definition apply_tx :: "world \<Rightarrow> nstate \<Rightarrow> tx \<Rightarrow> int option \<Rightarrow> tx_outcome \<times> nstate" where
  "apply_tx W s t height = (case tx_amount t of
       NonFin \<Rightarrow> (Rejected NonFiniteAmount, s)
     | Fin amount \<Rightarrow>
         if amount < 0 then (Rejected NegativeAmount, s)
         else if tx_kind t = Slash then apply_slash W s t
         else if tx_nonce t \<noteq> dget (nonces s) (tx_sender t) 0
           then (Rejected (BadNonce (tx_nonce t) (dget (nonces s) (tx_sender t) 0)), s)
         else case (if require_tx_signatures s then authenticate W s t else None) of
             Some r \<Rightarrow> (Rejected r, s)
           | None \<Rightarrow>
              (case tx_kind t of
                 Transfer \<Rightarrow> apply_transfer s t amount
               | Stake \<Rightarrow> apply_stake s t amount
               | UpgradeSignal \<Rightarrow> apply_upgrade_signal s t
               | Unstake \<Rightarrow> apply_unstake s t amount height
               | Slash \<Rightarrow> apply_slash W s t))"

end
