(* ===== verification/Ledger_Facts.thy ===== *)
theory Ledger_Facts
  imports Ledger
begin

text \<open>
  What the ledger operations guarantee: a refused transaction changes nothing, no amount ever
  goes negative, a slash takes everything at risk exactly once, and nonces and slashed faults
  only grow.
\<close>

named_theorems ledger_defs

lemmas [ledger_defs] = credit_def debit_def bump_nonce_def credit_reward_def set_unbonding_def
  seize_bond_def slash_def register_key_def

subsection \<open>Refusals change nothing\<close>

lemma apply_vote_fault_slash_unchanged:
  "apply_vote_fault_slash W s t d = (out, s') \<Longrightarrow> (\<And>r. out \<noteq> Applied r) \<Longrightarrow> s' = s"
  by (auto simp: apply_vote_fault_slash_def punish_def Let_def
      split: json.splits option.splits sum.splits prod.splits if_splits)

lemma apply_equivocation_slash_unchanged:
  "apply_equivocation_slash W s t d = (out, s') \<Longrightarrow> (\<And>r. out \<noteq> Applied r) \<Longrightarrow> s' = s"
  by (auto simp: apply_equivocation_slash_def punish_def Let_def
      split: option.splits sum.splits prod.splits if_splits equivocation_failure.splits)

lemma apply_slash_unchanged:
  "apply_slash W s t = (out, s') \<Longrightarrow> (\<And>r. out \<noteq> Applied r) \<Longrightarrow> s' = s"
  by (auto simp: apply_slash_def Let_def apply_vote_fault_slash_unchanged
      apply_equivocation_slash_unchanged split: json.splits if_splits)

lemma apply_tx_unchanged:
  "apply_tx W s t h = (out, s') \<Longrightarrow> (\<And>r. out \<noteq> Applied r) \<Longrightarrow> s' = s"
  by (auto simp: apply_tx_def apply_transfer_def apply_stake_def apply_upgrade_signal_def
      apply_unstake_def Let_def apply_slash_unchanged
      split: pyfloat.splits option.splits tx_kind.splits if_splits)

subsection \<open>The shape of an applied transaction\<close>

text \<open>The dispatcher: what holds of every applied transaction, and the operation that applied it.\<close>

lemma apply_tx_dispatch:
  assumes "apply_tx W s t h = (Applied r, s')"
  obtains a where "tx_amount t = Fin a" "0 \<le> a"
    "tx_kind t = Slash \<or> (tx_nonce t = dget (nonces s) (tx_sender t) 0
        \<and> (require_tx_signatures s \<longrightarrow> authenticate W s t = None))"
    "(case tx_kind t of Transfer \<Rightarrow> apply_transfer s t a | Stake \<Rightarrow> apply_stake s t a
        | UpgradeSignal \<Rightarrow> apply_upgrade_signal s t | Unstake \<Rightarrow> apply_unstake s t a h
        | Slash \<Rightarrow> apply_slash W s t) = (Applied r, s')"
proof (cases "tx_amount t")
  case (Fin a)
  then show thesis
    using assms that [of a]
    by (cases "tx_kind t = Slash")
      (auto simp: apply_tx_def not_less split: if_splits option.splits)
next
  case NonFin
  with assms show thesis by (simp add: apply_tx_def)
qed

lemma apply_transfer_Applied:
  "apply_transfer s t a = (Applied r, s') \<longleftrightarrow>
     (\<exists>to. tx_to t = Some to \<and> a \<le> balance s (tx_sender t) \<and> r = TransferApplied
        \<and> s' = bump_nonce (credit (debit s (tx_sender t) a) to a) t)"
  by (auto simp: apply_transfer_def split: option.splits)

lemma apply_stake_Applied:
  "apply_stake s t a = (Applied r, s') \<longleftrightarrow>
     a \<le> balance s (tx_sender t) \<and> r = StakeApplied
     \<and> s' = bump_nonce ((debit s (tx_sender t) a)\<lparr>staked :=
               dset (tx_sender t) (fadd (stake_of s (tx_sender t)) a) (staked s)\<rparr>) t"
  by (auto simp: apply_stake_def Let_def debit_def stake_of_def)

lemma apply_upgrade_signal_Applied:
  assumes "apply_upgrade_signal s t = (Applied r, s')"
  shows "0 < stake_of s (tx_sender t) \<and> r = UpgradeSignalRecorded (protocol_version s + 1)
     \<and> s' = bump_nonce (s\<lparr>upgrade_signals := (if tx_sender t \<in> set (upgrade_signals s)
               then upgrade_signals s else upgrade_signals s @ [tx_sender t])\<rparr>) t"
  using assms by (auto simp: apply_upgrade_signal_def not_le split: option.splits if_splits)

definition queue_unbonding :: "nstate \<Rightarrow> addr \<Rightarrow> rat \<Rightarrow> int \<Rightarrow> nstate" where
  "queue_unbonding s a amt release =
     s\<lparr>staked := dset a (fsub (stake_of s a) amt) (staked s),
       unbonding := dset a (dget (unbonding s) a [] @ [(amt, release)]) (unbonding s)\<rparr>"

definition release_height :: "int option \<Rightarrow> int" where
  "release_height h = (case h of None \<Rightarrow> 0 | Some h' \<Rightarrow> h') + UNBONDING_PERIOD"

lemma apply_unstake_Applied:
  "apply_unstake s t a h = (Applied r, s') \<longleftrightarrow>
     a \<le> stake_of s (tx_sender t) \<and> r = UnstakeQueued (release_height h)
     \<and> s' = bump_nonce (queue_unbonding s (tx_sender t) a (release_height h)) t"
  by (auto simp: apply_unstake_def queue_unbonding_def release_height_def Let_def)

lemma punish_fst: "fst (punish W s t offender fault) = Applied (Slashed offender (fst (seize s offender None))
    (if reporter_bounty_ok W (snd (seize s offender None)) t
     then fmul (fst (seize s offender None)) EQUIVOCATION_BOUNTY_FRAC else 0))"
  by (auto simp: punish_def Let_def split: prod.splits)

lemma vote_fault_Applied:
  assumes "apply_vote_fault_slash W s t d = (Applied r, s')"
  shows "(\<exists>fault. fault \<in> slashed_faults s \<and> r = AlreadySlashed fault \<and> s' = s)
       \<or> (\<exists>offender fault. fault \<notin> slashed_faults s \<and> punish W s t offender fault = (Applied r, s'))"
  using assms
  by (auto simp: apply_vote_fault_slash_def Let_def split: json.splits option.splits sum.splits if_splits)

lemma equivocation_Applied:
  assumes "apply_equivocation_slash W s t d = (Applied r, s')"
  shows "(\<exists>fault. fault \<in> slashed_faults s \<and> r = AlreadySlashed fault \<and> s' = s)
       \<or> (\<exists>offender fault. fault \<notin> slashed_faults s \<and> punish W s t offender fault = (Applied r, s'))"
  using assms
  by (auto simp: apply_equivocation_slash_def Let_def
      split: option.splits sum.splits if_splits equivocation_failure.splits)

lemma apply_slash_Applied:
  assumes "apply_slash W s t = (Applied r, s')"
  shows "(\<exists>fault. fault \<in> slashed_faults s \<and> r = AlreadySlashed fault \<and> s' = s)
       \<or> (\<exists>offender fault. fault \<notin> slashed_faults s \<and> punish W s t offender fault = (Applied r, s'))"
  using assms
  by (auto simp: apply_slash_def Let_def split: json.splits if_splits
      dest!: vote_fault_Applied equivocation_Applied)


subsection \<open>No amount goes negative\<close>

definition amounts_ok :: "(rat \<times> int) list \<Rightarrow> bool" where
  "amounts_ok es \<longleftrightarrow> list_all (\<lambda>(amt, rel). 0 \<le> amt) es"

definition ledger_ok :: "nstate \<Rightarrow> bool" where
  "ledger_ok s \<longleftrightarrow>
     list_all ((\<le>) 0) (dvalues (bal s)) \<and> list_all ((\<le>) 0) (dvalues (staked s))
     \<and> list_all amounts_ok (dvalues (unbonding s))
     \<and> distinct (dkeys (bal s)) \<and> distinct (dkeys (staked s)) \<and> distinct (dkeys (unbonding s))
     \<and> 0 \<le> treasury s \<and> 0 \<le> minted s"

named_theorems ledger_intros

lemma amounts_ok_simps [simp]:
  "amounts_ok []" "amounts_ok ((a, r) # es) \<longleftrightarrow> 0 \<le> a \<and> amounts_ok es"
  "amounts_ok (xs @ ys) \<longleftrightarrow> amounts_ok xs \<and> amounts_ok ys"
  by (simp_all add: amounts_ok_def)

lemma amounts_ok_filter: "amounts_ok es \<Longrightarrow> amounts_ok (filter P es)"
  by (auto simp: amounts_ok_def list_all_iff)

lemma amounts_ok_order [simp]: "amounts_ok (release_order es) = amounts_ok es"
  by (simp add: amounts_ok_def list_all_iff release_order_def)

lemma new_state_ok [simp]: "ledger_ok (new_state c r e)"
  by (simp add: ledger_ok_def new_state_def)

lemma ledger_okD:
  assumes "ledger_ok s"
  shows "0 \<le> balance s a" "0 \<le> stake_of s a" "amounts_ok (dget (unbonding s) a [])"
    "0 \<le> treasury s" "0 \<le> minted s"
  using assms by (auto simp: ledger_ok_def balance_def stake_of_def intro: list_all_dget)

lemma bal_ok [ledger_intros]:
  "ledger_ok s \<Longrightarrow> 0 \<le> v \<Longrightarrow> ledger_ok (s\<lparr>bal := dset a v (bal s)\<rparr>)"
  by (simp add: ledger_ok_def list_all_dset distinct_dset)

lemma staked_ok [ledger_intros]:
  "ledger_ok s \<Longrightarrow> 0 \<le> v \<Longrightarrow> ledger_ok (s\<lparr>staked := dset a v (staked s)\<rparr>)"
  by (simp add: ledger_ok_def list_all_dset distinct_dset)

lemma unbonding_ok [ledger_intros]:
  "ledger_ok s \<Longrightarrow> amounts_ok es \<Longrightarrow> ledger_ok (s\<lparr>unbonding := dset a es (unbonding s)\<rparr>)"
  by (simp add: ledger_ok_def list_all_dset distinct_dset)

lemma set_unbonding_ok [ledger_intros]:
  "ledger_ok s \<Longrightarrow> amounts_ok es \<Longrightarrow> ledger_ok (set_unbonding s a es)"
  by (simp add: ledger_ok_def set_unbonding_def list_all_dset list_all_dpop distinct_dset distinct_dpop)

lemma treasury_ok [ledger_intros]: "ledger_ok s \<Longrightarrow> 0 \<le> v \<Longrightarrow> ledger_ok (s\<lparr>treasury := v\<rparr>)"
  by (simp add: ledger_ok_def)

lemma frame_ok [simp]:
  "ledger_ok (s\<lparr>nonces := n\<rparr>) = ledger_ok s" "ledger_ok (s\<lparr>keys := k\<rparr>) = ledger_ok s"
  "ledger_ok (s\<lparr>slashed_faults := f\<rparr>) = ledger_ok s" "ledger_ok (s\<lparr>upgrade_signals := u\<rparr>) = ledger_ok s"
  "ledger_ok (bump_nonce s t) = ledger_ok s" "ledger_ok (register_key s p a) = ledger_ok s"
  by (simp_all add: ledger_ok_def bump_nonce_def register_key_def)

lemma credit_ok [ledger_intros]: "ledger_ok s \<Longrightarrow> 0 \<le> amt \<Longrightarrow> ledger_ok (credit s a amt)"
  unfolding credit_def using ledger_okD(1) [of s a]
  by (intro bal_ok fadd_nonneg) (auto simp: balance_def)

lemma debit_ok [ledger_intros]: "ledger_ok s \<Longrightarrow> amt \<le> balance s a \<Longrightarrow> ledger_ok (debit s a amt)"
  unfolding debit_def by (intro bal_ok fsub_nonneg) (auto simp: balance_def)

lemma credit_reward_ok [ledger_intros]: "ledger_ok s \<Longrightarrow> ledger_ok (credit_reward s a amt)"
proof -
  assume ok: "ledger_ok s"
  show ?thesis
  proof (cases "amt \<le> 0")
    case False
    then have "ledger_ok (credit s a amt)" using ok by (intro credit_ok) auto
    with ok False show ?thesis
      by (auto simp: credit_reward_def ledger_ok_def credit_def intro!: fadd_nonneg)
  qed (simp add: credit_reward_def ok)
qed

lemma queue_unbonding_ok [ledger_intros]:
  assumes "ledger_ok s" "0 \<le> amt" "amt \<le> stake_of s a"
  shows "ledger_ok (queue_unbonding s a amt rel)"
  using assms ledger_okD(3) [OF assms(1), of a]
  by (simp add: queue_unbonding_def ledger_ok_def list_all_dset distinct_dset fsub_nonneg)

subsection \<open>Seizing\<close>

lemma seize_entries_ok:
  assumes "seize_entries rem sz es = (sz', rem', kept)" "amounts_ok es" "0 \<le> sz" "is_f64 sz"
  shows "0 \<le> sz' \<and> is_f64 sz' \<and> amounts_ok kept"
  using assms
proof (induction rem sz es arbitrary: sz' rem' kept rule: seize_entries.induct)
  case (2 remaining seized amt rel es)
  then show ?case
    by (auto simp: Let_def not_le fadd_nonneg split: if_splits option.splits prod.splits)
qed auto

lemma seize_entries_all:
  "seize_entries None sz es = (foldl fadd sz (map fst es), None, [])"
  by (induction es arbitrary: sz) auto

lemma seize_bond_ok:
  assumes "seize_bond s a rem = (sz, rem', s')" "ledger_ok s" "case rem of None \<Rightarrow> True | Some r \<Rightarrow> 0 \<le> r"
  shows "ledger_ok s' \<and> 0 \<le> sz \<and> is_f64 sz"
  using assms by (auto simp: seize_bond_def Let_def fadd_nonneg split: if_splits option.splits
      intro!: ledger_intros fsub_nonneg)

lemma seize_ok:
  assumes "seize s a amount = (sz, s')" "ledger_ok s"
  shows "ledger_ok s'" "0 \<le> sz" "is_f64 sz"
proof -
  obtain b r s1 where b: "seize_bond s a (map_option (max 0) amount) = (b, r, s1)"
    by (cases "seize_bond s a (map_option (max 0) amount)") auto
  have ok1: "ledger_ok s1 \<and> 0 \<le> b \<and> is_f64 b"
    by (rule seize_bond_ok [OF b assms(2)]) (auto split: option.splits)
  obtain sz2 r2 kept where e: "seize_entries r b (release_order (dget (unbonding s1) a [])) = (sz2, r2, kept)"
    by (cases "seize_entries r b (release_order (dget (unbonding s1) a []))") auto
  have ok2: "0 \<le> sz2 \<and> is_f64 sz2 \<and> amounts_ok kept"
    using ok1 by (intro seize_entries_ok [OF e]) (auto simp: ledger_okD)
  show "ledger_ok s'" "0 \<le> sz" "is_f64 sz"
    using assms(1) ok1 ok2 by (auto simp: seize_def b e Let_def split: if_splits intro!: ledger_intros)
qed

lemma seize_frame:
  assumes "seize s a amount = (sz, s')"
  shows "bal s' = bal s" "treasury s' = treasury s" "minted s' = minted s" "keys s' = keys s"
    "nonces s' = nonces s" "slashed_faults s' = slashed_faults s"
    "require_tx_signatures s' = require_tx_signatures s"
  using assms
  by (auto simp: seize_def seize_bond_def set_unbonding_def Let_def split: prod.splits if_splits)

text \<open>A full seizure leaves the offender with nothing at risk, whatever it tried to withdraw.\<close>

lemma seize_all_empties:
  assumes "seize s a None = (sz, s')" "ledger_ok s"
  shows "stake_of s' a = 0" "dget (unbonding s') a [] = []" "at_risk_of s' a = 0"
proof -
  have st: "stake_of s a \<ge> 0" using assms(2) by (rule ledger_okD)
  show 1: "stake_of s' a = 0"
    using assms(1) st
    by (auto simp: seize_def seize_bond_def set_unbonding_def stake_of_def Let_def
        split: prod.splits if_splits)
  show 2: "dget (unbonding s') a [] = []"
    using assms(1)
    by (auto simp: seize_def seize_bond_def set_unbonding_def Let_def seize_entries_all dget_dpop
        split: prod.splits if_splits)
  show "at_risk_of s' a = 0"
    by (simp add: at_risk_of_def 1 unbonding_of_def 2 fsum_def fadd_def)
qed

lemma bounty_le:
  assumes "0 \<le> bond" "is_f64 bond"
  shows "0 \<le> fmul bond EQUIVOCATION_BOUNTY_FRAC" "fmul bond EQUIVOCATION_BOUNTY_FRAC \<le> bond"
proof -
  show "0 \<le> fmul bond EQUIVOCATION_BOUNTY_FRAC"
    using assms(1) by (intro fmul_nonneg) (auto simp: EQUIVOCATION_BOUNTY_FRAC_def)
  have "bond * EQUIVOCATION_BOUNTY_FRAC \<le> bond * 1"
    using assms(1) by (intro mult_left_mono) (auto simp: EQUIVOCATION_BOUNTY_FRAC_def)
  then show "fmul bond EQUIVOCATION_BOUNTY_FRAC \<le> bond"
    using assms(2) rnd64_mono [of _ bond] by (auto simp: fmul_def is_f64_def)
qed

lemma punish_ok:
  assumes "punish W s t offender fault = (out, s')" "ledger_ok s"
  shows "ledger_ok s'"
proof -
  obtain bond s1 where z: "seize s offender None = (bond, s1)" by fastforce
  note ok = seize_ok [OF z assms(2)]
  define bounty where
    "bounty = (if reporter_bounty_ok W s1 t then fmul bond EQUIVOCATION_BOUNTY_FRAC else 0)"
  have b: "0 \<le> bounty" "bounty \<le> bond" using ok bounty_le [of bond] by (auto simp: bounty_def)
  define s2 where "s2 = (if 0 < bounty then credit s1 (tx_sender t) bounty else s1)"
  have ok2: "ledger_ok s2" using ok b by (auto simp: s2_def intro!: ledger_intros)
  have "s' = s2\<lparr>treasury := fadd (treasury s2) (fsub bond bounty),
                slashed_faults := insert fault (slashed_faults s2)\<rparr>"
    using assms(1) by (auto simp: punish_def z bounty_def s2_def Let_def)
  moreover have "0 \<le> fadd (treasury s2) (fsub bond bounty)"
    using b ledger_okD(4) [OF ok2] by (intro fadd_nonneg fsub_nonneg)
  ultimately show ?thesis using ok2 by (simp add: treasury_ok)
qed

lemma apply_tx_ok:
  assumes "apply_tx W s t h = (out, s')" "ledger_ok s"
  shows "ledger_ok s'"
proof (cases "\<exists>r. out = Applied r")
  case True
  then obtain r where "out = Applied r" ..
  with assms(1) obtain a where a: "0 \<le> a" and d:
    "(case tx_kind t of Transfer \<Rightarrow> apply_transfer s t a | Stake \<Rightarrow> apply_stake s t a
        | UpgradeSignal \<Rightarrow> apply_upgrade_signal s t | Unstake \<Rightarrow> apply_unstake s t a h
        | Slash \<Rightarrow> apply_slash W s t) = (Applied r, s')"
    by (metis apply_tx_dispatch)
  show ?thesis
  proof (cases "tx_kind t")
    case Transfer
    with d a assms(2) show ?thesis by (auto simp: apply_transfer_Applied intro!: ledger_intros)
  next
    case Stake
    with d have le: "a \<le> balance s (tx_sender t)" and s': "s' = bump_nonce
       ((debit s (tx_sender t) a)\<lparr>staked := dset (tx_sender t) (fadd (stake_of s (tx_sender t)) a) (staked s)\<rparr>) t"
      by (auto simp: apply_stake_Applied)
    have "staked (debit s (tx_sender t) a) = staked s" by (simp add: debit_def)
    with s' le a assms(2) show ?thesis
      using staked_ok [of "debit s (tx_sender t) a" "fadd (stake_of s (tx_sender t)) a" "tx_sender t"]
      by (simp add: debit_ok fadd_nonneg ledger_okD)
  next
    case Unstake
    with d a assms(2) show ?thesis by (auto simp: apply_unstake_Applied intro!: ledger_intros)
  next
    case Slash
    with d have "apply_slash W s t = (Applied r, s')" by simp
    from apply_slash_Applied [OF this] assms(2) show ?thesis by (auto intro: punish_ok)
  next
    case UpgradeSignal
    with d have "apply_upgrade_signal s t = (Applied r, s')" by simp
    from apply_upgrade_signal_Applied [OF this] assms(2) show ?thesis by simp
  qed
next
  case False
  with apply_tx_unchanged [OF assms(1)] assms(2) show ?thesis by auto
qed

subsection \<open>Maturing\<close>

lemma release_due_simps [simp]:
  "release_due h s a [] = s"
  "release_due h s a ((amt, rel) # es) = release_due h (if rel \<le> h then credit s a amt else s) a es"
  by (simp_all add: release_due_def)

lemma release_due_ok: "ledger_ok s \<Longrightarrow> amounts_ok es \<Longrightarrow> ledger_ok (release_due h s a es)"
  by (induction es arbitrary: s) (auto simp: credit_ok)

lemma mature_addr_ok: "ledger_ok s \<Longrightarrow> ledger_ok (mature_addr h s a)"
  unfolding mature_addr_def Let_def
  by (intro set_unbonding_ok release_due_ok amounts_ok_filter ledger_okD)

interpretation maturing: keeps_invariant "mature_addr h" ledger_ok
  by unfold_locales (rule mature_addr_ok)

lemma mature_unbonding_ok: "ledger_ok s \<Longrightarrow> ledger_ok (mature_unbonding h s)"
  unfolding mature_unbonding_def by (rule maturing.run_inv)

end
