(* ===== verification/Ledger_Block.thy ===== *)
theory Ledger_Block
  imports Ledger_Facts
begin

text \<open>
  The block transition of \<^verbatim>\<open>neura_l1/block_state.py\<close>: maturing, transactions, the upgrade
  campaign, the reward split, the checkpoint, the difficulty retarget; and the digest and the
  dictionary of a state.
\<close>

subsection \<open>The difficulty retarget\<close>

definition push_ring :: "int list \<Rightarrow> int \<Rightarrow> int list" where
  "push_ring ring t = (let r = ring @ [t] in drop (length r - MTP_WINDOW) r)"

definition median_time :: "int list \<Rightarrow> int" where
  "median_time ring = sort ring ! (length ring div 2)"

definition work_sample :: "rat \<Rightarrow> int" where
  "work_sample score =
     max WORK_FLOOR_MIN_UNITS (round_half_even (fmul (max 0 score) (of_int WORK_FLOOR_SCALE)))"

definition next_ewma :: "int \<Rightarrow> int \<Rightarrow> int" where
  "next_ewma ewma sample = ewma + (sample - ewma) * WORK_EWMA_NUM div WORK_EWMA_DEN"

definition clamp_timespan :: "int \<Rightarrow> int" where
  "clamp_timespan raw = (let lo = TARGET_TIMESPAN div RETARGET_CLAMP_NUM;
                             hi = TARGET_TIMESPAN * RETARGET_CLAMP_NUM
                         in min hi (max lo (if 0 < raw then raw else lo)))"

definition next_floor :: "int \<Rightarrow> int \<Rightarrow> int \<Rightarrow> int" where
  "next_floor floor_q raw ewma =
     (let new_q = floor_q * TARGET_TIMESPAN div clamp_timespan raw;
          new_q = min WORK_FLOOR_MAX_UNITS (max WORK_FLOOR_MIN_UNITS new_q);
          ceil_q = max WORK_FLOOR_MIN_UNITS (ewma * OBSERVED_WORK_CEIL_NUM div OBSERVED_WORK_CEIL_DEN)
      in min new_q ceil_q)"

text \<open>\<open>s\<close> is the parent, \<open>ns\<close> the child under construction.\<close>

definition fold_retarget :: "nstate \<Rightarrow> nstate \<Rightarrow> int \<Rightarrow> int \<Rightarrow> rat \<Rightarrow> nstate" where
  "fold_retarget s ns height t score =
     (if \<not> retarget_enabled s \<or> height < RETARGET_ACTIVATION_HEIGHT then ns
      else (let ring = push_ring (ts_ring s) t;
                mtp = median_time ring;
                ewma = next_ewma (work_ewma_q s) (work_sample score);
                ns1 = ns\<lparr>ts_ring := ring, work_ewma_q := ewma, last_block_ts := t\<rparr>
            in if height mod RETARGET_WINDOW = 0
               then ns1\<lparr>work_floor_q := next_floor (work_floor_q s) (mtp - retarget_anchor_ts s) ewma,
                        retarget_anchor_ts := mtp, retarget_anchor_h := height\<rparr>
               else ns1))"

subsection \<open>The block transition\<close>

datatype block_error =
    TxRootMismatch
  | BlockRaised exn
  | TxFailed tx_reject
  | NegativeWeight

fun apply_txs :: "world \<Rightarrow> nstate \<Rightarrow> tx list \<Rightarrow> int \<Rightarrow> block_error + nstate" where
  "apply_txs W s [] h = Inr s"
| "apply_txs W s (t # ts) h =
     (case apply_tx W s t (Some h) of
        (Applied _, s') \<Rightarrow> apply_txs W s' ts h
      | (Rejected r, _) \<Rightarrow> Inl (TxFailed r)
      | (Raised e, _) \<Rightarrow> Inl (BlockRaised e))"

definition upgrade_step :: "nstate \<Rightarrow> int \<Rightarrow> int \<Rightarrow> nstate" where
  "upgrade_step ns hv h =
     (if protocol_version ns < hv
      then ns\<lparr>protocol_version := hv, upgrade_signals := [], upgrade_streak := 0,
              pending_activation := None\<rparr>
      else if pending_activation ns = None \<and> upgrade_signals ns \<noteq> []
      then (let total = fsum (dvalues (staked ns));
                signaled = upgrade_signaled_stake ns;
                streak = (if 0 < total \<and>
                            fmul total UPGRADE_THRESHOLD_NUM \<le> fmul signaled UPGRADE_THRESHOLD_DEN
                          then upgrade_streak ns + 1 else 0);
                ns1 = ns\<lparr>upgrade_streak := streak\<rparr>
            in if UPGRADE_WINDOW \<le> streak
               then ns1\<lparr>pending_activation := Some (h + UPGRADE_ACTIVATION_DELAY)\<rparr> else ns1)
      else ns)"

fun aggregate :: "(addr, rat) pydict \<Rightarrow> (addr, rat) pydict \<Rightarrow> block_error + (addr, rat) pydict" where
  "aggregate agg [] = Inr agg"
| "aggregate agg ((a, w) # cs) =
     (if w < 0 then Inl NegativeWeight
      else if 0 < w then aggregate (dset a (fadd (dget agg a 0) w) agg) cs
      else aggregate agg cs)"

definition block_reward :: "nstate \<Rightarrow> rat \<Rightarrow> rat" where
  "block_reward ns hdr_reward = max 0 (min hdr_reward (fsub MAX_SUPPLY (minted ns)))"

definition split_reward :: "nstate \<Rightarrow> rat \<Rightarrow> rat \<Rightarrow> (addr, rat) pydict \<Rightarrow> nstate" where
  "split_reward ns reward total_w agg =
     foldl (\<lambda>st (a, w). credit_reward st a (fmul reward (fdiv w total_w))) ns (sort_key fst agg)"

definition apply_block :: "world \<Rightarrow> nstate \<Rightarrow> block \<Rightarrow> (addr, rat) pydict \<Rightarrow> block_error + nstate" where
  "apply_block W s b contributors =
     (let hdr = bk_header b; h = hd_height hdr; ns = copy_state s in
      case tx_root W (bk_txs b) of
        Inl e \<Rightarrow> Inl (BlockRaised e)
      | Inr txr \<Rightarrow>
         if hd_tx_root hdr \<noteq> txr then Inl TxRootMismatch
         else bindE (apply_txs W (mature_unbonding h ns) (bk_txs b) h) (\<lambda>ns1.
           let ns2 = upgrade_step ns1 (hd_protocol_version hdr) h in
           bindE (aggregate [] contributors) (\<lambda>agg.
             let total_w = fsum (dvalues agg);
                 reward = block_reward ns2 (hd_reward hdr);
                 ns3 = (if 0 < total_w \<and> 0 < reward then split_reward ns2 reward total_w agg else ns2);
                 ns4 = ns3\<lparr>model_checkpoint := hd_new_checkpoint hdr\<rparr>
             in Inr (fold_retarget s ns4 h (hd_timestamp hdr) (max 0 (hd_work_score hdr))))))"

subsection \<open>Digest and dictionary\<close>

definition entries_to_json :: "(rat \<times> int) list \<Rightarrow> json" where
  "entries_to_json es = JList (map (\<lambda>(amt, rel). JList [JNum (Fin amt), JInt rel]) es)"

definition opt_int_json :: "int option \<Rightarrow> json" where
  "opt_int_json x = (case x of None \<Rightarrow> JNull | Some n \<Rightarrow> JInt n)"

definition map_dict :: "('v \<Rightarrow> json) \<Rightarrow> (string, 'v) pydict \<Rightarrow> json" where
  "map_dict f d = JObj (map (\<lambda>(k, v). (k, f v)) d)"

definition faults_list :: "string set \<Rightarrow> json" where
  "faults_list fs = JList (map JStr (sorted_list_of_set fs))"

definition retarget_dict :: "nstate \<Rightarrow> (string \<times> json) list" where
  "retarget_dict s =
     [(''work_floor_q'', JInt (work_floor_q s)), (''retarget_anchor_ts'', JInt (retarget_anchor_ts s)),
      (''retarget_anchor_h'', JInt (retarget_anchor_h s)), (''last_block_ts'', JInt (last_block_ts s)),
      (''work_ewma_q'', JInt (work_ewma_q s)), (''ts_ring'', JList (map JInt (ts_ring s)))]"

definition state_digest_obj :: "nstate \<Rightarrow> json" where
  "state_digest_obj s = JObj
     ([(''bal'', map_dict (\<lambda>v. JNum (Fin v)) (sort_key fst (bal s))),
       (''staked'', map_dict (\<lambda>v. JNum (Fin v)) (sort_key fst (staked s))),
       (''treasury'', JNum (Fin (treasury s))), (''minted'', JNum (Fin (minted s))),
       (''nonces'', map_dict JInt (sort_key fst (nonces s))),
       (''keys'', map_dict JStr (sort_key fst (keys s))),
       (''slashed_faults'', faults_list (slashed_faults s)),
       (''unbonding'', map_dict (\<lambda>es. entries_to_json (release_order es)) (sort_key fst (unbonding s))),
       (''model_checkpoint'', JStr (model_checkpoint s)),
       (''protocol_version'', JInt (protocol_version s)),
       (''upgrade_signals'', JList (map JStr (sort (upgrade_signals s)))),
       (''upgrade_streak'', JInt (upgrade_streak s)),
       (''pending_activation'', opt_int_json (pending_activation s))]
      @ (if retarget_enabled s then [(''retarget'', JObj (retarget_dict s))] else []))"

definition state_hash :: "world \<Rightarrow> nstate \<Rightarrow> string" where
  "state_hash W s = sha256 W (dumps W (state_digest_obj s))"

definition state_to_dict :: "nstate \<Rightarrow> json" where
  "state_to_dict s = JObj
     ([(''require_tx_signatures'', JBool (require_tx_signatures s)),
       (''retarget_enabled'', JBool (retarget_enabled s)),
       (''bal'', map_dict (\<lambda>v. JNum (Fin v)) (bal s)),
       (''staked'', map_dict (\<lambda>v. JNum (Fin v)) (staked s)),
       (''treasury'', JNum (Fin (treasury s))), (''minted'', JNum (Fin (minted s))),
       (''nonces'', map_dict JInt (nonces s)), (''keys'', map_dict JStr (keys s)),
       (''slashed_faults'', faults_list (slashed_faults s)),
       (''unbonding'', map_dict entries_to_json (unbonding s)),
       (''model_checkpoint'', JStr (model_checkpoint s)),
       (''protocol_version'', JInt (protocol_version s)),
       (''upgrade_signals'', JList (map JStr (sort (upgrade_signals s)))),
       (''upgrade_streak'', JInt (upgrade_streak s)),
       (''pending_activation'', opt_int_json (pending_activation s))]
      @ retarget_dict s)"

definition dict_of :: "(json \<Rightarrow> exn + 'v) \<Rightarrow> json \<Rightarrow> exn + (string, 'v) pydict" where
  "dict_of dec j = (case j of
       JObj kvs \<Rightarrow> mapE (\<lambda>(k, v). bindE (dec v) (\<lambda>x. Inr (k, x))) kvs | _ \<Rightarrow> Inl AttributeError)"

definition list_of :: "(json \<Rightarrow> exn + 'v) \<Rightarrow> json \<Rightarrow> exn + 'v list" where
  "list_of dec j = (case j of JList xs \<Rightarrow> mapE dec xs | _ \<Rightarrow> Inl TypeError)"

definition entry_of :: "json \<Rightarrow> exn + rat \<times> int" where
  "entry_of j = (case j of
       JList [a, r] \<Rightarrow> bindE (finite_float a) (\<lambda>amt. bindE (intE r) (\<lambda>rel. Inr (amt, rel)))
     | _ \<Rightarrow> Inl TypeError)"

definition opt_int_of :: "json \<Rightarrow> exn + int option" where
  "opt_int_of j = (case j of JNull \<Rightarrow> Inr None | _ \<Rightarrow> bindE (intE j) (\<lambda>n. Inr (Some n)))"

definition state_from_dict :: "json \<Rightarrow> exn + nstate" where
  "state_from_dict d =
     bindE (strE (get_or d ''model_checkpoint'' (JStr ''genesis''))) (\<lambda>ckpt.
     bindE (dict_of finite_float (get_or d ''bal'' (JObj []))) (\<lambda>b.
     bindE (dict_of finite_float (get_or d ''staked'' (JObj []))) (\<lambda>st.
     bindE (finite_float (get_or d ''treasury'' (JNum (Fin 0)))) (\<lambda>tr.
     bindE (finite_float (get_or d ''minted'' (JNum (Fin 0)))) (\<lambda>mi.
     bindE (dict_of intE (get_or d ''nonces'' (JObj []))) (\<lambda>no.
     bindE (dict_of strE (get_or d ''keys'' (JObj []))) (\<lambda>ke.
     bindE (list_of strE (get_or d ''slashed_faults'' (JList []))) (\<lambda>sf.
     bindE (dict_of (list_of entry_of) (get_or d ''unbonding'' (JObj []))) (\<lambda>ub.
     bindE (intE (get_or d ''protocol_version'' (JInt GENESIS_VERSION))) (\<lambda>pv.
     bindE (list_of strE (get_or d ''upgrade_signals'' (JList []))) (\<lambda>us.
     bindE (intE (get_or d ''upgrade_streak'' (JInt 0))) (\<lambda>uk.
     bindE (opt_int_of (get_or d ''pending_activation'' JNull)) (\<lambda>pa.
     bindE (intE (get_or d ''work_floor_q'' (JInt GENESIS_WORK_FLOOR_UNITS))) (\<lambda>wf.
     bindE (intE (get_or d ''retarget_anchor_ts'' (JInt 0))) (\<lambda>rt.
     bindE (intE (get_or d ''retarget_anchor_h'' (JInt 0))) (\<lambda>rh.
     bindE (intE (get_or d ''last_block_ts'' (JInt 0))) (\<lambda>lt.
     bindE (intE (get_or d ''work_ewma_q'' (JInt GENESIS_WORK_FLOOR_UNITS))) (\<lambda>we.
     bindE (list_of intE (get_or d ''ts_ring'' (JList []))) (\<lambda>ring.
       Inr \<lparr>require_tx_signatures = truthy (get_or d ''require_tx_signatures'' (JBool False)),
            retarget_enabled = truthy (get_or d ''retarget_enabled'' (JBool False)),
            bal = b, staked = st, treasury = tr, minted = mi, nonces = no, keys = ke,
            slashed_faults = set sf, unbonding = ub, model_checkpoint = ckpt,
            protocol_version = pv, upgrade_signals = remdups us, upgrade_streak = uk,
            pending_activation = pa, work_floor_q = wf, retarget_anchor_ts = rt,
            retarget_anchor_h = rh, last_block_ts = lt, work_ewma_q = we,
            ts_ring = ring\<rparr>)))))))))))))))))))"

end
