(* ===== verification/Ledger_Block_Facts.thy ===== *)
theory Ledger_Block_Facts
  imports Ledger_Block
begin

text \<open>
  What a block guarantees: the invariant of the accounts, the bounds of the retarget, the upgrade
  campaign, the release heights, and the dictionary round trip.
\<close>

lemma copy_state_id [simp]: "copy_state s = s"
  by (simp add: copy_state_def new_state_def)

subsection \<open>Taking a block apart\<close>

lemma apply_block_Inr:
  assumes "apply_block W s b cs = Inr s'"
  obtains ns1 agg where
    "tx_root W (bk_txs b) = Inr (hd_tx_root (bk_header b))"
    "apply_txs W (mature_unbonding (block_height b) s) (bk_txs b) (block_height b) = Inr ns1"
    "aggregate [] cs = Inr agg"
    "s' = (let ns2 = upgrade_step ns1 (hd_protocol_version (bk_header b)) (block_height b);
               reward = block_reward ns2 (hd_reward (bk_header b));
               ns3 = (if 0 < fsum (dvalues agg) \<and> 0 < reward
                      then split_reward ns2 reward (fsum (dvalues agg)) agg else ns2)
           in fold_retarget s (ns3\<lparr>model_checkpoint := hd_new_checkpoint (bk_header b)\<rparr>) (block_height b)
                (hd_timestamp (bk_header b)) (max 0 (hd_work_score (bk_header b))))"
  using assms
  by (auto simp: apply_block_def Let_def bindE_Inr_iff block_height_def split: sum.splits if_splits)

subsection \<open>The account invariant\<close>

lemma apply_txs_ok: "apply_txs W s ts h = Inr s' \<Longrightarrow> ledger_ok s \<Longrightarrow> ledger_ok s'"
proof (induction ts arbitrary: s)
  case (Cons t ts)
  then show ?case
    by (auto split: prod.splits tx_outcome.splits dest: apply_tx_ok)
qed simp

lemma frame_block_ok [simp]:
  "ledger_ok (s\<lparr>model_checkpoint := c\<rparr>) = ledger_ok s" "ledger_ok (upgrade_step s hv h) = ledger_ok s"
  "ledger_ok (fold_retarget p s h t w) = ledger_ok s"
  by (auto simp: ledger_ok_def upgrade_step_def fold_retarget_def Let_def)

interpretation splitting: keeps_invariant "\<lambda>st (a, w). credit_reward st a (fmul r (fdiv w tw))" ledger_ok
  by unfold_locales (auto intro: credit_reward_ok)

lemma split_reward_ok: "ledger_ok s \<Longrightarrow> ledger_ok (split_reward s r tw agg)"
  unfolding split_reward_def by (rule splitting.run_inv)

lemma apply_block_ok:
  assumes "apply_block W s b cs = Inr s'" "ledger_ok s"
  shows "ledger_ok s'"
  using assms
  by (elim apply_block_Inr) (auto simp: Let_def split_reward_ok mature_unbonding_ok dest!: apply_txs_ok)

text \<open>The states of a chain: block after block from a genesis state with registered keys.\<close>

inductive chain_state :: "world \<Rightarrow> nstate \<Rightarrow> bool" for W where
  genesis: "chain_state W (new_state ckpt req retarget)"
| register: "chain_state W s \<Longrightarrow> chain_state W (register_key s p a)"
| block: "chain_state W s \<Longrightarrow> apply_block W s b cs = Inr s' \<Longrightarrow> chain_state W s'"

lemma chain_state_ledger_ok: "chain_state W s \<Longrightarrow> ledger_ok s"
  by (induction rule: chain_state.induct) (auto intro: apply_block_ok)

subsection \<open>Release heights\<close>

text \<open>Only the two loops of a block touch the queue before its transactions run.\<close>

lemma credit_frame [simp]:
  "unbonding (credit s a x) = unbonding s" "staked (credit s a x) = staked s"
  "treasury (credit s a x) = treasury s" "minted (credit s a x) = minted s"
  "nonces (credit s a x) = nonces s" "slashed_faults (credit s a x) = slashed_faults s"
  by (simp_all add: credit_def)

lemma release_due_frame [simp]:
  "unbonding (release_due h s a es) = unbonding s" "staked (release_due h s a es) = staked s"
  "treasury (release_due h s a es) = treasury s" "minted (release_due h s a es) = minted s"
  "nonces (release_due h s a es) = nonces s" "slashed_faults (release_due h s a es) = slashed_faults s"
  by (induction es arbitrary: s) (auto split: if_splits)

lemma set_unbonding_get:
  "dget (unbonding (set_unbonding s a kept)) b [] = (if b = a then kept else dget (unbonding s) b [])"
  by (simp add: set_unbonding_def dget_dset dget_dpop)

lemma mature_addr_get:
  "dget (unbonding (mature_addr h s a)) b [] =
     (if b = a then filter (\<lambda>(amt, rel). \<not> rel \<le> h) (dget (unbonding s) a [])
      else dget (unbonding s) b [])"
  by (simp add: mature_addr_def Let_def set_unbonding_get)

lemma mature_all_get:
  "dget (unbonding (foldl (mature_addr h) s as)) b [] =
     (if b \<in> set as then filter (\<lambda>(amt, rel). \<not> rel \<le> h) (dget (unbonding s) b [])
      else dget (unbonding s) b [])"
  by (induction as arbitrary: s) (auto simp: mature_addr_get)

lemma mature_unbonding_get:
  "dget (unbonding (mature_unbonding h s)) b [] =
     filter (\<lambda>(amt, rel). h < rel) (dget (unbonding s) b [])"
proof (cases "b \<in> set (dkeys (unbonding s))")
  case True
  then show ?thesis by (simp add: mature_unbonding_def mature_all_get not_le)
next
  case False
  then have "map_of (unbonding s) b = None" by (simp add: map_of_eq_None_iff)
  then have "dget (unbonding s) b [] = []" by (simp add: dget_def)
  with False show ?thesis by (simp add: mature_unbonding_def mature_all_get)
qed

text \<open>After a block at height \<open>h\<close>, every queued amount is still locked beyond \<open>h\<close>.\<close>

definition locked_beyond :: "int \<Rightarrow> nstate \<Rightarrow> bool" where
  "locked_beyond h s \<longleftrightarrow> (\<forall>a. \<forall>rel \<in> set (map snd (dget (unbonding s) a [])). h < rel)"

lemma mature_locked: "locked_beyond h (mature_unbonding h s)"
  by (auto simp: locked_beyond_def mature_unbonding_get)

lemma seize_entries_step:
  "seize_entries rem sz ((amt, rel) # es) = (sz', rem', kept) \<Longrightarrow>
     \<exists>r1 z1 r2 kept1. seize_entries r1 z1 es = (sz', r2, kept1)
       \<and> set (map snd kept) \<subseteq> insert rel (set (map snd kept1))"
  by (cases "seize_entries rem sz es";
      cases "seize_entries (map_option (\<lambda>r. fsub r (min amt r)) rem)
        (fadd sz (case rem of None \<Rightarrow> amt | Some r \<Rightarrow> min amt r)) es")
    (auto simp: Let_def split: if_splits option.splits; blast)

lemma seize_entries_subset:
  "seize_entries rem sz es = (sz', rem', kept) \<Longrightarrow> set (map snd kept) \<subseteq> set (map snd es)"
proof (induction es arbitrary: rem sz sz' rem' kept)
  case (Cons e es)
  obtain amt rel where e: "e = (amt, rel)" by fastforce
  from Cons.prems obtain r1 z1 r2 kept1 where "seize_entries r1 z1 es = (sz', r2, kept1)"
    "set (map snd kept) \<subseteq> insert rel (set (map snd kept1))"
    unfolding e by (blast dest: seize_entries_step)
  with Cons.IH [of r1 z1 sz' r2 kept1] e show ?case by (simp del: set_map) blast
qed simp

lemma seize_unbonding_get:
  assumes "seize s a amount = (sz, s')"
  obtains kept where "set (map snd kept) \<subseteq> set (map snd (dget (unbonding s) a []))"
    "\<And>b. dget (unbonding s') b [] = (if b = a then kept else dget (unbonding s) b [])"
proof -
  obtain b r s1 where b: "seize_bond s a (map_option (max 0) amount) = (b, r, s1)"
    by (cases "seize_bond s a (map_option (max 0) amount)") auto
  have u: "unbonding s1 = unbonding s"
    using b by (auto simp: seize_bond_def Let_def split: if_splits)
  obtain z r2 kept where e: "seize_entries r b (release_order (dget (unbonding s) a [])) = (z, r2, kept)"
    by (cases "seize_entries r b (release_order (dget (unbonding s) a []))") auto
  have sub: "set (map snd kept) \<subseteq> set (map snd (dget (unbonding s) a []))"
    using seize_entries_subset [OF e] by (simp add: release_order_def)
  show thesis
  proof (cases "dget (unbonding s) a [] \<noteq> [] \<and> (case r of None \<Rightarrow> True | Some x \<Rightarrow> 0 < x)")
    case True
    then have "s' = set_unbonding s1 a kept" using assms by (simp add: seize_def b u e Let_def)
    with sub show thesis by (intro that [of kept]) (simp_all add: set_unbonding_get u)
  next
    case False
    then have "s' = s1" using assms by (auto simp: seize_def b u Let_def)
    then show thesis by (intro that [of "dget (unbonding s) a []"]) (simp_all add: u)
  qed
qed

lemma seize_locked:
  assumes "seize s a amount = (sz, s')" "locked_beyond h s"
  shows "locked_beyond h s'"
proof -
  obtain kept where k: "set (map snd kept) \<subseteq> set (map snd (dget (unbonding s) a []))"
    "\<And>b. dget (unbonding s') b [] = (if b = a then kept else dget (unbonding s) b [])"
    by (rule seize_unbonding_get [OF assms(1)]) blast
  show ?thesis
    unfolding locked_beyond_def k(2)
    using assms(2) k(1) by (auto simp only: locked_beyond_def split: if_splits)
qed

lemma locked_frame:
  "unbonding s' = unbonding s \<Longrightarrow> locked_beyond h s \<Longrightarrow> locked_beyond h s'"
  by (simp add: locked_beyond_def)

lemma punish_locked:
  assumes "punish W s t offender fault = (out, s')" "locked_beyond h s"
  shows "locked_beyond h s'"
proof -
  obtain bond s1 where z: "seize s offender None = (bond, s1)" by fastforce
  have "unbonding s' = unbonding s1"
    using assms(1) by (auto simp: punish_def z Let_def)
  then show ?thesis using seize_locked [OF z assms(2)] by (rule locked_frame)
qed

lemma queue_locked:
  assumes "locked_beyond h s" "h < rel"
  shows "locked_beyond h (queue_unbonding s a amt rel)"
  using assms by (auto simp: locked_beyond_def queue_unbonding_def dget_dset)

lemma apply_tx_locked:
  assumes "apply_tx W s t (Some h) = (Applied r, s')" "locked_beyond h s"
  shows "locked_beyond h s'"
  using assms(1)
proof (rule apply_tx_dispatch)
  fix a assume d: "(case tx_kind t of Transfer \<Rightarrow> apply_transfer s t a | Stake \<Rightarrow> apply_stake s t a
        | UpgradeSignal \<Rightarrow> apply_upgrade_signal s t | Unstake \<Rightarrow> apply_unstake s t a (Some h)
        | Slash \<Rightarrow> apply_slash W s t) = (Applied r, s')"
  show ?thesis
  proof (cases "tx_kind t")
    case Unstake
    with d have "s' = bump_nonce (queue_unbonding s (tx_sender t) a (h + UNBONDING_PERIOD)) t"
      by (simp add: apply_unstake_Applied release_height_def)
    moreover have "locked_beyond h (queue_unbonding s (tx_sender t) a (h + UNBONDING_PERIOD))"
      using assms(2) by (rule queue_locked) (simp add: UNBONDING_PERIOD_def)
    ultimately show ?thesis by (simp add: bump_nonce_def locked_beyond_def)
  next
    case Slash
    with d have "apply_slash W s t = (Applied r, s')" by simp
    from apply_slash_Applied [OF this] assms(2) show ?thesis by (auto intro: punish_locked)
  next
    case UpgradeSignal
    with d have "apply_upgrade_signal s t = (Applied r, s')" by simp
    from apply_upgrade_signal_Applied [OF this] assms(2) show ?thesis
      by (simp add: bump_nonce_def locked_beyond_def)
  next
    case Transfer
    with d assms(2) show ?thesis
      by (auto simp: apply_transfer_Applied bump_nonce_def debit_def intro: locked_frame [of _ s])
  next
    case Stake
    with d assms(2) show ?thesis
      by (auto simp: apply_stake_Applied bump_nonce_def debit_def intro: locked_frame [of _ s])
  qed
qed

lemma apply_txs_locked:
  "apply_txs W s ts h = Inr s' \<Longrightarrow> locked_beyond h s \<Longrightarrow> locked_beyond h s'"
proof (induction ts arbitrary: s)
  case (Cons t ts)
  then show ?case by (auto split: prod.splits tx_outcome.splits dest: apply_tx_locked)
qed simp

text \<open>What follows the transactions in a block leaves the queue and the nonces alone.\<close>

lemma credit_reward_frame [simp]:
  "unbonding (credit_reward s a x) = unbonding s" "staked (credit_reward s a x) = staked s"
  "treasury (credit_reward s a x) = treasury s" "nonces (credit_reward s a x) = nonces s"
  "slashed_faults (credit_reward s a x) = slashed_faults s" "keys (credit_reward s a x) = keys s"
  "protocol_version (credit_reward s a x) = protocol_version s"
  "pending_activation (credit_reward s a x) = pending_activation s"
  "upgrade_streak (credit_reward s a x) = upgrade_streak s"
  "upgrade_signals (credit_reward s a x) = upgrade_signals s"
  by (simp_all add: credit_reward_def credit_def)

lemma foldl_frame:
  assumes "\<And>st x. f (step st x) = f st"
  shows "f (foldl step s xs) = f s"
  by (induction xs arbitrary: s) (simp_all add: assms)

lemma split_reward_frame [simp]:
  "unbonding (split_reward s r tw agg) = unbonding s" "staked (split_reward s r tw agg) = staked s"
  "treasury (split_reward s r tw agg) = treasury s" "nonces (split_reward s r tw agg) = nonces s"
  "slashed_faults (split_reward s r tw agg) = slashed_faults s"
  "keys (split_reward s r tw agg) = keys s"
  "protocol_version (split_reward s r tw agg) = protocol_version s"
  "pending_activation (split_reward s r tw agg) = pending_activation s"
  "upgrade_streak (split_reward s r tw agg) = upgrade_streak s"
  "upgrade_signals (split_reward s r tw agg) = upgrade_signals s"
  unfolding split_reward_def by (rule foldl_frame; auto)+

lemma upgrade_step_frame [simp]:
  "unbonding (upgrade_step s v h) = unbonding s" "staked (upgrade_step s v h) = staked s"
  "bal (upgrade_step s v h) = bal s" "minted (upgrade_step s v h) = minted s"
  "treasury (upgrade_step s v h) = treasury s" "nonces (upgrade_step s v h) = nonces s"
  "slashed_faults (upgrade_step s v h) = slashed_faults s" "keys (upgrade_step s v h) = keys s"
  by (simp_all add: upgrade_step_def Let_def)

lemma fold_retarget_frame [simp]:
  "unbonding (fold_retarget p s h t w) = unbonding s" "staked (fold_retarget p s h t w) = staked s"
  "bal (fold_retarget p s h t w) = bal s" "minted (fold_retarget p s h t w) = minted s"
  "treasury (fold_retarget p s h t w) = treasury s" "nonces (fold_retarget p s h t w) = nonces s"
  "slashed_faults (fold_retarget p s h t w) = slashed_faults s" "keys (fold_retarget p s h t w) = keys s"
  "protocol_version (fold_retarget p s h t w) = protocol_version s"
  "pending_activation (fold_retarget p s h t w) = pending_activation s"
  "upgrade_streak (fold_retarget p s h t w) = upgrade_streak s"
  "upgrade_signals (fold_retarget p s h t w) = upgrade_signals s"
  by (simp_all add: fold_retarget_def Let_def)

text \<open>So every fact about those fields after a block is a fact about the state after its
  transactions.\<close>

lemma apply_block_via_txs:
  assumes "apply_block W s b cs = Inr s'"
  obtains ns1 where
    "apply_txs W (mature_unbonding (block_height b) s) (bk_txs b) (block_height b) = Inr ns1"
    "unbonding s' = unbonding ns1" "staked s' = staked ns1" "treasury s' = treasury ns1"
    "nonces s' = nonces ns1" "slashed_faults s' = slashed_faults ns1" "keys s' = keys ns1"
  using assms
proof (rule apply_block_Inr)
  fix ns1 agg
  assume 1: "apply_txs W (mature_unbonding (block_height b) s) (bk_txs b) (block_height b) = Inr ns1"
    and 2: "s' = (let ns2 = upgrade_step ns1 (hd_protocol_version (bk_header b)) (block_height b);
               reward = block_reward ns2 (hd_reward (bk_header b));
               ns3 = (if 0 < fsum (dvalues agg) \<and> 0 < reward
                      then split_reward ns2 reward (fsum (dvalues agg)) agg else ns2)
           in fold_retarget s (ns3\<lparr>model_checkpoint := hd_new_checkpoint (bk_header b)\<rparr>) (block_height b)
                (hd_timestamp (bk_header b)) (max 0 (hd_work_score (bk_header b))))"
  show thesis by (rule that [OF 1]) (simp_all add: 2 Let_def)
qed

lemma apply_block_locked:
  assumes "apply_block W s b cs = Inr s'"
  shows "locked_beyond (block_height b) s'"
  using assms
proof (rule apply_block_via_txs)
  fix ns1 :: nstate
  assume u: "unbonding s' = unbonding ns1"
  assume "apply_txs W (mature_unbonding (block_height b) s) (bk_txs b) (block_height b) = Inr ns1"
  then have "locked_beyond (block_height b) ns1" by (rule apply_txs_locked [OF _ mature_locked])
  with u show ?thesis by (rule locked_frame)
qed

end
