(* ===== verification/Ledger_Security.thy ===== *)
theory Ledger_Security
  imports Ledger_Block_Facts
begin

text \<open>
  What protects an account: nonces (no transaction is applied twice), signatures, and the rules
  of a slash (which needs a fault the offender signed, takes everything once, and never meets an
  honest proposer).
\<close>

subsection \<open>Nonces and faults only grow\<close>

definition nonce_of :: "nstate \<Rightarrow> addr \<Rightarrow> int" where
  "nonce_of s a = dget (nonces s) a 0"

lemma punish_frame:
  assumes "punish W s t offender fault = (out, s')"
  shows "nonces s' = nonces s" "keys s' = keys s"
    "slashed_faults s' = insert fault (slashed_faults s)"
proof -
  obtain bond s1 where z: "seize s offender None = (bond, s1)" by fastforce
  have s': "s' = snd (punish W s t offender fault)" using assms by simp
  show "nonces s' = nonces s" "keys s' = keys s" "slashed_faults s' = insert fault (slashed_faults s)"
    unfolding s' using seize_frame(4-6) [OF z] by (simp_all add: punish_def z Let_def credit_def)
qed

lemma bump_nonce_of: "nonce_of (bump_nonce s t) a = (if a = tx_sender t then tx_nonce t + 1 else nonce_of s a)"
  by (simp add: nonce_of_def bump_nonce_def dget_dset)

lemma ordinary_tx_frame:
  assumes "(case tx_kind t of Transfer \<Rightarrow> apply_transfer s t a | Stake \<Rightarrow> apply_stake s t a
        | UpgradeSignal \<Rightarrow> apply_upgrade_signal s t | Unstake \<Rightarrow> apply_unstake s t a h
        | Slash \<Rightarrow> apply_slash W s t) = (Applied r, s')" "tx_kind t \<noteq> Slash"
  shows "nonce_of s' b = (if b = tx_sender t then tx_nonce t + 1 else nonce_of s b)"
    "slashed_faults s' = slashed_faults s" "keys s' = keys s"
proof -
  have "nonces s' = dset (tx_sender t) (tx_nonce t + 1) (nonces s)
      \<and> slashed_faults s' = slashed_faults s \<and> keys s' = keys s"
  proof (cases "tx_kind t")
    case Transfer
    with assms(1) show ?thesis
      by (auto simp: apply_transfer_Applied bump_nonce_def credit_def debit_def)
  next
    case Stake
    with assms(1) show ?thesis by (simp add: apply_stake_Applied bump_nonce_def debit_def)
  next
    case Unstake
    with assms(1) show ?thesis by (simp add: apply_unstake_Applied bump_nonce_def queue_unbonding_def)
  next
    case UpgradeSignal
    with assms(1) have "apply_upgrade_signal s t = (Applied r, s')" by simp
    from apply_upgrade_signal_Applied [OF this] show ?thesis by (simp add: bump_nonce_def)
  qed (use assms(2) in simp)
  then show "nonce_of s' b = (if b = tx_sender t then tx_nonce t + 1 else nonce_of s b)"
    "slashed_faults s' = slashed_faults s" "keys s' = keys s"
    by (simp_all add: nonce_of_def dget_dset)
qed

lemma apply_tx_ordinary:
  assumes "apply_tx W s t h = (Applied r, s')" "tx_kind t \<noteq> Slash"
  shows "tx_nonce t = nonce_of s (tx_sender t)"
    "nonce_of s' b = (if b = tx_sender t then tx_nonce t + 1 else nonce_of s b)"
    "slashed_faults s' = slashed_faults s" "keys s' = keys s"
proof -
  from assms(1) obtain a where
    n: "tx_kind t = Slash \<or> (tx_nonce t = dget (nonces s) (tx_sender t) 0
        \<and> (require_tx_signatures s \<longrightarrow> authenticate W s t = None))"
    and d: "(case tx_kind t of Transfer \<Rightarrow> apply_transfer s t a | Stake \<Rightarrow> apply_stake s t a
        | UpgradeSignal \<Rightarrow> apply_upgrade_signal s t | Unstake \<Rightarrow> apply_unstake s t a h
        | Slash \<Rightarrow> apply_slash W s t) = (Applied r, s')"
    by (rule apply_tx_dispatch)
  show "tx_nonce t = nonce_of s (tx_sender t)" using n assms(2) by (simp add: nonce_of_def)
  show "nonce_of s' b = (if b = tx_sender t then tx_nonce t + 1 else nonce_of s b)"
    "slashed_faults s' = slashed_faults s" "keys s' = keys s"
    by (rule ordinary_tx_frame [OF d assms(2)])+
qed

lemma apply_tx_slash:
  assumes "apply_tx W s t h = (out, s')" "tx_kind t = Slash"
  shows "nonces s' = nonces s" "keys s' = keys s" "slashed_faults s \<subseteq> slashed_faults s'"
proof -
  consider "s' = s" | offender fault r where "punish W s t offender fault = (Applied r, s')"
  proof (cases "\<exists>r. out = Applied r")
    case True
    then obtain r where "out = Applied r" ..
    with assms have "apply_slash W s t = (Applied r, s')"
      by (auto elim!: apply_tx_dispatch)
    from apply_slash_Applied [OF this] that show thesis by blast
  next
    case False
    with apply_tx_unchanged [OF assms(1)] that show thesis by blast
  qed
  then show "nonces s' = nonces s" "keys s' = keys s" "slashed_faults s \<subseteq> slashed_faults s'"
    by (cases; auto dest: punish_frame)+
qed

lemma apply_tx_monotone:
  assumes "apply_tx W s t h = (out, s')"
  shows "nonce_of s b \<le> nonce_of s' b" "slashed_faults s \<subseteq> slashed_faults s'"
proof -
  have "nonce_of s b \<le> nonce_of s' b \<and> slashed_faults s \<subseteq> slashed_faults s'"
  proof (cases "tx_kind t = Slash")
    case True
    with apply_tx_slash [OF assms] show ?thesis by (simp add: nonce_of_def)
  next
    case False
    show ?thesis
    proof (cases "\<exists>r. out = Applied r")
      case True
      then obtain r where "apply_tx W s t h = (Applied r, s')" using assms by blast
      from apply_tx_ordinary [OF this False] show ?thesis by simp
    next
      case False
      with apply_tx_unchanged [OF assms] show ?thesis by blast
    qed
  qed
  then show "nonce_of s b \<le> nonce_of s' b" "slashed_faults s \<subseteq> slashed_faults s'" by auto
qed

text \<open>One transaction, applied or not, as a step: what the sender's nonce and the fault set of
  the state machine never lower.\<close>

definition tx_step :: "world \<Rightarrow> int option \<Rightarrow> nstate \<Rightarrow> tx \<Rightarrow> nstate" where
  "tx_step W h s t = snd (apply_tx W s t h)"

lemma apply_txs_run: "apply_txs W s ts h = Inr s' \<Longrightarrow> s' = foldl (tx_step W (Some h)) s ts"
  by (induction ts arbitrary: s) (auto simp: tx_step_def split: prod.splits tx_outcome.splits)

interpretation nonce_steps: monotone_steps "tx_step W h" "\<lambda>s. nonce_of s a"
  by unfold_locales (metis apply_tx_monotone(1) prod.collapse tx_step_def)

interpretation fault_steps: monotone_steps "tx_step W h" slashed_faults
  by unfold_locales (metis apply_tx_monotone(2) prod.collapse tx_step_def)

lemma mature_addr_frame [simp]:
  "nonces (mature_addr h s a) = nonces s" "slashed_faults (mature_addr h s a) = slashed_faults s"
  "staked (mature_addr h s a) = staked s" "treasury (mature_addr h s a) = treasury s"
  "minted (mature_addr h s a) = minted s"
  by (simp_all add: mature_addr_def set_unbonding_def Let_def)

lemma mature_unbonding_frame [simp]:
  "nonces (mature_unbonding h s) = nonces s"
  "slashed_faults (mature_unbonding h s) = slashed_faults s"
  "staked (mature_unbonding h s) = staked s" "treasury (mature_unbonding h s) = treasury s"
  "minted (mature_unbonding h s) = minted s"
  unfolding mature_unbonding_def by (rule foldl_frame; simp)+

fun apply_blocks :: "world \<Rightarrow> nstate \<Rightarrow> (block \<times> (addr, rat) pydict) list \<Rightarrow> block_error + nstate" where
  "apply_blocks W s [] = Inr s"
| "apply_blocks W s ((b, cs) # bs) = bindE (apply_block W s b cs) (\<lambda>s'. apply_blocks W s' bs)"

lemma apply_block_monotone:
  assumes "apply_block W s b cs = Inr s'"
  shows "nonce_of s a \<le> nonce_of s' a \<and> slashed_faults s \<subseteq> slashed_faults s'"
  using assms
proof (rule apply_block_via_txs)
  fix ns1 :: nstate
  assume e: "nonces s' = nonces ns1" "slashed_faults s' = slashed_faults ns1"
  assume "apply_txs W (mature_unbonding (block_height b) s) (bk_txs b) (block_height b) = Inr ns1"
  from apply_txs_run [OF this] have
    "nonce_of (mature_unbonding (block_height b) s) a \<le> nonce_of ns1 a"
    "slashed_faults (mature_unbonding (block_height b) s) \<subseteq> slashed_faults ns1"
    by (simp_all only: nonce_steps.run_level fault_steps.run_level)
  with e show ?thesis by (simp add: nonce_of_def)
qed

lemma apply_blocks_monotone:
  "apply_blocks W s bs = Inr s' \<Longrightarrow> nonce_of s a \<le> nonce_of s' a \<and> slashed_faults s \<subseteq> slashed_faults s'"
proof (induction bs arbitrary: s)
  case (Cons x bs)
  obtain b cs where x: "x = (b, cs)" by fastforce
  from Cons.prems obtain s1 where "apply_block W s b cs = Inr s1" "apply_blocks W s1 bs = Inr s'"
    by (auto simp: x bindE_Inr_iff)
  with Cons.IH [of s1] apply_block_monotone [of W s b cs s1 a] show ?case by force
qed simp

subsection \<open>Who a transaction comes from\<close>

lemma authenticate_None:
  assumes "authenticate W s t = None"
  obtains reg signer bytes where "map_of (keys s) (tx_sender t) = Some reg"
    "str_lower signer = str_lower reg" "tx_signing_bytes W t = Inr bytes"
    "recover_message W (domain_bytes ''tx'' bytes) (hex_sig (tx_sig t)) = Some signer"
proof -
  obtain reg where reg: "map_of (keys s) (tx_sender t) = Some reg"
    using assms by (auto simp: authenticate_def split: option.splits)
  obtain signer where signer: "recover_tx_signer W t = Inr signer" "str_lower signer = str_lower reg"
    using assms by (auto simp: authenticate_def reg split: sum.splits exn.splits if_splits)
  from signer(1) obtain bytes where "tx_signing_bytes W t = Inr bytes"
    "recover_message W (domain_bytes ''tx'' bytes) (hex_sig (tx_sig t)) = Some signer"
    by (auto simp: recover_tx_signer_def bindE_Inr_iff orE_Inr_iff split: if_splits)
  with reg signer(2) show thesis by (rule that)
qed

subsection \<open>Slashing\<close>

lemma punish_effect:
  assumes "punish W s t offender fault = (Applied r, s')" "ledger_ok s"
  shows "stake_of s' offender = 0" "dget (unbonding s') offender [] = []"
    "r = Slashed offender (fst (seize s offender None))
      (if reporter_bounty_ok W (snd (seize s offender None)) t
       then fmul (fst (seize s offender None)) EQUIVOCATION_BOUNTY_FRAC else 0)"
proof -
  obtain bond s1 where z: "seize s offender None = (bond, s1)" by fastforce
  have s': "s' = snd (punish W s t offender fault)" using assms by simp
  have "staked s' = staked s1 \<and> unbonding s' = unbonding s1"
    unfolding s' by (simp add: punish_def z Let_def)
  with seize_all_empties [OF z assms(2)]
  show "stake_of s' offender = 0" "dget (unbonding s') offender [] = []"
    by (simp_all add: stake_of_def)
  show "r = Slashed offender (fst (seize s offender None))
      (if reporter_bounty_ok W (snd (seize s offender None)) t
       then fmul (fst (seize s offender None)) EQUIVOCATION_BOUNTY_FRAC else 0)"
    using punish_fst [of W s t offender fault] assms(1) by simp
qed

text \<open>What an equivocation slash that is not refused rests on.\<close>

lemma equivocation_slash_evidence:
  assumes "apply_equivocation_slash W s t d = (Applied r, s')"
  obtains p signer proposer reg c where
    "verify_equivocation W p None = Inr signer" "map_of (keys s) proposer = Some reg"
    "str_lower signer = str_lower reg" "envelope_commitment (eq_a p) = Inr c"
    "equivocation_fault_id signer (cm_height c) \<in> slashed_faults s
       \<and> r = AlreadySlashed (equivocation_fault_id signer (cm_height c)) \<and> s' = s
     \<or> punish W s t proposer (equivocation_fault_id signer (cm_height c)) = (Applied r, s')"
proof -
  obtain p where p: "equivocation_from_dict (get_or d ''equivocation'' JNull) = Inr p"
    using assms by (auto simp: apply_equivocation_slash_def Let_def split: if_splits sum.splits)
  obtain signer where v: "verify_equivocation W p None = Inr signer"
    using assms by (auto simp: apply_equivocation_slash_def Let_def p
        split: if_splits sum.splits equivocation_failure.splits)
  obtain a reg where a: "get_or d ''proposer'' JNull = JStr a" "map_of (keys s) a = Some reg"
    using assms by (cases "get_or d ''proposer'' JNull")
      (auto simp: apply_equivocation_slash_def Let_def p v lookup_key_def split: if_splits option.splits)
  obtain c where c: "envelope_commitment (eq_a p) = Inr c"
    using v by (rule verify_equivocation_Inr)
  show thesis
    using assms that [OF v a(2) _ c]
    by (auto simp: apply_equivocation_slash_def Let_def p v a lookup_key_def c split: if_splits)
qed

text \<open>
  An honest proposer: every commitment message that recovers to its key is one it signed, and at
  each height it signed one commitment. Recovery to an honest key of a message it did not sign is
  what a forgery would be.
\<close>

definition honest_signer :: "world \<Rightarrow> addr \<Rightarrow> (int \<Rightarrow> commitment) \<Rightarrow> bool" where
  "honest_signer W addr signed_at \<longleftrightarrow>
     (\<forall>c bytes sig r. commitment_canonical_bytes W c = Inr bytes
        \<longrightarrow> recover_message W (domain_bytes ''commit'' bytes) sig = Some r
        \<longrightarrow> str_lower r = str_lower addr \<longrightarrow> c = signed_at (cm_height c))"

lemma honest_never_equivocates:
  assumes "honest_signer W addr signed_at" "verify_equivocation W p expected = Inr r"
  shows "str_lower r \<noteq> str_lower addr"
proof
  assume eq: "str_lower r = str_lower addr"
  from assms(2) show False
  proof (rule verify_equivocation_Inr)
    fix ca cb ia ib recB
    assume ra: "recover_signer W (eq_a p) = Inr r" and rb: "recover_signer W (eq_b p) = Inr recB"
      and low: "str_lower recB = str_lower r"
      and ca: "envelope_commitment (eq_a p) = Inr ca" and cb: "envelope_commitment (eq_b p) = Inr cb"
      and h: "cm_height ca = cm_height cb"
      and ids: "commit_id W ca = Inr ia" "commit_id W cb = Inr ib" "ia \<noteq> ib"
    have "ca = signed_at (cm_height ca)"
      using ra ca assms(1) eq by (auto elim!: recover_signer_Inr simp: honest_signer_def)
    moreover have "cb = signed_at (cm_height cb)"
      using rb cb assms(1) eq low by (auto elim!: recover_signer_Inr simp: honest_signer_def)
    ultimately have "ca = cb" using h by metis
    with ids show False by simp
  qed
qed

lemma honest_not_slashed_equivocation:
  assumes "apply_equivocation_slash W s t d = (Applied r, s')"
    "map_of (keys s) proposer = Some addr" "honest_signer W addr signed_at"
  shows "r \<noteq> Slashed proposer bond bounty"
  using assms(1)
proof (rule equivocation_slash_evidence)
  fix p signer a reg c
  assume v: "verify_equivocation W p None = Inr signer" and reg: "map_of (keys s) a = Some reg"
    and low: "str_lower signer = str_lower reg"
    and o: "equivocation_fault_id signer (cm_height c) \<in> slashed_faults s
       \<and> r = AlreadySlashed (equivocation_fault_id signer (cm_height c)) \<and> s' = s
     \<or> punish W s t a (equivocation_fault_id signer (cm_height c)) = (Applied r, s')"
  have "a \<noteq> proposer"
    using honest_never_equivocates [OF assms(3) v] low reg assms(2) by auto
  with o show ?thesis
    using punish_fst [of W s t a "equivocation_fault_id signer (cm_height c)"] by auto
qed

text \<open>An equivocation slash of a fault that has been punished takes nothing.\<close>

lemma slashed_fault_again:
  assumes "apply_equivocation_slash W s t d = (Applied (Slashed v bond bounty), s')"
    "slashed_faults s' \<subseteq> slashed_faults u" "keys u = keys s"
  shows "\<exists>fault. apply_equivocation_slash W u t' d = (Applied (AlreadySlashed fault), u)"
proof -
  obtain p where p: "equivocation_from_dict (get_or d ''equivocation'' JNull) = Inr p"
    using assms(1) by (auto simp: apply_equivocation_slash_def Let_def split: if_splits sum.splits)
  obtain signer where v: "verify_equivocation W p None = Inr signer"
    using assms(1) by (auto simp: apply_equivocation_slash_def Let_def p
        split: if_splits sum.splits equivocation_failure.splits)
  obtain a reg where a: "get_or d ''proposer'' JNull = JStr a" "map_of (keys s) a = Some reg"
    using assms(1) by (cases "get_or d ''proposer'' JNull")
      (auto simp: apply_equivocation_slash_def Let_def p v lookup_key_def split: if_splits option.splits)
  obtain c where c: "envelope_commitment (eq_a p) = Inr c"
    using v by (rule verify_equivocation_Inr)
  have "punish W s t a (equivocation_fault_id signer (cm_height c)) = (Applied (Slashed v bond bounty), s')"
    using assms(1) by (auto simp: apply_equivocation_slash_def Let_def p v a lookup_key_def c split: if_splits)
  from punish_frame(3) [OF this] assms(2)
  have "equivocation_fault_id signer (cm_height c) \<in> slashed_faults u" by auto
  moreover have "truthy (get_or d ''equivocation'' JNull)" "str_lower reg = str_lower signer"
    using assms(1)
    by (auto simp: apply_equivocation_slash_def Let_def p v a lookup_key_def split: if_splits)
  ultimately show ?thesis
    by (simp add: apply_equivocation_slash_def p v a lookup_key_def c assms(3) Let_def)
qed

end
