(* ===== verification/Ledger_Supply.thy ===== *)
theory Ledger_Supply
  imports Ledger_Security
begin

text \<open>
  Conservation of the token supply. Amounts are floats, so conservation is exact where float
  arithmetic is exact: on the grid of multiples of \<open>2^-22\<close>, up to a supply of \<open>2^31\<close>.
\<close>

subsection \<open>The supply\<close>

definition entries_total :: "(rat \<times> int) list \<Rightarrow> rat" where
  "entries_total es = sum_list (map fst es)"

definition liquid :: "nstate \<Rightarrow> rat" where
  "liquid s = dsum (\<lambda>v. v) (bal s) + dsum (\<lambda>v. v) (staked s) + treasury s"

definition locked :: "nstate \<Rightarrow> rat" where
  "locked s = dsum entries_total (unbonding s)"

definition total_supply :: "nstate \<Rightarrow> rat" where
  "total_supply s = liquid s + locked s"

definition grid_entries :: "(rat \<times> int) list \<Rightarrow> bool" where
  "grid_entries es \<longleftrightarrow> list_all (\<lambda>(amt, rel). on_grid amt) es"

definition grid_state :: "nstate \<Rightarrow> bool" where
  "grid_state s \<longleftrightarrow> ledger_ok s \<and> list_all on_grid (dvalues (bal s))
     \<and> list_all on_grid (dvalues (staked s)) \<and> list_all grid_entries (dvalues (unbonding s))
     \<and> on_grid (treasury s)"

lemma grid_entries_simps [simp]:
  "grid_entries []" "grid_entries ((a, r) # es) \<longleftrightarrow> on_grid a \<and> grid_entries es"
  "grid_entries (xs @ ys) \<longleftrightarrow> grid_entries xs \<and> grid_entries ys"
  by (simp_all add: grid_entries_def)

lemma entries_total_simps [simp]:
  "entries_total [] = 0" "entries_total ((a, r) # es) = a + entries_total es"
  "entries_total (xs @ ys) = entries_total xs + entries_total ys"
  by (simp_all add: entries_total_def)

lemma entries_total_nonneg: "amounts_ok es \<Longrightarrow> 0 \<le> entries_total es"
  by (induction es) auto

lemma grid_state_ledger [simp]: "grid_state s \<Longrightarrow> ledger_ok s"
  by (simp add: grid_state_def)

lemma grid_stateD:
  assumes "grid_state s"
  shows "on_grid (balance s a)" "on_grid (stake_of s a)" "grid_entries (dget (unbonding s) a [])"
    "on_grid (treasury s)"
  using assms by (auto simp: grid_state_def balance_def stake_of_def intro: list_all_dget)

lemma dget_le_dsum:
  "list_all ((\<le>) 0) (dvalues d) \<Longrightarrow> dget d a 0 \<le> dsum (\<lambda>v. v) d"
  using dsum_member [of "\<lambda>v. v" d a] dsum_nonneg [of "\<lambda>v. v" d]
  by (auto simp: dget_def split: option.splits)

lemma supply_bounds:
  assumes "ledger_ok s"
  shows "balance s a \<le> liquid s" "stake_of s a \<le> liquid s" "treasury s \<le> liquid s"
    "entries_total (dget (unbonding s) a []) \<le> locked s" "0 \<le> liquid s" "0 \<le> locked s"
    "stake_of s a + treasury s \<le> liquid s"
proof -
  have e: "list_all (\<lambda>es. 0 \<le> entries_total es) (dvalues (unbonding s))"
    using assms by (auto simp: ledger_ok_def list_all_iff entries_total_nonneg)
  have nn: "0 \<le> dsum (\<lambda>v. v) (bal s)" "0 \<le> dsum (\<lambda>v. v) (staked s)" "0 \<le> treasury s"
    using assms by (auto simp: ledger_ok_def intro!: dsum_nonneg)
  have le: "balance s a \<le> dsum (\<lambda>v. v) (bal s)" "stake_of s a \<le> dsum (\<lambda>v. v) (staked s)"
    using assms by (auto simp: ledger_ok_def balance_def stake_of_def intro!: dget_le_dsum)
  show "balance s a \<le> liquid s" "stake_of s a \<le> liquid s" "treasury s \<le> liquid s" "0 \<le> liquid s"
    "stake_of s a + treasury s \<le> liquid s"
    using nn le by (simp_all add: liquid_def)
  show "entries_total (dget (unbonding s) a []) \<le> locked s"
    using dsum_member [OF e, of a] dsum_nonneg [OF e]
    by (auto simp: locked_def dget_def split: option.splits)
  show "0 \<le> locked s" unfolding locked_def by (rule dsum_nonneg [OF e])
qed

lemma dsum_id_dset: "dsum (\<lambda>v. v) (dset a x d) = dsum (\<lambda>v. v) d - dget d a 0 + x"
  by (auto simp: dsum_dset dget_def split: option.splits)

lemma dsum_entries_dset:
  "dsum entries_total (dset a es d) = dsum entries_total d - entries_total (dget d a []) + entries_total es"
  by (auto simp: dsum_dset dget_def split: option.splits)

subsection \<open>The elementary moves\<close>

lemma credit_supply:
  assumes "grid_state s" "on_grid amt" "0 \<le> amt" "liquid s + amt \<le> 2 ^ 31"
  shows "grid_state (credit s a amt)" "liquid (credit s a amt) = liquid s + amt"
    "locked (credit s a amt) = locked s"
proof -
  note g = grid_stateD [OF assms(1)] and b = supply_bounds [OF grid_state_ledger [OF assms(1)]]
  have nn: "0 \<le> balance s a" using assms(1) by (simp add: ledger_okD)
  have e: "fadd (balance s a) amt = balance s a + amt"
    using g(1) [of a] assms(2-4) b(1) [of a] nn by (intro fadd_exact) auto
  show "grid_state (credit s a amt)"
    using assms(1-3) g(1) [of a] nn e credit_ok [of s amt a]
    by (auto simp: grid_state_def credit_def balance_def list_all_dset on_grid_add on_grid_diff)
  show "liquid (credit s a amt) = liquid s + amt" "locked (credit s a amt) = locked s"
    using e by (simp_all add: liquid_def locked_def credit_def dsum_id_dset balance_def)
qed

lemma debit_supply:
  assumes "grid_state s" "on_grid amt" "0 \<le> amt" "amt \<le> balance s a" "liquid s \<le> 2 ^ 31"
  shows "grid_state (debit s a amt)" "liquid (debit s a amt) = liquid s - amt"
    "locked (debit s a amt) = locked s"
proof -
  note g = grid_stateD [OF assms(1)] and b = supply_bounds [OF grid_state_ledger [OF assms(1)]]
  have e: "fsub (balance s a) amt = balance s a - amt"
    using g(1) [of a] assms(2-5) b(1) [of a] by (intro fsub_exact) auto
  show "grid_state (debit s a amt)"
    using assms(1-4) g(1) [of a] e debit_ok [of s amt a]
    by (auto simp: grid_state_def debit_def balance_def list_all_dset on_grid_add on_grid_diff)
  show "liquid (debit s a amt) = liquid s - amt" "locked (debit s a amt) = locked s"
    using e by (simp_all add: liquid_def locked_def debit_def dsum_id_dset balance_def)
qed

lemma stake_supply:
  assumes "grid_state s" "on_grid amt" "0 \<le> amt" "liquid s + amt \<le> 2 ^ 31"
    and s'_def: "s' = s\<lparr>staked := dset a (fadd (stake_of s a) amt) (staked s)\<rparr>"
  shows "grid_state s'" "liquid s' = liquid s + amt" "locked s' = locked s"
proof -
  note g = grid_stateD [OF assms(1)] and b = supply_bounds [OF grid_state_ledger [OF assms(1)]]
  have nn: "0 \<le> stake_of s a" using assms(1) by (simp add: ledger_okD)
  have e: "fadd (stake_of s a) amt = stake_of s a + amt"
    using g(2) [of a] assms(2-4) b(2) [of a] nn by (intro fadd_exact) auto
  show "grid_state s'"
    using assms(1-3) g(2) [of a] nn e staked_ok [of s "stake_of s a + amt" a]
    by (auto simp: grid_state_def s'_def list_all_dset on_grid_add on_grid_diff)
  show "liquid s' = liquid s + amt" "locked s' = locked s"
    using e by (simp_all add: liquid_def locked_def s'_def dsum_id_dset stake_of_def)
qed

lemma queue_supply:
  assumes "grid_state s" "on_grid amt" "0 \<le> amt" "amt \<le> stake_of s a" "liquid s \<le> 2 ^ 31"
  shows "grid_state (queue_unbonding s a amt rel)" "liquid (queue_unbonding s a amt rel) = liquid s - amt"
    "locked (queue_unbonding s a amt rel) = locked s + amt"
proof -
  note g = grid_stateD [OF assms(1)] and b = supply_bounds [OF grid_state_ledger [OF assms(1)]]
  have e: "fsub (stake_of s a) amt = stake_of s a - amt"
    using g(2) [of a] assms(2-5) b(2) [of a] by (intro fsub_exact) auto
  show "grid_state (queue_unbonding s a amt rel)"
    using assms(1-4) g(2,3) [of a] e queue_unbonding_ok [of s amt a rel]
    by (auto simp: grid_state_def queue_unbonding_def list_all_dset on_grid_add on_grid_diff)
  show "liquid (queue_unbonding s a amt rel) = liquid s - amt"
    "locked (queue_unbonding s a amt rel) = locked s + amt"
    using e by (simp_all add: liquid_def locked_def queue_unbonding_def dsum_id_dset dsum_entries_dset
        stake_of_def)
qed

lemma supply_frame [simp]:
  "grid_state (bump_nonce s t) = grid_state s" "liquid (bump_nonce s t) = liquid s"
  "locked (bump_nonce s t) = locked s"
  "grid_state (s\<lparr>upgrade_signals := u\<rparr>) = grid_state s" "liquid (s\<lparr>upgrade_signals := u\<rparr>) = liquid s"
  "locked (s\<lparr>upgrade_signals := u\<rparr>) = locked s"
  by (simp_all add: grid_state_def liquid_def locked_def bump_nonce_def ledger_ok_def)

subsection \<open>Maturing\<close>

definition due_total :: "int \<Rightarrow> (rat \<times> int) list \<Rightarrow> rat" where
  "due_total h es = entries_total (filter (\<lambda>(amt, rel). rel \<le> h) es)"

lemma due_total_simps [simp]:
  "due_total h [] = 0" "due_total h ((a, r) # es) = (if r \<le> h then a else 0) + due_total h es"
  by (simp_all add: due_total_def)

lemma due_total_split:
  "entries_total (filter (\<lambda>(amt, rel). \<not> rel \<le> h) es) = entries_total es - due_total h es"
  by (induction es) auto

lemma due_total_bounds: "amounts_ok es \<Longrightarrow> 0 \<le> due_total h es \<and> due_total h es \<le> entries_total es"
  by (induction es) auto

lemma release_due_supply:
  assumes "grid_state s" "grid_entries es" "amounts_ok es" "liquid s + due_total h es \<le> 2 ^ 31"
  shows "grid_state (release_due h s a es) \<and> liquid (release_due h s a es) = liquid s + due_total h es
    \<and> locked (release_due h s a es) = locked s"
  using assms
proof (induction es arbitrary: s)
  case (Cons e es)
  obtain amt rel where e: "e = (amt, rel)" by fastforce
  have nn: "0 \<le> due_total h es" using Cons.prems by (simp add: e due_total_bounds)
  show ?case
  proof (cases "rel \<le> h")
    case True
    note c = credit_supply [of s amt a]
    show ?thesis
      using Cons.prems nn True c Cons.IH [of "credit s a amt"] by (simp add: e)
  next
    case False
    then show ?thesis using Cons.prems Cons.IH [of s] by (simp add: e)
  qed
qed simp

lemma grid_entries_filter: "grid_entries es \<Longrightarrow> grid_entries (filter P es)"
  by (auto simp: grid_entries_def list_all_iff)

lemma dsum_entries_dpop:
  "distinct (dkeys d) \<Longrightarrow> dsum entries_total (dpop a d) = dsum entries_total d - entries_total (dget d a [])"
  by (auto simp: dsum_dpop dget_def split: option.splits)

lemma set_unbonding_supply:
  assumes "grid_state s" "grid_entries es" "amounts_ok es"
  shows "grid_state (set_unbonding s a es)" "liquid (set_unbonding s a es) = liquid s"
    "locked (set_unbonding s a es) = locked s - entries_total (dget (unbonding s) a []) + entries_total es"
proof -
  have d: "distinct (dkeys (unbonding s))" using assms(1) by (simp add: grid_state_def ledger_ok_def)
  show "grid_state (set_unbonding s a es)"
    using assms set_unbonding_ok [of s es a]
    by (auto simp: grid_state_def set_unbonding_def list_all_dset list_all_dpop)
  show "liquid (set_unbonding s a es) = liquid s"
    by (simp add: liquid_def set_unbonding_def)
  show "locked (set_unbonding s a es) = locked s - entries_total (dget (unbonding s) a []) + entries_total es"
    by (simp add: locked_def set_unbonding_def dsum_entries_dset dsum_entries_dpop d)
qed

lemma mature_addr_supply:
  assumes "grid_state s" "total_supply s \<le> 2 ^ 31"
  shows "grid_state (mature_addr h s a) \<and> total_supply (mature_addr h s a) = total_supply s"
proof -
  define es where "es = dget (unbonding s) a []"
  note g = grid_stateD [OF assms(1)] and b = supply_bounds [OF grid_state_ledger [OF assms(1)]]
  have es: "grid_entries es" "amounts_ok es" using g(3) assms(1) by (auto simp: es_def ledger_okD)
  have "liquid s + due_total h es \<le> total_supply s"
    using due_total_bounds [OF es(2), of h] b(4) [of a] by (simp add: total_supply_def es_def)
  then have r: "grid_state (release_due h s a es)" "liquid (release_due h s a es) = liquid s + due_total h es"
    "locked (release_due h s a es) = locked s"
    using release_due_supply [OF assms(1) es, of h a] assms(2) by auto
  note u = set_unbonding_supply [OF r(1), of "filter (\<lambda>(amt, rel). \<not> rel \<le> h) es" a]
  have m: "mature_addr h s a = set_unbonding (release_due h s a es) a (filter (\<lambda>(amt, rel). \<not> rel \<le> h) es)"
    by (simp add: mature_addr_def es_def Let_def)
  show ?thesis
    unfolding m total_supply_def
    using u es r by (simp add: grid_entries_filter amounts_ok_filter due_total_split es_def)
qed

definition conserving :: "rat \<Rightarrow> nstate \<Rightarrow> bool" where
  "conserving T s \<longleftrightarrow> grid_state s \<and> total_supply s = T \<and> T \<le> 2 ^ 31"

interpretation maturing_supply: keeps_invariant "mature_addr h" "conserving T"
  by unfold_locales (auto simp: conserving_def mature_addr_supply)

lemma mature_unbonding_supply: "conserving T s \<Longrightarrow> conserving T (mature_unbonding h s)"
  unfolding mature_unbonding_def by (rule maturing_supply.run_inv)

subsection \<open>Seizing\<close>

lemma sum_list_insort: "sum_list (map fst (insort_key f x xs)) = fst x + sum_list (map fst xs)"
  for xs :: "(rat \<times> int) list"
  by (induction xs) auto

lemma entries_total_order: "entries_total (release_order es) = entries_total es"
  unfolding entries_total_def release_order_def by (induction es) (auto simp: sum_list_insort)

lemma grid_entries_order [simp]: "grid_entries (release_order es) = grid_entries es"
  by (simp add: grid_entries_def list_all_iff release_order_def)

lemma entries_total_on_grid: "grid_entries es \<Longrightarrow> on_grid (entries_total es)"
  by (induction es) (auto simp: on_grid_add)

lemma foldl_fadd_entries:
  assumes "grid_entries es" "amounts_ok es" "on_grid x" "0 \<le> x" "x + entries_total es \<le> 2 ^ 31"
  shows "foldl fadd x (map fst es) = x + entries_total es"
  unfolding entries_total_def using assms
  by (intro foldl_fadd_exact) (auto simp: grid_entries_def amounts_ok_def entries_total_def list_all_iff)

lemma seize_all_supply:
  assumes "seize s a None = (bond, s1)" "grid_state s" "total_supply s \<le> 2 ^ 31"
  shows "grid_state s1" "on_grid bond" "0 \<le> bond" "total_supply s1 = total_supply s - bond"
    "treasury s1 = treasury s"
proof -
  define st where "st = stake_of s a"
  define es where "es = dget (unbonding s) a []"
  note g = grid_stateD [OF assms(2)] and b = supply_bounds [OF grid_state_ledger [OF assms(2)]]
  have st: "0 \<le> st" "on_grid st" "st \<le> liquid s"
    using g(2) b(2) assms(2) by (auto simp: st_def ledger_okD)
  have es: "grid_entries es" "amounts_ok es" "entries_total es \<le> locked s"
    using g(3) b(4) assms(2) by (auto simp: es_def ledger_okD)
  have st31: "fadd 0 st = st"
    using st b(6) assms(3) by (auto simp: fadd_def total_supply_def intro!: on_grid_exact)
  define s0 where "s0 = (if 0 < st then s\<lparr>staked := dset a 0 (staked s)\<rparr> else s)"
  have bond0: "seize_bond s a None = (st, None, s0)"
    using st st31 by (auto simp: seize_bond_def Let_def s0_def st_def stake_of_def)
  have s0: "grid_state s0" "liquid s0 = liquid s - st" "locked s0 = locked s"
    using st assms(2) staked_ok [of s 0 a]
    by (auto simp: s0_def grid_state_def list_all_dset liquid_def locked_def dsum_id_dset st_def stake_of_def)
  have u0: "unbonding s0 = unbonding s" "treasury s0 = treasury s" by (simp_all add: s0_def)
  have sum: "foldl fadd st (map fst (release_order es)) = st + entries_total es"
    using es st assms(3) foldl_fadd_entries [of "release_order es" st]
    by (simp add: entries_total_order total_supply_def)
  have r: "bond = st + entries_total es \<and> s1 = (if es = [] then s0 else set_unbonding s0 a [])"
    using assms(1)
    by (auto simp: seize_def bond0 Let_def u0 seize_entries_all sum [unfolded es_def] es_def split: if_splits)
  have e0: "on_grid (entries_total es)" "0 \<le> entries_total es"
    using es by (auto simp: entries_total_on_grid entries_total_nonneg)
  show "on_grid bond" "0 \<le> bond" using r st e0 by (auto simp: on_grid_add)
  show "grid_state s1" "total_supply s1 = total_supply s - bond" "treasury s1 = treasury s"
    using r s0 set_unbonding_supply [OF s0(1), of "[]" a] u0
    by (auto simp: total_supply_def es_def set_unbonding_def)
qed

lemma punish_supply:
  assumes "punish W s t offender fault = (out, s')" "conserving T s"
    and quiet: "\<And>u. keys u = keys s \<Longrightarrow> \<not> reporter_bounty_ok W u t"
  shows "conserving T s'"
proof -
  obtain bond s1 where z: "seize s offender None = (bond, s1)" by fastforce
  have c: "grid_state s" "total_supply s \<le> 2 ^ 31" "total_supply s = T" "T \<le> 2 ^ 31"
    using assms(2) by (auto simp: conserving_def)
  note k = seize_all_supply [OF z c(1,2)]
  have ok1: "ledger_ok s1" using k(1) by simp
  have q: "\<not> reporter_bounty_ok W s1 t" using seize_frame(4) [OF z] by (rule quiet)
  have le: "treasury s1 + bond \<le> 2 ^ 31"
    using k supply_bounds(3) [OF ok1] supply_bounds(6) [OF ok1] c(2) by (simp add: total_supply_def)
  have tr: "0 \<le> treasury s1" "on_grid (treasury s1)" using k(1) grid_stateD(4) by (auto simp: ledger_okD)
  have f: "fsub bond 0 = bond"
    using k(2,3) le tr by (auto simp: fsub_def intro!: on_grid_exact)
  have e: "fadd (treasury s1) bond = treasury s1 + bond"
    using k(2,3) le tr by (intro fadd_exact) auto
  have "s' = snd (punish W s t offender fault)" using assms(1) by simp
  also have "\<dots> = s1\<lparr>treasury := treasury s1 + bond, slashed_faults := insert fault (slashed_faults s1)\<rparr>"
    by (simp add: punish_def z q Let_def f e)
  finally show ?thesis
    using k tr c by (auto simp: conserving_def grid_state_def ledger_ok_def total_supply_def liquid_def
        locked_def on_grid_add)
qed

subsection \<open>Transactions\<close>

definition quiet_slashes :: "world \<Rightarrow> nstate \<Rightarrow> tx \<Rightarrow> bool" where
  "quiet_slashes W s t \<longleftrightarrow> (tx_kind t = Slash \<longrightarrow> (\<forall>u. keys u = keys s \<longrightarrow> \<not> reporter_bounty_ok W u t))"

lemma apply_tx_supply:
  assumes "apply_tx W s t h = (out, s')" "conserving T s" "\<And>a. tx_amount t = Fin a \<Longrightarrow> on_grid a"
    "quiet_slashes W s t"
  shows "conserving T s'"
proof (cases "\<exists>r. out = Applied r")
  case True
  then obtain r where "apply_tx W s t h = (Applied r, s')" using assms(1) by blast
  then obtain a where a: "tx_amount t = Fin a" "0 \<le> a" and d:
    "(case tx_kind t of Transfer \<Rightarrow> apply_transfer s t a | Stake \<Rightarrow> apply_stake s t a
        | UpgradeSignal \<Rightarrow> apply_upgrade_signal s t | Unstake \<Rightarrow> apply_unstake s t a h
        | Slash \<Rightarrow> apply_slash W s t) = (Applied r, s')"
    by (rule apply_tx_dispatch)
  have ga: "on_grid a" using a(1) by (rule assms(3))
  have c: "grid_state s" "total_supply s = T" "T \<le> 2 ^ 31"
    using assms(2) by (auto simp: conserving_def)
  have ok: "ledger_ok s" using c(1) by simp
  have lq: "liquid s \<le> 2 ^ 31" using c(2,3) supply_bounds(6) [OF ok] by (simp add: total_supply_def)
  show ?thesis
  proof (cases "tx_kind t")
    case Transfer
    with d obtain to where le: "a \<le> balance s (tx_sender t)"
      and s': "s' = bump_nonce (credit (debit s (tx_sender t) a) to a) t"
      by (auto simp: apply_transfer_Applied)
    note x = debit_supply [OF c(1) ga a(2) le lq]
    note y = credit_supply [OF x(1) ga a(2), of to]
    show ?thesis using c x y lq by (simp add: conserving_def s' total_supply_def)
  next
    case Stake
    with d have le: "a \<le> balance s (tx_sender t)"
      and s': "s' = bump_nonce ((debit s (tx_sender t) a)\<lparr>staked :=
               dset (tx_sender t) (fadd (stake_of s (tx_sender t)) a) (staked s)\<rparr>) t"
      by (auto simp: apply_stake_Applied)
    note x = debit_supply [OF c(1) ga a(2) le lq]
    have st: "staked (debit s (tx_sender t) a) = staked s" "stake_of (debit s (tx_sender t) a) = stake_of s"
      by (auto simp: debit_def stake_of_def)
    note y = stake_supply [OF x(1) ga a(2) _ refl, of "tx_sender t", unfolded st]
    show ?thesis using c x y lq by (simp add: conserving_def s' total_supply_def)
  next
    case Unstake
    with d have le: "a \<le> stake_of s (tx_sender t)"
      and s': "s' = bump_nonce (queue_unbonding s (tx_sender t) a (release_height h)) t"
      by (auto simp: apply_unstake_Applied)
    show ?thesis
      using c queue_supply [OF c(1) ga a(2) le lq] by (simp add: conserving_def s' total_supply_def)
  next
    case UpgradeSignal
    with d have "apply_upgrade_signal s t = (Applied r, s')" by simp
    from apply_upgrade_signal_Applied [OF this] c show ?thesis
      by (simp add: conserving_def total_supply_def)
  next
    case Slash
    with d have "apply_slash W s t = (Applied r, s')" by simp
    from apply_slash_Applied [OF this] assms(2,4) Slash show ?thesis
      by (auto simp: quiet_slashes_def intro: punish_supply)
  qed
next
  case False
  with apply_tx_unchanged [OF assms(1)] assms(2) show ?thesis by blast
qed

lemma apply_txs_supply:
  assumes "apply_txs W s ts h = Inr s'" "conserving T s"
    "\<forall>t \<in> set ts. \<forall>a. tx_amount t = Fin a \<longrightarrow> on_grid a"
    "\<forall>t \<in> set ts. \<forall>u. quiet_slashes W u t"
  shows "conserving T s'"
  using assms
proof (induction ts arbitrary: s)
  case (Cons t ts)
  from Cons.prems(1) obtain r s1 where s1: "apply_tx W s t (Some h) = (Applied r, s1)"
    and rest: "apply_txs W s1 ts h = Inr s'"
    by (auto split: prod.splits tx_outcome.splits)
  have "conserving T s1"
    using Cons.prems(3,4) by (intro apply_tx_supply [OF s1 Cons.prems(2)]) auto
  with Cons.IH [OF rest] Cons.prems(3,4) show ?case by simp
qed simp

end
