(* ===== verification/Ledger_Cap.thy ===== *)
theory Ledger_Cap
  imports Ledger_Supply
begin

text \<open>
  The emission cap. A block mints at most what \<open>MAX_SUPPLY\<close> leaves, up to the rounding of the
  reward shares: with one contributor the cap holds, with several the rounded shares can carry
  the minted total one unit in the last place over it.
\<close>

subsection \<open>One contributor\<close>

lemma cap_tie: "rnd64 (MAX_SUPPLY + 2 powi (- 23)) = MAX_SUPPLY"
  by code_simp

lemma fdiv_self: "0 < w \<Longrightarrow> fdiv w w = 1"
  using rnd64_of_int [of 1] by (simp add: fdiv_def)

lemma fadd_under_cap:
  assumes "0 \<le> m" "m \<le> MAX_SUPPLY" "x \<le> fsub MAX_SUPPLY m"
  shows "fadd m x \<le> MAX_SUPPLY"
proof -
  have "\<bar>MAX_SUPPLY - m\<bar> < 2 powi 31"
    using assms(1,2) by (simp add: MAX_SUPPLY_def)
  then have "\<bar>fsub MAX_SUPPLY m - (MAX_SUPPLY - m)\<bar> \<le> 2 powi (31 - 54)"
    unfolding fsub_def by (rule rnd64_error_below) simp
  from abs_le_D1 [OF this] have "fsub MAX_SUPPLY m \<le> MAX_SUPPLY - m + 2 powi (- 23)" by simp
  with assms(3) have "m + x \<le> MAX_SUPPLY + 2 powi (- 23)" by linarith
  from rnd64_mono [OF this] show ?thesis unfolding fadd_def cap_tie .
qed

lemma split_reward_single:
  assumes "0 < w"
  shows "split_reward ns r w [(a, w)] = credit_reward ns a (rnd64 r)"
  using assms by (simp add: split_reward_def fdiv_self fmul_def)

lemma minted_single:
  assumes "ledger_ok ns" "minted ns \<le> MAX_SUPPLY" "0 < w"
  shows "minted (split_reward ns (block_reward ns r) w [(a, w)]) \<le> MAX_SUPPLY"
proof (cases "block_reward ns r \<le> 0")
  case True
  then have "rnd64 (block_reward ns r) \<le> 0" using f64.rnd_nonpos by blast
  with assms show ?thesis by (simp add: split_reward_single credit_reward_def)
next
  case False
  then have "block_reward ns r \<le> fsub MAX_SUPPLY (minted ns)" by (auto simp: block_reward_def)
  from rnd64_mono [OF this] have "rnd64 (block_reward ns r) \<le> fsub MAX_SUPPLY (minted ns)"
    by (simp add: fsub_def)
  with assms show ?thesis
    by (auto simp: split_reward_single credit_reward_def credit_def intro!: fadd_under_cap ledger_okD)
qed

lemma punish_minted:
  assumes "punish W s t offender fault = (out, s')"
  shows "minted s' = minted s"
proof -
  obtain bond s1 where z: "seize s offender None = (bond, s1)" by fastforce
  have s': "s' = snd (punish W s t offender fault)" using assms by simp
  show ?thesis unfolding s' using seize_frame(3) [OF z] by (simp add: punish_def z Let_def)
qed

lemma apply_tx_minted:
  assumes "apply_tx W s t h = (out, s')"
  shows "minted s' = minted s"
proof (cases "\<exists>r. out = Applied r")
  case True
  then obtain r where "apply_tx W s t h = (Applied r, s')" using assms by blast
  then obtain a where d: "(case tx_kind t of Transfer \<Rightarrow> apply_transfer s t a | Stake \<Rightarrow> apply_stake s t a
        | UpgradeSignal \<Rightarrow> apply_upgrade_signal s t | Unstake \<Rightarrow> apply_unstake s t a h
        | Slash \<Rightarrow> apply_slash W s t) = (Applied r, s')"
    by (rule apply_tx_dispatch)
  show ?thesis
  proof (cases "tx_kind t")
    case Transfer
    with d show ?thesis by (auto simp: apply_transfer_Applied bump_nonce_def debit_def)
  next
    case Stake
    with d show ?thesis by (simp add: apply_stake_Applied bump_nonce_def debit_def)
  next
    case Unstake
    with d show ?thesis by (simp add: apply_unstake_Applied bump_nonce_def queue_unbonding_def)
  next
    case UpgradeSignal
    with d have "apply_upgrade_signal s t = (Applied r, s')" by simp
    from apply_upgrade_signal_Applied [OF this] show ?thesis by (simp add: bump_nonce_def)
  next
    case Slash
    with d have "apply_slash W s t = (Applied r, s')" by simp
    from apply_slash_Applied [OF this] show ?thesis by (auto dest: punish_minted)
  qed
next
  case False
  with apply_tx_unchanged [OF assms] show ?thesis by blast
qed

lemma apply_txs_minted: "apply_txs W s ts h = Inr s' \<Longrightarrow> minted s' = minted s"
  by (induction ts arbitrary: s) (auto dest: apply_tx_minted split: prod.splits tx_outcome.splits)

lemma aggregate_single:
  assumes "aggregate d cs = Inr agg" "\<forall>x \<in> set cs. fst x = a"
    "d = [] \<or> (\<exists>w. d = [(a, w)] \<and> is_f64 w)"
  shows "agg = [] \<or> (\<exists>w. agg = [(a, w)] \<and> is_f64 w)"
  using assms
proof (induction cs arbitrary: d)
  case (Cons c cs)
  obtain b w where c: "c = (b, w)" by fastforce
  have b: "b = a" and rest: "\<forall>x \<in> set cs. fst x = a" using Cons.prems(2) by (auto simp: c)
  show ?case
  proof (cases "0 < w")
    case True
    with Cons.prems(1) have "aggregate (dset a (fadd (dget d a 0) w) d) cs = Inr agg"
      by (simp add: c b)
    moreover have "dset a (fadd (dget d a 0) w) d = [(a, fadd (dget d a 0) w)]"
      using Cons.prems(3) by auto
    ultimately show ?thesis using rest by (intro Cons.IH) auto
  next
    case False
    with Cons.prems(1) have "aggregate d cs = Inr agg" by (simp add: c split: if_splits)
    then show ?thesis using rest Cons.prems(3) by (rule Cons.IH)
  qed
qed simp

lemma block_minted_single:
  assumes "apply_block W s b cs = Inr s'" "ledger_ok s" "minted s \<le> MAX_SUPPLY"
    "\<forall>x \<in> set cs. fst x = a"
  shows "minted s' \<le> MAX_SUPPLY"
proof -
  from assms(1) obtain ns1 agg where
    t: "apply_txs W (mature_unbonding (block_height b) s) (bk_txs b) (block_height b) = Inr ns1"
    and agg: "aggregate [] cs = Inr agg"
    and s': "minted s' = minted (let ns2 = upgrade_step ns1 (hd_protocol_version (bk_header b)) (block_height b);
               reward = block_reward ns2 (hd_reward (bk_header b))
           in (if 0 < fsum (dvalues agg) \<and> 0 < reward
               then split_reward ns2 reward (fsum (dvalues agg)) agg else ns2))"
    by (rule apply_block_Inr) (auto simp: Let_def)
  define ns2 where "ns2 = upgrade_step ns1 (hd_protocol_version (bk_header b)) (block_height b)"
  have ok: "ledger_ok ns2"
    using apply_txs_ok [OF t mature_unbonding_ok [OF assms(2)]] by (simp add: ns2_def)
  have m: "minted ns2 \<le> MAX_SUPPLY"
    using apply_txs_minted [OF t] assms(3) by (simp add: ns2_def)
  from aggregate_single [OF agg assms(4)] consider "agg = []" | w where "agg = [(a, w)]" "is_f64 w"
    by auto
  then show ?thesis
  proof cases
    case 1
    with s' m show ?thesis by (simp add: ns2_def fsum_def Let_def)
  next
    case 2
    then have "fsum (dvalues agg) = w" by (simp add: fsum_def fadd_0_left)
    with s' m 2 minted_single [OF ok m, of w] show ?thesis
      by (simp add: ns2_def [symmetric] Let_def)
  qed
qed

subsection \<open>Several contributors\<close>

text \<open>Three contributors of equal weight share the last five units in the last place of the cap:
  each share of 5/3 units is credited as two.\<close>

definition cap_state :: nstate where
  "cap_state = (new_state [] False False)\<lparr>minted := MAX_SUPPLY - 5 / 4194304\<rparr>"

definition cap_block :: block where
  "cap_block = (genesis_block [])\<lparr>bk_header := (bk_header (genesis_block []))
     \<lparr>hd_height := 1, hd_reward := 5 / 4194304\<rparr>\<rparr>"

definition cap_contributors :: "(addr, rat) pydict" where
  "cap_contributors = [(''a'', 1), (''b'', 1), (''c'', 1)]"

lemma cap_arithmetic:
  "fadd 0 1 = 1" "fadd 1 1 = 2" "fadd 2 1 = 3"
  "fsub MAX_SUPPLY (MAX_SUPPLY - 5 / 4194304) = 5 / 4194304"
  "fdiv 1 3 = 6004799503160661 / 18014398509481984"
  "fmul (5 / 4194304) (6004799503160661 / 18014398509481984) = 7505999378950826 / 4503599627370496 / 4194304"
  "fadd (MAX_SUPPLY - 5 / 4194304) (7505999378950826 / 4503599627370496 / 4194304) = MAX_SUPPLY - 3 / 4194304"
  "fadd (MAX_SUPPLY - 3 / 4194304) (7505999378950826 / 4503599627370496 / 4194304) = MAX_SUPPLY - 1 / 4194304"
  "fadd (MAX_SUPPLY - 1 / 4194304) (7505999378950826 / 4503599627370496 / 4194304) = MAX_SUPPLY + 1 / 4194304"
  by code_simp+

lemma cap_block_parts:
  "block_reward cap_state (5 / 4194304) = 5 / 4194304"
  "aggregate [] cap_contributors = Inr cap_contributors"
  "fsum (dvalues cap_contributors) = 3"
  by (simp_all add: block_reward_def cap_state_def cap_contributors_def fsum_def dget_def cap_arithmetic)

lemma cap_order: "sort_key fst cap_contributors = cap_contributors"
  by (simp add: cap_contributors_def)

lemma cap_split:
  "minted (split_reward cap_state (5 / 4194304) 3 cap_contributors) = MAX_SUPPLY + 1 / 4194304"
  unfolding split_reward_def cap_order using cap_arithmetic(7-9)
  by (simp add: cap_arithmetic(5,6) credit_reward_def cap_state_def cap_contributors_def)

lemma cap_block_quiet:
  "mature_unbonding h cap_state = cap_state" "upgrade_step cap_state GENESIS_VERSION h = cap_state"
  by (simp_all add: mature_unbonding_def upgrade_step_def cap_state_def new_state_def)

lemma cap_block_mints:
  obtains s' where "apply_block W cap_state cap_block cap_contributors = Inr s'"
    "minted s' = MAX_SUPPLY + 1 / 4194304"
proof -
  have h: "hd_height (bk_header cap_block) = 1" "hd_reward (bk_header cap_block) = 5 / 4194304"
    "bk_txs cap_block = []" "hd_protocol_version (bk_header cap_block) = GENESIS_VERSION"
    "hd_tx_root (bk_header cap_block) = replicate 64 CHR ''0''"
    by (simp_all add: cap_block_def genesis_block_def)
  obtain s' where "apply_block W cap_state cap_block cap_contributors = Inr s'"
    "minted s' = minted (split_reward cap_state (5 / 4194304) 3 cap_contributors)"
    by (simp add: apply_block_def h tx_root_def cap_block_parts cap_block_quiet Let_def)
  then show thesis using that by (simp add: cap_split)
qed

end
