(* ===== verification/Ledger_Policy.thy ===== *)
theory Ledger_Policy
  imports Ledger_Cap
begin

text \<open>
  The self-adjusting parts of the chain: the difficulty retarget and its bounds, the upgrade
  campaign, and the dictionary a state is stored in.
\<close>

subsection \<open>Retarget bounds\<close>

definition retarget_ok :: "nstate \<Rightarrow> bool" where
  "retarget_ok s \<longleftrightarrow> WORK_FLOOR_MIN_UNITS \<le> work_floor_q s \<and> work_floor_q s \<le> WORK_FLOOR_MAX_UNITS
     \<and> WORK_FLOOR_MIN_UNITS \<le> work_ewma_q s \<and> length (ts_ring s) \<le> MTP_WINDOW"

lemma work_sample_pos: "WORK_FLOOR_MIN_UNITS \<le> work_sample score"
  by (simp add: work_sample_def)

lemma next_ewma_pos:
  assumes "1 \<le> ewma" "1 \<le> sample"
  shows "1 \<le> next_ewma ewma sample"
proof -
  have "(1 - ewma) * WORK_EWMA_NUM div WORK_EWMA_DEN \<le> (sample - ewma) * WORK_EWMA_NUM div WORK_EWMA_DEN"
    using assms by (intro zdiv_mono1 mult_right_mono) (auto simp: WORK_EWMA_NUM_def WORK_EWMA_DEN_def)
  moreover have "1 - ewma \<le> (1 - ewma) * WORK_EWMA_NUM div WORK_EWMA_DEN"
    using assms by (simp add: WORK_EWMA_NUM_def WORK_EWMA_DEN_def)
  ultimately show ?thesis by (simp add: next_ewma_def)
qed

lemma next_floor_bounds:
  "WORK_FLOOR_MIN_UNITS \<le> next_floor floor_q raw ewma" "next_floor floor_q raw ewma \<le> WORK_FLOOR_MAX_UNITS"
  "next_floor floor_q raw ewma \<le> max WORK_FLOOR_MIN_UNITS (ewma * OBSERVED_WORK_CEIL_NUM div OBSERVED_WORK_CEIL_DEN)"
  by (auto simp: next_floor_def Let_def WORK_FLOOR_MIN_UNITS_def WORK_FLOOR_MAX_UNITS_def)

lemma clamp_timespan_bounds:
  "TARGET_TIMESPAN div 4 \<le> clamp_timespan raw" "clamp_timespan raw \<le> TARGET_TIMESPAN * 4"
  by (auto simp: clamp_timespan_def Let_def RETARGET_CLAMP_NUM_def TARGET_TIMESPAN_def TARGET_BLOCK_TIME_def
      RETARGET_WINDOW_def)

lemma next_floor_growth:
  assumes "1 \<le> floor_q"
  shows "next_floor floor_q raw ewma \<le> 4 * floor_q"
proof -
  let ?ts = "clamp_timespan raw"
  have ts: "TARGET_TIMESPAN \<le> 4 * ?ts" "0 < ?ts"
    using clamp_timespan_bounds(1) [of raw]
    by (auto simp: TARGET_TIMESPAN_def TARGET_BLOCK_TIME_def RETARGET_WINDOW_def)
  have "floor_q * TARGET_TIMESPAN \<le> floor_q * (4 * ?ts)"
    using assms ts by (intro mult_left_mono) auto
  then have "floor_q * TARGET_TIMESPAN div ?ts \<le> (4 * floor_q) * ?ts div ?ts"
    using ts by (intro zdiv_mono1) (auto simp: ac_simps)
  then have "floor_q * TARGET_TIMESPAN div ?ts \<le> 4 * floor_q" using ts by simp
  then show ?thesis
    using assms by (auto simp: next_floor_def Let_def WORK_FLOOR_MIN_UNITS_def)
qed

lemma push_ring_length: "length (push_ring ring t) \<le> MTP_WINDOW"
  by (simp add: push_ring_def Let_def)

lemma fold_retarget_ok:
  assumes "retarget_ok s" "retarget_ok ns"
  shows "retarget_ok (fold_retarget s ns h t score)"
proof -
  have e: "1 \<le> next_ewma (work_ewma_q s) (work_sample score)"
    using assms(1) work_sample_pos [of score]
    by (intro next_ewma_pos) (auto simp: retarget_ok_def WORK_FLOOR_MIN_UNITS_def)
  show ?thesis
    using assms e next_floor_bounds(1,2) push_ring_length
    by (auto simp: fold_retarget_def Let_def retarget_ok_def WORK_FLOOR_MIN_UNITS_def)
qed

subsection \<open>What transactions leave alone\<close>

definition same_policy :: "nstate \<Rightarrow> nstate \<Rightarrow> bool" where
  "same_policy s s' \<longleftrightarrow> pending_activation s' = pending_activation s \<and> upgrade_streak s' = upgrade_streak s
     \<and> protocol_version s' = protocol_version s \<and> work_floor_q s' = work_floor_q s
     \<and> work_ewma_q s' = work_ewma_q s \<and> ts_ring s' = ts_ring s
     \<and> set (upgrade_signals s) \<subseteq> set (upgrade_signals s')"

lemma same_policy_refl [simp]: "same_policy s s"
  by (simp add: same_policy_def)

lemma same_policy_trans: "same_policy s t \<Longrightarrow> same_policy t u \<Longrightarrow> same_policy s u"
  by (auto simp: same_policy_def)

lemma seize_policy: "seize s a amount = (sz, s') \<Longrightarrow> same_policy s s'"
  by (auto simp: seize_def seize_bond_def set_unbonding_def Let_def same_policy_def
      split: prod.splits if_splits)

lemma punish_policy:
  assumes "punish W s t offender fault = (out, s')"
  shows "same_policy s s'"
proof -
  obtain bond s1 where z: "seize s offender None = (bond, s1)" by fastforce
  have s': "s' = snd (punish W s t offender fault)" using assms by simp
  show ?thesis unfolding s' using seize_policy [OF z]
    by (simp add: punish_def z Let_def same_policy_def credit_def)
qed

lemma apply_tx_policy:
  assumes "apply_tx W s t h = (out, s')"
  shows "same_policy s s'"
proof (cases "\<exists>r. out = Applied r")
  case True
  then obtain r where "apply_tx W s t h = (Applied r, s')" using assms by blast
  then obtain a where d: "(case tx_kind t of Transfer \<Rightarrow> apply_transfer s t a | Stake \<Rightarrow> apply_stake s t a
        | UpgradeSignal \<Rightarrow> apply_upgrade_signal s t | Unstake \<Rightarrow> apply_unstake s t a h
        | Slash \<Rightarrow> apply_slash W s t) = (Applied r, s')"
    by (rule apply_tx_dispatch)
  show ?thesis
  proof (cases "tx_kind t")
    case Transfer
    with d show ?thesis by (auto simp: apply_transfer_Applied bump_nonce_def debit_def credit_def same_policy_def)
  next
    case Stake
    with d show ?thesis by (simp add: apply_stake_Applied bump_nonce_def debit_def same_policy_def)
  next
    case Unstake
    with d show ?thesis by (simp add: apply_unstake_Applied bump_nonce_def queue_unbonding_def same_policy_def)
  next
    case UpgradeSignal
    with d have "apply_upgrade_signal s t = (Applied r, s')" by simp
    from apply_upgrade_signal_Applied [OF this] show ?thesis by (auto simp: bump_nonce_def same_policy_def)
  next
    case Slash
    with d have "apply_slash W s t = (Applied r, s')" by simp
    from apply_slash_Applied [OF this] show ?thesis by (auto dest: punish_policy)
  qed
next
  case False
  with apply_tx_unchanged [OF assms] show ?thesis by auto
qed

lemma apply_txs_policy: "apply_txs W s ts h = Inr s' \<Longrightarrow> same_policy s s'"
proof (induction ts arbitrary: s)
  case (Cons t ts)
  then show ?case
    by (auto dest!: apply_tx_policy split: prod.splits tx_outcome.splits intro: same_policy_trans)
qed simp

lemma mature_policy: "same_policy s (mature_unbonding h s)"
proof -
  have addr: "same_policy st (mature_addr h st a)" for st a
  proof -
    have c: "same_policy st (credit st a x)" for st x by (simp add: same_policy_def credit_def)
    have "same_policy st (release_due h st a es)" for es
    proof (induction es arbitrary: st)
      case (Cons e es)
      then show ?case by (cases e) (simp add: same_policy_trans [OF c Cons.IH])
    qed simp
    then show ?thesis by (simp add: mature_addr_def set_unbonding_def Let_def same_policy_def)
  qed
  have "same_policy s (foldl (mature_addr h) s as)" for as
    by (induction as arbitrary: s) (auto intro: same_policy_trans addr)
  then show ?thesis by (simp add: mature_unbonding_def)
qed

subsection \<open>The upgrade campaign\<close>

text \<open>\<open>supermajority\<close>: the signalled stake is two thirds of the stake, as the code computes it.\<close>

definition supermajority :: "nstate \<Rightarrow> bool" where
  "supermajority s \<longleftrightarrow> 0 < fsum (dvalues (staked s))
     \<and> fmul (fsum (dvalues (staked s))) UPGRADE_THRESHOLD_NUM
       \<le> fmul (upgrade_signaled_stake s) UPGRADE_THRESHOLD_DEN"

lemma upgrade_step_campaign:
  assumes "hv \<le> protocol_version s" "pending_activation s = None"
  shows "pending_activation (upgrade_step s hv h) = Some p \<Longrightarrow>
      p = h + UPGRADE_ACTIVATION_DELAY \<and> supermajority s \<and> UPGRADE_WINDOW \<le> upgrade_streak s + 1"
    "upgrade_streak (upgrade_step s hv h) = (if upgrade_signals s = [] then upgrade_streak s
       else if supermajority s then upgrade_streak s + 1 else 0)"
  using assms
  by (auto simp: upgrade_step_def Let_def supermajority_def UPGRADE_WINDOW_def
      upgrade_signaled_stake_def split: if_splits)

lemma apply_block_policy:
  assumes "apply_block W s b cs = Inr s'"
  obtains ns1 where "same_policy s ns1"
    "staked s' = staked ns1" "upgrade_signals s' = upgrade_signals (upgrade_step ns1 (hd_protocol_version (bk_header b)) (block_height b))"
    "pending_activation s' = pending_activation (upgrade_step ns1 (hd_protocol_version (bk_header b)) (block_height b))"
    "upgrade_streak s' = upgrade_streak (upgrade_step ns1 (hd_protocol_version (bk_header b)) (block_height b))"
    "protocol_version s' = max (protocol_version s) (hd_protocol_version (bk_header b))"
  using assms
proof (rule apply_block_Inr)
  fix ns1 agg
  assume t: "apply_txs W (mature_unbonding (block_height b) s) (bk_txs b) (block_height b) = Inr ns1"
    and s': "s' = (let ns2 = upgrade_step ns1 (hd_protocol_version (bk_header b)) (block_height b);
               reward = block_reward ns2 (hd_reward (bk_header b));
               ns3 = (if 0 < fsum (dvalues agg) \<and> 0 < reward
                      then split_reward ns2 reward (fsum (dvalues agg)) agg else ns2)
           in fold_retarget s (ns3\<lparr>model_checkpoint := hd_new_checkpoint (bk_header b)\<rparr>) (block_height b)
                (hd_timestamp (bk_header b)) (max 0 (hd_work_score (bk_header b))))"
  have p: "same_policy s ns1" using mature_policy apply_txs_policy [OF t] by (rule same_policy_trans)
  have v: "protocol_version (upgrade_step ns1 v h) = max (protocol_version s) v" for v h
    using p by (auto simp: upgrade_step_def Let_def same_policy_def)
  show thesis by (rule that [OF p]) (simp_all add: s' Let_def v)
qed

definition campaign_ok :: "nstate \<Rightarrow> bool" where
  "campaign_ok s \<longleftrightarrow> 0 \<le> upgrade_streak s \<and> (upgrade_signals s = [] \<longrightarrow> upgrade_streak s = 0)"

lemma supermajority_cong:
  "staked s' = staked s \<Longrightarrow> upgrade_signals s' = upgrade_signals s \<Longrightarrow> supermajority s' = supermajority s"
  by (simp add: supermajority_def upgrade_signaled_stake_def)

lemma block_campaign:
  assumes "apply_block W s b cs = Inr s'" "campaign_ok s"
  shows "campaign_ok s'"
    "pending_activation s' = None \<Longrightarrow> 0 < upgrade_streak s' \<Longrightarrow>
       pending_activation s = None \<and> supermajority s' \<and> upgrade_streak s' = upgrade_streak s + 1"
    "pending_activation s = None \<Longrightarrow> pending_activation s' = Some p \<Longrightarrow>
       p = block_height b + UPGRADE_ACTIVATION_DELAY \<and> supermajority s'
       \<and> UPGRADE_WINDOW \<le> upgrade_streak s + 1"
proof -
  obtain ns1 where p: "same_policy s ns1"
    and st: "staked s' = staked ns1"
    and sg: "upgrade_signals s' = upgrade_signals (upgrade_step ns1 (hd_protocol_version (bk_header b)) (block_height b))"
    and pe: "pending_activation s' = pending_activation (upgrade_step ns1 (hd_protocol_version (bk_header b)) (block_height b))"
    and sk: "upgrade_streak s' = upgrade_streak (upgrade_step ns1 (hd_protocol_version (bk_header b)) (block_height b))"
    using assms(1) by (rule apply_block_policy)
  let ?v = "hd_protocol_version (bk_header b)" and ?h = "block_height b"
  have keep: "upgrade_signals s' = upgrade_signals ns1" if "?v \<le> protocol_version ns1"
    using that by (simp add: sg upgrade_step_def Let_def)
  have c: "campaign_ok ns1" using p assms(2) by (auto simp: campaign_ok_def same_policy_def)
  have sm: "supermajority s' = supermajority ns1" if "?v \<le> protocol_version ns1"
    using st keep [OF that] by (rule supermajority_cong)
  show "campaign_ok s'"
    using c by (auto simp: campaign_ok_def sg sk upgrade_step_def Let_def)
  show "pending_activation s = None \<and> supermajority s' \<and> upgrade_streak s' = upgrade_streak s + 1"
    if "pending_activation s' = None" "0 < upgrade_streak s'"
  proof -
    have v: "?v \<le> protocol_version ns1" using that(2) by (auto simp: sk upgrade_step_def split: if_splits)
    have n: "pending_activation ns1 = None" using that(1) v by (cases "pending_activation ns1") (auto simp: pe upgrade_step_def)
    have "upgrade_signals ns1 \<noteq> []"
      using that(2) c upgrade_step_campaign(2) [OF v n, of ?h] by (auto simp: sk campaign_ok_def)
    then show ?thesis
      using upgrade_step_campaign(2) [OF v n, of ?h] that(2) n p sm [OF v]
      by (auto simp: sk same_policy_def split: if_splits)
  qed
  show "p = ?h + UPGRADE_ACTIVATION_DELAY \<and> supermajority s' \<and> UPGRADE_WINDOW \<le> upgrade_streak s + 1"
    if "pending_activation s = None" "pending_activation s' = Some p"
  proof -
    have v: "?v \<le> protocol_version ns1" using that(2) by (auto simp: pe upgrade_step_def split: if_splits)
    have n: "pending_activation ns1 = None" using that(1) p by (simp add: same_policy_def)
    from upgrade_step_campaign(1) [OF v n, of ?h p] that(2) sm [OF v] p show ?thesis
      by (simp add: pe same_policy_def)
  qed
qed

lemma lock_in_history:
  assumes "campaign_ok s0" "apply_block W s0 b1 cs1 = Inr s1" "apply_block W s1 b2 cs2 = Inr s2"
    "apply_block W s2 b3 cs3 = Inr s3" "pending_activation s2 = None" "pending_activation s3 = Some p"
  shows "p = block_height b3 + 3 \<and> supermajority s1 \<and> supermajority s2 \<and> supermajority s3"
proof -
  note c1 = block_campaign(1) [OF assms(2,1)]
  note c2 = block_campaign(1) [OF assms(3) c1]
  from block_campaign(3) [OF assms(4) c2 assms(5,6)]
  have 3: "p = block_height b3 + 3" "supermajority s3" "2 \<le> upgrade_streak s2"
    by (auto simp: UPGRADE_ACTIVATION_DELAY_def UPGRADE_WINDOW_def)
  from block_campaign(2) [OF assms(3) c1 assms(5)] 3(3)
  have 2: "pending_activation s1 = None" "supermajority s2" "1 \<le> upgrade_streak s1" by auto
  from block_campaign(2) [OF assms(2,1) 2(1)] 2(3) have "supermajority s1" by auto
  with 2 3 show ?thesis by simp
qed

subsection \<open>The stored state\<close>

text \<open>Every getter of the dictionary, then the round trip.\<close>

lemma state_dict_getters:
  "get_or (state_to_dict s) ''model_checkpoint'' v = JStr (model_checkpoint s)"
  "get_or (state_to_dict s) ''bal'' v = map_dict (\<lambda>v. JNum (Fin v)) (bal s)"
  "get_or (state_to_dict s) ''staked'' v = map_dict (\<lambda>v. JNum (Fin v)) (staked s)"
  "get_or (state_to_dict s) ''treasury'' v = JNum (Fin (treasury s))"
  "get_or (state_to_dict s) ''minted'' v = JNum (Fin (minted s))"
  "get_or (state_to_dict s) ''nonces'' v = map_dict JInt (nonces s)"
  "get_or (state_to_dict s) ''keys'' v = map_dict JStr (keys s)"
  "get_or (state_to_dict s) ''slashed_faults'' v = faults_list (slashed_faults s)"
  "get_or (state_to_dict s) ''unbonding'' v = map_dict entries_to_json (unbonding s)"
  "get_or (state_to_dict s) ''protocol_version'' v = JInt (protocol_version s)"
  "get_or (state_to_dict s) ''upgrade_signals'' v = JList (map JStr (sort (upgrade_signals s)))"
  "get_or (state_to_dict s) ''upgrade_streak'' v = JInt (upgrade_streak s)"
  "get_or (state_to_dict s) ''pending_activation'' v = opt_int_json (pending_activation s)"
  "get_or (state_to_dict s) ''work_floor_q'' v = JInt (work_floor_q s)"
  "get_or (state_to_dict s) ''retarget_anchor_ts'' v = JInt (retarget_anchor_ts s)"
  "get_or (state_to_dict s) ''retarget_anchor_h'' v = JInt (retarget_anchor_h s)"
  "get_or (state_to_dict s) ''last_block_ts'' v = JInt (last_block_ts s)"
  "get_or (state_to_dict s) ''work_ewma_q'' v = JInt (work_ewma_q s)"
  "get_or (state_to_dict s) ''ts_ring'' v = JList (map JInt (ts_ring s))"
  "get_or (state_to_dict s) ''require_tx_signatures'' v = JBool (require_tx_signatures s)"
  "get_or (state_to_dict s) ''retarget_enabled'' v = JBool (retarget_enabled s)"
  by (simp_all add: state_to_dict_def retarget_dict_def)

lemma dict_of_map_dict:
  assumes "\<And>v. dec (f v) = Inr v"
  shows "dict_of dec (map_dict f d) = Inr d"
  by (induction d) (auto simp: dict_of_def map_dict_def assms)

lemma list_of_map:
  assumes "\<And>v. dec (f v) = Inr v"
  shows "list_of dec (JList (map f xs)) = Inr xs"
  by (induction xs) (auto simp: list_of_def assms)

lemma entries_roundtrip: "list_of entry_of (entries_to_json es) = Inr es"
  unfolding entries_to_json_def by (rule list_of_map) (auto simp: entry_of_def)

lemma opt_int_roundtrip: "opt_int_of (opt_int_json x) = Inr x"
  by (cases x) (simp_all add: opt_int_of_def opt_int_json_def)

lemma state_roundtrip_general:
  assumes "finite (slashed_faults s)" "distinct (upgrade_signals s)"
  shows "state_from_dict (state_to_dict s) = Inr (s\<lparr>upgrade_signals := sort (upgrade_signals s)\<rparr>)"
  using assms
  by (simp add: state_from_dict_def state_dict_getters dict_of_map_dict list_of_map
      entries_roundtrip opt_int_roundtrip faults_list_def distinct_remdups_id)

end
