(* ===== verification/Ledger_Drift.thy ===== *)
theory Ledger_Drift
  imports Ledger_Supply
begin

text \<open>
  Conservation of the supply for arbitrary transactions, slashes with a paid reporter included. A bounty
  is a tenth of a bond and leaves every grid, so float sums are rounded; the supply of a run drifts by at
  most one unit in the last place for every rounding, and what an offender loses, its reporter and the
  treasury get.
\<close>

subsection \<open>One rounding\<close>

definition ulp :: rat where "ulp = 1 / 2 ^ 22"

lemma ulp_pos: "0 < ulp" "0 \<le> ulp" "ulp \<le> 1"
  by (simp_all add: ulp_def)

lemma limits: "(2::rat) ^ 31 = 2147483648" "(2::rat) ^ 32 = 4294967296"
  by simp_all

lemma rnd_drift: "\<bar>x\<bar> < 2 ^ 32 \<Longrightarrow> \<bar>rnd64 x - x\<bar> \<le> ulp"
  using rnd64_error_below [of x 32] by (simp add: ulp_def power_int_def field_simps)

lemma fadd_drift: "\<bar>x + y\<bar> < 2 ^ 32 \<Longrightarrow> \<bar>fadd x y - (x + y)\<bar> \<le> ulp"
  unfolding fadd_def by (rule rnd_drift)

lemma fsub_drift: "\<bar>x - y\<bar> < 2 ^ 32 \<Longrightarrow> \<bar>fsub x y - (x - y)\<bar> \<le> ulp"
  unfolding fsub_def by (rule rnd_drift)

lemma foldl_drift:
  assumes "list_all ((\<le>) 0) xs" "0 \<le> x" "x + sum_list xs + of_nat (length xs) * ulp < 2 ^ 32"
  shows "\<bar>foldl fadd x xs - (x + sum_list xs)\<bar> \<le> of_nat (length xs) * ulp"
  using assms
proof (induction xs arbitrary: x)
  case (Cons y ys)
  have nn: "0 \<le> y" "list_all ((\<le>) 0) ys" "0 \<le> sum_list ys" using Cons.prems(1) by (auto intro: sum_list_nonneg simp: list_all_iff)
  have n: "0 \<le> of_nat (length ys) * ulp" using ulp_pos by simp
  have lim: "x + y + sum_list ys + of_nat (length ys) * ulp + ulp < 2 ^ 32" using Cons.prems(3) by (simp add: algebra_simps)
  have step: "\<bar>fadd x y - (x + y)\<bar> \<le> ulp" using nn n lim Cons.prems(2) ulp_pos by (intro fadd_drift) linarith
  then have "\<bar>foldl fadd (fadd x y) ys - (fadd x y + sum_list ys)\<bar> \<le> of_nat (length ys) * ulp"
    using Cons.prems(2) nn lim by (intro Cons.IH fadd_nonneg) linarith+
  then show ?case using step by (simp add: algebra_simps)
qed simp

subsection \<open>The elementary moves\<close>

lemma credit_drift:
  assumes "ledger_ok s" "0 \<le> amt" "liquid s + amt < 2 ^ 32"
  shows "\<bar>total_supply (credit s a amt) - (total_supply s + amt)\<bar> \<le> ulp"
proof -
  have "0 \<le> balance s a" "balance s a \<le> liquid s" using assms(1) supply_bounds(1) by (simp_all add: ledger_okD)
  then have "\<bar>fadd (balance s a) amt - (balance s a + amt)\<bar> \<le> ulp" using assms(2,3) by (intro fadd_drift) linarith
  then show ?thesis by (simp add: total_supply_def liquid_def locked_def credit_def dsum_id_dset balance_def)
qed

lemma debit_drift:
  assumes "ledger_ok s" "0 \<le> amt" "amt \<le> balance s a" "liquid s < 2 ^ 32"
  shows "\<bar>total_supply (debit s a amt) - (total_supply s - amt)\<bar> \<le> ulp"
proof -
  have "balance s a \<le> liquid s" using supply_bounds(1) [OF assms(1)] .
  then have "\<bar>fsub (balance s a) amt - (balance s a - amt)\<bar> \<le> ulp" using assms(2-4) by (intro fsub_drift) linarith
  then show ?thesis by (simp add: total_supply_def liquid_def locked_def debit_def dsum_id_dset balance_def)
qed

lemma stake_drift:
  assumes "ledger_ok s" "0 \<le> amt" "liquid s + amt < 2 ^ 32"
  shows "\<bar>total_supply (s\<lparr>staked := dset a (fadd (stake_of s a) amt) (staked s)\<rparr>) - (total_supply s + amt)\<bar> \<le> ulp"
proof -
  have "0 \<le> stake_of s a" "stake_of s a \<le> liquid s" using assms(1) supply_bounds(2) by (simp_all add: ledger_okD)
  then have "\<bar>fadd (stake_of s a) amt - (stake_of s a + amt)\<bar> \<le> ulp" using assms(2,3) by (intro fadd_drift) linarith
  then show ?thesis by (simp add: total_supply_def liquid_def locked_def dsum_id_dset stake_of_def)
qed

lemma queue_drift:
  assumes "ledger_ok s" "0 \<le> amt" "amt \<le> stake_of s a" "liquid s < 2 ^ 32"
  shows "\<bar>total_supply (queue_unbonding s a amt rel) - total_supply s\<bar> \<le> ulp"
proof -
  have "stake_of s a \<le> liquid s" using supply_bounds(2) [OF assms(1)] .
  then have "\<bar>fsub (stake_of s a) amt - (stake_of s a - amt)\<bar> \<le> ulp" using assms(2-4) by (intro fsub_drift) linarith
  then show ?thesis
    by (simp add: total_supply_def liquid_def locked_def queue_unbonding_def dsum_id_dset dsum_entries_dset stake_of_def)
qed

lemma supply_frame_drift [simp]:
  "total_supply (bump_nonce s t) = total_supply s" "total_supply (s\<lparr>upgrade_signals := u\<rparr>) = total_supply s"
  by (simp_all add: total_supply_def)

subsection \<open>Slashes\<close>

lemma amounts_order: "amounts_ok (release_order es) = amounts_ok es" "length (release_order es) = length es"
  by (simp_all add: amounts_ok_def list_all_iff release_order_def)

lemma seize_drift:
  assumes "seize s a None = (bond, s1)" "ledger_ok s" "total_supply s + of_nat (length (dget (unbonding s) a []) + 1) * ulp < 2 ^ 32"
  shows "\<bar>total_supply s1 + bond - total_supply s\<bar> \<le> of_nat (length (dget (unbonding s) a []) + 1) * ulp"
proof -
  define st where "st = stake_of s a"
  define es where "es = dget (unbonding s) a []"
  note b = supply_bounds [OF assms(2)]
  have st: "0 \<le> st" "st \<le> liquid s" using b(2) assms(2) by (auto simp: st_def ledger_okD)
  have es: "amounts_ok es" "entries_total es \<le> locked s" "0 \<le> entries_total es"
    using b(4) assms(2) by (auto simp: es_def ledger_okD entries_total_nonneg)
  have lim: "st + entries_total es + of_nat (length es) * ulp + ulp < 2 ^ 32"
    using assms(3) st es by (simp add: es_def total_supply_def algebra_simps)
  have n: "0 \<le> of_nat (length es) * ulp" using ulp_pos by simp
  define x where "x = (if 0 < st then fadd 0 st else 0)"
  have "st < 2 ^ 32" using lim es n ulp_pos by linarith
  then have x: "0 \<le> x" "\<bar>x - st\<bar> \<le> ulp" using st ulp_pos fadd_drift [of 0 st] by (auto simp: x_def fadd_nonneg)
  define s0 where "s0 = (if 0 < st then s\<lparr>staked := dset a 0 (staked s)\<rparr> else s)"
  have bond0: "seize_bond s a None = (x, None, s0)"
    using st by (auto simp: seize_bond_def Let_def s0_def x_def st_def stake_of_def)
  have d: "distinct (dkeys (unbonding s))" using assms(2) by (simp add: ledger_ok_def)
  have s0: "total_supply s0 = total_supply s - st" "unbonding s0 = unbonding s"
    using st by (auto simp: s0_def total_supply_def liquid_def locked_def dsum_id_dset st_def stake_of_def)
  have nn: "list_all ((\<le>) 0) (map fst (release_order es))"
    using es(1) amounts_order(1) [of es] by (auto simp: amounts_ok_def list_all_iff)
  have total: "sum_list (map fst (release_order es)) = entries_total es"
    using entries_total_order [of es] by (simp add: entries_total_def)
  define y where "y = foldl fadd x (map fst (release_order es))"
  have y: "\<bar>y - (x + entries_total es)\<bar> \<le> of_nat (length es) * ulp"
    using foldl_drift [OF nn x(1)] lim x total by (simp add: y_def amounts_order(2))
  have r: "bond = (if es = [] then x else y) \<and> s1 = (if es = [] then s0 else set_unbonding s0 a [])"
    using assms(1) by (auto simp: seize_def bond0 Let_def s0(2) seize_entries_all y_def es_def split: if_splits)
  have rest: "total_supply (set_unbonding s0 a []) = total_supply s0 - entries_total es"
    using d s0(2) by (simp add: total_supply_def liquid_def locked_def set_unbonding_def dsum_entries_dpop es_def)
  show ?thesis
  proof (cases "es = []")
    case True
    then show ?thesis using r s0 x by (simp add: es_def)
  next
    case False
    then have "\<bar>total_supply s1 + bond - total_supply s\<bar> \<le> of_nat (length es) * ulp + ulp"
      using r rest s0 x y by simp
    then show ?thesis by (simp add: es_def algebra_simps)
  qed
qed

lemma punish_drift:
  assumes "punish W s t offender fault = (out, s')" "ledger_ok s" "length (dget (unbonding s) offender []) \<le> m"
    "total_supply s + of_nat (m + 4) * ulp \<le> 2 ^ 31"
  shows "\<bar>total_supply s' - total_supply s\<bar> \<le> of_nat (m + 4) * ulp"
proof -
  obtain bond s1 where z: "seize s offender None = (bond, s1)" by fastforce
  define k where "k = (of_nat (length (dget (unbonding s) offender []) + 1) :: rat) * ulp"
  have k: "k + 3 * ulp \<le> of_nat (m + 4) * ulp" "0 \<le> k" using assms(3) ulp_pos
    by (auto simp: k_def algebra_simps)
  have "total_supply s + k < 2 ^ 32" using k(1) assms(4) ulp_pos unfolding limits by linarith
  then have e1: "\<bar>total_supply s1 + bond - total_supply s\<bar> \<le> k"
    using seize_drift [OF z assms(2)] by (simp add: k_def)
  note ok = seize_ok [OF z assms(2)]
  define bounty where "bounty = (if reporter_bounty_ok W s1 t then fmul bond EQUIVOCATION_BOUNTY_FRAC else 0)"
  have b: "0 \<le> bounty" "bounty \<le> bond" using ok bounty_le [of bond] by (auto simp: bounty_def)
  define s2 where "s2 = (if 0 < bounty then credit s1 (tx_sender t) bounty else s1)"
  have ok2: "ledger_ok s2" using ok b by (auto simp: s2_def intro!: ledger_intros)
  have small: "total_supply s1 + bond < 2 ^ 31 + 1" using e1 k assms(4) ulp_pos unfolding limits by linarith
  note b1 = supply_bounds [OF ok(1)]
  have "liquid s1 + bounty < 2 ^ 32" using small b b1(6) by (simp add: total_supply_def)
  then have e2: "\<bar>total_supply s2 - (total_supply s1 + bounty)\<bar> \<le> ulp"
    using credit_drift [OF ok(1) b(1)] b ulp_pos by (auto simp: s2_def)
  define rest where "rest = fsub bond bounty"
  have "bond < 2 ^ 32" using small b1(5,6) by (simp add: total_supply_def)
  then have e3: "\<bar>rest - (bond - bounty)\<bar> \<le> ulp" unfolding rest_def using b by (intro fsub_drift) simp
  have rest0: "0 \<le> rest" unfolding rest_def using b by (intro fsub_nonneg) simp
  have t2: "0 \<le> treasury s2" "treasury s2 = treasury s1" "treasury s1 \<le> liquid s1"
    using ok2 b1(3) by (auto simp: ledger_okD s2_def credit_def)
  have e4: "\<bar>fadd (treasury s2) rest - (treasury s2 + rest)\<bar> \<le> ulp"
    using t2 rest0 e3 small b b1(6) ulp_pos by (intro fadd_drift) (simp add: total_supply_def)
  have "s' = s2\<lparr>treasury := fadd (treasury s2) rest, slashed_faults := insert fault (slashed_faults s2)\<rparr>"
    using assms(1) by (auto simp: punish_def z bounty_def s2_def rest_def Let_def)
  then have "total_supply s' = total_supply s2 - treasury s2 + fadd (treasury s2) rest"
    by (simp add: total_supply_def liquid_def locked_def)
  then have "\<bar>total_supply s' - total_supply s\<bar> \<le> k + 3 * ulp" using e1 e2 e3 e4 by linarith
  then show ?thesis using k(1) by linarith
qed

subsection \<open>Runs\<close>

definition queue_bound :: "nat \<Rightarrow> nstate \<Rightarrow> bool" where
  "queue_bound m s \<longleftrightarrow> (\<forall>a. length (dget (unbonding s) a []) \<le> m)"

lemma queue_bound_mono: "queue_bound m s \<Longrightarrow> queue_bound (Suc m) s"
  by (auto simp: queue_bound_def le_SucI)

lemma punish_queue:
  assumes "punish W s t offender fault = (out, s')" "queue_bound m s"
  shows "queue_bound m s'"
proof -
  obtain bond s1 where z: "seize s offender None = (bond, s1)" by fastforce
  have "unbonding s' = unbonding s1" using assms(1) by (auto simp: punish_def z Let_def credit_def)
  moreover have "queue_bound m s1" using z assms(2)
    by (auto simp: seize_def seize_bond_def set_unbonding_def queue_bound_def seize_entries_all Let_def dget_dpop split: prod.splits if_splits)
  ultimately show ?thesis by (simp add: queue_bound_def)
qed

lemma apply_tx_drift:
  assumes "apply_tx W s t h = (Applied r, s')" "ledger_ok s" "queue_bound m s" "total_supply s + of_nat (m + 4) * ulp \<le> 2 ^ 31"
  shows "\<bar>total_supply s' - total_supply s\<bar> \<le> of_nat (m + 4) * ulp \<and> queue_bound (Suc m) s'"
proof -
  obtain a where a: "0 \<le> a" and d:
    "(case tx_kind t of Transfer \<Rightarrow> apply_transfer s t a | Stake \<Rightarrow> apply_stake s t a
        | UpgradeSignal \<Rightarrow> apply_upgrade_signal s t | Unstake \<Rightarrow> apply_unstake s t a h
        | Slash \<Rightarrow> apply_slash W s t) = (Applied r, s')"
    using assms(1) by (rule apply_tx_dispatch)
  have two: "2 * ulp \<le> of_nat (m + 4) * ulp" "0 \<le> of_nat (m + 4) * ulp" using ulp_pos by (auto simp: algebra_simps)
  note b = supply_bounds [OF assms(2)]
  have lq: "liquid s \<le> 2 ^ 31" using b(6) assms(4) two by (simp add: total_supply_def)
  have grow: "queue_bound (Suc m) s" using assms(3) by (rule queue_bound_mono)
  show ?thesis
  proof (cases "tx_kind t")
    case Transfer
    with d obtain to where le: "a \<le> balance s (tx_sender t)"
      and s': "s' = bump_nonce (credit (debit s (tx_sender t) a) to a) t" by (auto simp: apply_transfer_Applied)
    let ?s = "debit s (tx_sender t) a"
    have e1: "\<bar>total_supply ?s - (total_supply s - a)\<bar> \<le> ulp" using assms(2) a le lq by (intro debit_drift) auto
    have ok: "ledger_ok ?s" using assms(2) le by (intro debit_ok)
    have "liquid ?s + a < 2 ^ 32" 
      using e1 supply_bounds(6) [OF ok] assms(4) two ulp_pos unfolding limits total_supply_def by linarith
    then have e2: "\<bar>total_supply (credit ?s to a) - (total_supply ?s + a)\<bar> \<le> ulp" using ok a by (intro credit_drift)
    have "\<bar>total_supply s' - total_supply s\<bar> \<le> 2 * ulp" using e1 e2 by (simp add: s')
    then show ?thesis using two grow by (simp add: s' queue_bound_def bump_nonce_def credit_def debit_def)
  next
    case Stake
    with d have le: "a \<le> balance s (tx_sender t)"
      and s': "s' = bump_nonce ((debit s (tx_sender t) a)\<lparr>staked :=
               dset (tx_sender t) (fadd (stake_of s (tx_sender t)) a) (staked s)\<rparr>) t"
      by (auto simp: apply_stake_Applied)
    let ?s = "debit s (tx_sender t) a"
    have e1: "\<bar>total_supply ?s - (total_supply s - a)\<bar> \<le> ulp" using assms(2) a le lq by (intro debit_drift) auto
    have ok: "ledger_ok ?s" using assms(2) le by (intro debit_ok)
    have "liquid ?s + a < 2 ^ 32" 
      using e1 supply_bounds(6) [OF ok] assms(4) two ulp_pos unfolding limits total_supply_def by linarith
    then have e2: "\<bar>total_supply (?s\<lparr>staked := dset (tx_sender t) (fadd (stake_of ?s (tx_sender t)) a) (staked ?s)\<rparr>)
        - (total_supply ?s + a)\<bar> \<le> ulp"
      using ok a by (intro stake_drift)
    have "staked ?s = staked s" "stake_of ?s = stake_of s" by (auto simp: debit_def stake_of_def)
    then have "\<bar>total_supply s' - total_supply s\<bar> \<le> 2 * ulp" using e1 e2 by (simp add: s')
    then show ?thesis using two grow by (simp add: s' queue_bound_def bump_nonce_def debit_def)
  next
    case Unstake
    with d have le: "a \<le> stake_of s (tx_sender t)"
      and s': "s' = bump_nonce (queue_unbonding s (tx_sender t) a (release_height h)) t" by (auto simp: apply_unstake_Applied)
    have "\<bar>total_supply s' - total_supply s\<bar> \<le> ulp" using queue_drift [OF assms(2) a le] lq by (simp add: s')
    moreover have "queue_bound (Suc m) s'" using assms(3) by (auto simp: s' queue_bound_def bump_nonce_def queue_unbonding_def dget_dset le_SucI)
    ultimately show ?thesis using two ulp_pos by linarith
  next
    case UpgradeSignal
    with d have "apply_upgrade_signal s t = (Applied r, s')" by simp
    from apply_upgrade_signal_Applied [OF this] have "total_supply s' = total_supply s" "unbonding s' = unbonding s"
      by (auto simp: total_supply_def liquid_def locked_def bump_nonce_def)
    then show ?thesis using grow two by (simp add: queue_bound_def)
  next
    case Slash
    with d have "apply_slash W s t = (Applied r, s')" by simp
    from apply_slash_Applied [OF this] show ?thesis
    proof (elim disjE exE conjE)
      fix offender fault
      assume p: "punish W s t offender fault = (Applied r, s')"
      have "length (dget (unbonding s) offender []) \<le> m" using assms(3) by (simp add: queue_bound_def)
      from punish_drift [OF p assms(2) this assms(4)] punish_queue [OF p assms(3)] show ?thesis by (simp add: queue_bound_mono)
    qed (use grow two in simp)
  qed
qed

definition roundings :: "nat \<Rightarrow> nat \<Rightarrow> nat" where
  "roundings m n = n * (m + n + 4)"

lemma roundings_Suc: "(m + 4) + roundings (Suc m) n \<le> roundings m (Suc n)"
  by (simp add: roundings_def algebra_simps)

lemma apply_txs_drift:
  assumes "apply_txs W s ts h = Inr s'" "ledger_ok s" "queue_bound m s"
    "total_supply s + of_nat (roundings m (length ts)) * ulp \<le> 2 ^ 31"
  shows "\<bar>total_supply s' - total_supply s\<bar> \<le> of_nat (roundings m (length ts)) * ulp"
  using assms
proof (induction ts arbitrary: s m)
  case (Cons t ts)
  from Cons.prems(1) obtain r s1 where s1: "apply_tx W s t (Some h) = (Applied r, s1)" and rest: "apply_txs W s1 ts h = Inr s'"
    by (auto split: prod.splits tx_outcome.splits)
  let ?x = "of_nat (m + 4) * ulp" and ?y = "of_nat (roundings (Suc m) (length ts)) * ulp"
  have "?x + ?y = of_nat ((m + 4) + roundings (Suc m) (length ts)) * ulp" by (simp add: algebra_simps)
  also have "\<dots> \<le> of_nat (roundings m (length (t # ts))) * ulp"
    using roundings_Suc [of m "length ts"] ulp_pos(2) by (intro mult_right_mono of_nat_mono) simp_all
  finally have sum: "?x + ?y \<le> of_nat (roundings m (length (t # ts))) * ulp" .
  have nn: "0 \<le> ?y" using ulp_pos by simp
  have step: "\<bar>total_supply s1 - total_supply s\<bar> \<le> ?x \<and> queue_bound (Suc m) s1"
    using s1 Cons.prems(2-4) sum nn by (intro apply_tx_drift) auto
  have "\<bar>total_supply s' - total_supply s1\<bar> \<le> ?y"
    using Cons.prems(4) sum step apply_tx_ok [OF s1 Cons.prems(2)] by (intro Cons.IH [OF rest]) auto
  then show ?case using step sum by linarith
qed (simp add: roundings_def)

end
