(* ===== verification/Ledger_Unbonding.thy ===== *)
theory Ledger_Unbonding
  imports Ledger_Security
begin

text \<open>
  What happens to a queued withdrawal while it waits: which addresses a run of transactions and blocks
  slashes, what a slash of an address with queued funds takes, and that without one the entry stays.
\<close>

subsection \<open>Who is slashed\<close>

definition slashed_by :: "tx_outcome \<Rightarrow> addr set" where
  "slashed_by out = (case out of Applied (Slashed v bond bounty) \<Rightarrow> {v} | _ \<Rightarrow> {})"

fun slashed_in :: "world \<Rightarrow> nstate \<Rightarrow> tx list \<Rightarrow> int \<Rightarrow> addr set" where
  "slashed_in W s [] h = {}"
| "slashed_in W s (t # ts) h = slashed_by (fst (apply_tx W s t (Some h))) \<union> slashed_in W (snd (apply_tx W s t (Some h))) ts h"

text \<open>The slashes of a list of blocks, each applied to the state the ones before it leave.\<close>

fun slashed_in_blocks :: "world \<Rightarrow> nstate \<Rightarrow> (block \<times> (addr, rat) pydict) list \<Rightarrow> addr set" where
  "slashed_in_blocks W s [] = {}"
| "slashed_in_blocks W s ((b, cs) # bs) =
     slashed_in W (mature_unbonding (block_height b) s) (bk_txs b) (block_height b)
       \<union> (case apply_block W s b cs of Inl _ \<Rightarrow> {} | Inr s' \<Rightarrow> slashed_in_blocks W s' bs)"

subsection \<open>Entries stay\<close>

definition queued :: "nstate \<Rightarrow> addr \<Rightarrow> rat \<times> int \<Rightarrow> bool" where
  "queued s v e \<longleftrightarrow> e \<in> set (dget (unbonding s) v [])"

lemma queued_frame: "unbonding s' = unbonding s \<Longrightarrow> queued s' v e = queued s v e"
  by (simp add: queued_def)

lemma punish_queued:
  assumes "punish W s t offender fault = (out, s')" "queued s v e" "v \<noteq> offender"
  shows "queued s' v e"
proof -
  obtain bond s1 where z: "seize s offender None = (bond, s1)" by fastforce
  have "unbonding s' = unbonding s1" using assms(1) by (auto simp: punish_def z Let_def)
  moreover have "dget (unbonding s1) v [] = dget (unbonding s) v []"
    by (rule seize_unbonding_get [OF z]) (use assms(3) in simp)
  ultimately show ?thesis using assms(2) by (simp add: queued_def)
qed

lemma apply_tx_queued:
  assumes "apply_tx W s t h = (Applied r, s')" "queued s v e" "v \<notin> slashed_by (Applied r)"
  shows "queued s' v e"
  using assms(1)
proof (rule apply_tx_dispatch)
  fix a assume d: "(case tx_kind t of Transfer \<Rightarrow> apply_transfer s t a | Stake \<Rightarrow> apply_stake s t a
        | UpgradeSignal \<Rightarrow> apply_upgrade_signal s t | Unstake \<Rightarrow> apply_unstake s t a h
        | Slash \<Rightarrow> apply_slash W s t) = (Applied r, s')"
  show ?thesis
  proof (cases "tx_kind t")
    case Unstake
    with d assms(2) show ?thesis
      by (auto simp: apply_unstake_Applied queued_def bump_nonce_def queue_unbonding_def dget_dset)
  next
    case Slash
    with d have "apply_slash W s t = (Applied r, s')" by simp
    from apply_slash_Applied [OF this] show ?thesis
    proof (elim disjE exE conjE)
      fix offender fault assume p: "punish W s t offender fault = (Applied r, s')"
      have "v \<noteq> offender" using assms(3) punish_fst [of W s t offender fault] p by (auto simp: slashed_by_def)
      then show ?thesis using punish_queued [OF p assms(2)] by simp
    qed (use assms(2) in simp)
  next
    case UpgradeSignal
    with d have "apply_upgrade_signal s t = (Applied r, s')" by simp
    from apply_upgrade_signal_Applied [OF this] assms(2) show ?thesis by (simp add: queued_def bump_nonce_def)
  next
    case Transfer
    with d assms(2) show ?thesis by (auto simp: apply_transfer_Applied queued_def bump_nonce_def debit_def credit_def)
  next
    case Stake
    with d assms(2) show ?thesis by (auto simp: apply_stake_Applied queued_def bump_nonce_def debit_def)
  qed
qed

lemma apply_txs_queued:
  "apply_txs W s ts h = Inr s' \<Longrightarrow> queued s v e \<Longrightarrow> v \<notin> slashed_in W s ts h \<Longrightarrow> queued s' v e"
proof (induction ts arbitrary: s)
  case (Cons t ts)
  then show ?case by (auto split: prod.splits tx_outcome.splits intro: apply_tx_queued)
qed simp

lemma mature_queued: "queued s v (a, rel) \<Longrightarrow> h < rel \<Longrightarrow> queued (mature_unbonding h s) v (a, rel)"
  by (simp add: queued_def mature_unbonding_get)

lemma apply_block_queued:
  assumes "apply_block W s b cs = Inr s'" "queued s v (a, rel)" "block_height b < rel"
    "v \<notin> slashed_in W (mature_unbonding (block_height b) s) (bk_txs b) (block_height b)"
  shows "queued s' v (a, rel)"
  using assms(1)
proof (rule apply_block_via_txs)
  fix ns1 :: nstate
  assume u: "unbonding s' = unbonding ns1"
    and "apply_txs W (mature_unbonding (block_height b) s) (bk_txs b) (block_height b) = Inr ns1"
  then have "queued ns1 v (a, rel)" using mature_queued [OF assms(2,3)] assms(4) by (blast intro: apply_txs_queued)
  then show ?thesis using queued_frame [OF u] by simp
qed

lemma apply_blocks_queued:
  "apply_blocks W s bs = Inr s' \<Longrightarrow> queued s v (a, rel) \<Longrightarrow> \<forall>(b, cs) \<in> set bs. block_height b < rel
     \<Longrightarrow> v \<notin> slashed_in_blocks W s bs \<Longrightarrow> queued s' v (a, rel)"
proof (induction bs arbitrary: s)
  case (Cons bc bs)
  obtain b cs where bc: "bc = (b, cs)" by fastforce
  obtain s1 where s1: "apply_block W s b cs = Inr s1" "apply_blocks W s1 bs = Inr s'"
    using Cons.prems(1) by (auto simp: bc bindE_Inr_iff)
  have "queued s1 v (a, rel)" using Cons.prems(2-4) by (intro apply_block_queued [OF s1(1)]) (auto simp: bc)
  then show ?case using Cons.prems(3,4) s1 by (intro Cons.IH [OF s1(2)]) (auto simp: bc)
qed simp

lemma apply_blocks_ok: "apply_blocks W s bs = Inr s' \<Longrightarrow> ledger_ok s \<Longrightarrow> ledger_ok s'"
proof (induction bs arbitrary: s)
  case (Cons bc bs)
  then obtain b cs s1 where "apply_block W s b cs = Inr s1" "apply_blocks W s1 bs = Inr s'"
    by (cases bc) (auto simp: bindE_Inr_iff)
  then show ?case using Cons.IH Cons.prems(2) apply_block_ok by metis
qed simp

subsection \<open>Where an entry comes from\<close>

lemma slashed_in_append:
  "apply_txs W s ts h = Inr s' \<Longrightarrow> slashed_in W s (ts @ us) h = slashed_in W s ts h \<union> slashed_in W s' us h"
  by (induction ts arbitrary: s) (auto split: prod.splits tx_outcome.splits)

lemma apply_txs_append:
  "apply_txs W s (ts @ us) h = Inr s' \<longleftrightarrow> (\<exists>s1. apply_txs W s ts h = Inr s1 \<and> apply_txs W s1 us h = Inr s')"
  by (induction ts arbitrary: s) (auto split: prod.splits tx_outcome.splits)

lemma unstake_queues:
  assumes "apply_tx W s t (Some h) = (Applied r, s')" "tx_kind t = Unstake" "tx_amount t = Fin a"
  shows "queued s' (tx_sender t) (a, h + UNBONDING_PERIOD)"
  using assms(1)
  by (rule apply_tx_dispatch)
    (use assms in \<open>auto simp: apply_unstake_Applied queued_def bump_nonce_def queue_unbonding_def release_height_def\<close>)

lemma block_unstake_queued:
  assumes "apply_block W s b cs = Inr s'" "bk_txs b = ts @ t # us" "tx_kind t = Unstake" "tx_amount t = Fin a"
    "tx_sender t \<notin> slashed_in_blocks W s [(b, cs)]"
  shows "queued s' (tx_sender t) (a, block_height b + UNBONDING_PERIOD)"
  using assms(1)
proof (rule apply_block_via_txs)
  let ?h = "block_height b" and ?s = "mature_unbonding (block_height b) s"
  fix ns1 :: nstate
  assume u: "unbonding s' = unbonding ns1" and run: "apply_txs W ?s (bk_txs b) ?h = Inr ns1"
  obtain s1 where s1: "apply_txs W ?s ts ?h = Inr s1" "apply_txs W s1 (t # us) ?h = Inr ns1"
    using run by (auto simp: assms(2) apply_txs_append)
  obtain r s2 where s2: "apply_tx W s1 t (Some ?h) = (Applied r, s2)" "apply_txs W s2 us ?h = Inr ns1"
    using s1(2) by (auto split: prod.splits tx_outcome.splits)
  have "tx_sender t \<notin> slashed_in W s2 us ?h"
    using assms(5) slashed_in_append [OF s1(1), of "t # us"] s2(1) by (simp add: assms(2))
  then have "queued ns1 (tx_sender t) (a, ?h + UNBONDING_PERIOD)"
    using apply_txs_queued [OF s2(2) unstake_queues [OF s2(1) assms(3,4)]] by blast
  then show ?thesis using queued_frame [OF u] by simp
qed

subsection \<open>What a slash takes\<close>

lemma foldl_fadd_ge:
  "list_all ((\<le>) 0) xs \<Longrightarrow> 0 \<le> x \<Longrightarrow> is_f64 x \<Longrightarrow> x \<le> foldl fadd x xs \<and> (\<forall>y \<in> set xs. is_f64 y \<longrightarrow> y \<le> foldl fadd x xs)"
proof (induction xs arbitrary: x)
  case (Cons y ys)
  have nn: "0 \<le> y" "list_all ((\<le>) 0) ys" using Cons.prems(1) by simp_all
  have "fadd x 0 \<le> fadd x y" using nn(1) by (intro fadd_mono) simp_all
  then have up: "x \<le> fadd x y" using Cons.prems(3) by (simp add: fadd_0_right)
  have "fadd 0 y \<le> fadd x y" using Cons.prems(2) by (intro fadd_mono) simp_all
  then have mine: "is_f64 y \<Longrightarrow> y \<le> fadd x y" by (simp add: fadd_0_left)
  have "fadd x y \<le> foldl fadd (fadd x y) ys \<and> (\<forall>z \<in> set ys. is_f64 z \<longrightarrow> z \<le> foldl fadd (fadd x y) ys)"
    using Cons.IH [OF nn(2), of "fadd x y"] Cons.prems(2) nn(1) by (simp add: fadd_nonneg)
  then show ?case using up mine by auto
qed simp

lemma seize_takes_queued:
  assumes "seize s v None = (bond, s1)" "ledger_ok s" "queued s v (a, rel)" "is_f64 a"
  shows "a \<le> bond"
proof -
  obtain b s0 where b: "seize_bond s v None = (b, None, s0)" by (cases "0 < dget (staked s) v 0") (simp_all add: seize_bond_def Let_def)
  have u: "unbonding s0 = unbonding s" using b by (auto simp: seize_bond_def Let_def split: if_splits)
  have ok: "0 \<le> b" "is_f64 b" using seize_bond_ok [OF b assms(2)] by simp_all
  let ?es = "release_order (dget (unbonding s) v [])"
  have e: "dget (unbonding s) v [] \<noteq> []" "a \<in> set (map fst ?es)"
    using assms(3) by (auto simp: queued_def release_order_def rev_image_eqI)
  have "amounts_ok (dget (unbonding s) v [])" using assms(2) by (rule ledger_okD)
  then have "list_all ((\<le>) 0) (map fst ?es)" by (auto simp: amounts_ok_def list_all_iff release_order_def)
  then have "a \<le> foldl fadd b (map fst ?es)" using foldl_fadd_ge [of "map fst ?es" b] ok e(2) assms(4) by blast
  moreover have "bond = foldl fadd b (map fst ?es)"
    using assms(1) e(1) by (simp add: seize_def b u Let_def seize_entries_all)
  ultimately show ?thesis by simp
qed

lemma slash_takes_queued:
  assumes "apply_tx W s t h = (Applied (Slashed v bond bounty), s')" "ledger_ok s" "queued s v (a, rel)" "is_f64 a"
  shows "a \<le> bond \<and> dget (unbonding s') v [] = [] \<and> stake_of s' v = 0"
  using assms(1)
proof (rule apply_tx_dispatch)
  fix x assume d: "(case tx_kind t of Transfer \<Rightarrow> apply_transfer s t x | Stake \<Rightarrow> apply_stake s t x
        | UpgradeSignal \<Rightarrow> apply_upgrade_signal s t | Unstake \<Rightarrow> apply_unstake s t x h
        | Slash \<Rightarrow> apply_slash W s t) = (Applied (Slashed v bond bounty), s')"
  have "apply_slash W s t = (Applied (Slashed v bond bounty), s')"
    using d apply_upgrade_signal_Applied [of s t "Slashed v bond bounty" s']
    by (cases "tx_kind t") (auto simp: apply_transfer_Applied apply_stake_Applied apply_unstake_Applied)
  then obtain fault where p: "punish W s t v fault = (Applied (Slashed v bond bounty), s')"
    using apply_slash_Applied [of W s t "Slashed v bond bounty" s'] punish_fst by (metis fst_conv tx_ok.distinct(29) tx_ok.inject(4) tx_outcome.inject(1))
  obtain bond1 s1 where z: "seize s v None = (bond1, s1)" by fastforce
  from punish_effect [OF p assms(2)] z have "bond = bond1" "stake_of s' v = 0" "dget (unbonding s') v [] = []" by auto
  then show ?thesis using seize_takes_queued [OF z assms(2-4)] by simp
qed

end
