(* ===== verification/Ledger_Props.thy ===== *)
theory Ledger_Props
  imports Ledger_Policy Ledger_Cap Ledger_Drift Ledger_Unbonding
begin

text \<open>
  The properties of the transaction ledger (\<^verbatim>\<open>neura_l1/block_state.py\<close>), each with a concrete run that
  meets its hypotheses. The runs use small states: accounts \<^verbatim>\<open>a\<close> and \<^verbatim>\<open>b\<close>, one transaction, blocks
  without transactions.
\<close>

subsection \<open>Small runs\<close>

definition demo_state :: nstate where
  "demo_state = (new_state [] True False)
     \<lparr>bal := [(''a'', 10)], staked := [(''a'', 4)], keys := [(''a'', ''a''), (''v'', ''v''), (''h'', ''h'')]\<rparr>"

definition demo_tx :: "tx_kind \<Rightarrow> tx" where
  "demo_tx k = \<lparr>tx_sender = ''a'', tx_kind = k, tx_to = Some ''b'', tx_amount = Fin 3, tx_nonce = 0,
     tx_sig = ''0xa'', tx_data = JNull, tx_sig_scheme = None\<rparr>"

definition empty_block :: "int \<Rightarrow> rat \<Rightarrow> block" where
  "empty_block h reward = (genesis_block [])\<lparr>bk_header := (bk_header (genesis_block []))
     \<lparr>hd_height := h, hd_reward := reward\<rparr>\<rparr>"

lemma demo_floats: "fsub 10 3 = 7" "fadd 0 3 = 3" "fsub 4 3 = 1" "fadd 4 3 = 7"
  by code_simp+

lemma demo_letters: "str_lower ''a'' = ''a''" "str_lower ''v'' = ''v''" "str_lower ''h'' = ''h''"
  by (simp_all add: str_lower_def char_lower_def)

lemma demo_authentic: "authenticate toy_world demo_state (demo_tx k) = None"
  by (simp add: authenticate_def demo_state_def demo_tx_def new_state_def recover_tx_signer_def
      require_supported_def normalize_scheme_def is_supported_def supported_schemes_def default_scheme_def
      tx_signing_bytes_def tx_canonical_obj_def canon_def toy_world_def starts_with_def demo_letters
      scheme_secp256k1_def)

lemma demo_tx_simps [simp]:
  "tx_sender (demo_tx k) = ''a''" "tx_kind (demo_tx k) = k" "tx_to (demo_tx k) = Some ''b''"
  "tx_amount (demo_tx k) = Fin 3" "tx_nonce (demo_tx k) = 0"
  by (simp_all add: demo_tx_def)

lemma demo_state_simps [simp]:
  "bal demo_state = [(''a'', 10)]" "staked demo_state = [(''a'', 4)]" "unbonding demo_state = []"
  "nonces demo_state = []" "treasury demo_state = 0" "minted demo_state = 0" "retarget_enabled demo_state = False"
  "keys demo_state = [(''a'', ''a''), (''v'', ''v''), (''h'', ''h'')]" "require_tx_signatures demo_state"
  by (simp_all add: demo_state_def new_state_def)

lemma demo_runs:
  "apply_tx toy_world demo_state (demo_tx Transfer) h
     = (Applied TransferApplied, demo_state\<lparr>bal := [(''a'', 7), (''b'', 3)], nonces := [(''a'', 1)]\<rparr>)"
  "apply_tx toy_world demo_state (demo_tx Unstake) (Some 7)
     = (Applied (UnstakeQueued 12), demo_state\<lparr>staked := [(''a'', 1)], unbonding := [(''a'', [(3, 12)])],
          nonces := [(''a'', 1)]\<rparr>)"
  by (simp_all add: apply_tx_def demo_authentic apply_transfer_def apply_unstake_def balance_def
      stake_of_def debit_def credit_def bump_nonce_def dget_def demo_floats Let_def UNBONDING_PERIOD_def)

lemma empty_block_applies:
  assumes "list_all ((\<le>) 0) (dvalues cs)"
  obtains s' where "apply_block W s (empty_block h r) cs = Inr s'"
proof -
  have "\<exists>agg'. aggregate agg cs = Inr agg'" for agg
    using assms by (induction cs arbitrary: agg) auto
  then obtain agg where "aggregate [] cs = Inr agg" by blast
  then show thesis
    using that by (simp add: apply_block_def empty_block_def genesis_block_def tx_root_def Let_def)
qed

lemma empty_block_upgrade:
  assumes "unbonding s = []" "retarget_enabled s = False"
  shows "apply_block W s (empty_block h 0) [] = Inr ((upgrade_step s GENESIS_VERSION h)\<lparr>model_checkpoint := []\<rparr>)"
proof -
  have "retarget_enabled (upgrade_step s GENESIS_VERSION h) = False"
    using assms(2) by (simp add: upgrade_step_def Let_def)
  then show ?thesis
    using assms by (simp add: apply_block_def empty_block_def genesis_block_def tx_root_def Let_def
        mature_unbonding_def fold_retarget_def fsum_def)
qed

subsection \<open>The properties\<close>

text \<open>C1: in every state that a chain of blocks reaches from genesis, whatever transactions the
  blocks carry, no balance, no stake, no queued withdrawal, neither the treasury nor the minted
  total is negative.\<close>

theorem ledger_never_negative:
  assumes "chain_state W s"
  shows "0 \<le> balance s a \<and> 0 \<le> stake_of s a \<and> 0 \<le> treasury s \<and> 0 \<le> minted s
    \<and> (\<forall>(amt, rel) \<in> set (dget (unbonding s) a []). 0 \<le> amt)"
  using ledger_okD [OF chain_state_ledger_ok [OF assms]] by (auto simp: amounts_ok_def list_all_iff)

theorem ledger_never_negative_witness:
  "\<exists>s'. apply_block toy_world (new_state [] False False) (empty_block 1 50) [(''a'', 1)] = Inr s'
     \<and> 0 \<le> balance s' ''a'' \<and> 0 \<le> minted s'"
proof -
  obtain s' where b: "apply_block toy_world (new_state [] False False) (empty_block 1 50) [(''a'', 1)] = Inr s'"
    by (rule empty_block_applies [where cs = "[(''a'', 1)]"]) simp
  from ledger_never_negative [OF chain_state.block [OF chain_state.genesis b]] b show ?thesis by blast
qed

text \<open>a transaction that is rejected, or whose evaluation raises, changes nothing.\<close>

theorem refused_tx_changes_nothing:
  assumes "apply_tx W s t h = (out, s')" "\<nexists>r. out = Applied r"
  shows "s' = s"
  using apply_tx_unchanged [OF assms(1)] assms(2) by blast

theorem refused_tx_changes_nothing_witness:
  "snd (apply_tx toy_world demo_state ((demo_tx Transfer)\<lparr>tx_nonce := 5\<rparr>) None) = demo_state"
proof -
  have "apply_tx toy_world demo_state ((demo_tx Transfer)\<lparr>tx_nonce := 5\<rparr>) None = (Rejected (BadNonce 5 0), demo_state)"
    by (simp add: apply_tx_def demo_tx_def)
  from refused_tx_changes_nothing [OF this] this show ?thesis by simp
qed

text \<open>C3: on a ledger that requires signatures, a transaction other than a slash is applied only with
  the sender's current nonce and a signature over its own signing bytes that recovers, in the
  transaction domain, to the key registered for the sender.\<close>

theorem applied_tx_is_authentic:
  assumes "apply_tx W s t h = (Applied r, s')" "tx_kind t \<noteq> Slash" "require_tx_signatures s"
  shows "tx_nonce t = nonce_of s (tx_sender t)
    \<and> (\<exists>reg signer bytes. map_of (keys s) (tx_sender t) = Some reg \<and> str_lower signer = str_lower reg
        \<and> tx_signing_bytes W t = Inr bytes
        \<and> recover_message W (domain_bytes ''tx'' bytes) (hex_sig (tx_sig t)) = Some signer)"
  using assms by (auto elim!: apply_tx_dispatch authenticate_None simp: nonce_of_def)

theorem applied_tx_is_authentic_witness:
  "\<exists>reg. map_of (keys demo_state) ''a'' = Some reg"
  using applied_tx_is_authentic [OF demo_runs(1)] by auto



text \<open>C6: What a block's transaction unstakes is queued for release \<^verbatim>\<open>UNBONDING_PERIOD\<close> blocks
  later, and after any further blocks of smaller heights it is still in the queue, unless a slash has
  seized what its owner had at risk; and in every such state a slash of the owner, whatever transaction
  brings it, takes a bond of at least the queued amount and leaves the owner no queue and no stake.\<close>

theorem unbonding_stays_locked:
  assumes "apply_block W s0 b cs = Inr s1" "ledger_ok s0"
    "bk_txs b = ts @ t # us" "tx_kind t = Unstake" "tx_amount t = Fin a" "is_f64 a"
    "apply_blocks W s1 bs = Inr s2" "\<forall>(b', cs') \<in> set bs. block_height b' < block_height b + UNBONDING_PERIOD"
    "tx_sender t \<notin> slashed_in_blocks W s0 ((b, cs) # bs)"
  shows "(a, block_height b + UNBONDING_PERIOD) \<in> set (dget (unbonding s2) (tx_sender t) [])
    \<and> (\<forall>t' h' bond bounty s3. apply_tx W s2 t' h' = (Applied (Slashed (tx_sender t) bond bounty), s3)
         \<longrightarrow> a \<le> bond \<and> dget (unbonding s3) (tx_sender t) [] = [] \<and> stake_of s3 (tx_sender t) = 0)"
proof -
  have "tx_sender t \<notin> slashed_in_blocks W s0 [(b, cs)]" "tx_sender t \<notin> slashed_in_blocks W s1 bs"
    using assms(9) by (simp_all add: assms(1))
  then have q: "queued s2 (tx_sender t) (a, block_height b + UNBONDING_PERIOD)"
    using apply_blocks_queued [OF assms(7) block_unstake_queued [OF assms(1,3-5)] assms(8)] by blast
  have ok: "ledger_ok s2" by (rule apply_blocks_ok [OF assms(7) apply_block_ok [OF assms(1,2)]])
  have "a \<le> bond \<and> dget (unbonding s3) (tx_sender t) [] = [] \<and> stake_of s3 (tx_sender t) = 0"
    if "apply_tx W s2 t' h' = (Applied (Slashed (tx_sender t) bond bounty), s3)" for t' h' bond bounty s3
    using slash_takes_queued [OF that ok q assms(6)] .
  then show ?thesis using q by (auto simp: queued_def)
qed

definition unstake_block :: block where
  "unstake_block = (empty_block 7 0)\<lparr>bk_header := (bk_header (empty_block 7 0))
     \<lparr>hd_tx_root := (case tx_root toy_world [demo_tx Unstake] of Inr r \<Rightarrow> r | Inl _ \<Rightarrow> [])\<rparr>, bk_txs := [demo_tx Unstake]\<rparr>"

theorem unbonding_stays_locked_witness:
  "\<exists>s1 s2. apply_block toy_world demo_state unstake_block [] = Inr s1 \<and> apply_block toy_world s1 (empty_block 11 0) [] = Inr s2
    \<and> (3, 12) \<in> set (dget (unbonding s2) ''a'' [])"
proof -
  have root: "\<exists>r. tx_root toy_world [demo_tx Unstake] = Inr r"
    by (simp add: tx_root_def txid_def tx_canonical_bytes_def tx_canonical_obj_def demo_tx_def canon_def)
  have mature: "mature_unbonding h demo_state = demo_state" for h by (simp add: mature_unbonding_def)
  have h: "block_height unstake_block = 7" "bk_txs unstake_block = [] @ demo_tx Unstake # []"
    by (simp_all add: unstake_block_def empty_block_def block_height_def)
  have run: "\<exists>s1. apply_block toy_world demo_state unstake_block [] = Inr s1"
    using root by (auto simp: apply_block_def unstake_block_def empty_block_def genesis_block_def Let_def mature demo_runs(2))
  then obtain s1 where s1: "apply_block toy_world demo_state unstake_block [] = Inr s1" by blast
  obtain s2 where s2: "apply_block toy_world s1 (empty_block 11 0) [] = Inr s2"
    by (rule empty_block_applies [where cs = "[]" and s = s1]) simp
  have e: "bk_txs (empty_block 11 0) = []" "block_height (empty_block 11 0) = 11"
    by (simp_all add: empty_block_def genesis_block_def block_height_def)
  have ok: "ledger_ok demo_state" by (simp add: ledger_ok_def)
  have "is_f64 3" by code_simp
  moreover have "apply_blocks toy_world s1 [(empty_block 11 0, [])] = Inr s2" by (simp add: s2)
  moreover have "tx_sender (demo_tx Unstake) \<notin> slashed_in_blocks toy_world demo_state [(unstake_block, []), (empty_block 11 0, [])]"
    using h e by (simp add: s1 s2 mature demo_runs(2) slashed_by_def)
  ultimately show ?thesis
    using unbonding_stays_locked [OF s1 ok h(2) demo_tx_simps(2) demo_tx_simps(4), where bs = "[(empty_block 11 0, [])]"] s1 s2 h(1)
    by (auto simp: UNBONDING_PERIOD_def e)
qed




text \<open>C7: whatever evidence is submitted, an equivocation slash never seizes the bond of a proposer
  that signs at most one commitment per height.\<close>

theorem honest_proposer_keeps_its_bond:
  assumes "apply_equivocation_slash W s t d = (Applied r, s')" "map_of (keys s) proposer = Some addr"
    "honest_signer W addr signed_at"
  shows "r \<noteq> Slashed proposer bond bounty"
  by (rule honest_not_slashed_equivocation [OF assms])

text \<open>A world in which \<^verbatim>\<open>v\<close> signs two commitments of one height and \<^verbatim>\<open>h\<close> signs none.\<close>

definition fault_world :: world where
  "fault_world = toy_world\<lparr>dumps := (\<lambda>j. case get_or j ''merkle_root'' JNull of JStr r \<Rightarrow> r | _ \<Rightarrow> []),
     recover_message := (\<lambda>m s. if s = ''0xv'' then Some ''v'' else None)\<rparr>"

definition fault_envelope :: "string \<Rightarrow> json" where
  "fault_envelope mr = JObj [(''commitment'', JObj
     [(''height'', JInt 3), (''prev_hash'', JStr []), (''proposer'', JStr ''v''), (''beacon'', JStr []),
      (''parent_checkpoint'', JStr []), (''new_checkpoint'', JStr []), (''work_score'', JNum (Fin 0)),
      (''merkle_root'', JStr mr), (''tx_root'', JStr [])]), (''signature'', JStr ''0xv''), (''signer'', JStr ''v'')]"

definition fault_data :: json where
  "fault_data = JObj [(''proposer'', JStr ''v''),
     (''equivocation'', JObj [(''a'', fault_envelope ''x''), (''b'', fault_envelope ''y'')])]"

lemma fault_recovers:
  "envelope_commitment (fault_envelope mr) = Inr \<lparr>cm_height = 3, cm_prev_hash = [], cm_proposer = ''v'',
     cm_beacon = [], cm_parent_checkpoint = [], cm_new_checkpoint = [], cm_work_score = Fin 0,
     cm_merkle_root = mr, cm_tx_root = []\<rparr>"
  "recover_signer fault_world (fault_envelope mr) = Inr ''v''"
  by (simp_all add: recover_signer_def envelope_commitment_def fault_envelope_def commitment_from_dict_def
      commitment_canonical_bytes_def commitment_canonical_def canon_def scheme_tag_def require_supported_def
      normalize_scheme_def is_supported_def supported_schemes_def default_scheme_def scheme_secp256k1_def
      fault_world_def hex_sig_def starts_with_def)

lemma fault_proved:
  "verify_equivocation fault_world \<lparr>eq_a = fault_envelope ''x'', eq_b = fault_envelope ''y''\<rparr> None = Inr ''v''"
  by (simp add: verify_equivocation_def verify_commitment_def fault_recovers commit_id_def
      commitment_canonical_bytes_def commitment_canonical_def canon_def)
    (simp add: fault_world_def toy_world_def)

lemma fault_slashes:
  "apply_equivocation_slash fault_world demo_state (demo_tx Slash) fault_data
     = punish fault_world demo_state (demo_tx Slash) ''v'' (equivocation_fault_id ''v'' 3)"
  by (simp add: apply_equivocation_slash_def fault_data_def equivocation_from_dict_def fault_proved
      fault_recovers lookup_key_def demo_letters Let_def)
    (simp add: demo_state_def new_state_def)

theorem honest_proposer_keeps_its_bond_witness:
  "\<exists>r s'. apply_equivocation_slash fault_world demo_state (demo_tx Slash) fault_data = (Applied r, s')
     \<and> r \<noteq> Slashed ''h'' 0 0"
proof -
  obtain r s' where o: "apply_equivocation_slash fault_world demo_state (demo_tx Slash) fault_data = (Applied r, s')"
    using punish_fst by (metis fault_slashes prod.collapse)
  have h: "honest_signer fault_world ''h'' f" for f
    by (simp add: honest_signer_def fault_world_def demo_letters)
  from honest_proposer_keeps_its_bond [OF o _ h, of "''h''"] o show ?thesis by auto
qed

text \<open>an equivocation slash that takes a bond leaves the offender neither stake nor a queued
  withdrawal, pays the reporter at most the bond, and the same evidence against any later ledger with
  the same keys takes nothing more.\<close>

theorem slash_takes_all_once:
  assumes "apply_equivocation_slash W s t d = (Applied (Slashed v bond bounty), s')" "ledger_ok s"
    "slashed_faults s' \<subseteq> slashed_faults u" "keys u = keys s"
  shows "at_risk_of s' v = 0 \<and> 0 \<le> bounty \<and> bounty \<le> bond
    \<and> (\<exists>fault. apply_equivocation_slash W u t' d = (Applied (AlreadySlashed fault), u))"
proof -
  obtain fault where p: "punish W s t v fault = (Applied (Slashed v bond bounty), s')"
    using assms(1) by (rule equivocation_slash_evidence) (use punish_fst in \<open>metis fst_conv tx_ok.inject(4)
      tx_ok.distinct(29) tx_outcome.inject(1)\<close>)
  obtain bond1 s1 where z: "seize s v None = (bond1, s1)" by fastforce
  from punish_effect [OF p assms(2)] z have b: "bond = bond1"
    "bounty = (if reporter_bounty_ok W s1 t then fmul bond1 EQUIVOCATION_BOUNTY_FRAC else 0)"
    "stake_of s' v = 0" "dget (unbonding s') v [] = []" by auto
  have "0 \<le> bounty" "bounty \<le> bond"
    using bounty_le [of bond1] seize_ok [OF z assms(2)] b(1,2) by auto
  moreover have "at_risk_of s' v = 0" using b(3,4) by (simp add: at_risk_of_def unbonding_of_def fsum_def fadd_def)
  ultimately show ?thesis using slashed_fault_again [OF assms(1,3,4)] by blast
qed

theorem slash_takes_all_once_witness:
  "\<exists>r s'. apply_equivocation_slash fault_world demo_state (demo_tx Slash) fault_data = (Applied r, s')
     \<and> (\<exists>fault. apply_equivocation_slash fault_world s' (demo_tx Slash) fault_data = (Applied (AlreadySlashed fault), s'))"
proof -
  let ?p = "punish fault_world demo_state (demo_tx Slash) ''v'' (equivocation_fault_id ''v'' 3)"
  obtain bond bounty s' where p: "?p = (Applied (Slashed ''v'' bond bounty), s')"
    using punish_fst by (metis prod.collapse)
  have ok: "ledger_ok demo_state" by (simp add: ledger_ok_def)
  from slash_takes_all_once [OF _ ok subset_refl, where W = fault_world and t = "demo_tx Slash" and d = fault_data
        and v = "''v''" and bond = bond and bounty = bounty and s' = s' and t' = "demo_tx Slash"]
    punish_frame(2) [OF p] p fault_slashes
  show ?thesis by auto
qed

text \<open>C8: a block that pays one contributor never takes the minted total above the supply cap,
  whatever reward its header asks for.\<close>

theorem single_contributor_within_cap:
  assumes "apply_block W s b cs = Inr s'" "ledger_ok s" "minted s \<le> MAX_SUPPLY" "\<forall>x \<in> set cs. fst x = a"
  shows "minted s' \<le> MAX_SUPPLY"
  by (rule block_minted_single [OF assms])

theorem single_contributor_within_cap_witness:
  "\<exists>s'. apply_block toy_world demo_state (empty_block 1 (3 * MAX_SUPPLY)) [(''a'', 1)] = Inr s'
     \<and> minted s' \<le> MAX_SUPPLY"
proof -
  obtain s' where b: "apply_block toy_world demo_state (empty_block 1 (3 * MAX_SUPPLY)) [(''a'', 1)] = Inr s'"
    by (rule empty_block_applies [where cs = "[(''a'', 1)]"]) simp
  have "ledger_ok demo_state" by (simp add: ledger_ok_def)
  from single_contributor_within_cap [OF b this, of "''a''"] b show ?thesis by (simp add: MAX_SUPPLY_def)
qed

text \<open>with several contributors the cap can be passed. From a minted total five units in the last
  place below the cap, a block whose reward is the remaining five splits it among three contributors
  of equal weight; each of the three rounded credits is rounded up, and the ledger ends above
  \<^verbatim>\<open>MAX_SUPPLY\<close>.\<close>

theorem split_passes_the_cap:
  "minted cap_state < MAX_SUPPLY
   \<and> (\<exists>s'. apply_block toy_world cap_state cap_block cap_contributors = Inr s' \<and> MAX_SUPPLY < minted s')"
proof -
  obtain s' where "apply_block toy_world cap_state cap_block cap_contributors = Inr s'"
    "minted s' = MAX_SUPPLY + 1 / 4194304"
    by (rule cap_block_mints)
  then show ?thesis by (auto simp: cap_state_def)
qed

lemma floor_frame [simp]:
  "work_floor_q (split_reward s r tw agg) = work_floor_q s" "work_ewma_q (split_reward s r tw agg) = work_ewma_q s"
  "ts_ring (split_reward s r tw agg) = ts_ring s" "work_floor_q (upgrade_step s v h) = work_floor_q s"
  "work_ewma_q (upgrade_step s v h) = work_ewma_q s" "ts_ring (upgrade_step s v h) = ts_ring s"
proof -
  show "work_floor_q (split_reward s r tw agg) = work_floor_q s"
    unfolding split_reward_def by (rule foldl_frame) (auto simp: credit_reward_def credit_def)
  show "work_ewma_q (split_reward s r tw agg) = work_ewma_q s"
    unfolding split_reward_def by (rule foldl_frame) (auto simp: credit_reward_def credit_def)
  show "ts_ring (split_reward s r tw agg) = ts_ring s"
    unfolding split_reward_def by (rule foldl_frame) (auto simp: credit_reward_def credit_def)
qed (simp_all add: upgrade_step_def Let_def)

lemma block_floor:
  assumes "apply_block W s b cs = Inr s'"
  obtains ns t w where "s' = fold_retarget s ns (block_height b) t w"
    "work_floor_q ns = work_floor_q s" "work_ewma_q ns = work_ewma_q s" "ts_ring ns = ts_ring s"
  using assms
proof (rule apply_block_Inr)
  fix ns1 agg
  assume txs: "apply_txs W (mature_unbonding (block_height b) s) (bk_txs b) (block_height b) = Inr ns1"
    and s': "s' = (let ns2 = upgrade_step ns1 (hd_protocol_version (bk_header b)) (block_height b);
               reward = block_reward ns2 (hd_reward (bk_header b));
               ns3 = (if 0 < fsum (dvalues agg) \<and> 0 < reward
                      then split_reward ns2 reward (fsum (dvalues agg)) agg else ns2)
           in fold_retarget s (ns3\<lparr>model_checkpoint := hd_new_checkpoint (bk_header b)\<rparr>) (block_height b)
                (hd_timestamp (bk_header b)) (max 0 (hd_work_score (bk_header b))))"
  have "same_policy s ns1"
    by (rule same_policy_trans [OF mature_policy apply_txs_policy [OF txs]])
  then have fl: "work_floor_q ns1 = work_floor_q s" "work_ewma_q ns1 = work_ewma_q s" "ts_ring ns1 = ts_ring s"
    by (simp_all add: same_policy_def)
  show thesis by (rule that [OF s' [unfolded Let_def]]) (simp_all add: fl)
qed

text \<open>a block keeps the work floor between its bounds and the ring of block times within its
  window, and raises the floor at most fourfold.\<close>

theorem retarget_stays_bounded:
  assumes "apply_block W s b cs = Inr s'" "retarget_ok s"
  shows "retarget_ok s' \<and> work_floor_q s' \<le> 4 * work_floor_q s"
  using assms(1)
proof (rule block_floor)
  fix ns t w
  assume s': "s' = fold_retarget s ns (block_height b) t w"
    and ns: "work_floor_q ns = work_floor_q s" "work_ewma_q ns = work_ewma_q s" "ts_ring ns = ts_ring s"
  have "retarget_ok ns" "1 \<le> work_floor_q s"
    using ns assms(2) by (simp_all add: retarget_ok_def WORK_FLOOR_MIN_UNITS_def)
  then show ?thesis
    using next_floor_growth ns fold_retarget_ok [OF assms(2)] by (simp add: s' fold_retarget_def Let_def)
qed

theorem retarget_stays_bounded_witness:
  "\<exists>s'. apply_block toy_world (new_state [] False True) (empty_block 2016 0) [] = Inr s' \<and> retarget_ok s'"
proof -
  obtain s' where b: "apply_block toy_world (new_state [] False True) (empty_block 2016 0) [] = Inr s'"
    by (rule empty_block_applies [where cs = "[]"]) simp
  have "retarget_ok (new_state [] False True)"
    by (simp add: retarget_ok_def new_state_def GENESIS_WORK_FLOOR_UNITS_def WORK_FLOOR_MIN_UNITS_def
        WORK_FLOOR_MAX_UNITS_def)
  from retarget_stays_bounded [OF b this] b show ?thesis by blast
qed

text \<open>C9: a soft fork locks in only after the stake signalled for it was two thirds of the bonded stake,
  as the code computes it, in each of three consecutive blocks, and activates three blocks later.\<close>

theorem upgrade_needs_three_supermajorities:
  assumes "campaign_ok s0" "apply_block W s0 b1 cs1 = Inr s1" "apply_block W s1 b2 cs2 = Inr s2"
    "apply_block W s2 b3 cs3 = Inr s3" "pending_activation s2 = None" "pending_activation s3 = Some p"
  shows "p = block_height b3 + 3 \<and> supermajority s1 \<and> supermajority s2 \<and> supermajority s3"
  by (rule lock_in_history [OF assms])

definition campaign_state :: "int \<Rightarrow> int option \<Rightarrow> nstate" where
  "campaign_state streak p = (new_state [] False False)\<lparr>staked := [(''a'', 1)], upgrade_signals := [''a''],
     upgrade_streak := streak, pending_activation := p\<rparr>"

lemma campaign_block:
  "apply_block W (campaign_state n None) (empty_block h 0) []
     = Inr (campaign_state (n + 1) (if 3 \<le> n + 1 then Some (h + 3) else None))"
proof -
  have f: "fsum [1] = 1" "fmul 1 2 = 2" "fmul 1 3 = 3" by code_simp+
  have "upgrade_step (campaign_state n None) GENESIS_VERSION h
      = campaign_state (n + 1) (if 3 \<le> n + 1 then Some (h + 3) else None)"
    by (simp add: upgrade_step_def campaign_state_def new_state_def upgrade_signaled_stake_def stake_of_def dget_def
        Let_def f UPGRADE_THRESHOLD_NUM_def UPGRADE_THRESHOLD_DEN_def UPGRADE_WINDOW_def
        UPGRADE_ACTIVATION_DELAY_def)
  then show ?thesis
    using empty_block_upgrade [of "campaign_state n None" W h] by (simp add: campaign_state_def new_state_def)
qed

theorem upgrade_needs_three_supermajorities_witness:
  "apply_block toy_world (campaign_state 2 None) (empty_block 9 0) [] = Inr (campaign_state 3 (Some 12))
   \<and> supermajority (campaign_state 1 None)"
proof -
  have "campaign_ok (campaign_state 0 None)"
    by (simp add: campaign_ok_def campaign_state_def new_state_def)
  note c = this
  have b: "apply_block toy_world (campaign_state 0 None) (empty_block 7 0) [] = Inr (campaign_state 1 None)"
    "apply_block toy_world (campaign_state 1 None) (empty_block 8 0) [] = Inr (campaign_state 2 None)"
    "apply_block toy_world (campaign_state 2 None) (empty_block 9 0) [] = Inr (campaign_state 3 (Some 12))"
    by (simp_all add: campaign_block)
  have "pending_activation (campaign_state n q) = q" for n q by (simp add: campaign_state_def)
  from upgrade_needs_three_supermajorities [OF c b this this] b(3) show ?thesis by simp
qed

text \<open>a ledger survives its stored dictionary: every field comes back, the upgrade signals in
  sorted order.\<close>

theorem state_survives_storage:
  assumes "finite (slashed_faults s)" "distinct (upgrade_signals s)"
  shows "state_from_dict (state_to_dict s) = Inr (s\<lparr>upgrade_signals := sort (upgrade_signals s)\<rparr>)"
  by (rule state_roundtrip_general [OF assms])

theorem state_survives_storage_witness:
  "state_from_dict (state_to_dict demo_state) = Inr demo_state"
  using state_survives_storage [of demo_state] by (simp add: demo_state_def new_state_def)

text \<open>a block whose transactions carry finite amounts survives its dictionary, and a transaction that
  does not is refused when it is read back.\<close>

theorem block_survives_storage:
  assumes "list_all (\<lambda>t. tx_amount t \<noteq> NonFin) (bk_txs b)"
  shows "block_from_dict (block_to_dict b) = Inr b"
  by (rule block_from_to_dict [OF assms])

theorem block_survives_storage_witness:
  "block_from_dict (block_to_dict ((empty_block 3 1)\<lparr>bk_txs := [demo_tx Stake]\<rparr>))
     = Inr ((empty_block 3 1)\<lparr>bk_txs := [demo_tx Stake]\<rparr>)"
  by (rule block_survives_storage) simp

text \<open>a slash transaction whose data is a non-empty list or string is not rejected with a reason:
  evaluating it raises out of \<^verbatim>\<open>apply_tx\<close>, and a block that carries it raises out of \<^verbatim>\<open>apply_block\<close>.\<close>

theorem malformed_slash_raises:
  assumes "tx_kind t = Slash" "tx_amount t = Fin a" "0 \<le> a" "tx_data t = JList (x # xs)"
  shows "apply_tx W s t h = (Raised AttributeError, s)
    \<and> apply_txs W s (t # ts) h' = Inl (BlockRaised AttributeError)"
  using assms by (simp add: apply_tx_def apply_slash_def)

theorem malformed_slash_raises_witness:
  "apply_tx toy_world demo_state ((demo_tx Slash)\<lparr>tx_data := JList [JNull]\<rparr>) None = (Raised AttributeError, demo_state)"
  using malformed_slash_raises [of "(demo_tx Slash)\<lparr>tx_data := JList [JNull]\<rparr>" 3 JNull "[]"] by simp

end
