(* ===== verification/Sequencer.thy ===== *)
theory Sequencer
  imports Signing
begin

text \<open>
  The elected pool proposer, \<^verbatim>\<open>neura_l1/pool_sequencer.py\<close>: the deterministic election, the
  failover decision, the signed chain of round commitments and the two stand-alone auditors.
  \<^verbatim>\<open>pouw_gate\<close> and \<^verbatim>\<open>consensus.saturating_weight\<close> are not in the repository and are
  parameters (record \<open>election\<close>); the numpy average is not modelled.
\<close>

record 'k election =
  leader_tag :: "string \<Rightarrow> string \<Rightarrow> 'k"
  beacon_for :: "string \<Rightarrow> string \<Rightarrow> string"
  saturating_weight :: "rat \<Rightarrow> rat"

subsection \<open>The election\<close>

definition GENESIS_SEED :: "world \<Rightarrow> string" where
  "GENESIS_SEED W = sha256 W ''neurahash-pool-sequencer-genesis''"

definition addr_root :: "world \<Rightarrow> string \<Rightarrow> string" where
  "addr_root W addr = sha256 W addr"

definition election_beacon :: "'k election \<Rightarrow> string \<Rightarrow> string \<Rightarrow> string" where
  "election_beacon E prev candidate = beacon_for E prev candidate"

text \<open>The key without a stake function is the tag alone; a constant first component orders alike.\<close>

definition election_key :: "world \<Rightarrow> 'k election \<Rightarrow> string \<Rightarrow> (string \<Rightarrow> rat) option \<Rightarrow> string \<Rightarrow> rat \<times> 'k" where
  "election_key W E prev stake a =
     ((case stake of None \<Rightarrow> 0 | Some f \<Rightarrow> - saturating_weight E (f a)),
      leader_tag E (addr_root W a) (election_beacon E prev a))"

definition elect_proposer ::
  "world \<Rightarrow> 'k::linorder election \<Rightarrow> string list \<Rightarrow> string \<Rightarrow> (string \<Rightarrow> rat) option \<Rightarrow> string option \<times> string list"
where
  "elect_proposer W E roster prev stake =
     (let r = sort (remdups roster) in
      if r = [] then (None, [])
      else (let ranked = sort_key (election_key W E prev stake) r in (Some (hd ranked), ranked)))"

subsection \<open>Failover\<close>

record decision =
  dc_leader :: "string option"
  dc_leader_last_seen :: "int option"
  dc_leader_stale :: bool
  dc_successor :: "string option"
  dc_would_take_over :: bool

definition fresh :: "(string, int) pydict \<Rightarrow> int \<Rightarrow> int \<Rightarrow> string \<Rightarrow> bool" where
  "fresh last_seen current_round stale_after p =
     (case map_of last_seen p of None \<Rightarrow> False | Some ls \<Rightarrow> current_round - ls \<le> stale_after)"

definition takeover_decision :: "string list \<Rightarrow> (string, int) pydict \<Rightarrow> int \<Rightarrow> int \<Rightarrow> decision" where
  "takeover_decision ranked last_seen current_round stale_after =
     (case ranked of
        [] \<Rightarrow> \<lparr>dc_leader = None, dc_leader_last_seen = None, dc_leader_stale = True,
              dc_successor = None, dc_would_take_over = False\<rparr>
      | leader # _ \<Rightarrow>
          (let successor = List.find (fresh last_seen current_round stale_after) ranked in
           \<lparr>dc_leader = Some leader, dc_leader_last_seen = map_of last_seen leader,
            dc_leader_stale = (\<not> fresh last_seen current_round stale_after leader),
            dc_successor = successor,
            dc_would_take_over = (successor \<noteq> None \<and> successor \<noteq> Some leader)\<rparr>))"

definition proposer_liveness_record ::
  "int \<Rightarrow> string \<Rightarrow> string \<Rightarrow> string \<Rightarrow> decision \<Rightarrow> int \<Rightarrow> json" where
  "proposer_liveness_record round_id mode heartbeat beacon d n_tracked = JObj
     [(''type'', JStr ''proposer_liveness''), (''round'', JInt round_id), (''mode'', JStr mode),
      (''heartbeat'', JStr heartbeat), (''beacon'', JStr beacon),
      (''leader'', json_of_opt (dc_leader d)), (''successor'', json_of_opt (dc_successor d)),
      (''leader_stale'', JBool (dc_leader_stale d)), (''would_take_over'', JBool (dc_would_take_over d)),
      (''n_tracked'', JInt n_tracked)]"

subsection \<open>Roots\<close>

fun join :: "string \<Rightarrow> string list \<Rightarrow> string" where
  "join sep [] = []"
| "join sep [x] = x"
| "join sep (x # y # ys) = x @ sep @ join sep (y # ys)"

definition delta_set_root :: "world \<Rightarrow> (string, string) pydict \<Rightarrow> string" where
  "delta_set_root W d = sha256 W (join ''|'' (map (\<lambda>(a, h). a @ ''='' @ h) (sort d)))"

text \<open>\<^verbatim>\<open>f"{x:.8g}"\<close> writes \<open>x\<close> rounded to eight significant decimal digits; \<open>text_8g\<close> of the world
  is the text of the rounded value.\<close>

definition dec_digits :: "nat \<Rightarrow> int" where
  "dec_digits n = int (length (nat_str n))"

definition dec_exponent :: "rat \<Rightarrow> int" where
  "dec_exponent q = (if 1 \<le> q then dec_digits (nat \<lfloor>q\<rfloor>) - 1
     else - (if \<lceil>1 / q\<rceil> \<le> 1 then 0 else dec_digits (nat (\<lceil>1 / q\<rceil> - 1))))"

definition sig8 :: "rat \<Rightarrow> rat" where
  "sig8 q = (if q = 0 then 0
     else (let u = 10 powi (dec_exponent \<bar>q\<bar> - 7) in of_int (round_half_even (q / u)) * u))"

definition roster_root :: "world \<Rightarrow> (string, rat) pydict \<Rightarrow> string" where
  "roster_root W d =
     sha256 W (join ''|'' (map (\<lambda>(a, s). a @ ''='' @ text_8g W (sig8 s)) (sort d)))"

definition validator_set_record :: "world \<Rightarrow> int \<Rightarrow> string \<Rightarrow> (string, rat) pydict \<Rightarrow> string \<Rightarrow> json" where
  "validator_set_record W round_id mode roster seed = JObj
     [(''type'', JStr ''validator_set''), (''round'', JInt round_id), (''mode'', JStr mode),
      (''roster'', JObj (map (\<lambda>(a, s). (a, JNum (Fin s))) roster)),
      (''roster_root'', JStr (roster_root W roster)), (''election_seed'', JStr seed),
      (''n'', JInt (int (length roster)))]"

definition elected_proposer_record ::
  "int \<Rightarrow> string option \<Rightarrow> string \<Rightarrow> string list \<Rightarrow> bool \<Rightarrow> bool \<Rightarrow> int \<Rightarrow> json" where
  "elected_proposer_record r elected actual ranked live reproducible roster_size = JObj
     [(''type'', JStr ''elected_proposer_audit''), (''round'', JInt r), (''elected'', json_of_opt elected),
      (''actual'', JStr actual), (''proposer_agrees'', JBool (elected = Some actual)),
      (''elected_is_live'', JBool live), (''avg_reproducible'', JBool reproducible),
      (''roster_size'', JInt roster_size), (''ranked'', JList (map JStr (take 8 ranked)))]"

subsection \<open>Round commitments\<close>

definition round_commitment ::
  "world \<Rightarrow> string \<Rightarrow> int \<Rightarrow> string \<Rightarrow> string \<Rightarrow> string \<Rightarrow> string \<Rightarrow> (string, string) pydict \<Rightarrow> rat \<Rightarrow> commitment" where
  "round_commitment W addr height prev beacon parent new deltas work =
     \<lparr>cm_height = height, cm_prev_hash = prev, cm_proposer = addr, cm_beacon = beacon,
      cm_parent_checkpoint = parent, cm_new_checkpoint = new, cm_work_score = Fin work,
      cm_merkle_root = delta_set_root W deltas, cm_tx_root = []\<rparr>"

definition build_signed_round_commitment ::
  "world \<Rightarrow> account \<Rightarrow> int \<Rightarrow> string \<Rightarrow> string \<Rightarrow> string \<Rightarrow> string \<Rightarrow> (string, string) pydict \<Rightarrow> rat
    \<Rightarrow> exn + json \<times> string" where
  "build_signed_round_commitment W a height prev beacon parent new deltas work =
     (let c = round_commitment W (acct_address a) height prev beacon parent new deltas work in
      bindE (sign_commitment W c a) (\<lambda>signed. bindE (commit_id W c) (\<lambda>i. Inr (signed, i))))"

definition round_commitment_record :: "int \<Rightarrow> string \<Rightarrow> json \<Rightarrow> string \<Rightarrow> string \<Rightarrow> int \<Rightarrow> json" where
  "round_commitment_record round_id mode signed cid prev n_deltas =
     (let sc = get_or signed ''commitment'' (JObj []) in JObj
       [(''type'', JStr ''round_commitment''), (''round'', JInt round_id), (''mode'', JStr mode),
        (''commit_id'', JStr cid), (''prev_commit_id'', JStr prev),
        (''proposer'', get_or signed ''signer'' (JStr [])), (''n_deltas'', JInt n_deltas),
        (''new_checkpoint'', get_or sc ''new_checkpoint'' (JStr [])),
        (''work_score'', get_or sc ''work_score'' (JNum (Fin 0))), (''signed'', signed)])"

subsection \<open>Auditing the commitment chain\<close>

definition is_object :: "json \<Rightarrow> bool" where
  "is_object j = (case j of JObj _ \<Rightarrow> True | _ \<Rightarrow> False)"

definition or_empty :: "json \<Rightarrow> json" where
  "or_empty j = (if truthy j then j else JObj [])"

definition rec_round :: "json \<Rightarrow> int" where
  "rec_round r = (case jint (get_or r ''round'' (JInt 0)) of None \<Rightarrow> 0 | Some n \<Rightarrow> n)"

record chain_report =
  cr_n :: nat
  cr_sig_failures :: "int list"
  cr_id_mismatches :: "int list"
  cr_chain_breaks :: "int list"
  cr_duplicate_rounds :: "int list"
  cr_round_gaps :: "int list"

record chain_audit =
  ca_report :: chain_report
  ca_prev_id :: json
  ca_prev_round :: "int option"
  ca_seen :: "int list"

definition id_matches :: "world \<Rightarrow> json \<Rightarrow> bool" where
  "id_matches W r =
     (case bindE (envelope_commitment (or_empty (get_or r ''signed'' JNull))) (commit_id W) of
        Inl _ \<Rightarrow> False | Inr i \<Rightarrow> get_or r ''commit_id'' JNull = JStr i)"

definition signature_ok :: "world \<Rightarrow> string option \<Rightarrow> json \<Rightarrow> bool" where
  "signature_ok W expected r =
     (case verify_commitment W (or_empty (get_or r ''signed'' JNull)) expected of Inl _ \<Rightarrow> False | Inr _ \<Rightarrow> True)"

definition audit_record :: "world \<Rightarrow> string option \<Rightarrow> string \<Rightarrow> chain_audit \<Rightarrow> json \<Rightarrow> chain_audit" where
  "audit_record W expected genesis st r =
     (let rnd = rec_round r; rep = ca_report st in
      if rnd \<in> set (ca_seen st)
      then st\<lparr>ca_report := rep\<lparr>cr_duplicate_rounds := cr_duplicate_rounds rep @ [rnd]\<rparr>\<rparr>
      else (let gap = (case ca_prev_round st of None \<Rightarrow> False | Some p \<Rightarrow> rnd \<noteq> p + 1);
                expected_prev = (if ca_prev_id st = JNull then JStr genesis else ca_prev_id st);
                add = (\<lambda>b xs. if b then xs @ [rnd] else xs)
            in \<lparr>ca_report = rep\<lparr>cr_round_gaps := add gap (cr_round_gaps rep),
                   cr_sig_failures := add (\<not> signature_ok W expected r) (cr_sig_failures rep),
                   cr_id_mismatches := add (\<not> id_matches W r) (cr_id_mismatches rep),
                   cr_chain_breaks := add (get_or r ''prev_commit_id'' JNull \<noteq> expected_prev)
                     (cr_chain_breaks rep)\<rparr>,
                 ca_prev_id = get_or r ''commit_id'' JNull, ca_prev_round = Some rnd,
                 ca_seen = rnd # ca_seen st\<rparr>))"

definition commitment_records :: "json list \<Rightarrow> json list" where
  "commitment_records records = sort_key rec_round
     (filter (\<lambda>r. is_object r \<and> get_or r ''type'' JNull = JStr ''round_commitment'') records)"

definition audit_start :: "nat \<Rightarrow> chain_audit" where
  "audit_start n = \<lparr>ca_report = \<lparr>cr_n = n, cr_sig_failures = [], cr_id_mismatches = [], cr_chain_breaks = [],
      cr_duplicate_rounds = [], cr_round_gaps = []\<rparr>, ca_prev_id = JNull, ca_prev_round = None, ca_seen = []\<rparr>"

definition report_ok :: "chain_report \<Rightarrow> bool" where
  "report_ok rep \<longleftrightarrow> cr_sig_failures rep = [] \<and> cr_id_mismatches rep = [] \<and> cr_chain_breaks rep = []
     \<and> cr_duplicate_rounds rep = []"

definition verify_commitment_chain :: "world \<Rightarrow> json list \<Rightarrow> string option \<Rightarrow> string \<Rightarrow> bool \<times> chain_report" where
  "verify_commitment_chain W records expected genesis =
     (let recs = commitment_records records;
          rep = ca_report (foldl (audit_record W expected genesis) (audit_start (length recs)) recs)
      in (report_ok rep, rep))"

subsection \<open>Auditing the elections\<close>

text \<open>The last record of a kind for a round counts. \<^verbatim>\<open>get\<close> on a value that is no dictionary raises.\<close>

definition dict_getE :: "json \<Rightarrow> string \<Rightarrow> json \<Rightarrow> exn + json" where
  "dict_getE d k v = (if is_object d then Inr (get_or d k v) else Inl AttributeError)"

definition committed_beacon :: "json \<Rightarrow> exn + json" where
  "committed_beacon r =
     bindE (dict_getE (or_empty (get_or r ''signed'' JNull)) ''commitment'' (JObj [])) (\<lambda>c.
       dict_getE (or_empty c) ''beacon'' JNull)"

record election_log =
  lg_vsets :: "(int, json) pydict"
  lg_claims :: "(int, json) pydict"
  lg_beacons :: "(int, json) pydict"

fun read_log :: "election_log \<Rightarrow> json list \<Rightarrow> exn + election_log" where
  "read_log lg [] = Inr lg"
| "read_log lg (r # rs) =
     (if \<not> is_object r then read_log lg rs
      else if get_or r ''type'' JNull = JStr ''validator_set''
        then read_log (lg\<lparr>lg_vsets := dset (rec_round r) r (lg_vsets lg)\<rparr>) rs
      else if get_or r ''type'' JNull = JStr ''elected_proposer_audit''
        then read_log (lg\<lparr>lg_claims := dset (rec_round r) r (lg_claims lg)\<rparr>) rs
      else if get_or r ''type'' JNull = JStr ''round_commitment''
        then bindE (committed_beacon r) (\<lambda>b.
               read_log (lg\<lparr>lg_beacons := dset (rec_round r) b (lg_beacons lg)\<rparr>) rs)
      else read_log lg rs)"

text \<open>The published roster with its stakes; a stake that is no finite number is treated as one that
  \<^verbatim>\<open>float\<close> refuses.\<close>

definition published_roster :: "json \<Rightarrow> exn + (string, rat) pydict" where
  "published_roster vs = (case or_empty (get_or vs ''roster'' JNull) of
       JObj kvs \<Rightarrow> mapE (\<lambda>(a, s). bindE (finite_float s) (\<lambda>q. Inr (a, q))) kvs
     | _ \<Rightarrow> Inl AttributeError)"

definition derived_winner :: "world \<Rightarrow> 'k::linorder election \<Rightarrow> json \<Rightarrow> exn + string option" where
  "derived_winner W E vs =
     bindE (published_roster vs) (\<lambda>roster.
       let stake = (if list_ex (\<lambda>(a, q). 0 < q) roster then Some (\<lambda>a. dget roster a 0) else None)
       in Inr (fst (elect_proposer W E (dkeys roster) (str_of W (get_or vs ''election_seed'' (JStr []))) stake)))"

record election_report =
  er_n :: nat
  er_verified :: "int list"
  er_election_mismatches :: "int list"
  er_seed_chain_breaks :: "int list"
  er_roster_churn :: "int list"
  er_missing_roster :: "int list"

definition expected_seed :: "election_log \<Rightarrow> string \<Rightarrow> int \<Rightarrow> json" where
  "expected_seed lg genesis rr = (if rr = 0 then JStr genesis else dget (lg_beacons lg) (rr - 1) JNull)"

definition audit_election :: "world \<Rightarrow> 'k::linorder election \<Rightarrow> election_log \<Rightarrow> string
    \<Rightarrow> election_report \<times> json \<Rightarrow> int \<times> json \<Rightarrow> exn + election_report \<times> json" where
  "audit_election W E lg genesis st c = (case (st, c) of ((rep, prev_root), (rr, claim)) \<Rightarrow>
     (case map_of (lg_vsets lg) rr of
        None \<Rightarrow> Inr (rep\<lparr>er_missing_roster := er_missing_roster rep @ [rr]\<rparr>, prev_root)
      | Some vs \<Rightarrow>
          bindE (derived_winner W E vs) (\<lambda>winner.
            let add = (\<lambda>b xs. if b then xs @ [rr] else xs);
                agrees = (json_of_opt winner = get_or claim ''elected'' JNull);
                seed = expected_seed lg genesis rr
            in Inr (rep\<lparr>er_verified := add agrees (er_verified rep),
                        er_election_mismatches := add (\<not> agrees) (er_election_mismatches rep),
                        er_seed_chain_breaks := add (seed \<noteq> JNull
                          \<and> get_or vs ''election_seed'' JNull \<noteq> seed) (er_seed_chain_breaks rep),
                        er_roster_churn := add (prev_root \<noteq> JNull
                          \<and> get_or vs ''roster_root'' JNull \<noteq> prev_root) (er_roster_churn rep)\<rparr>,
                    get_or vs ''roster_root'' JNull))))"

fun audit_elections :: "world \<Rightarrow> 'k::linorder election \<Rightarrow> election_log \<Rightarrow> string
    \<Rightarrow> election_report \<times> json \<Rightarrow> (int \<times> json) list \<Rightarrow> exn + election_report" where
  "audit_elections W E lg genesis st [] = Inr (fst st)"
| "audit_elections W E lg genesis st (c # cs) =
     bindE (audit_election W E lg genesis st c) (\<lambda>st'. audit_elections W E lg genesis st' cs)"

definition verify_proposer_elections ::
  "world \<Rightarrow> 'k::linorder election \<Rightarrow> json list \<Rightarrow> string \<Rightarrow> exn + bool \<times> election_report" where
  "verify_proposer_elections W E records genesis =
     bindE (read_log \<lparr>lg_vsets = [], lg_claims = [], lg_beacons = []\<rparr> records) (\<lambda>lg.
     bindE (audit_elections W E lg genesis
         (\<lparr>er_n = length (lg_claims lg), er_verified = [], er_election_mismatches = [],
           er_seed_chain_breaks = [], er_roster_churn = [], er_missing_roster = []\<rparr>, JNull)
         (sort_key fst (lg_claims lg))) (\<lambda>rep.
       Inr (er_election_mismatches rep = [] \<and> er_seed_chain_breaks rep = [], rep)))"

subsection \<open>Facts\<close>

lemma elect_in_roster:
  assumes "elect_proposer W E roster prev stake = (Some w, ranked)"
  shows "w \<in> set roster" "set ranked = set roster" "distinct ranked"
    "\<forall>a \<in> set roster. election_key W E prev stake w \<le> election_key W E prev stake a"
proof -
  let ?k = "election_key W E prev stake" and ?r = "sort (remdups roster)"
  have r: "ranked = sort_key ?k ?r" "w = hd ranked" "?r \<noteq> []"
    using assms by (auto simp: elect_proposer_def Let_def split: if_splits)
  show s: "set ranked = set roster" and "distinct ranked" by (simp_all add: r(1))
  from s r(3) obtain rest where w: "ranked = w # rest"
    by (cases ranked) (auto simp: r(2))
  have "sorted (map ?k ranked)" by (simp add: r(1))
  then have "\<forall>a \<in> set ranked. ?k w \<le> ?k a" by (simp add: w)
  then show "\<forall>a \<in> set roster. ?k w \<le> ?k a" unfolding s .
  show "w \<in> set roster" using s w by auto
qed

lemma elect_permutation:
  assumes "set r1 = set r2"
  shows "elect_proposer W E r1 prev stake = elect_proposer W E r2 prev stake"
proof -
  have "sort (remdups r1) = sort (remdups r2)"
    using assms by (intro sorted_distinct_set_unique) auto
  then show ?thesis by (simp add: elect_proposer_def)
qed

lemma takeover_successor:
  assumes "dc_successor (takeover_decision ranked seen now stale) = Some p"
  obtains before after where "ranked = before @ p # after" "fresh seen now stale p"
    "\<forall>q \<in> set before. \<not> fresh seen now stale q"
proof -
  have "List.find (fresh seen now stale) ranked = Some p"
    using assms by (cases ranked) (auto simp: takeover_decision_def Let_def)
  then obtain i where "i < length ranked" "ranked ! i = p" "fresh seen now stale p"
    "\<forall>j<i. \<not> fresh seen now stale (ranked ! j)"
    by (auto simp: find_Some_iff)
  then show thesis
    by (intro that [of "take i ranked" "drop (Suc i) ranked"])
      (auto simp: id_take_nth_drop in_set_conv_nth)
qed

text \<open>What an accepted chain is: one record per round, every signature and id right, every link
  naming the record before it.\<close>

fun links :: "json \<Rightarrow> json list \<Rightarrow> bool" where
  "links prev [] = True"
| "links prev (r # rs) = (get_or r ''prev_commit_id'' JNull = prev \<and> links (get_or r ''commit_id'' JNull) rs)"

definition valid_chain :: "world \<Rightarrow> string option \<Rightarrow> string \<Rightarrow> json list \<Rightarrow> bool" where
  "valid_chain W expected genesis recs \<longleftrightarrow> distinct (map rec_round recs)
     \<and> list_all (\<lambda>r. signature_ok W expected r \<and> id_matches W r) recs \<and> links (JStr genesis) recs"

definition audit_link :: "string \<Rightarrow> chain_audit \<Rightarrow> json" where
  "audit_link genesis st = (if ca_prev_id st = JNull then JStr genesis else ca_prev_id st)"

lemma audit_record_ok:
  "report_ok (ca_report (audit_record W expected genesis st r)) \<longleftrightarrow>
     report_ok (ca_report st) \<and> rec_round r \<notin> set (ca_seen st) \<and> signature_ok W expected r
     \<and> id_matches W r \<and> get_or r ''prev_commit_id'' JNull = audit_link genesis st"
  by (auto simp: audit_record_def Let_def report_ok_def audit_link_def)

lemma id_matches_some: "id_matches W r \<Longrightarrow> get_or r ''commit_id'' JNull \<noteq> JNull"
  by (auto simp: id_matches_def split: sum.splits)

lemma audit_record_next:
  assumes "rec_round r \<notin> set (ca_seen st)" "id_matches W r"
  shows "ca_seen (audit_record W expected genesis st r) = rec_round r # ca_seen st"
    "audit_link genesis (audit_record W expected genesis st r) = get_or r ''commit_id'' JNull"
  using assms id_matches_some [OF assms(2)] by (auto simp: audit_record_def Let_def audit_link_def)

lemma audit_never_recovers:
  "report_ok (ca_report (foldl (audit_record W expected genesis) st rs)) \<Longrightarrow> report_ok (ca_report st)"
proof (induction rs arbitrary: st)
  case (Cons r rs)
  from Cons.prems have "report_ok (ca_report (foldl (audit_record W expected genesis)
      (audit_record W expected genesis st r) rs))" by simp
  from Cons.IH [OF this] show ?case by (simp add: audit_record_ok)
qed simp

lemma audit_run:
  "report_ok (ca_report (foldl (audit_record W expected genesis) st rs)) \<longleftrightarrow>
     report_ok (ca_report st) \<and> distinct (map rec_round rs) \<and> set (map rec_round rs) \<inter> set (ca_seen st) = {}
     \<and> list_all (\<lambda>r. signature_ok W expected r \<and> id_matches W r) rs \<and> links (audit_link genesis st) rs"
proof (induction rs arbitrary: st)
  case (Cons r rs)
  let ?st = "audit_record W expected genesis st r"
  show ?case
  proof (cases "report_ok (ca_report ?st)")
    case True
    then have k: "rec_round r \<notin> set (ca_seen st)" "id_matches W r" by (simp_all add: audit_record_ok)
    from True Cons.IH [of ?st] show ?thesis by (auto simp: audit_record_next [OF k] audit_record_ok)
  next
    case False
    then have "\<not> report_ok (ca_report (foldl (audit_record W expected genesis) ?st rs))"
      using audit_never_recovers by blast
    with False show ?thesis by (auto simp: audit_record_ok)
  qed
qed simp

lemma verify_commitment_chain_iff:
  "fst (verify_commitment_chain W records expected genesis) \<longleftrightarrow>
     valid_chain W expected genesis (commitment_records records)"
proof -
  have "report_ok (ca_report (audit_start n))" "ca_seen (audit_start n) = []"
    "audit_link genesis (audit_start n) = JStr genesis" for n
    by (simp_all add: audit_start_def report_ok_def audit_link_def)
  then show ?thesis by (simp add: verify_commitment_chain_def Let_def audit_run valid_chain_def)
qed

lemma commitment_records_sorted: "sorted (map rec_round (commitment_records records))"
  by (simp add: commitment_records_def)

text \<open>A proposer's own log passes: rounds numbered upwards, each commitment chained to the last.\<close>

fun honest_log :: "world \<Rightarrow> account \<Rightarrow> string \<Rightarrow> int \<Rightarrow> string
    \<Rightarrow> (string \<times> string \<times> string \<times> (string, string) pydict \<times> rat) list \<Rightarrow> exn + json list" where
  "honest_log W a mode h prev [] = Inr []"
| "honest_log W a mode h prev ((beacon, parent, new, deltas, work) # rounds) =
     bindE (build_signed_round_commitment W a h prev beacon parent new deltas work) (\<lambda>(signed, i).
     bindE (honest_log W a mode (h + 1) i rounds) (\<lambda>rest.
       Inr (round_commitment_record h mode signed i prev (int (length deltas)) # rest)))"

lemma round_record_getters:
  "get_or (round_commitment_record h mode signed i prev n) ''type'' v = JStr ''round_commitment''"
  "get_or (round_commitment_record h mode signed i prev n) ''round'' v = JInt h"
  "get_or (round_commitment_record h mode signed i prev n) ''commit_id'' v = JStr i"
  "get_or (round_commitment_record h mode signed i prev n) ''prev_commit_id'' v = JStr prev"
  "get_or (round_commitment_record h mode signed i prev n) ''signed'' v = signed"
  "is_object (round_commitment_record h mode signed i prev n)"
  "rec_round (round_commitment_record h mode signed i prev n) = h"
  by (simp_all add: round_commitment_record_def Let_def is_object_def rec_round_def)

lemma sign_commitment_Inr:
  assumes "sign_commitment W c a = Inr signed"
  obtains j k where "commitment_canonical c = Inr j" "acct_key a = Some k"
    "envelope_commitment signed = Inr c" "or_empty signed = signed"
  using assms
  by (auto simp: sign_commitment_def bindE_Inr_iff account_key_def orE_Inr_iff envelope_commitment_def
      or_empty_def commitment_roundtrip)

lemma honest_record_ok:
  assumes "signs_correctly W" "build_signed_round_commitment W a h prev b p q d w = Inr (signed, i)"
    "acct_key a = Some k"
  shows "signature_ok W (Some (address_of_key W k)) (round_commitment_record h mode signed i prev n)"
    "id_matches W (round_commitment_record h mode signed i prev n)"
proof -
  from assms(2) obtain c where s: "sign_commitment W c a = Inr signed" and i: "commit_id W c = Inr i"
    by (auto simp: build_signed_round_commitment_def Let_def bindE_Inr_iff)
  from s obtain j where e: "envelope_commitment signed = Inr c" "or_empty signed = signed"
    by (rule sign_commitment_Inr)
  show "signature_ok W (Some (address_of_key W k)) (round_commitment_record h mode signed i prev n)"
    using verify_sign_commitment [OF assms(1) s assms(3)]
    by (simp add: signature_ok_def round_record_getters e)
  show "id_matches W (round_commitment_record h mode signed i prev n)"
    by (simp add: id_matches_def round_record_getters e i)
qed

lemma honest_log_valid:
  assumes "signs_correctly W" "acct_key a = Some k" "honest_log W a mode h prev rounds = Inr recs"
  shows "valid_chain W (Some (address_of_key W k)) prev recs \<and> sorted (map rec_round recs)
    \<and> (\<forall>r \<in> set recs. h \<le> rec_round r \<and> is_object r \<and> get_or r ''type'' JNull = JStr ''round_commitment'')"
  using assms(3)
proof (induction rounds arbitrary: h prev recs)
  case Nil
  then show ?case by (simp add: valid_chain_def)
next
  case (Cons x rounds)
  obtain b p q d w where x: "x = (b, p, q, d, w)" by (cases x) auto
  from Cons.prems obtain signed i rest where
    bld: "build_signed_round_commitment W a h prev b p q d w = Inr (signed, i)"
    and rest: "honest_log W a mode (h + 1) i rounds = Inr rest"
    and recs: "recs = round_commitment_record h mode signed i prev (int (length d)) # rest"
    by (auto simp: x bindE_Inr_iff)
  from Cons.IH [OF rest] honest_record_ok [OF assms(1) bld assms(2)]
  show ?case by (force simp: recs valid_chain_def round_record_getters)
qed

lemma honest_log_verifies:
  assumes "signs_correctly W" "acct_key a = Some k" "honest_log W a mode h genesis rounds = Inr recs"
  shows "fst (verify_commitment_chain W recs (Some (address_of_key W k)) genesis)"
proof -
  note v = honest_log_valid [OF assms]
  then have "commitment_records recs = recs"
    by (simp add: commitment_records_def sort_key_id_if_sorted)
  with v show ?thesis by (simp add: verify_commitment_chain_iff)
qed

text \<open>The set of the deltas determines the root, but the root does not determine the set.\<close>

lemma delta_set_root_order:
  assumes "set d1 = set d2" "distinct d1" "distinct d2"
  shows "delta_set_root W d1 = delta_set_root W d2"
proof -
  have "sort d1 = sort d2" using assms by (intro sorted_distinct_set_unique) auto
  then show ?thesis by (simp add: delta_set_root_def)
qed

lemma delta_set_root_collision:
  "delta_set_root W [(''a'', ''1|b=2'')] = delta_set_root W [(''a'', ''1''), (''b'', ''2'')]"
  by (simp add: delta_set_root_def)

lemma sig8_collision: "sig8 100000000 = sig8 (100000000 + 1 / 4)"
proof -
  have d: "dec_digits 100000000 = 9" by (simp add: dec_digits_def nat_str.simps)
  have f: "\<lfloor>400000001 / 4 :: rat\<rfloor> = 100000000" by (simp add: floor_eq_iff)
  have r: "round_half_even (400000001 / 40 :: rat) = 10000000"
  proof -
    have "\<lfloor>400000001 / 40 :: rat\<rfloor> = 10000000" by (simp add: floor_eq_iff)
    then show ?thesis by (simp add: round_half_even_def Let_def)
  qed
  show ?thesis
    using round_half_even_of_int [of 10000000] by (simp add: sig8_def Let_def dec_exponent_def d f r)
qed

lemma roster_root_collision:
  "roster_root W [(a, 100000000)] = roster_root W [(a, 100000000 + 1 / 4)]"
  using sig8_collision by (simp add: roster_root_def)

end
