(* ===== verification/Guardian.thy ===== *)
theory Guardian
  imports Signing
begin

text \<open>
  The k-of-m guardian multisig and the emergency halt, \<^verbatim>\<open>neurahash/guardian_halt.py\<close>. The ledger that
  keeps the intents is handed in by the caller, from outside the repository: its two operations are a
  parameter, and both may raise, which the code swallows.
\<close>

subsection \<open>Signed orders\<close>

definition HALT :: string where "HALT = ''halt''"
definition RESUME :: string where "RESUME = ''resume''"

definition halt_payload :: "world \<Rightarrow> string \<Rightarrow> int \<Rightarrow> string \<Rightarrow> int \<Rightarrow> string" where
  "halt_payload W action epoch reason duration = dumps W (JObj
     [(''guard'', JStr ''neurahash-halt''), (''action'', JStr action), (''epoch'', JInt epoch),
      (''reason'', JStr reason), (''duration_s'', JInt duration)])"

subsection \<open>The guardian set\<close>

record guardian_set =
  gs_members :: "string list"
  gs_threshold :: nat

definition guardian_set_new :: "string list \<Rightarrow> int \<Rightarrow> exn + guardian_set" where
  "guardian_set_new members k =
     (let ms = remdups (map (\<lambda>a. str_lower (str_strip a)) (filter (\<lambda>a. str_strip a \<noteq> []) members)) in
      if ms = [] then Inl (ValueError ''guardian set is empty'')
      else if \<not> (1 \<le> k \<and> k \<le> int (length ms)) then Inl (ValueError ''threshold out of range'')
      else Inr \<lparr>gs_members = ms, gs_threshold = nat k\<rparr>)"

text \<open>One signature: the member it recovers to. A value that is no string makes the recovery
  raise, which the code swallows.\<close>

definition member_signer :: "world \<Rightarrow> guardian_set \<Rightarrow> string \<Rightarrow> json \<Rightarrow> string option" where
  "member_signer W gs payload sig = (case sig of
       JStr s \<Rightarrow> (case recover_bytes_scheme W payload s None of
           Inl _ \<Rightarrow> None
         | Inr a \<Rightarrow> (if str_lower a \<in> set (gs_members gs) then Some (str_lower a) else None))
     | _ \<Rightarrow> None)"

text \<open>The Python set of signers, as the list of its elements in the order they were added.\<close>

fun distinct_signers :: "world \<Rightarrow> guardian_set \<Rightarrow> string \<Rightarrow> json list \<Rightarrow> string list" where
  "distinct_signers W gs payload [] = []"
| "distinct_signers W gs payload (sig # sigs) =
     (case member_signer W gs payload sig of
        None \<Rightarrow> distinct_signers W gs payload sigs
      | Some a \<Rightarrow> List.insert a (distinct_signers W gs payload sigs))"

definition meets_threshold :: "world \<Rightarrow> guardian_set \<Rightarrow> string \<Rightarrow> json list \<Rightarrow> bool" where
  "meets_threshold W gs payload sigs \<longleftrightarrow>
     gs_threshold gs \<le> length (distinct_signers W gs payload sigs)"

lemma distinct_signers_distinct [simp]: "distinct (distinct_signers W gs p sigs)"
  by (induction sigs) (auto split: option.splits)

lemma member_signer_Some:
  "member_signer W gs p sig = Some a \<longleftrightarrow> a \<in> set (gs_members gs)
     \<and> (\<exists>s r. sig = JStr s \<and> recover_bytes_scheme W p s None = Inr r \<and> a = str_lower r)"
  by (auto simp: member_signer_def split: json.splits sum.splits if_splits)

lemma set_distinct_signers:
  "set (distinct_signers W gs p sigs) = {a. \<exists>sig \<in> set sigs. member_signer W gs p sig = Some a}"
  by (induction sigs) (auto split: option.splits)

lemma distinct_signers_members: "set (distinct_signers W gs p sigs) \<subseteq> set (gs_members gs)"
  by (auto simp: set_distinct_signers member_signer_Some)

lemma distinct_signers_card: "length (distinct_signers W gs p sigs) = card (set (distinct_signers W gs p sigs))"
  by (simp add: distinct_card)

lemma guardian_set_new_Inr:
  "guardian_set_new ms k = Inr gs \<Longrightarrow> distinct (gs_members gs) \<and> gs_members gs \<noteq> []
     \<and> 1 \<le> gs_threshold gs \<and> gs_threshold gs \<le> length (gs_members gs) \<and> int (gs_threshold gs) = k"
  by (auto simp: guardian_set_new_def Let_def split: if_splits)

lemma recover_default_scheme:
  "recover_bytes_scheme W data sig None = recover_bytes W data sig"
  by (simp add: recover_bytes_scheme_def require_supported_def normalize_scheme_def scheme_defs)

subsection \<open>The halt state machine\<close>

text \<open>The operations of a ledger in the state \<open>'l\<close>: \<^verbatim>\<open>governance\<close> adds a record, \<^verbatim>\<open>governance_records\<close>
  lists them.\<close>

record 'l intent_ledger =
  il_governance :: "'l \<Rightarrow> json \<Rightarrow> (exn + unit) \<times> 'l"
  il_records :: "'l \<Rightarrow> exn + json list"

record 'l guardian_halt =
  gh_set :: guardian_set
  gh_max_halt :: rat
  gh_halted_until :: rat
  gh_last_epoch :: int
  gh_ledger :: "'l option"

text \<open>The epochs of the halt and resume intents of a ledger; a record is bare, or wrapped under
  \<^verbatim>\<open>"record"\<close>. An epoch that is no number raises out of the constructor.\<close>

definition intent_epoch :: "json \<Rightarrow> exn + int option" where
  "intent_epoch r =
     (let rec = (case r of JObj _ \<Rightarrow> get_or r ''record'' r | _ \<Rightarrow> JObj []) in
      case rec of
        JObj _ \<Rightarrow> (if get_or rec ''guard_intent'' JNull \<in> {JStr HALT, JStr RESUME}
                   then bindE (intE (get_or rec ''epoch'' (JInt 0))) (\<lambda>e. Inr (Some e)) else Inr None)
      | _ \<Rightarrow> Inr None)"

fun epoch_floor :: "int \<Rightarrow> json list \<Rightarrow> exn + int" where
  "epoch_floor e [] = Inr e"
| "epoch_floor e (r # rs) = bindE (intent_epoch r) (\<lambda>x.
     epoch_floor (case x of None \<Rightarrow> e | Some n \<Rightarrow> max e n) rs)"

text \<open>A ledger that cannot be read leaves the floor at zero.\<close>

definition guardian_halt_new ::
  "'l intent_ledger \<Rightarrow> guardian_set \<Rightarrow> 'l option \<Rightarrow> rat \<Rightarrow> exn + 'l guardian_halt" where
  "guardian_halt_new L gs ledger max_halt =
     bindE (case ledger of None \<Rightarrow> Inr 0
       | Some l \<Rightarrow> (case il_records L l of Inl _ \<Rightarrow> Inr 0 | Inr rs \<Rightarrow> epoch_floor 0 rs)) (\<lambda>e.
       Inr \<lparr>gh_set = gs, gh_max_halt = max_halt, gh_halted_until = 0, gh_last_epoch = e,
            gh_ledger = ledger\<rparr>)"

definition is_halted :: "'l guardian_halt \<Rightarrow> rat \<Rightarrow> bool" where
  "is_halted g now \<longleftrightarrow> now < gh_halted_until g"

definition remaining :: "'l guardian_halt \<Rightarrow> rat \<Rightarrow> rat" where
  "remaining g now = max 0 (fsub (gh_halted_until g) now)"

text \<open>\<^verbatim>\<open>_record\<close>: whatever the ledger raises is swallowed, and the ledger is in the state it leaves.\<close>

definition intent_record :: "'l guardian_halt \<Rightarrow> string \<Rightarrow> int \<Rightarrow> string \<Rightarrow> rat \<Rightarrow> json" where
  "intent_record g action epoch reason expiry = JObj
     [(''guard_intent'', JStr action), (''epoch'', JInt epoch), (''reason'', JStr reason),
      (''expiry'', JNum (Fin expiry)), (''k'', JInt (int (gs_threshold (gh_set g)))),
      (''m'', JInt (int (length (gs_members (gh_set g)))))]"

definition record_intent ::
  "'l intent_ledger \<Rightarrow> 'l guardian_halt \<Rightarrow> string \<Rightarrow> int \<Rightarrow> string \<Rightarrow> rat \<Rightarrow> 'l guardian_halt" where
  "record_intent L g action epoch reason expiry = (case gh_ledger g of
       None \<Rightarrow> g
     | Some l \<Rightarrow> (case il_governance L l (intent_record g action epoch reason expiry) of
           (Inr _, l') \<Rightarrow> g\<lparr>gh_ledger := Some l'\<rparr>
         | (Inl _, l') \<Rightarrow> g\<lparr>gh_ledger := Some l'\<rparr>))"

datatype halt_outcome =
    Halted rat
  | Resumed
  | StaleEpoch int int
  | UnknownAction
  | InsufficientSignatures nat nat

definition accepted_order :: "halt_outcome \<Rightarrow> bool" where
  "accepted_order out = (case out of Halted _ \<Rightarrow> True | Resumed \<Rightarrow> True | _ \<Rightarrow> False)"

text \<open>\<^verbatim>\<open>int(x)\<close> of a finite float.\<close>

definition trunc :: "rat \<Rightarrow> int" where
  "trunc q = (if 0 \<le> q then \<lfloor>q\<rfloor> else \<lceil>q\<rceil>)"

text \<open>\<open>duration\<close> is the number the order carries, an integer or a float.\<close>

definition submit :: "world \<Rightarrow> 'l intent_ledger \<Rightarrow> 'l guardian_halt \<Rightarrow> string \<Rightarrow> int \<Rightarrow> json list \<Rightarrow> rat
    \<Rightarrow> string \<Rightarrow> rat \<Rightarrow> halt_outcome \<times> 'l guardian_halt" where
  "submit W L g action epoch sigs now reason duration =
     (if epoch \<le> gh_last_epoch g then (StaleEpoch epoch (gh_last_epoch g), g)
      else if action \<noteq> HALT \<and> action \<noteq> RESUME then (UnknownAction, g)
      else (let payload = halt_payload W action epoch reason (trunc duration) in
        if \<not> meets_threshold W (gh_set g) payload sigs
        then (InsufficientSignatures (length (distinct_signers W (gh_set g) payload sigs))
                (gs_threshold (gh_set g)), g)
        else (let g1 = g\<lparr>gh_last_epoch := epoch\<rparr> in
          if action = HALT
          then (let eff = (if 0 < duration then min (rnd64 duration) (gh_max_halt g) else gh_max_halt g);
                    g2 = g1\<lparr>gh_halted_until := fadd now eff\<rparr>
                in (Halted eff, record_intent L g2 HALT epoch reason (fadd now eff)))
          else (Resumed, record_intent L (g1\<lparr>gh_halted_until := 0\<rparr>) RESUME epoch reason 0))))"

text \<open>
  The order file. \<open>JNull\<close> is an unreadable file. \<^verbatim>\<open>signatures or []\<close> is iterated: a string gives its
  characters, a dictionary its keys, a number raises. A duration that is a numeric string passes \<^verbatim>\<open>int\<close>, and the comparison with 0 raises once
  the epoch has been advanced.
\<close>

definition signature_items :: "json \<Rightarrow> exn + json list" where
  "signature_items j =
     (if \<not> truthy j then Inr []
      else case j of
        JList xs \<Rightarrow> Inr xs
      | JStr s \<Rightarrow> Inr (map (\<lambda>c. JStr [c]) s)
      | JObj kvs \<Rightarrow> Inr (map (\<lambda>(k, v). JStr k) kvs)
      | _ \<Rightarrow> Inl TypeError)"

fun order_duration :: "json \<Rightarrow> exn + rat" where
  "order_duration (JInt n) = Inr (of_int n)"
| "order_duration (JBool b) = Inr (if b then 1 else 0)"
| "order_duration (JNum (Fin q)) = Inr q"
| "order_duration (JNum NonFin) = Inl (ValueError ''cannot convert float to integer'')"
| "order_duration (JStr s) = map_sum id of_int (intE (JStr s))"
| "order_duration _ = Inl TypeError"

definition poll_order :: "world \<Rightarrow> 'l intent_ledger \<Rightarrow> 'l guardian_halt \<Rightarrow> json \<Rightarrow> rat
    \<Rightarrow> (exn + halt_outcome option) \<times> 'l guardian_halt" where
  "poll_order W L g order now =
     (if \<not> truthy order then (Inr None, g)
      else case order of
        JObj _ \<Rightarrow>
          (case intE (get_or order ''epoch'' (JInt 0)) of
             Inl e \<Rightarrow> (Inl e, g)
           | Inr epoch \<Rightarrow>
             if epoch \<le> gh_last_epoch g then (Inr None, g)
             else (case get_or order ''action'' JNull of
                 JStr action \<Rightarrow>
                   if action \<noteq> HALT \<and> action \<noteq> RESUME then (Inr (Some UnknownAction), g)
                   else (let dur = get_or order ''duration_s'' (JInt 0) in
                     case bindE (order_duration dur) (\<lambda>d.
                            bindE (signature_items (get_or order ''signatures'' JNull)) (\<lambda>sigs. Inr (d, sigs))) of
                       Inl e \<Rightarrow> (Inl e, g)
                     | Inr (d, sigs) \<Rightarrow>
                         (case submit W L g action epoch sigs now
                             (str_of W (get_or order ''reason'' (JStr []))) d of
                            (Halted eff, g') \<Rightarrow>
                              (case dur of JStr _ \<Rightarrow> (Inl TypeError, g\<lparr>gh_last_epoch := epoch\<rparr>)
                               | _ \<Rightarrow> (Inr (Some (Halted eff)), g'))
                          | (out, g') \<Rightarrow> (Inr (Some out), g')))
               | _ \<Rightarrow> (Inr (Some UnknownAction), g)))
      | _ \<Rightarrow> (Inl AttributeError, g))"

definition build_order :: "world \<Rightarrow> string \<Rightarrow> int \<Rightarrow> account list \<Rightarrow> string \<Rightarrow> rat \<Rightarrow> exn + json" where
  "build_order W action epoch accounts reason duration =
     bindE (mapE (\<lambda>a. sign_bytes W a (halt_payload W action epoch reason (trunc duration))) accounts) (\<lambda>sigs.
       Inr (JObj [(''action'', JStr action), (''epoch'', JInt epoch), (''reason'', JStr reason),
                  (''duration_s'', JInt (trunc duration)), (''signatures'', JList (map JStr sigs))]))"

text \<open>\<^verbatim>\<open>guardian_set_from_env\<close>: the two environment variables, absent as the empty list and \<open>None\<close>.\<close>

fun split_commas :: "string \<Rightarrow> string \<Rightarrow> string list" where
  "split_commas acc [] = [rev acc]"
| "split_commas acc (c # cs) =
     (if c = CHR '','' then rev acc # split_commas [] cs else split_commas (c # acc) cs)"

definition guardian_set_from_env :: "string \<Rightarrow> string option \<Rightarrow> exn + guardian_set option" where
  "guardian_set_from_env guardians threshold =
     (let raw = str_strip guardians;
          members = filter (\<lambda>a. a \<noteq> []) (map str_strip (split_commas [] raw))
      in if raw = [] \<or> members = [] then Inr None
         else bindE (case threshold of
               None \<Rightarrow> Inr (int (length members) div 2 + 1)
             | Some t \<Rightarrow> orE (ValueError ''invalid literal for int'') (int_of_str t)) (\<lambda>k.
           bindE (guardian_set_new members k) (\<lambda>gs. Inr (Some gs))))"

subsection \<open>Facts\<close>

lemma submit_cases:
  assumes "submit W L g action epoch sigs now reason duration = (out, g')"
  shows "(\<not> accepted_order out \<and> g' = g)
    \<or> (accepted_order out \<and> gh_last_epoch g < epoch \<and> gh_last_epoch g' = epoch \<and> gh_set g' = gh_set g
        \<and> gh_max_halt g' = gh_max_halt g
        \<and> meets_threshold W (gh_set g) (halt_payload W action epoch reason (trunc duration)) sigs
        \<and> (out = Resumed \<and> action = RESUME \<and> gh_halted_until g' = 0
           \<or> action = HALT \<and> (\<exists>eff \<le> gh_max_halt g. out = Halted eff \<and> gh_halted_until g' = fadd now eff)))"
  using assms
  by (auto simp: submit_def Let_def accepted_order_def record_intent_def HALT_def RESUME_def
      split: if_splits option.splits prod.splits sum.splits)

text \<open>An order as one event: the epoch floor never falls, whatever is submitted.\<close>

type_synonym halt_order = "string \<times> int \<times> json list \<times> rat \<times> string \<times> rat"

definition halt_step :: "world \<Rightarrow> 'l intent_ledger \<Rightarrow> 'l guardian_halt \<Rightarrow> halt_order \<Rightarrow> 'l guardian_halt" where
  "halt_step W L g ord = (case ord of (action, epoch, sigs, now, reason, duration) \<Rightarrow>
     snd (submit W L g action epoch sigs now reason duration))"

lemma halt_step_epoch: "gh_last_epoch g \<le> gh_last_epoch (halt_step W L g ord)"
proof -
  obtain action epoch sigs now reason duration where o: "ord = (action, epoch, sigs, now, reason, duration)"
    by (cases ord) auto
  obtain out g' where s: "submit W L g action epoch sigs now reason duration = (out, g')" by fastforce
  from submit_cases [OF s] show ?thesis by (auto simp: halt_step_def o s)
qed

interpretation halt_epochs: monotone_steps "halt_step W L" gh_last_epoch
  by unfold_locales (rule halt_step_epoch)

text \<open>What is asked of a ledger: it keeps a log, a call that returns has added the record, bare or wrapped,
  no call loses an earlier one, and a read that returns lists the log.\<close>

definition append_only :: "'l intent_ledger \<Rightarrow> ('l \<Rightarrow> json list) \<Rightarrow> bool" where
  "append_only L kept \<longleftrightarrow>
     (\<forall>l rs. il_records L l = Inr rs \<longrightarrow> rs = kept l)
   \<and> (\<forall>l r. set (kept l) \<subseteq> set (kept (snd (il_governance L l r))))
   \<and> (\<forall>l r l'. il_governance L l r = (Inr (), l') \<longrightarrow> (\<exists>w \<in> set (kept l'). intent_epoch w = intent_epoch r))"

definition epoch_logged :: "('l \<Rightarrow> json list) \<Rightarrow> int \<Rightarrow> 'l guardian_halt \<Rightarrow> bool" where
  "epoch_logged kept epoch g \<longleftrightarrow>
     (\<exists>l. gh_ledger g = Some l \<and> (\<exists>w \<in> set (kept l). intent_epoch w = Inr (Some epoch)))"

lemma record_intent_simps [simp]:
  "gh_set (record_intent L g action epoch reason expiry) = gh_set g"
  "gh_last_epoch (record_intent L g action epoch reason expiry) = gh_last_epoch g"
  "gh_halted_until (record_intent L g action epoch reason expiry) = gh_halted_until g"
  "gh_ledger (record_intent L g action epoch reason expiry)
     = map_option (\<lambda>l. snd (il_governance L l (intent_record g action epoch reason expiry))) (gh_ledger g)"
  by (auto simp: record_intent_def split: option.split prod.split sum.split)

lemma record_intent_keeps:
  "append_only L kept \<Longrightarrow> epoch_logged kept e g \<Longrightarrow> epoch_logged kept e (record_intent L g action epoch reason expiry)"
  unfolding append_only_def epoch_logged_def by (auto; blast)

lemma intent_epoch_record:
  "action \<in> {HALT, RESUME} \<Longrightarrow> intent_epoch (intent_record g action epoch reason expiry) = Inr (Some epoch)"
  by (auto simp: intent_epoch_def intent_record_def Let_def HALT_def RESUME_def)

lemma record_intent_logs:
  assumes "append_only L kept" "gh_ledger g = Some l" "action \<in> {HALT, RESUME}"
    "il_governance L l (intent_record g action epoch reason expiry) = (Inr (), l')"
  shows "epoch_logged kept epoch (record_intent L g action epoch reason expiry)"
  using assms intent_epoch_record [OF assms(3), of g epoch reason expiry]
  unfolding append_only_def epoch_logged_def record_intent_def by fastforce

lemma epoch_logged_fields [simp]:
  "epoch_logged kept e (g\<lparr>gh_last_epoch := x\<rparr>) = epoch_logged kept e g"
  "epoch_logged kept e (g\<lparr>gh_halted_until := y\<rparr>) = epoch_logged kept e g"
  by (simp_all add: epoch_logged_def)

lemma halt_step_logged: "append_only L kept \<Longrightarrow> epoch_logged kept e g \<Longrightarrow> epoch_logged kept e (halt_step W L g ord)"
  by (auto simp: halt_step_def submit_def Let_def split: prod.splits intro: record_intent_keeps)

interpretation halt_logged: keeps_invariant "halt_step W L" "\<lambda>g. append_only L kept \<longrightarrow> epoch_logged kept e g"
  for kept e by unfold_locales (simp add: halt_step_logged)

text \<open>A floor read from a log is at least every epoch in it.\<close>

lemma epoch_floor_ge: "epoch_floor e rs = Inr n \<Longrightarrow> e \<le> n"
  by (induction rs arbitrary: e) (fastforce simp: bindE_Inr_iff split: option.splits)+

lemma epoch_floor_covers:
  "epoch_floor e rs = Inr n \<Longrightarrow> w \<in> set rs \<Longrightarrow> intent_epoch w = Inr (Some k) \<Longrightarrow> k \<le> n"
  by (induction rs arbitrary: e) (fastforce simp: bindE_Inr_iff dest: epoch_floor_ge)+

lemma rebuilt_floor:
  assumes "append_only L kept" "epoch_logged kept e g" "gh_ledger g = Some l" "il_records L l = Inr rs"
    "guardian_halt_new L gs (gh_ledger g) max_halt = Inr g'"
  shows "e \<le> gh_last_epoch g'"
  using assms epoch_floor_covers
  by (auto simp: append_only_def epoch_logged_def guardian_halt_new_def bindE_Inr_iff)

text \<open>An accepted order is logged when the call to the ledger returned.\<close>

lemma accepted_logged:
  assumes "submit W L g action epoch sigs now reason duration = (out, g1)" "accepted_order out" "append_only L kept"
    "gh_ledger g = Some l" "il_governance L l (intent_record g action epoch reason (gh_halted_until g1)) = (Inr (), l')"
  shows "epoch_logged kept epoch g1"
proof -
  let ?h = "g\<lparr>gh_last_epoch := epoch, gh_halted_until := gh_halted_until g1\<rparr>"
  have "action \<in> {HALT, RESUME} \<and> g1 = record_intent L ?h action epoch reason (gh_halted_until g1)"
    using assms(1,2) by (auto simp: submit_def Let_def accepted_order_def split: if_splits)
  moreover have "intent_record ?h action epoch reason x = intent_record g action epoch reason x" for x
    by (simp add: intent_record_def)
  ultimately show ?thesis
    using record_intent_logs [OF assms(3), of ?h l action epoch reason "gh_halted_until g1" l'] assms(4,5) by simp
qed

text \<open>The duration that runs is not the one the guardians sign: they sign its integer part, and a
  duration of 0 stands for the longest halt.\<close>

lemma fractional_duration_unsigned:
  assumes "0 \<le> d" "d < 1"
  shows "halt_payload W action epoch reason (trunc d) = halt_payload W action epoch reason 0"
proof -
  have "trunc d = 0" using assms by (auto simp: trunc_def floor_eq_iff)
  then show ?thesis by simp
qed

lemma submit_halts:
  assumes "gh_last_epoch g < epoch"
    "meets_threshold W (gh_set g) (halt_payload W HALT epoch reason (trunc d)) sigs"
  shows "fst (submit W L g HALT epoch sigs now reason d)
      = Halted (if 0 < d then min (rnd64 d) (gh_max_halt g) else gh_max_halt g)"
  using assms by (simp add: submit_def Let_def)

text \<open>Counting heads: every member weighs 1.\<close>

interpretation head_count: majority "set (gs_members gs)" "\<lambda>a. 1" for gs :: guardian_set
  by unfold_locales auto

lemma head_count_decides:
  assumes "length (gs_members gs) < 2 * length (distinct_signers W gs p sigs)"
  shows "head_count.decides gs (set (distinct_signers W gs p sigs))"
proof -
  have "card (set (gs_members gs)) \<le> length (gs_members gs)" by (rule card_length)
  with assms have "card (set (gs_members gs)) < 2 * card (set (distinct_signers W gs p sigs))"
    by (simp flip: distinct_signers_card)
  then have "rat_of_nat (card (set (gs_members gs))) < rat_of_nat (2 * card (set (distinct_signers W gs p sigs)))"
    by (simp only: of_nat_less_iff)
  then show ?thesis
    using distinct_signers_members [of W gs p sigs] by (simp add: head_count.decides_def)
qed

end
