(* ===== verification/Settlement.thy ===== *)
theory Settlement
  imports Sequencer Guardian Ledger
begin

text \<open>
  The M-of-N authorization of a mint by the staked validators, \<^verbatim>\<open>neurahash/diloco_settlement.py\<close>:
  the signed decision, the staked roster, the aggregation by count or by stake, the off / audit /
  enforce policy, and the quorum proof embedded in a block.
\<close>

subsection \<open>The signed decision\<close>

definition SETTLE_TAG :: string where "SETTLE_TAG = ''neurahash-diloco-settlement''"

text \<open>\<^verbatim>\<open>round(x, 12)\<close>: the float nearest to \<open>x\<close> rounded to a multiple of \<open>10^-12\<close>.\<close>

definition round12 :: "rat \<Rightarrow> rat" where
  "round12 x = rnd64 (of_int (round_half_even (x * 10 ^ 12)) / 10 ^ 12)"

fun round12_float :: "pyfloat \<Rightarrow> pyfloat" where
  "round12_float (Fin q) = Fin (round12 q)"
| "round12_float NonFin = NonFin"

definition settlement_payload :: "world \<Rightarrow> string \<Rightarrow> pyfloat \<Rightarrow> int \<Rightarrow> string \<Rightarrow> string" where
  "settlement_payload W recipient amount height cid = dumps W (JObj
     [(''w'', JStr SETTLE_TAG), (''recipient'', JStr recipient), (''amount'', JNum (round12_float amount)),
      (''height'', JInt height), (''delta_cid'', JStr cid)])"

definition payload_digest :: "world \<Rightarrow> string \<Rightarrow> pyfloat \<Rightarrow> int \<Rightarrow> string \<Rightarrow> string" where
  "payload_digest W recipient amount height cid = sha256 W (settlement_payload W recipient amount height cid)"

definition sign_settlement :: "world \<Rightarrow> account \<Rightarrow> string \<Rightarrow> pyfloat \<Rightarrow> int \<Rightarrow> string \<Rightarrow> exn + json" where
  "sign_settlement W a recipient amount height cid =
     bindE (sign_bytes W a (settlement_payload W recipient amount height cid)) (\<lambda>sig. Inr (JObj
       [(''recipient'', JStr recipient), (''amount'', JNum (round12_float amount)), (''height'', JInt height),
        (''delta_cid'', JStr cid), (''validator_addr'', JStr (acct_address a)), (''sig'', JStr sig)]))"

definition sig_of :: "json \<Rightarrow> json" where
  "sig_of att = (case att of JObj _ \<Rightarrow> get_or att ''sig'' JNull | _ \<Rightarrow> att)"

subsection \<open>Rosters\<close>

text \<open>The addresses whose stake reaches the floor, once each up to case, ordered by lower case.\<close>

fun dedup_lower :: "string set \<Rightarrow> string list \<Rightarrow> string list" where
  "dedup_lower seen [] = []"
| "dedup_lower seen (a # as) =
     (if str_lower a \<in> seen then dedup_lower seen as
      else a # dedup_lower (insert (str_lower a) seen) as)"

definition staked_roster :: "(string \<Rightarrow> rat) \<Rightarrow> string list \<Rightarrow> rat \<Rightarrow> string list" where
  "staked_roster stake pool min_stake =
     sort_key str_lower (dedup_lower {} (filter (\<lambda>a. min_stake \<le> stake a) pool))"

definition staked_roster_state :: "nstate \<Rightarrow> string list option \<Rightarrow> rat \<Rightarrow> string list" where
  "staked_roster_state s candidates min_stake =
     staked_roster (stake_of s) (case candidates of None \<Rightarrow> dkeys (staked s) | Some c \<Rightarrow> c) min_stake"

definition staked_roster_map :: "(string, rat) pydict \<Rightarrow> string list option \<Rightarrow> rat \<Rightarrow> string list" where
  "staked_roster_map m candidates min_stake =
     staked_roster (\<lambda>a. dget m a 0) (case candidates of None \<Rightarrow> dkeys m | Some c \<Rightarrow> c) min_stake"

text \<open>A roster is a list of addresses, or a dictionary of finite stakes.\<close>

datatype roster = Members "string list" | Staked "(string, rat) pydict"

fun roster_members :: "roster \<Rightarrow> string list" where
  "roster_members (Members ms) = ms"
| "roster_members (Staked d) = dkeys d"

fun roster_stakes :: "roster \<Rightarrow> (string, rat) pydict" where
  "roster_stakes (Members ms) = foldl (\<lambda>d a. dset a 1 d) [] ms"
| "roster_stakes (Staked d) = d"

definition stake_weight_map :: "(string, rat) pydict \<Rightarrow> (string, rat) pydict" where
  "stake_weight_map stakes =
     foldl (\<lambda>out (a, s). dset (str_lower a) (fadd (dget out (str_lower a) 0) (max 0 s)) out) [] stakes"

definition stake_majority :: "rat \<Rightarrow> rat \<Rightarrow> bool" where
  "stake_majority signer_stake total_stake \<longleftrightarrow> 0 < total_stake \<and> total_stake < fmul signer_stake 2"

subsection \<open>M-of-N aggregation\<close>

record verdict =
  vd_approved :: bool
  vd_n_signers :: nat
  vd_n_required :: int
  vd_roster_n :: nat
  vd_signers :: "string list"
  vd_n_submitted :: nat
  vd_n_dropped :: int
  vd_roster_root :: string
  vd_recipient :: string
  vd_amount :: pyfloat
  vd_height :: int
  vd_delta_cid :: string
  vd_payload_sha256 :: string
  vd_weighted :: "(rat \<times> rat) option"

definition roster_count :: "roster \<Rightarrow> nat" where
  "roster_count r = length (remdups (map str_lower (roster_members r)))"

definition required_signers :: "roster \<Rightarrow> int option \<Rightarrow> int" where
  "required_signers r m = (case m of None \<Rightarrow> int (roster_count r) div 2 + 1 | Some k \<Rightarrow> k)"

definition signer_stake :: "(string, rat) pydict \<Rightarrow> string list \<Rightarrow> rat" where
  "signer_stake weights signers = fsum (map (\<lambda>s. dget weights s 0) signers)"

definition collect_settlement_signatures :: "world \<Rightarrow> string \<Rightarrow> pyfloat \<Rightarrow> int \<Rightarrow> string \<Rightarrow> roster
    \<Rightarrow> json list \<Rightarrow> int option \<Rightarrow> exn + verdict" where
  "collect_settlement_signatures W recipient amount height cid r atts m =
     (let N = roster_count r; k = required_signers r m in
      if N = 0 then Inl (ValueError ''staked roster is empty'')
      else if \<not> (1 \<le> k \<and> k \<le> int N \<and> int N < k * 2)
        then Inl (ValueError ''settlement threshold must be a strict majority'')
      else bindE (guardian_set_new (roster_members r) k) (\<lambda>gs.
        let payload = settlement_payload W recipient amount height cid;
            sigs = filter (\<lambda>s. s \<noteq> JNull) (map sig_of atts);
            signers = distinct_signers W gs payload sigs;
            n = length signers;
            weights = stake_weight_map (roster_stakes r);
            total = fsum (dvalues weights);
            signed = signer_stake weights signers;
            weighted = (case r of Staked _ \<Rightarrow> True | Members _ \<Rightarrow> False)
        in Inr \<lparr>vd_approved = (if weighted then stake_majority signed total else k \<le> int n),
                vd_n_signers = n, vd_n_required = k, vd_roster_n = N, vd_signers = sort signers,
                vd_n_submitted = length atts, vd_n_dropped = int (length atts) - int n,
                vd_roster_root = roster_root W (roster_stakes r), vd_recipient = recipient,
                vd_amount = round12_float amount, vd_height = height, vd_delta_cid = cid,
                vd_payload_sha256 = sha256 W payload,
                vd_weighted = (if weighted then Some (round12 total, round12 signed) else None)\<rparr>))"

subsection \<open>The policy\<close>

definition settle_allowed :: "string \<Rightarrow> verdict \<Rightarrow> exn + bool" where
  "settle_allowed mode v =
     (if mode \<notin> {''off'', ''audit'', ''enforce''} then Inl (ValueError ''unknown settlement mode'')
      else if mode \<noteq> ''enforce'' then Inr True
      else Inr (vd_approved v))"

definition settlement_verdict_record :: "int \<Rightarrow> string \<Rightarrow> verdict \<Rightarrow> json" where
  "settlement_verdict_record round_id mode v = JObj
     [(''kind'', JStr ''diloco-settlement''), (''round'', JInt round_id), (''mode'', JStr mode),
      (''approved'', JBool (vd_approved v)), (''n_signers'', JInt (int (vd_n_signers v))),
      (''n_required'', JInt (vd_n_required v)), (''roster_n'', JInt (int (vd_roster_n v))),
      (''n_submitted'', JInt (int (vd_n_submitted v))), (''n_dropped'', JInt (vd_n_dropped v)),
      (''roster_root'', JStr (vd_roster_root v)), (''recipient'', JStr (vd_recipient v)),
      (''amount'', JNum (vd_amount v)), (''height'', JInt (vd_height v)),
      (''delta_cid'', JStr (vd_delta_cid v)), (''payload_sha256'', JStr (vd_payload_sha256 v)),
      (''signers'', JList (map JStr (vd_signers v)))]"

text \<open>The chain is a parameter: \<open>settle\<close> is \<^verbatim>\<open>chain.settle\<close>, from a chain to what it credited and
  the chain after it.\<close>

definition settle_with_multisig ::
  "world \<Rightarrow> ('c \<Rightarrow> int \<Rightarrow> rat \<Rightarrow> (string, rat) pydict \<Rightarrow> int \<Rightarrow> exn + (string, rat) pydict \<times> 'c) \<Rightarrow> 'c
    \<Rightarrow> string \<Rightarrow> rat \<Rightarrow> int \<Rightarrow> string \<Rightarrow> roster \<Rightarrow> json list \<Rightarrow> int \<Rightarrow> string \<Rightarrow> int option
    \<Rightarrow> (string, rat) pydict option \<Rightarrow> exn + (string, rat) pydict \<times> verdict \<times> json \<times> 'c" where
  "settle_with_multisig W settle chain recipient amount height cid r atts timestamp mode m ex_by =
     bindE (collect_settlement_signatures W recipient (Fin amount) height cid r atts m) (\<lambda>v.
       let rec = settlement_verdict_record height mode v in
       bindE (settle_allowed mode v) (\<lambda>ok.
         if \<not> ok then Inr ([], v, rec, chain)
         else bindE (settle chain height amount
                (case ex_by of Some (e # es) \<Rightarrow> e # es | _ \<Rightarrow> [(recipient, 1)]) timestamp) (\<lambda>(credited, chain').
           Inr (credited, v, rec, chain'))))"

subsection \<open>The proof embedded in a block\<close>

definition settlement_block_proof :: "world \<Rightarrow> string \<Rightarrow> pyfloat \<Rightarrow> int \<Rightarrow> string \<Rightarrow> roster
    \<Rightarrow> json list \<Rightarrow> int option \<Rightarrow> exn + json" where
  "settlement_block_proof W recipient amount height cid r atts m =
     (let sigs = filter (\<lambda>s. s \<noteq> JNull) (map sig_of atts) in
      bindE (collect_settlement_signatures W recipient amount height cid r sigs m) (\<lambda>v. Inr (JObj
        [(''recipient'', JStr recipient), (''amount'', JNum (round12_float amount)),
         (''height'', JInt height), (''delta_cid'', JStr cid), (''sigs'', JList sigs),
         (''roster'', JList (map JStr (roster_members r))), (''n_required'', JInt (vd_n_required v)),
         (''payload_sha256'', JStr (vd_payload_sha256 v))])))"

text \<open>A roster and a list of signatures as a decoded proof carries them.\<close>

definition roster_of_json :: "world \<Rightarrow> json \<Rightarrow> exn + roster" where
  "roster_of_json W j = (case j of
       JObj kvs \<Rightarrow> bindE (mapE (\<lambda>(a, s). bindE (finite_float s) (\<lambda>q. Inr (a, q))) kvs) (\<lambda>d. Inr (Staked d))
     | _ \<Rightarrow> bindE (signature_items j) (\<lambda>xs. Inr (Members (map (str_of W) xs))))"

definition proof_threshold :: "json \<Rightarrow> exn + int option" where
  "proof_threshold j = (case j of JNull \<Rightarrow> Inr None | _ \<Rightarrow> bindE (intE j) (\<lambda>k. Inr (Some k)))"

definition close_enough :: "rat \<Rightarrow> rat \<Rightarrow> bool" where
  "close_enough x y \<longleftrightarrow> \<bar>fsub x y\<bar> \<le> rnd64 (1 / 10 ^ 9)"

text \<open>The block's identity is \<open>JNull\<close> where the caller passes none. A number that is not finite is
  treated as one that \<^verbatim>\<open>float\<close> refuses.\<close>

definition verify_settlement_block_proof :: "world \<Rightarrow> json \<Rightarrow> json \<Rightarrow> json \<Rightarrow> json
    \<Rightarrow> bool \<times> string \<times> nat \<times> int" where
  "verify_settlement_block_proof W proof_d recipient amount height =
     (if \<not> is_object proof_d then (False, ''malformed proof (not a dict)'', 0, 0)
      else if recipient \<noteq> JNull \<and> str_lower (str_of W recipient)
                \<noteq> str_lower (str_of W (get_or proof_d ''recipient'' (JStr [])))
        then (False, ''proof recipient != block'', 0, 0)
      else case (if amount = JNull then Inr True
                 else bindE (finite_float amount) (\<lambda>x.
                      bindE (finite_float (get_or proof_d ''amount'' (JNum (Fin (- 1))))) (\<lambda>y.
                        Inr (close_enough x y)))) of
        Inl _ \<Rightarrow> (False, ''proof verify error'', 0, 0)
      | Inr False \<Rightarrow> (False, ''proof amount != block'', 0, 0)
      | Inr True \<Rightarrow>
          (case (if height = JNull then Inr True
                 else bindE (intE height) (\<lambda>h. bindE (intE (get_or proof_d ''height'' (JInt (- 1)))) (\<lambda>k.
                        Inr (h = k)))) of
             Inl _ \<Rightarrow> (False, ''proof verify error'', 0, 0)
           | Inr False \<Rightarrow> (False, ''proof height != block'', 0, 0)
           | Inr True \<Rightarrow>
               (case bindE (roster_of_json W (get_or proof_d ''roster'' (JList []))) (\<lambda>r.
                     bindE (proof_threshold (get_or proof_d ''n_required'' JNull)) (\<lambda>m.
                     bindE (orE (ValueError ''float'') (jfloat (get_or proof_d ''amount'' (JNum (Fin 0))))) (\<lambda>x.
                     bindE (intE (get_or proof_d ''height'' (JInt 0))) (\<lambda>h.
                     bindE (signature_items (get_or proof_d ''sigs'' (JList []))) (\<lambda>sigs.
                       collect_settlement_signatures W (str_of W (get_or proof_d ''recipient'' JNull)) x h
                         (let c = get_or proof_d ''delta_cid'' (JStr []) in if truthy c then str_of W c else [])
                         r sigs m))))) of
                  Inl _ \<Rightarrow> (False, ''proof verify error'', 0, 0)
                | Inr v \<Rightarrow> (vd_approved v, (if vd_approved v then ''ok'' else ''quorum-not-met''),
                            vd_n_signers v, vd_n_required v))))"

text \<open>The sole contributor of a block record, and the audit of a list of records.\<close>

definition sole_contributor :: "json \<Rightarrow> json" where
  "sole_contributor j = (case j of JObj [(a, w)] \<Rightarrow> JStr a | JList [x] \<Rightarrow> x
     | JStr [c] \<Rightarrow> JStr [c] | _ \<Rightarrow> JNull)"

definition audit_block_quorum :: "world \<Rightarrow> json \<Rightarrow> (json \<times> bool \<times> string \<times> nat \<times> int) option" where
  "audit_block_quorum W r =
     (let q = (if is_object r then get_or r ''quorum'' JNull else JNull) in
      if \<not> truthy q then None
      else (let hdr = or_empty (get_or r ''header'' (JObj []));
                contribs = or_empty (get_or r ''contributors'' (JObj []))
            in Some (get_or hdr ''height'' JNull,
                 verify_settlement_block_proof W q (sole_contributor contribs)
                   (get_or hdr ''reward'' JNull) (get_or hdr ''height'' JNull))))"

definition audit_settlement_block_quorums :: "world \<Rightarrow> json list \<Rightarrow> (json \<times> bool \<times> string \<times> nat \<times> int) list" where
  "audit_settlement_block_quorums W blocks = List.map_filter (audit_block_quorum W) blocks"

text \<open>The committee roster by source: admitted signers, or those whose admitted address is bonded.\<close>

definition bonded_signers :: "(string, string) pydict \<Rightarrow> string list \<Rightarrow> (string, string) pydict" where
  "bonded_signers adm staked_addrs =
     filter (\<lambda>(a, s). str_lower a \<in> set (map str_lower staked_addrs)) adm"

definition roster_source_select :: "string \<Rightarrow> (string, string) pydict \<Rightarrow> string list
    \<Rightarrow> (string, string) pydict \<times> json" where
  "roster_source_select mode adm staked_addrs =
     (let inter = bonded_signers adm staked_addrs;
          report = JObj [(''mode'', JStr mode), (''admission_n'', JInt (int (length adm))),
            (''staked_n'', JInt (int (length (remdups (map str_lower staked_addrs))))),
            (''intersection_n'', JInt (int (length inter))),
            (''dropped_for_no_stake'', JInt (int (length adm) - int (length inter)))]
      in (if mode = ''enforce'' then inter else adm, report))"

end
