(* ===== verification/Settlement_Facts.thy ===== *)
theory Settlement_Facts
  imports Settlement
begin

text \<open>
  What a settlement quorum means: a strict majority of the roster signed exactly the decision, two
  authorized decisions share a signer, and enforcement withholds every unauthorized mint.
\<close>

subsection \<open>Taking a verdict apart\<close>

definition decision_signers :: "world \<Rightarrow> guardian_set \<Rightarrow> string \<Rightarrow> json list \<Rightarrow> string list" where
  "decision_signers W gs payload atts =
     distinct_signers W gs payload (filter (\<lambda>s. s \<noteq> JNull) (map sig_of atts))"

lemma collect_Inr:
  assumes "collect_settlement_signatures W recipient amount height cid r atts m = Inr v"
  obtains gs where "guardian_set_new (roster_members r) (required_signers r m) = Inr gs"
    "int (roster_count r) < required_signers r m * 2"
    "vd_n_required v = required_signers r m" "vd_recipient v = recipient" "vd_height v = height"
    "vd_n_signers v = length (decision_signers W gs (settlement_payload W recipient amount height cid) atts)"
    "vd_approved v \<longleftrightarrow> (case r of
        Members ms \<Rightarrow> required_signers r m
          \<le> int (length (decision_signers W gs (settlement_payload W recipient amount height cid) atts))
      | Staked d \<Rightarrow> stake_majority
          (signer_stake (stake_weight_map d)
             (decision_signers W gs (settlement_payload W recipient amount height cid) atts))
          (fsum (dvalues (stake_weight_map d))))"
proof -
  obtain gs where gs: "guardian_set_new (roster_members r) (required_signers r m) = Inr gs"
    using assms by (auto simp: collect_settlement_signatures_def Let_def bindE_Inr_iff split: if_splits)
  show thesis
    by (rule that [OF gs])
      (use assms in \<open>auto simp: collect_settlement_signatures_def Let_def gs decision_signers_def
        split: if_splits roster.splits\<close>)
qed

lemma decision_signer_signed:
  assumes "a \<in> set (decision_signers W gs payload atts)"
  obtains sig addr where "recover_message W (domain_bytes ''bytes'' payload) sig = Some addr"
    "str_lower addr = a" "a \<in> set (gs_members gs)"
  using assms
  by (auto simp: decision_signers_def set_distinct_signers member_signer_Some recover_default_scheme
      recover_bytes_def orE_Inr_iff)

subsection \<open>A roster has no more members than heads\<close>

lemma is_space_lower [simp]: "is_space (char_lower c) = is_space c"
proof -
  have "(of_char c :: nat) < 256" by (metis nat_of_char_less_256)
  then show ?thesis by (auto simp: is_space_def char_lower_def Let_def)
qed

lemma dropWhile_space_lower: "dropWhile is_space (map char_lower s) = map char_lower (dropWhile is_space s)"
  by (induction s) auto

lemma strip_lower: "str_strip (str_lower s) = str_lower (str_strip s)"
  by (simp add: str_strip_def str_lower_def dropWhile_space_lower rev_map [symmetric]
      del: rev_map) (metis dropWhile_space_lower rev_map)

lemma guardian_members_le:
  assumes "guardian_set_new ms k = Inr gs"
  shows "length (gs_members gs) \<le> length (remdups (map str_lower ms))"
proof -
  have "set (gs_members gs) \<subseteq> str_strip ` set (map str_lower ms)"
    using assms by (auto simp: guardian_set_new_def Let_def strip_lower image_iff split: if_splits)
  then have "card (set (gs_members gs)) \<le> card (set (map str_lower ms))"
    by (meson List.finite_set card_image_le card_mono finite_imageI le_trans)
  moreover have "distinct (gs_members gs)" using assms guardian_set_new_Inr by blast
  ultimately show ?thesis by (simp add: distinct_card length_remdups_card_conv)
qed

lemma same_guardians:
  "guardian_set_new ms k = Inr gs \<Longrightarrow> guardian_set_new ms k' = Inr gs' \<Longrightarrow> gs_members gs' = gs_members gs"
  by (auto simp: guardian_set_new_def Let_def split: if_splits)

lemma count_approved_decides:
  assumes "collect_settlement_signatures W recipient amount height cid (Members ms) atts m = Inr v"
    "vd_approved v"
  obtains gs where "guardian_set_new ms (required_signers (Members ms) m) = Inr gs"
    "head_count.decides gs (set (decision_signers W gs (settlement_payload W recipient amount height cid) atts))"
proof -
  let ?p = "settlement_payload W recipient amount height cid"
  from assms(1) obtain gs where gs: "guardian_set_new (roster_members (Members ms)) (required_signers (Members ms) m) = Inr gs"
    and k: "int (roster_count (Members ms)) < required_signers (Members ms) m * 2"
    and ap: "vd_approved v \<longleftrightarrow> (case Members ms of
        Members ms \<Rightarrow> required_signers (Members ms) m \<le> int (length (decision_signers W gs ?p atts))
      | Staked d \<Rightarrow> stake_majority (signer_stake (stake_weight_map d) (decision_signers W gs ?p atts))
          (fsum (dvalues (stake_weight_map d))))"
    by (rule collect_Inr) (auto split: roster.splits)
  have g: "guardian_set_new ms (required_signers (Members ms) m) = Inr gs" using gs by simp
  have "length (gs_members gs) < 2 * length (decision_signers W gs ?p atts)"
    using guardian_members_le [OF g] k ap assms(2) by (simp add: roster_count_def)
  then show thesis
    by (intro that [OF g]) (simp add: decision_signers_def head_count_decides)
qed

lemma count_decisions_share_signer:
  assumes "collect_settlement_signatures W r1 a1 h1 c1 (Members ms) atts1 m1 = Inr v1" "vd_approved v1"
    "collect_settlement_signatures W r2 a2 h2 c2 (Members ms) atts2 m2 = Inr v2" "vd_approved v2"
  shows "\<exists>x s1 s2 y1 y2. recover_message W (domain_bytes ''bytes'' (settlement_payload W r1 a1 h1 c1)) s1 = Some y1
     \<and> recover_message W (domain_bytes ''bytes'' (settlement_payload W r2 a2 h2 c2)) s2 = Some y2
     \<and> str_lower y1 = x \<and> str_lower y2 = x \<and> x \<in> (str_lower \<circ> str_strip) ` set ms"
proof -
  obtain g1 where g1: "guardian_set_new ms (required_signers (Members ms) m1) = Inr g1"
    and d1: "head_count.decides g1 (set (decision_signers W g1 (settlement_payload W r1 a1 h1 c1) atts1))"
    using assms(1,2) by (rule count_approved_decides)
  obtain g2 where g2: "guardian_set_new ms (required_signers (Members ms) m2) = Inr g2"
    and d2: "head_count.decides g2 (set (decision_signers W g2 (settlement_payload W r2 a2 h2 c2) atts2))"
    using assms(3,4) by (rule count_approved_decides)
  have "head_count.decides g1 (set (decision_signers W g2 (settlement_payload W r2 a2 h2 c2) atts2))"
    using d2 same_guardians [OF g1 g2] by (simp add: head_count.decides_def)
  from head_count.decisions_meet [OF d1 this] obtain x where
    x1: "x \<in> set (decision_signers W g1 (settlement_payload W r1 a1 h1 c1) atts1)"
    and x2: "x \<in> set (decision_signers W g2 (settlement_payload W r2 a2 h2 c2) atts2)" by blast
  from x1 obtain s1 y1 where 1: "recover_message W (domain_bytes ''bytes'' (settlement_payload W r1 a1 h1 c1)) s1 = Some y1"
    "str_lower y1 = x" "x \<in> set (gs_members g1)" by (rule decision_signer_signed)
  from x2 obtain s2 y2 where 2: "recover_message W (domain_bytes ''bytes'' (settlement_payload W r2 a2 h2 c2)) s2 = Some y2"
    "str_lower y2 = x" by (rule decision_signer_signed)
  have "x \<in> (str_lower \<circ> str_strip) ` set ms"
    using g1 1(3) by (auto simp: guardian_set_new_def Let_def split: if_splits)
  with 1 2 show ?thesis by blast
qed

subsection \<open>Stake\<close>

definition add_weight :: "(string, rat) pydict \<Rightarrow> string \<times> rat \<Rightarrow> (string, rat) pydict" where
  "add_weight out x = (case x of (a, s) \<Rightarrow>
     dset (str_lower a) (fadd (dget out (str_lower a) 0) (max 0 s)) out)"

lemma stake_weight_map_fold: "stake_weight_map d = foldl add_weight [] d"
  unfolding stake_weight_map_def by (rule foldl_cong) (auto simp: add_weight_def)

definition weights_ok :: "(string, rat) pydict \<Rightarrow> bool" where
  "weights_ok w \<longleftrightarrow> distinct (dkeys w) \<and> list_all ((\<le>) 0) (dvalues w)"

lemma add_weight_ok:
  assumes "weights_ok w"
  shows "weights_ok (add_weight w x)"
proof -
  obtain a s where x: "x = (a, s)" by fastforce
  have "0 \<le> dget w (str_lower a) 0" using assms by (simp add: weights_ok_def list_all_dget)
  then have "0 \<le> fadd (dget w (str_lower a) 0) (max 0 s)" by (rule fadd_nonneg) simp
  then show ?thesis using assms by (simp add: weights_ok_def add_weight_def x distinct_dset list_all_dset)
qed

interpretation weighing: keeps_invariant add_weight weights_ok
  by unfold_locales (rule add_weight_ok)

lemma stake_weights_ok: "weights_ok (stake_weight_map d)"
  unfolding stake_weight_map_fold by (rule weighing.run_inv) (simp add: weights_ok_def)

lemma stake_weight_nonneg: "0 \<le> dget (stake_weight_map d) a 0"
  using stake_weights_ok [of d] by (auto simp: weights_ok_def intro: list_all_dget)

text \<open>Weighing by stake: the second instance of the majority contract.\<close>

interpretation stake_count: majority "set (dkeys (stake_weight_map d))" "\<lambda>a. dget (stake_weight_map d) a 0"
  for d
  by unfold_locales (auto intro: stake_weight_nonneg)

text \<open>On the exact grid the float sums are the sums.\<close>

definition grid_roster :: "(string, rat) pydict \<Rightarrow> bool" where
  "grid_roster d \<longleftrightarrow> list_all (\<lambda>s. 0 \<le> s \<and> on_grid s) (dvalues d) \<and> sum_list (dvalues d) \<le> 2 ^ 30"

lemma weigh_exact:
  assumes "weights_ok w" "list_all on_grid (dvalues w)" "list_all (\<lambda>s. 0 \<le> s \<and> on_grid s) (dvalues d)"
    "sum_list (dvalues w) + sum_list (dvalues d) \<le> 2 ^ 30"
  shows "list_all on_grid (dvalues (foldl add_weight w d))
    \<and> sum_list (dvalues (foldl add_weight w d)) = sum_list (dvalues w) + sum_list (dvalues d)"
  using assms
proof (induction d arbitrary: w)
  case (Cons x d)
  obtain a s where x: "x = (a, s)" by fastforce
  let ?k = "str_lower a"
  have s: "0 \<le> s" "on_grid s" and rest: "list_all (\<lambda>s. 0 \<le> s \<and> on_grid s) (dvalues d)"
    using Cons.prems(3) by (simp_all add: x)
  have nd: "0 \<le> sum_list (dvalues d)"
    using rest by (intro sum_list_nonneg) (auto simp: list_all_iff)
  have g: "0 \<le> dget w ?k 0" "on_grid (dget w ?k 0)" "dget w ?k 0 \<le> sum_list (dvalues w)"
    using Cons.prems(1,2) by (auto simp: weights_ok_def intro: list_all_dget dget_le_sum)
  have e: "fadd (dget w ?k 0) (max 0 s) = dget w ?k 0 + s"
    using s g Cons.prems(4) nd by (subst max_absorb2) (auto simp: x intro!: fadd_exact)
  have w': "add_weight w x = dset ?k (dget w ?k 0 + s) w" by (simp add: add_weight_def x e)
  have 1: "weights_ok (add_weight w x)" using Cons.prems(1) by (rule add_weight_ok)
  have 2: "list_all on_grid (dvalues (add_weight w x))"
    unfolding w' using Cons.prems(2) s g by (intro list_all_dset on_grid_add)
  have 3: "sum_list (dvalues (add_weight w x)) = sum_list (dvalues w) + s"
    by (simp add: w' sum_dvalues_dset)
  show ?case using Cons.IH [OF 1 2 rest] Cons.prems(4) 3 by (simp add: x)
qed simp

lemma stake_weights_exact:
  assumes "grid_roster d"
  shows "list_all on_grid (dvalues (stake_weight_map d))"
    "sum_list (dvalues (stake_weight_map d)) = sum_list (dvalues d)"
    "fsum (dvalues (stake_weight_map d)) = sum_list (dvalues d)"
proof -
  show 1: "list_all on_grid (dvalues (stake_weight_map d))"
    and 2: "sum_list (dvalues (stake_weight_map d)) = sum_list (dvalues d)"
    using weigh_exact [of "[]" d] assms
    by (simp_all add: grid_roster_def weights_ok_def stake_weight_map_fold)
  show "fsum (dvalues (stake_weight_map d)) = sum_list (dvalues d)"
    using 1 2 stake_weights_ok [of d] assms
    by (subst fsum_exact) (auto simp: weights_ok_def grid_roster_def)
qed

lemma sum_dget_keys:
  assumes "distinct (dkeys (w :: (string, rat) pydict))"
  shows "(\<Sum>a \<in> set (dkeys w). dget w a 0) = sum_list (dvalues w)"
  using assms
proof (induction w)
  case (Cons p w)
  obtain k v where p: "p = (k, v)" by fastforce
  have "(\<Sum>a \<in> set (dkeys w). dget (p # w) a 0) = (\<Sum>a \<in> set (dkeys w). dget w a 0)"
    using Cons.prems by (intro sum.cong) (auto simp: p dget_def)
  moreover have "dget (p # w) k 0 = v" by (simp add: p dget_def)
  ultimately show ?case using Cons by (simp add: p)
qed simp

lemma signer_sum_keys:
  assumes "distinct signers"
  shows "sum_list (map (\<lambda>s. dget w s 0) signers) = (\<Sum>a \<in> set signers \<inter> set (dkeys w). dget w a 0)"
proof -
  have "dget w a 0 = 0" if "a \<notin> set (dkeys w)" for a
    using that by (simp add: dget_def map_of_eq_None_iff [THEN iffD2])
  then have "(\<Sum>a \<in> set signers. dget w a 0) = (\<Sum>a \<in> set signers \<inter> set (dkeys w). dget w a 0)"
    by (intro sum.mono_neutral_right) auto
  then show ?thesis using assms by (simp add: sum_list_distinct_conv_sum_set)
qed

lemma signer_stake_exact:
  assumes "grid_roster d" "distinct signers"
  shows "signer_stake (stake_weight_map d) signers
    = (\<Sum>a \<in> set signers \<inter> set (dkeys (stake_weight_map d)). dget (stake_weight_map d) a 0)"
    "signer_stake (stake_weight_map d) signers \<le> sum_list (dvalues d)"
    "on_grid (signer_stake (stake_weight_map d) signers)"
    "0 \<le> signer_stake (stake_weight_map d) signers"
proof -
  let ?w = "stake_weight_map d" and ?xs = "map (\<lambda>s. dget (stake_weight_map d) s 0) signers"
  have "on_grid (dget ?w s 0)" for s
    using stake_weights_exact(1) [OF assms(1)] by (rule list_all_dget) simp
  then have g: "list_all on_grid ?xs" "list_all ((\<le>) 0) ?xs"
    using stake_weight_nonneg [of d] by (auto simp: list_all_iff)
  have le: "sum_list ?xs \<le> sum_list (dvalues d)"
  proof -
    have "sum_list ?xs \<le> (\<Sum>a \<in> set (dkeys ?w). dget ?w a 0)"
      unfolding signer_sum_keys [OF assms(2)] using stake_weight_nonneg [of d] by (intro sum_mono2) auto
    also have "\<dots> = sum_list (dvalues d)"
      using stake_weights_ok [of d] stake_weights_exact(2) [OF assms(1)]
      by (simp add: sum_dget_keys weights_ok_def del: set_map)
    finally show ?thesis .
  qed
  then have e: "signer_stake ?w signers = sum_list ?xs"
    unfolding signer_stake_def using g assms(1) by (intro fsum_exact) (auto simp: grid_roster_def)
  show "signer_stake ?w signers = (\<Sum>a \<in> set signers \<inter> set (dkeys ?w). dget ?w a 0)"
    by (simp add: e signer_sum_keys [OF assms(2)])
  show "signer_stake ?w signers \<le> sum_list (dvalues d)" using e le by simp
  show "on_grid (signer_stake ?w signers)" unfolding e using g(1) by (rule on_grid_sum_list)
  show "0 \<le> signer_stake ?w signers" unfolding e using g(2)
    by (intro sum_list_nonneg) (auto simp: list_all_iff)
qed

lemma stake_majority_exact:
  assumes "grid_roster d" "distinct signers"
  shows "stake_majority (signer_stake (stake_weight_map d) signers) (fsum (dvalues (stake_weight_map d)))
    \<longleftrightarrow> 0 < sum_list (dvalues d) \<and> sum_list (dvalues d) < 2 * signer_stake (stake_weight_map d) signers"
proof -
  define x where "x = signer_stake (stake_weight_map d) signers"
  have x: "on_grid x" "0 \<le> x" "x \<le> sum_list (dvalues d)"
    using signer_stake_exact [OF assms] by (simp_all add: x_def)
  have "sum_list (dvalues d) \<le> 2 ^ 30" using assms(1) by (simp add: grid_roster_def)
  with x have le: "\<bar>x + x\<bar> \<le> 2 ^ 31" by simp
  have "rnd64 (x + x) = x + x" using on_grid_add [OF x(1) x(1)] le by (rule on_grid_exact)
  then have "fmul x 2 = 2 * x" by (simp only: fmul_def mult_2 mult_2_right)
  then show ?thesis
    unfolding x_def [symmetric] stake_majority_def stake_weights_exact(3) [OF assms(1)] by simp
qed

lemma stake_approved_decides:
  assumes "collect_settlement_signatures W recipient amount height cid (Staked d) atts m = Inr v"
    "vd_approved v" "grid_roster d"
  obtains gs where
    "stake_count.decides d (set (decision_signers W gs (settlement_payload W recipient amount height cid) atts)
        \<inter> set (dkeys (stake_weight_map d)))"
proof -
  let ?p = "settlement_payload W recipient amount height cid"
  from assms(1) obtain gs where
    ap: "vd_approved v \<longleftrightarrow> (case Staked d of
        Members ms \<Rightarrow> required_signers (Staked d) m \<le> int (length (decision_signers W gs ?p atts))
      | Staked d \<Rightarrow> stake_majority (signer_stake (stake_weight_map d) (decision_signers W gs ?p atts))
          (fsum (dvalues (stake_weight_map d))))"
    by (rule collect_Inr) (auto split: roster.splits)
  have ds: "distinct (decision_signers W gs ?p atts)" by (simp add: decision_signers_def)
  have "sum_list (dvalues d) < 2 * signer_stake (stake_weight_map d) (decision_signers W gs ?p atts)"
    using ap assms(2) stake_majority_exact [OF assms(3) ds] by simp
  moreover have "(\<Sum>a \<in> set (dkeys (stake_weight_map d)). dget (stake_weight_map d) a 0) = sum_list (dvalues d)"
    using stake_weights_ok [of d] stake_weights_exact(2) [OF assms(3)] by (simp add: sum_dget_keys weights_ok_def del: set_map)
  ultimately have "stake_count.decides d (set (decision_signers W gs ?p atts) \<inter> set (dkeys (stake_weight_map d)))"
    by (simp add: stake_count.decides_def signer_stake_exact(1) [OF assms(3) ds] del: set_map)
  then show thesis by (rule that)
qed

subsection \<open>The policy\<close>

lemma enforce_withholds:
  assumes "settle_with_multisig W settle chain recipient amount height cid r atts ts ''enforce'' m ex_by
      = Inr (credited, v, rec, chain')" "\<not> vd_approved v"
  shows "credited = [] \<and> chain' = chain"
  using assms by (auto simp: settle_with_multisig_def Let_def bindE_Inr_iff settle_allowed_def split: if_splits)

lemma observe_settles:
  assumes "settle_with_multisig W settle chain recipient amount height cid r atts ts mode m ex_by
      = Inr (credited, v, rec, chain')" "mode \<noteq> ''enforce''"
  shows "settle chain height amount (case ex_by of Some (e # es) \<Rightarrow> e # es | _ \<Rightarrow> [(recipient, 1)]) ts
      = Inr (credited, chain')"
  using assms
  by (auto simp: settle_with_multisig_def Let_def bindE_Inr_iff settle_allowed_def split: if_splits)

subsection \<open>The embedded proof forgets the stake\<close>

text \<open>A roster of one validator bonding 100 and two bonding 1. The two alone are no majority of the
  stake, and the collection refuses; the proof the code embeds lists addresses only, and its
  verification counts heads.\<close>

definition whale_roster :: roster where
  "whale_roster = Staked [(''w'', 100), (''a'', 1), (''b'', 1)]"

definition shell_signatures :: "json list" where
  "shell_signatures = [JStr ''0xa'', JStr ''0xb'']"

definition whale_verdict :: "exn + bool" where
  "whale_verdict = map_sum id vd_approved
     (collect_settlement_signatures toy_world ''m'' (Fin 5) 1 [] whale_roster shell_signatures None)"

definition shell_proof_verdict :: "exn + bool \<times> string \<times> nat \<times> int" where
  "shell_proof_verdict = map_sum id (\<lambda>p. verify_settlement_block_proof toy_world p (JStr ''m'') (JNum (Fin 5)) (JInt 1))
     (settlement_block_proof toy_world ''m'' (Fin 5) 1 [] whale_roster shell_signatures None)"

lemma toy_letters:
  "str_lower (str_strip ''w'') = ''w''" "str_lower (str_strip ''a'') = ''a''" "str_lower (str_strip ''b'') = ''b''"
  "str_lower ''w'' = ''w''" "str_lower ''a'' = ''a''" "str_lower ''b'' = ''b''" "str_lower ''m'' = ''m''"
  "str_strip ''w'' = ''w''" "str_strip ''a'' = ''a''" "str_strip ''b'' = ''b''"
  by (simp_all add: str_lower_def str_strip_def char_lower_def is_space_def)

lemma toy_floats: "fadd 0 100 = 100" "fadd 0 1 = 1" "fadd 100 1 = 101" "fadd 101 1 = 102" "fadd 1 1 = 2"
  "fmul 2 2 = 4" "round12 5 = 5" "fsub 5 5 = 0"
  by code_simp+
lemma toy_close: "close_enough 5 5"
  by (simp add: close_enough_def toy_floats) code_simp

lemma shells_guardians:
  "guardian_set_new [''w'', ''a'', ''b''] 2 = Inr \<lparr>gs_members = [''w'', ''a'', ''b''], gs_threshold = 2\<rparr>"
  by (simp add: guardian_set_new_def Let_def toy_letters)

lemma shells_sign:
  "decision_signers toy_world \<lparr>gs_members = [''w'', ''a'', ''b''], gs_threshold = 2\<rparr> p shell_signatures = [''a'', ''b'']"
  by (simp add: decision_signers_def shell_signatures_def sig_of_def member_signer_def recover_default_scheme
      recover_bytes_def toy_world_def hex_sig_def starts_with_def toy_letters)

lemma shells_count: "roster_count whale_roster = 3" "roster_count (Members [''w'', ''a'', ''b'']) = 3"
  by (simp_all add: whale_roster_def roster_count_def toy_letters)

lemma whale_weights:
  "stake_weight_map [(''w'', 100), (''a'', 1), (''b'', 1)] = [(''w'', 100), (''a'', 1), (''b'', 1)]"
  by (simp add: stake_weight_map_def toy_letters toy_floats dget_def)

lemma whale_sums: "fsum [100, 1, 1] = 102" "fsum [1, 1] = 2"
  by (simp_all add: fsum_def toy_floats)

lemma whale_refuses: "whale_verdict = Inr False"
  using shells_count(1)
  by (simp add: whale_verdict_def collect_settlement_signatures_def whale_roster_def required_signers_def
     shells_guardians shells_sign [unfolded decision_signers_def] whale_weights whale_sums signer_stake_def
     dget_def stake_majority_def toy_floats Let_def)
lemma shell_bare: "filter (\<lambda>s. s \<noteq> JNull) (map sig_of shell_signatures) = shell_signatures"
  by (simp add: shell_signatures_def sig_of_def)

lemma shell_proof_verifies: "shell_proof_verdict = Inr (True, ''ok'', 2, 2)"
  using shells_count
  by (simp add: shell_proof_verdict_def settlement_block_proof_def collect_settlement_signatures_def whale_roster_def required_signers_def
     shells_guardians shells_sign [unfolded decision_signers_def] whale_weights whale_sums signer_stake_def
     dget_def stake_majority_def toy_floats Let_def verify_settlement_block_proof_def is_object_def toy_letters
     toy_close shell_bare shells_sign [unfolded decision_signers_def shell_bare]
     roster_of_json_def signature_items_def proof_threshold_def)
    (simp add: shell_signatures_def)

end
