(* ===== verification/Settlement_Props.thy ===== *)
theory Settlement_Props
  imports Settlement_Facts
begin

text \<open>
  The properties of the guardian halt (\<^verbatim>\<open>neurahash/guardian_halt.py\<close>), the pool sequencer
  (\<^verbatim>\<open>neura_l1/pool_sequencer.py\<close>) and the settlement quorum (\<^verbatim>\<open>neurahash/diloco_settlement.py\<close>), each
  with a concrete run that meets its hypotheses.
\<close>

subsection \<open>Guardians\<close>

text \<open>C10: an order is accepted only with a fresh epoch and with at least the threshold of distinct
  guardians, each of whom signed exactly its action, epoch, reason and integer duration; it moves the
  epoch up, and a halt never lasts beyond the configured maximum.\<close>

theorem accepted_order_is_authorized:
  assumes "submit W L g action epoch sigs now reason duration = (out, g')" "accepted_order out"
  shows "gh_last_epoch g < epoch \<and> gh_last_epoch g' = epoch
    \<and> (\<exists>A. A \<subseteq> set (gs_members (gh_set g)) \<and> gs_threshold (gh_set g) \<le> card A
        \<and> (\<forall>a \<in> A. \<exists>s r. JStr s \<in> set sigs \<and> str_lower r = a
             \<and> recover_bytes W (halt_payload W action epoch reason (trunc duration)) s = Inr r))
    \<and> (\<forall>eff. out = Halted eff \<longrightarrow> eff \<le> gh_max_halt g \<and> gh_halted_until g' = fadd now eff)"
proof -
  let ?A = "set (distinct_signers W (gh_set g) (halt_payload W action epoch reason (trunc duration)) sigs)"
  from submit_cases [OF assms(1)] assms(2)
  have m: "meets_threshold W (gh_set g) (halt_payload W action epoch reason (trunc duration)) sigs"
    and e: "gh_last_epoch g < epoch" "gh_last_epoch g' = epoch"
    and h: "\<forall>eff. out = Halted eff \<longrightarrow> eff \<le> gh_max_halt g \<and> gh_halted_until g' = fadd now eff" by auto
  have "gs_threshold (gh_set g) \<le> card ?A"
    using m by (simp add: meets_threshold_def distinct_signers_card)
  moreover have "\<forall>a \<in> ?A. \<exists>s r. JStr s \<in> set sigs \<and> str_lower r = a
      \<and> recover_bytes W (halt_payload W action epoch reason (trunc duration)) s = Inr r"
    by (auto simp: set_distinct_signers member_signer_Some recover_default_scheme)
  ultimately have "\<exists>A. A \<subseteq> set (gs_members (gh_set g)) \<and> gs_threshold (gh_set g) \<le> card A
      \<and> (\<forall>a \<in> A. \<exists>s r. JStr s \<in> set sigs \<and> str_lower r = a
          \<and> recover_bytes W (halt_payload W action epoch reason (trunc duration)) s = Inr r)"
    by (intro exI [of _ ?A] conjI distinct_signers_members)
  with e h show ?thesis by (intro conjI)
qed

text \<open>A ledger that is a list.\<close>

definition list_ledger :: "json list intent_ledger" where
  "list_ledger = \<lparr>il_governance = (\<lambda>l r. (Inr (), l @ [r])), il_records = Inr\<rparr>"

lemma list_ledger_simps [simp]:
  "il_governance list_ledger l r = (Inr (), l @ [r])" "il_records list_ledger = Inr"
  by (simp_all add: list_ledger_def)

lemma list_ledger_keeps: "append_only list_ledger (\<lambda>l. l)"
  by (auto simp: append_only_def)

definition demo_guardians :: "json list guardian_halt" where
  "demo_guardians = \<lparr>gh_set = \<lparr>gs_members = [''w'', ''a'', ''b''], gs_threshold = 2\<rparr>, gh_max_halt = 100,
     gh_halted_until = 0, gh_last_epoch = 0, gh_ledger = Some []\<rparr>"

lemma demo_threshold: "meets_threshold toy_world (gh_set demo_guardians) p shell_signatures"
  using shells_sign [of p]
  by (simp add: meets_threshold_def demo_guardians_def decision_signers_def shell_bare)

lemma demo_guardians_simps [simp]:
  "gh_last_epoch demo_guardians = 0" "gh_max_halt demo_guardians = 100" "gh_ledger demo_guardians = Some []"
  by (simp_all add: demo_guardians_def)

lemma demo_halt:
  "fst (submit toy_world list_ledger demo_guardians HALT 1 shell_signatures 5 [] 0) = Halted 100"
  using submit_halts [of demo_guardians 1 toy_world "[]" 0 shell_signatures list_ledger 5] demo_threshold by simp

theorem accepted_order_is_authorized_witness:
  "gh_last_epoch (snd (submit toy_world list_ledger demo_guardians HALT 1 shell_signatures 5 [] 0)) = 1"
proof -
  obtain g' where s: "submit toy_world list_ledger demo_guardians HALT 1 shell_signatures 5 [] 0 = (Halted 100, g')"
    using demo_halt by (metis prod.collapse)
  from accepted_order_is_authorized [OF this] s show ?thesis by (simp add: accepted_order_def)
qed

text \<open>C11: after an accepted order its epoch is stale for the same controller, whatever orders
  follow. A controller rebuilt from the ledger refuses it too, if the order's own write to the ledger
  returned, the ledger loses no record, and it can be read at the restart; the exceptions of the ledger
  are swallowed, so without these the floor is lost (\<^verbatim>\<open>unreadable_ledger_forgets\<close> and
  \<^verbatim>\<open>unrecorded_order_replays\<close> below).\<close>

theorem accepted_order_never_replays:
  assumes "submit W L g action epoch sigs now reason duration = (out, g1)" "accepted_order out"
    "g2 = foldl (halt_step W L) g1 orders"
  shows "(\<exists>e. submit W L g2 action' epoch sigs' now' reason' duration' = (StaleEpoch epoch e, g2))
    \<and> (append_only L kept \<and> gh_ledger g = Some l
       \<and> il_governance L l (intent_record g action epoch reason (gh_halted_until g1)) = (Inr (), l')
       \<and> gh_ledger g2 = Some l2 \<and> il_records L l2 = Inr rs
       \<and> guardian_halt_new L gs (gh_ledger g2) max_halt = Inr g3
       \<longrightarrow> (\<exists>e. submit W L g3 action' epoch sigs' now' reason' duration' = (StaleEpoch epoch e, g3)))"
proof (intro conjI impI; (elim conjE)?)
  have "epoch \<le> gh_last_epoch g2"
    using submit_cases [OF assms(1)] assms(2,3) halt_epochs.run_level [of g1 W L orders] by auto
  then show "\<exists>e. submit W L g2 action' epoch sigs' now' reason' duration' = (StaleEpoch epoch e, g2)"
    by (simp add: submit_def)
  assume keeps: "append_only L kept" and rest: "gh_ledger g = Some l"
    "il_governance L l (intent_record g action epoch reason (gh_halted_until g1)) = (Inr (), l')"
    "gh_ledger g2 = Some l2" "il_records L l2 = Inr rs"
    "guardian_halt_new L gs (gh_ledger g2) max_halt = Inr g3"
  have "epoch_logged kept epoch g1" using accepted_logged [OF assms(1,2) keeps rest(1,2)] .
  then have "epoch_logged kept epoch g2"
    using halt_logged.run_inv [of L kept epoch g1 W orders] keeps assms(3) by simp
  then have "epoch \<le> gh_last_epoch g3" using rebuilt_floor [OF keeps _ rest(3-5)] by blast
  then show "\<exists>e. submit W L g3 action' epoch sigs' now' reason' duration' = (StaleEpoch epoch e, g3)"
    by (simp add: submit_def)
qed

theorem accepted_order_never_replays_witness:
  "\<exists>g' g3 e. submit toy_world list_ledger demo_guardians HALT 1 shell_signatures 5 [] 0 = (Halted 100, g')
     \<and> guardian_halt_new list_ledger (gh_set demo_guardians) (gh_ledger g') 100 = Inr g3
     \<and> submit toy_world list_ledger g3 RESUME 1 shell_signatures 6 [] 0 = (StaleEpoch 1 e, g3)"
proof -
  obtain g' where s: "submit toy_world list_ledger demo_guardians HALT 1 shell_signatures 5 [] 0 = (Halted 100, g')"
    using demo_halt by (metis prod.collapse)
  have l: "gh_ledger g' = Some [intent_record g' HALT 1 [] (fadd 5 100)]"
    using s demo_threshold by (auto simp: submit_def Let_def record_intent_def intent_record_def split: if_splits)
  then obtain g3 where r: "guardian_halt_new list_ledger (gh_set demo_guardians) (gh_ledger g') 100 = Inr g3"
    by (auto simp: guardian_halt_new_def intent_epoch_record)
  from accepted_order_never_replays [OF s _ refl, of "[]" RESUME shell_signatures 6 "[]" 0 "\<lambda>l. l"] list_ledger_keeps l r
  show ?thesis using s by (auto simp: accepted_order_def)
qed

text \<open>The constructor cannot tell a ledger that fails to read from an empty one: the floor is zero again.\<close>

lemma unreadable_ledger_forgets:
  assumes "il_records L l = Inl e" "0 < epoch" "action \<in> {HALT, RESUME}"
    "meets_threshold W gs (halt_payload W action epoch reason (trunc duration)) sigs"
  shows "\<exists>g. guardian_halt_new L gs (Some l) max_halt = Inr g
    \<and> accepted_order (fst (submit W L g action epoch sigs now reason duration))"
  using assms by (auto simp: guardian_halt_new_def submit_def Let_def accepted_order_def HALT_def RESUME_def)

text \<open>An order whose write raised is accepted all the same, and once more after a restart.\<close>

lemma unrecorded_order_replays:
  assumes "il_governance L l = (\<lambda>r. (Inl e, l))" "il_records L l = Inr []" "gh_ledger g = Some l"
    "0 \<le> gh_last_epoch g" "submit W L g action epoch sigs now reason duration = (out, g1)" "accepted_order out"
  shows "\<exists>g2. guardian_halt_new L (gh_set g) (gh_ledger g1) max_halt = Inr g2
    \<and> accepted_order (fst (submit W L g2 action epoch sigs later reason duration))"
proof -
  have "gh_ledger g1 = Some l"
    using assms(1,3,5) by (auto simp: submit_def Let_def split: if_splits)
  then show ?thesis using submit_cases [OF assms(5)] assms(2,4,6)
    by (auto simp: guardian_halt_new_def submit_def Let_def accepted_order_def HALT_def RESUME_def)
qed

text \<open>the guardians sign the integer part of the duration. Signatures collected for the longest
  halt, duration 0, also carry an order of any duration below one second, which then halts for that
  fraction only.\<close>

theorem fraction_shortens_signed_halt:
  assumes "gh_last_epoch g < epoch" "meets_threshold W (gh_set g) (halt_payload W HALT epoch reason 0) sigs"
    "0 < d" "d < 1"
  shows "fst (submit W L g HALT epoch sigs now reason 0) = Halted (gh_max_halt g)
    \<and> fst (submit W L g HALT epoch sigs now reason d) = Halted (min (rnd64 d) (gh_max_halt g))"
proof -
  have t: "trunc d = 0" "trunc 0 = 0" using assms(3,4) by (auto simp: trunc_def floor_eq_iff)
  show ?thesis
    using submit_halts [of g epoch W reason 0 sigs L now] submit_halts [of g epoch W reason d sigs L now] assms t
    by simp
qed

theorem fraction_shortens_signed_halt_witness:
  "fst (submit toy_world list_ledger demo_guardians HALT 1 shell_signatures 5 [] (1 / 2)) = Halted (1 / 2)"
proof -
  have "rnd64 (1 / 2) = 1 / 2" by code_simp
  with fraction_shortens_signed_halt [of demo_guardians 1 toy_world "[]" shell_signatures "1 / 2" list_ledger 5] demo_threshold
  show ?thesis by simp
qed

end
