(* ===== verification/Sequencer_Props.thy ===== *)
theory Sequencer_Props
  imports Settlement_Facts "HOL-Library.Multiset"
begin

text \<open>
  The properties of the pool sequencer (\<^verbatim>\<open>neura_l1/pool_sequencer.py\<close>) and of the settlement quorum
  (\<^verbatim>\<open>neurahash/diloco_settlement.py\<close>), each with a concrete run that meets its hypotheses.
\<close>

subsection \<open>Election and failover\<close>

text \<open>the elected proposer is a member of the roster of least election key, the ranking is a
  permutation of the roster, and any node that holds the same set of addresses, in any order and with
  any repetition, elects the same proposer with the same ranking.\<close>

theorem election_is_determined:
  assumes "elect_proposer W E roster prev stake = (Some w, ranked)" "set roster' = set roster"
  shows "w \<in> set roster \<and> set ranked = set roster \<and> distinct ranked
    \<and> (\<forall>a \<in> set roster. election_key W E prev stake w \<le> election_key W E prev stake a)
    \<and> elect_proposer W E roster' prev stake = (Some w, ranked)"
  using elect_in_roster [OF assms(1)] elect_permutation [OF assms(2), of W E prev stake] assms(1) by simp

definition demo_election :: "nat election" where
  "demo_election = \<lparr>leader_tag = (\<lambda>a b. length a), beacon_for = (\<lambda>p c. []), saturating_weight = (\<lambda>x. x)\<rparr>"

lemma elect_nonempty:
  assumes "roster \<noteq> []"
  obtains w ranked where "elect_proposer W E roster prev stake = (Some w, ranked)"
proof -
  have "sort (remdups roster) \<noteq> []" using assms by (metis remdups_eq_nil_iff set_empty set_sort)
  then show thesis using that by (simp add: elect_proposer_def Let_def)
qed

theorem election_is_determined_witness:
  "elect_proposer toy_world demo_election [''d'', ''abc'', ''d''] [] None
     = elect_proposer toy_world demo_election [''abc'', ''d''] [] None
   \<and> fst (elect_proposer toy_world demo_election [''abc'', ''d''] [] None) \<in> {Some ''abc'', Some ''d''}"
proof -
  obtain w ranked where e: "elect_proposer toy_world demo_election [''abc'', ''d''] [] None = (Some w, ranked)"
    by (rule elect_nonempty [of "[''abc'', ''d'']"]) simp
  have "set [''d'', ''abc'', ''d''] = set [''abc'', ''d'']" by auto
  from election_is_determined [OF e this] e show ?thesis by auto
qed

text \<open>failover never skips a live proposer: the successor is the first address of the ranking
  that has been seen recently enough, and the round is taken over exactly when that is not the leader.\<close>

theorem takeover_picks_first_live:
  assumes "takeover_decision ranked seen now stale = d" "dc_successor d = Some p"
  shows "(\<exists>before after. ranked = before @ p # after \<and> fresh seen now stale p
      \<and> (\<forall>q \<in> set before. \<not> fresh seen now stale q))
    \<and> (dc_would_take_over d \<longleftrightarrow> dc_leader d \<noteq> Some p)
    \<and> (dc_leader_stale d \<longleftrightarrow> dc_leader d \<noteq> Some p)"
proof -
  from takeover_successor [of ranked seen now stale p] assms obtain before after
    where r: "ranked = before @ p # after" "fresh seen now stale p" "\<forall>q \<in> set before. \<not> fresh seen now stale q"
    by blast
  moreover have "(dc_would_take_over d \<longleftrightarrow> dc_leader d \<noteq> Some p) \<and> (dc_leader_stale d \<longleftrightarrow> dc_leader d \<noteq> Some p)"
    using r assms by (cases before) (auto simp: takeover_decision_def Let_def)
  ultimately show ?thesis by blast
qed

theorem takeover_picks_first_live_witness:
  "dc_would_take_over (takeover_decision [''x'', ''y''] [(''x'', 3), (''y'', 9)] 10 2)"
  using takeover_picks_first_live [OF refl, of "[''x'', ''y'']" "[(''x'', 3), (''y'', 9)]" 10 2 "''y''"]
  by (simp add: takeover_decision_def fresh_def)

subsection \<open>The commitment chain\<close>

text \<open>the auditor accepts a log exactly when its round commitments, in round order, carry one
  record per round, each with a valid signature of the expected proposer and its own id, and each
  linked to the one before, the first to the genesis seed.\<close>

theorem commitment_audit_is_exact:
  "fst (verify_commitment_chain W records expected genesis) \<longleftrightarrow>
     distinct (map rec_round (commitment_records records))
     \<and> sorted (map rec_round (commitment_records records))
     \<and> list_all (\<lambda>r. signature_ok W expected r \<and> id_matches W r) (commitment_records records)
     \<and> links (JStr genesis) (commitment_records records)"
  using commitment_records_sorted by (auto simp: verify_commitment_chain_iff valid_chain_def)

text \<open>the log that a proposer writes by signing one commitment per round, each chained to the
  last, passes the audit against the proposer's own key.\<close>

theorem honest_log_passes_audit:
  assumes "signs_correctly W" "acct_key a = Some k" "honest_log W a mode h genesis rounds = Inr recs"
  shows "fst (verify_commitment_chain W recs (Some (address_of_key W k)) genesis)"
  by (rule honest_log_verifies [OF assms])

theorem honest_log_passes_audit_witness:
  "\<exists>recs. honest_log toy_world (account_from_key toy_world ''k'') ''audit'' 0 ''g''
       [([], [], ''c1'', [], 1), ([], ''c1'', ''c2'', [], 2)] = Inr recs
     \<and> fst (verify_commitment_chain toy_world recs (Some ''k'') ''g'')"
proof -
  have b: "\<exists>signed i. build_signed_round_commitment W (account_from_key W k) h prev b p n d w = Inr (signed, i)"
    for W k h prev b p n d w
    by (simp add: build_signed_round_commitment_def round_commitment_def sign_commitment_def commit_id_def
        commitment_canonical_bytes_def commitment_canonical_def canon_def account_key_def account_from_key_def
        Let_def)
  have "\<exists>recs. honest_log W (account_from_key W k) mode h prev rounds = Inr recs" for W k mode h prev rounds
  proof (induction rounds arbitrary: h prev)
    case (Cons x rounds)
    obtain be p n d w where x: "x = (be, p, n, d, w)" by (cases x)
    from b [of W k h prev be p n d w] obtain signed i where
      s: "build_signed_round_commitment W (account_from_key W k) h prev be p n d w = Inr (signed, i)" by blast
    from Cons.IH [of "h + 1" i] s show ?case by (auto simp: x)
  qed simp
  then obtain recs where r: "honest_log toy_world (account_from_key toy_world ''k'') ''audit'' 0 ''g''
       [([], [], ''c1'', [], 1), ([], ''c1'', ''c2'', [], 2)] = Inr recs" by blast
  have k: "acct_key (account_from_key toy_world ''k'') = Some ''k''" "address_of_key toy_world ''k'' = ''k''"
    by (simp_all add: account_from_key_def toy_world_def)
  from honest_log_passes_audit [OF toy_world_signs k(1) r] r k(2) show ?thesis by simp
qed

text \<open>the root of a round's deltas does not depend on the order in which they arrived, but
  it does not determine them either: the separators may occur in the entries, and two different sets
  of deltas share a root for every hash function.\<close>

theorem delta_root_is_not_injective:
  assumes "mset d1 = mset d2"
  shows "delta_set_root W d1 = delta_set_root W d2
    \<and> (\<exists>e1 e2. set e1 \<noteq> set e2 \<and> delta_set_root W e1 = delta_set_root W e2)"
proof -
  have "sort d1 = sort d2"
    using assms by (metis mset_sort properties_for_sort sorted_sort)
  then have "delta_set_root W d1 = delta_set_root W d2" by (simp add: delta_set_root_def)
  moreover have "set [(''a'', ''1|b=2'')] \<noteq> set [(''a'', ''1''), (''b'', ''2'')]" by simp
  ultimately show ?thesis using delta_set_root_collision [of W] by blast
qed

theorem delta_root_is_not_injective_witness:
  "delta_set_root toy_world [(''b'', ''2''), (''a'', ''1'')] = delta_set_root toy_world [(''a'', ''1''), (''b'', ''2'')]"
proof -
  have "mset [(''b'', ''2''), (''a'', ''1'')] = mset [(''a'', ''1''), (''b'', ''2'')]" by simp
  from delta_root_is_not_injective [OF this] show ?thesis by blast
qed

subsection \<open>The settlement quorum\<close>

text \<open>two mints approved over one roster of addresses, whatever they are, have a roster member
  in common whose key signed both: no two disjoint groups of validators can authorize.\<close>

theorem approved_mints_share_a_signer:
  assumes "collect_settlement_signatures W r1 a1 h1 c1 (Members ms) atts1 m1 = Inr v1" "vd_approved v1"
    "collect_settlement_signatures W r2 a2 h2 c2 (Members ms) atts2 m2 = Inr v2" "vd_approved v2"
  shows "\<exists>x s1 s2 y1 y2. recover_message W (domain_bytes ''bytes'' (settlement_payload W r1 a1 h1 c1)) s1 = Some y1
     \<and> recover_message W (domain_bytes ''bytes'' (settlement_payload W r2 a2 h2 c2)) s2 = Some y2
     \<and> str_lower y1 = x \<and> str_lower y2 = x \<and> x \<in> (str_lower \<circ> str_strip) ` set ms"
  by (rule count_decisions_share_signer [OF assms])

lemma shells_collect:
  obtains v where "collect_settlement_signatures toy_world ''m'' (Fin 5) h [] (Members [''w'', ''a'', ''b''])
    shell_signatures None = Inr v" "vd_approved v"
  using shells_count(2) that
  by (simp add: collect_settlement_signatures_def required_signers_def shells_guardians
      shells_sign [unfolded decision_signers_def] Let_def)

theorem approved_mints_share_a_signer_witness:
  "\<exists>x. x \<in> (str_lower \<circ> str_strip) ` set [''w'', ''a'', ''b'']"
proof -
  obtain v1 where 1: "collect_settlement_signatures toy_world ''m'' (Fin 5) 1 [] (Members [''w'', ''a'', ''b''])
    shell_signatures None = Inr v1" "vd_approved v1" by (rule shells_collect)
  obtain v2 where 2: "collect_settlement_signatures toy_world ''m'' (Fin 5) 2 [] (Members [''w'', ''a'', ''b''])
    shell_signatures None = Inr v2" "vd_approved v2" by (rule shells_collect)
  from approved_mints_share_a_signer [OF 1 2] show ?thesis by blast
qed

text \<open>Addresses of the roster with a positive stake, each of which signed the payload in one of the
  attestations, that together hold more than half of all the stake.\<close>

definition stake_backed ::
  "world \<Rightarrow> string \<Rightarrow> json list \<Rightarrow> (string, rat) pydict \<Rightarrow> string set \<Rightarrow> bool" where
  "stake_backed W payload atts d A \<longleftrightarrow>
     (\<forall>x \<in> A. 0 < dget (stake_weight_map d) x 0
       \<and> (\<exists>s y. JStr s \<in> set (map sig_of atts)
            \<and> recover_bytes W payload s = Inr y \<and> str_lower y = x))
   \<and> sum_list (dvalues d) < 2 * (\<Sum>x \<in> A. dget (stake_weight_map d) x 0)"

lemma approved_stake_backed:
  assumes "collect_settlement_signatures W r a h c (Staked d) atts m = Inr v" "vd_approved v" "grid_roster d"
  obtains A where "stake_backed W (settlement_payload W r a h c) atts d A" "stake_count.decides d A"
proof -
  let ?p = "settlement_payload W r a h c"
  obtain gs where dec: "stake_count.decides d (set (decision_signers W gs ?p atts) \<inter> set (dkeys (stake_weight_map d)))"
    using assms by (rule stake_approved_decides)
  define A where "A = {x \<in> set (decision_signers W gs ?p atts) \<inter> set (dkeys (stake_weight_map d)).
      0 < dget (stake_weight_map d) x 0}"
  have A: "stake_count.decides d A" unfolding A_def by (rule stake_count.decides_positive [OF dec])
  have all: "(\<Sum>x \<in> set (dkeys (stake_weight_map d)). dget (stake_weight_map d) x 0) = sum_list (dvalues d)"
    using stake_weights_ok [of d] stake_weights_exact(2) [OF assms(3)]
    by (simp add: sum_dget_keys weights_ok_def del: set_map)
  have "\<exists>s y. JStr s \<in> set (map sig_of atts) \<and> recover_bytes W ?p s = Inr y \<and> str_lower y = x" if "x \<in> A" for x
    using that by (auto simp: A_def decision_signers_def set_distinct_signers member_signer_Some
        recover_default_scheme image_iff) (metis image_eqI)
  then have "stake_backed W ?p atts d A"
    using A all by (simp add: stake_backed_def stake_count.decides_def A_def del: set_map)
  then show thesis using A by (rule that)
qed

text \<open>C12: on a roster whose stakes are nonnegative multiples of \<open>2 ^ -22\<close> with a sum of at most
  \<open>2 ^ 30\<close>, the float sums are exact, and then each of two approved mints is backed by roster addresses of
  positive stake that signed exactly its payload in its attestations and together hold more than half of
  the stake, and some address is among the backers of both.\<close>

theorem approved_stakes_share_a_signer:
  assumes "collect_settlement_signatures W r1 a1 h1 c1 (Staked d) atts1 m1 = Inr v1" "vd_approved v1"
    "collect_settlement_signatures W r2 a2 h2 c2 (Staked d) atts2 m2 = Inr v2" "vd_approved v2"
    "grid_roster d"
  shows "\<exists>A1 A2. stake_backed W (settlement_payload W r1 a1 h1 c1) atts1 d A1
     \<and> stake_backed W (settlement_payload W r2 a2 h2 c2) atts2 d A2 \<and> A1 \<inter> A2 \<noteq> {}"
proof -
  obtain A1 where 1: "stake_backed W (settlement_payload W r1 a1 h1 c1) atts1 d A1" "stake_count.decides d A1"
    using assms(1,2,5) by (rule approved_stake_backed)
  obtain A2 where 2: "stake_backed W (settlement_payload W r2 a2 h2 c2) atts2 d A2" "stake_count.decides d A2"
    using assms(3-5) by (rule approved_stake_backed)
  show ?thesis using 1 2 stake_count.decisions_meet [OF 1(2) 2(2)] by blast
qed

lemma whale_signs:
  "member_signer toy_world \<lparr>gs_members = [''w'', ''a'', ''b''], gs_threshold = 2\<rparr> p (JStr ''0xw'') = Some ''w''"
  by (simp add: member_signer_def recover_default_scheme
      recover_bytes_def toy_world_def hex_sig_def starts_with_def toy_letters)

lemma whale_collects:
  obtains v where "collect_settlement_signatures toy_world ''m'' (Fin 5) h []
    (Staked [(''w'', 100), (''a'', 1), (''b'', 1)]) [JStr ''0xw''] None = Inr v" "vd_approved v"
proof -
  have "fmul 100 2 = 200" "fsum [100] = 100" by code_simp+
  then show thesis
    using shells_count(1) that
    by (simp add: collect_settlement_signatures_def whale_roster_def required_signers_def shells_guardians
        whale_signs sig_of_def whale_weights whale_sums signer_stake_def dget_def
        stake_majority_def Let_def)
qed

theorem approved_stakes_share_a_signer_witness:
  "\<exists>A1 A2. stake_backed toy_world (settlement_payload toy_world ''m'' (Fin 5) 1 []) [JStr ''0xw'']
        [(''w'', 100), (''a'', 1), (''b'', 1)] A1
     \<and> stake_backed toy_world (settlement_payload toy_world ''m'' (Fin 5) 2 []) [JStr ''0xw'']
        [(''w'', 100), (''a'', 1), (''b'', 1)] A2 \<and> A1 \<inter> A2 \<noteq> {}"
proof -
  have "on_grid 100" "on_grid 1" by (code_simp, code_simp)
  then have g: "grid_roster [(''w'', 100), (''a'', 1), (''b'', 1)]" by (simp add: grid_roster_def)
  obtain v1 where 1: "collect_settlement_signatures toy_world ''m'' (Fin 5) 1 []
    (Staked [(''w'', 100), (''a'', 1), (''b'', 1)]) [JStr ''0xw''] None = Inr v1" "vd_approved v1"
    by (rule whale_collects)
  obtain v2 where 2: "collect_settlement_signatures toy_world ''m'' (Fin 5) 2 []
    (Staked [(''w'', 100), (''a'', 1), (''b'', 1)]) [JStr ''0xw''] None = Inr v2" "vd_approved v2"
    by (rule whale_collects)
  show ?thesis by (rule approved_stakes_share_a_signer [OF 1 2 g])
qed

text \<open>C13: under enforcement an unapproved verdict credits nobody and leaves the chain untouched,
  whatever the settling function would have done; outside enforcement the verdict is only recorded and
  the mint goes through.\<close>

theorem enforcement_withholds_the_mint:
  assumes "settle_with_multisig W settle chain recipient amount height cid r atts ts mode m ex_by
      = Inr (credited, v, rec, chain')"
  shows "if mode = ''enforce'' \<and> \<not> vd_approved v then credited = [] \<and> chain' = chain
    else settle chain height amount (case ex_by of Some (e # es) \<Rightarrow> e # es | _ \<Rightarrow> [(recipient, 1)]) ts
      = Inr (credited, chain')"
  using assms
  by (auto simp: settle_with_multisig_def Let_def bindE_Inr_iff settle_allowed_def split: if_splits)

theorem enforcement_withholds_the_mint_witness:
  "\<exists>v rec. settle_with_multisig toy_world (\<lambda>c h a ex t. Inr (ex, Suc c)) 0 ''m'' 5 1 [] whale_roster
      shell_signatures 7 ''enforce'' None None = Inr ([], v, rec, 0) \<and> \<not> vd_approved v"
proof -
  obtain v where c: "collect_settlement_signatures toy_world ''m'' (Fin 5) 1 [] whale_roster shell_signatures None = Inr v"
    and v: "\<not> vd_approved v"
    using whale_refuses unfolding whale_verdict_def
    by (cases "collect_settlement_signatures toy_world ''m'' (Fin 5) 1 [] whale_roster shell_signatures None") auto
  obtain rec where s: "settle_with_multisig toy_world (\<lambda>c h a ex t. Inr (ex, Suc c)) 0 ''m'' 5 1 [] whale_roster
      shell_signatures 7 ''enforce'' None None = Inr ([], v, rec, 0)"
    using v by (simp add: settle_with_multisig_def c settle_allowed_def Let_def)
  from enforcement_withholds_the_mint [OF s] v s show ?thesis by auto
qed

text \<open>the proof embedded in a block forgets the stakes. Two validators that bond 1 each cannot
  approve a mint against one that bonds 100, but the proof built from the same refused signatures
  verifies, because its verification counts heads.\<close>

theorem embedded_proof_counts_heads:
  "map_sum id vd_approved (collect_settlement_signatures toy_world ''m'' (Fin 5) 1 []
      (Staked [(''w'', 100), (''a'', 1), (''b'', 1)]) [JStr ''0xa'', JStr ''0xb''] None) = Inr False
   \<and> map_sum id (\<lambda>p. verify_settlement_block_proof toy_world p (JStr ''m'') (JNum (Fin 5)) (JInt 1))
      (settlement_block_proof toy_world ''m'' (Fin 5) 1 []
        (Staked [(''w'', 100), (''a'', 1), (''b'', 1)]) [JStr ''0xa'', JStr ''0xb''] None)
      = Inr (True, ''ok'', 2, 2)"
  using whale_refuses shell_proof_verifies
  by (simp add: whale_verdict_def shell_proof_verdict_def whale_roster_def shell_signatures_def)

end
