(* ===== verification/Chain_Settlement.thy ===== *)
theory Chain_Settlement
  imports Settlement_Facts Ledger_Policy
begin

text \<open>
  The coordinator-signed settlement chain, \<^verbatim>\<open>neurahash/chain_settlement.py\<close>: settling a height,
  replaying and verifying a chain of block records, the enforced quorum, persistence, the paid-cid
  guard and the public verifier.

  A block record is the decoded dictionary that travels between nodes. A contributor weight that is
  no finite number is treated as one that \<^verbatim>\<open>float\<close> refuses.
\<close>

subsection \<open>Block records\<close>

definition beacon_of :: "world \<Rightarrow> string \<Rightarrow> string" where
  "beacon_of W prev = sha256 W prev"

definition quorum_hash :: "world \<Rightarrow> json \<Rightarrow> string" where
  "quorum_hash W q = sha256 W (dumps W q)"

definition contributors_json :: "(addr, rat) pydict \<Rightarrow> json" where
  "contributors_json cs = JObj (map (\<lambda>(a, w). (a, JNum (Fin w))) cs)"

definition contributors_of :: "json \<Rightarrow> exn + (addr, rat) pydict" where
  "contributors_of j = (case j of
       JObj kvs \<Rightarrow> mapE (\<lambda>(a, w). bindE (finite_float w) (\<lambda>q. Inr (a, q))) kvs | _ \<Rightarrow> Inl AttributeError)"

definition block_record :: "header \<Rightarrow> (addr, rat) pydict \<Rightarrow> string \<Rightarrow> json option \<Rightarrow> json" where
  "block_record h cs sig q = JObj
     ([(''header'', header_to_dict h), (''contributors'', contributors_json cs), (''sig'', JStr sig)]
      @ (case q of None \<Rightarrow> [] | Some j \<Rightarrow> [(''quorum'', j)]))"

definition settlement_block :: "header \<Rightarrow> block" where
  "settlement_block h = \<lparr>bk_header = h, bk_txs = [], bk_pouw = JObj [], bk_commitment = JNull\<rparr>"

subsection \<open>The enforced quorum\<close>

datatype quorum_failure =
    NoQuorumProof
  | QuorumHashMismatch
  | NoPinnedRoster
  | QuorumError exn
  | QuorumNotMet nat int

text \<open>\<open>None\<close> is success.\<close>

definition verify_block_quorum :: "world \<Rightarrow> json \<Rightarrow> header \<Rightarrow> roster option \<Rightarrow> int option \<Rightarrow> quorum_failure option" where
  "verify_block_quorum W r hdr pinned m =
     (let q = get_or r ''quorum'' JNull in
      if \<not> is_object q \<or> \<not> truthy q then Some NoQuorumProof
      else if hd_quorum_hash hdr \<noteq> [] \<and> quorum_hash W q \<noteq> hd_quorum_hash hdr then Some QuorumHashMismatch
      else case pinned of
        None \<Rightarrow> Some NoPinnedRoster
      | Some ros \<Rightarrow>
          (let recipient = sole_contributor (or_empty (get_or r ''contributors'' (JObj [])));
               cid = get_or q ''delta_cid'' (JStr [])
           in case bindE (signature_items (get_or q ''sigs'' (JList []))) (\<lambda>sigs.
                  collect_settlement_signatures W (str_of W recipient) (Fin (hd_reward hdr)) (hd_height hdr)
                    (if truthy cid then str_of W cid else []) ros sigs m) of
                Inl e \<Rightarrow> Some (QuorumError e)
              | Inr v \<Rightarrow> if vd_approved v then None
                         else Some (QuorumNotMet (vd_n_signers v) (vd_n_required v))))"

subsection \<open>Replay\<close>

datatype replay_failure =
    BrokenChain
  | BadSignature exn
  | WrongSigner string
  | QuorumFailed quorum_failure
  | DoesNotApply
  | LiveBalanceMismatch
  | LiveMintedMismatch

text \<open>How a verifier replays: whether each block needs a quorum, the pinned roster, the threshold.\<close>

record replay_policy =
  rp_require_quorum :: bool
  rp_roster :: "roster option"
  rp_m :: "int option"

definition trusting :: replay_policy where
  "trusting = \<lparr>rp_require_quorum = False, rp_roster = None, rp_m = None\<rparr>"

text \<open>One block record on a replayed state and head. A header that does not parse raises out of the
  replay; every other fault is a failure of that block.\<close>

definition guardE :: "bool \<Rightarrow> 'e \<Rightarrow> 'e + unit" where
  "guardE b e = (if b then Inr () else Inl e)"

definition failE :: "('e \<Rightarrow> 'f) \<Rightarrow> 'e + 'a \<Rightarrow> 'f + 'a" where
  "failE f m = (case m of Inl e \<Rightarrow> Inl (f e) | Inr x \<Rightarrow> Inr x)"

lemma guardE_Inr [simp]: "guardE b e = Inr u \<longleftrightarrow> b"
  by (simp add: guardE_def)

lemma failE_Inr [simp]: "failE f m = Inr x \<longleftrightarrow> m = Inr x"
  by (cases m) (simp_all add: failE_def)

definition block_signer :: "world \<Rightarrow> json \<Rightarrow> header \<Rightarrow> exn + string" where
  "block_signer W r hdr = bindE (bindE (getE r ''sig'') strE) (recover_bytes W (header_hash W hdr))"

definition block_quorum_failure :: "world \<Rightarrow> replay_policy \<Rightarrow> json \<Rightarrow> header \<Rightarrow> quorum_failure option" where
  "block_quorum_failure W P r hdr =
     (if rp_require_quorum P then verify_block_quorum W r hdr (rp_roster P) (rp_m P) else None)"

definition replay_parsed :: "world \<Rightarrow> replay_policy \<Rightarrow> string \<Rightarrow> nstate \<times> string \<Rightarrow> json \<Rightarrow> header
    \<Rightarrow> replay_failure + nstate \<times> string" where
  "replay_parsed W P coord sh r hdr =
     bindE (guardE (hd_prev_hash hdr = snd sh) BrokenChain) (\<lambda>_.
     bindE (failE BadSignature (block_signer W r hdr)) (\<lambda>signer.
     bindE (guardE (str_lower signer = str_lower coord) (WrongSigner signer)) (\<lambda>_.
     bindE (case block_quorum_failure W P r hdr of Some f \<Rightarrow> Inl (QuorumFailed f) | None \<Rightarrow> Inr ()) (\<lambda>_.
     bindE (failE (\<lambda>e. DoesNotApply) (bindE (getE r ''contributors'') contributors_of)) (\<lambda>cs.
     bindE (failE (\<lambda>e. DoesNotApply) (apply_block W (fst sh) (settlement_block hdr) cs)) (\<lambda>s'.
       Inr (s', header_hash W hdr)))))))"

definition replay_block :: "world \<Rightarrow> replay_policy \<Rightarrow> string \<Rightarrow> nstate \<times> string \<Rightarrow> json
    \<Rightarrow> exn + replay_failure + nstate \<times> string" where
  "replay_block W P coord sh r =
     bindE (bindE (getE r ''header'') header_from_dict) (\<lambda>hdr. Inr (replay_parsed W P coord sh r hdr))"

text \<open>The replayed state with the first failure, if any, and the index of its block.\<close>

fun replay_from :: "world \<Rightarrow> replay_policy \<Rightarrow> string \<Rightarrow> nat \<Rightarrow> nstate \<times> string \<Rightarrow> json list
    \<Rightarrow> exn + (nstate \<times> string) \<times> (nat \<times> replay_failure) option" where
  "replay_from W P coord i sh [] = Inr (sh, None)"
| "replay_from W P coord i sh (r # rs) =
     bindE (replay_block W P coord sh r) (\<lambda>res. case res of
        Inl f \<Rightarrow> Inr (sh, Some (i, f))
      | Inr sh' \<Rightarrow> replay_from W P coord (Suc i) sh' rs)"

definition genesis_point :: "string \<Rightarrow> nstate \<times> string" where
  "genesis_point ckpt = (new_state ckpt False False, GENESIS_PREV_HASH)"

definition replay_blocks :: "world \<Rightarrow> replay_policy \<Rightarrow> string \<Rightarrow> string \<Rightarrow> json list
    \<Rightarrow> exn + (nstate \<times> string) \<times> (nat \<times> replay_failure) option" where
  "replay_blocks W P coord ckpt blocks = replay_from W P coord 0 (genesis_point ckpt) blocks"

subsection \<open>The settlement chain\<close>

record settlement_chain =
  cs_coord :: account
  cs_genesis :: string
  cs_state :: nstate
  cs_blocks :: "json list"
  cs_head :: string
  cs_paid :: "string set"

definition new_chain :: "account \<Rightarrow> string \<Rightarrow> settlement_chain" where
  "new_chain coord ckpt = \<lparr>cs_coord = coord, cs_genesis = ckpt, cs_state = new_state ckpt False False,
     cs_blocks = [], cs_head = GENESIS_PREV_HASH, cs_paid = {}\<rparr>"

definition settle_contributors :: "(addr, rat) pydict \<Rightarrow> (addr, rat) pydict" where
  "settle_contributors ex_by = filter (\<lambda>(a, w). 0 < w) ex_by"

definition settle_header :: "world \<Rightarrow> settlement_chain \<Rightarrow> int \<Rightarrow> rat \<Rightarrow> (addr, rat) pydict \<Rightarrow> int \<Rightarrow> json option \<Rightarrow> header" where
  "settle_header W cs height pot contributors timestamp q =
     \<lparr>hd_height = height, hd_prev_hash = cs_head cs, hd_beacon = beacon_of W (cs_head cs),
      hd_parent_checkpoint = model_checkpoint (cs_state cs), hd_new_checkpoint = model_checkpoint (cs_state cs),
      hd_work_score = fsum (dvalues contributors), hd_proposer = acct_address (cs_coord cs),
      hd_reward = max 0 pot, hd_tx_root = replicate 64 CHR ''0'', hd_timestamp = timestamp,
      hd_protocol_version = GENESIS_VERSION,
      hd_quorum_hash = (case q of None \<Rightarrow> [] | Some j \<Rightarrow> quorum_hash W j)\<rparr>"

definition settle :: "world \<Rightarrow> settlement_chain \<Rightarrow> int \<Rightarrow> rat \<Rightarrow> (addr, rat) pydict \<Rightarrow> int \<Rightarrow> json option
    \<Rightarrow> exn + (addr, rat) pydict \<times> settlement_chain" where
  "settle W cs height pot ex_by timestamp q =
     (let contributors = settle_contributors ex_by;
          hdr = settle_header W cs height pot contributors timestamp q
      in bindE (sign_bytes W (cs_coord cs) (header_hash W hdr)) (\<lambda>sig.
           case apply_block W (cs_state cs) (settlement_block hdr) contributors of
             Inl _ \<Rightarrow> Inl (ValueError ''apply_block'')
           | Inr s' \<Rightarrow>
               Inr (map (\<lambda>(a, w). (a, round12 (fsub (balance s' a) (balance (cs_state cs) a)))) contributors,
                    cs\<lparr>cs_state := s', cs_head := header_hash W hdr,
                       cs_blocks := cs_blocks cs @ [block_record hdr contributors sig q]\<rparr>)))"

definition chain_balance :: "settlement_chain \<Rightarrow> addr \<Rightarrow> rat" where
  "chain_balance cs a = balance (cs_state cs) a"

definition already_paid :: "settlement_chain \<Rightarrow> string \<Rightarrow> bool" where
  "already_paid cs cid \<longleftrightarrow> cid \<noteq> [] \<and> cid \<in> cs_paid cs"

definition mark_paid :: "settlement_chain \<Rightarrow> string \<Rightarrow> settlement_chain" where
  "mark_paid cs cid = (if cid \<noteq> [] then cs\<lparr>cs_paid := insert cid (cs_paid cs)\<rparr> else cs)"

definition chain_replay :: "world \<Rightarrow> settlement_chain
    \<Rightarrow> exn + (nstate \<times> string) \<times> (nat \<times> replay_failure) option" where
  "chain_replay W cs = replay_blocks W trusting (acct_address (cs_coord cs)) (cs_genesis cs) (cs_blocks cs)"

text \<open>\<open>Inr None\<close> is success.\<close>

definition verify_chain :: "world \<Rightarrow> settlement_chain \<Rightarrow> exn + replay_failure option" where
  "verify_chain W cs =
     bindE (chain_replay W cs) (\<lambda>(sh, failed). Inr (case failed of
        Some (i, f) \<Rightarrow> Some f
      | None \<Rightarrow>
          if \<not> list_all (\<lambda>a. close_enough (balance (fst sh) a) (balance (cs_state cs) a))
                (dkeys (bal (cs_state cs)) @ dkeys (bal (fst sh))) then Some LiveBalanceMismatch
          else if \<not> close_enough (minted (fst sh)) (minted (cs_state cs)) then Some LiveMintedMismatch
          else None))"

subsection \<open>Persistence\<close>

definition public_state :: "settlement_chain \<Rightarrow> json" where
  "public_state cs = JObj [(''coord_address'', JStr (acct_address (cs_coord cs))),
     (''genesis_checkpoint'', JStr (cs_genesis cs)), (''blocks'', JList (cs_blocks cs))]"

definition to_state :: "settlement_chain \<Rightarrow> bool \<Rightarrow> exn + json" where
  "to_state cs include_key =
     bindE (if include_key then bindE (account_key (cs_coord cs)) (\<lambda>k. Inr (''coord_key'', JStr k))
            else Inr (''coord_address'', JStr (acct_address (cs_coord cs)))) (\<lambda>ident.
       Inr (JObj ([ident, (''genesis_checkpoint'', JStr (cs_genesis cs)), (''blocks'', JList (cs_blocks cs))]
         @ (if cs_paid cs \<noteq> {} then [(''paid_cids'', JList (map JStr (sorted_list_of_set (cs_paid cs))))] else []))))"

definition restore_account :: "world \<Rightarrow> json \<Rightarrow> string option \<Rightarrow> exn + account" where
  "restore_account W state key =
     (let embedded = (case get_or state ''coord_key'' JNull of JNull \<Rightarrow> Inr None | j \<Rightarrow> map_sum id Some (strE j));
          addr = get_or state ''coord_address'' JNull
      in bindE (case key of Some k \<Rightarrow> Inr (Some k) | None \<Rightarrow> embedded) (\<lambda>k. case k of
           Some k \<Rightarrow>
             if truthy addr \<and> str_lower (address_of_key W k) \<noteq> str_lower (str_of W addr)
             then Inl (ValueError ''coord key/address mismatch'')
             else Inr (account_from_key W k)
         | None \<Rightarrow>
             if \<not> truthy addr then Inl (ValueError ''scrubbed settlement chain cannot be restored'')
             else bindE (strE addr) (\<lambda>a. Inr (verify_only_account a))))"

definition chain_head :: "world \<Rightarrow> json list \<Rightarrow> exn + string" where
  "chain_head W blocks = (if blocks = [] then Inr GENESIS_PREV_HASH
     else bindE (bindE (getE (last blocks) ''header'') header_from_dict) (\<lambda>h. Inr (header_hash W h)))"

definition from_state :: "world \<Rightarrow> json \<Rightarrow> string option \<Rightarrow> exn + settlement_chain" where
  "from_state W state key =
     bindE (restore_account W state key) (\<lambda>acct.
     bindE (strE (get_or state ''genesis_checkpoint'' (JStr ''pool-genesis''))) (\<lambda>ckpt.
     bindE (bindE (getE state ''blocks'') (\<lambda>j. case j of JList bs \<Rightarrow> Inr bs | _ \<Rightarrow> Inl TypeError)) (\<lambda>blocks.
     bindE (replay_blocks W trusting (acct_address acct) ckpt blocks) (\<lambda>(sh, failed).
       case failed of
         Some _ \<Rightarrow> Inl (ValueError ''restored settlement chain failed integrity check'')
       | None \<Rightarrow>
           bindE (chain_head W blocks) (\<lambda>head.
           bindE (str_listE (get_or state ''paid_cids'' (JList []))) (\<lambda>paid.
             Inr \<lparr>cs_coord = acct, cs_genesis = ckpt, cs_state = fst sh, cs_blocks = blocks,
                  cs_head = head, cs_paid = set paid\<rparr>))))))"

subsection \<open>The public verifier\<close>

datatype public_verdict =
    MalformedExport
  | ReplayRefused replay_failure
  | Verified bool "(addr, rat) pydict" rat int

text \<open>\<open>Verified pinned balances minted height\<close>.\<close>

definition last_height :: "json list \<Rightarrow> exn + int" where
  "last_height blocks = (if blocks = [] then Inr 0
     else bindE (bindE (getE (last blocks) ''header'') header_from_dict) (\<lambda>h. Inr (hd_height h)))"

definition replay_verdict :: "bool \<Rightarrow> json list \<Rightarrow> (nstate \<times> string) \<times> (nat \<times> replay_failure) option
    \<Rightarrow> exn + public_verdict" where
  "replay_verdict pinned blocks res = (case snd res of
       Some (i, f) \<Rightarrow> Inr (ReplayRefused f)
     | None \<Rightarrow> bindE (last_height blocks) (\<lambda>height.
         Inr (Verified pinned (bal (fst (fst res))) (minted (fst (fst res))) height)))"

definition verify_public_chain :: "world \<Rightarrow> replay_policy \<Rightarrow> string option \<Rightarrow> json \<Rightarrow> exn + public_verdict" where
  "verify_public_chain W P expected export =
     (if \<not> is_object export then Inr MalformedExport
      else case get_or export ''blocks'' JNull of
        JList blocks \<Rightarrow>
          (let coord = (case expected of Some a \<Rightarrow> JStr a | None \<Rightarrow> get_or export ''coord_address'' JNull) in
           if \<not> truthy coord then Inr MalformedExport
           else bindE (strE (get_or export ''genesis_checkpoint'' (JStr ''pool-genesis''))) (\<lambda>ckpt.
                bindE (replay_blocks W P (str_of W coord) ckpt blocks)
                  (replay_verdict (expected \<noteq> None) blocks)))
      | _ \<Rightarrow> Inr MalformedExport)"

end
