(* ===== verification/Chain_Facts.thy ===== *)
theory Chain_Facts
  imports Chain_Settlement
begin

text \<open>
  What the settlement chain guarantees: what the coordinator settles replays to its own state,
  every accepted block is signed and linked, the head fixes the headers, an enforced replay saw a
  quorum for each block, and a restart restores the chain and its paid cids.
\<close>

subsection \<open>Replay, block by block\<close>

lemma replay_from_append:
  "replay_from W P coord i sh (bs @ [r]) =
     bindE (replay_from W P coord i sh bs) (\<lambda>(sh', failed). case failed of
        Some f \<Rightarrow> Inr (sh', Some f)
      | None \<Rightarrow> bindE (replay_block W P coord sh' r) (\<lambda>res. case res of
          Inl f \<Rightarrow> Inr (sh', Some (i + length bs, f)) | Inr sh'' \<Rightarrow> Inr (sh'', None)))"
proof (induction bs arbitrary: i sh)
  case Nil
  then show ?case by (cases "replay_block W P coord sh r") (auto split: sum.splits)
next
  case (Cons b bs)
  show ?case
  proof (cases "replay_block W P coord sh b")
    case (Inr res)
    show ?thesis
    proof (cases res)
      case (Inr sh')
      with \<open>replay_block W P coord sh b = Inr res\<close> Cons.IH [of "Suc i" sh'] show ?thesis
        by (cases "replay_from W P coord (Suc i) sh' bs") (auto split: option.splits cong del: bindE_weak_cong)
    qed (simp add: Inr)
  qed simp
qed

lemma replay_append_ok:
  assumes "replay_blocks W P coord ckpt bs = Inr (sh, None)"
    "replay_block W P coord sh r = Inr (Inr sh')"
  shows "replay_blocks W P coord ckpt (bs @ [r]) = Inr (sh', None)"
  using assms by (simp add: replay_blocks_def replay_from_append)

lemma replay_block_Inr:
  "replay_block W P coord sh r = Inr (Inr sh') \<longleftrightarrow>
     (\<exists>hdr signer cs s'. bindE (getE r ''header'') header_from_dict = Inr hdr
        \<and> hd_prev_hash hdr = snd sh
        \<and> block_signer W r hdr = Inr signer \<and> str_lower signer = str_lower coord
        \<and> block_quorum_failure W P r hdr = None
        \<and> bindE (getE r ''contributors'') contributors_of = Inr cs
        \<and> apply_block W (fst sh) (settlement_block hdr) cs = Inr s' \<and> sh' = (s', header_hash W hdr))"
proof -
  have q: "(case f of None \<Rightarrow> Inr () | Some x \<Rightarrow> Inl (QuorumFailed x)) = Inr u \<longleftrightarrow> f = None" for f u
    by (cases f) auto
  show ?thesis
    unfolding replay_block_def bindE_Inr_iff [of "bindE (getE r ''header'') header_from_dict"]
    by (auto simp: replay_parsed_def bindE_Inr_iff q)
qed

lemma replay_prefix:
  assumes "replay_blocks W P coord ckpt bs = Inr (sh, None)"
  obtains sh' where "replay_blocks W P coord ckpt (take n bs) = Inr (sh', None)"
proof -
  have "\<exists>sh'. replay_from W P coord i s0 (take n bs) = Inr (sh', None)"
    if "replay_from W P coord i s0 bs = Inr (sh, None)" for i s0
    using that
  proof (induction bs arbitrary: i s0 n)
    case (Cons b bs)
    show ?case
    proof (cases n)
      case (Suc k)
      from Cons.prems obtain s1 where s1: "replay_block W P coord s0 b = Inr (Inr s1)"
        and rest: "replay_from W P coord (Suc i) s1 bs = Inr (sh, None)"
        by (cases "replay_block W P coord s0 b"; cases "projr (replay_block W P coord s0 b)") auto
      from Cons.IH [OF rest, of k] s1 show ?thesis by (auto simp: Suc)
    qed simp
  qed simp
  with assms that show thesis unfolding replay_blocks_def by blast
qed

subsection \<open>What was settled replays\<close>

definition can_sign :: "world \<Rightarrow> account \<Rightarrow> bool" where
  "can_sign W a \<longleftrightarrow> (\<exists>k. acct_key a = Some k \<and> acct_address a = address_of_key W k)"

lemma recover_signed:
  assumes "signs_correctly W" "can_sign W a" "sign_bytes W a data = Inr sig"
  shows "recover_bytes W data sig = Inr (acct_address a)"
  using assms
  by (auto simp: sign_bytes_def can_sign_def account_key_def recover_bytes_def signs_correctly_def)

lemma contributors_roundtrip [simp]: "contributors_of (contributors_json cs) = Inr cs"
  unfolding contributors_of_def contributors_json_def
  by (induction cs) auto

lemma block_record_getters:
  "getE (block_record h cs sig q) ''header'' = Inr (header_to_dict h)"
  "getE (block_record h cs sig q) ''contributors'' = Inr (contributors_json cs)"
  "getE (block_record h cs sig q) ''sig'' = Inr (JStr sig)"
  "get_or (block_record h cs sig q) ''contributors'' v = contributors_json cs"
  "get_or (block_record h cs sig q) ''quorum'' JNull = (case q of None \<Rightarrow> JNull | Some j \<Rightarrow> j)"
  "is_object (block_record h cs sig q)"
  by (simp_all add: block_record_def is_object_def split: option.split)

lemma settlement_block_applies:
  assumes "hd_tx_root hdr = replicate 64 CHR ''0''" "aggregate [] cs = Inr agg"
  obtains s' where "apply_block W s (settlement_block hdr) cs = Inr s'"
  using assms by (auto simp: apply_block_def settlement_block_def tx_root_def Let_def)

lemma aggregate_nonneg: "list_all ((\<le>) 0) (dvalues cs) \<Longrightarrow> \<exists>agg'. aggregate agg cs = Inr agg'"
  by (induction cs arbitrary: agg) auto

lemma settle_Inr:
  assumes "settle W cs height pot ex_by ts q = Inr (credited, cs')"
  obtains sig s' where
    "sign_bytes W (cs_coord cs) (header_hash W (settle_header W cs height pot (settle_contributors ex_by) ts q)) = Inr sig"
    "apply_block W (cs_state cs) (settlement_block (settle_header W cs height pot (settle_contributors ex_by) ts q))
       (settle_contributors ex_by) = Inr s'"
    "cs' = cs\<lparr>cs_state := s', cs_head := header_hash W (settle_header W cs height pot (settle_contributors ex_by) ts q),
       cs_blocks := cs_blocks cs @ [block_record (settle_header W cs height pot (settle_contributors ex_by) ts q)
         (settle_contributors ex_by) sig q]\<rparr>"
    "credited = map (\<lambda>(a, w). (a, round12 (fsub (balance s' a) (balance (cs_state cs) a)))) (settle_contributors ex_by)"
proof -
  let ?c = "settle_contributors ex_by" and ?h = "settle_header W cs height pot (settle_contributors ex_by) ts q"
  obtain sig where sig: "sign_bytes W (cs_coord cs) (header_hash W ?h) = Inr sig"
    using assms by (auto simp: settle_def Let_def bindE_Inr_iff)
  obtain s' where s': "apply_block W (cs_state cs) (settlement_block ?h) ?c = Inr s'"
    using assms by (cases "apply_block W (cs_state cs) (settlement_block ?h) ?c") (auto simp: settle_def Let_def sig)
  show thesis by (rule that [OF sig s']) (use assms in \<open>auto simp: settle_def Let_def sig s'\<close>)
qed

lemma settle_succeeds:
  assumes "can_sign W (cs_coord cs)"
  obtains credited cs' where "settle W cs height pot ex_by ts q = Inr (credited, cs')"
proof -
  let ?c = "settle_contributors ex_by" and ?h = "settle_header W cs height pot (settle_contributors ex_by) ts q"
  have "list_all ((\<le>) 0) (dvalues ?c)" by (auto simp: settle_contributors_def list_all_iff)
  from aggregate_nonneg [OF this] obtain agg where agg: "aggregate [] ?c = Inr agg" by blast
  have root: "hd_tx_root ?h = replicate 64 CHR ''0''" by (simp add: settle_header_def)
  from settlement_block_applies [OF root agg] obtain s' where
    s': "apply_block W (cs_state cs) (settlement_block ?h) ?c = Inr s'" .
  from assms obtain sig where sig: "sign_bytes W (cs_coord cs) (header_hash W ?h) = Inr sig"
    by (auto simp: can_sign_def sign_bytes_def account_key_def)
  show thesis by (rule that) (simp add: settle_def Let_def sig s')
qed

definition chain_ok :: "world \<Rightarrow> settlement_chain \<Rightarrow> bool" where
  "chain_ok W cs \<longleftrightarrow> can_sign W (cs_coord cs)
     \<and> chain_replay W cs = Inr ((cs_state cs, cs_head cs), None)"

lemma new_chain_ok: "can_sign W a \<Longrightarrow> chain_ok W (new_chain a ckpt)"
  by (simp add: chain_ok_def new_chain_def chain_replay_def replay_blocks_def genesis_point_def)

lemma settle_replays:
  assumes "signs_correctly W" "can_sign W (cs_coord cs)"
    "settle W cs height pot ex_by ts q = Inr (credited, cs')"
    "block_quorum_failure W P (last (cs_blocks cs'))
       (settle_header W cs height pot (settle_contributors ex_by) ts q) = None"
  shows "replay_block W P (acct_address (cs_coord cs)) (cs_state cs, cs_head cs) (last (cs_blocks cs'))
    = Inr (Inr (cs_state cs', cs_head cs'))"
proof -
  let ?c = "settle_contributors ex_by" and ?h = "settle_header W cs height pot (settle_contributors ex_by) ts q"
  from assms(3) obtain sig s' where
    sig: "sign_bytes W (cs_coord cs) (header_hash W ?h) = Inr sig"
    and s': "apply_block W (cs_state cs) (settlement_block ?h) ?c = Inr s'"
    and cs': "cs' = cs\<lparr>cs_state := s', cs_head := header_hash W ?h,
       cs_blocks := cs_blocks cs @ [block_record ?h ?c sig q]\<rparr>"
    by (rule settle_Inr)
  have p: "hd_prev_hash ?h = cs_head cs" by (simp add: settle_header_def)
  show ?thesis
    unfolding replay_block_Inr using assms(4) recover_signed [OF assms(1,2) sig] s' p
    by (simp add: cs' block_record_getters block_signer_def)
qed

lemma settle_keeps_ok:
  assumes "signs_correctly W" "chain_ok W cs" "settle W cs height pot ex_by ts q = Inr (credited, cs')"
  shows "chain_ok W cs'"
proof -
  have c: "can_sign W (cs_coord cs)" and r: "chain_replay W cs = Inr ((cs_state cs, cs_head cs), None)"
    using assms(2) by (simp_all add: chain_ok_def)
  from assms(3) have f: "cs_coord cs' = cs_coord cs" "cs_genesis cs' = cs_genesis cs"
    "cs_blocks cs' = cs_blocks cs @ [last (cs_blocks cs')]"
    by (rule settle_Inr, simp)+
  from settle_replays [OF assms(1) c assms(3), of trusting]
  have "replay_block W trusting (acct_address (cs_coord cs)) (cs_state cs, cs_head cs) (last (cs_blocks cs'))
    = Inr (Inr (cs_state cs', cs_head cs'))" by (simp add: trusting_def block_quorum_failure_def)
  from replay_append_ok [OF r [unfolded chain_replay_def] this] f c show ?thesis
    by (simp add: chain_ok_def chain_replay_def)
qed

text \<open>The life of a chain: heights settled, cids marked as paid.\<close>

datatype chain_event =
    Settle int rat "(addr, rat) pydict" int "json option"
  | MarkPaid string

fun chain_step :: "world \<Rightarrow> settlement_chain \<Rightarrow> chain_event \<Rightarrow> settlement_chain" where
  "chain_step W cs (Settle h pot ex_by ts q) =
     (case settle W cs h pot ex_by ts q of Inl _ \<Rightarrow> cs | Inr (_, cs') \<Rightarrow> cs')"
| "chain_step W cs (MarkPaid cid) = mark_paid cs cid"

lemma mark_paid_ok: "chain_ok W cs \<Longrightarrow> chain_ok W (mark_paid cs cid)"
  by (simp add: mark_paid_def chain_ok_def chain_replay_def)

definition honest_chain :: "world \<Rightarrow> settlement_chain \<Rightarrow> bool" where
  "honest_chain W cs \<longleftrightarrow> signs_correctly W \<and> chain_ok W cs"

lemma chain_step_honest: "honest_chain W cs \<Longrightarrow> honest_chain W (chain_step W cs e)"
  by (cases e) (auto simp: honest_chain_def mark_paid_ok split: sum.splits dest: settle_keeps_ok)

interpretation chain_life: keeps_invariant "chain_step W" "honest_chain W"
  by unfold_locales (rule chain_step_honest)

lemma chain_ok_verifies:
  assumes "chain_ok W cs"
  shows "verify_chain W cs = Inr None"
proof -
  have "close_enough x x" for x
    using rnd64_nonneg [of "1 / 10 ^ 9"] by (simp add: close_enough_def)
  with assms show ?thesis by (simp add: verify_chain_def chain_ok_def list_all_iff)
qed

subsection \<open>What an accepted chain proves\<close>

text \<open>The header of a record, where it parses.\<close>

definition record_header :: "json \<Rightarrow> exn + header" where
  "record_header r = bindE (getE r ''header'') header_from_dict"

text \<open>Linked from \<open>head\<close> on, each block signed by the coordinator over its header's hash and, where
  the policy asks, carrying a quorum for it.\<close>

fun authentic :: "world \<Rightarrow> replay_policy \<Rightarrow> string \<Rightarrow> string \<Rightarrow> json list \<Rightarrow> bool" where
  "authentic W P coord head [] \<longleftrightarrow> True"
| "authentic W P coord head (r # rs) \<longleftrightarrow>
     (case record_header r of
        Inl _ \<Rightarrow> False
      | Inr hdr \<Rightarrow> hd_prev_hash hdr = head
          \<and> (case block_signer W r hdr of Inl _ \<Rightarrow> False | Inr signer \<Rightarrow> str_lower signer = str_lower coord)
          \<and> block_quorum_failure W P r hdr = None
          \<and> authentic W P coord (header_hash W hdr) rs)"

lemma replay_from_Cons_ok:
  assumes "replay_from W P coord i sh (r # rs) = Inr (sh', None)"
  obtains sh1 where "replay_block W P coord sh r = Inr (Inr sh1)"
    "replay_from W P coord (Suc i) sh1 rs = Inr (sh', None)"
proof (cases "replay_block W P coord sh r")
  case (Inr res)
  with assms that show thesis by (cases res) auto
qed (use assms in simp)

lemma replay_authentic:
  "replay_from W P coord i sh bs = Inr (sh', None) \<Longrightarrow> authentic W P coord (snd sh) bs"
proof (induction bs arbitrary: i sh)
  case (Cons r rs)
  from Cons.prems obtain sh1 where b: "replay_block W P coord sh r = Inr (Inr sh1)"
    and rest: "replay_from W P coord (Suc i) sh1 rs = Inr (sh', None)"
    by (rule replay_from_Cons_ok)
  from b Cons.IH [OF rest] show ?case by (auto simp: replay_block_Inr record_header_def)
qed simp

lemma replay_blocks_authentic:
  "replay_blocks W P coord ckpt bs = Inr (sh, None) \<Longrightarrow> authentic W P coord GENESIS_PREV_HASH bs"
  unfolding replay_blocks_def using replay_authentic by (fastforce simp: genesis_point_def)

text \<open>The headers of a chain, linked by their hashes, and the head they end in.\<close>

fun linked :: "world \<Rightarrow> string \<Rightarrow> header list \<Rightarrow> bool" where
  "linked W head [] \<longleftrightarrow> True"
| "linked W head (h # hs) \<longleftrightarrow> hd_prev_hash h = head \<and> linked W (header_hash W h) hs"

definition final_head :: "world \<Rightarrow> string \<Rightarrow> header list \<Rightarrow> string" where
  "final_head W head hs = (if hs = [] then head else header_hash W (last hs))"

lemma linked_append:
  "linked W head (hs @ [h]) \<longleftrightarrow> linked W head hs \<and> hd_prev_hash h = final_head W head hs"
  by (induction hs arbitrary: head) (auto simp: final_head_def)

lemma replay_headers:
  "replay_from W P coord i sh bs = Inr (sh', None) \<Longrightarrow>
     \<exists>hs. mapE record_header bs = Inr hs \<and> linked W (snd sh) hs \<and> snd sh' = final_head W (snd sh) hs"
proof (induction bs arbitrary: i sh)
  case Nil
  then show ?case by (simp add: final_head_def)
next
  case (Cons r rs)
  from Cons.prems obtain sh1 where b: "replay_block W P coord sh r = Inr (Inr sh1)"
    and rest: "replay_from W P coord (Suc i) sh1 rs = Inr (sh', None)"
    by (rule replay_from_Cons_ok)
  from b obtain hdr where h: "record_header r = Inr hdr" "hd_prev_hash hdr = snd sh" "snd sh1 = header_hash W hdr"
    by (auto simp: replay_block_Inr record_header_def)
  from Cons.IH [OF rest] obtain hs where
    "mapE record_header rs = Inr hs" "linked W (snd sh1) hs" "snd sh' = final_head W (snd sh1) hs" by blast
  with h show ?case by (intro exI [of _ "hdr # hs"]) (auto simp: final_head_def)
qed

text \<open>A hash that separates the headers of two chains, and never meets the genesis head, lets the
  final head determine every header.\<close>

definition separates :: "world \<Rightarrow> header list \<Rightarrow> header list \<Rightarrow> bool" where
  "separates W hs1 hs2 \<longleftrightarrow>
     (\<forall>h \<in> set hs1 \<union> set hs2. header_hash W h \<noteq> GENESIS_PREV_HASH
        \<and> (\<forall>h' \<in> set hs1 \<union> set hs2. header_hash W h = header_hash W h' \<longrightarrow> h = h'))"

lemma separatesD:
  assumes "separates W hs1 hs2" "h \<in> set hs1 \<union> set hs2"
  shows "header_hash W h \<noteq> GENESIS_PREV_HASH"
    "h' \<in> set hs1 \<union> set hs2 \<Longrightarrow> header_hash W h = header_hash W h' \<Longrightarrow> h = h'"
  using assms unfolding separates_def by blast+

lemma separates_mono:
  "separates W hs1 hs2 \<Longrightarrow> set hs1' \<subseteq> set hs1 \<Longrightarrow> set hs2' \<subseteq> set hs2 \<Longrightarrow> separates W hs1' hs2'"
  unfolding separates_def by blast

lemma final_head_determines:
  assumes "linked W GENESIS_PREV_HASH hs1" "linked W GENESIS_PREV_HASH hs2" "separates W hs1 hs2"
    "final_head W GENESIS_PREV_HASH hs1 = final_head W GENESIS_PREV_HASH hs2"
  shows "hs1 = hs2"
  using assms
proof (induction hs1 arbitrary: hs2 rule: rev_induct)
  case Nil
  have "hs2 = []"
  proof (rule ccontr)
    assume "hs2 \<noteq> []"
    then have "header_hash W (last hs2) \<noteq> GENESIS_PREV_HASH"
      using separatesD(1) [OF Nil.prems(3), of "last hs2"] by simp
    moreover have "final_head W GENESIS_PREV_HASH [] = GENESIS_PREV_HASH" by (simp add: final_head_def)
    moreover have "final_head W GENESIS_PREV_HASH hs2 = header_hash W (last hs2)"
      using \<open>hs2 \<noteq> []\<close> by (simp add: final_head_def)
    ultimately show False using Nil.prems(4) by argo
  qed
  then show ?case by simp
next
  case (snoc h hs1)
  have last1: "final_head W GENESIS_PREV_HASH (hs1 @ [h]) = header_hash W h" by (simp add: final_head_def)
  have "header_hash W h \<noteq> GENESIS_PREV_HASH" using separatesD(1) [OF snoc.prems(3), of h] by simp
  then have "hs2 \<noteq> []" using snoc.prems(4) last1 by (auto simp: final_head_def)
  then obtain hs2' h' where h2: "hs2 = hs2' @ [h']" by (metis append_butlast_last_id)
  have "header_hash W h = header_hash W h'" using snoc.prems(4) last1 by (simp add: h2 final_head_def)
  then have eq: "h = h'" using separatesD(2) [OF snoc.prems(3), of h h'] by (simp add: h2)
  have "separates W hs1 hs2'" using snoc.prems(3) by (rule separates_mono) (auto simp: h2)
  moreover have "final_head W GENESIS_PREV_HASH hs1 = final_head W GENESIS_PREV_HASH hs2'"
    using snoc.prems(1,2) eq by (simp add: h2 linked_append)
  ultimately have "hs1 = hs2'" using snoc.IH snoc.prems(1,2) by (simp add: h2 linked_append)
  with eq h2 show ?case by simp
qed

lemma same_head_same_headers:
  assumes "replay_blocks W P coord ckpt bs1 = Inr ((s1, head), None)"
    "replay_blocks W P' coord' ckpt' bs2 = Inr ((s2, head), None)"
    "mapE record_header bs1 = Inr hs1" "mapE record_header bs2 = Inr hs2" "separates W hs1 hs2"
  shows "hs1 = hs2"
proof -
  have 1: "linked W GENESIS_PREV_HASH hs1 \<and> head = final_head W GENESIS_PREV_HASH hs1"
    using replay_headers [OF assms(1) [unfolded replay_blocks_def]] assms(3) by (simp add: genesis_point_def)
  have 2: "linked W GENESIS_PREV_HASH hs2 \<and> head = final_head W GENESIS_PREV_HASH hs2"
    using replay_headers [OF assms(2) [unfolded replay_blocks_def]] assms(4) by (simp add: genesis_point_def)
  show ?thesis using 1 2 assms(5) final_head_determines by metis
qed

subsection \<open>What the signature does not cover\<close>

text \<open>The coordinator signs the header; the contributors travel beside it. Other weights in the last
  record replay as well.\<close>

definition with_contributors :: "json \<Rightarrow> json \<Rightarrow> json" where
  "with_contributors r cs = (case r of JObj kvs \<Rightarrow> JObj (dset ''contributors'' cs kvs) | _ \<Rightarrow> r)"

lemma with_contributors_getters:
  "getE (with_contributors r c) ''header'' = getE r ''header''"
  "getE (with_contributors r c) ''sig'' = getE r ''sig''"
  "is_object r \<Longrightarrow> getE (with_contributors r c) ''contributors'' = Inr c"
  by (cases r; simp add: with_contributors_def is_object_def getE_def)+

lemma swapped_contributors_replay:
  assumes "replay_blocks W trusting coord ckpt bs = Inr (sh0, None)"
    "replay_block W trusting coord sh0 r = Inr (Inr sh1)" "is_object r" "list_all ((\<le>) 0) (dvalues cs)"
  obtains s2 where "replay_blocks W trusting coord ckpt (bs @ [with_contributors r (contributors_json cs)])
    = Inr ((s2, snd sh1), None)"
proof -
  from assms(2) obtain hdr signer cs0 s1 where
    h: "record_header r = Inr hdr" "hd_prev_hash hdr = snd sh0"
    "block_signer W r hdr = Inr signer" "str_lower signer = str_lower coord"
    and ap: "apply_block W (fst sh0) (settlement_block hdr) cs0 = Inr s1" and sh1: "sh1 = (s1, header_hash W hdr)"
    by (auto simp: replay_block_Inr record_header_def)
  from ap have root: "hd_tx_root hdr = replicate 64 CHR ''0''"
    by (rule apply_block_Inr) (simp add: settlement_block_def tx_root_def)
  from aggregate_nonneg [OF assms(4)] obtain agg where "aggregate [] cs = Inr agg" by blast
  from settlement_block_applies [OF root this] obtain s2 where
    s2: "apply_block W (fst sh0) (settlement_block hdr) cs = Inr s2" .
  have "replay_block W trusting coord sh0 (with_contributors r (contributors_json cs)) = Inr (Inr (s2, snd sh1))"
    unfolding replay_block_Inr using h s2 assms(3)
    by (auto simp: with_contributors_getters record_header_def block_signer_def block_quorum_failure_def
        trusting_def sh1)
  from that [OF replay_append_ok [OF assms(1) this]] show thesis .
qed

subsection \<open>The enforced quorum\<close>

text \<open>A block is authorized when the pinned roster's majority signed exactly its own mint.\<close>

definition block_authorized :: "world \<Rightarrow> roster option \<Rightarrow> int option \<Rightarrow> json \<Rightarrow> bool" where
  "block_authorized W pinned m r \<longleftrightarrow>
     (\<exists>hdr ros cid sigs v. record_header r = Inr hdr \<and> pinned = Some ros
        \<and> collect_settlement_signatures W
            (str_of W (sole_contributor (or_empty (get_or r ''contributors'' (JObj [])))))
            (Fin (hd_reward hdr)) (hd_height hdr) cid ros sigs m = Inr v
        \<and> vd_approved v)"

lemma verify_block_quorum_None:
  assumes "verify_block_quorum W r hdr pinned m = None" "record_header r = Inr hdr"
  shows "block_authorized W pinned m r"
proof -
  obtain ros where ros: "pinned = Some ros"
    using assms(1) by (auto simp: verify_block_quorum_def Let_def split: if_splits option.splits)
  obtain cid sigs v where "collect_settlement_signatures W
      (str_of W (sole_contributor (or_empty (get_or r ''contributors'' (JObj [])))))
      (Fin (hd_reward hdr)) (hd_height hdr) cid ros sigs m = Inr v" "vd_approved v"
    using assms(1)
    by (auto simp: verify_block_quorum_def Let_def ros bindE_Inr_iff split: if_splits sum.splits)
  with assms(2) ros show ?thesis by (auto simp: block_authorized_def)
qed

lemma enforced_replay_authorized:
  assumes "authentic W P coord head bs" "rp_require_quorum P"
  shows "list_all (block_authorized W (rp_roster P) (rp_m P)) bs"
  using assms(1)
proof (induction bs arbitrary: head)
  case (Cons r rs)
  from Cons.prems obtain hdr where h: "record_header r = Inr hdr" "block_quorum_failure W P r hdr = None"
    "authentic W P coord (header_hash W hdr) rs"
    by (auto split: sum.splits)
  then have "verify_block_quorum W r hdr (rp_roster P) (rp_m P) = None"
    using assms(2) by (simp add: block_quorum_failure_def)
  with h Cons.IH [OF h(3)] show ?case by (simp add: verify_block_quorum_None)
qed simp

text \<open>The quorum names a recipient, an amount and a height, and the replay does not ask heights to
  grow: what authorized one mint authorizes it again.\<close>

lemma quorum_verdict_cong:
  assumes "hd_reward h1 = hd_reward h2" "hd_height h1 = hd_height h2" "hd_quorum_hash h1 = hd_quorum_hash h2"
  shows "block_quorum_failure W P (block_record h1 c sig1 q) h1
    = block_quorum_failure W P (block_record h2 c sig2 q) h2"
  unfolding block_quorum_failure_def verify_block_quorum_def block_record_getters assms by (rule refl)

lemma settle_again_replays:
  assumes "signs_correctly W" "can_sign W (cs_coord cs)"
    "settle W cs h pot ex_by ts q = Inr (credited1, cs1)"
    "settle W cs1 h pot ex_by ts' q = Inr (credited2, cs2)"
    "replay_blocks W P (acct_address (cs_coord cs)) (cs_genesis cs) (cs_blocks cs1)
       = Inr ((cs_state cs1, cs_head cs1), None)"
    "replay_block W P (acct_address (cs_coord cs)) (cs_state cs, cs_head cs) (last (cs_blocks cs1))
       = Inr (Inr sh)"
  shows "replay_blocks W P (acct_address (cs_coord cs)) (cs_genesis cs) (cs_blocks cs2)
    = Inr ((cs_state cs2, cs_head cs2), None)"
proof -
  let ?c = "settle_contributors ex_by"
  let ?h1 = "settle_header W cs h pot ?c ts q" and ?h2 = "settle_header W cs1 h pot ?c ts' q"
  from assms(3) obtain sig1 where b1: "last (cs_blocks cs1) = block_record ?h1 ?c sig1 q"
    and coord: "cs_coord cs1 = cs_coord cs"
    by (rule settle_Inr) simp
  from assms(4) obtain sig2 where b2: "last (cs_blocks cs2) = block_record ?h2 ?c sig2 q"
    and blocks: "cs_blocks cs2 = cs_blocks cs1 @ [last (cs_blocks cs2)]"
    by (rule settle_Inr) simp
  have "block_quorum_failure W P (block_record ?h1 ?c sig1 q) ?h1 = None"
    using assms(6) by (auto simp: b1 replay_block_Inr block_record_getters)
  then have "block_quorum_failure W P (last (cs_blocks cs2)) ?h2 = None"
    unfolding b2 using quorum_verdict_cong [of ?h1 ?h2 W P ?c sig1 q sig2]
    by (simp add: settle_header_def)
  from settle_replays [OF assms(1) _ assms(4) this] assms(2) coord
  have "replay_block W P (acct_address (cs_coord cs)) (cs_state cs1, cs_head cs1) (last (cs_blocks cs2))
    = Inr (Inr (cs_state cs2, cs_head cs2))" by simp
  from replay_append_ok [OF assms(5) this] show ?thesis by (simp flip: blocks)
qed

subsection \<open>Restart\<close>

lemma chain_head_final:
  assumes "mapE record_header bs = Inr hs"
  shows "chain_head W bs = Inr (final_head W GENESIS_PREV_HASH hs)"
proof (cases bs rule: rev_cases)
  case Nil
  with assms show ?thesis by (simp add: chain_head_def final_head_def)
next
  case (snoc bs' r)
  have "mapE f (xs @ [x]) = bindE (mapE f xs) (\<lambda>ys. bindE (f x) (\<lambda>y. Inr (ys @ [y])))" for f :: "json \<Rightarrow> exn + header" and xs x
    by (induction xs) (auto simp: bindE_def split: sum.splits)
  with assms snoc obtain hs' h where "record_header r = Inr h" "hs = hs' @ [h]"
    by (auto simp: bindE_Inr_iff)
  then show ?thesis by (simp add: snoc chain_head_def final_head_def record_header_def)
qed

lemma chain_ok_head:
  assumes "chain_ok W cs"
  shows "chain_head W (cs_blocks cs) = Inr (cs_head cs)"
proof -
  have "replay_from W trusting (acct_address (cs_coord cs)) 0 (genesis_point (cs_genesis cs)) (cs_blocks cs)
      = Inr ((cs_state cs, cs_head cs), None)"
    using assms by (simp add: chain_ok_def chain_replay_def replay_blocks_def)
  from replay_headers [OF this] obtain hs where "mapE record_header (cs_blocks cs) = Inr hs"
    "cs_head cs = final_head W GENESIS_PREV_HASH hs" by (auto simp: genesis_point_def)
  then show ?thesis by (simp add: chain_head_final)
qed

lemma str_listE_map [simp]: "str_listE (JList (map JStr xs)) = Inr xs"
  by (simp add: str_listE_def mapE_inverse)

lemma restore_with_key:
  assumes "chain_ok W cs" "finite (cs_paid cs)" "to_state cs True = Inr d"
  shows "from_state W d None = Inr cs"
proof -
  obtain k where k: "acct_key (cs_coord cs) = Some k" "acct_address (cs_coord cs) = address_of_key W k"
    using assms(1) by (auto simp: chain_ok_def can_sign_def)
  have acct: "account_from_key W k = cs_coord cs" using k by (simp add: account_from_key_def)
  have d: "d = JObj ([(''coord_key'', JStr k), (''genesis_checkpoint'', JStr (cs_genesis cs)),
      (''blocks'', JList (cs_blocks cs))]
      @ (if cs_paid cs \<noteq> {} then [(''paid_cids'', JList (map JStr (sorted_list_of_set (cs_paid cs))))] else []))"
    using assms(3) k by (simp add: to_state_def account_key_def)
  have r: "replay_blocks W trusting (acct_address (cs_coord cs)) (cs_genesis cs) (cs_blocks cs)
      = Inr ((cs_state cs, cs_head cs), None)"
    using assms(1) by (simp add: chain_ok_def chain_replay_def)
  have e: "str_listE (JList []) = Inr []" by (simp add: str_listE_def)
  show ?thesis
    using assms(2) by (cases "cs_paid cs = {}")
      (simp_all add: from_state_def d restore_account_def acct r chain_ok_head [OF assms(1)] e)
qed

text \<open>A scrubbed checkpoint restores a chain that verifies and cannot mint.\<close>

lemma restore_scrubbed:
  assumes "chain_ok W cs" "finite (cs_paid cs)" "to_state cs False = Inr d" "acct_address (cs_coord cs) \<noteq> []"
  shows "from_state W d None = Inr (cs\<lparr>cs_coord := verify_only_account (acct_address (cs_coord cs))\<rparr>)"
proof -
  have d: "d = JObj ([(''coord_address'', JStr (acct_address (cs_coord cs))), (''genesis_checkpoint'', JStr (cs_genesis cs)),
      (''blocks'', JList (cs_blocks cs))]
      @ (if cs_paid cs \<noteq> {} then [(''paid_cids'', JList (map JStr (sorted_list_of_set (cs_paid cs))))] else []))"
    using assms(3) by (simp add: to_state_def)
  have r: "replay_blocks W trusting (acct_address (cs_coord cs)) (cs_genesis cs) (cs_blocks cs)
      = Inr ((cs_state cs, cs_head cs), None)"
    using assms(1) by (simp add: chain_ok_def chain_replay_def)
  have a: "acct_address (verify_only_account x) = x" for x by (simp add: verify_only_account_def)
  have e: "str_listE (JList []) = Inr []" by (simp add: str_listE_def)
  show ?thesis
    using assms(2,4) by (cases "cs_paid cs = {}")
      (simp_all add: from_state_def d restore_account_def a r chain_ok_head [OF assms(1)] e)
qed

lemma verify_only_cannot_settle:
  "\<exists>e. settle W (cs\<lparr>cs_coord := verify_only_account a\<rparr>) h pot ex_by ts q = Inl (RuntimeError e)"
  by (simp add: settle_def Let_def sign_bytes_def account_key_def verify_only_account_def)

subsection \<open>The public verifier\<close>

lemma public_state_getters:
  "is_object (public_state cs)" "get_or (public_state cs) ''blocks'' v = JList (cs_blocks cs)"
  "get_or (public_state cs) ''genesis_checkpoint'' v = JStr (cs_genesis cs)"
  "get_or (public_state cs) ''coord_address'' v = JStr (acct_address (cs_coord cs))"
  by (simp_all add: public_state_def is_object_def)

lemma verify_public_chain_Verified:
  assumes "verify_public_chain W P (Some a) export = Inr (Verified pinned b m h)"
  obtains blocks ckpt st head where "get_or export ''blocks'' JNull = JList blocks" "pinned"
    "replay_blocks W P a ckpt blocks = Inr ((st, head), None)" "b = bal st" "m = minted st"
proof -
  obtain blocks where bl: "get_or export ''blocks'' JNull = JList blocks"
    using assms by (auto simp: verify_public_chain_def split: if_splits json.splits)
  from assms obtain ckpt res where r: "replay_blocks W P a ckpt blocks = Inr res"
    and rest: "replay_verdict True blocks res = Inr (Verified pinned b m h)"
    by (auto simp: verify_public_chain_def bl bindE_Inr_iff split: if_splits)
  obtain st head failed where res: "res = ((st, head), failed)" by (metis surj_pair)
  from rest have "failed = None" "pinned" "b = bal st" "m = minted st"
    by (auto simp: replay_verdict_def res bindE_Inr_iff split: option.splits)
  with r res show thesis by (intro that [OF bl]) auto
qed

lemma public_state_verifies:
  assumes "chain_ok W cs" "acct_address (cs_coord cs) \<noteq> []" "last_height (cs_blocks cs) = Inr h"
  shows "verify_public_chain W trusting (Some (acct_address (cs_coord cs))) (public_state cs)
    = Inr (Verified True (bal (cs_state cs)) (minted (cs_state cs)) h)"
  using assms
  by (simp add: verify_public_chain_def public_state_getters chain_ok_def chain_replay_def replay_verdict_def)

lemma chain_ok_last_height:
  assumes "chain_ok W cs"
  obtains h where "last_height (cs_blocks cs) = Inr h"
  using chain_ok_head [OF assms]
  by (auto simp: chain_head_def last_height_def bindE_Inr_iff split: if_splits)

end
