(* ===== verification/Chain_Props.thy ===== *)
theory Chain_Props
  imports Chain_Facts Settlement_Facts
begin

text \<open>
  The properties of the settlement chain (\<^verbatim>\<open>neurahash/chain_settlement.py\<close>): they compose the ledger, the
  signatures and the settlement quorum. Each has a concrete run that meets its hypotheses: a chain whose
  coordinator holds the key \<^verbatim>\<open>k\<close> of the toy world.
\<close>

subsection \<open>A small chain\<close>

definition demo_account :: account where
  "demo_account = account_from_key toy_world ''k''"

definition demo_quorum :: json where
  "demo_quorum = JObj [(''sigs'', JList [JStr ''0xa'', JStr ''0xb''])]"

definition quorum_policy :: replay_policy where
  "quorum_policy = \<lparr>rp_require_quorum = True, rp_roster = Some (Members [''w'', ''a'', ''b'']), rp_m = None\<rparr>"

lemma demo_can_sign [simp]: "can_sign toy_world demo_account"
  by (simp add: can_sign_def demo_account_def account_from_key_def)

lemma demo_address [simp]: "acct_address demo_account = ''k''"
  by (simp add: demo_account_def account_from_key_def toy_world_def)

lemma chain_step_coord [simp]: "cs_coord (chain_step W cs e) = cs_coord cs"
proof (cases e)
  case (Settle h pot ex_by ts q)
  show ?thesis
  proof (cases "settle W cs h pot ex_by ts q")
    case (Inr r)
    then obtain credited cs' where r: "settle W cs h pot ex_by ts q = Inr (credited, cs')" by (cases r) auto
    then have "cs_coord cs' = cs_coord cs" by (rule settle_Inr) simp
    with r show ?thesis by (simp add: Settle)
  qed (simp add: Settle)
qed (simp add: mark_paid_def)

lemma run_coord: "cs_coord (foldl (chain_step W) cs es) = cs_coord cs"
  by (induction es arbitrary: cs) auto

lemma new_chain_coord [simp]: "cs_coord (new_chain a ckpt) = a"
  by (simp add: new_chain_def)

lemma shells_approve:
  obtains v where "collect_settlement_signatures toy_world ''m'' amount h c (Members [''w'', ''a'', ''b''])
    [JStr ''0xa'', JStr ''0xb''] None = Inr v" "vd_approved v"
  using shells_count(2) that
  by (simp add: collect_settlement_signatures_def required_signers_def shells_guardians
      shells_sign [unfolded decision_signers_def shell_bare, unfolded shell_signatures_def] sig_of_def Let_def
      del: distinct_signers.simps)

lemma demo_quorum_holds:
  assumes "hd_quorum_hash hdr = quorum_hash toy_world demo_quorum"
  shows "block_quorum_failure toy_world quorum_policy (block_record hdr [(''m'', 1)] sig (Some demo_quorum)) hdr = None"
proof -
  obtain v where "collect_settlement_signatures toy_world ''m'' (Fin (hd_reward hdr)) (hd_height hdr) []
      (Members [''w'', ''a'', ''b'']) [JStr ''0xa'', JStr ''0xb''] None = Inr v" "vd_approved v"
    by (rule shells_approve)
  then show ?thesis
    using assms by (simp add: block_quorum_failure_def quorum_policy_def verify_block_quorum_def block_record_getters
        contributors_json_def or_empty_def sole_contributor_def signature_items_def Let_def)
      (simp add: demo_quorum_def is_object_def signature_items_def)
qed

lemma demo_settles:
  obtains credited cs' where "settle toy_world (new_chain demo_account ckpt) h pot ex_by ts q = Inr (credited, cs')"
  by (rule settle_succeeds [of toy_world "new_chain demo_account ckpt"]) simp_all

subsection \<open>What the coordinator publishes verifies\<close>

text \<open>C14: whatever a coordinator settles and marks as paid, in any order, refused settlements included,
  its chain re-verifies, and any reader that pins the coordinator's address obtains from the exported
  blocks alone exactly the live balances and the live minted total.\<close>

theorem published_chain_verifies:
  assumes "signs_correctly W" "can_sign W a" "acct_address a \<noteq> []"
    "cs = foldl (chain_step W) (new_chain a ckpt) events"
  shows "verify_chain W cs = Inr None
    \<and> (\<exists>h. verify_public_chain W trusting (Some (acct_address a)) (public_state cs)
        = Inr (Verified True (bal (cs_state cs)) (minted (cs_state cs)) h))"
proof -
  have "honest_chain W (new_chain a ckpt)"
    using assms(1,2) by (simp add: honest_chain_def new_chain_ok)
  then have ok: "chain_ok W cs" using chain_life.run_inv assms(4) by (auto simp: honest_chain_def)
  have c: "cs_coord cs = a" by (simp add: assms(4) run_coord)
  obtain h where "last_height (cs_blocks cs) = Inr h" using ok by (rule chain_ok_last_height)
  then show ?thesis using chain_ok_verifies [OF ok] public_state_verifies [OF ok] assms(3) c by auto
qed

definition demo_events :: "chain_event list" where
  "demo_events = [Settle 1 50 [(''m'', 1)] 9 None, MarkPaid ''cid'', Settle 2 50 [(''m'', 2), (''n'', 1)] 10 None]"

theorem published_chain_verifies_witness:
  "verify_chain toy_world (foldl (chain_step toy_world) (new_chain demo_account []) demo_events) = Inr None"
proof -
  have a: "acct_address demo_account \<noteq> []" by simp
  show ?thesis
    by (rule conjunct1 [OF published_chain_verifies [OF toy_world_signs demo_can_sign a refl]])
qed

text \<open>a checkpoint written with the key restores the identical chain, and a scrubbed checkpoint
  restores one that agrees in everything but the account: it verifies, and every attempt to settle on it
  fails.\<close>

theorem checkpoint_restores_the_chain:
  assumes "chain_ok W cs" "finite (cs_paid cs)" "to_state cs True = Inr d" "to_state cs False = Inr d'"
    "acct_address (cs_coord cs) \<noteq> []"
  shows "from_state W d None = Inr cs
    \<and> (\<exists>cs'. from_state W d' None = Inr cs' \<and> cs' = cs\<lparr>cs_coord := verify_only_account (acct_address (cs_coord cs))\<rparr>
        \<and> (\<exists>e. settle W cs' h pot ex_by ts q = Inl (RuntimeError e)))"
  by (intro conjI exI [of _ "cs\<lparr>cs_coord := verify_only_account (acct_address (cs_coord cs))\<rparr>"] refl
      restore_with_key [OF assms(1-3)] restore_scrubbed [OF assms(1,2,4,5)] verify_only_cannot_settle)

theorem checkpoint_restores_the_chain_witness:
  "\<exists>d. to_state (new_chain demo_account []) True = Inr d \<and> from_state toy_world d None = Inr (new_chain demo_account [])"
proof -
  have ok: "chain_ok toy_world (new_chain demo_account [])" by (simp add: new_chain_ok)
  have paid: "finite (cs_paid (new_chain demo_account []))" by (simp add: new_chain_def)
  obtain d where d: "to_state (new_chain demo_account []) True = Inr d"
    by (simp add: to_state_def account_key_def demo_account_def account_from_key_def)
  obtain d' where "to_state (new_chain demo_account []) False = Inr d'" by (simp add: to_state_def)
  from checkpoint_restores_the_chain [OF ok paid d this] d show ?thesis by simp
qed

subsection \<open>What a verifier may conclude\<close>

text \<open>two chains that replay to the same head carry the same headers, hence the same heights, rewards
  and checkpoints, provided the hash separates the headers that occur in them.\<close>

theorem same_head_same_history:
  assumes "replay_blocks W P coord ckpt bs1 = Inr ((s1, head), None)"
    "replay_blocks W P' coord' ckpt' bs2 = Inr ((s2, head), None)"
    "mapE record_header bs1 = Inr hs1" "mapE record_header bs2 = Inr hs2" "separates W hs1 hs2"
  shows "hs1 = hs2"
  by (rule same_head_same_headers [OF assms])

theorem same_head_same_history_witness:
  "\<exists>s head. replay_blocks toy_world trusting ''k'' [] [] = Inr ((s, head), None)
     \<and> (\<forall>hs. mapE record_header [] = Inr hs \<longrightarrow> hs = [])"
proof -
  have r: "replay_blocks toy_world trusting ''k'' [] [] = Inr ((new_state [] False False, GENESIS_PREV_HASH), None)"
    by (simp add: replay_blocks_def genesis_point_def)
  have m: "mapE record_header [] = Inr []" by simp
  have "hs = []" if "mapE record_header [] = Inr hs" for hs
    using that same_head_same_history [OF r r that m] by (simp add: separates_def)
  with r show ?thesis by blast
qed

text \<open>C15: a chain that a verifier accepts under enforcement is signed by the pinned coordinator in
  every block, linked from the genesis head, and every block's own mint - recipient, reward and
  height - was approved by a quorum of the pinned roster.\<close>

theorem enforced_chain_is_authorized:
  assumes "replay_blocks W P coord ckpt bs = Inr (sh, None)" "rp_require_quorum P"
  shows "authentic W P coord GENESIS_PREV_HASH bs \<and> list_all (block_authorized W (rp_roster P) (rp_m P)) bs"
  using replay_blocks_authentic [OF assms(1)] enforced_replay_authorized assms(2) by blast

lemma demo_first_block:
  assumes "settle toy_world (new_chain demo_account []) h 50 [(''m'', 1)] ts (Some demo_quorum) = Inr (credited, cs1)"
  shows "replay_block toy_world quorum_policy ''k'' (new_state [] False False, GENESIS_PREV_HASH) (last (cs_blocks cs1))
      = Inr (Inr (cs_state cs1, cs_head cs1))"
    and "replay_blocks toy_world quorum_policy ''k'' [] (cs_blocks cs1) = Inr ((cs_state cs1, cs_head cs1), None)"
proof -
  have c: "settle_contributors [(''m'', 1)] = [(''m'', 1)]" by (simp add: settle_contributors_def)
  let ?h = "settle_header toy_world (new_chain demo_account []) h 50 [(''m'', 1)] ts (Some demo_quorum)"
  obtain sig where l: "cs_blocks cs1 = [block_record ?h [(''m'', 1)] sig (Some demo_quorum)]"
    using assms by (rule settle_Inr) (auto simp: c new_chain_def)
  have "block_quorum_failure toy_world quorum_policy (last (cs_blocks cs1)) ?h = None"
    unfolding l by (simp add: demo_quorum_holds settle_header_def)
  then have "block_quorum_failure toy_world quorum_policy (last (cs_blocks cs1))
      (settle_header toy_world (new_chain demo_account []) h 50 (settle_contributors [(''m'', 1)]) ts (Some demo_quorum)) = None"
    by (simp add: c)
  from settle_replays [OF toy_world_signs _ assms this]
  show b: "replay_block toy_world quorum_policy ''k'' (new_state [] False False, GENESIS_PREV_HASH) (last (cs_blocks cs1))
      = Inr (Inr (cs_state cs1, cs_head cs1))"
    by (simp add: new_chain_def)
  from replay_append_ok [of toy_world quorum_policy "''k''" "[]" "[]", OF _ b]
  show "replay_blocks toy_world quorum_policy ''k'' [] (cs_blocks cs1) = Inr ((cs_state cs1, cs_head cs1), None)"
    by (simp add: replay_blocks_def genesis_point_def l)
qed

theorem enforced_chain_is_authorized_witness:
  "\<exists>bs. bs \<noteq> [] \<and> list_all (block_authorized toy_world (Some (Members [''w'', ''a'', ''b''])) None) bs"
proof -
  obtain credited cs1 where s: "settle toy_world (new_chain demo_account []) 1 50 [(''m'', 1)] 9 (Some demo_quorum)
      = Inr (credited, cs1)" by (rule demo_settles)
  then have "cs_blocks cs1 \<noteq> []" by (rule settle_Inr) simp
  with enforced_chain_is_authorized [OF demo_first_block(2) [OF s]] show ?thesis
    by (auto simp: quorum_policy_def)
qed

text \<open>without an enforced quorum the coordinator's signature does not protect who was paid. In the
  last block of a chain that verifies, the contributor weights can be replaced by any other non-negative
  weights; the chain still verifies, with the same head and the same signatures.\<close>

theorem contributors_are_not_signed:
  assumes "replay_blocks W trusting coord ckpt bs = Inr (sh0, None)"
    "replay_block W trusting coord sh0 r = Inr (Inr sh1)" "is_object r" "list_all ((\<le>) 0) (dvalues cs)"
  shows "\<exists>s2. replay_blocks W trusting coord ckpt (bs @ [with_contributors r (contributors_json cs)])
    = Inr ((s2, snd sh1), None)"
  by (rule swapped_contributors_replay [OF assms]) blast

theorem contributors_are_not_signed_witness:
  "\<exists>r s2 head. replay_blocks toy_world trusting ''k'' [] [r] = Inr ((s2, head), None)
     \<and> getE r ''contributors'' = Inr (contributors_json [(''thief'', 1)])"
proof -
  obtain credited cs1 where s: "settle toy_world (new_chain demo_account []) 1 50 [(''m'', 1)] 9 None = Inr (credited, cs1)"
    by (rule demo_settles)
  let ?r = "last (cs_blocks cs1)"
  have o: "is_object ?r" by (rule settle_Inr [OF s]) (simp add: new_chain_def block_record_getters)
  have "block_quorum_failure toy_world trusting ?r hdr = None" for hdr
    by (simp add: block_quorum_failure_def trusting_def)
  from settle_replays [OF toy_world_signs _ s this]
  have b: "replay_block toy_world trusting ''k'' (new_state [] False False, GENESIS_PREV_HASH) ?r
      = Inr (Inr (cs_state cs1, cs_head cs1))" by (simp add: new_chain_def)
  have g: "replay_blocks toy_world trusting ''k'' [] [] = Inr ((new_state [] False False, GENESIS_PREV_HASH), None)"
    by (simp add: replay_blocks_def genesis_point_def)
  from contributors_are_not_signed [OF g b o, of "[(''thief'', 1)]"]
  obtain s2 where "replay_blocks toy_world trusting ''k'' []
      [with_contributors ?r (contributors_json [(''thief'', 1)])] = Inr ((s2, cs_head cs1), None)" by auto
  with with_contributors_getters(3) [OF o] show ?thesis by blast
qed

text \<open>the quorum of a mint names a recipient, an amount and a height, but the replay never asks
  heights to grow. A coordinator that settles the same height with the same quorum a second time obtains
  a chain that every enforcing verifier accepts: one authorization mints twice.\<close>

theorem one_quorum_mints_twice:
  assumes "signs_correctly W" "can_sign W (cs_coord cs)"
    "settle W cs h pot ex_by ts q = Inr (credited1, cs1)"
    "settle W cs1 h pot ex_by ts' q = Inr (credited2, cs2)"
    "replay_blocks W P (acct_address (cs_coord cs)) (cs_genesis cs) (cs_blocks cs1)
       = Inr ((cs_state cs1, cs_head cs1), None)"
    "replay_block W P (acct_address (cs_coord cs)) (cs_state cs, cs_head cs) (last (cs_blocks cs1))
       = Inr (Inr sh)"
  shows "replay_blocks W P (acct_address (cs_coord cs)) (cs_genesis cs) (cs_blocks cs2)
      = Inr ((cs_state cs2, cs_head cs2), None)
    \<and> (\<exists>r. cs_blocks cs2 = cs_blocks cs1 @ [r])"
proof -
  have "\<exists>r. cs_blocks cs2 = cs_blocks cs1 @ [r]" using assms(4) by (rule settle_Inr) simp
  with settle_again_replays [OF assms] show ?thesis by blast
qed

theorem one_quorum_mints_twice_witness:
  "\<exists>bs st head. length bs = 2 \<and> replay_blocks toy_world quorum_policy ''k'' [] bs = Inr ((st, head), None)"
proof -
  obtain credited cs1 where s: "settle toy_world (new_chain demo_account []) 1 50 [(''m'', 1)] 9 (Some demo_quorum)
      = Inr (credited, cs1)" by (rule demo_settles)
  have l: "length (cs_blocks cs1) = 1" and c: "cs_coord cs1 = demo_account"
    by (rule settle_Inr [OF s], simp add: new_chain_def)+
  obtain credited2 cs2 where s2: "settle toy_world cs1 1 50 [(''m'', 1)] 10 (Some demo_quorum) = Inr (credited2, cs2)"
    by (rule settle_succeeds [of toy_world cs1]) (simp_all add: c)
  have k: "acct_address (cs_coord (new_chain demo_account [])) = ''k''" "cs_genesis (new_chain demo_account []) = []"
    "cs_state (new_chain demo_account []) = new_state [] False False"
    "cs_head (new_chain demo_account []) = GENESIS_PREV_HASH" by (simp_all add: new_chain_def)
  have sign: "can_sign toy_world (cs_coord (new_chain demo_account []))" by simp
  from one_quorum_mints_twice [OF toy_world_signs sign s s2, unfolded k, OF demo_first_block(2,1) [OF s]] l
  show ?thesis by force
qed

end
