(* ===== verification/Clock.thy ===== *)
theory Clock
  imports Sequencer
begin

text \<open>
  The commit-reveal round clock, \<^verbatim>\<open>neurahash/diloco_clock.py\<close>: hiding commitments, reveals, the
  agreed seed and order of a round with its disputes, signed commitments, equivocation, the shadow
  audit and its stand-alone auditor. Envelopes are decoded dictionaries from untrusted peers.
\<close>

subsection \<open>Bytes\<close>

definition ascii_space :: "char \<Rightarrow> bool" where
  "ascii_space c = (let n = of_char c :: nat in n = 32 \<or> (9 \<le> n \<and> n \<le> 13))"

definition hex_digit :: "char \<Rightarrow> nat option" where
  "hex_digit c = (let n = of_char c :: nat in
     if 48 \<le> n \<and> n \<le> 57 then Some (n - 48)
     else if 97 \<le> n \<and> n \<le> 102 then Some (n - 87)
     else if 65 \<le> n \<and> n \<le> 70 then Some (n - 55) else None)"

text \<open>\<^verbatim>\<open>bytes.fromhex\<close>: pairs of digits, white space between them skipped.\<close>

fun unhex :: "string \<Rightarrow> string option" where
  "unhex [] = Some []"
| "unhex (c # cs) =
     (if ascii_space c then unhex cs
      else case cs of
        [] \<Rightarrow> None
      | d # ds \<Rightarrow> (case (hex_digit c, hex_digit d) of
            (Some x, Some y) \<Rightarrow> map_option ((#) (char_of (16 * x + y))) (unhex ds)
          | _ \<Rightarrow> None))"

text \<open>\<^verbatim>\<open>int.to_bytes(8, "big")\<close>; \<open>None\<close> where it overflows.\<close>

definition be8 :: "int \<Rightarrow> string option" where
  "be8 n = (if 0 \<le> n \<and> n < 2 ^ 64
     then Some (map (\<lambda>i. char_of (nat (n div 256 ^ i mod 256))) [7, 6, 5, 4, 3, 2, 1, 0]) else None)"

definition roundE :: "int \<Rightarrow> exn + string" where
  "roundE n = orE (ValueError ''int too big to convert'') (be8 n)"

definition hexE :: "string \<Rightarrow> exn + string" where
  "hexE s = orE (ValueError ''non-hexadecimal number found in fromhex()'') (unhex s)"

subsection \<open>Commit and reveal\<close>

definition CLOCK_DOMAIN :: string where "CLOCK_DOMAIN = ''neurahash-diloco-clock/v1''"
definition CLOCK_TAG :: string where "CLOCK_TAG = ''neurahash-diloco-clock''"

definition clock_mode :: "string option \<Rightarrow> string" where
  "clock_mode env = (let v = str_lower (str_strip (case env of None \<Rightarrow> ''off'' | Some x \<Rightarrow> x))
     in if v \<in> {''off'', ''audit'', ''enforce''} then v else ''off'')"

definition commit_digest :: "world \<Rightarrow> int \<Rightarrow> string \<Rightarrow> string \<Rightarrow> exn + string" where
  "commit_digest W round_id signer nonce =
     bindE (roundE round_id) (\<lambda>r. bindE (hexE nonce) (\<lambda>n.
       Inr (sha256 W (CLOCK_DOMAIN @ ''|'' @ r @ ''|'' @ n @ ''|'' @ str_lower signer))))"

record sealed =
  sl_round :: int
  sl_signer :: string
  sl_digest :: string
  sl_nonce :: string

definition make_commit :: "world \<Rightarrow> int \<Rightarrow> string \<Rightarrow> string \<Rightarrow> exn + sealed" where
  "make_commit W round_id signer nonce = bindE (commit_digest W round_id signer nonce) (\<lambda>d.
     Inr \<lparr>sl_round = round_id, sl_signer = str_lower signer, sl_digest = d, sl_nonce = nonce\<rparr>)"

definition commit_envelope :: "int \<Rightarrow> string \<Rightarrow> string \<Rightarrow> json" where
  "commit_envelope round_id signer digest = JObj
     [(''round'', JInt round_id), (''signer'', JStr (str_lower signer)), (''digest'', JStr digest)]"

definition reveal_of :: "sealed \<Rightarrow> json" where
  "reveal_of s = JObj [(''round'', JInt (sl_round s)), (''signer'', JStr (str_lower (sl_signer s))),
     (''nonce'', JStr (sl_nonce s))]"

text \<open>\<^verbatim>\<open>_norm_signer(d[k])\<close> and \<^verbatim>\<open>str(d[k])\<close> of a decoded dictionary.\<close>

definition norm_at :: "world \<Rightarrow> json \<Rightarrow> string \<Rightarrow> exn + string" where
  "norm_at W d k = bindE (getE d k) (\<lambda>j. Inr (str_lower (str_of W j)))"

definition text_at :: "world \<Rightarrow> json \<Rightarrow> string \<Rightarrow> exn + string" where
  "text_at W d k = bindE (getE d k) (\<lambda>j. Inr (str_of W j))"

definition int_at :: "json \<Rightarrow> string \<Rightarrow> exn + int" where
  "int_at d k = bindE (getE d k) intE"

text \<open>A reveal against the digest that its signer committed to for \<open>round_id\<close>.\<close>

definition verify_reveal :: "world \<Rightarrow> int \<Rightarrow> string \<Rightarrow> string \<Rightarrow> json \<Rightarrow> bool" where
  "verify_reveal W round_id signer digest reveal =
     (case bindE (int_at reveal ''round'') (\<lambda>r.
           bindE (norm_at W reveal ''signer'') (\<lambda>s.
             if r \<noteq> round_id \<or> str_lower signer \<noteq> s then Inr None
             else bindE (text_at W reveal ''nonce'') (\<lambda>n.
                  bindE (commit_digest W r s n) (\<lambda>d. Inr (Some d))))) of
        Inl _ \<Rightarrow> False
      | Inr None \<Rightarrow> False
      | Inr (Some d) \<Rightarrow> d = digest)"

subsection \<open>Seed and order\<close>

fun seed_items :: "(string \<times> string) list \<Rightarrow> exn + string" where
  "seed_items [] = Inr []"
| "seed_items ((signer, nonce) # items) =
     bindE (hexE nonce) (\<lambda>n. bindE (seed_items items) (\<lambda>rest.
       Inr (''|'' @ signer @ '':'' @ n @ rest)))"

text \<open>\<open>reveals\<close> are (signer, nonce) pairs, the signers in lower case.\<close>

definition agree_seed :: "world \<Rightarrow> (string \<times> string) list \<Rightarrow> int \<Rightarrow> exn + string" where
  "agree_seed W reveals round_id =
     bindE (roundE round_id) (\<lambda>r. bindE (seed_items (sort (remdups reveals))) (\<lambda>items.
       Inr (sha256 W (CLOCK_DOMAIN @ ''|seed|'' @ r @ items))))"

definition order_key :: "world \<Rightarrow> string \<Rightarrow> string \<Rightarrow> string" where
  "order_key W seed signer = sha256 W (seed @ ''|'' @ str_lower signer)"

definition agree_order :: "world \<Rightarrow> (string \<times> string) list \<Rightarrow> string \<Rightarrow> string list" where
  "agree_order W reveals seed = sort_key (order_key W seed) (sort (remdups (map fst reveals)))"

subsection \<open>Agreeing a round\<close>

record disputes =
  dp_rejected :: "string list"
  dp_missing :: "string list"
  dp_unsolicited :: "string list"
  dp_commit_equivocations :: "string list"
  dp_wrong_round :: "string list"

record agreement =
  ag_round :: int
  ag_seed :: string
  ag_order :: "string list"
  ag_valid_signers :: "string list"
  ag_disputes :: disputes

text \<open>What one envelope says: malformed, of another round (with its claimed signer), or of this one.\<close>

datatype 'a envelope = Malformed | OtherRound string | ThisRound 'a

definition read_commit :: "world \<Rightarrow> int \<Rightarrow> json \<Rightarrow> (string \<times> string) envelope" where
  "read_commit W round_id c = (case int_at c ''round'' of
       Inl _ \<Rightarrow> Malformed
     | Inr r \<Rightarrow>
         if r \<noteq> round_id then OtherRound (str_lower (str_of W (get_or c ''signer'' JNull)))
         else (case bindE (norm_at W c ''signer'') (\<lambda>s. bindE (text_at W c ''digest'') (\<lambda>d. Inr (s, d))) of
             Inl _ \<Rightarrow> Malformed | Inr p \<Rightarrow> ThisRound p))"

definition read_reveal :: "world \<Rightarrow> int \<Rightarrow> json \<Rightarrow> (string \<times> json) envelope" where
  "read_reveal W round_id r = (case int_at r ''round'' of
       Inl _ \<Rightarrow> Malformed
     | Inr n \<Rightarrow>
         if n \<noteq> round_id then OtherRound (str_lower (str_of W (get_or r ''signer'' JNull)))
         else (case norm_at W r ''signer'' of Inl _ \<Rightarrow> Malformed | Inr s \<Rightarrow> ThisRound (s, r)))"

definition this_round :: "'a envelope list \<Rightarrow> 'a list" where
  "this_round es = List.map_filter (\<lambda>e. case e of ThisRound x \<Rightarrow> Some x | _ \<Rightarrow> None) es"

definition other_round :: "'a envelope list \<Rightarrow> string list" where
  "other_round es = List.map_filter (\<lambda>e. case e of OtherRound s \<Rightarrow> Some s | _ \<Rightarrow> None) es"

definition add_commit :: "(string, string) pydict \<times> string list \<Rightarrow> string \<times> string
    \<Rightarrow> (string, string) pydict \<times> string list" where
  "add_commit st p = (case (st, p) of ((m, eq), (s, d)) \<Rightarrow>
     (case map_of m s of
        Some d0 \<Rightarrow> if d0 \<noteq> d then (m, List.insert s eq) else (m, eq)
      | None \<Rightarrow> (dset s d m, eq)))"

text \<open>The commit map without the signers that committed two digests, and those signers.\<close>

definition commit_map :: "(string \<times> string) list \<Rightarrow> (string, string) pydict \<times> string list" where
  "commit_map cs = (let (m, eq) = foldl add_commit ([], []) cs in (foldl (\<lambda>d s. dpop s d) m eq, eq))"

record reveal_state =
  rv_valid :: "(string, string) pydict"
  rv_unsolicited :: "string list"
  rv_rejected :: "string list"

definition reveal_nonce :: "world \<Rightarrow> json \<Rightarrow> string" where
  "reveal_nonce W r = str_of W (get_or r ''nonce'' JNull)"

definition add_reveal :: "world \<Rightarrow> int \<Rightarrow> (string, string) pydict \<Rightarrow> reveal_state \<Rightarrow> string \<times> json \<Rightarrow> reveal_state" where
  "add_reveal W round_id cm st p = (case p of (s, r) \<Rightarrow>
     (case map_of cm s of
        None \<Rightarrow> st\<lparr>rv_unsolicited := rv_unsolicited st @ [s]\<rparr>
      | Some d \<Rightarrow>
          if map_of (rv_valid st) s \<noteq> None then st
          else if verify_reveal W round_id s d r then st\<lparr>rv_valid := dset s (reveal_nonce W r) (rv_valid st)\<rparr>
          else st\<lparr>rv_rejected := rv_rejected st @ [s]\<rparr>))"

definition agree_round :: "world \<Rightarrow> json list \<Rightarrow> json list \<Rightarrow> int \<Rightarrow> exn + agreement" where
  "agree_round W commits reveals round_id =
     (let cs = map (read_commit W round_id) commits; rs = map (read_reveal W round_id) reveals;
          (cm, eq) = commit_map (this_round cs);
          st = foldl (add_reveal W round_id cm) \<lparr>rv_valid = [], rv_unsolicited = [], rv_rejected = []\<rparr> (this_round rs);
          valid = rv_valid st;
          tidy = (\<lambda>xs. sort (remdups xs))
      in bindE (agree_seed W valid round_id) (\<lambda>seed. Inr
           \<lparr>ag_round = round_id, ag_seed = seed, ag_order = agree_order W valid seed,
            ag_valid_signers = sort (dkeys valid),
            ag_disputes = \<lparr>dp_rejected = tidy (rv_rejected st),
              dp_missing = sort (filter (\<lambda>s. s \<notin> set (dkeys valid)) (dkeys cm)),
              dp_unsolicited = tidy (rv_unsolicited st), dp_commit_equivocations = tidy eq,
              dp_wrong_round = tidy (other_round cs @ other_round rs)\<rparr>\<rparr>))"

subsection \<open>Signed commitments\<close>

definition clock_commit_payload :: "world \<Rightarrow> int \<Rightarrow> string \<Rightarrow> string \<Rightarrow> string" where
  "clock_commit_payload W round_id signer digest = dumps W (JObj
     [(''w'', JStr CLOCK_TAG), (''round'', JInt round_id), (''signer'', JStr (str_lower signer)),
      (''digest'', JStr digest)])"

definition sign_clock_commit :: "world \<Rightarrow> account \<Rightarrow> int \<Rightarrow> string \<Rightarrow> exn + json" where
  "sign_clock_commit W a round_id digest =
     bindE (sign_bytes W a (clock_commit_payload W round_id (acct_address a) digest)) (\<lambda>sig. Inr (JObj
       [(''round'', JInt round_id), (''signer'', JStr (acct_address a)), (''digest'', JStr digest),
        (''sig'', JStr sig)]))"

definition make_shadow_commit :: "world \<Rightarrow> account \<Rightarrow> int \<Rightarrow> string \<Rightarrow> exn + sealed \<times> json" where
  "make_shadow_commit W a round_id nonce =
     bindE (make_commit W round_id (acct_address a) nonce) (\<lambda>s.
     bindE (sign_clock_commit W a round_id (sl_digest s)) (\<lambda>signed. Inr (s, signed)))"

text \<open>\<open>Some\<close> the recovered address where the commitment verifies.\<close>

definition verify_clock_commit :: "world \<Rightarrow> json \<Rightarrow> string option" where
  "verify_clock_commit W signed =
     (case bindE (int_at signed ''round'') (\<lambda>r.
           bindE (text_at W signed ''signer'') (\<lambda>s.
           bindE (text_at W signed ''digest'') (\<lambda>d.
           bindE (bindE (getE signed ''sig'') strE) (recover_bytes W (clock_commit_payload W r s d))))) of
        Inl _ \<Rightarrow> None
      | Inr rec \<Rightarrow>
          (case get_or signed ''signer'' JNull of
             JStr claimed \<Rightarrow> if str_lower rec = str_lower claimed then Some rec else None
           | _ \<Rightarrow> None))"

datatype clock_verdict =
    EnvelopeInvalid bool
  | ClockDifferentSigners
  | ClockDifferentRounds
  | ClockDuplicate
  | ClockEquivocation string

definition clock_equivocation :: "world \<Rightarrow> json \<Rightarrow> json \<Rightarrow> clock_verdict" where
  "clock_equivocation W a b =
     (case verify_clock_commit W a of
        None \<Rightarrow> EnvelopeInvalid True
      | Some ra \<Rightarrow>
     (case verify_clock_commit W b of
        None \<Rightarrow> EnvelopeInvalid False
      | Some rb \<Rightarrow>
          if str_lower ra \<noteq> str_lower rb then ClockDifferentSigners
          else if int_at a ''round'' \<noteq> int_at b ''round'' then ClockDifferentRounds
          else if text_at W a ''digest'' = text_at W b ''digest'' then ClockDuplicate
          else ClockEquivocation ra))"

subsection \<open>Audits\<close>

record shadow_record =
  sh_round :: int
  sh_mode :: string
  sh_match :: bool
  sh_clean :: bool
  sh_claimed_order :: "string list"
  sh_agreement :: agreement

definition no_disputes :: "disputes \<Rightarrow> bool" where
  "no_disputes d \<longleftrightarrow> dp_rejected d = [] \<and> dp_missing d = [] \<and> dp_unsolicited d = []
     \<and> dp_commit_equivocations d = [] \<and> dp_wrong_round d = []"

definition shadow_audit :: "world \<Rightarrow> int \<Rightarrow> string list \<Rightarrow> json list \<Rightarrow> json list \<Rightarrow> string \<Rightarrow> exn + shadow_record" where
  "shadow_audit W round_id claimed commits reveals mode =
     bindE (agree_round W commits reveals round_id) (\<lambda>ag. Inr
       \<lparr>sh_round = round_id, sh_mode = mode, sh_match = (map str_lower claimed = ag_order ag),
        sh_clean = no_disputes (ag_disputes ag), sh_claimed_order = map str_lower claimed,
        sh_agreement = ag\<rparr>)"

record clock_report =
  ck_n_signed :: nat
  ck_n_audits :: nat
  ck_sig_failures :: "json list"
  ck_off_roster :: "string list"
  ck_equivocations :: "(string \<times> int) list"
  ck_mismatches :: "int list"

text \<open>One record of the log, with the digests seen so far by (signer, round). \<^verbatim>\<open>int\<close> of the round of a
  mismatching audit record may raise.\<close>

definition audit_clock_record :: "world \<Rightarrow> string list option \<Rightarrow> clock_report \<times> ((string \<times> int), string) pydict
    \<Rightarrow> json \<Rightarrow> exn + clock_report \<times> ((string \<times> int), string) pydict" where
  "audit_clock_record W allow st r = (case st of (rep, seen) \<Rightarrow>
     if \<not> is_object r then Inr st
     else if jindex r ''sig'' \<noteq> None then
       (let rep1 = rep\<lparr>ck_n_signed := ck_n_signed rep + 1\<rparr> in
        case verify_clock_commit W r of
          None \<Rightarrow> Inr (rep1\<lparr>ck_sig_failures := ck_sig_failures rep1 @ [get_or r ''round'' JNull]\<rparr>, seen)
        | Some who \<Rightarrow>
            bindE (int_at r ''round'') (\<lambda>rnd. bindE (text_at W r ''digest'') (\<lambda>d.
              let key = (str_lower who, rnd) in
              if (case allow of None \<Rightarrow> False | Some al \<Rightarrow> str_lower who \<notin> set (map str_lower al))
              then Inr (rep1\<lparr>ck_off_roster := ck_off_roster rep1 @ [who]\<rparr>, seen)
              else (case map_of seen key of
                  Some d0 \<Rightarrow> if d0 \<noteq> d then Inr (rep1\<lparr>ck_equivocations := ck_equivocations rep1 @ [(who, rnd)]\<rparr>, seen)
                             else Inr (rep1, seen)
                | None \<Rightarrow> Inr (rep1, dset key d seen)))))
     else if get_or r ''kind'' JNull = JStr CLOCK_TAG then
       (let rep1 = rep\<lparr>ck_n_audits := ck_n_audits rep + 1\<rparr> in
        if get_or r ''match'' JNull = JBool False
        then bindE (intE (get_or r ''round'' (JInt 0))) (\<lambda>n.
               Inr (rep1\<lparr>ck_mismatches := ck_mismatches rep1 @ [n]\<rparr>, seen))
        else Inr (rep1, seen))
     else Inr st)"

fun audit_clock_run :: "world \<Rightarrow> string list option \<Rightarrow> clock_report \<times> ((string \<times> int), string) pydict
    \<Rightarrow> json list \<Rightarrow> exn + clock_report" where
  "audit_clock_run W allow st [] = Inr (fst st)"
| "audit_clock_run W allow st (r # rs) =
     bindE (audit_clock_record W allow st r) (\<lambda>st'. audit_clock_run W allow st' rs)"

definition empty_report :: clock_report where
  "empty_report = \<lparr>ck_n_signed = 0, ck_n_audits = 0, ck_sig_failures = [], ck_off_roster = [],
     ck_equivocations = [], ck_mismatches = []\<rparr>"

text \<open>The buckets that the code sorts are left in log order here, apart from dropping absent rounds.\<close>

definition audit_clock_records :: "world \<Rightarrow> json list \<Rightarrow> string list option \<Rightarrow> exn + bool \<times> clock_report" where
  "audit_clock_records W records allow =
     bindE (audit_clock_run W allow (empty_report, []) records) (\<lambda>rep.
       let rep1 = rep\<lparr>ck_sig_failures := filter (\<lambda>x. x \<noteq> JNull) (ck_sig_failures rep),
                     ck_off_roster := sort (remdups (ck_off_roster rep)),
                     ck_mismatches := sort (remdups (ck_mismatches rep))\<rparr>
       in Inr (ck_sig_failures rep1 = [] \<and> ck_equivocations rep1 = [], rep1))"

definition elected_round_authority :: "int \<Rightarrow> string \<Rightarrow> exn + int" where
  "elected_round_authority r mode = (if mode = ''enforce'' then Inl NotImplementedError else Inr r)"

end
