(* ===== verification/Clock_Facts.thy ===== *)
theory Clock_Facts
  imports Clock
begin

text \<open>
  Facts on the commit-reveal clock: what the commit map holds, who ends up as a valid signer, and that
  the agreement depends on the sets of commits and reveals only - except for the bucket of rejected
  reveals, which depends on their order. Properties with their witnesses are at the end.
\<close>

subsection \<open>Lists up to order\<close>

lemma tidy_cong: "set xs = set ys \<Longrightarrow> sort (remdups xs) = sort (remdups ys)"
  for xs :: "string list"
  by (metis distinct_remdups distinct_sort set_remdups set_sort sorted_distinct_set_unique sorted_sort)

lemma sort_keys:
  fixes d :: "(string, string) pydict"
  assumes "distinct (dkeys d)"
  shows "sort (remdups d) = map (\<lambda>s. (s, dget d s [])) (sort (dkeys d))"
proof -
  have d: "distinct d" using assms by (simp add: distinct_map)
  have g: "dget d s [] = v" if "(s, v) \<in> set d" for s v
    using that assms by (simp add: dget_def map_of_is_SomeI)
  let ?r = "map (\<lambda>s. (s, dget d s [])) (sort (dkeys d))"
  have "sorted_wrt (<) (sort (dkeys d))"
    using assms by (simp add: strict_sorted_iff del: set_map)
  then have "sorted_wrt (<) ?r"
    by (simp add: sorted_wrt_map less_prod_def) (auto elim: sorted_wrt_mono_rel [rotated])
  then have "sorted ?r" "distinct ?r" by (simp_all only: strict_sorted_iff)
  moreover have "set ?r = set d" using g by (force simp: image_iff)
  ultimately show ?thesis using d by (intro sorted_distinct_set_unique) (simp_all del: set_map)
qed

subsection \<open>The commit map\<close>

lemma add_commit_run:
  assumes "foldl add_commit ([], []) ps = (m, eq)"
  shows "map_of m = map_of ps \<and> set eq = {s. \<exists>d. (s, d) \<in> set ps \<and> map_of ps s \<noteq> Some d}
    \<and> distinct (dkeys m) \<and> distinct eq"
  using assms
proof (induction ps arbitrary: m eq rule: rev_induct)
  case (snoc p ps)
  obtain m0 eq0 where r: "foldl add_commit ([], []) ps = (m0, eq0)" by fastforce
  obtain s d where p: "p = (s, d)" by (cases p)
  note IH = snoc.IH [OF r]
  have st: "add_commit (m0, eq0) (s, d) = (m, eq)" using snoc.prems r p by simp
  show ?case
  proof (cases "map_of ps s")
    case None
    then have "m = dset s d m0" "eq = eq0" using st IH by (simp_all add: add_commit_def)
    moreover have "(s, d') \<notin> set ps" for d' using None by (force simp: map_of_eq_None_iff)
    ultimately show ?thesis using IH None
      by (auto simp: p map_of_append fun_eq_iff map_add_def distinct_dset split: option.splits)
  next
    case (Some d0)
    then have "m = m0" "eq = (if d0 \<noteq> d then List.insert s eq0 else eq0)"
      using st IH by (auto simp: add_commit_def split: if_splits)
    then show ?thesis using IH Some
      by (auto simp: p map_of_append fun_eq_iff map_add_def split: option.splits if_splits)
  qed
qed simp

lemma drop_signers:
  "map_of (foldl (\<lambda>d s. dpop s d) m eq) s = (if s \<in> set eq then None else map_of m s)"
  "distinct (dkeys m) \<Longrightarrow> distinct (dkeys (foldl (\<lambda>d s. dpop s d) m eq))"
  by (induction eq arbitrary: m) (auto simp: distinct_dpop)

text \<open>The signers that committed two digests, and the one digest of every other signer.\<close>

lemma commit_map_spec:
  assumes "commit_map ps = (cm, eq)"
  shows "set eq = {s. \<exists>d d'. (s, d) \<in> set ps \<and> (s, d') \<in> set ps \<and> d \<noteq> d'}"
    and "map_of cm s = Some d \<longleftrightarrow> (s, d) \<in> set ps \<and> s \<notin> set eq"
    and "distinct (dkeys cm)"
proof -
  obtain m where r: "foldl add_commit ([], []) ps = (m, eq)" and cm: "cm = foldl (\<lambda>d s. dpop s d) m eq"
    using assms by (auto simp: commit_map_def Let_def split: prod.splits)
  note run = add_commit_run [OF r]
  show two: "set eq = {s. \<exists>d d'. (s, d) \<in> set ps \<and> (s, d') \<in> set ps \<and> d \<noteq> d'}"
  proof (intro set_eqI iffI)
    fix s assume "s \<in> set eq"
    then obtain d where d: "(s, d) \<in> set ps" "map_of ps s \<noteq> Some d" using run by auto
    then obtain d0 where "map_of ps s = Some d0" by (metis weak_map_of_SomeI)
    then show "s \<in> {s. \<exists>d d'. (s, d) \<in> set ps \<and> (s, d') \<in> set ps \<and> d \<noteq> d'}"
      using d by (auto dest: map_of_SomeD)
  next
    fix s assume "s \<in> {s. \<exists>d d'. (s, d) \<in> set ps \<and> (s, d') \<in> set ps \<and> d \<noteq> d'}"
    then obtain d d' where "(s, d) \<in> set ps" "(s, d') \<in> set ps" "d \<noteq> d'" by blast
    then show "s \<in> set eq" using run by (cases "map_of ps s = Some d") auto
  qed
  show "map_of cm s = Some d \<longleftrightarrow> (s, d) \<in> set ps \<and> s \<notin> set eq"
    using run two by (auto simp: cm drop_signers dest: map_of_SomeD)
  show "distinct (dkeys cm)" using run by (simp add: cm drop_signers)
qed

lemma commit_map_cong:
  assumes "commit_map ps = (cm, eq)" "commit_map ps' = (cm', eq')" "set ps = set ps'"
  shows "set eq = set eq'" "map_of cm = map_of cm'" "set (dkeys cm) = set (dkeys cm')"
proof -
  show e: "set eq = set eq'" using commit_map_spec(1) [OF assms(1)] commit_map_spec(1) [OF assms(2)] assms(3) by simp
  have "map_of cm s = map_of cm' s" for s
    using commit_map_spec(2) [OF assms(1), of s] commit_map_spec(2) [OF assms(2), of s] e assms(3)
    by (cases "map_of cm s"; cases "map_of cm' s") auto
  then show m: "map_of cm = map_of cm'" by blast
  show "set (dkeys cm) = set (dkeys cm')" using m by (metis dom_map_of_conv_image_fst set_map)
qed

subsection \<open>The valid reveals\<close>

text \<open>A reveal opens the digest that its signer committed to.\<close>

definition opens :: "world \<Rightarrow> int \<Rightarrow> (string, string) pydict \<Rightarrow> string \<times> json \<Rightarrow> bool" where
  "opens W round_id cm p = (case p of (s, r) \<Rightarrow>
     (case map_of cm s of None \<Rightarrow> False | Some d \<Rightarrow> verify_reveal W round_id s d r))"

definition reveal_start :: reveal_state where
  "reveal_start = \<lparr>rv_valid = [], rv_unsolicited = [], rv_rejected = []\<rparr>"

text \<open>The first opening reveal of a signer counts; a signer without a commitment is unsolicited.\<close>

lemma add_reveal_run:
  "map_of (rv_valid (foldl (add_reveal W round_id cm) reveal_start ps))
     = map_of (map (\<lambda>(s, r). (s, reveal_nonce W r)) (filter (opens W round_id cm) ps))"
  "rv_unsolicited (foldl (add_reveal W round_id cm) reveal_start ps)
     = map fst (filter (\<lambda>(s, r). map_of cm s = None) ps)"
  "distinct (dkeys (rv_valid (foldl (add_reveal W round_id cm) reveal_start ps)))"
proof (induction ps rule: rev_induct)
  case (snoc p ps)
  let ?st = "foldl (add_reveal W round_id cm) reveal_start ps"
  obtain s r where p: "p = (s, r)" by (cases p)
  {
    case 1
    show ?case using snoc.IH(1)
      by (auto simp: p add_reveal_def opens_def map_of_append map_add_def fun_eq_iff simp del: map_of_eq_Some_iff
          split: option.splits)
  next
    case 2
    show ?case using snoc.IH(2) by (auto simp: p add_reveal_def split: option.splits)
  next
    case 3
    show ?case using snoc.IH(3) by (auto simp: p add_reveal_def distinct_dset simp del: set_map split: option.splits)
  }
qed (simp_all add: reveal_start_def)

lemma valid_reveal:
  assumes "st = foldl (add_reveal W round_id cm) reveal_start ps"
  shows "s \<in> set (dkeys (rv_valid st)) \<longleftrightarrow> (\<exists>r. (s, r) \<in> set ps \<and> opens W round_id cm (s, r))"
    and "map_of (rv_valid st) s = Some n \<Longrightarrow> \<exists>r. (s, r) \<in> set ps \<and> opens W round_id cm (s, r) \<and> n = reveal_nonce W r"
    and "set (rv_unsolicited st) = {s. s \<in> fst ` set ps \<and> map_of cm s = None}"
    and "distinct (dkeys (rv_valid st))"
proof -
  have "s \<in> set (dkeys (rv_valid st)) \<longleftrightarrow> map_of (rv_valid st) s \<noteq> None" by (simp add: map_of_eq_None_iff)
  also have "\<dots> \<longleftrightarrow> (\<exists>r. (s, r) \<in> set ps \<and> opens W round_id cm (s, r))"
    unfolding assms add_reveal_run(1) by (force simp: map_of_eq_None_iff image_iff)
  finally show "s \<in> set (dkeys (rv_valid st)) \<longleftrightarrow> (\<exists>r. (s, r) \<in> set ps \<and> opens W round_id cm (s, r))" .
  show "\<exists>r. (s, r) \<in> set ps \<and> opens W round_id cm (s, r) \<and> n = reveal_nonce W r"
    if "map_of (rv_valid st) s = Some n"
    using that unfolding assms add_reveal_run(1) by (auto dest!: map_of_SomeD)
  show "set (rv_unsolicited st) = {s. s \<in> fst ` set ps \<and> map_of cm s = None}"
    unfolding assms add_reveal_run(2) by force
  show "distinct (dkeys (rv_valid st))" unfolding assms by (rule add_reveal_run(3))
qed

text \<open>The nonces of any two reveals that open one digest are the same bytes: the digest binds.\<close>

definition binding :: "world \<Rightarrow> int \<Rightarrow> (string \<times> json) list \<Rightarrow> bool" where
  "binding W round_id ps \<longleftrightarrow>
     (\<forall>(s, r) \<in> set ps. \<forall>(s', r') \<in> set ps. \<forall>d. s = s' \<longrightarrow> verify_reveal W round_id s d r
        \<longrightarrow> verify_reveal W round_id s' d r' \<longrightarrow> unhex (reveal_nonce W r) = unhex (reveal_nonce W r'))"

lemma seed_items_cong:
  "\<forall>s \<in> set ss. unhex (f s) = unhex (g s) \<Longrightarrow> seed_items (map (\<lambda>s. (s, f s)) ss) = seed_items (map (\<lambda>s. (s, g s)) ss)"
  by (induction ss) (simp_all add: hexE_def cong del: bindE_weak_cong)

lemma agree_seed_cong:
  assumes "distinct (dkeys v)" "distinct (dkeys v')" "set (dkeys v) = set (dkeys v')"
    "\<And>s n n'. map_of v s = Some n \<Longrightarrow> map_of v' s = Some n' \<Longrightarrow> unhex n = unhex n'"
  shows "agree_seed W v round_id = agree_seed W v' round_id"
proof -
  have k: "sort (dkeys v) = sort (dkeys v')"
    using assms(1-3) by (intro sorted_distinct_set_unique) (simp_all del: set_map)
  have "unhex (dget v s []) = unhex (dget v' s [])" if s: "s \<in> set (dkeys v)" for s
  proof -
    obtain n n' where "map_of v s = Some n" "map_of v' s = Some n'"
      using s assms(3) by (metis map_of_eq_None_iff not_Some_eq set_map)
    with assms(4) show ?thesis by (simp add: dget_def)
  qed
  then have "\<forall>s \<in> set (sort (dkeys v)). unhex (dget v s []) = unhex (dget v' s [])" by simp
  from seed_items_cong [OF this] show ?thesis
    by (simp add: agree_seed_def sort_keys assms(1,2) k cong del: bindE_weak_cong)
qed

subsection \<open>The agreement\<close>

lemma set_this_round: "set (this_round es) = {x. ThisRound x \<in> set es}"
  unfolding this_round_def by (induction es) (auto simp: List.map_filter_simps split: envelope.splits)

lemma set_other_round: "set (other_round es) = {s. OtherRound s \<in> set es}"
  unfolding other_round_def by (induction es) (auto simp: List.map_filter_simps split: envelope.splits)

lemma round_sets_cong:
  assumes "set xs = set ys"
  shows "set (this_round (map f xs)) = set (this_round (map f ys))"
    "set (other_round (map f xs)) = set (other_round (map f ys))"
  by (simp_all only: set_this_round set_other_round set_map assms)

text \<open>The pieces of an agreement: the commits and reveals of the round, the commit map and the reveal run.\<close>

definition reveal_run :: "world \<Rightarrow> int \<Rightarrow> (string, string) pydict \<Rightarrow> json list \<Rightarrow> reveal_state" where
  "reveal_run W n cm reveals
     = foldl (add_reveal W n cm) reveal_start (this_round (map (read_reveal W n) reveals))"

definition outcome :: "world \<Rightarrow> int \<Rightarrow> (string, string) pydict \<Rightarrow> string list \<Rightarrow> reveal_state \<Rightarrow> string list
    \<Rightarrow> string \<Rightarrow> agreement" where
  "outcome W n cm eq st wrong seed =
     \<lparr>ag_round = n, ag_seed = seed, ag_order = agree_order W (rv_valid st) seed,
      ag_valid_signers = sort (dkeys (rv_valid st)),
      ag_disputes = \<lparr>dp_rejected = sort (remdups (rv_rejected st)),
        dp_missing = sort (filter (\<lambda>s. s \<notin> set (dkeys (rv_valid st))) (dkeys cm)),
        dp_unsolicited = sort (remdups (rv_unsolicited st)), dp_commit_equivocations = sort (remdups eq),
        dp_wrong_round = sort (remdups wrong)\<rparr>\<rparr>"

lemma agree_round_run:
  assumes "commit_map (this_round (map (read_commit W n) commits)) = (cm, eq)"
  shows "agree_round W commits reveals n =
    bindE (agree_seed W (rv_valid (reveal_run W n cm reveals)) n) (\<lambda>seed. Inr (outcome W n cm eq
      (reveal_run W n cm reveals)
      (other_round (map (read_commit W n) commits) @ other_round (map (read_reveal W n) reveals)) seed))"
  by (simp add: agree_round_def assms Let_def reveal_run_def reveal_start_def outcome_def cong del: bindE_weak_cong)

lemma agree_order_cong:
  "set (dkeys v) = set (dkeys v') \<Longrightarrow> agree_order W v seed = agree_order W v' seed"
  unfolding agree_order_def by (rule arg_cong [OF tidy_cong])

lemma opens_cong: "map_of cm = map_of cm' \<Longrightarrow> opens W n cm = opens W n cm'"
  by (simp add: opens_def fun_eq_iff)

lemma reveal_runs_agree:
  assumes "map_of cm = map_of cm'" "set ps = set ps'" "binding W n ps"
    "st = foldl (add_reveal W n cm) reveal_start ps" "st' = foldl (add_reveal W n cm') reveal_start ps'"
  shows "set (dkeys (rv_valid st)) = set (dkeys (rv_valid st'))"
    "set (rv_unsolicited st) = set (rv_unsolicited st')"
    "agree_seed W (rv_valid st) n = agree_seed W (rv_valid st') n"
proof -
  note v = valid_reveal [OF assms(4)] and v' = valid_reveal [OF assms(5)]
  show k: "set (dkeys (rv_valid st)) = set (dkeys (rv_valid st'))"
    using v(1) v'(1) assms(2) opens_cong [OF assms(1)] by (intro set_eqI) (simp del: set_map)
  show "set (rv_unsolicited st) = set (rv_unsolicited st')"
    using v(3) v'(3) assms(1,2) by simp
  show "agree_seed W (rv_valid st) n = agree_seed W (rv_valid st') n"
  proof (rule agree_seed_cong [OF v(4) v'(4) k])
    fix s a b
    assume "map_of (rv_valid st) s = Some a" "map_of (rv_valid st') s = Some b"
    then obtain r r' where r: "(s, r) \<in> set ps" "opens W n cm (s, r)" "a = reveal_nonce W r"
      "(s, r') \<in> set ps" "opens W n cm (s, r')" "b = reveal_nonce W r'"
      using v(2) v'(2) assms(2) opens_cong [OF assms(1)] by metis
    then obtain d where "verify_reveal W n s d r" "verify_reveal W n s d r'"
      by (auto simp: opens_def split: option.splits)
    with r assms(3) show "unhex a = unhex b" unfolding binding_def by blast
  qed
qed

lemma outcome_cong:
  assumes "set (dkeys (rv_valid st)) = set (dkeys (rv_valid st'))" "distinct (dkeys (rv_valid st))"
    "distinct (dkeys (rv_valid st'))" "set (dkeys cm) = set (dkeys cm')" "distinct (dkeys cm)" "distinct (dkeys cm')"
    "set eq = set eq'" "set (rv_unsolicited st) = set (rv_unsolicited st')" "set wrong = set wrong'"
  shows "outcome W n cm' eq' st' wrong' seed = (outcome W n cm eq st wrong seed)\<lparr>ag_disputes :=
    (ag_disputes (outcome W n cm eq st wrong seed))\<lparr>dp_rejected := sort (remdups (rv_rejected st'))\<rparr>\<rparr>"
proof -
  have "sort (dkeys (rv_valid st')) = sort (dkeys (rv_valid st))"
    using assms(1-3) by (intro sorted_distinct_set_unique) (simp_all del: set_map)
  moreover have "sort (filter (\<lambda>s. s \<notin> set (dkeys (rv_valid st'))) (dkeys cm'))
      = sort (filter (\<lambda>s. s \<notin> set (dkeys (rv_valid st))) (dkeys cm))"
    using assms by (intro sorted_distinct_set_unique) (simp_all del: set_map)
  ultimately show ?thesis
    using agree_order_cong [OF assms(1)] tidy_cong [OF assms(7)] tidy_cong [OF assms(8)] tidy_cong [OF assms(9)]
    by (simp add: outcome_def del: set_map)
qed

lemma agree_round_cong:
  assumes "agree_round W commits reveals n = Inr a" "set commits = set commits'" "set reveals = set reveals'"
    "binding W n (this_round (map (read_reveal W n) reveals))"
  obtains a' where "agree_round W commits' reveals' n = Inr a'"
    "a' = a\<lparr>ag_disputes := (ag_disputes a)\<lparr>dp_rejected := dp_rejected (ag_disputes a')\<rparr>\<rparr>"
proof -
  obtain cm eq where cm: "commit_map (this_round (map (read_commit W n) commits)) = (cm, eq)" by fastforce
  obtain cm' eq' where cm': "commit_map (this_round (map (read_commit W n) commits')) = (cm', eq')" by fastforce
  let ?st = "reveal_run W n cm reveals" and ?st' = "reveal_run W n cm' reveals'"
  note c = commit_map_cong [OF cm cm' round_sets_cong(1) [OF assms(2)]]
  note r = reveal_runs_agree [OF c(2) round_sets_cong(1) [OF assms(3)] assms(4) reveal_run_def reveal_run_def]
  note d = valid_reveal(4) [OF reveal_run_def]
  let ?w = "other_round (map (read_commit W n) commits) @ other_round (map (read_reveal W n) reveals)"
  let ?w' = "other_round (map (read_commit W n) commits') @ other_round (map (read_reveal W n) reveals')"
  have w: "set ?w = set ?w'"
    by (simp add: round_sets_cong(2) [OF assms(2)] round_sets_cong(2) [OF assms(3)] del: set_map)
  obtain seed where seed: "agree_seed W (rv_valid ?st) n = Inr seed" and a: "a = outcome W n cm eq ?st ?w seed"
    using assms(1) unfolding agree_round_run [OF cm] bindE_Inr_iff by blast
  note o = outcome_cong [OF r(1) d d c(3) commit_map_spec(3) [OF cm] commit_map_spec(3) [OF cm'] c(1) r(2) w, of W n seed]
  have "agree_round W commits' reveals' n = Inr (outcome W n cm' eq' ?st' ?w' seed)"
    unfolding agree_round_run [OF cm'] r(3) [symmetric] seed by simp
  then show thesis by (rule that) (simp add: o a)
qed

text \<open>Who takes part in a round.\<close>

lemma participants_exact:
  assumes "agree_round W commits reveals n = Inr a" "cs = this_round (map (read_commit W n) commits)"
    "rs = this_round (map (read_reveal W n) reveals)"
  shows "(s \<in> set (ag_valid_signers a) \<longleftrightarrow> (\<exists>d r. (s, d) \<in> set cs \<and> (\<forall>d'. (s, d') \<in> set cs \<longrightarrow> d' = d)
        \<and> (s, r) \<in> set rs \<and> verify_reveal W n s d r))
    \<and> set (ag_order a) = set (ag_valid_signers a) \<and> distinct (ag_order a)
    \<and> set (dp_commit_equivocations (ag_disputes a))
        = {s. \<exists>d d'. (s, d) \<in> set cs \<and> (s, d') \<in> set cs \<and> d \<noteq> d'}"
proof -
  obtain cm eq where cm: "commit_map cs = (cm, eq)" by fastforce
  let ?st = "reveal_run W n cm reveals"
  obtain wrong seed where a: "a = outcome W n cm eq ?st wrong seed"
    using assms(1) agree_round_run [OF cm [unfolded assms(2)], of reveals] by (auto simp: bindE_Inr_iff)
  note spec = commit_map_spec [OF cm]
  have "s \<in> set (ag_valid_signers a) \<longleftrightarrow> s \<in> set (dkeys (rv_valid ?st))"
    by (simp add: a outcome_def del: set_map)
  also have "\<dots> \<longleftrightarrow> (\<exists>r. (s, r) \<in> set rs \<and> opens W n cm (s, r))"
    using valid_reveal(1) [OF reveal_run_def] assms(3) by simp
  also have "\<dots> \<longleftrightarrow> (\<exists>d r. map_of cm s = Some d \<and> (s, r) \<in> set rs \<and> verify_reveal W n s d r)"
    by (auto simp: opens_def split: option.splits)
  also have "\<dots> \<longleftrightarrow> (\<exists>d r. (s, d) \<in> set cs \<and> (\<forall>d'. (s, d') \<in> set cs \<longrightarrow> d' = d)
        \<and> (s, r) \<in> set rs \<and> verify_reveal W n s d r)"
    unfolding spec(2) spec(1) by blast
  finally show ?thesis
    using spec(1) by (simp add: a outcome_def agree_order_def)
qed

end
