(* ===== verification/Clock_Props.thy ===== *)
theory Clock_Props
  imports Clock_Facts
begin

text \<open>
  The properties of the commit-reveal clock (\<^verbatim>\<open>neurahash/diloco_clock.py\<close>), each with a concrete round that
  meets its hypotheses: one participant \<^verbatim>\<open>s\<close> that commits to the nonce \<^verbatim>\<open>61\<close> in round 1 of the toy world.
\<close>

subsection \<open>A small round\<close>

lemma demo_nonces: "hexE ''61'' = Inr ''a''" "hexE ''62'' = Inr ''b''"
  by code_simp+

definition demo_digest :: "string \<Rightarrow> string" where
  "demo_digest n = (case commit_digest toy_world 1 ''s'' n of Inr d \<Rightarrow> d | Inl _ \<Rightarrow> [])"

lemma demo_lower [simp]: "str_lower ''s'' = ''s''"
  by (simp add: str_lower_def char_lower_def)

lemma demo_digests:
  "commit_digest toy_world 1 ''s'' ''61'' = Inr (demo_digest ''61'')"
  "commit_digest toy_world 1 ''s'' ''62'' = Inr (demo_digest ''62'')" "demo_digest ''61'' \<noteq> demo_digest ''62''"
proof -
  obtain r where r: "roundE 1 = Inr r" by (simp add: roundE_def be8_def)
  show "commit_digest toy_world 1 ''s'' ''61'' = Inr (demo_digest ''61'')"
    "commit_digest toy_world 1 ''s'' ''62'' = Inr (demo_digest ''62'')"
    by (simp_all add: demo_digest_def commit_digest_def r demo_nonces)
  show "demo_digest ''61'' \<noteq> demo_digest ''62''"
    by (simp add: demo_digest_def commit_digest_def r demo_nonces toy_world_def)
qed

definition demo_commit :: json where
  "demo_commit = JObj [(''round'', JInt 1), (''signer'', JStr ''s''), (''digest'', JStr (demo_digest ''61''))]"

definition demo_reveal :: "string \<Rightarrow> json" where
  "demo_reveal n = JObj [(''round'', JInt 1), (''signer'', JStr ''s''), (''nonce'', JStr n)]"

lemma demo_reads:
  "read_commit toy_world 1 demo_commit = ThisRound (''s'', demo_digest ''61'')"
  "read_reveal toy_world 1 (demo_reveal n) = ThisRound (''s'', demo_reveal n)"
  "reveal_nonce toy_world (demo_reveal n) = n"
  by (simp_all add: read_commit_def read_reveal_def demo_commit_def demo_reveal_def int_at_def norm_at_def text_at_def
      reveal_nonce_def)

lemma demo_verifies:
  "verify_reveal toy_world 1 ''s'' d (demo_reveal ''61'') \<longleftrightarrow> d = demo_digest ''61''"
  "verify_reveal toy_world 1 ''s'' d (demo_reveal ''62'') \<longleftrightarrow> d = demo_digest ''62''"
  by (auto simp: verify_reveal_def demo_reveal_def int_at_def norm_at_def text_at_def demo_digests)

lemma demo_commit_map: "commit_map [(''s'', d)] = ([(''s'', d)], [])"
  by (simp add: commit_map_def add_commit_def)

lemma demo_binding: "binding toy_world 1 [(''s'', demo_reveal ''62''), (''s'', demo_reveal ''61'')]"
  using demo_digests(3) by (auto simp: binding_def demo_verifies)

lemma demo_rounds:
  "this_round (map (read_commit toy_world 1) [demo_commit]) = [(''s'', demo_digest ''61'')]"
  "this_round (map (read_reveal toy_world 1) [demo_reveal m, demo_reveal n]) = [(''s'', demo_reveal m), (''s'', demo_reveal n)]"
  by (simp_all add: demo_reads this_round_def List.map_filter_simps)

lemma demo_seed: "\<exists>seed. agree_seed toy_world [(''s'', ''61'')] 1 = Inr seed"
  by (simp add: agree_seed_def roundE_def be8_def demo_nonces)

lemma clock_demo_runs:
  "add_reveal toy_world 1 [(''s'', demo_digest ''61'')] st (''s'', demo_reveal ''61'')
     = (if map_of (rv_valid st) ''s'' \<noteq> None then st else st\<lparr>rv_valid := dset ''s'' ''61'' (rv_valid st)\<rparr>)"
  "add_reveal toy_world 1 [(''s'', demo_digest ''61'')] st (''s'', demo_reveal ''62'')
     = (if map_of (rv_valid st) ''s'' \<noteq> None then st else st\<lparr>rv_rejected := rv_rejected st @ [''s'']\<rparr>)"
  using demo_digests(3) by (auto simp: add_reveal_def demo_verifies demo_reads)

text \<open>The two arrival orders of a wrong and a right reveal.\<close>

lemma demo_agreements:
  obtains a b where
    "agree_round toy_world [demo_commit] [demo_reveal ''62'', demo_reveal ''61''] 1 = Inr a"
    "agree_round toy_world [demo_commit] [demo_reveal ''61'', demo_reveal ''62''] 1 = Inr b"
    "ag_valid_signers a = [''s'']" "dp_rejected (ag_disputes a) = [''s'']" "dp_rejected (ag_disputes b) = []"
proof -
  obtain seed where seed: "agree_seed toy_world [(''s'', ''61'')] 1 = Inr seed" using demo_seed by blast
  note run = agree_round_run [of toy_world 1 "[demo_commit]", unfolded demo_rounds, OF demo_commit_map]
  have 1: "reveal_run toy_world 1 [(''s'', demo_digest ''61'')] [demo_reveal ''62'', demo_reveal ''61'']
      = \<lparr>rv_valid = [(''s'', ''61'')], rv_unsolicited = [], rv_rejected = [''s'']\<rparr>"
    and 2: "reveal_run toy_world 1 [(''s'', demo_digest ''61'')] [demo_reveal ''61'', demo_reveal ''62'']
      = \<lparr>rv_valid = [(''s'', ''61'')], rv_unsolicited = [], rv_rejected = []\<rparr>"
    unfolding reveal_run_def demo_rounds by (simp_all add: clock_demo_runs reveal_start_def)
  let ?w = "other_round (map (read_commit toy_world 1) [demo_commit])"
  have a: "agree_round toy_world [demo_commit] [demo_reveal ''62'', demo_reveal ''61''] 1
      = Inr (outcome toy_world 1 [(''s'', demo_digest ''61'')] []
          \<lparr>rv_valid = [(''s'', ''61'')], rv_unsolicited = [], rv_rejected = [''s'']\<rparr>
          (?w @ other_round (map (read_reveal toy_world 1) [demo_reveal ''62'', demo_reveal ''61''])) seed)"
    unfolding run 1 by (simp only: reveal_state.simps seed bindE_simps)
  have b: "agree_round toy_world [demo_commit] [demo_reveal ''61'', demo_reveal ''62''] 1
      = Inr (outcome toy_world 1 [(''s'', demo_digest ''61'')] []
          \<lparr>rv_valid = [(''s'', ''61'')], rv_unsolicited = [], rv_rejected = []\<rparr>
          (?w @ other_round (map (read_reveal toy_world 1) [demo_reveal ''61'', demo_reveal ''62''])) seed)"
    unfolding run 2 by (simp only: reveal_state.simps seed bindE_simps)
  show thesis by (rule that [OF a b]) (simp_all add: outcome_def)
qed

subsection \<open>The properties\<close>

text \<open>C19: the agreement of a round depends on the sets of commits and reveals that arrived, not on
  their order or repetition: seed, participant order, valid signers, and the missing, unsolicited,
  equivocating and wrong-round signers are the same on every node, as long as no two of the reveals open
  one digest with different nonces. Only the bucket of rejected reveals may differ.\<close>

theorem agreement_ignores_arrival_order:
  assumes "agree_round W commits reveals n = Inr a" "set commits = set commits'" "set reveals = set reveals'"
    "binding W n (this_round (map (read_reveal W n) reveals))"
  shows "\<exists>a'. agree_round W commits' reveals' n = Inr a'
    \<and> a' = a\<lparr>ag_disputes := (ag_disputes a)\<lparr>dp_rejected := dp_rejected (ag_disputes a')\<rparr>\<rparr>"
  by (rule agree_round_cong [OF assms]) blast

theorem agreement_ignores_arrival_order_witness:
  "\<exists>a b. agree_round toy_world [demo_commit] [demo_reveal ''62'', demo_reveal ''61''] 1 = Inr a
     \<and> agree_round toy_world [demo_commit] [demo_reveal ''61'', demo_reveal ''62''] 1 = Inr b \<and> ag_seed a = ag_seed b"
proof -
  obtain a b where a: "agree_round toy_world [demo_commit] [demo_reveal ''62'', demo_reveal ''61''] 1 = Inr a"
    "agree_round toy_world [demo_commit] [demo_reveal ''61'', demo_reveal ''62''] 1 = Inr b" by (rule demo_agreements)
  have s: "set [demo_reveal ''62'', demo_reveal ''61''] = set [demo_reveal ''61'', demo_reveal ''62'']" by auto
  from agreement_ignores_arrival_order [OF a(1) refl s demo_binding [folded demo_rounds(2)]] a
  show ?thesis by (metis agreement.select_convs(2) agreement.surjective agreement.update_convs(5) sum.inject(2))
qed

text \<open>the record of rejected reveals is not deterministic: the same two reveals, a wrong one
  and a right one of the same signer, leave the signer in the bucket or not, depending on which arrived
  first.\<close>

theorem rejected_depends_on_order:
  "\<exists>a b. agree_round toy_world [demo_commit] [demo_reveal ''62'', demo_reveal ''61''] 1 = Inr a
     \<and> agree_round toy_world [demo_commit] [demo_reveal ''61'', demo_reveal ''62''] 1 = Inr b
     \<and> dp_rejected (ag_disputes a) \<noteq> dp_rejected (ag_disputes b)"
  by (rule demo_agreements) auto

text \<open>a signer takes part in the agreed round exactly if all its commits for the round carry one
  digest and one of its reveals opens that digest; the order is a permutation of these signers; signers
  that committed two digests are excluded and reported.\<close>

theorem participants_are_exact:
  assumes "agree_round W commits reveals n = Inr a" "cs = this_round (map (read_commit W n) commits)"
    "rs = this_round (map (read_reveal W n) reveals)"
  shows "(s \<in> set (ag_valid_signers a) \<longleftrightarrow> (\<exists>d r. (s, d) \<in> set cs \<and> (\<forall>d'. (s, d') \<in> set cs \<longrightarrow> d' = d)
        \<and> (s, r) \<in> set rs \<and> verify_reveal W n s d r))
    \<and> set (ag_order a) = set (ag_valid_signers a) \<and> distinct (ag_order a)
    \<and> set (dp_commit_equivocations (ag_disputes a))
        = {s. \<exists>d d'. (s, d) \<in> set cs \<and> (s, d') \<in> set cs \<and> d \<noteq> d'}"
  by (rule participants_exact [OF assms])

theorem participants_are_exact_witness:
  "\<exists>a. agree_round toy_world [demo_commit] [demo_reveal ''62'', demo_reveal ''61''] 1 = Inr a
     \<and> ''s'' \<in> set (ag_order a)"
proof -
  obtain a b where a: "agree_round toy_world [demo_commit] [demo_reveal ''62'', demo_reveal ''61''] 1 = Inr a"
    "ag_valid_signers a = [''s'']" by (rule demo_agreements)
  from participants_are_exact [OF a(1) refl refl] a show ?thesis by auto
qed

text \<open>a clock equivocation is proved only by two signatures of one key over the payloads of one
  round with two different digests; a participant that signs one digest per round cannot be accused.\<close>

theorem clock_equivocation_is_sound:
  assumes "clock_equivocation W x y = ClockEquivocation who"
  shows "\<exists>r s s' d d' sig sig' who'. d \<noteq> d' \<and> recover_bytes W (clock_commit_payload W r s d) sig = Inr who
    \<and> recover_bytes W (clock_commit_payload W r s' d') sig' = Inr who' \<and> str_lower who' = str_lower who"
proof -
  obtain ra rb where v: "verify_clock_commit W x = Some ra" "verify_clock_commit W y = Some rb"
    using assms by (auto simp: clock_equivocation_def split: option.splits)
  then have e: "who = ra" "str_lower ra = str_lower rb" "int_at x ''round'' = int_at y ''round''"
    "text_at W x ''digest'' \<noteq> text_at W y ''digest''"
    using assms by (auto simp: clock_equivocation_def split: if_splits)
  have rec: "\<exists>r s d sig. int_at z ''round'' = Inr r \<and> text_at W z ''digest'' = Inr d
      \<and> recover_bytes W (clock_commit_payload W r s d) sig = Inr rz" if "verify_clock_commit W z = Some rz" for z rz
    using that by (auto simp: verify_clock_commit_def bindE_Inr_iff split: sum.splits json.splits if_splits)
  from rec [OF v(1)] rec [OF v(2)] e show ?thesis by (metis sum.inject(2))
qed

definition demo_signed :: "string \<Rightarrow> json" where
  "demo_signed d = JObj [(''round'', JInt 1), (''signer'', JStr ''s''), (''digest'', JStr d), (''sig'', JStr ''0xs'')]"

lemma demo_signed_verifies: "verify_clock_commit toy_world (demo_signed d) = Some ''s''"
  by (simp add: verify_clock_commit_def demo_signed_def int_at_def text_at_def recover_bytes_def toy_world_def
      hex_sig_def starts_with_def)

theorem clock_equivocation_is_sound_witness:
  "clock_equivocation toy_world (demo_signed ''x'') (demo_signed ''y'') = ClockEquivocation ''s''
   \<and> (\<exists>r s d sig. recover_bytes toy_world (clock_commit_payload toy_world r s d) sig = Inr ''s'')"
proof -
  have e: "clock_equivocation toy_world (demo_signed ''x'') (demo_signed ''y'') = ClockEquivocation ''s''"
    by (simp add: clock_equivocation_def demo_signed_verifies) (simp add: demo_signed_def text_at_def int_at_def)
  from clock_equivocation_is_sound [OF e] e show ?thesis by blast
qed

end
