(* ===== verification/Merge_Arrays.thy ===== *)
theory Merge_Arrays
  imports Prelude
begin

text \<open>
  The numbers and the arrays of the merge path. A held-out loss is whatever the evaluation callback
  returns, so NaN and the infinities have to be told apart here: \<open>xfloat\<close> is a binary64 value with
  its comparisons and arithmetic. Arrays belong to numpy, which is not part of the repository: they
  are values of a type parameter, and the operations the code calls on them are a record that every
  definition takes as its argument. What is assumed of numpy is \<open>numpy_ok\<close>.
\<close>

subsection \<open>Floats with NaN and infinities\<close>

datatype xfloat = XFin rat | PosInf | NegInf | NaN

text \<open>Rounding an exact result to binary64, with overflow to an infinity.\<close>

definition xround :: "rat \<Rightarrow> xfloat" where
  "xround q = (let r = rnd64 q in
     if 2 ^ 1024 \<le> r then PosInf else if r \<le> - (2 ^ 1024) then NegInf else XFin r)"

fun xneg :: "xfloat \<Rightarrow> xfloat" where
  "xneg (XFin q) = XFin (- q)"
| "xneg PosInf = NegInf"
| "xneg NegInf = PosInf"
| "xneg NaN = NaN"

fun xadd :: "xfloat \<Rightarrow> xfloat \<Rightarrow> xfloat" where
  "xadd (XFin p) (XFin q) = xround (p + q)"
| "xadd NaN y = NaN"
| "xadd x NaN = NaN"
| "xadd PosInf NegInf = NaN"
| "xadd NegInf PosInf = NaN"
| "xadd PosInf y = PosInf"
| "xadd NegInf y = NegInf"
| "xadd (XFin p) y = y"

definition xsub :: "xfloat \<Rightarrow> xfloat \<Rightarrow> xfloat" where
  "xsub x y = xadd x (xneg y)"

definition xsign :: "rat \<Rightarrow> xfloat" where
  "xsign q = (if 0 < q then PosInf else if q < 0 then NegInf else NaN)"

fun xmul :: "xfloat \<Rightarrow> xfloat \<Rightarrow> xfloat" where
  "xmul (XFin p) (XFin q) = xround (p * q)"
| "xmul NaN y = NaN"
| "xmul x NaN = NaN"
| "xmul (XFin p) PosInf = xsign p"
| "xmul (XFin p) NegInf = xneg (xsign p)"
| "xmul PosInf (XFin q) = xsign q"
| "xmul NegInf (XFin q) = xneg (xsign q)"
| "xmul PosInf y = y"
| "xmul NegInf y = xneg y"

text \<open>Division by a divisor that is not zero; Python raises on zero, and the code divides only after
  checking.\<close>

fun xdiv :: "xfloat \<Rightarrow> xfloat \<Rightarrow> xfloat" where
  "xdiv (XFin p) (XFin q) = xround (p / q)"
| "xdiv NaN y = NaN"
| "xdiv x NaN = NaN"
| "xdiv (XFin p) y = XFin 0"
| "xdiv PosInf (XFin q) = xsign q"
| "xdiv NegInf (XFin q) = xneg (xsign q)"
| "xdiv x y = NaN"

fun xless :: "xfloat \<Rightarrow> xfloat \<Rightarrow> bool" where
  "xless (XFin p) (XFin q) = (p < q)"
| "xless (XFin p) PosInf = True"
| "xless NegInf (XFin q) = True"
| "xless NegInf PosInf = True"
| "xless x y = False"

fun xle :: "xfloat \<Rightarrow> xfloat \<Rightarrow> bool" where
  "xle (XFin p) (XFin q) = (p \<le> q)"
| "xle (XFin p) PosInf = True"
| "xle NegInf (XFin q) = True"
| "xle NegInf PosInf = True"
| "xle PosInf PosInf = True"
| "xle NegInf NegInf = True"
| "xle x y = False"

text \<open>\<^verbatim>\<open>max(0.0, x)\<close> keeps its first argument unless the second is larger.\<close>

definition xmax0 :: "xfloat \<Rightarrow> xfloat" where
  "xmax0 x = (if xless (XFin 0) x then x else XFin 0)"

text \<open>The order in which \<^verbatim>\<open>sorted\<close> puts the negated gains of a batch; only positive gains are sorted,
  and a positive gain is no NaN.\<close>

fun descending :: "xfloat \<Rightarrow> nat \<times> rat" where
  "descending PosInf = (0, 0)"
| "descending (XFin q) = (1, - q)"
| "descending _ = (2, 0)"

lemma xless_irrefl [simp]: "\<not> xless x x"
  by (cases x) auto

lemma xless_imp_xle: "xless x y \<Longrightarrow> xle x y"
  by (cases x; cases y) auto

lemma xle_trans: "xle x y \<Longrightarrow> xle y z \<Longrightarrow> xle x z"
  by (cases x; cases y; cases z) auto

lemma xless_xle_trans: "xless x y \<Longrightarrow> xle y z \<Longrightarrow> xless x z"
  by (cases x; cases y; cases z) auto

lemma xle_xless_trans: "xle x y \<Longrightarrow> xless y z \<Longrightarrow> xless x z"
  by (cases x; cases y; cases z) auto

lemma xle_refl_iff [simp]: "xle x x \<longleftrightarrow> x \<noteq> NaN"
  by (cases x) auto

lemma xle_not_NaN: "xle x y \<Longrightarrow> x \<noteq> NaN \<and> y \<noteq> NaN"
  by (cases x; cases y) auto

lemma xless_NaN [simp]: "xless NaN x = False" "xless x NaN = False"
  by (cases x; simp)+

lemma xmax0_nonneg: "xle (XFin 0) (xmax0 x)"
  by (auto simp: xmax0_def intro: xless_imp_xle)

text \<open>A float value: a result of rounding, so rounding it again changes nothing.\<close>

definition xf64 :: "xfloat \<Rightarrow> bool" where
  "xf64 x = (case x of XFin q \<Rightarrow> is_f64 q \<and> \<bar>q\<bar> < 2 ^ 1024 | _ \<Rightarrow> True)"

lemma xround_f64: "xf64 (XFin q) \<Longrightarrow> xround q = XFin q"
  by (auto simp: xf64_def is_f64_def xround_def Let_def)

lemma xround_small: "is_f64 q \<Longrightarrow> \<bar>q\<bar> \<le> 2 ^ 53 \<Longrightarrow> xround q = XFin q"
proof (rule xround_f64)
  assume "is_f64 q" "\<bar>q\<bar> \<le> 2 ^ 53"
  moreover have "(2::rat) ^ 53 < 2 ^ 1024" by (rule power_strict_increasing) simp_all
  ultimately show "xf64 (XFin q)" unfolding xf64_def xfloat.case by linarith
qed

lemma xround_int:
  assumes "\<bar>n\<bar> \<le> 2 ^ 53"
  shows "xround (of_int n) = XFin (of_int n)"
proof (rule xround_small)
  show "is_f64 (of_int n)" unfolding is_f64_def by (rule rnd64_of_int [OF assms])
  have "(of_int \<bar>n\<bar> :: rat) \<le> of_int (2 ^ 53)" using assms by (simp only: of_int_le_iff)
  then show "\<bar>of_int n :: rat\<bar> \<le> 2 ^ 53" by simp
qed

lemma xround_unit [simp]: "xround 0 = XFin 0" "xround 1 = XFin 1" "xround (- 1) = XFin (- 1)" "xround 2 = XFin 2"
  using xround_int [of 0] xround_int [of 1] xround_int [of "-1"] xround_int [of 2] by simp_all

lemma xround_mono: "p \<le> q \<Longrightarrow> xle (xround p) (xround q)"
  using rnd64_mono [of p q] by (auto simp: xround_def Let_def)

text \<open>Subtracting a margin that is not negative does not raise a float.\<close>

lemma xsub_le:
  assumes "xf64 x" "0 \<le> m" "x \<noteq> NaN"
  shows "xle (xsub x (XFin m)) x"
proof (cases x)
  case (XFin q)
  have "xle (xround (q - m)) (xround q)" using assms by (intro xround_mono) simp
  with XFin assms show ?thesis by (simp add: xsub_def xround_f64)
qed (use assms in \<open>simp_all add: xsub_def\<close>)

subsection \<open>Arrays\<close>

text \<open>
  \<open>'a\<close> is an array, \<open>'e\<close> an element of one. In the order of the fields: \<^verbatim>\<open>np.shape(x)\<close>;
  \<^verbatim>\<open>np.asarray(x).reshape(-1)\<close>, the elements in flat order; the array of given elements and
  shape; the float64 zero; \<^verbatim>\<open>g + c * d\<close>; \<^verbatim>\<open>float((d ** 2).sum())\<close>; \<^verbatim>\<open>float(np.sqrt(x))\<close>;
  \<^verbatim>\<open>np.zeros(shape)\<close>; \<^verbatim>\<open>acc + w * d.astype(float64)\<close>;
  \<^verbatim>\<open>(g.astype(float64) + float(outer) * acc).astype(float32)\<close>; \<^verbatim>\<open>np.mean(arrays, axis=0)\<close>;
  \<^verbatim>\<open>np.zeros_like(x)\<close>; \<^verbatim>\<open>beta * m + avg\<close>; \<^verbatim>\<open>np.where(mask, x, y)\<close> with the mask's flat selection;
  \<^verbatim>\<open>np.ascontiguousarray(x, dtype=float32).tobytes()\<close>; and \<^verbatim>\<open>str(x.shape)\<close>.
\<close>

record ('a, 'e) numpy =
  np_shape :: "'a \<Rightarrow> nat list"
  np_flat :: "'a \<Rightarrow> 'e list"
  np_array :: "'e list \<Rightarrow> nat list \<Rightarrow> 'a"
  np_zero :: 'e
  np_step :: "'a \<Rightarrow> rat \<Rightarrow> 'a \<Rightarrow> 'a"
  np_square_sum :: "'a \<Rightarrow> xfloat"
  np_sqrt :: "xfloat \<Rightarrow> xfloat"
  np_zeros64 :: "nat list \<Rightarrow> 'a"
  np_weigh64 :: "'a \<Rightarrow> xfloat \<Rightarrow> 'a \<Rightarrow> 'a"
  np_merge32 :: "'a \<Rightarrow> rat \<Rightarrow> 'a \<Rightarrow> 'a"
  np_mean :: "'a list \<Rightarrow> 'a"
  np_zeros_like :: "'a \<Rightarrow> 'a"
  np_momentum :: "rat \<Rightarrow> 'a \<Rightarrow> 'a \<Rightarrow> 'a"
  np_where :: "bool list \<Rightarrow> 'a \<Rightarrow> 'a \<Rightarrow> 'a"
  np_bytes32 :: "'a \<Rightarrow> string"
  np_shape_text :: "nat list \<Rightarrow> string"

text \<open>A trunk, an expert or a delta: named arrays.\<close>

type_synonym 'a params = "(string, 'a) pydict"

text \<open>
  What the proofs use of numpy: the elements and the shape of an array built from elements are those
  it was built from, an array is determined by both, the elementwise operations on arrays of one shape
  give an array of that shape, and a selection takes each element of the result from one or the other
  array.
\<close>

definition np_like :: "('a, 'e) numpy \<Rightarrow> 'a \<Rightarrow> 'a \<Rightarrow> bool" where
  "np_like N x y \<longleftrightarrow> np_shape N x = np_shape N y \<and> length (np_flat N x) = length (np_flat N y)"

definition numpy_ok :: "('a, 'e) numpy \<Rightarrow> bool" where
  "numpy_ok N \<longleftrightarrow>
     (\<forall>xs s. length xs = prod_list s \<longrightarrow> np_flat N (np_array N xs s) = xs \<and> np_shape N (np_array N xs s) = s)
   \<and> (\<forall>x. np_array N (np_flat N x) (np_shape N x) = x)
   \<and> (\<forall>g c d. np_like N g d \<longrightarrow> np_like N (np_step N g c d) g)
   \<and> (\<forall>b m a. np_like N m a \<longrightarrow> np_like N (np_momentum N b m a) m)
   \<and> (\<forall>x. np_like N (np_zeros_like N x) x)
   \<and> (\<forall>xs y. xs \<noteq> [] \<longrightarrow> (\<forall>x \<in> set xs. np_like N x y) \<longrightarrow> np_like N (np_mean N xs) y)
   \<and> (\<forall>b x y. np_like N x y \<longrightarrow> length b = length (np_flat N x) \<longrightarrow>
        np_flat N (np_where N b x y)
          = map (\<lambda>(c, u, v). if c then u else v) (zip b (zip (np_flat N x) (np_flat N y)))
        \<and> np_shape N (np_where N b x y) = np_shape N x)"

text \<open>Arrays of exact rationals, for examples.\<close>

definition toy_numpy :: "(nat list \<times> rat list, rat) numpy" where
  "toy_numpy = \<lparr>np_shape = fst, np_flat = snd, np_array = (\<lambda>xs s. (s, xs)), np_zero = 0,
     np_step = (\<lambda>g c d. (fst g, map2 (\<lambda>x y. x + c * y) (snd g) (snd d))),
     np_square_sum = (\<lambda>d. XFin (sum_list (map (\<lambda>x. x * x) (snd d)))), np_sqrt = (\<lambda>x. x),
     np_zeros64 = (\<lambda>s. (s, replicate (prod_list s) 0)),
     np_weigh64 = (\<lambda>a w d. case w of XFin q \<Rightarrow> (fst a, map2 (\<lambda>x y. x + q * y) (snd a) (snd d)) | _ \<Rightarrow> a),
     np_merge32 = (\<lambda>g c a. (fst g, map2 (\<lambda>x y. x + c * y) (snd g) (snd a))),
     np_mean = (\<lambda>xs. hd xs), np_zeros_like = (\<lambda>x. (fst x, map (\<lambda>_. 0) (snd x))),
     np_momentum = (\<lambda>b m a. (fst m, map2 (\<lambda>x y. b * x + y) (snd m) (snd a))),
     np_where = (\<lambda>b x y. (fst x, map (\<lambda>(c, u, v). if c then u else v) (zip b (zip (snd x) (snd y))))),
     np_bytes32 = (\<lambda>x. []), np_shape_text = (\<lambda>s. [])\<rparr>"

lemma toy_numpy_ok: "numpy_ok toy_numpy"
  by (simp add: numpy_ok_def toy_numpy_def np_like_def)

end
