(* ===== verification/Merge_Gate.thy ===== *)
theory Merge_Gate
  imports Merge_Arrays
begin

text \<open>
  The merge gate of \<^verbatim>\<open>neurahash/diloco_merge.py\<close>: one contributed delta against the held-out loss
  (\<^verbatim>\<open>apply_delta_gated\<close>), the grace window that gathers a batch (\<^verbatim>\<open>gather_batch\<close>), the batched
  gain-weighted merge with its serial fallback (\<^verbatim>\<open>apply_deltas_weighted_gated\<close>) and the goodput
  counters. The trunk is a dictionary of arrays that is mutated in place: every definition returns
  the trunk as it is afterwards. The evaluation callback is a parameter, a total function from a
  trunk to a float; where it raises, the round is aborted by the caller and nothing here applies.
\<close>

subsection \<open>One delta\<close>

record gate_verdict =
  gv_accepted :: bool
  gv_keys_matched :: nat
  gv_keys_missing :: nat
  gv_base_val :: "xfloat option"
  gv_merged_val :: "xfloat option"
  gv_delta_norm :: "xfloat option"
  gv_reason :: "string option"

definition matched_keys :: "('a, 'e) numpy \<Rightarrow> 'a params \<Rightarrow> 'a params \<Rightarrow> string list" where
  "matched_keys N trunk delta = filter (\<lambda>k.
     case (map_of trunk k, map_of delta k) of
       (Some g, Some d) \<Rightarrow> np_shape N g = np_shape N d
     | _ \<Rightarrow> False) (dkeys trunk)"

text \<open>\<^verbatim>\<open>for k in keys: merged[k] = trunk[k] + outer * delta[k]\<close>, reading from the unchanged trunk.\<close>

definition step_keys :: "('a, 'e) numpy \<Rightarrow> rat \<Rightarrow> 'a params \<Rightarrow> string list \<Rightarrow> 'a params \<Rightarrow> 'a params" where
  "step_keys N outer delta keys trunk = foldl (\<lambda>m k.
     case (map_of trunk k, map_of delta k) of
       (Some g, Some d) \<Rightarrow> dset k (np_step N g outer d) m
     | _ \<Rightarrow> m) trunk keys"

text \<open>The sum of the squared norms starts at the integer 0 and is folded in key order.\<close>

definition delta_norm :: "('a, 'e) numpy \<Rightarrow> 'a params \<Rightarrow> string list \<Rightarrow> xfloat" where
  "delta_norm N delta keys = np_sqrt N (foldl (\<lambda>s k.
     case map_of delta k of Some d \<Rightarrow> xadd s (np_square_sum N d) | None \<Rightarrow> s) (XFin 0) keys)"

definition apply_delta_gated ::
  "('a, 'e) numpy \<Rightarrow> ('a params \<Rightarrow> xfloat) \<Rightarrow> rat \<Rightarrow> rat \<Rightarrow> bool \<Rightarrow> 'a params \<Rightarrow> 'a params
     \<Rightarrow> gate_verdict \<times> 'a params" where
  "apply_delta_gated N ev outer margin do_apply trunk delta =
     (let keys = matched_keys N trunk delta;
          missing = filter (\<lambda>k. k \<notin> set keys) (dkeys trunk);
          verdict = \<lparr>gv_accepted = False, gv_keys_matched = length keys, gv_keys_missing = length missing,
                     gv_base_val = None, gv_merged_val = None, gv_delta_norm = None, gv_reason = None\<rparr>
      in if keys = [] then (verdict\<lparr>gv_reason := Some ''no matching trunk keys''\<rparr>, trunk)
         else
           (let base_val = ev trunk;
                merged = step_keys N outer delta keys trunk;
                merged_val = ev merged;
                accepted = xless merged_val (xsub base_val (XFin margin));
                verdict = verdict\<lparr>gv_base_val := Some base_val, gv_merged_val := Some merged_val,
                            gv_delta_norm := Some (delta_norm N delta keys), gv_accepted := accepted\<rparr>
            in (verdict, if accepted \<and> do_apply then step_keys N outer delta keys trunk else trunk)))"

subsection \<open>The grace window\<close>

text \<open>\<open>pending\<close> is the queue, oldest first, each with the time at which it arrived.\<close>

definition gather_batch ::
  "('r \<times> 'd \<times> rat) list \<Rightarrow> rat \<Rightarrow> rat \<Rightarrow> rat \<Rightarrow> int \<Rightarrow> ('r \<times> 'd \<times> rat) list \<times> bool" where
  "gather_batch pending now grace_s grace_max_s batch_max =
     (if pending = [] then ([], False)
      else (let arrivals = map (\<lambda>(r, d, ts). ts) pending;
                newest = Max (set arrivals); oldest = Min (set arrivals)
            in if 0 < grace_s \<and> fsub now newest < grace_s \<and> fsub now oldest < grace_max_s then ([], True)
               else (let n = (if 0 < batch_max then nat batch_max else length pending)
                     in (take n pending, False))))"

subsection \<open>A batch\<close>

type_synonym record_dict = "(string, json) pydict"

record candidate_verdict =
  cv_rec :: record_dict
  cv_gain :: xfloat
  cv_weight :: xfloat
  cv_accepted :: bool
  cv_keys_matched :: nat
  cv_delta_norm :: "xfloat option"

datatype batch_mode = Combined | SerialFallback | AllRejected

record batch_result =
  br_mode :: batch_mode
  br_accepted :: bool
  br_base_val :: "xfloat option"
  br_merged_val :: "xfloat option"
  br_per_candidate :: "candidate_verdict list"
  br_applied_order :: "string list"

record 'a probe_result =
  pr_idx :: nat
  pr_rec :: record_dict
  pr_delta :: "'a params"
  pr_gain :: xfloat
  pr_keys :: "string list"
  pr_verdict :: gate_verdict

definition cid_text :: "world \<Rightarrow> record_dict \<Rightarrow> string" where
  "cid_text W r = (case map_of r ''delta_cid'' of None \<Rightarrow> [] | Some j \<Rightarrow> str_of W j)"

definition probe_candidate ::
  "('a, 'e) numpy \<Rightarrow> ('a params \<Rightarrow> xfloat) \<Rightarrow> rat \<Rightarrow> rat \<Rightarrow> 'a params \<Rightarrow> nat \<times> record_dict \<times> 'a params
     \<Rightarrow> 'a probe_result" where
  "probe_candidate N ev outer margin trunk c = (case c of (idx, r, delta) \<Rightarrow>
     (let pv = fst (apply_delta_gated N ev outer margin False trunk delta)
      in \<lparr>pr_idx = idx, pr_rec = r, pr_delta = delta,
          pr_gain = (case gv_merged_val pv of Some m \<Rightarrow> xsub (ev trunk) m | None \<Rightarrow> XFin 0),
          pr_keys = matched_keys N trunk delta, pr_verdict = pv\<rparr>))"

definition candidate_row :: "'a probe_result \<Rightarrow> xfloat \<Rightarrow> xfloat \<Rightarrow> bool \<Rightarrow> candidate_verdict" where
  "candidate_row p gain weight accepted =
     \<lparr>cv_rec = pr_rec p, cv_gain = gain, cv_weight = weight, cv_accepted = accepted,
      cv_keys_matched = gv_keys_matched (pr_verdict p), cv_delta_norm = gv_delta_norm (pr_verdict p)\<rparr>"

definition blank_row :: "'a probe_result \<Rightarrow> candidate_verdict" where
  "blank_row p = candidate_row p (XFin 0) (XFin 0) False"

definition gain_sum :: "'a probe_result list \<Rightarrow> xfloat" where
  "gain_sum ps = foldl (\<lambda>s p. xadd s (pr_gain p)) (XFin 0) ps"

definition gain_weight :: "xfloat \<Rightarrow> 'a probe_result \<Rightarrow> xfloat" where
  "gain_weight gsum p = xdiv (pr_gain p) gsum"

text \<open>\<^verbatim>\<open>acc64\<close>: the float64 accumulators, a key entering with the first candidate that carries it.\<close>

definition accumulate_key ::
  "('a, 'e) numpy \<Rightarrow> 'a params \<Rightarrow> xfloat \<Rightarrow> 'a params \<Rightarrow> 'a params \<Rightarrow> string \<Rightarrow> 'a params" where
  "accumulate_key N trunk w delta acc k =
     (case (map_of trunk k, map_of delta k) of
        (Some g, Some d) \<Rightarrow>
          (let a = (case map_of acc k of Some a \<Rightarrow> a | None \<Rightarrow> np_zeros64 N (np_shape N g))
           in dset k (np_weigh64 N a w d) acc)
      | _ \<Rightarrow> acc)"

definition accumulate :: "('a, 'e) numpy \<Rightarrow> 'a params \<Rightarrow> xfloat \<Rightarrow> 'a probe_result list \<Rightarrow> 'a params" where
  "accumulate N trunk gsum ps =
     foldl (\<lambda>acc p. foldl (accumulate_key N trunk (gain_weight gsum p) (pr_delta p)) acc (pr_keys p)) [] ps"

definition combine :: "('a, 'e) numpy \<Rightarrow> rat \<Rightarrow> 'a params \<Rightarrow> 'a params \<Rightarrow> 'a params" where
  "combine N outer trunk acc = foldl (\<lambda>m (k, a).
     case map_of trunk k of Some g \<Rightarrow> dset k (np_merge32 N g outer a) m | None \<Rightarrow> m) trunk acc"

text \<open>The fallback applies the positive candidates one by one, the largest gain first.\<close>

definition fallback_order :: "world \<Rightarrow> 'a probe_result list \<Rightarrow> 'a probe_result list" where
  "fallback_order W ps = sort_key (\<lambda>p. (descending (pr_gain p), cid_text W (pr_rec p))) ps"

record 'a serial_state =
  ss_work :: "'a params"
  ss_running :: xfloat
  ss_rows :: "(nat, xfloat \<times> bool) pydict"

definition serial_step ::
  "('a, 'e) numpy \<Rightarrow> ('a params \<Rightarrow> xfloat) \<Rightarrow> rat \<Rightarrow> rat \<Rightarrow> 'a serial_state \<Rightarrow> 'a probe_result
     \<Rightarrow> 'a serial_state" where
  "serial_step N ev outer margin s p =
     (case apply_delta_gated N ev outer margin True (ss_work s) (pr_delta p) of (sv, work) \<Rightarrow>
        (case (gv_accepted sv, gv_merged_val sv) of
           (True, Some m) \<Rightarrow> \<lparr>ss_work = work, ss_running = m,
             ss_rows = dset (pr_idx p) (xsub (ss_running s) m, True) (ss_rows s)\<rparr>
         | _ \<Rightarrow> s\<lparr>ss_work := work, ss_rows := dset (pr_idx p) (XFin 0, False) (ss_rows s)\<rparr>))"

definition single_result ::
  "('a, 'e) numpy \<Rightarrow> ('a params \<Rightarrow> xfloat) \<Rightarrow> rat \<Rightarrow> rat \<Rightarrow> bool \<Rightarrow> 'a params \<Rightarrow> record_dict \<Rightarrow> 'a params
     \<Rightarrow> batch_result \<times> 'a params" where
  "single_result N ev outer margin do_apply trunk r delta =
     (case apply_delta_gated N ev outer margin do_apply trunk delta of (v, trunk') \<Rightarrow>
        (let gain = (case (gv_accepted v, gv_base_val v, gv_merged_val v) of
               (True, Some b, Some m) \<Rightarrow> xsub b m | _ \<Rightarrow> XFin 0)
         in (\<lparr>br_mode = (if gv_accepted v then Combined else AllRejected), br_accepted = gv_accepted v,
              br_base_val = gv_base_val v, br_merged_val = gv_merged_val v,
              br_per_candidate = [\<lparr>cv_rec = r, cv_gain = gain,
                 cv_weight = (if gv_accepted v then XFin 1 else XFin 0), cv_accepted = gv_accepted v,
                 cv_keys_matched = gv_keys_matched v, cv_delta_norm = gv_delta_norm v\<rparr>],
              br_applied_order = []\<rparr>, trunk')))"

definition combined_rows ::
  "xfloat \<Rightarrow> xfloat \<Rightarrow> xfloat \<Rightarrow> 'a probe_result list \<Rightarrow> candidate_verdict list" where
  "combined_rows base_val combined_val gsum probes = map (\<lambda>p.
     if xless (XFin 0) (pr_gain p)
     then candidate_row p (xmul (xsub base_val combined_val) (gain_weight gsum p)) (gain_weight gsum p) True
     else blank_row p) probes"

definition serial_rows ::
  "xfloat \<Rightarrow> (nat, xfloat \<times> bool) pydict \<Rightarrow> 'a probe_result list \<Rightarrow> candidate_verdict list" where
  "serial_rows gsum rows probes = map (\<lambda>p.
     case map_of rows (pr_idx p) of
       Some (g, ok) \<Rightarrow> candidate_row p g (gain_weight gsum p) ok
     | None \<Rightarrow> blank_row p) probes"

definition apply_deltas_weighted_gated ::
  "world \<Rightarrow> ('a, 'e) numpy \<Rightarrow> ('a params \<Rightarrow> xfloat) \<Rightarrow> rat \<Rightarrow> rat \<Rightarrow> bool \<Rightarrow> 'a params
     \<Rightarrow> (record_dict \<times> 'a params) list \<Rightarrow> batch_result \<times> 'a params" where
  "apply_deltas_weighted_gated W N ev outer margin do_apply trunk candidates =
     (case candidates of
        [(r, delta)] \<Rightarrow> single_result N ev outer margin do_apply trunk r delta
      | _ \<Rightarrow>
        (let base_val = ev trunk;
             probes = map (probe_candidate N ev outer margin trunk) (enumerate 0 candidates);
             positives = filter (\<lambda>p. xless (XFin 0) (pr_gain p)) probes
         in if positives = [] then
              (\<lparr>br_mode = AllRejected, br_accepted = False, br_base_val = Some base_val,
                br_merged_val = Some base_val, br_per_candidate = map blank_row probes,
                br_applied_order = []\<rparr>, trunk)
            else
              (let gsum = gain_sum positives;
                   combined = combine N outer trunk (accumulate N trunk gsum positives);
                   combined_val = ev combined
               in if xle combined_val (xsub base_val (XFin margin)) then
                    (\<lparr>br_mode = Combined, br_accepted = True, br_base_val = Some base_val,
                      br_merged_val = Some combined_val,
                      br_per_candidate = combined_rows base_val combined_val gsum probes,
                      br_applied_order = []\<rparr>, if do_apply then combined else trunk)
                  else
                    (let order = fallback_order W positives;
                         s = foldl (serial_step N ev outer margin)
                               \<lparr>ss_work = trunk, ss_running = base_val, ss_rows = []\<rparr> order
                     in (\<lparr>br_mode = SerialFallback,
                          br_accepted = list_ex (\<lambda>(g, ok). ok) (dvalues (ss_rows s)),
                          br_base_val = Some base_val, br_merged_val = Some (ss_running s),
                          br_per_candidate = serial_rows gsum (ss_rows s) probes,
                          br_applied_order = map (\<lambda>p. cid_text W (pr_rec p)) order\<rparr>,
                         if do_apply then ss_work s else trunk)))))"

subsection \<open>Goodput\<close>

record goodput =
  gp_processed :: int
  gp_accepted :: int
  gp_rejected_gate :: int
  gp_vetoed :: int
  gp_corpus_dropped :: int
  gp_batches :: int
  gp_batch_combined :: int
  gp_batch_serial_fallback :: int
  gp_batch_all_rejected :: int
  gp_batch_deferrals :: int
  gp_batch_candidates :: int
  gp_staled :: int

definition goodput_counters :: goodput where
  "goodput_counters = \<lparr>gp_processed = 0, gp_accepted = 0, gp_rejected_gate = 0, gp_vetoed = 0,
     gp_corpus_dropped = 0, gp_batches = 0, gp_batch_combined = 0, gp_batch_serial_fallback = 0,
     gp_batch_all_rejected = 0, gp_batch_deferrals = 0, gp_batch_candidates = 0, gp_staled = 0\<rparr>"

text \<open>\<^verbatim>\<open>round(x, 4)\<close> is correctly rounded from the exact value of the float, half to even on decimals.\<close>

definition round_dec :: "nat \<Rightarrow> rat \<Rightarrow> rat" where
  "round_dec n x = rnd64 (of_int (round_half_even (x * 10 ^ n)) / 10 ^ n)"

definition goodput_summary :: "goodput \<Rightarrow> rat option \<times> goodput" where
  "goodput_summary c =
     (if gp_processed c \<noteq> 0
      then Some (round_dec 4 (rnd64 (of_int (gp_accepted c) / of_int (gp_processed c)))) else None, c)"

definition count_candidate :: "goodput \<Rightarrow> candidate_verdict \<Rightarrow> goodput" where
  "count_candidate c v =
     (let c = c\<lparr>gp_processed := gp_processed c + 1\<rparr>
      in if cv_accepted v then c\<lparr>gp_accepted := gp_accepted c + 1\<rparr>
         else c\<lparr>gp_rejected_gate := gp_rejected_gate c + 1\<rparr>)"

definition count_batch_result :: "goodput \<Rightarrow> batch_result \<Rightarrow> goodput" where
  "count_batch_result c res =
     (let c = c\<lparr>gp_batches := gp_batches c + 1,
                gp_batch_candidates := gp_batch_candidates c + int (length (br_per_candidate res))\<rparr>;
          c = (case br_mode res of
                 Combined \<Rightarrow> c\<lparr>gp_batch_combined := gp_batch_combined c + 1\<rparr>
               | SerialFallback \<Rightarrow> c\<lparr>gp_batch_serial_fallback := gp_batch_serial_fallback c + 1\<rparr>
               | AllRejected \<Rightarrow> c\<lparr>gp_batch_all_rejected := gp_batch_all_rejected c + 1\<rparr>)
      in foldl count_candidate c (br_per_candidate res))"

end
