(* ===== verification/Merge_Facts.thy ===== *)
theory Merge_Facts
  imports Merge_Gate
begin

text \<open>
  What the merge gate guarantees. The gate is one instance of a general contract: a step that either
  leaves the trunk alone or improves the held-out loss by more than the margin. Runs of such steps
  never worsen the loss; the serial fallback of a batch is a run of gates.
\<close>

named_theorems merge_defs

lemmas [merge_defs] = apply_delta_gated_def Let_def

subsection \<open>One delta\<close>

lemma gate_cases:
  obtains
    (unmatched) "matched_keys N trunk delta = []"
      "gv_accepted (fst (apply_delta_gated N ev outer margin b trunk delta)) = False"
      "gv_merged_val (fst (apply_delta_gated N ev outer margin b trunk delta)) = None"
      "snd (apply_delta_gated N ev outer margin b trunk delta) = trunk"
  | (judged) m where "matched_keys N trunk delta \<noteq> []"
      "m = step_keys N outer delta (matched_keys N trunk delta) trunk"
      "gv_accepted (fst (apply_delta_gated N ev outer margin b trunk delta))
         = xless (ev m) (xsub (ev trunk) (XFin margin))"
      "gv_merged_val (fst (apply_delta_gated N ev outer margin b trunk delta)) = Some (ev m)"
      "gv_base_val (fst (apply_delta_gated N ev outer margin b trunk delta)) = Some (ev trunk)"
      "snd (apply_delta_gated N ev outer margin b trunk delta)
         = (if xless (ev m) (xsub (ev trunk) (XFin margin)) \<and> b then m else trunk)"
proof (cases "matched_keys N trunk delta = []")
  case True
  then show ?thesis by (intro unmatched) (simp_all add: merge_defs)
next
  case False
  then show ?thesis by (intro judged [OF False refl]) (simp_all add: merge_defs)
qed

lemma gate_verdict_apply_indep:
  "fst (apply_delta_gated N ev outer margin b trunk delta) = fst (apply_delta_gated N ev outer margin b' trunk delta)"
  by (simp add: merge_defs)

lemma gate_not_applied: "snd (apply_delta_gated N ev outer margin False trunk delta) = trunk"
  by (simp add: merge_defs)

lemma gate_rejected:
  "\<not> gv_accepted (fst (apply_delta_gated N ev outer margin b trunk delta))
    \<Longrightarrow> snd (apply_delta_gated N ev outer margin b trunk delta) = trunk"
  by (cases rule: gate_cases [of N trunk delta ev outer margin b]) auto

lemma gate_accepted:
  assumes "gv_accepted (fst (apply_delta_gated N ev outer margin True trunk delta))"
  shows "gv_merged_val (fst (apply_delta_gated N ev outer margin True trunk delta))
           = Some (ev (snd (apply_delta_gated N ev outer margin True trunk delta)))"
    and "gv_base_val (fst (apply_delta_gated N ev outer margin True trunk delta)) = Some (ev trunk)"
    and "xless (ev (snd (apply_delta_gated N ev outer margin True trunk delta))) (xsub (ev trunk) (XFin margin))"
  by (use assms in \<open>cases rule: gate_cases [of N trunk delta ev outer margin True]; force\<close>)+

text \<open>The gate moves the matched arrays only: names, order and every other array stay.\<close>

lemma step_keys_fold:
  assumes "set keys \<subseteq> set (dkeys trunk)" "dkeys m = dkeys trunk"
  shows "dkeys (foldl (\<lambda>m k. case (map_of trunk k, map_of delta k) of
       (Some g, Some d) \<Rightarrow> dset k (np_step N g outer d) m | _ \<Rightarrow> m) m keys) = dkeys trunk
    \<and> map_of (foldl (\<lambda>m k. case (map_of trunk k, map_of delta k) of
       (Some g, Some d) \<Rightarrow> dset k (np_step N g outer d) m | _ \<Rightarrow> m) m keys) x
      = (case (map_of trunk x, map_of delta x) of
           (Some g, Some d) \<Rightarrow> if x \<in> set keys then Some (np_step N g outer d) else map_of m x
         | _ \<Rightarrow> map_of m x)"
  using assms
proof (induction keys arbitrary: m)
  case Nil
  then show ?case by (simp split: option.splits)
next
  case (Cons k keys)
  let ?m = "case (map_of trunk k, map_of delta k) of
       (Some g, Some d) \<Rightarrow> dset k (np_step N g outer d) m | _ \<Rightarrow> m"
  have keys: "dkeys ?m = dkeys trunk"
    using Cons.prems by (auto simp: update_keys split: option.splits)
  have "set keys \<subseteq> set (dkeys trunk)" using Cons.prems by simp
  note IH = Cons.IH [OF this keys]
  show ?case
  proof (intro conjI)
    show "dkeys (foldl (\<lambda>m k. case (map_of trunk k, map_of delta k) of
       (Some g, Some d) \<Rightarrow> dset k (np_step N g outer d) m | _ \<Rightarrow> m) m (k # keys)) = dkeys trunk"
      using IH by simp
  qed (use IH in \<open>auto split: option.splits\<close>)
qed

lemma step_keys_get:
  "map_of (step_keys N outer delta (matched_keys N trunk delta) trunk) x
     = (case (map_of trunk x, map_of delta x) of
          (Some g, Some d) \<Rightarrow> if np_shape N g = np_shape N d then Some (np_step N g outer d) else Some g
        | _ \<Rightarrow> map_of trunk x)"
  "dkeys (step_keys N outer delta (matched_keys N trunk delta) trunk) = dkeys trunk"
proof -
  have sub: "set (matched_keys N trunk delta) \<subseteq> set (dkeys trunk)"
    by (auto simp: matched_keys_def)
  have mem: "x \<in> set (matched_keys N trunk delta) \<longleftrightarrow>
      (\<exists>g d. map_of trunk x = Some g \<and> map_of delta x = Some d \<and> np_shape N g = np_shape N d)"
    by (auto simp: matched_keys_def split: option.splits dest: map_of_SomeD intro: rev_image_eqI)
  show "map_of (step_keys N outer delta (matched_keys N trunk delta) trunk) x
     = (case (map_of trunk x, map_of delta x) of
          (Some g, Some d) \<Rightarrow> if np_shape N g = np_shape N d then Some (np_step N g outer d) else Some g
        | _ \<Rightarrow> map_of trunk x)"
    unfolding step_keys_def step_keys_fold [OF sub refl, THEN conjunct2] using mem
    by (simp split: option.split)
  show "dkeys (step_keys N outer delta (matched_keys N trunk delta) trunk) = dkeys trunk"
    unfolding step_keys_def by (rule step_keys_fold [OF sub refl, THEN conjunct1])
qed

subsection \<open>Descent\<close>

text \<open>
  The contract of a merge: it reports whether it moved the model, leaves it alone if not, and brings
  the loss down by more than the margin if so.
\<close>

locale descent =
  fixes ev :: "'m \<Rightarrow> xfloat"
    and margin :: rat
    and merge :: "'m \<Rightarrow> 'd \<Rightarrow> bool \<times> 'm"
  assumes idle: "\<not> fst (merge t d) \<Longrightarrow> snd (merge t d) = t"
    and descends: "fst (merge t d) \<Longrightarrow> xless (ev (snd (merge t d))) (xsub (ev t) (XFin margin))"
    and margin_nonneg: "0 \<le> margin"
    and losses: "xf64 (ev t)"
begin

lemma loss_falls: "fst (merge t d) \<Longrightarrow> xless (ev (snd (merge t d))) (ev t)"
  using descends [of t d] xsub_le [OF losses margin_nonneg, of t]
  by (cases "ev t = NaN") (auto simp: xsub_def intro: xless_xle_trans)

lemma run_never_worsens:
  "foldl (\<lambda>t d. snd (merge t d)) t ds = t \<or> xless (ev (foldl (\<lambda>t d. snd (merge t d)) t ds)) (ev t)"
proof (induction ds arbitrary: t)
  case (Cons d ds)
  show ?case
  proof (cases "fst (merge t d)")
    case True
    then show ?thesis
      using Cons.IH [of "snd (merge t d)"] loss_falls [OF True]
      by (auto intro: xless_xle_trans xless_imp_xle)
  next
    case False
    then show ?thesis using Cons.IH [of t] idle by simp
  qed
qed simp

end

definition gate_merge ::
  "('a, 'e) numpy \<Rightarrow> ('a params \<Rightarrow> xfloat) \<Rightarrow> rat \<Rightarrow> rat \<Rightarrow> 'a params \<Rightarrow> 'a params \<Rightarrow> bool \<times> 'a params" where
  "gate_merge N ev outer margin trunk delta =
     (case apply_delta_gated N ev outer margin True trunk delta of (v, t) \<Rightarrow> (gv_accepted v, t))"

definition loss_fn :: "('m \<Rightarrow> xfloat) \<Rightarrow> 'm \<Rightarrow> xfloat" where
  "loss_fn ev t = (let x = ev t in if xf64 x then x else NaN)"

text \<open>The gate meets the contract for every evaluation that returns floats.\<close>

interpretation gate: descent "loss_fn ev" "\<bar>margin\<bar>" "gate_merge N (loss_fn ev) outer \<bar>margin\<bar>"
  for N :: "('a, 'e) numpy" and ev outer margin
proof
  fix t d
  show "snd (gate_merge N (loss_fn ev) outer \<bar>margin\<bar> t d) = t"
    if "\<not> fst (gate_merge N (loss_fn ev) outer \<bar>margin\<bar> t d)"
    using that gate_rejected [of N "loss_fn ev" outer "\<bar>margin\<bar>" True t d]
    by (simp add: gate_merge_def split: prod.splits)
  show "xless (loss_fn ev (snd (gate_merge N (loss_fn ev) outer \<bar>margin\<bar> t d)))
          (xsub (loss_fn ev t) (XFin \<bar>margin\<bar>))"
    if "fst (gate_merge N (loss_fn ev) outer \<bar>margin\<bar> t d)"
    using that gate_accepted(3) [of N "loss_fn ev" outer "\<bar>margin\<bar>" t d]
    by (simp add: gate_merge_def split: prod.splits)
  show "xf64 (loss_fn ev t)" by (simp add: loss_fn_def Let_def xf64_def)
qed simp

lemma loss_fn_floats: "(\<And>t. xf64 (ev t)) \<Longrightarrow> loss_fn ev = ev"
  by (simp add: loss_fn_def fun_eq_iff)

subsection \<open>Batches\<close>

text \<open>The state of the serial fallback: it has moved away from \<open>t\<close> exactly if some row was accepted, and
  then the loss is strictly below that of \<open>t\<close>.\<close>

definition serial_ok :: "('a params \<Rightarrow> xfloat) \<Rightarrow> 'a params \<Rightarrow> 'a serial_state \<Rightarrow> bool" where
  "serial_ok ev t s \<longleftrightarrow> ss_running s = ev (ss_work s)
     \<and> (if list_ex (\<lambda>(g, ok). ok) (dvalues (ss_rows s)) then xless (ev (ss_work s)) (ev t)
        else ss_work s = t)"

lemma dset_new: "k \<notin> set (dkeys d) \<Longrightarrow> dset k v d = d @ [(k, v)]"
  by (induction d) auto

lemma serial_step_ok:
  assumes floats: "\<And>t. xf64 (ev t)" and "0 \<le> margin" and ok: "serial_ok ev t s"
    and new: "pr_idx p \<notin> set (dkeys (ss_rows s))"
  shows "serial_ok ev t (serial_step N ev outer margin s p)"
    "set (dkeys (ss_rows (serial_step N ev outer margin s p))) = insert (pr_idx p) (set (dkeys (ss_rows s)))"
proof -
  obtain v w where g: "apply_delta_gated N ev outer margin True (ss_work s) (pr_delta p) = (v, w)" by force
  note acc = gate_accepted [of N ev outer margin "ss_work s" "pr_delta p", unfolded g fst_conv snd_conv]
  show "set (dkeys (ss_rows (serial_step N ev outer margin s p))) = insert (pr_idx p) (set (dkeys (ss_rows s)))"
    by (simp add: serial_step_def g dset_new [OF new] split: option.split bool.split)
  show "serial_ok ev t (serial_step N ev outer margin s p)"
  proof (cases "gv_accepted v")
    case True
    have "ev (ss_work s) \<noteq> NaN" using acc(3) [OF True] by (auto simp: xsub_def)
    then have "xless (ev w) (ev (ss_work s))"
      using acc(3) [OF True] xsub_le [OF floats \<open>0 \<le> margin\<close>] by (blast intro: xless_xle_trans)
    then have "xless (ev w) (ev t)"
      using ok by (auto simp: serial_ok_def split: if_splits intro: xless_xle_trans xless_imp_xle)
    then show ?thesis
      using True acc(1) [OF True] by (simp add: serial_step_def g serial_ok_def dset_new [OF new])
  next
    case False
    then have "w = ss_work s"
      using gate_rejected [of N ev outer margin True "ss_work s" "pr_delta p"] by (simp add: g)
    then show ?thesis
      using False ok by (simp add: serial_step_def g serial_ok_def dset_new [OF new])
  qed
qed

lemma serial_run_ok:
  assumes "\<And>t. xf64 (ev t)" "0 \<le> margin" "serial_ok ev t s"
    "distinct (map pr_idx ps)" "set (map pr_idx ps) \<inter> set (dkeys (ss_rows s)) = {}"
  shows "serial_ok ev t (foldl (serial_step N ev outer margin) s ps)"
  using assms(3-5)
proof (induction ps arbitrary: s)
  case (Cons p ps)
  have new: "pr_idx p \<notin> set (dkeys (ss_rows s))" using Cons.prems by auto
  note step = serial_step_ok [OF assms(1,2) Cons.prems(1) new]
  show ?case
    unfolding foldl.simps
    by (rule Cons.IH [OF step(1)]) (use Cons.prems in \<open>simp_all only: step(2), auto\<close>)
qed simp

lemma probe_idx [simp]: "pr_idx (probe_candidate N ev outer margin trunk c) = fst c"
  by (simp add: probe_candidate_def Let_def split: prod.splits)

lemma probe_parts [simp]:
  "pr_delta (probe_candidate N ev outer margin trunk (i, r, d)) = d"
  "pr_rec (probe_candidate N ev outer margin trunk (i, r, d)) = r"
  "pr_keys (probe_candidate N ev outer margin trunk (i, r, d)) = matched_keys N trunk d"
  by (simp_all add: probe_candidate_def Let_def)

lemma distinct_probes:
  "distinct (map pr_idx (fallback_order W (filter P
     (map (probe_candidate N ev outer margin trunk) (enumerate n cs)))))"
proof -
  have "distinct (map pr_idx (map (probe_candidate N ev outer margin trunk) (enumerate n cs)))"
    by (simp add: comp_def)
  then have "distinct (map pr_idx (filter P (map (probe_candidate N ev outer margin trunk) (enumerate n cs))))"
    by (rule distinct_map_filter)
  then show ?thesis by (simp add: fallback_order_def distinct_map)
qed

text \<open>The reports of a batch, applied or not.\<close>

lemma single_result_safe:
  assumes "single_result N ev outer margin True trunk r delta = (res, trunk')"
  shows "if br_accepted res then xless (ev trunk') (xsub (ev trunk) (XFin margin)) \<and> br_merged_val res = Some (ev trunk')
         else trunk' = trunk"
  using assms gate_accepted [of N ev outer margin trunk delta] gate_rejected [of N ev outer margin True trunk delta]
  by (auto simp: single_result_def Let_def split: prod.splits)

lemma batch_safe:
  assumes floats: "\<And>t. xf64 (ev t)" and margin: "0 \<le> margin"
    and batch: "apply_deltas_weighted_gated W N ev outer margin True trunk cs = (res, trunk')"
  shows "if br_accepted res then xle (ev trunk') (ev trunk) \<and> br_merged_val res = Some (ev trunk') else trunk' = trunk"
proof (cases "\<exists>r delta. cs = [(r, delta)]")
  case True
  then obtain r delta where "cs = [(r, delta)]" by blast
  then have "single_result N ev outer margin True trunk r delta = (res, trunk')"
    using batch by (simp add: apply_deltas_weighted_gated_def)
  note one = single_result_safe [OF this]
  show ?thesis
  proof (cases "br_accepted res")
    case True
    then have "xless (ev trunk') (xsub (ev trunk) (XFin margin))" using one by simp
    moreover have "ev trunk \<noteq> NaN" using calculation by (auto simp: xsub_def)
    ultimately show ?thesis
      using True one xsub_le [OF floats margin] by (auto intro: xless_xle_trans xless_imp_xle)
  qed (use one in simp)
next
  case False
  let ?probes = "map (probe_candidate N ev outer margin trunk) (enumerate 0 cs)"
  let ?pos = "filter (\<lambda>p. xless (XFin 0) (pr_gain p)) ?probes"
  let ?comb = "combine N outer trunk (accumulate N trunk (gain_sum ?pos) ?pos)"
  let ?s = "foldl (serial_step N ev outer margin) \<lparr>ss_work = trunk, ss_running = ev trunk, ss_rows = []\<rparr>
              (fallback_order W ?pos)"
  have serial: "serial_ok ev trunk ?s"
    by (rule serial_run_ok [OF floats margin _ distinct_probes]) (simp_all add: serial_ok_def)
  have shape: "apply_deltas_weighted_gated W N ev outer margin True trunk cs =
     (let base_val = ev trunk in if ?pos = [] then
              (\<lparr>br_mode = AllRejected, br_accepted = False, br_base_val = Some base_val,
                br_merged_val = Some base_val, br_per_candidate = map blank_row ?probes,
                br_applied_order = []\<rparr>, trunk)
            else if xle (ev ?comb) (xsub base_val (XFin margin)) then
                    (\<lparr>br_mode = Combined, br_accepted = True, br_base_val = Some base_val,
                      br_merged_val = Some (ev ?comb),
                      br_per_candidate = combined_rows base_val (ev ?comb) (gain_sum ?pos) ?probes,
                      br_applied_order = []\<rparr>, ?comb)
                  else (\<lparr>br_mode = SerialFallback,
                          br_accepted = list_ex (\<lambda>(g, ok). ok) (dvalues (ss_rows ?s)),
                          br_base_val = Some base_val, br_merged_val = Some (ss_running ?s),
                          br_per_candidate = serial_rows (gain_sum ?pos) (ss_rows ?s) ?probes,
                          br_applied_order = map (\<lambda>p. cid_text W (pr_rec p)) (fallback_order W ?pos)\<rparr>, ss_work ?s))"
    using False by (simp add: apply_deltas_weighted_gated_def Let_def split: list.splits prod.splits)
  have comb: "xle (ev ?comb) (ev trunk)" if "xle (ev ?comb) (xsub (ev trunk) (XFin margin))"
  proof -
    have "ev trunk \<noteq> NaN" using that xle_not_NaN by (fastforce simp: xsub_def)
    then show ?thesis using that xsub_le [OF floats margin] by (blast intro: xle_trans)
  qed
  show ?thesis
    using batch [unfolded shape Let_def] serial comb
    by (auto simp: serial_ok_def split: if_splits intro: xless_imp_xle)
qed

end
