(* ===== verification/Merge_Props.thy ===== *)
theory Merge_Props
  imports Merge_Facts
begin

text \<open>The properties of the merge gate.\<close>

subsection \<open>An example\<close>

text \<open>One parameter, at 0; every value but 0 has a smaller loss.\<close>

definition demo_trunk :: "(nat list \<times> rat list) params" where
  "demo_trunk = [(''w'', ([1], [0]))]"

definition demo_loss :: "(nat list \<times> rat list) params \<Rightarrow> xfloat" where
  "demo_loss t = (case map_of t ''w'' of Some (s, [q]) \<Rightarrow> if q = 0 then XFin 1 else XFin 0 | _ \<Rightarrow> NaN)"

definition demo_delta :: "rat \<Rightarrow> (nat list \<times> rat list) params" where
  "demo_delta q = [(''w'', ([1], [q]))]"

lemma demo_loss_float: "xf64 (demo_loss t)"
proof -
  have "is_f64 1" "is_f64 0" by code_simp+
  then show ?thesis
    by (simp add: demo_loss_def xf64_def split: option.split prod.split list.split)
qed

lemma demo_shapes:
  "matched_keys toy_numpy demo_trunk (demo_delta q) = [''w'']"
  "step_keys toy_numpy 1 (demo_delta q) [''w''] demo_trunk = demo_delta q"
  "delta_norm toy_numpy (demo_delta q) [''w''] = xadd (XFin 0) (XFin (q * q))"
  "demo_loss demo_trunk = XFin 1" "demo_loss (demo_delta q) = (if q = 0 then XFin 1 else XFin 0)"
  by (simp_all add: matched_keys_def step_keys_def delta_norm_def demo_trunk_def demo_delta_def toy_numpy_def
      demo_loss_def)

lemma demo_gate:
  "apply_delta_gated toy_numpy demo_loss 1 0 b demo_trunk (demo_delta q)
     = (\<lparr>gv_accepted = (q \<noteq> 0), gv_keys_matched = 1, gv_keys_missing = 0, gv_base_val = Some (XFin 1),
         gv_merged_val = Some (if q = 0 then XFin 1 else XFin 0), gv_delta_norm = Some (xround (q * q)),
         gv_reason = None\<rparr>, if q \<noteq> 0 \<and> b then demo_delta q else demo_trunk)"
  by (simp add: apply_delta_gated_def demo_shapes Let_def xsub_def) (simp add: demo_trunk_def)

subsection \<open>The gate\<close>

text \<open>C21: the delta is judged on the trunk with every array that it matches in name and shape moved by
  the outer step, every other array and the order of the dictionary kept. It is accepted if and only if
  it matches some array and the held-out loss of that candidate is strictly below the old loss less the
  margin (the comment at the comparison says strictly, the docstring says at most). Accepted, it makes the
  candidate the trunk and reports its loss; rejected, it leaves the trunk as it was.\<close>

theorem gate_applies_only_improvements:
  assumes "apply_delta_gated N ev outer margin True trunk delta = (v, trunk')"
    "candidate = step_keys N outer delta (matched_keys N trunk delta) trunk"
  shows "dkeys candidate = dkeys trunk
    \<and> (\<forall>k. map_of candidate k = (case (map_of trunk k, map_of delta k) of
         (Some g, Some d) \<Rightarrow> if np_shape N g = np_shape N d then Some (np_step N g outer d) else Some g
       | (x, _) \<Rightarrow> x))
    \<and> (gv_accepted v \<longleftrightarrow>
         (\<exists>k g d. map_of trunk k = Some g \<and> map_of delta k = Some d \<and> np_shape N g = np_shape N d)
         \<and> xless (ev candidate) (xsub (ev trunk) (XFin margin)))
    \<and> trunk' = (if gv_accepted v then candidate else trunk)
    \<and> (gv_accepted v \<longrightarrow> gv_merged_val v = Some (ev candidate))"
proof -
  have v: "fst (apply_delta_gated N ev outer margin True trunk delta) = v"
    "snd (apply_delta_gated N ev outer margin True trunk delta) = trunk'"
    using assms(1) by simp_all
  have "k \<in> set (matched_keys N trunk delta) \<longleftrightarrow>
      (\<exists>g d. map_of trunk k = Some g \<and> map_of delta k = Some d \<and> np_shape N g = np_shape N d)" for k
    by (auto simp: matched_keys_def split: option.splits dest: map_of_SomeD intro: rev_image_eqI)
  then have some: "matched_keys N trunk delta \<noteq> [] \<longleftrightarrow>
      (\<exists>k g d. map_of trunk k = Some g \<and> map_of delta k = Some d \<and> np_shape N g = np_shape N d)"
    by (metis last_in_set empty_iff list.set(1))
  have "dkeys candidate = dkeys trunk \<and> (\<forall>k. map_of candidate k = (case (map_of trunk k, map_of delta k) of
         (Some g, Some d) \<Rightarrow> if np_shape N g = np_shape N d then Some (np_step N g outer d) else Some g
       | (x, _) \<Rightarrow> x))"
    unfolding assms(2) by (auto simp: step_keys_get split: option.split)
  moreover have "(gv_accepted v \<longleftrightarrow> matched_keys N trunk delta \<noteq> [] \<and> xless (ev candidate) (xsub (ev trunk) (XFin margin)))
      \<and> trunk' = (if gv_accepted v then candidate else trunk) \<and> (gv_accepted v \<longrightarrow> gv_merged_val v = Some (ev candidate))"
    using v assms(2) by (cases rule: gate_cases [of N trunk delta ev outer margin True]) auto
  ultimately show ?thesis unfolding some by blast
qed

theorem gate_applies_only_improvements_witness:
  "map_of (demo_delta 1) ''w'' = Some ([1], [1])
   \<and> xless (demo_loss (demo_delta 1)) (xsub (demo_loss demo_trunk) (XFin 0))"
proof -
  have run: "apply_delta_gated toy_numpy demo_loss 1 0 True demo_trunk (demo_delta 1)
      = (\<lparr>gv_accepted = True, gv_keys_matched = 1, gv_keys_missing = 0, gv_base_val = Some (XFin 1),
         gv_merged_val = Some (XFin 0), gv_delta_norm = Some (XFin 1), gv_reason = None\<rparr>, demo_delta 1)"
    by (simp add: demo_gate)
  have c: "demo_delta 1 = step_keys toy_numpy 1 (demo_delta 1) (matched_keys toy_numpy demo_trunk (demo_delta 1)) demo_trunk"
    by (simp add: demo_shapes)
  have "xless (demo_loss (demo_delta 1)) (xsub (demo_loss demo_trunk) (XFin 0))"
    using gate_applies_only_improvements [OF run c, THEN conjunct2, THEN conjunct2, THEN conjunct1] by simp
  then show ?thesis by (simp add: demo_delta_def)
qed

text \<open>C20: merging a batch never worsens the model: if the batch is accepted, by the combined step or
  by the serial fallback, the held-out loss of the new trunk is not above the old one and is the loss
  that is reported; if it is not accepted, the trunk is as it was, whatever was tried on the way.\<close>

theorem batch_never_worsens:
  assumes "\<And>t. xf64 (ev t)" "0 \<le> margin"
    "apply_deltas_weighted_gated W N ev outer margin True trunk candidates = (res, trunk')"
  shows "if br_accepted res then xle (ev trunk') (ev trunk) \<and> br_merged_val res = Some (ev trunk')
         else trunk' = trunk"
  by (rule batch_safe [OF assms])

lemma demo_batch:
  "map_prod (\<lambda>r. (br_mode r, br_merged_val r, map (\<lambda>c. (cv_accepted c, cv_gain c)) (br_per_candidate r))) id
     (apply_deltas_weighted_gated toy_world toy_numpy demo_loss 1 0 True demo_trunk
        [([], demo_delta 1), ([], demo_delta (-1))])
   = ((Combined, Some (XFin 1), [(True, XFin 0), (True, XFin 0)]), demo_trunk)"
proof -
  define p where "p = probe_candidate toy_numpy demo_loss 1 0 demo_trunk (0, [], demo_delta 1)"
  define q where "q = probe_candidate toy_numpy demo_loss 1 0 demo_trunk (1, [], demo_delta (- 1))"
  have probes: "map (probe_candidate toy_numpy demo_loss 1 0 demo_trunk)
      (enumerate 0 [([], demo_delta 1), ([], demo_delta (- 1))]) = [p, q]"
    by (simp add: p_def q_def)
  have half: "xround (1 / 2) = XFin (1 / 2)" by (rule xround_small) (simp_all, code_simp)
  have gains: "pr_gain p = XFin 1" "pr_gain q = XFin 1"
    by (simp_all add: p_def q_def probe_candidate_def demo_gate demo_shapes xsub_def)
  have w: "gain_weight (gain_sum [p, q]) p = XFin (1 / 2)" "gain_weight (gain_sum [p, q]) q = XFin (1 / 2)"
    by (simp_all add: gain_weight_def gain_sum_def gains half)
  have parts: "pr_delta p = demo_delta 1" "pr_delta q = demo_delta (- 1)" "pr_keys p = [''w'']" "pr_keys q = [''w'']"
    by (simp_all add: p_def q_def demo_shapes)
  have comb: "combine toy_numpy 1 demo_trunk (accumulate toy_numpy demo_trunk (gain_sum [p, q]) [p, q]) = demo_trunk"
    unfolding accumulate_def foldl.simps w parts
    by (simp add: accumulate_key_def combine_def demo_trunk_def demo_delta_def toy_numpy_def)
  show ?thesis
    unfolding apply_deltas_weighted_gated_def list.case prod.case Let_def probes
    by (simp add: gains comb demo_shapes combined_rows_def w xsub_def candidate_row_def)
qed

theorem batch_never_worsens_witness:
  "\<exists>res trunk'. apply_deltas_weighted_gated toy_world toy_numpy demo_loss 1 0 True demo_trunk
      [([], demo_delta 1), ([], demo_delta (-1))] = (res, trunk')
    \<and> (if br_accepted res then xle (demo_loss trunk') (demo_loss demo_trunk) \<and> br_merged_val res = Some (demo_loss trunk')
       else trunk' = demo_trunk)"
proof -
  obtain res trunk' where r: "apply_deltas_weighted_gated toy_world toy_numpy demo_loss 1 0 True demo_trunk
      [([], demo_delta 1), ([], demo_delta (-1))] = (res, trunk')" by force
  from batch_never_worsens [OF demo_loss_float order_refl r] r show ?thesis by blast
qed

text \<open>the batched path accepts a merge that improves nothing. Each of two opposite deltas
  lowers the loss on its own; weighted together they cancel, the combined trunk is the old trunk with
  the old loss, and the batch is reported as accepted with every candidate accepted at gain 0, and the
  serial fallback, which would have kept one of them, is not tried.\<close>

theorem cancelling_batch_is_accepted:
  "map_prod (\<lambda>r. (br_mode r, br_merged_val r, map (\<lambda>c. (cv_accepted c, cv_gain c)) (br_per_candidate r))) id
     (apply_deltas_weighted_gated toy_world toy_numpy demo_loss 1 0 True demo_trunk
        [([], demo_delta 1), ([], demo_delta (-1))])
   = ((Combined, Some (XFin 1), [(True, XFin 0), (True, XFin 0)]), demo_trunk)
   \<and> gv_accepted (fst (apply_delta_gated toy_numpy demo_loss 1 0 True demo_trunk (demo_delta 1)))
   \<and> gv_accepted (fst (apply_delta_gated toy_numpy demo_loss 1 0 True demo_trunk (demo_delta (-1))))
   \<and> \<not> gv_accepted (fst (apply_delta_gated toy_numpy demo_loss 1 0 True demo_trunk (demo_delta 0)))"
  by (simp add: demo_batch demo_gate)

text \<open>observing a merge and performing it agree: with and without \<^verbatim>\<open>apply\<close> the same report
  comes out, and without it the trunk is untouched.\<close>


theorem observed_merge_is_the_merge:
  "apply_deltas_weighted_gated W N ev outer margin False trunk candidates
     = (fst (apply_deltas_weighted_gated W N ev outer margin True trunk candidates), trunk)"
proof -
  have one: "single_result N ev outer margin False trunk r delta
      = (fst (single_result N ev outer margin True trunk r delta), trunk)" for r delta
    by (simp only: single_result_def split_beta Let_def gate_not_applied fst_conv snd_conv
        gate_verdict_apply_indep [of N ev outer margin False trunk delta True])
  show ?thesis
    by (simp add: apply_deltas_weighted_gated_def one Let_def split: list.split prod.split)
qed

subsection \<open>The grace window\<close>

text \<open>what is merged is a prefix of the queue, so the oldest candidate is never overtaken; and a
  candidate that has waited for the whole of \<^verbatim>\<open>grace_max_s\<close> ends the deferral, however many fresh
  ones keep arriving behind it.\<close>

theorem oldest_candidate_is_never_starved:
  assumes "gather_batch pending now grace_s grace_max_s batch_max = (batch, defer)"
    "(r, d, ts) \<in> set pending" "grace_max_s \<le> fsub now ts"
  shows "\<not> defer \<and> batch \<noteq> [] \<and> (\<exists>rest. pending = batch @ rest)"
proof -
  let ?ts = "set (map (\<lambda>(r, d, ts). ts) pending)"
  have "ts \<in> ?ts" using assms(2) by force
  then have "Min ?ts \<le> ts" by (intro Min_le) auto
  then have "fsub now ts \<le> fsub now (Min ?ts)"
    unfolding fsub_def by (intro rnd64_mono) simp
  then have old: "\<not> fsub now (Min ?ts) < grace_max_s" using assms(3) by simp
  have ne: "pending \<noteq> []" using assms(2) by auto
  have "batch = take (if 0 < batch_max then nat batch_max else length pending) pending \<and> \<not> defer"
    using assms(1) ne old by (auto simp: gather_batch_def Let_def split: if_splits)
  moreover have "0 < (if 0 < batch_max then nat batch_max else length pending)" using ne by simp
  ultimately show ?thesis using ne by (metis append_take_drop_id take_eq_Nil less_irrefl)
qed

lemma demo_times: "fsub 10 0 = 10" "fsub 10 9 = 1"
  by code_simp+

theorem oldest_candidate_is_never_starved_witness:
  "\<exists>batch rest. [(1::nat, 2::nat, 0::rat), (3, 4, 9)] = batch @ rest \<and> batch \<noteq> []"
proof -
  have g: "gather_batch [(1::nat, 2::nat, 0::rat), (3, 4, 9)] 10 5 8 1 = ([(1, 2, 0)], False)"
    by (simp add: gather_batch_def demo_times)
  have "8 \<le> fsub 10 0" by (simp add: demo_times)
  have "\<not> False \<and> [(1::nat, 2::nat, 0::rat)] \<noteq> [] \<and> (\<exists>rest. [(1::nat, 2::nat, 0::rat), (3, 4, 9)] = [(1, 2, 0)] @ rest)"
    by (rule oldest_candidate_is_never_starved [OF g _ \<open>8 \<le> fsub 10 0\<close>]) simp
  then show ?thesis by blast
qed

end
