(* ===== verification/Merge_Registry.thy ===== *)
theory Merge_Registry
  imports Signing Merge_Arrays
begin

text \<open>
  The contribution registry of \<^verbatim>\<open>neurahash/diloco_merge.py\<close>: the message a contribution is signed
  over (\<^verbatim>\<open>neurahash/contrib_message.py\<close>), recovery of its signer, the dedup by content id that
  prefers signed records, polling one store and merging several, the gossip announce, the
  declared-corpus gate and the verified fetch of a delta. The environment is a function from names to
  values, HTTP reads are a parameter, and records are dictionaries of decoded values. What is logged
  is not modelled.
\<close>

type_synonym contrib = "(string, json) pydict"

type_synonym environ = "string \<Rightarrow> string option"

definition rget :: "contrib \<Rightarrow> string \<Rightarrow> json" where
  "rget r k = (case map_of r k of None \<Rightarrow> JNull | Some j \<Rightarrow> j)"

subsection \<open>Strings\<close>

definition rstrip_slash :: "string \<Rightarrow> string" where
  "rstrip_slash s = rev (dropWhile (\<lambda>c. c = CHR ''/'') (rev s))"

fun split_comma :: "string \<Rightarrow> string list" where
  "split_comma [] = [[]]"
| "split_comma (c # cs) = (case split_comma cs of
     (w # ws) \<Rightarrow> if c = CHR '','' then [] # w # ws else (c # w) # ws
   | [] \<Rightarrow> [])"

text \<open>\<^verbatim>\<open>os.environ.get(name, default) or default\<close>.\<close>

definition env_or :: "environ \<Rightarrow> string \<Rightarrow> string \<Rightarrow> string" where
  "env_or env name v = (case env name of None \<Rightarrow> v | Some [] \<Rightarrow> v | Some x \<Rightarrow> x)"

definition env_flag :: "environ \<Rightarrow> string \<Rightarrow> bool" where
  "env_flag env name = ((case env name of None \<Rightarrow> ''0'' | Some x \<Rightarrow> x) \<notin> {'''', ''0'', ''false'', ''False''})"

subsection \<open>The signed message\<close>

definition CONTRIB_SIG_VERSION :: string where
  "CONTRIB_SIG_VERSION = ''neurahash-diloco-contrib-v1''"

definition newline :: string where
  "newline = [char_of (10 :: nat)]"

definition contrib_canonical_message :: "world \<Rightarrow> json \<Rightarrow> json \<Rightarrow> json \<Rightarrow> json \<Rightarrow> json \<Rightarrow> string" where
  "contrib_canonical_message W delta_cid base_round name val_before val_after =
     CONTRIB_SIG_VERSION @ newline @ str_of W delta_cid @ newline @ str_of W base_round @ newline
       @ str_of W name @ newline @ str_of W val_before @ newline @ str_of W val_after"

text \<open>The message rebuilt from a record's own fields.\<close>

definition record_message :: "world \<Rightarrow> contrib \<Rightarrow> string" where
  "record_message W r = contrib_canonical_message W (rget r ''delta_cid'') (rget r ''base_round'')
     (rget r ''contributor'') (rget r ''val_before'') (rget r ''val_after'')"

definition recover_contrib_signer :: "world \<Rightarrow> contrib \<Rightarrow> string option" where
  "recover_contrib_signer W r =
     (if \<not> truthy (rget r ''sig'') then None
      else (case bindE (strE (rget r ''sig'')) (recover_bytes W (record_message W r)) of
              Inl _ \<Rightarrow> None | Inr a \<Rightarrow> Some a))"

subsection \<open>Dedup\<close>

text \<open>
  A dictionary key: lists and dictionaries are not hashable, \<^verbatim>\<open>True\<close>, \<^verbatim>\<open>1\<close> and \<^verbatim>\<open>1.0\<close> are one key. A NaN
  is a key of its own each time in Python; here all non-finite numbers are one key.
\<close>

fun hash_key :: "json \<Rightarrow> exn + json" where
  "hash_key (JList xs) = Inl TypeError"
| "hash_key (JObj kvs) = Inl TypeError"
| "hash_key (JBool b) = Inr (JInt (if b then 1 else 0))"
| "hash_key (JNum (Fin q)) = Inr (if q = of_int \<lfloor>q\<rfloor> then JInt \<lfloor>q\<rfloor> else JNum (Fin q))"
| "hash_key j = Inr j"

definition sig_flag :: "contrib \<Rightarrow> bool" where
  "sig_flag r = truthy (rget r ''sig_ok'')"

record dedup_state =
  dd_chosen :: "(json, contrib) pydict"
  dd_order :: "json list"

definition dedup_step :: "dedup_state \<Rightarrow> contrib \<Rightarrow> exn + dedup_state" where
  "dedup_step s r = bindE (hash_key (rget r ''delta_cid'')) (\<lambda>cid. Inr
     (case map_of (dd_chosen s) cid of
        None \<Rightarrow> \<lparr>dd_chosen = dset cid r (dd_chosen s), dd_order = dd_order s @ [cid]\<rparr>
      | Some current \<Rightarrow>
          if sig_flag r \<and> \<not> sig_flag current then s\<lparr>dd_chosen := dset cid r (dd_chosen s)\<rparr> else s))"

fun dedup_run :: "dedup_state \<Rightarrow> contrib list \<Rightarrow> exn + dedup_state" where
  "dedup_run s [] = Inr s"
| "dedup_run s (r # rs) = bindE (dedup_step s r) (\<lambda>s'. dedup_run s' rs)"

definition dedup_prefer_signed :: "contrib list \<Rightarrow> exn + contrib list" where
  "dedup_prefer_signed records = bindE (dedup_run \<lparr>dd_chosen = [], dd_order = []\<rparr> records) (\<lambda>s.
     mapE (\<lambda>c. orE KeyError (map_of (dd_chosen s) c)) (dd_order s))"

definition merge_contrib_records :: "contrib list list \<Rightarrow> exn + contrib list" where
  "merge_contrib_records record_lists = dedup_prefer_signed (concat record_lists)"

subsection \<open>Stores\<close>

definition posture_of :: "string \<Rightarrow> string" where
  "posture_of x = (let v = str_lower (str_strip x) in if v \<in> {''off'', ''audit'', ''enforce''} then v else ''off'')"

definition registry_posture :: "environ \<Rightarrow> string" where
  "registry_posture env = posture_of (env_or env ''NEURAHASH_DILOCO_REGISTRY'' ''off'')"

definition add_store :: "string list \<Rightarrow> string \<Rightarrow> string list" where
  "add_store urls u = (let u = rstrip_slash (str_strip u) in if u \<noteq> [] \<and> u \<notin> set urls then urls @ [u] else urls)"

definition registry_store_urls :: "environ \<Rightarrow> string \<Rightarrow> string list" where
  "registry_store_urls env primary =
     (let primary = rstrip_slash primary; urls = (if primary = [] then [] else [primary])
      in if registry_posture env = ''off'' then urls
         else foldl add_store urls (split_comma (env_or env ''NEURAHASH_DILOCO_MERGE_URLS'' '''')))"

text \<open>The signature check of a record: the name, the verdict and the recovered address overwrite whatever
  the record claimed.\<close>

definition check_record :: "world \<Rightarrow> bool \<Rightarrow> string \<Rightarrow> contrib \<Rightarrow> contrib option" where
  "check_record W require_sig name r0 =
     (let r = dset ''name'' (JStr name) r0;
          declared = rget r ''address'';
          recovered = recover_contrib_signer W r;
          sig_ok = (case recovered of None \<Rightarrow> False
                    | Some a \<Rightarrow> declared \<noteq> JNull \<and> str_lower a = str_lower (str_of W declared))
      in if require_sig \<and> \<not> sig_ok then None
         else Some (dset ''address'' (case recovered of None \<Rightarrow> JNull | Some a \<Rightarrow> JStr a)
                     (dset ''sig_ok'' (JBool sig_ok) r)))"

text \<open>One manifest entry: \<open>None\<close> where it is skipped.\<close>

definition read_entry ::
  "world \<Rightarrow> bool \<Rightarrow> (string \<Rightarrow> exn + json) \<Rightarrow> string \<Rightarrow> string \<times> json \<Rightarrow> contrib option" where
  "read_entry W require_sig get_json base_url entry = (case entry of (name, meta) \<Rightarrow>
     (if \<not> starts_with ''contrib-'' name then None
      else (case bindE (bindE (getE meta ''sha256'') strE)
                 (\<lambda>sha. get_json (rstrip_slash base_url @ ''/o/'' @ sha)) of
         Inr (JObj r) \<Rightarrow>
           if \<not> truthy (rget r ''delta_cid'') then None else check_record W require_sig name r
       | _ \<Rightarrow> None)))"

text \<open>\<^verbatim>\<open>(man or {}).items()\<close>.\<close>

definition manifest_items :: "json \<Rightarrow> exn + (string \<times> json) list" where
  "manifest_items man =
     (if \<not> truthy man then Inr [] else (case man of JObj kvs \<Rightarrow> Inr kvs | _ \<Rightarrow> Inl AttributeError))"

definition poll_one_store ::
  "world \<Rightarrow> environ \<Rightarrow> (string \<Rightarrow> exn + json) \<Rightarrow> string \<Rightarrow> exn + contrib list" where
  "poll_one_store W env get_json base_url =
     (case get_json (rstrip_slash base_url @ ''/manifest'') of
        Inl _ \<Rightarrow> Inr []
      | Inr man \<Rightarrow> bindE (manifest_items man) (\<lambda>items.
          dedup_prefer_signed (List.map_filter
            (read_entry W (env_flag env ''NEURAHASH_DILOCO_REQUIRE_SIG'') get_json base_url) items)))"

definition poll_contrib_records ::
  "world \<Rightarrow> environ \<Rightarrow> (string \<Rightarrow> exn + json) \<Rightarrow> string \<Rightarrow> exn + contrib list" where
  "poll_contrib_records W env get_json base_url =
     (let urls = registry_store_urls env base_url;
          primary = (case urls of [] \<Rightarrow> base_url | u # _ \<Rightarrow> u);
          posture = registry_posture env
      in bindE (poll_one_store W env get_json primary) (\<lambda>primary_recs.
           if length urls \<le> 1 \<or> posture = ''off'' then Inr primary_recs
           else bindE (mapE (poll_one_store W env get_json) (tl urls)) (\<lambda>replica_recs.
                bindE (merge_contrib_records (primary_recs # replica_recs)) (\<lambda>merged.
                  Inr (if posture = ''audit'' then primary_recs else merged)))))"

subsection \<open>Gossip\<close>

definition CONTRIB_ANNOUNCE_KIND :: string where
  "CONTRIB_ANNOUNCE_KIND = ''diloco-contrib-announce''"

definition contrib_announce_payload :: "world \<Rightarrow> json \<Rightarrow> json \<Rightarrow> json" where
  "contrib_announce_payload W delta_cid signer = JObj
     [(''kind'', JStr CONTRIB_ANNOUNCE_KIND), (''delta_cid'', JStr (str_of W delta_cid)),
      (''signer'', if signer = JNull then JNull else JStr (str_of W signer))]"

definition parse_contrib_announce :: "world \<Rightarrow> json \<Rightarrow> (string \<times> json) option" where
  "parse_contrib_announce W payload = (case payload of
     JObj kvs \<Rightarrow>
       if rget kvs ''kind'' \<noteq> JStr CONTRIB_ANNOUNCE_KIND then None
       else if \<not> truthy (rget kvs ''delta_cid'') then None
       else Some (str_of W (rget kvs ''delta_cid''), rget kvs ''signer'')
   | _ \<Rightarrow> None)"

definition announce_contrib :: "world \<Rightarrow> (json \<Rightarrow> exn + unit) \<Rightarrow> json \<Rightarrow> json \<Rightarrow> json option" where
  "announce_contrib W broadcast delta_cid signer =
     (let payload = contrib_announce_payload W delta_cid signer
      in case broadcast payload of Inl _ \<Rightarrow> None | Inr _ \<Rightarrow> Some payload)"

subsection \<open>The declared corpus\<close>

definition corpus_enforce_on :: "environ \<Rightarrow> bool" where
  "corpus_enforce_on env = env_flag env ''NEURAHASH_DILOCO_CORPUS_ENFORCE''"

datatype corpus_reason = NoCoordCorpus | CorpusMissing | NoDeclaredCorpus | CorpusMatch | CorpusMismatch

definition corpus_sha_ok :: "world \<Rightarrow> environ \<Rightarrow> contrib \<Rightarrow> json \<Rightarrow> bool option \<Rightarrow> bool \<times> corpus_reason" where
  "corpus_sha_ok W env r coord enforce =
     (let enforce = (case enforce of None \<Rightarrow> corpus_enforce_on env | Some b \<Rightarrow> b)
      in if \<not> truthy coord then (True, NoCoordCorpus)
         else if rget r ''corpus_sha'' = JNull
         then (if enforce then (False, CorpusMissing) else (True, NoDeclaredCorpus))
         else if str_lower (str_strip (str_of W (rget r ''corpus_sha''))) = str_lower (str_strip (str_of W coord))
         then (True, CorpusMatch)
         else (False, CorpusMismatch))"

subsection \<open>Fetching a delta\<close>

text \<open>
  A gateway is the text before and after the content id. \<open>http_read\<close> is the body of an URL, \<open>cid_ok\<close>
  the content-id checker of \<^verbatim>\<open>tools/ipfs_checkpoint.py\<close> (\<open>None\<close> where it cannot be imported) and
  \<open>decode\<close> the npz and delta-codec decoder.
\<close>

definition DEFAULT_GATEWAYS :: "(string \<times> string) list" where
  "DEFAULT_GATEWAYS = [(''https://gateway.pinata.cloud/ipfs/'', ''''), (''https://'', ''.ipfs.w3s.link''),
     (''https://'', ''.ipfs.dweb.link''), (''https://ipfs.io/ipfs/'', '''')]"

definition cid_matches :: "environ \<Rightarrow> (string \<Rightarrow> string \<Rightarrow> exn + bool) option \<Rightarrow> string \<Rightarrow> string \<Rightarrow> exn + bool" where
  "cid_matches env checker cid data = (case checker of
     None \<Rightarrow> Inr ((case env ''NEURAHASH_IPFS_STRICT'' of None \<Rightarrow> '''' | Some x \<Rightarrow> x) \<notin> {''1'', ''true'', ''yes'', ''on''})
   | Some c \<Rightarrow> c cid data)"

definition fetch_one ::
  "environ \<Rightarrow> (string \<Rightarrow> string \<Rightarrow> exn + bool) option \<Rightarrow> (string \<Rightarrow> exn + string) \<Rightarrow> (string \<Rightarrow> exn + 'a params)
     \<Rightarrow> string \<Rightarrow> nat \<Rightarrow> bool \<Rightarrow> string \<times> string \<Rightarrow> 'a params option" where
  "fetch_one env checker http_read decode cid max_bytes verify_cid g =
     (case bindE (http_read (fst g @ cid @ snd g)) (\<lambda>data.
        if max_bytes < length data then Inr None
        else bindE (if verify_cid then cid_matches env checker cid data else Inr True) (\<lambda>ok.
          if \<not> ok then Inr None
          else bindE (decode data) (\<lambda>delta. Inr (if delta = [] then None else Some delta)))) of
        Inl _ \<Rightarrow> None | Inr x \<Rightarrow> x)"

fun fetch_delta ::
  "environ \<Rightarrow> (string \<Rightarrow> string \<Rightarrow> exn + bool) option \<Rightarrow> (string \<Rightarrow> exn + string) \<Rightarrow> (string \<Rightarrow> exn + 'a params)
     \<Rightarrow> string \<Rightarrow> nat \<Rightarrow> bool \<Rightarrow> (string \<times> string) list \<Rightarrow> exn + 'a params" where
  "fetch_delta env checker http_read decode cid max_bytes verify_cid [] = Inl (RuntimeError ''all gateways failed'')"
| "fetch_delta env checker http_read decode cid max_bytes verify_cid (g # gs) =
     (case fetch_one env checker http_read decode cid max_bytes verify_cid g of
        Some delta \<Rightarrow> Inr delta
      | None \<Rightarrow> fetch_delta env checker http_read decode cid max_bytes verify_cid gs)"

end
