(* ===== verification/Registry_Props.thy ===== *)
theory Registry_Props
  imports Merge_Registry
begin

text \<open>The properties of the contribution registry.\<close>

subsection \<open>The signed message\<close>

lemma split_at_sep: "a @ c # x = b @ c # y \<Longrightarrow> c \<notin> set a \<Longrightarrow> c \<notin> set b \<Longrightarrow> a = b \<and> x = y"
proof (induction a arbitrary: b)
  case Nil
  then show ?case by (cases b) auto
next
  case (Cons u a)
  then show ?case by (cases b) auto
qed

text \<open>Fields joined with a separator that none of them contains determine the fields.\<close>

fun join_fields :: "'c \<Rightarrow> 'c list list \<Rightarrow> 'c list" where
  "join_fields c [] = []"
| "join_fields c [f] = f"
| "join_fields c (f # fs) = f @ c # join_fields c fs"

lemma count_join:
  "fs \<noteq> [] \<Longrightarrow> count_list (join_fields c fs) c = length fs - 1 + sum_list (map (\<lambda>f. count_list f c) fs)"
  by (induction c fs rule: join_fields.induct) (auto simp: count_list_append)

lemma join_fields_inj_free:
  assumes "length fs = length gs" "\<forall>f \<in> set fs. c \<notin> set f" "\<forall>g \<in> set gs. c \<notin> set g"
    "join_fields c fs = join_fields c gs"
  shows "fs = gs"
  using assms
proof (induction fs arbitrary: gs)
  case (Cons f fs)
  then obtain g gs' where gs: "gs = g # gs'" by (cases gs) auto
  show ?case
  proof (cases fs)
    case Nil
    then show ?thesis using Cons.prems gs by (cases gs') auto
  next
    case f: (Cons f' fs')
    then obtain g' gs'' where g: "gs' = g' # gs''" using Cons.prems gs by (cases gs') auto
    have "f @ c # join_fields c fs = g @ c # join_fields c gs'" using Cons.prems(4) gs f g by simp
    then have "f = g \<and> join_fields c fs = join_fields c gs'"
      using Cons.prems(2,3) gs by (intro split_at_sep) auto
    then show ?thesis using Cons.IH [of gs'] Cons.prems gs by auto
  qed
qed simp

lemma join_fields_inj:
  assumes "length fs = length gs" "\<forall>f \<in> set fs. c \<notin> set f" "join_fields c fs = join_fields c gs"
  shows "fs = gs"
proof (cases "fs = []")
  case False
  then have gs: "gs \<noteq> []" using assms(1) by auto
  have none: "sum_list (map (\<lambda>f. count_list f c) fs) = 0"
    using assms(2) by (simp add: sum_list_eq_0_iff count_list_0_iff)
  have "sum_list (map (\<lambda>f. count_list f c) fs) = sum_list (map (\<lambda>f. count_list f c) gs)"
    using count_join [OF False, of c] count_join [OF gs, of c] assms by simp
  with none have "\<forall>g \<in> set gs. c \<notin> set g"
    by (simp add: sum_list_eq_0_iff count_list_0_iff)
  then show ?thesis by (rule join_fields_inj_free [OF assms(1,2) _ assms(3)])
qed (use assms in simp)

definition message_fields :: "world \<Rightarrow> json list \<Rightarrow> string list" where
  "message_fields W js = map (str_of W) js"

lemma contrib_message_join:
  "contrib_canonical_message W d b n x y
     = join_fields (char_of (10 :: nat)) (CONTRIB_SIG_VERSION # message_fields W [d, b, n, x, y])"
  by (simp add: contrib_canonical_message_def newline_def message_fields_def)

lemma version_no_newline: "char_of (10 :: nat) \<notin> set CONTRIB_SIG_VERSION"
  by (simp add: CONTRIB_SIG_VERSION_def char_of_def)

text \<open>a contribution signature whose signer put no line break into the fields fixes every one
  of them: any record that it verifies for, whatever that record contains, has the same content id,
  base round, contributor and claimed losses, as text.\<close>

theorem contribution_signature_covers_its_fields:
  assumes "contrib_canonical_message W d b n x y = contrib_canonical_message W d' b' n' x' y'"
    "\<forall>j \<in> {d, b, n, x, y}. char_of (10 :: nat) \<notin> set (str_of W j)"
  shows "str_of W d' = str_of W d \<and> str_of W b' = str_of W b \<and> str_of W n' = str_of W n
    \<and> str_of W x' = str_of W x \<and> str_of W y' = str_of W y"
proof -
  have "CONTRIB_SIG_VERSION # message_fields W [d, b, n, x, y]
      = CONTRIB_SIG_VERSION # message_fields W [d', b', n', x', y']"
  proof (rule join_fields_inj)
    show "join_fields (char_of (10 :: nat)) (CONTRIB_SIG_VERSION # message_fields W [d, b, n, x, y])
      = join_fields (char_of (10 :: nat)) (CONTRIB_SIG_VERSION # message_fields W [d', b', n', x', y'])"
      unfolding contrib_message_join [symmetric] by (rule assms(1))
  qed (use assms(2) version_no_newline in \<open>simp_all add: message_fields_def\<close>)
  then show ?thesis by (simp add: message_fields_def)
qed

theorem contribution_signature_covers_its_fields_witness:
  "str_of toy_world (JStr ''cid'') = ''cid''"
  using contribution_signature_covers_its_fields [of toy_world "JStr ''cid''" "JInt 1" "JStr ''m''" JNull JNull
      "JStr ''cid''" "JInt 1" "JStr ''m''" JNull JNull]
  by simp

subsection \<open>Dedup\<close>

definition cid_key :: "contrib \<Rightarrow> exn + json" where
  "cid_key r = hash_key (rget r ''delta_cid'')"

text \<open>The reference: the first signed record of a content id, or else the first.\<close>

definition preferred :: "json \<Rightarrow> contrib list \<Rightarrow> contrib option" where
  "preferred c rs = (case find (\<lambda>r. cid_key r = Inr c \<and> sig_flag r) rs of
     Some r \<Rightarrow> Some r | None \<Rightarrow> find (\<lambda>r. cid_key r = Inr c) rs)"

definition first_cids :: "contrib list \<Rightarrow> json list" where
  "first_cids rs = rev (remdups (rev (List.map_filter (\<lambda>r. case cid_key r of Inr c \<Rightarrow> Some c | Inl _ \<Rightarrow> None) rs)))"

definition dedup_ok :: "contrib list \<Rightarrow> dedup_state \<Rightarrow> bool" where
  "dedup_ok rs s \<longleftrightarrow> dd_order s = first_cids rs \<and> (\<forall>c. map_of (dd_chosen s) c = preferred c rs)"

lemma find_snoc: "find P (xs @ [x]) = (case find P xs of Some y \<Rightarrow> Some y | None \<Rightarrow> if P x then Some x else None)"
  by (induction xs) auto

lemma first_cids_snoc:
  "cid_key r = Inr c \<Longrightarrow> first_cids (rs @ [r]) = (if c \<in> set (first_cids rs) then first_cids rs else first_cids rs @ [c])"
  by (auto simp: first_cids_def map_filter_def)

lemma in_first_cids: "c \<in> set (first_cids rs) \<longleftrightarrow> (\<exists>r \<in> set rs. cid_key r = Inr c)"
proof -
  have "c \<in> set (List.map_filter (\<lambda>r. case cid_key r of Inr c \<Rightarrow> Some c | Inl _ \<Rightarrow> None) rs)
      \<longleftrightarrow> (\<exists>r \<in> set rs. cid_key r = Inr c)"
    by (induction rs) (auto simp: List.map_filter_simps split: sum.splits option.splits)
  then show ?thesis by (simp add: first_cids_def)
qed

lemma find_None: "find P xs = None \<longleftrightarrow> (\<forall>x \<in> set xs. \<not> P x)"
  by (induction xs) auto

lemma find_Some: "find P xs = Some x \<Longrightarrow> x \<in> set xs \<and> P x"
  by (induction xs) (auto split: if_splits)

lemma preferred_None: "preferred c rs = None \<longleftrightarrow> (\<forall>r \<in> set rs. cid_key r \<noteq> Inr c)"
  by (auto simp: preferred_def find_None dest: find_Some split: option.splits)

lemma preferred_member: "preferred c rs = Some r \<Longrightarrow> r \<in> set rs \<and> cid_key r = Inr c"
  by (auto simp: preferred_def dest: find_Some split: option.splits)

lemma preferred_signed:
  "preferred c rs = Some w \<Longrightarrow> sig_flag w \<longleftrightarrow> (\<exists>r \<in> set rs. cid_key r = Inr c \<and> sig_flag r)"
  by (auto simp: preferred_def find_None dest: find_Some split: option.splits)

lemma preferred_snoc:
  "preferred c (rs @ [r]) = (if cid_key r \<noteq> Inr c then preferred c rs
     else case preferred c rs of None \<Rightarrow> Some r | Some w \<Rightarrow> if sig_flag r \<and> \<not> sig_flag w then Some r else Some w)"
proof -
  define A B where AB: "A = find (\<lambda>r. cid_key r = Inr c \<and> sig_flag r) rs" "B = find (\<lambda>r. cid_key r = Inr c) rs"
  have A: "sig_flag w" if "A = Some w" for w using find_Some [OF that [unfolded AB]] by simp
  have B: "A = None" if "B = None" using that unfolding AB find_None by simp
  have AB': "\<not> sig_flag w" if "A = None" "B = Some w" for w
    using that(1) find_Some [OF that(2) [unfolded AB]] unfolding AB find_None by blast
  show ?thesis
    unfolding preferred_def find_snoc AB [symmetric]
    by (cases A; cases B) (auto dest: A B AB')
qed

lemma dedup_step_ok:
  assumes "dedup_ok rs s" "cid_key r = Inr c"
  shows "\<exists>s'. dedup_step s r = Inr s' \<and> dedup_ok (rs @ [r]) s'"
proof -
  have ok: "dd_order s = first_cids rs" "\<And>c. map_of (dd_chosen s) c = preferred c rs"
    using assms(1) by (auto simp: dedup_ok_def)
  have mem: "c \<in> set (first_cids rs) \<longleftrightarrow> preferred c rs \<noteq> None"
    by (auto simp: in_first_cids preferred_None)
  show ?thesis
    using assms(2) mem
    by (auto simp: dedup_step_def cid_key_def [symmetric] dedup_ok_def ok preferred_snoc first_cids_snoc fun_upd_apply
        split: option.split)
qed

lemma dedup_run_ok:
  "dedup_ok rs s \<Longrightarrow> \<forall>r \<in> set qs. \<exists>c. cid_key r = Inr c \<Longrightarrow> \<exists>s'. dedup_run s qs = Inr s' \<and> dedup_ok (rs @ qs) s'"
proof (induction qs arbitrary: rs s)
  case (Cons q qs)
  from Cons.prems(2) obtain c where c: "cid_key q = Inr c" by auto
  obtain s' where s': "dedup_step s q = Inr s'" "dedup_ok (rs @ [q]) s'"
    using dedup_step_ok [OF Cons.prems(1) c] by blast
  have "\<exists>s''. dedup_run s' qs = Inr s'' \<and> dedup_ok ((rs @ [q]) @ qs) s''"
    by (rule Cons.IH [OF s'(2)]) (use Cons.prems in auto)
  then show ?case using s'(1) by simp
qed simp

lemma hash_key_error: "hash_key j = Inl e \<Longrightarrow> e = TypeError"
  by (cases j rule: hash_key.cases) (auto split: if_splits)

lemma dedup_run_raises:
  "\<exists>r \<in> set qs. \<exists>e. cid_key r = Inl e \<Longrightarrow> dedup_run s qs = Inl TypeError"
proof (induction qs arbitrary: s)
  case (Cons q qs)
  show ?case
  proof (cases "cid_key q")
    case (Inl e)
    then show ?thesis using hash_key_error by (auto simp: dedup_step_def cid_key_def)
  next
    case (Inr c)
    then show ?thesis using Cons by (simp add: dedup_step_def cid_key_def [symmetric])
  qed
qed simp

lemma dedup_is_first_signed_ref:
  "dedup_prefer_signed rs =
     (if \<exists>r \<in> set rs. \<exists>e. cid_key r = Inl e then Inl TypeError
      else Inr (map (\<lambda>c. the (preferred c rs)) (first_cids rs)))"
proof (cases "\<exists>r \<in> set rs. \<exists>e. cid_key r = Inl e")
  case True
  then show ?thesis by (simp add: dedup_prefer_signed_def dedup_run_raises)
next
  case False
  then have "\<forall>r \<in> set rs. \<exists>c. cid_key r = Inr c" by (metis sum.exhaust)
  moreover have "dedup_ok [] \<lparr>dd_chosen = [], dd_order = []\<rparr>"
    by (simp add: dedup_ok_def first_cids_def map_filter_def preferred_def)
  ultimately obtain s where s: "dedup_run \<lparr>dd_chosen = [], dd_order = []\<rparr> rs = Inr s" "dedup_ok rs s"
    using dedup_run_ok by (metis append_Nil)
  have "mapE (\<lambda>c. orE KeyError (map_of (dd_chosen s) c)) cs = Inr (map (\<lambda>c. the (preferred c rs)) cs)"
    if "set cs \<subseteq> set (first_cids rs)" for cs
    using that
  proof (induction cs)
    case (Cons c cs)
    then obtain r where "preferred c rs = Some r"
      by (metis in_first_cids list.set_intros(1) not_None_eq preferred_None subsetD)
    then show ?case using Cons s(2) by (simp add: dedup_ok_def)
  qed simp
  then have "mapE (\<lambda>c. orE KeyError (map_of (dd_chosen s) c)) (dd_order s)
      = Inr (map (\<lambda>c. the (preferred c rs)) (first_cids rs))"
    using s(2) by (simp add: dedup_ok_def)
  then show ?thesis using False s(1) by (simp add: dedup_prefer_signed_def)
qed

text \<open>deduplication raises if a record's content id is not hashable; otherwise it returns, in order
  of first appearance of each content id, the first record that is signed, or the first of all if none is:
  no order of arrival lets an unsigned record take the place of a signed one.\<close>

theorem dedup_is_first_signed:
  "dedup_prefer_signed rs =
     (if \<exists>r \<in> set rs. \<exists>e. cid_key r = Inl e then Inl TypeError
      else Inr (map (\<lambda>c. the (preferred c rs)) (first_cids rs)))"
  by (rule dedup_is_first_signed_ref)

subsection \<open>Polling\<close>

lemma read_entry_sound:
  assumes "read_entry W req get_json base e = Some r"
  shows "rget r ''sig_ok'' = JBool (sig_flag r)"
    "sig_flag r \<longrightarrow> (\<exists>sig a. rget r ''sig'' = JStr sig \<and> rget r ''address'' = JStr a
       \<and> recover_bytes W (record_message W r) sig = Inr a)"
    "req \<longrightarrow> sig_flag r"
    "rget r ''address'' = (case recover_contrib_signer W r of None \<Rightarrow> JNull | Some a \<Rightarrow> JStr a)"
proof -
  obtain name meta where e: "e = (name, meta)" by force
  obtain r0 where r0: "check_record W req name r0 = Some r"
    using assms by (auto simp: read_entry_def e split: if_splits sum.splits json.splits)
  define r1 where "r1 = dset ''name'' (JStr name) r0"
  define ok where "ok = (case recover_contrib_signer W r1 of None \<Rightarrow> False
     | Some a \<Rightarrow> rget r1 ''address'' \<noteq> JNull \<and> str_lower a = str_lower (str_of W (rget r1 ''address'')))"
  have r: "r = dset ''address'' (case recover_contrib_signer W r1 of None \<Rightarrow> JNull | Some a \<Rightarrow> JStr a)
                        (dset ''sig_ok'' (JBool ok) r1)" and req: "req \<longrightarrow> ok"
    using r0 [unfolded check_record_def Let_def, folded r1_def, folded ok_def] by (simp_all split: if_splits)
  have get: "rget r k = (if k = ''address'' then (case recover_contrib_signer W r1 of None \<Rightarrow> JNull | Some a \<Rightarrow> JStr a)
      else if k = ''sig_ok'' then JBool ok else rget r1 k)" for k
    by (simp add: r rget_def)
  have msg: "record_message W r = record_message W r1" by (simp add: record_message_def get)
  have same: "recover_contrib_signer W r = recover_contrib_signer W r1"
    unfolding recover_contrib_signer_def msg by (simp add: get)
  have flag: "sig_flag r = ok" by (simp add: sig_flag_def get)
  show "rget r ''sig_ok'' = JBool (sig_flag r)" "req \<longrightarrow> sig_flag r"
    "rget r ''address'' = (case recover_contrib_signer W r of None \<Rightarrow> JNull | Some a \<Rightarrow> JStr a)"
    using req by (simp_all add: flag get same)
  show "sig_flag r \<longrightarrow> (\<exists>sig a. rget r ''sig'' = JStr sig \<and> rget r ''address'' = JStr a
       \<and> recover_bytes W (record_message W r) sig = Inr a)"
  proof
    assume "sig_flag r"
    then obtain a where a: "recover_contrib_signer W r = Some a"
      by (auto simp: flag ok_def same split: option.splits)
    then obtain sig where "rget r ''sig'' = JStr sig" "recover_bytes W (record_message W r) sig = Inr a"
      by (auto simp: recover_contrib_signer_def strE_def bindE_Inr_iff orE_Inr_iff
          split: if_splits sum.splits elim!: jstr.elims)
    moreover have "rget r ''address'' = JStr a" using a by (simp add: get same)
    ultimately show "\<exists>sig a. rget r ''sig'' = JStr sig \<and> rget r ''address'' = JStr a
       \<and> recover_bytes W (record_message W r) sig = Inr a" by blast
  qed
qed

lemma dedup_members:
  assumes "dedup_prefer_signed rs = Inr out"
  shows "set out \<subseteq> set rs"
proof -
  have "out = map (\<lambda>c. the (preferred c rs)) (first_cids rs)"
    using assms by (simp add: dedup_is_first_signed_ref split: if_splits)
  moreover have "the (preferred c rs) \<in> set rs" if "c \<in> set (first_cids rs)" for c
    using that preferred_member [of c rs] preferred_None [of c rs] by (cases "preferred c rs") (auto simp: in_first_cids)
  ultimately show ?thesis by auto
qed

text \<open>every record that polling a store returns as signed carries a signature, over the message of
  its own fields, of exactly the address it is credited to; the address of a record is never the one it
  declares but the recovered one or nothing; and where signatures are required only signed records come
  back.\<close>

theorem polled_records_are_authentic:
  assumes "poll_one_store W env get_json base = Inr out" "r \<in> set out"
  shows "(sig_flag r \<longrightarrow> (\<exists>sig a. rget r ''sig'' = JStr sig \<and> rget r ''address'' = JStr a
       \<and> recover_bytes W (record_message W r) sig = Inr a))
    \<and> rget r ''address'' = (case recover_contrib_signer W r of None \<Rightarrow> JNull | Some a \<Rightarrow> JStr a)
    \<and> (env_flag env ''NEURAHASH_DILOCO_REQUIRE_SIG'' \<longrightarrow> sig_flag r)"
proof -
  from assms obtain items where "dedup_prefer_signed (List.map_filter
      (read_entry W (env_flag env ''NEURAHASH_DILOCO_REQUIRE_SIG'') get_json base) items) = Inr out"
    by (auto simp: poll_one_store_def bindE_Inr_iff split: sum.splits)
  from dedup_members [OF this] assms(2) obtain e where
    "read_entry W (env_flag env ''NEURAHASH_DILOCO_REQUIRE_SIG'') get_json base e = Some r"
    by (auto simp: map_filter_def)
  from read_entry_sound [OF this] show ?thesis by blast
qed

definition demo_store :: "json \<Rightarrow> string \<Rightarrow> exn + json" where
  "demo_store cid url = Inr (if url = ''s/manifest''
     then JObj [(''contrib-m'', JObj [(''sha256'', JStr ''1'')])]
     else JObj [(''delta_cid'', cid), (''sig'', JStr ''0xm''), (''address'', JStr ''m'')])"

definition demo_record :: "json \<Rightarrow> contrib" where
  "demo_record cid = [(''delta_cid'', cid), (''sig'', JStr ''0xm''), (''address'', JStr ''m''),
     (''name'', JStr ''contrib-m''), (''sig_ok'', JBool True)]"

lemma demo_entry:
  "truthy cid \<Longrightarrow> read_entry toy_world req (demo_store cid) ''s'' (''contrib-m'', JObj [(''sha256'', JStr ''1'')])
     = Some (demo_record cid)"
  by (simp add: read_entry_def check_record_def demo_store_def rget_def starts_with_def rstrip_slash_def strE_def
      recover_contrib_signer_def recover_bytes_def toy_world_def demo_record_def orE_def Let_def hex_sig_def)

theorem polled_records_are_authentic_witness:
  "poll_one_store toy_world (\<lambda>_. None) (demo_store (JStr ''c'')) ''s'' = Inr [demo_record (JStr ''c'')]
   \<and> rget (demo_record (JStr ''c'')) ''address'' = JStr ''m''"
proof -
  have p: "poll_one_store toy_world (\<lambda>_. None) (demo_store (JStr ''c'')) ''s'' = Inr [demo_record (JStr ''c'')]"
    by (simp add: poll_one_store_def demo_store_def [of _ "''s/manifest''"] rstrip_slash_def manifest_items_def
        List.map_filter_simps demo_entry dedup_prefer_signed_def dedup_step_def)
      (simp add: demo_record_def rget_def)
  from polled_records_are_authentic [OF p, of "demo_record (JStr ''c'')"] p show ?thesis
    by (simp add: demo_record_def rget_def)
qed

text \<open>polling is not best effort. One entry of the manifest whose record names a list as its
  content id, which anyone can publish unsigned, makes the whole poll raise, whatever the honest
  records are, unless signatures are required.\<close>

theorem one_entry_breaks_the_poll:
  assumes "get_json (rstrip_slash base @ ''/manifest'') = Inr (JObj kvs)"
    "(name, meta) \<in> set kvs" "starts_with ''contrib-'' name"
    "getE meta ''sha256'' = Inr (JStr sha)" "get_json (rstrip_slash base @ ''/o/'' @ sha) = Inr (JObj r)"
    "map_of r ''delta_cid'' = Some (JList (x # xs))" "\<not> env_flag env ''NEURAHASH_DILOCO_REQUIRE_SIG''"
  shows "poll_one_store W env get_json base = Inl TypeError"
proof -
  have ne: "kvs \<noteq> []" using assms(2) by auto
  obtain r' where r': "read_entry W False get_json base (name, meta) = Some r'" "rget r' ''delta_cid'' = JList (x # xs)"
    using assms(3-6) by (simp add: read_entry_def check_record_def Let_def rget_def)
  have "r' \<in> set (List.map_filter (read_entry W False get_json base) kvs)"
    using assms(2) r'(1) by (force simp: map_filter_def)
  moreover have "cid_key r' = Inl TypeError" using r'(2) by (simp add: cid_key_def)
  ultimately have "dedup_prefer_signed (List.map_filter (read_entry W False get_json base) kvs) = Inl TypeError"
    by (auto simp: dedup_is_first_signed_ref)
  then show ?thesis
    using assms(1,7) ne by (simp add: poll_one_store_def manifest_items_def)
qed

theorem one_entry_breaks_the_poll_witness:
  "poll_one_store toy_world (\<lambda>_. None) (demo_store (JList [JNull])) ''s'' = Inl TypeError"
  by (rule one_entry_breaks_the_poll [where name = "''contrib-m''" and sha = "''1''"
      and meta = "JObj [(''sha256'', JStr ''1'')]" and x = JNull and xs = "[]"
      and kvs = "[(''contrib-m'', JObj [(''sha256'', JStr ''1'')])]"
      and r = "[(''delta_cid'', JList [JNull]), (''sig'', JStr ''0xm''), (''address'', JStr ''m'')]"])
    (simp_all add: demo_store_def rstrip_slash_def starts_with_def env_flag_def)

end
