(* ===== verification/Merge_Stream.thy ===== *)
theory Merge_Stream
  imports Merge_Registry
begin

text \<open>
  The streaming and asynchronous parts of \<^verbatim>\<open>neurahash/diloco_merge.py\<close>: the fragments of the trunk and
  the masked outer step, the outer step itself (\<^verbatim>\<open>neurahash/training_layer.py\<close>), the staleness bound,
  the lane pointer in its two versions with its publish stamp, and the slot clock.
\<close>

subsection \<open>Fragments\<close>

text \<open>\<^verbatim>\<open>float(v)\<close> of an environment text is a parameter, \<open>None\<close> where it raises.\<close>

definition stream_frac_env :: "(string \<Rightarrow> pyfloat option) \<Rightarrow> environ \<Rightarrow> rat" where
  "stream_frac_env float_of env =
     (case float_of (case env ''NEURAHASH_SHARDDILOCO_STREAM_FRAC'' of None \<Rightarrow> '''' | Some v \<Rightarrow> v) of
        Some (Fin f) \<Rightarrow> if 0 < f \<and> f < 1 then f else 1
      | _ \<Rightarrow> 1)"

definition stream_frac :: "(string \<Rightarrow> pyfloat option) \<Rightarrow> environ \<Rightarrow> rat" where
  "stream_frac float_of env = stream_frac_env float_of env"

definition shard_diloco_on :: "environ \<Rightarrow> bool" where
  "shard_diloco_on env = (str_lower (str_strip (env_or env ''NEURAHASH_SHARDDILOCO'' ''0''))
     \<notin> {'''', ''0'', ''false'', ''off'', ''no''})"

definition stream_num_fragments :: "rat \<Rightarrow> int" where
  "stream_num_fragments f = (if \<not> (0 < f \<and> f < 1) then 1 else max 1 (round_half_even (fdiv 1 f)))"

definition fragment_sel :: "nat \<Rightarrow> int \<Rightarrow> int \<Rightarrow> bool list" where
  "fragment_sel n num_fragments fragment =
     map (\<lambda>i. int i mod num_fragments = fragment mod num_fragments) [0..<n]"

definition trunk_fragment_mask :: "(string, nat list) pydict \<Rightarrow> int \<Rightarrow> int \<Rightarrow> (string, bool list) pydict" where
  "trunk_fragment_mask shapes nf fragment = map (\<lambda>(k, shp). (k, fragment_sel (prod_list shp) nf fragment)) shapes"

text \<open>\<^verbatim>\<open>flat[sel]\<close>, and \<^verbatim>\<open>full[sel] = vals\<close> over zeros, where a single value is broadcast and any other
  number of values than selected places raises.\<close>

definition select :: "bool list \<Rightarrow> 'e list \<Rightarrow> 'e list" where
  "select sel xs = map snd (filter fst (zip sel xs))"

fun scatter :: "'e \<Rightarrow> bool list \<Rightarrow> 'e list \<Rightarrow> 'e list" where
  "scatter z [] vs = []"
| "scatter z (False # sel) vs = z # scatter z sel vs"
| "scatter z (True # sel) [] = z # scatter z sel []"
| "scatter z (True # sel) (v # vs) = v # scatter z sel vs"

definition assign_selected :: "'e \<Rightarrow> bool list \<Rightarrow> 'e list \<Rightarrow> exn + 'e list" where
  "assign_selected z sel vs =
     (let n = length (filter id sel)
      in if length vs = n then Inr (scatter z sel vs)
         else if length vs = 1 then Inr (scatter z sel (replicate n (hd vs)))
         else Inl (ValueError ''cannot assign input values''))"

definition extract_trunk_fragment :: "('a, 'e) numpy \<Rightarrow> 'a params \<Rightarrow> int \<Rightarrow> int \<Rightarrow> 'a params" where
  "extract_trunk_fragment N trunk_delta nf fragment = map (\<lambda>(k, arr).
     let flat = np_flat N arr; xs = select (fragment_sel (length flat) nf fragment) flat
     in (k, np_array N xs [length xs])) trunk_delta"

definition rebuild_key ::
  "('a, 'e) numpy \<Rightarrow> 'a params \<Rightarrow> int \<Rightarrow> int \<Rightarrow> string \<times> nat list \<Rightarrow> exn + (string \<times> 'a)" where
  "rebuild_key N fragment_delta nf fragment entry = (case entry of (k, shp) \<Rightarrow>
     let n = prod_list shp; sel = fragment_sel n nf fragment
     in bindE (case map_of fragment_delta k of
                 None \<Rightarrow> Inr (replicate n (np_zero N))
               | Some vals \<Rightarrow> assign_selected (np_zero N) sel (np_flat N vals))
          (\<lambda>full. Inr (k, np_array N full shp)))"

definition reconstruct_trunk_fragment ::
  "('a, 'e) numpy \<Rightarrow> 'a params \<Rightarrow> (string, nat list) pydict \<Rightarrow> int \<Rightarrow> int \<Rightarrow> exn + 'a params" where
  "reconstruct_trunk_fragment N fragment_delta shapes nf fragment =
     mapE (rebuild_key N fragment_delta nf fragment) shapes"

definition stream_publish_trunk :: "('a, 'e) numpy \<Rightarrow> 'a params \<Rightarrow> int \<Rightarrow> rat \<Rightarrow> 'a params" where
  "stream_publish_trunk N trunk_delta base_round fr =
     (if \<not> (0 < fr \<and> fr < 1) then trunk_delta
      else (let nf = stream_num_fragments fr in extract_trunk_fragment N trunk_delta nf (base_round mod nf)))"

subsection \<open>The outer step\<close>

definition delta_arrays :: "'a params list \<Rightarrow> string \<Rightarrow> 'a list" where
  "delta_arrays deltas k = List.map_filter (\<lambda>d. map_of d k) deltas"

definition outer_key ::
  "('a, 'e) numpy \<Rightarrow> rat \<Rightarrow> rat \<Rightarrow> 'a params list \<Rightarrow> 'a params \<times> 'a params \<Rightarrow> string \<Rightarrow> 'a params \<times> 'a params" where
  "outer_key N lr beta deltas st k = (case st of (params, momentum) \<Rightarrow>
     (case map_of params k of
        None \<Rightarrow> st
      | Some p \<Rightarrow>
          if delta_arrays deltas k = [] then st
          else (let avg = np_mean N (delta_arrays deltas k);
                    prev = (case map_of momentum k of None \<Rightarrow> np_zeros_like N p | Some m \<Rightarrow> m);
                    m = np_momentum N beta prev avg
                in (dset k (np_step N p lr m) params, dset k m momentum))))"

definition outer_aggregate ::
  "('a, 'e) numpy \<Rightarrow> rat \<Rightarrow> rat \<Rightarrow> 'a params \<Rightarrow> 'a params list \<Rightarrow> 'a params \<Rightarrow> 'a params \<times> 'a params" where
  "outer_aggregate N lr beta params deltas momentum =
     (if deltas = [] then (params, momentum)
      else foldl (outer_key N lr beta deltas) (params, momentum) (dkeys params))"

definition masked_key ::
  "('a, 'e) numpy \<Rightarrow> rat \<Rightarrow> rat \<Rightarrow> (string, bool list) pydict \<Rightarrow> 'a params list \<Rightarrow> 'a params \<times> 'a params \<Rightarrow> string
     \<Rightarrow> 'a params \<times> 'a params" where
  "masked_key N lr beta masks deltas st k = (case st of (params, momentum) \<Rightarrow>
     (case map_of params k of
        None \<Rightarrow> st
      | Some p \<Rightarrow>
          if delta_arrays deltas k = [] then st
          else (let avg = np_mean N (delta_arrays deltas k);
                    prev = (case map_of momentum k of None \<Rightarrow> np_zeros_like N p | Some m \<Rightarrow> m);
                    newm = np_momentum N beta prev avg
                in case map_of masks k of
                     None \<Rightarrow> (dset k (np_step N p lr newm) params, dset k newm momentum)
                   | Some b \<Rightarrow> (dset k (np_where N b (np_step N p lr newm) p) params,
                               dset k (np_where N b newm prev) momentum))))"

definition outer_aggregate_masked ::
  "('a, 'e) numpy \<Rightarrow> rat \<Rightarrow> rat \<Rightarrow> 'a params \<Rightarrow> 'a params list \<Rightarrow> 'a params \<Rightarrow> (string, bool list) pydict
     \<Rightarrow> 'a params \<times> 'a params" where
  "outer_aggregate_masked N lr beta params deltas momentum masks =
     (if deltas = [] then (params, momentum)
      else foldl (masked_key N lr beta masks deltas) (params, momentum) (dkeys params))"

subsection \<open>Staleness\<close>

definition max_staleness_env :: "environ \<Rightarrow> int option" where
  "max_staleness_env env =
     (case int_of_str (case env ''NEURAHASH_SHARDDILOCO_MAX_STALENESS'' of None \<Rightarrow> '''' | Some v \<Rightarrow> v) of
        Some n \<Rightarrow> if 0 < n then Some n else None
      | None \<Rightarrow> None)"

definition max_staleness :: "environ \<Rightarrow> int option" where
  "max_staleness env = max_staleness_env env"

datatype staleness = NoStalenessBound | NoBaseRound | Fresh int int | Stale int int

definition staleness_ok :: "int option \<Rightarrow> int \<Rightarrow> int option \<Rightarrow> bool \<times> staleness" where
  "staleness_ok base_round coord_round max_stale = (case max_stale of
     None \<Rightarrow> (True, NoStalenessBound)
   | Some ms \<Rightarrow>
       if ms \<le> 0 then (True, NoStalenessBound)
       else (case base_round of
               None \<Rightarrow> (True, NoBaseRound)
             | Some b \<Rightarrow> (let age = coord_round - b in
                 if age \<le> ms then (True, Fresh age ms) else (False, Stale age ms))))"

definition token_quality_weight :: "rat \<Rightarrow> rat \<Rightarrow> rat" where
  "token_quality_weight steps tokens =
     (if steps \<le> 0 \<or> tokens \<le> 0 then 0
      else fmul (rnd64 tokens) (fdiv (rnd64 tokens) (rnd64 steps)))"

subsection \<open>The lane pointer\<close>

text \<open>\<open>last_ms\<close> is \<^verbatim>\<open>_SD_LAST_STAMP\<close>; the clock is an argument.\<close>

definition sd_publish_stamp :: "int \<Rightarrow> rat \<Rightarrow> int" where
  "sd_publish_stamp last_ms now =
     (let x = fmul now 1000; ms = (if 0 \<le> x then \<lfloor>x\<rfloor> else \<lceil>x\<rceil>)
      in if ms \<le> last_ms then last_ms + 1 else ms)"

definition int_values :: "(string \<times> json) list \<Rightarrow> exn + (string \<times> json) list" where
  "int_values kvs = mapE (\<lambda>(k, v). bindE (intE v) (\<lambda>n. Inr (k, JInt n))) kvs"

definition sd_pointer_encode ::
  "int \<Rightarrow> (string \<times> json) list option \<Rightarrow> json \<Rightarrow> bool \<Rightarrow> int option \<Rightarrow> exn + json" where
  "sd_pointer_encode event slot_rounds model_root done published_at =
     bindE (case slot_rounds of None \<Rightarrow> Inr [] | Some kvs \<Rightarrow> int_values kvs) (\<lambda>rounds.
       Inr (JObj ([(''v'', JInt 2), (''event'', JInt event), (''rounds'', JObj rounds),
                   (''model_root'', model_root), (''done'', JBool done),
                   (''round'', JInt event), (''state_cid'', model_root)]
                  @ (case published_at of None \<Rightarrow> [] | Some p \<Rightarrow> [(''published_at'', JInt p)]))))"

text \<open>\<^verbatim>\<open>dict(x).items()\<close> of a dictionary or of a list of pairs with text keys, a later pair replacing an
  earlier one.\<close>

fun pair_of :: "json \<Rightarrow> exn + (string \<times> json)" where
  "pair_of (JList [JStr k, v]) = Inr (k, v)"
| "pair_of (JStr [a, b]) = Inr ([a], JStr [b])"
| "pair_of _ = Inl TypeError"

definition items_of :: "json \<Rightarrow> exn + (string \<times> json) list" where
  "items_of j = (case j of
     JObj kvs \<Rightarrow> Inr kvs
   | JList xs \<Rightarrow> bindE (mapE pair_of xs) (\<lambda>ps. Inr (foldl (\<lambda>d (k, v). dset k v d) [] ps))
   | JStr [] \<Rightarrow> Inr []
   | _ \<Rightarrow> Inl TypeError)"

text \<open>
  \<^verbatim>\<open>int(raw)\<close> of the stamp: \<^verbatim>\<open>TypeError\<close> and \<^verbatim>\<open>ValueError\<close> are caught. A number that is not finite is an
  infinity here, for which \<^verbatim>\<open>int\<close> raises \<^verbatim>\<open>OverflowError\<close> (a NaN raises \<^verbatim>\<open>ValueError\<close> and is ignored
  like any other text).
\<close>

definition sd_ptr_with_stamp :: "(string \<times> json) list \<Rightarrow> (string \<times> json) list \<Rightarrow> exn + (string \<times> json) list" where
  "sd_ptr_with_stamp out obj = (case map_of obj ''published_at'' of
     None \<Rightarrow> Inr out
   | Some JNull \<Rightarrow> Inr out
   | Some (JNum NonFin) \<Rightarrow> Inl OverflowError
   | Some raw \<Rightarrow> (case jint raw of None \<Rightarrow> Inr out | Some n \<Rightarrow> Inr (dset ''published_at'' (JInt n) out)))"

definition missing_key :: "string list \<Rightarrow> (string \<times> json) list \<Rightarrow> string option" where
  "missing_key ks obj = find (\<lambda>k. map_of obj k = None) ks"

definition decoded ::
  "int \<Rightarrow> int \<Rightarrow> json \<Rightarrow> json \<Rightarrow> (string \<times> json) list \<Rightarrow> exn + (string \<times> json) list" where
  "decoded v event rounds root_id obj = sd_ptr_with_stamp
     [(''v'', JInt v), (''event'', JInt event), (''slot_rounds'', rounds), (''model_root'', root_id),
      (''done'', JBool (truthy (get_or (JObj obj) ''done'' (JBool False))))] obj"

definition sd_pointer_decode :: "json \<Rightarrow> exn + (string \<times> json) list" where
  "sd_pointer_decode obj = (case obj of
     JObj kvs \<Rightarrow>
       if map_of kvs ''v'' \<in> {Some (JInt 2), Some (JNum (Fin 2))} then
         (case missing_key [''event'', ''rounds'', ''model_root''] kvs of
            Some k \<Rightarrow> Inl (ValueError k)
          | None \<Rightarrow>
              bindE (intE (rget kvs ''event'')) (\<lambda>e.
              bindE (bindE (items_of (rget kvs ''rounds'')) int_values) (\<lambda>rs.
                decoded 2 e (JObj rs) (rget kvs ''model_root'') kvs)))
       else
         (case missing_key [''round'', ''state_cid''] kvs of
            Some k \<Rightarrow> Inl (ValueError k)
          | None \<Rightarrow>
              bindE (intE (rget kvs ''round'')) (\<lambda>e. decoded 1 e JNull (rget kvs ''state_cid'') kvs))
   | _ \<Rightarrow> Inl (ValueError ''expected a dict pointer''))"

subsection \<open>The slot clock\<close>

record 's slot_clock =
  sc_event :: int
  sc_slot_rounds :: "('s, int) pydict"

definition new_slot_clock :: "'s slot_clock" where
  "new_slot_clock = \<lparr>sc_event = 0, sc_slot_rounds = []\<rparr>"

definition slot_round :: "'s slot_clock \<Rightarrow> 's \<Rightarrow> int" where
  "slot_round c slot = dget (sc_slot_rounds c) slot 0"

definition advance :: "'s slot_clock \<Rightarrow> 's \<Rightarrow> (int \<times> int) \<times> 's slot_clock" where
  "advance c slot =
     (let event = sc_event c + 1; rounds = dset slot (slot_round c slot + 1) (sc_slot_rounds c)
      in ((event, dget rounds slot 0), \<lparr>sc_event = event, sc_slot_rounds = rounds\<rparr>))"

definition clock_age :: "'s slot_clock \<Rightarrow> int \<Rightarrow> int" where
  "clock_age c base_event = (let age = sc_event c - base_event in if 0 < age then age else 0)"

definition clock_fresh :: "'s slot_clock \<Rightarrow> int option \<Rightarrow> int option \<Rightarrow> bool \<times> staleness" where
  "clock_fresh c base_event max_stale = staleness_ok base_event (sc_event c) max_stale"

end
