(* ===== verification/Shard_Round.thy ===== *)
theory Shard_Round
  imports Merge_Gate Merge_Stream
begin

text \<open>
  The sharded merge round of \<^verbatim>\<open>neurahash/diloco_merge.py\<close>: the flop meter, the secret rotated probe,
  one outer round over the trunk and the experts (\<^verbatim>\<open>shard_merge_round\<close>) and the payment of the
  measured held-out gain (\<^verbatim>\<open>attribute_minted\<close>). A contribution is a dictionary; its entries are the
  fields of a record here, \<open>None\<close> where the key is absent. The round's state is the trunk, the experts,
  the momentum and the meter. Where the code raises in the middle of a round the error is the result.
\<close>

subsection \<open>The flop meter\<close>

record flop_meter =
  fm_fwd :: rat
  fm_train :: rat
  fm_verify :: rat

definition new_meter :: "rat \<Rightarrow> flop_meter" where
  "new_meter fwd = \<lparr>fm_fwd = fwd, fm_train = 0, fm_verify = 0\<rparr>"

definition add_train :: "flop_meter \<Rightarrow> int \<Rightarrow> flop_meter" where
  "add_train m n = m\<lparr>fm_train := fadd (fm_train m) (fmul (fmul 3 (fm_fwd m)) (rnd64 (of_int n)))\<rparr>"

definition add_verify :: "flop_meter \<Rightarrow> int \<Rightarrow> flop_meter" where
  "add_verify m n = m\<lparr>fm_verify := fadd (fm_verify m) (fmul (fm_fwd m) (rnd64 (of_int n)))\<rparr>"

definition meter_total :: "flop_meter \<Rightarrow> rat" where
  "meter_total m = fadd (fm_train m) (fm_verify m)"

definition gain_per_flop :: "flop_meter \<Rightarrow> xfloat \<Rightarrow> rat option \<Rightarrow> xfloat" where
  "gain_per_flop m gain flops =
     (let f = (case flops of None \<Rightarrow> meter_total m | Some x \<Rightarrow> x) in if f \<noteq> 0 then xdiv gain (XFin f) else XFin 0)"

subsection \<open>The secret probe\<close>

text \<open>
  A pool is the private held-out data of an expert. \<open>draw seed high n\<close> is
  \<^verbatim>\<open>np.random.default_rng(seed).integers(0, high, size=n)\<close>; \<open>parse\<close> is \<^verbatim>\<open>int(v, 0)\<close> and \<open>digest\<close> the
  integer of the first eight bytes of the SHA-256.
\<close>

record ('x, 'y) probe =
  pb_pools :: "(int, 'x list \<times> 'y list) pydict"
  pb_seed :: int
  pb_size :: int

definition seed_from_env ::
  "(string \<Rightarrow> int option) \<Rightarrow> (string \<Rightarrow> int) \<Rightarrow> int \<Rightarrow> environ \<Rightarrow> string \<Rightarrow> bool \<Rightarrow> exn + int" where
  "seed_from_env parse digest random_bits env env_var required =
     (let v = str_strip (case env env_var of None \<Rightarrow> '''' | Some x \<Rightarrow> x)
      in if v \<noteq> [] then (case parse v of Some n \<Rightarrow> Inr n | None \<Rightarrow> Inr (digest v))
         else if required then Inl (SystemExit env_var)
         else Inr random_bits)"

definition ensure_pool :: "('x, 'y) probe \<Rightarrow> int \<Rightarrow> 'x list \<times> 'y list \<Rightarrow> ('x list \<times> 'y list) \<times> ('x, 'y) probe" where
  "ensure_pool p e pool = (case map_of (pb_pools p) e of
     Some old \<Rightarrow> (old, p)
   | None \<Rightarrow> (pool, p\<lparr>pb_pools := dset e pool (pb_pools p)\<rparr>))"

definition has_pool :: "('x, 'y) probe \<Rightarrow> int \<Rightarrow> bool" where
  "has_pool p e = (map_of (pb_pools p) e \<noteq> None)"

definition pick :: "'x list \<Rightarrow> nat list \<Rightarrow> exn + 'x list" where
  "pick xs is = mapE (\<lambda>i. if i < length xs then Inr (xs ! i) else Inl IndexError) is"

definition probe_batch ::
  "(int \<Rightarrow> nat \<Rightarrow> nat \<Rightarrow> nat list) \<Rightarrow> ('x, 'y) probe \<Rightarrow> int \<Rightarrow> int \<Rightarrow> exn + ('x list \<times> 'y list)" where
  "probe_batch draw p expert rnd = bindE (orE KeyError (map_of (pb_pools p) expert)) (\<lambda>(X, y).
     let n = nat (min (pb_size p) (int (length X))); idx = draw (pb_seed p + rnd) (length X) n
     in bindE (pick X idx) (\<lambda>px. bindE (pick y idx) (\<lambda>py. Inr (px, py))))"

subsection \<open>One round\<close>

record 'a contribution =
  ct_miner :: json
  ct_expert :: "int option"
  ct_trunk_delta :: "'a params"
  ct_expert_delta :: "'a params"
  ct_train_flops :: rat
  ct_verify_ok :: "bool option"
  ct_base_round :: "int option"

record expert_row =
  er_miner :: json
  er_expert :: int
  er_accepted :: bool
  er_base_val :: "xfloat option"
  er_merged_val :: "xfloat option"
  er_gain :: xfloat
  er_verify_flops :: rat
  er_train_flops :: rat
  er_gain_per_flop :: xfloat
  er_delta_norm :: "xfloat option"

record 'a shard_state =
  sh_trunk :: "'a params"
  sh_experts :: "'a params list"
  sh_momentum :: "'a params"
  sh_meter :: flop_meter

record round_report =
  rr_accepts :: int
  rr_rejects :: int
  rr_staled :: int
  rr_minted :: xfloat
  rr_trunk_merged :: bool
  rr_per_expert :: "expert_row list"

text \<open>What a round is told: numpy, the held-out evaluation of a candidate expert on a probe batch, the
  generator, the outer step and its momentum, the margin, the streaming fraction and the bound.\<close>

record ('a, 'e, 'x, 'y) round_setup =
  rs_numpy :: "('a, 'e) numpy"
  rs_eval :: "int \<Rightarrow> 'x list \<times> 'y list \<Rightarrow> 'a params \<Rightarrow> xfloat"
  rs_draw :: "int \<Rightarrow> nat \<Rightarrow> nat \<Rightarrow> nat list"
  rs_outer :: rat
  rs_beta :: rat
  rs_margin :: rat
  rs_frac :: rat
  rs_max_stale :: "int option"

text \<open>A list index as Python takes it: negative indices count from the end.\<close>

definition list_index :: "'b list \<Rightarrow> int \<Rightarrow> exn + nat" where
  "list_index xs i =
     (if 0 \<le> i \<and> i < int (length xs) then Inr (nat i)
      else if i < 0 \<and> - int (length xs) \<le> i then Inr (nat (int (length xs) + i))
      else Inl IndexError)"

definition fresh_contributions :: "int option \<Rightarrow> int \<Rightarrow> 'a contribution list \<Rightarrow> 'a contribution list" where
  "fresh_contributions ms rnd cs =
     filter (\<lambda>c. ct_verify_ok c = Some True \<and> fst (staleness_ok (ct_base_round c) rnd ms)) cs"

definition merge_trunk ::
  "('a, 'e, 'x, 'y) round_setup \<Rightarrow> int \<Rightarrow> 'a params list \<Rightarrow> 'a params \<Rightarrow> 'a params
     \<Rightarrow> exn + ('a params \<times> 'a params)" where
  "merge_trunk S rnd deltas trunk momentum =
     (let N = rs_numpy S; fr = rs_frac S
      in if deltas = [] then Inr (trunk, momentum)
         else if \<not> (0 < fr \<and> fr < 1)
         then Inr (outer_aggregate N (rs_outer S) (rs_beta S) trunk deltas momentum)
         else (let nf = stream_num_fragments fr; fragment = rnd mod nf;
                   shapes = map (\<lambda>(k, a). (k, np_shape N a)) trunk;
                   masks = trunk_fragment_mask shapes nf fragment
               in bindE (mapE (\<lambda>td. reconstruct_trunk_fragment N td shapes nf fragment) deltas) (\<lambda>recon.
                    Inr (outer_aggregate_masked N (rs_outer S) (rs_beta S) trunk recon momentum masks))))"

text \<open>
  One expert delta against its own gate. The evaluation callback adds the examples of the batch to the
  meter each time it is called: twice when the gate judges, not at all when nothing matches.
\<close>

definition merge_expert ::
  "('a, 'e, 'x, 'y) round_setup \<Rightarrow> ('x, 'y) probe \<Rightarrow> int \<Rightarrow> 'a contribution
     \<Rightarrow> 'a params list \<times> flop_meter \<Rightarrow> exn + (expert_row \<times> 'a params list \<times> flop_meter)" where
  "merge_expert S p rnd c st = (case st of (experts, meter) \<Rightarrow>
     bindE (orE KeyError (ct_expert c)) (\<lambda>e.
     bindE (probe_batch (rs_draw S) p e rnd) (\<lambda>batch.
     bindE (list_index experts e) (\<lambda>i.
       let ev = rs_eval S e batch;
           evals = (if matched_keys (rs_numpy S) (experts ! i) (ct_expert_delta c) = [] then 0 else 2 :: nat);
           meter' = ((\<lambda>m. add_verify m (int (length (fst batch)))) ^^ evals) meter;
           (verdict, expert') = apply_delta_gated (rs_numpy S) ev (rs_outer S) (rs_margin S) True
                                  (experts ! i) (ct_expert_delta c);
           vflops = fsub (fm_verify meter') (fm_verify meter);
           gain = (case (gv_accepted verdict, gv_base_val verdict, gv_merged_val verdict) of
                     (True, Some b, Some m) \<Rightarrow> xmax0 (xsub b m) | _ \<Rightarrow> XFin 0)
       in Inr (\<lparr>er_miner = ct_miner c, er_expert = e, er_accepted = gv_accepted verdict,
                er_base_val = gv_base_val verdict, er_merged_val = gv_merged_val verdict, er_gain = gain,
                er_verify_flops = vflops, er_train_flops = ct_train_flops c,
                er_gain_per_flop = gain_per_flop meter' gain (Some (fadd (ct_train_flops c) vflops)),
                er_delta_norm = gv_delta_norm verdict\<rparr>, experts[i := expert'], meter')))))"

fun merge_experts ::
  "('a, 'e, 'x, 'y) round_setup \<Rightarrow> ('x, 'y) probe \<Rightarrow> int \<Rightarrow> 'a contribution list
     \<Rightarrow> 'a params list \<times> flop_meter \<Rightarrow> exn + (expert_row list \<times> 'a params list \<times> flop_meter)" where
  "merge_experts S p rnd [] st = Inr ([], st)"
| "merge_experts S p rnd (c # cs) st =
     bindE (merge_expert S p rnd c st) (\<lambda>(row, st'). bindE (merge_experts S p rnd cs st') (\<lambda>(rows, st'').
       Inr (row # rows, st'')))"

definition minted_sum :: "expert_row list \<Rightarrow> xfloat" where
  "minted_sum rows = foldl (\<lambda>s r. if er_accepted r then xadd s (er_gain r) else s) (XFin 0) rows"

definition shard_merge_round ::
  "('a, 'e, 'x, 'y) round_setup \<Rightarrow> ('x, 'y) probe \<Rightarrow> int \<Rightarrow> 'a contribution list \<Rightarrow> 'a shard_state
     \<Rightarrow> exn + (round_report \<times> 'a shard_state)" where
  "shard_merge_round S p rnd cs s =
     (if list_ex (\<lambda>c. ct_verify_ok c = None) cs then Inl KeyError
      else
        (let signed = filter (\<lambda>c. ct_verify_ok c = Some True) cs;
             valid = fresh_contributions (rs_max_stale S) rnd cs;
             staled = int (length signed) - int (length valid);
             deltas = filter (\<lambda>d. d \<noteq> []) (map ct_trunk_delta valid)
         in bindE (merge_trunk S rnd deltas (sh_trunk s) (sh_momentum s)) (\<lambda>(trunk, momentum).
            bindE (merge_experts S p rnd valid (sh_experts s, sh_meter s)) (\<lambda>(rows, experts, meter).
              let accepted = filter er_accepted rows
              in Inr (\<lparr>rr_accepts = int (length accepted),
                       rr_rejects = (int (length cs) - int (length signed)) + staled
                                    + (int (length rows) - int (length accepted)),
                       rr_staled = staled, rr_minted = minted_sum rows, rr_trunk_merged = (deltas \<noteq> []),
                       rr_per_expert = rows\<rparr>,
                      \<lparr>sh_trunk = trunk, sh_experts = experts, sh_momentum = momentum, sh_meter = meter\<rparr>)))))"

subsection \<open>Payment\<close>

text \<open>
  \<^verbatim>\<open>attribute_minted\<close>: the rows with what each is paid, and the total. The probe gains are finite where
  the losses are, and the total is folded from 0 over the accepted rows in order.
\<close>

definition paid_shares :: "xfloat \<Rightarrow> expert_row list \<Rightarrow> xfloat list" where
  "paid_shares hg rows =
     (let accepted = filter er_accepted rows;
          wsum = foldl (\<lambda>s r. xadd s (xmax0 (er_gain r))) (XFin 0) accepted
      in map (\<lambda>r. if \<not> er_accepted r then XFin 0
           else xmul hg (if xless (XFin 0) wsum then xdiv (xmax0 (er_gain r)) wsum
                         else XFin (fdiv 1 (rnd64 (of_nat (length accepted)))))) rows)"

definition attribute_minted :: "expert_row list \<Rightarrow> xfloat \<Rightarrow> xfloat \<times> xfloat list" where
  "attribute_minted rows heldout_gain =
     (let hg = xmax0 heldout_gain; accepted = filter er_accepted rows
      in if \<not> xless (XFin 0) hg \<or> accepted = [] then (XFin 0, map (\<lambda>_. XFin 0) rows)
         else (let paid = paid_shares hg rows
               in (foldl (\<lambda>t (r, x). if er_accepted r then xadd t x else t) (XFin 0) (zip rows paid), paid)))"

end
