(* ===== verification/Stream_Props.thy ===== *)
theory Stream_Props
  imports Shard_Round
begin

text \<open>The properties of the streaming lane: fragments, the masked outer step, stamps and the pointer.\<close>

subsection \<open>Fragments\<close>

lemma length_fragment_sel [simp]: "length (fragment_sel n nf fr) = n"
  by (simp add: fragment_sel_def)

lemma nth_fragment_sel: "i < n \<Longrightarrow> fragment_sel n nf fr ! i = (int i mod nf = fr mod nf)"
  by (simp add: fragment_sel_def)

lemma length_select: "length xs = length sel \<Longrightarrow> length (select sel xs) = length (filter id sel)"
proof (induction sel arbitrary: xs)
  case (Cons b sel)
  then show ?case by (cases xs) (auto simp: select_def)
qed (simp add: select_def)

lemma scatter_select:
  "length xs = length sel \<Longrightarrow> scatter z sel (select sel xs) = map2 (\<lambda>b x. if b then x else z) sel xs"
proof (induction sel arbitrary: xs)
  case (Cons b sel)
  then show ?case by (cases xs; cases b) (auto simp: select_def)
qed (simp add: select_def)

lemma assign_select:
  "length xs = length sel \<Longrightarrow> assign_selected z sel (select sel xs) = Inr (map2 (\<lambda>b x. if b then x else z) sel xs)"
  by (simp add: assign_selected_def length_select scatter_select)

lemma numpy_array:
  assumes "numpy_ok N" "length xs = prod_list s"
  shows "np_flat N (np_array N xs s) = xs" "np_shape N (np_array N xs s) = s"
  using assms by (simp_all add: numpy_ok_def)

definition wf_array :: "('a, 'e) numpy \<Rightarrow> 'a \<Rightarrow> bool" where
  "wf_array N x \<longleftrightarrow> length (np_flat N x) = prod_list (np_shape N x)"

text \<open>What the coordinator rebuilds from a fragment.\<close>

definition fragment_of :: "('a, 'e) numpy \<Rightarrow> int \<Rightarrow> int \<Rightarrow> 'a \<Rightarrow> 'a" where
  "fragment_of N nf fr a = np_array N
     (map2 (\<lambda>b x. if b then x else np_zero N) (fragment_sel (length (np_flat N a)) nf fr) (np_flat N a)) (np_shape N a)"

lemma extract_get:
  "map_of (extract_trunk_fragment N delta nf fr) k = (case map_of delta k of None \<Rightarrow> None
     | Some a \<Rightarrow> (let xs = select (fragment_sel (length (np_flat N a)) nf fr) (np_flat N a)
                 in Some (np_array N xs [length xs])))"
  by (induction delta) (auto simp: extract_trunk_fragment_def Let_def)

lemma rebuild_extracted:
  assumes "numpy_ok N" "map_of delta k = Some a" "wf_array N a"
  shows "rebuild_key N (extract_trunk_fragment N delta nf fr) nf fr (k, np_shape N a) = Inr (k, fragment_of N nf fr a)"
proof -
  have "np_flat N (np_array N xs [length xs]) = xs" for xs
    using numpy_array(1) [OF assms(1), of xs "[length xs]"] by simp
  then show ?thesis
    using assms(2,3) by (simp add: rebuild_key_def extract_get Let_def assign_select wf_array_def fragment_of_def)
qed

lemma reconstruct_extract:
  assumes "numpy_ok N" "\<forall>(k, a) \<in> set ds. map_of delta k = Some a \<and> wf_array N a"
  shows "reconstruct_trunk_fragment N (extract_trunk_fragment N delta nf fr)
      (map (\<lambda>(k, a). (k, np_shape N a)) ds) nf fr = Inr (map (\<lambda>(k, a). (k, fragment_of N nf fr a)) ds)"
  using assms(2) unfolding reconstruct_trunk_fragment_def
  by (induction ds) (auto simp: rebuild_extracted [OF assms(1)])

lemma fragment_of_elements:
  assumes "numpy_ok N" "wf_array N a"
  shows "np_shape N (fragment_of N nf fr a) = np_shape N a"
    "length (np_flat N (fragment_of N nf fr a)) = length (np_flat N a)"
    "i < length (np_flat N a) \<Longrightarrow> np_flat N (fragment_of N nf fr a) ! i
       = (if int i mod nf = fr mod nf then np_flat N a ! i else np_zero N)"
proof -
  have l: "length (map2 (\<lambda>b x. if b then x else np_zero N) (fragment_sel (length (np_flat N a)) nf fr) (np_flat N a))
      = prod_list (np_shape N a)"
    using assms(2) by (simp add: wf_array_def)
  note arr = numpy_array [OF assms(1) l]
  show "np_shape N (fragment_of N nf fr a) = np_shape N a"
    "length (np_flat N (fragment_of N nf fr a)) = length (np_flat N a)"
    "i < length (np_flat N a) \<Longrightarrow> np_flat N (fragment_of N nf fr a) ! i
       = (if int i mod nf = fr mod nf then np_flat N a ! i else np_zero N)"
    by (simp_all add: fragment_of_def arr nth_fragment_sel)
qed

lemma one_round_each:
  fixes nf :: int
  assumes "0 < nf"
  shows "\<exists>!r. r \<in> {start..<start + nf} \<and> int i mod nf = r mod nf"
proof -
  define r where "r = start + (int i - start) mod nf"
  have r: "r \<in> {start..<start + nf}" "int i mod nf = r mod nf"
    using assms by (simp_all add: r_def mod_simps)
  show ?thesis
  proof (rule ex1I [of _ r])
    fix q assume q: "q \<in> {start..<start + nf} \<and> int i mod nf = q mod nf"
    then have "nf dvd q - r" using r(2) by (metis mod_eq_dvd_iff)
    moreover have "\<bar>q - r\<bar> < nf" using q r(1) by auto
    ultimately show "q = r" using assms dvd_imp_le_int [of "q - r" nf] by fastforce
  qed (use r in simp)
qed

text \<open>what a contributor sends of its trunk delta in a round is rebuilt exactly: every array has
  its shape again, the elements of the round's fragment their values, every other element is zero; and
  over any \<open>nf\<close> consecutive rounds each element is in the fragment of exactly one.\<close>

theorem fragments_round_trip_and_cover:
  assumes "numpy_ok N" "\<forall>a \<in> set (dvalues delta). wf_array N a" "distinct (dkeys delta)" "0 < nf"
  shows "(\<exists>full. reconstruct_trunk_fragment N (extract_trunk_fragment N delta nf fr)
      (map (\<lambda>(k, a). (k, np_shape N a)) delta) nf fr = Inr full \<and> dkeys full = dkeys delta
    \<and> (\<forall>k a. map_of delta k = Some a \<longrightarrow> (\<exists>b. map_of full k = Some b \<and> np_shape N b = np_shape N a
        \<and> (\<forall>i < length (np_flat N a). np_flat N b ! i
              = (if int i mod nf = fr mod nf then np_flat N a ! i else np_zero N)))))
    \<and> (\<forall>i start. \<exists>!r. r \<in> {start..<start + nf} \<and> int i mod nf = r mod nf)"
proof -
  have mem: "\<forall>(k, a) \<in> set delta. map_of delta k = Some a \<and> wf_array N a"
    using assms(2,3) by auto
  have get: "map_of (map (\<lambda>(k, a). (k, fragment_of N nf fr a)) delta) k
      = map_option (fragment_of N nf fr) (map_of delta k)" for k
    by (induction delta) auto
  have wf: "wf_array N a" if "map_of delta k = Some a" for k a
    using map_of_SomeD [OF that] assms(2) by force
  let ?full = "map (\<lambda>(k, a). (k, fragment_of N nf fr a)) delta"
  have "dkeys ?full = dkeys delta" by (simp add: comp_def split_beta)
  moreover have "map_of delta k = Some a \<longrightarrow> (\<exists>b. map_of ?full k = Some b \<and> np_shape N b = np_shape N a
        \<and> (\<forall>i < length (np_flat N a). np_flat N b ! i
              = (if int i mod nf = fr mod nf then np_flat N a ! i else np_zero N)))" for k a
    by (simp add: get fragment_of_elements [OF assms(1) wf])
  moreover have "\<exists>!r. r \<in> {start..<start + nf} \<and> int i mod nf = r mod nf" for i start
    by (rule one_round_each [OF assms(4)])
  ultimately show ?thesis using reconstruct_extract [OF assms(1) mem, of nf fr] by blast
qed

theorem fragments_round_trip_and_cover_witness:
  "\<exists>full. reconstruct_trunk_fragment toy_numpy (extract_trunk_fragment toy_numpy [(''w'', ([3], [5, 6, 7]))] 2 1)
      [(''w'', [3])] 2 1 = Inr full \<and> dkeys full = [''w'']"
  using fragments_round_trip_and_cover [of toy_numpy "[(''w'', ([3], [5, 6, 7]))]" 2 1]
  by (simp add: toy_numpy_ok wf_array_def) (auto simp: toy_numpy_def)

subsection \<open>The masked outer step\<close>

lemma numpy_step: "numpy_ok N \<Longrightarrow> np_like N g d \<Longrightarrow> np_like N (np_step N g c d) g"
  by (simp add: numpy_ok_def)

lemma numpy_momentum: "numpy_ok N \<Longrightarrow> np_like N m a \<Longrightarrow> np_like N (np_momentum N b m a) m"
  by (simp add: numpy_ok_def)

lemma numpy_zeros: "numpy_ok N \<Longrightarrow> np_like N (np_zeros_like N x) x"
  by (simp add: numpy_ok_def)

lemma numpy_mean: "numpy_ok N \<Longrightarrow> xs \<noteq> [] \<Longrightarrow> \<forall>x \<in> set xs. np_like N x y \<Longrightarrow> np_like N (np_mean N xs) y"
  by (simp add: numpy_ok_def)

lemma np_like_sym: "np_like N x y \<Longrightarrow> np_like N y x"
  by (simp add: np_like_def)

lemma np_like_trans: "np_like N x y \<Longrightarrow> np_like N y z \<Longrightarrow> np_like N x z"
  by (simp add: np_like_def)

lemma numpy_where:
  assumes "numpy_ok N" "np_like N x y" "length b = length (np_flat N x)"
  shows "np_flat N (np_where N b x y) = map (\<lambda>(c, u, v). if c then u else v) (zip b (zip (np_flat N x) (np_flat N y)))"
    "np_shape N (np_where N b x y) = np_shape N x"
  using assms by (simp_all add: numpy_ok_def)

lemma where_like:
  "numpy_ok N \<Longrightarrow> np_like N x y \<Longrightarrow> length b = length (np_flat N x) \<Longrightarrow> np_like N (np_where N b x y) y"
  using numpy_where [of N x y b] by (simp add: np_like_def)

lemma where_all:
  assumes "numpy_ok N" "np_like N x y" "b = replicate (length (np_flat N x)) True"
  shows "np_where N b x y = x"
proof -
  have f: "np_flat N (np_where N b x y) = np_flat N x" "np_shape N (np_where N b x y) = np_shape N x"
    using numpy_where [OF assms(1,2), of b] assms(2,3)
    by (auto simp: np_like_def intro!: nth_equalityI)
  have "np_array N (np_flat N z) (np_shape N z) = z" for z using assms(1) by (simp add: numpy_ok_def)
  from this [of "np_where N b x y"] this [of x] f show ?thesis by simp
qed

lemma where_keeps:
  assumes "numpy_ok N" "np_like N x y" "length b = length (np_flat N x)" "i < length b" "\<not> b ! i"
  shows "np_flat N (np_where N b x y) ! i = np_flat N y ! i"
  using numpy_where [OF assms(1-3)] assms by (simp add: np_like_def)

text \<open>Params, momentum and deltas that fit together: what a key names has one shape everywhere.\<close>

definition fits :: "('a, 'e) numpy \<Rightarrow> 'a params list \<Rightarrow> 'a params \<times> 'a params \<Rightarrow> bool" where
  "fits N deltas st \<longleftrightarrow> (\<forall>k p. map_of (fst st) k = Some p \<longrightarrow>
     (\<forall>d \<in> set (delta_arrays deltas k). np_like N d p) \<and> (\<forall>m. map_of (snd st) k = Some m \<longrightarrow> np_like N m p))"

lemma fits_step:
  assumes "numpy_ok N" "fits N deltas (params, momentum)" "map_of params k = Some p" "delta_arrays deltas k \<noteq> []"
    "prev = (case map_of momentum k of None \<Rightarrow> np_zeros_like N p | Some m \<Rightarrow> m)"
    "newm = np_momentum N beta prev (np_mean N (delta_arrays deltas k))"
  shows "np_like N prev p" "np_like N newm prev" "np_like N (np_step N p lr newm) p"
proof -
  have fit: "\<forall>d \<in> set (delta_arrays deltas k). np_like N d p" "\<And>m. map_of momentum k = Some m \<Longrightarrow> np_like N m p"
    using assms(2,3) by (auto simp: fits_def)
  show p: "np_like N prev p"
    using fit(2) numpy_zeros [OF assms(1)] by (simp add: assms(5) split: option.split)
  have "np_like N (np_mean N (delta_arrays deltas k)) p" by (rule numpy_mean [OF assms(1,4) fit(1)])
  then show n: "np_like N newm prev"
    unfolding assms(6) using p by (intro numpy_momentum [OF assms(1)]) (blast intro: np_like_sym np_like_trans)
  show "np_like N (np_step N p lr newm) p"
    using n p by (intro numpy_step [OF assms(1)]) (blast intro: np_like_sym np_like_trans)
qed

lemma masked_key_all:
  assumes "numpy_ok N" "fits N deltas st"
    "\<forall>k p b. map_of (fst st) k = Some p \<longrightarrow> map_of masks k = Some b \<longrightarrow> b = replicate (length (np_flat N p)) True"
  shows "masked_key N lr beta masks deltas st k = outer_key N lr beta deltas st k"
proof -
  obtain params momentum where st: "st = (params, momentum)" by force
  show ?thesis
  proof (cases "map_of params k")
    case (Some p)
    show ?thesis
    proof (cases "delta_arrays deltas k = []")
      case ne: False
      define prev where "prev = (case map_of momentum k of None \<Rightarrow> np_zeros_like N p | Some m \<Rightarrow> m)"
      define newm where "newm = np_momentum N beta prev (np_mean N (delta_arrays deltas k))"
      note like = fits_step [OF assms(1) assms(2) [unfolded st] Some ne prev_def newm_def]
      have b: "b = replicate (length (np_flat N p)) True" if "map_of masks k = Some b" for b
        using assms(3) that Some by (simp add: st)
      have w: "np_where N b (np_step N p lr newm) p = np_step N p lr newm" "np_where N b newm prev = newm"
        if "map_of masks k = Some b" for b
        using like b [OF that] by (auto intro!: where_all [OF assms(1)] simp: np_like_def)
      show ?thesis
        by (simp add: st masked_key_def outer_key_def Some ne Let_def prev_def [symmetric] newm_def [symmetric] w
            split: option.split)
    qed (simp add: st masked_key_def outer_key_def Some)
  qed (simp add: st masked_key_def outer_key_def)
qed

text \<open>Every mask has the length of its array.\<close>

definition masks_fit :: "('a, 'e) numpy \<Rightarrow> (string, bool list) pydict \<Rightarrow> 'a params \<Rightarrow> bool" where
  "masks_fit N masks params \<longleftrightarrow>
     (\<forall>k p b. map_of params k = Some p \<longrightarrow> map_of masks k = Some b \<longrightarrow> length b = length (np_flat N p))"

lemma masked_key_cases:
  assumes "numpy_ok N" "fits N deltas (params, momentum)" "masks_fit N masks params"
    and "map_of params k = Some p" "delta_arrays deltas k \<noteq> []"
  obtains p' m' where
    "masked_key N lr beta masks deltas (params, momentum) k = (dset k p' params, dset k m' momentum)"
    "np_like N p' p" "np_like N m' p"
    "\<And>b i. map_of masks k = Some b \<Longrightarrow> i < length b \<Longrightarrow> \<not> b ! i \<Longrightarrow> np_flat N p' ! i = np_flat N p ! i"
    "\<And>b i m. map_of masks k = Some b \<Longrightarrow> i < length b \<Longrightarrow> \<not> b ! i \<Longrightarrow> map_of momentum k = Some m
       \<Longrightarrow> np_flat N m' ! i = np_flat N m ! i"
proof -
  define prev where "prev = (case map_of momentum k of None \<Rightarrow> np_zeros_like N p | Some m \<Rightarrow> m)"
  define newm where "newm = np_momentum N beta prev (np_mean N (delta_arrays deltas k))"
  note like = fits_step(1,2) [OF assms(1,2,4,5) prev_def newm_def]
    fits_step(3) [OF assms(1,2,4,5) prev_def newm_def, of lr]
  have np: "np_like N newm p" using like by (blast intro: np_like_trans)
  note unf = masked_key_def assms(4,5) Let_def prev_def [symmetric] newm_def [symmetric]
  show thesis
  proof (cases "map_of masks k")
    case None
    show thesis
      by (rule that [of "np_step N p lr newm" newm]) (simp_all add: unf None like np)
  next
    case (Some b)
    then have b: "length b = length (np_flat N (np_step N p lr newm))" "length b = length (np_flat N newm)"
      using assms(3,4) like(3) np by (simp_all add: masks_fit_def np_like_def)
    show thesis
    proof (rule that [of "np_where N b (np_step N p lr newm) p" "np_where N b newm prev"])
      show "np_like N (np_where N b (np_step N p lr newm) p) p" by (rule where_like [OF assms(1) like(3) b(1)])
      show "np_like N (np_where N b newm prev) p"
        using where_like [OF assms(1) like(2) b(2)] like(1) by (rule np_like_trans)
      show "masked_key N lr beta masks deltas (params, momentum) k
          = (dset k (np_where N b (np_step N p lr newm) p) params, dset k (np_where N b newm prev) momentum)"
        by (simp add: unf Some)
      show "np_flat N (np_where N b (np_step N p lr newm) p) ! i = np_flat N p ! i"
        if "map_of masks k = Some b'" "i < length b'" "\<not> b' ! i" for b' i
        using that Some by (intro where_keeps [OF assms(1) like(3) b(1)]) simp_all
      show "np_flat N (np_where N b newm prev) ! i = np_flat N m ! i"
        if "map_of masks k = Some b'" "i < length b'" "\<not> b' ! i" "map_of momentum k = Some m" for b' i m
      proof -
        have "m = prev" using that(4) by (simp add: prev_def)
        then show ?thesis using that(1-3) Some where_keeps [OF assms(1) like(2) b(2)] by simp
      qed
    qed
  qed
qed

lemma masked_key_idle:
  "map_of params k = None \<or> delta_arrays deltas k = [] \<Longrightarrow>
     masked_key N lr beta masks deltas (params, momentum) k = (params, momentum)"
  by (auto simp: masked_key_def split: option.split)

text \<open>Every key keeps an array of its shape; the elements outside the mask stay.\<close>

definition kept :: "('a, 'e) numpy \<Rightarrow> (string, bool list) pydict \<Rightarrow> 'a params \<times> 'a params \<Rightarrow> 'a params \<times> 'a params \<Rightarrow> bool" where
  "kept N masks st st' \<longleftrightarrow>
     (\<forall>k. map_of (fst st) k = None \<longrightarrow> map_of (fst st') k = None)
   \<and> (\<forall>k p. map_of (fst st) k = Some p \<longrightarrow> (\<exists>p'. map_of (fst st') k = Some p' \<and> np_like N p' p
        \<and> (\<forall>b i. map_of masks k = Some b \<longrightarrow> i < length b \<longrightarrow> \<not> b ! i \<longrightarrow> np_flat N p' ! i = np_flat N p ! i)))
   \<and> (\<forall>k m. map_of (fst st) k \<noteq> None \<longrightarrow> map_of (snd st) k = Some m \<longrightarrow> (\<exists>m'. map_of (snd st') k = Some m'
        \<and> (\<forall>b i. map_of masks k = Some b \<longrightarrow> i < length b \<longrightarrow> \<not> b ! i \<longrightarrow> np_flat N m' ! i = np_flat N m ! i)))"

lemma kept_none: "kept N masks st st' \<Longrightarrow> map_of (fst st) k = None \<Longrightarrow> map_of (fst st') k = None"
  by (simp add: kept_def)

lemma kept_like:
  "kept N masks st st' \<Longrightarrow> map_of (fst st) k = Some p \<Longrightarrow> \<exists>p'. map_of (fst st') k = Some p' \<and> np_like N p' p"
  unfolding kept_def by blast

lemma kept_element:
  "kept N masks st st' \<Longrightarrow> map_of (fst st) k = Some p \<Longrightarrow> map_of masks k = Some b \<Longrightarrow> i < length b \<Longrightarrow> \<not> b ! i
    \<Longrightarrow> \<exists>p'. map_of (fst st') k = Some p' \<and> np_flat N p' ! i = np_flat N p ! i"
  unfolding kept_def by blast

lemma kept_dset:
  assumes "map_of params k = Some p" "np_like N p' p"
    "\<And>b i. map_of masks k = Some b \<Longrightarrow> i < length b \<Longrightarrow> \<not> b ! i \<Longrightarrow> np_flat N p' ! i = np_flat N p ! i"
    "\<And>b i m. map_of masks k = Some b \<Longrightarrow> i < length b \<Longrightarrow> \<not> b ! i \<Longrightarrow> map_of momentum k = Some m
       \<Longrightarrow> np_flat N m' ! i = np_flat N m ! i"
  shows "kept N masks (params, momentum) (dset k p' params, dset k m' momentum)"
  unfolding kept_def fst_conv snd_conv map_of_dset
proof (intro conjI allI impI)
  fix j q assume "map_of params j = Some q"
  then show "\<exists>q'. ((map_of params)(k \<mapsto> p')) j = Some q' \<and> np_like N q' q
    \<and> (\<forall>b i. map_of masks j = Some b \<longrightarrow> i < length b \<longrightarrow> \<not> b ! i \<longrightarrow> np_flat N q' ! i = np_flat N q ! i)"
    using assms(1-3) by (cases "j = k") (auto simp: np_like_def)
next
  fix j m assume "map_of momentum j = Some m"
  then show "\<exists>m''. ((map_of momentum)(k \<mapsto> m')) j = Some m''
    \<and> (\<forall>b i. map_of masks j = Some b \<longrightarrow> i < length b \<longrightarrow> \<not> b ! i \<longrightarrow> np_flat N m'' ! i = np_flat N m ! i)"
    using assms(4) by (cases "j = k") auto
qed (use assms(1) in auto)

lemma kept_refl: "kept N masks st st"
  by (auto simp: kept_def np_like_def)

lemma kept_trans:
  assumes "kept N masks s1 s2" "kept N masks s2 s3"
  shows "kept N masks s1 s3"
  unfolding kept_def
proof (intro conjI allI impI)
  fix k p assume "map_of (fst s1) k = Some p"
  then obtain q where q: "map_of (fst s2) k = Some q" "np_like N q p"
    "\<forall>b i. map_of masks k = Some b \<longrightarrow> i < length b \<longrightarrow> \<not> b ! i \<longrightarrow> np_flat N q ! i = np_flat N p ! i"
    using assms(1) unfolding kept_def by blast
  then obtain r where r: "map_of (fst s3) k = Some r" "np_like N r q"
    "\<forall>b i. map_of masks k = Some b \<longrightarrow> i < length b \<longrightarrow> \<not> b ! i \<longrightarrow> np_flat N r ! i = np_flat N q ! i"
    using assms(2) unfolding kept_def by blast
  show "\<exists>p'. map_of (fst s3) k = Some p' \<and> np_like N p' p
        \<and> (\<forall>b i. map_of masks k = Some b \<longrightarrow> i < length b \<longrightarrow> \<not> b ! i \<longrightarrow> np_flat N p' ! i = np_flat N p ! i)"
    using q r np_like_trans [OF r(2) q(2)] by auto
next
  fix k m assume k: "map_of (fst s1) k \<noteq> None" "map_of (snd s1) k = Some m"
  then obtain q where q: "map_of (snd s2) k = Some q"
    "\<forall>b i. map_of masks k = Some b \<longrightarrow> i < length b \<longrightarrow> \<not> b ! i \<longrightarrow> np_flat N q ! i = np_flat N m ! i"
    using assms(1) unfolding kept_def by blast
  moreover have "map_of (fst s2) k \<noteq> None" using k(1) assms(1) unfolding kept_def by fastforce
  ultimately obtain r where "map_of (snd s3) k = Some r"
    "\<forall>b i. map_of masks k = Some b \<longrightarrow> i < length b \<longrightarrow> \<not> b ! i \<longrightarrow> np_flat N r ! i = np_flat N q ! i"
    using assms(2) unfolding kept_def by blast
  with q show "\<exists>m'. map_of (snd s3) k = Some m'
        \<and> (\<forall>b i. map_of masks k = Some b \<longrightarrow> i < length b \<longrightarrow> \<not> b ! i \<longrightarrow> np_flat N m' ! i = np_flat N m ! i)" by auto
qed (use assms in \<open>auto simp: kept_def\<close>)

lemma fits_dset:
  assumes "fits N deltas (params, momentum)" "map_of params k = Some p" "np_like N p' p" "np_like N m' p"
  shows "fits N deltas (dset k p' params, dset k m' momentum)"
  unfolding fits_def fst_conv snd_conv map_of_dset
proof (intro allI impI)
  fix j q assume q: "((map_of params)(k \<mapsto> p')) j = Some q"
  show "(\<forall>d \<in> set (delta_arrays deltas j). np_like N d q)
    \<and> (\<forall>m. ((map_of momentum)(k \<mapsto> m')) j = Some m \<longrightarrow> np_like N m q)"
  proof (cases "j = k")
    case True
    then have "q = p'" using q by simp
    then show ?thesis
      using True assms by (auto simp: fits_def np_like_def)
  next
    case False
    then show ?thesis using q assms(1) by (simp add: fits_def)
  qed
qed

lemma masked_key_keeps:
  assumes "numpy_ok N" "fits N deltas st" "masks_fit N masks (fst st)"
  shows "kept N masks st (masked_key N lr beta masks deltas st k)
    \<and> fits N deltas (masked_key N lr beta masks deltas st k)
    \<and> masks_fit N masks (fst (masked_key N lr beta masks deltas st k))"
proof -
  obtain params momentum where st: "st = (params, momentum)" by force
  show ?thesis
  proof (cases "map_of params k = None \<or> delta_arrays deltas k = []")
    case True
    then show ?thesis using assms by (simp add: st masked_key_idle kept_refl)
  next
    case False
    then obtain p where p: "map_of params k = Some p" "delta_arrays deltas k \<noteq> []" by auto
    obtain p' m' where r: "masked_key N lr beta masks deltas (params, momentum) k = (dset k p' params, dset k m' momentum)"
      "np_like N p' p" "np_like N m' p"
      "\<And>b i. map_of masks k = Some b \<Longrightarrow> i < length b \<Longrightarrow> \<not> b ! i \<Longrightarrow> np_flat N p' ! i = np_flat N p ! i"
      "\<And>b i m. map_of masks k = Some b \<Longrightarrow> i < length b \<Longrightarrow> \<not> b ! i \<Longrightarrow> map_of momentum k = Some m
         \<Longrightarrow> np_flat N m' ! i = np_flat N m ! i"
      by (rule masked_key_cases [OF assms(1) assms(2) [unfolded st] assms(3) [unfolded st fst_conv] p, of lr beta]) blast
    have "kept N masks (params, momentum) (dset k p' params, dset k m' momentum)"
      by (rule kept_dset [OF p(1) r(2,4,5)])
    moreover have "fits N deltas (dset k p' params, dset k m' momentum)"
      by (rule fits_dset [OF assms(2) [unfolded st] p(1) r(2,3)])
    moreover have "masks_fit N masks (dset k p' params)"
      using assms(3) p r(2) by (auto simp: masks_fit_def st np_like_def)
    ultimately show ?thesis by (simp add: st r(1))
  qed
qed

lemma masked_run_keeps:
  assumes "numpy_ok N"
  shows "fits N deltas st \<Longrightarrow> masks_fit N masks (fst st) \<Longrightarrow>
    kept N masks st (foldl (masked_key N lr beta masks deltas) st ks)"
proof (induction ks arbitrary: st)
  case (Cons k ks)
  note one = masked_key_keeps [OF assms Cons.prems, of lr beta k]
  have "kept N masks (masked_key N lr beta masks deltas st k)
      (foldl (masked_key N lr beta masks deltas) (masked_key N lr beta masks deltas st k) ks)"
    by (rule Cons.IH) (use one in auto)
  with one show ?case by (auto intro: kept_trans)
qed (simp add: kept_refl)

lemma unmasked_key: "outer_key N lr beta deltas st k = masked_key N lr beta [] deltas st k"
  by (simp add: outer_key_def masked_key_def Let_def split: prod.split option.split)

definition all_masks :: "('a, 'e) numpy \<Rightarrow> (string, bool list) pydict \<Rightarrow> 'a params \<Rightarrow> bool" where
  "all_masks N masks params \<longleftrightarrow> (\<forall>k p b. map_of params k = Some p \<longrightarrow> map_of masks k = Some b \<longrightarrow>
     b = replicate (length (np_flat N p)) True)"

lemma masked_run_all:
  assumes "numpy_ok N"
  shows "fits N deltas st \<Longrightarrow> all_masks N masks (fst st) \<Longrightarrow>
    foldl (masked_key N lr beta masks deltas) st ks = foldl (outer_key N lr beta deltas) st ks"
proof (induction ks arbitrary: st)
  case (Cons k ks)
  have eq: "masked_key N lr beta masks deltas st k = outer_key N lr beta deltas st k"
    using Cons.prems by (intro masked_key_all [OF assms]) (auto simp: all_masks_def)
  have none: "masks_fit N [] (fst st)" by (simp add: masks_fit_def)
  note one = masked_key_keeps [OF assms Cons.prems(1) none, of lr beta k, folded unmasked_key]
  have "all_masks N masks (fst (outer_key N lr beta deltas st k))"
    unfolding all_masks_def
  proof (intro allI impI)
    fix j q b assume q: "map_of (fst (outer_key N lr beta deltas st k)) j = Some q" "map_of masks j = Some b"
    then obtain p where p: "map_of (fst st) j = Some p"
      using kept_none [OF one [THEN conjunct1], of j] by (cases "map_of (fst st) j") auto
    then have "np_like N q p" using kept_like [OF one [THEN conjunct1], of j p] q(1) by simp
    then show "b = replicate (length (np_flat N q)) True"
      using Cons.prems(2) p q(2) by (auto simp: all_masks_def np_like_def)
  qed
  then show ?case using Cons.IH [of "outer_key N lr beta deltas st k"] one by (simp add: eq)
qed simp

text \<open>a streaming sync moves nothing but its fragment: an element that the mask leaves out keeps
  its value and its momentum, for every key and all deltas; and with masks that select everything the
  masked outer step is the full outer step.\<close>

theorem masked_step_moves_only_the_fragment:
  assumes "numpy_ok N" "fits N deltas (params, momentum)" "masks_fit N masks params"
  shows "kept N masks (params, momentum) (outer_aggregate_masked N lr beta params deltas momentum masks)
    \<and> (all_masks N masks params \<longrightarrow>
        outer_aggregate_masked N lr beta params deltas momentum masks = outer_aggregate N lr beta params deltas momentum)"
  using masked_run_keeps [OF assms(1,2), of masks lr beta "dkeys params"]
    masked_run_all [OF assms(1,2), of masks lr beta "dkeys params"] assms(3)
  by (simp add: outer_aggregate_masked_def outer_aggregate_def kept_refl)

theorem masked_step_moves_only_the_fragment_witness:
  "np_flat toy_numpy (the (map_of (fst (outer_aggregate_masked toy_numpy 1 0 [(''w'', ([2], [5, 6]))]
     [[(''w'', ([2], [1, 1]))]] [] [(''w'', [True, False])])) ''w'')) ! 1 = 6"
proof -
  have "kept toy_numpy [(''w'', [True, False])] ([(''w'', ([2], [5, 6]))], [])
      (outer_aggregate_masked toy_numpy 1 0 [(''w'', ([2], [5, 6]))] [[(''w'', ([2], [1, 1]))]] [] [(''w'', [True, False])])"
    by (rule masked_step_moves_only_the_fragment [THEN conjunct1])
      (simp_all add: toy_numpy_ok fits_def masks_fit_def delta_arrays_def List.map_filter_simps,
       simp_all add: toy_numpy_def np_like_def)
  from kept_element [OF this, of "''w''" "([2], [5, 6])" "[True, False]" 1]
  obtain p' where "map_of (fst (outer_aggregate_masked toy_numpy 1 0 [(''w'', ([2], [5, 6]))]
      [[(''w'', ([2], [1, 1]))]] [] [(''w'', [True, False])])) ''w'' = Some p'"
    "np_flat toy_numpy p' ! 1 = np_flat toy_numpy ([2], [5, 6]) ! 1" by auto
  then show ?thesis by (simp add: toy_numpy_def)
qed

end
