(* ===== verification/Shard_Props.thy ===== *)
theory Shard_Props
  imports Shard_Round
begin

text \<open>The properties of the sharded round, of its payment, and of the lane pointer.\<close>

subsection \<open>What a round depends on\<close>

lemma fresh_idem: "fresh_contributions ms rnd (fresh_contributions ms rnd cs) = fresh_contributions ms rnd cs"
  by (simp add: fresh_contributions_def)

lemma fresh_signed:
  "filter (\<lambda>c. ct_verify_ok c = Some True) (fresh_contributions ms rnd cs) = fresh_contributions ms rnd cs"
  by (simp add: fresh_contributions_def conj_commute cong: conj_cong)

lemma merge_experts_length: "merge_experts S p rnd cs st = Inr (rows, st') \<Longrightarrow> length rows = length cs"
  by (induction cs arbitrary: st rows st') (auto simp: bindE_Inr_iff)

lemma round_Inr:
  assumes "shard_merge_round S p rnd cs s = Inr (rep, s')"
  obtains trunk momentum rows experts meter where
    "\<not> list_ex (\<lambda>c. ct_verify_ok c = None) cs"
    "merge_trunk S rnd (filter (\<lambda>d. d \<noteq> []) (map ct_trunk_delta (fresh_contributions (rs_max_stale S) rnd cs)))
       (sh_trunk s) (sh_momentum s) = Inr (trunk, momentum)"
    "merge_experts S p rnd (fresh_contributions (rs_max_stale S) rnd cs) (sh_experts s, sh_meter s)
       = Inr (rows, experts, meter)"
    "s' = \<lparr>sh_trunk = trunk, sh_experts = experts, sh_momentum = momentum, sh_meter = meter\<rparr>"
    "rr_per_expert rep = rows" "rr_minted rep = minted_sum rows"
    "rr_accepts rep = int (length (filter er_accepted rows))"
    "rr_rejects rep = int (length cs) - int (length (fresh_contributions (rs_max_stale S) rnd cs))
       + (int (length rows) - int (length (filter er_accepted rows)))"
proof -
  let ?valid = "fresh_contributions (rs_max_stale S) rnd cs"
  have ok: "\<not> list_ex (\<lambda>c. ct_verify_ok c = None) cs"
    using assms by (auto simp: shard_merge_round_def split: if_splits)
  obtain trunk momentum where t: "merge_trunk S rnd (filter (\<lambda>d. d \<noteq> []) (map ct_trunk_delta ?valid))
      (sh_trunk s) (sh_momentum s) = Inr (trunk, momentum)"
    using assms ok by (auto simp: shard_merge_round_def Let_def bindE_Inr_iff)
  obtain rows experts meter where m: "merge_experts S p rnd ?valid (sh_experts s, sh_meter s) = Inr (rows, experts, meter)"
    using assms ok t by (auto simp: shard_merge_round_def Let_def bindE_Inr_iff)
  show thesis
    by (rule that [OF ok t m]) (use assms ok t m in \<open>simp_all add: shard_merge_round_def Let_def, auto\<close>)
qed

text \<open>a round is a function of the contributions that are signed and fresh: leaving out all others,
  whatever they carry, gives the same trunk, experts, momentum, meter, rows and minted gain. A
  contribution that does not say whether its signature was verified stops the round. Every contribution
  is counted once, as accepted or as rejected.\<close>

theorem forged_contributions_change_nothing:
  assumes "shard_merge_round S p rnd cs s = Inr (rep, s')"
  shows "(\<forall>c \<in> set cs. ct_verify_ok c \<noteq> None)
    \<and> rr_accepts rep + rr_rejects rep = int (length cs)
    \<and> (\<exists>rep'. shard_merge_round S p rnd (fresh_contributions (rs_max_stale S) rnd cs) s = Inr (rep', s')
        \<and> rr_per_expert rep' = rr_per_expert rep \<and> rr_minted rep' = rr_minted rep)"
proof -
  obtain trunk momentum rows experts meter where r:
    "\<not> list_ex (\<lambda>c. ct_verify_ok c = None) cs"
    "merge_trunk S rnd (filter (\<lambda>d. d \<noteq> []) (map ct_trunk_delta (fresh_contributions (rs_max_stale S) rnd cs)))
       (sh_trunk s) (sh_momentum s) = Inr (trunk, momentum)"
    "merge_experts S p rnd (fresh_contributions (rs_max_stale S) rnd cs) (sh_experts s, sh_meter s)
       = Inr (rows, experts, meter)"
    "s' = \<lparr>sh_trunk = trunk, sh_experts = experts, sh_momentum = momentum, sh_meter = meter\<rparr>"
    "rr_per_expert rep = rows" "rr_minted rep = minted_sum rows"
    "rr_accepts rep = int (length (filter er_accepted rows))"
    "rr_rejects rep = int (length cs) - int (length (fresh_contributions (rs_max_stale S) rnd cs))
       + (int (length rows) - int (length (filter er_accepted rows)))"
    by (rule round_Inr [OF assms])
  have none: "\<not> list_ex (\<lambda>c. ct_verify_ok c = None) (fresh_contributions (rs_max_stale S) rnd cs)"
    by (auto simp: list_ex_iff fresh_contributions_def)
  have "length rows = length (fresh_contributions (rs_max_stale S) rnd cs)"
    by (rule merge_experts_length [OF r(3)])
  then have "rr_accepts rep + rr_rejects rep = int (length cs)" using r(7,8) by simp
  moreover have "\<exists>rep'. shard_merge_round S p rnd (fresh_contributions (rs_max_stale S) rnd cs) s = Inr (rep', s')
      \<and> rr_per_expert rep' = rows \<and> rr_minted rep' = minted_sum rows"
    by (simp add: shard_merge_round_def none fresh_idem Let_def r(2-4))
  ultimately show ?thesis using r(1,5,6) by (auto simp: list_ex_iff)
qed

definition demo_setup :: "(nat list \<times> rat list, rat, nat, nat) round_setup" where
  "demo_setup = \<lparr>rs_numpy = toy_numpy, rs_eval = (\<lambda>e b t. XFin 0), rs_draw = (\<lambda>s h n. []), rs_outer = 1, rs_beta = 0,
     rs_margin = 0, rs_frac = 1, rs_max_stale = None\<rparr>"

definition demo_contribution :: "bool \<Rightarrow> (nat list \<times> rat list) contribution" where
  "demo_contribution ok = \<lparr>ct_miner = JStr ''m'', ct_expert = Some 0, ct_trunk_delta = [], ct_expert_delta = [],
     ct_train_flops = 0, ct_verify_ok = Some ok, ct_base_round = None\<rparr>"

theorem forged_contributions_change_nothing_witness:
  "\<exists>rep s'. shard_merge_round demo_setup \<lparr>pb_pools = [], pb_seed = 0, pb_size = 1\<rparr> 1 [demo_contribution False]
      \<lparr>sh_trunk = [], sh_experts = [], sh_momentum = [], sh_meter = new_meter 0\<rparr> = Inr (rep, s')
    \<and> rr_accepts rep + rr_rejects rep = 1"
proof -
  obtain rep s' where r: "shard_merge_round demo_setup \<lparr>pb_pools = [], pb_seed = 0, pb_size = 1\<rparr> 1
      [demo_contribution False] \<lparr>sh_trunk = [], sh_experts = [], sh_momentum = [], sh_meter = new_meter 0\<rparr> = Inr (rep, s')"
    by (simp add: shard_merge_round_def demo_contribution_def fresh_contributions_def Let_def merge_trunk_def)
  from forged_contributions_change_nothing [OF r] r show ?thesis by auto
qed

subsection \<open>Payment\<close>

lemma xle_div_nonneg:
  assumes "xle (XFin 0) x" "xless (XFin 0) y" "x \<noteq> PosInf"
  shows "xle (XFin 0) (xdiv x y)"
proof (cases x; cases y)
  fix p q assume "x = XFin p" "y = XFin q"
  then have "xround 0 = xround 0 \<and> xle (xround 0) (xround (p / q))" using assms by (intro conjI xround_mono) auto
  then show ?thesis using \<open>x = XFin p\<close> \<open>y = XFin q\<close> by simp
qed (use assms in auto)

lemma xle_mul_nonneg:
  assumes "xless (XFin 0) x" "xle (XFin 0) y" "x \<noteq> PosInf" "y \<noteq> PosInf"
  shows "xle (XFin 0) (xmul x y)"
proof (cases x; cases y)
  fix p q assume "x = XFin p" "y = XFin q"
  then have "xle (xround 0) (xround (p * q))" using assms by (intro xround_mono) auto
  then show ?thesis using \<open>x = XFin p\<close> \<open>y = XFin q\<close> by simp
qed (use assms in auto)

text \<open>what is paid follows the measured held-out gain, not the gate: a round without held-out gain
  pays nobody, whatever was minted on the probe; a rejected row is never paid; and if one row was
  accepted, with a finite positive gain, it is paid exactly the held-out gain.\<close>

theorem payment_follows_the_heldout_gain:
  assumes "attribute_minted rows g = (payout, paid)"
  shows "length paid = length rows
    \<and> (\<not> xless (XFin 0) g \<longrightarrow> payout = XFin 0 \<and> (\<forall>x \<in> set paid. x = XFin 0))
    \<and> (\<forall>i < length rows. \<not> er_accepted (rows ! i) \<longrightarrow> paid ! i = XFin 0)
    \<and> (\<forall>r q h. filter er_accepted rows = [r] \<longrightarrow> er_gain r = XFin q \<longrightarrow> 0 < q \<longrightarrow> xf64 (XFin q) \<longrightarrow>
         g = XFin h \<longrightarrow> 0 < h \<longrightarrow> xf64 (XFin h) \<longrightarrow>
         (\<forall>i < length rows. er_accepted (rows ! i) \<longrightarrow> paid ! i = XFin h))"
proof (intro conjI allI impI)
  have cases: "paid = map (\<lambda>_. XFin 0) rows \<or> (xless (XFin 0) (xmax0 g) \<and> paid = paid_shares (xmax0 g) rows)"
    using assms by (auto simp: attribute_minted_def Let_def split: if_splits)
  then show "length paid = length rows" by (auto simp: paid_shares_def Let_def)
  have g0: "xless (XFin 0) (xmax0 g) \<longleftrightarrow> xless (XFin 0) g" by (simp add: xmax0_def)
  show "payout = XFin 0" if "\<not> xless (XFin 0) g"
    using assms that g0 by (simp add: attribute_minted_def)
  show "\<forall>x \<in> set paid. x = XFin 0" if "\<not> xless (XFin 0) g"
    using cases that g0 by auto
  show "paid ! i = XFin 0" if "i < length rows" "\<not> er_accepted (rows ! i)" for i
    using cases that by (auto simp: paid_shares_def Let_def)
  fix r q h i
  assume one: "filter er_accepted rows = [r]" "er_gain r = XFin q" "0 < q" "xf64 (XFin q)" "g = XFin h" "0 < h"
    "xf64 (XFin h)" and i: "i < length rows" "er_accepted (rows ! i)"
  have "rows ! i \<in> set (filter er_accepted rows)" using i by simp
  then have r: "rows ! i = r" using one(1) by simp
  have "paid = paid_shares (XFin h) rows"
    using assms one by (simp add: attribute_minted_def Let_def xmax0_def)
  then have "paid ! i = xmul (XFin h) (xdiv (XFin q) (XFin q))"
    using i r one by (simp add: paid_shares_def Let_def xmax0_def xround_f64 add_0)
  also have "\<dots> = XFin h" using one(3,7) by (simp add: xround_f64)
  finally show "paid ! i = XFin h" .
qed

definition demo_row :: "bool \<Rightarrow> expert_row" where
  "demo_row ok = \<lparr>er_miner = JNull, er_expert = 0, er_accepted = ok, er_base_val = Some (XFin 1),
     er_merged_val = Some (XFin 0), er_gain = XFin 1, er_verify_flops = 0, er_train_flops = 0,
     er_gain_per_flop = XFin 0, er_delta_norm = None\<rparr>"

theorem payment_follows_the_heldout_gain_witness:
  "\<exists>payout. attribute_minted [demo_row False, demo_row True] (XFin (-1)) = (payout, [XFin 0, XFin 0]) \<and> payout = XFin 0"
proof -
  have a: "attribute_minted [demo_row False, demo_row True] (XFin (-1)) = (XFin 0, [XFin 0, XFin 0])"
    by (simp add: attribute_minted_def xmax0_def Let_def)
  from payment_follows_the_heldout_gain [OF a] a show ?thesis by simp
qed

subsection \<open>Stamps and the slot clock\<close>

text \<open>The stamps of a run of publishes, and the clock, are quantities that only grow.\<close>

fun stamps :: "int \<Rightarrow> rat list \<Rightarrow> int list" where
  "stamps s [] = []"
| "stamps s (t # ts) = sd_publish_stamp s t # stamps (sd_publish_stamp s t) ts"

lemma stamp_grows: "s < sd_publish_stamp s t"
  by (simp add: sd_publish_stamp_def Let_def)

interpretation stamp: monotone_steps sd_publish_stamp "\<lambda>s. s"
  by unfold_locales (simp add: stamp_grows less_imp_le)

interpretation slots: monotone_steps "\<lambda>c slot. snd (advance c slot)" sc_event
  by unfold_locales (simp add: advance_def Let_def)

lemma stamps_above: "x \<in> set (stamps s ts) \<Longrightarrow> s < x"
  by (induction ts arbitrary: s) (auto intro: stamp_grows less_trans [OF stamp_grows])

text \<open>publish stamps strictly increase within a process, for every sequence of clock readings:
  repeated, coarse or running backwards.\<close>

theorem stamps_strictly_increase: "sorted_wrt (<) (s # stamps s ts)"
proof (induction ts arbitrary: s)
  case (Cons t ts)
  then show ?case using stamp_grows [of s t] stamps_above [of _ s "t # ts"] by auto
qed simp

text \<open>A slot's own round counts its advances, whatever the other slots do; the event counts all.\<close>

lemma slot_rounds_count:
  "sc_event (foldl (\<lambda>c x. snd (advance c x)) c xs) = sc_event c + int (length xs)
    \<and> slot_round (foldl (\<lambda>c x. snd (advance c x)) c xs) y = slot_round c y + int (count_list xs y)"
  by (induction xs arbitrary: c) (auto simp: advance_def Let_def slot_round_def)

subsection \<open>The pointer\<close>

lemma int_values_ints: "\<forall>(k, v) \<in> set kvs. \<exists>n. v = JInt n \<Longrightarrow> int_values kvs = Inr kvs"
proof -
  assume "\<forall>(k, v) \<in> set kvs. \<exists>n. v = JInt n"
  then show ?thesis by (induction kvs) (auto simp: int_values_def)
qed

lemma pointer_roundtrip:
  assumes "sd_pointer_encode event (Some (map (\<lambda>(k, n). (k, JInt n)) rounds)) model done stamp = Inr p"
  shows "sd_pointer_decode p = Inr ([(''v'', JInt 2), (''event'', JInt event),
      (''slot_rounds'', JObj (map (\<lambda>(k, n). (k, JInt n)) rounds)), (''model_root'', model), (''done'', JBool done)]
      @ (case stamp of None \<Rightarrow> [] | Some t \<Rightarrow> [(''published_at'', JInt t)]))"
proof -
  let ?rs = "map (\<lambda>(k, n). (k, JInt n)) rounds"
  have iv: "int_values ?rs = Inr ?rs" by (rule int_values_ints) auto
  show ?thesis
    using assms
    by (cases stamp) (auto simp: sd_pointer_encode_def iv sd_pointer_decode_def missing_key_def items_of_def rget_def
        decoded_def sd_ptr_with_stamp_def)
qed

text \<open>the lane pointer survives the wire: what a publisher encodes, a reader decodes to the same
  event, per-slot rounds, model root, terminal flag and stamp, and nothing else; and a reader of the
  first version, which knows only a round and a state, finds the event and the model root in it.\<close>

theorem pointer_survives_the_wire:
  assumes "sd_pointer_encode event (Some (map (\<lambda>(k, n). (k, JInt n)) rounds)) model done stamp = Inr p"
  shows "sd_pointer_decode p = Inr ([(''v'', JInt 2), (''event'', JInt event),
      (''slot_rounds'', JObj (map (\<lambda>(k, n). (k, JInt n)) rounds)), (''model_root'', model), (''done'', JBool done)]
      @ (case stamp of None \<Rightarrow> [] | Some t \<Rightarrow> [(''published_at'', JInt t)]))
    \<and> (\<exists>d. sd_pointer_decode (JObj [(''round'', get_or p ''round'' JNull), (''state_cid'', get_or p ''state_cid'' JNull)])
         = Inr d \<and> map_of d ''event'' = Some (JInt event) \<and> map_of d ''model_root'' = Some model)"
proof (intro conjI)
  show "sd_pointer_decode p = Inr ([(''v'', JInt 2), (''event'', JInt event),
      (''slot_rounds'', JObj (map (\<lambda>(k, n). (k, JInt n)) rounds)), (''model_root'', model), (''done'', JBool done)]
      @ (case stamp of None \<Rightarrow> [] | Some t \<Rightarrow> [(''published_at'', JInt t)]))"
    by (rule pointer_roundtrip [OF assms])
  obtain rs where p: "p = JObj ([(''v'', JInt 2), (''event'', JInt event), (''rounds'', JObj rs),
                   (''model_root'', model), (''done'', JBool done), (''round'', JInt event), (''state_cid'', model)]
                  @ (case stamp of None \<Rightarrow> [] | Some p \<Rightarrow> [(''published_at'', JInt p)]))"
    using assms by (auto simp: sd_pointer_encode_def bindE_Inr_iff)
  then have "get_or p ''round'' JNull = JInt event" "get_or p ''state_cid'' JNull = model" by simp_all
  then show "\<exists>d. sd_pointer_decode (JObj [(''round'', get_or p ''round'' JNull), (''state_cid'', get_or p ''state_cid'' JNull)])
         = Inr d \<and> map_of d ''event'' = Some (JInt event) \<and> map_of d ''model_root'' = Some model"
    by (simp add: sd_pointer_decode_def missing_key_def decoded_def rget_def sd_ptr_with_stamp_def)
qed

theorem pointer_survives_the_wire_witness:
  "\<exists>p. sd_pointer_encode 7 (Some [(''a'', JInt 3)]) (JStr ''r'') False (Some 5) = Inr p
    \<and> (\<exists>d. sd_pointer_decode p = Inr d \<and> map_of d ''event'' = Some (JInt 7))"
proof -
  obtain p where p: "sd_pointer_encode 7 (Some (map (\<lambda>(k, n). (k, JInt n)) [(''a'', 3)])) (JStr ''r'') False (Some 5) = Inr p"
    by (simp add: sd_pointer_encode_def int_values_def)
  from pointer_survives_the_wire [OF p] p show ?thesis by simp
qed

text \<open>an infinite publish stamp, which JSON readers accept, is not ignored as the decoder promises for
  stamps it cannot read: decoding raises, for either version of the pointer.\<close>

theorem infinite_stamp_raises:
  assumes "sd_pointer_decode (JObj kvs) = Inr d" "map_of kvs ''published_at'' = None"
  shows "sd_pointer_decode (JObj (kvs @ [(''published_at'', JNum NonFin)])) = Inl OverflowError"
proof -
  have get: "map_of (kvs @ [(''published_at'', x)]) k = (if k = ''published_at'' then Some x else map_of kvs k)" for k x
    using assms(2) by (auto simp: map_add_def split: option.split)
  have miss: "missing_key ks (kvs @ [(''published_at'', x)]) = missing_key ks kvs" if "''published_at'' \<notin> set ks" for ks x
    using that by (induction ks) (auto simp: missing_key_def get)
  have rg: "rget (kvs @ [(''published_at'', x)]) k = rget kvs k" if "k \<noteq> ''published_at''" for k x
    unfolding rget_def get using that by simp
  have dec: "decoded v e rs r (kvs @ [(''published_at'', JNum NonFin)]) = Inl OverflowError"
    if "decoded v e rs r kvs = Inr d" for v e rs r
  proof -
    have "sd_ptr_with_stamp out (kvs @ [(''published_at'', JNum NonFin)]) = Inl OverflowError" for out
      unfolding sd_ptr_with_stamp_def get by simp
    then show ?thesis using that by (auto simp: decoded_def bindE_Inr_iff)
  qed
  show ?thesis
    using assms(1)
    by (auto simp: sd_pointer_decode_def get miss rg bindE_Inr_iff dec split: if_splits option.splits
        simp del: map_of_append)
qed

theorem infinite_stamp_raises_witness:
  "sd_pointer_decode (JObj ([(''round'', JInt 1), (''state_cid'', JNull)] @ [(''published_at'', JNum NonFin)]))
     = Inl OverflowError"
  by (rule infinite_stamp_raises)
    (auto simp: sd_pointer_decode_def missing_key_def decoded_def rget_def sd_ptr_with_stamp_def)

end
