(* ===== verification/Incentives.thy ===== *)
theory Incentives
  imports Prelude
begin

text \<open>
  The incentive layer, \<^verbatim>\<open>neura_l1/incentives.py\<close>: the sampling threshold of the verification game, its
  expected values, the beacon-bound audit draw, and the recommended parameters. All numbers are
  finite floats.
\<close>

definition DEFAULT_ADVERSARY_FRACTION :: rat where "DEFAULT_ADVERSARY_FRACTION = rnd64 (1 / 10)"
definition DEFAULT_BOUNTY_FRAC :: rat where "DEFAULT_BOUNTY_FRAC = 1 / 2"

subsection \<open>The prover\<close>

definition min_sample_probability :: "rat \<Rightarrow> rat \<Rightarrow> rat \<Rightarrow> rat \<Rightarrow> rat" where
  "min_sample_probability verify_cost reward slash adversary_fraction =
     (let denom = fmul (fsub 1 adversary_fraction) (fadd reward slash)
      in if denom \<le> 0 then 1 else min 1 (fdiv verify_cost denom))"

definition is_nash_honest :: "rat \<Rightarrow> rat \<Rightarrow> rat \<Rightarrow> rat \<Rightarrow> rat \<Rightarrow> bool" where
  "is_nash_honest sample_prob verify_cost reward slash adversary_fraction \<longleftrightarrow>
     min_sample_probability verify_cost reward slash adversary_fraction \<le> sample_prob"

definition cheater_ev :: "rat \<Rightarrow> rat \<Rightarrow> rat \<Rightarrow> rat \<Rightarrow> rat" where
  "cheater_ev reward slash work_saved catch_prob =
     fadd (fsub (fmul (fsub 1 catch_prob) reward) (fmul catch_prob slash)) work_saved"

definition prover_deterred :: "rat \<Rightarrow> rat \<Rightarrow> rat \<Rightarrow> rat \<Rightarrow> bool" where
  "prover_deterred reward slash work_saved catch_prob \<longleftrightarrow> cheater_ev reward slash work_saved catch_prob < reward"

definition min_catch_prob_to_deter :: "rat \<Rightarrow> rat \<Rightarrow> rat \<Rightarrow> rat" where
  "min_catch_prob_to_deter reward slash work_saved =
     (let rs = fadd reward slash in if rs \<le> 0 then 1 else min 1 (fdiv work_saved rs))"

subsection \<open>The verifier\<close>

definition verifier_ev :: "rat \<Rightarrow> rat \<Rightarrow> rat \<Rightarrow> rat" where
  "verifier_ev verify_cost bounty fraud_prob = fsub (fmul fraud_prob bounty) verify_cost"

definition forced_error_min_rate :: "rat \<Rightarrow> rat \<Rightarrow> rat" where
  "forced_error_min_rate verify_cost bounty = (if bounty \<le> 0 then 1 else min 1 (fdiv verify_cost bounty))"

definition challenge_bounty :: "rat \<Rightarrow> rat \<Rightarrow> rat" where
  "challenge_bounty slash fraction = max 0 (fmul slash fraction)"

subsection \<open>The audit draw\<close>

definition hex_digit :: "char \<Rightarrow> nat option" where
  "hex_digit c = (let n = of_char c :: nat in
     if 48 \<le> n \<and> n \<le> 57 then Some (n - 48)
     else if 97 \<le> n \<and> n \<le> 102 then Some (n - 87)
     else if 65 \<le> n \<and> n \<le> 70 then Some (n - 55) else None)"

fun hex_value :: "nat \<Rightarrow> string \<Rightarrow> nat option" where
  "hex_value acc [] = Some acc"
| "hex_value acc (c # cs) = (case hex_digit c of None \<Rightarrow> None | Some d \<Rightarrow> hex_value (16 * acc + d) cs)"

text \<open>The first 13 hexadecimal digits of the hash, 52 bits, as a fraction below 1.\<close>

definition must_audit :: "world \<Rightarrow> string \<Rightarrow> string \<Rightarrow> rat \<Rightarrow> string \<Rightarrow> exn + bool" where
  "must_audit W randomness verifier_id sample_prob salt =
     (if 1 \<le> sample_prob then Inr True
      else if sample_prob \<le> 0 then Inr False
      else bindE (orE (ValueError ''invalid literal for int'')
             (hex_value 0 (take 13 (sha256 W (randomness @ ''|'' @ verifier_id @ ''|'' @ salt))))) (\<lambda>n.
           Inr (fdiv (of_nat n) (2 ^ 52) < sample_prob)))"

subsection \<open>Recommended parameters\<close>

datatype incentive_gap = BelowNash | NotDeterred | VerifierUnpaid

definition is_incentive_secure ::
  "rat \<Rightarrow> rat \<Rightarrow> rat \<Rightarrow> rat \<Rightarrow> rat \<Rightarrow> rat \<Rightarrow> rat \<Rightarrow> rat \<Rightarrow> bool \<times> incentive_gap list" where
  "is_incentive_secure sample_prob verify_cost reward slash bounty work_saved forced_error_rate adversary_fraction =
     (let reasons = (if is_nash_honest sample_prob verify_cost reward slash adversary_fraction then [] else [BelowNash])
        @ (if prover_deterred reward slash work_saved sample_prob then [] else [NotDeterred])
        @ (if verifier_ev verify_cost bounty forced_error_rate \<le> 0 then [VerifierUnpaid] else [])
      in (reasons = [], reasons))"

record recommendation =
  rc_sample_prob :: rat
  rc_posp_threshold :: rat
  rc_bounty :: rat
  rc_forced_error_rate :: rat
  rc_prover_catch_prob_needed :: rat
  rc_secure :: bool

definition recommend :: "rat \<Rightarrow> rat \<Rightarrow> rat \<Rightarrow> rat option \<Rightarrow> rat \<Rightarrow> rat \<Rightarrow> rat \<Rightarrow> recommendation" where
  "recommend reward verify_cost slash work_saved adversary_fraction bounty_frac margin =
     (let work_saved = (case work_saved of None \<Rightarrow> verify_cost | Some w \<Rightarrow> w);
          p_star = min_sample_probability verify_cost reward slash adversary_fraction;
          sample_prob = min 1 (fmul p_star margin);
          bounty = challenge_bounty slash bounty_frac;
          f_min = forced_error_min_rate verify_cost bounty;
          forced = min 1 (fmul f_min margin)
      in \<lparr>rc_sample_prob = sample_prob, rc_posp_threshold = p_star, rc_bounty = bounty,
          rc_forced_error_rate = forced,
          rc_prover_catch_prob_needed = min_catch_prob_to_deter reward slash work_saved,
          rc_secure = fst (is_incentive_secure sample_prob verify_cost reward slash bounty work_saved forced
                             adversary_fraction)\<rparr>)"

subsection \<open>What the recommendation guarantees\<close>

lemma min_sample_bounds:
  assumes "0 \<le> verify_cost"
  shows "0 \<le> min_sample_probability verify_cost reward slash r" "min_sample_probability verify_cost reward slash r \<le> 1"
    "is_f64 (min_sample_probability verify_cost reward slash r)"
proof -
  have one: "is_f64 1" by (simp add: is_f64_def rnd64_of_int [of 1, simplified])
  let ?d = "fmul (fsub 1 r) (fadd reward slash)"
  show "0 \<le> min_sample_probability verify_cost reward slash r"
    using assms fdiv_nonneg [of verify_cost ?d] by (simp add: min_sample_probability_def Let_def)
  show "min_sample_probability verify_cost reward slash r \<le> 1"
    by (simp add: min_sample_probability_def Let_def)
  show "is_f64 (min_sample_probability verify_cost reward slash r)"
    using one is_f64_ops by (simp add: min_sample_probability_def Let_def min_def)
qed

lemma fmul_grows: "is_f64 p \<Longrightarrow> 0 \<le> p \<Longrightarrow> 1 \<le> m \<Longrightarrow> p \<le> fmul p m"
  unfolding fmul_def is_f64_def by (metis mult.right_neutral mult_left_mono rnd64_mono)

text \<open>the recommended sampling rate is a probability and reaches the threshold at which honesty is the
  equilibrium, in floating point, for every safety margin of at least 1; and when the recommendation
  says that it is secure, cheating loses money and verifying earns money at the recommended rates.\<close>

theorem recommended_sampling_is_honest:
  assumes "0 \<le> verify_cost" "1 \<le> margin" "rec = recommend reward verify_cost slash w r b margin"
  shows "0 \<le> rc_sample_prob rec \<and> rc_sample_prob rec \<le> 1
    \<and> is_nash_honest (rc_sample_prob rec) verify_cost reward slash r
    \<and> (rc_secure rec \<longrightarrow> cheater_ev reward slash (case w of None \<Rightarrow> verify_cost | Some x \<Rightarrow> x) (rc_sample_prob rec) < reward
         \<and> 0 < verifier_ev verify_cost (rc_bounty rec) (rc_forced_error_rate rec))"
proof -
  note p = min_sample_bounds [OF assms(1), of reward slash r]
  have "min_sample_probability verify_cost reward slash r
      \<le> fmul (min_sample_probability verify_cost reward slash r) margin"
    by (rule fmul_grows [OF p(3,1) assms(2)])
  then have "0 \<le> rc_sample_prob rec \<and> rc_sample_prob rec \<le> 1
      \<and> is_nash_honest (rc_sample_prob rec) verify_cost reward slash r"
    using p(1,2) by (simp add: assms(3) recommend_def Let_def is_nash_honest_def)
  moreover have "cheater_ev reward slash (case w of None \<Rightarrow> verify_cost | Some x \<Rightarrow> x) (rc_sample_prob rec) < reward
      \<and> 0 < verifier_ev verify_cost (rc_bounty rec) (rc_forced_error_rate rec)" if "rc_secure rec"
    using that by (auto simp: assms(3) recommend_def Let_def is_incentive_secure_def prover_deterred_def split: if_splits)
  ultimately show ?thesis by blast
qed

theorem recommended_sampling_is_honest_witness:
  "is_nash_honest (rc_sample_prob (recommend 10 1 100 None (1/2) (1/2) 2)) 1 10 100 (1/2)"
  using recommended_sampling_is_honest [OF _ _ refl, of 1 2 10 100 None "1/2" "1/2"] by simp

end
