(* ===== verification/Committee.thy ===== *)
theory Committee
  imports Signing Clock Merge_Gate Incentives
begin

text \<open>
  The verification committee of \<^verbatim>\<open>neurahash/diloco_committee.py\<close>: the beacon, the signed attestation of a
  held-out verdict, the M-of-N and stake-weighted aggregation, the acceptance policy, and the live
  adapter that selects verifiers and gathers their votes. Attestations are decoded values; a gain that
  is not finite is signed as such, one value for all of them. The transport to a verifier is a
  parameter that answers with a decoded value or fails; timeouts are failures.
\<close>

subsection \<open>Attestations\<close>

definition ATTEST_TAG :: string where "ATTEST_TAG = ''neurahash-diloco-committee''"

definition delta_hash_np :: "world \<Rightarrow> ('a, 'e) numpy \<Rightarrow> 'a params \<Rightarrow> string" where
  "delta_hash_np W N delta = sha256 W (concat (map
     (\<lambda>(k, a). k @ np_shape_text N (np_shape N a) @ np_bytes32 N a) (sort_key fst delta)))"

definition diloco_committee_beacon :: "world \<Rightarrow> int \<Rightarrow> string \<Rightarrow> string \<Rightarrow> exn + string" where
  "diloco_committee_beacon W base_round round_beacon_hex delta_hash_hex =
     bindE (orE OverflowError (be8 base_round)) (\<lambda>r. Inr (sha256 W (r @ round_beacon_hex @ delta_hash_hex)))"

fun gain_value :: "xfloat \<Rightarrow> pyfloat" where
  "gain_value (XFin q) = Fin q"
| "gain_value _ = NonFin"

text \<open>\<^verbatim>\<open>round(float(gain), 6)\<close>.\<close>

fun round6 :: "pyfloat \<Rightarrow> json" where
  "round6 (Fin q) = JNum (Fin (round_dec 6 q))"
| "round6 NonFin = JNum NonFin"

definition diloco_attestation_payload :: "world \<Rightarrow> string \<Rightarrow> int \<Rightarrow> string \<Rightarrow> bool \<Rightarrow> pyfloat \<Rightarrow> string" where
  "diloco_attestation_payload W delta_hash base_round beacon accepted gain = dumps W (JObj
     [(''accepted'', JBool accepted), (''base_round'', JInt base_round), (''beacon'', JStr beacon),
      (''delta_hash'', JStr delta_hash), (''gain'', round6 gain), (''w'', JStr ATTEST_TAG)])"

definition sign_diloco_attestation ::
  "world \<Rightarrow> account \<Rightarrow> string \<Rightarrow> int \<Rightarrow> string \<Rightarrow> bool \<Rightarrow> pyfloat \<Rightarrow> exn + json" where
  "sign_diloco_attestation W a delta_hash base_round beacon accepted gain =
     bindE (sign_bytes W a (diloco_attestation_payload W delta_hash base_round beacon accepted gain)) (\<lambda>sig.
       Inr (JObj [(''delta_hash'', JStr delta_hash), (''base_round'', JInt base_round), (''beacon'', JStr beacon),
         (''accepted'', JBool accepted), (''gain'', round6 gain), (''verifier_addr'', JStr (acct_address a)),
         (''sig'', JStr sig)]))"

definition recover_attestation :: "world \<Rightarrow> json \<Rightarrow> exn + string" where
  "recover_attestation W att =
     bindE (text_at W att ''delta_hash'') (\<lambda>dh.
     bindE (int_at att ''base_round'') (\<lambda>r.
     bindE (text_at W att ''beacon'') (\<lambda>b.
     bindE (getE att ''accepted'') (\<lambda>acc.
     bindE (bindE (getE att ''gain'') (\<lambda>g. orE (ValueError ''could not convert to float'') (jfloat g))) (\<lambda>g.
     bindE (bindE (getE att ''sig'') strE) (\<lambda>sig.
       recover_bytes W (diloco_attestation_payload W dh r b (truthy acc) g) sig))))))"

text \<open>\<open>Some\<close> the recovered address where the attestation is valid.\<close>

definition verify_diloco_attestation :: "world \<Rightarrow> json \<Rightarrow> string option" where
  "verify_diloco_attestation W att =
     (case recover_attestation W att of
        Inl _ \<Rightarrow> None
      | Inr rec \<Rightarrow> (case get_or att ''verifier_addr'' JNull of
           JStr claimed \<Rightarrow> if str_lower rec = str_lower claimed then Some rec else None
         | _ \<Rightarrow> None))"

definition held_out_verdict ::
  "('a, 'e) numpy \<Rightarrow> ('a params \<Rightarrow> xfloat) \<Rightarrow> rat \<Rightarrow> rat \<Rightarrow> 'a params \<Rightarrow> 'a params \<Rightarrow> bool \<times> xfloat" where
  "held_out_verdict N ev outer margin trunk delta =
     (let v = fst (apply_delta_gated N ev outer margin False trunk delta)
      in (gv_accepted v, case (gv_base_val v, gv_merged_val v) of
            (Some b, Some m) \<Rightarrow> xsub b m | _ \<Rightarrow> XFin 0))"

definition build_diloco_attestation ::
  "world \<Rightarrow> ('a, 'e) numpy \<Rightarrow> ('a params \<Rightarrow> xfloat) \<Rightarrow> rat \<Rightarrow> rat \<Rightarrow> 'a params \<Rightarrow> 'a params \<Rightarrow> string \<Rightarrow> int
     \<Rightarrow> string \<Rightarrow> bool \<Rightarrow> account \<Rightarrow> exn + json" where
  "build_diloco_attestation W N ev outer margin trunk delta delta_hash base_round beacon flip a =
     (case held_out_verdict N ev outer margin trunk delta of (accepted, gain) \<Rightarrow>
        sign_diloco_attestation W a delta_hash base_round beacon (if flip then \<not> accepted else accepted)
          (gain_value gain))"

subsection \<open>Aggregation\<close>

text \<open>Who may vote: anybody, the addresses of a list, or the keys of a dictionary, whose values are stakes or,
  where they are \<open>None\<close>, no plain numbers.\<close>

datatype electorate = Anyone | Listed "string list" | Bonded "(string, xfloat option) pydict"

fun stake_entries :: "(string, xfloat) pydict \<Rightarrow> (string, xfloat option) pydict \<Rightarrow> (string, xfloat) pydict option" where
  "stake_entries out [] = Some out"
| "stake_entries out ((a, s) # rest) = (case s of
     None \<Rightarrow> None
   | Some x \<Rightarrow> (let k = str_lower a in stake_entries (dset k (xadd (dget out k (XFin 0)) (xmax0 x)) out) rest))"

definition attestation_stake_weights :: "electorate \<Rightarrow> (string, xfloat) pydict option" where
  "attestation_stake_weights e = (case e of Bonded d \<Rightarrow> stake_entries [] d | _ \<Rightarrow> None)"

definition allowed_signers :: "electorate \<Rightarrow> string list option" where
  "allowed_signers e = (case e of
     Anyone \<Rightarrow> None | Listed as \<Rightarrow> Some (map str_lower as) | Bonded d \<Rightarrow> Some (map str_lower (dkeys d)))"

definition att_accepts :: "json \<Rightarrow> bool" where
  "att_accepts att = truthy (get_or att ''accepted'' JNull)"

record tally =
  tl_valid :: "(string \<times> json) list"
  tl_n_accept :: int
  tl_accept_stake :: xfloat

text \<open>One attestation: \<open>tl_valid\<close> pairs the lower-cased recovered signer with its attestation, so its
  first components are the \<^verbatim>\<open>seen\<close> set.\<close>

definition count_attestation ::
  "world \<Rightarrow> string list option \<Rightarrow> (string, xfloat) pydict option \<Rightarrow> tally \<Rightarrow> json \<Rightarrow> tally" where
  "count_attestation W allow weights t att =
     (case verify_diloco_attestation W att of
        None \<Rightarrow> t
      | Some rec \<Rightarrow>
          (let a = str_lower rec
           in if a \<in> set (map fst (tl_valid t)) \<or> (case allow of None \<Rightarrow> False | Some as \<Rightarrow> a \<notin> set as) then t
              else (let t = t\<lparr>tl_valid := tl_valid t @ [(a, att)]\<rparr>
                    in if \<not> att_accepts att then t
                       else t\<lparr>tl_n_accept := tl_n_accept t + 1,
                              tl_accept_stake := (case weights of None \<Rightarrow> tl_accept_stake t
                                 | Some w \<Rightarrow> xadd (tl_accept_stake t) (dget w a (XFin 0)))\<rparr>)))"

definition tally_votes ::
  "world \<Rightarrow> string list option \<Rightarrow> (string, xfloat) pydict option \<Rightarrow> json list \<Rightarrow> tally" where
  "tally_votes W allow weights atts =
     foldl (count_attestation W allow weights) \<lparr>tl_valid = [], tl_n_accept = 0, tl_accept_stake = XFin 0\<rparr> atts"

definition tally_accepts :: "(string, xfloat) pydict option \<Rightarrow> int \<Rightarrow> tally \<Rightarrow> bool" where
  "tally_accepts weights m t = (case weights of
     None \<Rightarrow> m \<le> tl_n_accept t
   | Some w \<Rightarrow> (let total_stake = foldl xadd (XFin 0) (dvalues w)
       in xless (XFin 0) total_stake \<and> xless total_stake (xmul (tl_accept_stake t) (XFin 2))))"

text \<open>The signed gain of a vote is beyond the tolerance from the accept boundary; a gain that is not finite
  is taken as an infinity.\<close>

definition clear_gain :: "rat \<Rightarrow> rat \<Rightarrow> json \<Rightarrow> bool" where
  "clear_gain boundary tolerance att = (case jfloat (get_or att ''gain'' (JNum (Fin 0))) of
     Some (Fin q) \<Rightarrow> tolerance < \<bar>fsub q boundary\<bar> | _ \<Rightarrow> True)"

definition slashable_votes :: "rat \<Rightarrow> rat \<Rightarrow> bool \<Rightarrow> tally \<Rightarrow> string list" where
  "slashable_votes boundary tolerance accepted t = sort (remdups (List.map_filter (\<lambda>(a, att).
     if att_accepts att \<noteq> accepted \<and> (tolerance \<le> 0 \<or> clear_gain boundary tolerance att)
     then (case get_or att ''verifier_addr'' JNull of JStr v \<Rightarrow> Some v | _ \<Rightarrow> None) else None) (tl_valid t)))"

definition aggregate_diloco_attestations ::
  "world \<Rightarrow> json list \<Rightarrow> int \<Rightarrow> electorate \<Rightarrow> rat \<Rightarrow> rat \<Rightarrow> exn + bool \<times> tally \<times> string list" where
  "aggregate_diloco_attestations W atts m e boundary tolerance =
     (if m < 1 then Inl (ValueError ''committee threshold must be >= 1'')
      else (let weights = attestation_stake_weights e;
                t = tally_votes W (allowed_signers e) weights atts;
                accepted = tally_accepts weights m t
            in Inr (accepted, t, slashable_votes boundary tolerance accepted t)))"

subsection \<open>The verdict\<close>

record committee_verdict =
  cm_accepted :: bool
  cm_n_accept :: int
  cm_n_total :: int
  cm_quorum :: int
  cm_quorum_met :: bool
  cm_selected_n :: "int option"
  cm_per_verifier :: "(string \<times> json) list"
  cm_slashable :: "string list"
  cm_beacon :: string
  cm_delta_hash :: string

definition electorate_size :: "electorate \<Rightarrow> nat" where
  "electorate_size e = (case allowed_signers e of None \<Rightarrow> 0 | Some as \<Rightarrow> length (remdups as))"

definition committee_result ::
  "world \<Rightarrow> json list \<Rightarrow> int \<Rightarrow> electorate \<Rightarrow> rat \<Rightarrow> rat \<Rightarrow> string \<Rightarrow> string \<Rightarrow> exn + committee_verdict" where
  "committee_result W atts m e margin tolerance beacon delta_hash =
     bindE (aggregate_diloco_attestations W atts m e margin tolerance) (\<lambda>(accepted, t, slashable).
       Inr \<lparr>cm_accepted = accepted, cm_n_accept = tl_n_accept t, cm_n_total = int (length (tl_valid t)),
            cm_quorum = m, cm_quorum_met = (m \<le> int (length (tl_valid t))),
            cm_selected_n = Some (case e of Anyone \<Rightarrow> int (length (tl_valid t)) | _ \<Rightarrow> int (electorate_size e)),
            cm_per_verifier = tl_valid t, cm_slashable = slashable, cm_beacon = beacon, cm_delta_hash = delta_hash\<rparr>)"

text \<open>The two ways to inject verifiers: accounts that run the gate in this process (those in \<open>dishonest\<close>
  lie), or functions that answer with an attestation or fail.\<close>

datatype verifiers = Accounts "account list" | Callables "(exn + json) list"

definition bound_vote :: "string \<Rightarrow> exn + json \<Rightarrow> json option" where
  "bound_vote beacon r = (case r of
     Inr (JObj kvs) \<Rightarrow> if get_or (JObj kvs) ''beacon'' JNull = JStr beacon then Some (JObj kvs) else None
   | _ \<Rightarrow> None)"

definition bound_votes :: "string \<Rightarrow> (exn + json) list \<Rightarrow> json list" where
  "bound_votes beacon rs = List.map_filter (bound_vote beacon) rs"

definition committee_attestations ::
  "world \<Rightarrow> ('a, 'e) numpy \<Rightarrow> ('a params \<Rightarrow> xfloat) \<Rightarrow> rat \<Rightarrow> rat \<Rightarrow> 'a params \<Rightarrow> 'a params \<Rightarrow> string \<Rightarrow> int
     \<Rightarrow> string \<Rightarrow> string list \<Rightarrow> verifiers \<Rightarrow> exn + json list" where
  "committee_attestations W N ev outer margin trunk delta delta_hash base_round beacon dishonest vs =
     (case vs of
        Accounts accts \<Rightarrow> mapE (\<lambda>a. build_diloco_attestation W N ev outer margin trunk delta delta_hash base_round
            beacon (str_lower (acct_address a) \<in> set (map str_lower dishonest)) a) accts
      | Callables rs \<Rightarrow> Inr (bound_votes beacon rs))"

definition verify_diloco_candidate ::
  "world \<Rightarrow> ('a, 'e) numpy \<Rightarrow> ('a params \<Rightarrow> xfloat) \<Rightarrow> rat \<Rightarrow> rat \<Rightarrow> 'a params \<Rightarrow> 'a params \<Rightarrow> string option \<Rightarrow> int
     \<Rightarrow> string \<Rightarrow> int \<Rightarrow> verifiers \<Rightarrow> electorate \<Rightarrow> string list \<Rightarrow> rat \<Rightarrow> exn + committee_verdict" where
  "verify_diloco_candidate W N ev outer margin trunk delta delta_hash base_round round_beacon m vs e dishonest tolerance =
     (if e \<noteq> Anyone \<and> \<not> (1 \<le> m \<and> int (electorate_size e) < m * 2)
      then Inl (ValueError ''committee threshold is not a strict majority of the staked set'')
      else (let dh = (case delta_hash of Some h \<Rightarrow> h | None \<Rightarrow> delta_hash_np W N delta)
            in bindE (diloco_committee_beacon W base_round round_beacon dh) (\<lambda>beacon.
               bindE (committee_attestations W N ev outer margin trunk delta dh base_round beacon dishonest vs) (\<lambda>atts.
                 committee_result W atts m e margin tolerance beacon dh))))"

subsection \<open>The policy\<close>

definition gated_accept :: "bool \<Rightarrow> committee_verdict \<Rightarrow> string \<Rightarrow> int \<Rightarrow> bool \<Rightarrow> bool" where
  "gated_accept single_ok v mode min_cohort strict =
     (if mode \<noteq> ''enforce'' then single_ok
      else (let fallback = (if strict then False else single_ok);
                selected_n = (case cm_selected_n v of None \<Rightarrow> min_cohort | Some n \<Rightarrow> n)
            in if selected_n < min_cohort then fallback
               else if cm_quorum_met v \<and> \<not> cm_accepted v then False
               else if \<not> cm_quorum_met v then fallback
               else single_ok))"

definition committee_verdict_record :: "int \<Rightarrow> record_dict \<Rightarrow> bool \<Rightarrow> committee_verdict \<Rightarrow> string \<Rightarrow> json" where
  "committee_verdict_record round_id r single_ok v mode =
     (let get = (\<lambda>k. case map_of r k of None \<Rightarrow> JNull | Some j \<Rightarrow> j) in JObj
     [(''kind'', JStr ''diloco-committee''), (''round'', JInt round_id), (''mode'', JStr mode),
      (''delta_cid'', get ''delta_cid''), (''base_round'', get ''base_round''),
      (''single_ok'', JBool single_ok), (''committee_accepted'', JBool (cm_accepted v)),
      (''agreement'', JBool (single_ok = cm_accepted v)), (''n_accept'', JInt (cm_n_accept v)),
      (''n_total'', JInt (cm_n_total v)), (''quorum'', JInt (cm_quorum v)),
      (''quorum_met'', JBool (cm_quorum_met v)),
      (''selected_n'', JInt (case cm_selected_n v of None \<Rightarrow> 0 | Some n \<Rightarrow> n)),
      (''slashable'', JList (map JStr (cm_slashable v))), (''delta_hash'', JStr (cm_delta_hash v)),
      (''votes'', JList (map (\<lambda>(a, att). JObj [(''verifier'', get_or att ''verifier_addr'' JNull),
          (''accepted'', JBool (att_accepts att)), (''gain'', get_or att ''gain'' JNull)]) (cm_per_verifier v)))])"

subsection \<open>The live adapter\<close>

text \<open>The part of the coordinator that the adapter reads: the connected nodes, the admission roster with each
  node's signer, the nodes whose socket is busy, and the transport, \<open>None\<close> where none is installed.\<close>

record coordinator =
  co_conns :: "string list"
  co_signer_of :: "(string, string) pydict"
  co_pushing :: "string list"
  co_transport :: "(string \<Rightarrow> exn + json) option"

definition select_staked_verifiers :: "world \<Rightarrow> coordinator \<Rightarrow> string \<Rightarrow> rat \<Rightarrow> exn + string list" where
  "select_staked_verifiers W co beacon sample_prob =
     (let pool = filter (\<lambda>v. v \<in> set (co_conns co) \<and> v \<notin> set (co_pushing co)) (dkeys (co_signer_of co))
      in bindE (mapE (\<lambda>v. bindE (must_audit W beacon (str_lower v) sample_prob ''diloco-audit'') (\<lambda>b. Inr (v, b))) pool)
           (\<lambda>vs. Inr (sort (map fst (filter snd vs)))))"

definition live_verifier_fns :: "coordinator \<Rightarrow> string list \<Rightarrow> (exn + json) list" where
  "live_verifier_fns co selected = (case co_transport co of
     None \<Rightarrow> [] | Some transport \<Rightarrow> map transport selected)"

definition gather_live_attestations :: "(exn + json) list \<Rightarrow> json list" where
  "gather_live_attestations rs = List.map_filter (\<lambda>r. case r of Inr (JObj kvs) \<Rightarrow> Some (JObj kvs) | _ \<Rightarrow> None) rs"

definition verify_candidate_live ::
  "world \<Rightarrow> ('a, 'e) numpy \<Rightarrow> ('a params \<Rightarrow> xfloat) \<Rightarrow> rat \<Rightarrow> rat \<Rightarrow> 'a params \<Rightarrow> 'a params \<Rightarrow> coordinator \<Rightarrow> int
     \<Rightarrow> string \<Rightarrow> rat \<Rightarrow> rat \<Rightarrow> exn + committee_verdict" where
  "verify_candidate_live W N ev outer margin trunk delta co base_round round_beacon sample_prob tolerance =
     (let dh = delta_hash_np W N delta
      in bindE (diloco_committee_beacon W base_round round_beacon dh) (\<lambda>beacon.
         bindE (select_staked_verifiers W co beacon sample_prob) (\<lambda>selected.
           let atts = gather_live_attestations (live_verifier_fns co selected);
               m = int (length selected) div 2 + 1;
               e = (if selected = [] then Anyone
                    else Listed (map (\<lambda>v. dget (co_signer_of co) v []) selected))
           in bindE (verify_diloco_candidate W N ev outer margin trunk delta (Some dh) base_round round_beacon m
                       (Callables (map Inr atts)) e [] tolerance) (\<lambda>v.
                Inr (v\<lparr>cm_selected_n := Some (int (length selected))\<rparr>)))))"

end
