(* ===== verification/Committee_Props.thy ===== *)
theory Committee_Props
  imports Committee
begin

text \<open>The properties of the verification committee.\<close>

subsection \<open>Counting votes\<close>

definition tally_ok :: "world \<Rightarrow> string list option \<Rightarrow> json list \<Rightarrow> tally \<Rightarrow> bool" where
  "tally_ok W allow atts t \<longleftrightarrow> distinct (map fst (tl_valid t))
     \<and> (\<forall>(a, att) \<in> set (tl_valid t). att \<in> set atts
          \<and> (\<exists>rec. verify_diloco_attestation W att = Some rec \<and> str_lower rec = a)
          \<and> (\<forall>as. allow = Some as \<longrightarrow> a \<in> set as))
     \<and> tl_n_accept t = int (length (filter (\<lambda>(a, att). att_accepts att) (tl_valid t)))"

lemma count_attestation_ok:
  assumes "tally_ok W allow atts t" "att \<in> set atts"
  shows "tally_ok W allow atts (count_attestation W allow weights t att)"
proof (cases "verify_diloco_attestation W att")
  case (Some rec)
  show ?thesis
  proof (cases "str_lower rec \<in> set (map fst (tl_valid t)) \<or> (case allow of None \<Rightarrow> False | Some as \<Rightarrow> str_lower rec \<notin> set as)")
    case False
    then have new: "str_lower rec \<notin> fst ` set (tl_valid t)" "\<forall>as. allow = Some as \<longrightarrow> str_lower rec \<in> set as"
      by (auto split: option.splits)
    have "tl_valid (count_attestation W allow weights t att) = tl_valid t @ [(str_lower rec, att)]"
      "tl_n_accept (count_attestation W allow weights t att) = tl_n_accept t + (if att_accepts att then 1 else 0)"
      using False by (auto simp: count_attestation_def Some Let_def)
    then show ?thesis using assms new Some by (auto simp: tally_ok_def)
  qed (use assms Some in \<open>auto simp: count_attestation_def Let_def\<close>)
qed (use assms in \<open>simp add: count_attestation_def\<close>)

text \<open>Counting a vote keeps the tally in order, for every list the votes are drawn from.\<close>

lemma tally_votes_ok: "tally_ok W allow atts (tally_votes W allow weights atts)"
proof -
  have "tally_ok W allow atts (foldl (count_attestation W allow weights) t as)"
    if "tally_ok W allow atts t" "set as \<subseteq> set atts" for as t
    using that by (induction as arbitrary: t) (auto intro: count_attestation_ok)
  from this [of "\<lparr>tl_valid = [], tl_n_accept = 0, tl_accept_stake = XFin 0\<rparr>" atts] show ?thesis
    unfolding tally_votes_def by (simp add: tally_ok_def)
qed

text \<open>The verifiers that accepted, and what each of them signed.\<close>

definition accepters :: "tally \<Rightarrow> string set" where
  "accepters t = fst ` {(a, att) \<in> set (tl_valid t). att_accepts att}"

lemma card_accepters:
  assumes "tally_ok W allow atts t"
  shows "int (card (accepters t)) = tl_n_accept t"
proof -
  let ?acc = "filter (\<lambda>(a, att). att_accepts att) (tl_valid t)"
  have "distinct (map fst ?acc)" using assms by (intro distinct_map_filter) (simp add: tally_ok_def)
  moreover have "accepters t = set (map fst ?acc)" by (auto simp: accepters_def)
  ultimately have "card (accepters t) = length ?acc" by (metis distinct_card length_map)
  then show ?thesis using assms by (simp add: tally_ok_def)
qed

lemma verified_attestation_signed:
  assumes "verify_diloco_attestation W att = Some rec" "get_or att ''beacon'' JNull = JStr b"
  obtains dh r g sig where
    "recover_bytes W (diloco_attestation_payload W dh r b (att_accepts att) g) sig = Inr rec"
    "jfloat (get_or att ''gain'' JNull) = Some g"
proof -
  obtain dh r b' acc g j sig where p:
    "text_at W att ''beacon'' = Inr b'" "getE att ''accepted'' = Inr acc" "getE att ''gain'' = Inr j" "jfloat j = Some g"
    "recover_bytes W (diloco_attestation_payload W dh r b' (truthy acc) g) sig = Inr rec"
    using assms(1)
    by (auto simp: verify_diloco_attestation_def recover_attestation_def bindE_Inr_iff orE_Inr_iff
        split: sum.splits json.splits if_splits)
  have "b' = b" "att_accepts att = truthy acc" "get_or att ''gain'' JNull = j"
    using p assms(2)
    by (auto simp: text_at_def getE_def bindE_Inr_iff orE_Inr_iff get_or_def att_accepts_def)
  with p that show thesis by metis
qed

subsection \<open>Committees of addresses\<close>

text \<open>A committee of addresses is a vote of equal weights: the contract of a majority.\<close>

interpretation cohort: majority "set (map str_lower as)" "\<lambda>_. 1" for as
  by unfold_locales simp_all


lemma committee_result_Listed:
  assumes "1 \<le> m" "committee_result W atts m (Listed as) margin tol b h = Inr v"
  shows "cm_beacon v = b"
    "cm_accepted v \<longleftrightarrow> m \<le> tl_n_accept (tally_votes W (Some (map str_lower as)) None atts)"
proof -
  define t where "t = tally_votes W (Some (map str_lower as)) None atts"
  have "aggregate_diloco_attestations W atts m (Listed as) margin tol
      = Inr (m \<le> tl_n_accept t, t, slashable_votes margin tol (m \<le> tl_n_accept t) t)"
    using assms(1) by (simp add: aggregate_diloco_attestations_def attestation_stake_weights_def
        allowed_signers_def t_def tally_accepts_def Let_def)
  then have "cm_beacon v = b \<and> (cm_accepted v \<longleftrightarrow> m \<le> tl_n_accept t)"
    using assms(2) unfolding committee_result_def by clarsimp
  then show "cm_beacon v = b"
    "cm_accepted v \<longleftrightarrow> m \<le> tl_n_accept (tally_votes W (Some (map str_lower as)) None atts)"
    by (simp_all add: t_def)
qed

lemma bound_vote_beacon: "bound_vote b r = Some att \<Longrightarrow> get_or att ''beacon'' JNull = JStr b"
  unfolding bound_vote_def
  by (cases r; simp del: get_or_JObj split: json.splits if_splits; elim conjE; hypsubst; assumption)

lemma committee_acceptance:
  assumes "verify_diloco_candidate W N ev outer margin trunk delta dh r rb m (Callables rs) (Listed as) dis tol = Inr v"
    "cm_accepted v"
  obtains A where "cohort.decides as A"
    "\<forall>a \<in> A. \<exists>h q g sig rec. recover_bytes W (diloco_attestation_payload W h q (cm_beacon v) True g) sig = Inr rec
       \<and> str_lower rec = a"
proof -
  obtain b h where m: "1 \<le> m" "int (electorate_size (Listed as)) < m * 2"
    and c: "bindE (committee_attestations W N ev outer margin trunk delta h r b dis (Callables rs))
      (\<lambda>atts. committee_result W atts m (Listed as) margin tol b h) = Inr v"
    using assms(1) by (auto simp: verify_diloco_candidate_def Let_def bindE_Inr_iff split: if_splits)
  define atts where "atts = bound_votes b rs"
  define t where "t = tally_votes W (Some (map str_lower as)) None atts"
  have c': "committee_result W atts m (Listed as) margin tol b h = Inr v"
    using c by (simp add: committee_attestations_def atts_def)
  have v: "cm_beacon v = b" "m \<le> tl_n_accept t"
    using committee_result_Listed [OF m(1) c'] assms(2) by (simp_all add: t_def)
  have ok: "tally_ok W (Some (map str_lower as)) atts t" unfolding t_def by (rule tally_votes_ok)
  have beacon: "get_or att ''beacon'' JNull = JStr b" if "att \<in> set atts" for att
    using that by (auto simp: atts_def bound_votes_def map_filter_def bound_vote_beacon simp del: get_or_JObj)
  show thesis
  proof (rule that [of "accepters t"])
    have "accepters t \<subseteq> set (map str_lower as)"
      using ok by (auto simp: accepters_def tally_ok_def)
    moreover have "int (length (remdups (map str_lower as))) < 2 * int (card (accepters t))"
      using m(2) v(2) card_accepters [OF ok] by (simp add: electorate_size_def allowed_signers_def)
    then have "int (card (set (map str_lower as))) < 2 * int (card (accepters t))"
      by (simp only: length_remdups_card_conv)
    then have "(of_int (int (card (set (map str_lower as)))) :: rat) < of_int (2 * int (card (accepters t)))"
      by (simp only: of_int_less_iff)
    ultimately show "cohort.decides as (accepters t)" unfolding cohort.decides_def by simp
    show "\<forall>a \<in> accepters t. \<exists>h q g sig rec.
        recover_bytes W (diloco_attestation_payload W h q (cm_beacon v) True g) sig = Inr rec \<and> str_lower rec = a"
    proof
      fix a assume "a \<in> accepters t"
      then obtain att where att: "(a, att) \<in> set (tl_valid t)" "att_accepts att" by (auto simp: accepters_def)
      then obtain rec where rec: "verify_diloco_attestation W att = Some rec" "str_lower rec = a" "att \<in> set atts"
        using ok by (auto simp: tally_ok_def)
      obtain h q g sig where "recover_bytes W (diloco_attestation_payload W h q b (att_accepts att) g) sig = Inr rec"
        by (rule verified_attestation_signed [OF rec(1) beacon [OF rec(3)]])
      then have "recover_bytes W (diloco_attestation_payload W h q (cm_beacon v) True g) sig = Inr rec"
        using att(2) v(1) by simp
      then show "\<exists>h q g sig rec. recover_bytes W (diloco_attestation_payload W h q (cm_beacon v) True g) sig = Inr rec
          \<and> str_lower rec = a"
        using rec(2) by blast
    qed
  qed
qed

text \<open>C28: a committee of addresses accepts a candidate only if more than half of its distinct members
  signed an accepting vote that names the beacon of this candidate; votes that are forged, repeated, off
  the roster or taken from another candidate never add up to that; and two candidates accepted by one
  committee have a member that accepted both.\<close>

theorem acceptance_needs_a_signed_majority:
  assumes "verify_diloco_candidate W N ev outer margin trunk delta dh r rb m (Callables rs) (Listed as) dis tol = Inr v"
    "cm_accepted v"
    "verify_diloco_candidate W N ev' outer margin' trunk' delta' dh' r' rb' m' (Callables rs') (Listed as) dis tol' = Inr v'"
    "cm_accepted v'"
  shows "(\<exists>A \<subseteq> set (map str_lower as). card (set (map str_lower as)) < 2 * card A
      \<and> (\<forall>a \<in> A. \<exists>h q g sig rec. recover_bytes W (diloco_attestation_payload W h q (cm_beacon v) True g) sig = Inr rec
            \<and> str_lower rec = a))
    \<and> (\<exists>a h q g sig rec h' q' g' sig' rec'.
         recover_bytes W (diloco_attestation_payload W h q (cm_beacon v) True g) sig = Inr rec
       \<and> recover_bytes W (diloco_attestation_payload W h' q' (cm_beacon v') True g') sig' = Inr rec'
       \<and> a \<in> set (map str_lower as) \<and> str_lower rec = a \<and> str_lower rec' = a)"
proof -
  obtain A where A: "cohort.decides as A"
    "\<forall>a \<in> A. \<exists>h q g sig rec. recover_bytes W (diloco_attestation_payload W h q (cm_beacon v) True g) sig = Inr rec
       \<and> str_lower rec = a"
    by (rule committee_acceptance [OF assms(1,2)])
  obtain B where B: "cohort.decides as B"
    "\<forall>a \<in> B. \<exists>h q g sig rec. recover_bytes W (diloco_attestation_payload W h q (cm_beacon v') True g) sig = Inr rec
       \<and> str_lower rec = a"
    by (rule committee_acceptance [OF assms(3,4)])
  have sub: "A \<subseteq> set (map str_lower as)" using A(1) unfolding cohort.decides_def by blast
  have "(of_nat (card (set (map str_lower as))) :: rat) < of_nat (2 * card A)"
    using A(1) unfolding cohort.decides_def by simp
  then have half: "card (set (map str_lower as)) < 2 * card A" by (simp only: of_nat_less_iff)
  obtain a where a: "a \<in> A" "a \<in> B" using cohort.decisions_meet [OF A(1) B(1)] by blast
  obtain h q g sig rec where x: "recover_bytes W (diloco_attestation_payload W h q (cm_beacon v) True g) sig = Inr rec"
    "str_lower rec = a" using A(2) a(1) by blast
  obtain h' q' g' sig' rec' where y: "recover_bytes W (diloco_attestation_payload W h' q' (cm_beacon v') True g') sig' = Inr rec'"
    "str_lower rec' = a" using B(2) a(2) by blast
  have "\<exists>A \<subseteq> set (map str_lower as). card (set (map str_lower as)) < 2 * card A
      \<and> (\<forall>a \<in> A. \<exists>h q g sig rec. recover_bytes W (diloco_attestation_payload W h q (cm_beacon v) True g) sig = Inr rec
            \<and> str_lower rec = a)"
    using sub half A(2) by blast
  moreover have "a \<in> set (map str_lower as)" using sub a(1) by blast
  ultimately show ?thesis using x y by blast
qed

subsection \<open>An example\<close>

text \<open>A vote of a key, bound to no beacon, in the world where a signature spells out its key.\<close>

definition demo_vote :: "string \<Rightarrow> string \<Rightarrow> bool \<Rightarrow> json" where
  "demo_vote who beacon ok = JObj [(''delta_hash'', JStr ''d''), (''base_round'', JInt 1), (''beacon'', JStr beacon),
     (''accepted'', JBool ok), (''gain'', JNum (Fin 0)), (''verifier_addr'', JStr who), (''sig'', JStr (''0x'' @ who))]"

lemma demo_vote_verifies: "verify_diloco_attestation toy_world (demo_vote who b ok) = Some who"
  by (simp add: verify_diloco_attestation_def recover_attestation_def demo_vote_def text_at_def int_at_def
      recover_bytes_def toy_world_def hex_sig_def starts_with_def)

lemma demo_vote_simps [simp]:
  "att_accepts (demo_vote who b ok) = ok" "get_or (demo_vote who b ok) ''beacon'' JNull = JStr b"
  "get_or (demo_vote who b ok) ''verifier_addr'' JNull = JStr who"
  by (simp_all add: att_accepts_def demo_vote_def)

definition five :: "string list" where "five = [''a'', ''b'', ''c'', ''d'', ''e'']"

lemma five_lower: "str_lower ''a'' = ''a''" "str_lower ''b'' = ''b''" "str_lower ''c'' = ''c''" "str_lower ''d'' = ''d''"
    "str_lower ''e'' = ''e''"
  by (simp_all add: str_lower_def char_lower_def)

definition demo_committee :: "bool \<Rightarrow> exn + committee_verdict" where
  "demo_committee third = committee_result toy_world
     [demo_vote ''a'' [] True, demo_vote ''b'' [] True, demo_vote ''c'' [] third] 3 (Listed five) 0 0 [] []"

lemma demo_committee_eval:
  "demo_committee third = Inr \<lparr>cm_accepted = third, cm_n_accept = (if third then 3 else 2), cm_n_total = 3, cm_quorum = 3,
     cm_quorum_met = True, cm_selected_n = Some 5,
     cm_per_verifier = [(''a'', demo_vote ''a'' [] True), (''b'', demo_vote ''b'' [] True), (''c'', demo_vote ''c'' [] third)],
     cm_slashable = (if third then [] else [''a'', ''b'']), cm_beacon = [], cm_delta_hash = []\<rparr>"
  by (simp add: demo_committee_def committee_result_def aggregate_diloco_attestations_def attestation_stake_weights_def
      allowed_signers_def tally_votes_def count_attestation_def demo_vote_verifies five_def five_lower Let_def
      tally_accepts_def slashable_votes_def List.map_filter_simps electorate_size_def)

lemma bound_votes_demo:
  "bound_votes b (Inr (demo_vote w b ok) # rs) = demo_vote w b ok # bound_votes b rs" "bound_votes b [] = []"
  by (simp_all add: bound_votes_def List.map_filter_simps) (simp add: bound_vote_def demo_vote_def)

theorem acceptance_needs_a_signed_majority_witness:
  "\<exists>v. verify_diloco_candidate toy_world toy_numpy (\<lambda>_. XFin 0) 1 0 [] [] (Some []) 0 [] 3
      (Callables (map (\<lambda>w. Inr (demo_vote w (replicate 8 (char_of (0::nat))) True)) [''a'', ''b'', ''c''])) (Listed five) [] 0 = Inr v
    \<and> (\<exists>A \<subseteq> set (map str_lower five). card (set (map str_lower five)) < 2 * card A)"
proof -
  let ?b = "replicate 8 (char_of (0::nat))"
  have b: "diloco_committee_beacon toy_world 0 [] [] = Inr ?b"
    by (simp add: diloco_committee_beacon_def toy_world_def) code_simp
  obtain v where v: "verify_diloco_candidate toy_world toy_numpy (\<lambda>_. XFin 0) 1 0 [] [] (Some []) 0 [] 3
      (Callables (map (\<lambda>w. Inr (demo_vote w ?b True)) [''a'', ''b'', ''c''])) (Listed five) [] 0 = Inr v" "cm_accepted v"
    by (simp add: verify_diloco_candidate_def b committee_attestations_def bound_votes_demo committee_result_def aggregate_diloco_attestations_def attestation_stake_weights_def
      allowed_signers_def tally_votes_def count_attestation_def demo_vote_verifies five_def five_lower Let_def
      tally_accepts_def electorate_size_def)
  from acceptance_needs_a_signed_majority [OF v v] v(1) show ?thesis by blast
qed

subsection \<open>The policy\<close>

text \<open>the committee only ever tightens the single-node gate: nothing is accepted that the gate
  rejected, in any mode. Under strict enforcement a candidate is accepted exactly if the gate accepts it
  and a quorum of a large enough cohort answered and accepted it.\<close>

theorem committee_only_tightens:
  "(gated_accept single_ok v mode min_cohort strict \<longrightarrow> single_ok)
   \<and> (mode \<noteq> ''enforce'' \<longrightarrow> gated_accept single_ok v mode min_cohort strict = single_ok)
   \<and> (gated_accept single_ok v ''enforce'' min_cohort True \<longleftrightarrow> single_ok \<and> cm_quorum_met v \<and> cm_accepted v
        \<and> (case cm_selected_n v of None \<Rightarrow> True | Some n \<Rightarrow> min_cohort \<le> n))"
  by (auto simp: gated_accept_def Let_def split: option.split)

theorem committee_only_tightens_witness:
  "gated_accept True (case demo_committee True of Inr v \<Rightarrow> v) ''enforce'' 2 True"
  using committee_only_tightens [of True "case demo_committee True of Inr v \<Rightarrow> v" "''enforce''" 2 True]
  by (simp add: demo_committee_eval)

text \<open>a quorum that answers is counted by heads, acceptance by accepting heads. In a committee of five
  where two members cannot be reached, two accept and one rejects, the one rejecting vote is a veto: the
  candidate is refused, although two of the three votes accept it, and the two accepting members are
  slashable. If the third could not be reached either, the candidate would be accepted.\<close>

theorem one_rejection_vetoes:
  "map_sum id (\<lambda>v. (gated_accept True v ''enforce'' 1 False, cm_n_accept v, cm_n_total v, cm_slashable v)) (demo_committee False)
     = Inr (False, 2, 3, [''a'', ''b''])
   \<and> map_sum id (\<lambda>v. gated_accept True v ''enforce'' 1 False)
       (committee_result toy_world [demo_vote ''a'' [] True, demo_vote ''b'' [] True] 3 (Listed five) 0 0 [] []) = Inr True"
proof
  show "map_sum id (\<lambda>v. (gated_accept True v ''enforce'' 1 False, cm_n_accept v, cm_n_total v, cm_slashable v)) (demo_committee False)
     = Inr (False, 2, 3, [''a'', ''b''])"
    by (simp add: demo_committee_eval gated_accept_def)
  show "map_sum id (\<lambda>v. gated_accept True v ''enforce'' 1 False)
       (committee_result toy_world [demo_vote ''a'' [] True, demo_vote ''b'' [] True] 3 (Listed five) 0 0 [] []) = Inr True"
    by (simp add: committee_result_def aggregate_diloco_attestations_def attestation_stake_weights_def
      allowed_signers_def tally_votes_def count_attestation_def demo_vote_verifies five_def five_lower Let_def
      tally_accepts_def slashable_votes_def List.map_filter_simps electorate_size_def gated_accept_def)
qed

subsection \<open>Slashing\<close>

text \<open>a verifier is slashable only for a vote that it signed itself and that disagrees with the
  result; with a tolerance, only if the gain it signed is further than that from the accept boundary, or
  no finite number.\<close>

theorem slashing_needs_a_signed_disagreement:
  assumes "aggregate_diloco_attestations W atts m e boundary tolerance = Inr (accepted, t, slashable)" "a \<in> set slashable"
  shows "\<exists>att rec. att \<in> set atts \<and> verify_diloco_attestation W att = Some rec \<and> str_lower rec = str_lower a
    \<and> att_accepts att \<noteq> accepted \<and> (0 < tolerance \<longrightarrow> clear_gain boundary tolerance att)"
proof -
  have t: "t = tally_votes W (allowed_signers e) (attestation_stake_weights e) atts"
    and s: "slashable = slashable_votes boundary tolerance accepted t"
    using assms(1) by (auto simp: aggregate_diloco_attestations_def Let_def split: if_splits)
  from assms(2) obtain b att where att: "(b, att) \<in> set (tl_valid t)" "att_accepts att \<noteq> accepted"
    "tolerance \<le> 0 \<or> clear_gain boundary tolerance att" "get_or att ''verifier_addr'' JNull = JStr a"
    by (auto simp: s slashable_votes_def map_filter_def simp del: get_or_JObj split: if_splits json.splits)
  have "tally_ok W (allowed_signers e) atts t" unfolding t by (rule tally_votes_ok)
  then obtain rec where rec: "att \<in> set atts" "verify_diloco_attestation W att = Some rec"
    using att(1) by (auto simp: tally_ok_def)
  then have "str_lower rec = str_lower a"
    using att(4) by (auto simp: verify_diloco_attestation_def split: sum.splits if_splits)
  then show ?thesis using rec att(2,3) by force
qed

theorem slashing_needs_a_signed_disagreement_witness:
  "\<exists>att rec. att \<in> set [demo_vote ''a'' [] True] \<and> verify_diloco_attestation toy_world att = Some rec
     \<and> str_lower rec = str_lower ''a'' \<and> att_accepts att \<noteq> False"
proof -
  have "aggregate_diloco_attestations toy_world [demo_vote ''a'' [] True] 2 (Listed five) 0 0
      = Inr (False, \<lparr>tl_valid = [(''a'', demo_vote ''a'' [] True)], tl_n_accept = 1, tl_accept_stake = XFin 0\<rparr>, [''a''])"
    by (simp add: aggregate_diloco_attestations_def attestation_stake_weights_def
      allowed_signers_def tally_votes_def count_attestation_def demo_vote_verifies five_def five_lower Let_def
      tally_accepts_def slashable_votes_def List.map_filter_simps)
  from slashing_needs_a_signed_disagreement [OF this, of "''a''"] show ?thesis by auto
qed

end
