(* ===== verification/Round_Authority.thy ===== *)
theory Round_Authority
  imports Clock Chain_Settlement
begin

text \<open>
  The round authority, \<^verbatim>\<open>neurahash/diloco_round_authority.py\<close>: proposer claims, the timeout quorum that
  authorizes a view change, the candidate coordinators with their replicas of the settlement chain,
  and the drive of a round: commit, reveal, agree, elect with failover, propose, and the acceptance of a
  peer's block. Fresh randomness (secrets, recipients) is an argument. The bus is the two lists it
  holds for a round.
\<close>

subsection \<open>Proposer claims\<close>

definition RA_TAG :: string where "RA_TAG = ''neurahash-round-authority/v1''"
definition RA_TIMEOUT_TAG :: string where "RA_TIMEOUT_TAG = ''neurahash-round-authority-timeout/v1''"

definition round_authority_enabled :: "string option \<Rightarrow> bool" where
  "round_authority_enabled v = (str_lower (str_strip (case v of None \<Rightarrow> ''off'' | Some x \<Rightarrow> x))
     \<in> {''1'', ''on'', ''true'', ''enforce'', ''enabled'', ''yes''})"

definition proposer_claim_payload :: "world \<Rightarrow> int \<Rightarrow> string \<Rightarrow> string \<Rightarrow> string" where
  "proposer_claim_payload W round_id proposer bhash = dumps W (JObj
     [(''block_hash'', JStr bhash), (''proposer'', JStr (str_lower proposer)), (''round'', JInt round_id),
      (''w'', JStr RA_TAG)])"

definition sign_proposer_claim :: "world \<Rightarrow> account \<Rightarrow> int \<Rightarrow> string \<Rightarrow> exn + json" where
  "sign_proposer_claim W a round_id bhash =
     bindE (sign_bytes W a (proposer_claim_payload W round_id (acct_address a) bhash)) (\<lambda>sig. Inr (JObj
       [(''round'', JInt round_id), (''proposer'', JStr (acct_address a)), (''block_hash'', JStr bhash),
        (''sig'', JStr sig)]))"

definition claim_signer :: "world \<Rightarrow> json \<Rightarrow> exn + string" where
  "claim_signer W claim =
     bindE (int_at claim ''round'') (\<lambda>r. bindE (text_at W claim ''proposer'') (\<lambda>p.
     bindE (text_at W claim ''block_hash'') (\<lambda>h. bindE (bindE (getE claim ''sig'') strE) (\<lambda>sig.
       recover_bytes W (proposer_claim_payload W r p h) sig))))"

definition recover_proposer :: "world \<Rightarrow> json \<Rightarrow> string option" where
  "recover_proposer W claim =
     (if \<not> is_object claim then None
      else (case claim_signer W claim of
              Inl _ \<Rightarrow> None
            | Inr rec \<Rightarrow> (case get_or claim ''proposer'' JNull of
                 JStr claimed \<Rightarrow> if str_lower rec = str_lower claimed then Some rec else None
               | _ \<Rightarrow> None)))"

subsection \<open>The timeout quorum\<close>

definition timeout_payload :: "world \<Rightarrow> int \<Rightarrow> string \<Rightarrow> int \<Rightarrow> string" where
  "timeout_payload W round_id failed_proposer view = dumps W (JObj
     [(''failed_proposer'', JStr (str_lower failed_proposer)), (''round'', JInt round_id), (''view'', JInt view),
      (''w'', JStr RA_TIMEOUT_TAG)])"

definition sign_timeout :: "world \<Rightarrow> account \<Rightarrow> int \<Rightarrow> string \<Rightarrow> int \<Rightarrow> exn + json" where
  "sign_timeout W a round_id failed_proposer view =
     bindE (sign_bytes W a (timeout_payload W round_id failed_proposer view)) (\<lambda>sig. Inr (JObj
       [(''round'', JInt round_id), (''failed_proposer'', JStr (str_lower failed_proposer)), (''view'', JInt view),
        (''signer'', JStr (acct_address a)), (''sig'', JStr sig)]))"

record timeout_verdict =
  tv_approved :: bool
  tv_n_signers :: nat
  tv_n_required :: int
  tv_roster_n :: nat
  tv_signers :: "string list"

text \<open>A threshold that is no strict majority, an empty roster, or a guardian set that cannot be formed fails
  closed.\<close>

definition verify_timeout_quorum :: "world \<Rightarrow> json list \<Rightarrow> string list \<Rightarrow> int \<Rightarrow> int \<Rightarrow> string \<Rightarrow> int \<Rightarrow> timeout_verdict" where
  "verify_timeout_quorum W atts members m round_id failed_proposer view =
     (let N = length (remdups (map str_lower members));
          out = \<lparr>tv_approved = False, tv_n_signers = 0, tv_n_required = m, tv_roster_n = N, tv_signers = []\<rparr>
      in if N = 0 \<or> \<not> (1 \<le> m \<and> m \<le> int N \<and> int N < m * 2) then out
         else (case guardian_set_new members m of
             Inl _ \<Rightarrow> out
           | Inr gs \<Rightarrow>
               (let signers = distinct_signers W gs (timeout_payload W round_id failed_proposer view)
                                (filter (\<lambda>s. s \<noteq> JNull) (map sig_of atts))
                in out\<lparr>tv_approved := (m \<le> int (length signers)), tv_n_signers := length signers,
                       tv_signers := sort signers\<rparr>)))"

subsection \<open>Election\<close>

definition elect_from_order :: "string list \<Rightarrow> string list \<Rightarrow> string option" where
  "elect_from_order order unavailable = find (\<lambda>x. str_lower x \<notin> set (map str_lower unavailable)) order"

subsection \<open>Candidates\<close>

record candidate =
  ca_identity :: account
  ca_chain :: settlement_chain
  ca_sealed :: "(int, sealed) pydict"
  ca_last_agreement :: "agreement option"

definition new_candidate :: "account \<Rightarrow> account \<Rightarrow> string \<Rightarrow> candidate" where
  "new_candidate identity coord ckpt =
     \<lparr>ca_identity = identity, ca_chain = new_chain coord ckpt, ca_sealed = [], ca_last_agreement = None\<rparr>"

definition make_round_commit :: "world \<Rightarrow> candidate \<Rightarrow> int \<Rightarrow> string \<Rightarrow> exn + json \<times> candidate" where
  "make_round_commit W c round_id nonce =
     bindE (make_commit W round_id (acct_address (ca_identity c)) nonce) (\<lambda>s.
       Inr (commit_envelope (sl_round s) (sl_signer s) (sl_digest s), c\<lparr>ca_sealed := dset round_id s (ca_sealed c)\<rparr>))"

definition round_reveal :: "candidate \<Rightarrow> int \<Rightarrow> exn + json" where
  "round_reveal c round_id = bindE (orE KeyError (map_of (ca_sealed c) round_id)) (\<lambda>s. Inr (reveal_of s))"

definition agree :: "world \<Rightarrow> candidate \<Rightarrow> int \<Rightarrow> json list \<Rightarrow> json list \<Rightarrow> exn + agreement \<times> candidate" where
  "agree W c round_id commits reveals =
     bindE (agree_round W commits reveals round_id) (\<lambda>a. Inr (a, c\<lparr>ca_last_agreement := Some a\<rparr>))"

text \<open>
  What a proposer broadcasts. \<open>en_view\<close> is \<open>None\<close> where the envelope has no view (the legacy path);
  the timeout quorums are a dictionary from the view, as a number or its text, to attestations.
\<close>

record round_envelope =
  en_round :: "json option"
  en_proposer :: string
  en_block :: json
  en_claim :: json
  en_view :: "json option"
  en_timeout_quorums :: "(int, json list) pydict"

definition propose ::
  "world \<Rightarrow> candidate \<Rightarrow> int \<Rightarrow> int \<Rightarrow> rat \<Rightarrow> string \<Rightarrow> json \<Rightarrow> int \<Rightarrow> (int \<times> (int, json list) pydict) option
     \<Rightarrow> exn + round_envelope \<times> candidate" where
  "propose W c round_id height reward recipient quorum timestamp view =
     bindE (settle W (ca_chain c) height reward [(recipient, 1)] timestamp (Some quorum)) (\<lambda>(credited, chain).
     let rec = last (cs_blocks chain) in
     bindE (bindE (getE rec ''header'') header_from_dict) (\<lambda>hdr.
     bindE (sign_proposer_claim W (ca_identity c) round_id (header_hash W hdr)) (\<lambda>claim.
       Inr (\<lparr>en_round = Some (JInt round_id), en_proposer = acct_address (ca_identity c), en_block = rec,
             en_claim = claim, en_view = map_option (\<lambda>v. JInt (fst v)) view,
             en_timeout_quorums = (case view of None \<Rightarrow> [] | Some v \<Rightarrow> snd v)\<rparr>,
            c\<lparr>ca_chain := chain\<rparr>))))"

datatype accept_failure =
    ClaimInvalid
  | MalformedView
  | ViewOutOfRange int
  | OutOfTurn string
  | UnilateralSeizure int
  | MalformedHeader
  | ClaimUnbound
  | RoundMismatch
  | BlockDoesNotExtend
  | BadCoordSignature
  | NotCoordinator string
  | BlockDoesNotApply

text \<open>The first prior view without a timeout quorum.\<close>

definition unproved_view ::
  "world \<Rightarrow> (int, json list) pydict \<Rightarrow> string list \<Rightarrow> int \<Rightarrow> int \<Rightarrow> string list \<Rightarrow> nat \<Rightarrow> nat option" where
  "unproved_view W quorums members m round_id order view =
     find (\<lambda>v. \<not> tv_approved (verify_timeout_quorum W (dget quorums (int v) []) members m round_id (order ! v) (int v)))
       [0..<view]"

text \<open>The election check (2): \<open>Inr ()\<close> where the signer is the elected proposer.\<close>

definition election_check ::
  "world \<Rightarrow> round_envelope \<Rightarrow> string \<Rightarrow> string list \<Rightarrow> string list \<Rightarrow> int option \<Rightarrow> string list option
     \<Rightarrow> exn + accept_failure option" where
  "election_check W e who order unavailable timeout_m members = (case en_view e of
     None \<Rightarrow> Inr (case elect_from_order order unavailable of
        Some x \<Rightarrow> if str_lower who = str_lower x then None else Some (OutOfTurn who)
      | None \<Rightarrow> Some (OutOfTurn who))
   | Some j \<Rightarrow> (case jint j of
        None \<Rightarrow> Inr (Some MalformedView)
      | Some view \<Rightarrow>
          if \<not> (0 \<le> view \<and> view < int (length order)) then Inr (Some (ViewOutOfRange view))
          else if str_lower who \<noteq> str_lower (order ! nat view) then Inr (Some (OutOfTurn who))
          else if view = 0 then Inr None
          else (let rost = (case members of None \<Rightarrow> order | Some r \<Rightarrow> r);
                    m = (case timeout_m of Some m \<Rightarrow> m | None \<Rightarrow> int (length (remdups (map str_lower rost))) div 2 + 1)
                in bindE (bindE (orE KeyError (en_round e)) intE) (\<lambda>r.
                     Inr (map_option (\<lambda>v. UnilateralSeizure (int v))
                       (unproved_view W (en_timeout_quorums e) rost m r order (nat view)))))))"

text \<open>The checks (3) and (4) on the block, and its application to the replica.\<close>

definition accept_block :: "world \<Rightarrow> settlement_chain \<Rightarrow> round_envelope \<Rightarrow> exn + accept_failure + settlement_chain" where
  "accept_block W chain e =
     (let rec = (if truthy (en_block e) then en_block e else JObj []) in
      case bindE (getE rec ''header'') header_from_dict of
        Inl _ \<Rightarrow> Inr (Inl MalformedHeader)
      | Inr hdr \<Rightarrow>
          bindE (text_at W (en_claim e) ''block_hash'') (\<lambda>bh.
          if bh \<noteq> header_hash W hdr then Inr (Inl ClaimUnbound)
          else bindE (case en_round e of None \<Rightarrow> Inr (-2) | Some j \<Rightarrow> intE j) (\<lambda>er.
          if er \<noteq> hd_height hdr then Inr (Inl RoundMismatch)
          else bindE (intE (get_or (en_claim e) ''round'' (JInt (-3)))) (\<lambda>cr.
          if hd_height hdr \<noteq> cr then Inr (Inl RoundMismatch)
          else if hd_prev_hash hdr \<noteq> cs_head chain then Inr (Inl BlockDoesNotExtend)
          else (case block_signer W rec hdr of
             Inl _ \<Rightarrow> Inr (Inl BadCoordSignature)
           | Inr signer \<Rightarrow>
               if str_lower signer \<noteq> str_lower (acct_address (cs_coord chain)) then Inr (Inl (NotCoordinator signer))
               else (case bindE (failE (\<lambda>e. ()) (bindE (getE rec ''contributors'') contributors_of)) (\<lambda>cs.
                       failE (\<lambda>e. ()) (apply_block W (cs_state chain) (settlement_block hdr) cs)) of
                  Inl _ \<Rightarrow> Inr (Inl BlockDoesNotApply)
                | Inr s' \<Rightarrow> Inr (Inr (chain\<lparr>cs_state := s', cs_blocks := cs_blocks chain @ [rec],
                                        cs_head := header_hash W hdr\<rparr>))))))))"

definition accept ::
  "world \<Rightarrow> candidate \<Rightarrow> round_envelope \<Rightarrow> string list \<Rightarrow> string list \<Rightarrow> int option \<Rightarrow> string list option
     \<Rightarrow> exn + accept_failure option \<times> candidate" where
  "accept W c e order unavailable timeout_m members =
     (case recover_proposer W (en_claim e) of
        None \<Rightarrow> Inr (Some ClaimInvalid, c)
      | Some who \<Rightarrow>
          bindE (election_check W e who order unavailable timeout_m members) (\<lambda>f. case f of
            Some x \<Rightarrow> Inr (Some x, c)
          | None \<Rightarrow> bindE (accept_block W (ca_chain c) e) (\<lambda>r. case r of
              Inl x \<Rightarrow> Inr (Some x, c)
            | Inr chain \<Rightarrow> Inr (None, c\<lparr>ca_chain := chain\<rparr>))))"

definition block_hashes :: "world \<Rightarrow> candidate \<Rightarrow> exn + string list" where
  "block_hashes W c = mapE (\<lambda>b. bindE (bindE (getE b ''header'') header_from_dict) (\<lambda>h. Inr (header_hash W h)))
     (cs_blocks (ca_chain c))"

definition public_export :: "candidate \<Rightarrow> json" where
  "public_export c = public_state (ca_chain c)"

subsection \<open>The drive\<close>

record round_authority =
  ra_candidates :: "candidate list"
  ra_validators :: "account list"
  ra_quorum_m :: nat
  ra_grace_ticks :: int
  ra_timeout_m :: int
  ra_commits :: "(int, json list) pydict"
  ra_reveals :: "(int, json list) pydict"
  ra_pending :: "(int, (string \<times> agreement) list \<times> string list) pydict"

definition new_round_authority :: "candidate list \<Rightarrow> account list \<Rightarrow> nat \<Rightarrow> int \<Rightarrow> int option \<Rightarrow> exn + round_authority" where
  "new_round_authority cands vals quorum_m grace timeout_m =
     (if length cands < 2 then Inl (ValueError ''RoundAuthority needs >= 2 candidate coordinators'')
      else Inr \<lparr>ra_candidates = cands, ra_validators = vals, ra_quorum_m = quorum_m, ra_grace_ticks = grace,
                ra_timeout_m = (case timeout_m of Some m \<Rightarrow> m | None \<Rightarrow> int (length cands) div 2 + 1),
                ra_commits = [], ra_reveals = [], ra_pending = []\<rparr>)"

definition build_quorum :: "world \<Rightarrow> round_authority \<Rightarrow> string \<Rightarrow> rat \<Rightarrow> int \<Rightarrow> string \<Rightarrow> exn + json" where
  "build_quorum W ra recipient amount height cid =
     (if length (ra_validators ra) < ra_quorum_m ra then Inl IndexError
      else bindE (mapE (\<lambda>a. sign_settlement W a recipient (Fin amount) height cid) (take (ra_quorum_m ra) (ra_validators ra)))
        (\<lambda>atts. settlement_block_proof W recipient (Fin amount) height cid
           (Members (map acct_address (ra_validators ra))) atts (Some (int (ra_quorum_m ra)))))"

text \<open>Commit and reveal of every candidate in turn. The secrets that the candidates draw are an argument,
  one for each; running out of them is no behaviour of the code and is an error here.\<close>

fun commit_all :: "world \<Rightarrow> int \<Rightarrow> candidate list \<Rightarrow> string list \<Rightarrow> exn + json list \<times> candidate list" where
  "commit_all W r (c # cs) (n # ns) = bindE (make_round_commit W c r n) (\<lambda>(env, c').
     bindE (commit_all W r cs ns) (\<lambda>(envs, cs'). Inr (env # envs, c' # cs')))"
| "commit_all W r [] ns = Inr ([], [])"
| "commit_all W r (c # cs) [] = Inl IndexError"

fun agree_all :: "world \<Rightarrow> int \<Rightarrow> json list \<Rightarrow> json list \<Rightarrow> candidate list
    \<Rightarrow> exn + (string \<times> agreement) list \<times> candidate list" where
  "agree_all W r commits reveals [] = Inr ([], [])"
| "agree_all W r commits reveals (c # cs) = bindE (agree W c r commits reveals) (\<lambda>(a, c').
     bindE (agree_all W r commits reveals cs) (\<lambda>(as, cs').
       Inr ((str_lower (acct_address (ca_identity c)), a) # as, c' # cs')))"

definition begin_round ::
  "world \<Rightarrow> round_authority \<Rightarrow> int \<Rightarrow> string list \<Rightarrow> json list \<Rightarrow> json list \<Rightarrow> exn + string list \<times> round_authority" where
  "begin_round W ra r secrets extra_commits extra_reveals =
     bindE (commit_all W r (ra_candidates ra) secrets) (\<lambda>(envs, cs).
     let commits = dget (ra_commits ra) r [] @ envs @ extra_commits in
     bindE (mapE (\<lambda>c. round_reveal c r) cs) (\<lambda>revs.
     let reveals = dget (ra_reveals ra) r [] @ revs @ extra_reveals in
     bindE (agree_all W r commits reveals cs) (\<lambda>(agreements, cs').
     bindE (case agreements of [] \<Rightarrow> Inl IndexError | (k, a) # as \<Rightarrow> Inr (ag_order (dget agreements k a))) (\<lambda>order.
       Inr (order, ra\<lparr>ra_candidates := cs', ra_commits := dset r commits (ra_commits ra),
                      ra_reveals := dset r reveals (ra_reveals ra),
                      ra_pending := dset r (agreements, order) (ra_pending ra)\<rparr>)))))"

text \<open>The index of the candidate of an identity; a later candidate of the same identity replaces an earlier one.\<close>

definition candidate_index :: "candidate list \<Rightarrow> string \<Rightarrow> nat option" where
  "candidate_index cs ident = map_of (rev (zip (map (\<lambda>c. str_lower (acct_address (ca_identity c))) cs) [0..<length cs]))
     (str_lower ident)"

fun legacy_failover :: "int \<Rightarrow> string list \<Rightarrow> int \<Rightarrow> string list \<Rightarrow> (string \<times> int) option" where
  "legacy_failover grace stalled ticks [] = None"
| "legacy_failover grace stalled ticks (x # xs) =
     (if str_lower x \<in> set stalled then legacy_failover grace stalled (ticks + grace) xs else Some (x, ticks + 1))"

text \<open>Every candidate but the proposer accepts, or the round raises.\<close>

fun accept_all ::
  "world \<Rightarrow> round_envelope \<Rightarrow> string list \<Rightarrow> string list \<Rightarrow> int option \<Rightarrow> string list option \<Rightarrow> nat \<Rightarrow> nat
     \<Rightarrow> candidate list \<Rightarrow> exn + candidate list" where
  "accept_all W e order unavailable timeout_m members proposer i [] = Inr []"
| "accept_all W e order unavailable timeout_m members proposer i (c # cs) =
     bindE (if i = proposer then Inr c
            else bindE (accept W c e order unavailable timeout_m members) (\<lambda>(f, c').
                   if f = None then Inr c' else Inl (RuntimeError ''peer rejected the elected proposer''))) (\<lambda>c'.
     bindE (accept_all W e order unavailable timeout_m members proposer (Suc i) cs) (\<lambda>cs'. Inr (c' # cs')))"

record round_record =
  rd_order :: "string list"
  rd_elected :: string
  rd_view :: "int option"
  rd_ticks :: int
  rd_recipient :: string
  rd_envelope :: round_envelope
  rd_timeout_quorums :: "(int, json list) pydict"

definition produce_and_apply ::
  "world \<Rightarrow> round_authority \<Rightarrow> int \<Rightarrow> string list \<Rightarrow> string \<Rightarrow> int \<Rightarrow> string \<Rightarrow> rat \<Rightarrow> string list
     \<Rightarrow> (int \<times> (int, json list) pydict) option \<Rightarrow> exn + round_record \<times> round_authority" where
  "produce_and_apply W ra r order elected ticks recipient reward stalled view =
     bindE (orE KeyError (candidate_index (ra_candidates ra) elected)) (\<lambda>i.
     let cid = ''ra-round-'' @ int_str r in
     bindE (build_quorum W ra recipient reward r cid) (\<lambda>quorum.
     bindE (propose W (ra_candidates ra ! i) r r reward recipient quorum (1000 + r) view) (\<lambda>(e, c').
     bindE (accept_all W e order (if view = None then stalled else [])
              (if view = None then None else Some (ra_timeout_m ra)) (if view = None then None else Some order)
              i 0 ((ra_candidates ra)[i := c'])) (\<lambda>cs.
       Inr (\<lparr>rd_order = order, rd_elected = elected, rd_view = map_option fst view, rd_ticks = ticks,
             rd_recipient = recipient, rd_envelope = e,
             rd_timeout_quorums = (case view of None \<Rightarrow> [] | Some v \<Rightarrow> snd v)\<rparr>,
            ra\<lparr>ra_candidates := cs\<rparr>)))))"

text \<open>The walk over the views: each stalled view needs its quorum before the next may propose.\<close>

definition timeout_observers :: "round_authority \<Rightarrow> string list \<Rightarrow> string list \<Rightarrow> string \<Rightarrow> candidate list" where
  "timeout_observers ra order stalled failed = filter (\<lambda>c.
     let a = str_lower (acct_address (ca_identity c))
     in a \<in> set (map str_lower order) \<and> a \<noteq> str_lower failed \<and> a \<notin> set stalled) (ra_candidates ra)"

fun view_change ::
  "world \<Rightarrow> round_authority \<Rightarrow> int \<Rightarrow> string list \<Rightarrow> string list \<Rightarrow> string list \<Rightarrow> int \<Rightarrow> int \<Rightarrow> (int, json list) pydict
     \<Rightarrow> exn + (string \<times> int \<times> int \<times> (int, json list) pydict)" where
  "view_change W ra r order stalled [] view ticks quorums = Inl (RuntimeError ''every candidate is stalled'')"
| "view_change W ra r order stalled (x # xs) view ticks quorums =
     (if str_lower x \<in> set stalled then
        bindE (mapE (\<lambda>c. sign_timeout W (ca_identity c) r x view) (timeout_observers ra order stalled x)) (\<lambda>atts.
          if tv_approved (verify_timeout_quorum W atts order (ra_timeout_m ra) r x view)
          then view_change W ra r order stalled xs (view + 1) (ticks + ra_grace_ticks ra) (dset view atts quorums)
          else Inl (RuntimeError ''no view change authorized''))
      else Inr (x, view, ticks + 1, quorums))"

definition finish_round ::
  "world \<Rightarrow> round_authority \<Rightarrow> int \<Rightarrow> string list \<Rightarrow> rat \<Rightarrow> string \<Rightarrow> bool \<Rightarrow> exn + round_record \<times> round_authority" where
  "finish_round W ra r stalled reward recipient agreed_failover =
     (case map_of (ra_pending ra) r of
        None \<Rightarrow> Inl (RuntimeError ''finish_round without begin_round'')
      | Some (agreements, order) \<Rightarrow>
          (let ra = ra\<lparr>ra_pending := dpop r (ra_pending ra)\<rparr>; stalled = map str_lower stalled
           in if agreed_failover then
                bindE (view_change W ra r order stalled order 0 0 []) (\<lambda>(elected, view, ticks, quorums).
                  produce_and_apply W ra r order elected ticks recipient reward stalled (Some (view, quorums)))
              else (case legacy_failover (ra_grace_ticks ra) stalled 0 order of
                 None \<Rightarrow> Inl (RuntimeError ''no available proposer'')
               | Some (elected, ticks) \<Rightarrow>
                   produce_and_apply W ra r order elected ticks recipient reward stalled None)))"

definition drive_round ::
  "world \<Rightarrow> round_authority \<Rightarrow> int \<Rightarrow> string list \<Rightarrow> string list \<Rightarrow> rat \<Rightarrow> string \<Rightarrow> bool \<Rightarrow> json list \<Rightarrow> json list
     \<Rightarrow> exn + round_record \<times> round_authority" where
  "drive_round W ra r secrets stalled reward recipient agreed_failover extra_commits extra_reveals =
     bindE (begin_round W ra r secrets extra_commits extra_reveals) (\<lambda>(order, ra').
       finish_round W ra' r stalled reward recipient agreed_failover)"

text \<open>Consecutive rounds; each with its secrets, its recipient and the identities that are down.\<close>

fun run_rounds ::
  "world \<Rightarrow> rat \<Rightarrow> bool \<Rightarrow> int \<Rightarrow> (string list \<times> string \<times> string list) list \<Rightarrow> round_authority
     \<Rightarrow> exn + round_record list \<times> round_authority" where
  "run_rounds W reward agreed r [] ra = Inr ([], ra)"
| "run_rounds W reward agreed r ((secrets, recipient, stalled) # plan) ra =
     bindE (drive_round W ra r secrets stalled reward recipient agreed [] []) (\<lambda>(rec, ra').
     bindE (run_rounds W reward agreed (r + 1) plan ra') (\<lambda>(recs, ra''). Inr (rec # recs, ra'')))"

definition build_round_authority ::
  "account \<Rightarrow> account list \<Rightarrow> account list \<Rightarrow> nat \<Rightarrow> int \<Rightarrow> int option \<Rightarrow> string \<Rightarrow> exn + round_authority" where
  "build_round_authority coord identities validators quorum_m grace timeout_m ckpt =
     new_round_authority (map (\<lambda>i. new_candidate i coord ckpt) identities) validators quorum_m grace timeout_m"

text \<open>\<^verbatim>\<open>advance_round\<close>: with the flag off the round number alone grows.\<close>

definition advance_round ::
  "string option \<Rightarrow> int \<Rightarrow> (int \<Rightarrow> exn + round_record \<times> round_authority) \<Rightarrow> exn + int \<times> (round_record \<times> round_authority) option" where
  "advance_round env single_node_r drive =
     (if \<not> round_authority_enabled env then Inr (single_node_r + 1, None)
      else bindE (drive (single_node_r + 1)) (\<lambda>x. Inr (single_node_r + 1, Some x)))"

end
