(* ===== verification/Round_Facts.thy ===== *)
theory Round_Facts
  imports Round_Authority Chain_Facts Clock_Facts
begin

text \<open>
  What the round authority guarantees: a block that one replica of the chain has settled is applied
  by every other replica that stands at the same point, so replicas stay equal; and a round of honest
  candidates runs through, from the commitments to the acceptance of the block.
\<close>

subsection \<open>One block on two replicas\<close>

lemma settle_fields:
  assumes "settle W cs height pot ex_by ts q = Inr (credited, cs')"
  shows "cs_coord cs' = cs_coord cs" "cs_genesis cs' = cs_genesis cs"
    "cs_blocks cs' = cs_blocks cs @ [last (cs_blocks cs')]"
    "bindE (getE (last (cs_blocks cs')) ''header'') header_from_dict
       = Inr (settle_header W cs height pot (settle_contributors ex_by) ts q)"
    "cs_head cs' = header_hash W (settle_header W cs height pot (settle_contributors ex_by) ts q)"
    "is_object (last (cs_blocks cs'))"
  by (rule settle_Inr [OF assms], simp add: block_record_getters)+

lemma truthy_block_record [simp]: "truthy (block_record h cs sig q)"
  by (simp add: block_record_def split: option.split)

text \<open>The envelope of a settled block: it carries the block, and the claim names its hash and height.\<close>

definition carries :: "world \<Rightarrow> settlement_chain \<Rightarrow> int \<Rightarrow> round_envelope \<Rightarrow> bool" where
  "carries W chain h e \<longleftrightarrow> cs_blocks chain \<noteq> [] \<and> en_block e = last (cs_blocks chain) \<and> en_round e = Some (JInt h)
     \<and> text_at W (en_claim e) ''block_hash'' = Inr (cs_head chain)
     \<and> get_or (en_claim e) ''round'' (JInt (-3)) = JInt h"

lemma accept_block_settled:
  assumes "signs_correctly W" "can_sign W (cs_coord chain)"
    "settle W chain h reward ex_by ts q = Inr (credited, chain')" "carries W chain' h e"
  shows "accept_block W chain e = Inr (Inr chain')"
proof -
  let ?c = "settle_contributors ex_by" and ?h = "settle_header W chain h reward (settle_contributors ex_by) ts q"
  from assms(3) obtain sig s' where
    sig: "sign_bytes W (cs_coord chain) (header_hash W ?h) = Inr sig"
    and s': "apply_block W (cs_state chain) (settlement_block ?h) ?c = Inr s'"
    and chain': "chain' = chain\<lparr>cs_state := s', cs_head := header_hash W ?h,
       cs_blocks := cs_blocks chain @ [block_record ?h ?c sig q]\<rparr>"
    by (rule settle_Inr)
  have b: "en_block e = block_record ?h ?c sig q" using assms(4) by (simp add: carries_def chain')
  have hd: "hd_height ?h = h" "hd_prev_hash ?h = cs_head chain" by (simp_all add: settle_header_def)
  have sgn: "block_signer W (block_record ?h ?c sig q) ?h = Inr (acct_address (cs_coord chain))"
    using recover_signed [OF assms(1,2) sig] by (simp add: block_signer_def block_record_getters)
  show ?thesis
    using assms(4) unfolding accept_block_def
    by (simp add: b block_record_getters carries_def chain' hd sgn s' failE_def intE_def)
qed

lemma proposed:
  assumes "propose W c r h reward recipient q ts view = Inr (e, c')"
  obtains credited claim where
    "settle W (ca_chain c) h reward [(recipient, 1)] ts (Some q) = Inr (credited, ca_chain c')"
    "sign_proposer_claim W (ca_identity c) r (cs_head (ca_chain c')) = Inr (en_claim e)"
    "c' = c\<lparr>ca_chain := ca_chain c'\<rparr>" "en_block e = last (cs_blocks (ca_chain c'))" "en_round e = Some (JInt r)"
    "en_view e = map_option (\<lambda>v. JInt (fst v)) view"
    "en_timeout_quorums e = (case view of None \<Rightarrow> [] | Some v \<Rightarrow> snd v)"
proof -
  from assms obtain credited chain where
    s: "settle W (ca_chain c) h reward [(recipient, 1)] ts (Some q) = Inr (credited, chain)"
    by (auto simp: propose_def bindE_Inr_iff)
  note f = settle_fields [OF s]
  from assms s f(4,5) show thesis
    by (auto simp: propose_def bindE_Inr_iff intro!: that [of credited])
qed

lemma claim_parts:
  assumes "sign_proposer_claim W a r bhash = Inr claim"
  shows "text_at W claim ''block_hash'' = Inr bhash" "get_or claim ''round'' (JInt d) = JInt r"
  using assms by (auto simp: sign_proposer_claim_def bindE_Inr_iff text_at_def str_of_def)

lemma proposed_carries:
  assumes "propose W c r r reward recipient q ts view = Inr (e, c')"
  shows "carries W (ca_chain c') r e"
proof -
  from assms show ?thesis
    by (rule proposed) (use settle_fields(3) in \<open>fastforce simp: carries_def claim_parts\<close>)
qed

lemma claim_recovers:
  assumes "signs_correctly W" "can_sign W a" "sign_proposer_claim W a r bhash = Inr claim"
  shows "recover_proposer W claim = Some (acct_address a)"
proof -
  from assms(3) obtain sig where
    sig: "sign_bytes W a (proposer_claim_payload W r (acct_address a) bhash) = Inr sig"
    and claim: "claim = JObj [(''round'', JInt r), (''proposer'', JStr (acct_address a)),
        (''block_hash'', JStr bhash), (''sig'', JStr sig)]"
    by (auto simp: sign_proposer_claim_def bindE_Inr_iff)
  show ?thesis
    by (simp add: claim recover_proposer_def claim_signer_def is_object_def int_at_def text_at_def intE_def strE_def
        str_of_def recover_signed [OF assms(1,2) sig])
qed

subsection \<open>Replicas in step\<close>

lemma accept_Inr:
  assumes "accept W c e order unavailable timeout_m members = Inr (None, c')"
  obtains who chain where "recover_proposer W (en_claim e) = Some who"
    "election_check W e who order unavailable timeout_m members = Inr None"
    "accept_block W (ca_chain c) e = Inr (Inr chain)" "c' = c\<lparr>ca_chain := chain\<rparr>"
proof -
  from assms obtain who where w: "recover_proposer W (en_claim e) = Some who"
    by (auto simp: accept_def split: option.splits)
  with assms have el: "election_check W e who order unavailable timeout_m members = Inr None"
    by (auto simp: accept_def bindE_Inr_iff split: option.splits)
  with assms w obtain r where r: "accept_block W (ca_chain c) e = Inr r"
    by (auto simp: accept_def bindE_Inr_iff)
  with assms w el obtain chain where "r = Inr chain" "c' = c\<lparr>ca_chain := chain\<rparr>"
    by (cases r) (auto simp: accept_def)
  with w el r that show thesis by blast
qed

lemma election_check_block [simp]:
  "election_check W (e\<lparr>en_block := b\<rparr>) who order unavailable timeout_m members
     = election_check W e who order unavailable timeout_m members"
  by (cases e, hypsubst) (unfold election_check_def round_envelope.select_convs round_envelope.update_convs, rule refl)

lemma accept_all_Inr:
  assumes "accept_all W e order unavailable timeout_m members p i cs = Inr cs'"
  shows "length cs' = length cs"
    and "j < length cs \<Longrightarrow> if i + j = p then cs' ! j = cs ! j
           else accept W (cs ! j) e order unavailable timeout_m members = Inr (None, cs' ! j)"
  using assms
proof (induction cs arbitrary: i j cs')
  case (Cons c cs)
  {
    case 1
    then show ?case using Cons.IH(1) by (auto simp: bindE_Inr_iff split: if_splits)
  next
    case 2
    then obtain c' cs'' where
      c': "if i = p then c' = c else accept W c e order unavailable timeout_m members = Inr (None, c')"
      and rest: "accept_all W e order unavailable timeout_m members p (Suc i) cs = Inr cs''" and cs': "cs' = c' # cs''"
      by (auto simp: bindE_Inr_iff split: if_splits)
    show ?case
    proof (cases j)
      case 0
      then show ?thesis using c' cs' by simp
    next
      case (Suc k)
      then show ?thesis using Cons.IH(2) [OF _ rest, of k] 2(1) cs' by simp
    qed
  }
qed simp_all

definition in_step :: "candidate list \<Rightarrow> settlement_chain \<Rightarrow> bool" where
  "in_step cs chain \<longleftrightarrow> (\<forall>c \<in> set cs. ca_chain c = chain)"

lemma candidate_index_Some:
  assumes "candidate_index cs x = Some i"
  shows "i < length cs" "str_lower (acct_address (ca_identity (cs ! i))) = str_lower x"
proof -
  have "(str_lower x, i) \<in> set (zip (map (\<lambda>c. str_lower (acct_address (ca_identity c))) cs) [0..<length cs])"
    using map_of_SomeD [OF assms [unfolded candidate_index_def]] by simp
  then show "i < length cs" "str_lower (acct_address (ca_identity (cs ! i))) = str_lower x"
    by (auto simp: in_set_zip)
qed

text \<open>A round that finishes extends every replica by the one block that its proposer settled.\<close>

lemma produce_keeps_step:
  assumes "signs_correctly W" "can_sign W (cs_coord chain)" "in_step (ra_candidates ra) chain"
    "produce_and_apply W ra r order elected ticks recipient reward stalled view = Inr (rec, ra')"
  obtains q credited chain' where
    "settle W chain r reward [(recipient, 1)] (1000 + r) (Some q) = Inr (credited, chain')"
    "in_step (ra_candidates ra') chain'" "length (ra_candidates ra') = length (ra_candidates ra)"
    "en_block (rd_envelope rec) = last (cs_blocks chain')"
proof -
  let ?cs = "ra_candidates ra"
  from assms(4) obtain i q e c' cs' where i: "candidate_index ?cs elected = Some i"
    and p: "propose W (?cs ! i) r r reward recipient q (1000 + r) view = Inr (e, c')"
    and a: "accept_all W e order (if view = None then stalled else []) (if view = None then None else Some (ra_timeout_m ra))
        (if view = None then None else Some order) i 0 (?cs[i := c']) = Inr cs'"
    and out: "ra' = ra\<lparr>ra_candidates := cs'\<rparr>" "rd_envelope rec = e"
    unfolding produce_and_apply_def by (auto simp: bindE_Inr_iff orE_Inr_iff)
  note i' = candidate_index_Some(1) [OF i]
  have ch: "ca_chain (?cs ! j) = chain" if "j < length ?cs" for j using assms(3) that by (simp add: in_step_def)
  from p obtain credited where
    s: "settle W chain r reward [(recipient, 1)] (1000 + r) (Some q) = Inr (credited, ca_chain c')"
    and b: "en_block e = last (cs_blocks (ca_chain c'))"
    by (rule proposed) (use ch [OF i'] in auto)
  note car = proposed_carries [OF p]
  have "ca_chain (cs' ! j) = ca_chain c'" if j: "j < length ?cs" for j
  proof (cases "j = i")
    case True
    then show ?thesis using accept_all_Inr(2) [OF a, of i] i' by simp
  next
    case False
    then have "accept W (?cs ! j) e order (if view = None then stalled else [])
        (if view = None then None else Some (ra_timeout_m ra)) (if view = None then None else Some order) = Inr (None, cs' ! j)"
      using accept_all_Inr(2) [OF a, of j] j by simp
    then obtain chain'' where "accept_block W chain e = Inr (Inr chain'')" "ca_chain (cs' ! j) = chain''"
      by (rule accept_Inr) (auto simp: ch [OF j])
    with accept_block_settled [OF assms(1,2) s car] show ?thesis by simp
  qed
  then have "in_step cs' (ca_chain c')"
    using accept_all_Inr(1) [OF a] by (auto simp: in_step_def in_set_conv_nth)
  with that [OF s] b accept_all_Inr(1) [OF a] out show thesis by simp
qed

lemma in_step_chains: "in_step cs chain \<longleftrightarrow> (\<forall>x \<in> set (map ca_chain cs). x = chain)"
  by (simp add: in_step_def)

lemma same_chains_in_step: "map ca_chain cs' = map ca_chain cs \<Longrightarrow> in_step cs' chain \<longleftrightarrow> in_step cs chain"
  by (simp only: in_step_chains)

lemma commit_all_chains:
  "commit_all W r cs ns = Inr (envs, cs') \<Longrightarrow> map ca_chain cs' = map ca_chain cs"
proof (induction cs arbitrary: ns envs cs')
  case (Cons c cs)
  then obtain n ns' where ns: "ns = n # ns'" by (cases ns) auto
  from Cons.prems obtain env c' envs' cs'' where c: "make_round_commit W c r n = Inr (env, c')"
    "commit_all W r cs ns' = Inr (envs', cs'')" "cs' = c' # cs''"
    by (auto simp: ns bindE_Inr_iff)
  have "ca_chain c' = ca_chain c" using c(1) by (auto simp: make_round_commit_def bindE_Inr_iff)
  with Cons.IH [OF c(2)] c(3) show ?case by simp
qed simp

lemma agree_all_chains:
  "agree_all W r commits reveals cs = Inr (as, cs') \<Longrightarrow> map ca_chain cs' = map ca_chain cs"
  by (induction cs arbitrary: as cs') (auto simp: bindE_Inr_iff agree_def)

lemma begin_round_chains:
  assumes "begin_round W ra r secrets ec er = Inr (order, ra')"
  shows "map ca_chain (ra_candidates ra') = map ca_chain (ra_candidates ra)"
    "ra_validators ra' = ra_validators ra" "ra_quorum_m ra' = ra_quorum_m ra" "ra_timeout_m ra' = ra_timeout_m ra"
  using assms unfolding begin_round_def
  by (auto simp: bindE_Inr_iff Let_def dest!: commit_all_chains agree_all_chains)

lemma finish_round_step:
  assumes "signs_correctly W" "can_sign W (cs_coord chain)" "in_step (ra_candidates ra) chain"
    "finish_round W ra r stalled reward recipient agreed = Inr (rec, ra')"
  obtains q credited chain' where
    "settle W chain r reward [(recipient, 1)] (1000 + r) (Some q) = Inr (credited, chain')"
    "in_step (ra_candidates ra') chain'" "length (ra_candidates ra') = length (ra_candidates ra)"
    "en_block (rd_envelope rec) = last (cs_blocks chain')"
proof -
  from assms(4) obtain agreements order where o: "map_of (ra_pending ra) r = Some (agreements, order)"
    by (auto simp: finish_round_def split: option.splits)
  let ?ra = "ra\<lparr>ra_pending := dpop r (ra_pending ra)\<rparr>"
  from assms(4) o obtain elected ticks st view where
    "produce_and_apply W ?ra r order elected ticks recipient reward st view = Inr (rec, ra')"
    by (auto simp: finish_round_def Let_def bindE_Inr_iff split: if_splits option.splits)
  from produce_keeps_step [OF assms(1,2) _ this] assms(3) that show thesis by auto
qed

lemma drive_round_step:
  assumes "signs_correctly W" "can_sign W (cs_coord chain)" "in_step (ra_candidates ra) chain"
    "drive_round W ra r secrets stalled reward recipient agreed ec er = Inr (rec, ra')"
  obtains q credited chain' where
    "settle W chain r reward [(recipient, 1)] (1000 + r) (Some q) = Inr (credited, chain')"
    "in_step (ra_candidates ra') chain'" "length (ra_candidates ra') = length (ra_candidates ra)"
    "en_block (rd_envelope rec) = last (cs_blocks chain')"
proof -
  from assms(4) obtain order ra1 where b: "begin_round W ra r secrets ec er = Inr (order, ra1)"
    and f: "finish_round W ra1 r stalled reward recipient agreed = Inr (rec, ra')"
    by (auto simp: drive_round_def bindE_Inr_iff)
  note c = begin_round_chains(1) [OF b]
  have "in_step (ra_candidates ra1) chain" using assms(3) same_chains_in_step [OF c] by simp
  from finish_round_step [OF assms(1,2) this f] map_eq_imp_length_eq [OF c] that show thesis by metis
qed

text \<open>Consecutive rounds.\<close>

lemma run_rounds_step:
  assumes "signs_correctly W" "chain_ok W chain" "in_step (ra_candidates ra) chain"
    "run_rounds W reward agreed r plan ra = Inr (recs, ra')"
  obtains chain' where "chain_ok W chain'" "in_step (ra_candidates ra') chain'" "cs_coord chain' = cs_coord chain"
    "cs_blocks chain' = cs_blocks chain @ map (en_block \<circ> rd_envelope) recs" "length recs = length plan"
proof -
  have "\<exists>chain'. chain_ok W chain' \<and> in_step (ra_candidates ra') chain' \<and> cs_coord chain' = cs_coord chain
    \<and> cs_blocks chain' = cs_blocks chain @ map (en_block \<circ> rd_envelope) recs \<and> length recs = length plan"
    using assms(2-4)
  proof (induction plan arbitrary: chain ra r recs)
    case (Cons p plan)
    obtain secrets recipient stalled where p: "p = (secrets, recipient, stalled)" by (cases p)
    from Cons.prems(3) obtain rec ra1 recs' where
      d: "drive_round W ra r secrets stalled reward recipient agreed [] [] = Inr (rec, ra1)"
      and rest: "run_rounds W reward agreed (r + 1) plan ra1 = Inr (recs', ra')" and recs: "recs = rec # recs'"
      by (auto simp: p bindE_Inr_iff)
    have sign: "can_sign W (cs_coord chain)" using Cons.prems(1) by (simp add: chain_ok_def)
    from drive_round_step [OF assms(1) sign Cons.prems(2) d] obtain q credited chain1 where
      s: "settle W chain r reward [(recipient, 1)] (1000 + r) (Some q) = Inr (credited, chain1)"
      and i: "in_step (ra_candidates ra1) chain1" and b: "en_block (rd_envelope rec) = last (cs_blocks chain1)" by metis
    from Cons.IH [OF settle_keeps_ok [OF assms(1) Cons.prems(1) s] i rest] obtain chain' where
      "chain_ok W chain'" "in_step (ra_candidates ra') chain'" "cs_coord chain' = cs_coord chain1"
      "cs_blocks chain' = cs_blocks chain1 @ map (en_block \<circ> rd_envelope) recs'" "length recs' = length plan" by blast
    moreover have "cs_blocks chain1 = cs_blocks chain @ [en_block (rd_envelope rec)]" "cs_coord chain1 = cs_coord chain"
      using settle_fields(1,3) [OF s] b by simp_all
    ultimately show ?case by (intro exI [of _ chain']) (simp add: recs)
  qed auto
  with that show thesis by blast
qed

subsection \<open>An honest round runs through\<close>

lemma seed_items_total: "\<forall>(s, n) \<in> set ps. unhex n \<noteq> None \<Longrightarrow> \<exists>x. seed_items ps = Inr x"
  by (induction ps) (auto simp: hexE_def)

lemma verify_reveal_hex: "verify_reveal W n s d r \<Longrightarrow> unhex (reveal_nonce W r) \<noteq> None"
  by (auto simp: verify_reveal_def reveal_nonce_def text_at_def commit_digest_def hexE_def getE_def get_or_def
      bindE_Inr_iff orE_Inr_iff split: sum.splits option.splits json.splits if_splits)

lemma agree_round_total:
  assumes "be8 n \<noteq> None"
  obtains a where "agree_round W commits reveals n = Inr a"
proof -
  obtain cm eq where cm: "commit_map (this_round (map (read_commit W n) commits)) = (cm, eq)" by fastforce
  let ?st = "reveal_run W n cm reveals"
  note v = valid_reveal [OF reveal_run_def [of W n cm reveals]]
  have "unhex m \<noteq> None" if "(s, m) \<in> set (rv_valid ?st)" for s m
  proof -
    have "map_of (rv_valid ?st) s = Some m" using that v(4) by (simp del: set_map)
    from v(2) [OF this] obtain r where "opens W n cm (s, r)" "m = reveal_nonce W r" by blast
    then show ?thesis using verify_reveal_hex by (auto simp: opens_def split: option.splits)
  qed
  then obtain x where "seed_items (sort (remdups (rv_valid ?st))) = Inr x"
    using seed_items_total [of "sort (remdups (rv_valid ?st))"] by fastforce
  with assms that agree_round_run [OF cm, of reveals] show thesis
    by (auto simp: agree_seed_def roundE_def)
qed

text \<open>What a candidate seals and publishes.\<close>

definition seal :: "world \<Rightarrow> int \<Rightarrow> candidate \<Rightarrow> string \<Rightarrow> sealed" where
  "seal W r c n = projr (make_commit W r (acct_address (ca_identity c)) n)"

abbreviation ident :: "candidate \<Rightarrow> string" where
  "ident c \<equiv> str_lower (acct_address (ca_identity c))"

lemma seal_commit:
  assumes "be8 r \<noteq> None" "unhex n \<noteq> None"
  shows "make_commit W r (acct_address (ca_identity c)) n = Inr (seal W r c n)"
    "sl_round (seal W r c n) = r" "sl_signer (seal W r c n) = ident c" "sl_nonce (seal W r c n) = n"
    "commit_digest W r (ident c) n = Inr (sl_digest (seal W r c n))"
  using assms by (auto simp: seal_def make_commit_def commit_digest_def roundE_def hexE_def)

lemma honest_envelopes:
  assumes "be8 r \<noteq> None" "unhex n \<noteq> None"
  shows "read_commit W r (commit_envelope r (ident c) (sl_digest (seal W r c n)))
      = ThisRound (ident c, sl_digest (seal W r c n))"
    "read_reveal W r (reveal_of (seal W r c n)) = ThisRound (ident c, reveal_of (seal W r c n))"
    "verify_reveal W r (ident c) (sl_digest (seal W r c n)) (reveal_of (seal W r c n))"
  using seal_commit [OF assms(1,2), of W c]
  by (simp_all add: read_commit_def read_reveal_def commit_envelope_def reveal_of_def int_at_def norm_at_def
      text_at_def intE_def str_of_def verify_reveal_def)

definition honest_commits :: "world \<Rightarrow> int \<Rightarrow> candidate list \<Rightarrow> string list \<Rightarrow> json list" where
  "honest_commits W r cs ns = map2 (\<lambda>c n. commit_envelope r (ident c) (sl_digest (seal W r c n))) cs ns"

definition honest_reveals :: "world \<Rightarrow> int \<Rightarrow> candidate list \<Rightarrow> string list \<Rightarrow> json list" where
  "honest_reveals W r cs ns = map2 (\<lambda>c n. reveal_of (seal W r c n)) cs ns"

definition sealed_all :: "world \<Rightarrow> int \<Rightarrow> candidate list \<Rightarrow> string list \<Rightarrow> candidate list" where
  "sealed_all W r cs ns = map2 (\<lambda>c n. c\<lparr>ca_sealed := dset r (seal W r c n) (ca_sealed c)\<rparr>) cs ns"

lemma commit_all_honest:
  assumes "be8 r \<noteq> None"
  shows "length ns = length cs \<Longrightarrow> \<forall>n \<in> set ns. unhex n \<noteq> None \<Longrightarrow>
    commit_all W r cs ns = Inr (honest_commits W r cs ns, sealed_all W r cs ns)"
proof (induction cs arbitrary: ns)
  case (Cons c cs)
  then obtain n ns' where ns: "ns = n # ns'" by (cases ns) auto
  with Cons show ?case
    using seal_commit [OF assms, of n W c]
    by (simp add: make_round_commit_def honest_commits_def sealed_all_def)
qed (simp add: honest_commits_def sealed_all_def)

lemma reveal_all_honest:
  "length ns = length cs \<Longrightarrow> mapE (\<lambda>c. round_reveal c r) (sealed_all W r cs ns) = Inr (honest_reveals W r cs ns)"
proof (induction cs arbitrary: ns)
  case (Cons c cs)
  then obtain n ns' where ns: "ns = n # ns'" by (cases ns) auto
  with Cons show ?case
    by (simp add: round_reveal_def honest_reveals_def sealed_all_def orE_def)
qed (simp add: honest_reveals_def sealed_all_def)

lemma sealed_all_ident: "length ns = length cs \<Longrightarrow> map ca_identity (sealed_all W r cs ns) = map ca_identity cs"
  unfolding sealed_all_def by (induction cs ns rule: list_induct2') auto

lemma this_round_map: "(\<And>x. x \<in> set xs \<Longrightarrow> f (g x) = ThisRound (h x)) \<Longrightarrow> this_round (map f (map g xs)) = map h xs"
  unfolding this_round_def by (induction xs) (auto simp: List.map_filter_simps)

lemma agree_all_same:
  assumes "agree_round W commits reveals r = Inr a"
  shows "agree_all W r commits reveals cs
    = Inr (map (\<lambda>c. (ident c, a)) cs, map (\<lambda>c. c\<lparr>ca_last_agreement := Some a\<rparr>) cs)"
  by (induction cs) (simp_all add: agree_def assms)

text \<open>Every candidate takes part in the order that honest candidates agree.\<close>

lemma honest_order:
  assumes "be8 r \<noteq> None" "length ns = length cs" "\<forall>n \<in> set ns. unhex n \<noteq> None" "distinct (map ident cs)"
    "agree_round W (honest_commits W r cs ns) (honest_reveals W r cs ns) r = Inr a"
  shows "set (ag_order a) = set (map ident cs)" "distinct (ag_order a)"
proof -
  let ?z = "zip cs ns"
  have cs: "this_round (map (read_commit W r) (honest_commits W r cs ns))
      = map (\<lambda>(c, n). (ident c, sl_digest (seal W r c n))) ?z"
    unfolding honest_commits_def case_prod_unfold
    by (rule this_round_map) (use assms(1,3) honest_envelopes(1) in \<open>auto dest: set_zip_rightD\<close>)
  have rs: "this_round (map (read_reveal W r) (honest_reveals W r cs ns))
      = map (\<lambda>(c, n). (ident c, reveal_of (seal W r c n))) ?z"
    unfolding honest_reveals_def case_prod_unfold
    by (rule this_round_map) (use assms(1,3) honest_envelopes(2) in \<open>auto dest: set_zip_rightD\<close>)
  note part = participants_exact [OF assms(5) cs [symmetric] rs [symmetric]]
  show "distinct (ag_order a)" using part by blast
  have "map fst (map (\<lambda>(c, n). (ident c, sl_digest (seal W r c n))) ?z) = map ident (map fst ?z)"
    by (simp add: case_prod_unfold)
  then have dist: "distinct (map fst (map (\<lambda>(c, n). (ident c, sl_digest (seal W r c n))) ?z))"
    using assms(2,4) by simp
  have "s \<in> set (ag_order a) \<longleftrightarrow> s \<in> ident ` set cs" for s
  proof
    assume "s \<in> set (ag_order a)"
    then show "s \<in> ident ` set cs" using part by (auto dest: set_zip_leftD)
  next
    assume "s \<in> ident ` set cs"
    then obtain i where i: "i < length cs" "s = ident (cs ! i)" by (auto simp: in_set_conv_nth)
    have z: "(cs ! i, ns ! i) \<in> set ?z" using i(1) assms(2) by (auto simp: in_set_zip)
    have hex: "unhex (ns ! i) \<noteq> None" using assms(2,3) i(1) by simp
    let ?d = "sl_digest (seal W r (cs ! i) (ns ! i))" and ?r = "reveal_of (seal W r (cs ! i) (ns ! i))"
    let ?ds = "map (\<lambda>(c, n). (ident c, sl_digest (seal W r c n))) ?z"
    have d: "(s, ?d) \<in> set ?ds" and m: "(s, ?r) \<in> set (map (\<lambda>(c, n). (ident c, reveal_of (seal W r c n))) ?z)"
      using z i(2) by force+
    have "d' = ?d" if "(s, d') \<in> set ?ds" for d' by (rule eq_key_imp_eq_value [OF dist that d])
    moreover have "verify_reveal W r s ?d ?r" using honest_envelopes(3) [OF assms(1) hex, of W "cs ! i"] i(2) by simp
    ultimately have "s \<in> set (ag_valid_signers a)"
      using d m by (intro iffD2 [OF conjunct1 [OF part]]) blast
    then show "s \<in> set (ag_order a)" using part by blast
  qed
  then show "set (ag_order a) = set (map ident cs)" by auto
qed

lemma begin_round_honest:
  assumes "be8 r \<noteq> None" "length ns = length (ra_candidates ra)" "\<forall>n \<in> set ns. unhex n \<noteq> None"
    "distinct (map ident (ra_candidates ra))" "ra_candidates ra \<noteq> []"
    "map_of (ra_commits ra) r = None" "map_of (ra_reveals ra) r = None"
  obtains agreements order cs commits reveals where
    "begin_round W ra r ns [] [] = Inr (order, ra\<lparr>ra_candidates := cs, ra_commits := dset r commits (ra_commits ra),
       ra_reveals := dset r reveals (ra_reveals ra), ra_pending := dset r (agreements, order) (ra_pending ra)\<rparr>)"
    "map ca_identity cs = map ca_identity (ra_candidates ra)" "map ca_chain cs = map ca_chain (ra_candidates ra)"
    "set order = ident ` set (ra_candidates ra)" "distinct order"
proof -
  let ?cs = "ra_candidates ra"
  let ?sealed = "sealed_all W r ?cs ns" and ?com = "honest_commits W r ?cs ns" and ?rev = "honest_reveals W r ?cs ns"
  obtain a where a: "agree_round W ?com ?rev r = Inr a" using agree_round_total [OF assms(1)] by blast
  let ?agreements = "map (\<lambda>c. (ident c, a)) ?sealed" and ?cs' = "map (\<lambda>c. c\<lparr>ca_last_agreement := Some a\<rparr>) ?sealed"
  have c: "commit_all W r ?cs ns = Inr (?com, ?sealed)" by (rule commit_all_honest [OF assms(1-3)])
  have ids: "map ca_identity ?sealed = map ca_identity ?cs" by (rule sealed_all_ident [OF assms(2)])
  have ne: "?sealed \<noteq> []" using ids assms(5) by force
  then have d: "(case ?agreements of [] \<Rightarrow> Inl IndexError | (k, a) # as \<Rightarrow> Inr (ag_order (dget ?agreements k a))) = Inr (ag_order a)"
    by (cases ?sealed) (auto simp: dget_def)
  have b: "begin_round W ra r ns [] [] = Inr (ag_order a, ra\<lparr>ra_candidates := ?cs',
      ra_commits := dset r ?com (ra_commits ra), ra_reveals := dset r ?rev (ra_reveals ra),
      ra_pending := dset r (?agreements, ag_order a) (ra_pending ra)\<rparr>)"
    by (simp add: begin_round_def Let_def c reveal_all_honest [OF assms(2)] dget_def [of "ra_commits ra"]
        dget_def [of "ra_reveals ra"] assms(6,7) agree_all_same [OF a] d)
  note o = honest_order [OF assms(1-4) a]
  show thesis
    by (rule that [OF b]) (use ids o commit_all_chains [OF c] in \<open>simp_all add: comp_def\<close>)
qed

subsection \<open>Election and failover\<close>

lemma legacy_failover_elects:
  assumes "\<exists>x \<in> set order. str_lower x \<notin> set st" "map str_lower st = st"
  obtains x t where "legacy_failover g st ticks order = Some (x, t)" "elect_from_order order st = Some x" "x \<in> set order"
proof -
  have "\<exists>x t. legacy_failover g st ticks order = Some (x, t) \<and> elect_from_order order st = Some x \<and> x \<in> set order"
    using assms(1)
  proof (induction order arbitrary: ticks)
    case (Cons y order)
    show ?case
    proof (cases "str_lower y \<in> set st")
      case True
      with Cons.prems have "\<exists>x \<in> set order. str_lower x \<notin> set st" by auto
      from Cons.IH [OF this, of "ticks + g"] obtain x t where
        "legacy_failover g st (ticks + g) order = Some (x, t)" "elect_from_order order st = Some x" "x \<in> set order" by blast
      with True assms(2) show ?thesis
        by (intro exI [of _ x] exI [of _ t]) (simp add: elect_from_order_def)
    qed (use assms(2) in \<open>auto simp: elect_from_order_def\<close>)
  qed simp
  with that show thesis by blast
qed

lemma candidate_index_total:
  assumes "str_lower x \<in> ident ` set cs"
  obtains i where "candidate_index cs x = Some i"
proof -
  have "str_lower x \<in> fst ` set (zip (map ident cs) [0..<length cs])"
    using assms by (simp add: set_map [symmetric] del: set_map)
  then show thesis using that by (cases "candidate_index cs x") (auto simp: candidate_index_def map_of_eq_None_iff)
qed

text \<open>The quorum of the validators.\<close>

lemma mapE_total: "\<forall>x \<in> set xs. \<exists>y. f x = Inr y \<Longrightarrow> \<exists>ys. mapE f xs = Inr ys"
  by (induction xs) auto

lemma mapE_Inr_mem: "mapE f xs = Inr ys \<Longrightarrow> x \<in> set xs \<Longrightarrow> f x = Inr y \<Longrightarrow> y \<in> set ys"
  by (induction xs arbitrary: ys) (auto simp: bindE_Inr_iff)

lemma sign_total: "can_sign W a \<Longrightarrow> \<exists>sig. sign_bytes W a data = Inr sig"
  by (auto simp: can_sign_def sign_bytes_def account_key_def)

definition quorum_ready :: "world \<Rightarrow> account list \<Rightarrow> nat \<Rightarrow> bool" where
  "quorum_ready W vals m \<longleftrightarrow> (\<forall>v \<in> set vals. can_sign W v) \<and> (\<exists>gs. guardian_set_new (map acct_address vals) (int m) = Inr gs)
     \<and> 1 \<le> m \<and> m \<le> roster_count (Members (map acct_address vals)) \<and> roster_count (Members (map acct_address vals)) < 2 * m"

lemma sign_settlement_total:
  "can_sign W a \<Longrightarrow> \<exists>att. sign_settlement W a recipient amount height cid = Inr att"
  by (auto simp: sign_settlement_def can_sign_def sign_bytes_def account_key_def)

lemma block_proof_total:
  assumes "quorum_ready W vals m"
  shows "\<exists>q. settlement_block_proof W recipient amount height cid (Members (map acct_address vals)) atts (Some (int m)) = Inr q"
proof -
  obtain gs where "guardian_set_new (map acct_address vals) (int m) = Inr gs" using assms by (auto simp: quorum_ready_def)
  with assms show ?thesis
    by (auto simp: settlement_block_proof_def collect_settlement_signatures_def quorum_ready_def required_signers_def Let_def)
qed

lemma build_quorum_total:
  assumes "quorum_ready W (ra_validators ra) (ra_quorum_m ra)"
  obtains q where "build_quorum W ra recipient amount height cid = Inr q"
proof -
  let ?v = "ra_validators ra" and ?m = "ra_quorum_m ra"
  have len: "?m \<le> length ?v"
    using assms length_remdups_leq [of "map str_lower (map acct_address ?v)"]
    by (auto simp: quorum_ready_def roster_count_def)
  have "\<forall>a \<in> set (take ?m ?v). \<exists>att. sign_settlement W a recipient (Fin amount) height cid = Inr att"
    using assms sign_settlement_total set_take_subset [of ?m ?v] by (auto simp: quorum_ready_def)
  from mapE_total [OF this] obtain atts where
    "mapE (\<lambda>a. sign_settlement W a recipient (Fin amount) height cid) (take ?m ?v) = Inr atts" by blast
  with block_proof_total [OF assms, of recipient "Fin amount" height cid atts] len that show thesis
    by (auto simp: build_quorum_def)
qed

subsection \<open>The proposal and its acceptance\<close>

lemma propose_total:
  assumes "can_sign W (cs_coord (ca_chain c))" "can_sign W (ca_identity c)"
  obtains e c' where "propose W c r h reward recipient q ts view = Inr (e, c')"
proof -
  obtain credited chain where s: "settle W (ca_chain c) h reward [(recipient, 1)] ts (Some q) = Inr (credited, chain)"
    by (rule settle_succeeds [OF assms(1)])
  obtain sig where "sign_bytes W (ca_identity c) (proposer_claim_payload W r (acct_address (ca_identity c)) (cs_head chain)) = Inr sig"
    using sign_total [OF assms(2)] by blast
  with settle_fields(4,5) [OF s] that show thesis
    by (simp add: propose_def s sign_proposer_claim_def)
qed

lemma accept_all_total:
  assumes "\<forall>j < length cs. i + j = p \<or> (\<exists>c'. accept W (cs ! j) e order unavailable timeout_m members = Inr (None, c'))"
  shows "\<exists>cs'. accept_all W e order unavailable timeout_m members p i cs = Inr cs'"
  using assms
proof (induction cs arbitrary: i)
  case (Cons c cs)
  from Cons.prems have "i = p \<or> (\<exists>c'. accept W c e order unavailable timeout_m members = Inr (None, c'))" by fastforce
  moreover have "\<exists>cs'. accept_all W e order unavailable timeout_m members p (Suc i) cs = Inr cs'"
    using Cons.prems by (intro Cons.IH) fastforce
  ultimately show ?case by auto
qed simp

lemma accept_proposal:
  assumes "signs_correctly W" "can_sign W (ca_identity p)" "can_sign W (cs_coord (ca_chain c))" "ca_chain p = ca_chain c"
    "propose W p r r reward recipient q ts view = Inr (e, p')"
    "election_check W e (acct_address (ca_identity p)) order unavailable timeout_m members = Inr None"
  shows "accept W c e order unavailable timeout_m members = Inr (None, c\<lparr>ca_chain := ca_chain p'\<rparr>)"
proof -
  from assms(5) obtain credited where
    s: "settle W (ca_chain c) r reward [(recipient, 1)] ts (Some q) = Inr (credited, ca_chain p')"
    and cl: "sign_proposer_claim W (ca_identity p) r (cs_head (ca_chain p')) = Inr (en_claim e)"
    by (rule proposed) (use assms(4) in auto)
  show ?thesis
    using claim_recovers [OF assms(1,2) cl] assms(6) accept_block_settled [OF assms(1,3) s proposed_carries [OF assms(5)]]
    by (simp add: accept_def)
qed

text \<open>What a candidate set needs for a round to run through.\<close>

definition honest_authority :: "world \<Rightarrow> round_authority \<Rightarrow> bool" where
  "honest_authority W ra \<longleftrightarrow> signs_correctly W \<and> ra_candidates ra \<noteq> [] \<and> distinct (map ident (ra_candidates ra))
     \<and> (\<forall>c \<in> set (ra_candidates ra). can_sign W (ca_identity c) \<and> str_strip (ident c) = ident c \<and> ident c \<noteq> [])
     \<and> quorum_ready W (ra_validators ra) (ra_quorum_m ra)"

lemma produce_total:
  assumes "honest_authority W ra" "in_step (ra_candidates ra) chain" "can_sign W (cs_coord chain)"
    "elected \<in> ident ` set (ra_candidates ra)"
    and check: "\<And>e who. en_round e = Some (JInt r) \<Longrightarrow> en_view e = map_option (\<lambda>v. JInt (fst v)) view
      \<Longrightarrow> en_timeout_quorums e = (case view of None \<Rightarrow> [] | Some v \<Rightarrow> snd v) \<Longrightarrow> str_lower who = str_lower elected \<Longrightarrow>
      election_check W e who order (if view = None then stalled else []) (if view = None then None else Some (ra_timeout_m ra))
        (if view = None then None else Some order) = Inr None"
  shows "\<exists>rec cs. produce_and_apply W ra r order elected ticks recipient reward stalled view
    = Inr (rec, ra\<lparr>ra_candidates := cs\<rparr>) \<and> map ca_identity cs = map ca_identity (ra_candidates ra)"
proof -
  let ?cs = "ra_candidates ra"
  have sg: "signs_correctly W" using assms(1) by (simp add: honest_authority_def)
  have "str_lower elected \<in> ident ` set ?cs" using assms(4) by auto
  then obtain i where i: "candidate_index ?cs elected = Some i" by (rule candidate_index_total)
  note i' = candidate_index_Some [OF i]
  have ch: "ca_chain (?cs ! j) = chain" if "j < length ?cs" for j using assms(2) that by (simp add: in_step_def)
  have id: "can_sign W (ca_identity (?cs ! i))" using assms(1) i'(1) by (simp add: honest_authority_def)
  have "quorum_ready W (ra_validators ra) (ra_quorum_m ra)" using assms(1) by (simp add: honest_authority_def)
  then obtain q where q: "build_quorum W ra recipient reward r (''ra-round-'' @ int_str r) = Inr q"
    by (rule build_quorum_total)
  obtain e c' where p: "propose W (?cs ! i) r r reward recipient q (1000 + r) view = Inr (e, c')"
    by (rule propose_total [of W "?cs ! i"]) (use assms(3) ch i'(1) id in simp_all)
  from p obtain credited where
    s: "settle W chain r reward [(recipient, 1)] (1000 + r) (Some q) = Inr (credited, ca_chain c')"
    and cl: "sign_proposer_claim W (ca_identity (?cs ! i)) r (cs_head (ca_chain c')) = Inr (en_claim e)"
    and c': "c' = (?cs ! i)\<lparr>ca_chain := ca_chain c'\<rparr>" and e: "en_round e = Some (JInt r)"
      "en_view e = map_option (\<lambda>v. JInt (fst v)) view" "en_timeout_quorums e = (case view of None \<Rightarrow> [] | Some v \<Rightarrow> snd v)"
    by (rule proposed) (use ch [OF i'(1)] in auto)
  let ?acc = "\<lambda>c. accept W c e order (if view = None then stalled else []) (if view = None then None else Some (ra_timeout_m ra))
      (if view = None then None else Some order)"
  have acc: "?acc (?cs ! j) = Inr (None, (?cs ! j)\<lparr>ca_chain := ca_chain c'\<rparr>)" if "j < length ?cs" for j
    using claim_recovers [OF sg id cl] check [OF e i'(2)] accept_block_settled [OF sg assms(3) s proposed_carries [OF p]]
      ch [OF that]
    by (simp add: accept_def)
  have "\<exists>cs. accept_all W e order (if view = None then stalled else []) (if view = None then None else Some (ra_timeout_m ra))
      (if view = None then None else Some order) i 0 (?cs[i := c']) = Inr cs"
    by (rule accept_all_total) (use acc in \<open>auto simp: nth_list_update\<close>)
  then obtain cs where cs: "accept_all W e order (if view = None then stalled else [])
      (if view = None then None else Some (ra_timeout_m ra)) (if view = None then None else Some order) i 0 (?cs[i := c']) = Inr cs"
    by blast
  have "ca_identity (cs ! j) = ca_identity (?cs ! j)" if j: "j < length ?cs" for j
  proof (cases "j = i")
    case True
    then show ?thesis using accept_all_Inr(2) [OF cs, of j] arg_cong [OF c', of ca_identity] j by simp
  next
    case False
    then have "cs ! j = (?cs ! j)\<lparr>ca_chain := ca_chain c'\<rparr>" using accept_all_Inr(2) [OF cs, of j] acc [OF j] j by simp
    then show ?thesis by simp
  qed
  then have "map ca_identity cs = map ca_identity ?cs"
    using accept_all_Inr(1) [OF cs] by (simp add: list_eq_iff_nth_eq)
  moreover have "produce_and_apply W ra r order elected ticks recipient reward stalled view
      = Inr (\<lparr>rd_order = order, rd_elected = elected, rd_view = map_option fst view, rd_ticks = ticks,
             rd_recipient = recipient, rd_envelope = e,
             rd_timeout_quorums = (case view of None \<Rightarrow> [] | Some v \<Rightarrow> snd v)\<rparr>, ra\<lparr>ra_candidates := cs\<rparr>)"
    by (simp only: produce_and_apply_def i orE_def Let_def option.case bindE_simps q p cs prod.case)
  ultimately show ?thesis by blast
qed

text \<open>The candidates that are up.\<close>

definition up :: "round_authority \<Rightarrow> string list \<Rightarrow> candidate list" where
  "up ra stalled = filter (\<lambda>c. ident c \<notin> set (map str_lower stalled)) (ra_candidates ra)"

definition honest_order_of :: "round_authority \<Rightarrow> string list \<Rightarrow> bool" where
  "honest_order_of ra order \<longleftrightarrow> set order = ident ` set (ra_candidates ra) \<and> distinct order"

lemma order_lower: "honest_order_of ra order \<Longrightarrow> map str_lower order = order"
  by (rule map_idI) (auto simp: honest_order_of_def)

lemma honest_order_length:
  assumes "honest_order_of ra order" "distinct (map ident (ra_candidates ra))"
  shows "length order = length (ra_candidates ra)"
proof -
  have "length order = card (set (map ident (ra_candidates ra)))"
    using assms(1) distinct_card [of order] by (simp add: honest_order_of_def)
  with distinct_card [OF assms(2)] show ?thesis by simp
qed

text \<open>The candidates that are up time out a stalled proposer.\<close>

lemma timeout_total:
  assumes "signs_correctly W" "can_sign W a"
  obtains att sig where "sign_timeout W a r failed v = Inr att" "sig_of att = JStr sig"
    "recover_bytes W (timeout_payload W r failed v) sig = Inr (acct_address a)"
proof -
  obtain sig where sig: "sign_bytes W a (timeout_payload W r failed v) = Inr sig" using sign_total [OF assms(2)] by blast
  with recover_signed [OF assms sig] that show thesis by (auto simp: sign_timeout_def sig_of_def)
qed

lemma observers_time_out:
  assumes "honest_authority W ra" "honest_order_of ra order" "str_lower x \<in> set (map str_lower stalled)"
    "ra_timeout_m ra \<le> int (length (up ra stalled))" "int (length order) < ra_timeout_m ra * 2"
  obtains atts where "mapE (\<lambda>c. sign_timeout W (ca_identity c) r x v)
      (timeout_observers ra order (map str_lower stalled) x) = Inr atts"
    "tv_approved (verify_timeout_quorum W atts order (ra_timeout_m ra) r x v)"
proof -
  let ?obs = "timeout_observers ra order (map str_lower stalled) x" and ?m = "ra_timeout_m ra"
  let ?p = "timeout_payload W r x v"
  have sg: "signs_correctly W" using assms(1) by (simp add: honest_authority_def)
  have obs: "?obs = up ra stalled"
  proof -
    have "set (map str_lower order) = ident ` set (ra_candidates ra)"
      unfolding order_lower [OF assms(2)] using assms(2) by (simp add: honest_order_of_def)
    then show ?thesis
      unfolding timeout_observers_def up_def Let_def using assms(3) by (intro filter_cong) auto
  qed
  have sign: "\<forall>c \<in> set ?obs. can_sign W (ca_identity c)"
    using assms(1) by (auto simp: obs up_def honest_authority_def)
  then have "\<forall>c \<in> set ?obs. \<exists>att. sign_timeout W (ca_identity c) r x v = Inr att"
    by (auto simp: sign_timeout_def can_sign_def sign_bytes_def account_key_def)
  from mapE_total [OF this] obtain atts where atts: "mapE (\<lambda>c. sign_timeout W (ca_identity c) r x v) ?obs = Inr atts" by blast
  have len: "length order = length (ra_candidates ra)"
    using assms(1) honest_order_length [OF assms(2)] by (simp add: honest_authority_def)
  have up_le: "length (up ra stalled) \<le> length order" by (simp add: up_def len)
  have strip: "str_strip a = a \<and> a \<noteq> []" if "a \<in> set order" for a
    using assms(1,2) that by (auto simp: honest_authority_def honest_order_of_def)
  have flt: "filter (\<lambda>a. str_strip a \<noteq> []) order = order" using strip by (intro filter_True) auto
  have mp: "map (\<lambda>a. str_lower (str_strip a)) order = order"
  proof (rule map_idI)
    fix a assume a: "a \<in> set order"
    then have "str_lower a = a" using assms(2) by (auto simp: honest_order_of_def)
    then show "str_lower (str_strip a) = a" using strip [OF a] by simp
  qed
  have dist: "distinct order" using assms(2) by (simp add: honest_order_of_def)
  have m: "1 \<le> ?m" "?m \<le> int (length order)" using assms(4,5) up_le by linarith+
  then have gs: "guardian_set_new order ?m = Inr \<lparr>gs_members = order, gs_threshold = nat ?m\<rparr>"
    using dist by (auto simp: guardian_set_new_def flt mp distinct_remdups_id)
  let ?gs = "\<lparr>gs_members = order, gs_threshold = nat ?m\<rparr>"
  let ?sigs = "filter (\<lambda>s. s \<noteq> JNull) (map sig_of atts)"
  have "ident c \<in> set (distinct_signers W ?gs ?p ?sigs)" if c: "c \<in> set (up ra stalled)" for c
  proof -
    obtain att sig where att: "sign_timeout W (ca_identity c) r x v = Inr att" "sig_of att = JStr sig"
      "recover_bytes W ?p sig = Inr (acct_address (ca_identity c))"
      by (rule timeout_total [OF sg]) (use sign obs c in auto)
    have "att \<in> set atts" using mapE_Inr_mem [OF atts _ att(1)] c obs by simp
    moreover have "ident c \<in> set order" using assms(2) c by (auto simp: honest_order_of_def up_def)
    ultimately have "JStr sig \<in> set ?sigs" "member_signer W ?gs ?p (JStr sig) = Some (ident c)"
      using att(2,3) by (force, auto simp: member_signer_Some recover_default_scheme)
    then show ?thesis unfolding set_distinct_signers by blast
  qed
  then have "ident ` set (up ra stalled) \<subseteq> set (distinct_signers W ?gs ?p ?sigs)" by blast
  then have "card (ident ` set (up ra stalled)) \<le> length (distinct_signers W ?gs ?p ?sigs)"
    unfolding distinct_signers_card by (rule card_mono [OF finite_set])
  moreover have "card (ident ` set (up ra stalled)) = length (up ra stalled)"
  proof -
    have "distinct (map ident (up ra stalled))" using assms(1) by (simp add: honest_authority_def up_def distinct_map_filter)
    then show ?thesis using distinct_card by fastforce
  qed
  ultimately have "?m \<le> int (length (distinct_signers W ?gs ?p ?sigs))" using assms(4) by linarith
  then have "tv_approved (verify_timeout_quorum W atts order ?m r x v)"
    using m assms(5) order_lower [OF assms(2)] dist gs
    by (auto simp: verify_timeout_quorum_def Let_def distinct_remdups_id)
  with atts that show thesis by blast
qed

text \<open>The walk over the views ends at the first candidate that is up, with a quorum for every earlier view.\<close>

lemma view_change_total:
  assumes "honest_authority W ra" "honest_order_of ra order" "ra_timeout_m ra \<le> int (length (up ra stalled))"
    "int (length order) < ra_timeout_m ra * 2"
    and "drop k order = rest" "\<exists>x \<in> set rest. str_lower x \<notin> set (map str_lower stalled)" "k \<le> length order"
    "\<forall>u < k. \<exists>atts. map_of quorums (int u) = Some atts
       \<and> tv_approved (verify_timeout_quorum W atts order (ra_timeout_m ra) r (order ! u) (int u))"
  shows "\<exists>v ticks' quorums'. view_change W ra r order (map str_lower stalled) rest (int k) ticks quorums
      = Inr (order ! v, int v, ticks', quorums') \<and> v < length order
    \<and> (\<forall>u < v. \<exists>atts. map_of quorums' (int u) = Some atts
       \<and> tv_approved (verify_timeout_quorum W atts order (ra_timeout_m ra) r (order ! u) (int u)))"
  using assms(5-8)
proof (induction rest arbitrary: k ticks quorums)
  case (Cons x rest)
  have k: "k < length order" using Cons.prems(1) by (metis drop_all leI list.discI)
  have x: "x = order ! k" "drop (Suc k) order = rest"
    using Cons.prems(1) k by (simp_all add: Cons_nth_drop_Suc [symmetric])
  show ?case
  proof (cases "str_lower x \<in> set (map str_lower stalled)")
    case False
    then have "view_change W ra r order (map str_lower stalled) (x # rest) (int k) ticks quorums
        = Inr (order ! k, int k, ticks + 1, quorums)" using x(1) by (simp del: set_map)
    with k Cons.prems(4) show ?thesis by blast
  next
    case True
    obtain atts where atts: "mapE (\<lambda>c. sign_timeout W (ca_identity c) r x (int k))
        (timeout_observers ra order (map str_lower stalled) x) = Inr atts"
      "tv_approved (verify_timeout_quorum W atts order (ra_timeout_m ra) r x (int k))"
      by (rule observers_time_out [OF assms(1,2) True assms(3,4)])
    have "\<forall>u < Suc k. \<exists>a. map_of (dset (int k) atts quorums) (int u) = Some a
       \<and> tv_approved (verify_timeout_quorum W a order (ra_timeout_m ra) r (order ! u) (int u))"
      using Cons.prems(4) atts(2) x(1) by (auto simp: less_Suc_eq)
    moreover have "\<exists>y \<in> set rest. str_lower y \<notin> set (map str_lower stalled)"
      using Cons.prems(2) True by (auto simp del: set_map)
    ultimately obtain v ticks' quorums' where
      "view_change W ra r order (map str_lower stalled) rest (int (Suc k)) (ticks + ra_grace_ticks ra)
         (dset (int k) atts quorums) = Inr (order ! v, int v, ticks', quorums')" "v < length order"
      "\<forall>u < v. \<exists>atts. map_of quorums' (int u) = Some atts
         \<and> tv_approved (verify_timeout_quorum W atts order (ra_timeout_m ra) r (order ! u) (int u))"
      using Cons.IH [OF x(2), of "dset (int k) atts quorums" "ticks + ra_grace_ticks ra"] k by auto
    moreover have "view_change W ra r order (map str_lower stalled) (x # rest) (int k) ticks quorums
      = view_change W ra r order (map str_lower stalled) rest (int (Suc k)) (ticks + ra_grace_ticks ra) (dset (int k) atts quorums)"
      using True atts by (simp del: set_map add: add.commute)
    ultimately show ?thesis by auto
  qed
qed simp

text \<open>Whether enough candidates are up: one for the legacy failover, a timeout quorum for the agreed one.\<close>

definition live :: "round_authority \<Rightarrow> bool \<Rightarrow> string list \<Rightarrow> bool" where
  "live ra agreed stalled \<longleftrightarrow> up ra stalled \<noteq> []
     \<and> (agreed \<longrightarrow> ra_timeout_m ra \<le> int (length (up ra stalled)) \<and> int (length (ra_candidates ra)) < ra_timeout_m ra * 2)"

lemma election_check_view:
  assumes "en_view e = Some (JInt (int v))" "en_round e = Some (JInt r)" "v < length order"
    "str_lower who = str_lower (order ! v)"
    "\<forall>u < v. \<exists>atts. map_of (en_timeout_quorums e) (int u) = Some atts
       \<and> tv_approved (verify_timeout_quorum W atts order m r (order ! u) (int u))"
  shows "election_check W e who order [] (Some m) (Some order) = Inr None"
proof -
  have "unproved_view W (en_timeout_quorums e) order m r order v = None"
    using assms(5) by (fastforce simp: unproved_view_def find_None_iff dget_def)
  with assms(1-4) show ?thesis
    by (simp add: election_check_def intE_def orE_def)
qed

lemma finish_total:
  assumes "honest_authority W ra" "in_step (ra_candidates ra) chain" "can_sign W (cs_coord chain)"
    "map_of (ra_pending ra) r = Some (agreements, order)" "honest_order_of ra order" "live ra agreed stalled"
  shows "\<exists>rec cs. finish_round W ra r stalled reward recipient agreed
      = Inr (rec, ra\<lparr>ra_pending := dpop r (ra_pending ra), ra_candidates := cs\<rparr>)
    \<and> map ca_identity cs = map ca_identity (ra_candidates ra)"
proof -
  let ?ra = "ra\<lparr>ra_pending := dpop r (ra_pending ra)\<rparr>" and ?st = "map str_lower stalled"
  have ok: "honest_authority W ?ra" "in_step (ra_candidates ?ra) chain" "honest_order_of ?ra order"
    using assms(1,2,5) by (simp_all add: honest_authority_def honest_order_of_def)
  have st: "map str_lower ?st = ?st" by simp
  obtain c where c: "c \<in> set (up ra stalled)" using assms(6) by (cases "up ra stalled") (auto simp: live_def)
  then have "ident c \<in> set order" "ident c \<notin> set ?st" using assms(5) by (auto simp: up_def honest_order_of_def)
  then have some: "\<exists>x \<in> set order. str_lower x \<notin> set ?st" by (intro bexI [of _ "ident c"]) auto
  have member: "x \<in> ident ` set (ra_candidates ?ra)" if "x \<in> set order" for x
    using that assms(5) by (simp add: honest_order_of_def)
  show ?thesis
  proof (cases agreed)
    case False
    obtain x t where x: "legacy_failover (ra_grace_ticks ?ra) ?st 0 order = Some (x, t)" "elect_from_order order ?st = Some x"
      "x \<in> set order" by (rule legacy_failover_elects [OF some st])
    have "\<exists>rec cs. produce_and_apply W ?ra r order x t recipient reward ?st None = Inr (rec, ?ra\<lparr>ra_candidates := cs\<rparr>)
      \<and> map ca_identity cs = map ca_identity (ra_candidates ?ra)"
      by (rule produce_total [OF ok(1,2) assms(3) member [OF x(3)]]) (simp add: election_check_def x(2))
    then show ?thesis using x(1) by (simp add: finish_round_def assms(4) False)
  next
    case True
    have m: "ra_timeout_m ?ra \<le> int (length (up ?ra stalled))" "int (length order) < ra_timeout_m ?ra * 2"
      using assms(6) True honest_order_length [OF assms(5)] assms(1) by (auto simp: live_def up_def honest_authority_def)
    obtain v t q where v: "view_change W ?ra r order ?st order 0 0 [] = Inr (order ! v, int v, t, q)" "v < length order"
      "\<forall>u < v. \<exists>atts. map_of q (int u) = Some atts
         \<and> tv_approved (verify_timeout_quorum W atts order (ra_timeout_m ?ra) r (order ! u) (int u))"
      using view_change_total [OF ok(1,3) m, of 0 order "[]" r 0] some by auto
    have "\<exists>rec cs. produce_and_apply W ?ra r order (order ! v) t recipient reward ?st (Some (int v, q))
        = Inr (rec, ?ra\<lparr>ra_candidates := cs\<rparr>) \<and> map ca_identity cs = map ca_identity (ra_candidates ?ra)"
      by (rule produce_total [OF ok(1,2) assms(3) member [OF nth_mem [OF v(2)]]])
        (use election_check_view [OF _ _ v(2)] v(3) in simp)
    then show ?thesis using v(1) by (simp add: finish_round_def assms(4) True)
  qed
qed

text \<open>These conditions depend on the candidates only through their identities.\<close>

lemma map_identity:
  assumes "map ca_identity cs' = map ca_identity cs"
  shows "map ident cs' = map ident cs" "length cs' = length cs" "ca_identity ` set cs' = ca_identity ` set cs"
proof -
  have "map (\<lambda>a. str_lower (acct_address a)) (map ca_identity cs') = map (\<lambda>a. str_lower (acct_address a)) (map ca_identity cs)"
    by (simp only: assms)
  then show "map ident cs' = map ident cs" by (simp add: comp_def)
  show "length cs' = length cs" using map_eq_imp_length_eq [OF assms] .
  show "ca_identity ` set cs' = ca_identity ` set cs" using arg_cong [OF assms, of set] by simp
qed

lemma honest_authority_cong:
  assumes "map ca_identity (ra_candidates ra') = map ca_identity (ra_candidates ra)"
    "ra_validators ra' = ra_validators ra" "ra_quorum_m ra' = ra_quorum_m ra"
  shows "honest_authority W ra' = honest_authority W ra"
proof -
  define P where "P a \<longleftrightarrow> can_sign W a \<and> str_strip (str_lower (acct_address a)) = str_lower (acct_address a)
    \<and> str_lower (acct_address a) \<noteq> []" for a
  have P: "(\<forall>c \<in> set cs. can_sign W (ca_identity c) \<and> str_strip (ident c) = ident c \<and> ident c \<noteq> [])
      = (\<forall>a \<in> ca_identity ` set cs. P a)" for cs by (simp add: P_def)
  have "ra_candidates ra' = [] \<longleftrightarrow> ra_candidates ra = []" using map_identity(2) [OF assms(1)] by (metis length_0_conv)
  moreover have "(\<forall>c \<in> set (ra_candidates ra'). can_sign W (ca_identity c) \<and> str_strip (ident c) = ident c \<and> ident c \<noteq> [])
      = (\<forall>c \<in> set (ra_candidates ra). can_sign W (ca_identity c) \<and> str_strip (ident c) = ident c \<and> ident c \<noteq> [])"
    unfolding P map_identity(3) [OF assms(1)] ..
  ultimately show ?thesis unfolding honest_authority_def map_identity(1) [OF assms(1)] assms(2,3) by simp
qed

lemma live_cong:
  assumes "map ca_identity (ra_candidates ra') = map ca_identity (ra_candidates ra)" "ra_timeout_m ra' = ra_timeout_m ra"
  shows "live ra' agreed stalled = live ra agreed stalled"
proof -
  have u: "length (up x stalled) = length (filter (\<lambda>i. i \<notin> set (map str_lower stalled)) (map ident (ra_candidates x)))" for x
    by (simp add: up_def filter_map comp_def)
  have "length (up ra' stalled) = length (up ra stalled)" unfolding u map_identity(1) [OF assms(1)] ..
  then show ?thesis using map_identity(2) [OF assms(1)] assms(2)
    unfolding live_def by (metis length_0_conv)
qed

definition fresh_from :: "round_authority \<Rightarrow> int \<Rightarrow> bool" where
  "fresh_from ra r \<longleftrightarrow> (\<forall>r' \<ge> r. map_of (ra_commits ra) r' = None \<and> map_of (ra_reveals ra) r' = None)"

definition secrets_ok :: "round_authority \<Rightarrow> string list \<Rightarrow> bool" where
  "secrets_ok ra secrets \<longleftrightarrow> length secrets = length (ra_candidates ra) \<and> (\<forall>n \<in> set secrets. unhex n \<noteq> None)"

lemma drive_total:
  assumes "honest_authority W ra" "in_step (ra_candidates ra) chain" "can_sign W (cs_coord chain)" "fresh_from ra r"
    "0 \<le> r" "r < 2 ^ 64" "secrets_ok ra secrets" "live ra agreed stalled"
  obtains rec ra' where "drive_round W ra r secrets stalled reward recipient agreed [] [] = Inr (rec, ra')"
    "honest_authority W ra'" "fresh_from ra' (r + 1)" "map ca_identity (ra_candidates ra') = map ca_identity (ra_candidates ra)"
    "ra_timeout_m ra' = ra_timeout_m ra"
proof -
  have be: "be8 r \<noteq> None" using assms(5,6) by (simp add: be8_def)
  obtain agreements order cs commits reveals where
    b: "begin_round W ra r secrets [] [] = Inr (order, ra\<lparr>ra_candidates := cs, ra_commits := dset r commits (ra_commits ra),
       ra_reveals := dset r reveals (ra_reveals ra), ra_pending := dset r (agreements, order) (ra_pending ra)\<rparr>)"
    and ids: "map ca_identity cs = map ca_identity (ra_candidates ra)" and chains: "map ca_chain cs = map ca_chain (ra_candidates ra)"
    and o: "set order = ident ` set (ra_candidates ra)" "distinct order"
    by (rule begin_round_honest [OF be, of secrets ra])
      (use assms(1,4,7) in \<open>auto simp: secrets_ok_def honest_authority_def fresh_from_def\<close>)
  define ra1 where "ra1 = ra\<lparr>ra_candidates := cs, ra_commits := dset r commits (ra_commits ra),
       ra_reveals := dset r reveals (ra_reveals ra), ra_pending := dset r (agreements, order) (ra_pending ra)\<rparr>"
  have f: "ra_candidates ra1 = cs" "map_of (ra_pending ra1) r = Some (agreements, order)"
    "ra_validators ra1 = ra_validators ra" "ra_quorum_m ra1 = ra_quorum_m ra" "ra_timeout_m ra1 = ra_timeout_m ra"
    by (simp_all add: ra1_def)
  have ids1: "map ca_identity (ra_candidates ra1) = map ca_identity (ra_candidates ra)" using ids f(1) by simp
  have ok1: "honest_authority W ra1" using assms(1) honest_authority_cong [OF ids1 f(3,4)] by simp
  have step1: "in_step (ra_candidates ra1) chain" using same_chains_in_step [OF chains] assms(2) f(1) by simp
  have order1: "honest_order_of ra1 order"
    using o arg_cong [OF map_identity(1) [OF ids1], of set] by (simp add: honest_order_of_def)
  have live1: "live ra1 agreed stalled" using assms(8) live_cong [OF ids1 f(5)] by simp
  obtain rec cs' where fin: "finish_round W ra1 r stalled reward recipient agreed
      = Inr (rec, ra1\<lparr>ra_pending := dpop r (ra_pending ra1), ra_candidates := cs'\<rparr>)"
    and ids': "map ca_identity cs' = map ca_identity (ra_candidates ra1)"
    using finish_total [OF ok1 step1 assms(3) f(2) order1 live1] by blast
  let ?ra' = "ra1\<lparr>ra_pending := dpop r (ra_pending ra1), ra_candidates := cs'\<rparr>"
  show thesis
  proof (rule that)
    show "drive_round W ra r secrets stalled reward recipient agreed [] [] = Inr (rec, ?ra')"
      by (simp add: drive_round_def b ra1_def [symmetric] fin)
    show i: "map ca_identity (ra_candidates ?ra') = map ca_identity (ra_candidates ra)" using ids' ids1 by simp
    show "honest_authority W ?ra'" using honest_authority_cong [OF i] f assms(1) by simp
    show "fresh_from ?ra' (r + 1)" using assms(4) by (auto simp: fresh_from_def ra1_def)
    show "ra_timeout_m ?ra' = ra_timeout_m ra" by (simp add: f)
  qed
qed

lemma run_total:
  assumes "honest_authority W ra" "in_step (ra_candidates ra) chain" "chain_ok W chain" "fresh_from ra r"
    "0 \<le> r" "r + int (length plan) \<le> 2 ^ 64"
    "\<forall>(secrets, recipient, stalled) \<in> set plan. secrets_ok ra secrets \<and> live ra agreed stalled"
  shows "\<exists>recs ra'. run_rounds W reward agreed r plan ra = Inr (recs, ra')"
  using assms
proof (induction plan arbitrary: ra chain r)
  case (Cons p plan)
  obtain secrets recipient stalled where p: "p = (secrets, recipient, stalled)" by (cases p)
  have sign: "can_sign W (cs_coord chain)" using Cons.prems(3) by (simp add: chain_ok_def)
  have sg: "signs_correctly W" using Cons.prems(1) by (simp add: honest_authority_def)
  obtain rec ra1 where d: "drive_round W ra r secrets stalled reward recipient agreed [] [] = Inr (rec, ra1)"
    and ok: "honest_authority W ra1" "fresh_from ra1 (r + 1)"
    and ids: "map ca_identity (ra_candidates ra1) = map ca_identity (ra_candidates ra)" "ra_timeout_m ra1 = ra_timeout_m ra"
    by (rule drive_total [OF Cons.prems(1,2) sign Cons.prems(4,5), of secrets agreed stalled])
      (use Cons.prems(6,7) p in auto)
  from drive_round_step [OF sg sign Cons.prems(2) d] obtain q credited chain1 where
    s: "settle W chain r reward [(recipient, 1)] (1000 + r) (Some q) = Inr (credited, chain1)"
    and i: "in_step (ra_candidates ra1) chain1" by metis
  have "\<forall>(secrets, recipient, stalled) \<in> set plan. secrets_ok ra1 secrets \<and> live ra1 agreed stalled"
    using Cons.prems(7) live_cong [OF ids] map_identity(2) [OF ids(1)] by (auto simp: secrets_ok_def)
  then obtain recs ra' where "run_rounds W reward agreed (r + 1) plan ra1 = Inr (recs, ra')"
    using Cons.IH [OF ok(1) i settle_keeps_ok [OF sg Cons.prems(3) s] ok(2)] Cons.prems(5,6) by auto
  then show ?case by (simp add: p d)
qed simp

end
