(* ===== verification/Round_Props.thy ===== *)
theory Round_Props
  imports Round_Facts Chain_Props
begin

text \<open>The properties of the round authority.\<close>

subsection \<open>The timeout quorum\<close>

lemma timeout_quorum_approved:
  assumes "tv_approved (verify_timeout_quorum W atts members m r p v)"
  obtains gs where "guardian_set_new members m = Inr gs"
    "head_count.decides gs (set (distinct_signers W gs (timeout_payload W r p v) (filter (\<lambda>s. s \<noteq> JNull) (map sig_of atts))))"
proof -
  let ?N = "length (remdups (map str_lower members))"
  have m: "int ?N < m * 2"
    using assms by (auto simp: verify_timeout_quorum_def Let_def split: if_splits)
  obtain gs where gs: "guardian_set_new members m = Inr gs"
    using assms by (auto simp: verify_timeout_quorum_def Let_def split: if_splits sum.splits)
  let ?s = "distinct_signers W gs (timeout_payload W r p v) (filter (\<lambda>s. s \<noteq> JNull) (map sig_of atts))"
  have "m \<le> int (length ?s)"
    using assms by (auto simp: verify_timeout_quorum_def Let_def gs split: if_splits)
  with m guardian_members_le [OF gs] have "length (gs_members gs) < 2 * length ?s" by linarith
  then show thesis by (intro that [OF gs] head_count_decides)
qed

text \<open>Who signed a timeout of a view.\<close>

definition timed_out :: "world \<Rightarrow> int \<Rightarrow> string \<Rightarrow> int \<Rightarrow> string \<Rightarrow> bool" where
  "timed_out W r p v a \<longleftrightarrow> (\<exists>sig x. recover_message W (domain_bytes ''bytes'' (timeout_payload W r p v)) sig = Some x
     \<and> str_lower x = a)"

lemma timeout_quorum_signed:
  assumes "tv_approved (verify_timeout_quorum W atts members m r p v)"
    and B: "B \<subseteq> (str_lower \<circ> str_strip) ` set members - {[]}"
      "card ((str_lower \<circ> str_strip) ` set members - {[]}) \<le> 2 * card B"
  shows "\<exists>a \<in> B. timed_out W r p v a"
proof -
  from assms(1) obtain gs where gs: "guardian_set_new members m = Inr gs"
    and d: "head_count.decides gs (set (distinct_signers W gs (timeout_payload W r p v) (filter (\<lambda>s. s \<noteq> JNull) (map sig_of atts))))"
    by (rule timeout_quorum_approved)
  let ?A = "set (distinct_signers W gs (timeout_payload W r p v) (filter (\<lambda>s. s \<noteq> JNull) (map sig_of atts)))"
  have mem: "set (gs_members gs) = (str_lower \<circ> str_strip) ` set members - {[]}"
    using gs by (auto simp: guardian_set_new_def Let_def str_lower_def split: if_splits)
  have signed: "timed_out W r p v a" if "a \<in> ?A" for a
    using that unfolding timed_out_def
    by (auto simp: set_distinct_signers member_signer_Some recover_default_scheme recover_bytes_def orE_Inr_iff)
  have "?A \<inter> B \<noteq> {}"
  proof
    assume dis: "?A \<inter> B = {}"
    have fin: "finite ?A" "finite B" using finite_subset [OF B(1)] by simp_all
    have sub: "?A \<union> B \<subseteq> set (gs_members gs)" using B(1) distinct_signers_members mem by blast
    have "card ?A + card B = card (?A \<union> B)" using card_Un_disjoint [OF fin dis] by simp
    also have "\<dots> \<le> card (set (gs_members gs))" using sub by (intro card_mono) auto
    finally have "card ?A + card B \<le> card (set (gs_members gs))" .
    moreover have "card (set (gs_members gs)) < 2 * card ?A"
    proof -
      have "(of_nat (card (set (gs_members gs))) :: rat) < of_nat (2 * card ?A)"
        using d by (simp add: head_count.decides_def)
      then show ?thesis by (simp only: of_nat_less_iff)
    qed
    ultimately show False using B(2) mem by simp
  qed
  with signed show ?thesis by blast
qed

subsection \<open>Acceptance\<close>

lemma unproved_view_None:
  "unproved_view W quorums members m r order n = None \<longleftrightarrow>
     (\<forall>v < n. tv_approved (verify_timeout_quorum W (dget quorums (int v) []) members m r (order ! v) (int v)))"
  by (auto simp: unproved_view_def find_None_iff)

text \<open>C16: under the view-change rule a peer's block is accepted only from the candidate whose turn the
  agreed order says it is, and a later view is accepted only if every earlier view was timed out: as
  long as half of the agreed candidates did not sign a timeout of some earlier proposer, no takeover of
  its slot is accepted, whatever the envelope contains and whatever threshold the receiver passes.\<close>

theorem takeover_needs_every_timeout:
  assumes "accept W c e order unavailable timeout_m (Some order) = Inr (None, c')"
    "en_view e = Some (JInt view)" "en_round e = Some (JInt r)"
  shows "0 \<le> view \<and> view < int (length order)
    \<and> (\<exists>who. recover_proposer W (en_claim e) = Some who \<and> str_lower who = str_lower (order ! nat view))
    \<and> (\<forall>v < nat view. \<forall>B. B \<subseteq> (str_lower \<circ> str_strip) ` set order - {[]} \<longrightarrow>
         card ((str_lower \<circ> str_strip) ` set order - {[]}) \<le> 2 * card B \<longrightarrow>
         (\<exists>a \<in> B. timed_out W r (order ! v) (int v) a))"
proof -
  from assms(1) obtain who chain where a: "recover_proposer W (en_claim e) = Some who"
    "election_check W e who order unavailable timeout_m (Some order) = Inr None" by (rule accept_Inr)
  have v: "0 \<le> view" "view < int (length order)" "str_lower who = str_lower (order ! nat view)"
    using a(2) assms(2) by (auto simp: election_check_def split: if_splits)
  obtain m where m: "0 < view \<Longrightarrow> unproved_view W (en_timeout_quorums e) order m r order (nat view) = None"
    using a(2) assms(2,3) v by (auto simp: election_check_def Let_def bindE_Inr_iff intE_def orE_def split: if_splits)
  have "\<exists>a \<in> B. timed_out W r (order ! u) (int u) a"
    if u: "u < nat view" and B: "B \<subseteq> (str_lower \<circ> str_strip) ` set order - {[]}"
      "card ((str_lower \<circ> str_strip) ` set order - {[]}) \<le> 2 * card B" for u B
  proof -
    have "tv_approved (verify_timeout_quorum W (dget (en_timeout_quorums e) (int u) []) order m r (order ! u) (int u))"
      using u m by (simp add: unproved_view_None)
    then show ?thesis using B by (rule timeout_quorum_signed)
  qed
  with a(1) v show ?thesis by blast
qed

text \<open>Three candidates of the toy world, their validators, and the first of them stalled.\<close>

definition demo_key :: "string \<Rightarrow> account" where
  "demo_key k = account_from_key toy_world k"

lemma demo_key [simp]: "can_sign toy_world (demo_key k)" "acct_address (demo_key k) = k"
  by (simp_all add: demo_key_def can_sign_def account_from_key_def toy_world_def)

definition demo_authority :: round_authority where
  "demo_authority = \<lparr>ra_candidates = map (\<lambda>k. new_candidate (demo_key k) (demo_key ''k'') []) [''a'', ''b'', ''c''],
     ra_validators = map demo_key [''v'', ''w''], ra_quorum_m = 2, ra_grace_ticks = 3, ra_timeout_m = 2,
     ra_commits = [], ra_reveals = [], ra_pending = []\<rparr>"

lemma demo_honest: "honest_authority toy_world demo_authority"
  by (simp add: honest_authority_def demo_authority_def new_candidate_def quorum_ready_def toy_world_signs)
    (simp add: guardian_set_new_def roster_count_def str_lower_def str_strip_def char_lower_def is_space_def)

lemma demo_in_step: "in_step (ra_candidates demo_authority) (new_chain (demo_key ''k'') [])"
  by (simp add: in_step_def demo_authority_def new_candidate_def)

lemma demo_live: "live demo_authority agreed [''a'']"
  by (simp add: live_def up_def demo_authority_def new_candidate_def str_lower_def char_lower_def)

lemma demo_order: "honest_order_of demo_authority [''a'', ''b'', ''c'']"
  by (auto simp: honest_order_of_def demo_authority_def new_candidate_def str_lower_def char_lower_def)

lemma demo_takeover:
  obtains e c' where "accept toy_world (ra_candidates demo_authority ! 2) e [''a'', ''b'', ''c''] [] (Some 2)
      (Some [''a'', ''b'', ''c'']) = Inr (None, c')" "en_view e = Some (JInt 1)" "en_round e = Some (JInt 1)" "is_object (en_block e)"
proof -
  let ?order = "[''a'', ''b'', ''c'']" and ?b = "new_candidate (demo_key ''b'') (demo_key ''k'') []"
  have m: "ra_timeout_m demo_authority = 2" by (simp add: demo_authority_def)
  have st: "str_lower ''a'' \<in> set (map str_lower [''a''])" by simp
  have up: "ra_timeout_m demo_authority \<le> int (length (up demo_authority [''a'']))"
    "int (length ?order) < ra_timeout_m demo_authority * 2"
    using demo_live [of True] by (simp_all add: live_def m)
  obtain atts where q: "tv_approved (verify_timeout_quorum toy_world atts ?order 2 1 ''a'' 0)"
    by (rule observers_time_out [OF demo_honest demo_order st up, of 1 0]) (simp add: m)
  have b: "can_sign toy_world (cs_coord (ca_chain ?b))" "can_sign toy_world (ca_identity ?b)"
    "ca_chain ?b = ca_chain (ra_candidates demo_authority ! 2)" "ca_identity ?b = demo_key ''b''"
    by (simp_all add: new_candidate_def demo_authority_def numeral_2_eq_2)
  obtain e p' where p: "propose toy_world ?b 1 1 10 ''m'' demo_quorum 1001 (Some (1, [(0, atts)])) = Inr (e, p')"
    by (rule propose_total [OF b(1,2)])
  from p have e: "en_round e = Some (JInt 1)" "en_view e = Some (JInt (int 1))" "en_timeout_quorums e = [(0, atts)]"
    "is_object (en_block e)"
    by (rule proposed, use settle_fields(6) in fastforce)+
  have "election_check toy_world e (acct_address (ca_identity ?b)) ?order [] (Some 2) (Some ?order) = Inr None"
    by (rule election_check_view [OF e(2,1)]) (use q e(3) b(4) in simp_all)
  from accept_proposal [OF toy_world_signs b(2) _ b(3) p this] b(1,3) e that show thesis by simp
qed

theorem takeover_needs_every_timeout_witness:
  "\<exists>e c'. accept toy_world (ra_candidates demo_authority ! 2) e [''a'', ''b'', ''c''] [] (Some 2)
      (Some [''a'', ''b'', ''c'']) = Inr (None, c') \<and> (\<exists>a \<in> {''b'', ''c''}. timed_out toy_world 1 ''a'' 0 a)"
proof -
  obtain e c' where a: "accept toy_world (ra_candidates demo_authority ! 2) e [''a'', ''b'', ''c''] [] (Some 2)
      (Some [''a'', ''b'', ''c'']) = Inr (None, c')" "en_view e = Some (JInt 1)" "en_round e = Some (JInt 1)"
    by (rule demo_takeover)
  have "\<exists>a \<in> {''b'', ''c''}. timed_out toy_world 1 ([''a'', ''b'', ''c''] ! 0) (int 0) a"
    by (rule takeover_needs_every_timeout [OF a, THEN conjunct2, THEN conjunct2, THEN conjunct2, rule_format])
      (auto simp: str_lower_def str_strip_def char_lower_def is_space_def image_iff)
  with a(1) show ?thesis by auto
qed

subsection \<open>Replicas\<close>

text \<open>C18: however the round goes, whatever commits and reveals strangers add to the bus and whoever is
  down, a round that completes leaves all replicas of the chain equal: each is the old chain extended by
  the one block of that round, and re-verifies. There is no fork.\<close>

theorem completed_round_leaves_one_chain:
  assumes "signs_correctly W" "chain_ok W chain" "\<forall>c \<in> set (ra_candidates ra). ca_chain c = chain"
    "drive_round W ra r secrets stalled reward recipient agreed extra_commits extra_reveals = Inr (rec, ra')"
  shows "\<exists>chain'. (\<forall>c \<in> set (ra_candidates ra'). ca_chain c = chain') \<and> length (ra_candidates ra') = length (ra_candidates ra)
    \<and> verify_chain W chain' = Inr None \<and> cs_blocks chain' = cs_blocks chain @ [en_block (rd_envelope rec)]"
proof -
  have step: "in_step (ra_candidates ra) chain" using assms(3) by (simp add: in_step_def)
  have sign: "can_sign W (cs_coord chain)" using assms(2) by (simp add: chain_ok_def)
  from drive_round_step [OF assms(1) sign step assms(4)] obtain q credited chain' where
    s: "settle W chain r reward [(recipient, 1)] (1000 + r) (Some q) = Inr (credited, chain')"
    and c: "in_step (ra_candidates ra') chain'" "length (ra_candidates ra') = length (ra_candidates ra)"
      "en_block (rd_envelope rec) = last (cs_blocks chain')" by metis
  have "cs_blocks chain' = cs_blocks chain @ [en_block (rd_envelope rec)]" using settle_fields(3) [OF s] c(3) by simp
  with c chain_ok_verifies [OF settle_keeps_ok [OF assms(1,2) s]] show ?thesis by (auto simp: in_step_def)
qed

lemma demo_drives:
  obtains rec ra' where "drive_round toy_world demo_authority 1 [''00'', ''01'', ''02''] [''a''] 10 ''m'' agreed [] [] = Inr (rec, ra')"
  by (rule drive_total [OF demo_honest demo_in_step, of 1 "[''00'', ''01'', ''02'']" agreed "[''a'']"])
    (simp_all add: demo_live fresh_from_def secrets_ok_def, simp_all add: demo_authority_def new_chain_def hex_digit_def ascii_space_def)

theorem completed_round_leaves_one_chain_witness:
  "\<exists>rec ra' chain'. drive_round toy_world demo_authority 1 [''00'', ''01'', ''02''] [''a''] 10 ''m'' True [] [] = Inr (rec, ra')
    \<and> (\<forall>c \<in> set (ra_candidates ra'). ca_chain c = chain') \<and> length (cs_blocks chain') = 1"
proof -
  obtain rec ra' where d: "drive_round toy_world demo_authority 1 [''00'', ''01'', ''02''] [''a''] 10 ''m'' True [] [] = Inr (rec, ra')"
    by (rule demo_drives)
  have "\<forall>c \<in> set (ra_candidates demo_authority). ca_chain c = new_chain (demo_key ''k'') []"
    using demo_in_step by (simp add: in_step_def)
  from completed_round_leaves_one_chain [OF toy_world_signs new_chain_ok [OF demo_key(1)] this d] d show ?thesis
    by (fastforce simp: new_chain_def)
qed

text \<open>C17: honest candidates always get through: consecutive rounds with fresh secrets, in each of which
  one candidate is up (or, under the agreed failover, as many as a strict-majority timeout quorum needs),
  all complete, whoever is down in which round, and leave every replica with one block for each round.\<close>

theorem honest_rounds_complete:
  assumes "honest_authority W ra" "\<forall>c \<in> set (ra_candidates ra). ca_chain c = chain" "chain_ok W chain"
    "fresh_from ra r" "0 \<le> r" "r + int (length plan) \<le> 2 ^ 64"
    "\<forall>(secrets, recipient, stalled) \<in> set plan. secrets_ok ra secrets \<and> live ra agreed stalled"
  shows "\<exists>recs ra' chain'. run_rounds W reward agreed r plan ra = Inr (recs, ra')
    \<and> (\<forall>c \<in> set (ra_candidates ra'). ca_chain c = chain') \<and> verify_chain W chain' = Inr None
    \<and> length (cs_blocks chain') = length (cs_blocks chain) + length plan"
proof -
  have step: "in_step (ra_candidates ra) chain" using assms(2) by (simp add: in_step_def)
  have sg: "signs_correctly W" using assms(1) by (simp add: honest_authority_def)
  obtain recs ra' where r: "run_rounds W reward agreed r plan ra = Inr (recs, ra')"
    using run_total [OF assms(1) step assms(3-7)] by blast
  from run_rounds_step [OF sg assms(3) step r] obtain chain' where "chain_ok W chain'" "in_step (ra_candidates ra') chain'"
    "cs_blocks chain' = cs_blocks chain @ map (en_block \<circ> rd_envelope) recs" "length recs = length plan" by metis
  with r chain_ok_verifies show ?thesis by (fastforce simp: in_step_def)
qed

theorem honest_rounds_complete_witness:
  "\<exists>recs ra' chain'. run_rounds toy_world 10 True 1 [([''00'', ''01'', ''02''], ''m'', [''a'']), ([''03'', ''04'', ''05''], ''n'', [''a''])]
       demo_authority = Inr (recs, ra')
    \<and> (\<forall>c \<in> set (ra_candidates ra'). ca_chain c = chain') \<and> length (cs_blocks chain') = 2"
proof -
  let ?plan = "[([''00'', ''01'', ''02''], ''m'', [''a'']), ([''03'', ''04'', ''05''], ''n'', [''a''])]"
  have step: "\<forall>c \<in> set (ra_candidates demo_authority). ca_chain c = new_chain (demo_key ''k'') []"
    using demo_in_step by (simp add: in_step_def)
  have f: "fresh_from demo_authority 1" by (simp add: fresh_from_def demo_authority_def)
  have p: "\<forall>(secrets, recipient, stalled) \<in> set ?plan. secrets_ok demo_authority secrets \<and> live demo_authority True stalled"
    by (simp add: demo_live secrets_ok_def) (simp add: demo_authority_def hex_digit_def ascii_space_def)
  have "\<exists>recs ra' chain'. run_rounds toy_world 10 True 1 ?plan demo_authority = Inr (recs, ra')
    \<and> (\<forall>c \<in> set (ra_candidates ra'). ca_chain c = chain') \<and> verify_chain toy_world chain' = Inr None
    \<and> length (cs_blocks chain') = length (cs_blocks (new_chain (demo_key ''k'') [])) + length ?plan"
    by (rule honest_rounds_complete [OF demo_honest step new_chain_ok [OF demo_key(1)] f _ _ p]) simp_all
  then show ?thesis by (elim exE conjE) (intro exI conjI, assumption+, simp add: new_chain_def)
qed

subsection \<open>What an accepted envelope does not bind\<close>

lemma accept_block_ok:
  assumes "truthy (en_block e)"
  shows "accept_block W chain e = Inr (Inr chain') \<longleftrightarrow>
    (\<exists>hdr signer cs s'. bindE (getE (en_block e) ''header'') header_from_dict = Inr hdr
      \<and> text_at W (en_claim e) ''block_hash'' = Inr (header_hash W hdr)
      \<and> (case en_round e of None \<Rightarrow> Inr (-2) | Some j \<Rightarrow> intE j) = Inr (hd_height hdr)
      \<and> intE (get_or (en_claim e) ''round'' (JInt (-3))) = Inr (hd_height hdr)
      \<and> hd_prev_hash hdr = cs_head chain \<and> block_signer W (en_block e) hdr = Inr signer
      \<and> str_lower signer = str_lower (acct_address (cs_coord chain))
      \<and> bindE (getE (en_block e) ''contributors'') contributors_of = Inr cs
      \<and> apply_block W (cs_state chain) (settlement_block hdr) cs = Inr s'
      \<and> chain' = chain\<lparr>cs_state := s', cs_blocks := cs_blocks chain @ [en_block e], cs_head := header_hash W hdr\<rparr>)"
proof (cases "bindE (getE (en_block e) ''header'') header_from_dict")
  case (Inr hdr)
  show ?thesis
    unfolding accept_block_def Let_def Inr if_P [OF assms]
    by (auto simp: bindE_Inr_iff failE_def split: sum.splits if_splits)
qed (simp add: accept_block_def assms)

text \<open>the claim and the coordinator's signature bind the header, not the contributors beside it. An
  envelope that a replica accepts is accepted in the same way with other contributors in its block, and
  leaves the same head; the state is then another: the ledger credits whoever the envelope now names.\<close>

theorem replicas_accept_other_contributors:
  assumes "accept W c e order unavailable timeout_m members = Inr (None, c1)" "is_object (en_block e)"
    "list_all ((\<le>) 0) (dvalues cs)"
  shows "\<exists>c2 hdr. record_header (en_block e) = Inr hdr
    \<and> accept W c (e\<lparr>en_block := with_contributors (en_block e) (contributors_json cs)\<rparr>) order unavailable timeout_m members
      = Inr (None, c2) \<and> cs_head (ca_chain c2) = cs_head (ca_chain c1)
    \<and> apply_block W (cs_state (ca_chain c)) (settlement_block hdr) cs = Inr (cs_state (ca_chain c2))"
proof -
  let ?b = "with_contributors (en_block e) (contributors_json cs)"
  from assms(1) obtain who chain where w: "recover_proposer W (en_claim e) = Some who"
    "election_check W e who order unavailable timeout_m members = Inr None"
    and ab: "accept_block W (ca_chain c) e = Inr (Inr chain)" and c1: "c1 = c\<lparr>ca_chain := chain\<rparr>" by (rule accept_Inr)
  obtain kvs where kvs: "en_block e = JObj kvs" using assms(2) by (auto simp: is_object_def split: json.splits)
  have t: "truthy (en_block e)"
  proof (rule ccontr)
    assume "\<not> truthy (en_block e)"
    then show False using ab by (simp add: accept_block_def getE_def)
  qed
  from ab [unfolded accept_block_ok [OF t]] obtain hdr signer cs0 s0 where
    h: "bindE (getE (en_block e) ''header'') header_from_dict = Inr hdr"
      "text_at W (en_claim e) ''block_hash'' = Inr (header_hash W hdr)"
      "(case en_round e of None \<Rightarrow> Inr (-2) | Some j \<Rightarrow> intE j) = Inr (hd_height hdr)"
      "intE (get_or (en_claim e) ''round'' (JInt (-3))) = Inr (hd_height hdr)"
      "hd_prev_hash hdr = cs_head (ca_chain c)" "block_signer W (en_block e) hdr = Inr signer"
      "str_lower signer = str_lower (acct_address (cs_coord (ca_chain c)))"
    and ap: "apply_block W (cs_state (ca_chain c)) (settlement_block hdr) cs0 = Inr s0"
    and chain: "chain = (ca_chain c)\<lparr>cs_state := s0, cs_blocks := cs_blocks (ca_chain c) @ [en_block e],
        cs_head := header_hash W hdr\<rparr>" by blast
  from ap have root: "hd_tx_root hdr = replicate 64 CHR ''0''"
    by (rule apply_block_Inr) (simp add: settlement_block_def tx_root_def)
  from aggregate_nonneg [OF assms(3)] obtain agg where "aggregate [] cs = Inr agg" by blast
  from settlement_block_applies [OF root this] obtain s2 where
    s2: "apply_block W (cs_state (ca_chain c)) (settlement_block hdr) cs = Inr s2" .
  let ?e = "e\<lparr>en_block := ?b\<rparr>" and ?chain = "(ca_chain c)\<lparr>cs_state := s2, cs_blocks := cs_blocks (ca_chain c) @ [?b],
        cs_head := header_hash W hdr\<rparr>"
  have t2: "truthy (en_block ?e)"
  proof -
    have "dset ''contributors'' (contributors_json cs) kvs \<noteq> []" by (cases kvs) auto
    then show ?thesis by (simp add: kvs with_contributors_def)
  qed
  have "accept_block W (ca_chain c) ?e = Inr (Inr ?chain)"
    unfolding accept_block_ok [OF t2] using h s2 assms(2) by (auto simp: with_contributors_getters block_signer_def)
  then have "accept W c ?e order unavailable timeout_m members = Inr (None, c\<lparr>ca_chain := ?chain\<rparr>)"
    using w by (simp add: accept_def)
  then show ?thesis using h(1) s2 c1 chain
    by (intro exI [of _ "c\<lparr>ca_chain := ?chain\<rparr>"] exI [of _ hdr]) (simp add: record_header_def)
qed

text \<open>The replica above, which accepts the takeover, accepts it as well with the thief as the one who is paid.\<close>

theorem replicas_accept_other_contributors_witness:
  "\<exists>e c1 c2. accept toy_world (ra_candidates demo_authority ! 2) e [''a'', ''b'', ''c''] [] (Some 2)
      (Some [''a'', ''b'', ''c'']) = Inr (None, c1)
    \<and> accept toy_world (ra_candidates demo_authority ! 2) (e\<lparr>en_block := with_contributors (en_block e)
         (contributors_json [(''thief'', 1)])\<rparr>) [''a'', ''b'', ''c''] [] (Some 2) (Some [''a'', ''b'', ''c'']) = Inr (None, c2)
    \<and> cs_head (ca_chain c2) = cs_head (ca_chain c1)"
proof -
  obtain e c1 where a: "accept toy_world (ra_candidates demo_authority ! 2) e [''a'', ''b'', ''c''] [] (Some 2)
      (Some [''a'', ''b'', ''c'']) = Inr (None, c1)" "is_object (en_block e)"
    by (rule demo_takeover)
  have n: "list_all ((\<le>) 0) (dvalues [(''thief'', 1 :: rat)])" by simp
  from replicas_accept_other_contributors [OF a n] a(1) show ?thesis by blast
qed

end
