(* ===== verification/Py_Text.thy ===== *)
theory Py_Text
  imports Prelude
begin

text \<open>
  The string operations of Python that the release and lane tools use beyond those of the
  prelude: splitting, searching, the end of a string, lines, and the character classes of the
  regular expressions in the code. A regular expression is written out as the predicate it decides.
\<close>

subsection \<open>Splitting and searching\<close>

text \<open>\<^verbatim>\<open>s.split(c)\<close> for a one-character separator, \<^verbatim>\<open>p in s\<close>, \<^verbatim>\<open>s.endswith(p)\<close>.\<close>

fun split_on :: "char \<Rightarrow> string \<Rightarrow> string list" where
  "split_on c [] = [[]]"
| "split_on c (x # xs) =
     (if x = c then [] # split_on c xs
      else (case split_on c xs of [] \<Rightarrow> [[x]] | p # ps \<Rightarrow> (x # p) # ps))"

fun contains :: "string \<Rightarrow> string \<Rightarrow> bool" where
  "contains p [] = (p = [])"
| "contains p (x # xs) = (starts_with p (x # xs) \<or> contains p xs)"

definition ends_with :: "string \<Rightarrow> string \<Rightarrow> bool" where
  "ends_with p s = starts_with (rev p) (rev s)"

text \<open>Gluing pieces with a character, \<^verbatim>\<open>c.join(ps)\<close>.\<close>

fun join_on :: "char \<Rightarrow> string list \<Rightarrow> string" where
  "join_on c [] = []"
| "join_on c [p] = p"
| "join_on c (p # q # ps) = p @ c # join_on c (q # ps)"

lemma split_on_nonempty [simp]: "split_on c s \<noteq> []"
  by (cases s) (auto split: list.splits)

lemma split_on_free: "p \<in> set (split_on c s) \<Longrightarrow> c \<notin> set p"
  by (induction s arbitrary: p) (auto split: list.splits if_splits)

lemma join_split [simp]: "join_on c (split_on c s) = s"
proof (induction s)
  case (Cons x s)
  then show ?case
    by (cases "split_on c s"; cases "tl (split_on c s)") auto
qed simp

lemma split_on_append: "c \<notin> set p \<Longrightarrow> split_on c (p @ c # s) = p # split_on c s"
  by (induction p) auto

lemma split_on_single: "c \<notin> set p \<Longrightarrow> split_on c p = [p]"
  by (induction p) auto

lemma split_join:
  assumes "ps \<noteq> []" "\<forall>p \<in> set ps. c \<notin> set p"
  shows "split_on c (join_on c ps) = ps"
  using assms by (induction c ps rule: join_on.induct) (auto simp: split_on_append split_on_single)

text \<open>\<^verbatim>\<open>s.splitlines()\<close>: every line boundary of an ASCII text, a carriage return and a newline
  counting once, and no empty line after the last one.\<close>

definition is_line_end :: "char \<Rightarrow> bool" where
  "is_line_end c = (let n = of_char c :: nat in (10 \<le> n \<and> n \<le> 13) \<or> (28 \<le> n \<and> n \<le> 30))"

fun lines_from :: "string \<Rightarrow> string \<Rightarrow> string list" where
  "lines_from acc [] = (if acc = [] then [] else [rev acc])"
| "lines_from acc (c # cs) =
     (if c = char_of (13 :: nat) then
        (case cs of
           d # ds \<Rightarrow> rev acc # (if d = char_of (10 :: nat) then lines_from [] ds else lines_from [] (d # ds))
         | [] \<Rightarrow> [rev acc])
      else if is_line_end c then rev acc # lines_from [] cs
      else lines_from (c # acc) cs)"

definition splitlines :: "string \<Rightarrow> string list" where
  "splitlines s = lines_from [] s"

subsection \<open>Character classes\<close>

definition is_hexdigit :: "char \<Rightarrow> bool" where
  "is_hexdigit c = (is_digit c \<or> c \<in> set ''abcdefABCDEF'')"

definition is_alpha :: "char \<Rightarrow> bool" where
  "is_alpha c = (let n = of_char c :: nat in (65 \<le> n \<and> n \<le> 90) \<or> (97 \<le> n \<and> n \<le> 122))"

definition is_alnum :: "char \<Rightarrow> bool" where
  "is_alnum c = (is_alpha c \<or> is_digit c)"

text \<open>\<^verbatim>\<open>^[C]{lo,hi}\<close> up to the end of the string, and with the newline that \<^verbatim>\<open>$\<close> lets stand there.\<close>

definition run_of :: "(char \<Rightarrow> bool) \<Rightarrow> nat \<Rightarrow> nat \<Rightarrow> string \<Rightarrow> bool" where
  "run_of ok lo hi s = (lo \<le> length s \<and> length s \<le> hi \<and> list_all ok s)"

definition newline :: char where
  "newline = char_of (10 :: nat)"

definition before_end :: "(string \<Rightarrow> bool) \<Rightarrow> string \<Rightarrow> bool" where
  "before_end r s = (r s \<or> (s \<noteq> [] \<and> last s = newline \<and> r (butlast s)))"

text \<open>\<^verbatim>\<open>p.isdigit()\<close> of an ASCII string.\<close>

definition all_digits :: "string \<Rightarrow> bool" where
  "all_digits s = (s \<noteq> [] \<and> list_all is_digit s)"

lemma int_digits_of_digits: "list_all is_digit cs \<Longrightarrow> prev \<or> cs \<noteq> [] \<Longrightarrow> \<exists>n. int_digits prev acc cs = Some n"
  by (induction cs arbitrary: prev acc) auto

lemma is_digit_not_space: "is_digit c \<Longrightarrow> \<not> is_space c"
  by (auto simp: is_digit_def is_space_def Let_def)

lemma strip_id: "s = [] \<or> (\<not> is_space (hd s) \<and> \<not> is_space (last s)) \<Longrightarrow> str_strip s = s"
proof -
  assume a: "s = [] \<or> (\<not> is_space (hd s) \<and> \<not> is_space (last s))"
  show ?thesis
  proof (cases s)
    case (Cons c cs)
    with a have f: "dropWhile is_space s = s" by simp
    from Cons a have "\<not> is_space (hd (rev s))" by (simp add: hd_rev del: rev.simps)
    then have "dropWhile is_space (rev s) = rev s" using Cons by (cases "rev s") auto
    with f show ?thesis by (simp add: str_strip_def)
  qed (simp add: str_strip_def)
qed

lemma int_of_digits: "all_digits p \<Longrightarrow> \<exists>n. int_of_str p = Some n"
proof -
  assume a: "all_digits p"
  then obtain c cs where p: "p = c # cs" by (cases p) (auto simp: all_digits_def)
  from a have d: "list_all is_digit (c # cs)" by (simp add: all_digits_def p)
  then have "str_strip p = p"
    by (intro strip_id) (auto simp: p list_all_iff dest: is_digit_not_space split: if_splits)
  moreover have "c \<noteq> CHR ''-''" "c \<noteq> CHR ''+''" using d by (auto simp: is_digit_def)
  ultimately show ?thesis using int_digits_of_digits [OF d, of False 0] by (simp add: int_of_str_def p)
qed

end
