(* ===== verification/Release_Manifest.thy ===== *)
theory Release_Manifest
  imports Py_Text Signing
begin

text \<open>
  The signed release manifest, \<^verbatim>\<open>tools/self_update.py\<close>: versions and their order, the bytes a
  release signature covers, the verification against the pinned key, the fetch over every mirror,
  the configuration a verified manifest may set, and the gate on publishing. A manifest is a decoded
  JSON value; the texts of the refusals are constructors.
\<close>

subsection \<open>Constants\<close>

definition PINNED_RELEASE_PUBKEY :: string where
  "PINNED_RELEASE_PUBKEY = ''0x5168F6cc4cc05bfd6d4714906d68e083c02dDC66''"

definition MANIFEST_URL :: string where
  "MANIFEST_URL = ''https://raw.githubusercontent.com/whitegreenstudios/neurahash-miner/main/release.json''"

definition HF_MANIFEST_URL :: string where
  "HF_MANIFEST_URL = ''https://huggingface.co/datasets/whitegreenstudios888/neurahash-data/resolve/main/release.json''"

definition VPS_MANIFEST_URL :: string where
  "VPS_MANIFEST_URL = ''http://47.84.93.96:8710/release.json''"

definition MIRRORS :: "(string \<times> string) list" where
  "MIRRORS = [(''github-raw'', MANIFEST_URL), (''huggingface'', HF_MANIFEST_URL),
              (''vps-store'', VPS_MANIFEST_URL)]"

definition RELEASE_KIND :: string where
  "RELEASE_KIND = ''neurahash-miner-release''"

definition MANIFEST_FILES_KEY :: string where
  "MANIFEST_FILES_KEY = ''files''"

definition MAX_MANIFEST_BYTES :: nat where
  "MAX_MANIFEST_BYTES = 2 ^ 20"

subsection \<open>Versions\<close>

text \<open>A version is the list of its components; Python compares the tuples as HOL compares the
  lists, component by component, a proper prefix below its extensions.\<close>

definition parse_version :: "string \<Rightarrow> exn + int list" where
  "parse_version s = (let parts = split_on CHR ''.'' (str_strip s) in
     if \<not> (1 \<le> length parts \<and> length parts \<le> 4) \<or> \<not> list_all all_digits parts
     then Inl (ValueError ''not a numeric dotted version'')
     else mapE (\<lambda>p. orE (ValueError ''invalid literal for int'') (int_of_str p)) parts)"

definition is_forward :: "string \<Rightarrow> string \<Rightarrow> exn + bool" where
  "is_forward new_v cur_v =
     bindE (parse_version new_v) (\<lambda>n. bindE (parse_version cur_v) (\<lambda>c. Inr (c < n)))"

text \<open>\<^verbatim>\<open>read_local_version\<close>: the argument is what reading the VERSION file gives.\<close>

definition read_local_version :: "exn + string \<Rightarrow> exn + string" where
  "read_local_version file =
     bindE file (\<lambda>raw. bindE (parse_version (str_strip raw)) (\<lambda>_. Inr (str_strip raw)))"

subsection \<open>The signed bytes\<close>

text \<open>\<^verbatim>\<open>manifest.get(k)\<close>, with \<open>JNull\<close> for an absent key.\<close>

abbreviation mget :: "json \<Rightarrow> string \<Rightarrow> json" where
  "mget m k \<equiv> get_or m k JNull"

definition optional_field :: "json \<Rightarrow> string \<Rightarrow> (json \<Rightarrow> json) \<Rightarrow> (string \<times> json) list" where
  "optional_field m k f = (if truthy (mget m k) then [(k, f (mget m k))] else [])"

definition canonical_manifest_bytes :: "world \<Rightarrow> json \<Rightarrow> exn + string" where
  "canonical_manifest_bytes W m =
     bindE (getE m ''version'') (\<lambda>version.
     bindE (getE m ''git_commit'') (\<lambda>commit.
     bindE (getE m ''published_ts'') (\<lambda>ts0.
     bindE (intE ts0) (\<lambda>ts.
       Inr (dumps W (JObj
         ([(''kind'', JStr RELEASE_KIND), (''version'', JStr (str_of W version)),
           (''git_commit'', JStr (str_of W commit)), (''published_ts'', JInt ts)]
          @ optional_field m ''min_client_version'' (\<lambda>v. JStr (str_of W v))
          @ optional_field m ''config'' (\<lambda>c. c)
          @ optional_field m MANIFEST_FILES_KEY (\<lambda>f. f))))))))"

subsection \<open>Verification\<close>

datatype manifest_error =
    NotAnObject
  | MissingField string
  | NoSignature
  | NotACommit
  | BadVersion
  | ConfigNotObject
  | FilesNotObject
  | BadMinVersion
  | BadFields
  | NoRecovery
  | WrongKey string

text \<open>\<^verbatim>\<open>^[0-9a-fA-F]{7,64}$\<close>\<close>

definition commit_re :: "string \<Rightarrow> bool" where
  "commit_re = before_end (run_of is_hexdigit 7 64)"

fun json_object :: "json \<Rightarrow> bool" where
  "json_object (JObj _) = True"
| "json_object _ = False"

definition required_fields :: "string list" where
  "required_fields = [''version'', ''git_commit'', ''published_ts'', ''signature'']"

fun signature_text :: "json \<Rightarrow> string option" where
  "signature_text (JStr s) = (if str_strip s = [] then None else Some s)"
| "signature_text _ = None"

text \<open>The checks of the fields, in the order of the code; \<open>None\<close> when all of them pass.\<close>

definition field_error :: "world \<Rightarrow> json \<Rightarrow> manifest_error option" where
  "field_error W m =
     (if \<not> json_object m then Some NotAnObject
      else case find (\<lambda>k. jindex m k = None) required_fields of
        Some k \<Rightarrow> Some (MissingField k)
      | None \<Rightarrow>
          if signature_text (mget m ''signature'') = None then Some NoSignature
          else if \<not> commit_re (str_of W (mget m ''git_commit'')) then Some NotACommit
          else if isl (parse_version (str_of W (mget m ''version''))) then Some BadVersion
          else if mget m ''config'' \<noteq> JNull \<and> \<not> json_object (mget m ''config'') then Some ConfigNotObject
          else if mget m MANIFEST_FILES_KEY \<noteq> JNull \<and> \<not> json_object (mget m MANIFEST_FILES_KEY)
          then Some FilesNotObject
          else if mget m ''min_client_version'' \<noteq> JNull
            \<and> isl (parse_version (str_of W (mget m ''min_client_version''))) then Some BadMinVersion
          else None)"

definition verify_manifest :: "world \<Rightarrow> json \<Rightarrow> string \<Rightarrow> manifest_error + string" where
  "verify_manifest W m pubkey =
     (case field_error W m of
        Some e \<Rightarrow> Inl e
      | None \<Rightarrow>
          (case (signature_text (mget m ''signature''), canonical_manifest_bytes W m) of
             (Some sig, Inr data) \<Rightarrow>
               (case recover_bytes W data sig of
                  Inl _ \<Rightarrow> Inl NoRecovery
                | Inr recovered \<Rightarrow>
                    if str_lower recovered \<noteq> str_lower pubkey then Inl (WrongKey recovered)
                    else Inr recovered)
           | _ \<Rightarrow> Inl BadFields))"

subsection \<open>Fetching one mirror\<close>

text \<open>
  \<^verbatim>\<open>_default_fetch\<close>: the scheme check, then the body read chunk by chunk against a deadline and a byte
  cap. The open connection is the list of its reads, each the clock at the check before it and the
  chunk it gives; an empty chunk ends the body, and a list that ends without one is a read that raises.
\<close>

definition fetch_allowed :: "string \<Rightarrow> bool" where
  "fetch_allowed u = (starts_with ''https://'' (str_lower u)
     \<or> (starts_with ''http://'' (str_lower u) \<and> u = VPS_MANIFEST_URL))"

fun read_body :: "rat \<Rightarrow> (rat \<times> string) list \<Rightarrow> nat \<Rightarrow> string \<Rightarrow> exn + string" where
  "read_body deadline [] got body = Inl (RuntimeError ''read failed'')"
| "read_body deadline ((now, b) # reads) got body =
     (if deadline < now then Inl (RuntimeError ''manifest fetch exceeded its time'')
      else if b = [] then Inr body
      else if MAX_MANIFEST_BYTES < got + length b then Inl (ValueError ''manifest exceeds its size'')
      else read_body deadline reads (got + length b) (body @ b))"

definition default_fetch ::
  "(string \<Rightarrow> exn + (rat \<times> string) list) \<Rightarrow> rat \<Rightarrow> rat \<Rightarrow> string \<Rightarrow> exn + string" where
  "default_fetch opened start timeout u =
     (if \<not> fetch_allowed u then Inl (ValueError ''refusing to fetch manifest over non-HTTPS url'')
      else bindE (opened u) (\<lambda>reads. read_body (fadd start timeout) reads 0 []))"

subsection \<open>The best manifest of all mirrors\<close>

datatype mirror_status =
    Unreachable
  | Refused manifest_error
  | Replayed int
  | VersionUnusable
  | ValidRelease string

record manifest_fetch =
  mf_manifest :: "json option"
  mf_source :: "string option"
  mf_tried :: "(string \<times> string \<times> mirror_status) list"
  mf_any_parsed :: bool

definition mf_ok :: "manifest_fetch \<Rightarrow> bool" where
  "mf_ok r = (mf_manifest r \<noteq> None)"

text \<open>\<^verbatim>\<open>int(manifest.get("published_ts") or 0)\<close>, zero where it raises.\<close>

definition published_ts :: "json \<Rightarrow> int" where
  "published_ts m = (let v = mget m ''published_ts'' in
     if truthy v then (case jint v of Some n \<Rightarrow> n | None \<Rightarrow> 0) else 0)"

definition release_version :: "world \<Rightarrow> json \<Rightarrow> string" where
  "release_version W m = str_of W (mget m ''version'')"

text \<open>One mirror: \<open>loads\<close> is \<^verbatim>\<open>json.loads\<close>.\<close>

definition try_mirror ::
  "world \<Rightarrow> string \<Rightarrow> (string \<Rightarrow> exn + string) \<Rightarrow> (string \<Rightarrow> json option) \<Rightarrow> int
    \<Rightarrow> manifest_fetch \<Rightarrow> string \<times> string \<Rightarrow> manifest_fetch" where
  "try_mirror W pubkey fetch loads floor_ts acc mirror = (case mirror of (name, url) \<Rightarrow>
     let note = (\<lambda>r s. r\<lparr>mf_tried := mf_tried r @ [(name, url, s)]\<rparr>) in
     (case fetch url of
        Inl _ \<Rightarrow> note acc Unreachable
      | Inr text \<Rightarrow>
          (case loads text of
             None \<Rightarrow> note acc Unreachable
           | Some m \<Rightarrow>
               (let acc = acc\<lparr>mf_any_parsed := True\<rparr> in
                case verify_manifest W m pubkey of
                  Inl e \<Rightarrow> note acc (Refused e)
                | Inr _ \<Rightarrow>
                    if floor_ts \<noteq> 0 \<and> published_ts m < floor_ts then note acc (Replayed (published_ts m))
                    else
                      (case (case mf_manifest acc of
                               None \<Rightarrow> Inr True
                             | Some best \<Rightarrow> is_forward (release_version W m) (release_version W best)) of
                         Inl _ \<Rightarrow> note acc VersionUnusable
                       | Inr better \<Rightarrow>
                           (let acc = note acc (ValidRelease (release_version W m)) in
                            if better then acc\<lparr>mf_manifest := Some m, mf_source := Some url\<rparr> else acc))))))"

definition empty_fetch :: manifest_fetch where
  "empty_fetch = \<lparr>mf_manifest = None, mf_source = None, mf_tried = [], mf_any_parsed = False\<rparr>"

definition fetch_best_manifest ::
  "world \<Rightarrow> (string \<times> string) list \<Rightarrow> string \<Rightarrow> (string \<Rightarrow> exn + string) \<Rightarrow> (string \<Rightarrow> json option) \<Rightarrow> int
    \<Rightarrow> manifest_fetch" where
  "fetch_best_manifest W mirrors pubkey fetch loads floor_ts =
     foldl (try_mirror W pubkey fetch loads floor_ts) empty_fetch mirrors"

subsection \<open>Configuration as defaults\<close>

definition url_char :: "char \<Rightarrow> bool" where
  "url_char c = (is_alnum c \<or> c \<in> set ''._~:/?#[]!$&()*+,;=%-'' \<or> c = char_of (39 :: nat))"

definition url_re :: "string \<Rightarrow> bool" where
  "url_re s = ((starts_with ''http://'' s \<and> run_of url_char 1 300 (drop 7 s))
             \<or> (starts_with ''https://'' s \<and> run_of url_char 1 300 (drop 8 s)))"

definition hex_re :: "string \<Rightarrow> bool" where
  "hex_re = run_of is_hexdigit 8 128"

definition tag_re :: "string \<Rightarrow> bool" where
  "tag_re s = (case s of [] \<Rightarrow> False
     | c # cs \<Rightarrow> is_alnum c \<and> run_of (\<lambda>d. is_alnum d \<or> d \<in> set ''._-'') 0 63 cs)"

datatype validator = V_url | V_hex | V_tag | V_bool

definition v_text :: "(string \<Rightarrow> bool) \<Rightarrow> json \<Rightarrow> string option" where
  "v_text r v = (case v of JStr s \<Rightarrow> (if before_end r (str_strip s) then Some (str_strip s) else None) | _ \<Rightarrow> None)"

fun validate_value :: "validator \<Rightarrow> json \<Rightarrow> string option" where
  "validate_value V_url v = v_text url_re v"
| "validate_value V_hex v = map_option str_lower (v_text hex_re v)"
| "validate_value V_tag v = v_text tag_re v"
| "validate_value V_bool (JBool b) = Some (if b then ''1'' else ''0'')"
| "validate_value V_bool _ = None"

definition CONFIG_ALLOWLIST :: "(string, string \<times> validator) pydict" where
  "CONFIG_ALLOWLIST =
     [(''merge_url'', (''NEURAHASH_DILOCO_MERGE_URL'', V_url)),
      (''content_url'', (''NEURAHASH_CONTENT_URL'', V_url)),
      (''corpus_store'', (''NEURAHASH_CONTENT_STORE'', V_url)),
      (''corpus_sha'', (''NEURAHASH_CORPUS_SHA'', V_hex))]"

definition PROTOCOL_ALLOWLIST :: "(string, string \<times> validator) pydict" where
  "PROTOCOL_ALLOWLIST =
     [(''signed_put'', (''NEURAHASH_SIGNED_PUT'', V_bool)),
      (''contrib_sig_version'', (''NEURAHASH_CONTRIB_SIG_VERSION'', V_tag))]"

datatype ignored =
    IgnoredConfig
  | IgnoredProtocol
  | NotListed string
  | BadValue string
  | EnvironmentWins string string

record config_run =
  cr_env :: "(string, string) pydict"
  cr_applied :: "(string \<times> string) list"
  cr_ignored :: "ignored list"

text \<open>\<^verbatim>\<open>_one\<close>, and a key looked up in an allowlist.\<close>

definition apply_one :: "config_run \<Rightarrow> string \<Rightarrow> validator \<Rightarrow> json \<Rightarrow> string \<Rightarrow> config_run" where
  "apply_one r name v raw label =
     (case validate_value v raw of
        None \<Rightarrow> r\<lparr>cr_ignored := cr_ignored r @ [BadValue label]\<rparr>
      | Some x \<Rightarrow>
          if str_strip (dget (cr_env r) name []) \<noteq> []
          then r\<lparr>cr_ignored := cr_ignored r @ [EnvironmentWins label name]\<rparr>
          else r\<lparr>cr_env := dset name x (cr_env r), cr_applied := cr_applied r @ [(name, x)]\<rparr>)"

definition apply_listed ::
  "(string, string \<times> validator) pydict \<Rightarrow> (string \<Rightarrow> string) \<Rightarrow> config_run \<Rightarrow> string \<times> json \<Rightarrow> config_run" where
  "apply_listed allow label r item = (case item of (key, raw) \<Rightarrow>
     (case map_of allow key of
        None \<Rightarrow> r\<lparr>cr_ignored := cr_ignored r @ [NotListed (label key)]\<rparr>
      | Some (name, v) \<Rightarrow> apply_one r name v raw (label key)))"

definition apply_item :: "config_run \<Rightarrow> string \<times> json \<Rightarrow> config_run" where
  "apply_item r item = (case item of (key, raw) \<Rightarrow>
     if key = ''protocol'' then
       (case raw of
          JObj kvs \<Rightarrow> foldl (apply_listed PROTOCOL_ALLOWLIST (\<lambda>k. ''protocol.'' @ k)) r kvs
        | _ \<Rightarrow> r\<lparr>cr_ignored := cr_ignored r @ [IgnoredProtocol]\<rparr>)
     else apply_listed CONFIG_ALLOWLIST (\<lambda>k. k) r item)"

definition apply_manifest_config :: "json \<Rightarrow> (string, string) pydict \<Rightarrow> config_run" where
  "apply_manifest_config config env =
     (let r = \<lparr>cr_env = env, cr_applied = [], cr_ignored = []\<rparr> in
      case config of
        JObj kvs \<Rightarrow> foldl apply_item r kvs
      | _ \<Rightarrow> r\<lparr>cr_ignored := [IgnoredConfig]\<rparr>)"

subsection \<open>The publish gate\<close>

datatype publish_block = UnknownLocal | UnreadableLocal | BelowMinimum

definition publish_block_reason :: "world \<Rightarrow> json \<Rightarrow> string option \<Rightarrow> publish_block option" where
  "publish_block_reason W m local_version =
     (if \<not> json_object m then None
      else let mcv = mget m ''min_client_version'' in
        if mcv = JNull then None
        else (case parse_version (str_of W mcv) of
            Inl _ \<Rightarrow> None
          | Inr need \<Rightarrow>
              (case local_version of
                 None \<Rightarrow> Some UnknownLocal
               | Some lv \<Rightarrow>
                   if lv = [] then Some UnknownLocal
                   else (case parse_version lv of
                       Inl _ \<Rightarrow> Some UnreadableLocal
                     | Inr have \<Rightarrow> if have < need then Some BelowMinimum else None))))"

end
