(* ===== verification/Release_Reclaim.thy ===== *)
theory Release_Reclaim
  imports Release_Manifest
begin

text \<open>
  The reclaim of obsolete files after an update, \<^verbatim>\<open>tools/self_update.py\<close>: which files an older
  release shipped and the current one does not, which of them may be removed, and the removal. The
  file system is a state of a type parameter with the queries the code makes of it; the texts of the
  reasons are constructors. The path syntax is that of the code, and what depends on the platform
  (separator, case folding, absolute and real paths) is part of the parameter.
\<close>

subsection \<open>The file system\<close>

record 's disk =
  dk_sep :: char
  dk_normcase :: "string \<Rightarrow> string"
  dk_abspath :: "string \<Rightarrow> string"
  dk_realpath :: "'s \<Rightarrow> string \<Rightarrow> string"
  dk_islink :: "'s \<Rightarrow> string \<Rightarrow> bool"
  dk_exists :: "'s \<Rightarrow> string \<Rightarrow> bool"
  dk_isfile :: "'s \<Rightarrow> string \<Rightarrow> bool"
  dk_stat :: "'s \<Rightarrow> string \<Rightarrow> (int \<times> int) option"
  dk_sha256 :: "'s \<Rightarrow> string \<Rightarrow> string option"
  dk_remove :: "'s \<Rightarrow> string \<Rightarrow> (exn + unit) \<times> 's"

text \<open>\<^verbatim>\<open>os.path.join(base, *parts)\<close> for parts that are relative and not empty.\<close>

definition path_join :: "'s disk \<Rightarrow> string \<Rightarrow> string list \<Rightarrow> string" where
  "path_join D base parts =
     foldl (\<lambda>p q. if p = [] \<or> last p = dk_sep D then p @ q else p @ dk_sep D # q) base parts"

subsection \<open>The mode\<close>

datatype reclaiming = ReclaimOff | ReclaimDry | ReclaimDelete

definition mode_text :: "reclaiming \<Rightarrow> string" where
  "mode_text m = (case m of ReclaimOff \<Rightarrow> ''off'' | ReclaimDry \<Rightarrow> ''dry-run'' | ReclaimDelete \<Rightarrow> ''delete'')"

definition RECLAIM_ENV :: string where
  "RECLAIM_ENV = ''NEURAHASH_UPDATE_RECLAIM''"

definition RECLAIM_ARMED :: "string list" where
  "RECLAIM_ARMED = [''1'', ''true'', ''yes'', ''on'', ''delete'', ''apply'', ''reclaim'', ''enabled'']"

definition RECLAIM_DISABLED :: "string list" where
  "RECLAIM_DISABLED = [''0'', ''false'', ''no'', ''off'', ''never'', ''disabled'']"

text \<open>The override is the text of the argument, \<open>None\<close> for an argument that is false.\<close>

definition reclaim_mode :: "(string, string) pydict \<Rightarrow> string option \<Rightarrow> reclaiming" where
  "reclaim_mode env override =
     (let raw = str_lower (str_strip (dget env RECLAIM_ENV []));
          env_off = raw \<in> set RECLAIM_DISABLED in
      case override of
        Some text \<Rightarrow>
          (let ov = str_lower (str_strip text) in
           if env_off then ReclaimOff
           else if ov = mode_text ReclaimOff then ReclaimOff
           else if ov = mode_text ReclaimDelete then ReclaimDelete
           else ReclaimDry)
      | None \<Rightarrow>
          if raw \<in> set RECLAIM_ARMED then ReclaimDelete
          else if env_off then ReclaimOff
          else ReclaimDry)"

subsection \<open>Paths\<close>

datatype path_fault =
    EmptyPath | NulByte | UncPath | AbsolutePath | DrivePath | Traversal | NothingLeft
  | TrailingDot string | StreamName string | ControlChar string | DeviceName string

definition char_upper :: "char \<Rightarrow> char" where
  "char_upper c = (let n = of_char c :: nat in if 97 \<le> n \<and> n \<le> 122 then char_of (n - 32) else c)"

definition WIN_RESERVED_NAMES :: "string list" where
  "WIN_RESERVED_NAMES = [''CON'', ''PRN'', ''AUX'', ''NUL'', ''CONIN$'', ''CONOUT$'']
     @ map (\<lambda>i. ''COM'' @ nat_str i) [1..<10] @ map (\<lambda>i. ''LPT'' @ nat_str i) [1..<10]"

definition part_fault :: "string \<Rightarrow> path_fault option" where
  "part_fault p =
     (if p \<noteq> [] \<and> last p \<in> set ''. '' then Some (TrailingDot p)
      else if CHR '':'' \<in> set p then Some (StreamName p)
      else if list_ex (\<lambda>c. (of_char c :: nat) < 32) p then Some (ControlChar p)
      else if map char_upper (hd (split_on CHR ''.'' p)) \<in> set WIN_RESERVED_NAMES then Some (DeviceName p)
      else None)"

fun first_fault :: "string list \<Rightarrow> path_fault option" where
  "first_fault [] = None"
| "first_fault (p # ps) = (case part_fault p of Some e \<Rightarrow> Some e | None \<Rightarrow> first_fault ps)"

definition drive_re :: "string \<Rightarrow> bool" where
  "drive_re s = (case s of a # b # _ \<Rightarrow> is_alpha a \<and> b = CHR '':'' | _ \<Rightarrow> False)"

definition path_parts :: "string \<Rightarrow> string list" where
  "path_parts s = filter (\<lambda>p. p \<noteq> [] \<and> p \<noteq> ''.'') (split_on CHR ''/'' s)"

definition normalise_relpath :: "string \<Rightarrow> path_fault + string" where
  "normalise_relpath rel =
     (let s = map (\<lambda>c. if c = char_of (92 :: nat) then CHR ''/'' else c) (str_strip rel);
          parts = path_parts s in
      if str_strip rel = [] then Inl EmptyPath
      else if char_of (0 :: nat) \<in> set s then Inl NulByte
      else if starts_with ''//'' s then Inl UncPath
      else if starts_with ''/'' s then Inl AbsolutePath
      else if drive_re s then Inl DrivePath
      else if ''..'' \<in> set parts then Inl Traversal
      else if parts = [] then Inl NothingLeft
      else (case first_fault parts of
          Some e \<Rightarrow> Inl e
        | None \<Rightarrow> Inr (join_on CHR ''/'' parts)))"

subsection \<open>Files that no manifest may name\<close>

definition NEVER_TOUCH_DIR_PARTS :: "string list" where
  "NEVER_TOUCH_DIR_PARTS =
     [''.git'', ''.hg'', ''.svn'', ''.venv'', ''venv'', ''env'', ''node_modules'', ''site-packages'',
      ''__pycache__'', ''wallet'', ''wallets'', ''keystore'', ''keystores'', ''key'', ''keys'',
      ''secret'', ''secrets'', ''state'', ''logs'', ''log'', ''checkpoint'', ''checkpoints'', ''ckpt'',
      ''ckpts'', ''runs'', ''artifacts'', ''corpus'', ''corpora'', ''corpus_cache'', ''cache'',
      ''data'', ''datasets'', ''_poollive'']"

definition NEVER_TOUCH_PART_PREFIXES :: "string list" where
  "NEVER_TOUCH_PART_PREFIXES =
     [''_state'', ''_poollive'', ''.neurahash'', ''_rl_'', ''_granite'', ''_rung'', ''_xarch'', ''_olmoe'']"

definition NEVER_TOUCH_NAMES :: "string list" where
  "NEVER_TOUCH_NAMES =
     [''version'', ''requirements.txt'', ''release.json'', ''.env'', ''.gitignore'', ''.gitattributes'',
      ''miner_wallet.json'', ''wallet.json'', ''keystore.json'', ''identity.json'']"

definition NEVER_TOUCH_SUFFIXES :: "string list" where
  "NEVER_TOUCH_SUFFIXES =
     [''.key'', ''.pem'', ''.p12'', ''.pfx'', ''.keystore'', ''.seed'', ''.mnemonic'', ''.log'', ''.pt'',
      ''.pth'', ''.bin'', ''.safetensors'', ''.ckpt'', ''.npy'', ''.npz'', ''.db'', ''.sqlite'',
      ''.sqlite3'', ''.pid'', ''.sock'', ''.lock'']"

definition NEVER_TOUCH_SUBSTRINGS :: "string list" where
  "NEVER_TOUCH_SUBSTRINGS =
     [''wallet'', ''keystore'', ''privkey'', ''private_key'', ''secret'', ''mnemonic'', ''passphrase'',
      ''credential'', ''seed_phrase'', ''token'']"

datatype touch_reason =
    TouchPart string | TouchPrefix string | TouchName string | TouchSuffix string | TouchSubstring string

fun touched_part :: "string list \<Rightarrow> touch_reason option" where
  "touched_part [] = None"
| "touched_part (p # ps) =
     (if p \<in> set NEVER_TOUCH_DIR_PARTS then Some (TouchPart p)
      else case find (\<lambda>pre. starts_with pre p) NEVER_TOUCH_PART_PREFIXES of
        Some pre \<Rightarrow> Some (TouchPrefix pre)
      | None \<Rightarrow> touched_part ps)"

definition never_touch_reason :: "string \<Rightarrow> touch_reason option" where
  "never_touch_reason norm_rel =
     (let low = str_lower norm_rel; parts = split_on CHR ''/'' low; name = last parts in
      case touched_part parts of
        Some r \<Rightarrow> Some r
      | None \<Rightarrow>
          if name \<in> set NEVER_TOUCH_NAMES then Some (TouchName name)
          else case find (\<lambda>suf. ends_with suf name) NEVER_TOUCH_SUFFIXES of
            Some suf \<Rightarrow> Some (TouchSuffix suf)
          | None \<Rightarrow> map_option TouchSubstring (find (\<lambda>sub. contains sub low) NEVER_TOUCH_SUBSTRINGS))"

definition inside_root :: "'s disk \<Rightarrow> string \<Rightarrow> string \<Rightarrow> bool" where
  "inside_root D root_real target_real =
     (let r = rev (dropWhile (\<lambda>c. c = dk_sep D) (rev (dk_normcase D (dk_abspath D root_real))));
          t = dk_normcase D (dk_abspath D target_real) in
      t = r \<or> starts_with (r @ [dk_sep D]) t)"

subsection \<open>The plan\<close>

datatype reclaim_verdict = RDelete | RWouldDelete | RRefused | RAbsent | RError

datatype reclaim_reason =
    WholePass | UnsafePath path_fault | NeverTouch touch_reason | OutsideRoot | IsSymlink | AlreadyGone
  | NotRegular | StillShipped | NoDigest | Unreadable | Modified | Obsolete | ChangedSince | Removed
  | RemovalFailed

record reclaim_action =
  ra_rel :: string
  ra_verdict :: reclaim_verdict
  ra_reason :: reclaim_reason
  ra_path :: "string option"

definition manifest_files :: "world \<Rightarrow> json \<Rightarrow> (string, string) pydict" where
  "manifest_files W m = (case mget m MANIFEST_FILES_KEY of
     JObj raw \<Rightarrow> map (\<lambda>(k, v). (k, str_of W v)) raw | _ \<Rightarrow> [])"

definition target_path :: "'s disk \<Rightarrow> string \<Rightarrow> string \<Rightarrow> string" where
  "target_path D root_real nrm = path_join D root_real (split_on CHR ''/'' nrm)"

text \<open>The normalised names and the file identities of what the current release ships.\<close>

fun shipped_names :: "'s disk \<Rightarrow> (string, string) pydict \<Rightarrow> string list" where
  "shipped_names D [] = []"
| "shipped_names D ((k, v) # cur) = (case normalise_relpath k of
     Inl _ \<Rightarrow> shipped_names D cur | Inr n \<Rightarrow> dk_normcase D n # shipped_names D cur)"

fun shipped_ids :: "'s disk \<Rightarrow> 's \<Rightarrow> string \<Rightarrow> (string, string) pydict \<Rightarrow> (int \<times> int) list" where
  "shipped_ids D s base [] = []"
| "shipped_ids D s base ((k, v) # cur) = (case normalise_relpath k of
     Inl _ \<Rightarrow> shipped_ids D s base cur
   | Inr n \<Rightarrow> (case dk_stat D s (target_path D base n) of
        Some i \<Rightarrow> i # shipped_ids D s base cur | None \<Rightarrow> shipped_ids D s base cur))"

definition still_shipped :: "'s disk \<Rightarrow> (string, string) pydict \<Rightarrow> string \<Rightarrow> bool" where
  "still_shipped D cur rel = (case normalise_relpath rel of
     Inl _ \<Rightarrow> False | Inr n \<Rightarrow> dk_normcase D n \<in> set (shipped_names D cur))"

definition reclaim_candidates ::
  "'s disk \<Rightarrow> (string, string) pydict \<Rightarrow> (string, string) pydict \<Rightarrow> string list" where
  "reclaim_candidates D prev cur = filter (\<lambda>rel. \<not> still_shipped D cur rel) (sort (dkeys prev))"

text \<open>The digest an older manifest recorded, and \<^verbatim>\<open>^[0-9a-fA-F]{64}$\<close>.\<close>

definition recorded_digest :: "(string, string) pydict \<Rightarrow> string \<Rightarrow> string" where
  "recorded_digest prev rel = str_lower (str_strip (dget prev rel []))"

definition sha256_re :: "string \<Rightarrow> bool" where
  "sha256_re = before_end (run_of is_hexdigit 64 64)"

definition decide_candidate ::
  "'s disk \<Rightarrow> 's \<Rightarrow> string \<Rightarrow> (string, string) pydict \<Rightarrow> (int \<times> int) list \<Rightarrow> string \<Rightarrow> reclaim_action" where
  "decide_candidate D s base prev cur_ids rel =
     (let act = (\<lambda>v r p. \<lparr>ra_rel = rel, ra_verdict = v, ra_reason = r, ra_path = p\<rparr>) in
      case normalise_relpath rel of
        Inl e \<Rightarrow> act RRefused (UnsafePath e) None
      | Inr nrm \<Rightarrow>
          (case never_touch_reason nrm of
             Some r \<Rightarrow> act RRefused (NeverTouch r) None
           | None \<Rightarrow>
               (let target = target_path D base nrm; want = recorded_digest prev rel in
                if \<not> inside_root D base (dk_realpath D s target) then act RRefused OutsideRoot None
                else if dk_islink D s target then act RRefused IsSymlink (Some target)
                else if \<not> dk_exists D s target then act RAbsent AlreadyGone (Some target)
                else if \<not> dk_isfile D s target then act RRefused NotRegular (Some target)
                else if (case dk_stat D s target of Some i \<Rightarrow> i \<in> set cur_ids | None \<Rightarrow> False)
                then act RRefused StillShipped (Some target)
                else if \<not> sha256_re want then act RRefused NoDigest (Some target)
                else (case dk_sha256 D s target of
                    None \<Rightarrow> act RRefused Unreadable (Some target)
                  | Some have \<Rightarrow>
                      if str_lower have \<noteq> want then act RRefused Modified (Some target)
                      else act RWouldDelete Obsolete (Some target)))))"

text \<open>\<^verbatim>\<open>max(5, int(0.25 * n))\<close>\<close>

definition reclaim_ceiling :: "nat \<Rightarrow> nat" where
  "reclaim_ceiling n = max 5 (n div 4)"

definition plan_reclaim ::
  "'s disk \<Rightarrow> 's \<Rightarrow> string \<Rightarrow> (string, string) pydict \<Rightarrow> (string, string) pydict
    \<Rightarrow> string list \<times> reclaim_action list" where
  "plan_reclaim D s install_root prev cur =
     (let base = dk_realpath D s (dk_abspath D install_root);
          candidates = reclaim_candidates D prev cur in
      if reclaim_ceiling (length prev) < length candidates
      then (candidates, map (\<lambda>rel. \<lparr>ra_rel = rel, ra_verdict = RRefused, ra_reason = WholePass,
                                      ra_path = None\<rparr>) candidates)
      else (candidates,
            map (decide_candidate D s base prev (shipped_ids D s base cur)) candidates))"

subsection \<open>The pass\<close>

record reclaim_report =
  rr_mode :: reclaiming
  rr_actions :: "reclaim_action list"
  rr_candidates :: "string list"

definition report_of :: "reclaim_report \<Rightarrow> reclaim_verdict \<Rightarrow> string list" where
  "report_of r v = map ra_rel (filter (\<lambda>a. ra_verdict a = v) (rr_actions r))"

text \<open>One action of the plan, hashed again right before the removal.\<close>

definition carry_out ::
  "'s disk \<Rightarrow> (string, string) pydict \<Rightarrow> 's \<Rightarrow> reclaim_action \<Rightarrow> reclaim_action \<times> 's" where
  "carry_out D prev s a =
     (case (ra_verdict a, ra_path a) of
        (RWouldDelete, Some path) \<Rightarrow>
          (if map_option str_lower (dk_sha256 D s path) \<noteq> Some (recorded_digest prev (ra_rel a))
           then (a\<lparr>ra_verdict := RRefused, ra_reason := ChangedSince\<rparr>, s)
           else (case dk_remove D s path of
               (Inr _, s') \<Rightarrow> (a\<lparr>ra_verdict := RDelete, ra_reason := Removed\<rparr>, s')
             | (Inl _, s') \<Rightarrow> (a\<lparr>ra_verdict := RError, ra_reason := RemovalFailed\<rparr>, s')))
      | _ \<Rightarrow> (a, s))"

fun carry_out_all ::
  "'s disk \<Rightarrow> (string, string) pydict \<Rightarrow> 's \<Rightarrow> reclaim_action list \<Rightarrow> reclaim_action list \<times> 's" where
  "carry_out_all D prev s [] = ([], s)"
| "carry_out_all D prev s (a # as) =
     (case carry_out D prev s a of (a', s') \<Rightarrow>
        (case carry_out_all D prev s' as of (as', s'') \<Rightarrow> (a' # as', s'')))"

definition reclaim_obsolete_files ::
  "'s disk \<Rightarrow> 's \<Rightarrow> string \<Rightarrow> (string, string) pydict \<Rightarrow> (string, string) pydict \<Rightarrow> reclaiming
    \<Rightarrow> reclaim_report \<times> 's" where
  "reclaim_obsolete_files D s base prev cur mode =
     (if mode = ReclaimOff \<or> cur = [] then (\<lparr>rr_mode = mode, rr_actions = [], rr_candidates = []\<rparr>, s)
      else (case plan_reclaim D s base prev cur of (candidates, actions) \<Rightarrow>
        (case (if mode = ReclaimDelete then carry_out_all D prev s actions else (actions, s)) of
           (carried, s') \<Rightarrow>
             (\<lparr>rr_mode = mode, rr_actions = carried, rr_candidates = candidates\<rparr>, s'))))"

end
