(* ===== verification/Release_Update.thy ===== *)
theory Release_Update
  imports Release_Reclaim Merge_Arrays
begin

text \<open>
  The update itself, \<^verbatim>\<open>tools/self_update.py\<close>: the state file of the updater, the check that verifies a
  release, checks out its commit, reclaims, installs and restarts, and the startup sync with the
  replay floor, the configuration and the publish gate. Git, pip, the restart, the files and the
  network are operations on an outside state that the model takes as its parameter; what the updater
  asks of them is recorded in a trace. The texts of reasons are left to the parameter as well.
\<close>

subsection \<open>Outcomes\<close>

datatype update_action =
    UNoVersionFile | UDisabled | URateLimited | UVerifyFailed | UFetchFailed | UVersionParseFailed
  | UNotForward | UGitFetchFailed | UCheckoutUntracked | UCheckoutFailed | UGitError | UHeadMismatch
  | UApplied | UUnexpected

definition action_tag :: "update_action \<Rightarrow> string" where
  "action_tag a = (case a of
       UNoVersionFile \<Rightarrow> ''no-version-file'' | UDisabled \<Rightarrow> ''disabled'' | URateLimited \<Rightarrow> ''rate-limited''
     | UVerifyFailed \<Rightarrow> ''verify-failed'' | UFetchFailed \<Rightarrow> ''fetch-failed''
     | UVersionParseFailed \<Rightarrow> ''version-parse-failed'' | UNotForward \<Rightarrow> ''no-op-not-forward''
     | UGitFetchFailed \<Rightarrow> ''git-fetch-failed'' | UCheckoutUntracked \<Rightarrow> ''git-checkout-untracked''
     | UCheckoutFailed \<Rightarrow> ''git-checkout-failed'' | UGitError \<Rightarrow> ''git-error''
     | UHeadMismatch \<Rightarrow> ''head-mismatch'' | UApplied \<Rightarrow> ''applied'' | UUnexpected \<Rightarrow> ''unexpected-error'')"

definition BENIGN_ACTIONS :: "update_action list" where
  "BENIGN_ACTIONS = [UDisabled, URateLimited, UNotForward, UApplied]"

record update_result =
  ur_applied :: bool
  ur_action :: update_action
  ur_local :: "string option"
  ur_target :: "string option"
  ur_checked_out :: "string option"
  ur_pip_ran :: bool
  ur_manifest :: "json option"
  ur_fetch :: "manifest_fetch option"
  ur_blockers :: "string list"

definition update_failed :: "update_result \<Rightarrow> bool" where
  "update_failed r = (ur_action r \<notin> set BENIGN_ACTIONS)"

subsection \<open>The outside\<close>

record 's updater =
  up_disk :: "'s disk"
  up_root :: string
  up_version :: "'s \<Rightarrow> exn + string"
  up_dot_load :: "'s \<Rightarrow> json option"
  up_dot_store :: "'s \<Rightarrow> json \<Rightarrow> 's"
  up_git :: "'s \<Rightarrow> string list \<Rightarrow> (exn + int \<times> string) \<times> 's"
  up_requirements :: "'s \<Rightarrow> string option"
  up_pip :: "'s \<Rightarrow> (exn + int \<times> string) \<times> 's"
  up_reexec :: "'s \<Rightarrow> string list \<Rightarrow> (exn + unit) \<times> 's"
  up_fetch :: "'s \<Rightarrow> string \<Rightarrow> exn + string"
  up_loads :: "string \<Rightarrow> json option"
  up_nonfinite :: "json \<Rightarrow> xfloat"
  up_reason :: "update_result \<Rightarrow> string"

datatype effect =
    EGit "string list"
  | EPip
  | ERestart "string list"
  | EBanner update_action

record 's host =
  ho_world :: 's
  ho_env :: "(string, string) pydict"
  ho_trace :: "effect list"

definition emit :: "effect \<Rightarrow> 's host \<Rightarrow> 's host" where
  "emit e h = h\<lparr>ho_trace := ho_trace h @ [e]\<rparr>"

definition run_git :: "'s updater \<Rightarrow> string list \<Rightarrow> 's host \<Rightarrow> (exn + int \<times> string) \<times> 's host" where
  "run_git U args h = (case up_git U (ho_world h) args of
     (out, s) \<Rightarrow> (out, emit (EGit args) (h\<lparr>ho_world := s\<rparr>)))"

subsection \<open>The state file\<close>

text \<open>A missing or corrupt file reads as the empty object. A write that fails is swallowed by the code
  (\<^verbatim>\<open>_save_state\<close>), so \<open>up_dot_store\<close> returns the state also then; whether it took effect is what the
  parameter reads back afterwards.\<close>

definition load_state :: "'s updater \<Rightarrow> 's \<Rightarrow> (string, json) pydict" where
  "load_state U s = (case up_dot_load U s of Some (JObj d) \<Rightarrow> d | _ \<Rightarrow> [])"

definition save_state :: "'s updater \<Rightarrow> (string \<times> json) list \<Rightarrow> 's \<Rightarrow> 's" where
  "save_state U changes s =
     up_dot_store U s (JObj (foldl (\<lambda>d (k, v). dset k v d) (load_state U s) changes))"

definition load_last_check :: "'s updater \<Rightarrow> 's \<Rightarrow> xfloat" where
  "load_last_check U s = (let v = dget (load_state U s) ''last_check'' (JNum (Fin 0)) in
     case v of
       JInt n \<Rightarrow> (case xround (of_int n) of XFin q \<Rightarrow> XFin q | _ \<Rightarrow> XFin 0)
     | JNum NonFin \<Rightarrow> up_nonfinite U v
     | _ \<Rightarrow> (case jfloat v of Some (Fin q) \<Rightarrow> XFin q | _ \<Rightarrow> XFin 0))"

definition save_last_check :: "'s updater \<Rightarrow> rat \<Rightarrow> 's \<Rightarrow> 's" where
  "save_last_check U ts = save_state U [(''last_check'', JNum (Fin ts))]"

definition opt_str :: "string option \<Rightarrow> json" where
  "opt_str x = (case x of None \<Rightarrow> JNull | Some s \<Rightarrow> JStr s)"

definition result_state :: "'s updater \<Rightarrow> rat \<Rightarrow> update_result \<Rightarrow> json" where
  "result_state U now r = JObj
     [(''ts'', JNum (Fin now)), (''action'', JStr (action_tag (ur_action r))),
      (''applied'', JBool (ur_applied r)), (''local_version'', opt_str (ur_local r)),
      (''target_version'', opt_str (ur_target r)), (''checked_out'', opt_str (ur_checked_out r)),
      (''reason'', JStr (up_reason U r)), (''blockers'', JList (map JStr (ur_blockers r)))]"

definition LAST_UPDATE_KEY :: string where
  "LAST_UPDATE_KEY = ''last_update''"

definition record_attempt :: "'s updater \<Rightarrow> rat \<Rightarrow> update_result \<Rightarrow> 's \<Rightarrow> 's" where
  "record_attempt U now r = save_state U [(LAST_UPDATE_KEY, result_state U now r)]"

text \<open>\<^verbatim>\<open>_announce\<close>: record the attempt, and a banner when it failed.\<close>

definition announce :: "'s updater \<Rightarrow> rat \<Rightarrow> update_result \<Rightarrow> 's host \<Rightarrow> (exn + update_result) \<times> 's host" where
  "announce U now r h =
     (let h = h\<lparr>ho_world := record_attempt U now r (ho_world h)\<rparr> in
      (Inr r, if update_failed r then emit (EBanner (ur_action r)) h else h))"

text \<open>\<^verbatim>\<open>update_status\<close>, what the operator can ask for.\<close>

record status_report =
  us_version :: "exn + string"
  us_enabled :: bool
  us_last_check :: json
  us_last_update :: "json option"
  us_min_client :: json

definition FALSEY :: "string list" where
  "FALSEY = [''0'', ''false'', ''no'', ''off'', '''']"

definition env_enabled :: "(string, string) pydict \<Rightarrow> bool" where
  "env_enabled env = (str_lower (str_strip (dget env ''NEURAHASH_AUTOUPDATE'' ''1'')) \<notin> set FALSEY)"

definition update_status :: "'s updater \<Rightarrow> 's host \<Rightarrow> status_report" where
  "update_status U h =
     (let st = load_state U (ho_world h); last_one = dget st LAST_UPDATE_KEY JNull in
      \<lparr>us_version = read_local_version (up_version U (ho_world h)), us_enabled = env_enabled (ho_env h),
       us_last_check = dget st ''last_check'' JNull,
       us_last_update = (if json_object last_one then Some last_one else None),
       us_min_client = dget st ''min_client_version'' JNull\<rparr>)"

subsection \<open>Untracked files\<close>

definition UNTRACKED_MARKERS :: "string list" where
  "UNTRACKED_MARKERS = [''untracked working tree files would be overwritten'',
     ''untracked working tree files would be removed'']"

definition GIT_TAIL_MARKERS :: "string list" where
  "GIT_TAIL_MARKERS = [''please move or remove them'', ''aborting'', ''please commit your changes'']"

fun collect_blockers :: "bool \<Rightarrow> string list \<Rightarrow> string list" where
  "collect_blockers collecting [] = []"
| "collect_blockers collecting (raw # rest) =
     (let line = str_strip raw; low = str_lower line in
      if list_ex (\<lambda>m. contains m low) UNTRACKED_MARKERS then collect_blockers True rest
      else if \<not> collecting then collect_blockers collecting rest
      else if line = [] \<or> list_ex (\<lambda>m. starts_with m low) GIT_TAIL_MARKERS then []
      else if raw = [] \<or> (hd raw \<noteq> char_of (9 :: nat) \<and> hd raw \<noteq> CHR '' '') then []
      else line # collect_blockers collecting rest)"

definition untracked_blockers :: "string \<Rightarrow> string list" where
  "untracked_blockers out =
     (if list_ex (\<lambda>m. contains m (str_lower out)) UNTRACKED_MARKERS
      then collect_blockers False (splitlines out) else [])"

subsection \<open>The reclaim step of an update\<close>

definition str_map :: "world \<Rightarrow> json \<Rightarrow> (string, string) pydict" where
  "str_map W j = (case j of JObj kvs \<Rightarrow> map (\<lambda>(k, v). (k, str_of W v)) kvs | _ \<Rightarrow> [])"

definition reclaim_after_update ::
  "world \<Rightarrow> 's updater \<Rightarrow> json \<Rightarrow> string option \<Rightarrow> (string, string) pydict \<Rightarrow> 's \<Rightarrow> reclaim_report \<times> 's" where
  "reclaim_after_update W U m override env s =
     (let prev = str_map W (dget (load_state U s) ''shipped_files'' JNull);
          cur = manifest_files W m in
      case reclaim_obsolete_files (up_disk U) s (up_root U) prev cur (reclaim_mode env override) of
        (report, s') \<Rightarrow>
          (let ledger = foldl (\<lambda>d rel. dpop rel d) (foldl (\<lambda>d (k, v). dset k v d) prev cur)
                              (report_of report RDelete) in
           (report,
            if set ledger \<noteq> set prev
            then save_state U [(''shipped_files'', JObj (map (\<lambda>(k, v). (k, JStr v)) ledger))] s'
            else s')))"

subsection \<open>One check\<close>

definition obtain_manifest ::
  "world \<Rightarrow> 's updater \<Rightarrow> (string \<times> string) list \<Rightarrow> string \<Rightarrow> json option \<Rightarrow> 's
    \<Rightarrow> (update_action + json) \<times> manifest_fetch option" where
  "obtain_manifest W U mirrors pubkey supplied s =
     (case supplied of
        Some m \<Rightarrow> (case verify_manifest W m pubkey of
            Inl _ \<Rightarrow> (Inl UVerifyFailed, None) | Inr _ \<Rightarrow> (Inr m, None))
      | None \<Rightarrow>
          (let f = fetch_best_manifest W mirrors pubkey (up_fetch U s) (up_loads U) 0 in
           (case mf_manifest f of
              Some m \<Rightarrow> Inr m
            | None \<Rightarrow> Inl (if mf_any_parsed f then UVerifyFailed else UFetchFailed), Some f)))"

text \<open>Fetch and checkout: what failed, with the files that blocked it.\<close>

definition checkout_commit ::
  "'s updater \<Rightarrow> string \<Rightarrow> 's host \<Rightarrow> ((update_action \<times> string list) + unit) \<times> 's host" where
  "checkout_commit U commit h =
     (case run_git U [''fetch'', ''--quiet'', ''origin''] h of
        (Inl _, h1) \<Rightarrow> (Inl (UGitError, []), h1)
      | (Inr (rc, out), h1) \<Rightarrow>
          if rc \<noteq> 0 then (Inl (UGitFetchFailed, []), h1)
          else (case run_git U [''checkout'', ''--quiet'', commit] h1 of
              (Inl _, h2) \<Rightarrow> (Inl (UGitError, []), h2)
            | (Inr (rc, out), h2) \<Rightarrow>
                if rc \<noteq> 0 then
                  (let blockers = untracked_blockers out in
                   (Inl (if blockers \<noteq> [] then UCheckoutUntracked else UCheckoutFailed, blockers), h2))
                else (Inr (), h2)))"

text \<open>The tree must now be the signed commit; otherwise the previous one is restored, best effort.\<close>

definition head_is :: "'s updater \<Rightarrow> string \<Rightarrow> 's host \<Rightarrow> bool \<times> 's host" where
  "head_is U commit h =
     (case run_git U [''rev-parse'', ''HEAD''] h of
        (Inr (rc, out), h1) \<Rightarrow>
          if rc \<noteq> 0 \<or> str_lower (str_strip out) \<noteq> str_lower commit
          then (False, snd (run_git U [''checkout'', ''--quiet'', ''-''] h1))
          else (True, h1)
      | (Inl _, h1) \<Rightarrow> (False, snd (run_git U [''checkout'', ''--quiet'', ''-''] h1)))"

definition install_requirements :: "'s updater \<Rightarrow> string option \<Rightarrow> 's host \<Rightarrow> bool \<times> 's host" where
  "install_requirements U before h =
     (case up_requirements U (ho_world h) of
        Some after \<Rightarrow>
          if after \<noteq> [] \<and> Some after \<noteq> before then
            (case up_pip U (ho_world h) of
               (out, s) \<Rightarrow> (case out of Inl _ \<Rightarrow> False | Inr _ \<Rightarrow> True, emit EPip (h\<lparr>ho_world := s\<rparr>)))
          else (False, h)
      | None \<Rightarrow> (False, h))"

definition apply_release ::
  "world \<Rightarrow> 's updater \<Rightarrow> string list \<Rightarrow> rat \<Rightarrow> string option \<Rightarrow> update_result \<Rightarrow> json \<Rightarrow> 's host
    \<Rightarrow> (exn + update_result) \<times> 's host" where
  "apply_release W U argv now reclaim r m h =
     (let commit = str_of W (mget m ''git_commit''); before = up_requirements U (ho_world h) in
      case checkout_commit U commit h of
        (Inl (action, blockers), h1) \<Rightarrow> announce U now (r\<lparr>ur_action := action, ur_blockers := blockers\<rparr>) h1
      | (Inr _, h1) \<Rightarrow>
          (case head_is U commit h1 of
             (False, h2) \<Rightarrow> announce U now (r\<lparr>ur_action := UHeadMismatch\<rparr>) h2
           | (True, h2) \<Rightarrow>
               (case reclaim_after_update W U m reclaim (ho_env h2) (ho_world h2) of (_, s3) \<Rightarrow>
               (case install_requirements U before (h2\<lparr>ho_world := s3\<rparr>) of (piped, h4) \<Rightarrow>
               (case announce U now (r\<lparr>ur_applied := True, ur_action := UApplied,
                                        ur_checked_out := Some commit, ur_pip_ran := piped\<rparr>) h4 of
                  (result, h5) \<Rightarrow>
                    (case up_reexec U (ho_world h5) argv of
                       (Inl e, s6) \<Rightarrow> (Inl e, emit (ERestart argv) (h5\<lparr>ho_world := s6\<rparr>))
                     | (Inr _, s6) \<Rightarrow> (result, emit (ERestart argv) (h5\<lparr>ho_world := s6\<rparr>))))))))"

definition base_result :: "update_action \<Rightarrow> string option \<Rightarrow> json option \<Rightarrow> update_result" where
  "base_result action lv m =
     \<lparr>ur_applied = False, ur_action = action, ur_local = lv, ur_target = None, ur_checked_out = None,
      ur_pip_ran = False, ur_manifest = m, ur_fetch = None, ur_blockers = []\<rparr>"

text \<open>The age of the last check; its text overflows on an infinite age.\<close>

definition rate_limited :: "xfloat \<Rightarrow> rat \<Rightarrow> rat \<Rightarrow> exn + bool" where
  "rate_limited last_check now limit =
     (let age = xsub (XFin now) last_check in
      if xless age (XFin limit) then (case age of XFin _ \<Rightarrow> Inr True | _ \<Rightarrow> Inl OverflowError)
      else Inr False)"

definition check_release ::
  "world \<Rightarrow> 's updater \<Rightarrow> string list \<Rightarrow> (string \<times> string) list \<Rightarrow> string \<Rightarrow> rat \<Rightarrow> json option \<Rightarrow> string option
    \<Rightarrow> string \<Rightarrow> 's host \<Rightarrow> (exn + update_result) \<times> 's host" where
  "check_release W U argv mirrors pubkey now supplied reclaim lv h =
     (case obtain_manifest W U mirrors pubkey supplied (ho_world h) of
        (Inl action, f) \<Rightarrow> announce U now ((base_result action (Some lv) None)\<lparr>ur_fetch := f\<rparr>) h
      | (Inr m, f) \<Rightarrow>
          (let target = release_version W m;
               r = (base_result UNotForward (Some lv) (Some m))\<lparr>ur_target := Some target, ur_fetch := f\<rparr> in
           case is_forward target lv of
             Inl _ \<Rightarrow> announce U now (r\<lparr>ur_action := UVersionParseFailed\<rparr>) h
           | Inr False \<Rightarrow> announce U now r h
           | Inr True \<Rightarrow> apply_release W U argv now reclaim r m h))"

definition check_and_update ::
  "world \<Rightarrow> 's updater \<Rightarrow> string list \<Rightarrow> (string \<times> string) list \<Rightarrow> string \<Rightarrow> bool \<Rightarrow> rat \<Rightarrow> rat \<Rightarrow> bool
    \<Rightarrow> json option \<Rightarrow> string option \<Rightarrow> 's host \<Rightarrow> (exn + update_result) \<times> 's host" where
  "check_and_update W U argv mirrors pubkey enabled limit now honor supplied reclaim h =
     (case read_local_version (up_version U (ho_world h)) of
        Inl _ \<Rightarrow> announce U now (base_result UNoVersionFile None supplied) h
      | Inr lv \<Rightarrow>
          if \<not> enabled then (Inr (base_result UDisabled (Some lv) supplied), h)
          else (case (if honor then rate_limited (load_last_check U (ho_world h)) now limit else Inr False) of
              Inl e \<Rightarrow> (Inl e, h)
            | Inr True \<Rightarrow> (Inr (base_result URateLimited (Some lv) supplied), h)
            | Inr False \<Rightarrow>
                check_release W U argv mirrors pubkey now supplied reclaim lv
                  (h\<lparr>ho_world := save_last_check U now (ho_world h)\<rparr>)))"

subsection \<open>The startup sync\<close>

record sync_result =
  sy_update :: "update_result option"
  sy_fetch :: "manifest_fetch option"
  sy_manifest :: "json option"
  sy_applied :: "(string \<times> string) list"
  sy_ignored :: "ignored list"
  sy_block :: "publish_block option"
  sy_local :: "string option"

definition empty_sync :: sync_result where
  "empty_sync = \<lparr>sy_update = None, sy_fetch = None, sy_manifest = None, sy_applied = [], sy_ignored = [],
     sy_block = None, sy_local = None\<rparr>"

text \<open>\<^verbatim>\<open>int(st.get("manifest_floor_ts") or 0)\<close>, zero where it raises.\<close>

definition manifest_floor :: "(string, json) pydict \<Rightarrow> int" where
  "manifest_floor st = (let v = dget st ''manifest_floor_ts'' JNull in
     if truthy v then (case jint v of Some n \<Rightarrow> n | None \<Rightarrow> 0) else 0)"

definition sync_verified ::
  "world \<Rightarrow> 's updater \<Rightarrow> int \<Rightarrow> manifest_fetch \<Rightarrow> json \<Rightarrow> string option \<Rightarrow> update_result \<Rightarrow> 's host
    \<Rightarrow> sync_result \<times> 's host" where
  "sync_verified W U floor_ts f m lv upd h =
     (let h = h\<lparr>ho_world := save_state U
                [(''manifest_floor_ts'', JInt (max floor_ts (published_ts m))),
                 (''min_client_version'', mget m ''min_client_version'')] (ho_world h)\<rparr>;
          config = mget m ''config'';
          run = apply_manifest_config (if truthy config then config else JObj []) (ho_env h) in
      (\<lparr>sy_update = Some (upd\<lparr>ur_fetch := Some f\<rparr>), sy_fetch = Some f, sy_manifest = Some m,
        sy_applied = cr_applied run, sy_ignored = cr_ignored run,
        sy_block = publish_block_reason W m lv, sy_local = lv\<rparr>,
       h\<lparr>ho_env := cr_env run\<rparr>))"

text \<open>\<^verbatim>\<open>sync_from_manifest\<close>. The exception of a restart passes; any other ends the sync with a banner.\<close>

definition sync_from_manifest ::
  "world \<Rightarrow> 's updater \<Rightarrow> string list \<Rightarrow> (string \<times> string) list \<Rightarrow> string \<Rightarrow> bool \<Rightarrow> bool \<Rightarrow> rat \<Rightarrow> rat
    \<Rightarrow> string option \<Rightarrow> 's host \<Rightarrow> (exn + sync_result) \<times> 's host" where
  "sync_from_manifest W U argv mirrors pubkey startup enabled limit now reclaim h =
     (let lv = (case read_local_version (up_version U (ho_world h)) of Inl _ \<Rightarrow> None | Inr v \<Rightarrow> Some v) in
      if \<not> enabled then (Inr (empty_sync\<lparr>sy_local := lv\<rparr>), h)
      else
        (let st = load_state U (ho_world h);
             floor_ts = manifest_floor st;
             f = fetch_best_manifest W (if mirrors = [] then MIRRORS else mirrors) pubkey
                   (up_fetch U (ho_world h)) (up_loads U) floor_ts in
         case mf_manifest f of
           None \<Rightarrow>
             (Inr (empty_sync\<lparr>sy_fetch := Some f, sy_local := lv,
                sy_block := publish_block_reason W
                  (JObj [(''min_client_version'', dget st ''min_client_version'' JNull)]) lv\<rparr>), h)
         | Some m \<Rightarrow>
             (case check_and_update W U argv mirrors pubkey enabled limit now (\<not> startup) (Some m)
                     reclaim h of
                (Inl (SystemExit c), h1) \<Rightarrow> (Inl (SystemExit c), h1)
              | (Inl _, h1) \<Rightarrow> (Inr empty_sync, emit (EBanner UUnexpected) h1)
              | (Inr upd, h1) \<Rightarrow>
                  (case sync_verified W U floor_ts f m lv upd h1 of (res, h2) \<Rightarrow> (Inr res, h2)))))"

text \<open>\<^verbatim>\<open>maybe_auto_update\<close> never lets an error out, save the exit of a restart.\<close>

definition maybe_auto_update ::
  "world \<Rightarrow> 's updater \<Rightarrow> string list \<Rightarrow> rat \<Rightarrow> 's host \<Rightarrow> (exn + update_result) \<times> 's host" where
  "maybe_auto_update W U argv now h =
     (case check_and_update W U argv MIRRORS PINNED_RELEASE_PUBKEY (env_enabled (ho_env h)) 21600 now True
             None None h of
        (Inl (SystemExit c), h1) \<Rightarrow> (Inl (SystemExit c), h1)
      | (Inl _, h1) \<Rightarrow> announce U now (base_result UUnexpected None None) h1
      | (Inr r, h1) \<Rightarrow> (Inr r, h1))"

end
