(* ===== verification/Release_Facts.thy ===== *)
theory Release_Facts
  imports Release_Update
begin

text \<open>
  The lemmas of the release tools: what a verified manifest is, which manifest the mirror loop picks,
  what the configuration may change, which operations an update performs, and what the reclaim pass
  removes.
\<close>

subsection \<open>Versions\<close>

definition version_of :: "world \<Rightarrow> json \<Rightarrow> int list" where
  "version_of W m = projr (parse_version (release_version W m))"

lemma is_forward_Inr: "is_forward n c = Inr b \<longleftrightarrow>
    (\<exists>x y. parse_version n = Inr x \<and> parse_version c = Inr y \<and> b = (y < x))"
  by (auto simp: is_forward_def bindE_Inr_iff)

subsection \<open>Verified manifests\<close>

definition verified :: "world \<Rightarrow> string \<Rightarrow> json \<Rightarrow> bool" where
  "verified W pubkey m = (\<not> isl (verify_manifest W m pubkey))"

lemma field_error_None:
  assumes "field_error W m = None"
  shows "\<exists>kvs. m = JObj kvs" "commit_re (str_of W (mget m ''git_commit''))"
    "\<exists>v. parse_version (release_version W m) = Inr v"
proof -
  note d = assms [unfolded field_error_def]
  show "\<exists>kvs. m = JObj kvs" using d by (cases m) (auto split: if_splits)
  show "commit_re (str_of W (mget m ''git_commit''))" using d by (auto split: if_splits option.splits)
  have "\<not> isl (parse_version (str_of W (mget m ''version'')))" using d by (auto split: if_splits option.splits)
  then show "\<exists>v. parse_version (release_version W m) = Inr v"
    by (cases "parse_version (str_of W (mget m ''version''))") (simp_all add: release_version_def)
qed

lemma verify_Inr:
  assumes "verify_manifest W m pubkey = Inr r"
  shows "field_error W m = None"
    "\<exists>sig data. mget m ''signature'' = JStr sig \<and> canonical_manifest_bytes W m = Inr data
        \<and> recover_bytes W data sig = Inr r"
    "str_lower r = str_lower pubkey"
proof -
  note d = assms [unfolded verify_manifest_def]
  show f: "field_error W m = None" using d by (auto split: option.splits)
  have s: "signature_text j = Some sig \<Longrightarrow> j = JStr sig" for j sig
    by (cases j) (auto split: if_splits)
  show "\<exists>sig data. mget m ''signature'' = JStr sig \<and> canonical_manifest_bytes W m = Inr data
        \<and> recover_bytes W data sig = Inr r"
    using d by (auto simp: f split: option.splits sum.splits if_splits dest!: s)
  show "str_lower r = str_lower pubkey"
    using d by (auto simp: f split: option.splits sum.splits if_splits)
qed

lemma verifiedE:
  assumes "verified W pubkey m"
  obtains r where "verify_manifest W m pubkey = Inr r"
  using assms by (cases "verify_manifest W m pubkey") (auto simp: verified_def)

lemma verified_version:
  assumes "verified W pubkey m"
  shows "parse_version (release_version W m) = Inr (version_of W m)"
proof -
  obtain r where "verify_manifest W m pubkey = Inr r" using assms by (rule verifiedE)
  then obtain v where "parse_version (release_version W m) = Inr v"
    using field_error_None(3) [OF verify_Inr(1)] by blast
  then show ?thesis by (simp add: version_of_def)
qed

subsection \<open>The mirror loop\<close>

definition usable :: "world \<Rightarrow> string \<Rightarrow> int \<Rightarrow> json \<Rightarrow> bool" where
  "usable W pubkey floor_ts m = (verified W pubkey m \<and> \<not> (floor_ts \<noteq> 0 \<and> published_ts m < floor_ts))"

definition served :: "(string \<Rightarrow> exn + string) \<Rightarrow> (string \<Rightarrow> json option) \<Rightarrow> string \<times> string \<Rightarrow> json option" where
  "served fetch loads mirror = (case fetch (snd mirror) of Inl _ \<Rightarrow> None | Inr text \<Rightarrow> loads text)"

definition usable_releases ::
  "world \<Rightarrow> string \<Rightarrow> (string \<Rightarrow> exn + string) \<Rightarrow> (string \<Rightarrow> json option) \<Rightarrow> int \<Rightarrow> (string \<times> string) list
    \<Rightarrow> json list" where
  "usable_releases W pubkey fetch loads floor_ts mirrors =
     filter (usable W pubkey floor_ts) (List.map_filter (served fetch loads) mirrors)"

text \<open>The first of the highest versions.\<close>

definition best_of :: "world \<Rightarrow> json list \<Rightarrow> json \<Rightarrow> bool" where
  "best_of W ms m \<longleftrightarrow> (\<exists>xs ys. ms = xs @ m # ys
     \<and> (\<forall>x \<in> set xs. version_of W x < version_of W m)
     \<and> (\<forall>y \<in> set ys. version_of W y \<le> version_of W m))"

lemma best_of_snoc_keep: "best_of W ms b \<Longrightarrow> version_of W m \<le> version_of W b \<Longrightarrow> best_of W (ms @ [m]) b"
  unfolding best_of_def by (elim exE conjE, rule exI, rule_tac x = "ys @ [m]" in exI) auto

lemma best_of_snoc_new: "best_of W ms b \<Longrightarrow> version_of W b < version_of W m \<Longrightarrow> best_of W (ms @ [m]) m"
  unfolding best_of_def
  by (elim exE conjE, rule_tac x = ms in exI, rule_tac x = "[]" in exI)
    (auto intro: less_trans le_less_trans)

lemma best_of_single: "best_of W [m] m"
  unfolding best_of_def by (rule exI [of _ "[]"], rule exI [of _ "[]"]) simp

lemma best_of_member: "best_of W ms m \<Longrightarrow> m \<in> set ms"
  by (auto simp: best_of_def)

lemma usable_releases_snoc:
  "usable_releases W k fetch loads f (ms @ [x]) = usable_releases W k fetch loads f ms
     @ (case served fetch loads x of None \<Rightarrow> [] | Some m \<Rightarrow> if usable W k f m then [m] else [])"
  by (simp add: usable_releases_def List.map_filter_def split: option.splits)

lemma best_step:
  assumes "case mf_manifest acc of None \<Rightarrow> ms = [] | Some b \<Rightarrow> best_of W ms b"
    and "\<And>b. b \<in> set ms \<Longrightarrow> verified W k b"
  shows "case mf_manifest (try_mirror W k fetch loads f acc x) of
      None \<Rightarrow> ms @ (case served fetch loads x of None \<Rightarrow> [] | Some m \<Rightarrow> if usable W k f m then [m] else []) = []
    | Some b \<Rightarrow>
        best_of W (ms @ (case served fetch loads x of None \<Rightarrow> [] | Some m \<Rightarrow> if usable W k f m then [m] else [])) b"
proof (cases "served fetch loads x")
  case None
  then show ?thesis using assms(1)
    by (auto simp: served_def try_mirror_def Let_def split: prod.splits sum.splits option.splits)
next
  case (Some m)
  obtain name url where x: "x = (name, url)" by (cases x)
  obtain body where body: "fetch url = Inr body" "loads body = Some m"
    using Some by (auto simp: served_def x split: sum.splits)
  show ?thesis
  proof (cases "usable W k f m")
    case False
    then have "mf_manifest (try_mirror W k fetch loads f acc x) = mf_manifest acc"
      by (cases "verify_manifest W m k")
        (auto simp: try_mirror_def x body Let_def usable_def verified_def)
    with assms(1) Some False show ?thesis by (cases "mf_manifest acc") simp_all
  next
    case True
    then obtain r where r: "verify_manifest W m k = Inr r" by (auto simp: usable_def elim: verifiedE)
    have v: "parse_version (release_version W m) = Inr (version_of W m)"
      using True by (intro verified_version [of W k]) (simp add: usable_def)
    have f: "\<not> (f \<noteq> 0 \<and> published_ts m < f)" using True by (simp add: usable_def)
    show ?thesis
    proof (cases "mf_manifest acc")
      case None
      then have "mf_manifest (try_mirror W k fetch loads f acc x) = Some m"
        using f by (simp add: try_mirror_def x body r Let_def)
      with None Some True assms(1) show ?thesis by (simp add: best_of_single)
    next
      case (Some b)
      then have b: "best_of W ms b" using assms(1) by simp
      then have "parse_version (release_version W b) = Inr (version_of W b)"
        by (intro verified_version [of W k] assms(2) best_of_member)
      then have "is_forward (release_version W m) (release_version W b) = Inr (version_of W b < version_of W m)"
        by (simp add: is_forward_def v)
      then have "mf_manifest (try_mirror W k fetch loads f acc x)
          = Some (if version_of W b < version_of W m then m else b)"
        using f Some by (auto simp: try_mirror_def x body r Let_def)
      with b True \<open>served fetch loads x = Some m\<close> show ?thesis
        by (cases "version_of W b < version_of W m") (auto simp: not_less intro: best_of_snoc_keep best_of_snoc_new)
    qed
  qed
qed

lemma fetch_best:
  "case mf_manifest (fetch_best_manifest W mirrors k fetch loads f) of
     None \<Rightarrow> usable_releases W k fetch loads f mirrors = []
   | Some m \<Rightarrow> best_of W (usable_releases W k fetch loads f mirrors) m"
proof (induction mirrors rule: rev_induct)
  case Nil
  then show ?case by (simp add: fetch_best_manifest_def empty_fetch_def usable_releases_def List.map_filter_def)
next
  case (snoc x xs)
  have ver: "\<And>b. b \<in> set (usable_releases W k fetch loads f xs) \<Longrightarrow> verified W k b"
    by (simp add: usable_releases_def usable_def)
  have "fetch_best_manifest W (xs @ [x]) k fetch loads f
      = try_mirror W k fetch loads f (fetch_best_manifest W xs k fetch loads f) x"
    by (simp add: fetch_best_manifest_def)
  with best_step [OF snoc ver, where fetch = fetch and loads = loads and f = f and x = x] show ?case
    by (simp only: usable_releases_snoc)
qed

lemma fetched_usable:
  assumes "mf_manifest (fetch_best_manifest W mirrors k fetch loads f) = Some m"
  shows "usable W k f m"
proof -
  have "best_of W (usable_releases W k fetch loads f mirrors) m"
    using fetch_best [where W = W and k = k and mirrors = mirrors and fetch = fetch and loads = loads and f = f] assms by simp
  then have "m \<in> set (usable_releases W k fetch loads f mirrors)" by (rule best_of_member)
  then show ?thesis by (simp add: usable_releases_def)
qed


subsection \<open>The configuration\<close>

definition config_names :: "string list" where
  "config_names = map (\<lambda>(k, n, v). n) (CONFIG_ALLOWLIST @ PROTOCOL_ALLOWLIST)"

definition safe_value :: "string \<Rightarrow> bool" where
  "safe_value x = (x \<noteq> [] \<and> list_all url_char x)"

text \<open>What holds between the environment before and after any number of items.\<close>

definition config_ok :: "(string, string) pydict \<Rightarrow> config_run \<Rightarrow> bool" where
  "config_ok env r \<longleftrightarrow>
     (\<forall>n. str_strip (dget env n []) \<noteq> [] \<longrightarrow> map_of (cr_env r) n = map_of env n)
   \<and> (\<forall>n. map_of (cr_env r) n \<noteq> map_of env n \<longrightarrow>
        n \<in> set config_names \<and> (\<exists>x. map_of (cr_env r) n = Some x \<and> safe_value x))"

lemma last_strip: "str_strip s \<noteq> [] \<Longrightarrow> \<not> is_space (last (str_strip s))"
  unfolding str_strip_def last_rev by (metis hd_dropWhile rev_is_Nil_conv)

lemma before_end_strip: "before_end r (str_strip s) = r (str_strip s)"
proof -
  have "is_space newline" by (simp add: is_space_def newline_def)
  then show ?thesis using last_strip [of s] by (auto simp: before_end_def)
qed

lemma url_chars: "list_all url_char ''http://''" "list_all url_char ''https://''" "url_char CHR ''0''" "url_char CHR ''1''"
  by (simp_all add: url_char_def is_alnum_def is_alpha_def is_digit_def)

lemma starts_with_split: "starts_with p s \<Longrightarrow> s = p @ drop (length p) s"
  unfolding starts_with_def by (metis append_take_drop_id)

lemma prefixed_safe:
  assumes "starts_with p s" "length p = n" "list_all url_char p" "p \<noteq> []" "list_all url_char (drop n s)"
  shows "safe_value s"
proof -
  have "s = p @ drop n s" using starts_with_split [OF assms(1)] assms(2) by simp
  with assms show ?thesis unfolding safe_value_def by (metis Nil_is_append_conv list_all_append)
qed

lemma url_safe: "url_re s \<Longrightarrow> safe_value s"
  using prefixed_safe [OF _ _ url_chars(1), where n = 7] prefixed_safe [OF _ _ url_chars(2), where n = 8]
  by (auto simp: url_re_def run_of_def)

lemma hexdigit_url: "is_hexdigit c \<Longrightarrow> url_char (char_lower c)"
proof -
  assume "is_hexdigit c"
  then consider "is_digit c" | "c \<in> set ''abcdef''" | "c \<in> set ''ABCDEF''" by (auto simp: is_hexdigit_def)
  then show ?thesis
  proof cases
    case 1
    then have "char_lower c = c" by (auto simp: is_digit_def char_lower_def Let_def)
    with 1 show ?thesis by (simp add: url_char_def is_alnum_def)
  qed (auto simp: char_lower_def url_char_def is_alnum_def is_alpha_def)
qed

lemma validated_safe: "validate_value v raw = Some x \<Longrightarrow> safe_value x"
proof (cases v)
  case V_url
  assume "validate_value v raw = Some x"
  then show ?thesis
    by (auto simp: V_url v_text_def before_end_strip split: json.splits if_splits intro: url_safe)
next
  case V_hex
  assume "validate_value v raw = Some x"
  then show ?thesis
    by (auto simp: V_hex v_text_def before_end_strip hex_re_def run_of_def safe_value_def str_lower_def
        list_all_iff hexdigit_url split: json.splits if_splits)
next
  case V_tag
  assume "validate_value v raw = Some x"
  then obtain c cs where "x = c # cs" "tag_re x"
    by (auto simp: V_tag v_text_def before_end_strip tag_re_def split: json.splits if_splits list.splits)
  moreover have "is_alnum d \<or> d \<in> set ''._-'' \<Longrightarrow> url_char d" for d by (auto simp: url_char_def)
  ultimately show ?thesis
    unfolding tag_re_def run_of_def safe_value_def list_all_iff by (simp split del: if_split)
next
  case V_bool
  assume "validate_value v raw = Some x"
  then show ?thesis by (cases raw) (auto simp: V_bool safe_value_def url_chars split: if_splits)
qed

lemma apply_one_ok:
  assumes "config_ok env r" "name \<in> set config_names"
  shows "config_ok env (apply_one r name v raw label)"
proof -
  have "config_ok env (r\<lparr>cr_env := dset name x (cr_env r), cr_applied := a\<rparr>)"
    if "validate_value v raw = Some x" "str_strip (dget (cr_env r) name []) = []" for x a
    unfolding config_ok_def
  proof (intro conjI allI impI, goal_cases)
    case (1 n)
    then have "map_of (cr_env r) n = map_of env n" using assms(1) by (simp add: config_ok_def)
    moreover from this 1 that(2) have "n \<noteq> name" by (auto simp: dget_def)
    ultimately show ?case by (simp add: map_of_dset)
  next
    case (2 n)
    show ?case
    proof (cases "n = name")
      case True
      then show ?thesis using assms(2) by (simp add: map_of_dset)
    next
      case False
      then show ?thesis using assms(1) 2 by (simp add: config_ok_def map_of_dset)
    qed
  next
    case (3 n)
    show ?case
    proof (cases "n = name")
      case True
      then show ?thesis using validated_safe [OF that(1)] by (simp add: map_of_dset)
    next
      case False
      then show ?thesis using assms(1) 3 by (simp add: config_ok_def map_of_dset)
    qed
  qed
  moreover have "config_ok env (r\<lparr>cr_ignored := i\<rparr>)" for i using assms(1) by (simp add: config_ok_def)
  ultimately show ?thesis by (simp add: apply_one_def split: option.split)
qed

lemma listed_name: "map_of allow key = Some (name, v) \<Longrightarrow> name \<in> (\<lambda>(k, n, v). n) ` set allow"
  by (force dest: map_of_SomeD)

lemma apply_listed_ok:
  assumes "config_ok env r" "(\<lambda>(k, n, v). n) ` set allow \<subseteq> set config_names"
  shows "config_ok env (apply_listed allow label r item)"
proof -
  have "config_ok env (r\<lparr>cr_ignored := i\<rparr>)" for i using assms(1) by (simp add: config_ok_def)
  then show ?thesis
    using assms listed_name [of allow]
    by (auto simp: apply_listed_def intro!: apply_one_ok split: prod.split option.split)
qed

lemma listed_names: "(\<lambda>(k, n, v). n) ` set CONFIG_ALLOWLIST \<subseteq> set config_names"
    "(\<lambda>(k, n, v). n) ` set PROTOCOL_ALLOWLIST \<subseteq> set config_names"
  by (simp_all add: config_names_def)

interpretation listed_steps: keeps_invariant "apply_listed PROTOCOL_ALLOWLIST label" "config_ok env" for label env
  by unfold_locales (rule apply_listed_ok [OF _ listed_names(2)])

lemma apply_item_ok: "config_ok env r \<Longrightarrow> config_ok env (apply_item r item)"
proof -
  assume ok: "config_ok env r"
  have "config_ok env (r\<lparr>cr_ignored := i\<rparr>)" for i using ok by (simp add: config_ok_def)
  then show ?thesis
    using ok apply_listed_ok [OF ok listed_names(1)] listed_steps.run_inv [OF ok]
    by (auto simp: apply_item_def split: prod.split json.split)
qed

interpretation config_steps: keeps_invariant apply_item "config_ok env" for env
  by unfold_locales (rule apply_item_ok)

lemma config_applied_ok: "config_ok env (apply_manifest_config config env)"
proof -
  have "config_ok env \<lparr>cr_env = env, cr_applied = a, cr_ignored = i\<rparr>" for a i by (simp add: config_ok_def)
  then show ?thesis
    by (cases config) (auto simp: apply_manifest_config_def Let_def intro: config_steps.run_inv)
qed

subsection \<open>What an update does\<close>

definition is_banner :: "effect \<Rightarrow> bool" where
  "is_banner e = (case e of EBanner _ \<Rightarrow> True | _ \<Rightarrow> False)"

definition manifest_commit :: "world \<Rightarrow> json \<Rightarrow> string" where
  "manifest_commit W m = str_of W (mget m ''git_commit'')"

text \<open>The operations asked of the outside, in their order; banners are only printed.\<close>

definition asked :: "'s host \<Rightarrow> effect list" where
  "asked h = filter (\<lambda>e. \<not> is_banner e) (ho_trace h)"

text \<open>Git returned zero, and it named the commit as the head of the tree.\<close>

definition git_ok :: "exn + int \<times> string \<Rightarrow> bool" where
  "git_ok out = (case out of Inl _ \<Rightarrow> False | Inr (rc, _) \<Rightarrow> rc = 0)"

definition git_names :: "string \<Rightarrow> exn + int \<times> string \<Rightarrow> bool" where
  "git_names commit out = (case out of Inl _ \<Rightarrow> False
     | Inr (rc, text) \<Rightarrow> rc = 0 \<and> str_lower (str_strip text) = str_lower commit)"

text \<open>Everything an update to a commit asks for, in its order, from the state it starts in: the head is
  read in the state the checkout left.\<close>

definition update_sequence :: "'s updater \<Rightarrow> string \<Rightarrow> string list \<Rightarrow> bool \<Rightarrow> 's \<Rightarrow> effect list" where
  "update_sequence U commit argv pip s =
     (let fetch = [''fetch'', ''--quiet'', ''origin'']; checkout = [''checkout'', ''--quiet'', commit];
          head = [''rev-parse'', ''HEAD''];
          (fetched, s1) = up_git U s fetch; (moved, s2) = up_git U s1 checkout; (named, s3) = up_git U s2 head in
      if \<not> git_ok fetched then [EGit fetch]
      else if \<not> git_ok moved then [EGit fetch, EGit checkout]
      else if \<not> git_names commit named
        then [EGit fetch, EGit checkout, EGit head, EGit [''checkout'', ''--quiet'', ''-'']]
      else [EGit fetch, EGit checkout, EGit head] @ (if pip then [EPip] else []) @ [ERestart argv])"

lemma asked_emit [simp]: "asked (emit e h) = asked h @ (if is_banner e then [] else [e])"
  by (simp add: asked_def emit_def)

lemma asked_world [simp]: "asked (h\<lparr>ho_world := s\<rparr>) = asked h" "asked (h\<lparr>ho_env := e\<rparr>) = asked h"
  by (simp_all add: asked_def)

lemma not_banner [simp]: "\<not> is_banner (EGit a)" "\<not> is_banner EPip" "\<not> is_banner (ERestart v)" "is_banner (EBanner u)"
  by (simp_all add: is_banner_def)

lemma emit_world [simp]: "ho_world (emit e h) = ho_world h" "ho_env (emit e h) = ho_env h"
  by (simp_all add: emit_def)

lemma asked_run_git [simp]: "asked (snd (run_git U args h)) = asked h @ [EGit args]"
  by (simp add: run_git_def split: prod.split)

lemma run_git_result [simp]: "fst (run_git U args h) = fst (up_git U (ho_world h) args)"
    "ho_world (snd (run_git U args h)) = snd (up_git U (ho_world h) args)"
  by (simp_all add: run_git_def split: prod.split)

lemma asked_announce [simp]: "asked (snd (announce U now r h)) = asked h"
  by (simp add: announce_def Let_def)

lemma announce_result [simp]: "fst (announce U now r h) = Inr r"
  by (simp add: announce_def Let_def)

lemma asked_install: "\<exists>pip. asked (snd (install_requirements U before h)) = asked h @ (if pip then [EPip] else [])"
  by (rule exI [of _ "asked (snd (install_requirements U before h)) \<noteq> asked h"])
    (auto simp: install_requirements_def split: option.split prod.split)

text \<open>The two git stages.\<close>

lemma checkout_asks:
  fixes U :: "'s updater"
  assumes "checkout_commit U c h = (out, h')" "up_git U (ho_world h) [''fetch'', ''--quiet'', ''origin''] = (fetched, s1)"
    "up_git U s1 [''checkout'', ''--quiet'', c] = (moved, s2)"
  shows "asked h' = asked h @ EGit [''fetch'', ''--quiet'', ''origin'']
           # (if git_ok fetched then [EGit [''checkout'', ''--quiet'', c]] else [])
       \<and> (case out of Inl _ \<Rightarrow> \<not> (git_ok fetched \<and> git_ok moved)
          | Inr _ \<Rightarrow> git_ok fetched \<and> git_ok moved \<and> ho_world h' = s2)"
  using assms
  by (auto simp: checkout_commit_def run_git_def git_ok_def Let_def split: sum.splits if_splits)

lemma head_asks:
  assumes "head_is U c h = (ok, h')" "up_git U (ho_world h) [''rev-parse'', ''HEAD''] = (named, s3)"
  shows "ok = git_names c named
       \<and> asked h' = asked h @ EGit [''rev-parse'', ''HEAD'']
           # (if ok then [] else [EGit [''checkout'', ''--quiet'', ''-'']])"
  using assms by (auto simp: head_is_def git_names_def run_git_def split: sum.splits prod.splits if_splits)

lemma apply_release_asks:
  "\<exists>pip. asked (snd (apply_release W U argv now reclaim r m h))
     = asked h @ update_sequence U (manifest_commit W m) argv pip (ho_world h)"
proof -
  let ?c = "manifest_commit W m"
  obtain fetched s1 where fetch: "up_git U (ho_world h) [''fetch'', ''--quiet'', ''origin''] = (fetched, s1)"
    by (cases "up_git U (ho_world h) [''fetch'', ''--quiet'', ''origin'']")
  obtain moved s2 where move: "up_git U s1 [''checkout'', ''--quiet'', ?c] = (moved, s2)"
    by (cases "up_git U s1 [''checkout'', ''--quiet'', ?c]")
  obtain named s3 where name: "up_git U s2 [''rev-parse'', ''HEAD''] = (named, s3)"
    by (cases "up_git U s2 [''rev-parse'', ''HEAD'']")
  note sequence = update_sequence_def [of U ?c argv _ "ho_world h"] fetch move name
  obtain o1 h1 where 1: "checkout_commit U ?c h = (o1, h1)" by (cases "checkout_commit U ?c h")
  note moved = checkout_asks [OF 1 fetch move]
  show ?thesis
  proof (cases o1)
    case (Inl e)
    then show ?thesis using moved 1
      by (cases e) (auto simp: apply_release_def manifest_commit_def [symmetric] Let_def sequence)
  next
    case o1: (Inr u)
    obtain b h2 where 2: "head_is U ?c h1 = (b, h2)" by (cases "head_is U ?c h1")
    have named: "b = git_names ?c named \<and> asked h2 = asked h1 @ EGit [''rev-parse'', ''HEAD'']
        # (if b then [] else [EGit [''checkout'', ''--quiet'', ''-'']])"
      using head_asks [OF 2, of named s3] name moved o1 by simp
    show ?thesis
    proof (cases b)
      case False
      then show ?thesis using moved named 1 2 o1
        by (simp add: apply_release_def manifest_commit_def [symmetric] Let_def sequence)
    next
      case True
      obtain rep s4 where 3: "reclaim_after_update W U m reclaim (ho_env h2) (ho_world h2) = (rep, s4)"
        by (cases "reclaim_after_update W U m reclaim (ho_env h2) (ho_world h2)")
      let ?before = "up_requirements U (ho_world h)"
      obtain piped h4 where 4: "install_requirements U ?before (h2\<lparr>ho_world := s4\<rparr>) = (piped, h4)"
        by (cases "install_requirements U ?before (h2\<lparr>ho_world := s4\<rparr>)")
      obtain pip where pip: "asked h4 = asked h2 @ (if pip then [EPip] else [])"
        using asked_install [of U ?before "h2\<lparr>ho_world := s4\<rparr>"] by (auto simp: 4)
      define q where "q = r\<lparr>ur_applied := True, ur_action := UApplied, ur_checked_out := Some ?c, ur_pip_ran := piped\<rparr>"
      obtain res h5 where 5: "announce U now q h4 = (res, h5)" by (cases "announce U now q h4")
      have "asked h5 = asked h4" using asked_announce [of U now q h4] by (simp add: 5)
      moreover have "\<exists>s. snd (apply_release W U argv now reclaim r m h) = emit (ERestart argv) (h5\<lparr>ho_world := s\<rparr>)"
        using 1 2 3 4 5 o1 True
        by (cases "up_reexec U (ho_world h5) argv"; cases "fst (up_reexec U (ho_world h5) argv)")
          (auto simp: apply_release_def Let_def manifest_commit_def q_def)
      ultimately show ?thesis using moved named o1 True pip
        by (intro exI [of _ pip]) (auto simp: sequence)
    qed
  qed
qed

text \<open>When a check asks for anything, this is the release it acts on.\<close>

definition authorised :: "world \<Rightarrow> 's updater \<Rightarrow> string \<Rightarrow> 's host \<Rightarrow> json \<Rightarrow> bool" where
  "authorised W U pubkey h m \<longleftrightarrow> verified W pubkey m \<and> commit_re (manifest_commit W m)
     \<and> (\<exists>lv. read_local_version (up_version U (ho_world h)) = Inr lv
          \<and> is_forward (release_version W m) lv = Inr True)"

lemma verified_commit: "verified W pubkey m \<Longrightarrow> commit_re (manifest_commit W m)"
  using field_error_None(2) [OF verify_Inr(1)] by (auto simp: manifest_commit_def elim: verifiedE)

lemma obtained_verified:
  assumes "fst (obtain_manifest W U mirrors pubkey supplied s) = Inr m"
  shows "verified W pubkey m"
proof (cases supplied)
  case (Some n)
  with assms show ?thesis by (auto simp: obtain_manifest_def verified_def split: sum.splits)
next
  case None
  then have "mf_manifest (fetch_best_manifest W mirrors pubkey (up_fetch U s) (up_loads U) 0) = Some m"
    using assms by (auto simp: obtain_manifest_def Let_def split: option.splits)
  then show ?thesis using fetched_usable by (auto simp: usable_def)
qed

lemma check_asks:
  fixes U :: "'s updater"
  assumes "h' = snd (check_and_update W U argv mirrors pubkey enabled limit now honor supplied reclaim h)"
    "s = save_last_check U now (ho_world h)"
  shows "asked h' = asked h
    \<or> (enabled \<and> (\<exists>m pip. fst (obtain_manifest W U mirrors pubkey supplied s) = Inr m \<and> authorised W U pubkey h m
         \<and> asked h' = asked h @ update_sequence U (manifest_commit W m) argv pip s))"
proof (cases "read_local_version (up_version U (ho_world h))")
  case (Inl e)
  then show ?thesis using assms(1) by (simp add: check_and_update_def)
next
  case lv: (Inr lv)
  let ?wait = "if honor then rate_limited (load_last_check U (ho_world h)) now limit else Inr False"
  show ?thesis
  proof (cases "enabled \<and> ?wait = Inr False")
    case False
    then have "h' = h" using lv assms(1)
      by (cases ?wait) (auto simp: check_and_update_def split: bool.split if_splits)
    then show ?thesis by simp
  next
    case True
    let ?g = "h\<lparr>ho_world := s\<rparr>"
    have call: "h' = snd (check_release W U argv mirrors pubkey now supplied reclaim lv ?g)"
      using True lv assms by (simp add: check_and_update_def)
    obtain got f where got: "obtain_manifest W U mirrors pubkey supplied s = (got, f)"
      by (cases "obtain_manifest W U mirrors pubkey supplied s")
    show ?thesis
    proof (cases "\<exists>m. got = Inr m \<and> is_forward (release_version W m) lv = Inr True")
      case False
      then have "\<exists>r. h' = snd (announce U now r ?g)"
        using got by (auto simp: call check_release_def Let_def split: sum.split bool.split)
      then show ?thesis by auto
    next
      case forward: True
      then obtain m where m: "got = Inr m" "is_forward (release_version W m) lv = Inr True" by blast
      have ver: "verified W pubkey m" using obtained_verified [of W U mirrors pubkey supplied s m] got m by simp
      have "authorised W U pubkey h m" using ver verified_commit [OF ver] lv m by (auto simp: authorised_def)
      moreover obtain r where "h' = snd (apply_release W U argv now reclaim r m ?g)"
        using got m by (auto simp: call check_release_def Let_def)
      ultimately show ?thesis
        using apply_release_asks [of W U argv now reclaim r m ?g] True got m by auto
    qed
  qed
qed

subsection \<open>What the reclaim removes\<close>

text \<open>Everything a file must satisfy to be removed: \<open>s\<close> is the file system at the time of the plan.\<close>

definition removable ::
  "'s disk \<Rightarrow> 's \<Rightarrow> string \<Rightarrow> (string, string) pydict \<Rightarrow> (string, string) pydict \<Rightarrow> string \<Rightarrow> string \<Rightarrow> bool" where
  "removable D s base prev cur rel path \<longleftrightarrow>
     rel \<in> set (dkeys prev) \<and> \<not> still_shipped D cur rel
   \<and> (\<exists>nrm. normalise_relpath rel = Inr nrm \<and> never_touch_reason nrm = None \<and> path = target_path D base nrm)
   \<and> inside_root D base (dk_realpath D s path) \<and> \<not> dk_islink D s path \<and> dk_isfile D s path
   \<and> (\<forall>i. dk_stat D s path = Some i \<longrightarrow> i \<notin> set (shipped_ids D s base cur))
   \<and> (\<exists>digest. dk_sha256 D s path = Some digest \<and> str_lower digest = recorded_digest prev rel
        \<and> sha256_re (recorded_digest prev rel))"

lemma decide_would_delete:
  assumes "ra_verdict (decide_candidate D s base prev (shipped_ids D s base cur) rel) = RWouldDelete"
    "rel \<in> set (reclaim_candidates D prev cur)"
  shows "\<exists>path. ra_path (decide_candidate D s base prev (shipped_ids D s base cur) rel) = Some path
           \<and> removable D s base prev cur rel path"
proof -
  have c: "rel \<in> set (dkeys prev)" "\<not> still_shipped D cur rel" using assms(2) by (auto simp: reclaim_candidates_def)
  obtain nrm where n: "normalise_relpath rel = Inr nrm" "never_touch_reason nrm = None"
    using assms(1) by (auto simp: decide_candidate_def Let_def split: sum.splits option.splits)
  show ?thesis
    using assms(1) c n
    by (auto simp: decide_candidate_def removable_def Let_def split: if_splits option.splits)
qed

lemma decide_rel [simp]: "ra_rel (decide_candidate D s base prev ids rel) = rel"
  by (auto simp: decide_candidate_def Let_def split: sum.split option.split)

lemma decide_not_done: "ra_verdict (decide_candidate D s base prev ids rel) \<notin> {RDelete, RError}"
  by (auto simp: decide_candidate_def Let_def split: sum.split option.split)

lemma planned_actions:
  assumes "plan_reclaim D s rdir prev cur = (candidates, actions)" "a \<in> set actions"
  shows "ra_verdict a \<notin> {RDelete, RError}"
    "ra_verdict a = RWouldDelete \<Longrightarrow> length candidates \<le> reclaim_ceiling (length prev) \<and>
       (\<exists>path. ra_path a = Some path
          \<and> removable D s (dk_realpath D s (dk_abspath D rdir)) prev cur (ra_rel a) path)"
  using assms decide_would_delete decide_not_done
  by (fastforce simp: plan_reclaim_def Let_def split: if_splits)+

text \<open>An action after the pass, with the file system it was carried out on.\<close>

lemma carry_out_all_done:
  assumes "carry_out_all D prev s as = (as', s')" "a' \<in> set as'" "ra_verdict a' \<in> {RDelete, RError}"
    "\<And>a. a \<in> set as \<Longrightarrow> ra_verdict a \<notin> {RDelete, RError}"
  shows "\<exists>a path s1. a \<in> set as \<and> ra_verdict a = RWouldDelete \<and> ra_rel a = ra_rel a' \<and> ra_path a = Some path
     \<and> ra_path a' = Some path
     \<and> map_option str_lower (dk_sha256 D s1 path) = Some (recorded_digest prev (ra_rel a))"
  using assms
proof (induction as arbitrary: s as')
  case (Cons a as)
  obtain b s1 where b: "carry_out D prev s a = (b, s1)" by (cases "carry_out D prev s a")
  obtain bs where bs: "carry_out_all D prev s1 as = (bs, s')" "as' = b # bs"
    using Cons.prems(1) b by (auto split: prod.splits)
  show ?case
  proof (cases "a' \<in> set bs")
    case True
    then show ?thesis using Cons.IH [OF bs(1)] Cons.prems(3,4) by fastforce
  next
    case False
    then have "a' = b" using Cons.prems(2) bs(2) by simp
    moreover from this Cons.prems(3) Cons.prems(4) [of a] b
    have "ra_verdict a = RWouldDelete" "ra_rel a' = ra_rel a" "ra_path a' = ra_path a"
        "\<exists>path. ra_path a = Some path \<and> map_option str_lower (dk_sha256 D s path) = Some (recorded_digest prev (ra_rel a))"
      by (auto simp: carry_out_def split: reclaim_verdict.splits option.splits prod.splits sum.splits if_splits)
    ultimately show ?thesis by (intro exI [of _ a]) auto
  qed
qed simp

definition attempted :: "reclaim_action \<Rightarrow> bool" where
  "attempted a = (ra_verdict a \<in> {RDelete, RError})"

lemma carry_out_state:
  assumes "carry_out D prev s a = (a', s')" "\<not> attempted a"
  shows "s' = (if attempted a' then snd (dk_remove D s (the (ra_path a'))) else s)"
  using assms
  by (auto simp: carry_out_def attempted_def split: reclaim_verdict.splits option.splits prod.splits sum.splits if_splits)

lemma carry_out_all_state:
  assumes "carry_out_all D prev s as = (as', s')" "\<And>a. a \<in> set as \<Longrightarrow> \<not> attempted a"
  shows "s' = foldl (\<lambda>s a. snd (dk_remove D s (the (ra_path a)))) s (filter attempted as')"
  using assms
proof (induction as arbitrary: s as')
  case (Cons a as)
  obtain b s1 where b: "carry_out D prev s a = (b, s1)" by (cases "carry_out D prev s a")
  obtain bs where bs: "carry_out_all D prev s1 as = (bs, s')" "as' = b # bs"
    using Cons.prems(1) b by (auto split: prod.splits)
  show ?case using Cons.IH [OF bs(1)] Cons.prems(2) carry_out_state [OF b] bs(2) by simp
qed simp

lemma reclaim_pass:
  assumes "reclaim_obsolete_files D s rdir prev cur mode = (report, s')"
  shows "s' = foldl (\<lambda>s a. snd (dk_remove D s (the (ra_path a)))) s (filter attempted (rr_actions report))"
    "\<And>a. a \<in> set (rr_actions report) \<Longrightarrow> attempted a \<Longrightarrow>
       mode = ReclaimDelete \<and> cur \<noteq> [] \<and> length (rr_candidates report) \<le> reclaim_ceiling (length prev)
     \<and> (\<exists>path. ra_path a = Some path
          \<and> removable D s (dk_realpath D s (dk_abspath D rdir)) prev cur (ra_rel a) path)
     \<and> (\<exists>s1. map_option str_lower (dk_sha256 D s1 (the (ra_path a))) = Some (recorded_digest prev (ra_rel a)))"
proof -
  obtain cands acts where plan: "plan_reclaim D s rdir prev cur = (cands, acts)"
    by (cases "plan_reclaim D s rdir prev cur")
  have planned: "\<And>a. a \<in> set acts \<Longrightarrow> \<not> attempted a" using planned_actions(1) [OF plan] by (simp add: attempted_def)
  note d = assms [unfolded reclaim_obsolete_files_def plan prod.case]
  show "s' = foldl (\<lambda>s a. snd (dk_remove D s (the (ra_path a)))) s (filter attempted (rr_actions report))"
  proof (cases "mode = ReclaimDelete \<and> cur \<noteq> []")
    case True
    then show ?thesis using d carry_out_all_state [where as = acts and prev = prev and s = s and D = D] planned
      by (auto split: prod.splits)
  next
    case False
    have "filter attempted acts = []" using planned by (simp add: filter_empty_conv)
    then show ?thesis using d False by (auto split: if_splits)
  qed
  fix a assume a: "a \<in> set (rr_actions report)" "attempted a"
  have "mode = ReclaimDelete \<and> cur \<noteq> []" using d a planned by (auto split: if_splits)
  moreover from this obtain as' where as': "carry_out_all D prev s acts = (as', s')"
      "rr_actions report = as'" "rr_candidates report = cands"
    using d by (auto split: prod.splits)
  moreover from as' a obtain b path s1 where "b \<in> set acts" "ra_verdict b = RWouldDelete" "ra_rel b = ra_rel a"
      "ra_path b = Some path" "ra_path a = Some path"
      "map_option str_lower (dk_sha256 D s1 path) = Some (recorded_digest prev (ra_rel b))"
    using carry_out_all_done [OF as'(1), of a] planned unfolding attempted_def by fastforce
  moreover from this planned_actions(2) [OF plan, of b]
  have "length cands \<le> reclaim_ceiling (length prev)"
      "removable D s (dk_realpath D s (dk_abspath D rdir)) prev cur (ra_rel a) path" by auto
  ultimately show "mode = ReclaimDelete \<and> cur \<noteq> [] \<and> length (rr_candidates report) \<le> reclaim_ceiling (length prev)
     \<and> (\<exists>path. ra_path a = Some path
          \<and> removable D s (dk_realpath D s (dk_abspath D rdir)) prev cur (ra_rel a) path)
     \<and> (\<exists>s1. map_option str_lower (dk_sha256 D s1 (the (ra_path a))) = Some (recorded_digest prev (ra_rel a)))"
    by auto
qed


subsection \<open>The replay floor\<close>

text \<open>
  The state file keeps what was stored, and git, pip, the restart and the removal of a file leave it
  alone (the code stores it in the home directory, outside the tree).
\<close>

definition keeps_state_file :: "'s updater \<Rightarrow> bool" where
  "keeps_state_file U \<longleftrightarrow>
     (\<forall>s d. up_dot_load U (up_dot_store U s d) = Some d)
   \<and> (\<forall>s args. up_dot_load U (snd (up_git U s args)) = up_dot_load U s)
   \<and> (\<forall>s. up_dot_load U (snd (up_pip U s)) = up_dot_load U s)
   \<and> (\<forall>s argv. up_dot_load U (snd (up_reexec U s argv)) = up_dot_load U s)
   \<and> (\<forall>s p. up_dot_load U (snd (dk_remove (up_disk U) s p)) = up_dot_load U s)"

definition keeps_key :: "'s updater \<Rightarrow> string \<Rightarrow> 's \<Rightarrow> 's \<Rightarrow> bool" where
  "keeps_key U k s s' \<longleftrightarrow> map_of (load_state U s') k = map_of (load_state U s) k"

lemma keeps_key_refl [simp]: "keeps_key U k s s"
  by (simp add: keeps_key_def)

lemma keeps_key_trans: "keeps_key U k s s' \<Longrightarrow> keeps_key U k s' s'' \<Longrightarrow> keeps_key U k s s''"
  by (simp add: keeps_key_def)

lemma keeps_key_load: "up_dot_load U s' = up_dot_load U s \<Longrightarrow> keeps_key U k s s'"
  by (simp add: keeps_key_def load_state_def)

lemma save_state_load:
  "keeps_state_file U \<Longrightarrow> load_state U (save_state U changes s) = foldl (\<lambda>d (k, v). dset k v d) (load_state U s) changes"
  by (simp add: keeps_state_file_def save_state_def load_state_def [of U "up_dot_store U s j" for j])

lemma foldl_dset_other: "k \<notin> set (map fst changes) \<Longrightarrow>
    map_of (foldl (\<lambda>d (k, v). dset k v d) d changes) k = map_of d k"
  by (induction changes arbitrary: d) (auto simp: map_of_dset)

lemma save_state_key: "keeps_state_file U \<Longrightarrow> k \<notin> set (map fst changes) \<Longrightarrow> keeps_key U k s (save_state U changes s)"
  by (simp add: keeps_key_def save_state_load foldl_dset_other)

text \<open>The keys that only the sync writes.\<close>

definition sync_keys :: "string list" where
  "sync_keys = [''manifest_floor_ts'', ''min_client_version'']"

definition keeps_sync :: "'s updater \<Rightarrow> 's \<Rightarrow> 's \<Rightarrow> bool" where
  "keeps_sync U s s' \<longleftrightarrow> (\<forall>k \<in> set sync_keys. keeps_key U k s s')"

lemma keeps_sync_refl [simp]: "keeps_sync U s s"
  by (simp add: keeps_sync_def)

lemma keeps_sync_trans [trans]: "keeps_sync U s s' \<Longrightarrow> keeps_sync U s' s'' \<Longrightarrow> keeps_sync U s s''"
  unfolding keeps_sync_def by (blast intro: keeps_key_trans)

lemma keeps_sync_load: "up_dot_load U s' = up_dot_load U s \<Longrightarrow> keeps_sync U s s'"
  by (simp add: keeps_sync_def keeps_key_load)

lemma keeps_sync_save:
  "keeps_state_file U \<Longrightarrow> set (map fst changes) \<inter> set sync_keys = {} \<Longrightarrow> keeps_sync U s (save_state U changes s)"
  unfolding keeps_sync_def by (intro ballI save_state_key) auto

lemma announce_world:
  "keeps_state_file U \<Longrightarrow> keeps_sync U (ho_world h) (ho_world (snd (announce U now r h)))"
  by (simp add: announce_def Let_def record_attempt_def LAST_UPDATE_KEY_def sync_keys_def keeps_sync_save)

lemma run_git_world: "keeps_state_file U \<Longrightarrow> keeps_sync U (ho_world h) (ho_world (snd (run_git U args h)))"
  by (rule keeps_sync_load) (simp add: run_git_def keeps_state_file_def split: prod.split,
      metis snd_conv)

lemma checkout_world:
  assumes "keeps_state_file U"
  shows "keeps_sync U (ho_world h) (ho_world (snd (checkout_commit U c h)))"
proof -
  obtain o1 h1 where 1: "run_git U [''fetch'', ''--quiet'', ''origin''] h = (o1, h1)"
    by (cases "run_git U [''fetch'', ''--quiet'', ''origin''] h")
  obtain o2 h2 where 2: "run_git U [''checkout'', ''--quiet'', c] h1 = (o2, h2)"
    by (cases "run_git U [''checkout'', ''--quiet'', c] h1")
  have k1: "keeps_sync U (ho_world h) (ho_world h1)"
    using run_git_world [OF assms, of h "[''fetch'', ''--quiet'', ''origin'']"] by (simp add: 1)
  have "keeps_sync U (ho_world h1) (ho_world h2)"
    using run_git_world [OF assms, of h1 "[''checkout'', ''--quiet'', c]"] by (simp add: 2)
  then have k2: "keeps_sync U (ho_world h) (ho_world h2)" by (rule keeps_sync_trans [OF k1])
  have "snd (checkout_commit U c h) \<in> {h1, h2}"
    by (auto simp: checkout_commit_def 1 2 Let_def split: sum.split prod.split)
  then show ?thesis using k1 k2 by auto
qed

lemma head_world:
  assumes "keeps_state_file U"
  shows "keeps_sync U (ho_world h) (ho_world (snd (head_is U c h)))"
proof -
  obtain o1 h1 where 1: "run_git U [''rev-parse'', ''HEAD''] h = (o1, h1)"
    by (cases "run_git U [''rev-parse'', ''HEAD''] h")
  have k1: "keeps_sync U (ho_world h) (ho_world h1)"
    using run_git_world [OF assms, of h "[''rev-parse'', ''HEAD'']"] by (simp add: 1)
  note k2 = keeps_sync_trans [OF k1 run_git_world [OF assms]]
  have "snd (head_is U c h) \<in> {h1, snd (run_git U [''checkout'', ''--quiet'', ''-''] h1)}"
    by (auto simp: head_is_def 1 split: sum.split prod.split)
  then show ?thesis using k1 k2 by auto
qed

lemma install_world:
  assumes "keeps_state_file U"
  shows "keeps_sync U (ho_world h) (ho_world (snd (install_requirements U before h)))"
proof (rule keeps_sync_load)
  have "up_dot_load U (snd (up_pip U (ho_world h))) = up_dot_load U (ho_world h)"
    using assms by (simp add: keeps_state_file_def)
  then show "up_dot_load U (ho_world (snd (install_requirements U before h))) = up_dot_load U (ho_world h)"
    by (auto simp: install_requirements_def split: option.split prod.split)
qed

lemma removals_load:
  "keeps_state_file U \<Longrightarrow>
   up_dot_load U (foldl (\<lambda>s a. snd (dk_remove (up_disk U) s (f a))) s as) = up_dot_load U s"
  by (induction as arbitrary: s) (simp_all add: keeps_state_file_def)

lemma reclaim_world:
  assumes "keeps_state_file U"
  shows "keeps_sync U s (snd (reclaim_after_update W U m override env s))"
proof -
  let ?prev = "str_map W (dget (load_state U s) ''shipped_files'' JNull)"
  let ?run = "reclaim_obsolete_files (up_disk U) s (up_root U) ?prev (manifest_files W m) (reclaim_mode env override)"
  obtain rep s1 where run: "?run = (rep, s1)" by (cases ?run)
  have "keeps_sync U s s1"
    by (rule keeps_sync_load, subst reclaim_pass(1) [OF run], rule removals_load [OF assms])
  moreover have "keeps_sync U s1 (save_state U [(''shipped_files'', j)] s1)" for j
    by (rule keeps_sync_save [OF assms]) (simp add: sync_keys_def)
  ultimately show ?thesis by (auto simp: reclaim_after_update_def run Let_def intro: keeps_sync_trans)
qed

lemma apply_release_world:
  assumes "keeps_state_file U"
  shows "keeps_sync U (ho_world h) (ho_world (snd (apply_release W U argv now reclaim r m h)))"
proof -
  let ?c = "manifest_commit W m"
  obtain o1 h1 where 1: "checkout_commit U ?c h = (o1, h1)" by (cases "checkout_commit U ?c h")
  obtain b h2 where 2: "head_is U ?c h1 = (b, h2)" by (cases "head_is U ?c h1")
  have k1: "keeps_sync U (ho_world h) (ho_world h1)" using checkout_world [OF assms, of h ?c] by (simp add: 1)
  have "keeps_sync U (ho_world h1) (ho_world h2)" using head_world [OF assms, of h1 ?c] by (simp add: 2)
  then have k2: "keeps_sync U (ho_world h) (ho_world h2)" by (rule keeps_sync_trans [OF k1])
  note ann = announce_world [OF assms]
  show ?thesis
  proof (cases o1)
    case (Inl e)
    then show ?thesis using keeps_sync_trans [OF k1 ann] 1
      by (cases e) (auto simp: apply_release_def manifest_commit_def Let_def)
  next
    case o1: (Inr u)
    show ?thesis
    proof (cases b)
      case False
      then show ?thesis using keeps_sync_trans [OF k2 ann] 1 2 o1
        by (simp add: apply_release_def manifest_commit_def Let_def)
    next
      case True
      obtain rep s3 where 3: "reclaim_after_update W U m reclaim (ho_env h2) (ho_world h2) = (rep, s3)"
        by (cases "reclaim_after_update W U m reclaim (ho_env h2) (ho_world h2)")
      let ?before = "up_requirements U (ho_world h)"
      obtain piped h4 where 4: "install_requirements U ?before (h2\<lparr>ho_world := s3\<rparr>) = (piped, h4)"
        by (cases "install_requirements U ?before (h2\<lparr>ho_world := s3\<rparr>)")
      define q where "q = r\<lparr>ur_applied := True, ur_action := UApplied, ur_checked_out := Some ?c, ur_pip_ran := piped\<rparr>"
      obtain out h5 where 5: "announce U now q h4 = (out, h5)" by (cases "announce U now q h4")
      have "keeps_sync U (ho_world h2) s3"
        using reclaim_world [OF assms, of "ho_world h2" W m reclaim "ho_env h2"] by (simp add: 3)
      also have "keeps_sync U s3 (ho_world h4)"
        using install_world [OF assms, of "h2\<lparr>ho_world := s3\<rparr>" ?before] by (simp add: 4)
      also have "keeps_sync U (ho_world h4) (ho_world h5)" using ann [of h4 now q] by (simp add: 5)
      also have "keeps_sync U (ho_world h5) (snd (up_reexec U (ho_world h5) argv))"
        using assms by (intro keeps_sync_load) (simp add: keeps_state_file_def)
      finally have k: "keeps_sync U (ho_world h) (snd (up_reexec U (ho_world h5) argv))"
        by (rule keeps_sync_trans [OF k2])
      have "ho_world (snd (apply_release W U argv now reclaim r m h)) = snd (up_reexec U (ho_world h5) argv)"
        using 1 2 3 4 5 o1 True
        by (cases "up_reexec U (ho_world h5) argv"; cases "fst (up_reexec U (ho_world h5) argv)")
          (auto simp: apply_release_def Let_def manifest_commit_def q_def)
      then show ?thesis using k by simp
    qed
  qed
qed

lemma check_world:
  assumes "keeps_state_file U"
  shows "keeps_sync U (ho_world h)
    (ho_world (snd (check_and_update W U argv mirrors pubkey enabled limit now honor supplied reclaim h)))"
proof -
  let ?g = "h\<lparr>ho_world := save_last_check U now (ho_world h)\<rparr>"
  have g: "keeps_sync U (ho_world h) (ho_world ?g)"
    by (simp add: save_last_check_def sync_keys_def keeps_sync_save [OF assms])
  note ann = announce_world [OF assms] and app = apply_release_world [OF assms]
  have rel: "keeps_sync U (ho_world ?g) (ho_world (snd (check_release W U argv mirrors pubkey now supplied reclaim lv ?g)))" for lv
    using ann [of ?g] app [of ?g] by (auto simp: check_release_def Let_def split: prod.split sum.split bool.split)
  note whole = keeps_sync_trans [OF g rel]
  show ?thesis
  proof (cases "read_local_version (up_version U (ho_world h))")
    case (Inl e)
    then show ?thesis using ann by (simp add: check_and_update_def)
  next
    case (Inr lv)
    then show ?thesis using whole by (auto simp: check_and_update_def split: sum.split bool.split)
  qed
qed

lemma floor_kept: "keeps_sync U s s' \<Longrightarrow> manifest_floor (load_state U s') = manifest_floor (load_state U s)
    \<and> dget (load_state U s') ''min_client_version'' d = dget (load_state U s) ''min_client_version'' d"
  by (simp add: keeps_sync_def sync_keys_def keeps_key_def manifest_floor_def dget_def)

text \<open>The state file after a sync that found a release.\<close>

lemma synced_state:
  assumes "keeps_state_file U"
  shows "manifest_floor (load_state U (ho_world (snd (sync_verified W U f mf m lv upd h)))) = max f (published_ts m)"
    "dget (load_state U (ho_world (snd (sync_verified W U f mf m lv upd h)))) ''min_client_version'' JNull
       = mget m ''min_client_version''"
  by (simp_all add: sync_verified_def Let_def save_state_load [OF assms] manifest_floor_def dget_def map_of_dset)

end
