(* ===== verification/Release_Props.thy ===== *)
theory Release_Props
  imports Release_Facts
begin

text \<open>
  The properties of the release tools: which code an update may run, which release wins, what a
  manifest may configure, what the reclaim may remove, and what a withheld or an old manifest cannot
  undo.
\<close>

subsection \<open>A small outside for the examples\<close>

text \<open>The state is the state file and the files with their digests.\<close>

definition toy_disk :: "(json \<times> (string, string) pydict) disk" where
  "toy_disk = \<lparr>dk_sep = CHR ''/'', dk_normcase = (\<lambda>p. p), dk_abspath = (\<lambda>p. p),
     dk_realpath = (\<lambda>s p. p), dk_islink = (\<lambda>s p. False), dk_exists = (\<lambda>s p. map_of (snd s) p \<noteq> None),
     dk_isfile = (\<lambda>s p. map_of (snd s) p \<noteq> None), dk_stat = (\<lambda>s p. None),
     dk_sha256 = (\<lambda>s p. map_of (snd s) p), dk_remove = (\<lambda>s p. (Inr (), (fst s, dpop p (snd s))))\<rparr>"

definition toy_manifest :: json where
  "toy_manifest = JObj [(''version'', JStr ''3.8.0''), (''git_commit'', JStr ''abcdef1''),
     (''published_ts'', JInt 7), (''min_client_version'', JStr ''3.7.1''),
     (''signature'', JStr ''0xk'')]"

definition toy_updater :: "json option \<Rightarrow> (json \<times> (string, string) pydict) updater" where
  "toy_updater offer = \<lparr>up_disk = toy_disk, up_root = ''/miner'', up_version = (\<lambda>s. Inr ''3.7.0''),
     up_dot_load = (\<lambda>s. Some (fst s)), up_dot_store = (\<lambda>s d. (d, snd s)),
     up_git = (\<lambda>s args. (Inr (0, ''abcdef1''), s)), up_requirements = (\<lambda>s. None),
     up_pip = (\<lambda>s. (Inr (0, []), s)), up_reexec = (\<lambda>s argv. (Inr (), s)),
     up_fetch = (\<lambda>s url. Inr []), up_loads = (\<lambda>t. offer), up_nonfinite = (\<lambda>j. PosInf),
     up_reason = (\<lambda>r. [])\<rparr>"

definition toy_host :: "(json \<times> (string, string) pydict) host" where
  "toy_host = \<lparr>ho_world = (JObj [], []), ho_env = [], ho_trace = []\<rparr>"

lemma toy_keeps: "keeps_state_file (toy_updater m)"
  by (simp add: keeps_state_file_def toy_updater_def toy_disk_def)


subsection \<open>Code\<close>



text \<open>the mirror loop takes the highest version among the manifests that verify and are
  not below the replay floor, the first of several that are equal, and takes none only when there is
  none; unreachable, garbled, forged and replayed mirrors change nothing.\<close>

theorem highest_verified_release_wins:
  "case mf_manifest (fetch_best_manifest W mirrors pubkey fetch loads floor_ts) of
     None \<Rightarrow> usable_releases W pubkey fetch loads floor_ts mirrors = []
   | Some m \<Rightarrow> best_of W (usable_releases W pubkey fetch loads floor_ts mirrors) m"
  by (rule fetch_best)

text \<open>the built-in fetch opens nothing but an https address or the one compiled-in http
  mirror, and what it returns is at most one mebibyte.\<close>

theorem fetch_is_bounded:
  assumes "default_fetch opened start timeout u = Inr body"
  shows "(starts_with ''https://'' (str_lower u) \<or> u = VPS_MANIFEST_URL) \<and> length body \<le> 2 ^ 20"
proof -
  have bound: "read_body d reads got b = Inr body \<Longrightarrow> got = length b \<Longrightarrow> length b \<le> 2 ^ 20 \<Longrightarrow> length body \<le> 2 ^ 20"
    for d reads got b
    by (induction d reads got b rule: read_body.induct) (auto simp: MAX_MANIFEST_BYTES_def split: if_splits)
  show ?thesis
    using assms bound [of _ _ 0 "[]"] by (auto simp: default_fetch_def fetch_allowed_def bindE_Inr_iff split: if_splits)
qed

lemma fetch_is_bounded_witness: "length ''{}'' \<le> (2 :: nat) ^ 20"
  by (rule fetch_is_bounded [of "\<lambda>u. Inr [(0, ''{}''), (0, [])]" 0 0 "''https://a''", THEN conjunct2])
    (simp add: default_fetch_def fetch_allowed_def starts_with_def str_lower_def char_lower_def
      MAX_MANIFEST_BYTES_def fadd_def)

subsection \<open>Configuration\<close>

text \<open>a manifest's configuration leaves every variable alone that is set to more than
  blanks; what it does set is one of six listed variables, to a value that is not empty and is made of
  URL characters only, so it holds no blank, no newline and no credential mark.\<close>

theorem configuration_only_fills_gaps:
  assumes "env' = cr_env (apply_manifest_config config env)"
  shows "(str_strip (dget env n []) \<noteq> [] \<longrightarrow> map_of env' n = map_of env n)
    \<and> (map_of env' n \<noteq> map_of env n \<longrightarrow>
       n \<in> set config_names \<and> (\<exists>x. map_of env' n = Some x \<and> x \<noteq> [] \<and> list_all url_char x))"
  using config_applied_ok [of env config] unfolding config_ok_def assms safe_value_def by blast

lemma configuration_only_fills_gaps_witness:
  "map_of (cr_env (apply_manifest_config (JObj [(''merge_url'', JStr ''http://a'')])
     [(''NEURAHASH_DILOCO_MERGE_URL'', ''http://b'')])) ''NEURAHASH_DILOCO_MERGE_URL'' = Some ''http://b''"
  using configuration_only_fills_gaps [OF refl, THEN conjunct1, of "[(''NEURAHASH_DILOCO_MERGE_URL'', ''http://b'')]"
      "''NEURAHASH_DILOCO_MERGE_URL''" "JObj [(''merge_url'', JStr ''http://a'')]"]
  by (simp add: dget_def str_strip_def is_space_def)

subsection \<open>Files\<close>

text \<open>C22: a pass changes the file system only by removing the files it reports as removed (or
  as failed to remove), and each of those was named by an earlier release, is not shipped by the
  current one (neither its normalised name nor its file identity), has a safe relative path off the
  never-touch list, lies inside the installation after resolving links, is a regular file, and still
  has the recorded digest, checked once more right before the removal; the pass was in delete mode,
  the current manifest declares its files, and the candidates stay under the ceiling.\<close>

theorem reclaim_removes_only_dropped_files:
  assumes "reclaim_obsolete_files D s rdir prev cur mode = (report, s')"
  shows "s' = foldl (\<lambda>s a. snd (dk_remove D s (the (ra_path a)))) s (filter attempted (rr_actions report))
    \<and> (a \<in> set (rr_actions report) \<and> attempted a \<longrightarrow>
       mode = ReclaimDelete \<and> cur \<noteq> [] \<and> length (rr_candidates report) \<le> reclaim_ceiling (length prev)
     \<and> (\<exists>path. ra_path a = Some path
          \<and> removable D s (dk_realpath D s (dk_abspath D rdir)) prev cur (ra_rel a) path)
     \<and> (\<exists>s1. map_option str_lower (dk_sha256 D s1 (the (ra_path a))) = Some (recorded_digest prev (ra_rel a))))"
  using reclaim_pass [OF assms] by blast

definition toy_digest :: string where
  "toy_digest = replicate 64 CHR ''a''"

definition toy_files :: "json \<times> (string, string) pydict" where
  "toy_files = (JObj [], [(''/miner/old.py'', toy_digest), (''/miner/wallet.json'', toy_digest)])"

definition toy_shipped :: "(string, string) pydict" where
  "toy_shipped = [(''old.py'', toy_digest), (''wallet.json'', toy_digest)]"

lemma toy_reclaim:
  "map ra_verdict (rr_actions (fst (reclaim_obsolete_files toy_disk toy_files ''/miner'' toy_shipped
      [(''new.py'', [])] ReclaimDelete))) = [RDelete, RRefused]"
  "snd (reclaim_obsolete_files toy_disk toy_files ''/miner'' toy_shipped [(''new.py'', [])] ReclaimDelete)
     = (JObj [], [(''/miner/wallet.json'', toy_digest)])"
  by code_simp+

lemma reclaim_removes_only_dropped_files_witness:
  "\<exists>a. attempted a \<and> never_touch_reason (projr (normalise_relpath (ra_rel a))) = None"
proof -
  obtain report s' where run: "reclaim_obsolete_files toy_disk toy_files ''/miner'' toy_shipped
      [(''new.py'', [])] ReclaimDelete = (report, s')"
    by (cases "reclaim_obsolete_files toy_disk toy_files ''/miner'' toy_shipped [(''new.py'', [])] ReclaimDelete")
  obtain a where a: "a \<in> set (rr_actions report)" "attempted a"
    using toy_reclaim(1) by (cases "rr_actions report") (auto simp: run attempted_def)
  from reclaim_removes_only_dropped_files [OF run, THEN conjunct2, of a] a show ?thesis
    by (auto simp: removable_def intro!: exI [of _ a])
qed

lemma part_fault_None:
  "part_fault p = None \<longleftrightarrow> \<not> (p \<noteq> [] \<and> last p \<in> set ''. '') \<and> CHR '':'' \<notin> set p
     \<and> \<not> list_ex (\<lambda>c. (of_char c :: nat) < 32) p
     \<and> map char_upper (hd (split_on CHR ''.'' p)) \<notin> set WIN_RESERVED_NAMES"
  unfolding part_fault_def by (simp split del: if_split) (simp split: if_split)

text \<open>C24: a name that the normalisation lets through is a plain relative path: its components
  are not empty, none is a dot or a double dot, and none ends in a dot or a blank, holds a colon or a
  control character, or names a Windows device; it is not absolute.\<close>

theorem normalised_path_is_plain:
  assumes "normalise_relpath rel = Inr nrm"
  shows "(p \<in> set (split_on CHR ''/'' nrm) \<longrightarrow>
      p \<noteq> [] \<and> p \<noteq> ''.'' \<and> p \<noteq> ''..'' \<and> last p \<noteq> CHR ''.'' \<and> last p \<noteq> CHR '' '' \<and> CHR '':'' \<notin> set p
      \<and> (\<forall>c \<in> set p. 32 \<le> (of_char c :: nat)) \<and> map char_upper (hd (split_on CHR ''.'' p)) \<notin> set WIN_RESERVED_NAMES)
    \<and> \<not> starts_with ''/'' nrm"
proof (intro conjI)
  define s where "s = map (\<lambda>c. if c = char_of (92 :: nat) then CHR ''/'' else c) (str_strip rel)"
  have parts: "path_parts s \<noteq> []" "''..'' \<notin> set (path_parts s)" "first_fault (path_parts s) = None"
      "nrm = join_on CHR ''/'' (path_parts s)"
    using assms by (auto simp: normalise_relpath_def Let_def s_def split: if_splits option.splits)
  have free: "\<forall>p \<in> set (path_parts s). CHR ''/'' \<notin> set p"
    by (auto simp: path_parts_def dest: split_on_free)
  then have split: "split_on CHR ''/'' nrm = path_parts s" using parts(1,4) by (simp add: split_join)
  have fault: "first_fault ps = None \<Longrightarrow> q \<in> set ps \<Longrightarrow> part_fault q = None" for ps q
    by (induction ps) (auto split: option.splits)
  have plain: "q \<noteq> [] \<and> q \<noteq> ''.'' \<and> q \<noteq> ''..'' \<and> part_fault q = None" if "q \<in> set (path_parts s)" for q
    using that fault [OF parts(3) that] parts(2) by (auto simp: path_parts_def)
  show "p \<in> set (split_on CHR ''/'' nrm) \<longrightarrow>
      p \<noteq> [] \<and> p \<noteq> ''.'' \<and> p \<noteq> ''..'' \<and> last p \<noteq> CHR ''.'' \<and> last p \<noteq> CHR '' '' \<and> CHR '':'' \<notin> set p
      \<and> (\<forall>c \<in> set p. 32 \<le> (of_char c :: nat)) \<and> map char_upper (hd (split_on CHR ''.'' p)) \<notin> set WIN_RESERVED_NAMES"
    using plain [of p] unfolding split part_fault_None list_ex_iff by (auto simp: not_less)
  obtain c cs rest where "path_parts s = (c # cs) # rest"
    using plain [of "hd (path_parts s)"] parts(1) by (cases "path_parts s"; cases "hd (path_parts s)") auto
  moreover from this obtain tl' where "nrm = c # tl'" using parts(4) by (cases rest) auto
  ultimately show "\<not> starts_with ''/'' nrm" using free by (auto simp: starts_with_def)
qed

lemma normalised_path_is_plain_witness: "\<not> starts_with ''/'' ''tools/old.py''"
  by (rule normalised_path_is_plain [of "''./tools//old.py''", THEN conjunct2]) code_simp

text \<open>nothing is removed unless the operator asks for it: without an override the variable has
  to be one of the arming words, and with the variable at one of the disabling words no override
  arms the pass.\<close>

theorem reclaim_needs_opt_in:
  assumes "raw = str_lower (str_strip (dget env RECLAIM_ENV []))"
    "override = None \<and> raw \<notin> set RECLAIM_ARMED \<or> raw \<in> set RECLAIM_DISABLED"
  shows "snd (reclaim_obsolete_files D s rdir prev cur (reclaim_mode env override)) = s"
proof -
  have "raw \<in> set RECLAIM_DISABLED \<Longrightarrow> raw \<notin> set RECLAIM_ARMED"
    by (auto simp: RECLAIM_DISABLED_def RECLAIM_ARMED_def)
  then have "reclaim_mode env override \<noteq> ReclaimDelete"
    using assms by (auto simp: reclaim_mode_def Let_def split: option.splits)
  then show ?thesis by (simp add: reclaim_obsolete_files_def split: prod.split)
qed

lemma reclaim_needs_opt_in_witness:
  "snd (reclaim_obsolete_files toy_disk toy_files ''/miner'' toy_shipped [(''new.py'', [])]
     (reclaim_mode [(RECLAIM_ENV, ''0'')] (Some ''delete''))) = toy_files"
  by (rule reclaim_needs_opt_in [OF refl])
    (simp add: dget_def RECLAIM_DISABLED_def str_strip_def is_space_def str_lower_def char_lower_def)

subsection \<open>Old and withheld manifests\<close>

text \<open>How a sync ends: with nothing found, with a check that did not return, or with a release.\<close>

lemma sync_cases:
  assumes "sync_from_manifest W U argv mirrors pubkey startup enabled limit now reclaim h = (out, h')"
    "old = manifest_floor (load_state U (ho_world h))"
    "lv = (case read_local_version (up_version U (ho_world h)) of Inl _ \<Rightarrow> None | Inr v \<Rightarrow> Some v)"
    "f = fetch_best_manifest W (if mirrors = [] then MIRRORS else mirrors) pubkey
       (up_fetch U (ho_world h)) (up_loads U) old"
  obtains (quiet) "h' = h" "\<And>res m. out = Inr res \<Longrightarrow> sy_manifest res \<noteq> Some m"
    | (stopped) m where "ho_world h' = ho_world (snd (check_and_update W U argv mirrors pubkey enabled limit
        now (\<not> startup) (Some m) reclaim h))" "\<And>res m. out = Inr res \<Longrightarrow> sy_manifest res \<noteq> Some m"
    | (synced) m upd h1 where "mf_manifest f = Some m" "out = Inr (fst (sync_verified W U old f m lv upd h1))"
        "h' = snd (sync_verified W U old f m lv upd h1)"
proof -
  let ?check = "\<lambda>m. check_and_update W U argv mirrors pubkey enabled limit now (\<not> startup) (Some m) reclaim h"
  note d = assms(1) [unfolded sync_from_manifest_def Let_def, folded assms(2), folded assms(3) assms(4)]
  show thesis
  proof (cases "enabled \<and> mf_manifest f \<noteq> None")
    case False
    then show thesis using d by (intro quiet) (auto simp: empty_sync_def split: if_splits)
  next
    case True
    then obtain m where m: "mf_manifest f = Some m" by auto
    obtain got h1 where run: "?check m = (got, h1)" by (cases "?check m")
    show thesis
    proof (cases got)
      case (Inl e)
      have "ho_world h' = ho_world h1 \<and> (\<forall>res m. out = Inr res \<longrightarrow> sy_manifest res \<noteq> Some m)"
        using d True m run Inl by (cases e) (auto simp: empty_sync_def)
      then show thesis using stopped [of m] run by simp
    next
      case (Inr upd)
      then show thesis using d True m run
        by (cases "sync_verified W U old f m lv upd h1") (auto intro: synced [OF m, of upd h1])
    qed
  qed
qed


definition toy_synced :: "(exn + sync_result) \<times> (json \<times> (string, string) pydict) host" where
  "toy_synced = sync_from_manifest toy_world (toy_updater (Some toy_manifest)) [''run''] [(''m'', ''u'')] ''k''
     True True 0 0 None toy_host"

lemma toy_sync: "case toy_synced of (Inr res, h) \<Rightarrow> sy_manifest res = Some toy_manifest | _ \<Rightarrow> False"
  by code_simp

lemma toy_syncedE:
  obtains res h where "toy_synced = (Inr res, h)" "sy_manifest res = Some toy_manifest"
  using toy_sync by (cases toy_synced) (auto split: sum.splits)


text \<open>once a sync has seen a release, a later sync that finds no mirror it can believe still
  applies the publish gate of that release: withholding the manifest does not lift the gate.\<close>

theorem withheld_manifest_keeps_the_gate:
  assumes "keeps_state_file U"
    "sync_from_manifest W U argv mirrors pubkey startup enabled limit now reclaim h = (Inr res, h1)"
    "sy_manifest res = Some m" "ho_world h2 = ho_world h1"
    "mf_manifest (fetch_best_manifest W (if mirrors = [] then MIRRORS else mirrors) pubkey
       (fetch2 (ho_world h2)) (up_loads U) (manifest_floor (load_state U (ho_world h2)))) = None"
    "sync_from_manifest W (U\<lparr>up_fetch := fetch2\<rparr>) argv mirrors pubkey startup2 True limit now2 reclaim h2
       = (Inr res2, h3)"
  shows "sy_block res2 = publish_block_reason W m (sy_local res2) \<and> h3 = h2"
proof -
  have seen: "json_object m \<and> dget (load_state U (ho_world h1)) ''min_client_version'' JNull = mget m ''min_client_version''"
    using assms(2) refl refl refl
  proof (cases rule: sync_cases)
    case (synced n upd h0)
    have "n = m" using synced(2) assms(3) by (simp add: sync_verified_def Let_def)
    moreover have "usable W pubkey (manifest_floor (load_state U (ho_world h))) n"
      using synced(1) by (rule fetched_usable)
    then obtain r where "verify_manifest W n pubkey = Inr r" by (auto simp: usable_def elim: verifiedE)
    then obtain kvs where "n = JObj kvs" using field_error_None(1) [OF verify_Inr(1)] by blast
    then have "json_object n" by simp
    ultimately show ?thesis using synced(3) synced_state(2) [OF assms(1)] by simp
  qed (use assms(3) in auto)
  have load: "load_state (U\<lparr>up_fetch := fetch2\<rparr>) s = load_state U s" for s by (simp add: load_state_def)
  have "publish_block_reason W (JObj [(''min_client_version'', mget m ''min_client_version'')]) lv
      = publish_block_reason W m lv" for lv
    using seen by (simp add: publish_block_reason_def Let_def)
  then show ?thesis
    using assms(4-6) seen by (auto simp: sync_from_manifest_def load Let_def)
qed

lemma withheld_manifest_keeps_the_gate_witness:
  "\<exists>res2 :: sync_result. sy_block res2 = Some BelowMinimum"
proof -
  let ?U = "toy_updater (Some toy_manifest)"
  let ?U2 = "?U\<lparr>up_fetch := (\<lambda>s url. Inl TypeError)\<rparr>"
  obtain res h1 where run: "toy_synced = (Inr res, h1)" "sy_manifest res = Some toy_manifest" by (rule toy_syncedE)
  have gone: "mf_manifest (fetch_best_manifest toy_world [(''m'', ''u'')] ''k'' (\<lambda>url. Inl TypeError) (up_loads ?U) f)
      = None" for f
    by (simp add: fetch_best_manifest_def try_mirror_def empty_fetch_def Let_def)
  obtain res2 h3 where run2: "sync_from_manifest toy_world ?U2 [''run''] [(''m'', ''u'')] ''k'' True True 0 0 None h1
      = (Inr res2, h3)" "sy_local res2 = Some ''3.7.0''"
  proof (rule that)
    have "read_local_version (up_version ?U2 s) = Inr ''3.7.0''" for s by code_simp
    then show "sync_from_manifest toy_world ?U2 [''run''] [(''m'', ''u'')] ''k'' True True 0 0 None h1
        = (Inr (empty_sync\<lparr>sy_fetch := Some (fetch_best_manifest toy_world [(''m'', ''u'')] ''k''
               (\<lambda>url. Inl TypeError) (up_loads ?U) (manifest_floor (load_state ?U2 (ho_world h1)))),
             sy_local := Some ''3.7.0'',
             sy_block := publish_block_reason toy_world
               (JObj [(''min_client_version'', dget (load_state ?U2 (ho_world h1)) ''min_client_version'' JNull)])
               (Some ''3.7.0'')\<rparr>), h1)"
      using gone by (simp add: sync_from_manifest_def Let_def)
  qed simp
  have "sy_block res2 = publish_block_reason toy_world toy_manifest (sy_local res2)"
    by (rule withheld_manifest_keeps_the_gate [OF toy_keeps run(1) [unfolded toy_synced_def] run(2) refl _ run2(1), THEN conjunct1])
      (simp add: gone)
  moreover have "publish_block_reason toy_world toy_manifest (Some ''3.7.0'') = Some BelowMinimum"
    by code_simp
  ultimately show ?thesis using run2(2) by auto
qed

subsection \<open>Where the code and its comments part\<close>

text \<open>An abbreviated commit id passes the verification and can never be the head of the tree that git
  prints in full.\<close>

lemma abbreviated_commit_never_runs:
  assumes "length (str_strip out) = 40" "length commit < 40"
  shows "\<not> git_names commit (Inr (rc, out))"
proof
  assume "git_names commit (Inr (rc, out))"
  then have "length (str_lower (str_strip out)) = length (str_lower commit)" by (simp add: git_names_def)
  then show False using assms by (simp add: str_lower_def)
qed

lemma commit_with_newline_passes: "commit_re (''abcdef1'' @ [newline])"
  by (simp add: commit_re_def before_end_def run_of_def is_hexdigit_def is_digit_def)

text \<open>An empty minimum version canonicalises like an absent one and is refused by the verification.\<close>

lemma empty_minimum_is_refused:
  "m = JObj [(''version'', JStr ''1''), (''git_commit'', JStr ''abcdef1''), (''published_ts'', JInt 1),
     (''signature'', JStr ''s'')] \<Longrightarrow>
   canonical_manifest_bytes W (JObj [(''version'', JStr ''1''), (''git_commit'', JStr ''abcdef1''),
     (''published_ts'', JInt 1), (''signature'', JStr ''s''), (''min_client_version'', JStr [])])
     = canonical_manifest_bytes W m
   \<and> field_error toy_world m = None
   \<and> field_error toy_world (JObj [(''version'', JStr ''1''), (''git_commit'', JStr ''abcdef1''),
     (''published_ts'', JInt 1), (''signature'', JStr ''s''), (''min_client_version'', JStr [])])
     = Some BadMinVersion"
  apply hypsubst
  apply (intro conjI)
    apply (simp add: canonical_manifest_bytes_def optional_field_def MANIFEST_FILES_KEY_def)
   apply code_simp
  apply code_simp
  done

text \<open>A minimum version of zero is not signed: it can be added to a signed manifest, and a client that
  cannot read its own version stops publishing.\<close>

lemma unsigned_minimum_blocks:
  assumes "m = JObj kvs" "map_of kvs ''min_client_version'' = None"
  shows "canonical_manifest_bytes W (JObj (kvs @ [(''min_client_version'', JInt 0)])) = canonical_manifest_bytes W m"
    "publish_block_reason W m None = None"
    "publish_block_reason W (JObj (kvs @ [(''min_client_version'', JInt 0)])) None = Some UnknownLocal"
proof -
  have other: "k \<noteq> ''min_client_version'' \<Longrightarrow> map_of (kvs @ [(''min_client_version'', JInt 0)]) k = map_of kvs k" for k
    by (auto simp: map_add_def split: option.split)
  define kvs' where "kvs' = kvs @ [(''min_client_version'', JInt 0)]"
  have zero: "map_of kvs' ''min_client_version'' = Some (JInt 0)" using assms(2) by (simp add: kvs'_def map_add_def)
  have same: "k \<noteq> ''min_client_version'' \<Longrightarrow> map_of kvs' k = map_of kvs k" for k
    using other by (simp add: kvs'_def)
  have "canonical_manifest_bytes W (JObj kvs') = canonical_manifest_bytes W m"
    using assms(2) by (simp add: canonical_manifest_bytes_def optional_field_def MANIFEST_FILES_KEY_def assms(1) zero same
        cong del: bindE_weak_cong)
  then show "canonical_manifest_bytes W (JObj (kvs @ [(''min_client_version'', JInt 0)])) = canonical_manifest_bytes W m"
    by (simp add: kvs'_def)
  show "publish_block_reason W m None = None" using assms by (simp add: publish_block_reason_def)
  have "\<exists>v. parse_version (str_of W (JInt 0)) = Inr v"
  proof
    have "int_str 0 = ''0''" by code_simp
    then have "str_of W (JInt 0) = ''0''" by (simp add: str_of_def)
    moreover have "parse_version ''0'' = Inr [0]" by code_simp
    ultimately show "parse_version (str_of W (JInt 0)) = Inr [0]" by simp
  qed
  then show "publish_block_reason W (JObj (kvs @ [(''min_client_version'', JInt 0)])) None = Some UnknownLocal"
    using assms(2) by (auto simp: publish_block_reason_def map_add_def)
qed

text \<open>The same version in a longer spelling counts as a forward move.\<close>

lemma longer_spelling_is_forward: "is_forward ''3.7.0'' ''3.7'' = Inr True"
  by code_simp

text \<open>A check that is disabled or comes too early leaves no record of the attempt.\<close>

lemma quiet_checks_leave_no_record:
  assumes "check_and_update W U argv mirrors pubkey enabled limit now honor supplied reclaim h = (Inr r, h')"
    "ur_action r = UDisabled \<or> ur_action r = URateLimited"
    "read_local_version (up_version U (ho_world h)) = Inr lv"
    "\<not> enabled \<or> honor \<and> rate_limited (load_last_check U (ho_world h)) now limit = Inr True"
  shows "h' = h"
  using assms by (auto simp: check_and_update_def split: if_splits)

text \<open>An infinite stamp in the state file raises out of the check.\<close>

lemma infinite_stamp_raises_in_check:
  assumes "load_last_check U (ho_world h) = PosInf" "read_local_version (up_version U (ho_world h)) = Inr lv"
  shows "check_and_update W U argv mirrors pubkey True limit now True supplied reclaim h = (Inl OverflowError, h)"
  using assms by (simp add: check_and_update_def rate_limited_def xsub_def)

end
