(* ===== verification/Merkle.thy ===== *)
theory Merkle
  imports Clock Merge_Arrays
begin

text \<open>
  The Merkle challenge of \<^verbatim>\<open>neurahash/merkle_verify.py\<close>: the commitment to every state of a training
  run, the proofs of membership, the challenged steps, the worker and the verifier. The neural model
  and numpy are not part of the model: a record \<open>learner\<close> gives the operations the code calls.
\<close>

subsection \<open>The learner\<close>

text \<open>
  In the order of the fields: \<^verbatim>\<open>hashlib.sha256(b).digest()\<close>; the float64 bytes of an array; the
  bytes of the inputs and of the labels of a shard; \<^verbatim>\<open>X.shape[0]\<close>; the gradients of one forward and
  backward pass, dense or of one expert; \<^verbatim>\<open>p - lr * g\<close>; \<^verbatim>\<open>x - y\<close>; \<^verbatim>\<open>np.array_equal\<close>;
  \<^verbatim>\<open>float((v ** 2).sum())\<close>; \<^verbatim>\<open>x ** 0.5\<close>; \<^verbatim>\<open>np.allclose(x, y, rtol, atol)\<close>; \<^verbatim>\<open>hash_params\<close>.
\<close>

record ('x, 'a) learner =
  ln_digest :: "string \<Rightarrow> string"
  ln_bytes64 :: "'a \<Rightarrow> string"
  ln_inputs :: "'x \<Rightarrow> string"
  ln_labels :: "'x \<Rightarrow> string"
  ln_rows :: "'x \<Rightarrow> nat"
  ln_grads :: "'x \<Rightarrow> string option \<Rightarrow> 'a params \<Rightarrow> exn + 'a params"
  ln_descend :: "rat \<Rightarrow> 'a \<Rightarrow> 'a \<Rightarrow> 'a"
  ln_minus :: "'a \<Rightarrow> 'a \<Rightarrow> 'a"
  ln_equal :: "'a \<Rightarrow> 'a \<Rightarrow> bool"
  ln_square_sum :: "'a \<Rightarrow> xfloat"
  ln_root :: "xfloat \<Rightarrow> xfloat"
  ln_close :: "rat \<Rightarrow> rat \<Rightarrow> 'a \<Rightarrow> 'a \<Rightarrow> bool"
  ln_hash :: "'a params \<Rightarrow> string"

definition lookupE :: "('k, 'v) pydict \<Rightarrow> 'k \<Rightarrow> exn + 'v" where
  "lookupE d k = orE KeyError (map_of d k)"

subsection \<open>Leaves and challenges\<close>

definition state_leaf :: "('x, 'a) learner \<Rightarrow> 'a params \<Rightarrow> string list \<Rightarrow> exn + string" where
  "state_leaf L ps keys =
     bindE (mapE (\<lambda>k. bindE (lookupE ps k) (\<lambda>a. Inr (k @ ln_bytes64 L a))) (sort keys)) (\<lambda>chunks.
       Inr (ln_digest L (concat chunks)))"

definition data_leaf :: "('x, 'a) learner \<Rightarrow> 'x \<Rightarrow> string" where
  "data_leaf L shard = ln_digest L (ln_inputs L shard @ ln_labels L shard)"

text \<open>\<^verbatim>\<open>int.from_bytes(d, "big")\<close> and \<^verbatim>\<open>t.to_bytes(4, "big")\<close>.\<close>

definition be_int :: "string \<Rightarrow> int" where
  "be_int d = foldl (\<lambda>acc c. 256 * acc + of_char c) 0 d"

definition be4 :: "nat \<Rightarrow> exn + string" where
  "be4 t = (if t < 2 ^ 32
     then Inr (map (\<lambda>i. char_of (t div 256 ^ i mod 256)) [3, 2, 1, 0]) else Inl OverflowError)"

definition fiat_shamir_indices ::
  "('x, 'a) learner \<Rightarrow> string \<Rightarrow> string \<Rightarrow> string \<Rightarrow> int \<Rightarrow> nat \<Rightarrow> exn + int list" where
  "fiat_shamir_indices L rt data_hash beacon hh n =
     mapE (\<lambda>t. bindE (be4 t) (\<lambda>tb.
       let d = ln_digest L (rt @ data_hash @ beacon @ tb) in
       if hh = 0 then Inl ZeroDivisionError else Inr (be_int d mod hh + 1))) [0..<n]"

subsection \<open>The tree\<close>

definition hpair :: "(string \<Rightarrow> string) \<Rightarrow> string \<Rightarrow> string \<Rightarrow> string" where
  "hpair D a b = D (a @ b)"

text \<open>One round of the loop: an odd level repeats its last node, then the nodes are hashed in pairs.\<close>

definition padded :: "string list \<Rightarrow> string list" where
  "padded level = (if odd (length level) then level @ [last level] else level)"

fun pair_up :: "(string \<Rightarrow> string) \<Rightarrow> string list \<Rightarrow> string list" where
  "pair_up D (a # b # rest) = hpair D a b # pair_up D rest"
| "pair_up D _ = []"

definition up_level :: "(string \<Rightarrow> string) \<Rightarrow> string list \<Rightarrow> string list" where
  "up_level D level = pair_up D (padded level)"

lemma length_pair_up: "length (pair_up D xs) = length xs div 2"
  by (induction D xs rule: pair_up.induct) simp_all

lemma length_padded: "length (padded level) = 2 * ((length level + 1) div 2)"
  by (auto simp: padded_def elim: oddE evenE)

lemma length_up_level: "length (up_level D level) = (length level + 1) div 2"
  by (simp add: up_level_def length_pair_up length_padded)

function root_of :: "(string \<Rightarrow> string) \<Rightarrow> string list \<Rightarrow> string" where
  "root_of D level = (if 1 < length level then root_of D (up_level D level) else hd level)"
  by pat_completeness auto
termination
  by (relation "measure (\<lambda>(D, level). length level)") (simp_all add: length_up_level)

declare root_of.simps [simp del]

definition merkle_root :: "(string \<Rightarrow> string) \<Rightarrow> string list \<Rightarrow> string" where
  "merkle_root D leaves = (if leaves = [] then replicate 32 (char_of (0 :: nat)) else root_of D leaves)"

text \<open>\<^verbatim>\<open>xs[i]\<close>: a negative index counts from the end.\<close>

definition list_at :: "'b list \<Rightarrow> int \<Rightarrow> exn + 'b" where
  "list_at xs i = (let j = (if i < 0 then i + int (length xs) else i) in
     if 0 \<le> j \<and> j < int (length xs) then Inr (xs ! nat j) else Inl IndexError)"

function proof_of :: "(string \<Rightarrow> string) \<Rightarrow> string list \<Rightarrow> int \<Rightarrow> exn + (string \<times> bool) list" where
  "proof_of D level i =
     (if 1 < length level then
        (let sib = (if even i then i + 1 else i - 1) in
         bindE (list_at (padded level) sib) (\<lambda>s.
           bindE (proof_of D (up_level D level) (i div 2)) (\<lambda>rest. Inr ((s, sib < i) # rest))))
      else Inr [])"
  by pat_completeness auto
termination
  by (relation "measure (\<lambda>(D, level, i). length level)") (simp_all add: length_up_level)

declare proof_of.simps [simp del]

definition merkle_proof :: "(string \<Rightarrow> string) \<Rightarrow> string list \<Rightarrow> int \<Rightarrow> exn + (string \<times> bool) list" where
  "merkle_proof D leaves idx = proof_of D leaves idx"

definition climb :: "(string \<Rightarrow> string) \<Rightarrow> string \<Rightarrow> string \<times> bool \<Rightarrow> string" where
  "climb D h step = (case step of (sib, sib_is_left) \<Rightarrow> if sib_is_left then hpair D sib h else hpair D h sib)"

definition merkle_verify :: "(string \<Rightarrow> string) \<Rightarrow> string \<Rightarrow> (string \<times> bool) list \<Rightarrow> string \<Rightarrow> bool" where
  "merkle_verify D leaf path rt = (foldl (climb D) leaf path = rt)"

subsection \<open>One step of training\<close>

text \<open>\<^verbatim>\<open>p[k] -= lr * grads[k]\<close> for each trainable key, on a copy of the parameters.\<close>

fun descend_keys :: "('x, 'a) learner \<Rightarrow> rat \<Rightarrow> 'a params \<Rightarrow> string list \<Rightarrow> 'a params \<Rightarrow> exn + 'a params" where
  "descend_keys L lr grads [] p = Inr p"
| "descend_keys L lr grads (k # keys) p =
     bindE (lookupE p k) (\<lambda>a. bindE (lookupE grads k) (\<lambda>g.
       descend_keys L lr grads keys (dset k (ln_descend L lr a g) p)))"

definition one_step ::
  "('x, 'a) learner \<Rightarrow> 'a params \<Rightarrow> 'x \<Rightarrow> string list \<Rightarrow> rat \<Rightarrow> string option \<Rightarrow> exn + 'a params" where
  "one_step L ps shard keys lr expert =
     (if 0 < ln_rows L shard
      then bindE (ln_grads L shard expert ps) (\<lambda>grads. descend_keys L lr grads keys ps)
      else Inr ps)"

subsection \<open>The worker\<close>

record 'a submission =
  sb_address :: string
  sb_delta :: "'a params option"
  sb_root :: "string option"
  sb_steps :: "int option"
  sb_lr :: rat
  sb_examples :: "nat option"
  sb_data_hash :: "string option"
  sb_keys :: "string list option"
  sb_expert :: "string option"

record 'a trajectory =
  tj_states :: "'a params list"
  tj_leaves :: "string list"

text \<open>The states after the start; a dishonest worker repeats the state from step \<open>skip\<close> on.\<close>

fun train_steps ::
  "('x, 'a) learner \<Rightarrow> 'x \<Rightarrow> string list \<Rightarrow> rat \<Rightarrow> string option \<Rightarrow> nat option \<Rightarrow> nat \<Rightarrow> nat \<Rightarrow> 'a params
    \<Rightarrow> exn + 'a params list" where
  "train_steps L shard keys lr expert skip step 0 p = Inr []"
| "train_steps L shard keys lr expert skip step (Suc n) p =
     bindE (if (case skip of None \<Rightarrow> True | Some s \<Rightarrow> step < s) then one_step L p shard keys lr expert else Inr p)
       (\<lambda>q. bindE (train_steps L shard keys lr expert skip (step + 1) n q) (\<lambda>rest. Inr (q # rest)))"

text \<open>A dictionary comprehension: a repeated key keeps its place and takes the last value.\<close>

definition dict_of_pairs :: "('k \<times> 'v) list \<Rightarrow> ('k, 'v) pydict" where
  "dict_of_pairs ps = foldl (\<lambda>d (k, v). dset k v d) [] ps"

definition diff_keys ::
  "('x, 'a) learner \<Rightarrow> 'a params \<Rightarrow> 'a params \<Rightarrow> string list \<Rightarrow> exn + 'a params" where
  "diff_keys L ps qs keys =
     bindE (mapE (\<lambda>k. bindE (lookupE ps k) (\<lambda>a. bindE (lookupE qs k) (\<lambda>b. Inr (k, ln_minus L a b)))) keys)
       (\<lambda>pairs. Inr (dict_of_pairs pairs))"

text \<open>\<^verbatim>\<open>trainable_keys or list(global_params.keys())\<close>\<close>

definition keys_or_all :: "string list option \<Rightarrow> 'a params \<Rightarrow> string list" where
  "keys_or_all keys ps = (case keys of Some (k # ks) \<Rightarrow> k # ks | _ \<Rightarrow> dkeys ps)"

text \<open>\<^verbatim>\<open>MerkleWorker.train\<close>; \<open>hex\<close> is the text of the data digest.\<close>

definition merkle_train ::
  "('x, 'a) learner \<Rightarrow> (string \<Rightarrow> string) \<Rightarrow> string \<Rightarrow> bool \<Rightarrow> nat option \<Rightarrow> 'x \<Rightarrow> 'a params \<Rightarrow> nat \<Rightarrow> rat
    \<Rightarrow> string list option \<Rightarrow> string option \<Rightarrow> exn + 'a submission \<times> 'a trajectory" where
  "merkle_train L hex address honest skip_after shard gp hh lr trainable expert =
     (let keys = keys_or_all trainable gp in
      bindE (state_leaf L gp keys) (\<lambda>leaf0.
      bindE (train_steps L shard keys lr expert (if honest then None else skip_after) 0 hh gp) (\<lambda>later.
      bindE (mapE (\<lambda>s. state_leaf L s keys) later) (\<lambda>leaves.
      bindE (diff_keys L (last (gp # later)) gp keys) (\<lambda>delta.
        Inr (\<lparr>sb_address = address, sb_delta = Some delta,
              sb_root = Some (merkle_root (ln_digest L) (leaf0 # leaves)), sb_steps = Some (int hh),
              sb_lr = lr, sb_examples = Some (ln_rows L shard), sb_data_hash = Some (hex (data_leaf L shard)),
              sb_keys = Some keys, sb_expert = expert\<rparr>,
             \<lparr>tj_states = gp # later, tj_leaves = leaf0 # leaves\<rparr>))))))"

subsection \<open>The verifier\<close>

text \<open>What a prover answers for an index. It is another party, so an answer may depend on the calls
  before it: \<open>'p\<close> is its state.\<close>

record ('p, 'a) prover =
  pv_state :: "'p \<Rightarrow> int \<Rightarrow> (exn + 'a params) \<times> 'p"
  pv_proof :: "'p \<Rightarrow> int \<Rightarrow> (exn + (string \<times> bool) list) \<times> 'p"

datatype merkle_verdict =
    UnderWork | WrongKeys | WrongShard | WrongExamples | EndpointNotCommitted | WrongDelta
  | NotCommitted int | BadStep int | MerkleAccepted nat

definition merge_params :: "'a params \<Rightarrow> 'a params \<Rightarrow> 'a params" where
  "merge_params gp ps = foldl (\<lambda>d (k, v). dset k v d) gp ps"

definition recompute_step ::
  "('x, 'a) learner \<Rightarrow> 'a params \<Rightarrow> 'x \<Rightarrow> string list \<Rightarrow> rat \<Rightarrow> string option \<Rightarrow> 'a params \<Rightarrow> exn + 'a params" where
  "recompute_step L gp shard keys lr expert s_prev =
     (case expert of
        None \<Rightarrow> one_step L s_prev shard keys lr None
      | Some e \<Rightarrow> one_step L (merge_params gp s_prev) shard keys lr (Some e))"

fun delta_matches ::
  "('x, 'a) learner \<Rightarrow> 'a params \<Rightarrow> 'a params \<Rightarrow> 'a params \<Rightarrow> string list \<Rightarrow> exn + bool" where
  "delta_matches L ps gp delta [] = Inr True"
| "delta_matches L ps gp delta (k # keys) =
     bindE (lookupE ps k) (\<lambda>a. bindE (lookupE gp k) (\<lambda>b. bindE (lookupE delta k) (\<lambda>d.
       if ln_equal L (ln_minus L a b) d then delta_matches L ps gp delta keys else Inr False)))"

definition revealed ::
  "('x, 'a) learner \<Rightarrow> string list \<Rightarrow> string \<Rightarrow> ('p, 'a) prover \<Rightarrow> 'p \<Rightarrow> 'a params \<Rightarrow> int \<Rightarrow> exn + bool \<times> 'p" where
  "revealed L keys rt pv p s j =
     bindE (state_leaf L s keys) (\<lambda>leaf. case pv_proof pv p j of (answer, p') \<Rightarrow>
       bindE answer (\<lambda>path. Inr (merkle_verify (ln_digest L) leaf path rt, p')))"

fun challenge_all ::
  "('x, 'a) learner \<Rightarrow> 'a params \<Rightarrow> 'x \<Rightarrow> string list \<Rightarrow> rat \<Rightarrow> string option \<Rightarrow> string \<Rightarrow> ('p, 'a) prover \<Rightarrow> nat
    \<Rightarrow> 'p \<Rightarrow> int list \<Rightarrow> exn + merkle_verdict" where
  "challenge_all L gp shard keys lr expert rt pv n p [] = Inr (MerkleAccepted n)"
| "challenge_all L gp shard keys lr expert rt pv n p (j # js) =
     (case pv_state pv p (j - 1) of (answer, p1) \<Rightarrow>
       bindE answer (\<lambda>s_prev.
       bindE (revealed L keys rt pv p1 s_prev (j - 1)) (\<lambda>(ok, p2).
         if \<not> ok then Inr (NotCommitted (j - 1))
         else bindE (recompute_step L gp shard keys lr expert s_prev) (\<lambda>s_j.
           bindE (revealed L keys rt pv p2 s_j j) (\<lambda>(ok, p3).
             if \<not> ok then Inr (BadStep j) else challenge_all L gp shard keys lr expert rt pv n p3 js)))))"

definition merkle_check ::
  "('x, 'a) learner \<Rightarrow> (string \<Rightarrow> string) \<Rightarrow> 'a params \<Rightarrow> 'a submission \<Rightarrow> ('p, 'a) prover \<Rightarrow> 'p \<Rightarrow> 'x \<Rightarrow> nat
    \<Rightarrow> rat \<Rightarrow> int option \<Rightarrow> string \<Rightarrow> exn + merkle_verdict" where
  "merkle_check L hex gp sub pv p shard n lr protocol_steps beacon =
     bindE (orE KeyError (sb_keys sub)) (\<lambda>keys.
       if protocol_steps \<noteq> None \<and> sb_steps sub \<noteq> protocol_steps then Inr UnderWork
       else bindE (case protocol_steps of None \<Rightarrow> orE KeyError (sb_steps sub) | Some h \<Rightarrow> Inr h) (\<lambda>hh.
         bindE (orE KeyError (sb_root sub)) (\<lambda>rt.
         let delta = (case sb_delta sub of None \<Rightarrow> [] | Some d \<Rightarrow> d) in
         if set (dkeys delta) \<noteq> set keys then Inr WrongKeys
         else if sb_data_hash sub \<noteq> Some (hex (data_leaf L shard)) then Inr WrongShard
         else if sb_examples sub \<noteq> Some (ln_rows L shard) then Inr WrongExamples
         else (case pv_state pv p hh of (answer, p1) \<Rightarrow>
           bindE answer (\<lambda>s_end.
           bindE (revealed L keys rt pv p1 s_end hh) (\<lambda>(ok, p2).
             if \<not> ok then Inr EndpointNotCommitted
             else bindE (delta_matches L s_end gp delta keys) (\<lambda>same.
               if \<not> same then Inr WrongDelta
               else bindE (fiat_shamir_indices L rt (data_leaf L shard) beacon hh n) (\<lambda>js.
                 challenge_all L gp shard keys lr (sb_expert sub) rt pv n p2 js))))))))"

text \<open>The prover that answers from what it committed.\<close>

definition worker_prover :: "('x, 'a) learner \<Rightarrow> 'a trajectory \<Rightarrow> (unit, 'a) prover" where
  "worker_prover L tj = \<lparr>pv_state = (\<lambda>p i. (list_at (tj_states tj) i, p)),
     pv_proof = (\<lambda>p i. (merkle_proof (ln_digest L) (tj_leaves tj) i, p))\<rparr>"

end
