(* ===== verification/Recompute.thy ===== *)
theory Recompute
  imports Merkle
begin

text \<open>
  The full recompute and the quorum of recomputing validators: \<^verbatim>\<open>neurahash/verification.py\<close>,
  \<^verbatim>\<open>neurahash/quorum.py\<close> and the payload of \<^verbatim>\<open>neurahash/identity.py\<close>. The ledger whose \<^verbatim>\<open>slash\<close> is
  called is not part of the repository: it is a function on a state of its own.
\<close>

subsection \<open>The full recompute\<close>

text \<open>The inner loop: a shard without rows leaves the parameters alone.\<close>

fun replay_steps ::
  "('x, 'a) learner \<Rightarrow> 'x \<Rightarrow> string list \<Rightarrow> rat \<Rightarrow> nat \<Rightarrow> 'a params \<Rightarrow> exn + 'a params" where
  "replay_steps L shard keys lr 0 p = Inr p"
| "replay_steps L shard keys lr (Suc n) p =
     bindE (one_step L p shard keys lr None) (\<lambda>q. replay_steps L shard keys lr n q)"

definition recompute_trajectory ::
  "('x, 'a) learner \<Rightarrow> 'a params \<Rightarrow> 'x \<Rightarrow> string list option \<Rightarrow> nat \<Rightarrow> rat \<Rightarrow> exn + 'a params" where
  "recompute_trajectory L gp shard trainable hh lr =
     (let keys = (case trainable of None \<Rightarrow> dkeys gp | Some ks \<Rightarrow> ks) in
      bindE (replay_steps L shard keys lr hh gp) (\<lambda>p. diff_keys L p gp keys))"

definition recompute_step1 ::
  "('x, 'a) learner \<Rightarrow> 'a params \<Rightarrow> 'x \<Rightarrow> string list option \<Rightarrow> rat \<Rightarrow> exn + string" where
  "recompute_step1 L gp shard trainable lr =
     (let keys = (case trainable of None \<Rightarrow> dkeys gp | Some ks \<Rightarrow> ks) in
      bindE (one_step L gp shard keys lr None) (\<lambda>p.
      bindE (mapE (\<lambda>k. bindE (lookupE p k) (\<lambda>a. Inr (k, a))) keys) (\<lambda>kept. Inr (ln_hash L kept))))"

datatype recompute_verdict = NormOutOfBounds | WrongRole | NotTheRecompute | RecomputeMatched

definition recompute_valid :: "recompute_verdict \<Rightarrow> bool" where
  "recompute_valid v = (v = RecomputeMatched)"

definition xfinite :: "xfloat \<Rightarrow> bool" where
  "xfinite x = (case x of XFin _ \<Rightarrow> True | _ \<Rightarrow> False)"

definition submission_norm :: "('x, 'a) learner \<Rightarrow> 'a params \<Rightarrow> xfloat" where
  "submission_norm L delta = ln_root L (foldl xadd (XFin 0) (map (ln_square_sum L) (dvalues delta)))"

fun all_close ::
  "('x, 'a) learner \<Rightarrow> rat \<Rightarrow> rat \<Rightarrow> 'a params \<Rightarrow> (string \<times> 'a) list \<Rightarrow> exn + bool" where
  "all_close L rtol atol delta [] = Inr True"
| "all_close L rtol atol delta ((k, e) # rest) =
     bindE (lookupE delta k) (\<lambda>d. if ln_close L rtol atol d e then all_close L rtol atol delta rest else Inr False)"

definition check_submission ::
  "('x, 'a) learner \<Rightarrow> 'a params \<Rightarrow> 'a submission \<Rightarrow> 'x \<Rightarrow> nat \<Rightarrow> rat \<Rightarrow> rat \<Rightarrow> rat \<Rightarrow> rat
    \<Rightarrow> exn + recompute_verdict" where
  "check_submission L gp sub shard hh lr max_norm rtol atol =
     (let keys = keys_or_all (sb_keys sub) gp in
      bindE (orE KeyError (sb_delta sub)) (\<lambda>delta.
        if \<not> xfinite (submission_norm L delta) \<or> xless (XFin max_norm) (submission_norm L delta) then Inr NormOutOfBounds
        else bindE (recompute_trajectory L gp shard (Some keys) hh lr) (\<lambda>expected.
          if set (dkeys delta) \<noteq> set (dkeys expected) then Inr WrongRole
          else bindE (all_close L rtol atol delta expected) (\<lambda>same.
            Inr (if same then RecomputeMatched else NotTheRecompute)))))"

text \<open>\<^verbatim>\<open>slash(address, amount=None)\<close> of the ledger; the reason is a text for people.\<close>

type_synonym 'l slasher = "string \<Rightarrow> rat option \<Rightarrow> 'l \<Rightarrow> 'l"

definition verify_submission ::
  "('x, 'a) learner \<Rightarrow> 'a params \<Rightarrow> 'a submission \<Rightarrow> 'x \<Rightarrow> 'l slasher \<Rightarrow> 'l \<Rightarrow> nat \<Rightarrow> rat \<Rightarrow> rat \<Rightarrow> rat
    \<Rightarrow> rat \<Rightarrow> exn + bool \<times> 'l" where
  "verify_submission L gp sub shard sl ledger hh lr max_norm rtol atol =
     bindE (check_submission L gp sub shard hh lr max_norm rtol atol) (\<lambda>v.
       Inr (if recompute_valid v then (True, ledger) else (False, sl (sb_address sub) None ledger)))"

subsection \<open>The quorum\<close>

record validator_node =
  va_address :: string
  va_honest :: bool

text \<open>The defaults of \<^verbatim>\<open>check_submission\<close> that a vote uses.\<close>

definition MAX_DELTA_NORM :: rat where "MAX_DELTA_NORM = 50"
definition RTOL :: rat where "RTOL = rnd64 (1 / 10 ^ 6)"
definition ATOL :: rat where "ATOL = rnd64 (1 / 10 ^ 8)"

definition vote ::
  "('x, 'a) learner \<Rightarrow> 'a params \<Rightarrow> 'a submission \<Rightarrow> 'x \<Rightarrow> nat \<Rightarrow> rat \<Rightarrow> validator_node \<Rightarrow> exn + bool" where
  "vote L gp sub shard hh lr v =
     bindE (check_submission L gp sub shard hh lr MAX_DELTA_NORM RTOL ATOL) (\<lambda>r.
       Inr (if va_honest v then recompute_valid r else \<not> recompute_valid r))"

record quorum_info =
  qi_votes :: "(string \<times> bool) list"
  qi_valid :: nat
  qi_invalid :: nat
  qi_accepted :: "bool option"
  qi_worker_slashed :: bool
  qi_validators_slashed :: "string list"

definition quorum_decision :: "nat \<Rightarrow> nat \<Rightarrow> nat \<Rightarrow> bool option" where
  "quorum_decision m n_valid n_invalid =
     (if m \<le> n_invalid then Some False else if m \<le> n_valid then Some True else None)"

definition off_consensus :: "(string \<times> bool) list \<Rightarrow> bool option \<Rightarrow> string list" where
  "off_consensus votes accepted =
     (case accepted of None \<Rightarrow> [] | Some b \<Rightarrow> map fst (filter (\<lambda>(a, ok). ok \<noteq> b) votes))"

definition quorum_verify ::
  "('x, 'a) learner \<Rightarrow> 'a params \<Rightarrow> 'a submission \<Rightarrow> 'x \<Rightarrow> validator_node list \<Rightarrow> 'l slasher \<Rightarrow> 'l \<Rightarrow> nat
    \<Rightarrow> nat \<Rightarrow> rat \<Rightarrow> rat \<Rightarrow> exn + quorum_info \<times> 'l" where
  "quorum_verify L gp sub shard validators sl ledger m hh lr validator_slash =
     (if \<not> length validators < m * 2 then Inl (ValueError ''M must be a strict majority (M > N/2)'')
      else if \<not> distinct (map va_address validators) then Inl (ValueError ''duplicate validator addresses'')
      else bindE (mapE (\<lambda>v. bindE (vote L gp sub shard hh lr v) (\<lambda>ok. Inr (va_address v, ok))) validators) (\<lambda>votes.
        let n_valid = length (filter snd votes); n_invalid = length votes - n_valid;
            accepted = quorum_decision m n_valid n_invalid;
            slashed = off_consensus votes accepted;
            ledger1 = (if accepted = Some False then sl (sb_address sub) None ledger else ledger) in
        Inr (\<lparr>qi_votes = votes, qi_valid = n_valid, qi_invalid = n_invalid, qi_accepted = accepted,
              qi_worker_slashed = (accepted = Some False), qi_validators_slashed = slashed\<rparr>,
             foldl (\<lambda>l a. sl a (Some validator_slash) l) ledger1 slashed)))"

subsection \<open>The identity payload\<close>

definition identity_payload :: "world \<Rightarrow> string \<Rightarrow> int \<Rightarrow> string" where
  "identity_payload W address round_hint = dumps W (JObj
     [(''join'', JStr ''neurahash-pool''), (''address'', JStr address), (''n'', JInt round_hint)])"

end
