(* ===== verification/Merkle_Facts.thy ===== *)
theory Merkle_Facts
  imports Merkle
begin

text \<open>
  The lemmas of the Merkle challenge: the shape of the levels, completeness and soundness of the
  proofs, and the run of an honest worker through the verifier.
\<close>

subsection \<open>Levels\<close>

lemma nth_pair_up: "i < length xs div 2 \<Longrightarrow> pair_up D xs ! i = hpair D (xs ! (2 * i)) (xs ! (2 * i + 1))"
proof (induction D xs arbitrary: i rule: pair_up.induct)
  case (1 D a b rest)
  then show ?case by (cases i) auto
qed auto

lemma padded_nth: "i < length level \<Longrightarrow> padded level ! i = level ! i"
  by (simp add: padded_def nth_append)

lemma set_padded: "level \<noteq> [] \<Longrightarrow> set (padded level) = set level"
  by (auto simp: padded_def)

lemma nth_up_level:
  assumes "i < (length level + 1) div 2"
  shows "up_level D level ! i = hpair D (padded level ! (2 * i)) (padded level ! (2 * i + 1))"
  using assms unfolding up_level_def by (intro nth_pair_up) (simp add: length_padded)

text \<open>The number of rounds of the loop.\<close>

function rounds :: "nat \<Rightarrow> nat" where
  "rounds n = (if 1 < n then Suc (rounds ((n + 1) div 2)) else 0)"
  by pat_completeness auto
termination by (relation "measure (\<lambda>n. n)") auto

declare rounds.simps [simp del]

lemma rounds_bounds: "n \<le> 2 ^ rounds n \<and> (1 < n \<longrightarrow> 2 ^ rounds n < 2 * n)"
proof (induction n rule: rounds.induct)
  case (1 n)
  show ?case
  proof (cases "1 < n")
    case True
    let ?m = "(n + 1) div 2"
    have IH: "?m \<le> 2 ^ rounds ?m" "1 < ?m \<longrightarrow> 2 ^ rounds ?m < 2 * ?m" using 1 [OF True] by auto
    have r: "rounds n = Suc (rounds ?m)" using True by (subst rounds.simps) simp
    have "n \<le> 2 * ?m" by simp
    moreover have "2 * (2 ^ rounds ?m) < 2 * n"
    proof (cases "1 < ?m")
      case True
      obtain k where k: "rounds ?m = Suc k" using True by (subst (asm) rounds.simps) simp
      have "2 ^ rounds ?m < 2 * ?m" "even ((2::nat) ^ rounds ?m)" using IH(2) True k by simp_all
      then have "2 ^ rounds ?m < n" by presburger
      then show ?thesis by simp
    next
      case False
      with \<open>1 < n\<close> have "n = 2" by simp
      then show ?thesis by (simp add: rounds.simps)
    qed
    ultimately show ?thesis using IH(1) r by simp
  qed (simp add: rounds.simps)
qed


lemma levels_to_one: "level \<noteq> [] \<Longrightarrow> length ((up_level D ^^ k) level) = 1 \<longleftrightarrow> rounds (length level) \<le> k"
proof (induction k arbitrary: level)
  case 0
  then have "length level \<noteq> 0" by simp
  then have "length level = 1 \<longleftrightarrow> \<not> 1 < length level" by linarith
  then show ?case by (subst rounds.simps) simp
next
  case (Suc k)
  have f: "(up_level D ^^ Suc k) level = (up_level D ^^ k) (up_level D level)" by (simp add: funpow_swap1)
  have ne: "up_level D level \<noteq> []" using Suc.prems length_up_level [of D level] by (cases level) auto
  show ?case
  proof (cases "1 < length level")
    case True
    then show ?thesis unfolding f Suc.IH [OF ne] by (subst (2) rounds.simps) (simp add: length_up_level)
  next
    case False
    moreover have "length level \<noteq> 0" using Suc.prems by simp
    ultimately have one: "length level = 1" by linarith
    have "length (up_level D level) = 1" using one by (simp add: length_up_level)
    then show ?thesis unfolding f Suc.IH [OF ne] by (simp add: one rounds.simps)
  qed
qed

lemma root_of_rounds: "level \<noteq> [] \<Longrightarrow> root_of D level = hd ((up_level D ^^ rounds (length level)) level)"
proof (induction D level rule: root_of.induct)
  case (1 D level)
  show ?case
  proof (cases "1 < length level")
    case True
    then have ne: "up_level D level \<noteq> []" using length_up_level [of D level] by (cases level) auto
    have "rounds (length level) = Suc (rounds (length (up_level D level)))"
      using True by (subst rounds.simps) (simp add: length_up_level)
    then show ?thesis using 1(1) [OF True ne] True by (subst root_of.simps) (simp add: funpow_swap1)
  next
    case False
    then show ?thesis by (subst root_of.simps, subst rounds.simps) simp
  qed
qed

subsection \<open>Proofs of membership\<close>

lemma list_at_nat: "i < length xs \<Longrightarrow> list_at xs (int i) = Inr (xs ! i)"
  by (simp add: list_at_def)

lemma proof_complete:
  assumes "i < length level"
  shows "\<exists>path. proof_of D level (int i) = Inr path \<and> foldl (climb D) (level ! i) path = root_of D level
    \<and> length path = rounds (length level)"
  using assms
proof (induction D level arbitrary: i rule: root_of.induct)
  case (1 D level)
  show ?case
  proof (cases "1 < length level")
    case False
    then have "i = 0" "level \<noteq> []" using 1(2) by auto
    with False show ?thesis
      by (subst proof_of.simps, subst root_of.simps, subst rounds.simps) (simp add: hd_conv_nth)
  next
    case True
    let ?l = "padded level" and ?s = "if even i then i + 1 else i - 1"
    have half: "i div 2 < (length level + 1) div 2" using 1(2) by auto
    then obtain path where path: "proof_of D (up_level D level) (int (i div 2)) = Inr path"
        "foldl (climb D) (up_level D level ! (i div 2)) path = root_of D (up_level D level)"
        "length path = rounds (length (up_level D level))"
      using 1(1) [OF True, of "i div 2"] by (auto simp: length_up_level)
    have s: "?s < length ?l" using half by (auto simp: length_padded elim!: evenE oddE)
    have sib: "(if even (int i) then int i + 1 else int i - 1) = int ?s" by (auto elim: oddE)
    have dir: "(int ?s < int i) = odd i" by (auto elim: oddE)
    have "climb D (?l ! i) (?l ! ?s, odd i) = up_level D level ! (i div 2)"
      unfolding nth_up_level [OF half] by (auto simp: climb_def elim!: evenE oddE)
    then have "foldl (climb D) (level ! i) ((?l ! ?s, odd i) # path) = root_of D level"
      using path(2) padded_nth [OF 1(2)] True by (subst root_of.simps) simp
    moreover have "proof_of D level (int i) = Inr ((?l ! ?s, odd i) # path)"
      using True path(1) list_at_nat [OF s] dir
      by (subst proof_of.simps, unfold sib Let_def) (simp add: zdiv_int cong del: if_weak_cong)
    moreover have "length ((?l ! ?s, odd i) # path) = rounds (length level)"
      using True path(3) by (subst rounds.simps) (simp add: length_up_level)
    ultimately show ?thesis by blast
  qed
qed

text \<open>
  The inputs that the tree over a level hashes, and those that a path hashes on its way up. That the
  digest has no collision among them is what the proofs rest on.
\<close>

fun pair_inputs :: "string list \<Rightarrow> string set" where
  "pair_inputs (a # b # rest) = insert (a @ b) (pair_inputs rest)"
| "pair_inputs _ = {}"

function tree_inputs :: "(string \<Rightarrow> string) \<Rightarrow> string list \<Rightarrow> string set" where
  "tree_inputs D level =
     (if 1 < length level then pair_inputs (padded level) \<union> tree_inputs D (up_level D level) else {})"
  by pat_completeness auto
termination
  by (relation "measure (\<lambda>(D, level). length level)") (simp_all add: length_up_level)

declare tree_inputs.simps [simp del]

definition step_input :: "string \<Rightarrow> string \<times> bool \<Rightarrow> string" where
  "step_input h step = (case step of (sib, left_one) \<Rightarrow> if left_one then sib @ h else h @ sib)"

lemma climb_step: "climb D h step = D (step_input h step)"
  by (simp add: climb_def step_input_def hpair_def split: prod.split)

fun path_inputs :: "(string \<Rightarrow> string) \<Rightarrow> string \<Rightarrow> (string \<times> bool) list \<Rightarrow> string set" where
  "path_inputs D h [] = {}"
| "path_inputs D h (step # path) = insert (step_input h step) (path_inputs D (climb D h step) path)"

lemma pair_up_member:
  "h \<in> set (pair_up D level) \<Longrightarrow> \<exists>a \<in> set level. \<exists>b \<in> set level. h = D (a @ b) \<and> a @ b \<in> pair_inputs level"
  by (induction D level rule: pair_up.induct) (auto simp: hpair_def)

lemma pair_up_length: "(\<And>x. length (D x) = 32) \<Longrightarrow> h \<in> set (pair_up D level) \<Longrightarrow> length h = 32"
  by (induction D level rule: pair_up.induct) (auto simp: hpair_def)

lemma step_input_split:
  assumes "step_input leaf step = a @ b" "length leaf = length a" "length leaf = length b"
  shows "leaf = a \<or> leaf = b"
proof (cases step)
  case (Pair sib l)
  show ?thesis
  proof (cases l)
    case True
    then have "sib @ leaf = a @ b" using assms(1) Pair by (simp add: step_input_def)
    then have "sib = a \<and> leaf = b" using append_eq_append_conv [of sib a leaf b] assms(3) by blast
    then show ?thesis by simp
  next
    case False
    then have "leaf @ sib = a @ b" using assms(1) Pair by (simp add: step_input_def)
    then have "leaf = a \<and> sib = b" using append_eq_append_conv [of leaf a sib b] assms(2) by blast
    then show ?thesis by simp
  qed
qed

lemma path_sound:
  assumes "foldl (climb D) leaf path = root_of D level" "length path = rounds (length level)" "level \<noteq> []"
    "\<And>x. length (D x) = 32" "length leaf = 32" "\<And>x. x \<in> set level \<Longrightarrow> length x = 32"
    "inj_on D (tree_inputs D level \<union> path_inputs D leaf path)"
  shows "leaf \<in> set level"
  using assms
proof (induction D level arbitrary: leaf path rule: root_of.induct)
  case (1 D level)
  show ?case
  proof (cases "1 < length level")
    case False
    then have "path = []" "level = [hd level]" using 1(3,4)
      by (auto simp: rounds.simps [of "length level"] not_less le_Suc_eq length_Suc_conv)
    then show ?thesis using 1(2) False by (subst (asm) root_of.simps) (metis foldl_Nil list.set_intros(1))
  next
    case True
    then obtain step rest where path: "path = step # rest"
      using 1(3) by (subst (asm) rounds.simps) (auto simp: length_Suc_conv)
    let ?up = "up_level D level" and ?h = "climb D leaf step"
    have ne: "?up \<noteq> []" using True length_up_level [of D level] by (cases level) auto
    have len: "length x = 32" if "x \<in> set ?up" for x
      using that 1(5) pair_up_length by (auto simp: up_level_def)
    have up: "tree_inputs D level = pair_inputs (padded level) \<union> tree_inputs D ?up"
      using True by (subst tree_inputs.simps) simp
    have "?h \<in> set ?up"
    proof (rule 1(1) [OF True])
      show "foldl (climb D) ?h rest = root_of D ?up" using 1(2) path True by (subst (asm) root_of.simps) simp
      show "length rest = rounds (length ?up)"
        using 1(3) path True by (subst (asm) rounds.simps) (simp add: length_up_level)
      show "inj_on D (tree_inputs D ?up \<union> path_inputs D ?h rest)"
        using 1(8) by (rule inj_on_subset) (auto simp: path up)
    qed (use ne len 1(5) in \<open>auto simp: climb_step\<close>)
    then obtain a b where ab: "a \<in> set (padded level)" "b \<in> set (padded level)" "?h = D (a @ b)"
        "a @ b \<in> pair_inputs (padded level)"
      using pair_up_member by (fastforce simp: up_level_def)
    have "step_input leaf step = a @ b"
    proof (rule inj_onD [OF 1(8)])
      show "D (step_input leaf step) = D (a @ b)" using ab(3) by (simp only: climb_step)
      show "step_input leaf step \<in> tree_inputs D level \<union> path_inputs D leaf path" by (simp add: path)
      show "a @ b \<in> tree_inputs D level \<union> path_inputs D leaf path" using ab(4) unfolding up by blast
    qed
    moreover have "length leaf = length a"
      unfolding 1(6) using ab(1) unfolding set_padded [OF 1(4)] by (rule 1(7) [symmetric])
    moreover have "length leaf = length b"
      unfolding 1(6) using ab(2) unfolding set_padded [OF 1(4)] by (rule 1(7) [symmetric])
    ultimately have "leaf = a \<or> leaf = b" by (rule step_input_split)
    then show ?thesis using ab(1,2) unfolding set_padded [OF 1(4)] by blast
  qed
qed

subsection \<open>An honest run\<close>

lemma train_steps_run:
  assumes "train_steps L shard keys lr expert None step n p = Inr later"
  shows "length later = n" "\<And>i. i < n \<Longrightarrow> one_step L ((p # later) ! i) shard keys lr expert = Inr (later ! i)"
proof -
  have "length later = n \<and> (\<forall>i < n. one_step L ((p # later) ! i) shard keys lr expert = Inr (later ! i))"
    using assms
  proof (induction n arbitrary: step p later)
    case (Suc n)
    then obtain q rest where q: "one_step L p shard keys lr expert = Inr q"
        "train_steps L shard keys lr expert None (step + 1) n q = Inr rest" "later = q # rest"
      by (auto simp: bindE_Inr_iff)
    have IH: "length rest = n" "\<forall>i < n. one_step L ((q # rest) ! i) shard keys lr expert = Inr (rest ! i)"
      using Suc.IH [OF q(2)] by blast+
    have "one_step L ((p # later) ! i) shard keys lr expert = Inr (later ! i)" if "i < Suc n" for i
      using that IH(2) q(1,3) by (cases i) auto
    with IH(1) q(3) show ?case by simp
  qed simp
  then show "length later = n" "\<And>i. i < n \<Longrightarrow> one_step L ((p # later) ! i) shard keys lr expert = Inr (later ! i)"
    by blast+
qed

lemma mapE_Inr_nth:
  assumes "mapE f xs = Inr ys"
  shows "length ys = length xs" "\<And>i. i < length xs \<Longrightarrow> f (xs ! i) = Inr (ys ! i)"
proof -
  have "length ys = length xs \<and> (\<forall>i < length xs. f (xs ! i) = Inr (ys ! i))"
    using assms
  proof (induction xs arbitrary: ys)
    case (Cons x xs)
    then show ?case by (auto simp: bindE_Inr_iff nth_Cons' less_Suc_eq_0_disj)
  qed simp
  then show "length ys = length xs" "\<And>i. i < length xs \<Longrightarrow> f (xs ! i) = Inr (ys ! i)" by blast+
qed

lemma fiat_shamir_total:
  assumes "0 < hh" "n \<le> 2 ^ 32"
  shows "\<exists>js. fiat_shamir_indices L rt dh beacon hh n = Inr js \<and> (\<forall>j \<in> set js. 1 \<le> j \<and> j \<le> hh)"
proof -
  have "\<exists>js. mapE (\<lambda>t. bindE (be4 t) (\<lambda>tb.
       let d = ln_digest L (rt @ dh @ beacon @ tb) in
       if hh = 0 then Inl ZeroDivisionError else Inr (be_int d mod hh + 1))) ts = Inr js
      \<and> (\<forall>j \<in> set js. 1 \<le> j \<and> j \<le> hh)" if "\<And>t. t \<in> set ts \<Longrightarrow> t < 2 ^ 32" for ts
    using that
  proof (induction ts)
    case (Cons t ts)
    then obtain js where "mapE (\<lambda>t. bindE (be4 t) (\<lambda>tb.
       let d = ln_digest L (rt @ dh @ beacon @ tb) in
       if hh = 0 then Inl ZeroDivisionError else Inr (be_int d mod hh + 1))) ts = Inr js"
        "\<forall>j \<in> set js. 1 \<le> j \<and> j \<le> hh" by auto
    moreover obtain tb where "be4 t = Inr tb" using Cons.prems by (simp add: be4_def)
    moreover have "0 \<le> x mod hh \<and> x mod hh < hh" for x using assms(1) by simp
    then have "1 \<le> x mod hh + 1 \<and> x mod hh + 1 \<le> hh" for x by (metis add.commute add_increasing2 order_refl zless_imp_add1_zle)
    ultimately show ?case using assms(1) by (simp add: Let_def)
  qed simp
  from this [of "[0..<n]"] assms(2) show ?thesis by (simp add: fiat_shamir_indices_def)
qed

text \<open>What the run of an honest worker leaves behind.\<close>

definition honest_run ::
  "('x, 'a) learner \<Rightarrow> 'x \<Rightarrow> 'a params \<Rightarrow> nat \<Rightarrow> rat \<Rightarrow> string list \<Rightarrow> string option \<Rightarrow> 'a trajectory \<Rightarrow> bool" where
  "honest_run L shard gp hh lr keys expert tj \<longleftrightarrow>
     length (tj_states tj) = hh + 1 \<and> length (tj_leaves tj) = hh + 1 \<and> tj_states tj ! 0 = gp
   \<and> (\<forall>i \<le> hh. state_leaf L (tj_states tj ! i) keys = Inr (tj_leaves tj ! i))
   \<and> (\<forall>i < hh. one_step L (tj_states tj ! i) shard keys lr expert = Inr (tj_states tj ! (i + 1)))"

lemma merkle_train_honest:
  assumes "merkle_train L hex address True skip shard gp hh lr trainable expert = Inr (sub, tj)"
  shows "honest_run L shard gp hh lr (keys_or_all trainable gp) expert tj"
    "sb_root sub = Some (merkle_root (ln_digest L) (tj_leaves tj))" "sb_keys sub = Some (keys_or_all trainable gp)"
    "sb_steps sub = Some (int hh)" "sb_examples sub = Some (ln_rows L shard)"
    "sb_data_hash sub = Some (hex (data_leaf L shard))" "sb_expert sub = expert"
    "\<exists>d. sb_delta sub = Some d \<and> diff_keys L (tj_states tj ! hh) gp (keys_or_all trainable gp) = Inr d"
proof -
  let ?keys = "keys_or_all trainable gp"
  obtain leaf0 later leaves d where parts: "state_leaf L gp ?keys = Inr leaf0"
      "train_steps L shard ?keys lr expert None 0 hh gp = Inr later"
      "mapE (\<lambda>s. state_leaf L s ?keys) later = Inr leaves"
      "diff_keys L (last (gp # later)) gp ?keys = Inr d"
      "tj = \<lparr>tj_states = gp # later, tj_leaves = leaf0 # leaves\<rparr>"
      "sub = \<lparr>sb_address = address, sb_delta = Some d,
              sb_root = Some (merkle_root (ln_digest L) (leaf0 # leaves)), sb_steps = Some (int hh),
              sb_lr = lr, sb_examples = Some (ln_rows L shard), sb_data_hash = Some (hex (data_leaf L shard)),
              sb_keys = Some ?keys, sb_expert = expert\<rparr>"
    using assms by (auto simp: merkle_train_def Let_def bindE_Inr_iff)
  note run = train_steps_run [OF parts(2)] and lv = mapE_Inr_nth [OF parts(3)]
  have "(gp # later) ! hh = last (gp # later)" using run(1) by (subst last_conv_nth) auto
  then show "\<exists>d. sb_delta sub = Some d \<and> diff_keys L (tj_states tj ! hh) gp ?keys = Inr d"
    using parts(4-6) by simp
  have "state_leaf L ((gp # later) ! i) ?keys = Inr ((leaf0 # leaves) ! i)" if "i \<le> hh" for i
    using that parts(1) lv run(1) by (cases i) auto
  then show "honest_run L shard gp hh lr ?keys expert tj"
    using run lv(1) by (simp add: honest_run_def parts(5))
qed (use assms in \<open>auto simp: merkle_train_def Let_def bindE_Inr_iff\<close>)

lemma honest_reveals:
  assumes "honest_run L shard gp hh lr keys expert tj" "i \<le> hh"
  shows "revealed L keys (merkle_root (ln_digest L) (tj_leaves tj)) (worker_prover L tj) () (tj_states tj ! i) (int i)
      = Inr (True, ())"
proof -
  have i: "i < length (tj_leaves tj)" and leaf: "state_leaf L (tj_states tj ! i) keys = Inr (tj_leaves tj ! i)"
    using assms by (auto simp: honest_run_def)
  obtain path where path: "proof_of (ln_digest L) (tj_leaves tj) (int i) = Inr path"
      "foldl (climb (ln_digest L)) (tj_leaves tj ! i) path = root_of (ln_digest L) (tj_leaves tj)"
    using proof_complete [OF i] by blast
  moreover have "tj_leaves tj \<noteq> []" using i by auto
  ultimately show ?thesis
    by (simp add: revealed_def leaf worker_prover_def merkle_proof_def merkle_verify_def merkle_root_def)
qed

text \<open>A step keeps the names of the arrays and their order, so laying the revealed state over the start
  gives the revealed state: for an expert the verifier recomputes the worker's own step.\<close>

lemma dset_keeps_keys: "k \<in> set (dkeys d) \<Longrightarrow> dkeys (dset k v d) = dkeys d"
  by (induction d) auto

lemma descend_keys_keys: "descend_keys L lr grads keys p = Inr q \<Longrightarrow> dkeys q = dkeys p"
proof (induction keys arbitrary: p)
  case (Cons k keys)
  then obtain a g where "map_of p k = Some a" "descend_keys L lr grads keys (dset k (ln_descend L lr a g) p) = Inr q"
    by (auto simp: bindE_Inr_iff lookupE_def orE_Inr_iff)
  moreover from this have "k \<in> set (dkeys p)" by (auto dest: map_of_SomeD intro: rev_image_eqI)
  ultimately show ?case using Cons.IH [of "dset k (ln_descend L lr a g) p"] dset_keeps_keys [of k p] by simp
qed simp

lemma one_step_keys: "one_step L p shard keys lr expert = Inr q \<Longrightarrow> dkeys q = dkeys p"
  by (auto simp: one_step_def bindE_Inr_iff dest: descend_keys_keys split: if_splits)

lemma dset_between: "k \<notin> set (dkeys pre) \<Longrightarrow> dset k v (pre @ (k, u) # rest) = pre @ (k, v) # rest"
  by (induction pre) auto

lemma lay_over:
  "distinct (dkeys (pre @ a)) \<Longrightarrow> dkeys a = dkeys b \<Longrightarrow> foldl (\<lambda>d (k, v). dset k v d) (pre @ a) b = pre @ b"
proof (induction b arbitrary: pre a)
  case (Cons kv b)
  obtain k v where kv: "kv = (k, v)" by fastforce
  then obtain u a' where a: "a = (k, u) # a'" "dkeys a' = dkeys b" using Cons.prems(2) by (cases a) auto
  have "dset k v (pre @ a) = (pre @ [(k, v)]) @ a'" using Cons.prems(1) by (simp add: a dset_between)
  then show ?case using Cons.IH [of "pre @ [(k, v)]" a'] Cons.prems(1) a kv by simp
qed simp

lemma merge_params_same:
  assumes "distinct (dkeys gp)" "dkeys s = dkeys gp"
  shows "merge_params gp s = s"
proof -
  have "foldl (\<lambda>d (k, v). dset k v d) ([] @ gp) s = [] @ s" using assms by (intro lay_over) auto
  then show ?thesis by (simp only: merge_params_def append_Nil)
qed

lemma honest_run_keys:
  assumes "honest_run L shard gp hh lr keys expert tj" "i \<le> hh"
  shows "dkeys (tj_states tj ! i) = dkeys gp"
  using assms(2)
proof (induction i)
  case 0
  then show ?case using assms(1) by (simp add: honest_run_def)
next
  case (Suc i)
  then have "one_step L (tj_states tj ! i) shard keys lr expert = Inr (tj_states tj ! Suc i)"
    using assms(1) by (auto simp: honest_run_def)
  then show ?case using one_step_keys Suc by fastforce
qed

lemma honest_challenges:
  assumes "honest_run L shard gp hh lr keys expert tj" "\<forall>j \<in> set js. 1 \<le> j \<and> j \<le> int hh" "distinct (dkeys gp)"
  shows "challenge_all L gp shard keys lr expert (merkle_root (ln_digest L) (tj_leaves tj)) (worker_prover L tj) n () js
      = Inr (MerkleAccepted n)"
  using assms(2)
proof (induction js)
  case (Cons j js)
  define i where "i = nat (j - 1)"
  have i: "j = int (Suc i)" "Suc i \<le> hh" using Cons.prems by (auto simp: i_def)
  have state: "pv_state (worker_prover L tj) () (j - 1) = (Inr (tj_states tj ! i), ())"
    using assms(1) i by (simp add: worker_prover_def list_at_nat honest_run_def)
  have "one_step L (tj_states tj ! i) shard keys lr expert = Inr (tj_states tj ! Suc i)"
    using assms(1) i by (simp add: honest_run_def)
  moreover have "merge_params gp (tj_states tj ! i) = tj_states tj ! i"
    using merge_params_same [OF assms(3)] honest_run_keys [OF assms(1), of i] i(2) by simp
  ultimately have step: "recompute_step L gp shard keys lr expert (tj_states tj ! i) = Inr (tj_states tj ! Suc i)"
    by (cases expert) (simp_all add: recompute_step_def)
  show ?case
    using honest_reveals [OF assms(1), of i] honest_reveals [OF assms(1), of "Suc i"] i(2) Cons
    by (simp add: state i(1) [symmetric]) (simp add: i(1) step)
qed simp

lemma dict_of_pairs_snoc: "dict_of_pairs (ps @ [(k, v)]) = dset k v (dict_of_pairs ps)"
  by (simp add: dict_of_pairs_def)

lemma dict_of_pairs_get: "map_of (dict_of_pairs ps) k = map_of (rev ps) k"
  by (induction ps rule: rev_induct) (auto simp: dict_of_pairs_snoc map_of_dset, simp add: dict_of_pairs_def)

lemma dict_of_pairs_keys: "set (dkeys (dict_of_pairs ps)) = set (map fst ps)" "distinct (dkeys (dict_of_pairs ps))"
proof (induction ps rule: rev_induct)
  case (snoc x ps)
  {
    case 1
    obtain k v where x: "x = (k, v)" by (cases x)
    have "set (dkeys (dict_of_pairs (ps @ [x]))) = insert k (set (dkeys (dict_of_pairs ps)))"
      unfolding x dict_of_pairs_snoc by (rule dkeys_dset)
    then show ?case using snoc(1) x by simp
  next
    case 2
    show ?case using snoc(2) by (cases x) (simp add: dict_of_pairs_snoc distinct_dset)
  }
qed (simp_all add: dict_of_pairs_def)

lemma diff_keys_pairs:
  assumes "diff_keys L ps gp keys = Inr d"
  obtains pairs where "d = dict_of_pairs pairs" "map fst pairs = keys"
    "\<And>k v. (k, v) \<in> set pairs \<Longrightarrow>
       \<exists>a b. map_of ps k = Some a \<and> map_of gp k = Some b \<and> v = ln_minus L a b"
proof -
  have "map fst pairs = keys \<and> (\<forall>(k, v) \<in> set pairs.
      \<exists>a b. map_of ps k = Some a \<and> map_of gp k = Some b \<and> v = ln_minus L a b)"
    if "mapE (\<lambda>k. bindE (lookupE ps k) (\<lambda>a. bindE (lookupE gp k) (\<lambda>b. Inr (k, ln_minus L a b)))) keys = Inr pairs"
    for pairs
    using that
  proof (induction keys arbitrary: pairs)
    case (Cons k keys)
    then show ?case by (auto simp: bindE_Inr_iff lookupE_def orE_Inr_iff)
  qed simp
  moreover obtain pairs where "d = dict_of_pairs pairs"
      "mapE (\<lambda>k. bindE (lookupE ps k) (\<lambda>a. bindE (lookupE gp k) (\<lambda>b. Inr (k, ln_minus L a b)))) keys = Inr pairs"
    using assms by (auto simp: diff_keys_def bindE_Inr_iff)
  ultimately show thesis by (intro that [of pairs]) auto
qed

lemma diff_keys_dom:
  assumes "diff_keys L ps gp keys = Inr d"
  shows "fst ` set d = set keys" "distinct (dkeys d)"
proof -
  obtain pairs where "d = dict_of_pairs pairs" "map fst pairs = keys" by (rule diff_keys_pairs [OF assms])
  then show "fst ` set d = set keys" "distinct (dkeys d)"
    using dict_of_pairs_keys [of pairs] by (simp_all only: list.set_map)
qed

lemma delta_matches_honest:
  assumes "diff_keys L ps gp keys = Inr d" "set ks \<subseteq> set keys"
  shows "delta_matches L ps gp d ks = Inr (\<forall>k \<in> set ks. ln_equal L (the (map_of d k)) (the (map_of d k)))"
  using assms(2)
proof (induction ks)
  case (Cons k ks)
  obtain pairs where pairs: "d = dict_of_pairs pairs" "map fst pairs = keys"
    "\<And>k v. (k, v) \<in> set pairs \<Longrightarrow>
       \<exists>a b. map_of ps k = Some a \<and> map_of gp k = Some b \<and> v = ln_minus L a b"
    by (rule diff_keys_pairs [OF assms(1)], rule that)
  have "k \<in> set (map fst (rev pairs))" using Cons.prems unfolding rev_map [symmetric] pairs(2) by simp
  then obtain v where v: "map_of (rev pairs) k = Some v"
    using map_of_eq_None_iff [of "rev pairs" k] by (cases "map_of (rev pairs) k") auto
  then have "(k, v) \<in> set pairs" by (auto dest: map_of_SomeD)
  then obtain a b where "map_of ps k = Some a" "map_of gp k = Some b" "v = ln_minus L a b" using pairs(3) by blast
  then show ?case using Cons v by (simp add: lookupE_def pairs(1) dict_of_pairs_get)
qed simp

lemma delta_matches_itself:
  assumes "diff_keys L ps gp keys = Inr d"
  shows "delta_matches L ps gp d keys = Inr (\<forall>a \<in> set (dvalues d). ln_equal L a a)"
proof -
  have keys: "set (dkeys d) = set keys" "distinct (dkeys d)"
    using diff_keys_dom [OF assms] by simp_all
  have here: "the (map_of d k) \<in> set (dvalues d)" if key: "k \<in> set keys" for k
  proof -
    obtain v where v: "map_of d k = Some v"
      using key keys(1) map_of_eq_None_iff [of d k] by (cases "map_of d k") auto
    then have "(k, v) \<in> set d" by (rule map_of_SomeD)
    then show ?thesis using v by (auto intro: rev_image_eqI)
  qed
  have "\<exists>k \<in> set keys. the (map_of d k) = a" if "a \<in> set (dvalues d)" for a
  proof -
    from that obtain k where k: "(k, a) \<in> set d" by auto
    then have "map_of d k = Some a" using keys(2) by (intro map_of_is_SomeI)
    moreover have "k \<in> set keys" using k unfolding keys(1) [symmetric] by (auto intro: rev_image_eqI)
    ultimately show ?thesis by (intro bexI [of _ k]) simp_all
  qed
  with here have "(\<forall>k \<in> set keys. ln_equal L (the (map_of d k)) (the (map_of d k)))
      \<longleftrightarrow> (\<forall>a \<in> set (dvalues d). ln_equal L a a)" by blast
  then show ?thesis by (simp only: delta_matches_honest [OF assms subset_refl])
qed

end
