(* ===== verification/Merkle_Props.thy ===== *)
theory Merkle_Props
  imports Merkle_Facts
begin

text \<open>
  The properties of the Merkle challenge: the loop over the levels ends, an honest worker passes, a
  proof of the right length is a proof of membership, and a proof is not bound to its index.
\<close>

text \<open>C25: the loop of \<^verbatim>\<open>merkle_root\<close> ends after the rounded-up logarithm of the number of
  leaves: that many rounds, and no fewer, leave one node, which is the root.\<close>

theorem merkle_loop_ends:
  assumes "leaves \<noteq> []"
  shows "(length ((up_level D ^^ k) leaves) = 1 \<longleftrightarrow> rounds (length leaves) \<le> k)
    \<and> length leaves \<le> 2 ^ rounds (length leaves)
    \<and> (1 < length leaves \<longrightarrow> 2 ^ rounds (length leaves) < 2 * length leaves)
    \<and> merkle_root D leaves = hd ((up_level D ^^ rounds (length leaves)) leaves)"
  using levels_to_one [OF assms] rounds_bounds [of "length leaves"] root_of_rounds [OF assms] assms
  by (simp add: merkle_root_def)

lemma merkle_loop_ends_witness: "length ''abc'' \<le> 2 ^ rounds (length [''a'', ''b'', ''c''])"
  using merkle_loop_ends [of "[''a'', ''b'', ''c'']"] by simp

text \<open>C26: the verification of an honest worker, dense or for one expert, for every beacon and
  at most \<open>2 ^ 32\<close> challenges (four bytes hold the index) of a run of at least one step, at the protocol's
  step count or with none prescribed: it accepts if and only if every array of the reported delta equals
  itself under \<^verbatim>\<open>np.array_equal\<close>, that is, holds no NaN; a delta with a NaN is refused as a wrong delta,
  honest or not. The names of the parameters are distinct, as in any dictionary.\<close>

theorem honest_worker_passes:
  assumes "merkle_train L hex address True skip shard gp hh lr trainable expert = Inr (sub, tj)" "sb_delta sub = Some d"
    "0 < hh" "n \<le> 2 ^ 32" "protocol \<in> {None, Some (int hh)}" "distinct (dkeys gp)"
  shows "merkle_check L hex gp sub (worker_prover L tj) () shard n lr protocol beacon
    = Inr (if \<forall>a \<in> set (dvalues d). ln_equal L a a then MerkleAccepted n else WrongDelta)"
proof -
  let ?keys = "keys_or_all trainable gp" and ?rt = "merkle_root (ln_digest L) (tj_leaves tj)"
  note run = merkle_train_honest [OF assms(1)]
  have d: "diff_keys L (tj_states tj ! hh) gp ?keys = Inr d" using run(8) assms(2) by auto
  obtain js where js: "fiat_shamir_indices L ?rt (data_leaf L shard) beacon (int hh) n = Inr js"
      "\<forall>j \<in> set js. 1 \<le> j \<and> j \<le> int hh"
    using fiat_shamir_total [of "int hh" n] assms(3,4) by fastforce
  have state: "pv_state (worker_prover L tj) () (int hh) = (Inr (tj_states tj ! hh), ())"
    using run(1) by (simp add: worker_prover_def list_at_nat honest_run_def)
  note reveal = honest_reveals [OF run(1) le_refl]
  note same = delta_matches_itself [OF d]
  note challenges = honest_challenges [OF run(1) js(2) assms(6)]
  have "(case protocol of None \<Rightarrow> orE KeyError (Some (int hh)) | Some h \<Rightarrow> Inr h) = Inr (int hh)"
    using assms(5) by auto
  moreover have "set (dkeys d) = set ?keys" using diff_keys_dom(1) [OF d] by simp
  moreover have "\<not> (protocol \<noteq> None \<and> Some (int hh) \<noteq> protocol)" using assms(5) by auto
  ultimately show ?thesis
    unfolding merkle_check_def run(2-7) assms(2) by (simp add: state reveal same js(1) challenges)
qed

text \<open>A learner of one number: a step adds one, and the gradient is constant.\<close>

definition toy_learner :: "(unit, nat) learner" where
  "toy_learner = \<lparr>ln_digest = (\<lambda>s. s), ln_bytes64 = (\<lambda>a. replicate a CHR ''I''), ln_inputs = (\<lambda>x. ''X''),
     ln_labels = (\<lambda>x. ''y''), ln_rows = (\<lambda>x. 1), ln_grads = (\<lambda>x e p. Inr p), ln_descend = (\<lambda>lr a g. a + 1),
     ln_minus = (-), ln_equal = (=), ln_square_sum = (\<lambda>a. XFin 0), ln_root = (\<lambda>x. x), ln_close = (\<lambda>r t a b. a = b),
     ln_hash = (\<lambda>p. [])\<rparr>"

lemma honest_worker_passes_witness:
  "\<exists>sub tj. merkle_check toy_learner (\<lambda>s. s) [(''w'', 0)] sub (worker_prover toy_learner tj) () () 2 1 (Some 3) ''beacon''
     = Inr (MerkleAccepted 2)"
proof -
  have "isl (merkle_train toy_learner (\<lambda>s. s) ''a'' True None () [(''w'', 0)] 3 1 None (Some ''e'')) = False" by code_simp
  then obtain sub tj where run: "merkle_train toy_learner (\<lambda>s. s) ''a'' True None () [(''w'', 0)] 3 1 None (Some ''e'') = Inr (sub, tj)"
    by (cases "merkle_train toy_learner (\<lambda>s. s) ''a'' True None () [(''w'', 0)] 3 1 None (Some ''e'')") auto
  obtain d where d: "sb_delta sub = Some d" using merkle_train_honest(8) [OF run] by blast
  have "merkle_check toy_learner (\<lambda>s. s) [(''w'', 0)] sub (worker_prover toy_learner tj) () () 2 1 (Some (int 3)) ''beacon''
     = Inr (if \<forall>a \<in> set (dvalues d). ln_equal toy_learner a a then MerkleAccepted 2 else WrongDelta)"
    by (rule honest_worker_passes [OF run d]) simp_all
  then show ?thesis by (auto simp: toy_learner_def)
qed

text \<open>under a digest that has no collision among what the tree and the path hash, a proof
  of the right length verifies only for a committed leaf, whatever its siblings are.\<close>

theorem proof_shows_membership:
  assumes "merkle_verify D leaf path (merkle_root D leaves)" "length path = rounds (length leaves)" "leaves \<noteq> []"
    "\<And>x. length (D x) = 32" "length leaf = 32" "\<forall>x \<in> set leaves. length x = 32"
    "inj_on D (tree_inputs D leaves \<union> path_inputs D leaf path)"
  shows "leaf \<in> set leaves"
  using assms by (intro path_sound [of D leaf path leaves]) (simp_all add: merkle_verify_def merkle_root_def)

definition toy_digest32 :: "string \<Rightarrow> string" where
  "toy_digest32 s = (if s = replicate 32 CHR ''a'' @ replicate 32 CHR ''b'' then replicate 32 CHR ''r''
     else replicate 32 CHR ''x'')"

lemma proof_shows_membership_witness:
  "replicate 32 CHR ''a'' \<in> set [replicate 32 CHR ''a'', replicate 32 CHR ''b'']"
proof (rule proof_shows_membership [where D = toy_digest32 and path = "[(replicate 32 CHR ''b'', False)]"])
  have "root_of toy_digest32 [replicate 32 CHR ''a'', replicate 32 CHR ''b''] = replicate 32 CHR ''r''"
    by (subst root_of.simps, subst root_of.simps) (simp add: up_level_def padded_def hpair_def toy_digest32_def)
  then show "merkle_verify toy_digest32 (replicate 32 CHR ''a'') [(replicate 32 CHR ''b'', False)]
      (merkle_root toy_digest32 [replicate 32 CHR ''a'', replicate 32 CHR ''b''])"
    by (simp add: merkle_verify_def merkle_root_def climb_def hpair_def toy_digest32_def)
  show "inj_on toy_digest32 (tree_inputs toy_digest32 [replicate 32 CHR ''a'', replicate 32 CHR ''b'']
      \<union> path_inputs toy_digest32 (replicate 32 CHR ''a'') [(replicate 32 CHR ''b'', False)])"
    by (subst tree_inputs.simps, subst tree_inputs.simps)
      (simp add: padded_def up_level_def step_input_def)
qed (simp_all add: toy_digest32_def rounds.simps)

text \<open>A prover that shows one real step to every challenge: it counts the calls and answers each state
  with the start, each proof of a previous state with the proof of the start, each proof of a recomputed
  state with the proof of the one real step, and the endpoint with the forged state.\<close>

definition cheating_prover ::
  "'a params \<Rightarrow> 'a params \<Rightarrow> (string \<times> bool) list \<Rightarrow> (string \<times> bool) list \<Rightarrow> (string \<times> bool) list \<Rightarrow> (nat, 'a) prover" where
  "cheating_prover start forged p0 p1 pf =
     \<lparr>pv_state = (\<lambda>c i. (Inr (if c = 0 then forged else start), c + 1)),
      pv_proof = (\<lambda>c i. (Inr (if c = 1 then pf else if c mod 3 = 0 then p0 else p1), c + 1))\<rparr>"

lemma cheating_challenges:
  assumes "state_leaf L gp keys = Inr l0" "one_step L gp shard keys lr None = Inr s1" "state_leaf L s1 keys = Inr l1"
    "merkle_verify (ln_digest L) l0 p0 rt" "merkle_verify (ln_digest L) l1 p1 rt" "c mod 3 = 2"
  shows "challenge_all L gp shard keys lr None rt (cheating_prover gp forged p0 p1 pf) n c js = Inr (MerkleAccepted n)"
  using assms(6)
proof (induction js arbitrary: c)
  case (Cons j js)
  have c: "Suc c mod 3 = 0" "Suc (Suc c) mod 3 = 1" "Suc (Suc (Suc c)) mod 3 = 2" "c \<noteq> 0"
    using Cons.prems by presburger+
  let ?pv = "cheating_prover gp forged p0 p1 pf"
  have state: "pv_state ?pv c i = (Inr gp, Suc c)" for i using c(4) by (simp add: cheating_prover_def)
  have first: "revealed L keys rt ?pv (Suc c) gp i = Inr (True, Suc (Suc c))" for i
    using c(1,4) assms(1,4) by (simp add: revealed_def cheating_prover_def)
  have second: "revealed L keys rt ?pv (Suc (Suc c)) s1 i = Inr (True, Suc (Suc (Suc c)))" for i
    using c(2) assms(3,5) by (simp add: revealed_def cheating_prover_def)
  show ?case by (simp add: state first second recompute_step_def assms(2) Cons.IH [OF c(3)])
qed simp

text \<open>the verifier does not check where in the tree a revealed state stands, so a worker
  that does one real step and invents its final state passes every challenge, for every beacon and every
  claimed number of steps.\<close>

theorem one_real_step_passes:
  assumes "state_leaf L gp keys = Inr l0" "one_step L gp shard keys lr None = Inr s1" "state_leaf L s1 keys = Inr l1"
    "state_leaf L forged keys = Inr lf" "diff_keys L forged gp keys = Inr d" "\<forall>a \<in> set (dvalues d). ln_equal L a a"
    "0 < hh" "n \<le> 2 ^ 32"
  shows "\<exists>sub p0 p1 pf. sb_steps sub = Some hh \<and> sb_delta sub = Some d
     \<and> merkle_check L hex gp sub (cheating_prover gp forged p0 p1 pf) 0 shard n lr (Some hh) beacon
         = Inr (MerkleAccepted n)"
proof -
  let ?D = "ln_digest L" and ?leaves = "[l0, l1, lf]"
  let ?rt = "merkle_root ?D ?leaves"
  have proof_at: "\<exists>path. merkle_verify ?D (?leaves ! i) path ?rt" if "i < 3" for i
    using proof_complete [of i ?leaves ?D] that by (auto simp: merkle_verify_def merkle_root_def)
  obtain p0 where p0: "merkle_verify ?D l0 p0 ?rt" using proof_at [of 0] by auto
  obtain p1 where p1: "merkle_verify ?D l1 p1 ?rt" using proof_at [of 1] by auto
  obtain pf where pf: "merkle_verify ?D lf pf ?rt" using proof_at [of 2] by auto
  define sub where "sub = \<lparr>sb_address = [], sb_delta = Some d, sb_root = Some ?rt, sb_steps = Some hh, sb_lr = lr,
     sb_examples = Some (ln_rows L shard), sb_data_hash = Some (hex (data_leaf L shard)), sb_keys = Some keys,
     sb_expert = None\<rparr>"
  obtain js where js: "fiat_shamir_indices L ?rt (data_leaf L shard) beacon hh n = Inr js"
    using fiat_shamir_total [OF assms(7,8)] by blast
  have same: "delta_matches L forged gp d keys = Inr True" using delta_matches_itself [OF assms(5)] assms(6) by simp
  note challenges = cheating_challenges [OF assms(1-3) p0 p1, where c = 2 and n = n and js = js and forged = forged and pf = pf]
  have dom: "fst ` set d = set keys" by (rule diff_keys_dom(1) [OF assms(5)])
  have "merkle_check L hex gp sub (cheating_prover gp forged p0 p1 pf) 0 shard n lr (Some hh) beacon = Inr (MerkleAccepted n)"
    using assms(4) pf js same challenges dom
    by (simp add: merkle_check_def sub_def revealed_def cheating_prover_def numeral_2_eq_2)
  moreover have "sb_steps sub = Some hh" "sb_delta sub = Some d" by (simp_all add: sub_def)
  ultimately show ?thesis by blast
qed

lemma one_real_step_passes_witness:
  "\<exists>sub p0 p1 pf. sb_steps sub = Some 1000 \<and> sb_delta sub = Some [(''w'', 99)]
     \<and> merkle_check toy_learner (\<lambda>s. s) [(''w'', 0)] sub (cheating_prover [(''w'', 0)] [(''w'', 99)] p0 p1 pf) 0 () 50 1
         (Some 1000) ''beacon'' = Inr (MerkleAccepted 50)"
proof (rule one_real_step_passes [where keys = "[''w'']"])
  show "state_leaf toy_learner [(''w'', 0)] [''w''] = Inr ''w''" by code_simp
  show "one_step toy_learner [(''w'', 0)] () [''w''] 1 None = Inr [(''w'', 1)]" by code_simp
  show "state_leaf toy_learner [(''w'', 1)] [''w''] = Inr ''wI''" by code_simp
  show "state_leaf toy_learner [(''w'', 99)] [''w''] = Inr (''w'' @ replicate 99 CHR ''I'')" by code_simp
  show "diff_keys toy_learner [(''w'', 99)] [(''w'', 0)] [''w''] = Inr [(''w'', 99)]" by code_simp
qed (simp_all add: toy_learner_def)

text \<open>Repeating the last of an odd number of leaves does not change the root.\<close>

lemma repeated_leaf_same_root:
  "odd (length leaves) \<Longrightarrow> 1 < length leaves \<Longrightarrow> merkle_root D (leaves @ [last leaves]) = merkle_root D leaves"
  by (auto simp: merkle_root_def root_of.simps [of D "leaves @ [last leaves]"] root_of.simps [of D leaves]
      up_level_def padded_def)

text \<open>A run of no steps makes the verifier divide by zero.\<close>

lemma no_steps_raises: "fiat_shamir_indices L rt dh beacon 0 (Suc n) = Inl ZeroDivisionError"
  by (simp add: fiat_shamir_indices_def upt_conv_Cons be4_def Let_def del: upt_Suc)

end
