(* ===== verification/Recompute_Props.thy ===== *)
theory Recompute_Props
  imports Recompute Merkle_Props
begin

text \<open>
  The properties of the recompute and of the validator quorum. The quorum is an instance of the
  majority contract of the prelude: validators with weight one.
\<close>

text \<open>An honest worker's delta is the recompute's, so the recompute accepts it up to the norm bound.\<close>

lemma replay_is_training:
  "train_steps L shard keys lr None None step n p = Inr later \<Longrightarrow>
   replay_steps L shard keys lr n p = Inr (last (p # later))"
  by (induction n arbitrary: step p later) (auto simp: bindE_Inr_iff)

lemma all_close_refl: "(\<And>a. ln_close L r t a a) \<Longrightarrow> distinct (dkeys d) \<Longrightarrow> set e \<subseteq> set d \<Longrightarrow> all_close L r t d e = Inr True"
  by (induction e) (auto simp: lookupE_def)

text \<open>the delta that an honest worker trains and commits to is the one the full recompute
  finds, so the verification accepts it whenever its norm is within bounds: the two verifiers, the
  Merkle challenge and the recompute, agree on honest work.\<close>

theorem recompute_accepts_honest_work:
  assumes "merkle_train L hex address True skip shard gp hh lr trainable None = Inr (sub, tj)"
    "\<And>a. ln_close L rtol atol a a" "sb_delta sub = Some d" "xfinite (submission_norm L d)" "\<not> xless (XFin max_norm) (submission_norm L d)"
  shows "check_submission L gp sub shard hh lr max_norm rtol atol = Inr RecomputeMatched"
proof -
  let ?keys = "keys_or_all trainable gp"
  note run = merkle_train_honest [OF assms(1)]
  obtain leaf0 later leaves where later: "train_steps L shard ?keys lr None None 0 hh gp = Inr later"
      "tj_states tj = gp # later"
    using assms(1) by (auto simp: merkle_train_def Let_def bindE_Inr_iff)
  have "tj_states tj ! hh = last (gp # later)"
    using train_steps_run(1) [OF later(1)] later(2) by (subst last_conv_nth) auto
  then have d: "diff_keys L (last (gp # later)) gp ?keys = Inr d" using run(8) assms(3) by auto
  have same: "all_close L rtol atol d d = Inr True"
    using all_close_refl [of L rtol atol d d] assms(2) diff_keys_dom(2) [OF d] by simp
  have "keys_or_all (Some ?keys) gp = ?keys" by (cases trainable) (auto simp: keys_or_all_def split: list.splits)
  then show ?thesis
    using assms(3-5) d same
    by (simp add: check_submission_def run(3) recompute_trajectory_def replay_is_training [OF later(1)])
qed

definition toy_submission :: "nat submission" where
  "toy_submission = fst (projr (merkle_train toy_learner (\<lambda>s. s) ''a'' True None () [(''w'', 0)] 3 1 None None))"

lemma toy_train: "\<exists>tj. merkle_train toy_learner (\<lambda>s. s) ''a'' True None () [(''w'', 0)] 3 1 None None
    = Inr (toy_submission, tj)"
proof -
  have "isl (merkle_train toy_learner (\<lambda>s. s) ''a'' True None () [(''w'', 0)] 3 1 None None) = False" by code_simp
  then show ?thesis
    by (cases "merkle_train toy_learner (\<lambda>s. s) ''a'' True None () [(''w'', 0)] 3 1 None None")
      (auto simp: toy_submission_def)
qed

lemma toy_delta: "sb_delta toy_submission = Some [(''w'', 3)]"
  by code_simp

lemma toy_norm: "submission_norm toy_learner [(''w'', 3)] = XFin 0"
  by (simp add: submission_norm_def toy_learner_def)

lemma recompute_accepts_honest_work_witness:
  "check_submission toy_learner [(''w'', 0)] toy_submission () 3 1 50 0 0 = Inr RecomputeMatched"
proof -
  obtain tj where run: "merkle_train toy_learner (\<lambda>s. s) ''a'' True None () [(''w'', 0)] 3 1 None None
      = Inr (toy_submission, tj)" using toy_train by blast
  show ?thesis
    by (rule recompute_accepts_honest_work [OF run _ toy_delta])
      (simp_all add: toy_norm xfinite_def, simp add: toy_learner_def)
qed

subsection \<open>The validator quorum\<close>

interpretation quorum: majority "set validators" "\<lambda>v. 1" for validators :: "validator_node list"
  by unfold_locales auto

definition liars :: "validator_node list \<Rightarrow> validator_node list" where
  "liars validators = filter (\<lambda>v. \<not> va_honest v) validators"

definition honest_nodes :: "validator_node list \<Rightarrow> validator_node list" where
  "honest_nodes validators = filter va_honest validators"

definition votes_of :: "bool \<Rightarrow> validator_node list \<Rightarrow> (string \<times> bool) list" where
  "votes_of valid validators = map (\<lambda>v. (va_address v, va_honest v = valid)) validators"

lemma mapE_votes:
  assumes "check_submission L gp sub shard hh lr MAX_DELTA_NORM RTOL ATOL = Inr r"
  shows "mapE (\<lambda>v. bindE (vote L gp sub shard hh lr v) (\<lambda>ok. Inr (va_address v, ok))) validators
    = Inr (votes_of (recompute_valid r) validators)"
  by (induction validators) (auto simp: vote_def assms votes_of_def)

lemma votes_count:
  "length (filter snd (votes_of valid vs)) = length (if valid then honest_nodes vs else liars vs)"
  "length (votes_of valid vs) = length (honest_nodes vs) + length (liars vs)"
  by (induction vs) (auto simp: votes_of_def honest_nodes_def liars_def)

lemma nodes_sum: "length (honest_nodes vs) + length (liars vs) = length vs"
  by (induction vs) (auto simp: honest_nodes_def liars_def)

lemma quorum_run:
  assumes "quorum_verify L gp sub shard validators sl ledger m hh lr slash = Inr (info, ledger')"
    "check_submission L gp sub shard hh lr MAX_DELTA_NORM RTOL ATOL = Inr r"
  shows "length validators < m * 2" "distinct (map va_address validators)"
    "qi_votes info = votes_of (recompute_valid r) validators"
    "qi_accepted info = (if recompute_valid r then quorum_decision m (length (honest_nodes validators)) (length (liars validators))
       else quorum_decision m (length (liars validators)) (length (honest_nodes validators)))"
    "qi_validators_slashed info = off_consensus (qi_votes info) (qi_accepted info)"
    "qi_worker_slashed info = (qi_accepted info = Some False)"
    "ledger' = foldl (\<lambda>l a. sl a (Some slash) l)
       (if qi_worker_slashed info then sl (sb_address sub) None ledger else ledger) (qi_validators_slashed info)"
proof -
  have guards: "length validators < m * 2" "distinct (map va_address validators)"
    using assms(1) by (auto simp: quorum_verify_def split: if_splits)
  then show "length validators < m * 2" "distinct (map va_address validators)" .
  have inv: "length (votes_of valid validators) - length (filter snd (votes_of valid validators))
      = length (if valid then liars validators else honest_nodes validators)" for valid
    by (simp add: votes_count)
  note d = assms(1) [unfolded quorum_verify_def mapE_votes [OF assms(2)] bindE_simps Let_def inv votes_count(1)]
  show "qi_votes info = votes_of (recompute_valid r) validators"
    "qi_accepted info = (if recompute_valid r then quorum_decision m (length (honest_nodes validators)) (length (liars validators))
       else quorum_decision m (length (liars validators)) (length (honest_nodes validators)))"
    "qi_validators_slashed info = off_consensus (qi_votes info) (qi_accepted info)"
    "qi_worker_slashed info = (qi_accepted info = Some False)"
    "ledger' = foldl (\<lambda>l a. sl a (Some slash) l)
       (if qi_worker_slashed info then sl (sb_address sub) None ledger else ledger) (qi_validators_slashed info)"
    using d guards inv [of True, unfolded votes_count(1)] inv [of False, unfolded votes_count(1)]
    by (auto split: if_splits)
qed

text \<open>C27: with fewer than M lying validators the quorum decides exactly if M are honest, and then
  what the recompute says; the ledger afterwards is the one before, slashed of the worker's whole bond if
  and only if the recompute rejects, and then of the fixed amount for each liar in the order of the
  validators, and of nobody else. A quorum that does not decide slashes nobody and leaves the ledger as
  it was. The report agrees with the ledger.\<close>

theorem quorum_decides_right:
  assumes "quorum_verify L gp sub shard validators sl ledger m hh lr slash = Inr (info, ledger')"
    "check_submission L gp sub shard hh lr MAX_DELTA_NORM RTOL ATOL = Inr r"
    "length (liars validators) < m"
  shows "if m \<le> length (honest_nodes validators)
    then qi_accepted info = Some (recompute_valid r) \<and> qi_worker_slashed info = (\<not> recompute_valid r)
       \<and> qi_validators_slashed info = map va_address (liars validators)
       \<and> ledger' = foldl (\<lambda>l v. sl (va_address v) (Some slash) l)
           (if recompute_valid r then ledger else sl (sb_address sub) None ledger) (liars validators)
    else qi_accepted info = None \<and> \<not> qi_worker_slashed info \<and> qi_validators_slashed info = [] \<and> ledger' = ledger"
proof -
  note run = quorum_run [OF assms(1,2)]
  have lost: "off_consensus (votes_of valid vs) (Some valid) = map va_address (liars vs)" for valid vs
    by (induction vs) (auto simp: off_consensus_def votes_of_def liars_def)
  have decided: "qi_accepted info = (if m \<le> length (honest_nodes validators) then Some (recompute_valid r) else None)"
    using run(4) assms(3) by (auto simp: quorum_decision_def)
  show ?thesis
  proof (cases "m \<le> length (honest_nodes validators)")
    case True
    then have "qi_accepted info = Some (recompute_valid r)" using decided by simp
    then show ?thesis using True run(7) by (auto simp: run(3,5,6) lost foldl_map)
  next
    case False
    then show ?thesis using decided run(7) by (simp add: run(5,6) off_consensus_def)
  qed
qed

definition toy_validators :: "validator_node list" where
  "toy_validators = [\<lparr>va_address = ''p'', va_honest = True\<rparr>, \<lparr>va_address = ''q'', va_honest = False\<rparr>,
     \<lparr>va_address = ''r'', va_honest = True\<rparr>]"

lemma toy_quorum_runs:
  assumes "check_submission L gp sub shard hh lr MAX_DELTA_NORM RTOL ATOL = Inr RecomputeMatched"
  shows "\<exists>info ledger'. quorum_verify L gp sub shard toy_validators (\<lambda>a x l. a # l) [] 2 hh lr 10 = Inr (info, ledger')"
  using mapE_votes [OF assms, of toy_validators] by (simp add: quorum_verify_def toy_validators_def Let_def)

lemma toy_accepted:
  "check_submission toy_learner [(''w'', 0)] toy_submission () 3 1 MAX_DELTA_NORM RTOL ATOL = Inr RecomputeMatched"
proof -
  have "keys_or_all (sb_keys toy_submission) [(''w'', 0 :: nat)] = [''w'']" by code_simp
  moreover have "recompute_trajectory toy_learner [(''w'', 0)] () (Some [''w'']) 3 1 = Inr [(''w'', 3)]" by code_simp
  moreover have "ln_close toy_learner u t x x" for u t x by (simp add: toy_learner_def)
  ultimately show ?thesis
    by (simp add: check_submission_def toy_delta toy_norm xfinite_def MAX_DELTA_NORM_def lookupE_def)
qed

lemma quorum_decides_right_witness:
  "\<exists>info :: quorum_info. quorum_verify toy_learner [(''w'', 0)] toy_submission () toy_validators
      (\<lambda>a x l. a # l) [] 2 3 1 10 = Inr (info, [''q''])"
proof -
  obtain info ledger' where run: "quorum_verify toy_learner [(''w'', 0)] toy_submission () toy_validators
      (\<lambda>a x l. a # l) [] 2 3 1 10 = Inr (info, ledger')" using toy_quorum_runs [OF toy_accepted] by blast
  have few: "length (liars toy_validators) < 2" by (simp add: liars_def toy_validators_def)
  have "ledger' = [''q'']"
    using quorum_decides_right [OF run toy_accepted few]
    by (simp add: honest_nodes_def liars_def toy_validators_def recompute_valid_def)
  then show ?thesis using run by blast
qed

text \<open>The validators that vote against a decision are a minority: were they to decide as well, they
  would share a member with those that decided.\<close>

lemma losers_never_decide:
  assumes "quorum.decides validators A" "A \<inter> B = {}"
  shows "\<not> quorum.decides validators B"
  using quorum.decisions_meet [OF assms(1)] assms(2) by blast

end
