(* ===== verification/Lane_Names.thy ===== *)
theory Lane_Names
  imports Py_Text
begin

text \<open>
  The names under which the lane keeps its records, from \<^verbatim>\<open>tools/sharddiloco_glm_contributor.py\<close>:
  campaign identifiers and the scoping of contribution, accepted and verdict records by campaign,
  the scan for accepted events, and the comparison of the data domains of the two roles.
  A campaign argument is the string the caller holds, \<open>None\<close> where it has none.
\<close>

subsection \<open>Campaigns\<close>

definition CAMPAIGN_POINTER_KEY :: string where
  "CAMPAIGN_POINTER_KEY = ''campaign_id''"

definition campaign_re :: "string \<Rightarrow> bool" where
  "campaign_re s = run_of (\<lambda>c. is_digit c \<or> c \<in> set ''abcdef'') 8 64 s"

text \<open>\<^verbatim>\<open>normalize_campaign_id\<close> of a string, and of a decoded value.\<close>

definition campaign_text :: "string \<Rightarrow> string option" where
  "campaign_text cid = (let s = str_lower (str_strip cid) in if campaign_re s then Some s else None)"

definition normalize_campaign_id :: "world \<Rightarrow> json \<Rightarrow> string option" where
  "normalize_campaign_id W cid = (if cid = JNull then None else campaign_text (str_of W cid))"

definition scope_of :: "string option \<Rightarrow> string option" where
  "scope_of campaign = Option.bind campaign campaign_text"

definition CAMPAIGN_SCOPE_ENV :: string where
  "CAMPAIGN_SCOPE_ENV = ''NEURAHASH_SD_CAMPAIGN_SCOPE''"

definition campaign_scope_on :: "(string, string) pydict \<Rightarrow> bool" where
  "campaign_scope_on env =
     (let v = dget env CAMPAIGN_SCOPE_ENV ''1'' in
      str_lower (str_strip (if v = [] then ''1'' else v)) \<notin> {''0'', ''false'', ''off'', ''no''})"

definition pointer_campaign_id :: "world \<Rightarrow> json \<Rightarrow> string option" where
  "pointer_campaign_id W ptr =
     (case ptr of JObj kvs \<Rightarrow> normalize_campaign_id W (get_or ptr CAMPAIGN_POINTER_KEY JNull) | _ \<Rightarrow> None)"

text \<open>\<^verbatim>\<open>campaign_refusal\<close>: \<open>None\<close> lets the miner publish, \<open>Some raw\<close> refuses and shows what the
  pointer advertised.\<close>

definition campaign_refusal :: "world \<Rightarrow> json \<Rightarrow> (string, string) pydict \<Rightarrow> json option" where
  "campaign_refusal W ptr env =
     (if \<not> campaign_scope_on env then None
      else if pointer_campaign_id W ptr \<noteq> None then None
      else Some (case ptr of JObj kvs \<Rightarrow> get_or ptr CAMPAIGN_POINTER_KEY JNull | _ \<Rightarrow> JNull))"

subsection \<open>Record names\<close>

definition campaign_prefix :: "string option \<Rightarrow> string" where
  "campaign_prefix campaign = (case scope_of campaign of None \<Rightarrow> ''cg/'' | Some cid \<Rightarrow> ''cg/'' @ cid @ ''/'')"

definition contrib_prefix :: "int \<Rightarrow> string option \<Rightarrow> string" where
  "contrib_prefix rnd campaign =
     (case scope_of campaign of
        None \<Rightarrow> ''cg/r'' @ int_str rnd @ ''/''
      | Some cid \<Rightarrow> ''cg/'' @ cid @ ''/r'' @ int_str rnd @ ''/'')"

definition contrib_name :: "int \<Rightarrow> string \<Rightarrow> string option \<Rightarrow> string" where
  "contrib_name rnd miner campaign = contrib_prefix rnd campaign @ miner"

definition accepted_name :: "int \<Rightarrow> string option \<Rightarrow> string" where
  "accepted_name rnd campaign =
     (case scope_of campaign of
        None \<Rightarrow> ''sharddiloco/glm/accepted/r'' @ int_str rnd
      | Some cid \<Rightarrow> ''sharddiloco/glm/accepted/'' @ cid @ ''/r'' @ int_str rnd)"

text \<open>\<^verbatim>\<open>stem[:stem.rfind("0")]\<close>: the name of event zero up to its last zero.\<close>

definition before_last :: "char \<Rightarrow> string \<Rightarrow> string" where
  "before_last c s = rev (tl (dropWhile (\<lambda>x. x \<noteq> c) (rev s)))"

definition accepted_prefix :: "string option \<Rightarrow> string" where
  "accepted_prefix campaign = before_last CHR ''0'' (accepted_name 0 campaign)"

definition accepted_events_in :: "string list \<Rightarrow> string option \<Rightarrow> int list" where
  "accepted_events_in manifest_names campaign =
     (let prefix = accepted_prefix campaign; n = length prefix in
      sort (List.map_filter (\<lambda>nm. if starts_with prefix nm \<and> all_digits (drop n nm)
                                   then int_of_str (drop n nm) else None) manifest_names))"

definition count_accepted_names :: "string list \<Rightarrow> string option \<Rightarrow> nat" where
  "count_accepted_names manifest_names campaign =
     length (filter (starts_with (accepted_prefix campaign)) manifest_names)"

definition async_publish_name :: "int \<Rightarrow> string \<Rightarrow> int \<Rightarrow> string option \<Rightarrow> string" where
  "async_publish_name base_event miner k campaign = contrib_name base_event miner campaign @ ''.'' @ int_str k"

definition coord_text :: "int \<times> int \<Rightarrow> string" where
  "coord_text coord = int_str (fst coord) @ ''_'' @ int_str (snd coord)"

definition verdict_name :: "int \<times> int \<Rightarrow> string option \<Rightarrow> string" where
  "verdict_name coord campaign =
     (case scope_of campaign of
        None \<Rightarrow> ''sharddiloco/glm/verdict/''
      | Some cid \<Rightarrow> ''sharddiloco/glm/verdict/'' @ cid @ ''/'') @ coord_text coord"

definition miner_card_name :: "string \<Rightarrow> string" where
  "miner_card_name miner = ''miners/'' @ miner @ ''/card.json''"

subsection \<open>The scan for accepted events\<close>

text \<open>The events after the last one applied, up to the first that the manifest does not list;
  \<open>max_scan\<close> bounds the loop.\<close>

fun scan_from :: "nat \<Rightarrow> int \<Rightarrow> string set \<Rightarrow> string option \<Rightarrow> int list" where
  "scan_from 0 e names campaign = []"
| "scan_from (Suc n) e names campaign =
     (if accepted_name e campaign \<in> names then e # scan_from n (e + 1) names campaign else [])"

definition scan_accepted_events :: "string set \<Rightarrow> int \<Rightarrow> int \<Rightarrow> string option \<Rightarrow> int list" where
  "scan_accepted_events names last_applied max_scan campaign =
     scan_from (nat max_scan) (last_applied + 1) names campaign"

definition scan_accepted_events_bounded ::
  "string set \<Rightarrow> int \<Rightarrow> int option \<Rightarrow> int \<Rightarrow> string option \<Rightarrow> int list" where
  "scan_accepted_events_bounded names last_applied frontier max_scan campaign =
     (let evs = scan_accepted_events names last_applied max_scan campaign in
      case frontier of None \<Rightarrow> evs | Some f \<Rightarrow> filter (\<lambda>e. e \<le> f) evs)"

definition clamp_base_event :: "int \<Rightarrow> int option \<Rightarrow> int" where
  "clamp_base_event last_applied frontier =
     (case frontier of None \<Rightarrow> last_applied | Some f \<Rightarrow> if last_applied > f then f else last_applied)"

subsection \<open>Data domains\<close>

definition coord_data_slot :: "int \<times> int \<Rightarrow> int" where
  "coord_data_slot coord = snd coord"

definition domains_list :: "string \<Rightarrow> string list" where
  "domains_list domains = filter (\<lambda>d. d \<noteq> []) (map str_strip (split_on CHR '','' domains))"

text \<open>\<^verbatim>\<open>doms[slot % len(doms)]\<close>, the domain of a slot.\<close>

definition coord_domain :: "string list \<Rightarrow> int \<Rightarrow> string" where
  "coord_domain doms slot = doms ! nat (slot mod int (length doms))"

definition has_period :: "string list \<Rightarrow> nat \<Rightarrow> bool" where
  "has_period doms p = (length doms mod p = 0 \<and> list_all (\<lambda>i. doms ! i = doms ! (i mod p)) [0..<length doms])"

definition domains_canonical :: "string list \<Rightarrow> string list" where
  "domains_canonical doms =
     (case find (has_period doms) [1..<length doms + 1] of Some p \<Rightarrow> take p doms | None \<Rightarrow> doms)"

definition domains_digest :: "world \<Rightarrow> string list \<Rightarrow> string" where
  "domains_digest W doms = sha256 W (join_on newline (domains_canonical doms))"

definition domains_pointer_fields :: "world \<Rightarrow> string \<Rightarrow> (string \<times> json) list" where
  "domains_pointer_fields W domains =
     (let doms = domains_list domains in
      [(''domains'', JList (map JStr doms)), (''domains_digest'', JStr (domains_digest W doms))])"

text \<open>\<^verbatim>\<open>domains_mismatch\<close>: whether the miner refuses to start.\<close>

definition domains_mismatch :: "world \<Rightarrow> json \<Rightarrow> string \<Rightarrow> bool" where
  "domains_mismatch W ptr domains =
     (case ptr of
        JObj kvs \<Rightarrow>
          (let theirs_digest = get_or ptr ''domains_digest'' JNull in
           truthy theirs_digest \<and> str_of W theirs_digest \<noteq> domains_digest W (domains_list domains))
      | _ \<Rightarrow> False)"

end
