(* ===== verification/Lane_Name_Facts.thy ===== *)
theory Lane_Name_Facts
  imports Lane_Names
begin

text \<open>
  Facts about decimal texts and record names: the decimal text of an integer reads back, holds no
  separator, and a name determines the campaign, the event and the rest it was built from.
\<close>

subsection \<open>Decimal texts\<close>

lemma nat_str_small: "n < 10 \<Longrightarrow> nat_str n = [char_of (48 + n)]"
  by (simp add: nat_str.simps)

lemma nat_str_large: "\<not> n < 10 \<Longrightarrow> nat_str n = nat_str (n div 10) @ [char_of (48 + n mod 10)]"
  by (subst nat_str.simps) simp

lemma digit_char: "d < 10 \<Longrightarrow> is_digit (char_of (48 + d)) \<and> digit_val (char_of (48 + d)) = int d"
  by (simp add: is_digit_def digit_val_def)

lemma nat_str_digits: "all_digits (nat_str n)"
proof (induction n rule: less_induct)
  case (less n)
  show ?case
  proof (cases "n < 10")
    case True
    then show ?thesis using digit_char [of n] by (simp add: nat_str_small all_digits_def)
  next
    case False
    then have "all_digits (nat_str (n div 10))" using less by simp
    then show ?thesis using False digit_char [of "n mod 10"] by (simp add: nat_str_large all_digits_def)
  qed
qed

lemma int_digits_snoc:
  "list_all is_digit xs \<Longrightarrow> int_digits prev acc xs = Some v \<Longrightarrow> is_digit c \<Longrightarrow>
   int_digits prev acc (xs @ [c]) = Some (10 * v + digit_val c)"
  by (induction xs arbitrary: prev acc) (auto split: if_splits)

lemma int_digits_nat_str: "int_digits False 0 (nat_str n) = Some (int n)"
proof (induction n rule: less_induct)
  case (less n)
  show ?case
  proof (cases "n < 10")
    case True
    then show ?thesis using digit_char [of n] by (simp add: nat_str_small)
  next
    case False
    then have "int_digits False 0 (nat_str (n div 10)) = Some (int (n div 10))" using less by simp
    moreover have "list_all is_digit (nat_str (n div 10))" using nat_str_digits [of "n div 10"] by (simp add: all_digits_def)
    ultimately have "int_digits False 0 (nat_str (n div 10) @ [char_of (48 + n mod 10)])
        = Some (10 * int (n div 10) + int (n mod 10))"
      using int_digits_snoc digit_char [of "n mod 10"] by fastforce
    moreover have "10 * int (n div 10) + int (n mod 10) = int n" by presburger
    ultimately show ?thesis using False by (simp add: nat_str_large)
  qed
qed

lemma digits_strip: "all_digits s \<Longrightarrow> str_strip s = s"
  by (rule strip_id) (auto simp: all_digits_def list_all_iff dest: is_digit_not_space)

lemma digit_no_sign: "is_digit c \<Longrightarrow> c \<noteq> CHR ''-'' \<and> c \<noteq> CHR ''+''"
  by (auto simp: is_digit_def)

lemma int_of_nat_str [simp]: "int_of_str (nat_str n) = Some (int n)"
proof -
  obtain c cs where s: "nat_str n = c # cs" using nat_str_digits [of n] by (cases "nat_str n") (auto simp: all_digits_def)
  then have "is_digit c" using nat_str_digits [of n] by (simp add: all_digits_def)
  then show ?thesis
    using s int_digits_nat_str [of n] digits_strip [OF nat_str_digits, of n] digit_no_sign
    by (simp add: int_of_str_def)
qed

lemma int_of_int_str [simp]: "int_of_str (int_str n) = Some n"
proof (cases "n < 0")
  case True
  have "str_strip (CHR ''-'' # nat_str (nat (- n))) = CHR ''-'' # nat_str (nat (- n))"
    using nat_str_digits [of "nat (- n)"]
    by (intro strip_id) (auto simp: is_space_def all_digits_def list_all_iff dest!: is_digit_not_space last_in_set)
  then show ?thesis using True by (simp add: int_str_def int_of_str_def int_digits_nat_str)
qed (simp add: int_str_def)

lemma int_str_inject [simp]: "int_str m = int_str n \<longleftrightarrow> m = n"
  by (metis int_of_int_str option.inject)

lemma int_str_digits: "0 \<le> n \<Longrightarrow> all_digits (int_str n)"
  by (simp add: int_str_def nat_str_digits)

lemma int_str_minus: "n < 0 \<Longrightarrow> \<not> all_digits (int_str n)"
  by (simp add: int_str_def all_digits_def is_digit_def)

lemma int_str_chars: "c \<in> set (int_str n) \<Longrightarrow> is_digit c \<or> c = CHR ''-''"
  using nat_str_digits [of "nat n"] nat_str_digits [of "nat (- n)"]
  by (auto simp: int_str_def all_digits_def list_all_iff split: if_splits)

lemma int_str_free [simp]: "CHR ''/'' \<notin> set (int_str n)" "CHR ''.'' \<notin> set (int_str n)" "CHR ''_'' \<notin> set (int_str n)"
    "CHR '':'' \<notin> set (int_str n)" "CHR '','' \<notin> set (int_str n)"
  by (auto dest!: int_str_chars simp: is_digit_def)

lemma int_str_nonempty [simp]: "int_str n \<noteq> []"
  using nat_str_digits by (auto simp: int_str_def all_digits_def)

subsection \<open>Splitting at a separator\<close>

lemma append_sep_eq:
  assumes "c \<notin> set p" "c \<notin> set q"
  shows "p @ c # s = q @ c # t \<longleftrightarrow> p = q \<and> s = t"
  using assms
proof (induction p arbitrary: q)
  case Nil
  then show ?case by (cases q) auto
next
  case (Cons x p)
  then show ?case by (cases q) auto
qed

lemma append_sep_last:
  assumes "c \<notin> set s" "c \<notin> set t"
  shows "p @ c # s = q @ c # t \<longleftrightarrow> p = q \<and> s = t"
proof -
  have "p @ c # s = q @ c # t \<longleftrightarrow> rev s @ c # rev p = rev t @ c # rev q"
    by (metis rev_append rev.simps(2) append_Cons append_Nil append_assoc rev_rev_ident)
  then show ?thesis using assms append_sep_eq [of c "rev s" "rev t" "rev p" "rev q"] by auto
qed

lemma starts_with_append: "starts_with p (p @ s)"
  by (simp add: starts_with_def)

lemma starts_with_iff: "starts_with p s \<longleftrightarrow> (\<exists>t. s = p @ t)"
  by (metis starts_with_def append_take_drop_id starts_with_append)

subsection \<open>Names determine their parts\<close>

lemma campaign_text_Some:
  assumes "campaign_text c = Some cid"
  shows "CHR ''/'' \<notin> set cid" "cid \<noteq> []" "hd cid \<noteq> CHR ''r''" "campaign_text cid = Some cid"
proof -
  have re: "campaign_re cid" using assms by (auto simp: campaign_text_def Let_def split: if_splits)
  then have ok: "\<forall>c \<in> set cid. is_digit c \<or> c \<in> set ''abcdef''" and long: "8 \<le> length cid"
    by (auto simp: campaign_re_def run_of_def list_all_iff)
  show "CHR ''/'' \<notin> set cid" using ok by (auto simp: is_digit_def)
  show ne: "cid \<noteq> []" using long by auto
  then have "hd cid \<in> set cid" by simp
  then show "hd cid \<noteq> CHR ''r''" using ok by (auto simp: is_digit_def)
  have low: "char_lower c = c" if "c \<in> set cid" for c
    using ok that by (auto simp: is_digit_def char_lower_def Let_def)
  have "\<not> is_space c" if "c \<in> set cid" for c
    using ok that by (auto simp: is_digit_def is_space_def Let_def)
  then have "str_strip cid = cid" using ne by (intro strip_id) simp
  moreover have "str_lower cid = cid" using low by (simp add: str_lower_def map_idI)
  ultimately show "campaign_text cid = Some cid" using re by (simp add: campaign_text_def Let_def)
qed

lemma scope_of_Some:
  assumes "scope_of c = Some cid"
  shows "CHR ''/'' \<notin> set cid" "cid \<noteq> []" "hd cid \<noteq> CHR ''r''"
  using assms campaign_text_Some by (auto simp: scope_of_def bind_eq_Some_conv)

text \<open>The part of a name that a scope stands for: nothing, or the identifier and a slash.\<close>

definition scope_text :: "string option \<Rightarrow> string" where
  "scope_text campaign = (case scope_of campaign of None \<Rightarrow> [] | Some cid \<Rightarrow> cid @ ''/'')"

lemma scope_text_eq:
  "scope_text c @ CHR ''r'' # s = scope_text d @ CHR ''r'' # t \<longleftrightarrow> scope_of c = scope_of d \<and> s = t"
proof (cases "scope_of c"; cases "scope_of d")
  fix p q assume "scope_of c = Some p" "scope_of d = Some q"
  then show ?thesis using scope_of_Some [of c p] scope_of_Some [of d q]
    by (auto simp: scope_text_def append_sep_eq)
next
  fix p assume "scope_of c = Some p" "scope_of d = None"
  then show ?thesis using scope_of_Some [of c p] by (cases p) (auto simp: scope_text_def)
next
  fix p assume "scope_of c = None" "scope_of d = Some p"
  then show ?thesis using scope_of_Some [of d p] by (cases p) (auto simp: scope_text_def)
qed (simp add: scope_text_def)

lemma contrib_prefix_text: "contrib_prefix rnd c = ''cg/'' @ scope_text c @ CHR ''r'' # int_str rnd @ ''/''"
  by (simp add: contrib_prefix_def scope_text_def split: option.split)

lemma accepted_name_text: "accepted_name e c = ''sharddiloco/glm/accepted/'' @ scope_text c @ CHR ''r'' # int_str e"
  by (simp add: accepted_name_def scope_text_def split: option.split)

lemma before_last_snoc: "before_last c (s @ [c]) = s"
  by (simp add: before_last_def)

lemma int_str_0: "int_str 0 = ''0''"
  by code_simp

lemma accepted_prefix_text: "accepted_prefix c = ''sharddiloco/glm/accepted/'' @ scope_text c @ ''r''"
  using before_last_snoc [of "CHR ''0''" "''sharddiloco/glm/accepted/'' @ scope_text c @ ''r''"]
  by (simp add: accepted_prefix_def accepted_name_text int_str_0)

lemma accepted_prefix_iff:
  "starts_with (accepted_prefix c) (accepted_name e d) \<longleftrightarrow> scope_of c = scope_of d"
  by (auto simp: starts_with_iff accepted_prefix_text accepted_name_text scope_text_eq)

lemma accepted_name_rest:
  "scope_of c = scope_of d \<Longrightarrow> drop (length (accepted_prefix c)) (accepted_name e d) = int_str e"
proof -
  assume "scope_of c = scope_of d"
  then have "scope_text c = scope_text d" by (simp add: scope_text_def)
  then have "accepted_name e d = accepted_prefix c @ int_str e"
    by (simp add: accepted_name_text accepted_prefix_text)
  then show ?thesis by simp
qed

lemma accepted_name_inject [simp]:
  "accepted_name e c = accepted_name f d \<longleftrightarrow> e = f \<and> scope_of c = scope_of d"
  by (auto simp: accepted_name_text scope_text_eq)

lemma contrib_prefix_iff:
  "starts_with (contrib_prefix e c) (contrib_name f m d) \<longleftrightarrow> e = f \<and> scope_of c = scope_of d"
proof -
  have "starts_with (contrib_prefix e c) (contrib_name f m d) \<longleftrightarrow>
      (\<exists>t. scope_of c = scope_of d \<and> int_str f @ CHR ''/'' # m = int_str e @ CHR ''/'' # t)"
    by (auto simp: starts_with_iff contrib_name_def contrib_prefix_text scope_text_eq)
  then show ?thesis by (auto simp: append_sep_eq)
qed

lemma publish_name_inject:
  "async_publish_name e m k c = async_publish_name f n l d
     \<longleftrightarrow> e = f \<and> m = n \<and> k = l \<and> scope_of c = scope_of d"
  by (auto simp: async_publish_name_def contrib_name_def contrib_prefix_text scope_text_eq append_sep_eq append_sep_last)

end
