(* ===== verification/Lane_Name_Props.thy ===== *)
theory Lane_Name_Props
  imports Lane_Name_Facts
begin

text \<open>
  Properties of the lane's names and of the comparison of data domains.
\<close>

subsection \<open>Campaigns do not see each other\<close>

lemma accepted_entry:
  "(if starts_with (accepted_prefix c) (accepted_name e d) \<and> all_digits (drop (length (accepted_prefix c)) (accepted_name e d))
    then int_of_str (drop (length (accepted_prefix c)) (accepted_name e d)) else None)
   = (if 0 \<le> e \<and> scope_of d = scope_of c then Some e else None)"
  using int_str_digits int_str_minus
  by (cases "scope_of c = scope_of d") (auto simp: accepted_prefix_iff accepted_name_rest not_le)

text \<open>whatever campaigns have published into the store, the events a campaign reads are the
  ones published under its own identifier, each with its number; and the prefix a coordinator looks for
  contributions under selects exactly the contributions to that event of that campaign.\<close>

theorem campaigns_are_separate:
  "accepted_events_in (map (\<lambda>(e, d). accepted_name e d) published) c
     = sort (map fst (filter (\<lambda>(e, d). 0 \<le> e \<and> scope_of d = scope_of c) published))
   \<and> (starts_with (contrib_prefix e c) (contrib_name f m d) \<longleftrightarrow> e = f \<and> scope_of c = scope_of d)"
proof (intro conjI)
  define pick where "pick = (\<lambda>nm. if starts_with (accepted_prefix c) nm \<and> all_digits (drop (length (accepted_prefix c)) nm)
          then int_of_str (drop (length (accepted_prefix c)) nm) else None)"
  have entry: "pick (accepted_name e d) = (if 0 \<le> e \<and> scope_of d = scope_of c then Some e else None)" for e d
    unfolding pick_def by (rule accepted_entry)
  have "List.map_filter pick (map (\<lambda>(e, d). accepted_name e d) published)
      = map fst (filter (\<lambda>(e, d). 0 \<le> e \<and> scope_of d = scope_of c) published)"
    by (induction published) (auto simp: entry map_filter_simps split: option.splits if_splits)
  then show "accepted_events_in (map (\<lambda>(e, d). accepted_name e d) published) c
     = sort (map fst (filter (\<lambda>(e, d). 0 \<le> e \<and> scope_of d = scope_of c) published))"
    by (simp add: accepted_events_in_def Let_def pick_def)
  show "starts_with (contrib_prefix e c) (contrib_name f m d) \<longleftrightarrow> e = f \<and> scope_of c = scope_of d"
    by (rule contrib_prefix_iff)
qed

text \<open>two publications have one name only if they agree in the event, the miner, the counter
  and the campaign, so no publication of a miner that counts up ever replaces another.\<close>

theorem publication_names_are_unique:
  "async_publish_name e m k c = async_publish_name f n l d
     \<longleftrightarrow> e = f \<and> m = n \<and> k = l \<and> scope_of c = scope_of d"
  by (rule publish_name_inject)

subsection \<open>The scan\<close>

lemma scan_from_interval:
  "\<exists>k \<le> n. scan_from n e names c = map (\<lambda>i. e + int i) [0..<k]
     \<and> (\<forall>i < k. accepted_name (e + int i) c \<in> names)
     \<and> (k < n \<longrightarrow> accepted_name (e + int k) c \<notin> names)"
proof (induction n arbitrary: e)
  case (Suc n)
  show ?case
  proof (cases "accepted_name e c \<in> names")
    case True
    obtain k where k: "k \<le> n" "scan_from n (e + 1) names c = map (\<lambda>i. (e + 1) + int i) [0..<k]"
        "\<forall>i < k. accepted_name ((e + 1) + int i) c \<in> names" "k < n \<longrightarrow> accepted_name ((e + 1) + int k) c \<notin> names"
      using Suc [of "e + 1"] by blast
    have "map (\<lambda>i. e + int i) [0..<Suc k] = e # map (\<lambda>i. (e + 1) + int i) [0..<k]"
      by (simp add: upt_conv_Cons del: upt_Suc) (simp add: map_Suc_upt [symmetric] del: upt_Suc)
    moreover have "\<forall>i < Suc k. accepted_name (e + int i) c \<in> names"
      using k(3) True by (auto simp: less_Suc_eq_0_disj algebra_simps)
    moreover have "Suc k < Suc n \<longrightarrow> accepted_name (e + int (Suc k)) c \<notin> names"
      using k(4) by (auto simp: algebra_simps)
    ultimately show ?thesis using k(1,2) True by (intro exI [of _ "Suc k"]) (simp del: upt_Suc)
  qed (auto intro!: exI [of _ 0])
qed simp

text \<open>the scan gives the events right after the last one applied, without a gap, all of them
  listed in the manifest and none past the frontier; within the cap it stops only at an event that is
  not listed or lies past the frontier.\<close>

theorem scan_is_contiguous:
  assumes "evs = scan_accepted_events_bounded names last_applied frontier max_scan c"
  shows "evs = map (\<lambda>i. last_applied + 1 + int i) [0..<length evs]
    \<and> (e \<in> set evs \<longrightarrow> accepted_name e c \<in> names \<and> (\<forall>f. frontier = Some f \<longrightarrow> e \<le> f))
    \<and> (int (length evs) < max_scan \<longrightarrow>
       accepted_name (last_applied + 1 + int (length evs)) c \<notin> names
       \<or> (\<exists>f. frontier = Some f \<and> f < last_applied + 1 + int (length evs)))"
proof (intro conjI)
  let ?at = "\<lambda>i :: nat. last_applied + 1 + int i"
  obtain k where k: "k \<le> nat max_scan"
      "scan_accepted_events names last_applied max_scan c = map ?at [0..<k]"
      "\<forall>i < k. accepted_name (?at i) c \<in> names" "k < nat max_scan \<longrightarrow> accepted_name (?at k) c \<notin> names"
    using scan_from_interval [of "nat max_scan" "last_applied + 1" names c]
    by (auto simp: scan_accepted_events_def)
  define j where "j = (case frontier of None \<Rightarrow> k | Some f \<Rightarrow> min k (nat (f - last_applied)))"
  have cut: "filter (\<lambda>e. e \<le> f) (map ?at [0..<k]) = map ?at [0..<min k (nat (f - last_applied))]" for f
  proof (induction k)
    case (Suc k)
    show ?case
    proof (cases "?at k \<le> f")
      case True
      then have "k < nat (f - last_applied)" by linarith
      then show ?thesis using Suc True by (simp add: min_def)
    next
      case False
      then have "nat (f - last_applied) \<le> k" by linarith
      then show ?thesis using Suc False by (simp add: min_def)
    qed
  qed simp
  have evs: "evs = map ?at [0..<j]"
    using assms cut by (auto simp: scan_accepted_events_bounded_def k(2) j_def split: option.splits)
  then have len: "length evs = j" by simp
  show "evs = map ?at [0..<length evs]" using evs by simp
  show "e \<in> set evs \<longrightarrow> accepted_name e c \<in> names \<and> (\<forall>f. frontier = Some f \<longrightarrow> e \<le> f)"
    using k(3) unfolding evs by (auto simp: j_def split: option.splits)
  show "int (length evs) < max_scan \<longrightarrow> accepted_name (?at (length evs)) c \<notin> names
       \<or> (\<exists>f. frontier = Some f \<and> f < ?at (length evs))"
    unfolding len using k(1,4) by (auto simp: j_def min_def split: option.splits if_splits)
qed

lemma scan_is_contiguous_witness:
  "scan_accepted_events_bounded {accepted_name 1 None, accepted_name 2 None} 0 (Some 1) 10 None = [1]"
  using scan_is_contiguous [of "scan_accepted_events_bounded {accepted_name 1 None, accepted_name 2 None} 0 (Some 1) 10 None"
      "{accepted_name 1 None, accepted_name 2 None}" 0 "Some 1" 10 None]
  by (simp add: scan_accepted_events_bounded_def scan_accepted_events_def eval_nat_numeral)

subsection \<open>Domains\<close>

text \<open>The domain of slot \<open>e\<close> as a sequence, and its periods.\<close>

definition domain_at :: "string list \<Rightarrow> nat \<Rightarrow> string" where
  "domain_at doms e = doms ! (e mod length doms)"

definition periodic :: "(nat \<Rightarrow> 'a) \<Rightarrow> nat \<Rightarrow> bool" where
  "periodic f p = (0 < p \<and> (\<forall>x. f (x + p) = f x))"

lemma periodic_mult: "periodic f p \<Longrightarrow> f (x + k * p) = f x"
proof (induction k)
  case (Suc k)
  have "f (x + Suc k * p) = f ((x + k * p) + p)" by (simp add: algebra_simps)
  also have "\<dots> = f x" using Suc by (simp add: periodic_def)
  finally show ?case .
qed simp

lemma periodic_mod: "periodic f p \<Longrightarrow> f (x mod p) = f x"
  using periodic_mult [of f p "x mod p" "x div p"] by (simp add: algebra_simps)

lemma periodic_gcd:
  assumes "periodic f p" "periodic f q"
  shows "periodic f (gcd p q)"
proof -
  have "p \<noteq> 0" using assms by (simp add: periodic_def)
  then obtain a b where ab: "a * p = b * q + gcd p q" using bezout_nat [of p q] by (auto simp: mult.commute)
  have "f (x + gcd p q) = f x" for x
  proof -
    have "f (x + gcd p q) = f ((x + gcd p q) + b * q)" using periodic_mult [OF assms(2)] by simp
    also have "(x + gcd p q) + b * q = x + a * p" using ab by simp
    finally show ?thesis using periodic_mult [OF assms(1)] by simp
  qed
  then show ?thesis using assms by (simp add: periodic_def)
qed

lemma domain_at_periodic: "doms \<noteq> [] \<Longrightarrow> periodic (domain_at doms) (length doms)"
  by (simp add: periodic_def domain_at_def)

lemma has_period_iff:
  assumes "doms \<noteq> []" "0 < p"
  shows "has_period doms p \<longleftrightarrow> p dvd length doms \<and> periodic (domain_at doms) p"
proof
  assume h: "has_period doms p"
  then have d: "p dvd length doms" by (auto simp: has_period_def)
  have same: "domain_at doms x = doms ! (x mod p)" for x
  proof -
    have "x mod length doms < length doms" using assms by simp
    then have "domain_at doms x = doms ! (x mod length doms mod p)"
      using h by (simp add: has_period_def domain_at_def list_all_iff)
    then show ?thesis using d by (simp add: mod_mod_cancel)
  qed
  show "p dvd length doms \<and> periodic (domain_at doms) p" using d assms by (simp add: periodic_def same)
next
  assume h: "p dvd length doms \<and> periodic (domain_at doms) p"
  have "doms ! i = doms ! (i mod p)" if "i < length doms" for i
  proof -
    have "p \<le> length doms" using h assms by (simp add: dvd_imp_le)
    then have "i mod p < length doms" using assms by (metis less_le_trans mod_less_divisor)
    then have "doms ! (i mod p) = domain_at doms (i mod p)" "doms ! i = domain_at doms i"
      using that by (simp_all add: domain_at_def)
    then show ?thesis using h periodic_mod [of "domain_at doms" p i] by simp
  qed
  then show "has_period doms p" using h by (auto simp: has_period_def list_all_iff)
qed

text \<open>The least period of the sequence, and the canonical list as its first values.\<close>

definition least_period :: "(nat \<Rightarrow> 'a) \<Rightarrow> nat" where
  "least_period f = (LEAST p. periodic f p)"

lemma least_period_dvd:
  assumes "periodic f n"
  shows "least_period f dvd n" "periodic f (least_period f)"
proof -
  show l: "periodic f (least_period f)" unfolding least_period_def by (rule LeastI [of _ n]) (rule assms)
  then have "periodic f (gcd (least_period f) n)" using assms by (rule periodic_gcd)
  then have "least_period f \<le> gcd (least_period f) n" unfolding least_period_def by (rule Least_le)
  moreover have "0 < least_period f" using l by (simp add: periodic_def)
  ultimately have "gcd (least_period f) n = least_period f" by (metis gcd_le1_nat le_antisym neq0_conv)
  then show "least_period f dvd n" by (metis gcd_dvd2)
qed

lemma find_least: "find P xs = Some x \<Longrightarrow> sorted xs \<Longrightarrow> y \<in> set xs \<Longrightarrow> P y \<Longrightarrow> x \<le> y"
  by (induction xs) (auto split: if_splits)

lemma find_hit: "y \<in> set xs \<Longrightarrow> P y \<Longrightarrow> \<exists>x. find P xs = Some x \<and> P x \<and> x \<in> set xs"
  by (induction xs) auto

lemma canonical_values:
  assumes "doms \<noteq> []"
  shows "domains_canonical doms = map (domain_at doms) [0..<least_period (domain_at doms)]"
proof -
  let ?p = "least_period (domain_at doms)" and ?xs = "[1..<length doms + 1]"
  have lp: "?p dvd length doms" "periodic (domain_at doms) ?p"
    using least_period_dvd [OF domain_at_periodic [OF assms]] by auto
  then have pos: "0 < ?p" by (simp add: periodic_def)
  have le: "?p \<le> length doms" using lp(1) assms by (simp add: dvd_imp_le)
  have h: "has_period doms ?p" using lp pos assms by (simp add: has_period_iff)
  have mem: "?p \<in> set ?xs" using pos le by (simp del: upt_Suc)
  obtain q where q: "find (has_period doms) ?xs = Some q" "has_period doms q" "q \<in> set ?xs"
    using find_hit [of ?p ?xs "has_period doms"] mem h by blast
  have "q \<le> ?p" by (rule find_least [OF q(1) _ mem h]) (simp del: upt_Suc)
  moreover have "?p \<le> q"
  proof -
    have "periodic (domain_at doms) q" using q(2,3) assms by (auto simp: has_period_iff)
    then show ?thesis unfolding least_period_def by (rule Least_le)
  qed
  ultimately have "q = ?p" by simp
  then have "domains_canonical doms = take ?p doms" using q(1) by (simp add: domains_canonical_def del: upt_Suc)
  moreover have "take ?p doms = map (domain_at doms) [0..<?p]"
    using le by (intro nth_equalityI) (auto simp: domain_at_def)
  ultimately show ?thesis by simp
qed

text \<open>C36: the canonical domain lists of two roles are equal exactly if every slot resolves to the
  same domain for both, whatever the spelling of the lists.\<close>

theorem canonical_domains_decide_the_mapping:
  assumes "ours \<noteq> []" "theirs \<noteq> []"
  shows "domains_canonical ours = domains_canonical theirs
    \<longleftrightarrow> (\<forall>slot. coord_domain ours slot = coord_domain theirs slot)"
proof -
  have both: "\<exists>m. coord_domain ours slot = domain_at ours m \<and> coord_domain theirs slot = domain_at theirs m" for slot
  proof -
    let ?k = "int (length ours) * int (length theirs)"
    let ?m = "nat (slot mod ?k)"
    have pos: "0 < ?k" using assms by simp
    have "int ?m mod int (length ours) = slot mod int (length ours)"
      "int ?m mod int (length theirs) = slot mod int (length theirs)"
      using pos by (simp_all add: mod_mod_cancel)
    then have "?m mod length ours = nat (slot mod int (length ours))"
      "?m mod length theirs = nat (slot mod int (length theirs))"
      by (metis nat_int zmod_int)+
    then show ?thesis by (intro exI [of _ ?m]) (simp add: coord_domain_def domain_at_def)
  qed
  have eq: "(\<forall>slot. coord_domain ours slot = coord_domain theirs slot) \<longleftrightarrow> domain_at ours = domain_at theirs"
  proof
    assume a: "\<forall>slot. coord_domain ours slot = coord_domain theirs slot"
    show "domain_at ours = domain_at theirs"
    proof
      fix e
      have "coord_domain ds (int e) = domain_at ds e" for ds
        by (metis coord_domain_def domain_at_def nat_int zmod_int)
      then show "domain_at ours e = domain_at theirs e" using a by metis
    qed
  qed (metis both)
  have canon: "domain_at ds m = domains_canonical ds ! (m mod length (domains_canonical ds))" if "ds \<noteq> []" for ds m
  proof -
    have p: "periodic (domain_at ds) (least_period (domain_at ds))"
      using least_period_dvd(2) [OF domain_at_periodic [OF that]] .
    then show ?thesis using periodic_mod [OF p, of m] by (simp add: canonical_values that periodic_def)
  qed
  show ?thesis unfolding eq using canon assms canonical_values by (metis ext)
qed

lemma canonical_domains_decide_the_mapping_witness:
  "domains_canonical [''daily'', ''daily''] = domains_canonical [''daily'']
   \<and> domains_canonical [''code'', ''gutenberg''] \<noteq> domains_canonical [''gutenberg'', ''code'']"
proof
  have "coord_domain [''daily'', ''daily''] slot = coord_domain [''daily''] slot" for slot
  proof -
    have "0 \<le> slot mod 2" "slot mod 2 < 2" by simp_all
    then have "slot mod 2 = 0 \<or> slot mod 2 = 1" by linarith
    then show ?thesis by (auto simp: coord_domain_def)
  qed
  then show "domains_canonical [''daily'', ''daily''] = domains_canonical [''daily'']"
    using canonical_domains_decide_the_mapping [of "[''daily'', ''daily'']" "[''daily'']"] by simp
  have "coord_domain [''code'', ''gutenberg''] 0 \<noteq> coord_domain [''gutenberg'', ''code''] 0"
    by (simp add: coord_domain_def)
  then show "domains_canonical [''code'', ''gutenberg''] \<noteq> domains_canonical [''gutenberg'', ''code'']"
    using canonical_domains_decide_the_mapping [of "[''code'', ''gutenberg'']" "[''gutenberg'', ''code'']"] by auto
qed

text \<open>A domain name may hold a newline, and then two different lists have one digest.\<close>

lemma newline_hides_a_mismatch:
  "domains_digest W [''a'' @ newline # ''b''] = domains_digest W [''a'', ''b'']"
proof -
  have "domains_canonical [''a'' @ newline # ''b''] = [''a'' @ newline # ''b'']" by code_simp
  moreover have "domains_canonical [''a'', ''b''] = [''a'', ''b'']" by code_simp
  ultimately show ?thesis by (simp add: domains_digest_def)
qed

end
