(* ===== verification/Claim_Walk.thy ===== *)
theory Claim_Walk
  imports Lane_Names Incentives
begin

text \<open>
  Which expert a miner works on, from \<^verbatim>\<open>tools/sharddiloco_glm_contributor.py\<close> and the piece maps of
  \<^verbatim>\<open>tools/piece_loader.py\<close>: the coordinates named on the command line, the pieces a node keeps resident,
  the walk through the claimable coordinates, and the verdict of an accepted record on the miner's own
  work. A shard manifest is the list of its pieces, each with its name and its experts.
\<close>

type_synonym coord = "int \<times> int"

subsection \<open>Coordinates and pieces on the command line\<close>

text \<open>\<^verbatim>\<open>s.partition(c)\<close>: before, whether the separator occurs, after.\<close>

definition partition_on :: "char \<Rightarrow> string \<Rightarrow> string \<times> bool \<times> string" where
  "partition_on c s = (takeWhile (\<lambda>x. x \<noteq> c) s, c \<in> set s, drop 1 (dropWhile (\<lambda>x. x \<noteq> c) s))"

definition text_int :: "string \<Rightarrow> exn + int" where
  "text_int s = orE (ValueError ''invalid literal for int'') (int_of_str s)"

definition slot_of_text :: "string \<Rightarrow> exn + coord" where
  "slot_of_text part =
     (case partition_on CHR '':'' part of (l, sep, e) \<Rightarrow>
        bindE (text_int l) (\<lambda>a. bindE (text_int e) (\<lambda>b. Inr (a, b))))"

definition parse_slots :: "string \<Rightarrow> exn + coord list" where
  "parse_slots s =
     (let parts = filter (\<lambda>p. p \<noteq> []) (map str_strip (split_on CHR '','' s)) in
      bindE (mapE slot_of_text parts) (\<lambda>out.
        if out = [] then Inl (SystemExit ''--slots must be a non-empty list'') else Inr out))"

definition parse_coord :: "string \<Rightarrow> exn + coord" where
  "parse_coord s =
     (case partition_on CHR '':'' (str_strip s) of (l, sep, e) \<Rightarrow>
        if \<not> sep then Inl (SystemExit ''--expert must look like L:E'')
        else (case (int_of_str l, int_of_str e) of
                (Some a, Some b) \<Rightarrow> Inr (a, b)
              | _ \<Rightarrow> Inl (SystemExit ''--expert must look like L:E'')))"

text \<open>One entry of \<^verbatim>\<open>--pieces\<close>: a number, or a range that includes both ends.\<close>

definition piece_entry :: "string \<Rightarrow> exn + int list" where
  "piece_entry part =
     (if part = [] then Inl (SystemExit ''empty entry'')
      else if CHR ''-'' \<in> set part then
        (case partition_on CHR ''-'' part of (a, sep, b) \<Rightarrow>
           (case (int_of_str (str_strip a), int_of_str (str_strip b)) of
              (Some lo, Some hi) \<Rightarrow> if lo > hi then Inl (SystemExit ''descending range'') else Inr [lo..hi]
            | _ \<Rightarrow> Inl (SystemExit ''range is not two integers'')))
      else (case int_of_str part of Some n \<Rightarrow> Inr [n] | None \<Rightarrow> Inl (SystemExit ''not an integer'')))"

definition parse_pieces :: "string \<Rightarrow> exn + int list" where
  "parse_pieces spec =
     bindE (mapE (\<lambda>p. piece_entry (str_strip p)) (split_on CHR '','' (str_strip spec))) (\<lambda>entries.
       let out = sorted_list_of_set (set (concat entries)) in
       if out = [] then Inl (SystemExit ''empty list'')
       else if hd out < 0 then Inl (SystemExit ''negative piece id'')
       else Inr out)"

subsection \<open>Pieces and layers\<close>

record piece =
  pc_name :: string
  pc_experts :: "coord list"

text \<open>The two fields of the model configuration that decide which layers hold routed experts.\<close>

record claim_config =
  cc_dense :: int
  cc_layers :: int

definition real_layer :: "claim_config \<Rightarrow> int \<Rightarrow> bool" where
  "real_layer config l = (cc_dense config \<le> l \<and> l < cc_layers config)"

definition piece_id :: "piece \<Rightarrow> int option" where
  "piece_id rec =
     (if starts_with ''experts_'' (pc_name rec) then int_of_str (drop (length ''experts_'') (pc_name rec)) else None)"

definition piece_layer_map :: "piece list \<Rightarrow> claim_config option \<Rightarrow> (int, int set) pydict" where
  "piece_layer_map manifest config =
     foldl (\<lambda>out rec. case piece_id rec of
         None \<Rightarrow> out
       | Some pid \<Rightarrow> dset pid (set (filter (\<lambda>l. case config of None \<Rightarrow> True | Some c \<Rightarrow> real_layer c l)
                                          (map fst (pc_experts rec)))) out) [] manifest"

definition default_piece_ids ::
  "piece list \<Rightarrow> claim_config option \<Rightarrow> int \<Rightarrow> int list \<times> (int \<times> int list) list" where
  "default_piece_ids manifest config anchor =
     (let layers = piece_layer_map manifest config; base = dget layers anchor {} in
      if base = {} then ([anchor], [])
      else (let pids = filter (\<lambda>pid. dget layers pid {} \<noteq> {}) (sort (dkeys layers)) in
            (filter (\<lambda>pid. dget layers pid {} \<subseteq> base) pids,
             map (\<lambda>pid. (pid, sorted_list_of_set (dget layers pid {} - base)))
               (filter (\<lambda>pid. \<not> dget layers pid {} \<subseteq> base \<and> dget layers pid {} \<inter> base \<noteq> {}) pids))))"

definition piece_record :: "piece list \<Rightarrow> int \<Rightarrow> exn + piece" where
  "piece_record manifest pid = orE KeyError (find (\<lambda>p. pc_name p = ''experts_'' @ int_str pid) manifest)"

definition assigned_expert_ids :: "piece list \<Rightarrow> int list \<Rightarrow> exn + coord set" where
  "assigned_expert_ids manifest piece_ids =
     bindE (mapE (piece_record manifest) piece_ids) (\<lambda>recs. Inr (set (concat (map pc_experts recs))))"

definition claimable_expert_ids :: "piece list \<Rightarrow> int list \<Rightarrow> claim_config \<Rightarrow> exn + coord list" where
  "claimable_expert_ids manifest piece_ids config =
     bindE (assigned_expert_ids manifest piece_ids) (\<lambda>ids.
       Inr (sorted_list_of_set (Set.filter (\<lambda>c. real_layer config (fst c)) ids)))"

definition check_residency :: "int option \<Rightarrow> coord list option \<Rightarrow> exn + int option" where
  "check_residency n_resident claimable =
     (case (claimable, n_resident) of
        (Some cs, Some got) \<Rightarrow>
          if got \<noteq> int (length cs) then Inl (SystemExit ''residency mismatch'') else Inr (Some got)
      | _ \<Rightarrow> Inr None)"

subsection \<open>The walk\<close>

definition walk_key :: "world \<Rightarrow> string \<Rightarrow> coord \<Rightarrow> string" where
  "walk_key W identity c = sha256 W (identity @ ''|'' @ int_str (fst c) @ '':'' @ int_str (snd c))"

definition pick_start_coord :: "world \<Rightarrow> coord list \<Rightarrow> string \<Rightarrow> exn + coord" where
  "pick_start_coord W claimable identity =
     (if claimable = [] then Inl (SystemExit ''no claimable coordinates to start from'')
      else bindE (orE (ValueError ''invalid literal for int'') (hex_value 0 (sha256 W identity))) (\<lambda>h.
        Inr (claimable ! (h mod length claimable))))"

text \<open>The first occurrences of a list, in order.\<close>

fun first_seen :: "'a list \<Rightarrow> 'a list \<Rightarrow> 'a list" where
  "first_seen seen [] = []"
| "first_seen seen (x # xs) = (if x \<in> set seen then first_seen seen xs else x # first_seen (x # seen) xs)"

definition claim_walk_order :: "world \<Rightarrow> coord list \<Rightarrow> string option \<Rightarrow> coord list \<Rightarrow> coord list" where
  "claim_walk_order W coords identity ranked =
     (if ranked \<noteq> [] then
        (let order = first_seen [] (filter (\<lambda>c. c \<in> set coords) ranked) in
         order @ filter (\<lambda>c. c \<notin> set order) coords)
      else (case identity of None \<Rightarrow> coords | Some i \<Rightarrow> sort_key (walk_key W i) coords))"

fun index_in :: "'a \<Rightarrow> 'a list \<Rightarrow> nat" where
  "index_in x [] = 0"
| "index_in x (y # ys) = (if x = y then 0 else Suc (index_in x ys))"

definition next_claim_coord ::
  "world \<Rightarrow> coord list \<Rightarrow> coord \<Rightarrow> string option \<Rightarrow> coord list \<Rightarrow> coord option" where
  "next_claim_coord W coords current identity ranked =
     (if length coords \<le> 1 then None
      else (let order = claim_walk_order W coords identity ranked in
        if current \<notin> set order then Some (order ! 0)
        else Some (order ! ((index_in current order + 1) mod length order))))"

text \<open>The candidates of an advance, \<^verbatim>\<open>start\<close> and \<^verbatim>\<open>cands\<close> of \<^verbatim>\<open>advance_claim\<close>: one pass over the walk from
  the current coordinate on, which is left out. The walk that tries them, and the early return on a claim
  of at most one coordinate, are \<^verbatim>\<open>advance_claim\<close> itself (theory Lane_Catchup).\<close>

definition advance_candidates :: "coord list \<Rightarrow> coord \<Rightarrow> coord list" where
  "advance_candidates order cur =
     (let start = (if cur \<in> set order then index_in cur order + 1 else 0) in
      filter (\<lambda>c. c \<noteq> cur) (map (\<lambda>k. order ! ((start + k) mod length order)) [0..<length order]))"

subsection \<open>Layers as claims\<close>

definition layer_claim_layers :: "coord list \<Rightarrow> int list" where
  "layer_claim_layers coords = sorted_list_of_set (set (map fst coords))"

definition layer_claim_coords :: "coord list \<Rightarrow> int \<Rightarrow> coord list" where
  "layer_claim_coords coords l = sort_key snd (filter (\<lambda>c. fst c = l) coords)"

definition layer_claim_head :: "coord list \<Rightarrow> int \<Rightarrow> coord option" where
  "layer_claim_head coords l = (case layer_claim_coords coords l of [] \<Rightarrow> None | c # cs \<Rightarrow> Some c)"

definition layer_claim_of :: "coord list \<Rightarrow> coord option \<Rightarrow> int option \<times> coord list" where
  "layer_claim_of coords coord =
     (case coord of None \<Rightarrow> (None, []) | Some c \<Rightarrow> (Some (fst c), layer_claim_coords coords (fst c)))"

subsection \<open>The verdict of an accepted record\<close>

text \<open>\<^verbatim>\<open>int(v)\<close> with the exception it raises. A number that is not finite stands for an infinity
  here; of a NaN, \<^verbatim>\<open>int\<close> raises ValueError as of any unreadable text.\<close>

fun py_int :: "json \<Rightarrow> exn + int" where
  "py_int (JNum NonFin) = Inl OverflowError"
| "py_int (JStr s) = text_int s"
| "py_int JNull = Inl TypeError"
| "py_int (JList xs) = Inl TypeError"
| "py_int (JObj kvs) = Inl TypeError"
| "py_int j = orE TypeError (jint j)"

text \<open>\<^verbatim>\<open>try: int(v) except (TypeError, ValueError)\<close>: an overflow is let through.\<close>

definition int_or_none :: "json \<Rightarrow> exn + int option" where
  "int_or_none v = (case py_int v of Inr n \<Rightarrow> Inr (Some n) | Inl OverflowError \<Rightarrow> Inl OverflowError | Inl e \<Rightarrow> Inr None)"

text \<open>\<^verbatim>\<open>rec.get(k)\<close>, which only a dictionary has.\<close>

definition py_get :: "json \<Rightarrow> string \<Rightarrow> json \<Rightarrow> exn + json" where
  "py_get rec k v = (case rec of JObj kvs \<Rightarrow> Inr (dget kvs k v) | _ \<Rightarrow> Inl AttributeError)"

text \<open>\<^verbatim>\<open>k in x\<close> of a decoded value.\<close>

fun py_in :: "string \<Rightarrow> json \<Rightarrow> exn + bool" where
  "py_in k (JObj kvs) = Inr (k \<in> set (dkeys kvs))"
| "py_in k (JList xs) = Inr (JStr k \<in> set xs)"
| "py_in k (JStr s) = Inr (contains k s)"
| "py_in k j = Inl TypeError"

definition record_touched_coord :: "json \<Rightarrow> coord \<Rightarrow> exn + bool" where
  "record_touched_coord rec coord =
     bindE (py_get rec ''slot_roots'' JNull) (\<lambda>sr. if truthy sr then py_in (coord_text coord) sr else Inr False)"

definition event_judged_us :: "json \<Rightarrow> int option \<Rightarrow> exn + bool" where
  "event_judged_us rec published_base_event =
     (case published_base_event of
        None \<Rightarrow> Inr False
      | Some b \<Rightarrow> bindE (py_get rec ''event'' JNull) (\<lambda>v. bindE (int_or_none v) (\<lambda>e.
          Inr (case e of None \<Rightarrow> False | Some n \<Rightarrow> b \<le> n))))"

text \<open>The rows of an iterated value: the elements of a list, the keys of a dictionary, the
  characters of a string.\<close>

fun py_iter :: "json \<Rightarrow> exn + json list" where
  "py_iter (JList xs) = Inr xs"
| "py_iter (JObj kvs) = Inr (map (\<lambda>kv. JStr (fst kv)) kvs)"
| "py_iter (JStr s) = Inr (map (\<lambda>c. JStr [c]) s)"
| "py_iter j = Inl TypeError"

fun any_names :: "world \<Rightarrow> string \<Rightarrow> json list \<Rightarrow> exn + bool" where
  "any_names W miner [] = Inr False"
| "any_names W miner (it # its) =
     bindE (py_get it ''miner'' JNull) (\<lambda>m. if str_of W m = miner then Inr True else any_names W miner its)"

definition accepted_names_me :: "world \<Rightarrow> json \<Rightarrow> string \<Rightarrow> exn + bool" where
  "accepted_names_me W record miner =
     bindE (py_get record ''accepted'' JNull) (\<lambda>v.
       bindE (if truthy v then py_iter v else Inr []) (any_names W miner))"

definition VERDICT_LOST_RACE :: string where "VERDICT_LOST_RACE = ''lost_race''"

definition coord_verdict_for_me :: "world \<Rightarrow> json \<Rightarrow> string \<Rightarrow> string option" where
  "coord_verdict_for_me W record miner =
     (case get_or record ''verdicts'' JNull of
        JObj kvs \<Rightarrow> (case dget kvs miner JNull of JNull \<Rightarrow> Some VERDICT_LOST_RACE | got \<Rightarrow> Some (str_of W got))
      | _ \<Rightarrow> None)"

datatype streak_act = StreakAccept | StreakReject | StreakNoVerdict

definition streak_action :: "world \<Rightarrow> json \<Rightarrow> string \<Rightarrow> exn + streak_act" where
  "streak_action W record miner =
     bindE (accepted_names_me W record miner) (\<lambda>mine.
       Inr (if mine then StreakAccept
            else if coord_verdict_for_me W record miner = Some VERDICT_LOST_RACE then StreakNoVerdict
            else StreakReject))"

text \<open>What one record says of the miner's work at a coordinate: nothing, or an action.\<close>

definition record_says :: "world \<Rightarrow> json \<Rightarrow> coord \<Rightarrow> string \<Rightarrow> int option \<Rightarrow> exn + streak_act option" where
  "record_says W rec coord miner published =
     bindE (record_touched_coord rec coord) (\<lambda>touched.
       if \<not> touched then Inr None
       else bindE (event_judged_us rec published) (\<lambda>judged.
         if \<not> judged then Inr None
         else bindE (streak_action W rec miner) (\<lambda>act. Inr (Some act))))"

text \<open>\<^verbatim>\<open>fold_streak_update\<close>: \<open>on_accept\<close> is the caller's side effect on its state.\<close>

fun fold_streak_update ::
  "world \<Rightarrow> json list \<Rightarrow> coord \<Rightarrow> string \<Rightarrow> int option \<Rightarrow> (json \<Rightarrow> 's \<Rightarrow> 's) \<Rightarrow> int \<Rightarrow> 's \<Rightarrow> (exn + int) \<times> 's" where
  "fold_streak_update W [] coord miner published on_accept streak s = (Inr streak, s)"
| "fold_streak_update W (rec # recs) coord miner published on_accept streak s =
     (case record_says W rec coord miner published of
        Inl e \<Rightarrow> (Inl e, s)
      | Inr (Some StreakAccept) \<Rightarrow> fold_streak_update W recs coord miner published on_accept 0 (on_accept rec s)
      | Inr (Some StreakReject) \<Rightarrow> fold_streak_update W recs coord miner published on_accept (streak + 1) s
      | Inr _ \<Rightarrow> fold_streak_update W recs coord miner published on_accept streak s)"

subsection \<open>Layer payloads\<close>

text \<open>A payload as it reaches the publication: entries that are nested dictionaries, or arrays. The
  coordinates of a layer payload, \<open>None\<close> for any other.\<close>

datatype 'a payload_entry = Nested "(string, 'a) pydict" | Flat 'a

definition DELTA_SLOT_KEYS :: "string list" where "DELTA_SLOT_KEYS = [''gate'', ''up'', ''down'']"

definition payload_coord :: "string \<times> 'a payload_entry \<Rightarrow> coord option" where
  "payload_coord kv =
     (case snd kv of
        Flat _ \<Rightarrow> None
      | Nested v \<Rightarrow>
          (case partition_on CHR ''_'' (fst kv) of (a, sep, b) \<Rightarrow>
             if \<not> (all_digits a \<and> all_digits b) then None
             else if list_ex (\<lambda>x. map_of v x = None) DELTA_SLOT_KEYS then None
             else (case (int_of_str a, int_of_str b) of (Some l, Some e) \<Rightarrow> Some (l, e) | _ \<Rightarrow> None)))"

definition layer_payload_coords :: "(string, 'a payload_entry) pydict \<Rightarrow> coord list option" where
  "layer_payload_coords payload =
     (if payload = [] then None else map_option sort (those_map payload_coord payload))"

end
