(* ===== verification/Claim_Walk_Props.thy ===== *)
theory Claim_Walk_Props
  imports Claim_Walk Lane_Name_Facts
begin

text \<open>
  Properties of the claim walk, the default residency, the verdict streak and the layer payload.
\<close>

subsection \<open>The walk visits everything\<close>

lemma set_first_seen: "set (first_seen seen xs) = set xs - set seen"
  by (induction xs arbitrary: seen) auto

lemma distinct_first_seen: "distinct (first_seen seen xs)"
  by (induction xs arbitrary: seen) (auto simp: set_first_seen)

lemma walk_order_permutes:
  assumes "distinct coords"
  shows "distinct (claim_walk_order W coords identity ranked)"
    "set (claim_walk_order W coords identity ranked) = set coords"
  using assms by (auto simp: claim_walk_order_def Let_def set_first_seen distinct_first_seen split: option.splits)

lemma index_in_less: "x \<in> set xs \<Longrightarrow> index_in x xs < length xs"
  by (induction xs) auto

lemma nth_index_in: "x \<in> set xs \<Longrightarrow> xs ! index_in x xs = x"
  by (induction xs) auto

lemma rotated: "a < n \<Longrightarrow> (s + a) mod n = (let r = s mod n in if r + a < n then r + a else r + a - n)" for a n s :: nat
proof -
  assume a: "a < n"
  then have r: "s mod n < n" by simp
  have "(s + a) mod n = (s mod n + a) mod n" by (simp add: mod_add_left_eq)
  also have "\<dots> = (if s mod n + a < n then s mod n + a else s mod n + a - n)"
  proof (cases "s mod n + a < n")
    case False
    then have "(s mod n + a) mod n = (s mod n + a - n) mod n" by (intro le_mod_geq) simp
    also have "\<dots> = s mod n + a - n" using a r by (intro mod_less) linarith
    finally show ?thesis using False by simp
  qed simp
  finally show ?thesis by (simp add: Let_def)
qed

lemma rotation_distinct:
  assumes "distinct xs"
  shows "distinct (map (\<lambda>k. xs ! ((s + k) mod length xs)) [0..<length xs])"
    "set (map (\<lambda>k. xs ! ((s + k) mod length xs)) [0..<length xs]) = set xs"
proof -
  let ?f = "\<lambda>k. (s + k) mod length xs"
  have inj: "inj_on ?f {0..<length xs}"
  proof (rule inj_onI)
    fix a b assume ab: "a \<in> {0..<length xs}" "b \<in> {0..<length xs}" "?f a = ?f b"
    then show "a = b" using rotated [of a "length xs" s] rotated [of b "length xs" s]
      by (auto simp: Let_def split: if_splits)
  qed
  have img: "?f ` {0..<length xs} = {0..<length xs}"
    by (rule endo_inj_surj) (auto simp: inj intro!: mod_less_divisor)
  have inj': "inj_on (\<lambda>k. xs ! ?f k) {0..<length xs}"
    using comp_inj_on [OF inj, of "(!) xs"] img inj_on_nth [OF assms, of "{0..<length xs}"] by (simp add: comp_def)
  then show "distinct (map (\<lambda>k. xs ! ?f k) [0..<length xs])" by (simp add: distinct_map)
  have "set (map (\<lambda>k. xs ! ?f k) [0..<length xs]) = (!) xs ` (?f ` {0..<length xs})" by auto
  then show "set (map (\<lambda>k. xs ! ?f k) [0..<length xs]) = set xs" unfolding img by (auto simp: set_conv_nth)
qed

lemma index_in_nth: "distinct xs \<Longrightarrow> i < length xs \<Longrightarrow> index_in (xs ! i) xs = i"
  by (metis index_in_less nth_eq_iff_index_eq nth_index_in nth_mem)

text \<open>The candidates are the coordinates that the simple rule names in turn.\<close>

definition walk_step :: "world \<Rightarrow> coord list \<Rightarrow> string option \<Rightarrow> coord list \<Rightarrow> coord \<Rightarrow> coord" where
  "walk_step W coords identity ranked c = the (next_claim_coord W coords c identity ranked)"

lemma candidates_iterate:
  assumes "distinct coords" "1 < length coords" "cands = advance_candidates (claim_walk_order W coords identity ranked) current"
  shows "distinct cands" "set cands = set coords - {current}"
    "cands = map (\<lambda>k. (walk_step W coords identity ranked ^^ Suc k) current) [0..<length cands]"
proof -
  define order where "order = claim_walk_order W coords identity ranked"
  define n where "n = length order"
  have order: "distinct order" "set order = set coords" using walk_order_permutes [OF assms(1)] by (simp_all add: order_def)
  then have n: "n = length coords" using assms(1) by (metis distinct_card n_def)
  define start where "start = (if current \<in> set order then index_in current order + 1 else 0)"
  define rot where "rot k = order ! ((start + k) mod n)" for k
  have rot: "rot = (\<lambda>k. order ! ((start + k) mod n))" by (simp add: rot_def fun_eq_iff)
  have all: "distinct (map rot [0..<n])" "set (map rot [0..<n]) = set order"
    using rotation_distinct [OF order(1), of start] by (simp_all only: rot n_def)
  have cands: "cands = filter (\<lambda>c. c \<noteq> current) (map rot [0..<n])"
    unfolding assms(3) order_def [symmetric] advance_candidates_def Let_def start_def [symmetric] n_def [symmetric] rot ..
  show "distinct cands" "set cands = set coords - {current}"
    unfolding cands set_filter all(2) order(2) using all(1) by (rule distinct_filter) blast
  let ?step = "walk_step W coords identity ranked"
  have step: "?step c = (if c \<in> set order then order ! ((index_in c order + 1) mod n) else order ! 0)" for c
    using assms(2) by (simp add: walk_step_def next_claim_coord_def Let_def order_def n_def)
  have "?step (rot k) = rot (Suc k)" for k
  proof -
    have i: "(start + k) mod n < n" using n assms(2) by (intro mod_less_divisor) linarith
    then have "rot k \<in> set order" "index_in (rot k) order = (start + k) mod n"
      using index_in_nth [OF order(1)] by (simp_all add: rot_def n_def)
    then show ?thesis by (simp add: step rot_def mod_Suc_eq)
  qed
  moreover have "?step current = rot 0" by (simp add: step rot_def start_def)
  ultimately have iter: "(?step ^^ Suc k) current = rot k" for k by (induction k) simp_all
  have "\<exists>m \<le> n. cands = map rot [0..<m]"
  proof (cases "current \<in> set order")
    case True
    let ?i = "index_in current order"
    have i: "?i < n" "order ! ?i = current" using True by (simp_all add: n_def index_in_less nth_index_in)
    have n1: "[0..<n] = [0..<n - 1] @ [n - 1]" using i(1) upt_Suc_append [of 0 "n - 1"] by simp
    have last: "rot (n - 1) = current" using i True by (simp add: rot_def start_def)
    have "rot k \<noteq> current" if "k < n - 1" for k
    proof
      assume "rot k = current"
      moreover have below: "(start + k) mod n < n" using i(1) by (intro mod_less_divisor) linarith
      ultimately have "(start + k) mod n = ?i"
        using index_in_nth [OF order(1), of "(start + k) mod n"] below by (simp add: rot_def n_def)
      moreover have "k + 1 < n" using that by linarith
      ultimately show False using rotated [of "k + 1" n ?i] i(1) True by (auto simp: start_def Let_def split: if_splits)
    qed
    then have "filter (\<lambda>c. c \<noteq> current) (map rot [0..<n - 1]) = map rot [0..<n - 1]" by (intro filter_True) auto
    then have "cands = map rot [0..<n - 1]" unfolding cands n1 by (simp add: last [simplified])
    then show ?thesis by (intro exI [of _ "n - 1"]) simp
  next
    case False
    have "filter (\<lambda>c. c \<noteq> current) (map rot [0..<n]) = map rot [0..<n]"
      using all(2) False by (intro filter_True) blast
    then show ?thesis using cands by auto
  qed
  then obtain m where "cands = map rot [0..<m]" by blast
  then show "cands = map (\<lambda>k. (?step ^^ Suc k) current) [0..<length cands]" unfolding iter by simp
qed

subsection \<open>The default residency\<close>

text \<open>the default residency keeps the anchor, takes exactly the pieces whose real layers all
  belong to the anchor, so it never brings in a layer, and lists as excluded exactly the pieces that
  share a layer with the anchor and would bring in others.\<close>

theorem default_residency_fills_the_layer:
  assumes "layers = piece_layer_map manifest config" "base = dget layers anchor {}"
    "default_piece_ids manifest config anchor = (keep, excluded)"
  shows "anchor \<in> set keep
    \<and> (base \<noteq> {} \<longrightarrow> set keep = {pid. pid \<in> set (dkeys layers) \<and> dget layers pid {} \<noteq> {} \<and> dget layers pid {} \<subseteq> base})
    \<and> (base \<noteq> {} \<longrightarrow> set (map fst excluded) = {pid. pid \<in> set (dkeys layers)
         \<and> dget layers pid {} \<inter> base \<noteq> {} \<and> \<not> dget layers pid {} \<subseteq> base})"
proof (cases "base = {}")
  case True
  then show ?thesis using assms by (auto simp: default_piece_ids_def Let_def)
next
  case False
  then have "anchor \<in> set (dkeys layers)" using assms(2)
    by (cases "map_of layers anchor") (auto simp: dget_def dest!: map_of_SomeD intro: rev_image_eqI)
  moreover define ks where "ks = dkeys layers"
  have "set keep = {pid \<in> set (dkeys layers). dget layers pid {} \<noteq> {} \<and> dget layers pid {} \<subseteq> base}"
      "set (map fst excluded) = {pid \<in> set (dkeys layers). dget layers pid {} \<noteq> {}
         \<and> \<not> dget layers pid {} \<subseteq> base \<and> dget layers pid {} \<inter> base \<noteq> {}}"
    using assms(3) False
    unfolding default_piece_ids_def Let_def assms(1) [symmetric] assms(2) [symmetric] ks_def [symmetric]
    by (auto simp: image_image)
  ultimately show ?thesis using False assms(2) by blast
qed

lemma default_residency_fills_the_layer_witness:
  "fst (default_piece_ids [\<lparr>pc_name = ''trunk'', pc_experts = []\<rparr>, \<lparr>pc_name = ''experts_0'', pc_experts = [(1, 0)]\<rparr>,
      \<lparr>pc_name = ''experts_1'', pc_experts = [(1, 1), (2, 0)]\<rparr>] (Some \<lparr>cc_dense = 1, cc_layers = 3\<rparr>) 0) \<noteq> []"
proof -
  obtain keep excluded where k: "default_piece_ids [\<lparr>pc_name = ''trunk'', pc_experts = []\<rparr>,
      \<lparr>pc_name = ''experts_0'', pc_experts = [(1, 0)]\<rparr>, \<lparr>pc_name = ''experts_1'', pc_experts = [(1, 1), (2, 0)]\<rparr>]
      (Some \<lparr>cc_dense = 1, cc_layers = 3\<rparr>) 0 = (keep, excluded)" by (meson surj_pair)
  have "0 \<in> set keep" using default_residency_fills_the_layer [OF refl refl k] by blast
  then show ?thesis by (auto simp: k)
qed

subsection \<open>The reject streak\<close>

text \<open>The streak as a function of what the records say: the rejects since the last acceptance, added to
  the old streak when there was none.\<close>

definition streak_after :: "int \<Rightarrow> streak_act option list \<Rightarrow> int" where
  "streak_after streak acts =
     (if Some StreakAccept \<in> set acts then 0 else streak)
     + int (length (filter (\<lambda>a. a = Some StreakReject) (takeWhile (\<lambda>a. a \<noteq> Some StreakAccept) (rev acts))))"

lemma streak_after_Cons:
  "streak_after streak (act # acts) =
     (case act of Some StreakAccept \<Rightarrow> streak_after 0 acts | Some StreakReject \<Rightarrow> streak_after (streak + 1) acts
      | _ \<Rightarrow> streak_after streak acts)"
proof (cases "Some StreakAccept \<in> set acts")
  case True
  then have "takeWhile (\<lambda>a. a \<noteq> Some StreakAccept) (rev acts @ [act]) = takeWhile (\<lambda>a. a \<noteq> Some StreakAccept) (rev acts)"
    by (intro takeWhile_append1) auto
  then show ?thesis using True by (auto simp: streak_after_def split: option.split streak_act.split)
next
  case False
  then have t: "takeWhile (\<lambda>a. a \<noteq> Some StreakAccept) (rev acts) = rev acts" by (auto simp: takeWhile_eq_all_conv)
  have u: "takeWhile (\<lambda>a. a \<noteq> Some StreakAccept) (rev acts @ [act])
      = rev acts @ takeWhile (\<lambda>a. a \<noteq> Some StreakAccept) [act]"
    using False by (intro takeWhile_append2) auto
  show ?thesis using False by (simp add: streak_after_def t u split: option.split streak_act.split)
qed

text \<open>the reject streak counts exactly the records since the last acceptance that moved the
  miner's coordinate, at or after its last publication, without accepting it and with a verdict on it
  or no verdicts at all; a lost race and other experts' events change nothing, and the caller's effect
  runs once for each acceptance.\<close>

theorem streak_counts_own_rejections:
  assumes "mapE (\<lambda>rec. record_says W rec coord miner published) recs = Inr acts"
  shows "fold_streak_update W recs coord miner published on_accept streak s
    = (Inr (streak_after streak acts),
       foldl (\<lambda>s rec. on_accept rec s) s (map fst (filter (\<lambda>(rec, act). act = Some StreakAccept) (zip recs acts))))"
  using assms
proof (induction recs arbitrary: acts streak s)
  case Nil
  then show ?case by (simp add: streak_after_def)
next
  case (Cons rec recs)
  then obtain act acts' where acts: "record_says W rec coord miner published = Inr act"
      "mapE (\<lambda>rec. record_says W rec coord miner published) recs = Inr acts'" "acts = act # acts'"
    by (auto simp: bindE_Inr_iff)
  then show ?case using Cons.IH [OF acts(2)]
    by (cases act) (auto simp: streak_after_Cons split: streak_act.split)
qed

definition demo_verdict :: "string \<Rightarrow> json" where
  "demo_verdict v = JObj [(''event'', JInt 5), (''slot_roots'', JObj [(''1_0'', JStr ''r'')]), (''accepted'', JList []),
     (''verdicts'', JObj [(''me'', JStr v)])]"

lemma streak_counts_own_rejections_witness:
  "fst (fold_streak_update toy_world [demo_verdict ''judge_rejected'', demo_verdict ''lost_race''] (1, 0) ''me'' (Some 4)
      (\<lambda>rec s. s) 2 ()) = Inr 3"
proof -
  have "mapE (\<lambda>rec. record_says toy_world rec (1, 0) ''me'' (Some 4)) [demo_verdict ''judge_rejected'', demo_verdict ''lost_race'']
      = Inr [Some StreakReject, Some StreakNoVerdict]" by code_simp
  from streak_counts_own_rejections [OF this, of "\<lambda>rec s. s" 2 "()"] show ?thesis by (simp add: streak_after_def)
qed

text \<open>An event that is an infinity is not skipped: it raises out of the fold.\<close>

lemma infinite_event_raises:
  assumes "event_judged_us (JObj [(''event'', JNum NonFin)]) (Some b) = r"
  shows "r = Inl OverflowError"
  using assms by (auto simp: event_judged_us_def py_get_def dget_def int_or_none_def)

subsection \<open>Layer payloads\<close>

lemma partition_at: "c \<notin> set a \<Longrightarrow> partition_on c (a @ c # b) = (a, True, b)"
  by (induction a) (auto simp: partition_on_def)

text \<open>the coordinates of a layer payload are read back from its keys, in order.\<close>

theorem layer_payload_names_its_coordinates:
  assumes "coords \<noteq> []" "\<forall>c \<in> set coords. 0 \<le> fst c \<and> 0 \<le> snd c"
    "\<forall>c \<in> set coords. \<forall>k \<in> set DELTA_SLOT_KEYS. map_of (block c) k \<noteq> None"
  shows "layer_payload_coords (map (\<lambda>c. (coord_text c, Nested (block c))) coords) = Some (sort coords)"
proof -
  have one: "payload_coord (coord_text c, Nested (block c)) = Some c" if "c \<in> set coords" for c
  proof -
    have "partition_on CHR ''_'' (coord_text c) = (int_str (fst c), True, int_str (snd c))"
      by (simp add: coord_text_def partition_at)
    moreover have "\<not> list_ex (\<lambda>x. map_of (block c) x = None) DELTA_SLOT_KEYS"
      using that assms(3) by (auto simp: list_ex_iff)
    ultimately show ?thesis using that assms(2) by (auto simp: payload_coord_def int_str_digits)
  qed
  have "those_map payload_coord (map (\<lambda>c. (coord_text c, Nested (block c))) coords) = Some coords"
    by (rule those_map_inverse) (rule one)
  then show ?thesis using assms(1) by (simp add: layer_payload_coords_def)
qed

lemma layer_payload_names_its_coordinates_witness:
  "layer_payload_coords [(coord_text (1, 7), Nested [(''gate'', ()), (''up'', ()), (''down'', ())])] = Some [(1, 7)]"
  using layer_payload_names_its_coordinates [of "[(1, 7)]" "\<lambda>c. [(''gate'', ()), (''up'', ()), (''down'', ())]"]
  by (simp add: DELTA_SLOT_KEYS_def)

end
