(* ===== verification/Claim_State.thy ===== *)
theory Claim_State
  imports Claim_Walk Merge_Arrays
begin

text \<open>
  What a miner remembers about its claims, from \<^verbatim>\<open>tools/sharddiloco_glm_contributor.py\<close>: the dose
  ladder of each layer, the table of parked coordinates, and the file in which both and the walk's
  cursor survive a restart. The clock is an argument; Python's reading of a float from a text is the
  argument \<open>text_float\<close>; a configuration error is a ValueError.
\<close>

subsection \<open>Numeric settings\<close>

definition env_num :: "(string, string) pydict \<Rightarrow> string \<Rightarrow> 'a \<Rightarrow> (string \<Rightarrow> 'a option) \<Rightarrow> 'a" where
  "env_num env name fallback cast =
     (let raw = str_strip (dget env name []) in
      if raw = [] then fallback else (case cast raw of Some v \<Rightarrow> v | None \<Rightarrow> fallback))"

definition CATCHUP_BUDGET_S :: xfloat where "CATCHUP_BUDGET_S = XFin 180"
definition CATCHUP_CALL_TIMEOUT_S :: xfloat where "CATCHUP_CALL_TIMEOUT_S = XFin 90"
definition CATCHUP_STALL_S :: xfloat where "CATCHUP_STALL_S = XFin 30"
definition COORD_COOLDOWN_S :: xfloat where "COORD_COOLDOWN_S = XFin 900"
definition COORD_COOLDOWN_EVENTS :: int where "COORD_COOLDOWN_EVENTS = 10"

definition catchup_budget_s :: "(string, string) pydict \<Rightarrow> (string \<Rightarrow> xfloat option) \<Rightarrow> xfloat" where
  "catchup_budget_s env text_float = xmax0 (env_num env ''NEURAHASH_SD_CATCHUP_BUDGET_S'' CATCHUP_BUDGET_S text_float)"

definition catchup_call_timeout_s :: "(string, string) pydict \<Rightarrow> (string \<Rightarrow> xfloat option) \<Rightarrow> xfloat" where
  "catchup_call_timeout_s env text_float =
     xmax0 (env_num env ''NEURAHASH_SD_CATCHUP_CALL_TIMEOUT_S'' CATCHUP_CALL_TIMEOUT_S text_float)"

definition catchup_stall_s :: "(string, string) pydict \<Rightarrow> (string \<Rightarrow> xfloat option) \<Rightarrow> xfloat" where
  "catchup_stall_s env text_float = xmax0 (env_num env ''NEURAHASH_SD_CATCHUP_STALL_S'' CATCHUP_STALL_S text_float)"

text \<open>The flags whose text is compared with the words for off, \<^verbatim>\<open>layer_claim_enabled\<close> and
  \<^verbatim>\<open>trunk_free_enabled\<close>.\<close>

definition flag_enabled :: "string \<Rightarrow> (string, string) pydict \<Rightarrow> bool" where
  "flag_enabled name env =
     (let v = dget env name ''0'' in
      str_lower (str_strip (if v = [] then ''0'' else v)) \<notin> {[], ''0'', ''false'', ''no'', ''off''})"

definition layer_claim_enabled :: "(string, string) pydict \<Rightarrow> bool" where
  "layer_claim_enabled env = flag_enabled ''NEURAHASH_SD_LAYER_CLAIMS'' env"

definition trunk_free_enabled :: "(string, string) pydict \<Rightarrow> bool" where
  "trunk_free_enabled env = flag_enabled ''NEURAHASH_SD_TRUNK_FREE'' env"

subsection \<open>Parsing the dose settings\<close>

definition dose_error :: exn where
  "dose_error = ValueError ''DoseConfigError''"

definition commas :: "string \<Rightarrow> string list" where
  "commas raw = filter (\<lambda>p. p \<noteq> []) (map str_strip (split_on CHR '','' (map (\<lambda>c. if c = CHR '';'' then CHR '','' else c) raw)))"

definition positive_finite :: "xfloat \<Rightarrow> rat option" where
  "positive_finite x = (case x of XFin q \<Rightarrow> if 0 < q then Some q else None | _ \<Rightarrow> None)"

fun rho_entries :: "(string \<Rightarrow> xfloat option) \<Rightarrow> (int, rat) pydict \<Rightarrow> string list \<Rightarrow> exn + (int, rat) pydict" where
  "rho_entries text_float out [] = Inr out"
| "rho_entries text_float out (item # items) =
     (case partition_on CHR '':'' item of (k, sep, v) \<Rightarrow>
        if \<not> sep then Inl dose_error
        else (case int_of_str (str_strip k) of
          None \<Rightarrow> Inl dose_error
        | Some l \<Rightarrow>
            if l < 0 \<or> l \<in> set (dkeys out) then Inl dose_error
            else (case Option.bind (text_float (str_strip v)) positive_finite of
              None \<Rightarrow> Inl dose_error
            | Some rho \<Rightarrow> rho_entries text_float (dset l rho out) items)))"

definition parse_layer_rho_map :: "(string \<Rightarrow> xfloat option) \<Rightarrow> string \<Rightarrow> exn + (int, rat) pydict" where
  "parse_layer_rho_map text_float raw = rho_entries text_float [] (commas raw)"

fun rungs_from :: "rat option \<Rightarrow> xfloat list \<Rightarrow> exn + rat list" where
  "rungs_from prev [] = Inr []"
| "rungs_from prev (r # rs) =
     (case positive_finite r of
        None \<Rightarrow> Inl dose_error
      | Some q \<Rightarrow>
          if q > 1 \<or> (case prev of None \<Rightarrow> False | Some p \<Rightarrow> \<not> q < p) then Inl dose_error
          else bindE (rungs_from (Some q) rs) (\<lambda>qs. Inr (q # qs)))"

definition validate_dose_ladder :: "xfloat list \<Rightarrow> exn + rat list" where
  "validate_dose_ladder rungs =
     (case rungs of
        [] \<Rightarrow> Inl dose_error
      | r # rs \<Rightarrow> if r \<noteq> XFin 1 then Inl dose_error else rungs_from None rungs)"

definition DOSE_LADDER_DEFAULT :: "rat list" where
  "DOSE_LADDER_DEFAULT = [1, rnd64 (1 / 3), rnd64 (1 / 10)]"

definition parse_dose_ladder :: "(string \<Rightarrow> xfloat option) \<Rightarrow> string \<Rightarrow> exn + rat list" where
  "parse_dose_ladder text_float raw =
     (let items = commas raw in
      if items = [] then Inr DOSE_LADDER_DEFAULT
      else bindE (orE dose_error (those_map text_float items)) validate_dose_ladder)"

subsection \<open>The dose ladder\<close>

record dose_ladder =
  dl_rungs :: "rat list"
  dl_rung :: "(int, nat) pydict"

definition new_ladder :: "rat list \<Rightarrow> dose_ladder" where
  "new_ladder rungs = \<lparr>dl_rungs = rungs, dl_rung = []\<rparr>"

definition rung :: "dose_ladder \<Rightarrow> int \<Rightarrow> nat" where
  "rung d l = dget (dl_rung d) l 0"

definition multiplier :: "dose_ladder \<Rightarrow> int \<Rightarrow> rat" where
  "multiplier d l = dl_rungs d ! rung d l"

definition at_bottom :: "dose_ladder \<Rightarrow> int \<Rightarrow> bool" where
  "at_bottom d l = (length (dl_rungs d) \<le> rung d l + 1)"

definition on_reject :: "dose_ladder \<Rightarrow> int \<Rightarrow> bool \<times> dose_ladder" where
  "on_reject d l =
     (if at_bottom d l then (False, d) else (True, d\<lparr>dl_rung := dset l (rung d l + 1) (dl_rung d)\<rparr>))"

definition on_accept :: "dose_ladder \<Rightarrow> int \<Rightarrow> bool \<times> dose_ladder" where
  "on_accept d l = (rung d l \<noteq> 0, d\<lparr>dl_rung := dpop l (dl_rung d)\<rparr>)"

text \<open>\<^verbatim>\<open>LayerClaimTrainer.base_rho\<close> and \<^verbatim>\<open>dose_rho\<close>.\<close>

definition base_rho :: "(int, rat) pydict \<Rightarrow> rat \<Rightarrow> int \<Rightarrow> rat" where
  "base_rho rho_map target_rho l = dget rho_map l target_rho"

definition dose_rho :: "(int, rat) pydict \<Rightarrow> rat \<Rightarrow> dose_ladder \<Rightarrow> int \<Rightarrow> rat" where
  "dose_rho rho_map target_rho d l = fmul (base_rho rho_map target_rho l) (multiplier d l)"

datatype dose_action = DoseReset | DoseShrink | DoseExhausted

definition layer_dose_verdict :: "dose_ladder option \<Rightarrow> int \<Rightarrow> bool \<Rightarrow> dose_action \<times> dose_ladder option" where
  "layer_dose_verdict trainer l accepted =
     (case trainer of
        None \<Rightarrow> (if accepted then DoseReset else DoseExhausted, None)
      | Some d \<Rightarrow>
          if accepted then (DoseReset, Some (snd (on_accept d l)))
          else (case on_reject d l of (shrunk, d') \<Rightarrow> (if shrunk then DoseShrink else DoseExhausted, Some d')))"

definition ladder_export :: "dose_ladder \<Rightarrow> json" where
  "ladder_export d = JObj
     [(''rungs'', JList (map (\<lambda>r. JNum (Fin r)) (dl_rungs d))),
      (''layers'', JList (map (\<lambda>(l, i). JObj [(''L'', JInt l), (''rung'', JInt (int i)), (''mult'', JNum (Fin (dl_rungs d ! i)))])
         (filter (\<lambda>(l, i). i \<noteq> 0) (sort (dl_rung d)))))]"

text \<open>The three numbers of a saved row; \<open>Inr None\<close> where it is skipped. A missing multiplier is a NaN.\<close>

definition ladder_row :: "json \<Rightarrow> exn + (int \<times> int \<times> pyfloat) option" where
  "ladder_row r =
     (case bindE (getE r ''L'') (\<lambda>a. bindE (py_int a) (\<lambda>l. bindE (getE r ''rung'') (\<lambda>b. bindE (py_int b) (\<lambda>idx.
            bindE (orE TypeError (jfloat (get_or r ''mult'' (JNum NonFin)))) (\<lambda>mult. Inr (l, idx, mult)))))) of
        Inr row \<Rightarrow> Inr (Some row)
      | Inl OverflowError \<Rightarrow> Inl OverflowError
      | Inl e \<Rightarrow> Inr None)"

definition reseat :: "rat list \<Rightarrow> int \<Rightarrow> pyfloat \<Rightarrow> nat option" where
  "reseat rungs idx mult =
     (if idx \<le> 0 then None
      else (case mult of
        NonFin \<Rightarrow> None
      | Fin m \<Rightarrow>
          if nat idx < length rungs \<and> m = rungs ! nat idx then Some (nat idx)
          else if 0 < m \<and> m \<le> 1 then
            (let pick = (case find (\<lambda>i. rungs ! i \<le> m) [0..<length rungs] of Some i \<Rightarrow> i | None \<Rightarrow> length rungs - 1) in
             if pick = 0 then None else Some pick)
          else None))"

fun ladder_rows :: "json list \<Rightarrow> nat \<Rightarrow> nat \<Rightarrow> dose_ladder \<Rightarrow> (exn + nat \<times> nat) \<times> dose_ladder" where
  "ladder_rows [] restored dropped d = (Inr (restored, dropped), d)"
| "ladder_rows (r # rs) restored dropped d =
     (case ladder_row r of
        Inl e \<Rightarrow> (Inl e, d)
      | Inr None \<Rightarrow> ladder_rows rs restored (dropped + 1) d
      | Inr (Some (l, idx, mult)) \<Rightarrow>
          (case reseat (dl_rungs d) idx mult of
             None \<Rightarrow> ladder_rows rs restored (dropped + 1) d
           | Some i \<Rightarrow> ladder_rows rs (restored + 1) dropped (d\<lparr>dl_rung := dset l i (dl_rung d)\<rparr>)))"

definition json_rows :: "json \<Rightarrow> string \<Rightarrow> json list" where
  "json_rows blob k = (case get_or blob k JNull of JList xs \<Rightarrow> xs | _ \<Rightarrow> [])"

definition ladder_restore :: "dose_ladder \<Rightarrow> json \<Rightarrow> (exn + nat \<times> nat) \<times> dose_ladder" where
  "ladder_restore d blob = ladder_rows (json_rows blob ''layers'') 0 0 d"

subsection \<open>Parked coordinates\<close>

record park =
  pk_reason :: string
  pk_until_t :: xfloat
  pk_until_event :: int

record cooldown =
  cd_seconds :: xfloat
  cd_events :: int
  cd_parked :: "(coord, park) pydict"

definition event_or_0 :: "int option \<Rightarrow> int" where
  "event_or_0 event = (case event of None \<Rightarrow> 0 | Some e \<Rightarrow> e)"

definition park_coord :: "rat \<Rightarrow> cooldown \<Rightarrow> coord \<Rightarrow> int option \<Rightarrow> string \<Rightarrow> cooldown" where
  "park_coord now cd coord event reason =
     cd\<lparr>cd_parked := dset coord \<lparr>pk_reason = reason, pk_until_t = xadd (XFin now) (cd_seconds cd),
        pk_until_event = event_or_0 event + cd_events cd\<rparr> (cd_parked cd)\<rparr>"

definition expired :: "rat \<Rightarrow> int option \<Rightarrow> park \<Rightarrow> bool" where
  "expired now event p = (xle (pk_until_t p) (XFin now) \<and> pk_until_event p \<le> event_or_0 event)"

definition blocked :: "rat \<Rightarrow> cooldown \<Rightarrow> coord \<Rightarrow> int option \<Rightarrow> bool \<times> cooldown" where
  "blocked now cd coord event =
     (case map_of (cd_parked cd) coord of
        None \<Rightarrow> (False, cd)
      | Some p \<Rightarrow> if expired now event p then (False, cd\<lparr>cd_parked := dpop coord (cd_parked cd)\<rparr>) else (True, cd))"

definition park_left :: "rat \<Rightarrow> cooldown \<Rightarrow> coord \<Rightarrow> int option \<Rightarrow> xfloat \<times> int" where
  "park_left now cd coord event =
     (case map_of (cd_parked cd) coord of
        None \<Rightarrow> (XFin 0, 0)
      | Some p \<Rightarrow> (xmax0 (xsub (pk_until_t p) (XFin now)), max 0 (pk_until_event p - event_or_0 event)))"

text \<open>What remains of a park: only a positive finite number of seconds is carried over.\<close>

definition seconds_left :: "rat \<Rightarrow> park \<Rightarrow> rat option" where
  "seconds_left now p = positive_finite (xsub (pk_until_t p) (XFin now))"

definition park_row :: "rat \<Rightarrow> coord \<times> park \<Rightarrow> json option" where
  "park_row now cp = (case cp of (c, p) \<Rightarrow>
     map_option (\<lambda>left. JObj [(''L'', JInt (fst c)), (''E'', JInt (snd c)), (''reason'', JStr (pk_reason p)),
        (''left_s'', JNum (Fin left)), (''until_event'', JInt (pk_until_event p))]) (seconds_left now p))"

definition cooldown_export :: "rat \<Rightarrow> cooldown \<Rightarrow> int option \<Rightarrow> json" where
  "cooldown_export now cd event = JObj
     [(''at_event'', case event of None \<Rightarrow> JNull | Some e \<Rightarrow> JInt e),
      (''parked'', JList (List.map_filter (park_row now) (sort_key fst (cd_parked cd))))]"

definition float_x :: "pyfloat \<Rightarrow> xfloat" where
  "float_x f = (case f of Fin q \<Rightarrow> XFin q | NonFin \<Rightarrow> PosInf)"

text \<open>The coordinate, the seconds left and the event of a saved row; \<open>Inr None\<close> where it is skipped.\<close>

definition cooldown_row :: "int \<Rightarrow> rat \<Rightarrow> json \<Rightarrow> exn + (coord \<times> xfloat \<times> int) option" where
  "cooldown_row bound elapsed r =
     (case bindE (getE r ''left_s'') (\<lambda>a. bindE (orE TypeError (jfloat a)) (\<lambda>left.
            bindE (getE r ''L'') (\<lambda>b. bindE (py_int b) (\<lambda>l. bindE (getE r ''E'') (\<lambda>c. bindE (py_int c) (\<lambda>e.
            let u = get_or r ''until_event'' JNull in
            bindE (py_int (if truthy u then u else JInt 0)) (\<lambda>ue.
              Inr ((l, e), xsub (float_x left) (XFin elapsed), min ue bound)))))))) of
        Inr row \<Rightarrow> Inr (Some row)
      | Inl OverflowError \<Rightarrow> Inl OverflowError
      | Inl e \<Rightarrow> Inr None)"

fun cooldown_rows ::
  "world \<Rightarrow> rat \<Rightarrow> bool \<Rightarrow> int \<Rightarrow> rat \<Rightarrow> json list \<Rightarrow> nat \<Rightarrow> nat \<Rightarrow> cooldown \<Rightarrow> (exn + nat \<times> nat) \<times> cooldown" where
  "cooldown_rows W now keep_events bound elapsed [] restored dropped cd = (Inr (restored, dropped), cd)"
| "cooldown_rows W now keep_events bound elapsed (r # rs) restored dropped cd =
     (case cooldown_row bound elapsed r of
        Inl e \<Rightarrow> (Inl e, cd)
      | Inr None \<Rightarrow> cooldown_rows W now keep_events bound elapsed rs restored (dropped + 1) cd
      | Inr (Some (c, left, ue)) \<Rightarrow>
          (case positive_finite left of
             None \<Rightarrow> cooldown_rows W now keep_events bound elapsed rs restored (dropped + 1) cd
           | Some l \<Rightarrow>
               (let why = get_or r ''reason'' JNull in
                cooldown_rows W now keep_events bound elapsed rs (restored + 1) dropped
                  (cd\<lparr>cd_parked := dset c \<lparr>pk_reason = (if truthy why then str_of W why else ''restored''),
                      pk_until_t = XFin (fadd now l), pk_until_event = (if keep_events then ue else 0)\<rparr>
                    (cd_parked cd)\<rparr>))))"

definition cooldown_restore ::
  "world \<Rightarrow> rat \<Rightarrow> cooldown \<Rightarrow> json \<Rightarrow> int option \<Rightarrow> rat \<Rightarrow> (exn + nat \<times> nat) \<times> cooldown" where
  "cooldown_restore W now cd blob event elapsed =
     (let blob = (case blob of JObj kvs \<Rightarrow> blob | _ \<Rightarrow> JObj []) in
      case int_or_none (get_or blob ''at_event'' JNull) of
        Inl e \<Rightarrow> (Inl e, cd)
      | Inr at_ev \<Rightarrow>
          (let keep_events = (case (event, at_ev) of (Some ev, Some a) \<Rightarrow> a \<le> ev | _ \<Rightarrow> False) in
           cooldown_rows W now keep_events (event_or_0 at_ev + cd_events cd) elapsed (json_rows blob ''parked'') 0 0 cd))"

subsection \<open>The state file\<close>

definition CLAIM_STATE_SCHEMA :: int where "CLAIM_STATE_SCHEMA = 1"

definition claim_state_path :: "world \<Rightarrow> string option \<Rightarrow> bool \<Rightarrow> string \<Rightarrow> string option" where
  "claim_state_path W data_dir absolute identity =
     (case data_dir of
        None \<Rightarrow> None
      | Some dir \<Rightarrow>
          if dir = [] \<or> \<not> absolute then None
          else Some (dir @ ''/claim_state_'' @ take 16 (sha256 W identity) @ ''.json''))"

text \<open>The stored value, an empty dictionary where the file (\<open>None\<close>: missing or no JSON) is unusable.\<close>

definition claim_load :: "json option \<Rightarrow> json" where
  "claim_load file =
     (case file of
        Some (JObj kvs) \<Rightarrow>
          (if py_int (dget kvs ''schema'' (JInt 0)) = Inr CLAIM_STATE_SCHEMA then JObj kvs else JObj [])
      | _ \<Rightarrow> JObj [])"

text \<open>\<^verbatim>\<open>c[i]\<close> for the indices 0 and 1.\<close>

definition py_at :: "json \<Rightarrow> nat \<Rightarrow> exn + json" where
  "py_at c i =
     (case c of
        JList xs \<Rightarrow> if i < length xs then Inr (xs ! i) else Inl IndexError
      | JStr s \<Rightarrow> if i < length s then Inr (JStr [s ! i]) else Inl IndexError
      | JObj kvs \<Rightarrow> Inl KeyError
      | _ \<Rightarrow> Inl TypeError)"

definition claim_cursor :: "json \<Rightarrow> exn + coord option" where
  "claim_cursor blob =
     (let c = get_or blob ''coord'' JNull in
      case bindE (py_at c 0) (\<lambda>a. bindE (py_int a) (\<lambda>l. bindE (py_at c 1) (\<lambda>b. bindE (py_int b) (\<lambda>e. Inr (l, e))))) of
        Inr p \<Rightarrow> Inr (Some p)
      | Inl OverflowError \<Rightarrow> Inl OverflowError
      | Inl e \<Rightarrow> Inr None)"

definition elapsed_since :: "json \<Rightarrow> rat \<Rightarrow> xfloat" where
  "elapsed_since blob now =
     (case jfloat (get_or blob ''saved_wall'' JNull) of
        None \<Rightarrow> XFin 0
      | Some w \<Rightarrow> xmax0 (xsub (XFin now) (float_x w)))"

definition restore_cooldown :: "world \<Rightarrow> rat \<Rightarrow> cooldown \<Rightarrow> json \<Rightarrow> int option \<Rightarrow> (nat \<times> nat) \<times> cooldown" where
  "restore_cooldown W now cd blob event =
     (case cooldown_restore W now cd (get_or blob ''cooldown'' JNull) event
             (case elapsed_since blob now of XFin q \<Rightarrow> q | _ \<Rightarrow> 0) of
        (Inr counts, cd') \<Rightarrow> (counts, cd')
      | (Inl e, cd') \<Rightarrow> ((0, 0), cd'))"

definition restore_ladder :: "dose_ladder \<Rightarrow> json \<Rightarrow> (nat \<times> nat) \<times> dose_ladder" where
  "restore_ladder d blob =
     (case ladder_restore d (get_or blob ''ladder'' JNull) of
        (Inr counts, d') \<Rightarrow> (counts, d')
      | (Inl e, d') \<Rightarrow> ((0, 0), d'))"

definition claim_blob :: "rat \<Rightarrow> cooldown \<Rightarrow> coord option \<Rightarrow> int option \<Rightarrow> dose_ladder option \<Rightarrow> json" where
  "claim_blob now cd coord event ladder = JObj
     ([(''schema'', JInt CLAIM_STATE_SCHEMA), (''saved_wall'', JNum (Fin now)),
       (''coord'', case coord of None \<Rightarrow> JNull | Some c \<Rightarrow> JList [JInt (fst c), JInt (snd c)]),
       (''cooldown'', cooldown_export now cd event)]
      @ (case ladder of None \<Rightarrow> [] | Some d \<Rightarrow> [(''ladder'', ladder_export d)]))"

text \<open>What a rewrite would change, as the comparison of the code sees it: the cursor, the event, and
  the identifying fields of parks and rungs.\<close>

type_synonym fingerprint = "json \<times> json \<times> (json \<times> json \<times> json) list \<times> (json \<times> json) list"

definition fingerprint_of :: "json \<Rightarrow> fingerprint" where
  "fingerprint_of blob =
     (let cd = get_or blob ''cooldown'' JNull; ld = get_or blob ''ladder'' JNull in
      (get_or blob ''coord'' JNull, get_or cd ''at_event'' JNull,
       map (\<lambda>p. (get_or p ''L'' JNull, get_or p ''E'' JNull, get_or p ''until_event'' JNull)) (json_rows cd ''parked''),
       map (\<lambda>r. (get_or r ''L'' JNull, get_or r ''rung'' JNull)) (json_rows ld ''layers'')))"

record claim_state =
  cs_path :: "string option"
  cs_last_fp :: "fingerprint option"
  cs_file :: "json option"

text \<open>\<open>writes\<close> says whether the atomic replacement of the file succeeds.\<close>

definition claim_save ::
  "bool \<Rightarrow> rat \<Rightarrow> claim_state \<Rightarrow> cooldown \<Rightarrow> coord option \<Rightarrow> int option \<Rightarrow> dose_ladder option \<Rightarrow> bool \<times> claim_state" where
  "claim_save writes now cs cd coord event ladder =
     (if cs_path cs = None \<or> cs_path cs = Some [] then (False, cs)
      else (let blob = claim_blob now cd coord event ladder; fp = fingerprint_of blob in
        if Some fp = cs_last_fp cs \<or> \<not> writes then (False, cs)
        else (True, cs\<lparr>cs_last_fp := Some fp, cs_file := Some blob\<rparr>)))"

end
