(* ===== verification/Claim_State_Props.thy ===== *)
theory Claim_State_Props
  imports Claim_State Lane_Name_Facts
begin

text \<open>
  Properties of the dose ladder and of the parks: the life of a layer's dose, and what a restart keeps.
\<close>

subsection \<open>The ladder\<close>

definition ladder_valid :: "rat list \<Rightarrow> bool" where
  "ladder_valid rungs = (rungs \<noteq> [] \<and> hd rungs = 1 \<and> sorted_wrt (>) rungs \<and> list_all ((<) 0) rungs)"

definition ladder_ok :: "dose_ladder \<Rightarrow> bool" where
  "ladder_ok d = (ladder_valid (dl_rungs d) \<and> distinct (dkeys (dl_rung d))
     \<and> list_all (\<lambda>i. 0 < i \<and> i < length (dl_rungs d)) (dvalues (dl_rung d)))"

lemma rungs_from_ok:
  "rungs_from prev xs = Inr qs \<Longrightarrow>
   sorted_wrt (>) qs \<and> list_all (\<lambda>q. 0 < q \<and> q \<le> 1 \<and> (\<forall>p. prev = Some p \<longrightarrow> q < p)) qs \<and> xs = map XFin qs"
proof (induction xs arbitrary: prev qs)
  case (Cons x xs)
  then obtain q qs' where q: "positive_finite x = Some q" "q \<le> 1" "\<forall>p. prev = Some p \<longrightarrow> q < p"
      "rungs_from (Some q) xs = Inr qs'" "qs = q # qs'"
    by (auto simp: bindE_Inr_iff not_less split: option.splits if_splits)
  have x: "x = XFin q" "0 < q" using q(1) by (auto simp: positive_finite_def split: xfloat.splits if_splits)
  show ?case using Cons.IH [OF q(4)] q(2,3,5) x by (fastforce simp: list_all_iff)
qed simp

lemma validated_ladder: "validate_dose_ladder xs = Inr rungs \<Longrightarrow> ladder_valid rungs"
  using rungs_from_ok [of None xs rungs]
  by (cases xs) (auto simp: validate_dose_ladder_def ladder_valid_def list_all_iff split: if_splits)

lemma default_ladder: "ladder_valid DOSE_LADDER_DEFAULT"
  by code_simp

lemma new_ladder_ok: "ladder_valid rungs \<Longrightarrow> ladder_ok (new_ladder rungs)"
  by (simp add: ladder_ok_def new_ladder_def)

lemma rung_bound: "ladder_ok d \<Longrightarrow> rung d l < length (dl_rungs d)"
  unfolding rung_def by (rule list_all_dget [where P = "\<lambda>i. i < length (dl_rungs d)", of "dl_rung d" 0 l])
    (auto simp: ladder_ok_def ladder_valid_def list_all_iff)

lemma ladder_less: "ladder_valid rungs \<Longrightarrow> i < j \<Longrightarrow> j < length rungs \<Longrightarrow> rungs ! j < rungs ! i"
  by (auto simp: ladder_valid_def sorted_wrt_iff_nth_less)

lemma reject_ok: "ladder_ok d \<Longrightarrow> ladder_ok (snd (on_reject d l))"
  by (auto simp: on_reject_def at_bottom_def ladder_ok_def distinct_dset intro!: list_all_dset)

lemma accept_ok: "ladder_ok d \<Longrightarrow> ladder_ok (snd (on_accept d l))"
  by (auto simp: on_accept_def ladder_ok_def distinct_dpop intro!: list_all_dpop)

lemma reject_rung: "rung (snd (on_reject d l)) l = min (rung d l + 1) (max (rung d l) (length (dl_rungs d) - 1))"
  by (auto simp: on_reject_def at_bottom_def rung_def)

lemma rejects_rung:
  assumes "ladder_ok d"
  shows "ladder_ok (((\<lambda>d. snd (on_reject d l)) ^^ n) d)
    \<and> dl_rungs (((\<lambda>d. snd (on_reject d l)) ^^ n) d) = dl_rungs d
    \<and> rung (((\<lambda>d. snd (on_reject d l)) ^^ n) d) l = min (rung d l + n) (length (dl_rungs d) - 1)"
proof (induction n)
  case 0
  then show ?case using assms rung_bound [OF assms, of l] by simp
next
  case (Suc n)
  let ?d = "((\<lambda>d. snd (on_reject d l)) ^^ n) d"
  have "dl_rungs (snd (on_reject ?d l)) = dl_rungs ?d" by (simp add: on_reject_def)
  then show ?case using Suc reject_ok [of ?d l] by (auto simp: reject_rung)
qed

text \<open>C38: the life of a layer's dose. A verdict keeps the ladder well-formed and touches no other
  layer; a rejection either takes the next smaller dose, or finds the smallest and changes nothing; an
  acceptance returns to the campaign dose; and \<open>n\<close> rejections in a row end \<open>n\<close> rungs down or at the
  bottom, so the ladder is exhausted after as many rejections as it has rungs.\<close>

theorem dose_backs_off_and_recovers:
  assumes "ladder_ok d" "layer_dose_verdict (Some d) l accepted = (act, Some d')"
  shows "ladder_ok d' \<and> (\<forall>k. k \<noteq> l \<longrightarrow> multiplier d' k = multiplier d k)
    \<and> (accepted \<longleftrightarrow> act = DoseReset) \<and> (accepted \<longrightarrow> multiplier d' l = 1)
    \<and> (act = DoseShrink \<longrightarrow> rung d' l = rung d l + 1 \<and> 0 < multiplier d' l \<and> multiplier d' l < multiplier d l)
    \<and> (act = DoseExhausted \<longrightarrow> d' = d \<and> multiplier d l = last (dl_rungs d))
    \<and> rung (((\<lambda>d. snd (on_reject d l)) ^^ n) d) l = min (rung d l + n) (length (dl_rungs d) - 1)"
proof -
  have valid: "ladder_valid (dl_rungs d)" using assms(1) by (simp add: ladder_ok_def)
  have same: "dl_rungs d' = dl_rungs d"
    using assms(2) by (auto simp: layer_dose_verdict_def on_accept_def on_reject_def split: if_splits)
  have other: "k \<noteq> l \<Longrightarrow> rung d' k = rung d k" for k
    using assms(2) by (auto simp: layer_dose_verdict_def on_accept_def on_reject_def rung_def dget_dpop split: if_splits)
  have ok: "ladder_ok d'" using assms accept_ok [OF assms(1), of l] reject_ok [OF assms(1), of l]
    by (cases "on_reject d l") (auto simp: layer_dose_verdict_def split: if_splits)
  have bound: "rung d' l < length (dl_rungs d)" using rung_bound [OF ok, of l] same by simp
  have shrink: "rung d' l = rung d l + 1 \<and> 0 < multiplier d' l \<and> multiplier d' l < multiplier d l" if "act = DoseShrink"
  proof -
    have r: "rung d' l = rung d l + 1" using that assms(2)
      by (auto simp: layer_dose_verdict_def on_reject_def rung_def split: if_splits)
    then show ?thesis using bound valid ladder_less [OF valid, of "rung d l" "rung d' l"]
      by (auto simp: multiplier_def same ladder_valid_def list_all_length)
  qed
  have exhausted: "d' = d \<and> multiplier d l = last (dl_rungs d)" if "act = DoseExhausted"
  proof -
    have "at_bottom d l" "d' = d" using that assms(2) by (auto simp: layer_dose_verdict_def on_reject_def split: if_splits)
    then have "rung d l = length (dl_rungs d) - 1" using rung_bound [OF assms(1), of l] by (simp add: at_bottom_def)
    then show ?thesis using \<open>d' = d\<close> valid by (simp add: multiplier_def last_conv_nth ladder_valid_def)
  qed
  have "accepted \<longleftrightarrow> act = DoseReset" "accepted \<longrightarrow> multiplier d' l = 1"
    using assms(2) valid same
    by (auto simp: layer_dose_verdict_def on_accept_def multiplier_def rung_def dget_dpop ladder_valid_def hd_conv_nth
        split: prod.splits if_splits)
  then show ?thesis using ok other same shrink exhausted rejects_rung [OF assms(1), of n l] by (auto simp: multiplier_def)
qed

lemma dose_backs_off_and_recovers_witness:
  "ladder_ok (the (snd (layer_dose_verdict (Some (new_ladder DOSE_LADDER_DEFAULT)) 3 False)))"
proof -
  obtain act d' where v: "layer_dose_verdict (Some (new_ladder DOSE_LADDER_DEFAULT)) 3 False = (act, Some d')"
    by (cases "on_reject (new_ladder DOSE_LADDER_DEFAULT) 3") (simp add: layer_dose_verdict_def)
  show ?thesis using dose_backs_off_and_recovers [OF new_ladder_ok [OF default_ladder] v] v by simp
qed

subsection \<open>The ladder across a restart\<close>

lemma find_index:
  "find P [0..<n] = Some i \<Longrightarrow> P i \<and> i < n \<and> (\<forall>j < i. \<not> P j)"
  by (auto simp: find_Some_iff)

lemma reseat_same:
  "ladder_valid rungs \<Longrightarrow> 0 < i \<Longrightarrow> i < length rungs \<Longrightarrow> reseat rungs (int i) (Fin (rungs ! i)) = Some i"
  by (simp add: reseat_def)

lemma reseat_bound:
  assumes "ladder_valid rs" "0 < i" "0 < m" "m < 1"
  shows "case reseat rs (int i) (Fin m) of
      Some j \<Rightarrow> 0 < j \<and> j < length rs \<and> rs ! j \<le> max m (last rs)
    | None \<Rightarrow> last rs = 1"
proof -
  have rs: "rs \<noteq> []" "rs ! 0 = 1" using assms(1) by (auto simp: ladder_valid_def hd_conv_nth)
  show ?thesis
  proof (cases "i < length rs \<and> m = rs ! i")
    case True
    then show ?thesis using assms(2) by (simp add: reseat_def)
  next
    case False
    show ?thesis
    proof (cases "find (\<lambda>i. rs ! i \<le> m) [0..<length rs]")
      case None
      then show ?thesis using False assms(2-4) rs
        by (cases "length rs = 1") (auto simp: reseat_def last_conv_nth Let_def)
    next
      case (Some j)
      from find_index [OF this] have j: "rs ! j \<le> m" "j < length rs" by auto
      then have "j \<noteq> 0" using rs(2) assms(4) by (metis not_less)
      then show ?thesis using False assms(2-4) j Some by (auto simp: reseat_def Let_def)
    qed
  qed
qed

definition saved_rung :: "rat list \<Rightarrow> int \<times> nat \<Rightarrow> json" where
  "saved_rung rungs li = JObj [(''L'', JInt (fst li)), (''rung'', JInt (int (snd li))), (''mult'', JNum (Fin (rungs ! snd li)))]"

lemma saved_rung_row:
  "ladder_row (saved_rung rungs li) = Inr (Some (fst li, int (snd li), Fin (rungs ! snd li)))"
  by (simp add: ladder_row_def saved_rung_def)

lemma ladder_rows_saved:
  assumes "distinct (map fst xs)"
  shows "\<exists>counts d1. ladder_rows (map (saved_rung rungs) xs) r n d0 = (Inr counts, d1) \<and> dl_rungs d1 = dl_rungs d0
    \<and> (\<forall>l. map_of (dl_rung d1) l = (case map_of xs l of
        Some i \<Rightarrow> (case reseat (dl_rungs d0) (int i) (Fin (rungs ! i)) of Some j \<Rightarrow> Some j | None \<Rightarrow> map_of (dl_rung d0) l)
      | None \<Rightarrow> map_of (dl_rung d0) l))"
  using assms
proof (induction xs arbitrary: r n d0)
  case (Cons x xs)
  obtain l i where x: "x = (l, i)" by fastforce
  have gone: "map_of xs l = None" using Cons.prems x by (simp add: map_of_eq_None_iff)
  show ?case
  proof (cases "reseat (dl_rungs d0) (int i) (Fin (rungs ! i))")
    case None
    then show ?thesis using Cons.IH [of r "n + 1" d0] Cons.prems gone by (auto simp: saved_rung_row x)
  next
    case (Some j)
    let ?d = "d0\<lparr>dl_rung := dset l j (dl_rung d0)\<rparr>"
    obtain counts d1 where d1: "ladder_rows (map (saved_rung rungs) xs) (r + 1) n ?d = (Inr counts, d1)"
        "dl_rungs d1 = dl_rungs ?d"
        "\<And>k. map_of (dl_rung d1) k = (case map_of xs k of
            Some i \<Rightarrow> (case reseat (dl_rungs ?d) (int i) (Fin (rungs ! i)) of Some j \<Rightarrow> Some j | None \<Rightarrow> map_of (dl_rung ?d) k)
          | None \<Rightarrow> map_of (dl_rung ?d) k)"
      using Cons.IH [of "r + 1" n ?d] Cons.prems by auto
    show ?thesis
      by (intro exI [of _ counts] exI [of _ d1])
        (auto simp: saved_rung_row x Some d1(1) [simplified] d1(2,3) gone split: option.split)
  qed
qed simp

lemma exported_rows:
  assumes "ladder_ok d"
  obtains xs where "json_rows (ladder_export d) ''layers'' = map (saved_rung (dl_rungs d)) xs"
    "distinct (map fst xs)" "\<And>l. map_of xs l = map_of (dl_rung d) l"
proof -
  let ?xs = "filter (\<lambda>(l, i). i \<noteq> 0) (sort (dl_rung d))"
  have keys: "distinct (dkeys (dl_rung d))" and pos: "\<forall>li \<in> set (dl_rung d). snd li \<noteq> 0"
    using assms by (auto simp: ladder_ok_def list_all_iff)
  then have all: "?xs = sort (dl_rung d)" by (intro filter_True) auto
  have d: "distinct (map fst ?xs)" using keys unfolding all by (simp add: distinct_map)
  have "map_of ?xs l = map_of (dl_rung d) l" for l
    using map_of_inject_set [of ?xs "dl_rung d"] d keys unfolding all by simp
  moreover have "json_rows (ladder_export d) ''layers'' = map (saved_rung (dl_rungs d)) ?xs"
    by (auto simp: json_rows_def ladder_export_def saved_rung_def)
  ultimately show thesis using d that by blast
qed

text \<open>after a restart every layer has the rung it had, if the ladder is the same; if the
  operator changed the ladder, no layer is dosed above what it had backed off to, except that it cannot
  be dosed below the smallest rung there is.\<close>

theorem restart_keeps_the_dose:
  assumes "ladder_ok d" "ladder_valid rs" "restore_ladder (new_ladder rs) (JObj [(''ladder'', ladder_export d)]) = (counts, d')"
  shows "(rs = dl_rungs d \<longrightarrow> rung d' l = rung d l) \<and> multiplier d' l \<le> max (multiplier d l) (last rs)"
proof -
  obtain xs where xs: "json_rows (ladder_export d) ''layers'' = map (saved_rung (dl_rungs d)) xs"
      "distinct (map fst xs)" "\<And>l. map_of xs l = map_of (dl_rung d) l" using exported_rows [OF assms(1)] by blast
  obtain cnt d1 where run: "ladder_rows (map (saved_rung (dl_rungs d)) xs) 0 0 (new_ladder rs) = (Inr cnt, d1)"
      "dl_rungs d1 = dl_rungs (new_ladder rs)"
      "\<And>l. map_of (dl_rung d1) l = (case map_of xs l of
         Some i \<Rightarrow> (case reseat (dl_rungs (new_ladder rs)) (int i) (Fin (dl_rungs d ! i)) of
             Some j \<Rightarrow> Some j | None \<Rightarrow> map_of (dl_rung (new_ladder rs)) l)
       | None \<Rightarrow> map_of (dl_rung (new_ladder rs)) l)"
    using ladder_rows_saved [OF xs(2), of "dl_rungs d" 0 0 "new_ladder rs"] by blast
  have "map_of (dl_rung d1) l = (case map_of xs l of
         Some i \<Rightarrow> reseat rs (int i) (Fin (dl_rungs d ! i)) | None \<Rightarrow> None)" for l
    unfolding run(3) by (simp add: new_ladder_def split: option.split)
  moreover have "dl_rungs d1 = rs" using run(2) by (simp add: new_ladder_def)
  ultimately have d1: "ladder_rows (map (saved_rung (dl_rungs d)) xs) 0 0 (new_ladder rs) = (Inr cnt, d1)"
      "dl_rungs d1 = rs"
      "\<And>l. map_of (dl_rung d1) l = (case map_of xs l of
         Some i \<Rightarrow> reseat rs (int i) (Fin (dl_rungs d ! i)) | None \<Rightarrow> None)"
    using run(1) by blast+
  have "d' = d1" using assms(3) d1(1) xs(1)
    by (simp add: restore_ladder_def ladder_restore_def)
  note d' = d1 [folded this]
  have valid: "ladder_valid (dl_rungs d)" using assms(1) by (simp add: ladder_ok_def)
  show ?thesis
  proof (cases "map_of (dl_rung d) l")
    case None
    then have "rung d l = 0" "rung d' l = 0" by (simp_all add: rung_def dget_def d'(3) xs(3))
    then show ?thesis using assms(2) valid by (auto simp: multiplier_def d'(2) ladder_valid_def hd_conv_nth)
  next
    case (Some i)
    then have i: "0 < i" "i < length (dl_rungs d)" "rung d l = i"
      using assms(1) map_of_list_all [of "\<lambda>i. 0 < i \<and> i < length (dl_rungs d)" "dl_rung d" l i]
      by (auto simp: ladder_ok_def rung_def dget_def)
    have m: "0 < dl_rungs d ! i" "dl_rungs d ! i < 1"
      using valid i ladder_less [OF valid, of 0 i] by (auto simp: ladder_valid_def list_all_length hd_conv_nth)
    have now': "map_of (dl_rung d') l = reseat rs (int i) (Fin (dl_rungs d ! i))" using Some by (simp add: d'(3) xs(3))
    have "rs = dl_rungs d \<Longrightarrow> rung d' l = i"
      using now' reseat_same [OF valid i(1,2)] by (simp add: rung_def dget_def)
    moreover have "multiplier d' l \<le> max (dl_rungs d ! i) (last rs)"
      using reseat_bound [OF assms(2) i(1) m] now' assms(2)
      by (auto simp: multiplier_def rung_def dget_def d'(2) ladder_valid_def hd_conv_nth split: option.splits)
    ultimately show ?thesis using i(3) by (simp add: multiplier_def)
  qed
qed

definition backed_off :: dose_ladder where
  "backed_off = snd (on_reject (snd (on_reject (new_ladder DOSE_LADDER_DEFAULT) 3)) 3)"

lemma backed_off_ok: "ladder_ok backed_off" "rung backed_off 3 = 2" "dl_rungs backed_off = DOSE_LADDER_DEFAULT"
proof -
  have two: "backed_off = ((\<lambda>d. snd (on_reject d 3)) ^^ 2) (new_ladder DOSE_LADDER_DEFAULT)"
    by (simp add: backed_off_def eval_nat_numeral)
  show "ladder_ok backed_off" "rung backed_off 3 = 2" "dl_rungs backed_off = DOSE_LADDER_DEFAULT"
    using rejects_rung [OF new_ladder_ok [OF default_ladder], of 2 3] unfolding two [symmetric]
    by (simp_all add: new_ladder_def rung_def DOSE_LADDER_DEFAULT_def)
qed

lemma restart_keeps_the_dose_witness:
  "rung (snd (restore_ladder (new_ladder DOSE_LADDER_DEFAULT) (JObj [(''ladder'', ladder_export backed_off)]))) 3 = 2"
  using restart_keeps_the_dose [OF backed_off_ok(1) default_ladder surjective_pairing, of 3] backed_off_ok(2,3) by simp

text \<open>A ladder whose smallest rung is larger than the saved dose raises the dose, although the restore
  is documented never to.\<close>

lemma shorter_ladder_raises_the_dose:
  "reseat [1, 1 / 2] 2 (Fin (1 / 10)) = Some 1 \<and> ([1, 1 / 2] :: rat list) ! 1 > 1 / 10"
  by code_simp


subsection \<open>Parks across a restart\<close>

text \<open>In one process a park holds until both its seconds and its events have passed.\<close>

lemma parked_until_the_later:
  "fst (blocked now' (park_coord now cd c e r) c e')
   \<longleftrightarrow> \<not> (xle (xadd (XFin now) (cd_seconds cd)) (XFin now') \<and> event_or_0 e + cd_events cd \<le> event_or_0 e')"
  by (auto simp: blocked_def park_coord_def expired_def)

text \<open>Times on the exact grid of binary64, as wall clocks are to a quarter of a microsecond.\<close>

definition exact_time :: "rat \<Rightarrow> bool" where
  "exact_time t = (on_grid t \<and> 0 \<le> t \<and> t \<le> 2 ^ 31)"

lemma xsub_exact: "on_grid x \<Longrightarrow> on_grid y \<Longrightarrow> \<bar>x - y\<bar> \<le> 2 ^ 31 \<Longrightarrow> xsub (XFin x) (XFin y) = XFin (x - y)"
proof -
  assume a: "on_grid x" "on_grid y" "\<bar>x - y\<bar> \<le> 2 ^ 31"
  then have "rnd64 (x - y) = x - y" by (intro on_grid_exact) auto
  then have "xround (x - y) = XFin (x - y)" using a(3) by (intro xround_small) (auto simp: is_f64_def)
  then show ?thesis by (simp add: xsub_def)
qed

definition exact_park :: "park \<Rightarrow> bool" where
  "exact_park p = (\<exists>u. pk_until_t p = XFin u \<and> exact_time u)"

lemma exact_park_left:
  assumes "exact_park p" "exact_time now"
  shows "seconds_left now p = (if xle (pk_until_t p) (XFin now) then None
      else Some (case pk_until_t p of XFin u \<Rightarrow> u - now | _ \<Rightarrow> 0))"
  using assms by (auto simp: exact_park_def exact_time_def seconds_left_def xsub_exact positive_finite_def abs_if)

definition saved_park :: "rat \<Rightarrow> coord \<times> park \<Rightarrow> json" where
  "saved_park left cp = JObj [(''L'', JInt (fst (fst cp))), (''E'', JInt (snd (fst cp))), (''reason'', JStr (pk_reason (snd cp))),
     (''left_s'', JNum (Fin left)), (''until_event'', JInt (pk_until_event (snd cp)))]"

text \<open>What the restart makes of a park that is still live by the clock: the event deadline is kept up to
  the bound where the event counters are comparable and dropped where they are not.\<close>

definition restored_park :: "bool \<Rightarrow> int \<Rightarrow> park \<Rightarrow> park" where
  "restored_park keep bound p = p\<lparr>pk_reason := if pk_reason p = [] then ''restored'' else pk_reason p,
     pk_until_event := if keep then min (pk_until_event p) bound else 0\<rparr>"

lemma truthy_int_or_0: "py_int (if truthy (JInt n) then JInt n else JInt 0) = Inr n"
  by simp

lemma saved_park_row:
  "cooldown_row bound elapsed (saved_park left cp)
    = Inr (Some (fst cp, xsub (XFin left) (XFin elapsed), min (pk_until_event (snd cp)) bound))"
  by (simp add: cooldown_row_def saved_park_def float_x_def Let_def del: truthy.simps)
    (simp add: truthy_int_or_0)

lemma saved_park_reason: "get_or (saved_park left cp) ''reason'' JNull = JStr (pk_reason (snd cp))"
  by (simp add: saved_park_def)

text \<open>The parks that are left of \<open>xs\<close> at a time, put over a table.\<close>

definition still_parked :: "rat \<Rightarrow> (park \<Rightarrow> park) \<Rightarrow> (coord, park) pydict \<Rightarrow> (coord \<Rightarrow> park option) \<Rightarrow> coord \<Rightarrow> park option" where
  "still_parked t f xs m c = (case map_of xs c of
     Some p \<Rightarrow> if xle (pk_until_t p) (XFin t) then m c else Some (f p) | None \<Rightarrow> m c)"

lemma still_parked_Cons:
  "map_of xs c = None \<Longrightarrow> still_parked t f ((c, p) # xs) m =
     still_parked t f xs (if xle (pk_until_t p) (XFin t) then m else m(c \<mapsto> f p))"
  by (auto simp: still_parked_def fun_eq_iff split: option.split)

text \<open>The rows of unexpired parks, restored one after the other.\<close>

lemma cooldown_rows_saved:
  assumes "distinct (map fst xs)" "\<forall>cp \<in> set xs. exact_park (snd cp)"
    "exact_time now" "exact_time now'" "now \<le> now'"
  shows "\<exists>counts cd1. cooldown_rows W now' keep bound (now' - now) (List.map_filter (park_row now) xs) r n cd0
      = (Inr counts, cd1)
      \<and> map_of (cd_parked cd1) = still_parked now' (restored_park keep bound) xs (map_of (cd_parked cd0))"
  using assms(1,2)
proof (induction xs arbitrary: r n cd0)
  case (Cons x xs)
  obtain c p where x: "x = (c, p)" by fastforce
  obtain u where u: "pk_until_t p = XFin u" "exact_time u" using Cons.prems(2) x by (auto simp: exact_park_def)
  have p: "exact_park p" using Cons.prems(2) x by simp
  have gone: "map_of xs c = None" using Cons.prems x by (simp add: map_of_eq_None_iff)
  have rest: "distinct (map fst xs)" "\<forall>cp \<in> set xs. exact_park (snd cp)" using Cons.prems by auto
  note left = exact_park_left [OF p assms(3)]
  show ?case
  proof (cases "u \<le> now")
    case True
    then have "park_row now x = None" by (simp add: park_row_def x left u(1))
    moreover have "xle (pk_until_t p) (XFin now')" using True assms(5) u(1) by simp
    ultimately show ?thesis using Cons.IH [OF rest, of r n cd0] gone
      by (simp add: map_filter_simps x still_parked_Cons)
  next
    case False
    then have row: "park_row now x = Some (saved_park (u - now) (c, p))"
      by (simp add: park_row_def x left u(1) saved_park_def)
    have "on_grid (u - now)" "on_grid (now' - now)" using u(2) assms(3,4) by (auto simp: exact_time_def)
    moreover have "\<bar>(u - now) - (now' - now)\<bar> \<le> 2 ^ 31" using u(2) assms(4) by (auto simp: exact_time_def abs_if)
    ultimately have diff: "xsub (XFin (u - now)) (XFin (now' - now)) = XFin (u - now')"
      by (simp add: xsub_exact)
    show ?thesis
    proof (cases "u \<le> now'")
      case True
      then have "positive_finite (XFin (u - now')) = None" by (simp add: positive_finite_def)
      then show ?thesis using Cons.IH [OF rest, of r "n + 1" cd0] gone True u(1)
        by (simp add: map_filter_simps row [unfolded x] saved_park_row diff x still_parked_Cons)
    next
      case False
      have whole: "fadd now' (u - now') = u"
        using u(2) assms(4) by (subst fadd_exact) (auto simp: exact_time_def)
      let ?cd = "cd0\<lparr>cd_parked := dset c (restored_park keep bound p) (cd_parked cd0)\<rparr>"
      have same: "\<lparr>pk_reason = if pk_reason p = [] then ''restored'' else pk_reason p, pk_until_t = XFin u,
          pk_until_event = if keep then min (pk_until_event p) bound else 0\<rparr> = restored_park keep bound p"
        using u(1) by (simp add: restored_park_def)
      have "positive_finite (XFin (u - now')) = Some (u - now')" using False by (simp add: positive_finite_def)
      then have step: "cooldown_rows W now' keep bound (now' - now) (List.map_filter (park_row now) (x # xs)) r n cd0
          = cooldown_rows W now' keep bound (now' - now) (List.map_filter (park_row now) xs) (r + 1) n ?cd"
        using same by (cases "pk_reason p = []")
          (simp_all add: map_filter_simps row saved_park_row saved_park_reason diff whole Let_def)
      show ?thesis using Cons.IH [OF rest, of "r + 1" n ?cd] gone False u(1) unfolding step
        by (simp add: x still_parked_Cons fun_upd_def)
    qed
  qed
qed (simp add: still_parked_def fun_eq_iff map_filter_simps)

text \<open>The event deadlines of a snapshot taken at \<open>saved\<close> count for a process that reads \<open>live\<close>.\<close>

definition events_comparable :: "int option \<Rightarrow> int option \<Rightarrow> bool" where
  "events_comparable saved live = (\<exists>e e'. saved = Some e \<and> live = Some e' \<and> e \<le> e')"

lemma restored_cooldown:
  "cooldown_restore W now' cd0 (cooldown_export now cd saved) live elapsed
     = cooldown_rows W now' (events_comparable saved live) (event_or_0 saved + cd_events cd0) elapsed
         (List.map_filter (park_row now) (sort_key fst (cd_parked cd))) 0 0 cd0"
  by (cases saved; cases live)
    (simp_all add: cooldown_restore_def cooldown_export_def int_or_none_def json_rows_def Let_def
      event_or_0_def events_comparable_def)

lemma restart_parks:
  assumes "distinct (dkeys (cd_parked cd))" "\<forall>p \<in> set (dvalues (cd_parked cd)). exact_park p"
    "exact_time now" "exact_time now'" "now \<le> now'" "cd_parked cd0 = []"
    "restore_cooldown W now' cd0 (claim_blob now cd coord saved ladder) live = (counts, cd')"
  shows "map_of (cd_parked cd') c = (case map_of (cd_parked cd) c of
      Some p \<Rightarrow> if xle (pk_until_t p) (XFin now') then None
        else Some (restored_park (events_comparable saved live) (event_or_0 saved + cd_events cd0) p)
    | None \<Rightarrow> None)"
proof -
  let ?xs = "sort_key fst (cd_parked cd)"
  have d: "distinct (map fst ?xs)" using assms(1) by (simp add: distinct_map)
  have same: "map_of ?xs = map_of (cd_parked cd)" using map_of_inject_set [of ?xs "cd_parked cd"] d assms(1) by simp
  have elapsed: "elapsed_since (claim_blob now cd coord saved ladder) now' = XFin (now' - now)"
    using xsub_exact [of now' now] assms(3-5)
    by (auto simp: elapsed_since_def claim_blob_def float_x_def exact_time_def xmax0_def abs_if)
  obtain cnt cd1 where run: "cooldown_rows W now' (events_comparable saved live) (event_or_0 saved + cd_events cd0)
        (now' - now) (List.map_filter (park_row now) ?xs) 0 0 cd0 = (Inr cnt, cd1)"
      "map_of (cd_parked cd1) = still_parked now'
        (restored_park (events_comparable saved live) (event_or_0 saved + cd_events cd0)) ?xs (map_of (cd_parked cd0))"
    using cooldown_rows_saved [OF d, of now now' W "events_comparable saved live" "event_or_0 saved + cd_events cd0" 0 0 cd0]
      assms(2-5) by auto
  have "get_or (claim_blob now cd coord saved ladder) ''cooldown'' JNull = cooldown_export now cd saved"
    by (simp add: claim_blob_def)
  then have "cd' = cd1"
    using assms(7) run(1) by (simp add: restore_cooldown_def elapsed restored_cooldown)
  then show ?thesis using run(2) by (auto simp: same assms(6) still_parked_def split: option.split)
qed

text \<open>C40: what a restart makes of the saved parks, for any saved and live event counters. A park whose
  seconds have passed is gone, whatever its events; any other comes back with its deadline. Its event
  deadline is kept, clamped to the saved counter plus the restoring process's \<^verbatim>\<open>events\<close>, when both
  counters are known and the live one is not behind the saved one, and is 0 otherwise; an empty reason
  becomes \<^verbatim>\<open>restored\<close>. Nothing else is parked. Deadlines and both times are exact in binary64, the wall
  clock has not gone backwards, and the restoring process has parked nothing yet.\<close>

theorem restart_keeps_the_parks:
  assumes "distinct (dkeys (cd_parked cd))" "\<forall>p \<in> set (dvalues (cd_parked cd)). exact_park p"
    "exact_time now" "exact_time now'" "now \<le> now'" "cd_parked cd0 = []"
    "restore_cooldown W now' cd0 (claim_blob now cd coord saved ladder) live = (counts, cd')"
  shows "map_of (cd_parked cd') c = (case map_of (cd_parked cd) c of
      Some p \<Rightarrow> if xle (pk_until_t p) (XFin now') then None
        else Some (p\<lparr>pk_reason := if pk_reason p = [] then ''restored'' else pk_reason p,
          pk_until_event := if \<exists>e e'. saved = Some e \<and> live = Some e' \<and> e \<le> e'
            then min (pk_until_event p) (event_or_0 saved + cd_events cd0) else 0\<rparr>)
    | None \<Rightarrow> None)"
  using restart_parks [OF assms, of c] unfolding restored_park_def events_comparable_def .

definition demo_cooldown :: cooldown where
  "demo_cooldown = \<lparr>cd_seconds = XFin 900, cd_events = 10,
     cd_parked = [((1, 0), \<lparr>pk_reason = ''stall'', pk_until_t = XFin 1000, pk_until_event = 12\<rparr>),
                  ((1, 1), \<lparr>pk_reason = ''budget'', pk_until_t = XFin 200, pk_until_event = 15\<rparr>)]\<rparr>"

definition demo_restored :: cooldown where
  "demo_restored = snd (restore_cooldown toy_world 300 (demo_cooldown\<lparr>cd_parked := []\<rparr>)
     (claim_blob 100 demo_cooldown None (Some 5) None) (Some 6))"

lemma grid_of_nat: "on_grid (of_int n)"
  by (rule on_gridI [of _ "n * 2 ^ 22"]) (simp only: of_int_mult of_int_power of_int_numeral)

lemma exact_numeral: "n \<le> 2 ^ 31 \<Longrightarrow> 0 \<le> n \<Longrightarrow> exact_time (of_int n)"
proof -
  assume n: "n \<le> 2 ^ 31" "0 \<le> n"
  have "(of_int n :: rat) \<le> of_int (2 ^ 31)" using n(1) by (simp only: of_int_le_iff)
  then have "(of_int n :: rat) \<le> 2 ^ 31" by (simp only: of_int_power of_int_numeral)
  then show ?thesis using n(2) by (simp add: exact_time_def grid_of_nat)
qed

lemma demo_clock_times: "exact_time 1000" "exact_time 200" "exact_time 100" "exact_time 300"
  using exact_numeral [of 1000] exact_numeral [of 200] exact_numeral [of 100] exact_numeral [of 300] by simp_all

lemma demo_parks:
  "distinct (dkeys (cd_parked demo_cooldown))"
  "\<forall>p \<in> set (dvalues (cd_parked demo_cooldown)). exact_park p"
  using demo_clock_times by (auto simp: demo_cooldown_def exact_park_def)

lemma demo_run:
  "restore_cooldown toy_world 300 (demo_cooldown\<lparr>cd_parked := []\<rparr>) (claim_blob 100 demo_cooldown None (Some 5) None) (Some 6)
   = (fst (restore_cooldown toy_world 300 (demo_cooldown\<lparr>cd_parked := []\<rparr>)
        (claim_blob 100 demo_cooldown None (Some 5) None) (Some 6)), demo_restored)"
  by (simp add: demo_restored_def)

lemma restart_keeps_the_parks_witness:
  "map_of (cd_parked demo_restored) (1, 0) = map_of (cd_parked demo_cooldown) (1, 0)"
  using restart_keeps_the_parks [OF demo_parks demo_clock_times(3,4) _ _ demo_run, of "(1, 0)"]
  by (simp add: demo_cooldown_def event_or_0_def)

text \<open>So a restart forgets a park whose seconds have passed and whose events have not, which the process
  that made it still keeps: the documentation of the class lets a park expire only when both have.\<close>

lemma restart_forgets_event_parks:
  "fst (blocked 300 demo_cooldown (1, 1) (Some 6)) \<and> \<not> fst (blocked 300 demo_restored (1, 1) (Some 6))"
  using restart_parks [OF demo_parks demo_clock_times(3,4) _ _ demo_run, of "(1, 1)"]
  by (simp add: demo_cooldown_def blocked_def expired_def event_or_0_def)

end
