(* ===== verification/Lane_Host.thy ===== *)
theory Lane_Host
  imports Claim_State
begin

text \<open>
  The lane host of \<^verbatim>\<open>tools/sharddiloco_glm_expert.py\<close> (\<^verbatim>\<open>GlmExpertLaneHost\<close>): the registry that maps
  slot indices to expert coordinates, the expert weights it reads and writes, the snapshots of a round,
  and the fingerprints of \<^verbatim>\<open>tools/sharddiloco_glm_contributor.py\<close> (\<^verbatim>\<open>model_root\<close>, \<^verbatim>\<open>slot_root\<close>). Torch
  and numpy are a parameter. A method that changes the host returns it as it is afterwards, also where
  it raises.
\<close>

subsection \<open>Arrays and the model\<close>

text \<open>
  In the order of the fields: \<^verbatim>\<open>np.shape(x)\<close>; the bytes of \<^verbatim>\<open>np.ascontiguousarray(x, dtype=np.float32)\<close>;
  \<^verbatim>\<open>x + c * d\<close>; the content of a model tensor of the first content after \<^verbatim>\<open>copy_\<close> of the second
  array in the model's number type, read again as float32; and the three products that
  \<^verbatim>\<open>materialize_from_lora\<close> computes from its scale and its four factors.
\<close>

record 'a tensors =
  tn_shape :: "'a \<Rightarrow> nat list"
  tn_bytes :: "'a \<Rightarrow> string"
  tn_step :: "'a \<Rightarrow> pyfloat \<Rightarrow> 'a \<Rightarrow> 'a"
  tn_copy :: "'a \<Rightarrow> 'a \<Rightarrow> exn + 'a"
  tn_lora :: "'a \<Rightarrow> 'a \<Rightarrow> 'a \<Rightarrow> 'a \<Rightarrow> 'a \<Rightarrow> exn + 'a \<times> 'a \<times> 'a"

text \<open>One row of the fused expert tensors: the two halves of \<^verbatim>\<open>gate_up_proj[E]\<close>, and \<^verbatim>\<open>down_proj[E]\<close>.\<close>

record 'a expert =
  ex_gate :: 'a
  ex_up :: 'a
  ex_down :: 'a

text \<open>A layer without expert weights (dense, or the placeholder of a layer that is not resident), or
  the rows of one.\<close>

datatype 'a moe_layer = NoExperts | Experts "'a expert list"

record 'a lane_host =
  lh_model :: "'a moe_layer list"
  lh_slots :: "coord list"
  lh_index :: "(coord, nat) pydict"
  lh_active :: "nat set"
  lh_base :: "'a params option list option"
  lh_claimable :: "coord set option"
  lh_max_active :: "int option"
  lh_aliases :: bool
  lh_campaign :: json

text \<open>\<^verbatim>\<open>lh_aliases\<close> holds of a float32 model on the CPU, where the arrays of \<^verbatim>\<open>read_slot\<close> share the
  storage of the model.\<close>

definition new_host ::
  "'a moe_layer list \<Rightarrow> coord list \<Rightarrow> coord set option \<Rightarrow> int option \<Rightarrow> bool \<Rightarrow> json \<Rightarrow> 'a lane_host" where
  "new_host model slots claimable max_active aliases campaign =
     \<lparr>lh_model = model, lh_slots = slots,
      lh_index = foldl (\<lambda>d (i, le). if le \<in> set (dkeys d) then d else dset le i d) []
        (zip [0..<length slots] slots),
      lh_active = {0..<length slots}, lh_base = None, lh_claimable = claimable, lh_max_active = max_active,
      lh_aliases = aliases, lh_campaign = campaign\<rparr>"

subsection \<open>Reading and writing a slot\<close>

definition index_of :: "'a lane_host \<Rightarrow> coord \<Rightarrow> nat option" where
  "index_of h c = map_of (lh_index h) c"

definition is_claimable :: "'a lane_host \<Rightarrow> coord \<Rightarrow> bool" where
  "is_claimable h c = (case lh_claimable h of None \<Rightarrow> True | Some cs \<Rightarrow> c \<in> cs)"

definition fused :: "'a moe_layer list \<Rightarrow> int \<Rightarrow> exn + 'a expert list" where
  "fused m l =
     (if 0 \<le> l \<and> l < int (length m)
      then (case m ! nat l of NoExperts \<Rightarrow> Inl AttributeError | Experts xs \<Rightarrow> Inr xs)
      else Inl IndexError)"

text \<open>The row an index of a tensor selects; a negative index counts from the end.\<close>

definition row_of :: "int \<Rightarrow> nat \<Rightarrow> exn + nat" where
  "row_of e n =
     (if 0 \<le> e \<and> e < int n then Inr (nat e)
      else if - int n \<le> e \<and> e < 0 then Inr (nat (e + int n)) else Inl IndexError)"

definition slot_place :: "'a lane_host \<Rightarrow> nat \<Rightarrow> exn + nat \<times> nat \<times> 'a expert" where
  "slot_place h i =
     (if length (lh_slots h) \<le> i then Inl IndexError
      else (case lh_slots h ! i of (l, e) \<Rightarrow>
        bindE (fused (lh_model h) l) (\<lambda>xs. bindE (row_of e (length xs)) (\<lambda>k. Inr (nat l, k, xs ! k)))))"

definition expert_dict :: "'a expert \<Rightarrow> 'a params" where
  "expert_dict ex = [(''gate'', ex_gate ex), (''up'', ex_up ex), (''down'', ex_down ex)]"

definition read_slot :: "'a lane_host \<Rightarrow> nat \<Rightarrow> exn + 'a params" where
  "read_slot h i = bindE (slot_place h i) (\<lambda>(l, k, ex). Inr (expert_dict ex))"

definition put_row :: "'a lane_host \<Rightarrow> nat \<Rightarrow> nat \<Rightarrow> 'a expert \<Rightarrow> 'a lane_host" where
  "put_row h l k ex =
     h\<lparr>lh_model := (case lh_model h ! l of Experts xs \<Rightarrow> (lh_model h)[l := Experts (xs[k := ex])] | NoExperts \<Rightarrow> lh_model h)\<rparr>"

text \<open>\<^verbatim>\<open>dst.copy_(torch.as_tensor(np.asarray(d[key])).to(dev, dt))\<close>\<close>

definition copy_part :: "'a tensors \<Rightarrow> 'a \<Rightarrow> 'a params \<Rightarrow> string \<Rightarrow> exn + 'a" where
  "copy_part T dst d key = bindE (orE KeyError (map_of d key)) (tn_copy T dst)"

definition write_slot :: "'a tensors \<Rightarrow> nat \<Rightarrow> 'a params \<Rightarrow> 'a lane_host \<Rightarrow> (exn + unit) \<times> 'a lane_host" where
  "write_slot T i d h =
     (case slot_place h i of
        Inl e \<Rightarrow> (Inl e, h)
      | Inr (l, k, ex) \<Rightarrow>
          (case copy_part T (ex_gate ex) d ''gate'' of
             Inl e \<Rightarrow> (Inl e, h)
           | Inr g \<Rightarrow>
               (case copy_part T (ex_up ex) d ''up'' of
                  Inl e \<Rightarrow> (Inl e, put_row h l k (ex\<lparr>ex_gate := g\<rparr>))
                | Inr u \<Rightarrow>
                    (case copy_part T (ex_down ex) d ''down'' of
                       Inl e \<Rightarrow> (Inl e, put_row h l k (ex\<lparr>ex_gate := g, ex_up := u\<rparr>))
                     | Inr w \<Rightarrow> (Inr (), put_row h l k \<lparr>ex_gate = g, ex_up = u, ex_down = w\<rparr>)))))"

subsection \<open>The registry\<close>

text \<open>\<^verbatim>\<open>_repair_base_slot\<close>\<close>

definition repair_base_slot :: "nat \<Rightarrow> 'a lane_host \<Rightarrow> (exn + unit) \<times> 'a lane_host" where
  "repair_base_slot i h =
     (case lh_base h of
        None \<Rightarrow> (Inr (), h)
      | Some bs \<Rightarrow>
          (let bs = bs @ replicate (length (lh_slots h) - length bs) None;
               h = h\<lparr>lh_base := Some bs\<rparr> in
           case read_slot h i of
             Inl e \<Rightarrow> (Inl e, h)
           | Inr d \<Rightarrow> (Inr (), h\<lparr>lh_base := Some (bs[i := Some d])\<rparr>)))"

definition seats_full :: "'a lane_host \<Rightarrow> bool" where
  "seats_full h = (case lh_max_active h of None \<Rightarrow> False | Some n \<Rightarrow> n \<le> int (card (lh_active h)))"

text \<open>The refusal of a claim while \<open>max_active\<close> slots are taken; \<open>verb\<close> is admit or re-admit.\<close>

definition no_seat :: "'a lane_host \<Rightarrow> string \<Rightarrow> coord \<Rightarrow> exn" where
  "no_seat h verb c = RuntimeError (''max_active_slots='' @ int_str (case lh_max_active h of None \<Rightarrow> 0 | Some n \<Rightarrow> n)
     @ '' reached; cannot '' @ verb @ '' (L'' @ int_str (fst c) @ '',E'' @ int_str (snd c) @ '') yet'')"

definition repaired :: "nat \<Rightarrow> 'a lane_host \<Rightarrow> (exn + nat) \<times> 'a lane_host" where
  "repaired i h = (case repair_base_slot i h of (Inl e, h') \<Rightarrow> (Inl e, h') | (Inr _, h') \<Rightarrow> (Inr i, h'))"

definition register :: "coord \<Rightarrow> 'a lane_host \<Rightarrow> (exn + nat) \<times> 'a lane_host" where
  "register c h =
     (if \<not> is_claimable h c then (Inl (ValueError (''coordinate (L'' @ int_str (fst c) @ '',E'' @ int_str (snd c) @ '') is not hostable by this node'')), h)
      else (case map_of (lh_index h) c of
        None \<Rightarrow>
          (if seats_full h then (Inl (no_seat h ''admit'' c), h)
           else (let i = length (lh_slots h) in
             repaired i (h\<lparr>lh_slots := lh_slots h @ [c], lh_index := dset c i (lh_index h),
               lh_active := insert i (lh_active h)\<rparr>)))
      | Some i \<Rightarrow>
          (if i \<notin> lh_active h
           then (if seats_full h then (Inl (no_seat h ''re-admit'' c), h)
                 else repaired i (h\<lparr>lh_active := insert i (lh_active h)\<rparr>))
           else repaired i h)))"

definition evict :: "nat \<Rightarrow> 'a lane_host \<Rightarrow> bool \<times> 'a lane_host" where
  "evict i h =
     (if i \<notin> lh_active h then (False, h)
      else (True, h\<lparr>lh_active := lh_active h - {i},
        lh_base := (case lh_base h of Some bs \<Rightarrow> if i < length bs then Some (bs[i := None]) else Some bs | None \<Rightarrow> None)\<rparr>))"

subsection \<open>A round\<close>

definition canonical_experts :: "'a lane_host \<Rightarrow> exn + 'a params option list" where
  "canonical_experts h = mapE (\<lambda>i. if i \<in> lh_active h then bindE (read_slot h i) (\<lambda>d. Inr (Some d)) else Inr None)
     [0..<length (lh_slots h)]"

definition begin_lane_round :: "'a params option list \<Rightarrow> 'a lane_host \<Rightarrow> 'a lane_host" where
  "begin_lane_round experts h = h\<lparr>lh_base := Some experts\<rparr>"

fun sync_slots :: "'a tensors \<Rightarrow> nat \<Rightarrow> 'a params option list \<Rightarrow> 'a lane_host \<Rightarrow> (exn + unit) \<times> 'a lane_host" where
  "sync_slots T i [] h = (Inr (), h)"
| "sync_slots T i (None # es) h = sync_slots T (i + 1) es h"
| "sync_slots T i (Some d # es) h =
     (case write_slot T i d h of (Inl e, h') \<Rightarrow> (Inl e, h') | (Inr _, h') \<Rightarrow> sync_slots T (i + 1) es h')"

definition sync_from_canonical :: "'a tensors \<Rightarrow> 'a params option list \<Rightarrow> 'a lane_host \<Rightarrow> (exn + unit) \<times> 'a lane_host" where
  "sync_from_canonical T experts h = sync_slots T 0 experts h"

text \<open>\<^verbatim>\<open>make_eval_expert\<close>: the held-out loss of a candidate for one slot. \<open>ev\<close> is the forward pass over
  the model; the flops it books are left out.\<close>

definition eval_expert ::
  "'a tensors \<Rightarrow> ('a moe_layer list \<Rightarrow> exn + xfloat) \<Rightarrow> nat \<Rightarrow> 'a params \<Rightarrow> 'a lane_host \<Rightarrow> (exn + xfloat) \<times> 'a lane_host" where
  "eval_expert T ev e cand h =
     (let base = (case lh_base h of Some bs \<Rightarrow> if e < length bs then bs ! e else None | None \<Rightarrow> None) in
      case base of
        None \<Rightarrow> (Inl (RuntimeError ''no pre-round base snapshot''), h)
      | Some b \<Rightarrow>
          (case write_slot T e cand h of
             (Inl x, h1) \<Rightarrow> (Inl x, h1)
           | (Inr _, h1) \<Rightarrow>
               (case ev (lh_model h1) of
                  Inl x \<Rightarrow> (Inl x, h1)
                | Inr ce \<Rightarrow>
                    (case write_slot T e b h1 of (Inl x, h2) \<Rightarrow> (Inl x, h2) | (Inr _, h2) \<Rightarrow> (Inr ce, h2)))))"

subsection \<open>Low-rank payloads\<close>

definition is_lora_payload :: "'a params \<Rightarrow> bool" where
  "is_lora_payload d = (d \<noteq> [] \<and> ''lora_B_gu'' \<in> set (dkeys d))"

definition materialize_from_lora :: "'a tensors \<Rightarrow> 'a params \<Rightarrow> exn + 'a params" where
  "materialize_from_lora T d =
     (let get = (\<lambda>k. orE KeyError (map_of d k)) in
      bindE (get ''lora_scale'') (\<lambda>sc. bindE (get ''lora_B_gu'') (\<lambda>bg. bindE (get ''lora_A_gu'') (\<lambda>ag.
      bindE (get ''lora_B_d'') (\<lambda>bd. bindE (get ''lora_A_d'') (\<lambda>ad.
      bindE (tn_lora T sc bg ag bd ad) (\<lambda>(g, u, w). Inr [(''gate'', g), (''up'', u), (''down'', w)])))))))"

text \<open>The shapes a factor payload must have for an expert of inner width \<open>wi\<close> and hidden width \<open>wh\<close>.\<close>

definition factor_shapes :: "nat \<Rightarrow> nat \<Rightarrow> nat \<Rightarrow> (string \<times> nat list) list" where
  "factor_shapes r wi wh = [(''lora_A_gu'', [r, wh]), (''lora_B_gu'', [2 * wi, r]), (''lora_A_d'', [r, wi]), (''lora_B_d'', [wh, r])]"

definition validate_lora_factors :: "'a tensors \<Rightarrow> 'a params \<Rightarrow> nat \<Rightarrow> nat \<Rightarrow> int \<Rightarrow> bool \<times> string" where
  "validate_lora_factors T payload wi wh max_rank =
     (let shape = (\<lambda>k. map_option (tn_shape T) (map_of payload k));
          factors = [''lora_A_gu'', ''lora_B_gu'', ''lora_A_d'', ''lora_B_d''] in
      if \<not> is_lora_payload payload then (False, ''not a LoRA-factor payload'')
      else if \<exists>k \<in> set (factors @ [''lora_scale'']). shape k = None then (False, ''malformed factor array'')
      else if \<exists>k \<in> set factors. length (the (shape k)) \<noteq> 2 then (False, ''a LoRA factor is not 2-D'')
      else if prod_list (the (shape ''lora_scale'')) < 1 then (False, ''empty lora_scale'')
      else
        (let r = hd (the (shape ''lora_A_gu'')) in
         if \<not> (1 \<le> r \<and> int r \<le> max_rank) then (False, ''rank out of range'')
         else if \<exists>(k, want) \<in> set (factor_shapes r wi wh). the (shape k) \<noteq> want then (False, ''shape'')
         else (True, ''ok'')))"

subsection \<open>Fingerprints\<close>

definition host_campaign_id :: "world \<Rightarrow> 'a lane_host \<Rightarrow> string option" where
  "host_campaign_id W h = normalize_campaign_id W (lh_campaign h)"

text \<open>What \<^verbatim>\<open>_campaign_seed_into\<close> and \<^verbatim>\<open>_slot_digest_into\<close> feed into a digest.\<close>

definition campaign_seed :: "string option \<Rightarrow> string" where
  "campaign_seed campaign = (case campaign of None \<Rightarrow> [] | Some c \<Rightarrow> if c = [] then [] else ''campaign:'' @ c @ ''|'')"

definition slot_bytes :: "'a tensors \<Rightarrow> coord \<Rightarrow> 'a params \<Rightarrow> string" where
  "slot_bytes T c d =
     ''L'' @ int_str (fst c) @ ''E'' @ int_str (snd c) @ ''|''
       @ concat (map (\<lambda>k. k @ (case map_of d k of Some a \<Rightarrow> tn_bytes T a | None \<Rightarrow> [])) (sort (dkeys d)))"

definition slot_digest :: "'a tensors \<Rightarrow> 'a lane_host \<Rightarrow> nat \<Rightarrow> exn + string" where
  "slot_digest T h i = bindE (read_slot h i) (\<lambda>d. Inr (slot_bytes T (lh_slots h ! i) d))"

definition model_root :: "world \<Rightarrow> 'a tensors \<Rightarrow> 'a lane_host \<Rightarrow> exn + string" where
  "model_root W T h =
     bindE (mapE (slot_digest T h) [0..<length (lh_slots h)]) (\<lambda>ds.
       Inr (sha256 W (campaign_seed (host_campaign_id W h) @ concat ds)))"

definition slot_root :: "world \<Rightarrow> 'a tensors \<Rightarrow> 'a lane_host \<Rightarrow> nat \<Rightarrow> exn + string" where
  "slot_root W T h i =
     bindE (slot_digest T h i) (\<lambda>d. Inr (sha256 W (campaign_seed (host_campaign_id W h) @ d)))"

subsection \<open>Which slots a pointer is about\<close>

text \<open>The map of rounds of a decoded pointer, or of a raw one.\<close>

definition pointer_rounds :: "(string, json) pydict \<Rightarrow> json" where
  "pointer_rounds kvs = (case dget kvs ''slot_rounds'' JNull of JNull \<Rightarrow> dget kvs ''rounds'' JNull | r \<Rightarrow> r)"

definition global_root_comparable :: "world \<Rightarrow> 'a lane_host \<Rightarrow> json \<Rightarrow> exn + bool" where
  "global_root_comparable W h dec =
     (case dec of
        JObj kvs \<Rightarrow>
          (let rounds = pointer_rounds kvs in
           if \<not> truthy rounds then Inr True
           else bindE (py_iter rounds) (\<lambda>ks. Inr (str_of W ` set ks = coord_text ` set (lh_slots h))))
      | _ \<Rightarrow> Inr True)"

definition pointer_slot_count :: "json \<Rightarrow> exn + nat" where
  "pointer_slot_count dec =
     (case dec of
        JObj kvs \<Rightarrow>
          (let rounds = pointer_rounds kvs in
           if \<not> truthy rounds then Inr 0 else bindE (py_iter rounds) (\<lambda>ks. Inr (length ks)))
      | _ \<Rightarrow> Inr 0)"

text \<open>\<^verbatim>\<open>_resolve_accepted_slot\<close>: \<^verbatim>\<open>int\<close> of a field, where an overflow is let through.\<close>

definition resolve_accepted_slot :: "'a lane_host \<Rightarrow> json \<Rightarrow> exn + nat option" where
  "resolve_accepted_slot h item =
     bindE (py_get item ''layer'' JNull) (\<lambda>l. bindE (py_get item ''glm_expert'' JNull) (\<lambda>e.
       if l \<noteq> JNull \<and> e \<noteq> JNull
       then bindE (int_or_none l) (\<lambda>l'. case l' of None \<Rightarrow> Inr None
         | Some li \<Rightarrow> bindE (int_or_none e) (\<lambda>e'. case e' of None \<Rightarrow> Inr None
         | Some ei \<Rightarrow> Inr (index_of h (li, ei))))
       else (case jindex item ''slot'' of
               None \<Rightarrow> Inr None
             | Some v \<Rightarrow> bindE (int_or_none v) (\<lambda>n.
                 Inr (case n of None \<Rightarrow> None
                      | Some k \<Rightarrow> if 0 \<le> k \<and> k < int (length (lh_slots h)) then Some (nat k) else None)))))"

end
