(* ===== verification/Lane_Host_Facts.thy ===== *)
theory Lane_Host_Facts
  imports Lane_Host Claim_Walk_Props
begin

text \<open>
  Facts on the lane host. The registry: indices name the coordinates they were given to, for good. The
  weights: every slot has its own cell of the model, a write changes that cell only, and a write of
  weights that were read puts them back. What is used of torch is \<open>tensors_ok\<close>.
\<close>

subsection \<open>The registry\<close>

definition registry_ok :: "'a lane_host \<Rightarrow> bool" where
  "registry_ok h \<longleftrightarrow>
     (\<forall>c i. index_of h c = Some i \<longrightarrow> i < length (lh_slots h) \<and> lh_slots h ! i = c)
   \<and> set (dkeys (lh_index h)) = set (lh_slots h) \<and> lh_active h \<subseteq> {..<length (lh_slots h)}"

lemma index_fold:
  fixes d :: "(coord, nat) pydict"
  shows "map_of (foldl (\<lambda>d (i, le). if le \<in> set (dkeys d) then d else dset le i d) d (zip [n..<n + length xs] xs)) c
     = (case map_of d c of Some i \<Rightarrow> Some i | None \<Rightarrow> if c \<in> set xs then Some (n + index_in c xs) else None)"
proof (induction xs arbitrary: d n)
  case (Cons x xs)
  have split: "[n..<n + length (x # xs)] = n # [Suc n..<Suc n + length xs]" by (simp add: upt_rec del: upt_Suc)
  show ?case
  proof (cases "map_of d x")
    case None
    then have "x \<notin> set (dkeys d)" by (simp add: map_of_eq_None_iff)
    then show ?thesis unfolding split using Cons.IH [of "dset x n d" "Suc n"] None
      by (auto simp del: upt_Suc split: option.split)
  next
    case (Some i)
    then have "x \<in> set (dkeys d)" using map_of_eq_None_iff [of d x] by auto
    then show ?thesis unfolding split using Cons.IH [of d "Suc n"] Some
      by (auto simp del: upt_Suc split: option.split)
  qed
qed (simp split: option.split)


lemma new_host_index:
  "index_of (new_host model slots cl mx al cp) c = (if c \<in> set slots then Some (index_in c slots) else None)"
  using index_fold [of "[]" 0 slots c] by (simp add: index_of_def new_host_def)

lemma new_host_registry: "registry_ok (new_host model slots cl mx al cp)"
proof -
  let ?h = "new_host model slots cl mx al cp"
  have "c \<in> set (dkeys (lh_index ?h)) \<longleftrightarrow> c \<in> set slots" for c
    using new_host_index [of model slots cl mx al cp c] map_of_eq_None_iff [of "lh_index ?h" c]
    by (auto simp: index_of_def split: if_splits)
  then have "set (dkeys (lh_index ?h)) = set slots" by blast
  moreover have "lh_slots ?h = slots" "lh_active ?h = {..<length slots}" by (auto simp: new_host_def)
  ultimately show ?thesis unfolding registry_ok_def
    by (simp add: new_host_index index_in_less nth_index_in)
qed

text \<open>What a registry operation leaves alone: the model and every index that was given.\<close>

definition extends :: "'a lane_host \<Rightarrow> 'a lane_host \<Rightarrow> bool" where
  "extends h h' \<longleftrightarrow> lh_model h' = lh_model h \<and> (\<exists>new. lh_slots h' = lh_slots h @ new)
     \<and> (\<forall>c i. index_of h c = Some i \<longrightarrow> index_of h' c = Some i)"

lemma repair_frame:
  "repair_base_slot i h = (r, h') \<Longrightarrow> \<exists>bs. h' = h\<lparr>lh_base := bs\<rparr>"
  by (auto simp: repair_base_slot_def Let_def split: option.splits sum.splits) (metis lane_host.surjective lane_host.update_convs(5))+

lemma read_slot_base [simp]: "read_slot (h\<lparr>lh_base := bs\<rparr>) i = read_slot h i"
  by (simp add: read_slot_def slot_place_def)

lemma repair_snapshots:
  "repair_base_slot i h = (Inr u, h') \<Longrightarrow> lh_base h = Some bs \<Longrightarrow> i < length (lh_slots h) \<Longrightarrow>
     \<exists>bs' d. lh_base h' = Some bs' \<and> i < length bs' \<and> bs' ! i = Some d \<and> read_slot h' i = Inr d"
  by (auto simp: repair_base_slot_def Let_def split: sum.splits)

lemma registry_step:
  assumes "registry_ok h" "register c h = (r, h')"
  shows "registry_ok h' \<and> extends h h'
    \<and> (\<forall>i. r = Inr i \<longrightarrow> is_claimable h c \<and> index_of h' c = Some i \<and> i \<in> lh_active h'
         \<and> (lh_base h \<noteq> None \<longrightarrow> (\<exists>bs d. lh_base h' = Some bs \<and> i < length bs \<and> bs ! i = Some d \<and> read_slot h' i = Inr d)))
    \<and> (\<forall>n. lh_max_active h = Some n \<longrightarrow> int (card (lh_active h')) \<le> max n (int (card (lh_active h))))"
proof -
  have fin: "finite (lh_active h)" using assms(1) by (auto simp: registry_ok_def intro: finite_subset)
  have rebased: "registry_ok (h2\<lparr>lh_base := bs\<rparr>) = registry_ok h2" "extends h (h2\<lparr>lh_base := bs\<rparr>) = extends h h2"
    "index_of (h2\<lparr>lh_base := bs\<rparr>) = index_of h2" for h2 bs
    by (auto simp: registry_ok_def extends_def index_of_def)
  have final: ?thesis if step: "is_claimable h c" "registry_ok h2" "extends h h2" "index_of h2 c = Some i" "i \<in> lh_active h2"
      "lh_base h2 = lh_base h" "repaired i h2 = (r, h')"
      "\<forall>n. lh_max_active h = Some n \<longrightarrow> int (card (lh_active h2)) \<le> max n (int (card (lh_active h)))" for i h2
  proof -
    obtain r' where rep: "repair_base_slot i h2 = (r', h')" "r = map_sum id (\<lambda>_. i) r'"
      using step(7) by (auto simp: repaired_def split: prod.splits sum.splits)
    obtain bs where h': "h' = h2\<lparr>lh_base := bs\<rparr>" using repair_frame [OF rep(1)] by blast
    have "i < length (lh_slots h2)" using step(2,4) unfolding registry_ok_def by blast
    then have snap: "r' = Inr u \<Longrightarrow> lh_base h \<noteq> None \<Longrightarrow>
        \<exists>bs d. lh_base h' = Some bs \<and> i < length bs \<and> bs ! i = Some d \<and> read_slot h' i = Inr d" for u
      using repair_snapshots [of i h2 u h'] rep(1) step(6) by auto
    have same: "registry_ok h' = registry_ok h2" "extends h h' = extends h h2" "index_of h' = index_of h2"
        "lh_active h' = lh_active h2" by (simp_all add: h' rebased)
    show ?thesis
    proof (cases r')
      case (Inl e)
      then show ?thesis using step(2,3,8) rep(2) unfolding same by simp
    next
      case (Inr u)
      then have "r = Inr i" using rep(2) by simp
      then show ?thesis using step(1-5,8) snap [OF Inr] unfolding same by simp
    qed
  qed
  show ?thesis
  proof (cases "is_claimable h c")
    case False
    then show ?thesis using assms by (auto simp: register_def extends_def)
  next
    case True
    show ?thesis
    proof (cases "map_of (lh_index h) c")
      case None
      show ?thesis
      proof (cases "seats_full h")
        case True
        then show ?thesis using assms None \<open>is_claimable h c\<close> by (auto simp: register_def extends_def no_seat_def)
      next
        case False
        let ?i = "length (lh_slots h)"
        let ?h2 = "h\<lparr>lh_slots := lh_slots h @ [c], lh_index := dset c ?i (lh_index h), lh_active := insert ?i (lh_active h)\<rparr>"
        have other: "index_of h c' = Some j \<Longrightarrow> c' \<noteq> c" for c' j using None by (auto simp: index_of_def)
        have keys: "set (dkeys (dset c ?i (lh_index h))) = insert c (set (lh_slots h))"
          using assms(1) unfolding dkeys_dset by (simp add: registry_ok_def)
        have known: "\<And>c' j. map_of (lh_index h) c' = Some j \<Longrightarrow> j < ?i \<and> lh_slots h ! j = c'"
          using assms(1) unfolding registry_ok_def index_of_def by blast
        have act: "lh_active h \<subseteq> {..<?i}" using assms(1) by (simp add: registry_ok_def)
        have "registry_ok ?h2" unfolding registry_ok_def
        proof (intro conjI allI impI)
          show "j < length (lh_slots ?h2)" "lh_slots ?h2 ! j = c'" if "index_of ?h2 c' = Some j" for c' j
            using that known [of c' j] by (auto simp: index_of_def nth_append split: if_splits)
          show "set (dkeys (lh_index ?h2)) = set (lh_slots ?h2)" using keys by simp
          show "lh_active ?h2 \<subseteq> {..<length (lh_slots ?h2)}" using act by auto
        qed
        moreover have "extends h ?h2" using other by (auto simp: extends_def index_of_def)
        moreover have "card (insert ?i (lh_active h)) = Suc (card (lh_active h))"
          using fin assms(1) by (subst card_insert_disjoint) (auto simp: registry_ok_def)
        moreover have "repaired ?i ?h2 = (r, h')" using assms(2) True None False by (simp add: register_def Let_def)
        ultimately show ?thesis using True False
          by (intro final [of ?h2 ?i]) (auto simp: index_of_def seats_full_def)
      qed
    next
      case (Some i)
      have "i < length (lh_slots h)" using assms(1) Some unfolding registry_ok_def index_of_def by blast
      then have ok: "registry_ok (h\<lparr>lh_active := insert i (lh_active h)\<rparr>)" using assms(1)
        unfolding registry_ok_def index_of_def by simp
      show ?thesis
      proof (cases "i \<in> lh_active h")
        case act: True
        then show ?thesis using assms True Some
          by (intro final [of h i]) (auto simp: register_def extends_def index_of_def)
      next
        case act: False
        show ?thesis
        proof (cases "seats_full h")
          case full: True
          then show ?thesis using assms True Some act by (auto simp: register_def extends_def no_seat_def)
        next
          case full: False
          have "card (insert i (lh_active h)) = Suc (card (lh_active h))" using fin act by simp
          then show ?thesis using assms(2) True Some act full ok
            by (intro final [of "h\<lparr>lh_active := insert i (lh_active h)\<rparr>" i])
              (auto simp: register_def extends_def index_of_def seats_full_def)
        qed
      qed
    qed
  qed
qed

lemma evict_step:
  assumes "registry_ok h" "evict i h = (r, h')"
  shows "registry_ok h' \<and> extends h h' \<and> lh_active h' = lh_active h - {i} \<and> (r \<longleftrightarrow> i \<in> lh_active h)"
proof -
  have "lh_model h' = lh_model h" "lh_slots h' = lh_slots h" "lh_index h' = lh_index h" "lh_active h' = lh_active h - {i}"
    "r \<longleftrightarrow> i \<in> lh_active h" using assms(2) by (auto simp: evict_def split: if_splits)
  then show ?thesis using assms(1) unfolding registry_ok_def extends_def index_of_def by auto
qed

subsection \<open>The cells of the model\<close>

text \<open>The shape of a model: which layers have experts, and how many.\<close>

definition skeleton :: "'a moe_layer list \<Rightarrow> nat option list" where
  "skeleton m = map (\<lambda>l. case l of NoExperts \<Rightarrow> None | Experts xs \<Rightarrow> Some (length xs)) m"

definition row_at :: "'a moe_layer list \<Rightarrow> nat \<times> nat \<Rightarrow> 'a expert" where
  "row_at m c = (case m ! fst c of Experts xs \<Rightarrow> xs ! snd c | NoExperts \<Rightarrow> undefined)"

definition is_cell :: "'a moe_layer list \<Rightarrow> nat \<times> nat \<Rightarrow> bool" where
  "is_cell m c \<longleftrightarrow> fst c < length m \<and> (\<exists>xs. m ! fst c = Experts xs \<and> snd c < length xs)"

definition cell :: "'a lane_host \<Rightarrow> nat \<Rightarrow> exn + nat \<times> nat" where
  "cell h i = bindE (slot_place h i) (\<lambda>(l, k, ex). Inr (l, k))"

lemma row_of_less: "row_of e n = Inr k \<Longrightarrow> k < n"
  by (auto simp: row_of_def split: if_splits)

lemma slot_place_cell:
  assumes "cell h i = Inr c"
  shows "slot_place h i = Inr (fst c, snd c, row_at (lh_model h) c)" "is_cell (lh_model h) c"
  using assms
  by (auto simp: cell_def slot_place_def fused_def bindE_Inr_iff row_at_def is_cell_def dest: row_of_less
      split: if_splits prod.splits moe_layer.splits)

lemma cell_length: "cell h i = Inr c \<Longrightarrow> i < length (lh_slots h)"
  by (auto simp: cell_def slot_place_def split: if_splits)

lemma read_cell: "cell h i = Inr c \<Longrightarrow> read_slot h i = Inr (expert_dict (row_at (lh_model h) c))"
  by (simp add: read_slot_def slot_place_cell)

definition same_frame :: "'a lane_host \<Rightarrow> 'a lane_host \<Rightarrow> bool" where
  "same_frame h h' \<longleftrightarrow> h\<lparr>lh_model := []\<rparr> = h'\<lparr>lh_model := []\<rparr> \<and> skeleton (lh_model h) = skeleton (lh_model h')"

lemma same_frame_refl [simp]: "same_frame h h"
  by (simp add: same_frame_def)

lemma same_frame_trans: "same_frame a b \<Longrightarrow> same_frame b c \<Longrightarrow> same_frame a c"
  by (simp add: same_frame_def)

lemma same_frame_sym: "same_frame a b \<Longrightarrow> same_frame b a"
  by (simp add: same_frame_def)

lemma frame_fields:
  assumes "same_frame h h'"
  shows "lh_slots h' = lh_slots h" "lh_index h' = lh_index h" "lh_active h' = lh_active h" "lh_campaign h' = lh_campaign h"
    "lh_base h' = lh_base h" "lh_claimable h' = lh_claimable h" "lh_max_active h' = lh_max_active h"
    "lh_aliases h' = lh_aliases h"
  using assms by (cases h; cases h'; simp add: same_frame_def)+

lemma frame_index: "same_frame h h' \<Longrightarrow> index_of h' = index_of h"
  by (simp add: index_of_def fun_eq_iff frame_fields)

lemma frame_campaign: "same_frame h h' \<Longrightarrow> host_campaign_id W h' = host_campaign_id W h"
  by (simp add: host_campaign_id_def frame_fields)

lemma skeleton_nth: "l < length m \<Longrightarrow> skeleton m ! l = (case m ! l of NoExperts \<Rightarrow> None | Experts xs \<Rightarrow> Some (length xs))"
  by (simp add: skeleton_def)

lemma skeleton_length: "skeleton m = skeleton m' \<Longrightarrow> length m = length m'"
  by (metis length_map skeleton_def)

lemma skeleton_experts:
  assumes "skeleton m = skeleton m'" "l < length m"
  shows "(m ! l = NoExperts \<longleftrightarrow> m' ! l = NoExperts) \<and> (\<forall>xs ys. m ! l = Experts xs \<longrightarrow> m' ! l = Experts ys \<longrightarrow> length xs = length ys)"
proof -
  have "skeleton m ! l = skeleton m' ! l" "l < length m'" using assms skeleton_length [OF assms(1)] by simp_all
  then show ?thesis using assms(2) by (auto simp: skeleton_nth split: moe_layer.splits)
qed

text \<open>A cell depends on the shape of the model only.\<close>

lemma cell_skeleton:
  "cell h i = (if length (lh_slots h) \<le> i then Inl IndexError
     else (case lh_slots h ! i of (l, e) \<Rightarrow>
       if 0 \<le> l \<and> l < int (length (skeleton (lh_model h)))
       then (case skeleton (lh_model h) ! nat l of None \<Rightarrow> Inl AttributeError
             | Some n \<Rightarrow> bindE (row_of e n) (\<lambda>k. Inr (nat l, k)))
       else Inl IndexError))"
proof (cases "i < length (lh_slots h)")
  case True
  obtain l e where le: "lh_slots h ! i = (l, e)" by fastforce
  show ?thesis
  proof (cases "0 \<le> l \<and> l < int (length (lh_model h))")
    case in_range: True
    then have "nat l < length (lh_model h)" by auto
    then show ?thesis using True le in_range
      by (cases "lh_model h ! nat l") (simp_all add: cell_def slot_place_def fused_def skeleton_def bindE_def split: sum.split)
  next
    case False
    then show ?thesis using True le by (auto simp: cell_def slot_place_def fused_def skeleton_def)
  qed
qed (simp add: cell_def slot_place_def)

lemma cell_frame: "same_frame h h' \<Longrightarrow> cell h' i = cell h i"
proof -
  assume frame: "same_frame h h'"
  then have "skeleton (lh_model h') = skeleton (lh_model h)" by (simp add: same_frame_def)
  then show ?thesis unfolding cell_skeleton frame_fields(1) [OF frame] by (simp only:)
qed

lemma is_cell_skeleton:
  "is_cell m c \<longleftrightarrow> fst c < length (skeleton m) \<and> (\<exists>n. skeleton m ! fst c = Some n \<and> snd c < n)"
  by (auto simp: is_cell_def skeleton_def split: moe_layer.splits)

lemma is_cell_frame: "same_frame h h' \<Longrightarrow> is_cell (lh_model h') c = is_cell (lh_model h) c"
  unfolding is_cell_skeleton by (simp add: same_frame_def)

lemma model_ext:
  assumes "same_frame h h'" "\<And>c. is_cell (lh_model h) c \<Longrightarrow> row_at (lh_model h') c = row_at (lh_model h) c"
  shows "h' = h"
proof -
  have sk: "skeleton (lh_model h) = skeleton (lh_model h')" using assms(1) by (simp add: same_frame_def)
  have "lh_model h' = lh_model h"
  proof (rule nth_equalityI)
    show "length (lh_model h') = length (lh_model h)" using skeleton_length [OF sk] by simp
    fix l assume "l < length (lh_model h')"
    then have l: "l < length (lh_model h)" using skeleton_length [OF sk] by simp
    show "lh_model h' ! l = lh_model h ! l"
    proof (cases "lh_model h ! l")
      case NoExperts
      then show ?thesis using skeleton_experts [OF sk l] by simp
    next
      case (Experts xs)
      then obtain ys where ys: "lh_model h' ! l = Experts ys" "length xs = length ys"
        using skeleton_experts [OF sk l] by (cases "lh_model h' ! l") auto
      have "ys ! k = xs ! k" if "k < length xs" for k
        using assms(2) [of "(l, k)"] that l Experts ys by (simp add: is_cell_def row_at_def)
      then show ?thesis using ys Experts by (auto intro: nth_equalityI)
    qed
  qed
  then show ?thesis using assms(1) by (cases h; cases h'; simp add: same_frame_def)
qed

subsection \<open>Writing\<close>

lemma put_row_frame: "is_cell (lh_model h) (l, k) \<Longrightarrow> same_frame h (put_row h l k ex)"
proof -
  assume "is_cell (lh_model h) (l, k)"
  then obtain xs where xs: "l < length (lh_model h)" "lh_model h ! l = Experts xs" by (auto simp: is_cell_def)
  have "skeleton (lh_model h) = skeleton ((lh_model h)[l := Experts (xs[k := ex])])"
  proof (rule nth_equalityI)
    fix j assume "j < length (skeleton (lh_model h))"
    then show "skeleton (lh_model h) ! j = skeleton ((lh_model h)[l := Experts (xs[k := ex])]) ! j"
      using xs by (cases "j = l") (simp_all add: skeleton_def)
  qed (simp add: skeleton_def)
  then show ?thesis using xs(2) by (simp add: same_frame_def put_row_def)
qed

lemma put_row_at:
  "is_cell (lh_model h) (l, k) \<Longrightarrow> row_at (lh_model (put_row h l k ex)) c = (if c = (l, k) then ex else row_at (lh_model h) c)"
  by (cases c) (auto simp: put_row_def is_cell_def row_at_def nth_list_update)

text \<open>
  What is used of torch. \<open>P\<close> are the arrays that the model's number type represents exactly: a copy of
  an array of the same shape succeeds, gives such an array of that shape, and gives back an array that
  was one already. Adding a delta keeps the shape.
\<close>

definition tensors_ok :: "'a tensors \<Rightarrow> ('a \<Rightarrow> bool) \<Rightarrow> bool" where
  "tensors_ok T P \<longleftrightarrow>
     (\<forall>x y. P x \<longrightarrow> tn_shape T x = tn_shape T y \<longrightarrow>
        (\<exists>z. tn_copy T x y = Inr z \<and> P z \<and> tn_shape T z = tn_shape T x \<and> (P y \<longrightarrow> z = y)))
   \<and> (\<forall>c o' d. tn_shape T c = tn_shape T d \<longrightarrow> tn_shape T (tn_step T c o' d) = tn_shape T c)"

definition expert_in :: "('a \<Rightarrow> bool) \<Rightarrow> 'a expert \<Rightarrow> bool" where
  "expert_in P ex \<longleftrightarrow> P (ex_gate ex) \<and> P (ex_up ex) \<and> P (ex_down ex)"

definition expert_like :: "'a tensors \<Rightarrow> 'a expert \<Rightarrow> 'a expert \<Rightarrow> bool" where
  "expert_like T a b \<longleftrightarrow> tn_shape T (ex_gate a) = tn_shape T (ex_gate b) \<and> tn_shape T (ex_up a) = tn_shape T (ex_up b)
     \<and> tn_shape T (ex_down a) = tn_shape T (ex_down b)"

lemma expert_like_trans: "expert_like T a b \<Longrightarrow> expert_like T b c \<Longrightarrow> expert_like T a c"
  by (simp add: expert_like_def)

lemma expert_like_refl [simp]: "expert_like T a a"
  by (simp add: expert_like_def)

text \<open>A dictionary that fits an expert.\<close>

definition fits :: "'a tensors \<Rightarrow> 'a params \<Rightarrow> 'a expert \<Rightarrow> bool" where
  "fits T d ex \<longleftrightarrow> (\<exists>e. map_of d ''gate'' = Some (ex_gate e) \<and> map_of d ''up'' = Some (ex_up e)
     \<and> map_of d ''down'' = Some (ex_down e) \<and> expert_like T e ex)"

lemma fits_dict: "expert_like T e ex \<Longrightarrow> fits T (expert_dict e) ex"
  by (auto simp: fits_def expert_dict_def intro!: exI [of _ e])

lemma expert_dict_inject [simp]: "expert_dict a = expert_dict b \<longleftrightarrow> a = b"
  by (cases a; cases b) (simp add: expert_dict_def)

definition model_in :: "('a \<Rightarrow> bool) \<Rightarrow> 'a lane_host \<Rightarrow> bool" where
  "model_in P h \<longleftrightarrow> (\<forall>c. is_cell (lh_model h) c \<longrightarrow> expert_in P (row_at (lh_model h) c))"

lemma write_slot_fits:
  assumes "tensors_ok T P" "model_in P h" "cell h i = Inr c" "fits T d (row_at (lh_model h) c)"
  shows "\<exists>ex. write_slot T i d h = (Inr (), put_row h (fst c) (snd c) ex) \<and> expert_in P ex
    \<and> expert_like T ex (row_at (lh_model h) c) \<and> (\<forall>e. expert_in P e \<longrightarrow> d = expert_dict e \<longrightarrow> ex = e)"
proof -
  let ?ex = "row_at (lh_model h) c"
  note place = slot_place_cell [OF assms(3)]
  have ex: "P (ex_gate ?ex)" "P (ex_up ?ex)" "P (ex_down ?ex)" using assms(2) place(2) unfolding model_in_def expert_in_def by blast+
  obtain e where e: "map_of d ''gate'' = Some (ex_gate e)" "map_of d ''up'' = Some (ex_up e)" "map_of d ''down'' = Some (ex_down e)"
      "expert_like T e ?ex" using assms(4) by (auto simp: fits_def)
  have copy: "\<exists>z. tn_copy T x y = Inr z \<and> P z \<and> tn_shape T z = tn_shape T x \<and> (P y \<longrightarrow> z = y)"
    if "P x" "tn_shape T y = tn_shape T x" for x y using assms(1) that unfolding tensors_ok_def by metis
  obtain g where g: "tn_copy T (ex_gate ?ex) (ex_gate e) = Inr g" "P g" "tn_shape T g = tn_shape T (ex_gate ?ex)"
      "P (ex_gate e) \<longrightarrow> g = ex_gate e" using copy [OF ex(1)] e(4) by (auto simp: expert_like_def)
  obtain u where u: "tn_copy T (ex_up ?ex) (ex_up e) = Inr u" "P u" "tn_shape T u = tn_shape T (ex_up ?ex)"
      "P (ex_up e) \<longrightarrow> u = ex_up e" using copy [OF ex(2)] e(4) by (auto simp: expert_like_def)
  obtain w where w: "tn_copy T (ex_down ?ex) (ex_down e) = Inr w" "P w" "tn_shape T w = tn_shape T (ex_down ?ex)"
      "P (ex_down e) \<longrightarrow> w = ex_down e" using copy [OF ex(3)] e(4) by (auto simp: expert_like_def)
  let ?new = "\<lparr>ex_gate = g, ex_up = u, ex_down = w\<rparr>"
  have "write_slot T i d h = (Inr (), put_row h (fst c) (snd c) ?new)"
    by (simp add: write_slot_def place(1) copy_part_def e(1-3) g(1) u(1) w(1))
  moreover have "e' = ?new" if "expert_in P e'" "d = expert_dict e'" for e'
    using that e(1-3) g(4) u(4) w(4) by (auto simp: expert_dict_def expert_in_def)
  ultimately show ?thesis using g u w by (intro exI [of _ ?new]) (auto simp: expert_in_def expert_like_def)
qed

end
