(* ===== verification/Lane_Replica.thy ===== *)
theory Lane_Replica
  imports Lane_Host
begin

text \<open>
  The replay of accepted records on a miner's replica
  (\<^verbatim>\<open>tools/sharddiloco_glm_contributor.py\<close>): the calls to the lane with their deadlines, the fold of
  one accepted record with the local re-gate, the copy-on-write shim that can undo it, and the check of
  the advertised roots. The lane is a parameter: each call has an answer that arrives after some time,
  or never.
\<close>

subsection \<open>The lane and its clock\<close>

text \<open>
  The answer to the \<open>n\<close>-th call, with the seconds it takes (\<open>None\<close>: it never comes): the manifest, a
  stored object by its hash, a delta by its cid. \<open>nw_lag n\<close> are the seconds that pass before the
  \<open>n\<close>-th reading of the clock, and \<open>nw_join_max\<close> is the longest timeout a thread can be joined with.
\<close>

record 'a lane_net =
  nw_manifest :: "nat \<Rightarrow> rat option \<times> (exn + (string, json) pydict)"
  nw_json :: "nat \<Rightarrow> json \<Rightarrow> rat option \<times> (exn + json)"
  nw_delta :: "nat \<Rightarrow> json \<Rightarrow> rat option \<times> (exn + 'a params)"
  nw_lag :: "nat \<Rightarrow> rat"
  nw_join_max :: rat

record net_state =
  ns_now :: rat
  ns_step :: nat
  ns_abandoned :: nat

datatype lane_fault = CatchupTimeout | Raised exn

definition read_clock :: "'a lane_net \<Rightarrow> net_state \<Rightarrow> rat \<times> net_state" where
  "read_clock L s =
     (let t = ns_now s + nw_lag L (ns_step s) in (t, s\<lparr>ns_now := t, ns_step := ns_step s + 1\<rparr>))"

text \<open>\<^verbatim>\<open>_DeadlineLane\<close>: the timeout of a call, and the deadline of them all.\<close>

record deadline_lane =
  dn_call_timeout :: xfloat
  dn_deadline :: "xfloat option"

definition lane_remaining :: "'a lane_net \<Rightarrow> deadline_lane \<Rightarrow> net_state \<Rightarrow> xfloat option \<times> net_state" where
  "lane_remaining L D s =
     (case dn_deadline D of
        None \<Rightarrow> (None, s)
      | Some e \<Rightarrow> (case read_clock L s of (t, s') \<Rightarrow> (Some (xsub e (XFin t)), s')))"

definition call_budget :: "deadline_lane \<Rightarrow> xfloat option \<Rightarrow> xfloat" where
  "call_budget D left = (case left of None \<Rightarrow> dn_call_timeout D
     | Some l \<Rightarrow> if xless l (dn_call_timeout D) then l else dn_call_timeout D)"

definition join_call :: "'a lane_net \<Rightarrow> xfloat \<Rightarrow> rat option \<times> (exn + 'v) \<Rightarrow> net_state \<Rightarrow> (lane_fault + 'v) \<times> net_state" where
  "join_call L budget reply s =
     (let s = s\<lparr>ns_step := ns_step s + 1\<rparr> in
      case budget of
        NaN \<Rightarrow> (Inl (Raised (ValueError ''Invalid value NaN'')), s)
      | PosInf \<Rightarrow> (Inl (Raised OverflowError), s)
      | NegInf \<Rightarrow> (Inl CatchupTimeout, s)
      | XFin b \<Rightarrow>
          if nw_join_max L < b then (Inl (Raised OverflowError), s)
          else (case reply of
            (Some d, r) \<Rightarrow>
              if d \<le> b then (map_sum Raised id r, s\<lparr>ns_now := ns_now s + d\<rparr>)
              else (Inl CatchupTimeout, s\<lparr>ns_now := ns_now s + b, ns_abandoned := ns_abandoned s + 1\<rparr>)
          | (None, r) \<Rightarrow> (Inl CatchupTimeout, s\<lparr>ns_now := ns_now s + b, ns_abandoned := ns_abandoned s + 1\<rparr>)))"

definition bounded_call ::
  "'a lane_net \<Rightarrow> deadline_lane \<Rightarrow> (nat \<Rightarrow> rat option \<times> (exn + 'v)) \<Rightarrow> net_state \<Rightarrow> (lane_fault + 'v) \<times> net_state" where
  "bounded_call L D reply s =
     (case lane_remaining L D s of (left, s') \<Rightarrow>
        (let budget = call_budget D left in
         if xle budget (XFin 0) then (Inl CatchupTimeout, s')
         else join_call L budget (reply (ns_step s')) s'))"

subsection \<open>The host, or a copy-on-write view of it\<close>

text \<open>\<open>sv_saved = None\<close> is the host itself; \<open>Some\<close> is \<^verbatim>\<open>_CowSlots\<close> with the slots it has saved.\<close>

record 'a slots_view =
  sv_host :: "'a lane_host"
  sv_saved :: "(nat, 'a params) pydict option"

definition view_write :: "'a tensors \<Rightarrow> nat \<Rightarrow> 'a params \<Rightarrow> 'a slots_view \<Rightarrow> (exn + unit) \<times> 'a slots_view" where
  "view_write T j d v =
     (case sv_saved v of
        None \<Rightarrow> (case write_slot T j d (sv_host v) of (r, h) \<Rightarrow> (r, v\<lparr>sv_host := h\<rparr>))
      | Some m \<Rightarrow>
          (case (if j \<in> set (dkeys m) then Inr m else bindE (read_slot (sv_host v) j) (\<lambda>old. Inr (dset j old m))) of
             Inl e \<Rightarrow> (Inl e, v)
           | Inr m' \<Rightarrow> (case write_slot T j d (sv_host v) of (r, h) \<Rightarrow> (r, \<lparr>sv_host = h, sv_saved = Some m'\<rparr>))))"

fun write_all :: "'a tensors \<Rightarrow> (nat \<times> 'a params) list \<Rightarrow> 'a lane_host \<Rightarrow> (exn + unit) \<times> 'a lane_host" where
  "write_all T [] h = (Inr (), h)"
| "write_all T ((j, d) # js) h =
     (case write_slot T j d h of (Inl e, h') \<Rightarrow> (Inl e, h') | (Inr _, h') \<Rightarrow> write_all T js h')"

definition rollback :: "'a tensors \<Rightarrow> 'a slots_view \<Rightarrow> (exn + unit) \<times> 'a lane_host" where
  "rollback T v = write_all T (case sv_saved v of None \<Rightarrow> [] | Some m \<Rightarrow> m) (sv_host v)"

subsection \<open>One accepted record\<close>

text \<open>\<^verbatim>\<open>ce_fn\<close>: none, the sentinel of a node without a trunk, or the held-out loss of a model.\<close>

datatype 'a regate = NoGate | GateUnavailable | Gate "'a moe_layer list \<Rightarrow> exn + xfloat"

text \<open>\<^verbatim>\<open>make_regate_ce\<close>\<close>

definition make_regate_ce :: "bool \<Rightarrow> nat \<Rightarrow> ('a moe_layer list \<Rightarrow> exn + xfloat) \<Rightarrow> 'a regate" where
  "make_regate_ce trunk_free n_val ce = (if trunk_free then GateUnavailable else if n_val = 0 then NoGate else Gate ce)"

definition xnum :: "xfloat \<Rightarrow> json" where
  "xnum x = (case x of XFin q \<Rightarrow> JNum (Fin q) | _ \<Rightarrow> JNum NonFin)"

text \<open>\<^verbatim>\<open>dict(item, **kw)\<close>\<close>

definition item_with :: "json \<Rightarrow> (string \<times> json) list \<Rightarrow> json" where
  "item_with item kvs = (case item of JObj old \<Rightarrow> JObj (foldl (\<lambda>d (k, v). dset k v d) old kvs) | _ \<Rightarrow> item)"

fun xabs :: "xfloat \<Rightarrow> xfloat" where
  "xabs (XFin q) = XFin \<bar>q\<bar>"
| "xabs NaN = NaN"
| "xabs _ = PosInf"

definition REGATE_TOL :: rat where "REGATE_TOL = rnd64 (5 / 100)"

text \<open>\<^verbatim>\<open>tol if tol is not None else max(0.05 * abs(base_ce), 0.05)\<close>\<close>

definition regate_allow :: "xfloat option \<Rightarrow> xfloat \<Rightarrow> xfloat" where
  "regate_allow tol base_ce = (case tol of Some t \<Rightarrow> t
     | None \<Rightarrow> let a = xmul (XFin REGATE_TOL) (xabs base_ce) in if xless a (XFin REGATE_TOL) then XFin REGATE_TOL else a)"

definition shapes_match :: "'a tensors \<Rightarrow> 'a params \<Rightarrow> 'a params \<Rightarrow> bool" where
  "shapes_match T cur d = list_all (\<lambda>(k, c). case map_of d k of None \<Rightarrow> False | Some x \<Rightarrow> tn_shape T x = tn_shape T c) cur"

text \<open>\<^verbatim>\<open>{k: cur[k] + outer * d[k] for k in cur}\<close>\<close>

definition stepped :: "'a tensors \<Rightarrow> pyfloat \<Rightarrow> 'a params \<Rightarrow> 'a params \<Rightarrow> 'a params" where
  "stepped T outer cur d = map (\<lambda>(k, c). (k, case map_of d k of None \<Rightarrow> c | Some x \<Rightarrow> tn_step T c outer x)) cur"

record 'a fold_state =
  fo_view :: "'a slots_view"
  fo_net :: net_state
  fo_count :: nat
  fo_rejected :: "json list"
  fo_skipped :: "json list"
  fo_folded :: "nat set"

definition OUTER_DEFAULT :: pyfloat where "OUTER_DEFAULT = Fin (rnd64 (7 / 10))"

text \<open>The weights \<^verbatim>\<open>cur\<close> holds after the write: the arrays of an aliasing host follow the model.\<close>

definition cur_after :: "'a lane_host \<Rightarrow> nat \<Rightarrow> 'a params \<Rightarrow> 'a params" where
  "cur_after h slot cur = (if lh_aliases h then (case read_slot h slot of Inr now \<Rightarrow> now | Inl e \<Rightarrow> cur) else cur)"

text \<open>The write of a row whose delta fits, with the local re-gate.\<close>

definition fold_row ::
  "'a tensors \<Rightarrow> 'a regate \<Rightarrow> xfloat option \<Rightarrow> int option \<Rightarrow> json \<Rightarrow> nat \<Rightarrow> pyfloat \<Rightarrow> 'a params \<Rightarrow> 'a params
     \<Rightarrow> 'a fold_state \<Rightarrow> (exn + unit) \<times> 'a fold_state" where
  "fold_row T gate tol own item slot outer cur d s =
     (let own_row = (own = None \<or> own = Some (int slot));
          folded = (\<lambda>s. s\<lparr>fo_folded := insert slot (fo_folded s), fo_count := fo_count s + 1\<rparr>);
          write = (\<lambda>d s. case view_write T slot d (fo_view s) of (r, v) \<Rightarrow> (r, s\<lparr>fo_view := v\<rparr>)) in
      case (if own_row then gate else NoGate) of
        Gate ce \<Rightarrow>
          (case ce (lh_model (sv_host (fo_view s))) of
             Inl e \<Rightarrow> (Inl e, s)
           | Inr base_ce \<Rightarrow>
               (case write (stepped T outer cur d) s of
                  (Inl e, s1) \<Rightarrow> (Inl e, s1)
                | (Inr _, s1) \<Rightarrow>
                    (case ce (lh_model (sv_host (fo_view s1))) of
                       Inl e \<Rightarrow> (Inl e, s1)
                     | Inr new_ce \<Rightarrow>
                         if xless (xadd base_ce (regate_allow tol base_ce)) new_ce
                         then (case write (cur_after (sv_host (fo_view s1)) slot cur) s1 of
                                 (Inl e, s2) \<Rightarrow> (Inl e, s2)
                               | (Inr _, s2) \<Rightarrow> (Inr (), s2\<lparr>fo_rejected := fo_rejected s2 @
                                   [item_with item [(''base_ce'', xnum base_ce), (''new_ce'', xnum new_ce)]]\<rparr>))
                         else (Inr (), folded s1))))
      | _ \<Rightarrow>
          (case write (stepped T outer cur d) s of
             (Inl e, s1) \<Rightarrow> (Inl e, s1)
           | (Inr _, s1) \<Rightarrow> (Inr (), folded s1)))"

text \<open>\<^verbatim>\<open>float(v)\<close>\<close>

definition py_float :: "json \<Rightarrow> exn + pyfloat" where
  "py_float v = (case v of JStr _ \<Rightarrow> Inl (ValueError ''could not convert string to float'') | _ \<Rightarrow> orE TypeError (jfloat v))"

text \<open>One row: its slot, its strength and its delta, materialised and compared with the slot.\<close>

definition apply_row ::
  "'a tensors \<Rightarrow> (json \<Rightarrow> net_state \<Rightarrow> (lane_fault + 'a params) \<times> net_state) \<Rightarrow> 'a regate \<Rightarrow> xfloat option \<Rightarrow> int option
     \<Rightarrow> json \<Rightarrow> 'a fold_state \<Rightarrow> (lane_fault + unit) \<times> 'a fold_state" where
  "apply_row T fetch gate tol own item s =
     (case resolve_accepted_slot (sv_host (fo_view s)) item of
        Inl e \<Rightarrow> (Inl (Raised e), s)
      | Inr None \<Rightarrow> (Inr (), s\<lparr>fo_skipped := fo_skipped s @ [item_with item [(''reason'', JStr ''unknown-coordinate'')]]\<rparr>)
      | Inr (Some slot) \<Rightarrow>
          (case bindE (case jindex item ''outer'' of None \<Rightarrow> Inr OUTER_DEFAULT | Some v \<Rightarrow> py_float v)
                  (\<lambda>outer. bindE (getE item ''cid'') (\<lambda>cid. Inr (outer, cid))) of
             Inl e \<Rightarrow> (Inl (Raised e), s)
           | Inr (outer, cid) \<Rightarrow>
               (case fetch cid (fo_net s) of (r, net) \<Rightarrow>
                 (let s = s\<lparr>fo_net := net\<rparr> in
                  case r of
                    Inl f \<Rightarrow> (Inl f, s)
                  | Inr payload \<Rightarrow>
                      (case bindE (if is_lora_payload payload then materialize_from_lora T payload else Inr payload)
                              (\<lambda>d. bindE (read_slot (sv_host (fo_view s)) slot) (\<lambda>cur. Inr (d, cur))) of
                         Inl e \<Rightarrow> (Inl (Raised e), s)
                       | Inr (d, cur) \<Rightarrow>
                           if \<not> shapes_match T cur d
                           then (Inr (), s\<lparr>fo_rejected := fo_rejected s @ [item_with item [(''reason'', JStr ''shape-mismatch'')]]\<rparr>)
                           else (case fold_row T gate tol own item slot outer cur d s of
                                   (r, s') \<Rightarrow> (map_sum Raised id r, s')))))))"

fun apply_rows ::
  "'a tensors \<Rightarrow> (json \<Rightarrow> net_state \<Rightarrow> (lane_fault + 'a params) \<times> net_state) \<Rightarrow> 'a regate \<Rightarrow> xfloat option \<Rightarrow> int option
     \<Rightarrow> json list \<Rightarrow> 'a fold_state \<Rightarrow> (lane_fault + unit) \<times> 'a fold_state" where
  "apply_rows T fetch gate tol own [] s = (Inr (), s)"
| "apply_rows T fetch gate tol own (it # its) s =
     (case apply_row T fetch gate tol own it s of
        (Inl f, s') \<Rightarrow> (Inl f, s')
      | (Inr _, s') \<Rightarrow> apply_rows T fetch gate tol own its s')"

definition apply_accepted ::
  "'a tensors \<Rightarrow> (json \<Rightarrow> net_state \<Rightarrow> (lane_fault + 'a params) \<times> net_state) \<Rightarrow> 'a regate \<Rightarrow> xfloat option \<Rightarrow> int option
     \<Rightarrow> json \<Rightarrow> 'a slots_view \<Rightarrow> net_state \<Rightarrow> (lane_fault + unit) \<times> 'a fold_state" where
  "apply_accepted T fetch gate tol own record v net =
     (let s = \<lparr>fo_view = v, fo_net = net, fo_count = 0, fo_rejected = [], fo_skipped = [], fo_folded = {}\<rparr> in
      case bindE (py_get record ''accepted'' (JList [])) py_iter of
        Inl e \<Rightarrow> (Inl (Raised e), s)
      | Inr items \<Rightarrow> apply_rows T fetch gate tol own items s)"

subsection \<open>The advertised roots\<close>

text \<open>The resident slots that a record advertises, with their roots; a key that is no coordinate, or one
  that is not resident, is passed over.\<close>

fun advertised :: "'a lane_host \<Rightarrow> (string \<times> json) list \<Rightarrow> (nat, json) pydict \<Rightarrow> (nat, json) pydict" where
  "advertised h [] m = m"
| "advertised h ((key, want) # kvs) m =
     (case partition_on CHR ''_'' key of (l, _, e) \<Rightarrow>
        (case bindE (text_int l) (\<lambda>li. bindE (text_int e) (\<lambda>ei. Inr (li, ei))) of
           Inl _ \<Rightarrow> advertised h kvs m
         | Inr c \<Rightarrow> (case index_of h c of None \<Rightarrow> advertised h kvs m | Some i \<Rightarrow> advertised h kvs (dset i want m))))"

fun roots_match :: "world \<Rightarrow> 'a tensors \<Rightarrow> 'a lane_host \<Rightarrow> (nat \<times> json) list \<Rightarrow> exn + bool" where
  "roots_match W T h [] = Inr True"
| "roots_match W T h ((i, want) # rest) =
     bindE (slot_root W T h i) (\<lambda>r. if r \<noteq> str_of W want then Inr False else roots_match W T h rest)"

definition replica_root_ok :: "world \<Rightarrow> 'a tensors \<Rightarrow> 'a lane_host \<Rightarrow> json \<Rightarrow> nat set \<Rightarrow> exn + bool" where
  "replica_root_ok W T h rec folded =
     bindE (py_get rec ''slot_roots'' JNull) (\<lambda>sr.
       case sr of
         JObj (kv # kvs) \<Rightarrow>
           (let adv = advertised h (kv # kvs) [] in
            bindE (roots_match W T h adv) (\<lambda>same. Inr (same \<and> folded \<subseteq> set (dkeys adv))))
       | _ \<Rightarrow>
           bindE (py_get rec ''model_root'' JNull) (\<lambda>want.
             if want = JNull then Inr True else bindE (model_root W T h) (\<lambda>r. Inr (r = str_of W want))))"

subsection \<open>The checked fold\<close>

datatype fold_outcome = FoldOk | FoldPoison "json list" | FoldLineage

definition fold_accepted_checked ::
  "world \<Rightarrow> 'a tensors \<Rightarrow> (json \<Rightarrow> net_state \<Rightarrow> (lane_fault + 'a params) \<times> net_state) \<Rightarrow> 'a regate \<Rightarrow> int option
     \<Rightarrow> json \<Rightarrow> 'a lane_host \<Rightarrow> net_state \<Rightarrow> (lane_fault + fold_outcome) \<times> 'a lane_host \<times> net_state" where
  "fold_accepted_checked W T fetch gate own rec h net =
     (case apply_accepted T fetch gate None own rec \<lparr>sv_host = h, sv_saved = Some []\<rparr> net of
        (Inl f, s) \<Rightarrow>
          (case rollback T (fo_view s) of
             (Inl e, h') \<Rightarrow> (Inl (Raised e), h', fo_net s)
           | (Inr _, h') \<Rightarrow> (Inl f, h', fo_net s))
      | (Inr _, s) \<Rightarrow>
          (let h1 = sv_host (fo_view s) in
           if fo_rejected s \<noteq> [] then (Inr (FoldPoison (fo_rejected s)), h1, fo_net s)
           else (case replica_root_ok W T h1 rec (fo_folded s) of
                   Inl e \<Rightarrow> (Inl (Raised e), h1, fo_net s)
                 | Inr True \<Rightarrow> (Inr FoldOk, h1, fo_net s)
                 | Inr False \<Rightarrow>
                     (case rollback T (fo_view s) of
                        (Inl e, h') \<Rightarrow> (Inl (Raised e), h', fo_net s)
                      | (Inr _, h') \<Rightarrow> (Inr FoldLineage, h', fo_net s)))))"

end
