(* ===== verification/Lane_Replica_Facts.thy ===== *)
theory Lane_Replica_Facts
  imports Lane_Host_Facts Lane_Replica
begin

text \<open>
  Why the fold of an accepted record can always be undone: while rows are folded, the copy-on-write view
  holds the old weights of every slot it has written, and the host differs from the old one in those
  slots only. What is assumed of the host: its slots are readable, no two of them are one row of the
  model, and the weights are of the model's number type.
\<close>

declare split_paired_All [simp del] split_paired_Ex [simp del]

subsection \<open>Hosts that differ in some cells\<close>

definition host_ok :: "('a \<Rightarrow> bool) \<Rightarrow> 'a lane_host \<Rightarrow> bool" where
  "host_ok P h \<longleftrightarrow> model_in P h \<and> (\<forall>i < length (lh_slots h). \<exists>c. cell h i = Inr c)
     \<and> (\<forall>i j c. cell h i = Inr c \<longrightarrow> cell h j = Inr c \<longrightarrow> i = j)
     \<and> (\<forall>c i. index_of h c = Some i \<longrightarrow> i < length (lh_slots h))"

definition slot_cells :: "'a lane_host \<Rightarrow> (nat \<times> nat) set" where
  "slot_cells h = {c. \<exists>i. cell h i = Inr c}"

definition agree_off :: "'a tensors \<Rightarrow> ('a \<Rightarrow> bool) \<Rightarrow> 'a lane_host \<Rightarrow> 'a lane_host \<Rightarrow> (nat \<times> nat) set \<Rightarrow> bool" where
  "agree_off T P h h0 S \<longleftrightarrow> same_frame h0 h \<and> model_in P h
     \<and> (\<forall>c. is_cell (lh_model h0) c \<longrightarrow> expert_like T (row_at (lh_model h) c) (row_at (lh_model h0) c))
     \<and> (\<forall>c. is_cell (lh_model h0) c \<longrightarrow> c \<notin> S \<longrightarrow> row_at (lh_model h) c = row_at (lh_model h0) c)"

lemma agree_refl: "model_in P h \<Longrightarrow> agree_off T P h h S"
  by (simp add: agree_off_def)

lemma agree_mono: "agree_off T P h h0 S \<Longrightarrow> S \<subseteq> S' \<Longrightarrow> agree_off T P h h0 S'"
  by (auto simp: agree_off_def)

lemma agree_trans:
  assumes "agree_off T P h2 h1 S" "agree_off T P h1 h0 S"
  shows "agree_off T P h2 h0 S"
proof -
  have frames: "same_frame h0 h1" "same_frame h1 h2" using assms by (simp_all add: agree_off_def)
  have cells: "is_cell (lh_model h1) c = is_cell (lh_model h0) c" for c by (rule is_cell_frame [OF frames(1)])
  show ?thesis using assms same_frame_trans [OF frames] unfolding agree_off_def cells
    by (metis expert_like_trans)
qed

lemma agree_eq: "agree_off T P h h0 {} \<Longrightarrow> h = h0"
  by (rule model_ext) (auto simp: agree_off_def)

lemma slot_cells_frame: "same_frame h h' \<Longrightarrow> slot_cells h' = slot_cells h"
  by (simp add: slot_cells_def cell_frame)

lemma host_ok_agree:
  assumes "host_ok P h0" "agree_off T P h h0 S"
  shows "host_ok P h"
proof -
  have f: "same_frame h0 h" and m: "model_in P h" using assms(2) by (simp_all add: agree_off_def)
  show ?thesis using assms(1) m unfolding host_ok_def cell_frame [OF f] frame_fields(1) [OF f] frame_index [OF f] by blast
qed

lemma put_agree:
  assumes "agree_off T P h h0 S" "is_cell (lh_model h0) c" "expert_in P ex" "expert_like T ex (row_at (lh_model h0) c)"
  shows "agree_off T P (put_row h (fst c) (snd c) ex) h0 (insert c S)"
    "ex = row_at (lh_model h0) c \<Longrightarrow> agree_off T P (put_row h (fst c) (snd c) ex) h0 (S - {c})"
proof -
  let ?h = "put_row h (fst c) (snd c) ex"
  have f: "same_frame h0 h" using assms(1) by (simp add: agree_off_def)
  have c: "is_cell (lh_model h) (fst c, snd c)" using assms(2) is_cell_frame [OF f] by simp
  note frame = same_frame_trans [OF f put_row_frame [OF c]]
  have row: "row_at (lh_model ?h) c' = (if c' = c then ex else row_at (lh_model h) c')" for c'
    using put_row_at [OF c] by simp
  have cells: "is_cell (lh_model ?h) c' = is_cell (lh_model h) c'" for c' by (rule is_cell_frame [OF put_row_frame [OF c]])
  have m: "model_in P ?h" using assms(1,3) unfolding agree_off_def model_in_def row cells by auto
  have like: "is_cell (lh_model h0) c' \<Longrightarrow> expert_like T (row_at (lh_model ?h) c') (row_at (lh_model h0) c')" for c'
    using assms(1,4) unfolding agree_off_def row by auto
  show "agree_off T P ?h h0 (insert c S)" using assms(1) frame m like unfolding agree_off_def [of T P ?h] row
    by (auto simp: agree_off_def)
  show "agree_off T P ?h h0 (S - {c})" if "ex = row_at (lh_model h0) c"
    using assms(1) frame m like that unfolding agree_off_def [of T P ?h] row by (auto simp: agree_off_def)
qed

subsection \<open>Writing and restoring\<close>

definition saved_rows :: "'a lane_host \<Rightarrow> (nat \<times> 'a params) list \<Rightarrow> bool" where
  "saved_rows h0 m \<longleftrightarrow> (\<forall>(j, d) \<in> set m. \<exists>c. cell h0 j = Inr c \<and> d = expert_dict (row_at (lh_model h0) c))"

definition cells_of :: "'a lane_host \<Rightarrow> (nat \<times> 'a params) list \<Rightarrow> (nat \<times> nat) set" where
  "cells_of h0 m = {c. \<exists>j \<in> set (dkeys m). cell h0 j = Inr c}"

lemma write_agree:
  assumes "tensors_ok T P" "agree_off T P h h0 S" "cell h0 j = Inr c" "fits T d (row_at (lh_model h0) c)"
  shows "\<exists>ex. write_slot T j d h = (Inr (), put_row h (fst c) (snd c) ex) \<and> expert_in P ex
    \<and> expert_like T ex (row_at (lh_model h0) c) \<and> is_cell (lh_model h0) c \<and> is_cell (lh_model h) c
    \<and> (\<forall>e. expert_in P e \<longrightarrow> d = expert_dict e \<longrightarrow> ex = e)"
proof -
  have f: "same_frame h0 h" and m: "model_in P h" using assms(2) by (simp_all add: agree_off_def)
  have c: "is_cell (lh_model h0) c" using slot_place_cell(2) [OF assms(3)] .
  have like: "expert_like T (row_at (lh_model h) c) (row_at (lh_model h0) c)" using assms(2) c by (simp add: agree_off_def)
  then have "fits T d (row_at (lh_model h) c)" using assms(4) by (auto simp: fits_def expert_like_def)
  moreover have "cell h j = Inr c" using assms(3) cell_frame [OF f] by simp
  ultimately obtain ex where ex: "write_slot T j d h = (Inr (), put_row h (fst c) (snd c) ex)" "expert_in P ex"
      "expert_like T ex (row_at (lh_model h) c)" "\<forall>e. expert_in P e \<longrightarrow> d = expert_dict e \<longrightarrow> ex = e"
    using write_slot_fits [OF assms(1) m] by blast
  have "is_cell (lh_model h) c" using c is_cell_frame [OF f] by simp
  then show ?thesis using ex c expert_like_trans [OF ex(3) like] by blast
qed

lemma write_all_restores:
  assumes "tensors_ok T P" "model_in P h0" "saved_rows h0 m" "agree_off T P h h0 (cells_of h0 m)"
  shows "write_all T m h = (Inr (), h0)"
  using assms(3,4)
proof (induction m arbitrary: h)
  case Nil
  then show ?case using agree_eq by (auto simp: cells_of_def)
next
  case (Cons jd m)
  obtain j d where jd: "jd = (j, d)" by fastforce
  obtain c where c: "cell h0 j = Inr c" "d = expert_dict (row_at (lh_model h0) c)" using Cons.prems(1) jd by (auto simp: saved_rows_def)
  have fit: "fits T d (row_at (lh_model h0) c)" unfolding c(2) by (rule fits_dict) simp
  have ein: "expert_in P (row_at (lh_model h0) c)" using assms(2) slot_place_cell(2) [OF c(1)] unfolding model_in_def by blast
  obtain ex where ex: "write_slot T j d h = (Inr (), put_row h (fst c) (snd c) ex)" "expert_in P ex"
      "expert_like T ex (row_at (lh_model h0) c)" "is_cell (lh_model h0) c" "ex = row_at (lh_model h0) c"
    using write_agree [OF assms(1) Cons.prems(2) c(1) fit] ein c(2) by blast
  have "agree_off T P (put_row h (fst c) (snd c) ex) h0 (cells_of h0 (jd # m) - {c})"
    using put_agree(2) [OF Cons.prems(2) ex(4,2,3,5)] .
  moreover have "cells_of h0 (jd # m) - {c} \<subseteq> cells_of h0 m" using c(1) jd by (auto simp: cells_of_def)
  ultimately have "agree_off T P (put_row h (fst c) (snd c) ex) h0 (cells_of h0 m)" by (rule agree_mono)
  moreover have "saved_rows h0 m" using Cons.prems(1) by (simp add: saved_rows_def)
  ultimately show ?case using Cons.IH ex(1) jd by simp
qed

definition view_ok :: "'a tensors \<Rightarrow> ('a \<Rightarrow> bool) \<Rightarrow> 'a lane_host \<Rightarrow> 'a slots_view \<Rightarrow> bool" where
  "view_ok T P h0 v \<longleftrightarrow> (\<exists>m. sv_saved v = Some m \<and> saved_rows h0 m \<and> agree_off T P (sv_host v) h0 (cells_of h0 m))"

lemma view_agree: "view_ok T P h0 v \<Longrightarrow> agree_off T P (sv_host v) h0 (slot_cells h0)"
  unfolding view_ok_def by (elim exE conjE, erule agree_mono) (auto simp: cells_of_def slot_cells_def)

lemma rollback_restores: "tensors_ok T P \<Longrightarrow> model_in P h0 \<Longrightarrow> view_ok T P h0 v \<Longrightarrow> rollback T v = (Inr (), h0)"
  by (auto simp: view_ok_def rollback_def intro: write_all_restores)

lemma set_dset: "set (dset k v d) \<subseteq> insert (k, v) (set d)"
  by (induction d) auto

lemma view_write_ok:
  assumes "tensors_ok T P" "host_ok P h0" "view_ok T P h0 v" "cell h0 j = Inr c" "fits T d (row_at (lh_model h0) c)"
  shows "\<exists>v'. view_write T j d v = (Inr (), v') \<and> view_ok T P h0 v'
    \<and> (\<forall>c'. c' \<noteq> c \<longrightarrow> row_at (lh_model (sv_host v')) c' = row_at (lh_model (sv_host v)) c')"
proof -
  obtain m where m: "sv_saved v = Some m" "saved_rows h0 m" "agree_off T P (sv_host v) h0 (cells_of h0 m)"
    using assms(3) by (auto simp: view_ok_def)
  have f: "same_frame h0 (sv_host v)" using m(3) by (simp add: agree_off_def)
  have cell: "cell (sv_host v) j = Inr c" using assms(4) cell_frame [OF f] by simp
  obtain ex where ex: "write_slot T j d (sv_host v) = (Inr (), put_row (sv_host v) (fst c) (snd c) ex)" "expert_in P ex"
      "expert_like T ex (row_at (lh_model h0) c)" "is_cell (lh_model h0) c" "is_cell (lh_model (sv_host v)) c"
    using write_agree [OF assms(1) m(3) assms(4,5)] by blast
  let ?h = "put_row (sv_host v) (fst c) (snd c) ex"
  have other: "row_at (lh_model ?h) c' = row_at (lh_model (sv_host v)) c'" if "c' \<noteq> c" for c'
    using put_row_at [of "sv_host v" "fst c" "snd c" ex c'] ex(5) that by simp
  define m' where "m' = (if j \<in> set (dkeys m) then m else dset j (expert_dict (row_at (lh_model (sv_host v)) c)) m)"
  have keys: "set (dkeys m') = insert j (set (dkeys m))" by (auto simp: m'_def dkeys_dset simp del: set_map)
  have "saved_rows h0 m'"
  proof (cases "j \<in> set (dkeys m)")
    case False
    have "j' = j" if "cell h0 j' = Inr c" for j' using that assms(2,4) unfolding host_ok_def by blast
    then have "c \<notin> cells_of h0 m" using False unfolding cells_of_def by blast
    then have "row_at (lh_model (sv_host v)) c = row_at (lh_model h0) c" using m(3) ex(4) by (simp add: agree_off_def)
    then show ?thesis using m(2) assms(4) False
        set_dset [of j "expert_dict (row_at (lh_model h0) c)" m] by (auto simp: m'_def saved_rows_def)
  qed (use m(2) in \<open>simp add: m'_def\<close>)
  moreover have "cells_of h0 m' = insert c (cells_of h0 m)" using assms(4) unfolding cells_of_def keys by auto
  then have "agree_off T P ?h h0 (cells_of h0 m')" using put_agree(1) [OF m(3) ex(4,2,3)] by simp
  ultimately have "view_ok T P h0 \<lparr>sv_host = ?h, sv_saved = Some m'\<rparr>" by (simp add: view_ok_def)
  moreover have "view_write T j d v = (Inr (), \<lparr>sv_host = ?h, sv_saved = Some m'\<rparr>)"
    using ex(1) m(1) read_cell [OF cell] by (simp add: view_write_def m'_def)
  ultimately show ?thesis using other by auto
qed

subsection \<open>The rows of a record\<close>

lemma shapes_match_fits:
  assumes "shapes_match T (expert_dict e) d"
  shows "tensors_ok T P \<Longrightarrow> fits T (stepped T o' (expert_dict e) d) e"
proof -
  assume ok: "tensors_ok T P"
  obtain g u w where d: "map_of d ''gate'' = Some g" "map_of d ''up'' = Some u" "map_of d ''down'' = Some w"
      "tn_shape T g = tn_shape T (ex_gate e)" "tn_shape T u = tn_shape T (ex_up e)" "tn_shape T w = tn_shape T (ex_down e)"
    using assms by (auto simp: shapes_match_def expert_dict_def split: option.splits)
  let ?e = "\<lparr>ex_gate = tn_step T (ex_gate e) o' g, ex_up = tn_step T (ex_up e) o' u, ex_down = tn_step T (ex_down e) o' w\<rparr>"
  have "expert_like T ?e e" using ok d(4-6) unfolding tensors_ok_def expert_like_def by (metis expert.select_convs)
  moreover have "stepped T o' (expert_dict e) d = expert_dict ?e" by (simp add: stepped_def expert_dict_def d)
  ultimately show ?thesis using fits_dict [of T ?e e] by simp
qed

definition fold_inv :: "'a tensors \<Rightarrow> ('a \<Rightarrow> bool) \<Rightarrow> 'a lane_host \<Rightarrow> 'a fold_state \<Rightarrow> bool" where
  "fold_inv T P h0 s \<longleftrightarrow> view_ok T P h0 (fo_view s)
     \<and> (fo_rejected s = [] \<longrightarrow> (\<forall>i c. cell h0 i = Inr c \<longrightarrow>
          row_at (lh_model (sv_host (fo_view s))) c \<noteq> row_at (lh_model h0) c \<longrightarrow> i \<in> fo_folded s))"

lemma fold_row_inv:
  assumes "tensors_ok T P" "host_ok P h0" "fold_inv T P h0 s" "cell h0 slot = Inr c"
    "shapes_match T (expert_dict (row_at (lh_model (sv_host (fo_view s))) c)) d"
    "fold_row T gate tol own item slot o' (expert_dict (row_at (lh_model (sv_host (fo_view s))) c)) d s = (r, s')"
  shows "view_ok T P h0 (fo_view s') \<and> (r = Inr u \<longrightarrow> fold_inv T P h0 s')"
proof -
  let ?v = "fo_view s" and ?e = "row_at (lh_model (sv_host (fo_view s))) c"
  let ?new = "stepped T o' (expert_dict ?e) d"
  have v: "view_ok T P h0 ?v" using assms(3) by (simp add: fold_inv_def)
  have like: "expert_like T (row_at (lh_model (sv_host w)) c) (row_at (lh_model h0) c)" if "view_ok T P h0 w" for w
    using view_agree [OF that] slot_place_cell(2) [OF assms(4)] by (simp add: agree_off_def)
  have fit: "fits T ?new (row_at (lh_model h0) c)"
    using shapes_match_fits [OF assms(5,1)] like [OF v] by (auto simp: fits_def expert_like_def)
  obtain v1 where v1: "view_write T slot ?new ?v = (Inr (), v1)" "view_ok T P h0 v1"
      "\<forall>c'. c' \<noteq> c \<longrightarrow> row_at (lh_model (sv_host v1)) c' = row_at (lh_model (sv_host ?v)) c'"
    using view_write_ok [OF assms(1,2) v assms(4) fit] by blast
  have folded: "fold_inv T P h0 (s\<lparr>fo_view := v1, fo_folded := insert slot (fo_folded s), fo_count := fo_count s + 1\<rparr>)"
    using assms(2-4) v1(2,3) unfolding fold_inv_def host_ok_def by (auto, metis)
  have frame1: "cell (sv_host v1) slot = Inr c" using view_agree [OF v1(2)] assms(4) by (auto simp: agree_off_def cell_frame)
  have undo: "fits T (cur_after (sv_host v1) slot (expert_dict ?e)) (row_at (lh_model h0) c)"
    using like [OF v] like [OF v1(2)] read_cell [OF frame1] by (simp add: cur_after_def fits_dict)
  show ?thesis
  proof (cases "if own = None \<or> own = Some (int slot) then gate else NoGate")
    case (Gate ce)
    show ?thesis
    proof (cases "ce (lh_model (sv_host ?v))")
      case (Inr base)
      obtain v2 where v2: "view_write T slot (cur_after (sv_host v1) slot (expert_dict ?e)) v1 = (Inr (), v2)" "view_ok T P h0 v2"
        using view_write_ok [OF assms(1,2) v1(2) assms(4) undo] by blast
      show ?thesis
      proof (cases "ce (lh_model (sv_host v1))")
        case (Inl e)
        then show ?thesis using assms(6) Gate \<open>ce (lh_model (sv_host ?v)) = Inr base\<close> v1(1,2)
          by (auto simp: fold_row_def Let_def)
      next
        case (Inr new)
        then show ?thesis using assms(6) Gate \<open>ce (lh_model (sv_host ?v)) = Inr base\<close> v1(1,2) v2 folded
          by (auto simp: fold_row_def Let_def fold_inv_def split: if_splits)
      qed
    qed (use assms(3,6) Gate v in \<open>auto simp: fold_row_def Let_def\<close>)
  qed (use assms(6) v1 folded in \<open>auto simp: fold_row_def Let_def fold_inv_def\<close>)
qed

lemma resolved_slot:
  assumes "host_ok P h" "resolve_accepted_slot h item = Inr (Some i)"
  shows "\<exists>c. cell h i = Inr c"
proof -
  have "i < length (lh_slots h)" using assms
    by (auto simp: resolve_accepted_slot_def bindE_Inr_iff host_ok_def split: if_splits option.splits)
  then show ?thesis using assms(1) by (simp add: host_ok_def)
qed

lemma apply_row_inv:
  assumes "tensors_ok T P" "host_ok P h0" "fold_inv T P h0 s" "apply_row T fetch gate tol own item s = (r, s')"
  shows "view_ok T P h0 (fo_view s') \<and> (r = Inr u \<longrightarrow> fold_inv T P h0 s')"
proof -
  let ?h = "sv_host (fo_view s)"
  have v: "view_ok T P h0 (fo_view s)" using assms(3) by (simp add: fold_inv_def)
  have h: "host_ok P ?h" by (rule host_ok_agree [OF assms(2) view_agree [OF v]])
  have f: "same_frame h0 ?h" using view_agree [OF v] by (simp add: agree_off_def)
  have skip: "fold_inv T P h0 (s\<lparr>fo_skipped := x\<rparr>)" "fold_inv T P h0 (s\<lparr>fo_net := n\<rparr>)"
    "fold_inv T P h0 (s\<lparr>fo_net := n, fo_rejected := y @ [z]\<rparr>)" for x n y z
    using assms(3) by (simp_all add: fold_inv_def)
  show ?thesis
  proof (cases "resolve_accepted_slot ?h item")
    case (Inl e)
    then show ?thesis using assms(4) v by (auto simp: apply_row_def)
  next
    case (Inr found)
    show ?thesis
    proof (cases found)
      case None
      then show ?thesis using assms(4) v Inr skip(1) by (auto simp: apply_row_def)
    next
      case (Some slot)
      obtain c where c: "cell ?h slot = Inr c" using resolved_slot [OF h] Inr Some by blast
      then have c0: "cell h0 slot = Inr c" using cell_frame [OF f] by simp
      note read = read_cell [OF c]
      define args where "args = bindE (case jindex item ''outer'' of None \<Rightarrow> Inr OUTER_DEFAULT | Some v \<Rightarrow> py_float v)
        (\<lambda>outer. bindE (getE item ''cid'') (\<lambda>cid. Inr (outer, cid)))"
      note run = assms(4) [unfolded apply_row_def Inr Some sum.case option.case, folded args_def]
      show ?thesis
      proof (cases args)
        case (Inl e)
        then show ?thesis using run v by auto
      next
        case args: (Inr oc)
        obtain o' cid where oc: "oc = (o', cid)" by fastforce
        obtain ans net where ans: "fetch cid (fo_net s) = (ans, net)" by fastforce
        note run = run [unfolded args oc sum.case prod.case ans Let_def]
        let ?s = "s\<lparr>fo_net := net\<rparr>"
        have inv: "fold_inv T P h0 ?s" "fo_view ?s = fo_view s" using skip(2) by simp_all
        show ?thesis
        proof (cases ans)
          case (Inl fault)
          then show ?thesis using run v by auto
        next
          case (Inr payload)
          note run = run [unfolded Inr sum.case]
          define d where "d = (if is_lora_payload payload then materialize_from_lora T payload else Inr payload)"
          note run = run [folded d_def, unfolded inv(2) read]
          show ?thesis
          proof (cases d)
            case (Inl e)
            then show ?thesis using run v by auto
          next
            case (Inr dd)
            note run = run [unfolded Inr bindE_simps sum.case prod.case]
            show ?thesis
            proof (cases "shapes_match T (expert_dict (row_at (lh_model ?h) c)) dd")
              case True
              obtain r1 s1 where row: "fold_row T gate tol own item slot o' (expert_dict (row_at (lh_model ?h) c)) dd ?s = (r1, s1)"
                by fastforce
              have "view_ok T P h0 (fo_view s1) \<and> (r1 = Inr () \<longrightarrow> fold_inv T P h0 s1)"
                using fold_row_inv [OF assms(1,2) inv(1) c0, of dd gate tol own item o' r1 s1 "()"] True row by simp
              then show ?thesis using run True row by (cases r1) auto
            next
              case False
              then show ?thesis using run v skip(3) by auto
            qed
          qed
        qed
      qed
    qed
  qed
qed

lemma apply_rows_inv:
  assumes "tensors_ok T P" "host_ok P h0"
  shows "fold_inv T P h0 s \<Longrightarrow> apply_rows T fetch gate tol own items s = (r, s') \<Longrightarrow>
    view_ok T P h0 (fo_view s') \<and> (r = Inr u \<longrightarrow> fold_inv T P h0 s')"
proof (induction items arbitrary: s)
  case (Cons it its)
  obtain r1 s1 where row: "apply_row T fetch gate tol own it s = (r1, s1)" by fastforce
  note inv = apply_row_inv [OF assms Cons.prems(1) row, of "()"]
  show ?case using Cons.prems(2) Cons.IH [of s1] inv row by (cases r1) auto
qed (auto simp: fold_inv_def)

lemma apply_accepted_inv:
  assumes "tensors_ok T P" "host_ok P h0"
    "apply_accepted T fetch gate tol own record \<lparr>sv_host = h0, sv_saved = Some []\<rparr> net = (r, s)"
  shows "view_ok T P h0 (fo_view s) \<and> (r = Inr u \<longrightarrow> fold_inv T P h0 s)"
proof -
  let ?s = "\<lparr>fo_view = \<lparr>sv_host = h0, sv_saved = Some []\<rparr>, fo_net = net, fo_count = 0, fo_rejected = [], fo_skipped = [], fo_folded = {}\<rparr>"
  have v: "view_ok T P h0 \<lparr>sv_host = h0, sv_saved = Some []\<rparr>"
    using assms(2) by (simp add: view_ok_def saved_rows_def agree_refl host_ok_def)
  then have inv: "fold_inv T P h0 ?s" by (simp add: fold_inv_def)
  show ?thesis
  proof (cases "bindE (py_get record ''accepted'' (JList [])) py_iter")
    case (Inl e)
    then show ?thesis using assms(3) v by (auto simp: apply_accepted_def Let_def)
  next
    case (Inr items)
    then have "apply_rows T fetch gate tol own items ?s = (r, s)" using assms(3) by (simp add: apply_accepted_def Let_def)
    then show ?thesis by (rule apply_rows_inv [OF assms(1,2) inv])
  qed
qed

lemma apply_accepted_object:
  "apply_accepted T fetch gate tol own rcd v net = (Inr u, s) \<Longrightarrow> \<exists>kvs. rcd = JObj kvs"
  by (cases rcd) (auto simp: apply_accepted_def Let_def py_get_def)

subsection \<open>The advertised roots\<close>

lemma slot_root_total: "host_ok P h \<Longrightarrow> i < length (lh_slots h) \<Longrightarrow> \<exists>r. slot_root W T h i = Inr r"
  by (auto simp: host_ok_def slot_root_def slot_digest_def dest!: spec [of _ i] read_cell)

lemma mapE_all: "(\<And>x. x \<in> set xs \<Longrightarrow> \<exists>y. f x = Inr y) \<Longrightarrow> \<exists>ys. mapE f xs = Inr ys"
  by (induction xs) fastforce+

lemma model_root_total: "host_ok P h \<Longrightarrow> \<exists>r. model_root W T h = Inr r"
proof -
  assume ok: "host_ok P h"
  have "\<exists>y. slot_digest T h i = Inr y" if "i \<in> set [0..<length (lh_slots h)]" for i
    using ok that by (auto simp: host_ok_def slot_digest_def dest!: spec [of _ i] read_cell)
  then obtain ds where "mapE (slot_digest T h) [0..<length (lh_slots h)] = Inr ds" using mapE_all by blast
  then show ?thesis by (simp add: model_root_def)
qed

lemma advertised_range:
  assumes "\<forall>c i. index_of h c = Some i \<longrightarrow> i < n"
  shows "\<forall>i \<in> set (dkeys m). i < n \<Longrightarrow> \<forall>i \<in> set (dkeys (advertised h kvs m)). i < n"
proof (induction kvs arbitrary: m)
  case (Cons kv kvs)
  obtain key want where kv: "kv = (key, want)" by fastforce
  obtain l b e where cut: "partition_on CHR ''_'' key = (l, b, e)" by (metis prod_cases3)
  have keys: "\<forall>j \<in> set (dkeys (dset i want m)). j < n" if "i < n" for i
    using that Cons.prems unfolding dkeys_dset by simp
  show ?case
  proof (cases "bindE (text_int l) (\<lambda>li. bindE (text_int e) (\<lambda>ei. Inr (li, ei)))")
    case (Inl x)
    then show ?thesis using Cons.IH [OF Cons.prems] by (simp add: kv cut)
  next
    case (Inr c)
    show ?thesis
    proof (cases "index_of h c")
      case None
      then show ?thesis using Cons.IH [OF Cons.prems] Inr by (simp add: kv cut)
    next
      case (Some i)
      then show ?thesis using Cons.IH [OF keys [of i]] assms Inr by (simp add: kv cut)
    qed
  qed
qed simp

lemma roots_match_total:
  "host_ok P h \<Longrightarrow> \<forall>i \<in> fst ` set m. i < length (lh_slots h) \<Longrightarrow> \<exists>b. roots_match W T h m = Inr b"
proof (induction m)
  case (Cons iw m)
  obtain i w where iw: "iw = (i, w)" by fastforce
  obtain r where "slot_root W T h i = Inr r" using slot_root_total [OF Cons.prems(1), of i W] Cons.prems(2) iw by auto
  then show ?case using Cons iw by auto
qed auto

lemma roots_match_True:
  "roots_match W T h m = Inr True \<Longrightarrow> (i, want) \<in> set m \<Longrightarrow> slot_root W T h i = Inr (str_of W want)"
  by (induction m) (auto simp: bindE_Inr_iff split: if_splits)

lemma replica_root_total:
  assumes "host_ok P h"
  shows "\<exists>b. replica_root_ok W T h (JObj kvs) folded = Inr b"
proof -
  obtain r where r: "model_root W T h = Inr r" using model_root_total [OF assms] by blast
  have adv: "\<exists>b. roots_match W T h (advertised h sr []) = Inr b" for sr
    using advertised_range [of h "length (lh_slots h)" "[]" sr] assms
    by (intro roots_match_total [OF assms]) (auto simp: host_ok_def)
  show ?thesis
  proof (cases "\<exists>kv sr. dget kvs ''slot_roots'' JNull = JObj (kv # sr)")
    case True
    then obtain kv sr where sr: "dget kvs ''slot_roots'' JNull = JObj (kv # sr)" by blast
    obtain b where "roots_match W T h (advertised h (kv # sr) []) = Inr b" using adv by blast
    then show ?thesis by (simp add: replica_root_ok_def py_get_def sr Let_def del: advertised.simps)
  next
    case False
    then show ?thesis
      by (cases "dget kvs ''slot_roots'' JNull") (auto simp: replica_root_ok_def py_get_def r split: list.splits)
  qed
qed

subsection \<open>The checked fold\<close>

text \<open>What a record proves of a slot: it advertises the root that the slot has.\<close>

definition root_advertised :: "world \<Rightarrow> 'a tensors \<Rightarrow> 'a lane_host \<Rightarrow> json \<Rightarrow> nat \<Rightarrow> bool" where
  "root_advertised W T h rcd i \<longleftrightarrow>
     (\<exists>sr want. get_or rcd ''slot_roots'' JNull = JObj sr \<and> map_of (advertised h sr []) i = Some want
        \<and> slot_root W T h i = Inr (str_of W want))"

lemma replica_root_advertised:
  assumes "replica_root_ok W T h (JObj kvs) folded = Inr True"
  shows "(\<exists>kv sr. get_or (JObj kvs) ''slot_roots'' JNull = JObj (kv # sr)) \<and> (\<forall>i \<in> folded. root_advertised W T h (JObj kvs) i)
    \<or> (\<nexists>kv sr. get_or (JObj kvs) ''slot_roots'' JNull = JObj (kv # sr))
       \<and> (\<forall>want. get_or (JObj kvs) ''model_root'' JNull = want \<longrightarrow> want \<noteq> JNull \<longrightarrow> model_root W T h = Inr (str_of W want))"
proof -
  have get: "get_or (JObj kvs) k JNull = dget kvs k JNull" for k by (simp add: dget_def split: option.split)
  show ?thesis
  proof (cases "\<exists>kv sr. dget kvs ''slot_roots'' JNull = JObj (kv # sr)")
    case True
    then obtain kv sr where sr: "dget kvs ''slot_roots'' JNull = JObj (kv # sr)" by blast
    have "roots_match W T h (advertised h (kv # sr) []) = Inr True \<and> folded \<subseteq> set (dkeys (advertised h (kv # sr) []))"
      using assms by (auto simp: replica_root_ok_def py_get_def sr Let_def bindE_Inr_iff simp del: advertised.simps set_map)
    then have "root_advertised W T h (JObj kvs) i" if "i \<in> folded" for i
    proof -
      assume ok: "roots_match W T h (advertised h (kv # sr) []) = Inr True \<and> folded \<subseteq> set (dkeys (advertised h (kv # sr) []))"
      then obtain want where want: "map_of (advertised h (kv # sr) []) i = Some want"
        using \<open>i \<in> folded\<close> map_of_eq_None_iff [of "advertised h (kv # sr) []" i] by (cases "map_of (advertised h (kv # sr) []) i") auto
      then show ?thesis using roots_match_True [of W T h "advertised h (kv # sr) []" i want] ok map_of_SomeD [OF want]
        unfolding root_advertised_def get sr by blast
    qed
    then show ?thesis unfolding get sr by blast
  next
    case False
    have "want \<noteq> JNull \<longrightarrow> model_root W T h = Inr (str_of W want)" if "dget kvs ''model_root'' JNull = want" for want
      using assms False that
      by (cases "dget kvs ''slot_roots'' JNull")
        (auto simp: replica_root_ok_def py_get_def bindE_Inr_iff split: list.splits if_splits)
    then show ?thesis using False unfolding get by blast
  qed
qed

lemma fold_checked:
  assumes "tensors_ok T P" "host_ok P h" "fold_accepted_checked W T fetch gate own rcd h net = (r, h', net')"
  shows "agree_off T P h' h (slot_cells h) \<and> host_ok P h'
    \<and> ((\<exists>f. r = Inl f) \<or> r = Inr FoldLineage \<longrightarrow> h' = h)
    \<and> (r = Inr FoldOk \<longrightarrow> (\<exists>kvs. rcd = JObj kvs) \<and>
        ((\<exists>kv sr. get_or rcd ''slot_roots'' JNull = JObj (kv # sr))
           \<and> (\<forall>i. read_slot h' i \<noteq> read_slot h i \<longrightarrow> root_advertised W T h' rcd i)
         \<or> (\<nexists>kv sr. get_or rcd ''slot_roots'' JNull = JObj (kv # sr))
           \<and> (\<forall>want. get_or rcd ''model_root'' JNull = want \<longrightarrow> want \<noteq> JNull \<longrightarrow> model_root W T h' = Inr (str_of W want))))"
proof -
  obtain r1 s where run: "apply_accepted T fetch gate None own rcd \<lparr>sv_host = h, sv_saved = Some []\<rparr> net = (r1, s)" by fastforce
  have v: "view_ok T P h (fo_view s)" and inv: "r1 = Inr () \<Longrightarrow> fold_inv T P h s"
    using apply_accepted_inv [OF assms(1,2) run, of "()"] by auto
  have model: "model_in P h" using assms(2) by (simp add: host_ok_def)
  have undone: "rollback T (fo_view s) = (Inr (), h)" by (rule rollback_restores [OF assms(1) model v])
  have self: "agree_off T P h h (slot_cells h)" using model by (rule agree_refl)
  let ?h1 = "sv_host (fo_view s)"
  have agree: "agree_off T P ?h1 h (slot_cells h)" by (rule view_agree [OF v])
  have ok1: "host_ok P ?h1" by (rule host_ok_agree [OF assms(2) agree])
  show ?thesis
  proof (cases r1)
    case (Inl f)
    then show ?thesis using assms(2,3) run undone self by (auto simp: fold_accepted_checked_def)
  next
    case (Inr u)
    then obtain kvs where kvs: "rcd = JObj kvs" using apply_accepted_object run by blast
    show ?thesis
    proof (cases "fo_rejected s = []")
      case False
      then show ?thesis using assms(3) run Inr agree ok1 by (auto simp: fold_accepted_checked_def Let_def)
    next
      case True
      obtain b where b: "replica_root_ok W T ?h1 rcd (fo_folded s) = Inr b"
        using replica_root_total [OF ok1] kvs by blast
      show ?thesis
      proof (cases b)
        case False
        then show ?thesis using assms(2,3) run Inr True b undone self by (auto simp: fold_accepted_checked_def Let_def)
      next
        case b': True
        have res: "r = Inr FoldOk" "h' = ?h1" using assms(3) run Inr True b b' by (simp_all add: fold_accepted_checked_def Let_def)
        have f: "same_frame h ?h1" using agree by (simp add: agree_off_def)
        have moved: "i \<in> fo_folded s" if "read_slot ?h1 i \<noteq> read_slot h i" for i
        proof -
          have "i < length (lh_slots h)"
          proof (rule ccontr)
            assume "\<not> i < length (lh_slots h)"
            then have "read_slot ?h1 i = read_slot h i" using frame_fields(1) [OF f] by (simp add: read_slot_def slot_place_def)
            then show False using that by simp
          qed
          then obtain c where c: "cell h i = Inr c" using assms(2) by (auto simp: host_ok_def)
          then have "row_at (lh_model ?h1) c \<noteq> row_at (lh_model h) c"
            using that read_cell [OF c] read_cell [of ?h1 i c] cell_frame [OF f] by auto
          then show ?thesis using inv Inr True c unfolding fold_inv_def by simp
        qed
        show ?thesis using replica_root_advertised [of W T ?h1 kvs "fo_folded s"] b b' kvs moved agree ok1
          unfolding res by simp blast
      qed
    qed
  qed
qed

end
