(* ===== verification/Lane_Catchup.thy ===== *)
theory Lane_Catchup
  imports Lane_Replica
begin

text \<open>
  The loops that bring a miner's replica up to the coordinator's state
  (\<^verbatim>\<open>tools/sharddiloco_glm_contributor.py\<close>): the replay towards an advertised root with its three
  bounds (\<^verbatim>\<open>resume_to_root\<close>), the walk to the next coordinate a miner can start on
  (\<^verbatim>\<open>advance_claim\<close>), the catch-up of the main loop (\<^verbatim>\<open>catch_up_accepted\<close>), and the two rules
  that notice a lane which no longer moves (\<^verbatim>\<open>async_should_abort_no_progress\<close>, \<^verbatim>\<open>LaneLiveness\<close>).
  Log messages are left out, with the readings of the clock they make; the outcome of a replay, which the
  code writes into a dictionary of its caller, is a part of the result.
\<close>

subsection \<open>Replay towards a root\<close>

definition CATCHUP_ABORTED :: "string list" where
  "CATCHUP_ABORTED = [''budget'', ''stall'', ''call-timeout'']"

record resume_outcome =
  ro_reason :: string
  ro_elapsed :: xfloat
  ro_records :: nat
  ro_scanned :: nat
  ro_applicable :: nat
  ro_aborted :: bool

text \<open>What a replay is given: the target, the miner's coordinate with its slot, the three bounds, the
  time it started, and the deadline lane with the manifest.\<close>

record resume_job =
  rj_target :: string
  rj_coord :: "(coord \<times> nat) option"
  rj_budget :: xfloat
  rj_stall :: xfloat
  rj_t0 :: rat
  rj_lane :: deadline_lane
  rj_manifest :: "(string, json) pydict"

text \<open>The variables of the loop.\<close>

record resume_vars =
  rv_applied :: nat
  rv_aborted :: "string option"
  rv_progress :: rat
  rv_want :: "string option"
  rv_hit :: bool
  rv_scanned :: nat
  rv_applicable :: nat

definition armed :: "resume_job \<Rightarrow> resume_vars \<Rightarrow> bool" where
  "armed J v = (case rj_coord J of Some _ \<Rightarrow> 0 < rv_applicable v | None \<Rightarrow> 0 < rv_scanned v)"

text \<open>The applicability filter: \<open>None\<close> where the record is skipped, else what it advertises for the
  coordinate (\<open>JNull\<close>: nothing to compare).\<close>

definition applicability :: "resume_job \<Rightarrow> json \<Rightarrow> exn + (json \<times> bool) option" where
  "applicability J rec =
     (case rj_coord J of
        None \<Rightarrow> Inr (Some (JNull, False))
      | Some (c, _) \<Rightarrow>
          bindE (py_get rec ''slot_roots'' JNull) (\<lambda>sr.
            case sr of
              JObj (kv # kvs) \<Rightarrow>
                (case dget (kv # kvs) (coord_text c) JNull of JNull \<Rightarrow> Inr None | adv \<Rightarrow> Inr (Some (adv, True)))
            | _ \<Rightarrow> Inr (Some (JNull, False))))"

text \<open>After a fold: \<open>True\<close> ends the replay at the target.\<close>

definition after_fold ::
  "world \<Rightarrow> 'a tensors \<Rightarrow> resume_job \<Rightarrow> json \<Rightarrow> 'a lane_host \<Rightarrow> resume_vars \<Rightarrow> exn + bool \<times> resume_vars" where
  "after_fold W T J adv h v =
     (let v = v\<lparr>rv_applied := rv_applied v + 1\<rparr> in
      case rj_coord J of
        None \<Rightarrow> bindE (model_root W T h) (\<lambda>r. Inr (r = rj_target J, v))
      | Some (_, i) \<Rightarrow>
          (if adv = JNull then Inr (False, v)
           else bindE (slot_root W T h i) (\<lambda>r.
             Inr (False, v\<lparr>rv_want := Some (str_of W adv), rv_hit := (r = str_of W adv)\<rparr>))))"

text \<open>The two bounds at the top of an iteration; the clock is read for the second only when it is armed.\<close>

definition bound_hit :: "'a lane_net \<Rightarrow> resume_job \<Rightarrow> resume_vars \<Rightarrow> net_state \<Rightarrow> string option \<times> net_state" where
  "bound_hit L J v net =
     (case read_clock L net of (t, net1) \<Rightarrow>
        if xless (rj_budget J) (xsub (XFin t) (XFin (rj_t0 J))) then (Some ''budget'', net1)
        else if xless (XFin 0) (rj_stall J) \<and> armed J v
        then (case read_clock L net1 of (t', net2) \<Rightarrow>
                (if xless (rj_stall J) (xsub (XFin t') (XFin (rv_progress v))) then Some ''stall'' else None, net2))
        else (None, net1))"

fun resume_loop ::
  "world \<Rightarrow> 'a tensors \<Rightarrow> 'a lane_net \<Rightarrow> resume_job \<Rightarrow> int list \<Rightarrow> resume_vars \<Rightarrow> 'a lane_host \<Rightarrow> net_state
     \<Rightarrow> (exn + bool \<times> resume_vars) \<times> 'a lane_host \<times> net_state" where
  "resume_loop W T L J [] v h net = (Inr (False, v), h, net)"
| "resume_loop W T L J (e # es) v h net =
     (case bound_hit L J v net of
        (Some why, net) \<Rightarrow> (Inr (False, v\<lparr>rv_aborted := Some why\<rparr>), h, net)
      | (None, net) \<Rightarrow>
          (let entry = dget (rj_manifest J) (accepted_name e (host_campaign_id W h)) JNull in
           if \<not> truthy entry then resume_loop W T L J es v h net
           else
             (case read_clock L net of (t, net) \<Rightarrow>
              (let v = v\<lparr>rv_progress := t\<rparr> in
               case getE entry ''sha256'' of
                 Inl _ \<Rightarrow> (Inr (False, v), h, net)
               | Inr sha \<Rightarrow>
                   (case bounded_call L (rj_lane J) (\<lambda>n. nw_json L n sha) net of
                      (Inl CatchupTimeout, net) \<Rightarrow> (Inr (False, v\<lparr>rv_aborted := Some ''call-timeout''\<rparr>), h, net)
                    | (Inl (Raised _), net) \<Rightarrow> (Inr (False, v), h, net)
                    | (Inr rec, net) \<Rightarrow>
                        (let v = v\<lparr>rv_scanned := rv_scanned v + 1\<rparr> in
                         case applicability J rec of
                           Inl x \<Rightarrow> (Inl x, h, net)
                         | Inr None \<Rightarrow> resume_loop W T L J es v h net
                         | Inr (Some (adv, names_us)) \<Rightarrow>
                             (let v = (if names_us then v\<lparr>rv_applicable := rv_applicable v + 1\<rparr> else v) in
                              case fold_accepted_checked W T
                                     (\<lambda>cid. bounded_call L (rj_lane J) (\<lambda>n. nw_delta L n cid)) NoGate (Some (- 1)) rec h net of
                                (Inl CatchupTimeout, h, net) \<Rightarrow> (Inr (False, v\<lparr>rv_aborted := Some ''call-timeout''\<rparr>), h, net)
                              | (Inl (Raised x), h, net) \<Rightarrow> (Inl x, h, net)
                              | (Inr FoldOk, h, net) \<Rightarrow>
                                  (case after_fold W T J adv h v of
                                     Inl x \<Rightarrow> (Inl x, h, net)
                                   | Inr (True, v) \<Rightarrow> (Inr (True, v), h, net)
                                   | Inr (False, v) \<Rightarrow> resume_loop W T L J es v h net)
                              | (Inr _, h, net) \<Rightarrow> resume_loop W T L J es v h net)))))))"

text \<open>\<^verbatim>\<open>_done\<close>: the result of a replay, with the outcome the caller reads.\<close>

definition resume_done ::
  "'a lane_net \<Rightarrow> rat \<Rightarrow> resume_vars \<Rightarrow> string \<Rightarrow> nat \<Rightarrow> bool \<Rightarrow> nat \<Rightarrow> 'a lane_host \<Rightarrow> net_state
     \<Rightarrow> (exn + nat \<times> bool \<times> resume_outcome) \<times> 'a lane_host \<times> net_state" where
  "resume_done L t0 v why applied reached records h net =
     (case read_clock L net of (t, net) \<Rightarrow>
        (Inr (applied, reached, \<lparr>ro_reason = why, ro_elapsed = xsub (XFin t) (XFin t0), ro_records = records,
           ro_scanned = rv_scanned v, ro_applicable = rv_applicable v, ro_aborted = (why \<in> set CATCHUP_ABORTED)\<rparr>), h, net))"

definition no_vars :: "rat \<Rightarrow> resume_vars" where
  "no_vars t = \<lparr>rv_applied = 0, rv_aborted = None, rv_progress = t, rv_want = None, rv_hit = False,
     rv_scanned = 0, rv_applicable = 0\<rparr>"

text \<open>The end of the loop that was not left early: the newest advertised root was reproduced, or every
  slot is restored.\<close>

definition resume_end ::
  "'a tensors \<Rightarrow> 'a lane_net \<Rightarrow> resume_job \<Rightarrow> 'a params list \<Rightarrow> resume_vars \<Rightarrow> 'a lane_host \<Rightarrow> net_state
     \<Rightarrow> (exn + nat \<times> bool \<times> resume_outcome) \<times> 'a lane_host \<times> net_state" where
  "resume_end T L J snap v h net =
     (if rj_coord J \<noteq> None \<and> rv_hit v \<and> rv_aborted v = None
      then resume_done L (rj_t0 J) v ''ok'' (rv_applied v) True (rv_applied v) h net
      else
        (case write_all T (zip [0..<length snap] snap) h of
           (Inl x, h) \<Rightarrow> (Inl x, h, net)
         | (Inr _, h) \<Rightarrow>
             (let why = (case rv_aborted v of Some a \<Rightarrow> a
                | None \<Rightarrow> if rj_coord J \<noteq> None \<and> rv_applicable v = 0 then ''empty'' else ''unreachable'') in
              resume_done L (rj_t0 J) v why 0 False (rv_applied v) h net)))"

text \<open>The manifest: the caller's, or one read through the deadline lane; the reason where there is none.\<close>

definition resume_manifest ::
  "'a lane_net \<Rightarrow> deadline_lane \<Rightarrow> (string, json) pydict option \<Rightarrow> net_state \<Rightarrow> (string + (string, json) pydict) \<times> net_state" where
  "resume_manifest L D man net =
     (case man of
        Some m \<Rightarrow> (Inr m, net)
      | None \<Rightarrow>
          (case bounded_call L D (nw_manifest L) net of
             (Inl CatchupTimeout, net) \<Rightarrow> (Inl ''call-timeout'', net)
           | (Inl (Raised _), net) \<Rightarrow> (Inl ''manifest-unavailable'', net)
           | (Inr m, net) \<Rightarrow> (Inr m, net)))"

definition resume_replay ::
  "world \<Rightarrow> 'a tensors \<Rightarrow> 'a lane_net \<Rightarrow> resume_job \<Rightarrow> int list \<Rightarrow> 'a lane_host \<Rightarrow> net_state
     \<Rightarrow> (exn + nat \<times> bool \<times> resume_outcome) \<times> 'a lane_host \<times> net_state" where
  "resume_replay W T L J events h net =
     (case mapE (read_slot h) [0..<length (lh_slots h)] of
        Inl x \<Rightarrow> (Inl x, h, net)
      | Inr snap \<Rightarrow>
          (case read_clock L net of (t, net) \<Rightarrow>
            (case resume_loop W T L J events (no_vars t) h net of
               (Inl x, h, net) \<Rightarrow> (Inl x, h, net)
             | (Inr (True, v), h, net) \<Rightarrow> resume_done L (rj_t0 J) v ''ok'' (rv_applied v) True (rv_applied v) h net
             | (Inr (False, v), h, net) \<Rightarrow> resume_end T L J snap v h net)))"

definition resume_to_root ::
  "world \<Rightarrow> 'a tensors \<Rightarrow> 'a lane_net \<Rightarrow> string \<Rightarrow> nat \<Rightarrow> coord option \<Rightarrow> xfloat \<Rightarrow> xfloat \<Rightarrow> xfloat
     \<Rightarrow> (string, json) pydict option \<Rightarrow> 'a lane_host \<Rightarrow> net_state
     \<Rightarrow> (exn + nat \<times> bool \<times> resume_outcome) \<times> 'a lane_host \<times> net_state" where
  "resume_to_root W T L target max_records own_coord budget stall call_timeout man h net =
     (case read_clock L net of (t0, net) \<Rightarrow>
      (let stop = (\<lambda>why reached net. resume_done L t0 (no_vars t0) why 0 reached 0 h net) in
       case (if target = [] then Inr True else bindE (model_root W T h) (\<lambda>r. Inr (r = target))) of
         Inl x \<Rightarrow> (Inl x, h, net)
       | Inr True \<Rightarrow> stop ''already-at-root'' True net
       | Inr False \<Rightarrow>
           (case (case own_coord of None \<Rightarrow> Some None | Some c \<Rightarrow> map_option (\<lambda>i. Some (c, i)) (index_of h c)) of
              None \<Rightarrow> stop ''not-registered'' False net
            | Some own \<Rightarrow>
                (let D = \<lparr>dn_call_timeout = call_timeout, dn_deadline = Some (xadd (XFin t0) budget)\<rparr> in
                 case resume_manifest L D man net of
                   (Inl why, net) \<Rightarrow> stop why False net
                 | (Inr m, net) \<Rightarrow>
                     (let events = accepted_events_in (dkeys m) (host_campaign_id W h) in
                      if events = [] then stop ''no-records'' False net
                      else resume_replay W T L \<lparr>rj_target = target, rj_coord = own, rj_budget = budget, rj_stall = stall,
                             rj_t0 = t0, rj_lane = D, rj_manifest = m\<rparr> (take max_records events) h net)))))"

subsection \<open>Advancing to another coordinate\<close>

record advance_env =
  ae_claim_coords :: "coord list"
  ae_identity :: "string option"
  ae_ranked :: "coord list"
  ae_root :: string
  ae_event :: "int option"
  ae_budget :: xfloat
  ae_stall :: xfloat
  ae_timeout :: xfloat
  ae_manifest :: "(string, json) pydict option"

definition refusal_text :: "exn \<Rightarrow> string option" where
  "refusal_text e = (case e of ValueError s \<Rightarrow> Some s | RuntimeError s \<Rightarrow> Some s | _ \<Rightarrow> None)"

definition park_now :: "'a lane_net \<Rightarrow> cooldown \<Rightarrow> coord \<Rightarrow> int option \<Rightarrow> string \<Rightarrow> net_state \<Rightarrow> cooldown \<times> net_state" where
  "park_now L cd c event why net = (case read_clock L net of (t, net) \<Rightarrow> (park_coord t cd c event why, net))"

fun advance_walk ::
  "world \<Rightarrow> 'a tensors \<Rightarrow> 'a lane_net \<Rightarrow> advance_env \<Rightarrow> coord list \<Rightarrow> cooldown \<Rightarrow> 'a lane_host \<Rightarrow> net_state
     \<Rightarrow> (exn + (coord \<times> nat \<times> nat \<times> bool) option) \<times> cooldown \<times> 'a lane_host \<times> net_state" where
  "advance_walk W T L A [] cd h net = (Inr None, cd, h, net)"
| "advance_walk W T L A (c # cs) cd h net =
     (case read_clock L net of (t, net) \<Rightarrow>
      (case blocked t cd c (ae_event A) of
        (True, cd) \<Rightarrow> advance_walk W T L A cs cd h net
      | (False, cd) \<Rightarrow>
          (case register c h of
             (Inl x, h) \<Rightarrow>
               (case refusal_text x of
                  None \<Rightarrow> (Inl x, cd, h, net)
                | Some msg \<Rightarrow>
                    (case park_now L cd c (ae_event A) (''register refused ('' @ take 60 msg @ '')'') net of
                       (cd, net) \<Rightarrow> advance_walk W T L A cs cd h net))
           | (Inr i, h) \<Rightarrow>
               (case resume_to_root W T L (ae_root A) 200000 (Some c) (ae_budget A) (ae_stall A) (ae_timeout A) (ae_manifest A) h net of
                  (Inl x, h, net) \<Rightarrow> (Inl x, cd, h, net)
                | (Inr (n, reached, out), h, net) \<Rightarrow>
                    if ro_aborted out
                    then (case park_now L cd c (ae_event A) (''catch-up '' @ ro_reason out) net of
                            (cd, net) \<Rightarrow> advance_walk W T L A cs cd h net)
                    else (Inr (Some (c, i, n, reached)), cd, h, net)))))"

definition advance_claim ::
  "world \<Rightarrow> 'a tensors \<Rightarrow> 'a lane_net \<Rightarrow> advance_env \<Rightarrow> coord \<Rightarrow> cooldown \<Rightarrow> 'a lane_host \<Rightarrow> net_state
     \<Rightarrow> (exn + (coord \<times> nat \<times> nat \<times> bool) option) \<times> cooldown \<times> 'a lane_host \<times> net_state" where
  "advance_claim W T L A current cd h net =
     (let order = claim_walk_order W (ae_claim_coords A) (ae_identity A) (ae_ranked A) in
      if length order \<le> 1 then (Inr None, cd, h, net)
      else advance_walk W T L A (advance_candidates order current) cd h net)"

subsection \<open>The catch-up of the main loop\<close>

record catchup_result =
  cr_last :: int
  cr_any :: bool
  cr_abort :: "nat option"
  cr_folded :: "json list"

fun catch_up_loop ::
  "world \<Rightarrow> 'a tensors \<Rightarrow> 'a lane_net \<Rightarrow> deadline_lane \<Rightarrow> (string, json) pydict \<Rightarrow> 'a regate \<Rightarrow> int option
     \<Rightarrow> int list \<Rightarrow> catchup_result \<Rightarrow> 'a lane_host \<Rightarrow> net_state \<Rightarrow> (exn + catchup_result) \<times> 'a lane_host \<times> net_state" where
  "catch_up_loop W T L D man gate own [] r h net = (Inr r, h, net)"
| "catch_up_loop W T L D man gate own (e # es) r h net =
     (let entry = dget man (accepted_name e (host_campaign_id W h)) JNull in
      if \<not> truthy entry then (Inr r, h, net)
      else (case getE entry ''sha256'' of
        Inl _ \<Rightarrow> (Inr r, h, net)
      | Inr sha \<Rightarrow>
          (case bounded_call L D (\<lambda>n. nw_json L n sha) net of
             (Inl _, net) \<Rightarrow> (Inr r, h, net)
           | (Inr rec, net) \<Rightarrow>
               (case fold_accepted_checked W T (\<lambda>cid. bounded_call L D (\<lambda>n. nw_delta L n cid)) gate own rec h net of
                  (Inl CatchupTimeout, h, net) \<Rightarrow> (Inr r, h, net)
                | (Inl (Raised x), h, net) \<Rightarrow> (Inl x, h, net)
                | (Inr (FoldPoison _), h, net) \<Rightarrow> (Inr (r\<lparr>cr_abort := Some 8\<rparr>), h, net)
                | (Inr FoldLineage, h, net) \<Rightarrow> (Inr r, h, net)
                | (Inr FoldOk, h, net) \<Rightarrow>
                    catch_up_loop W T L D man gate own es
                      (r\<lparr>cr_last := e, cr_any := True, cr_folded := cr_folded r @ [rec]\<rparr>) h net))))"

definition catch_up_accepted ::
  "world \<Rightarrow> 'a tensors \<Rightarrow> 'a lane_net \<Rightarrow> xfloat \<Rightarrow> (string, json) pydict \<Rightarrow> int \<Rightarrow> int option \<Rightarrow> 'a regate \<Rightarrow> int option
     \<Rightarrow> 'a lane_host \<Rightarrow> net_state \<Rightarrow> (exn + catchup_result) \<times> 'a lane_host \<times> net_state" where
  "catch_up_accepted W T L call_timeout man last_applied frontier gate own h net =
     catch_up_loop W T L \<lparr>dn_call_timeout = call_timeout, dn_deadline = None\<rparr> man gate own
       (scan_accepted_events_bounded (set (dkeys man)) last_applied frontier 1000000 (host_campaign_id W h))
       \<lparr>cr_last = last_applied, cr_any = False, cr_abort = None, cr_folded = []\<rparr> h net"

subsection \<open>A lane that does not move\<close>

definition async_should_abort_no_progress :: "string \<Rightarrow> string \<Rightarrow> bool \<Rightarrow> xfloat \<Rightarrow> xfloat \<Rightarrow> bool \<Rightarrow> bool" where
  "async_should_abort_no_progress local_root pointer_root applied_any seconds round_wait comparable =
     (if \<not> comparable then False else if applied_any then False else if pointer_root = [] then False
      else if local_root = pointer_root then False else xle round_wait seconds)"

record lane_liveness =
  ll_threshold :: xfloat
  ll_high_event :: "int option"
  ll_high_accepted :: "int option"
  ll_high_stamp :: "int option"
  ll_last_move :: rat
  ll_stale :: bool
  ll_last_shout :: "rat option"

definition STALE_LANE_ENV :: string where "STALE_LANE_ENV = ''NEURAHASH_SD_STALE_LANE_S''"
definition DEFAULT_STALE_LANE_S :: xfloat where "DEFAULT_STALE_LANE_S = XFin 10800"
definition STALE_LANE_REMIND_S :: xfloat where "STALE_LANE_REMIND_S = XFin 1800"

definition new_liveness :: "xfloat option \<Rightarrow> rat \<Rightarrow> (string, string) pydict \<Rightarrow> (string \<Rightarrow> xfloat option) \<Rightarrow> lane_liveness" where
  "new_liveness threshold now env text_float =
     \<lparr>ll_threshold = (case threshold of Some t \<Rightarrow> t | None \<Rightarrow> env_num env STALE_LANE_ENV DEFAULT_STALE_LANE_S text_float),
      ll_high_event = None, ll_high_accepted = None, ll_high_stamp = None, ll_last_move = now, ll_stale = False,
      ll_last_shout = None\<rparr>"

definition liveness_enabled :: "lane_liveness \<Rightarrow> bool" where
  "liveness_enabled v = xless (XFin 0) (ll_threshold v)"

text \<open>One counter: its new high mark, and whether it moved.\<close>

definition raise_mark :: "int option \<Rightarrow> json \<Rightarrow> exn + int option \<times> bool" where
  "raise_mark cur val =
     bindE (int_or_none val) (\<lambda>n. Inr (case n of
         None \<Rightarrow> (cur, False)
       | Some k \<Rightarrow> (case cur of None \<Rightarrow> (Some k, False) | Some c \<Rightarrow> if c < k then (Some k, True) else (cur, False))))"

datatype lane_pulse = LaneLive | LaneWaiting | LaneStale | LaneRecovered

definition observe :: "rat \<Rightarrow> json \<Rightarrow> json \<Rightarrow> json \<Rightarrow> lane_liveness \<Rightarrow> (exn + lane_pulse) \<times> lane_liveness" where
  "observe now event accepted_seen published_at v =
     (case raise_mark (ll_high_event v) event of
        Inl x \<Rightarrow> (Inl x, v)
      | Inr (he, m1) \<Rightarrow>
          (let v = v\<lparr>ll_high_event := he\<rparr> in
           case raise_mark (ll_high_accepted v) accepted_seen of
             Inl x \<Rightarrow> (Inl x, v)
           | Inr (ha, m2) \<Rightarrow>
               (let v = v\<lparr>ll_high_accepted := ha\<rparr> in
                case raise_mark (ll_high_stamp v) published_at of
                  Inl x \<Rightarrow> (Inl x, v)
                | Inr (hs, m3) \<Rightarrow>
                    (let v = v\<lparr>ll_high_stamp := hs\<rparr> in
                     if m1 \<or> m2 \<or> m3
                     then (let v = v\<lparr>ll_last_move := now\<rparr> in
                           if ll_stale v then (Inr LaneRecovered, v\<lparr>ll_stale := False, ll_last_shout := None\<rparr>)
                           else (Inr LaneLive, v))
                     else if \<not> liveness_enabled v then (Inr LaneWaiting, v)
                     else if xle (ll_threshold v) (xsub (XFin now) (XFin (ll_last_move v)))
                     then (Inr LaneStale, v\<lparr>ll_stale := True\<rparr>)
                     else (Inr LaneWaiting, v)))))"

definition seconds_since_move :: "lane_liveness \<Rightarrow> rat \<Rightarrow> xfloat" where
  "seconds_since_move v now = xmax0 (xsub (XFin now) (XFin (ll_last_move v)))"

definition should_shout :: "xfloat \<Rightarrow> rat \<Rightarrow> lane_liveness \<Rightarrow> bool \<times> lane_liveness" where
  "should_shout interval now v =
     (case ll_last_shout v of
        None \<Rightarrow> (True, v\<lparr>ll_last_shout := Some now\<rparr>)
      | Some t \<Rightarrow> if xle interval (xsub (XFin now) (XFin t)) then (True, v\<lparr>ll_last_shout := Some now\<rparr>) else (False, v))"

end
