(* ===== verification/Lane_Catchup_Facts.thy ===== *)
theory Lane_Catchup_Facts
  imports Lane_Replica_Facts Lane_Catchup Lane_Name_Props
begin

text \<open>
  What the loops over accepted records keep: a replay changes nothing of the host but the weights of its
  slots, and these can be put back from the snapshot; a catch-up only moves on past records that were
  verified; a walk registers claimable coordinates only.
\<close>

subsection \<open>The replay\<close>

lemma resume_loop_inv:
  assumes "tensors_ok T P"
  shows "host_ok P h \<Longrightarrow> resume_loop W T L J es v h net = (r, h', net') \<Longrightarrow>
    agree_off T P h' h (slot_cells h) \<and> host_ok P h'
    \<and> (\<forall>v'. r = Inr (True, v') \<longrightarrow> rj_coord J = None \<and> model_root W T h' = Inr (rj_target J))
    \<and> (\<forall>v'. r = Inr (False, v') \<longrightarrow> rv_aborted v = None \<longrightarrow> rv_aborted v' \<noteq> None \<longrightarrow> the (rv_aborted v') \<in> set CATCHUP_ABORTED)"
proof (induction es arbitrary: v h net)
  case Nil
  then show ?case by (auto simp: host_ok_def intro: agree_refl)
next
  case (Cons e es)
  have self: "agree_off T P h h (slot_cells h)" using Cons.prems(1) by (auto simp: host_ok_def intro: agree_refl)
  have chain: "agree_off T P h' h (slot_cells h)" if "agree_off T P h1 h (slot_cells h)" "agree_off T P h' h1 (slot_cells h1)" for h1
    using that slot_cells_frame [of h h1] agree_trans [of T P h' h1 "slot_cells h" h] by (simp add: agree_off_def)
  obtain why net1 where bound: "bound_hit L J v net = (why, net1)" by fastforce
  note run = Cons.prems(2) [unfolded resume_loop.simps bound prod.case Let_def]
  show ?case
  proof (cases why)
    case (Some a)
    then have "a \<in> set CATCHUP_ABORTED" using bound by (auto simp: bound_hit_def CATCHUP_ABORTED_def split: prod.splits if_splits)
    then show ?thesis using run Some self Cons.prems(1) by auto
  next
    case None
    note run = run [unfolded None option.case]
    define entry where "entry = dget (rj_manifest J) (accepted_name e (host_campaign_id W h)) JNull"
    note run = run [folded entry_def]
    show ?thesis
    proof (cases "truthy entry")
      case False
      then show ?thesis using Cons.IH [OF Cons.prems(1), of v net1] run by simp
    next
      case True
      obtain t net2 where clock: "read_clock L net1 = (t, net2)" by fastforce
      note run = run [unfolded clock prod.case]
      show ?thesis
      proof (cases "getE entry ''sha256''")
        case (Inl x)
        then show ?thesis using run True self Cons.prems(1) by auto
      next
        case (Inr sha)
        obtain ans net3 where ans: "bounded_call L (rj_lane J) (\<lambda>n. nw_json L n sha) net2 = (ans, net3)" by fastforce
        note run = run [unfolded Inr sum.case ans prod.case]
        show ?thesis
        proof (cases ans)
          case (Inl fault)
          then show ?thesis using run True self Cons.prems(1) by (cases fault) (auto simp: CATCHUP_ABORTED_def)
        next
          case (Inr rcd)
          note run = run [unfolded Inr sum.case]
          show ?thesis
          proof (cases "applicability J rcd")
            case (Inl x)
            then show ?thesis using run True self Cons.prems(1) by auto
          next
            case app: (Inr choice)
            show ?thesis
            proof (cases choice)
              case None
              then show ?thesis using Cons.IH [OF Cons.prems(1), of "v\<lparr>rv_progress := t, rv_scanned := rv_scanned v + 1\<rparr>" net3] run True app
                by simp
            next
              case (Some au)
              obtain adv us where au: "au = (adv, us)" by fastforce
              define w where "w = v\<lparr>rv_progress := t, rv_scanned := rv_scanned (v\<lparr>rv_progress := t\<rparr>) + 1\<rparr>"
              define v1 where "v1 = (if us then w\<lparr>rv_applicable := rv_applicable w + 1\<rparr> else w)"
              have ab: "rv_aborted v1 = rv_aborted v" by (simp add: v1_def w_def)
              obtain fr h1 net4 where fold: "fold_accepted_checked W T (\<lambda>cid. bounded_call L (rj_lane J) (\<lambda>n. nw_delta L n cid))
                  NoGate (Some (- 1)) rcd h net3 = (fr, h1, net4)" by (metis prod_cases3)
              note checked = fold_checked [OF assms Cons.prems(1) fold]
              have a1: "agree_off T P h1 h (slot_cells h)" and o1: "host_ok P h1" using checked by auto
              note run = run [unfolded app Some au sum.case option.case prod.case fold, folded w_def, folded v1_def]
              show ?thesis
              proof (cases fr)
                case (Inl fault)
                then show ?thesis using run True a1 o1 by (cases fault) (auto simp: CATCHUP_ABORTED_def)
              next
                case (Inr out)
                show ?thesis
                proof (cases "out = FoldOk")
                  case False
                  then have "resume_loop W T L J es v1 h1 net4 = (r, h', net')"
                    using run True Inr by (cases out) auto
                  then show ?thesis using Cons.IH [OF o1, of v1 net4] chain [OF a1] ab by auto
                next
                  case ok: True
                  obtain a where after: "after_fold W T J adv h1 v1 = a" by simp
                  show ?thesis
                  proof (cases a)
                    case (Inl x)
                    then show ?thesis using run True Inr ok after a1 o1 by auto
                  next
                    case a: (Inr bv)
                    obtain b v2 where bv: "bv = (b, v2)" by fastforce
                    have v2: "rv_aborted v2 = rv_aborted v1" "b \<longrightarrow> rj_coord J = None \<and> model_root W T h1 = Inr (rj_target J)"
                      using after a bv by (auto simp: after_fold_def Let_def bindE_Inr_iff split: option.splits prod.splits if_splits)
                    show ?thesis
                    proof (cases b)
                      case True
                      then show ?thesis using run \<open>truthy entry\<close> Inr ok after a bv a1 o1 v2 by auto
                    next
                      case False
                      then have "resume_loop W T L J es v2 h1 net4 = (r, h', net')"
                        using run \<open>truthy entry\<close> Inr ok after a bv by auto
                      then show ?thesis using Cons.IH [OF o1, of v2 net4] chain [OF a1] ab v2(1) by auto
                    qed
                  qed
                qed
              qed
            qed
          qed
        qed
      qed
    qed
  qed
qed

text \<open>The snapshot of a replay puts every slot back.\<close>

lemma snapshot_restores:
  assumes "tensors_ok T P" "host_ok P h0" "mapE (read_slot h0) [0..<length (lh_slots h0)] = Inr snap"
    "agree_off T P h h0 (slot_cells h0)"
  shows "write_all T (zip [0..<length snap] snap) h = (Inr (), h0)"
proof -
  have len: "length ys = length xs" if "mapE f xs = Inr ys" for f :: "nat \<Rightarrow> exn + 'a params" and xs ys
    using that by (induction xs arbitrary: ys) (auto simp: bindE_Inr_iff)
  have at: "f (xs ! i) = Inr (ys ! i)" if "mapE f xs = Inr ys" "i < length xs" for f :: "nat \<Rightarrow> exn + 'a params" and xs ys i
    using that by (induction xs arbitrary: ys i) (auto simp: bindE_Inr_iff nth_Cons split: nat.split)
  have n: "length snap = length (lh_slots h0)" using len [OF assms(3)] by simp
  have keys: "dkeys (zip [0..<length snap] snap) = [0..<length (lh_slots h0)]" using n by simp
  have "saved_rows h0 (zip [0..<length snap] snap)" unfolding saved_rows_def
  proof (intro ballI, clarify)
    fix j d assume "(j, d) \<in> set (zip [0..<length snap] snap)"
    then have j: "j < length (lh_slots h0)" "d = snap ! j" using n by (auto simp: in_set_zip)
    obtain c where c: "cell h0 j = Inr c" using assms(2) j(1) by (auto simp: host_ok_def)
    have "read_slot h0 j = Inr (snap ! j)" using at [OF assms(3), of j] j(1) by simp
    then show "\<exists>c. cell h0 j = Inr c \<and> d = expert_dict (row_at (lh_model h0) c)" using read_cell [OF c] c j(2) by auto
  qed
  moreover have "slot_cells h0 \<subseteq> cells_of h0 (zip [0..<length snap] snap)"
    unfolding slot_cells_def cells_of_def keys using cell_length by fastforce
  then have "agree_off T P h h0 (cells_of h0 (zip [0..<length snap] snap))" by (rule agree_mono [OF assms(4)])
  ultimately show ?thesis using assms(1,2) by (intro write_all_restores) (auto simp: host_ok_def)
qed

lemma resume_done_result:
  "resume_done L t0 v why applied reached recs h net = (r, h', net') \<Longrightarrow>
     h' = h \<and> (\<exists>out. r = Inr (applied, reached, out) \<and> ro_reason out = why \<and> ro_aborted out = (why \<in> set CATCHUP_ABORTED))"
  by (auto simp: resume_done_def split: prod.splits)

lemma resume_replay_spec:
  assumes "tensors_ok T P" "host_ok P h" "resume_replay W T L J events h net = (Inr (n, reached, out), h', net')"
  shows "agree_off T P h' h (slot_cells h) \<and> host_ok P h' \<and> (\<not> reached \<longrightarrow> h' = h)
    \<and> (reached \<longrightarrow> rj_coord J = None \<longrightarrow> model_root W T h' = Inr (rj_target J)) \<and> (ro_aborted out \<longrightarrow> \<not> reached)"
proof -
  have self: "agree_off T P h h (slot_cells h)" using assms(2) by (auto simp: host_ok_def intro: agree_refl)
  note run = assms(3) [unfolded resume_replay_def]
  show ?thesis
  proof (cases "mapE (read_slot h) [0..<length (lh_slots h)]")
    case (Inl x)
    then show ?thesis using run by simp
  next
    case snap: (Inr snap)
    obtain t net1 where clock: "read_clock L net = (t, net1)" by fastforce
    obtain lr h1 net2 where loop: "resume_loop W T L J events (no_vars t) h net1 = (lr, h1, net2)" by (metis prod_cases3)
    note inv = resume_loop_inv [OF assms(1,2) loop]
    note run = run [unfolded snap sum.case clock prod.case loop]
    show ?thesis
    proof (cases lr)
      case (Inl x)
      then show ?thesis using run by simp
    next
      case (Inr bv)
      obtain early v where bv: "bv = (early, v)" by fastforce
      show ?thesis
      proof (cases early)
        case True
        then have "resume_done L (rj_t0 J) v ''ok'' (rv_applied v) True (rv_applied v) h1 net2 = (Inr (n, reached, out), h', net')"
          using run Inr bv by simp
        from resume_done_result [OF this] show ?thesis using inv Inr bv True by (auto simp: CATCHUP_ABORTED_def)
      next
        case False
        then have fin: "resume_end T L J snap v h1 net2 = (Inr (n, reached, out), h', net')" using run Inr bv by simp
        show ?thesis
        proof (cases "rj_coord J \<noteq> None \<and> rv_hit v \<and> rv_aborted v = None")
          case True
          then have "resume_done L (rj_t0 J) v ''ok'' (rv_applied v) True (rv_applied v) h1 net2 = (Inr (n, reached, out), h', net')"
            using fin by (simp add: resume_end_def)
          from resume_done_result [OF this] show ?thesis using inv True by (auto simp: CATCHUP_ABORTED_def)
        next
          case False
          have "write_all T (zip [0..<length snap] snap) h1 = (Inr (), h)"
            using snapshot_restores [OF assms(1,2) snap] inv by blast
          then obtain why where "resume_done L (rj_t0 J) v why 0 False (rv_applied v) h net2 = (Inr (n, reached, out), h', net')"
            using fin False unfolding resume_end_def Let_def by auto
          from resume_done_result [OF this] show ?thesis using self assms(2) by auto
        qed
      qed
    qed
  qed
qed

text \<open>However a replay ends, by a return or an exception, it has touched nothing but the rows of slots.\<close>

lemma resume_replay_frame:
  assumes "tensors_ok T P" "host_ok P h" "resume_replay W T L J events h net = (r, h', net')"
  shows "agree_off T P h' h (slot_cells h)"
proof -
  have self: "agree_off T P h h (slot_cells h)" using assms(2) by (auto simp: host_ok_def intro: agree_refl)
  show ?thesis
  proof (cases r)
    case (Inr q)
    obtain n reached out where "q = (n, reached, out)" by (metis prod_cases3)
    then show ?thesis using resume_replay_spec [OF assms(1,2)] assms(3) Inr by blast
  next
    case (Inl x)
    note run = assms(3) [unfolded Inl resume_replay_def]
    show ?thesis
    proof (cases "mapE (read_slot h) [0..<length (lh_slots h)]")
      case (Inl y)
      then show ?thesis using run self by simp
    next
      case snap: (Inr snap)
      obtain t net1 where clock: "read_clock L net = (t, net1)" by fastforce
      obtain lr h1 net2 where loop: "resume_loop W T L J events (no_vars t) h net1 = (lr, h1, net2)" by (metis prod_cases3)
      note inv = resume_loop_inv [OF assms(1,2) loop]
      have undone: "write_all T (zip [0..<length snap] snap) h1 = (Inr (), h)"
        using snapshot_restores [OF assms(1,2) snap] inv by blast
      note run = run [unfolded snap sum.case clock prod.case loop]
      show ?thesis using run inv undone
        by (cases lr) (auto simp: resume_end_def resume_done_def Let_def split: prod.splits bool.splits if_splits)
    qed
  qed
qed

lemma resume_frame:
  assumes "tensors_ok T P" "host_ok P h"
    "resume_to_root W T L target max_records own budget stall timeout man h net = (r, h', net')"
  shows "agree_off T P h' h (slot_cells h)"
proof -
  have self: "agree_off T P h h (slot_cells h)" using assms(2) by (auto simp: host_ok_def intro: agree_refl)
  show ?thesis using assms(3) self unfolding resume_to_root_def Let_def
    by (auto simp: resume_done_def split: prod.splits sum.splits bool.splits option.splits if_splits
        intro: resume_replay_frame [OF assms(1,2)])
qed

lemma resume_spec:
  assumes "tensors_ok T P" "host_ok P h"
    "resume_to_root W T L target max_records own budget stall timeout man h net = (Inr (n, reached, out), h', net')"
  shows "agree_off T P h' h (slot_cells h) \<and> host_ok P h' \<and> (\<not> reached \<longrightarrow> h' = h)
    \<and> (reached \<longrightarrow> own = None \<longrightarrow> target \<noteq> [] \<longrightarrow> model_root W T h' = Inr target) \<and> (ro_aborted out \<longrightarrow> \<not> reached)"
proof -
  have self: "agree_off T P h h (slot_cells h)" using assms(2) by (auto simp: host_ok_def intro: agree_refl)
  obtain t0 net1 where clock: "read_clock L net = (t0, net1)" by fastforce
  note run = assms(3) [unfolded resume_to_root_def clock prod.case Let_def]
  have early: ?thesis if "resume_done L t0 (no_vars t0) why 0 b 0 h m = (Inr (n, reached, out), h', net')"
    "b \<longrightarrow> target \<noteq> [] \<longrightarrow> model_root W T h = Inr target" "b \<longrightarrow> why \<notin> set CATCHUP_ABORTED" for why b m
    using resume_done_result [OF that(1)] that(2,3) self assms(2) by auto
  show ?thesis
  proof (cases "if target = [] then Inr True else bindE (model_root W T h) (\<lambda>r. Inr (r = target))")
    case (Inl x)
    then show ?thesis using run by simp
  next
    case (Inr same)
    note run = run [unfolded Inr sum.case]
    show ?thesis
    proof (cases same)
      case True
      have "target \<noteq> [] \<longrightarrow> model_root W T h = Inr target" using Inr True by (auto simp: bindE_Inr_iff)
      then show ?thesis using run True early [of "''already-at-root''" True net1] by (simp add: CATCHUP_ABORTED_def)
    next
      case False
      then have same: "same = False" by simp
      note run = run [unfolded same bool.case]
      define coord where "coord = (case own of None \<Rightarrow> Some None | Some c \<Rightarrow> map_option (\<lambda>i. Some (c, i)) (index_of h c))"
      note run = run [folded coord_def]
      show ?thesis
      proof (cases coord)
        case None
        then show ?thesis using run early [of "''not-registered''" False net1] by simp
      next
        case (Some o')
        obtain mr net2 where man: "resume_manifest L \<lparr>dn_call_timeout = timeout, dn_deadline = Some (xadd (XFin t0) budget)\<rparr> man net1 = (mr, net2)"
          by fastforce
        note run = run [unfolded Some option.case man prod.case]
        show ?thesis
        proof (cases mr)
          case (Inl why)
          then show ?thesis using run early [of why False net2] by simp
        next
          case (Inr m)
          note run = run [unfolded Inr sum.case]
          show ?thesis
          proof (cases "accepted_events_in (dkeys m) (host_campaign_id W h) = []")
            case True
            then show ?thesis using run early [of "''no-records''" False net2] by simp
          next
            case False
            have own: "own = None \<longrightarrow> o' = None" using Some by (auto simp: coord_def)
            show ?thesis using run False own
                resume_replay_spec [OF assms(1,2), of W L _ _ net2 n reached out h' net'] by (auto simp del: set_map)
          qed
        qed
      qed
    qed
  qed
qed

subsection \<open>The catch-up of the main loop\<close>

text \<open>What a record advertises: the roots of slots, or of the whole model, or nothing at all.\<close>

definition advertises_slots :: "json \<Rightarrow> bool" where
  "advertises_slots rcd \<longleftrightarrow> (\<exists>kv sr. get_or rcd ''slot_roots'' JNull = JObj (kv # sr))"

definition rootless :: "json \<Rightarrow> bool" where
  "rootless rcd \<longleftrightarrow> \<not> advertises_slots rcd \<and> get_or rcd ''model_root'' JNull = JNull"

text \<open>A folded record: where it advertises slot roots, every slot that changed has the root it
  advertises; else the whole model has the root of the record, unless it names none either.\<close>

definition checked_step :: "world \<Rightarrow> 'a tensors \<Rightarrow> 'a lane_host \<Rightarrow> json \<Rightarrow> 'a lane_host \<Rightarrow> bool" where
  "checked_step W T h rcd h' \<longleftrightarrow>
     (if advertises_slots rcd then \<forall>i. read_slot h' i \<noteq> read_slot h i \<longrightarrow> root_advertised W T h' rcd i
      else rootless rcd \<or> model_root W T h' = Inr (str_of W (get_or rcd ''model_root'' JNull)))"

lemma fold_ok_step:
  assumes "tensors_ok T P" "host_ok P h" "fold_accepted_checked W T fetch gate own rcd h net = (Inr FoldOk, h', net')"
  shows "checked_step W T h rcd h'"
  using fold_checked [OF assms] unfolding checked_step_def rootless_def advertises_slots_def by auto

lemma rootless_passes:
  assumes "replica_root_ok W T h rcd folded = Inr False"
  shows "\<not> rootless rcd"
proof
  assume none: "rootless rcd"
  obtain kvs where kvs: "rcd = JObj kvs" using assms by (cases rcd) (auto simp: replica_root_ok_def py_get_def)
  have get: "get_or rcd k JNull = dget kvs k JNull" for k by (simp add: kvs dget_def split: option.split)
  have "dget kvs ''model_root'' JNull = JNull" "\<forall>kv sr. dget kvs ''slot_roots'' JNull \<noteq> JObj (kv # sr)"
    using none unfolding rootless_def advertises_slots_def get by blast+
  then show False using assms
    by (cases "dget kvs ''slot_roots'' JNull") (auto simp: kvs replica_root_ok_def py_get_def split: list.splits)
qed

lemma fold_lineage_rooted:
  "fold_accepted_checked W T fetch gate own rcd h net = (Inr FoldLineage, h', net') \<Longrightarrow> \<not> rootless rcd"
  by (auto simp: fold_accepted_checked_def Let_def dest: rootless_passes split: prod.splits sum.splits if_splits bool.splits)

text \<open>The record of an event is what the lane answers, some time, for the hash in its manifest entry.\<close>

definition event_record :: "'a lane_net \<Rightarrow> (string, json) pydict \<Rightarrow> string option \<Rightarrow> int \<Rightarrow> json \<Rightarrow> bool" where
  "event_record L man campaign e rcd \<longleftrightarrow>
     (\<exists>sha n d. getE (dget man (accepted_name e campaign) JNull) ''sha256'' = Inr sha \<and> nw_json L n sha = (Some d, Inr rcd))"

lemma bounded_call_answer:
  "bounded_call L D reply s = (Inr v, s') \<Longrightarrow> \<exists>n d. reply n = (Some d, Inr v)"
  by (auto simp: bounded_call_def join_call_def Let_def map_sum_def split: prod.splits if_splits xfloat.splits option.splits sum.splits)

text \<open>A run over events: each with its own record, folded on the host the ones before have left.\<close>

inductive folded_run ::
  "world \<Rightarrow> 'a tensors \<Rightarrow> 'a lane_net \<Rightarrow> (string, json) pydict \<Rightarrow> 'a lane_host \<Rightarrow> (int \<times> json) list \<Rightarrow> 'a lane_host \<Rightarrow> bool"
  for W :: world and T :: "'a tensors" and L :: "'a lane_net" and man :: "(string, json) pydict" where
  nothing: "folded_run W T L man h [] h"
| one: "event_record L man (host_campaign_id W h) e rcd \<Longrightarrow> checked_step W T h rcd h1 \<Longrightarrow> folded_run W T L man h1 rest h2
    \<Longrightarrow> folded_run W T L man h ((e, rcd) # rest) h2"

inductive_cases folded_run_NilE: "folded_run W T L man h [] h'"
inductive_cases folded_run_ConsE: "folded_run W T L man h ((e, rcd) # rest) h'"

text \<open>How a catch-up stands when it ends: everything it counts is folded, or, at a row of its own that is
  refused, the rest of that record is on top of it.\<close>

definition poisoned_at ::
  "world \<Rightarrow> 'a tensors \<Rightarrow> 'a lane_net \<Rightarrow> (string, json) pydict \<Rightarrow> 'a lane_host \<Rightarrow> int \<Rightarrow> 'a lane_host \<Rightarrow> bool" where
  "poisoned_at W T L man h e h' \<longleftrightarrow>
     (\<exists>rcd fetch gate own n n' rejected. event_record L man (host_campaign_id W h) e rcd
        \<and> fold_accepted_checked W T fetch gate own rcd h n = (Inr (FoldPoison rejected), h', n'))"

lemma catch_up_loop_spec:
  assumes "tensors_ok T P"
  shows "host_ok P h \<Longrightarrow> catch_up_loop W T L D man gate own es r h net = (Inr r', h', net') \<Longrightarrow> cr_abort r = None \<Longrightarrow>
    \<exists>rcds hm. cr_folded r' = cr_folded r @ rcds \<and> length rcds \<le> length es
      \<and> cr_last r' = (if rcds = [] then cr_last r else es ! (length rcds - 1))
      \<and> cr_any r' = (cr_any r \<or> rcds \<noteq> []) \<and> folded_run W T L man h (zip es rcds) hm
      \<and> (cr_abort r' = None \<and> h' = hm
         \<or> cr_abort r' = Some 8 \<and> length rcds < length es \<and> poisoned_at W T L man hm (es ! length rcds) h')"
proof (induction es arbitrary: r h net)
  case Nil
  then show ?case by (auto intro: folded_run.nothing)
next
  case (Cons e es)
  define entry where "entry = dget man (accepted_name e (host_campaign_id W h)) JNull"
  note run = Cons.prems(2) [unfolded catch_up_loop.simps Let_def, folded entry_def]
  have stop: ?case if "r' = r" "h' = h"
    using that Cons.prems(3) by (intro exI [of _ "[]"] exI [of _ h]) (auto intro: folded_run.nothing)
  show ?case
  proof (cases "truthy entry")
    case False
    then show ?thesis using run stop by simp
  next
    case True
    show ?thesis
    proof (cases "getE entry ''sha256''")
      case (Inl x)
      then show ?thesis using run True stop by simp
    next
      case sha: (Inr sha)
      obtain ans net1 where ans: "bounded_call L D (\<lambda>n. nw_json L n sha) net = (ans, net1)" by fastforce
      note run = run [unfolded sha sum.case ans prod.case]
      show ?thesis
      proof (cases ans)
        case (Inl fault)
        then show ?thesis using run True stop by simp
      next
        case (Inr rcd)
        have own_record: "event_record L man (host_campaign_id W h) e rcd"
          using bounded_call_answer [OF ans [unfolded Inr]] sha unfolding event_record_def entry_def by blast
        obtain fr h1 net2 where fold: "fold_accepted_checked W T (\<lambda>cid. bounded_call L D (\<lambda>n. nw_delta L n cid)) gate own rcd h net1
            = (fr, h1, net2)" by (metis prod_cases3)
        note checked = fold_checked [OF assms Cons.prems(1) fold]
        note run = run [unfolded Inr sum.case fold prod.case]
        show ?thesis
        proof (cases fr)
          case (Inl fault)
          then show ?thesis using run True stop checked by (cases fault) auto
        next
          case (Inr out)
          show ?thesis
          proof (cases out)
            case (FoldPoison rej)
            then have "poisoned_at W T L man h e h1" using own_record fold Inr unfolding poisoned_at_def by blast
            then show ?thesis using run True Inr FoldPoison
              by (intro exI [of _ "[]"] exI [of _ h]) (auto intro: folded_run.nothing)
          next
            case FoldLineage
            then show ?thesis using run True Inr stop checked by auto
          next
            case FoldOk
            let ?r = "r\<lparr>cr_last := e, cr_any := True, cr_folded := cr_folded r @ [rcd]\<rparr>"
            have "catch_up_loop W T L D man gate own es ?r h1 net2 = (Inr r', h', net')" using run True Inr FoldOk by simp
            then obtain rcds hm where rcds: "cr_folded r' = cr_folded ?r @ rcds" "length rcds \<le> length es"
                "cr_last r' = (if rcds = [] then cr_last ?r else es ! (length rcds - 1))"
                "cr_any r' = (cr_any ?r \<or> rcds \<noteq> [])" "folded_run W T L man h1 (zip es rcds) hm"
                "cr_abort r' = None \<and> h' = hm
                 \<or> cr_abort r' = Some 8 \<and> length rcds < length es \<and> poisoned_at W T L man hm (es ! length rcds) h'"
              using Cons.IH [of h1 ?r net2] Cons.prems(3) checked by auto
            have "checked_step W T h rcd h1" using fold_ok_step [OF assms Cons.prems(1)] fold Inr FoldOk by blast
            then have "folded_run W T L man h (zip (e # es) (rcd # rcds)) hm"
              using own_record rcds(5) by (simp add: folded_run.one)
            then show ?thesis using rcds
              by (intro exI [of _ "rcd # rcds"] exI [of _ hm]) (auto simp: nth_Cons split: nat.splits)
          qed
        qed
      qed
    qed
  qed
qed

subsection \<open>The walk\<close>

text \<open>Everything of a host but the weights, which no replay touches, whatever torch does.\<close>

definition shell :: "'a lane_host \<Rightarrow> 'a lane_host" where
  "shell h = h\<lparr>lh_model := []\<rparr>"

named_theorems shells

lemma write_slot_shell [shells]: "write_slot T i d h = (r, h') \<Longrightarrow> shell h' = shell h"
  by (auto simp: write_slot_def put_row_def shell_def split: sum.splits prod.splits)

lemma view_write_shell [shells]: "view_write T j d v = (r, v') \<Longrightarrow> shell (sv_host v') = shell (sv_host v)"
  by (auto simp: view_write_def split: option.splits sum.splits prod.splits dest: write_slot_shell)

lemma write_all_shell [shells]: "write_all T js h = (r, h') \<Longrightarrow> shell h' = shell h"
  by (induction T js h rule: write_all.induct) (auto split: prod.splits sum.splits dest: write_slot_shell)

lemma rollback_shell [shells]: "rollback T v = (r, h') \<Longrightarrow> shell h' = shell (sv_host v)"
  by (auto simp: rollback_def dest: write_all_shell)

lemma fold_row_shell [shells]:
  "fold_row T gate tol own item slot o' cur d s = (r, s') \<Longrightarrow> shell (sv_host (fo_view s')) = shell (sv_host (fo_view s))"
  unfolding fold_row_def Let_def
  by (cases "if own = None \<or> own = Some (int slot) then gate else NoGate")
    (auto split: prod.splits sum.splits if_splits dest!: view_write_shell)

lemma apply_row_shell [shells]:
  "apply_row T fetch gate tol own item s = (r, s') \<Longrightarrow> shell (sv_host (fo_view s')) = shell (sv_host (fo_view s))"
  unfolding apply_row_def Let_def
  by (auto split: prod.splits sum.splits option.splits if_splits dest!: fold_row_shell)

lemma apply_rows_shell [shells]:
  "apply_rows T fetch gate tol own items s = (r, s') \<Longrightarrow> shell (sv_host (fo_view s')) = shell (sv_host (fo_view s))"
proof (induction items arbitrary: s)
  case (Cons it its)
  obtain r1 s1 where row: "apply_row T fetch gate tol own it s = (r1, s1)" by fastforce
  then show ?case using Cons apply_row_shell [OF row] by (cases r1) auto
qed simp

lemma apply_accepted_shell [shells]:
  "apply_accepted T fetch gate tol own rcd v net = (r, s) \<Longrightarrow> shell (sv_host (fo_view s)) = shell (sv_host v)"
  by (auto simp: apply_accepted_def Let_def split: sum.splits dest!: apply_rows_shell)

lemma fold_shell [shells]:
  assumes "fold_accepted_checked W T fetch gate own rcd h net = (r, h', net')"
  shows "shell h' = shell h"
proof -
  obtain r1 s where run: "apply_accepted T fetch gate None own rcd \<lparr>sv_host = h, sv_saved = Some []\<rparr> net = (r1, s)" by fastforce
  have s: "shell (sv_host (fo_view s)) = shell h" using apply_accepted_shell [OF run] by simp
  obtain r2 h2 where undo: "rollback T (fo_view s) = (r2, h2)" by fastforce
  have "shell h2 = shell h" using rollback_shell [OF undo] s by simp
  then show ?thesis using assms s
    by (auto simp: fold_accepted_checked_def run undo Let_def split: sum.splits if_splits bool.splits)
qed

lemma resume_loop_shell:
  "resume_loop W T L J es v h net = (r, h', net') \<Longrightarrow> shell h' = shell h"
proof (induction es arbitrary: v h net)
  case (Cons e es)
  have next_one: "shell h' = shell h" if "fold_accepted_checked W T f g ow rcd h n1 = (r1, h1, n2)" "resume_loop W T L J es v1 h1 n3 = (r, h', net')"
    for f g ow rcd n1 r1 h1 n2 v1 n3 using Cons.IH [OF that(2)] fold_shell [OF that(1)] by simp
  show ?case using Cons.prems
    by (auto simp: Let_def split: prod.splits option.splits sum.splits lane_fault.splits fold_outcome.splits bool.splits if_splits
        dest: Cons.IH fold_shell next_one)
qed simp

lemma resume_end_shell: "resume_end T L J snap v h net = (r, h', net') \<Longrightarrow> shell h' = shell h"
  by (auto simp: resume_end_def resume_done_def Let_def split: prod.splits sum.splits if_splits dest!: write_all_shell)

lemma resume_replay_shell: "resume_replay W T L J events h net = (r, h', net') \<Longrightarrow> shell h' = shell h"
  by (auto simp: resume_replay_def resume_done_def split: prod.splits sum.splits bool.splits
      dest!: resume_end_shell dest: resume_loop_shell)

lemma resume_shell:
  "resume_to_root W T L target max_records own budget stall timeout man h net = (r, h', net') \<Longrightarrow> shell h' = shell h"
  unfolding resume_to_root_def Let_def
  by (auto simp: resume_done_def split: prod.splits sum.splits bool.splits option.splits if_splits dest!: resume_replay_shell)

lemma shell_fields:
  assumes "shell h' = shell h"
  shows "lh_slots h' = lh_slots h" "index_of h' = index_of h" "lh_active h' = lh_active h" "is_claimable h' = is_claimable h"
    "registry_ok h' = registry_ok h" "lh_max_active h' = lh_max_active h"
proof -
  have "lh_slots h' = lh_slots h" "lh_index h' = lh_index h" "lh_active h' = lh_active h" "lh_claimable h' = lh_claimable h"
    "lh_max_active h' = lh_max_active h" using assms by (cases h; cases h'; simp add: shell_def)+
  then show "lh_slots h' = lh_slots h" "index_of h' = index_of h" "lh_active h' = lh_active h" "is_claimable h' = is_claimable h"
    "registry_ok h' = registry_ok h" "lh_max_active h' = lh_max_active h"
    by (simp_all add: index_of_def is_claimable_def registry_ok_def fun_eq_iff)
qed

lemma register_claimable: "register c h = (r, h') \<Longrightarrow> is_claimable h' = is_claimable h"
  by (auto simp: register_def repaired_def Let_def is_claimable_def fun_eq_iff
      split: if_splits option.splits prod.splits sum.splits dest!: repair_frame)

definition parked :: "cooldown \<Rightarrow> coord set" where
  "parked cd = set (dkeys (cd_parked cd))"

lemma blocked_parked:
  "blocked t cd c ev = (b, cd') \<Longrightarrow> parked cd - {c} \<subseteq> parked cd' \<and> (b \<longrightarrow> c \<in> parked cd' \<and> cd' = cd)"
proof -
  assume run: "blocked t cd c ev = (b, cd')"
  have popped: "parked (cd\<lparr>cd_parked := dpop c (cd_parked cd)\<rparr>) = parked cd - {c}"
    by (auto simp: parked_def delete_keys simp del: set_map)
  show ?thesis
  proof (cases "map_of (cd_parked cd) c")
    case None
    then show ?thesis using run by (auto simp: blocked_def)
  next
    case (Some p)
    then have "c \<in> parked cd" using map_of_eq_None_iff [of "cd_parked cd" c] by (auto simp: parked_def)
    then show ?thesis using run Some popped by (auto simp: blocked_def split: if_splits)
  qed
qed

lemma park_now_parked: "park_now L cd c ev why net = (cd', net') \<Longrightarrow> parked cd' = insert c (parked cd)"
  by (auto simp: park_now_def park_coord_def parked_def dkeys_dset simp del: set_map split: prod.splits)

text \<open>The walk: every candidate it passes is parked, and it ends at one that is registered and active.\<close>

lemma advance_walk_spec:
  assumes "distinct cs" "registry_ok h" "advance_walk W T L A cs cd h net = (Inr res, cd', h', net')"
  shows "registry_ok h' \<and> (\<forall>c i. index_of h c = Some i \<longrightarrow> index_of h' c = Some i) \<and> (\<exists>new. lh_slots h' = lh_slots h @ new)
    \<and> is_claimable h' = is_claimable h \<and> parked cd - set cs \<subseteq> parked cd'
    \<and> (case res of
         None \<Rightarrow> set cs \<subseteq> parked cd'
       | Some (c, i, n, reached) \<Rightarrow> (\<exists>pre post. cs = pre @ c # post \<and> set pre \<subseteq> parked cd') \<and> is_claimable h c
           \<and> index_of h' c = Some i \<and> i \<in> lh_active h')"
  using assms
proof (induction cs arbitrary: cd h net)
  case (Cons c cs)
  obtain t net1 where clock: "read_clock L net = (t, net1)" by fastforce
  obtain b cd1 where blk: "blocked t cd c (ae_event A) = (b, cd1)" by fastforce
  note parks = blocked_parked [OF blk]
  note run = Cons.prems(3) [unfolded advance_walk.simps clock prod.case blk]
  have goal: ?case if "advance_walk W T L A cs cd2 h2 net2 = (Inr res, cd', h', net')" "registry_ok h2"
      "\<forall>c i. index_of h c = Some i \<longrightarrow> index_of h2 c = Some i" "\<exists>new. lh_slots h2 = lh_slots h @ new" "is_claimable h2 = is_claimable h"
      "parked cd - {c} \<subseteq> parked cd2" "c \<in> parked cd2" for cd2 h2 net2
  proof -
    have dist: "distinct cs" "c \<notin> set cs" using Cons.prems(1) by simp_all
    note inv = Cons.IH [OF dist(1) that(2,1)]
    have c: "c \<in> parked cd'" using inv that(7) dist(2) by blast
    have kept: "parked cd - set (c # cs) \<subseteq> parked cd'" using inv that(6) by auto
    have frame: "registry_ok h' \<and> (\<forall>c i. index_of h c = Some i \<longrightarrow> index_of h' c = Some i) \<and> (\<exists>new. lh_slots h' = lh_slots h @ new)
        \<and> is_claimable h' = is_claimable h" using inv that(3-5) by auto
    show ?thesis
    proof (cases res)
      case None
      then show ?thesis using inv c kept frame by auto
    next
      case (Some q)
      obtain d i n reached where q: "q = (d, i, n, reached)" by (metis prod_cases4)
      obtain pre post where cut: "cs = pre @ d # post" "set pre \<subseteq> parked cd'" using inv Some q by auto
      have "\<exists>pre post. c # cs = pre @ d # post \<and> set pre \<subseteq> parked cd'"
        using cut c by (intro exI [of _ "c # pre"] exI [of _ post]) auto
      then show ?thesis using inv Some q kept frame that(5) by auto
    qed
  qed
  show ?case
  proof (cases b)
    case True
    then show ?thesis using run parks Cons.prems(2) by (intro goal [of cd1 h net1]) auto
  next
    case False
    then have nb: "b = False" by simp
    obtain r h1 where reg: "register c h = (r, h1)" by fastforce
    note step = registry_step [OF Cons.prems(2) reg]
    note claim = register_claimable [OF reg]
    note run = run [unfolded nb bool.case reg prod.case]
    show ?thesis
    proof (cases r)
      case (Inl x)
      obtain msg where msg: "refusal_text x = Some msg" using run Inl by (cases "refusal_text x") auto
      obtain cd2 net2 where park: "park_now L cd1 c (ae_event A) (''register refused ('' @ take 60 msg @ '')'') net1 = (cd2, net2)" by fastforce
      show ?thesis using run Inl msg park park_now_parked [OF park] parks step claim
        by (intro goal [of cd2 h1 net2]) (auto simp: extends_def)
    next
      case (Inr i)
      obtain rr h2 net2 where res: "resume_to_root W T L (ae_root A) 200000 (Some c) (ae_budget A) (ae_stall A) (ae_timeout A)
          (ae_manifest A) h1 net1 = (rr, h2, net2)" by (metis prod_cases3)
      note fields = shell_fields [OF resume_shell [OF res]]
      note run = run [unfolded Inr sum.case res prod.case]
      obtain n reached out where rr: "rr = Inr (n, reached, out)" using run by (cases rr) auto
      show ?thesis
      proof (cases "ro_aborted out")
        case True
        obtain cd3 net3 where park: "park_now L cd1 c (ae_event A) (''catch-up '' @ ro_reason out) net2 = (cd3, net3)" by fastforce
        show ?thesis using run rr True park park_now_parked [OF park] parks step claim fields
          by (intro goal [of cd3 h2 net3]) (auto simp: extends_def)
      next
        case False
        then have "res = Some (c, i, n, reached)" "cd' = cd1" "h' = h2" using run rr by auto
        moreover have "\<exists>pre post. c # cs = pre @ c # post \<and> set pre \<subseteq> parked cd'"
          by (intro exI [of _ "[]"] exI [of _ cs]) simp
        ultimately show ?thesis using parks step claim fields Inr by (auto simp: extends_def)
      qed
    qed
  qed
qed auto

end
