(* ===== verification/Lane_Props.thy ===== *)
theory Lane_Props
  imports Lane_Catchup_Facts
begin

text \<open>
  Properties of the lane replica: the registry, the checked fold, the replay, the catch-up, the walk and
  the detector of a lane that stands still; and the faults the model shows.
\<close>

subsection \<open>A lane for examples\<close>

definition toy_tensors :: "nat list tensors" where
  "toy_tensors = \<lparr>tn_shape = (\<lambda>x. [length x]), tn_bytes = map char_of, tn_step = (\<lambda>x c d. map2 (+) x d),
     tn_copy = (\<lambda>x y. Inr y), tn_lora = (\<lambda>s a b c d. Inl TypeError)\<rparr>"

definition toy_row :: "nat list \<Rightarrow> nat list expert" where
  "toy_row x = \<lparr>ex_gate = x, ex_up = x, ex_down = x\<rparr>"

definition toy_lane_host :: "bool \<Rightarrow> nat list \<Rightarrow> nat list lane_host" where
  "toy_lane_host al x = \<lparr>lh_model = [Experts [toy_row x]], lh_slots = [(0, 0)], lh_index = [((0, 0), 0)], lh_active = {0},
     lh_base = None, lh_claimable = None, lh_max_active = None, lh_aliases = al, lh_campaign = JNull\<rparr>"

definition toy_item :: "string \<Rightarrow> json" where
  "toy_item cid = JObj [(''layer'', JInt 0), (''glm_expert'', JInt 0), (''outer'', JNum (Fin 1)), (''cid'', JStr cid)]"

definition toy_root :: "nat \<Rightarrow> string" where
  "toy_root n = ''L0E0|down'' @ char_of n # ''gate'' @ char_of n # ''up'' @ [char_of n]"

definition toy_record :: "string list \<Rightarrow> string \<Rightarrow> json" where
  "toy_record cids advert = JObj [(''accepted'', JList (map toy_item cids)), (''slot_roots'', JObj [(''0_0'', JStr advert)])]"

definition toy_value :: "string \<Rightarrow> nat list" where
  "toy_value cid = (if cid = ''good'' then [1] else if cid = ''bad'' then [9] else [])"

definition toy_params :: "nat list \<Rightarrow> nat list params" where
  "toy_params x = [(''gate'', x), (''up'', x), (''down'', x)]"

definition toy_delta :: "json \<Rightarrow> nat list params" where
  "toy_delta cid = toy_params (case cid of JStr c \<Rightarrow> toy_value c | _ \<Rightarrow> [])"

definition toy_zero :: net_state where
  "toy_zero = \<lparr>ns_now = 0, ns_step = 0, ns_abandoned = 0\<rparr>"

definition toy_fetch :: "(net_state \<Rightarrow> net_state) \<Rightarrow> json \<Rightarrow> net_state \<Rightarrow> (lane_fault + nat list params) \<times> net_state" where
  "toy_fetch tick cid s = (Inr (toy_delta cid), tick s)"

lemma toy_tensors_ok: "tensors_ok toy_tensors (\<lambda>x. True)"
  by (simp add: tensors_ok_def toy_tensors_def)

lemma toy_place [simp]: "slot_place (toy_lane_host al x) 0 = Inr (0, 0, toy_row x)"
  by (simp add: slot_place_def toy_lane_host_def fused_def row_of_def)

lemma toy_cell: "cell (toy_lane_host al x) i = (if i = 0 then Inr (0, 0) else Inl IndexError)"
  by (simp add: cell_def) (simp add: slot_place_def toy_lane_host_def)

lemma toy_host_ok: "host_ok (\<lambda>x. True) (toy_lane_host al x)"
  by (auto simp: host_ok_def model_in_def expert_in_def toy_cell split: if_splits)
    (auto simp: toy_lane_host_def index_of_def split: if_splits)

lemma toy_write [simp]:
  "write_slot toy_tensors 0 [(''gate'', y), (''up'', y), (''down'', y)] (toy_lane_host al x) = (Inr (), toy_lane_host al y)"
  by (simp add: write_slot_def copy_part_def toy_tensors_def put_row_def) (simp add: toy_lane_host_def toy_row_def)

lemma toy_read: "read_slot (toy_lane_host al x) 0 = Inr [(''gate'', x), (''up'', x), (''down'', x)]"
  by (simp add: read_slot_def expert_dict_def toy_row_def)

lemma toy_resolve [simp]: "resolve_accepted_slot (toy_lane_host al x) (toy_item cid) = Inr (Some 0)"
  by (simp add: resolve_accepted_slot_def toy_item_def py_get_def int_or_none_def dget_def)
    (simp add: toy_lane_host_def index_of_def)

lemma toy_fields [simp]: "lh_campaign (toy_lane_host al x) = JNull" "lh_slots (toy_lane_host al x) = [(0, 0)]"
  "lh_model (toy_lane_host al x) = [Experts [toy_row x]]" "lh_aliases (toy_lane_host al x) = al"
  "index_of (toy_lane_host al x) c = (if c = (0, 0) then Some 0 else None)"
  by (simp_all add: toy_lane_host_def index_of_def)

lemma part_names: "sort [''gate'', ''up'', ''down''] = [''down'', ''gate'', ''up'']"
  by code_simp

lemma toy_slot_root [simp]: "slot_root toy_world toy_tensors (toy_lane_host al [n]) 0 = Inr (toy_root n)"
  by (simp add: slot_root_def slot_digest_def toy_read campaign_seed_def host_campaign_id_def normalize_campaign_id_def
      slot_bytes_def part_names toy_root_def toy_world_def toy_tensors_def int_str_0)

text \<open>The rows of the example: their delta, and the fold of one.\<close>

definition toy_saved :: "nat \<Rightarrow> (nat, nat list params) pydict \<Rightarrow> (nat, nat list params) pydict" where
  "toy_saved m saved = (if 0 \<in> set (dkeys saved) then saved else dset 0 (toy_params [m]) saved)"

definition toy_view :: "bool \<Rightarrow> nat \<Rightarrow> (nat, nat list params) pydict \<Rightarrow> nat list slots_view" where
  "toy_view al m saved = \<lparr>sv_host = toy_lane_host al [m], sv_saved = Some saved\<rparr>"

definition toy_state :: "bool \<Rightarrow> nat \<Rightarrow> (nat, nat list params) pydict \<Rightarrow> net_state \<Rightarrow> nat \<Rightarrow> json list \<Rightarrow> nat set \<Rightarrow> nat list fold_state" where
  "toy_state al m saved net n rej fd = \<lparr>fo_view = toy_view al m saved, fo_net = net, fo_count = n, fo_rejected = rej,
     fo_skipped = [], fo_folded = fd\<rparr>"

lemma toy_host_read: "read_slot (toy_lane_host al x) 0 = Inr (toy_params x)"
  by (simp add: toy_params_def toy_read)

lemma toy_view_write: "view_write toy_tensors 0 (toy_params [n]) (toy_view al m saved) = (Inr (), toy_view al n (toy_saved m saved))"
  by (simp add: view_write_def toy_view_def toy_saved_def toy_params_def toy_read)

lemma toy_stepped: "stepped toy_tensors o' (toy_params [m]) (toy_params [k]) = toy_params [m + k]"
  by (simp add: stepped_def toy_tensors_def toy_params_def)

lemma toy_match: "shapes_match toy_tensors (toy_params [m]) (toy_params y) = (length y = 1)"
  by (simp add: shapes_match_def toy_tensors_def toy_params_def)

lemma toy_host_of: "sv_host (toy_view al m saved) = toy_lane_host al [m]"
  by (simp add: toy_view_def)

lemma toy_fold_row:
  assumes "gate = NoGate \<or> own = Some (- 1)"
  shows "fold_row toy_tensors gate tol own item 0 o' (toy_params [m]) (toy_params [k]) (toy_state al m saved net n rej fd)
    = (Inr (), toy_state al (m + k) (toy_saved m saved) net (n + 1) rej (insert 0 fd))"
proof -
  have "(if own = None \<or> own = Some (int 0) then gate else NoGate) = NoGate" using assms by auto
  then show ?thesis by (simp add: fold_row_def toy_state_def toy_stepped toy_view_write)
qed

lemma toy_apply_row:
  assumes "gate = NoGate \<or> own = Some (- 1)"
  shows "apply_row toy_tensors (toy_fetch tick) gate tol own (toy_item cid) (toy_state al m saved net n rej fd) =
    (Inr (), case toy_value cid of
       [] \<Rightarrow> toy_state al m saved (tick net) n (rej @ [item_with (toy_item cid) [(''reason'', JStr ''shape-mismatch'')]]) fd
     | k # _ \<Rightarrow> toy_state al (m + k) (toy_saved m saved) (tick net) (n + 1) rej (insert 0 fd))"
proof -
  have keys: "getE (toy_item cid) ''cid'' = Inr (JStr cid)" "jindex (toy_item cid) ''outer'' = Some (JNum (Fin 1))"
    by (simp_all add: toy_item_def)
  have fetched: "toy_fetch tick (JStr cid) net = (Inr (toy_params (toy_value cid)), tick net)"
    by (simp add: toy_fetch_def toy_delta_def)
  have dense: "is_lora_payload (toy_params x) = False" for x by (simp add: is_lora_payload_def toy_params_def)
  have fields: "fo_view (toy_state al m saved net n rej fd) = toy_view al m saved" "fo_net (toy_state al m saved net n rej fd) = net"
    "toy_state al m saved net n rej fd\<lparr>fo_net := tick net\<rparr> = toy_state al m saved (tick net) n rej fd"
    "fo_view (toy_state al m saved (tick net) n rej fd) = toy_view al m saved"
    "fo_rejected (toy_state al m saved x n rej fd) = rej"
    "toy_state al m saved (tick net) n rej fd\<lparr>fo_rejected := r\<rparr> = toy_state al m saved (tick net) n r fd" for r x
    by (simp_all add: toy_state_def)
  show ?thesis
  proof (cases "toy_value cid")
    case Nil
    then show ?thesis
      by (simp add: apply_row_def fields toy_host_of keys py_float_def fetched Let_def dense toy_host_read toy_match)
  next
    case (Cons k r)
    then have "toy_value cid = [k]" by (auto simp: toy_value_def split: if_splits)
    then show ?thesis
      by (simp add: apply_row_def fields toy_host_of keys py_float_def fetched Let_def dense toy_host_read toy_match
          toy_fold_row [OF assms])
  qed
qed

lemma toy_items: "bindE (py_get (toy_record cids advert) ''accepted'' (JList [])) py_iter = Inr (map toy_item cids)"
  by (simp add: toy_record_def py_get_def dget_def)

lemma toy_start: "apply_accepted toy_tensors fetch gate tol own (toy_record cids advert) (toy_view al m []) net
    = apply_rows toy_tensors fetch gate tol own (map toy_item cids) (toy_state al m [] net 0 [] {})"
  unfolding apply_accepted_def Let_def toy_items by (simp add: toy_state_def)

lemma toy_advertised: "advertised (toy_lane_host al x) [(''0_0'', w)] [] = [(0, w)]"
proof -
  have "''0_0'' = int_str 0 @ CHR ''_'' # int_str 0" by (simp add: int_str_0)
  then have "partition_on CHR ''_'' ''0_0'' = (int_str 0, True, int_str 0)" using partition_at [of "CHR ''_''" "int_str 0" "int_str 0"] by simp
  moreover have "text_int (int_str 0) = Inr 0" by (simp add: text_int_def)
  ultimately show ?thesis by simp
qed

lemma toy_root_check:
  "replica_root_ok toy_world toy_tensors (toy_lane_host al [n]) (toy_record cids advert) {0} = Inr (advert = toy_root n)"
  by (simp add: replica_root_ok_def toy_record_def py_get_def dget_def toy_advertised Let_def eq_commute del: advertised.simps)

lemma toy_rollback: "rollback toy_tensors (toy_view al n [(0, toy_params [m])]) = (Inr (), toy_lane_host al [m])"
  by (simp add: rollback_def toy_view_def) (simp add: toy_params_def)

text \<open>An honest record is folded, one with another root is undone; a forged one whose second row does not
  fit is reported, and its first row stays.\<close>

lemma toy_folds:
  "fold_accepted_checked toy_world toy_tensors (toy_fetch tick) NoGate own (toy_record [''good''] advert) (toy_lane_host al [m]) net
     = (if advert = toy_root (m + 1) then (Inr FoldOk, toy_lane_host al [m + 1], tick net)
        else (Inr FoldLineage, toy_lane_host al [m], tick net))"
  "fold_accepted_checked toy_world toy_tensors (toy_fetch tick) NoGate own (toy_record [''bad'', ''short''] advert)
      (toy_lane_host al [m]) net
     = (Inr (FoldPoison [item_with (toy_item ''short'') [(''reason'', JStr ''shape-mismatch'')]]), toy_lane_host al [m + 9], tick (tick net))"
proof -
  note row = toy_apply_row [of NoGate own]
  have vals: "toy_value ''good'' = [1]" "toy_value ''bad'' = [9]" "toy_value ''short'' = []" by (simp_all add: toy_value_def)
  have fields: "fo_rejected (toy_state al k saved net n rej fd) = rej" "fo_view (toy_state al k saved net n rej fd) = toy_view al k saved"
    "fo_net (toy_state al k saved net n rej fd) = net" "fo_folded (toy_state al k saved net n rej fd) = fd" for k saved net n rej fd
    by (simp_all add: toy_state_def)
  have view: "\<lparr>sv_host = toy_lane_host al [m], sv_saved = Some []\<rparr> = toy_view al m []" by (simp add: toy_view_def)
  have saved: "toy_saved m [] = [(0, toy_params [m])]" by (simp add: toy_saved_def)
  have good: "apply_accepted toy_tensors (toy_fetch tick) NoGate None own (toy_record [''good''] advert) (toy_view al m []) net
      = (Inr (), toy_state al (m + 1) [(0, toy_params [m])] (tick net) 1 [] {0})"
    unfolding toy_start by (simp add: row vals saved)
  show "fold_accepted_checked toy_world toy_tensors (toy_fetch tick) NoGate own (toy_record [''good''] advert) (toy_lane_host al [m]) net
     = (if advert = toy_root (m + 1) then (Inr FoldOk, toy_lane_host al [m + 1], tick net)
        else (Inr FoldLineage, toy_lane_host al [m], tick net))"
    by (simp add: fold_accepted_checked_def view good [simplified] fields toy_host_of toy_root_check Let_def toy_rollback)
  have bad: "apply_accepted toy_tensors (toy_fetch tick) NoGate None own (toy_record [''bad'', ''short''] advert) (toy_view al m []) net
      = (Inr (), toy_state al (m + 9) [(0, toy_params [m])] (tick (tick net)) 1
          [item_with (toy_item ''short'') [(''reason'', JStr ''shape-mismatch'')]] {0})"
    unfolding toy_start by (simp add: row vals saved)
  show "fold_accepted_checked toy_world toy_tensors (toy_fetch tick) NoGate own (toy_record [''bad'', ''short''] advert)
      (toy_lane_host al [m]) net
     = (Inr (FoldPoison [item_with (toy_item ''short'') [(''reason'', JStr ''shape-mismatch'')]]), toy_lane_host al [m + 9], tick (tick net))"
    by (simp add: fold_accepted_checked_def view bad fields toy_host_of Let_def)
qed

subsection \<open>The registry\<close>

datatype registry_op = Register coord | Evict nat

definition registry_op_run :: "'a lane_host \<Rightarrow> registry_op \<Rightarrow> 'a lane_host" where
  "registry_op_run h op = (case op of Register c \<Rightarrow> snd (register c h) | Evict i \<Rightarrow> snd (evict i h))"

definition registry_run :: "registry_op list \<Rightarrow> 'a lane_host \<Rightarrow> 'a lane_host" where
  "registry_run ops h = foldl registry_op_run h ops"

lemma registry_op_step:
  assumes "registry_ok h"
  shows "registry_ok (registry_op_run h op) \<and> extends h (registry_op_run h op)
    \<and> lh_max_active (registry_op_run h op) = lh_max_active h
    \<and> (\<forall>n. lh_max_active h = Some n \<longrightarrow> int (card (lh_active (registry_op_run h op))) \<le> max n (int (card (lh_active h))))"
proof (cases op)
  case (Register c)
  obtain r h' where run: "register c h = (r, h')" by fastforce
  have "lh_max_active h' = lh_max_active h" using run
    by (auto simp: register_def repaired_def Let_def split: if_splits option.splits prod.splits sum.splits dest!: repair_frame)
  then show ?thesis using registry_step [OF assms run] Register run by (auto simp: registry_op_run_def)
next
  case (Evict i)
  obtain r h' where run: "evict i h = (r, h')" by fastforce
  have "lh_max_active h' = lh_max_active h" using run by (auto simp: evict_def split: if_splits)
  moreover have "card (lh_active h - {i}) \<le> card (lh_active h)"
    using assms by (intro card_mono) (auto simp: registry_ok_def intro: finite_subset)
  moreover have "registry_op_run h op = h'" using Evict run by (simp add: registry_op_run_def)
  moreover have "registry_ok h' \<and> extends h h'" "lh_active h' = lh_active h - {i}" using evict_step [OF assms run] by blast+
  ultimately show ?thesis by (simp add: le_max_iff_disj)
qed

lemma extends_trans: "extends a b \<Longrightarrow> extends b c \<Longrightarrow> extends a c"
  by (auto simp: extends_def)

text \<open>What a run keeps of the host it starts from.\<close>

definition grown_from :: "'a lane_host \<Rightarrow> 'a lane_host \<Rightarrow> bool" where
  "grown_from h0 h \<longleftrightarrow> registry_ok h \<and> extends h0 h \<and> lh_max_active h = lh_max_active h0
     \<and> (\<forall>n. lh_max_active h0 = Some n \<longrightarrow> int (card (lh_active h)) \<le> max n (int (card (lh_active h0))))"

interpretation registry: keeps_invariant registry_op_run "grown_from h0" for h0
proof
  fix h :: "'a lane_host" and op
  assume grown: "grown_from h0 h"
  then have "lh_max_active (registry_op_run h op) = lh_max_active h" using registry_op_step [of h op] by (simp add: grown_from_def)
  then show "grown_from h0 (registry_op_run h op)" using grown registry_op_step [of h op] extends_trans [of h0 h "registry_op_run h op"]
    by (fastforce simp: grown_from_def)
qed

lemma registry_run_step:
  "registry_ok h \<Longrightarrow> registry_ok (registry_run ops h) \<and> extends h (registry_run ops h)
    \<and> (\<forall>n. lh_max_active h = Some n \<longrightarrow> int (card (lh_active (registry_run ops h))) \<le> max n (int (card (lh_active h))))"
  using registry.run_inv [of h h ops] by (auto simp: grown_from_def registry_run_def extends_def)

text \<open>C32: however coordinates are registered, evicted and registered again, a slot index that
  was handed out names its coordinate for good, no two slots are confused, and the active set respects
  its bound once the first slots do.\<close>

theorem slot_index_is_for_life:
  assumes "h1 = registry_run ops1 (new_host model slots cl mx al cp)" "h2 = registry_run ops2 h1" "index_of h1 c = Some i"
  shows "index_of h2 c = Some i \<and> i < length (lh_slots h2) \<and> lh_slots h2 ! i = c \<and> lh_slots h1 ! i = c
    \<and> (\<forall>n. mx = Some n \<longrightarrow> int (length slots) \<le> n \<longrightarrow> int (card (lh_active h2)) \<le> n)"
proof -
  let ?h0 = "new_host model slots cl mx al cp"
  have h1: "registry_ok h1" using registry_run_step [OF new_host_registry] assms(1) by blast
  then have h2: "registry_ok h2" "extends h1 h2" using registry_run_step assms(2) by blast+
  have all: "h2 = registry_run (ops1 @ ops2) ?h0" by (simp add: assms(1,2) registry_run_def)
  have "lh_max_active ?h0 = mx" "card (lh_active ?h0) = length slots" by (simp_all add: new_host_def)
  then have seats: "mx = Some n \<Longrightarrow> int (card (lh_active h2)) \<le> max n (int (length slots))" for n
    using registry_run_step [OF new_host_registry, of "ops1 @ ops2" model slots cl mx al cp] all by simp
  have "index_of h2 c = Some i" using h2(2) assms(3) unfolding extends_def by blast
  then have "index_of h2 c = Some i \<and> i < length (lh_slots h2) \<and> lh_slots h2 ! i = c" "lh_slots h1 ! i = c"
    using h1 h2(1) assms(3) unfolding registry_ok_def by blast+
  then show ?thesis using seats by fastforce
qed

lemma slot_index_is_for_life_witness:
  "index_of (registry_run [Evict 0, Register (2, 3)] (registry_run [Register (1, 1)]
     (new_host [] [(0, 0)] None (Some 2) False JNull) :: nat lane_host)) (1, 1) = Some 1"
proof -
  have "index_of (registry_run [Register (1, 1)] (new_host [] [(0, 0)] None (Some 2) False JNull) :: nat lane_host) (1, 1) = Some 1"
    by (simp add: registry_run_def registry_op_run_def register_def new_host_def is_claimable_def seats_full_def repaired_def
        repair_base_slot_def index_of_def Let_def)
  from slot_index_is_for_life [OF refl refl this, of "[Evict 0, Register (2, 3)]"] show ?thesis by blast
qed

subsection \<open>The checked fold\<close>




text \<open>The record of the example without its roots is folded whatever its rows hold.\<close>

definition toy_bare :: "string list \<Rightarrow> json" where
  "toy_bare cids = JObj [(''accepted'', JList (map toy_item cids))]"

lemma rootless_record_folds_anything:
  "rootless (toy_bare [''bad''])
   \<and> fold_accepted_checked toy_world toy_tensors (toy_fetch tick) NoGate own (toy_bare [''bad'']) (toy_lane_host al [m]) net
     = (Inr FoldOk, toy_lane_host al [m + 9], tick net)"
proof
  show "rootless (toy_bare [''bad''])" by (simp add: rootless_def advertises_slots_def toy_bare_def)
  have fields: "fo_rejected (toy_state al k saved net n rej fd) = rej" "fo_view (toy_state al k saved net n rej fd) = toy_view al k saved"
    "fo_net (toy_state al k saved net n rej fd) = net" "fo_folded (toy_state al k saved net n rej fd) = fd" for k saved net n rej fd
    by (simp_all add: toy_state_def)
  have items: "bindE (py_get (toy_bare [''bad'']) ''accepted'' (JList [])) py_iter = Inr [toy_item ''bad'']"
    by (simp add: toy_bare_def py_get_def dget_def)
  have view: "\<lparr>sv_host = toy_lane_host al [m], sv_saved = Some []\<rparr> = toy_view al m []" by (simp add: toy_view_def)
  have "apply_accepted toy_tensors (toy_fetch tick) NoGate None own (toy_bare [''bad'']) (toy_view al m []) net
      = apply_rows toy_tensors (toy_fetch tick) NoGate None own [toy_item ''bad''] (toy_state al m [] net 0 [] {})"
    unfolding apply_accepted_def Let_def items by (simp add: toy_state_def)
  moreover have "toy_value ''bad'' = [9]" by (simp add: toy_value_def)
  ultimately have folded: "apply_accepted toy_tensors (toy_fetch tick) NoGate None own (toy_bare [''bad'']) (toy_view al m []) net
      = (Inr (), toy_state al (m + 9) (toy_saved m []) (tick net) 1 [] {0})"
    by (simp add: toy_apply_row [of NoGate own])
  have "replica_root_ok toy_world toy_tensors h (toy_bare [''bad'']) folded = Inr True" for h folded
    by (simp add: replica_root_ok_def toy_bare_def py_get_def dget_def)
  then show "fold_accepted_checked toy_world toy_tensors (toy_fetch tick) NoGate own (toy_bare [''bad'']) (toy_lane_host al [m]) net
     = (Inr FoldOk, toy_lane_host al [m + 9], tick net)"
    by (simp add: fold_accepted_checked_def view folded fields toy_host_of Let_def)
qed

subsection \<open>Replay and catch-up\<close>

definition toy_net :: "(json \<Rightarrow> json) \<Rightarrow> nat list lane_net" where
  "toy_net stored = \<lparr>nw_manifest = (\<lambda>n. (None, Inl KeyError)), nw_json = (\<lambda>n k. (Some 0, Inr (stored k))),
     nw_delta = (\<lambda>n k. (Some 0, Inr (toy_delta k))), nw_lag = (\<lambda>n. 0), nw_join_max = 4294967\<rparr>"

definition toy_tick :: "nat \<Rightarrow> net_state \<Rightarrow> net_state" where
  "toy_tick k s = s\<lparr>ns_step := ns_step s + k\<rparr>"

lemma toy_clock: "read_clock (toy_net stored) s = (ns_now s, toy_tick 1 s)"
  by (cases s) (simp add: read_clock_def toy_net_def toy_tick_def Let_def)

lemma toy_call:
  "bounded_call (toy_net stored) \<lparr>dn_call_timeout = XFin 90, dn_deadline = Some PosInf\<rparr> (\<lambda>n. (Some 0, Inr x)) s = (Inr x, toy_tick 2 s)"
  "bounded_call (toy_net stored) \<lparr>dn_call_timeout = XFin 90, dn_deadline = None\<rparr> (\<lambda>n. (Some 0, Inr x)) s = (Inr x, toy_tick 1 s)"
proof -
  have join: "nw_join_max (toy_net stored) = 4294967" by (simp add: toy_net_def)
  show "bounded_call (toy_net stored) \<lparr>dn_call_timeout = XFin 90, dn_deadline = Some PosInf\<rparr> (\<lambda>n. (Some 0, Inr x)) s = (Inr x, toy_tick 2 s)"
    by (cases s) (simp add: bounded_call_def lane_remaining_def toy_clock call_budget_def xsub_def Let_def join_call_def join toy_tick_def)
  show "bounded_call (toy_net stored) \<lparr>dn_call_timeout = XFin 90, dn_deadline = None\<rparr> (\<lambda>n. (Some 0, Inr x)) s = (Inr x, toy_tick 1 s)"
    by (cases s) (simp add: bounded_call_def lane_remaining_def call_budget_def Let_def join_call_def join toy_tick_def)
qed

lemma toy_calls:
  "bounded_call (toy_net stored) \<lparr>dn_call_timeout = XFin 90, dn_deadline = Some PosInf\<rparr> (\<lambda>n. nw_json (toy_net stored) n k) s
     = (Inr (stored k), toy_tick 2 s)"
  "bounded_call (toy_net stored) \<lparr>dn_call_timeout = XFin 90, dn_deadline = None\<rparr> (\<lambda>n. nw_json (toy_net stored) n k) s
     = (Inr (stored k), toy_tick 1 s)"
  "(\<lambda>cid. bounded_call (toy_net stored) \<lparr>dn_call_timeout = XFin 90, dn_deadline = Some PosInf\<rparr> (\<lambda>n. nw_delta (toy_net stored) n cid))
     = toy_fetch (toy_tick 2)"
  "(\<lambda>cid. bounded_call (toy_net stored) \<lparr>dn_call_timeout = XFin 90, dn_deadline = None\<rparr> (\<lambda>n. nw_delta (toy_net stored) n cid))
     = toy_fetch (toy_tick 1)"
  by (simp_all add: toy_call toy_fetch_def fun_eq_iff) (simp_all add: toy_net_def toy_call [unfolded toy_net_def])

definition toy_entry :: "string \<Rightarrow> json" where
  "toy_entry sha = JObj [(''sha256'', JStr sha)]"

definition toy_man :: "(string, json) pydict" where
  "toy_man = [(accepted_name 1 None, toy_entry ''a''), (accepted_name 2 None, toy_entry ''b'')]"

lemma toy_events: "accepted_events_in (dkeys toy_man) None = [1, 2]"
  unfolding toy_man_def by code_simp

lemma toy_man_get: "dget toy_man (accepted_name 1 None) JNull = toy_entry ''a''" "dget toy_man (accepted_name 2 None) JNull = toy_entry ''b''"
  by (simp_all add: toy_man_def dget_def)

lemma toy_entry_simps: "truthy (toy_entry sha)" "getE (toy_entry sha) ''sha256'' = Inr (JStr sha)"
  by (simp_all add: toy_entry_def)

lemma toy_campaign: "host_campaign_id W (toy_lane_host al x) = None"
  by (simp add: host_campaign_id_def normalize_campaign_id_def)

text \<open>C30: a replay that returns without having reached its target leaves the replica as it was,
  whichever bound or fault ended it; one towards the root of the whole model that returns success has
  reproduced that root; and one that a bound aborted never returns success. A replay that raises restores
  nothing: what it has folded stays (\<^verbatim>\<open>raising_replay_keeps_rows\<close>). However it ends, it has changed
  nothing of the host but the weights in the rows of its slots.\<close>

theorem replay_reaches_or_restores:
  assumes "tensors_ok T P" "host_ok P h"
    "resume_to_root W T L target max_records own budget stall timeout man h net = (r, h', net')"
  shows "(\<forall>n reached out. r = Inr (n, reached, out) \<longrightarrow>
        (\<not> reached \<longrightarrow> h' = h) \<and> (reached \<longrightarrow> own = None \<longrightarrow> target \<noteq> [] \<longrightarrow> model_root W T h' = Inr target)
        \<and> (ro_aborted out \<longrightarrow> \<not> reached))
    \<and> shell h' = shell h
    \<and> (\<forall>c. is_cell (lh_model h) c \<longrightarrow> c \<notin> slot_cells h \<longrightarrow> row_at (lh_model h') c = row_at (lh_model h) c)"
proof (intro conjI allI)
  show "r = Inr (n, reached, out) \<longrightarrow> (\<not> reached \<longrightarrow> h' = h) \<and> (reached \<longrightarrow> own = None \<longrightarrow> target \<noteq> [] \<longrightarrow> model_root W T h' = Inr target)
      \<and> (ro_aborted out \<longrightarrow> \<not> reached)" for n reached out
    using resume_spec [OF assms(1,2)] assms(3) by blast
  show "shell h' = shell h" by (rule resume_shell [OF assms(3)])
  show "is_cell (lh_model h) c \<longrightarrow> c \<notin> slot_cells h \<longrightarrow> row_at (lh_model h') c = row_at (lh_model h) c" for c
    using resume_frame [OF assms] unfolding agree_off_def by blast
qed

text \<open>The two stored records of the example.\<close>

definition toy_stored :: "json \<Rightarrow> json \<Rightarrow> json \<Rightarrow> json" where
  "toy_stored r1 r2 k = (if k = JStr ''a'' then r1 else r2)"

definition toy_job :: resume_job where
  "toy_job = \<lparr>rj_target = ''t'', rj_coord = Some ((0, 0), 0), rj_budget = PosInf, rj_stall = XFin 0, rj_t0 = 0,
     rj_lane = \<lparr>dn_call_timeout = XFin 90, dn_deadline = Some PosInf\<rparr>, rj_manifest = toy_man\<rparr>"

lemma toy_bound: "bound_hit (toy_net stored) toy_job v net = (None, toy_tick 1 net)"
  by (simp add: bound_hit_def toy_clock toy_job_def)

lemma toy_applicable: "applicability toy_job (toy_record cids advert) = Inr (Some (JStr advert, True))"
  by (simp add: applicability_def toy_job_def toy_record_def py_get_def dget_def coord_text_def int_str_0)

lemma toy_after: "after_fold toy_world toy_tensors toy_job (JStr advert) (toy_lane_host al [n]) v
    = Inr (False, v\<lparr>rv_applied := rv_applied v + 1, rv_want := Some advert, rv_hit := (toy_root n = advert)\<rparr>)"
  by (simp add: after_fold_def toy_job_def Let_def)

lemma toy_step_honest:
  assumes "stored (JStr sha) = toy_record [''good''] (toy_root (m + 1))" "dget toy_man (accepted_name e None) JNull = toy_entry sha"
  shows "resume_loop toy_world toy_tensors (toy_net stored) toy_job (e # es) v (toy_lane_host al [m]) net
    = resume_loop toy_world toy_tensors (toy_net stored) toy_job es
        (v\<lparr>rv_progress := ns_now net, rv_scanned := rv_scanned v + 1, rv_applicable := rv_applicable v + 1,
           rv_applied := rv_applied v + 1, rv_want := Some (toy_root (m + 1)), rv_hit := True\<rparr>)
        (toy_lane_host al [m + 1]) (toy_tick 2 (toy_tick 2 (toy_tick 1 (toy_tick 1 net))))"
proof -
  have lane: "rj_manifest toy_job = toy_man" "rj_lane toy_job = \<lparr>dn_call_timeout = XFin 90, dn_deadline = Some PosInf\<rparr>"
    by (simp_all add: toy_job_def)
  have tick: "ns_now (toy_tick k s) = ns_now s" for k s by (simp add: toy_tick_def)
  show ?thesis
    by (simp add: toy_bound lane toy_campaign assms(2) toy_entry_simps toy_clock toy_calls assms(1) toy_applicable toy_folds(1) toy_after
        Let_def tick del: resume_loop.simps(1))
qed

lemma toy_step_forged:
  assumes "stored (JStr sha) = toy_record [''bad'', ''short''] advert" "dget toy_man (accepted_name e None) JNull = toy_entry sha"
  shows "resume_loop toy_world toy_tensors (toy_net stored) toy_job (e # es) v (toy_lane_host al [m]) net
    = resume_loop toy_world toy_tensors (toy_net stored) toy_job es
        (v\<lparr>rv_progress := ns_now net, rv_scanned := rv_scanned v + 1, rv_applicable := rv_applicable v + 1\<rparr>)
        (toy_lane_host al [m + 9]) (toy_tick 2 (toy_tick 2 (toy_tick 2 (toy_tick 1 (toy_tick 1 net)))))"
proof -
  have lane: "rj_manifest toy_job = toy_man" "rj_lane toy_job = \<lparr>dn_call_timeout = XFin 90, dn_deadline = Some PosInf\<rparr>"
    by (simp_all add: toy_job_def)
  have tick: "ns_now (toy_tick k s) = ns_now s" for k s by (simp add: toy_tick_def)
  show ?thesis
    by (simp add: toy_bound lane toy_campaign assms(2) toy_entry_simps toy_clock toy_calls assms(1) toy_applicable toy_folds(2)
        Let_def tick del: resume_loop.simps(1))
qed

lemma toy_step_off_lineage:
  assumes "stored (JStr sha) = toy_record [''good''] advert" "dget toy_man (accepted_name e None) JNull = toy_entry sha"
    "advert \<noteq> toy_root (m + 1)"
  shows "resume_loop toy_world toy_tensors (toy_net stored) toy_job (e # es) v (toy_lane_host al [m]) net
    = resume_loop toy_world toy_tensors (toy_net stored) toy_job es
        (v\<lparr>rv_progress := ns_now net, rv_scanned := rv_scanned v + 1, rv_applicable := rv_applicable v + 1\<rparr>)
        (toy_lane_host al [m]) (toy_tick 2 (toy_tick 2 (toy_tick 1 (toy_tick 1 net))))"
proof -
  have lane: "rj_manifest toy_job = toy_man" "rj_lane toy_job = \<lparr>dn_call_timeout = XFin 90, dn_deadline = Some PosInf\<rparr>"
    by (simp_all add: toy_job_def)
  have tick: "ns_now (toy_tick k s) = ns_now s" for k s by (simp add: toy_tick_def)
  show ?thesis using assms(3)
    by (simp add: toy_bound lane toy_campaign assms(2) toy_entry_simps toy_clock toy_calls assms(1) toy_applicable toy_folds(1)
        Let_def tick del: resume_loop.simps(1))
qed

definition toy_resume :: "json \<Rightarrow> json \<Rightarrow> (exn + nat \<times> bool \<times> resume_outcome) \<times> nat list lane_host \<times> net_state" where
  "toy_resume r1 r2 = resume_to_root toy_world toy_tensors (toy_net (toy_stored r1 r2)) ''t'' 10 (Some (0, 0)) PosInf (XFin 0) (XFin 90)
     (Some toy_man) (toy_lane_host False [0]) \<lparr>ns_now = 0, ns_step = 0, ns_abandoned = 0\<rparr>"

lemma toy_model_root: "model_root toy_world toy_tensors (toy_lane_host al [n]) = Inr (toy_root n)"
  by (simp add: model_root_def slot_digest_def toy_read campaign_seed_def host_campaign_id_def normalize_campaign_id_def
      slot_bytes_def part_names toy_root_def toy_world_def toy_tensors_def int_str_0)

text \<open>A replay of the example is its loop, then its end.\<close>

lemma toy_resume_runs:
  "toy_resume r1 r2 = (case resume_loop toy_world toy_tensors (toy_net (toy_stored r1 r2)) toy_job [1, 2] (no_vars 0) (toy_lane_host False [0])
        (toy_tick 1 (toy_tick 1 \<lparr>ns_now = 0, ns_step = 0, ns_abandoned = 0\<rparr>)) of
      (Inl x, h, net) \<Rightarrow> (Inl x, h, net)
    | (Inr (True, v), h, net) \<Rightarrow> resume_done (toy_net (toy_stored r1 r2)) (rj_t0 toy_job) v ''ok'' (rv_applied v) True (rv_applied v) h net
    | (Inr (False, v), h, net) \<Rightarrow> resume_end toy_tensors (toy_net (toy_stored r1 r2)) toy_job [toy_params [0]] v h net)"
proof -
  have other: "toy_root 0 \<noteq> ''t''" by (simp add: toy_root_def)
  have snap: "mapE (read_slot (toy_lane_host False [0])) [0..<Suc 0] = Inr [toy_params [0]]" by (simp add: toy_host_read)
  have tick: "ns_now (toy_tick k s) = ns_now s" for k s by (simp add: toy_tick_def)
  show ?thesis
    unfolding toy_resume_def resume_to_root_def toy_clock prod.case Let_def toy_model_root bindE_simps
    by (simp add: other resume_manifest_def toy_campaign toy_events resume_replay_def snap toy_clock tick flip: toy_job_def
        del: resume_loop.simps set_map list.set_map upt_Suc cong: sum.case_cong)
qed

lemma toy_off_lineage_run:
  "\<exists>out net. toy_resume (toy_record [''good''] ''x'') (toy_record [''good''] ''x'') = (Inr (0, False, out), toy_lane_host False [0], net)"
proof -
  let ?st = "toy_stored (toy_record [''good''] ''x'') (toy_record [''good''] ''x'')"
  have st: "?st (JStr ''a'') = toy_record [''good''] ''x''" "?st (JStr ''b'') = toy_record [''good''] ''x''"
    by (simp_all add: toy_stored_def)
  have x: "''x'' \<noteq> toy_root (0 + 1)" by (simp add: toy_root_def)
  have fields: "rj_t0 toy_job = 0" "rj_coord toy_job = Some ((0, 0), 0)" by (simp_all add: toy_job_def)
  have undo: "write_slot toy_tensors 0 (toy_params [0]) (toy_lane_host False [0]) = (Inr (), toy_lane_host False [0])"
    by (simp add: toy_params_def)
  note step = toy_step_off_lineage [of ?st "''a''" "''x''" 1 0, OF st(1) toy_man_get(1) x]
    toy_step_off_lineage [of ?st "''b''" "''x''" 2 0, OF st(2) toy_man_get(2) x]
  show ?thesis unfolding toy_resume_runs
    by (simp add: step resume_end_def fields no_vars_def resume_done_def toy_clock undo Let_def del: resume_loop.simps(2))
qed

lemma replay_reaches_or_restores_witness:
  "fst (snd (toy_resume (toy_record [''good''] ''x'') (toy_record [''good''] ''x''))) = toy_lane_host False [0]"
proof -
  obtain out net where run: "toy_resume (toy_record [''good''] ''x'') (toy_record [''good''] ''x'')
      = (Inr (0, False, out), toy_lane_host False [0], net)" using toy_off_lineage_run by blast
  then show ?thesis
    using replay_reaches_or_restores [OF toy_tensors_ok toy_host_ok run [unfolded toy_resume_def]] by simp
qed

text \<open>An accepted row without a cid ends the replay with a KeyError; the record folded before it stays.\<close>

definition toy_nocid :: json where
  "toy_nocid = JObj [(''accepted'', JList [JObj [(''layer'', JInt 0), (''glm_expert'', JInt 0), (''outer'', JNum (Fin 1))]]),
     (''slot_roots'', JObj [(''0_0'', JStr ''x'')])]"

lemma toy_nocid_raises:
  "fold_accepted_checked toy_world toy_tensors fetch NoGate own toy_nocid (toy_lane_host al x) net
     = (Inl (Raised KeyError), toy_lane_host al x, net)"
proof -
  let ?item = "JObj [(''layer'', JInt 0), (''glm_expert'', JInt 0), (''outer'', JNum (Fin 1))]"
  have items: "bindE (py_get toy_nocid ''accepted'' (JList [])) py_iter = Inr [?item]"
    by (simp add: toy_nocid_def py_get_def dget_def)
  have slot: "resolve_accepted_slot (toy_lane_host al x) ?item = Inr (Some 0)"
    by (simp add: resolve_accepted_slot_def py_get_def int_or_none_def dget_def)
  have keys: "jindex ?item ''outer'' = Some (JNum (Fin 1))" "getE ?item ''cid'' = Inl KeyError" by simp_all
  show ?thesis
    unfolding fold_accepted_checked_def apply_accepted_def Let_def items
    by (simp add: apply_row_def slot keys py_float_def rollback_def )
qed

lemma raising_replay_keeps_rows:
  "\<exists>net. toy_resume (toy_record [''good''] (toy_root 1)) toy_nocid = (Inl KeyError, toy_lane_host False [1], net)"
proof -
  let ?st = "toy_stored (toy_record [''good''] (toy_root 1)) toy_nocid"
  have st: "?st (JStr ''a'') = toy_record [''good''] (toy_root (0 + 1))"
    by (simp_all add: toy_stored_def)
  have lane: "rj_manifest toy_job = toy_man" "rj_lane toy_job = \<lparr>dn_call_timeout = XFin 90, dn_deadline = Some PosInf\<rparr>"
    by (simp_all add: toy_job_def)
  have named: "applicability toy_job toy_nocid = Inr (Some (JStr ''x'', True))"
    by (simp add: applicability_def toy_job_def toy_nocid_def py_get_def dget_def coord_text_def int_str_0)
  have second: "toy_stored r1 r2 (JStr ''b'') = r2" for r1 r2 by (simp add: toy_stored_def)
  note step = toy_step_honest [of ?st "''a''" 0 1, OF st toy_man_get(1)]
  have last: "\<exists>net'. resume_loop toy_world toy_tensors (toy_net ?st) toy_job [2] v (toy_lane_host False [1]) net
      = (Inl KeyError, toy_lane_host False [1], net')" for v net
    by (simp add: toy_bound lane toy_campaign toy_man_get(2) toy_entry_simps toy_clock toy_calls second named toy_nocid_raises Let_def)
  obtain f where f: "resume_loop toy_world toy_tensors (toy_net ?st) toy_job [2] v (toy_lane_host False [1]) net
      = (Inl KeyError, toy_lane_host False [1], f v net)" for v net using last by metis
  show ?thesis unfolding toy_resume_runs step by (simp add: f del: resume_loop.simps One_nat_def)
qed

text \<open>A record that was forged to fail after its first row is counted as off-lineage, "already rolled
  back", by the replay; its first row stays. Appended to the honest records of a coordinate it is
  replayed after them, and the replay reports that the advertised root was reached, from a slot it has
  not looked at since.\<close>

theorem forged_tail_is_trained_on:
  "\<exists>out net. toy_resume (toy_record [''good''] (toy_root 1)) (toy_record [''bad'', ''short''] ''x'')
       = (Inr (1, True, out), toy_lane_host False [10], net)
     \<and> ro_reason out = ''ok'' \<and> slot_root toy_world toy_tensors (toy_lane_host False [10]) 0 \<noteq> Inr (toy_root 1)"
proof -
  let ?st = "toy_stored (toy_record [''good''] (toy_root 1)) (toy_record [''bad'', ''short''] ''x'')"
  have st: "?st (JStr ''a'') = toy_record [''good''] (toy_root (0 + 1))" "?st (JStr ''b'') = toy_record [''bad'', ''short''] ''x''"
    by (simp_all add: toy_stored_def)
  have roots: "toy_root 10 \<noteq> toy_root 1" by (simp add: toy_root_def)
  have fields: "rj_t0 toy_job = 0" "rj_coord toy_job = Some ((0, 0), 0)" by (simp_all add: toy_job_def)
  note step = toy_step_honest [of ?st "''a''" 0 1, OF st(1) toy_man_get(1)]
    toy_step_forged [of ?st "''b''" "''x''" 2 _ _ _ 1, OF st(2) toy_man_get(2)]
  show ?thesis unfolding toy_resume_runs
    by (simp add: step resume_end_def fields no_vars_def resume_done_def toy_clock roots Let_def del: resume_loop.simps(2) One_nat_def)
qed

subsection \<open>The catch-up of the main loop\<close>




subsection \<open>Advancing\<close>

definition toy_advance :: advance_env where
  "toy_advance = \<lparr>ae_claim_coords = [(0, 0), (0, 1)], ae_identity = None, ae_ranked = [], ae_root = [], ae_event = None,
     ae_budget = PosInf, ae_stall = XFin 0, ae_timeout = XFin 90, ae_manifest = None\<rparr>"

definition toy_parks :: cooldown where
  "toy_parks = \<lparr>cd_seconds = XFin 0, cd_events = 0, cd_parked = []\<rparr>"

lemma advance_lands_on_a_registered_claim_lemma:
  assumes "distinct (ae_claim_coords A)" "registry_ok h" "advance_claim W T L A current cd h net = (Inr res, cd', h', net')"
  shows "registry_ok h'
    \<and> (case res of
         None \<Rightarrow> length (ae_claim_coords A) \<le> 1 \<or> set (ae_claim_coords A) - {current} \<subseteq> parked cd'
       | Some (c, i, n, reached) \<Rightarrow> c \<in> set (ae_claim_coords A) - {current} \<and> is_claimable h c
           \<and> index_of h' c = Some i \<and> i \<in> lh_active h'
           \<and> set (takeWhile (\<lambda>d. d \<noteq> c) (advance_candidates
               (claim_walk_order W (ae_claim_coords A) (ae_identity A) (ae_ranked A)) current)) \<subseteq> parked cd')"
proof -
  define order where "order = claim_walk_order W (ae_claim_coords A) (ae_identity A) (ae_ranked A)"
  have order: "distinct order" "set order = set (ae_claim_coords A)" using walk_order_permutes [OF assms(1)] by (simp_all add: order_def)
  have len: "length order = length (ae_claim_coords A)" using order assms(1) by (metis distinct_card)
  let ?cands = "advance_candidates order current"
  have cands: "distinct ?cands" "set ?cands = set (ae_claim_coords A) - {current}"
    using rotation_distinct [OF order(1)] order(2) by (auto simp: advance_candidates_def Let_def simp del: set_map)
  note run = assms(3) [unfolded advance_claim_def Let_def, folded order_def]
  show ?thesis
  proof (cases "length order \<le> 1")
    case True
    then show ?thesis using run assms(2) len by auto
  next
    case False
    then have "advance_walk W T L A ?cands cd h net = (Inr res, cd', h', net')" using run by simp
    note walk = advance_walk_spec [OF cands(1) assms(2) this]
    show ?thesis
    proof (cases res)
      case None
      then show ?thesis using walk cands(2) by simp
    next
      case (Some q)
      obtain c i n reached where q: "q = (c, i, n, reached)" by (metis prod_cases4)
      obtain pre post where cut: "?cands = pre @ c # post" "set pre \<subseteq> parked cd'" using walk Some q by auto
      have "c \<notin> set pre" using cands(1) cut(1) by auto
      then have "takeWhile (\<lambda>d. d \<noteq> c) ?cands = pre" using cut(1) by (auto simp: takeWhile_append)
      moreover have "c \<in> set ?cands" using cut(1) by simp
      ultimately show ?thesis using walk Some q cut(2) cands(2) by (simp add: order_def)
    qed
  qed
qed

text \<open>C33: an advance ends on a coordinate of the node's claim other than its current one, which the
  registry admits and which is now an active slot under the index the walk returns; every coordinate it
  passed over on the way is parked, and so is every other one where it finds none.\<close>

theorem advance_lands_on_a_registered_claim:
  assumes "distinct (ae_claim_coords A)" "registry_ok h" "advance_claim W T L A current cd h net = (Inr res, cd', h', net')"
  shows "registry_ok h'
    \<and> (case res of
         None \<Rightarrow> length (ae_claim_coords A) \<le> 1 \<or> set (ae_claim_coords A) - {current} \<subseteq> parked cd'
       | Some (c, i, n, reached) \<Rightarrow> c \<in> set (ae_claim_coords A) - {current} \<and> is_claimable h c
           \<and> index_of h' c = Some i \<and> i \<in> lh_active h'
           \<and> set (takeWhile (\<lambda>d. d \<noteq> c) (advance_candidates
               (claim_walk_order W (ae_claim_coords A) (ae_identity A) (ae_ranked A)) current)) \<subseteq> parked cd')"
  by (rule advance_lands_on_a_registered_claim_lemma [OF assms])

lemma toy_registry_ok: "registry_ok (toy_lane_host False [0])"
  by (auto simp: registry_ok_def toy_lane_host_def index_of_def split: if_splits)

lemma toy_advance_run:
  "\<exists>net'. advance_claim toy_world toy_tensors (toy_net id) toy_advance (0, 1) toy_parks (toy_lane_host False [0]) toy_zero
      = (Inr (Some ((0, 0), 0, 0, True)), toy_parks, toy_lane_host False [0], net')"
proof -
  have order: "claim_walk_order toy_world [(0, 0), (0, 1)] None [] = [(0, 0), (0, 1)]"
      "advance_candidates [(0, 0), (0, 1)] (0, 1) = [(0, 0)]"
    by (simp_all add: claim_walk_order_def advance_candidates_def eval_nat_numeral mod_Suc)
  have reg: "register (0, 0) (toy_lane_host False [0]) = (Inr 0, toy_lane_host False [0])"
    by (simp add: register_def toy_lane_host_def is_claimable_def repaired_def repair_base_slot_def)
  show ?thesis
    by (simp add: advance_claim_def toy_advance_def toy_parks_def order Let_def toy_clock blocked_def reg resume_to_root_def
        resume_done_def no_vars_def CATCHUP_ABORTED_def)
qed

lemma advance_lands_on_a_registered_claim_witness:
  "\<exists>toy_zero'. advance_claim toy_world toy_tensors (toy_net id) toy_advance (0, 1) toy_parks (toy_lane_host False [0]) toy_zero
      = (Inr (Some ((0, 0), 0, 0, True)), toy_parks, toy_lane_host False [0], toy_zero')
    \<and> index_of (toy_lane_host False [0]) (0, 0) = Some 0 \<and> 0 \<in> lh_active (toy_lane_host False [0])"
proof -
  obtain toy_zero' where run: "advance_claim toy_world toy_tensors (toy_net id) toy_advance (0, 1) toy_parks (toy_lane_host False [0]) toy_zero
      = (Inr (Some ((0, 0), 0, 0, True)), toy_parks, toy_lane_host False [0], toy_zero')" using toy_advance_run by blast
  have "distinct (ae_claim_coords toy_advance)" by (simp add: toy_advance_def)
  then show ?thesis using advance_lands_on_a_registered_claim [OF _ toy_registry_ok run] run by simp
qed

text \<open>C37: An advance is the simple rule \<^verbatim>\<open>next_claim_coord\<close> iterated. On a claim of at most one coordinate
  both find nothing and nothing changes. Otherwise the rule, applied again and again from the current
  coordinate, names every other coordinate of the claim within its first rounds; an advance that lands does so on one
  of them, and all that the rule names before it are parked in the end, by this advance or before it; one
  that finds none has left all of them parked.\<close>

theorem advance_iterates_the_simple_rule:
  assumes "distinct (ae_claim_coords A)" "registry_ok h" "advance_claim W T L A current cd h net = (Inr res, cd', h', net')"
    "m = card (set (ae_claim_coords A) - {current})"
    "rule_at = (\<lambda>k. (walk_step W (ae_claim_coords A) (ae_identity A) (ae_ranked A) ^^ k) current)"
  shows "if length (ae_claim_coords A) \<le> 1
    then next_claim_coord W (ae_claim_coords A) current (ae_identity A) (ae_ranked A) = None
       \<and> res = None \<and> cd' = cd \<and> h' = h \<and> net' = net
    else rule_at ` {1..m} = set (ae_claim_coords A) - {current}
       \<and> (case res of
            None \<Rightarrow> \<forall>k \<in> {1..m}. rule_at k \<in> parked cd'
          | Some (c, i, n, reached) \<Rightarrow> \<exists>k \<in> {1..m}. c = rule_at k \<and> (\<forall>j \<in> {1..<k}. rule_at j \<in> parked cd'))"
proof (cases "length (ae_claim_coords A) \<le> 1")
  case True
  moreover have "length (claim_walk_order W (ae_claim_coords A) (ae_identity A) (ae_ranked A)) = length (ae_claim_coords A)"
    using walk_order_permutes [OF assms(1)] assms(1) by (metis distinct_card)
  ultimately show ?thesis using assms(3) by (auto simp: advance_claim_def next_claim_coord_def Let_def)
next
  case False
  define cands where "cands = advance_candidates (claim_walk_order W (ae_claim_coords A) (ae_identity A) (ae_ranked A)) current"
  note it = candidates_iterate [OF assms(1) _ cands_def]
  have many: "1 < length (ae_claim_coords A)" using False by simp
  have m: "m = length cands" using it(1,2) [OF many] assms(4) by (metis distinct_card)
  have nth: "cands ! k = rule_at (Suc k)" if "k < m" for k
    using that m arg_cong [OF it(3) [OF many], of "\<lambda>xs. xs ! k"] by (simp add: assms(5))
  have at: "rule_at k = cands ! (k - 1)" if "k \<in> {1..m}" for k using nth [of "k - 1"] that by (cases k) auto
  have "rule_at ` {1..m} = set cands"
  proof
    show "rule_at ` {1..m} \<subseteq> set cands" using at m by (auto intro!: nth_mem)
    show "set cands \<subseteq> rule_at ` {1..m}"
    proof
      fix c assume "c \<in> set cands"
      then obtain k where "k < m" "c = cands ! k" using m by (auto simp: in_set_conv_nth)
      then show "c \<in> rule_at ` {1..m}" using nth by (intro image_eqI [of _ _ "Suc k"]) auto
    qed
  qed
  then have all: "rule_at ` {1..m} = set (ae_claim_coords A) - {current}" using it(2) [OF many] by simp
  note found = advance_lands_on_a_registered_claim_lemma [OF assms(1-3)]
  show ?thesis
  proof (cases res)
    case None
    then show ?thesis using found all False by auto
  next
    case (Some q)
    obtain c i n reached where q: "q = (c, i, n, reached)" by (metis prod_cases4)
    have c: "c \<in> set cands" "set (takeWhile (\<lambda>d. d \<noteq> c) cands) \<subseteq> parked cd'"
      using found it(2) [OF many] Some q by (auto simp: cands_def)
    obtain pre post where cut: "cands = pre @ c # post" "c \<notin> set pre" using split_list_first [OF c(1)] by blast
    then have parks: "set pre \<subseteq> parked cd'" using c(2) by (auto simp: takeWhile_append)
    define l where "l = length pre"
    have l: "l < m" "cands ! l = c" using m cut(1) by (simp_all add: l_def)
    have "rule_at j \<in> parked cd'" if "j \<in> {1..<Suc l}" for j
    proof -
      have "j - 1 < l" using that by auto
      then have "cands ! (j - 1) \<in> set pre" by (simp add: cut(1) l_def nth_append)
      moreover have "rule_at j = cands ! (j - 1)" using that l(1) by (intro at) auto
      ultimately show ?thesis using parks by auto
    qed
    then have "\<exists>k \<in> {1..m}. c = rule_at k \<and> (\<forall>j \<in> {1..<k}. rule_at j \<in> parked cd')"
      using l nth [OF l(1)] by (intro bexI [of _ "Suc l"]) auto
    then show ?thesis using Some q all False by auto
  qed
qed

lemma advance_iterates_the_simple_rule_witness:
  "\<exists>net'. advance_claim toy_world toy_tensors (toy_net id) toy_advance (0, 1) toy_parks (toy_lane_host False [0]) toy_zero
      = (Inr (Some ((0, 0), 0, 0, True)), toy_parks, toy_lane_host False [0], net')
    \<and> (\<lambda>k. (walk_step toy_world (ae_claim_coords toy_advance) (ae_identity toy_advance) (ae_ranked toy_advance) ^^ k) (0, 1)) ` {1..1}
       = {(0, 0)}"
proof -
  obtain net' where run: "advance_claim toy_world toy_tensors (toy_net id) toy_advance (0, 1) toy_parks (toy_lane_host False [0]) toy_zero
      = (Inr (Some ((0, 0), 0, 0, True)), toy_parks, toy_lane_host False [0], net')" using toy_advance_run by blast
  have d: "distinct (ae_claim_coords toy_advance)" "\<not> length (ae_claim_coords toy_advance) \<le> 1"
      "set (ae_claim_coords toy_advance) - {(0, 1)} = {(0, 0)}" by (auto simp: toy_advance_def)
  have m: "1 = card (set (ae_claim_coords toy_advance) - {(0, 1)})" unfolding d(3) by simp
  note swept = advance_iterates_the_simple_rule [OF d(1) toy_registry_ok run m refl, unfolded if_not_P [OF d(2)] d(3), THEN conjunct1]
  show ?thesis by (intro exI [of _ net'] conjI run swept)
qed

subsection \<open>The local re-gate\<close>

lemma view_write_host:
  assumes "write_slot T j d (sv_host v) = (Inr (), h)" "cell (sv_host v) j = Inr c"
  shows "\<exists>v'. view_write T j d v = (Inr (), v') \<and> sv_host v' = h"
  using assms read_cell [OF assms(2)] by (auto simp: view_write_def split: option.splits)

lemma write_then_back:
  assumes "tensors_ok T P" "model_in P h" "cell h j = Inr c" "fits T d (row_at (lh_model h) c)"
  shows "\<exists>h1. write_slot T j d h = (Inr (), h1) \<and> cell h1 j = Inr c
    \<and> write_slot T j (expert_dict (row_at (lh_model h) c)) h1 = (Inr (), h)"
proof -
  let ?old = "expert_dict (row_at (lh_model h) c)"
  obtain ex where ex: "write_slot T j d h = (Inr (), put_row h (fst c) (snd c) ex)" "expert_in P ex"
      "expert_like T ex (row_at (lh_model h) c)" "is_cell (lh_model h) c"
    using write_agree [OF assms(1) agree_refl [OF assms(2)] assms(3,4)] by blast
  let ?h1 = "put_row h (fst c) (snd c) ex"
  have agree: "agree_off T P ?h1 h {c}" using put_agree(1) [OF agree_refl [OF assms(2)] ex(4,2,3), of "{}"] by simp
  moreover have "cells_of h [(j, ?old)] = {c}" using assms(3) by (auto simp: cells_of_def)
  moreover have "saved_rows h [(j, ?old)]" using assms(3) unfolding saved_rows_def by fastforce
  ultimately have "write_all T [(j, ?old)] ?h1 = (Inr (), h)" using write_all_restores [OF assms(1,2)] by metis
  then have "write_slot T j ?old ?h1 = (Inr (), h)" by (auto split: prod.splits sum.splits)
  moreover have "cell ?h1 j = Inr c" using agree assms(3) cell_frame unfolding agree_off_def by metis
  ultimately show ?thesis using ex(1) by blast
qed

text \<open>where torch copies the weights it reads, a row that the local re-gate refuses leaves the
  model bit for bit as it was before the row.\<close>

theorem refused_row_is_unfolded:
  assumes "tensors_ok T P" "model_in P (sv_host (fo_view s))" "\<not> lh_aliases (sv_host (fo_view s))"
    "read_slot (sv_host (fo_view s)) slot = Inr cur" "shapes_match T cur d"
    "fold_row T gate tol own item slot o' cur d s = (Inr (), s')" "fo_rejected s' \<noteq> fo_rejected s"
  shows "sv_host (fo_view s') = sv_host (fo_view s)"
proof -
  let ?h = "sv_host (fo_view s)"
  obtain c where c: "cell ?h slot = Inr c" using assms(4) by (auto simp: read_slot_def cell_def bindE_Inr_iff)
  have cur: "cur = expert_dict (row_at (lh_model ?h) c)" using assms(4) read_cell [OF c] by simp
  have fit: "fits T (stepped T o' cur d) (row_at (lh_model ?h) c)" using shapes_match_fits [OF assms(5) [unfolded cur] assms(1)] cur by simp
  obtain h1 where h1: "write_slot T slot (stepped T o' cur d) ?h = (Inr (), h1)" "cell h1 slot = Inr c" "write_slot T slot cur h1 = (Inr (), ?h)"
    using write_then_back [OF assms(1,2) c fit] cur by auto
  obtain v1 where v1: "view_write T slot (stepped T o' cur d) (fo_view s) = (Inr (), v1)" "sv_host v1 = h1"
    using view_write_host [OF h1(1) c] by blast
  have "\<not> lh_aliases h1" using write_slot_shell [OF h1(1)] assms(3) by (cases h1; cases ?h) (simp add: shell_def)
  then have after: "cur_after h1 slot cur = cur" by (simp add: cur_after_def)
  obtain v2 where v2: "view_write T slot cur v1 = (Inr (), v2)" "sv_host v2 = ?h"
    using view_write_host [OF h1(3) [folded v1(2)] h1(2) [folded v1(2)]] by blast
  show ?thesis using assms(6,7) v1 v2 after
    by (cases "if own = None \<or> own = Some (int slot) then gate else NoGate")
      (auto simp: fold_row_def Let_def split: sum.splits if_splits)
qed

text \<open>The held-out loss of the example: none before the row, \<open>x\<close> after it.\<close>

definition toy_gate :: "xfloat \<Rightarrow> nat list moe_layer list \<Rightarrow> exn + xfloat" where
  "toy_gate x m = Inr (if m = [Experts [toy_row [2]]] then XFin 0 else x)"

lemma toy_state_fields [simp]:
  "fo_view (toy_state al m saved net n rej fd) = toy_view al m saved"
  "toy_state al m saved net n rej fd\<lparr>fo_view := toy_view al k saved'\<rparr> = toy_state al k saved' net n rej fd"
  "fo_rejected (toy_state al m saved net n rej fd) = rej"
  by (simp_all add: toy_state_def)

lemma toy_row_run:
  "fold_row toy_tensors (Gate (toy_gate x)) (Some (XFin 0)) None item 0 o' (toy_params [2]) (toy_params [9]) (toy_state al 2 [] net 0 [] {})
     = (Inr (), if xless (XFin 0) x
                then toy_state al (if al then 11 else 2) [(0, toy_params [2])] net 0
                       [item_with item [(''base_ce'', xnum (XFin 0)), (''new_ce'', xnum x)]] {}
                else toy_state al 11 [(0, toy_params [2])] net 1 [] {0})"
proof -
  have gate: "toy_gate x [Experts [toy_row [2]]] = Inr (XFin 0)" "toy_gate x [Experts [toy_row [11]]] = Inr x"
    by (simp_all add: toy_gate_def toy_row_def)
  have saved: "toy_saved 2 [] = [(0, toy_params [2])]" "toy_saved 11 [(0, toy_params [2])] = [(0, toy_params [2])]"
    by (simp_all add: toy_saved_def)
  have allow: "xadd (XFin 0) (XFin 0) = XFin 0" by (simp add: xround_def)
  have after: "cur_after (toy_lane_host al [11]) 0 (toy_params [2]) = toy_params [if al then 11 else 2]"
    by (simp add: cur_after_def toy_host_read)
  show ?thesis
    by (simp add: fold_row_def Let_def toy_host_of gate toy_stepped toy_view_write saved regate_allow_def allow after)
      (simp add: toy_state_def)
qed

lemma refused_row_is_unfolded_witness:
  "sv_host (fo_view (snd (fold_row toy_tensors (Gate (toy_gate PosInf)) (Some (XFin 0)) None JNull 0 (Fin 1) (toy_params [2]) (toy_params [9])
      (toy_state False 2 [] toy_zero 0 [] {})))) = toy_lane_host False [2]"
proof -
  have "model_in (\<lambda>x. True) (toy_lane_host False [2])" using toy_host_ok [of False "[2]"] by (simp add: host_ok_def)
  from refused_row_is_unfolded [where slot = 0 and cur = "toy_params [2]" and d = "toy_params [9]", OF toy_tensors_ok _ _ _ _
      toy_row_run [of PosInf JNull "Fin 1" False toy_zero, simplified]] this show ?thesis
    by (simp add: toy_host_of toy_host_read toy_match toy_row_run)
qed

text \<open>On a float32 host on the CPU the arrays that were read are the model's, so a row that the re-gate
  refuses is reported but stays folded; and a loss that is not a number refuses nothing.\<close>

theorem refusal_stays_on_an_aliasing_host:
  "\<exists>s. fold_row toy_tensors (Gate (toy_gate PosInf)) (Some (XFin 0)) None item 0 o' (toy_params [2]) (toy_params [9])
         (toy_state True 2 [] net 0 [] {}) = (Inr (), s)
     \<and> fo_rejected s \<noteq> [] \<and> sv_host (fo_view s) = toy_lane_host True [11]"
  by (simp add: toy_row_run toy_host_of)

theorem nan_loss_refuses_nothing:
  "fold_row toy_tensors (Gate (toy_gate NaN)) (Some (XFin 0)) None item 0 o' (toy_params [2]) (toy_params [9])
      (toy_state False 2 [] net 0 [] {}) = (Inr (), toy_state False 11 [(0, toy_params [2])] net 1 [] {0})"
  by (simp add: toy_row_run)

subsection \<open>A lane that does not move\<close>

text \<open>One look at the lane: the time, and the three counters that were readable.\<close>

type_synonym lane_look = "rat \<times> int option \<times> int option \<times> int option"

abbreviation look_event :: "lane_look \<Rightarrow> int option" where "look_event o' \<equiv> fst (snd o')"
abbreviation look_accepted :: "lane_look \<Rightarrow> int option" where "look_accepted o' \<equiv> fst (snd (snd o'))"
abbreviation look_stamp :: "lane_look \<Rightarrow> int option" where "look_stamp o' \<equiv> snd (snd (snd o'))"

definition counter :: "int option \<Rightarrow> json" where
  "counter n = (case n of None \<Rightarrow> JNull | Some k \<Rightarrow> JInt k)"

fun look :: "lane_look \<Rightarrow> lane_liveness \<Rightarrow> (exn + lane_pulse) \<times> lane_liveness" where
  "look (t, e, a, p) v = observe t (counter e) (counter a) (counter p) v"

definition looks :: "lane_look list \<Rightarrow> lane_liveness \<Rightarrow> lane_liveness" where
  "looks os v = fold (\<lambda>o' v. snd (look o' v)) os v"

text \<open>The reference: a counter has risen when it is above everything seen of it, and something was; the
  lane moved last at the last look at which a counter had risen.\<close>

definition highest :: "int option list \<Rightarrow> int option" where
  "highest xs = (case concat (map (\<lambda>x. case x of None \<Rightarrow> [] | Some k \<Rightarrow> [k]) xs) of [] \<Rightarrow> None | k # ks \<Rightarrow> Some (fold max ks k))"

definition risen :: "int option list \<Rightarrow> int option \<Rightarrow> bool" where
  "risen xs x = (case (highest xs, x) of (Some c, Some k) \<Rightarrow> c < k | _ \<Rightarrow> False)"

fun moved :: "lane_look list \<Rightarrow> lane_look \<Rightarrow> bool" where
  "moved os (t, e, a, p) = (risen (map look_event os) e \<or> risen (map look_accepted os) a \<or> risen (map look_stamp os) p)"

definition last_moved :: "rat \<Rightarrow> lane_look list \<Rightarrow> rat" where
  "last_moved t0 os = (case filter (\<lambda>k. moved (take k os) (os ! k)) [0..<length os] of [] \<Rightarrow> t0 | ks \<Rightarrow> fst (os ! last ks))"

lemma highest_snoc: "highest (xs @ [x]) = (case x of None \<Rightarrow> highest xs
    | Some k \<Rightarrow> Some (case highest xs of None \<Rightarrow> k | Some c \<Rightarrow> max k c))"
  by (cases "concat (map (\<lambda>x. case x of None \<Rightarrow> [] | Some k \<Rightarrow> [k]) xs)"; cases x)
    (simp_all add: highest_def del: concat_eq_Nil_conv Nil_eq_concat_conv)

lemma counter_int: "int_or_none (counter x) = Inr x"
  by (cases x) (simp_all add: counter_def int_or_none_def)

lemma raise_mark_highest:
  "raise_mark (highest xs) (counter x) = Inr (highest (xs @ [x]), risen xs x)"
  by (auto simp: raise_mark_def counter_int highest_snoc risen_def max_def split: option.splits)

lemma last_moved_snoc: "last_moved t0 (os @ [o']) = (if moved os o' then fst o' else last_moved t0 os)"
proof -
  define ks where "ks = filter (\<lambda>k. moved (take k os) (os ! k)) [0..<length os]"
  have ks: "filter (\<lambda>k. moved (take k (os @ [o'])) ((os @ [o']) ! k)) [0..<length os] = ks"
    unfolding ks_def by (rule filter_cong) (auto simp: nth_append)
  then have snoc: "filter (\<lambda>k. moved (take k (os @ [o'])) ((os @ [o']) ! k)) [0..<length (os @ [o'])]
      = ks @ (if moved os o' then [length os] else [])" by simp
  have "last ks < length os" if "ks \<noteq> []" using last_in_set [OF that] by (auto simp: ks_def)
  then show ?thesis unfolding last_moved_def snoc ks_def [symmetric] by (cases ks) (auto simp: nth_append)
qed

lemma look_marks:
  assumes "ll_high_event v = highest (map look_event os)" "ll_high_accepted v = highest (map look_accepted os)"
    "ll_high_stamp v = highest (map look_stamp os)"
  shows "\<exists>pulse v'. look (t, e, a, p) v = (Inr pulse, v')
    \<and> ll_high_event v' = highest (map look_event (os @ [(t, e, a, p)]))
    \<and> ll_high_accepted v' = highest (map look_accepted (os @ [(t, e, a, p)]))
    \<and> ll_high_stamp v' = highest (map look_stamp (os @ [(t, e, a, p)]))
    \<and> ll_threshold v' = ll_threshold v \<and> ll_last_move v' = (if moved os (t, e, a, p) then t else ll_last_move v)
    \<and> (pulse \<in> {LaneLive, LaneRecovered} \<longleftrightarrow> moved os (t, e, a, p))
    \<and> (pulse = LaneStale \<longleftrightarrow> \<not> moved os (t, e, a, p) \<and> xless (XFin 0) (ll_threshold v)
         \<and> xle (ll_threshold v) (xsub (XFin t) (XFin (ll_last_move v))))"
  using assms by (simp add: observe_def raise_mark_highest Let_def liveness_enabled_def)

text \<open>C34: whatever the counters do, the detector reports a live (or recovered) lane exactly when some
  counter has risen above all it had seen of it before; and when none has, a stale lane exactly when it
  is enabled, by a positive threshold, and at least the threshold has passed since the last look at which
  one had risen, or since its start; otherwise it waits. The first value of a counter is not a rise, so
  the first look is never live, against the class comment (\<^verbatim>\<open>first_look_is_not_live\<close>).\<close>

theorem stale_lane_is_reported_exactly:
  "case fst (look (t, e, a, p) (looks os (new_liveness thr t0 env text_float))) of
     Inl x \<Rightarrow> False
   | Inr pulse \<Rightarrow>
       (if moved os (t, e, a, p) then pulse \<in> {LaneLive, LaneRecovered}
        else pulse = (if xless (XFin 0) (ll_threshold (new_liveness thr t0 env text_float))
               \<and> xle (ll_threshold (new_liveness thr t0 env text_float)) (xsub (XFin t) (XFin (last_moved t0 os)))
             then LaneStale else LaneWaiting))"
proof -
  let ?v0 = "new_liveness thr t0 env text_float"
  have "ll_high_event (looks os ?v0) = highest (map look_event os)
      \<and> ll_high_accepted (looks os ?v0) = highest (map look_accepted os)
      \<and> ll_high_stamp (looks os ?v0) = highest (map look_stamp os)
      \<and> ll_threshold (looks os ?v0) = ll_threshold ?v0 \<and> ll_last_move (looks os ?v0) = last_moved t0 os"
  proof (induction os rule: rev_induct)
    case Nil
    then show ?case by (simp add: looks_def new_liveness_def highest_def last_moved_def)
  next
    case (snoc o' os)
    obtain t e a p where o': "o' = (t, e, a, p)" by (metis prod_cases4)
    have step: "looks (os @ [o']) ?v0 = snd (look o' (looks os ?v0))" by (simp add: looks_def)
    obtain pulse v' where "look (t, e, a, p) (looks os ?v0) = (Inr pulse, v')"
        "ll_high_event v' = highest (map look_event (os @ [(t, e, a, p)]))
        \<and> ll_high_accepted v' = highest (map look_accepted (os @ [(t, e, a, p)]))
        \<and> ll_high_stamp v' = highest (map look_stamp (os @ [(t, e, a, p)]))
        \<and> ll_threshold v' = ll_threshold (looks os ?v0)
        \<and> ll_last_move v' = (if moved os (t, e, a, p) then t else ll_last_move (looks os ?v0))"
      using look_marks [of "looks os ?v0" os t e a p] snoc.IH by blast
    then show ?case using step snoc.IH o' last_moved_snoc [of t0 os o'] by simp
  qed
  then obtain pulse where "fst (look (t, e, a, p) (looks os ?v0)) = Inr pulse"
      "pulse \<in> {LaneLive, LaneRecovered} \<longleftrightarrow> moved os (t, e, a, p)"
      "pulse = LaneStale \<longleftrightarrow> \<not> moved os (t, e, a, p) \<and> xless (XFin 0) (ll_threshold ?v0)
         \<and> xle (ll_threshold ?v0) (xsub (XFin t) (XFin (last_moved t0 os)))"
    using look_marks [of "looks os ?v0" os t e a p] by (metis fst_conv)
  then show ?thesis by (cases pulse) auto
qed

lemma first_look_is_not_live:
  "fst (look (t, e, a, p) (new_liveness thr t0 env text_float)) \<notin> {Inr LaneLive, Inr LaneRecovered}"
  by (simp add: observe_def raise_mark_def counter_int new_liveness_def Let_def split: option.split)

end
