(* ===== verification/Vram.thy ===== *)
theory Vram
  imports Claim_Walk Merge_Arrays
begin

text \<open>
  The two controllers of GPU memory. \<^verbatim>\<open>neurahash/vram_autotune.py\<close> decides how many training units
  (resident layers) the miner holds, from a reading of the free memory: it shrinks at once and grows
  after some patience. \<^verbatim>\<open>neurahash/vram_manager.py\<close> derives the hard cap of the process, the capacity it
  reports and the decision to resize from one reading. The readings are arguments, in GiB; what the
  manager asks of its surroundings is a list of actions. Numbers are binary64 values with NaN and the
  infinities, because they are read from the environment unchecked.
\<close>

subsection \<open>Devices and numbers\<close>

definition cuda_device_index :: "string \<Rightarrow> int option" where
  "cuda_device_index device =
     (if \<not> starts_with ''cuda'' device then None
      else (case partition_on CHR '':'' device of (_, sep, rest) \<Rightarrow>
        if sep then (case text_int rest of Inr i \<Rightarrow> Some i | Inl _ \<Rightarrow> Some 0) else Some 0))"

text \<open>\<^verbatim>\<open>free_total_vram_gib\<close>: the argument is what the driver answers for an index, if it answers.\<close>

definition free_total_vram_gib :: "(int \<Rightarrow> (xfloat \<times> xfloat) option) \<Rightarrow> string \<Rightarrow> xfloat \<times> xfloat" where
  "free_total_vram_gib driver device =
     (case cuda_device_index device of
        None \<Rightarrow> (XFin 0, XFin 0)
      | Some i \<Rightarrow> (case driver i of None \<Rightarrow> (XFin 0, XFin 0) | Some r \<Rightarrow> r))"

definition truthy_text :: "string \<Rightarrow> bool" where
  "truthy_text v = (str_lower (str_strip v) \<in> {''1'', ''true'', ''on'', ''yes'', ''y''})"

text \<open>
  \<^verbatim>\<open>x // y\<close> of floats with \<open>y\<close> not zero: the floor of the exact quotient, as a float. (Beyond \<open>2 ^ 53\<close>
  Python's result may be another float next to the quotient.)
\<close>

fun xfloordiv :: "xfloat \<Rightarrow> xfloat \<Rightarrow> xfloat" where
  "xfloordiv (XFin p) (XFin q) = xround (of_int \<lfloor>p / q\<rfloor>)"
| "xfloordiv (XFin p) PosInf = XFin (if p < 0 then - 1 else 0)"
| "xfloordiv (XFin p) NegInf = XFin (if 0 < p then - 1 else 0)"
| "xfloordiv _ _ = NaN"

text \<open>\<^verbatim>\<open>int(x)\<close>, and the float of an integer.\<close>

definition int_of_x :: "xfloat \<Rightarrow> exn + int" where
  "int_of_x x = (case x of
     XFin q \<Rightarrow> Inr (if 0 \<le> q then \<lfloor>q\<rfloor> else \<lceil>q\<rceil>)
   | NaN \<Rightarrow> Inl (ValueError ''cannot convert float NaN to integer'')
   | _ \<Rightarrow> Inl OverflowError)"

definition x_of_int :: "int \<Rightarrow> xfloat" where
  "x_of_int n = xround (of_int n)"

text \<open>\<^verbatim>\<open>min(x, y)\<close> and \<^verbatim>\<open>max(x, y)\<close> of floats keep the first argument unless the second is better.\<close>

definition xmin :: "xfloat \<Rightarrow> xfloat \<Rightarrow> xfloat" where
  "xmin x y = (if xless y x then y else x)"

definition xmax :: "xfloat \<Rightarrow> xfloat \<Rightarrow> xfloat" where
  "xmax x y = (if xless x y then y else x)"

subsection \<open>The tuner\<close>

record vram_tuner =
  vt_device :: string
  vt_base_gib :: xfloat
  vt_per_unit_gib :: xfloat
  vt_user_headroom_gib :: xfloat
  vt_min_units :: int
  vt_max_units :: int
  vt_interval_s :: xfloat
  vt_grow_patience :: int
  vt_safety_frac :: xfloat
  vt_current_units :: int
  vt_primed :: bool
  vt_grow_streak :: int
  vt_grow_floor :: "int option"

definition new_tuner ::
  "string \<Rightarrow> xfloat \<Rightarrow> xfloat \<Rightarrow> xfloat \<Rightarrow> int \<Rightarrow> int \<Rightarrow> xfloat \<Rightarrow> int \<Rightarrow> xfloat \<Rightarrow> exn + vram_tuner" where
  "new_tuner device base per_unit headroom lo hi interval patience safety =
     (if xle per_unit (XFin 0) then Inl (ValueError ''per_unit_gib must be > 0'')
      else if hi < lo then Inl (ValueError ''max_units < min_units'')
      else Inr \<lparr>vt_device = device, vt_base_gib = base, vt_per_unit_gib = per_unit, vt_user_headroom_gib = headroom,
        vt_min_units = lo, vt_max_units = hi, vt_interval_s = interval, vt_grow_patience = patience,
        vt_safety_frac = safety, vt_current_units = lo, vt_primed = False, vt_grow_streak = 0, vt_grow_floor = None\<rparr>)"

definition unit_budget :: "vram_tuner \<Rightarrow> xfloat \<Rightarrow> xfloat" where
  "unit_budget v free = xsub (xsub (xmul free (vt_safety_frac v)) (vt_user_headroom_gib v)) (vt_base_gib v)"

definition target_units :: "vram_tuner \<Rightarrow> xfloat \<Rightarrow> exn + int" where
  "target_units v free =
     (let budget = unit_budget v free in
      bindE (int_of_x (xfloordiv budget (vt_per_unit_gib v))) (\<lambda>fit.
        let units = max (vt_min_units v) (min fit (vt_max_units v)) in
        Inr (if xless budget (xmul (x_of_int units) (vt_per_unit_gib v)) then 0 else units)))"

definition reset_grow :: "vram_tuner \<Rightarrow> vram_tuner" where
  "reset_grow v = v\<lparr>vt_grow_streak := 0, vt_grow_floor := None\<rparr>"

text \<open>\<^verbatim>\<open>tick\<close>: the new number of units, where it changes.\<close>

definition settle_units :: "int \<Rightarrow> vram_tuner \<Rightarrow> int option \<times> vram_tuner" where
  "settle_units target v =
     (if \<not> vt_primed v then
        (let v = reset_grow (v\<lparr>vt_primed := True\<rparr>) in
         if target \<noteq> vt_current_units v then (Some target, v\<lparr>vt_current_units := target\<rparr>) else (None, v))
      else if target < vt_current_units v then (Some target, (reset_grow v)\<lparr>vt_current_units := target\<rparr>)
      else if vt_current_units v < target then
        (let floor = (case vt_grow_floor v of None \<Rightarrow> target | Some f \<Rightarrow> min f target);
             v = v\<lparr>vt_grow_streak := vt_grow_streak v + 1, vt_grow_floor := Some floor\<rparr> in
         if vt_grow_patience v \<le> vt_grow_streak v then (Some floor, (reset_grow v)\<lparr>vt_current_units := floor\<rparr>)
         else (None, v))
      else (None, reset_grow v))"

definition tick :: "xfloat \<Rightarrow> vram_tuner \<Rightarrow> (exn + int option) \<times> vram_tuner" where
  "tick free v =
     (case target_units v free of
        Inl e \<Rightarrow> (Inl e, v)
      | Inr target \<Rightarrow> (case settle_units target v of (r, v') \<Rightarrow> (Inr r, v')))"

text \<open>\<^verbatim>\<open>run\<close> of the tuner, over the readings it makes until it is stopped: the calls of \<^verbatim>\<open>on_resize\<close>.\<close>

fun tuner_run :: "xfloat list \<Rightarrow> vram_tuner \<Rightarrow> (int \<times> int) list \<times> exn option \<times> vram_tuner" where
  "tuner_run [] v = ([], None, v)"
| "tuner_run (free # fs) v =
     (case tick free v of
        (Inl e, v') \<Rightarrow> ([], Some e, v')
      | (Inr None, v') \<Rightarrow> tuner_run fs v'
      | (Inr (Some new), v') \<Rightarrow>
          (case tuner_run fs v' of (calls, r) \<Rightarrow> ((vt_current_units v, new) # calls, r)))"

subsection \<open>Configuration from the environment\<close>

definition env_float :: "(string, string) pydict \<Rightarrow> (string \<Rightarrow> xfloat option) \<Rightarrow> string \<Rightarrow> string \<Rightarrow> exn + xfloat" where
  "env_float env text_float name fallback = orE (ValueError ''could not convert string to float'') (text_float (dget env name fallback))"

text \<open>\<open>None\<close>: the switch named by \<open>switch\<close> is off.\<close>

definition tuner_from_env ::
  "string \<Rightarrow> (string, string) pydict \<Rightarrow> (string \<Rightarrow> xfloat option) \<Rightarrow> string \<Rightarrow> xfloat \<Rightarrow> xfloat \<Rightarrow> int \<Rightarrow> exn + vram_tuner option" where
  "tuner_from_env switch env text_float device base per_unit max_units =
     (if \<not> truthy_text (dget env switch []) then Inr None
      else
        bindE (env_float env text_float ''NEURAHASH_VRAM_USER_HEADROOM_GB'' ''1.5'') (\<lambda>headroom.
        bindE (env_float env text_float ''NEURAHASH_VRAM_AUTOTUNE_INTERVAL_S'' ''20'') (\<lambda>interval.
        bindE (text_int (dget env ''NEURAHASH_VRAM_AUTOTUNE_MIN_UNITS'' ''0'')) (\<lambda>lo.
        bindE (let raw = dget env ''NEURAHASH_VRAM_AUTOTUNE_MAX_UNITS'' [] in if raw = [] then Inr max_units else text_int raw) (\<lambda>hi.
        bindE (new_tuner device base per_unit headroom lo hi interval 3 (XFin (rnd64 (9 / 10)))) (\<lambda>v. Inr (Some v)))))))"

definition autotune_from_env ::
  "(string, string) pydict \<Rightarrow> (string \<Rightarrow> xfloat option) \<Rightarrow> string \<Rightarrow> xfloat \<Rightarrow> xfloat \<Rightarrow> int \<Rightarrow> exn + vram_tuner option" where
  "autotune_from_env = tuner_from_env ''NEURAHASH_VRAM_AUTOTUNE''"

subsection \<open>The manager\<close>

definition DEFAULT_HEADROOM :: xfloat where "DEFAULT_HEADROOM = XFin (rnd64 (9 / 10))"
definition RUNAWAY_SLACK :: xfloat where "RUNAWAY_SLACK = XFin (3 / 2)"

record vram_manager =
  vm_device :: string
  vm_tuner :: vram_tuner
  vm_base_gib :: xfloat
  vm_per_unit_gib :: xfloat
  vm_headroom :: xfloat
  vm_slack :: xfloat

definition new_manager :: "string \<Rightarrow> vram_tuner \<Rightarrow> xfloat option \<Rightarrow> xfloat option \<Rightarrow> xfloat \<Rightarrow> xfloat \<Rightarrow> vram_manager" where
  "new_manager device v base per_unit headroom slack =
     \<lparr>vm_device = device, vm_tuner = v,
      vm_base_gib = (case base of None \<Rightarrow> vt_base_gib v | Some b \<Rightarrow> b),
      vm_per_unit_gib = (case per_unit of None \<Rightarrow> vt_per_unit_gib v | Some p \<Rightarrow> p),
      vm_headroom = headroom, vm_slack = slack\<rparr>"

definition footprint_gib :: "vram_manager \<Rightarrow> int \<Rightarrow> xfloat" where
  "footprint_gib m units = xadd (vm_base_gib m) (xmul (x_of_int (max 0 units)) (vm_per_unit_gib m))"

definition max_footprint_gib :: "vram_manager \<Rightarrow> xfloat" where
  "max_footprint_gib m = footprint_gib m (vt_max_units (vm_tuner m))"

definition report_capacity :: "vram_manager \<Rightarrow> xfloat \<Rightarrow> exn + int" where
  "report_capacity m free = target_units (vm_tuner m) free"

definition cap_gib :: "(string, string) pydict \<Rightarrow> (string \<Rightarrow> xfloat option) \<Rightarrow> vram_manager \<Rightarrow> xfloat \<Rightarrow> xfloat \<Rightarrow> exn + xfloat" where
  "cap_gib env text_float m free whole =
     (if dget env ''NEURAHASH_VRAM_CAP_GB'' [] \<noteq> [] then env_float env text_float ''NEURAHASH_VRAM_CAP_GB'' []
      else if dget env ''NEURAHASH_VRAM_CAP_FRAC'' [] \<noteq> []
      then bindE (env_float env text_float ''NEURAHASH_VRAM_CAP_FRAC'' []) (\<lambda>f. Inr (xmul f whole))
      else Inr (xmin (xmul free (vm_headroom m)) (xmul (max_footprint_gib m) (vm_slack m))))"

datatype vram_action = SetFraction xfloat int | Report int | Resize int int

text \<open>\<^verbatim>\<open>apply_cap\<close>; \<open>cuda\<close>: torch finds a device, and its calls do not raise.\<close>

definition apply_cap ::
  "(string, string) pydict \<Rightarrow> (string \<Rightarrow> xfloat option) \<Rightarrow> bool \<Rightarrow> vram_manager \<Rightarrow> xfloat \<Rightarrow> xfloat
     \<Rightarrow> exn + xfloat option \<times> vram_action list" where
  "apply_cap env text_float cuda m free whole =
     (if xle whole (XFin 0) then Inr (None, [])
      else bindE (cap_gib env text_float m free whole) (\<lambda>cap.
        case cuda_device_index (vm_device m) of
          None \<Rightarrow> Inr (Some cap, [])
        | Some i \<Rightarrow> Inr (Some cap, if cuda then [SetFraction (xmax (XFin 0) (xmin (XFin 1) (xdiv cap whole))) i] else [])))"

text \<open>One round of the manager's loop, from one reading.\<close>

definition manager_round ::
  "(string, string) pydict \<Rightarrow> (string \<Rightarrow> xfloat option) \<Rightarrow> bool \<Rightarrow> xfloat \<times> xfloat \<Rightarrow> vram_manager
     \<Rightarrow> vram_action list \<times> exn option \<times> vram_manager" where
  "manager_round env text_float cuda reading m =
     (case reading of (free, whole) \<Rightarrow>
        (case apply_cap env text_float cuda m free whole of
           Inl e \<Rightarrow> ([], Some e, m)
         | Inr (_, acts) \<Rightarrow>
             (case report_capacity m free of
                Inl e \<Rightarrow> (acts, Some e, m)
              | Inr n \<Rightarrow>
                  (case tick free (vm_tuner m) of
                     (Inl e, v) \<Rightarrow> (acts @ [Report n], Some e, m\<lparr>vm_tuner := v\<rparr>)
                   | (Inr r, v) \<Rightarrow>
                       (acts @ [Report n] @ (case r of None \<Rightarrow> [] | Some new \<Rightarrow> [Resize (vt_current_units (vm_tuner m)) new]),
                        None, m\<lparr>vm_tuner := v\<rparr>)))))"

fun manager_run ::
  "(string, string) pydict \<Rightarrow> (string \<Rightarrow> xfloat option) \<Rightarrow> bool \<Rightarrow> (xfloat \<times> xfloat) list \<Rightarrow> vram_manager
     \<Rightarrow> vram_action list \<times> exn option \<times> vram_manager" where
  "manager_run env text_float cuda [] m = ([], None, m)"
| "manager_run env text_float cuda (reading # rs) m =
     (case manager_round env text_float cuda reading m of
        (acts, Some e, m') \<Rightarrow> (acts, Some e, m')
      | (acts, None, m') \<Rightarrow>
          (case manager_run env text_float cuda rs m' of (acts', r) \<Rightarrow> (acts @ acts', r)))"

definition manager_from_env ::
  "(string, string) pydict \<Rightarrow> (string \<Rightarrow> xfloat option) \<Rightarrow> string \<Rightarrow> xfloat \<Rightarrow> xfloat \<Rightarrow> int \<Rightarrow> exn + vram_manager option" where
  "manager_from_env env text_float device base per_unit max_units =
     bindE (tuner_from_env ''NEURAHASH_VRAM_MANAGER'' env text_float device base per_unit max_units) (\<lambda>v.
       Inr (map_option (\<lambda>v. new_manager device v None None DEFAULT_HEADROOM RUNAWAY_SLACK) v))"

end
