(* ===== verification/Vram_Props.thy ===== *)
theory Vram_Props
  imports Vram
begin

text \<open>
  Properties of the two controllers of GPU memory: what is held fits the last reading, growth follows a
  level that has held, and the cap covers what is reported, except while the tuner pauses.
\<close>

subsection \<open>The target\<close>

lemma xle_iff_not_less: "x \<noteq> NaN \<Longrightarrow> y \<noteq> NaN \<Longrightarrow> xle x y \<longleftrightarrow> \<not> xless y x"
  by (cases x; cases y) auto

lemma rnd64_int_zero: "rnd64 (of_int n) = 0 \<longleftrightarrow> n = 0"
proof
  have one: "rnd64 1 = 1" using rnd64_of_int [of 1] by simp
  assume zero: "rnd64 (of_int n) = 0"
  show "n = 0"
  proof (rule ccontr)
    assume "n \<noteq> 0"
    then consider "1 \<le> n" | "1 \<le> - n" by linarith
    then show False
    proof cases
      case 1
      then have "rnd64 1 \<le> rnd64 (of_int n)" by (intro rnd64_mono) simp
      then show False using one zero by simp
    next
      case 2
      then have "rnd64 1 \<le> rnd64 (- of_int n)" using rnd64_mono [of 1 "of_int (- n)"] by simp
      then show False using one zero by (simp add: rnd64_minus)
    qed
  qed
qed simp

lemma target_units_cases:
  assumes "target_units v free = Inr n" "vt_min_units v \<le> vt_max_units v" "\<not> xle (vt_per_unit_gib v) (XFin 0)"
  shows "n = 0 \<or> vt_min_units v \<le> n \<and> n \<le> vt_max_units v \<and> xle (xmul (x_of_int n) (vt_per_unit_gib v)) (unit_budget v free)"
proof -
  let ?b = "unit_budget v free" and ?p = "vt_per_unit_gib v"
  obtain fit where fit: "int_of_x (xfloordiv ?b ?p) = Inr fit"
      "n = (let units = max (vt_min_units v) (min fit (vt_max_units v)) in if xless ?b (xmul (x_of_int units) ?p) then 0 else units)"
    using assms(1) by (auto simp: target_units_def Let_def bindE_Inr_iff)
  obtain b where b: "?b = XFin b" using fit(1) by (cases ?b; cases ?p) (auto simp: int_of_x_def)
  have p: "?p \<noteq> NaN" using fit(1) b by (auto simp: int_of_x_def)
  show ?thesis
  proof (cases "n = 0")
    case False
    then have n: "n = max (vt_min_units v) (min fit (vt_max_units v))" "\<not> xless ?b (xmul (x_of_int n) ?p)"
      using fit(2) by (auto simp: Let_def split: if_splits)
    have "xmul (x_of_int n) ?p \<noteq> NaN" using p assms(3) False rnd64_int_zero [of n]
      by (cases ?p) (auto simp: x_of_int_def xround_def Let_def xsign_def)
    then show ?thesis using n b assms(2) xle_iff_not_less [of "xmul (x_of_int n) ?p" ?b] by auto
  qed simp
qed

lemma target_config:
  assumes "vt_base_gib v = vt_base_gib w" "vt_per_unit_gib v = vt_per_unit_gib w" "vt_user_headroom_gib v = vt_user_headroom_gib w"
    "vt_min_units v = vt_min_units w" "vt_max_units v = vt_max_units w" "vt_safety_frac v = vt_safety_frac w"
  shows "target_units v = target_units w"
  by (rule ext) (simp only: target_units_def unit_budget_def assms)

subsection \<open>A tick\<close>

text \<open>What a tuner keeps: the configuration of the tuner it was, the range of what is held, and, while a
  growth is pending, a level above what is held that has been in reach all along.\<close>

definition same_config :: "vram_tuner \<Rightarrow> vram_tuner \<Rightarrow> bool" where
  "same_config v w \<longleftrightarrow> w\<lparr>vt_current_units := 0, vt_primed := True, vt_grow_streak := 0, vt_grow_floor := None\<rparr>
     = v\<lparr>vt_current_units := 0, vt_primed := True, vt_grow_streak := 0, vt_grow_floor := None\<rparr>"

definition in_range :: "vram_tuner \<Rightarrow> int \<Rightarrow> bool" where
  "in_range v n \<longleftrightarrow> n = 0 \<or> vt_min_units v \<le> n \<and> n \<le> vt_max_units v"

definition tuner_ok :: "vram_tuner \<Rightarrow> bool" where
  "tuner_ok v \<longleftrightarrow> vt_min_units v \<le> vt_max_units v \<and> \<not> xle (vt_per_unit_gib v) (XFin 0) \<and> in_range v (vt_current_units v)
     \<and> (case vt_grow_floor v of None \<Rightarrow> True | Some f \<Rightarrow> in_range v f \<and> vt_current_units v < f)"

lemma same_config_fields:
  assumes "same_config v w"
  shows "vt_min_units w = vt_min_units v" "vt_max_units w = vt_max_units v" "vt_grow_patience w = vt_grow_patience v"
    "vt_per_unit_gib w = vt_per_unit_gib v" "target_units w = target_units v" "in_range w = in_range v"
proof -
  have f: "vt_base_gib w = vt_base_gib v" "vt_per_unit_gib w = vt_per_unit_gib v" "vt_user_headroom_gib w = vt_user_headroom_gib v"
    "vt_min_units w = vt_min_units v" "vt_max_units w = vt_max_units v" "vt_safety_frac w = vt_safety_frac v"
    "vt_grow_patience w = vt_grow_patience v"
    using assms by (cases v; cases w; simp add: same_config_def)+
  show "vt_min_units w = vt_min_units v" "vt_max_units w = vt_max_units v" "vt_grow_patience w = vt_grow_patience v"
    "vt_per_unit_gib w = vt_per_unit_gib v" using f by simp_all
  show "target_units w = target_units v" by (rule target_config) (simp_all add: f)
  show "in_range w = in_range v" by (rule ext) (simp add: in_range_def f)
qed

lemma same_config_trans: "same_config u v \<Longrightarrow> same_config v w \<Longrightarrow> same_config u w"
  by (simp add: same_config_def)

lemma same_config_refl [simp]: "same_config v v"
  by (simp add: same_config_def)

lemma settle_units_step:
  assumes "tuner_ok v" "in_range v target" "settle_units target v = (r, v')"
  shows "tuner_ok v' \<and> same_config v v' \<and> vt_primed v' \<and> vt_current_units v' \<le> target
    \<and> (case r of None \<Rightarrow> vt_current_units v' = vt_current_units v | Some new \<Rightarrow> vt_current_units v' = new \<and> new \<noteq> vt_current_units v)"
proof -
  define fl where "fl = (case vt_grow_floor v of None \<Rightarrow> target | Some f \<Rightarrow> min f target)"
  have v: "vt_min_units v \<le> vt_max_units v" "\<not> xle (vt_per_unit_gib v) (XFin 0)" "in_range v (vt_current_units v)"
    "vt_grow_floor v = Some f \<Longrightarrow> in_range v f \<and> vt_current_units v < f" for f
    using assms(1) by (auto simp: tuner_ok_def)
  consider (first) "\<not> vt_primed v" | (shrink) "vt_primed v" "target < vt_current_units v"
    | (grow) "vt_primed v" "vt_current_units v < target" | (same) "vt_primed v" "target = vt_current_units v" by linarith
  then show ?thesis
  proof cases
    case first
    then show ?thesis using assms(2,3) v
      by (cases "target = vt_current_units v") (auto simp: settle_units_def reset_grow_def tuner_ok_def same_config_def in_range_def)
  next
    case shrink
    then show ?thesis using assms(2,3) v by (auto simp: settle_units_def reset_grow_def tuner_ok_def same_config_def in_range_def)
  next
    case same
    then show ?thesis using assms(3) v by (auto simp: settle_units_def reset_grow_def tuner_ok_def same_config_def in_range_def)
  next
    case grow
    have fl: "in_range v fl" "vt_current_units v < fl" "fl \<le> target"
      using grow assms(2) v(4) by (auto simp: fl_def min_def split: option.splits)
    show ?thesis
    proof (cases "vt_grow_patience v \<le> vt_grow_streak v + 1")
      case True
      then have "r = Some fl" "v' = v\<lparr>vt_grow_streak := 0, vt_grow_floor := None, vt_current_units := fl\<rparr>"
        using grow assms(3) by (auto simp: settle_units_def reset_grow_def Let_def simp flip: fl_def)
      then show ?thesis using fl v(1,2) grow(1) by (simp add: tuner_ok_def same_config_def in_range_def)
    next
      case False
      then have "r = None" "v' = v\<lparr>vt_grow_streak := vt_grow_streak v + 1, vt_grow_floor := Some fl\<rparr>"
        using grow assms(3) by (auto simp: settle_units_def reset_grow_def Let_def simp flip: fl_def)
      then show ?thesis using fl v(1-3) grow by (simp add: tuner_ok_def same_config_def in_range_def)
    qed
  qed
qed

lemma tick_step:
  assumes "tuner_ok v" "tick free v = (Inr r, v')"
  shows "\<exists>t. target_units v free = Inr t \<and> in_range v t \<and> settle_units t v = (r, v') \<and> tuner_ok v' \<and> same_config v v' \<and> vt_primed v'
    \<and> vt_current_units v' \<le> t
    \<and> (case r of None \<Rightarrow> vt_current_units v' = vt_current_units v | Some new \<Rightarrow> vt_current_units v' = new \<and> new \<noteq> vt_current_units v)"
proof -
  obtain t where t: "target_units v free = Inr t" "settle_units t v = (r, v')"
    using assms(2) by (auto simp: tick_def split: sum.splits prod.splits)
  have "in_range v t" using target_units_cases [OF t(1)] assms(1) by (auto simp: tuner_ok_def in_range_def)
  then show ?thesis using settle_units_step [OF assms(1) _ t(2)] t by blast
qed

subsection \<open>The loop of the tuner\<close>

lemma tuner_run_snoc:
  "tuner_run fs v = (calls, None, w) \<Longrightarrow> tuner_run (fs @ [f]) v = (case tick f w of
      (Inl e, w') \<Rightarrow> (calls, Some e, w')
    | (Inr None, w') \<Rightarrow> (calls, None, w')
    | (Inr (Some new), w') \<Rightarrow> (calls @ [(vt_current_units w, new)], None, w'))"
proof (induction fs arbitrary: v calls)
  case (Cons g fs)
  obtain r v' where g: "tick g v = (r, v')" by fastforce
  then obtain q where r: "r = Inr q" using Cons.prems by (cases r) auto
  obtain calls' e w' where rest: "tuner_run fs v' = (calls', e, w')" by (metis prod_cases3)
  have "calls = (case q of None \<Rightarrow> calls' | Some new \<Rightarrow> (vt_current_units v, new) # calls')" "e = None" "w' = w"
    using Cons.prems g r rest by (auto split: option.splits)
  then show ?case using Cons.IH [of v' calls'] rest g r by (auto split: option.splits prod.splits sum.splits)
qed (auto split: prod.splits sum.splits option.splits)

lemma tuner_run_prefix:
  "tuner_run (fs @ [f]) v = (calls, None, w') \<Longrightarrow> \<exists>calls0 w. tuner_run fs v = (calls0, None, w)"
proof (induction fs arbitrary: v calls)
  case (Cons g fs)
  obtain r v' where g: "tick g v = (r, v')" by fastforce
  then obtain q where r: "r = Inr q" using Cons.prems by (cases r) auto
  obtain calls' e u where rest: "tuner_run (fs @ [f]) v' = (calls', e, u)" by (metis prod_cases3)
  then have "e = None" "u = w'" using Cons.prems g r by (auto split: option.splits)
  then show ?case using Cons.IH [of v' calls'] rest g r by (auto split: option.splits)
qed auto

fun linked :: "int \<Rightarrow> (int \<times> int) list \<Rightarrow> int \<Rightarrow> bool" where
  "linked a [] b = (a = b)"
| "linked a ((old, new) # cs) b = (old = a \<and> new \<noteq> a \<and> linked new cs b)"

lemma linked_snoc: "linked a (cs @ [(old, new)]) b \<longleftrightarrow> linked a cs old \<and> new \<noteq> old \<and> b = new"
  by (induction a cs b arbitrary: new rule: linked.induct) auto

lemma tuner_run_step:
  "tuner_ok v \<Longrightarrow> tuner_run fs v = (calls, None, w) \<Longrightarrow> tuner_ok w \<and> same_config v w \<and> (fs \<noteq> [] \<longrightarrow> vt_primed w)
    \<and> linked (vt_current_units v) calls (vt_current_units w)"
proof (induction fs arbitrary: v calls)
  case (Cons g fs)
  obtain r v' where g: "tick g v = (r, v')" by fastforce
  then obtain q where r: "r = Inr q" using Cons.prems by (cases r) auto
  note step = tick_step [OF Cons.prems(1) g [unfolded r]]
  obtain calls' e w' where rest: "tuner_run fs v' = (calls', e, w')" by (metis prod_cases3)
  have eqs: "calls = (case q of None \<Rightarrow> calls' | Some new \<Rightarrow> (vt_current_units v, new) # calls')" "e = None" "w' = w"
    using Cons.prems g r rest by (auto split: option.splits)
  have IH: "tuner_ok w \<and> same_config v' w \<and> (fs \<noteq> [] \<longrightarrow> vt_primed w) \<and> linked (vt_current_units v') calls' (vt_current_units w)"
    using Cons.IH [of v' calls'] step rest eqs by blast
  moreover have "fs = [] \<longrightarrow> w = v'" using rest eqs by auto
  ultimately show ?case using step eqs same_config_trans [of v v' w] by (auto split: option.splits)
qed auto

text \<open>C39: whatever the readings of the free memory were, what the tuner holds after them is in
  its range and is not more than what fits the last of them, with the headroom of the owner; and the
  resizes it asked for lead from what it held to what it holds.\<close>

theorem held_units_fit_the_last_reading:
  assumes "tuner_ok v" "tuner_run (fs @ [free]) v = (calls, None, w)"
  shows "in_range v (vt_current_units w) \<and> linked (vt_current_units v) calls (vt_current_units w)
    \<and> (\<exists>t. target_units v free = Inr t \<and> vt_current_units w \<le> t
         \<and> (t = 0 \<or> xle (xmul (x_of_int t) (vt_per_unit_gib v)) (unit_budget v free)))"
proof -
  obtain calls0 u where run: "tuner_run fs v = (calls0, None, u)" using tuner_run_prefix [OF assms(2)] by blast
  note before = tuner_run_step [OF assms(1) run]
  obtain r where tick: "tick free u = (Inr r, w)" using tuner_run_snoc [OF run, of free] assms(2)
    by (auto split: prod.splits sum.splits option.splits)
  have conf: "target_units u = target_units v" using before same_config_fields by blast
  obtain t where t: "target_units v free = Inr t" "vt_current_units w \<le> t" using tick_step [OF _ tick] before conf by auto
  have v: "vt_min_units v \<le> vt_max_units v" "\<not> xle (vt_per_unit_gib v) (XFin 0)" using assms(1) by (simp_all add: tuner_ok_def)
  note after = tuner_run_step [OF assms]
  have "in_range v (vt_current_units w)" using after same_config_fields(6) [of v w] by (auto simp: tuner_ok_def)
  then show ?thesis using after t target_units_cases [OF t(1) v] by auto
qed

text \<open>A pending growth: the last readings, as many as it counts, have all supported its level.\<close>

definition streak_held :: "vram_tuner \<Rightarrow> xfloat list \<Rightarrow> vram_tuner \<Rightarrow> bool" where
  "streak_held v fs w \<longleftrightarrow> 0 \<le> vt_grow_streak w \<and> nat (vt_grow_streak w) \<le> length fs
     \<and> (vt_grow_floor w = None \<longleftrightarrow> vt_grow_streak w = 0)
     \<and> (\<forall>l g. vt_grow_floor w = Some l \<longrightarrow> g \<in> set (drop (length fs - nat (vt_grow_streak w)) fs) \<longrightarrow>
          (\<exists>t. target_units v g = Inr t \<and> l \<le> t))"

lemma streak_step:
  assumes "tuner_ok w" "same_config v w" "streak_held v fs w" "tick f w = (Inr r, w')"
  shows "streak_held v (fs @ [f]) w'
    \<and> (vt_primed w \<longrightarrow> r = Some new \<longrightarrow> vt_current_units w < new \<longrightarrow>
         (\<forall>g \<in> set (drop (length (fs @ [f]) - nat (vt_grow_patience v)) (fs @ [f])). \<exists>t. target_units v g = Inr t \<and> new \<le> t))"
proof -
  have conf: "target_units w = target_units v" "vt_grow_patience w = vt_grow_patience v" using same_config_fields [OF assms(2)] by simp_all
  obtain t where t: "target_units v f = Inr t" "settle_units t w = (r, w')" using tick_step [OF assms(1,4)] conf by auto
  let ?s = "vt_grow_streak w"
  have held: "0 \<le> ?s" "nat ?s \<le> length fs" "vt_grow_floor w = None \<longleftrightarrow> ?s = 0"
    "\<And>l g. vt_grow_floor w = Some l \<Longrightarrow> g \<in> set (drop (length fs - nat ?s) fs) \<Longrightarrow> \<exists>t. target_units v g = Inr t \<and> l \<le> t"
    using assms(3) by (auto simp: streak_held_def)
  have none: "streak_held v (fs @ [f]) w'" if "vt_grow_streak w' = 0" "vt_grow_floor w' = None" using that by (simp add: streak_held_def)
  consider (first) "\<not> vt_primed w" | (shrink) "vt_primed w" "t < vt_current_units w"
    | (grow) "vt_primed w" "vt_current_units w < t" | (same) "vt_primed w" "t = vt_current_units w" by linarith
  then show ?thesis
  proof cases
    case first
    then show ?thesis using t(2) none by (auto simp: settle_units_def reset_grow_def Let_def split: if_splits)
  next
    case shrink
    then show ?thesis using t(2) none by (auto simp: settle_units_def reset_grow_def)
  next
    case same
    then show ?thesis using t(2) none by (auto simp: settle_units_def reset_grow_def)
  next
    case grow
    define fl where "fl = (case vt_grow_floor w of None \<Rightarrow> t | Some l \<Rightarrow> min l t)"
    let ?tail = "drop (length (fs @ [f]) - nat (?s + 1)) (fs @ [f])"
    have tail: "?tail = drop (length fs - nat ?s) fs @ [f]" using held(1,2) by (simp add: nat_add_distrib)
    have reach: "\<exists>t. target_units v g = Inr t \<and> fl \<le> t" if memb: "g \<in> set ?tail" for g
    proof (cases "vt_grow_floor w")
      case None
      then show ?thesis using memb [unfolded tail] t(1) held(1-3) by (simp add: fl_def)
    next
      case (Some l)
      consider "g = f" | "g \<in> set (drop (length fs - nat ?s) fs)" using memb [unfolded tail] by auto
      then show ?thesis using held(4) [OF Some, of g] t(1) Some by cases (auto simp: fl_def min_def)
    qed
    show ?thesis
    proof (cases "vt_grow_patience w \<le> ?s + 1")
      case True
      then have done1: "r = Some fl" "vt_grow_streak w' = 0" "vt_grow_floor w' = None"
        using grow t(2) by (auto simp: settle_units_def reset_grow_def Let_def simp flip: fl_def)
      have "length (fs @ [f]) - nat (?s + 1) \<le> length (fs @ [f]) - nat (vt_grow_patience v)" using True conf(2) by simp
      then have "set (drop (length (fs @ [f]) - nat (vt_grow_patience v)) (fs @ [f])) \<subseteq> set ?tail" by (rule set_drop_subset_set_drop)
      then show ?thesis using done1 none reach by blast
    next
      case False
      then have wait: "r = None" "vt_grow_streak w' = ?s + 1" "vt_grow_floor w' = Some fl"
        using grow t(2) by (auto simp: settle_units_def reset_grow_def Let_def simp flip: fl_def)
      have "streak_held v (fs @ [f]) w'" unfolding streak_held_def wait using held(1,2) reach by (auto simp: nat_add_distrib)
      then show ?thesis using wait(1) by simp
    qed
  qed
qed

lemma streak_run:
  assumes "tuner_ok v" "vt_grow_streak v = 0" "vt_grow_floor v = None"
  shows "tuner_run fs v = (calls, None, w) \<Longrightarrow> streak_held v fs w"
proof (induction fs arbitrary: calls w rule: rev_induct)
  case Nil
  then show ?case using assms by (simp add: streak_held_def)
next
  case (snoc f fs)
  obtain calls0 u where run: "tuner_run fs v = (calls0, None, u)" using tuner_run_prefix [OF snoc.prems] by blast
  obtain r where "tick f u = (Inr r, w)" using tuner_run_snoc [OF run, of f] snoc.prems
    by (auto split: prod.splits sum.splits option.splits)
  then show ?case using streak_step tuner_run_step [OF assms(1) run] snoc.IH [OF run] by blast
qed

text \<open>once it has started, a tuner grows only to a level that the last readings, as many as
  its patience asks for, have all supported: memory that was free for a moment is never taken.\<close>

theorem growth_follows_a_level_that_held:
  assumes "new_tuner dev base per_unit headroom lo hi interval patience safety = Inr v" "in_range v lo"
    "tuner_run fs v = (calls, None, w)" "fs \<noteq> []" "tick free w = (Inr (Some new), w')" "vt_current_units w < new"
    "g \<in> set (drop (length (fs @ [free]) - nat patience) (fs @ [free]))"
  shows "\<exists>t. target_units v g = Inr t \<and> new \<le> t"
proof -
  have v: "tuner_ok v" "vt_grow_streak v = 0" "vt_grow_floor v = None" "vt_grow_patience v = patience"
    using assms(1,2) by (auto simp: new_tuner_def tuner_ok_def in_range_def split: if_splits)
  note run = tuner_run_step [OF v(1) assms(3)]
  have "streak_held v fs w" using streak_run [OF v(1-3) assms(3)] .
  then show ?thesis using streak_step [of w v fs free "Some new" w' new] run assms(4-7) v(4) by blast
qed

subsection \<open>The manager\<close>

text \<open>A cost model whose footprints are exact: the base and the size of a unit have few binary digits.\<close>

definition exact_costs :: "rat \<Rightarrow> rat \<Rightarrow> int \<Rightarrow> bool" where
  "exact_costs b p hi \<longleftrightarrow> 0 \<le> b \<and> 0 < p \<and> hi \<le> 2 ^ 20 \<and> b + of_int hi * p \<le> 2 ^ 30
     \<and> (\<forall>k. 0 \<le> k \<longrightarrow> k \<le> hi \<longrightarrow> is_f64 (of_int k * p) \<and> is_f64 (b + of_int k * p))"

lemma xround_exact: "is_f64 q \<Longrightarrow> \<bar>q\<bar> \<le> 2 ^ 31 \<Longrightarrow> xround q = XFin q"
  by (rule xround_small) simp_all

lemma xround_bounded:
  assumes "\<bar>q\<bar> \<le> 2 ^ 31"
  shows "xround q = XFin (rnd64 q) \<and> \<bar>rnd64 q\<bar> \<le> 2 ^ 31"
proof -
  have edge: "rnd64 (2 ^ 31) = 2 ^ 31" using rnd64_of_int [of "2 ^ 31"] by simp
  have "rnd64 q \<le> 2 ^ 31" using rnd64_mono [of q "2 ^ 31"] assms edge by simp
  moreover have "- (2 ^ 31) \<le> rnd64 q" using rnd64_mono [of "- (2 ^ 31)" q] assms edge rnd64_minus [of "2 ^ 31"] by simp
  ultimately have r: "\<bar>rnd64 q\<bar> \<le> 2 ^ 31" by simp
  have "(2::rat) ^ 31 < 2 ^ 1024" by (rule power_strict_increasing) simp_all
  then show ?thesis using r unfolding xround_def Let_def by (auto simp: abs_le_iff)
qed

lemma rnd64_close: "\<bar>q\<bar> \<le> 2 ^ 31 \<Longrightarrow> \<bar>rnd64 q - q\<bar> \<le> 1 / 2 ^ 22"
proof -
  assume "\<bar>q\<bar> \<le> 2 ^ 31"
  then have "\<bar>q\<bar> < 2 powi 32" by (simp add: power_int_def)
  then have "\<bar>rnd64 q - q\<bar> \<le> 2 powi (32 - 54)" by (rule rnd64_error_below) simp
  moreover have "(2::rat) powi (32 - 54) = 1 / 2 ^ 22" by (simp add: power_int_def power_divide)
  ultimately show ?thesis by metis
qed

lemma cap_covers:
  assumes "exact_costs b p hi" "0 < n" "n \<le> hi" "0 \<le> F" "F \<le> 2 ^ 30" "0 \<le> s" "s \<le> rnd64 (9 / 10)" "1 / 2 ^ 20 \<le> h" "h \<le> 2 ^ 29"
    "xle (xmul (x_of_int n) (XFin p)) (xsub (xsub (xmul (XFin F) (XFin s)) (XFin h)) (XFin b))"
  shows "b + of_int n * p \<le> rnd64 (F * rnd64 (9 / 10))"
proof -
  have nine: "rnd64 (9 / 10) \<le> 1" using rnd64_mono [of "9 / 10" 1] rnd64_of_int [of 1] by simp
  have b: "0 \<le> b" "b \<le> 2 ^ 30" "is_f64 (of_int n * p)" "0 \<le> of_int n * p" "of_int n * p \<le> 2 ^ 30"
  proof -
    have ex: "0 \<le> b" "0 < p" "b + of_int hi * p \<le> 2 ^ 30" using assms(1) by (simp_all add: exact_costs_def)
    have "of_int n * p \<le> of_int hi * p" using assms(3) ex(2) by (intro mult_right_mono) simp_all
    moreover have "0 \<le> of_int n * p" using assms(2) ex(2) by simp
    ultimately show "0 \<le> b" "b \<le> 2 ^ 30" "0 \<le> of_int n * p" "of_int n * p \<le> 2 ^ 30" using ex by linarith+
    show "is_f64 (of_int n * p)" using assms(1-3) by (auto simp: exact_costs_def)
  qed
  have fs: "0 \<le> F * s" "F * s \<le> F * rnd64 (9 / 10)" "F * rnd64 (9 / 10) \<le> 2 ^ 30"
  proof -
    show "0 \<le> F * s" "F * s \<le> F * rnd64 (9 / 10)" using assms(4,6,7) by (simp_all add: mult_left_mono)
    have "F * rnd64 (9 / 10) \<le> F * 1" using assms(4) nine by (intro mult_left_mono)
    then show "F * rnd64 (9 / 10) \<le> 2 ^ 30" using assms(5) by simp
  qed
  let ?x = "rnd64 (F * s)"
  have x: "xround (F * s) = XFin ?x" "0 \<le> ?x" "?x \<le> 2 ^ 30" "?x \<le> rnd64 (F * rnd64 (9 / 10))"
  proof -
    have edge: "rnd64 (2 ^ 30) = 2 ^ 30" using rnd64_of_int [of "2 ^ 30"] by simp
    show "xround (F * s) = XFin ?x" using xround_bounded [of "F * s"] fs by simp
    show "0 \<le> ?x" using fs(1) by (rule rnd64_nonneg)
    show "?x \<le> 2 ^ 30" using rnd64_mono [of "F * s" "2 ^ 30"] fs edge by simp
    show "?x \<le> rnd64 (F * rnd64 (9 / 10))" using fs(2) by (rule rnd64_mono)
  qed
  let ?b1 = "rnd64 (?x - h)" and ?b2 = "rnd64 (rnd64 (?x - h) - b)"
  have d1: "\<bar>?x - h\<bar> \<le> 2 ^ 30" "- (2 ^ 29) \<le> ?x - h" using x(2,3) assms(8,9) by simp_all
  then have b1: "xround (?x - h) = XFin ?b1" "\<bar>?b1 - (?x - h)\<bar> \<le> 1 / 2 ^ 22"
    using xround_bounded [of "?x - h"] rnd64_close [of "?x - h"] by simp_all
  have "\<bar>?b1 - (?x - h)\<bar> \<le> 1" using order_trans [OF b1(2), of 1] by simp
  then have "?b1 \<le> ?x - h + 1" "?x - h - 1 \<le> ?b1" by linarith+
  then have d2: "\<bar>?b1 - b\<bar> \<le> 2 ^ 31" using d1 b(1,2) by (simp add: abs_le_iff)
  then have b2: "xround (?b1 - b) = XFin ?b2" "\<bar>?b2 - (?b1 - b)\<bar> \<le> 1 / 2 ^ 22"
    using xround_bounded [of "?b1 - b"] rnd64_close [of "?b1 - b"] by simp_all
  have "is_f64 (of_int n)" using assms(1-3) rnd64_of_int [of n] by (simp add: is_f64_def exact_costs_def)
  then have n: "x_of_int n = XFin (of_int n)" unfolding x_of_int_def using assms(1-3)
    by (intro xround_exact) (auto simp: exact_costs_def)
  have "xle (XFin (of_int n * p)) (XFin ?b2)" using assms(10) b x(1) b1(1) b2(1) xround_exact [of "of_int n * p"]
    by (simp add: n xsub_def)
  then have fit: "of_int n * p \<le> ?b2" by simp
  define \<epsilon> :: rat where "\<epsilon> = 1 / 2 ^ 22"
  have "\<epsilon> + \<epsilon> \<le> h" using assms(8) by (intro order_trans [OF _ assms(8)]) (simp add: \<epsilon>_def)
  moreover have "\<bar>?b1 - (?x - h)\<bar> \<le> \<epsilon>" "\<bar>?b2 - (?b1 - b)\<bar> \<le> \<epsilon>" using b1(2) b2(2) by (simp_all only: \<epsilon>_def)
  ultimately show ?thesis using fit x(4) by linarith
qed

text \<open>where the footprints are exact, the hard cap that a manager derives from a reading covers
  the footprint of the units it reports from the same reading, as long as it reports any.\<close>

theorem cap_covers_the_reported_units:
  assumes "exact_costs b p hi" "vt_base_gib v = XFin b" "vt_per_unit_gib v = XFin p" "vt_max_units v = hi" "vt_min_units v \<le> hi"
    "vt_user_headroom_gib v = XFin h" "1 / 2 ^ 20 \<le> h" "h \<le> 2 ^ 29"
    "vt_safety_frac v = XFin s" "0 \<le> s" "s \<le> rnd64 (9 / 10)" "0 \<le> F" "F \<le> 2 ^ 30"
    "dget env ''NEURAHASH_VRAM_CAP_GB'' [] = []" "dget env ''NEURAHASH_VRAM_CAP_FRAC'' [] = []"
    "m = new_manager dev v None None DEFAULT_HEADROOM RUNAWAY_SLACK" "report_capacity m (XFin F) = Inr n" "0 < n"
  shows "\<exists>cap. cap_gib env text_float m (XFin F) whole = Inr cap \<and> xle (footprint_gib m n) cap"
proof -
  have costs: "0 \<le> b" "0 < p" "hi \<le> 2 ^ 20" "b + of_int hi * p \<le> 2 ^ 30"
    and exact: "\<And>k. 0 \<le> k \<Longrightarrow> k \<le> hi \<Longrightarrow> is_f64 (of_int k * p) \<and> is_f64 (b + of_int k * p)"
    using assms(1) by (auto simp: exact_costs_def)
  have target: "target_units v (XFin F) = Inr n" using assms(16,17) by (simp add: report_capacity_def new_manager_def)
  have n: "n \<le> hi" "xle (xmul (x_of_int n) (XFin p)) (unit_budget v (XFin F))"
    using target_units_cases [OF target] assms(3-5,18) costs(2) by auto
  have foot: "footprint_gib m k = XFin (b + of_int k * p)" if k: "0 \<le> k" "k \<le> hi" for k
  proof -
    have small: "of_int k * p \<le> of_int hi * p" "0 \<le> of_int k * p" using k costs(2) by (simp_all add: mult_right_mono)
    then have "of_int k * p \<le> 2 ^ 31" "b + of_int k * p \<le> 2 ^ 31" using costs(1,4) by simp_all
    then have prods: "xround (of_int k * p) = XFin (of_int k * p)" "xround (b + of_int k * p) = XFin (b + of_int k * p)"
      using exact [OF k] small costs(1) by (auto intro!: xround_exact)
    have "xround (of_int k) = XFin (of_int k)" using k costs(3) by (intro xround_int) simp
    then show ?thesis using prods k(1) assms(2,3,16) by (simp add: footprint_gib_def new_manager_def x_of_int_def)
  qed
  let ?y = "rnd64 (F * rnd64 (9 / 10))" and ?f = "b + of_int hi * p" and ?u = "b + of_int n * p"
  have u: "?u \<le> ?y"
    using cap_covers [OF assms(1,18) n(1) assms(12,13,10,11,7,8)] n(2) assms(2,6,9) by (simp add: unit_budget_def)
  have y: "xmul (XFin F) DEFAULT_HEADROOM = XFin ?y"
  proof -
    have "rnd64 (9 / 10) \<le> 1" "0 \<le> rnd64 (9 / 10)" using rnd64_mono [of "9 / 10" 1] rnd64_of_int [of 1] by (simp_all add: rnd64_nonneg)
    then have "0 \<le> F * rnd64 (9 / 10)" "F * rnd64 (9 / 10) \<le> F * 1" using assms(12) mult_left_mono [of "rnd64 (9 / 10)" 1 F] by simp_all
    then show ?thesis using assms(13) xround_bounded [of "F * rnd64 (9 / 10)"] by (simp add: DEFAULT_HEADROOM_def)
  qed
  have hi: "0 \<le> hi" "n \<le> hi" using n(1) assms(18) by simp_all
  have fu: "?u \<le> ?f" "0 \<le> ?u" using hi costs(1,2) assms(18) by (simp_all add: mult_right_mono)
  have top: "max_footprint_gib m = XFin ?f" using foot [of hi] hi assms(4,16) by (simp add: max_footprint_gib_def new_manager_def)
  have "?f * (3 / 2) \<le> 2 ^ 31" "0 \<le> ?f * (3 / 2)" using costs(4) fu by simp_all
  then have slack: "xmul (XFin ?f) RUNAWAY_SLACK = XFin (rnd64 (?f * (3 / 2)))"
    using xround_bounded [of "?f * (3 / 2)"] by (simp add: RUNAWAY_SLACK_def)
  have "rnd64 ?u \<le> rnd64 (?f * (3 / 2))" using fu by (intro rnd64_mono) simp
  moreover have "rnd64 ?u = ?u" using exact [of n] hi assms(18) by (simp add: is_f64_def)
  ultimately have "?u \<le> rnd64 (?f * (3 / 2))" by simp
  moreover have "cap_gib env text_float m (XFin F) whole = Inr (xmin (XFin ?y) (XFin (rnd64 (?f * (3 / 2)))))"
    using assms(14,15,16) y top slack by (simp add: cap_gib_def new_manager_def)
  ultimately show ?thesis using u foot [of n] hi assms(18) by (auto simp: xmin_def)
qed

text \<open>The setting of the program's comments, base 4 GiB, 1.125 GiB a layer and 1.5 GiB for the owner, with
  the fraction seven eighths instead of nine tenths.\<close>

definition demo_tuner :: vram_tuner where
  "demo_tuner = \<lparr>vt_device = ''cuda'', vt_base_gib = XFin 4, vt_per_unit_gib = XFin (9 / 8), vt_user_headroom_gib = XFin (3 / 2),
     vt_min_units = 0, vt_max_units = 16, vt_interval_s = XFin 20, vt_grow_patience = 3,
     vt_safety_frac = XFin (7 / 8), vt_current_units = 0, vt_primed = False, vt_grow_streak = 0, vt_grow_floor = None\<rparr>"

lemma grid_f64: "q * 2 ^ 22 = of_int n \<Longrightarrow> \<bar>q\<bar> \<le> 2 ^ 31 \<Longrightarrow> is_f64 q"
  by (auto simp: is_f64_def intro!: on_grid_exact on_gridI)

lemma grid_xround: "on_grid q \<Longrightarrow> \<bar>q\<bar> \<le> 2 ^ 31 \<Longrightarrow> xround q = XFin q"
  by (intro xround_exact) (auto simp: is_f64_def intro!: on_grid_exact)

lemma tuner_rounds:
  "xround (35 / 2) = XFin (35 / 2)" "xround 16 = XFin 16" "xround 12 = XFin 12" "xround 10 = XFin 10" "xround (45 / 4) = XFin (45 / 4)"
  "xround (21 / 2) = XFin (21 / 2)" "xround 9 = XFin 9" "xround 5 = XFin 5" "xround 4 = XFin 4" "xround (9 / 2) = XFin (9 / 2)"
  "xround (7 / 2) = XFin (7 / 2)" "xround (- 2) = XFin (- 2)"
  by (simp_all add: grid_xround on_grid_def)

lemma demo_fields:
  "vt_base_gib demo_tuner = XFin 4" "vt_per_unit_gib demo_tuner = XFin (9 / 8)" "vt_user_headroom_gib demo_tuner = XFin (3 / 2)"
  "vt_min_units demo_tuner = 0" "vt_max_units demo_tuner = 16" "vt_safety_frac demo_tuner = XFin (7 / 8)"
  "vt_grow_patience demo_tuner = 3" "vt_current_units demo_tuner = 0"
  by (simp_all add: demo_tuner_def)

lemma demo_floors: "\<lfloor>32 / 3 :: rat\<rfloor> = 10" "\<lfloor>40 / 9 :: rat\<rfloor> = 4" "\<lfloor>- (16 / 9) :: rat\<rfloor> = - 2"
  by (rule floor_unique; simp)+

lemma demo_targets:
  "target_units demo_tuner (XFin 20) = Inr 10" "target_units demo_tuner (XFin 12) = Inr 4" "target_units demo_tuner (XFin 4) = Inr 0"
  by (simp_all add: target_units_def unit_budget_def demo_fields xsub_def tuner_rounds demo_floors int_of_x_def x_of_int_def Let_def)

lemma demo_ok: "tuner_ok demo_tuner"
  by (simp add: tuner_ok_def demo_fields in_range_def) (simp add: demo_tuner_def)

lemma demo_tick:
  assumes "same_config demo_tuner w" "target_units demo_tuner f = Inr t"
  shows "tick f w = (case settle_units t w of (r, w') \<Rightarrow> (Inr r, w'))"
  using same_config_fields(5) [OF assms(1)] assms(2) by (simp add: tick_def)

definition demo_after :: "int \<Rightarrow> int \<Rightarrow> int option \<Rightarrow> vram_tuner" where
  "demo_after cur streak fl = demo_tuner\<lparr>vt_primed := True, vt_current_units := cur, vt_grow_streak := streak, vt_grow_floor := fl\<rparr>"

lemma demo_ticks:
  "tick (XFin 20) demo_tuner = (Inr (Some 10), demo_after 10 0 None)"
  "tick (XFin 12) demo_tuner = (Inr (Some 4), demo_after 4 0 None)"
  "tick (XFin 12) (demo_after 10 0 None) = (Inr (Some 4), demo_after 4 0 None)"
  "tick (XFin 20) (demo_after 4 0 None) = (Inr None, demo_after 4 1 (Some 10))"
  "tick (XFin 20) (demo_after 4 1 (Some 10)) = (Inr None, demo_after 4 2 (Some 10))"
  "tick (XFin 20) (demo_after 4 2 (Some 10)) = (Inr (Some 10), demo_after 10 0 None)"
proof -
  have conf: "same_config demo_tuner (demo_after c k l)" for c k l by (simp add: same_config_def demo_after_def)
  note runs = demo_tick [OF conf demo_targets(1)] demo_tick [OF conf demo_targets(2)]
    demo_tick [OF same_config_refl demo_targets(1)] demo_tick [OF same_config_refl demo_targets(2)]
  note defs = settle_units_def reset_grow_def Let_def demo_after_def demo_tuner_def
  show "tick (XFin 20) demo_tuner = (Inr (Some 10), demo_after 10 0 None)"
    "tick (XFin 12) demo_tuner = (Inr (Some 4), demo_after 4 0 None)"
    "tick (XFin 12) (demo_after 10 0 None) = (Inr (Some 4), demo_after 4 0 None)"
    "tick (XFin 20) (demo_after 4 0 None) = (Inr None, demo_after 4 1 (Some 10))"
    "tick (XFin 20) (demo_after 4 1 (Some 10)) = (Inr None, demo_after 4 2 (Some 10))"
    "tick (XFin 20) (demo_after 4 2 (Some 10)) = (Inr (Some 10), demo_after 10 0 None)"
    unfolding runs by (simp_all add: defs)
qed

lemma held_units_fit_the_last_reading_witness:
  "tuner_run ([XFin 20] @ [XFin 12]) demo_tuner = ([(0, 10), (10, 4)], None, demo_after 4 0 None)
    \<and> linked 0 [(0, 10), (10, 4)] 4"
proof -
  have run: "tuner_run ([XFin 20] @ [XFin 12]) demo_tuner = ([(0, 10), (10, 4)], None, demo_after 4 0 None)"
    by (simp add: demo_ticks demo_fields) (simp add: demo_after_def)
  from held_units_fit_the_last_reading [OF demo_ok run] show ?thesis using run by (simp add: demo_fields demo_after_def)
qed

lemma growth_follows_a_level_that_held_witness:
  "\<exists>t. target_units demo_tuner (XFin 20) = Inr t \<and> 10 \<le> t"
proof -
  have new: "new_tuner ''cuda'' (XFin 4) (XFin (9 / 8)) (XFin (3 / 2)) 0 16 (XFin 20) 3 (XFin (7 / 8)) = Inr demo_tuner"
    by (simp add: new_tuner_def demo_tuner_def)
  have run: "tuner_run [XFin 12, XFin 20, XFin 20] demo_tuner = ([(0, 4)], None, demo_after 4 2 (Some 10))"
    by (simp add: demo_ticks demo_fields)
  have "in_range demo_tuner 0" "vt_current_units (demo_after 4 2 (Some 10)) < 10"
    "XFin 20 \<in> set (drop (length ([XFin 12, XFin 20, XFin 20] @ [XFin 20]) - nat 3) ([XFin 12, XFin 20, XFin 20] @ [XFin 20]))"
    by (simp_all add: in_range_def demo_after_def)
  from growth_follows_a_level_that_held [OF new this(1) run _ demo_ticks(6) this(2,3)] show ?thesis by simp
qed

abbreviation demo_manager :: vram_manager where
  "demo_manager \<equiv> new_manager ''cuda'' demo_tuner None None DEFAULT_HEADROOM RUNAWAY_SLACK"

lemma cap_covers_the_reported_units_witness:
  "\<exists>cap. cap_gib [] (\<lambda>_. None) demo_manager (XFin 20) (XFin 24) = Inr cap \<and> xle (footprint_gib demo_manager 10) cap"
proof (rule cap_covers_the_reported_units [where b = 4 and p = "9 / 8" and hi = 16 and h = "3 / 2" and s = "7 / 8" and v = demo_tuner])
  show "exact_costs 4 (9 / 8) 16"
  proof -
    have "is_f64 (of_int k * (9 / 8))" "is_f64 (4 + of_int k * (9 / 8))" if "0 \<le> k" "k \<le> 16" for k
    proof -
      have k: "0 \<le> (of_int k :: rat)" "(of_int k :: rat) \<le> 16" using that by simp_all
      show "is_f64 (of_int k * (9 / 8))" by (rule grid_f64 [where n = "k * (9 * 2 ^ 19)"]) (use k in simp_all)
      have "\<bar>4 + of_int k * (9 / 8) :: rat\<bar> \<le> 2 ^ 31" using k by simp
      then show "is_f64 (4 + of_int k * (9 / 8))" by (intro grid_f64 [where n = "4 * 2 ^ 22 + k * (9 * 2 ^ 19)"]) simp_all
    qed
    then show ?thesis by (simp add: exact_costs_def)
  qed
  have "rnd64 (7 / 8) = 7 / 8" by (rule on_grid_exact) (simp_all add: on_grid_def)
  then show "(7 / 8 :: rat) \<le> rnd64 (9 / 10)" using rnd64_mono [of "7 / 8" "9 / 10"] by simp
  show "report_capacity demo_manager (XFin 20) = Inr 10" by (simp add: report_capacity_def new_manager_def demo_targets)
qed (simp_all add: demo_fields)

text \<open>A paused tuner reports no units, and the cap that goes with the report is below the base of the
  model, which the footprint of no units counts.\<close>

theorem paused_cap_is_below_the_footprint:
  "report_capacity demo_manager (XFin 4) = Inr 0 \<and> footprint_gib demo_manager 0 = XFin 4
    \<and> (\<exists>cap. cap_gib [] (\<lambda>_. None) demo_manager (XFin 4) (XFin 24) = Inr cap \<and> xless cap (XFin 4))"
proof -
  have "rnd64 (15 / 16) = 15 / 16" "rnd64 (15 / 4) = 15 / 4" by (rule on_grid_exact; simp add: on_grid_def)+
  then have nine: "rnd64 (9 / 10) \<le> 15 / 16" "0 \<le> rnd64 (9 / 10)" using rnd64_mono [of "9 / 10" "15 / 16"] by (simp_all add: rnd64_nonneg)
  then have "rnd64 (4 * rnd64 (9 / 10)) \<le> rnd64 (15 / 4)" by (intro rnd64_mono) simp
  then have low: "rnd64 (4 * rnd64 (9 / 10)) < 4" using \<open>rnd64 (15 / 4) = 15 / 4\<close> by simp
  have cap: "xmul (XFin 4) DEFAULT_HEADROOM = XFin (rnd64 (4 * rnd64 (9 / 10)))"
    using xround_bounded [of "4 * rnd64 (9 / 10)"] nine by (simp add: DEFAULT_HEADROOM_def)
  have rounds: "xround 18 = XFin 18" "xround 22 = XFin 22" "xround 33 = XFin 33" by (simp_all add: grid_xround on_grid_def)
  have high: "max_footprint_gib demo_manager = XFin 22" "xmul (XFin 22) RUNAWAY_SLACK = XFin 33"
    by (simp_all add: max_footprint_gib_def footprint_gib_def new_manager_def demo_fields x_of_int_def tuner_rounds rounds RUNAWAY_SLACK_def)
  have "report_capacity demo_manager (XFin 4) = Inr 0" "footprint_gib demo_manager 0 = XFin 4"
    by (simp_all add: report_capacity_def footprint_gib_def new_manager_def demo_targets demo_fields x_of_int_def tuner_rounds)
  moreover have "cap_gib [] (\<lambda>_. None) demo_manager (XFin 4) (XFin 24) = Inr (xmin (XFin (rnd64 (4 * rnd64 (9 / 10)))) (XFin 33))"
  proof -
    have "cap_gib [] (\<lambda>_. None) demo_manager (XFin 4) (XFin 24)
        = Inr (xmin (xmul (XFin 4) DEFAULT_HEADROOM) (xmul (max_footprint_gib demo_manager) RUNAWAY_SLACK))"
      by (simp add: cap_gib_def new_manager_def)
    then show ?thesis unfolding cap high .
  qed
  ultimately show ?thesis using low by (auto simp: xmin_def)
qed

end
