(* ===== verification/Endpoints.thy ===== *)
theory Endpoints
  imports Claim_Walk
begin

text \<open>
  The doors of the pool, \<^verbatim>\<open>neurahash/endpoints.py\<close>: a miner carries a list of coordinator addresses and
  rolls to the next when one stops answering. Parsing of the list with its pins
  (\<^verbatim>\<open>normalize_fingerprint\<close> of \<^verbatim>\<open>neurahash/tls.py\<close>), and the failover policy. The display text of an
  endpoint is left out.
\<close>

subsection \<open>Endpoints\<close>

definition COORDS_ENV :: string where "COORDS_ENV = ''NEURAHASH_COORDS''"
definition DEFAULT_PREF_DECAY :: int where "DEFAULT_PREF_DECAY = 3"

record endpoint =
  ep_host :: string
  ep_port :: int
  ep_pin :: "string option"

definition ep_key :: "endpoint \<Rightarrow> string" where
  "ep_key e = ep_host e @ CHR '':'' # int_str (ep_port e)"

definition FP_PREFIX :: string where "FP_PREFIX = ''sha256:''"

definition normalize_fingerprint :: "string \<Rightarrow> exn + string" where
  "normalize_fingerprint fp =
     (let fp = filter (\<lambda>c. c \<noteq> CHR '' '') (str_lower (str_strip fp));
          fp = (if starts_with FP_PREFIX fp then drop (length FP_PREFIX) fp else fp);
          fp = filter (\<lambda>c. c \<noteq> CHR '':'') fp in
      if length fp \<noteq> 64 \<or> (\<exists>c \<in> set fp. c \<notin> set ''0123456789abcdef'') then Inl (ValueError ''not a SHA-256 fingerprint'')
      else Inr fp)"

definition split_pin :: "string \<Rightarrow> exn + string \<times> string option" where
  "split_pin token =
     (case partition_on CHR ''#'' token of (addr, sep, pin_part) \<Rightarrow>
        if \<not> sep then Inr (token, None)
        else (let pin_part = str_strip pin_part in
          if pin_part = [] then Inl (ValueError ''no pin follows'')
          else if \<not> starts_with ''sha256:'' (str_lower pin_part) then Inl (ValueError ''per-endpoint pin'')
          else bindE (normalize_fingerprint pin_part) (\<lambda>p. Inr (addr, Some p))))"

text \<open>\<^verbatim>\<open>s.rpartition(c)\<close> of a text that has the separator.\<close>

definition rpartition_on :: "char \<Rightarrow> string \<Rightarrow> string \<times> string" where
  "rpartition_on c s = (rev (drop 1 (dropWhile (\<lambda>x. x \<noteq> c) (rev s))), rev (takeWhile (\<lambda>x. x \<noteq> c) (rev s)))"

definition parse_one :: "string \<Rightarrow> int \<Rightarrow> exn + endpoint" where
  "parse_one token default_port =
     (let token = str_strip token in
      if token = [] then Inl (ValueError ''empty endpoint token'')
      else bindE (split_pin token) (\<lambda>(addr, pin).
        let addr = str_strip addr in
        if addr = [] then Inl (ValueError ''empty host'')
        else bindE
          (if CHR '':'' \<in> set addr
           then (case rpartition_on CHR '':'' addr of (host, port_s) \<Rightarrow>
                  let host = str_strip host in
                  if host = [] then Inl (ValueError ''empty host before colon'')
                  else bindE (text_int port_s) (\<lambda>port. Inr (host, port)))
           else Inr (addr, default_port))
          (\<lambda>(host, port).
            if \<not> (0 < port \<and> port < 65536) then Inl (ValueError ''port out of range'')
            else Inr \<lparr>ep_host = host, ep_port = port, ep_pin = pin\<rparr>)))"

text \<open>The loop of \<^verbatim>\<open>parse_endpoints\<close>, with the keys seen so far.\<close>

fun parse_tokens :: "string list \<Rightarrow> int \<Rightarrow> string list \<Rightarrow> exn + endpoint list" where
  "parse_tokens [] p seen = Inr []"
| "parse_tokens (tok # toks) p seen =
     (if str_strip tok = [] then parse_tokens toks p seen
      else bindE (parse_one (str_strip tok) p) (\<lambda>e.
        if ep_key e \<in> set seen then parse_tokens toks p seen
        else bindE (parse_tokens toks p (ep_key e # seen)) (\<lambda>es. Inr (e # es))))"

definition parse_endpoints :: "string \<Rightarrow> int \<Rightarrow> exn + endpoint list" where
  "parse_endpoints spec p = (if spec = [] then Inr [] else parse_tokens (split_on CHR '','' spec) p [])"

definition resolve_endpoints :: "string option \<Rightarrow> int \<Rightarrow> (string, string) pydict \<Rightarrow> exn + endpoint list" where
  "resolve_endpoints host_arg p env =
     (case host_arg of
        None \<Rightarrow> parse_endpoints (dget env COORDS_ENV []) p
      | Some h \<Rightarrow> if h \<noteq> [] then parse_endpoints h p else parse_endpoints (dget env COORDS_ENV []) p)"

definition effective_pin :: "endpoint \<Rightarrow> string option \<Rightarrow> string option" where
  "effective_pin e global_pin = (case ep_pin e of Some p \<Rightarrow> if p \<noteq> [] then Some p else global_pin | None \<Rightarrow> global_pin)"

subsection \<open>The failover policy\<close>

record rotator =
  ro_eps :: "endpoint list"
  ro_pref_decay :: int
  ro_preferred_key :: "string option"
  ro_pref_fail_streak :: nat

fun keep_first :: "string list \<Rightarrow> endpoint list \<Rightarrow> endpoint list" where
  "keep_first seen [] = []"
| "keep_first seen (e # es) = (if ep_key e \<in> set seen then keep_first seen es else e # keep_first (ep_key e # seen) es)"

definition new_rotator :: "endpoint list \<Rightarrow> int \<Rightarrow> exn + rotator" where
  "new_rotator eps pref_decay =
     (if eps = [] then Inl (ValueError ''FailoverRotator needs at least one endpoint'')
      else Inr \<lparr>ro_eps = keep_first [] eps, ro_pref_decay = max 1 pref_decay, ro_preferred_key = None, ro_pref_fail_streak = 0\<rparr>)"

definition preferred_door :: "rotator \<Rightarrow> endpoint option" where
  "preferred_door r = (case ro_preferred_key r of
     None \<Rightarrow> None
   | Some k \<Rightarrow> if k = [] then None else find (\<lambda>e. ep_key e = k) (ro_eps r))"

definition try_order :: "rotator \<Rightarrow> endpoint list" where
  "try_order r = (case preferred_door r of
     None \<Rightarrow> ro_eps r
   | Some e \<Rightarrow> if ro_pref_decay r \<le> int (ro_pref_fail_streak r) then ro_eps r
       else e # filter (\<lambda>d. ep_key d \<noteq> ep_key e) (ro_eps r))"

definition note_session :: "endpoint \<Rightarrow> rotator \<Rightarrow> rotator" where
  "note_session e r = r\<lparr>ro_preferred_key := Some (ep_key e), ro_pref_fail_streak := 0\<rparr>"

definition note_failure :: "endpoint \<Rightarrow> rotator \<Rightarrow> rotator" where
  "note_failure e r =
     (if ro_preferred_key r = Some (ep_key e) then r\<lparr>ro_pref_fail_streak := ro_pref_fail_streak r + 1\<rparr> else r)"

end
