(* ===== verification/Endpoint_Props.thy ===== *)
theory Endpoint_Props
  imports Endpoints Lane_Name_Facts "HOL-Library.Multiset"
begin

text \<open>
  Properties of the door list and of the failover policy: the key of a door reads back, a list that was
  parsed has usable and distinct doors, and every order of tries is the whole list.
\<close>

subsection \<open>Texts\<close>

lemma strip_edges: "s \<noteq> [] \<Longrightarrow> \<not> is_space (hd s) \<Longrightarrow> \<not> is_space (last s) \<Longrightarrow> str_strip s = s"
proof -
  assume s: "s \<noteq> []" "\<not> is_space (hd s)" "\<not> is_space (last s)"
  have "dropWhile is_space s = s" using s(1,2) by (cases s) simp_all
  moreover have "dropWhile is_space (rev s) = rev s" using s(1,3) by (cases s rule: rev_cases) simp_all
  ultimately show ?thesis by (simp add: str_strip_def)
qed

lemma strip_fixed: "str_strip s \<noteq> [] \<Longrightarrow> \<not> is_space (hd (str_strip s)) \<and> \<not> is_space (last (str_strip s))"
proof -
  let ?d = "dropWhile is_space s" and ?e = "dropWhile is_space (rev (dropWhile is_space s))"
  assume ne: "str_strip s \<noteq> []"
  then have e: "?e \<noteq> []" by (simp add: str_strip_def)
  then have d: "?d \<noteq> []" by (metis dropWhile.simps(1) rev.simps(1))
  have "last (str_strip s) = hd ?e" by (simp add: str_strip_def last_rev)
  moreover have "\<not> is_space (hd ?e)" using hd_dropWhile [OF e] .
  moreover have "hd (str_strip s) = last ?e" by (simp add: str_strip_def hd_rev)
  moreover have "last ?e = last (rev ?d)"
  proof -
    have "rev ?d = takeWhile is_space (rev ?d) @ ?e" by (simp only: takeWhile_dropWhile_id)
    then show ?thesis using e last_appendR by metis
  qed
  moreover have "last (rev ?d) = hd ?d" by (simp add: last_rev)
  moreover have "\<not> is_space (hd ?d)" using hd_dropWhile [OF d] .
  ultimately show ?thesis by simp
qed

lemma strip_subset: "set (str_strip s) \<subseteq> set s"
proof
  fix x assume "x \<in> set (str_strip s)"
  then have "x \<in> set (dropWhile is_space (rev (dropWhile is_space s)))" by (simp add: str_strip_def)
  then show "x \<in> set s" by (metis set_dropWhileD set_rev)
qed

lemma rpartition_append: "c \<notin> set q \<Longrightarrow> rpartition_on c (p @ c # q) = (p, q)"
  by (simp add: rpartition_on_def) (simp add: takeWhile_append dropWhile_append)

lemma rpartition_parts:
  assumes "c \<in> set s" "rpartition_on c s = (p, q)"
  shows "s = p @ c # q \<and> c \<notin> set q"
proof -
  obtain a b where ab: "s = a @ c # b" "c \<notin> set b" using split_list_last [OF assms(1)] by blast
  then show ?thesis using assms(2) rpartition_append [of c b a] by auto
qed

subsection \<open>Keys\<close>

text \<open>What a parsed endpoint is: a port in range, and a host that is a stripped text without a hash
  sign.\<close>

definition door_ok :: "endpoint \<Rightarrow> bool" where
  "door_ok e \<longleftrightarrow> 0 < ep_port e \<and> ep_port e < 65536 \<and> ep_host e \<noteq> [] \<and> CHR ''#'' \<notin> set (ep_host e)
     \<and> str_strip (ep_host e) = ep_host e"

lemma strip_idem: "str_strip (str_strip s) = str_strip s"
proof (cases "str_strip s = []")
  case True
  then show ?thesis by (simp only: True) (simp add: str_strip_def)
next
  case False
  then show ?thesis using strip_fixed [OF False] strip_edges [OF False] by blast
qed

lemma parse_one_ok:
  assumes "parse_one token p = Inr e"
  shows "door_ok e"
proof -
  obtain addr pin host where parts: "split_pin (str_strip token) = Inr (addr, pin)" "str_strip addr \<noteq> []"
      "(if CHR '':'' \<in> set (str_strip addr)
        then (case rpartition_on CHR '':'' (str_strip addr) of (host, port_s) \<Rightarrow>
               let host = str_strip host in
               if host = [] then Inl (ValueError ''empty host before colon'')
               else bindE (text_int port_s) (\<lambda>port. Inr (host, port)))
        else Inr (str_strip addr, p)) = Inr (host, ep_port e)" "0 < ep_port e \<and> ep_port e < 65536" "ep_host e = host"
    using assms by (auto simp: parse_one_def Let_def bindE_Inr_iff split: if_splits)
  have free: "CHR ''#'' \<notin> set addr" using parts(1)
    by (auto simp: split_pin_def partition_on_def Let_def bindE_Inr_iff split: if_splits dest: set_takeWhileD)
  have host: "str_strip host = host" "host \<noteq> []" "set host \<subseteq> set addr"
  proof -
    obtain a b where ab: "rpartition_on CHR '':'' (str_strip addr) = (a, b)" by fastforce
    have "set a \<subseteq> set addr" if "CHR '':'' \<in> set (str_strip addr)"
      using rpartition_parts [OF that ab] strip_subset [of addr] by auto
    then show "str_strip host = host" "host \<noteq> []" "set host \<subseteq> set addr"
      using parts(2,3) ab strip_subset [of a] strip_subset [of addr] strip_idem
      by (auto simp: Let_def bindE_Inr_iff split: if_splits)
  qed
  then show ?thesis using parts(4,5) free by (auto simp: door_ok_def)
qed

lemma port_chars:
  assumes "c \<in> set (int_str n)"
  shows "c \<noteq> CHR ''#'' \<and> c \<noteq> CHR '':'' \<and> \<not> is_space c"
  using int_str_chars [OF assms] by (auto simp: is_digit_def is_space_def Let_def)

lemma key_strip:
  assumes "door_ok e"
  shows "str_strip (ep_key e) = ep_key e"
proof (rule strip_edges)
  have h: "ep_host e \<noteq> []" "str_strip (ep_host e) = ep_host e" using assms by (simp_all add: door_ok_def)
  show "ep_key e \<noteq> []" by (simp add: ep_key_def)
  show "\<not> is_space (hd (ep_key e))" using h strip_fixed [of "ep_host e"] by (simp add: ep_key_def)
  have "last (ep_key e) = last (int_str (ep_port e))" by (simp add: ep_key_def)
  then show "\<not> is_space (last (ep_key e))" using port_chars [OF last_in_set, of "ep_port e"] by simp
qed

lemma key_pin:
  assumes "door_ok e"
  shows "split_pin (ep_key e) = Inr (ep_key e, None)"
proof -
  have "CHR ''#'' \<notin> set (ep_key e)" using assms port_chars by (auto simp: ep_key_def door_ok_def)
  then show ?thesis by (simp add: split_pin_def partition_on_def)
qed

lemma key_parts: "rpartition_on CHR '':'' (ep_key e) = (ep_host e, int_str (ep_port e))"
  unfolding ep_key_def using port_chars by (intro rpartition_append) blast

lemma key_parses:
  assumes "door_ok e"
  shows "parse_one (ep_key e) p = Inr (e\<lparr>ep_pin := None\<rparr>)"
proof -
  have h: "ep_host e \<noteq> []" "str_strip (ep_host e) = ep_host e" "0 < ep_port e" "ep_port e < 65536"
    using assms by (simp_all add: door_ok_def)
  have "ep_key e \<noteq> []" "CHR '':'' \<in> set (ep_key e)" by (simp_all add: ep_key_def)
  then show ?thesis using h
    by (simp add: parse_one_def Let_def key_strip [OF assms] key_pin [OF assms] key_parts text_int_def)
qed

text \<open>\<^verbatim>\<open>EndpointSpec.key\<close>, the identity under which a miner remembers a door, is itself an
  address: parsing the key of any endpoint that parsed, whatever default port is given, yields the same
  host and the same port, and no pin.\<close>

theorem a_door_key_reads_back:
  assumes "parse_one token p = Inr e"
  shows "parse_one (ep_key e) p' = Inr (e\<lparr>ep_pin := None\<rparr>)"
  using parse_one_ok [OF assms] by (rule key_parses)

theorem a_door_key_reads_back_witness:
  "parse_one ''pool:90'' 80 = Inr \<lparr>ep_host = ''pool'', ep_port = 90, ep_pin = None\<rparr>"
proof -
  have key: "ep_key \<lparr>ep_host = ''pool'', ep_port = 90, ep_pin = None\<rparr> = ''pool:90''"
    by (simp add: ep_key_def int_str_def nat_str.simps char_of_def bit_simps)
  have parsed: "parse_one '' pool'' 90 = Inr \<lparr>ep_host = ''pool'', ep_port = 90, ep_pin = None\<rparr>"
    by (simp add: parse_one_def Let_def split_pin_def partition_on_def str_strip_def is_space_def)
  show ?thesis using a_door_key_reads_back [OF parsed, of 80] by (simp add: key)
qed

subsection \<open>Lists of doors\<close>

lemma parse_tokens_distinct:
  "parse_tokens toks p seen = Inr es \<Longrightarrow> distinct (map ep_key es) \<and> set (map ep_key es) \<inter> set seen = {}"
proof (induction toks p seen arbitrary: es rule: parse_tokens.induct)
  case (2 tok toks p seen)
  show ?case
  proof (cases "str_strip tok = []")
    case False
    then obtain e where e: "parse_one (str_strip tok) p = Inr e" using 2(4) by (auto simp: bindE_Inr_iff)
    show ?thesis
    proof (cases "ep_key e \<in> set seen")
      case True
      then show ?thesis using 2(2) [OF False True] 2(4) False e by simp
    next
      case new: False
      then obtain rest where rest: "parse_tokens toks p (ep_key e # seen) = Inr rest" "es = e # rest"
        using 2(4) False e by (auto simp: bindE_Inr_iff)
      show ?thesis using 2(3) [OF False new rest(1)] new rest(2) by auto
    qed
  qed (use 2 in simp)
qed simp

lemma parse_tokens_ok: "parse_tokens toks p seen = Inr es \<Longrightarrow> e \<in> set es \<Longrightarrow> door_ok e"
proof (induction toks p seen arbitrary: es rule: parse_tokens.induct)
  case (2 tok toks p seen)
  show ?case
  proof (cases "str_strip tok = []")
    case False
    then obtain d where d: "parse_one (str_strip tok) p = Inr d" using 2(4) by (auto simp: bindE_Inr_iff)
    show ?thesis
    proof (cases "ep_key d \<in> set seen")
      case True
      then show ?thesis using 2(2) [OF False True] 2(4,5) False d by simp
    next
      case new: False
      then obtain rest where rest: "parse_tokens toks p (ep_key d # seen) = Inr rest" "es = d # rest"
        using 2(4) False d by (auto simp: bindE_Inr_iff)
      then show ?thesis using 2(3) [OF False new rest(1)] 2(5) parse_one_ok [OF d] by auto
    qed
  qed (use 2 in simp)
qed simp

text \<open>Every order of tries is the whole list, each door once.\<close>

lemma keep_first_keys: "distinct (map ep_key (keep_first seen es)) \<and> set (map ep_key (keep_first seen es)) = ep_key ` set es - set seen"
proof (induction seen es rule: keep_first.induct)
  case (2 seen e es)
  then show ?case by (cases "ep_key e \<in> set seen") auto
qed simp

definition rotator_ok :: "rotator \<Rightarrow> bool" where
  "rotator_ok r \<longleftrightarrow> ro_eps r \<noteq> [] \<and> distinct (map ep_key (ro_eps r))"

lemma new_rotator_ok: "new_rotator eps n = Inr r \<Longrightarrow> rotator_ok r"
  using keep_first_keys [of "[]" eps] by (cases eps) (auto simp: new_rotator_def rotator_ok_def)

lemma note_session_ok [simp]: "rotator_ok (note_session e r) = rotator_ok r"
  by (simp add: note_session_def rotator_ok_def)

lemma note_failure_ok [simp]: "rotator_ok (note_failure e r) = rotator_ok r"
  by (simp add: note_failure_def rotator_ok_def)

lemma preferred_door_member: "preferred_door r = Some e \<Longrightarrow> e \<in> set (ro_eps r) \<and> ro_preferred_key r = Some (ep_key e)"
  by (auto simp: preferred_door_def find_Some_iff split: option.splits if_splits)

lemma try_order_doors:
  assumes "rotator_ok r"
  shows "set (try_order r) = set (ro_eps r) \<and> distinct (map ep_key (try_order r))"
proof (cases "preferred_door r")
  case (Some e)
  have d: "distinct (map ep_key (ro_eps r))" using assms by (simp add: rotator_ok_def)
  have same: "x = e" if "x \<in> set (ro_eps r)" "ep_key x = ep_key e" for x
    using d that preferred_door_member [OF Some] by (auto simp: distinct_map inj_on_def)
  have "distinct (map ep_key (filter (\<lambda>d. ep_key d \<noteq> ep_key e) (ro_eps r)))"
    using d by (auto simp: distinct_map inj_on_def)
  then show ?thesis using Some assms preferred_door_member [OF Some] same d by (auto simp: try_order_def)
qed (use assms in \<open>simp add: try_order_def rotator_ok_def\<close>)

text \<open>A session of the miner with its doors: each dial ends in a session or in a failure at a door.\<close>

datatype dial = Session endpoint | Failure endpoint

fun dialled :: "dial list \<Rightarrow> rotator \<Rightarrow> rotator" where
  "dialled [] r = r"
| "dialled (Session e # ds) r = dialled ds (note_session e r)"
| "dialled (Failure e # ds) r = dialled ds (note_failure e r)"

lemma dialled_eps [simp]: "ro_eps (dialled ds r) = ro_eps r" "ro_pref_decay (dialled ds r) = ro_pref_decay r"
  by (induction ds r rule: dialled.induct) (simp_all add: note_session_def note_failure_def)

lemma dialled_append: "dialled (ds @ es) r = dialled es (dialled ds r)"
  by (induction ds r rule: dialled.induct) simp_all

lemma dialled_ok [simp]: "rotator_ok (dialled ds r) = rotator_ok r"
  by (simp add: rotator_ok_def)

text \<open>The door preferred after a session, with failures at it since.\<close>

fun failures_at :: "string \<Rightarrow> dial list \<Rightarrow> nat" where
  "failures_at k [] = 0"
| "failures_at k (Session e # ds) = failures_at k ds"
| "failures_at k (Failure e # ds) = (if ep_key e = k then 1 else 0) + failures_at k ds"

lemma failures_counted:
  "ro_preferred_key r = Some k \<Longrightarrow> list_all (\<lambda>d. case d of Session _ \<Rightarrow> False | Failure _ \<Rightarrow> True) ds
     \<Longrightarrow> ro_preferred_key (dialled ds r) = Some k
       \<and> ro_pref_fail_streak (dialled ds r) = ro_pref_fail_streak r + failures_at k ds"
proof (induction ds r rule: dialled.induct)
  case (3 e ds r)
  have "ro_preferred_key (note_failure e r) = Some k" using 3(2) by (simp add: note_failure_def)
  from 3(1) [OF this] 3(2,3) show ?case by (auto simp: note_failure_def)
qed simp_all

lemma find_own_key:
  "distinct (map ep_key es) \<Longrightarrow> e \<in> set es \<Longrightarrow> find (\<lambda>d. ep_key d = ep_key e) es = Some e"
  by (induction es) (auto simp: image_iff)

text \<open>C35: The order of tries after any history of sessions and failures is a permutation of the
  doors of the rotator, so no door is skipped and none is dialled twice in a sweep; and when the history
  ends with a session at a door of the list followed by failures only, that door is dialled first exactly as
  long as it failed fewer than \<^verbatim>\<open>pref_decay\<close> times since, and otherwise the order is the list as it was
  given.\<close>

theorem last_served_door_first_until_it_decays:
  assumes "new_rotator eps n = Inr r0" "e \<in> set (ro_eps r0)"
    and "list_all (\<lambda>d. case d of Session _ \<Rightarrow> False | Failure _ \<Rightarrow> True) fails"
    and "r = dialled (past @ Session e # fails) r0"
  shows "mset (try_order r) = mset (ro_eps r0)
    \<and> (if int (failures_at (ep_key e) fails) < max 1 n then hd (try_order r) = e else try_order r = ro_eps r0)"
proof -
  let ?s = "note_session e (dialled past r0)"
  have ok: "rotator_ok r0" by (rule new_rotator_ok [OF assms(1)])
  have r: "r = dialled fails ?s" using assms(4) by (simp add: dialled_append)
  have eps: "ro_eps r = ro_eps r0" "ro_pref_decay r = max 1 n"
    using assms(1) by (auto simp: r note_session_def new_rotator_def split: if_splits)
  have okr: "rotator_ok r" using ok by (simp add: rotator_ok_def eps(1))
  have key: "ro_preferred_key ?s = Some (ep_key e)" by (simp add: note_session_def)
  have streak: "ro_preferred_key r = Some (ep_key e)" "ro_pref_fail_streak r = failures_at (ep_key e) fails"
    using failures_counted [OF key assms(3)] by (simp_all add: r note_session_def)
  have pref: "preferred_door r = Some e"
    using find_own_key [of "ro_eps r" e] okr assms(2) streak(1)
    by (simp add: preferred_door_def eps(1) rotator_ok_def ep_key_def)
  have "mset (try_order r) = mset (ro_eps r0)"
    using try_order_doors [OF okr] okr eps(1)
    by (metis distinct_map rotator_ok_def set_eq_iff_mset_eq_distinct)
  moreover have "if int (failures_at (ep_key e) fails) < max 1 n then hd (try_order r) = e else try_order r = ro_eps r0"
    using pref by (auto simp: try_order_def eps streak(2))
  ultimately show ?thesis by blast
qed

definition door_a :: endpoint where "door_a = \<lparr>ep_host = ''a'', ep_port = 1, ep_pin = None\<rparr>"
definition door_b :: endpoint where "door_b = \<lparr>ep_host = ''b'', ep_port = 2, ep_pin = None\<rparr>"

theorem last_served_door_first_until_it_decays_witness:
  "mset (try_order (dialled [Session door_b, Failure door_a, Failure door_b]
       \<lparr>ro_eps = [door_a, door_b], ro_pref_decay = 2, ro_preferred_key = None, ro_pref_fail_streak = 0\<rparr>))
     = mset [door_a, door_b]
   \<and> hd (try_order (dialled [Session door_b, Failure door_a, Failure door_b]
       \<lparr>ro_eps = [door_a, door_b], ro_pref_decay = 2, ro_preferred_key = None, ro_pref_fail_streak = 0\<rparr>)) = door_b"
proof -
  let ?r = "\<lparr>ro_eps = [door_a, door_b], ro_pref_decay = 2, ro_preferred_key = None, ro_pref_fail_streak = 0\<rparr>"
  have keys: "ep_key door_a \<noteq> ep_key door_b" by (simp add: ep_key_def door_a_def door_b_def)
  have r: "new_rotator [door_a, door_b] 2 = Inr ?r" using keys by (simp add: new_rotator_def)
  have m: "door_b \<in> set (ro_eps ?r)" by simp
  have f: "list_all (\<lambda>d. case d of Session _ \<Rightarrow> False | Failure _ \<Rightarrow> True) [Failure door_a, Failure door_b]" by simp
  have "int (failures_at (ep_key door_b) [Failure door_a, Failure door_b]) < max 1 2" using keys by simp
  then show ?thesis using last_served_door_first_until_it_decays [OF r m f refl, of "[]"] by (simp only: append_Nil if_True) simp
qed

text \<open>\<^verbatim>\<open>parse_endpoints\<close> of any list text that it accepts yields doors that can be dialled: every
  one has a non-empty host without surrounding space and a port between 1 and 65535, and no two have the same
  key, also when the list repeats a door with another pin.\<close>

theorem parsed_doors_are_usable_and_distinct:
  assumes "parse_endpoints spec p = Inr es"
  shows "distinct (map ep_key es) \<and> list_all door_ok es"
proof (cases "spec = []")
  case False
  then have "parse_tokens (split_on CHR '','' spec) p [] = Inr es" using assms by (simp add: parse_endpoints_def)
  then show ?thesis using parse_tokens_distinct parse_tokens_ok by (auto simp: list_all_iff)
qed (use assms in \<open>simp add: parse_endpoints_def\<close>)

theorem parsed_doors_are_usable_and_distinct_witness:
  "parse_endpoints '' pool ,,pool, b '' 90 =
     Inr [\<lparr>ep_host = ''pool'', ep_port = 90, ep_pin = None\<rparr>, \<lparr>ep_host = ''b'', ep_port = 90, ep_pin = None\<rparr>]
   \<and> list_all door_ok [\<lparr>ep_host = ''pool'', ep_port = 90, ep_pin = None\<rparr>, \<lparr>ep_host = ''b'', ep_port = 90, ep_pin = None\<rparr>]"
proof -
  have parsed: "parse_endpoints '' pool ,,pool, b '' 90 =
     Inr [\<lparr>ep_host = ''pool'', ep_port = 90, ep_pin = None\<rparr>, \<lparr>ep_host = ''b'', ep_port = 90, ep_pin = None\<rparr>]"
    by (simp add: parse_endpoints_def parse_one_def Let_def split_pin_def partition_on_def str_strip_def is_space_def ep_key_def)
  show ?thesis using parsed parsed_doors_are_usable_and_distinct [OF parsed] by blast
qed

subsection \<open>A fault\<close>

text \<open>A door whose preference has decayed is still what \<^verbatim>\<open>preferred\<close> returns, although its comment
  says \<^verbatim>\<open>None\<close> then; only the order of tries passes over it.\<close>

theorem decayed_door_is_still_preferred:
  "let r = dialled [Session door_b, Failure door_b, Failure door_b]
       \<lparr>ro_eps = [door_a, door_b], ro_pref_decay = 2, ro_preferred_key = None, ro_pref_fail_streak = 0\<rparr>
   in preferred_door r = Some door_b \<and> try_order r = [door_a, door_b]"
proof -
  have keys: "ep_key door_a \<noteq> ep_key door_b" "ep_key door_b \<noteq> []" by (simp_all add: ep_key_def door_a_def door_b_def)
  then show ?thesis by (simp add: Let_def note_session_def note_failure_def preferred_door_def try_order_def)
qed

end
