(* ===== verification/Spec2Isabelle.thy ===== *)
theory Spec2Isabelle
  imports Ledger_Props Settlement_Props Sequencer_Props Chain_Props Clock_Props Merge_Props Registry_Props
    Stream_Props Shard_Props Committee_Props Round_Props Release_Props Recompute_Props Lane_Name_Props Claim_Walk_Props Claim_State_Props
    Lane_Props Vram_Props Endpoint_Props
begin

text \<open>
  A verification development of neurahash-miner, a Python program that pools many machines into one
  training run of a sparse language model and pays them for it on a small ledger of its own.

  \<^bold>\<open>The program.\<close> A round of the pool goes through these parts, from the work to the coins:

  \<^item> miners hold some experts of the model (slots), follow the coordinator's accepted records, train, and
    publish deltas on a \<^emph>\<open>lane\<close>, an unsigned object store
    (\<^verbatim>\<open>tools/sharddiloco_glm_contributor.py\<close>, \<^verbatim>\<open>tools/sharddiloco_glm_expert.py\<close>);
  \<^item> a coordinator polls the contributions, merges those that lower a held-out loss, and attributes the
    gain (\<^verbatim>\<open>neurahash/diloco_merge.py\<close>); workers can be checked by recomputation, by a Merkle challenge
    or by a committee (\<^verbatim>\<open>verification.py\<close>, \<^verbatim>\<open>quorum.py\<close>, \<^verbatim>\<open>merkle_verify.py\<close>, \<^verbatim>\<open>diloco_committee.py\<close>);
  \<^item> who coordinates a round is elected over a commit-reveal clock (\<^verbatim>\<open>diloco_clock.py\<close>,
    \<^verbatim>\<open>diloco_round_authority.py\<close>, \<^verbatim>\<open>neura_l1/pool_sequencer.py\<close>);
  \<^item> the payment is authorized by a quorum of validators and settled in a signed chain
    (\<^verbatim>\<open>diloco_settlement.py\<close>, \<^verbatim>\<open>chain_settlement.py\<close>), on the ledger with its bonds, slashes and
    upgrades (\<^verbatim>\<open>neura_l1/block_state.py\<close>, \<^verbatim>\<open>signing.py\<close>); guardians can halt it (\<^verbatim>\<open>guardian_halt.py\<close>);
  \<^item> the software of the miners updates itself from signed releases (\<^verbatim>\<open>tools/self_update.py\<close>).

  \<^bold>\<open>How the code is translated.\<close> A method that changes an object returns the object as it is afterwards,
  also where it raises; an exception is the left side of a sum (\<open>exn + 'a\<close>), a refusal with a reason is a
  constructor of the component. A dictionary is an association list in insertion order (\<open>pydict\<close>), a
  decoded JSON value is \<open>json\<close>, with its own constructor for a float that is not finite. A float is the
  rational it denotes and every operation is the exact one followed by \<open>rnd64\<close> (theory Py_Float);
  where a NaN or an infinity can get into arithmetic (losses, clocks, environment values) the type is
  \<open>xfloat\<close> (theory Merge_Arrays). Python's integers are \<open>int\<close>. Texts that only go to logs are left out.

  \<^bold>\<open>Parameters.\<close> Code that is not in the repository is an argument of the definitions that use it:
  \<open>world\<close> (JSON serialisation, SHA-256, signature recovery, post-quantum verification, the vote-fault
  verifier, the text of a float), \<open>election\<close> (the proof-of-work gate and its weights), \<open>numpy\<close> and
  \<open>tensors\<close> (arrays), \<open>learner\<close> (the neural model of a worker), the evaluation of a held-out loss, the
  HTTP reads and the transport to a verifier, \<open>disk\<close>, \<open>host\<close> and \<open>updater\<close> (files, git, pip, restart, as
  operations on an outside state with a trace), \<open>lane_net\<close> (each call to the lane has an answer that
  arrives after some time or never, and every reading of the clock may come later than the last), and
  Python's reading of a float from a text. What is assumed of them is a named hypothesis: \<open>numpy_ok\<close>,
  \<open>tensors_ok\<close>, authenticity of signatures, absence of a hash collision. Every property that has one
  has a witness with a concrete instance.

  \<^bold>\<open>The theories.\<close> Each component has a theory with its data and operations, one with facts, and one
  with its properties.

  \<^item> Py_Float, Prelude, Py_Text: binary64 rounding and its error bounds; dictionaries, JSON, strings, and
    the contracts the components share as locales: \<open>keeps_invariant\<close> (a step keeps an invariant),
    \<open>monotone_steps\<close> (a quantity no step lowers), \<open>majority\<close> (two strict majorities meet); and in
    Py_Float \<open>monotone_rounding\<close>. They are interpreted on the guardian halt, the maturing of
    withdrawals, the reward split, nonces and faults, the stake weights, the settlement chain, publish
    stamps, slot clocks, the committee, the configuration, the validator quorum and the slot registry.
  \<^item> Sig_Scheme, Signing, Chain_Data (\<^verbatim>\<open>sig_scheme.py\<close>, \<^verbatim>\<open>signing.py\<close>, \<^verbatim>\<open>block_state.py\<close>: \<^verbatim>\<open>Tx\<close>,
    \<^verbatim>\<open>BlockHeader\<close>, \<^verbatim>\<open>Block\<close>): messages, recovery, commitments, equivocation proofs; records with their
    hashes and dictionaries.
  \<^item> Ledger, Ledger_Block (\<^verbatim>\<open>block_state.py\<close>: \<^verbatim>\<open>State\<close>): one definition per \<^verbatim>\<open>_apply_*\<close> branch, then
    \<open>apply_tx\<close>, \<open>apply_block\<close> with the upgrade campaign, the reward and the retarget. The facts are in
    Ledger_Facts (non-negativity, refusals), Ledger_Block_Facts (release heights), Ledger_Security
    (nonces, signatures, slashes), Ledger_Supply (conservation on the grid of multiples of \<open>2^-22\<close> up
    to \<open>2^31\<close>, where float sums are exact), Ledger_Drift (the rounding of the supply in every other run),
    Ledger_Unbonding (a queued withdrawal over a run of blocks, and the slash that takes it), Ledger_Cap
    (the emission cap) and Ledger_Policy (retarget, campaign, dictionaries); the properties in Ledger_Props.
  \<^item> Guardian, Sequencer, Settlement, Chain_Settlement, Clock with their facts and properties: halts, the
    elected proposer and its audits, the M-of-N and stake-weighted authorization, the chain with replay,
    enforcement and persistence, the commit-reveal agreement.
  \<^item> Round_Authority, Round_Facts, Round_Props: the composition of clock, election, settlement and chain
    in one round with both failovers; a completed round leaves all replicas equal.
  \<^item> Merge_Arrays, Merge_Gate, Merge_Registry, Merge_Stream, Shard_Round: the held-out gate for one delta
    and for a batch (both instances of the contract \<open>descent\<close>), the contribution registry, fragments,
    pointers and stamps, and the sharded round with its payment.
  \<^item> Incentives, Committee, Merkle, Recompute: the sampling threshold, the attestations, the challenge
    and the recomputing validators.
  \<^item> Release_Manifest, Release_Reclaim, Release_Update: verification of a release, the removal of obsolete
    files, the update and the startup sync.
  \<^item> Lane_Names, Claim_Walk, Claim_State: the names on the lane and their campaigns, the walk through the
    claimable experts, the dose ladder, the parks and what survives a restart.
  \<^item> Lane_Host, Lane_Replica, Lane_Catchup: the registry of slots and the expert weights
    (\<^verbatim>\<open>GlmExpertLaneHost\<close>), the fold of an accepted record with re-gate and rollback, the replay towards
    a root with its bounds, the advance to another expert, the catch-up, and the stale-lane detector.
    Lane_Host_Facts and Lane_Replica_Facts prove the frame of a write (\<open>same_frame\<close>, \<open>agree_off\<close>): the
    view holds the old weights of every slot it wrote, so that a rollback is exact; Lane_Catchup_Facts
    carries that through the loops, and gives the folds of a catch-up as the relation \<open>folded_run\<close>, each
    step of which is a \<open>checked_step\<close> of its own event's record.
  \<^item> Vram (\<^verbatim>\<open>vram_autotune.py\<close>, \<^verbatim>\<open>vram_manager.py\<close>) and Endpoints (\<^verbatim>\<open>endpoints.py\<close>), on the side of the
    miner: how many training units it holds for a sequence of memory readings, and which coordinator
    address it tries next.

  \<^bold>\<open>What the properties show.\<close> Ledger: amounts are never negative, transactions conserve the supply up to a
  bound on the rounding, are authentic and never applied twice, withdrawals stay queued and slashable,
  honest proposers are not slashed, the cap, the upgrade rule. Settlement: approvals meet, unapproved
  verdicts pay nobody, an exported chain re-verifies and yields the live balances. Rounds: agreement is
  independent of arrival (but for the list of rejected reveals), later views need timeouts, replicas stay
  equal, honest rounds complete. Merging and checking: what a gate accepts lowers the loss, honest
  workers pass unless their delta holds a NaN, a deciding quorum is right and slashes accordingly.
  Releases: only signed code runs, removal is confined, the replay floor never falls. Lane: campaigns are
  separate, a fold that does not reproduce the roots it advertises leaves the replica as it was, a replay
  that returns without its root changes nothing, the catch-up folds each event's own record without a
  gap, a slot index is for life, the walk reaches every claimable expert, what a restart keeps of the
  parks. Where the code does less than its comments say (records without roots, a replay that raises, a
  ledger of halts that cannot be read, parks with events left), the property names the case.
  Miner: the units held always fit the last reading, every sweep tries every door once.
  Beside them each \<open>_Props\<close> theory proves the faults the model shows, as theorems on small examples.

  \<^bold>\<open>Bounds.\<close> Nearly every loop of the code runs over a list and is a structural recursion. The levels of a
  Merkle tree recurse on their length (a termination proof; the number of rounds is a property). The
  forward scan for accepted events counts down from the code's own \<^verbatim>\<open>max_scan\<close>. There is no other fuel.

  \<^bold>\<open>Not modelled.\<close> Tensor code and training (\<^verbatim>\<open>model.py\<close>, \<^verbatim>\<open>neurahash_torch\<close>, the trainers in the
  contributor, \<^verbatim>\<open>expert_sharding.py\<close>, \<^verbatim>\<open>gpu_miner.py\<close>), whose content is torch and numpy; the codecs of
  deltas (\<^verbatim>\<open>delta_codec.py\<close>, \<^verbatim>\<open>wire_compress.py\<close>, \<^verbatim>\<open>safe_codec.py\<close>), which are array quantisation and
  container formats; sockets, TLS, wallets and key files, post-quantum bindings, downloads and
  installers, which are input and output; the remaining command-line tools of the lane and the main loop
  of the miner, which connects the modelled parts with training and network. The ways in which threads
  of one process interleave are not modelled; a call that is abandoned at its deadline is, as an answer
  that is ignored.
\<close>

end
